(* ===== verification/Prelude.thy ===== *)
theory Prelude
  imports Main "HOL-Library.Char_ord"
begin

text \<open>
  Shared vocabulary of the development: the error hierarchy of
  packages/shared/src/errors.ts, JavaScript's rounding, string helpers, and tables.

  A database table is a list of row records in insertion order. A Prisma query is a list
  operation on it: \<open>findUnique\<close> and \<open>findFirst\<close> are \<open>List.find\<close> (over a sorted copy when the
  query has an \<open>orderBy\<close>), \<open>count\<close> is \<open>count_where\<close>, \<open>update\<close> and \<open>updateMany\<close> are
  \<open>update_where\<close>, and \<open>create\<close> appends. Identifiers (UUIDs in the source) are natural
  numbers drawn from a counter, so a created row has an identifier no row had before.
  Times are integers, milliseconds since the epoch, and amounts are integers in minor
  units.
\<close>

section \<open>Types\<close>

type_synonym id = nat
type_synonym time = int
type_synonym minor = int

text \<open>
  The thrown errors: the classes of errors.ts by their message, the two errors the database
  client raises (a unique constraint, a missing row), JavaScript's \<open>RangeError\<close>, and any
  other \<open>Error\<close>. The optional details record of an error is left out.
\<close>

datatype app_error =
    ValidationError string
  | UnauthorizedError string
  | ForbiddenError string
  | NotFoundError string
  | ConflictError string
  | RateLimitedError "nat option"
  | TenantSuspendedError string
  | TenantPendingApprovalError string
  | TenantTrialExpiredError string
  | MaintenanceModeError string "string option"
  | AccountLockedError time
  | UniqueViolation
  | RecordNotFound
  | RangeError string
  | UnexpectedError string

fun isAppError :: "app_error \<Rightarrow> bool" where
  "isAppError UniqueViolation = False"
| "isAppError RecordNotFound = False"
| "isAppError (RangeError _) = False"
| "isAppError (UnexpectedError _) = False"
| "isAppError _ = True"

text \<open>The class's code and HTTP status.\<close>

fun app_error_code :: "app_error \<Rightarrow> (string \<times> nat) option" where
  "app_error_code (ValidationError _) = Some (''VALIDATION_ERROR'', 422)"
| "app_error_code (UnauthorizedError _) = Some (''UNAUTHORIZED'', 401)"
| "app_error_code (ForbiddenError _) = Some (''FORBIDDEN'', 403)"
| "app_error_code (NotFoundError _) = Some (''NOT_FOUND'', 404)"
| "app_error_code (ConflictError _) = Some (''CONFLICT'', 409)"
| "app_error_code (RateLimitedError _) = Some (''RATE_LIMITED'', 429)"
| "app_error_code (TenantSuspendedError _) = Some (''TENANT_SUSPENDED'', 403)"
| "app_error_code (TenantPendingApprovalError _) = Some (''TENANT_PENDING_APPROVAL'', 403)"
| "app_error_code (TenantTrialExpiredError _) = Some (''TRIAL_EXPIRED'', 403)"
| "app_error_code (MaintenanceModeError _ _) = Some (''MAINTENANCE_MODE'', 503)"
| "app_error_code (AccountLockedError _) = Some (''ACCOUNT_LOCKED'', 423)"
| "app_error_code UniqueViolation = None"
| "app_error_code RecordNotFound = None"
| "app_error_code (RangeError _) = None"
| "app_error_code (UnexpectedError _) = None"

lemma isAppError_code: "isAppError e \<longleftrightarrow> app_error_code e \<noteq> None"
  by (cases e) simp_all

type_synonym 'a result = "app_error + 'a"

fun is_ok :: "'a result \<Rightarrow> bool" where
  "is_ok (Inr _) = True"
| "is_ok (Inl _) = False"

named_theorems table_simps \<open>rewriting of table operations\<close>
named_theorems frame_simps \<open>what an operation leaves unchanged\<close>

section \<open>Numbers\<close>

text \<open>\<open>Math.round (n / d)\<close> for a positive \<open>d\<close>: the floor of the quotient plus one half.\<close>

definition round_div :: "int \<Rightarrow> int \<Rightarrow> int" where
  "round_div n d = (2 * n + d) div (2 * d)"

lemma round_div_bounds:
  assumes "0 < d"
  shows "2 * n - d < 2 * d * round_div n d" and "2 * d * round_div n d \<le> 2 * n + d"
proof -
  have eq: "2 * n + d = 2 * d * round_div n d + (2 * n + d) mod (2 * d)"
    by (simp add: round_div_def mult_div_mod_eq)
  have "0 \<le> (2 * n + d) mod (2 * d)" "(2 * n + d) mod (2 * d) < 2 * d"
    using assms by simp_all
  with eq show "2 * n - d < 2 * d * round_div n d" "2 * d * round_div n d \<le> 2 * n + d"
    by linarith+
qed

lemma round_div_unique:
  assumes "0 < d" and "2 * n - d < 2 * d * r" and "2 * d * r \<le> 2 * n + d"
  shows "round_div n d = r"
proof -
  have "2 * d * round_div n d < 2 * d * (r + 1)"
    using round_div_bounds(2) [OF assms(1), of n] assms(2) by (simp add: algebra_simps)
  moreover have "2 * d * r < 2 * d * (round_div n d + 1)"
    using round_div_bounds(1) [OF assms(1), of n] assms(3) by (simp add: algebra_simps)
  ultimately show ?thesis
    using assms(1) by (simp add: mult_less_cancel_left)
qed

lemma round_div_mono: "0 < d \<Longrightarrow> m \<le> n \<Longrightarrow> round_div m d \<le> round_div n d"
  by (simp add: round_div_def zdiv_mono1)

lemma round_div_nonneg: "0 < d \<Longrightarrow> 0 \<le> n \<Longrightarrow> 0 \<le> round_div n d"
  by (simp add: round_div_def pos_imp_zdiv_nonneg_iff)

lemma round_div_mult: "0 < d \<Longrightarrow> round_div (k * d) d = k"
  by (rule round_div_unique) (simp_all add: algebra_simps)

definition ceil_div :: "int \<Rightarrow> int \<Rightarrow> int" where
  "ceil_div n d = - ((- n) div d)"

lemma ceil_div_mult: "0 < d \<Longrightarrow> ceil_div (k * d) d = k"
  by (simp add: ceil_div_def flip: mult_minus_left)

lemma ceil_div_bounds:
  assumes "0 < d"
  shows "n \<le> d * ceil_div n d" and "d * ceil_div n d < n + d"
proof -
  have eq: "d * ((- n) div d) + (- n) mod d = - n" by (rule mult_div_mod_eq)
  have "0 \<le> (- n) mod d" "(- n) mod d < d" using assms by simp_all
  with eq show "n \<le> d * ceil_div n d" "d * ceil_div n d < n + d"
    unfolding ceil_div_def mult_minus_right by linarith+
qed

section \<open>Strings\<close>

definition digit_char :: "nat \<Rightarrow> char" where
  "digit_char d = ''0123456789'' ! d"

fun nat_to_string :: "nat \<Rightarrow> string" where
  "nat_to_string n =
     (if n < 10 then [digit_char n] else nat_to_string (n div 10) @ [digit_char (n mod 10)])"

declare nat_to_string.simps [simp del]

definition int_to_string :: "int \<Rightarrow> string" where
  "int_to_string i = (if i < 0 then ''-'' @ nat_to_string (nat (- i)) else nat_to_string (nat i))"

definition is_digit :: "char \<Rightarrow> bool" where
  "is_digit c \<longleftrightarrow> c \<in> set ''0123456789''"

definition pad_start :: "nat \<Rightarrow> char \<Rightarrow> string \<Rightarrow> string" where
  "pad_start k c s = replicate (k - length s) c @ s"

lemma digit_char_inj: "a < 10 \<Longrightarrow> b < 10 \<Longrightarrow> digit_char a = digit_char b \<Longrightarrow> a = b"
proof -
  assume *: "a < 10" "b < 10" "digit_char a = digit_char b"
  have "distinct ''0123456789''" by simp
  with * show "a = b" by (simp add: digit_char_def nth_eq_iff_index_eq)
qed

lemma digit_char_is_digit: "d < 10 \<Longrightarrow> is_digit (digit_char d)"
  unfolding is_digit_def digit_char_def by (rule nth_mem) simp

lemma nat_to_string_nonempty [simp]: "nat_to_string n \<noteq> []"
  by (subst nat_to_string.simps) simp

lemma nat_to_string_digits: "c \<in> set (nat_to_string n) \<Longrightarrow> is_digit c"
proof (induction n rule: nat_to_string.induct)
  case (1 n)
  show ?case
  proof (cases "n < 10")
    case True
    with 1 show ?thesis by (simp add: nat_to_string.simps [of n] digit_char_is_digit)
  next
    case False
    with "1.prems" have "c \<in> set (nat_to_string (n div 10)) \<or> c = digit_char (n mod 10)"
      by (auto simp: nat_to_string.simps [of n])
    with 1 False show ?thesis by (auto simp: digit_char_is_digit)
  qed
qed

text \<open>The number a digit string denotes, read left to right.\<close>

definition digit_value :: "char \<Rightarrow> nat" where
  "digit_value c = of_char c - 48"

definition string_to_nat :: "string \<Rightarrow> nat" where
  "string_to_nat s = foldl (\<lambda>acc c. acc * 10 + digit_value c) 0 s"

lemma digit_value_digit_char: "d < 10 \<Longrightarrow> digit_value (digit_char d) = d"
proof -
  assume "d < 10"
  then have "d \<in> {0, 1, 2, 3, 4, 5, 6, 7, 8, 9}" by auto
  then show ?thesis by (auto simp: digit_value_def digit_char_def)
qed

lemma string_to_nat_to_string [simp]: "string_to_nat (nat_to_string n) = n"
proof (induction n rule: nat_to_string.induct)
  case (1 n)
  show ?case
  proof (cases "n < 10")
    case True
    then show ?thesis
      by (simp add: nat_to_string.simps [of n] string_to_nat_def digit_value_digit_char)
  next
    case False
    with 1 have "string_to_nat (nat_to_string (n div 10)) = n div 10" by simp
    with False show ?thesis
      by (simp add: nat_to_string.simps [of n] string_to_nat_def digit_value_digit_char)
  qed
qed

lemma nat_to_string_inj: "nat_to_string a = nat_to_string b \<Longrightarrow> a = b"
  by (metis string_to_nat_to_string)

lemma foldl_zeros: "foldl (\<lambda>acc c. acc * 10 + digit_value c) 0 (replicate k (CHR ''0'')) = 0"
  by (induction k) (simp_all add: digit_value_def)

lemma string_to_nat_pad [simp]: "string_to_nat (pad_start k (CHR ''0'') s) = string_to_nat s"
  by (simp add: string_to_nat_def pad_start_def foldl_zeros)

lemma pad_start_number_inj:
  "pad_start k (CHR ''0'') (nat_to_string a) = pad_start k (CHR ''0'') (nat_to_string b) \<Longrightarrow> a = b"
  by (metis string_to_nat_pad string_to_nat_to_string)

text \<open>An amount in minor units as JavaScript prints \<open>amount / 100\<close>.\<close>

definition major_text :: "int \<Rightarrow> string" where
  "major_text n =
     (let whole = \<bar>n\<bar> div 100; frac = \<bar>n\<bar> mod 100
      in (if n < 0 then ''-'' else '''') @ int_to_string whole
         @ (if frac = 0 then '''' else if frac mod 10 = 0 then ''.'' @ int_to_string (frac div 10)
            else ''.'' @ pad_start 2 (CHR ''0'') (int_to_string frac)))"

definition to_lower :: "char \<Rightarrow> char" where
  "to_lower c = (if CHR ''A'' \<le> c \<and> c \<le> CHR ''Z'' then char_of (of_char c + 32 :: nat) else c)"

definition to_upper :: "char \<Rightarrow> char" where
  "to_upper c = (if CHR ''a'' \<le> c \<and> c \<le> CHR ''z'' then char_of (of_char c - 32 :: nat) else c)"

definition is_space :: "char \<Rightarrow> bool" where
  "is_space c \<longleftrightarrow> c = CHR '' '' \<or> c = CHR 0x09 \<or> c = CHR 0x0A \<or> c = CHR 0x0B \<or> c = CHR 0x0C \<or> c = CHR 0x0D"

definition trim :: "string \<Rightarrow> string" where
  "trim s = rev (dropWhile is_space (rev (dropWhile is_space s)))"

definition starts_with :: "string \<Rightarrow> string \<Rightarrow> bool" where
  "starts_with p s \<longleftrightarrow> take (length p) s = p"

definition ends_with :: "string \<Rightarrow> string \<Rightarrow> bool" where
  "ends_with p s \<longleftrightarrow> starts_with (rev p) (rev s)"

text \<open>\<open>s?.trim() || null\<close>.\<close>

definition trim_or_null :: "string option \<Rightarrow> string option" where
  "trim_or_null s = (case s of None \<Rightarrow> None | Some v \<Rightarrow> if trim v = '''' then None else Some (trim v))"

definition em_dash :: string where
  "em_dash = [CHR 0xE2, CHR 0x80, CHR 0x94]"

section \<open>Tables\<close>

definition update_where :: "('r \<Rightarrow> bool) \<Rightarrow> ('r \<Rightarrow> 'r) \<Rightarrow> 'r list \<Rightarrow> 'r list" where
  "update_where p f t = map (\<lambda>r. if p r then f r else r) t"

definition count_where :: "('r \<Rightarrow> bool) \<Rightarrow> 'r list \<Rightarrow> nat" where
  "count_where p t = length (filter p t)"

lemma update_where_simps [simp, table_simps]:
  "update_where p f [] = []"
  "update_where p f (r # t) = (if p r then f r else r) # update_where p f t"
  "update_where p f (t @ u) = update_where p f t @ update_where p f u"
  "length (update_where p f t) = length t"
  by (simp_all add: update_where_def)

lemma update_where_cong [fundef_cong]:
  "t = u \<Longrightarrow> (\<And>r. r \<in> set u \<Longrightarrow> p r = q r) \<Longrightarrow> (\<And>r. r \<in> set u \<Longrightarrow> q r \<Longrightarrow> f r = g r) \<Longrightarrow>
     update_where p f t = update_where q g u"
  by (auto simp: update_where_def)

lemma set_update_where:
  "set (update_where p f t) = f ` {r \<in> set t. p r} \<union> {r \<in> set t. \<not> p r}"
  by (induction t) auto

lemma map_update_where:
  "(\<And>r. p r \<Longrightarrow> k (f r) = k r) \<Longrightarrow> map k (update_where p f t) = map k t"
  by (induction t) auto

lemma update_where_none: "(\<And>r. r \<in> set t \<Longrightarrow> \<not> p r) \<Longrightarrow> update_where p f t = t"
  by (induction t) auto

lemma count_where_eq_0: "count_where p t = 0 \<longleftrightarrow> (\<forall>r \<in> set t. \<not> p r)"
  by (auto simp: count_where_def filter_empty_conv)

lemma find_SomeD: "List.find p t = Some r \<Longrightarrow> r \<in> set t \<and> p r"
  by (induction t) (auto split: if_splits)

lemma find_NoneD: "List.find p t = None \<Longrightarrow> r \<in> set t \<Longrightarrow> \<not> p r"
  by (induction t) (auto split: if_splits)

lemma find_append:
  "List.find p (t @ u) = (case List.find p t of None \<Rightarrow> List.find p u | Some r \<Rightarrow> Some r)"
  by (induction t) auto

lemma find_exists: "r \<in> set t \<Longrightarrow> p r \<Longrightarrow> \<exists>r'. List.find p t = Some r'"
  by (induction t) auto

text \<open>A row with a unique key is the row that key finds.\<close>

lemma find_key_unique:
  assumes "distinct (map k t)" and "r \<in> set t"
  shows "List.find (\<lambda>x. k x = k r) t = Some r"
  using assms by (induction t) (auto simp: image_iff)

lemma find_key_and:
  assumes "distinct (map k t)" and "r \<in> set t" and "q r"
  shows "List.find (\<lambda>x. k x = k r \<and> q x) t = Some r"
  using assms by (induction t) (auto simp: image_iff)

lemma find_update_where_same:
  assumes "\<And>r. k (f r) = k r"
  shows "List.find (\<lambda>r. k r = x) (update_where (\<lambda>r. k r = x) f t) =
         map_option f (List.find (\<lambda>r. k r = x) t)"
  using assms by (induction t) auto

lemma find_update_where_other:
  assumes "\<And>r. k (f r) = k r" and "x \<noteq> y"
  shows "List.find (\<lambda>r. k r = x) (update_where (\<lambda>r. k r = y) f t) = List.find (\<lambda>r. k r = x) t"
  using assms by (induction t) auto

lemma key_eq_rows:
  "distinct (map k t) \<Longrightarrow> a \<in> set t \<Longrightarrow> b \<in> set t \<Longrightarrow> k a = k b \<Longrightarrow> a = b"
  by (simp add: distinct_map inj_on_def)

text \<open>Changing one row of a table whose keys are distinct changes a sum by that row's change.\<close>

lemma sum_list_update_where:
  fixes v :: "'r \<Rightarrow> int"
  assumes "distinct (map k t)" and "r \<in> set t"
  shows "sum_list (map v (update_where (\<lambda>x. k x = k r) f t)) = sum_list (map v t) - v r + v (f r)"
  using assms
proof (induction t)
  case Nil
  then show ?case by simp
next
  case (Cons x t)
  show ?case
  proof (cases "r = x")
    case True
    with Cons.prems have "update_where (\<lambda>y. k y = k r) f t = t"
      by (intro update_where_none) (auto simp: image_iff)
    with True show ?thesis by simp
  next
    case False
    with Cons.prems have "k x \<noteq> k r" by (auto simp: image_iff)
    with Cons False show ?thesis by simp
  qed
qed

text \<open>The SQL aggregate \<open>SUM(CASE WHEN p THEN v ELSE 0 END)\<close>.\<close>

definition sum_where :: "('r \<Rightarrow> bool) \<Rightarrow> ('r \<Rightarrow> int) \<Rightarrow> 'r list \<Rightarrow> int" where
  "sum_where p v t = sum_list (map (\<lambda>r. if p r then v r else 0) t)"

lemma sum_where_simps [simp]:
  "sum_where p v [] = 0"
  "sum_where p v (r # t) = (if p r then v r else 0) + sum_where p v t"
  "sum_where p v (t @ u) = sum_where p v t + sum_where p v u"
  by (simp_all add: sum_where_def)

lemma sum_where_update:
  assumes "distinct (map k t)" and "r \<in> set t" and "k r = i"
  shows "sum_where p v (update_where (\<lambda>x. k x = i) f t) =
    sum_where p v t - (if p r then v r else 0) + (if p (f r) then v (f r) else 0)"
  unfolding sum_where_def assms(3) [symmetric] by (rule sum_list_update_where [OF assms(1,2)])

lemma sum_where_cong:
  "(\<And>r. r \<in> set t \<Longrightarrow> p r = q r) \<Longrightarrow> (\<And>r. r \<in> set t \<Longrightarrow> q r \<Longrightarrow> v r = w r) \<Longrightarrow> sum_where p v t = sum_where q w t"
  unfolding sum_where_def by (rule arg_cong [where f = sum_list], rule map_cong) auto

lemma sum_where_update_same:
  "(\<And>r. q r \<Longrightarrow> p (f r) = p r \<and> v (f r) = v r) \<Longrightarrow> sum_where p v (update_where q f t) = sum_where p v t"
  by (induction t) auto

lemma sum_where_nonneg: "(\<And>r. r \<in> set t \<Longrightarrow> p r \<Longrightarrow> 0 \<le> v r) \<Longrightarrow> 0 \<le> sum_where p v t"
  by (induction t) auto

lemma sum_where_split:
  "(\<And>r. r \<in> set t \<Longrightarrow> p r \<longleftrightarrow> q r \<or> q' r) \<Longrightarrow> (\<And>r. r \<in> set t \<Longrightarrow> \<not> (q r \<and> q' r)) \<Longrightarrow>
     sum_where p v t = sum_where q v t + sum_where q' v t"
  by (induction t) auto

lemma sum_where_mono:
  "(\<And>r. r \<in> set t \<Longrightarrow> p r \<Longrightarrow> v r \<le> w r) \<Longrightarrow> sum_where p v t \<le> sum_where p w t"
  by (induction t) (auto simp: add_mono)

lemma find_none_image: "x \<notin> k ` set t \<Longrightarrow> List.find (\<lambda>r. k r = x) t = None"
  unfolding find_None_iff by (metis imageI)

lemma find_some_image: "x \<in> k ` set t \<Longrightarrow> \<exists>r. List.find (\<lambda>r. k r = x) t = Some r \<and> r \<in> set t \<and> k r = x"
  by (induction t) auto

lemma find_after_update:
  "List.find p t = Some r \<Longrightarrow> q r \<Longrightarrow> (\<And>x. p (f x) = p x) \<Longrightarrow> List.find p (update_where q f t) = Some (f r)"
  by (induction t) (auto split: if_splits)

end
