(* ===== verification/Money.thy ===== *)
theory Money
  imports Prelude
begin

text \<open>
  packages/billing/src/money.ts: cycle lengths, pro-rating, tax, and prices quoted tax
  included. The amounts are integers below \<open>2 ^ 31\<close> (database \<open>Int\<close> columns), so the double
  arithmetic of the source (a product below \<open>2 ^ 53\<close>, one division and one rounding) equals
  the exact rational rounding written here.
\<close>

datatype billing_cycle = DAILY | WEEKLY | MONTHLY | QUARTERLY | YEARLY | CUSTOM

fun cycleLengthDays :: "billing_cycle \<Rightarrow> int option \<Rightarrow> int result" where
  "cycleLengthDays DAILY _ = Inr 1"
| "cycleLengthDays WEEKLY _ = Inr 7"
| "cycleLengthDays MONTHLY _ = Inr 30"
| "cycleLengthDays QUARTERLY _ = Inr 91"
| "cycleLengthDays YEARLY _ = Inr 365"
| "cycleLengthDays CUSTOM d =
     (case d of
        None \<Rightarrow> Inl (ValidationError ''A CUSTOM billing cycle package must have durationDays set'')
      | Some n \<Rightarrow>
          if n = 0 \<or> n < 1
          then Inl (ValidationError ''A CUSTOM billing cycle package must have durationDays set'')
          else Inr n)"

definition day_ms :: int where
  "day_ms = 24 * 60 * 60 * 1000"

text \<open>\<open>setUTCDate(getUTCDate() + days)\<close>: UTC has no daylight saving, so a day is 86400000 ms.\<close>

definition addDays :: "time \<Rightarrow> int \<Rightarrow> time" where
  "addDays date days = date + days * day_ms"

definition proRataAmountMinor :: "minor \<Rightarrow> int \<Rightarrow> int \<Rightarrow> minor" where
  "proRataAmountMinor fullPriceMinor daysRemaining cycleDays =
     (if daysRemaining \<ge> cycleDays then fullPriceMinor
      else if daysRemaining \<le> 0 then 0
      else round_div (fullPriceMinor * daysRemaining) cycleDays)"

definition taxAmountMinor :: "minor \<Rightarrow> int option \<Rightarrow> minor" where
  "taxAmountMinor subtotalMinor taxPercent =
     (case taxPercent of
        None \<Rightarrow> 0
      | Some t \<Rightarrow> if t = 0 then 0 else round_div (subtotalMinor * t) 100)"

definition netFromGrossMinor :: "minor \<Rightarrow> int option \<Rightarrow> minor" where
  "netFromGrossMinor grossMinor taxPercent =
     (case taxPercent of
        None \<Rightarrow> grossMinor
      | Some t \<Rightarrow>
          if t = 0 then grossMinor
          else
            let guess = round_div (grossMinor * 100) (100 + t)
            in case List.find (\<lambda>net. net \<ge> 0 \<and> net + taxAmountMinor net taxPercent = grossMinor)
                      [guess, guess - 1, guess + 1, guess - 2, guess + 2] of
                 Some net \<Rightarrow> net
               | None \<Rightarrow> (grossMinor * 100) div (100 + t))"

section \<open>Cycles and pro-rating\<close>

lemma cycleLengthDays_pos: "cycleLengthDays c d = Inr n \<Longrightarrow> 1 \<le> n"
  by (cases c) (auto split: option.splits if_splits)

lemma cycleLengthDays_total: "c \<noteq> CUSTOM \<Longrightarrow> \<exists>n. cycleLengthDays c d = Inr n"
  by (cases c) auto

lemma addDays_add: "addDays (addDays t a) b = addDays t (a + b)"
  by (simp add: addDays_def algebra_simps)

lemma addDays_less: "0 < n \<Longrightarrow> t < addDays t n"
  by (simp add: addDays_def day_ms_def)

lemma proRata_full: "proRataAmountMinor p c c = p"
  by (simp add: proRataAmountMinor_def)

lemma proRata_bounds:
  assumes "0 \<le> p" and "0 < c"
  shows "0 \<le> proRataAmountMinor p d c \<and> proRataAmountMinor p d c \<le> p"
proof -
  have "round_div (p * d) c \<le> round_div (p * c) c" if "d < c"
    using that assms by (intro round_div_mono mult_left_mono) auto
  then show ?thesis
    using assms by (auto simp: proRataAmountMinor_def round_div_nonneg round_div_mult)
qed

lemma proRata_mono:
  assumes "0 \<le> p" and "0 < c" and "d \<le> e"
  shows "proRataAmountMinor p d c \<le> proRataAmountMinor p e c"
proof (cases "e < c \<and> 0 < d")
  case True
  with assms show ?thesis
    by (auto simp: proRataAmountMinor_def intro!: round_div_mono mult_left_mono)
next
  case False
  with assms proRata_bounds [OF assms(1,2), of d] proRata_bounds [OF assms(1,2), of e]
  show ?thesis by (auto simp: proRataAmountMinor_def)
qed

section \<open>Tax\<close>

lemma taxAmountMinor_nonneg:
  "0 \<le> s \<Longrightarrow> (\<And>t. taxPercent = Some t \<Longrightarrow> 0 \<le> t) \<Longrightarrow> 0 \<le> taxAmountMinor s taxPercent"
  by (auto simp: taxAmountMinor_def round_div_nonneg split: option.splits)

lemma taxAmountMinor_mono:
  "m \<le> n \<Longrightarrow> (\<And>t. taxPercent = Some t \<Longrightarrow> 0 \<le> t) \<Longrightarrow>
     taxAmountMinor m taxPercent \<le> taxAmountMinor n taxPercent"
  by (auto simp: taxAmountMinor_def intro!: round_div_mono mult_right_mono split: option.splits)

text \<open>The gross of a net amount, and its strict monotonicity.\<close>

lemma gross_strict_mono:
  assumes "\<And>t. taxPercent = Some t \<Longrightarrow> 0 \<le> t" and "m < n"
  shows "m + taxAmountMinor m taxPercent < n + taxAmountMinor n taxPercent"
  using taxAmountMinor_mono [of m n taxPercent] assms by simp

lemma net_gross_bounds:
  assumes t: "0 < t"
  shows "2 * (n * (100 + t)) - 100 < 200 * (n + taxAmountMinor n (Some t))"
    and "200 * (n + taxAmountMinor n (Some t)) \<le> 2 * (n * (100 + t)) + 100"
  using round_div_bounds [of 100 "n * t"] t
  by (simp_all add: taxAmountMinor_def algebra_simps)

lemma exact_net_is_guess_or_near:
  assumes t: "0 < t" and net: "net + taxAmountMinor net (Some t) = gross"
  shows "\<bar>net - round_div (gross * 100) (100 + t)\<bar> \<le> 1"
proof -
  let ?g = "round_div (gross * 100) (100 + t)" and ?d = "100 + t"
  have d: "0 < ?d" using t by simp
  have n: "2 * (net * ?d) - 100 < 200 * gross" "200 * gross \<le> 2 * (net * ?d) + 100"
    using net_gross_bounds [OF t, of net] net by simp_all
  have g: "2 * (gross * 100) - ?d < 2 * ?d * ?g" "2 * ?d * ?g \<le> 2 * (gross * 100) + ?d"
    using round_div_bounds [OF d, of "gross * 100"] by simp_all
  have "2 * ?d * net < 2 * ?d * (?g + 1)"
    using n g t by (simp add: algebra_simps)
  moreover have "2 * ?d * ?g < 2 * ?d * (net + 2)"
    using n g t by (simp add: algebra_simps)
  ultimately have "net < ?g + 1" "?g < net + 2"
    using d by (simp_all add: mult_less_cancel_left)
  then show ?thesis by linarith
qed

lemma netFromGross_spec:
  assumes t: "0 < t" and g: "0 \<le> g"
  shows "0 \<le> netFromGrossMinor g (Some t)
    \<and> netFromGrossMinor g (Some t) + taxAmountMinor (netFromGrossMinor g (Some t)) (Some t) \<le> g
    \<and> g < (netFromGrossMinor g (Some t) + 1) + taxAmountMinor (netFromGrossMinor g (Some t) + 1) (Some t)
    \<and> ((\<exists>n. 0 \<le> n \<and> n + taxAmountMinor n (Some t) = g) \<longrightarrow>
        netFromGrossMinor g (Some t) + taxAmountMinor (netFromGrossMinor g (Some t)) (Some t) = g)"
proof -
  let ?f = "\<lambda>n. n + taxAmountMinor n (Some t)"
  let ?q = "round_div (g * 100) (100 + t)"
  let ?cands = "[?q, ?q - 1, ?q + 1, ?q - 2, ?q + 2]"
  let ?ok = "\<lambda>net. net \<ge> 0 \<and> ?f net = g"
  have mono: "?f n < ?f (n + 1)" for n
    using t by (intro gross_strict_mono) auto
  have near: "n \<in> set ?cands" if "?f n = g" for n
    using exact_net_is_guess_or_near [OF t that] by auto
  show ?thesis
  proof (cases "List.find ?ok ?cands")
    case (Some net)
    then have r: "netFromGrossMinor g (Some t) = net" and ok: "?ok net"
      using t by (auto simp: netFromGrossMinor_def Let_def simp del: List.find.simps dest: find_SomeD)
    show ?thesis using mono [of net] ok by (simp add: r)
  next
    case None
    let ?r = "g * 100 div (100 + t)"
    have r: "netFromGrossMinor g (Some t) = ?r"
      using None t by (simp add: netFromGrossMinor_def Let_def del: List.find.simps)
    have none: "\<not> ?ok n" for n
      using find_NoneD [OF None, of n] near [of n] by blast
    have pos: "0 \<le> ?r" using t g by (simp add: pos_imp_zdiv_nonneg_iff)
    have dm: "(100 + t) * ?r + g * 100 mod (100 + t) = g * 100" by (rule mult_div_mod_eq)
    have m: "0 \<le> g * 100 mod (100 + t)" "g * 100 mod (100 + t) < 100 + t" using t by simp_all
    have "?f x \<le> g \<and> g \<le> ?f (x + 1)"
      if "(100 + t) * x + k = g * 100" "0 \<le> k" "k < 100 + t" for x k
    proof -
      have "x * (100 + t) \<le> g * 100" "g * 100 < (x + 1) * (100 + t)"
        using that by (simp_all add: algebra_simps)
      with net_gross_bounds(2) [OF t, of x] net_gross_bounds(1) [OF t, of "x + 1"]
      have "200 * ?f x \<le> 200 * g + 100" "200 * g - 100 < 200 * ?f (x + 1)" by linarith+
      moreover have "a \<le> b" if "200 * a \<le> 200 * b + 100" for a b :: int using that by arith
      moreover have "a \<le> b" if "200 * a - 100 < 200 * b" for a b :: int using that by arith
      ultimately show ?thesis by blast
    qed
    from this [OF dm m] have "?f ?r \<le> g" "g \<le> ?f (?r + 1)" by blast+
    moreover have "?f (?r + 1) \<noteq> g" using none [of "?r + 1"] pos by simp
    ultimately have lt: "g < ?f (?r + 1)" by (metis order_le_less)
    show ?thesis using \<open>?f ?r \<le> g\<close> lt pos none by (auto simp: r)
  qed
qed

lemma netFromGross_spec_opt:
  assumes "\<forall>t. tax = Some t \<longrightarrow> 0 \<le> t" and "0 \<le> g"
  shows "netFromGrossMinor g tax + taxAmountMinor (netFromGrossMinor g tax) tax \<le> g
    \<and> ((\<exists>n \<ge> 0. n + taxAmountMinor n tax = g) \<longrightarrow>
        netFromGrossMinor g tax + taxAmountMinor (netFromGrossMinor g tax) tax = g)"
proof (cases "tax = None \<or> tax = Some 0")
  case True
  then show ?thesis by (auto simp: netFromGrossMinor_def taxAmountMinor_def)
next
  case False
  then obtain t where "tax = Some t" "0 < t" using assms(1) by (cases tax) (auto simp: order_le_less)
  with netFromGross_spec [OF _ assms(2), of t] show ?thesis by blast
qed

text \<open>
  A price quoted tax included is split so that the customer is never charged more than
  was quoted: for a tax of \<open>t\<close> percent and a quoted gross \<open>g\<close>, the net is the largest amount
  whose total with tax does not exceed \<open>g\<close>, and that total is exactly \<open>g\<close> whenever any net
  amount rounds to it.
\<close>

theorem netFromGross_largest_net:
  assumes t: "0 < t" and g: "0 \<le> g"
  shows "0 \<le> netFromGrossMinor g (Some t)
    \<and> netFromGrossMinor g (Some t) + taxAmountMinor (netFromGrossMinor g (Some t)) (Some t) \<le> g
    \<and> g < (netFromGrossMinor g (Some t) + 1) + taxAmountMinor (netFromGrossMinor g (Some t) + 1) (Some t)
    \<and> ((\<exists>n. 0 \<le> n \<and> n + taxAmountMinor n (Some t) = g) \<longrightarrow>
        netFromGrossMinor g (Some t) + taxAmountMinor (netFromGrossMinor g (Some t)) (Some t) = g)"
  by (rule netFromGross_spec [OF t g])

theorem netFromGross_largest_net_witness:
  "(0 :: int) < 16 \<and> netFromGrossMinor 11600 (Some 16) = 10000
   \<and> 11600 < (netFromGrossMinor 11600 (Some 16) + 1)
       + taxAmountMinor (netFromGrossMinor 11600 (Some 16) + 1) (Some 16)"
  using netFromGross_largest_net [of 16 11600]
  by (simp add: netFromGrossMinor_def taxAmountMinor_def round_div_def)

end
