(* ===== verification/Billing.thy ===== *)
theory Billing
  imports Money
begin

text \<open>
  The billing data model (the tables of packages/database/prisma/schema.prisma the billing,
  payment and RADIUS services read and write) and the database state. Field names are the
  schema's, with a short prefix per table. The state also holds the clock that
  \<open>Date.now()\<close> reads, the counter new identifiers come from, and the outbox of network
  changes: \<open>queueNetworkChange\<close>, \<open>queueSyncTask\<close> and \<open>enqueueProvisioningJob\<close> hand work to the
  router side, whose handling of it is not part of this model.
\<close>

datatype invoice_status = I_DRAFT | I_PENDING | I_PAID | I_PARTIALLY_PAID | I_OVERDUE | I_CANCELLED | I_VOID
datatype service_status = S_ACTIVE | S_SUSPENDED | S_PENDING | S_CANCELLED | S_EXPIRED
datatype payment_method = MANUAL | WALLET | CASH | BANK_TRANSFER | MPESA | PAYSTACK
datatype payment_status = P_PENDING | P_COMPLETED | P_FAILED | P_REVERSED
datatype customer_status =
  C_ACTIVE | C_SUSPENDED | C_PENDING | C_INSTALLATION | C_DISCONNECTED | C_CANCELLED | C_BLACKLISTED
datatype wallet_txn_type = CREDIT | DEBIT
datatype provisioning_status =
  PS_PENDING | PS_PROCESSING | PS_ACTIVE | PS_FAILED | PS_SUSPENDED | PS_DEPROVISIONED
datatype radius_status = R_ACTIVE | R_SUSPENDED | R_DISABLED
datatype network_op = PROVISION | SUSPEND | RESTORE | DEPROVISION

record tenant =
  t_id :: id
  t_name :: string
  t_slug :: string
  t_currency :: string
  t_deletedAt :: "time option"
  t_collectsOnPlatform :: bool
  t_payoutShortcode :: "string option"
  t_payoutShortcodeType :: string
  t_feePercentBpsOverride :: "int option"
  t_feeFixedMinorOverride :: "minor option"

record customer =
  c_id :: id
  c_tenantId :: id
  c_customerNumber :: string
  c_fullName :: string
  c_email :: "string option"
  c_phone :: string
  c_idNumber :: "string option"
  c_address :: "string option"
  c_connectionType :: "string option"
  c_branchId :: "id option"
  c_userId :: "id option"
  c_status :: customer_status
  c_notes :: "string option"
  c_deletedAt :: "time option"
  c_referralCode :: "string option"
  c_referredById :: "id option"
  c_referralRewardedAt :: "time option"

record package =
  k_id :: id
  k_tenantId :: id
  k_name :: string
  k_description :: "string option"
  k_downloadKbps :: int
  k_uploadKbps :: int
  k_burstDownloadKbps :: "int option"
  k_burstUploadKbps :: "int option"
  k_dataCapMb :: "int option"
  k_billingCycle :: billing_cycle
  k_durationDays :: "int option"
  k_priceMinor :: minor
  k_currency :: string
  k_installationFeeMinor :: minor
  k_activationFeeMinor :: minor
  k_taxPercent :: "int option"
  k_isActive :: bool
  k_deletedAt :: "time option"

record service =
  s_id :: id
  s_tenantId :: id
  s_customerId :: id
  s_packageId :: id
  s_status :: service_status
  s_priceOverrideMinor :: "minor option"
  s_startDate :: time
  s_nextBillingAt :: time
  s_autoRenew :: bool
  s_cancelledAt :: "time option"
  s_pausedUntil :: "time option"
  s_provisioningStatus :: provisioning_status

record line_item =
  l_description :: string
  l_quantity :: int
  l_unitPriceMinor :: minor
  l_totalMinor :: minor

record invoice =
  i_id :: id
  i_tenantId :: id
  i_customerId :: id
  i_customerServiceId :: "id option"
  i_invoiceNumber :: string
  i_status :: invoice_status
  i_subtotalMinor :: minor
  i_taxMinor :: minor
  i_totalMinor :: minor
  i_amountPaidMinor :: minor
  i_currency :: string
  i_issuedAt :: time
  i_dueDate :: time
  i_paidAt :: "time option"
  i_voidedAt :: "time option"
  i_items :: "line_item list"
  i_dunningStage :: nat
  i_lastDunningAt :: "time option"

record wallet =
  w_id :: id
  w_customerId :: id
  w_balanceMinor :: minor
  w_currency :: string

record wallet_txn =
  wt_walletId :: id
  wt_type :: wallet_txn_type
  wt_amountMinor :: minor
  wt_balanceAfterMinor :: minor
  wt_reason :: string
  wt_referenceType :: "string option"
  wt_referenceId :: "id option"
  wt_createdAt :: time

record payment =
  p_id :: id
  p_tenantId :: id
  p_customerId :: "id option"
  p_invoiceId :: "id option"
  p_method :: payment_method
  p_status :: payment_status
  p_amountMinor :: minor
  p_currency :: string
  p_reference :: "string option"
  p_idempotencyKey :: string
  p_recordedByUserId :: "id option"
  p_reversedAt :: "time option"
  p_reversalReason :: "string option"
  p_createdAt :: time

record receipt =
  r_id :: id
  r_tenantId :: id
  r_paymentId :: id
  r_receiptNumber :: string

record service_pause =
  sp_id :: id
  sp_tenantId :: id
  sp_customerServiceId :: id
  sp_startsAt :: time
  sp_endsAt :: time
  sp_days :: int
  sp_requestedBy :: string
  sp_resumedAt :: "time option"

record radius_user =
  ru_id :: id
  ru_tenantId :: id
  ru_customerId :: id
  ru_customerServiceId :: id
  ru_username :: string
  ru_passwordEncrypted :: string
  ru_status :: radius_status
  ru_connectionType :: string
  ru_downloadKbps :: int
  ru_uploadKbps :: int

record rad_row =
  rr_username :: string
  rr_attribute :: string
  rr_op :: string
  rr_value :: string

datatype network_event =
    NetworkChange id id network_op
  | DisconnectUser id id

record billing_db =
  clock :: time
  nextId :: id
  tenants :: "tenant list"
  customers :: "customer list"
  packages :: "package list"
  services :: "service list"
  invoices :: "invoice list"
  wallets :: "wallet list"
  walletTxns :: "wallet_txn list"
  payments :: "payment list"
  receipts :: "receipt list"
  pauses :: "service_pause list"
  radiusUsers :: "radius_user list"
  radChecks :: "rad_row list"
  radReplies :: "rad_row list"
  outbox :: "network_event list"

text \<open>A database with no rows, for the examples.\<close>

definition empty_db :: billing_db where
  "empty_db = \<lparr>clock = 0, nextId = 1, tenants = [], customers = [], packages = [], services = [],
     invoices = [], wallets = [], walletTxns = [], payments = [], receipts = [], pauses = [],
     radiusUsers = [], radChecks = [], radReplies = [], outbox = []\<rparr>"

section \<open>Row access by identifier\<close>

definition find_invoice :: "id \<Rightarrow> 'x billing_db_scheme \<Rightarrow> invoice option" where
  "find_invoice i db = List.find (\<lambda>r. i_id r = i) (invoices db)"

definition find_service :: "id \<Rightarrow> 'x billing_db_scheme \<Rightarrow> service option" where
  "find_service i db = List.find (\<lambda>r. s_id r = i) (services db)"

definition find_package :: "id \<Rightarrow> 'x billing_db_scheme \<Rightarrow> package option" where
  "find_package i db = List.find (\<lambda>r. k_id r = i) (packages db)"

definition find_payment :: "id \<Rightarrow> 'x billing_db_scheme \<Rightarrow> payment option" where
  "find_payment i db = List.find (\<lambda>r. p_id r = i) (payments db)"

definition update_invoice :: "id \<Rightarrow> (invoice \<Rightarrow> invoice) \<Rightarrow> 'x billing_db_scheme \<Rightarrow> 'x billing_db_scheme" where
  "update_invoice i f db = db\<lparr>invoices := update_where (\<lambda>r. i_id r = i) f (invoices db)\<rparr>"

definition update_service :: "id \<Rightarrow> (service \<Rightarrow> service) \<Rightarrow> 'x billing_db_scheme \<Rightarrow> 'x billing_db_scheme" where
  "update_service i f db = db\<lparr>services := update_where (\<lambda>r. s_id r = i) f (services db)\<rparr>"

definition update_payment :: "id \<Rightarrow> (payment \<Rightarrow> payment) \<Rightarrow> 'x billing_db_scheme \<Rightarrow> 'x billing_db_scheme" where
  "update_payment i f db = db\<lparr>payments := update_where (\<lambda>r. p_id r = i) f (payments db)\<rparr>"

text \<open>An invoice with something still owing on it, as the sweeps and counts select it.\<close>

definition is_unpaid :: "invoice \<Rightarrow> bool" where
  "is_unpaid i \<longleftrightarrow> i_status i = I_PENDING \<or> i_status i = I_PARTIALLY_PAID \<or> i_status i = I_OVERDUE"

lemma find_invoiceD: "find_invoice i db = Some r \<Longrightarrow> r \<in> set (invoices db) \<and> i_id r = i"
  by (auto simp: find_invoice_def dest: find_SomeD)

lemma find_serviceD: "find_service i db = Some r \<Longrightarrow> r \<in> set (services db) \<and> s_id r = i"
  by (auto simp: find_service_def dest: find_SomeD)

lemma find_paymentD: "find_payment i db = Some r \<Longrightarrow> r \<in> set (payments db) \<and> p_id r = i"
  by (auto simp: find_payment_def dest: find_SomeD)

lemma update_invoice_frame [simp, frame_simps]:
  "clock (update_invoice i f db) = clock db" "nextId (update_invoice i f db) = nextId db"
  "tenants (update_invoice i f db) = tenants db" "customers (update_invoice i f db) = customers db"
  "packages (update_invoice i f db) = packages db" "services (update_invoice i f db) = services db"
  "wallets (update_invoice i f db) = wallets db" "walletTxns (update_invoice i f db) = walletTxns db"
  "payments (update_invoice i f db) = payments db" "receipts (update_invoice i f db) = receipts db"
  "pauses (update_invoice i f db) = pauses db" "radiusUsers (update_invoice i f db) = radiusUsers db"
  "radChecks (update_invoice i f db) = radChecks db" "radReplies (update_invoice i f db) = radReplies db"
  "outbox (update_invoice i f db) = outbox db"
  "invoices (update_invoice i f db) = update_where (\<lambda>r. i_id r = i) f (invoices db)"
  "billing_db.more (update_invoice i f db) = billing_db.more db"
  by (simp_all add: update_invoice_def)

lemma update_service_frame [simp, frame_simps]:
  "clock (update_service i f db) = clock db" "nextId (update_service i f db) = nextId db"
  "tenants (update_service i f db) = tenants db" "customers (update_service i f db) = customers db"
  "packages (update_service i f db) = packages db" "invoices (update_service i f db) = invoices db"
  "wallets (update_service i f db) = wallets db" "walletTxns (update_service i f db) = walletTxns db"
  "payments (update_service i f db) = payments db" "receipts (update_service i f db) = receipts db"
  "pauses (update_service i f db) = pauses db" "radiusUsers (update_service i f db) = radiusUsers db"
  "radChecks (update_service i f db) = radChecks db" "radReplies (update_service i f db) = radReplies db"
  "outbox (update_service i f db) = outbox db"
  "services (update_service i f db) = update_where (\<lambda>r. s_id r = i) f (services db)"
  "billing_db.more (update_service i f db) = billing_db.more db"
  by (simp_all add: update_service_def)

lemma update_payment_frame [simp, frame_simps]:
  "clock (update_payment i f db) = clock db" "nextId (update_payment i f db) = nextId db"
  "tenants (update_payment i f db) = tenants db" "customers (update_payment i f db) = customers db"
  "packages (update_payment i f db) = packages db" "invoices (update_payment i f db) = invoices db"
  "wallets (update_payment i f db) = wallets db" "walletTxns (update_payment i f db) = walletTxns db"
  "services (update_payment i f db) = services db" "receipts (update_payment i f db) = receipts db"
  "pauses (update_payment i f db) = pauses db" "radiusUsers (update_payment i f db) = radiusUsers db"
  "radChecks (update_payment i f db) = radChecks db" "radReplies (update_payment i f db) = radReplies db"
  "outbox (update_payment i f db) = outbox db"
  "payments (update_payment i f db) = update_where (\<lambda>r. p_id r = i) f (payments db)"
  "billing_db.more (update_payment i f db) = billing_db.more db"
  by (simp_all add: update_payment_def)

text \<open>An empty database with a few service, invoice and package rows, for the examples.\<close>

definition sample_package :: package where
  "sample_package = \<lparr>k_id = 50, k_tenantId = 7, k_name = ''Home'', k_description = None,
     k_downloadKbps = 10000, k_uploadKbps = 5000, k_burstDownloadKbps = None, k_burstUploadKbps = None,
     k_dataCapMb = None, k_billingCycle = MONTHLY, k_durationDays = None, k_priceMinor = 250000,
     k_currency = ''KES'', k_installationFeeMinor = 0, k_activationFeeMinor = 0, k_taxPercent = None,
     k_isActive = True, k_deletedAt = None\<rparr>"

definition sample_service :: service where
  "sample_service = \<lparr>s_id = 60, s_tenantId = 7, s_customerId = 3, s_packageId = 50, s_status = S_ACTIVE,
     s_priceOverrideMinor = None, s_startDate = 0, s_nextBillingAt = 100, s_autoRenew = True,
     s_cancelledAt = None, s_pausedUntil = None, s_provisioningStatus = PS_ACTIVE\<rparr>"

definition sample_invoice :: invoice where
  "sample_invoice = \<lparr>i_id = 70, i_tenantId = 7, i_customerId = 3, i_customerServiceId = Some 60,
     i_invoiceNumber = ''INV-0000001'', i_status = I_PENDING, i_subtotalMinor = 250000, i_taxMinor = 0,
     i_totalMinor = 250000, i_amountPaidMinor = 0, i_currency = ''KES'', i_issuedAt = 0, i_dueDate = 100,
     i_paidAt = None, i_voidedAt = None, i_items = [], i_dunningStage = 0, i_lastDunningAt = None\<rparr>"

end
