(* ===== verification/Sequence.thy ===== *)
theory Sequence
  imports Billing
begin

text \<open>
  packages/billing/src/sequence.ts: numbers that read as a sequence (customer, invoice and
  receipt numbers), computed by counting a tenant's rows and retried when the database's
  unique constraint refuses one. The locale \<open>numbered_rows\<close> is what its three users promise
  and get: an injective number format, and numbering without gaps or repeats.
\<close>

section \<open>The retry loop\<close>

definition isUniqueConstraintError :: "app_error \<Rightarrow> bool" where
  "isUniqueConstraintError err \<longleftrightarrow> err = UniqueViolation"

text \<open>
  The loop from an attempt on, with the number of attempts left. \<open>lastError\<close> starts undefined,
  which is what throwing it without any attempt would throw.
\<close>

fun retry_loop ::
  "(nat \<Rightarrow> string) \<Rightarrow> (string \<Rightarrow> 'a result) \<Rightarrow> nat \<Rightarrow> nat \<Rightarrow> app_error \<Rightarrow> 'a result" where
  "retry_loop computeCandidate createWithCandidate attempt 0 lastError = Inl lastError"
| "retry_loop computeCandidate createWithCandidate attempt (Suc left) lastError =
     (case createWithCandidate (computeCandidate attempt) of
        Inr created \<Rightarrow> Inr created
      | Inl err \<Rightarrow>
          if \<not> isUniqueConstraintError err then Inl err
          else retry_loop computeCandidate createWithCandidate (attempt + 1) left err)"

definition withRetryOnNumberCollision ::
  "(nat \<Rightarrow> string) \<Rightarrow> (string \<Rightarrow> 'a result) \<Rightarrow> nat \<Rightarrow> 'a result" where
  "withRetryOnNumberCollision computeCandidate createWithCandidate maxAttempts =
     retry_loop computeCandidate createWithCandidate 0 maxAttempts (UnexpectedError ''undefined'')"

lemma retry_loop_skip:
  "(\<And>i. i < k \<Longrightarrow> create (cand (a + i)) = Inl UniqueViolation) \<Longrightarrow> k < n \<Longrightarrow>
     create (cand (a + k)) = r \<Longrightarrow> r \<noteq> Inl UniqueViolation \<Longrightarrow> retry_loop cand create a n e = r"
proof (induction k arbitrary: a n e)
  case 0
  then obtain m where "n = Suc m" by (cases n) auto
  with 0 show ?case by (auto simp: isUniqueConstraintError_def split: sum.splits)
next
  case (Suc k)
  then obtain m where n: "n = Suc m" by (cases n) auto
  have c0: "create (cand a) = Inl UniqueViolation" using Suc.prems(1) [of 0] by simp
  have "create (cand (Suc a + i)) = Inl UniqueViolation" if "i < k" for i
    using Suc.prems(1) [of "Suc i"] that by simp
  from Suc.IH [OF this, of m UniqueViolation] Suc.prems(2-4) n c0 show ?case
    by (simp add: isUniqueConstraintError_def)
qed

lemma retry_loop_exhausted:
  "(\<And>i. i < n \<Longrightarrow> create (cand (a + i)) = Inl UniqueViolation) \<Longrightarrow> 0 < n \<Longrightarrow>
     retry_loop cand create a n e = Inl UniqueViolation"
proof (induction n arbitrary: a e)
  case 0
  then show ?case by simp
next
  case (Suc n)
  have c0: "create (cand a) = Inl UniqueViolation" using Suc.prems(1) [of 0] by simp
  have later: "create (cand (Suc a + i)) = Inl UniqueViolation" if "i < n" for i
    using Suc.prems(1) [of "Suc i"] that by simp
  show ?case
  proof (cases "n = 0")
    case True
    then show ?thesis using c0 by (simp add: isUniqueConstraintError_def)
  next
    case False
    with Suc.IH [OF later, of UniqueViolation] c0 show ?thesis
      by (simp add: isUniqueConstraintError_def)
  qed
qed

lemma retry_first:
  "create (cand 0) = Inr r \<Longrightarrow> 0 < n \<Longrightarrow> withRetryOnNumberCollision cand create n = Inr r"
  unfolding withRetryOnNumberCollision_def by (cases n) simp_all

text \<open>
  The retry loop returns the first candidate that does not collide. If the first k
  candidates hit the unique constraint and k is below the limit, the loop's result is exactly
  what creating with the candidate of attempt k gave, a row or another error; if all candidates
  collide, the unique-constraint error itself is thrown.
\<close>

theorem withRetry_first_free:
  "(k < maxAttempts \<and> (\<forall>i < k. createW (cand i) = Inl UniqueViolation)
      \<and> createW (cand k) \<noteq> Inl UniqueViolation
      \<longrightarrow> withRetryOnNumberCollision cand createW maxAttempts = createW (cand k))
   \<and> (0 < maxAttempts \<and> (\<forall>i < maxAttempts. createW (cand i) = Inl UniqueViolation)
      \<longrightarrow> withRetryOnNumberCollision cand createW maxAttempts = Inl UniqueViolation)"
  unfolding withRetryOnNumberCollision_def
  using retry_loop_skip [of k createW cand 0 maxAttempts] retry_loop_exhausted [of maxAttempts createW cand 0]
  by simp

theorem withRetry_first_free_witness:
  "withRetryOnNumberCollision nat_to_string
      (\<lambda>c. if c = ''0'' \<or> c = ''1'' then Inl UniqueViolation else Inr c) 5 = Inr ''2''"
proof -
  let ?create = "\<lambda>c. if c = ''0'' \<or> c = ''1'' then Inl UniqueViolation else Inr c"
  have n: "nat_to_string 0 = ''0''" "nat_to_string 1 = ''1''" "nat_to_string 2 = ''2''"
    by (simp_all add: nat_to_string.simps digit_char_def)
  have "\<forall>i < 2. ?create (nat_to_string i) = Inl UniqueViolation"
    using n by (simp add: less_2_cases_iff)
  then show ?thesis
    using withRetry_first_free [of 2 5 ?create nat_to_string] n by simp
qed

section \<open>Numbering\<close>

text \<open>Every tenant's rows carry the numbers 1, 2, ... in the order they were created.\<close>

definition numbers_dense :: "('r \<Rightarrow> id) \<Rightarrow> ('r \<Rightarrow> string) \<Rightarrow> (nat \<Rightarrow> string) \<Rightarrow> 'r list \<Rightarrow> bool" where
  "numbers_dense tenant_of number_of fmt t \<longleftrightarrow>
     (\<forall>tid. map number_of (filter (\<lambda>r. tenant_of r = tid) t) =
            map (\<lambda>i. fmt (i + 1)) [0..<count_where (\<lambda>r. tenant_of r = tid) t])"

locale numbered_rows =
  fixes tenant_of :: "'r \<Rightarrow> id"
    and number_of :: "'r \<Rightarrow> string"
    and fmt :: "nat \<Rightarrow> string"
  assumes fmt_inj: "fmt a = fmt b \<Longrightarrow> a = b"
begin

lemma next_number_free:
  assumes "numbers_dense tenant_of number_of fmt t" and "r \<in> set t" and "tenant_of r = tid"
  shows "number_of r \<noteq> fmt (count_where (\<lambda>r. tenant_of r = tid) t + 1)"
proof
  let ?n = "count_where (\<lambda>r. tenant_of r = tid) t"
  assume *: "number_of r = fmt (?n + 1)"
  have "number_of r \<in> set (map number_of (filter (\<lambda>r. tenant_of r = tid) t))"
    using assms(2,3) by auto
  then have "number_of r \<in> set (map (\<lambda>i. fmt (i + 1)) [0..<?n])"
    using assms(1) by (simp only: numbers_dense_def)
  with * show False by (auto dest: fmt_inj)
qed

lemma append_numbered:
  assumes "numbers_dense tenant_of number_of fmt t"
    and "number_of r = fmt (count_where (\<lambda>x. tenant_of x = tenant_of r) t + 1)"
  shows "numbers_dense tenant_of number_of fmt (t @ [r])"
  using assms by (simp add: numbers_dense_def count_where_def)

lemma numbers_unique:
  assumes "numbers_dense tenant_of number_of fmt t" and "a \<in> set t" and "b \<in> set t"
    and "tenant_of a = tenant_of b" and "number_of a = number_of b" and "distinct t"
  shows "a = b"
proof -
  let ?rows = "filter (\<lambda>r. tenant_of r = tenant_of a) t"
  have "distinct (map (\<lambda>i. fmt (i + 1)) [0..<count_where (\<lambda>r. tenant_of r = tenant_of a) t])"
    using fmt_inj by (fastforce simp: distinct_map inj_on_def)
  then have "distinct (map number_of ?rows)"
    using assms(1) by (simp only: numbers_dense_def)
  then show ?thesis
    using assms(2-5) by (auto simp: distinct_map inj_on_def)
qed

lemma update_numbered:
  assumes "numbers_dense tenant_of number_of fmt t"
    and "\<And>r. tenant_of (f r) = tenant_of r" and "\<And>r. number_of (f r) = number_of r"
  shows "numbers_dense tenant_of number_of fmt (update_where p f t)"
proof -
  have "map number_of (filter (\<lambda>r. tenant_of r = tid) (update_where p f t)) =
        map number_of (filter (\<lambda>r. tenant_of r = tid) t)" for tid
    using assms(2,3) by (induction t) auto
  moreover have "count_where (\<lambda>r. tenant_of r = tid) (update_where p f t) =
      count_where (\<lambda>r. tenant_of r = tid) t" for tid
    using assms(2) by (induction t) (auto simp: count_where_def)
  ultimately show ?thesis using assms(1) by (simp add: numbers_dense_def)
qed

end

definition numbered :: "string \<Rightarrow> nat \<Rightarrow> nat \<Rightarrow> string" where
  "numbered prefix width n = prefix @ pad_start width (CHR ''0'') (nat_to_string n)"

lemma numbered_inj: "numbered p k a = numbered p k b \<Longrightarrow> a = b"
  by (auto simp: numbered_def dest: pad_start_number_inj)

interpretation invoice_numbers: numbered_rows i_tenantId i_invoiceNumber "numbered ''INV-'' 7"
  by unfold_locales (rule numbered_inj)

interpretation receipt_numbers: numbered_rows r_tenantId r_receiptNumber "numbered ''RCT-'' 7"
  by unfold_locales (rule numbered_inj)

interpretation customer_numbers: numbered_rows c_tenantId c_customerNumber "numbered ''CUS-'' 6"
  by unfold_locales (rule numbered_inj)

end
