(* ===== verification/Invoices.thy ===== *)
theory Invoices
  imports Sequence
begin

text \<open>
  packages/billing/src/invoice.service.ts: invoice numbers, the three kinds of invoice
  (first, renewal, add-on), lookup and voiding. \<open>create\<close> enforces the table's unique
  (tenantId, invoiceNumber) constraint; \<open>issuedAt\<close> defaults to now.
\<close>

section \<open>Operations\<close>

definition generateInvoiceNumber :: "'x billing_db_scheme \<Rightarrow> id \<Rightarrow> nat \<Rightarrow> string" where
  "generateInvoiceNumber db tenantId attempt =
     numbered ''INV-'' 7 (count_where (\<lambda>i. i_tenantId i = tenantId) (invoices db) + 1 + attempt)"

definition insert_invoice :: "invoice \<Rightarrow> 'x billing_db_scheme \<Rightarrow> (invoice \<times> 'x billing_db_scheme) result" where
  "insert_invoice bill db =
     (if \<exists>i \<in> set (invoices db). i_tenantId i = i_tenantId bill \<and> i_invoiceNumber i = i_invoiceNumber bill
      then Inl UniqueViolation
      else let row = bill\<lparr>i_id := nextId db\<rparr>
           in Inr (row, db\<lparr>invoices := invoices db @ [row], nextId := nextId db + 1\<rparr>))"

definition createInvoice ::
  "id \<Rightarrow> id \<Rightarrow> id option \<Rightarrow> line_item list \<Rightarrow> int option \<Rightarrow> time \<Rightarrow> string \<Rightarrow>
     'x billing_db_scheme \<Rightarrow> (invoice \<times> 'x billing_db_scheme) result" where
  "createInvoice tenantId customerId customerServiceId items taxPercent dueDate currency db =
     (let subtotalMinor = sum_list (map l_totalMinor items);
          taxMinor = taxAmountMinor subtotalMinor taxPercent;
          totalMinor = subtotalMinor + taxMinor
      in withRetryOnNumberCollision
           (\<lambda>attempt. generateInvoiceNumber db tenantId attempt)
           (\<lambda>invoiceNumber. insert_invoice
              \<lparr>i_id = 0, i_tenantId = tenantId, i_customerId = customerId,
               i_customerServiceId = customerServiceId, i_invoiceNumber = invoiceNumber,
               i_status = I_PENDING, i_subtotalMinor = subtotalMinor, i_taxMinor = taxMinor,
               i_totalMinor = totalMinor, i_amountPaidMinor = 0, i_currency = currency,
               i_issuedAt = clock db, i_dueDate = dueDate, i_paidAt = None, i_voidedAt = None,
               i_items = items, i_dunningStage = 0, i_lastDunningAt = None\<rparr> db)
           5)"

definition base_price :: "service \<Rightarrow> package \<Rightarrow> minor" where
  "base_price subscription pkg =
     (case s_priceOverrideMinor subscription of Some p \<Rightarrow> p | None \<Rightarrow> k_priceMinor pkg)"

definition single_item :: "string \<Rightarrow> minor \<Rightarrow> line_item" where
  "single_item description amount =
     \<lparr>l_description = description, l_quantity = 1, l_unitPriceMinor = amount, l_totalMinor = amount\<rparr>"

definition first_invoice_items :: "service \<Rightarrow> package \<Rightarrow> int \<Rightarrow> line_item list" where
  "first_invoice_items subscription pkg cycleDays =
     (let daysRemaining = max 0 (ceil_div (s_nextBillingAt subscription - s_startDate subscription) day_ms);
          proRatedMinor = proRataAmountMinor (base_price subscription pkg) daysRemaining cycleDays;
          label = (if daysRemaining \<ge> cycleDays
             then k_name pkg @ '' '' @ em_dash @ '' first billing cycle ('' @ int_to_string cycleDays @ '' days)''
             else k_name pkg @ '' '' @ em_dash @ '' pro-rated ('' @ int_to_string daysRemaining @ '' of ''
                    @ int_to_string cycleDays @ '' days)'')
      in [single_item label proRatedMinor]
         @ (if k_installationFeeMinor pkg > 0 then [single_item ''Installation fee'' (k_installationFeeMinor pkg)] else [])
         @ (if k_activationFeeMinor pkg > 0 then [single_item ''Activation fee'' (k_activationFeeMinor pkg)] else []))"

definition createFirstInvoiceForSubscription ::
  "service \<Rightarrow> package \<Rightarrow> 'x billing_db_scheme \<Rightarrow> (invoice \<times> 'x billing_db_scheme) result" where
  "createFirstInvoiceForSubscription subscription pkg db =
     (case cycleLengthDays (k_billingCycle pkg) (k_durationDays pkg) of
        Inl e \<Rightarrow> Inl e
      | Inr cycleDays \<Rightarrow>
          createInvoice (s_tenantId subscription) (s_customerId subscription) (Some (s_id subscription))
            (first_invoice_items subscription pkg cycleDays) (k_taxPercent pkg)
            (s_nextBillingAt subscription) (k_currency pkg) db)"

definition createRenewalInvoice ::
  "service \<Rightarrow> package \<Rightarrow> time \<Rightarrow> 'x billing_db_scheme \<Rightarrow> (invoice \<times> 'x billing_db_scheme) result" where
  "createRenewalInvoice subscription pkg dueDate db =
     createInvoice (s_tenantId subscription) (s_customerId subscription) (Some (s_id subscription))
       [single_item (k_name pkg @ '' '' @ em_dash @ '' renewal'') (base_price subscription pkg)]
       (k_taxPercent pkg) dueDate (k_currency pkg) db"

definition find_invoice_in :: "id \<Rightarrow> id \<Rightarrow> 'x billing_db_scheme \<Rightarrow> invoice option" where
  "find_invoice_in tenantId invoiceId db =
     List.find (\<lambda>i. i_id i = invoiceId \<and> i_tenantId i = tenantId) (invoices db)"

definition getInvoiceOrThrow :: "id \<Rightarrow> id \<Rightarrow> 'x billing_db_scheme \<Rightarrow> invoice result" where
  "getInvoiceOrThrow tenantId invoiceId db =
     (case find_invoice_in tenantId invoiceId db of
        None \<Rightarrow> Inl (NotFoundError ''Invoice'')
      | Some invoice \<Rightarrow> Inr invoice)"

definition voidInvoice :: "id \<Rightarrow> id \<Rightarrow> 'x billing_db_scheme \<Rightarrow> (invoice \<times> 'x billing_db_scheme) result" where
  "voidInvoice tenantId invoiceId db =
     (case getInvoiceOrThrow tenantId invoiceId db of
        Inl e \<Rightarrow> Inl e
      | Inr invoice \<Rightarrow>
          if i_status invoice = I_PAID \<or> i_status invoice = I_PARTIALLY_PAID
          then Inl (ConflictError (''Cannot void an invoice that has payments applied '' @ em_dash
                     @ '' issue a refund on the payment(s) instead''))
          else
            let upd = (\<lambda>i. i\<lparr>i_status := I_VOID, i_voidedAt := Some (clock db)\<rparr>)
            in Inr (upd invoice, update_invoice invoiceId upd db))"

definition createAddOnInvoice ::
  "id \<Rightarrow> id \<Rightarrow> id \<Rightarrow> string \<Rightarrow> minor \<Rightarrow> string \<Rightarrow> int option \<Rightarrow>
     'x billing_db_scheme \<Rightarrow> (invoice \<times> 'x billing_db_scheme) result" where
  "createAddOnInvoice tenantId customerId customerServiceId description priceMinor currency taxPercent db =
     createInvoice tenantId customerId (Some customerServiceId)
       [single_item description (netFromGrossMinor priceMinor taxPercent)]
       taxPercent (clock db + day_ms) currency db"

section \<open>What a created invoice is\<close>

text \<open>Numbering is dense, and every row's identifier came from the counter.\<close>

definition invoices_ok :: "'x billing_db_scheme \<Rightarrow> bool" where
  "invoices_ok db \<longleftrightarrow>
     numbers_dense i_tenantId i_invoiceNumber (numbered ''INV-'' 7) (invoices db) \<and>
     distinct (map i_id (invoices db)) \<and> (\<forall>i \<in> set (invoices db). i_id i < nextId db)"

text \<open>An invoice as the code first writes it.\<close>

definition fresh_invoice :: "id \<Rightarrow> string \<Rightarrow> time \<Rightarrow> id \<Rightarrow> id \<Rightarrow> id option \<Rightarrow> line_item list \<Rightarrow> int option \<Rightarrow> time \<Rightarrow> string \<Rightarrow> invoice" where
  "fresh_invoice i num now tid cid sid items tax due cur =
     (let sub = sum_list (map l_totalMinor items)
      in \<lparr>i_id = i, i_tenantId = tid, i_customerId = cid, i_customerServiceId = sid,
          i_invoiceNumber = num, i_status = I_PENDING, i_subtotalMinor = sub,
          i_taxMinor = taxAmountMinor sub tax, i_totalMinor = sub + taxAmountMinor sub tax,
          i_amountPaidMinor = 0, i_currency = cur, i_issuedAt = now, i_dueDate = due,
          i_paidAt = None, i_voidedAt = None, i_items = items, i_dunningStage = 0, i_lastDunningAt = None\<rparr>)"

lemma createInvoice_eq:
  assumes "invoices_ok db"
  shows "createInvoice tid cid sid items tax due cur db =
    (let bill = fresh_invoice (nextId db)
                 (numbered ''INV-'' 7 (count_where (\<lambda>i. i_tenantId i = tid) (invoices db) + 1))
                 (clock db) tid cid sid items tax due cur
     in Inr (bill, db\<lparr>invoices := invoices db @ [bill], nextId := nextId db + 1\<rparr>))"
proof -
  let ?num = "numbered ''INV-'' 7 (count_where (\<lambda>i. i_tenantId i = tid) (invoices db) + 1)"
  have "\<not> (\<exists>i \<in> set (invoices db). i_tenantId i = tid \<and> i_invoiceNumber i = ?num)"
    using invoice_numbers.next_number_free [of "invoices db"] assms by (auto simp: invoices_ok_def)
  then show ?thesis
    unfolding createInvoice_def Let_def
    by (intro retry_first) (simp_all add: generateInvoiceNumber_def insert_invoice_def Let_def fresh_invoice_def)
qed

lemma invoices_ok_append:
  assumes "invoices_ok db"
    and "i_invoiceNumber bill = numbered ''INV-'' 7 (count_where (\<lambda>i. i_tenantId i = i_tenantId bill) (invoices db) + 1)"
    and "i_id bill = nextId db"
  shows "invoices_ok (db\<lparr>invoices := invoices db @ [bill], nextId := nextId db + 1\<rparr>)"
  using assms invoice_numbers.append_numbered [of "invoices db" bill]
  by (force simp: invoices_ok_def)

lemma invoices_ok_update:
  assumes "invoices_ok db"
    and "\<And>i. i_tenantId (f i) = i_tenantId i" and "\<And>i. i_invoiceNumber (f i) = i_invoiceNumber i"
    and "\<And>i. i_id (f i) = i_id i"
  shows "invoices_ok (update_invoice k f db)"
  using assms invoice_numbers.update_numbered [of "invoices db" f "\<lambda>r. i_id r = k"]
  by (auto simp: invoices_ok_def map_update_where set_update_where)

lemma invoices_ok_cong:
  "invoices_ok db \<Longrightarrow> invoices db' = invoices db \<Longrightarrow> nextId db \<le> nextId db' \<Longrightarrow> invoices_ok db'"
  by (auto simp: invoices_ok_def intro: less_le_trans)

lemma createInvoice_ok:
  assumes "invoices_ok db"
  obtains bill where
    "createInvoice tid cid sid items tax due cur db = Inr (bill, db\<lparr>invoices := invoices db @ [bill], nextId := nextId db + 1\<rparr>)"
    "bill = fresh_invoice (nextId db)
       (numbered ''INV-'' 7 (count_where (\<lambda>i. i_tenantId i = tid) (invoices db) + 1)) (clock db) tid cid sid items tax due cur"
    "invoices_ok (db\<lparr>invoices := invoices db @ [bill], nextId := nextId db + 1\<rparr>)"
proof (rule that [OF _ refl])
  let ?bill = "fresh_invoice (nextId db)
       (numbered ''INV-'' 7 (count_where (\<lambda>i. i_tenantId i = tid) (invoices db) + 1)) (clock db) tid cid sid items tax due cur"
  show "createInvoice tid cid sid items tax due cur db = Inr (?bill, db\<lparr>invoices := invoices db @ [?bill], nextId := nextId db + 1\<rparr>)"
    by (simp add: createInvoice_eq [OF assms] Let_def)
  show "invoices_ok (db\<lparr>invoices := invoices db @ [?bill], nextId := nextId db + 1\<rparr>)"
    by (rule invoices_ok_append [OF assms]) (simp_all add: fresh_invoice_def Let_def)
qed

text \<open>
  In a database whose invoice numbers run without gaps, creating an invoice never fails and
  keeps them so: the new row gets the tenant's next number, a fresh identifier, status PENDING,
  nothing paid, and a total of its items plus the tax on them; every other row stays.
\<close>

theorem createInvoice_numbers_and_totals:
  assumes "invoices_ok db"
  shows "case createInvoice tid cid sid items tax due cur db of
      Inl _ \<Rightarrow> False
    | Inr (bill, db') \<Rightarrow> invoices_ok db' \<and> invoices db' = invoices db @ [bill]
        \<and> i_id bill = nextId db \<and> i_tenantId bill = tid \<and> i_customerId bill = cid
        \<and> i_invoiceNumber bill = numbered ''INV-'' 7 (count_where (\<lambda>i. i_tenantId i = tid) (invoices db) + 1)
        \<and> i_status bill = I_PENDING \<and> i_amountPaidMinor bill = 0
        \<and> i_subtotalMinor bill = sum_list (map l_totalMinor items)
        \<and> i_totalMinor bill = i_subtotalMinor bill + taxAmountMinor (i_subtotalMinor bill) tax"
proof -
  obtain bill where bill:
    "createInvoice tid cid sid items tax due cur db = Inr (bill, db\<lparr>invoices := invoices db @ [bill], nextId := nextId db + 1\<rparr>)"
    "bill = fresh_invoice (nextId db)
       (numbered ''INV-'' 7 (count_where (\<lambda>i. i_tenantId i = tid) (invoices db) + 1)) (clock db) tid cid sid items tax due cur"
    "invoices_ok (db\<lparr>invoices := invoices db @ [bill], nextId := nextId db + 1\<rparr>)"
    by (rule createInvoice_ok [OF assms])
  show ?thesis
    unfolding bill(1) using bill(3) by (simp add: bill(2) fresh_invoice_def Let_def)
qed

lemma invoices_ok_empty: "invoices_ok empty_db"
  by (simp add: invoices_ok_def empty_db_def numbers_dense_def count_where_def)

theorem createInvoice_numbers_and_totals_witness:
  "case createInvoice 7 3 None [single_item ''Plan'' 1000] (Some 16) 0 ''KES'' empty_db of
      Inl _ \<Rightarrow> False
    | Inr (bill, db') \<Rightarrow> i_totalMinor bill = 1160 \<and> invoices db' = [bill]"
  using createInvoice_numbers_and_totals [OF invoices_ok_empty, where tid = 7 and cid = 3 and sid = None
      and items = "[single_item ''Plan'' 1000]" and tax = "Some 16" and due = 0 and cur = "''KES''"]
  by (auto split: sum.splits simp: single_item_def taxAmountMinor_def round_div_def empty_db_def)

text \<open>The invoice of a new subscription bills a full cycle when the period is a cycle long.\<close>

lemma first_invoice_full_cycle:
  assumes "s_nextBillingAt s = addDays (s_startDate s) n" and "1 \<le> n"
  shows "sum_list (map l_totalMinor (first_invoice_items s pkg n)) =
    base_price s pkg + max 0 (k_installationFeeMinor pkg) + max 0 (k_activationFeeMinor pkg)"
proof -
  have "ceil_div (s_nextBillingAt s - s_startDate s) day_ms = n"
    using assms(1) by (simp add: addDays_def day_ms_def ceil_div_mult)
  then show ?thesis
    using assms(2) by (simp add: first_invoice_items_def Let_def single_item_def proRata_full)
qed

text \<open>
  An add-on's price is quoted tax included, and its invoice never asks for more: the total
  is the net price plus its tax, which is at most the quoted price, and is exactly the quoted
  price whenever some whole net amount plus its tax makes it.
\<close>

theorem createAddOnInvoice_total:
  assumes "invoices_ok db" and "0 \<le> price" and "\<forall>t. tax = Some t \<longrightarrow> 0 \<le> t"
  shows "case createAddOnInvoice tid cid sid descr price cur tax db of
      Inl _ \<Rightarrow> False
    | Inr (bill, db') \<Rightarrow> invoices_ok db' \<and> i_totalMinor bill \<le> price \<and> i_dueDate bill = clock db + day_ms
        \<and> ((\<exists>n \<ge> 0. n + taxAmountMinor n tax = price) \<longrightarrow> i_totalMinor bill = price)"
proof -
  let ?net = "netFromGrossMinor price tax"
  obtain bill where bill:
    "createInvoice tid cid (Some sid) [single_item descr ?net] tax (clock db + day_ms) cur db
       = Inr (bill, db\<lparr>invoices := invoices db @ [bill], nextId := nextId db + 1\<rparr>)"
    "bill = fresh_invoice (nextId db)
       (numbered ''INV-'' 7 (count_where (\<lambda>i. i_tenantId i = tid) (invoices db) + 1)) (clock db) tid cid (Some sid)
       [single_item descr ?net] tax (clock db + day_ms) cur"
    "invoices_ok (db\<lparr>invoices := invoices db @ [bill], nextId := nextId db + 1\<rparr>)"
    by (rule createInvoice_ok [OF assms(1)])
  have total: "i_totalMinor bill = ?net + taxAmountMinor ?net tax" and due: "i_dueDate bill = clock db + day_ms"
    by (simp_all add: bill(2) fresh_invoice_def Let_def single_item_def)
  show ?thesis
    unfolding createAddOnInvoice_def bill(1) using bill(3) total due
      netFromGross_spec_opt [of tax price] assms(2,3) by auto
qed

theorem createAddOnInvoice_total_witness:
  "case createAddOnInvoice 7 3 4 ''Add-on: Boost (3 hours)'' 5000 ''KES'' (Some 16) empty_db of
      Inl _ \<Rightarrow> False
    | Inr (bill, db') \<Rightarrow> i_totalMinor bill \<le> 5000"
  using createAddOnInvoice_total [OF invoices_ok_empty, where price = 5000 and tax = "Some 16" and tid = 7 and cid = 3 and sid = 4
      and descr = "''Add-on: Boost (3 hours)''" and cur = "''KES''"]
  by (auto split: sum.splits)

end
