(* ===== verification/RadiusUsers.thy ===== *)
theory RadiusUsers
  imports Billing
begin

text \<open>
  packages/radius/src/radius-user.service.ts and username.ts, the speed choice of
  rate.service.ts, and the secret generator of packages/shared/src/crypto.ts: network
  accounts and the radcheck/radreply rows the RADIUS server reads. Encryption and the
  generated password are arguments. \<open>queueSyncTask\<close> appends to the outbox.
\<close>

section \<open>Secrets and usernames\<close>

definition is_alnum :: "char \<Rightarrow> bool" where
  "is_alnum c \<longleftrightarrow> (CHR ''a'' \<le> c \<and> c \<le> CHR ''z'') \<or> (CHR ''A'' \<le> c \<and> c \<le> CHR ''Z'') \<or> (CHR ''0'' \<le> c \<and> c \<le> CHR ''9'')"

text \<open>
  The loop of \<open>generateAlnumSecret\<close> over the successive random draws, each the base64url text
  of one \<open>randomBytes\<close>; \<open>None\<close> when the draws run out before the secret is long enough.
\<close>

fun alnum_loop :: "nat \<Rightarrow> string \<Rightarrow> string list \<Rightarrow> string option" where
  "alnum_loop n out draws =
     (if length out < n
      then (case draws of [] \<Rightarrow> None | d # ds \<Rightarrow> alnum_loop n (out @ filter is_alnum d) ds)
      else Some (take n out))"

declare alnum_loop.simps [simp del]

definition generateAlnumSecret :: "nat \<Rightarrow> string list \<Rightarrow> string option" where
  "generateAlnumSecret n draws = alnum_loop n [] draws"

lemma alnum_loop_eq:
  "alnum_loop n out draws =
     (if n \<le> length out + length (filter is_alnum (concat draws))
      then Some (take n (out @ filter is_alnum (concat draws))) else None)"
proof (induction draws arbitrary: out)
  case Nil
  then show ?case by (simp add: alnum_loop.simps [of n out])
next
  case (Cons d ds)
  then show ?case by (simp add: alnum_loop.simps [of n out] add.assoc not_less)
qed

text \<open>
  The secret generator returns as soon as the random draws hold enough letters and digits,
  and the secret is then exactly the first \<open>n\<close> letters and digits drawn: never padded, never
  short, never with another character.
\<close>

theorem generateAlnumSecret_exact:
  "generateAlnumSecret n draws =
     (if n \<le> length (filter is_alnum (concat draws))
      then Some (take n (filter is_alnum (concat draws))) else None)
   \<and> (\<forall>s. generateAlnumSecret n draws = Some s \<longrightarrow> length s = n \<and> (\<forall>c \<in> set s. is_alnum c))"
  unfolding generateAlnumSecret_def alnum_loop_eq by (auto dest: in_set_takeD)

theorem generateAlnumSecret_exact_witness:
  "generateAlnumSecret 4 [''a-_b'', ''9_Zx''] = Some ''ab9Z''"
  using generateAlnumSecret_exact [of 4 "[''a-_b'', ''9_Zx'']"] by (simp add: is_alnum_def)

definition buildRadiusUsername :: "string \<Rightarrow> string \<Rightarrow> string" where
  "buildRadiusUsername tenantSlug customerNumber = map to_lower (tenantSlug @ ''-'' @ customerNumber)"

definition generateRadiusPassword :: "string list \<Rightarrow> string option" where
  "generateRadiusPassword draws = generateAlnumSecret 12 draws"

section \<open>The fastest running boost\<close>

datatype rate = Rate (downloadKbps: int) (uploadKbps: int)

text \<open>Speeds are compared by download, then by upload.\<close>

instantiation rate :: linorder
begin

definition less_eq_rate :: "rate \<Rightarrow> rate \<Rightarrow> bool" where
  "less_eq_rate a b \<longleftrightarrow> downloadKbps a < downloadKbps b \<or> (downloadKbps a = downloadKbps b \<and> uploadKbps a \<le> uploadKbps b)"

definition less_rate :: "rate \<Rightarrow> rate \<Rightarrow> bool" where
  "less_rate a b \<longleftrightarrow> downloadKbps a < downloadKbps b \<or> (downloadKbps a = downloadKbps b \<and> uploadKbps a < uploadKbps b)"

instance
  by standard (auto simp: less_eq_rate_def less_rate_def intro: rate.expand)

end

definition boosted :: "rate \<Rightarrow> int option \<times> int option \<Rightarrow> rate" where
  "boosted plan b =
     Rate (max (downloadKbps plan) (case fst b of Some d \<Rightarrow> d | None \<Rightarrow> 0))
          (max (uploadKbps plan) (case snd b of Some u \<Rightarrow> u | None \<Rightarrow> 0))"

definition faster :: "rate \<Rightarrow> rate \<Rightarrow> bool" where
  "faster candidate best \<longleftrightarrow> downloadKbps candidate > downloadKbps best
     \<or> (downloadKbps candidate = downloadKbps best \<and> uploadKbps candidate > uploadKbps best)"

definition pickEffectiveRate :: "rate \<Rightarrow> (int option \<times> int option) list \<Rightarrow> rate" where
  "pickEffectiveRate plan boosts =
     foldl (\<lambda>best b. let candidate = boosted plan b in if faster candidate best then candidate else best) plan boosts"

definition rateLimitValue :: "rate \<Rightarrow> string" where
  "rateLimitValue r = int_to_string (uploadKbps r) @ ''k/'' @ int_to_string (downloadKbps r) @ ''k''"

lemma faster_less: "faster a b \<longleftrightarrow> b < a"
  by (auto simp: faster_def less_rate_def)

lemma Max_merge: "finite S \<Longrightarrow> Max (insert (max a b) S) = Max (insert a (insert b S))"
  for a b :: "'a :: linorder"
  by (cases "S = {}") (simp_all add: max.assoc)

lemma fold_fastest:
  "foldl (\<lambda>best b. let c = boosted plan b in if faster c best then c else best) best0 boosts
     = Max (set (best0 # map (boosted plan) boosts))"
proof (induction boosts arbitrary: best0)
  case Nil
  then show ?case by simp
next
  case (Cons b bs)
  let ?m = "if faster (boosted plan b) best0 then boosted plan b else best0"
  have m: "?m = max best0 (boosted plan b)" by (auto simp: faster_less max_def)
  have "foldl (\<lambda>best b. let c = boosted plan b in if faster c best then c else best) best0 (b # bs)
      = Max (set (?m # map (boosted plan) bs))" using Cons.IH [of ?m] by (simp add: Let_def)
  also have "\<dots> = Max (set (best0 # map (boosted plan) (b # bs)))"
    unfolding m by (simp add: Max_merge del: Max_insert)
  finally show ?case .
qed

text \<open>
  A subscriber's effective speed is the greatest, by download and then upload, among the
  plan's own speed and what each running boost would give. No boost makes anyone slower than
  the plan, in either direction.
\<close>

theorem pickEffectiveRate_is_max:
  "pickEffectiveRate plan boosts = Max (set (plan # map (boosted plan) boosts))
   \<and> downloadKbps plan \<le> downloadKbps (pickEffectiveRate plan boosts)
   \<and> uploadKbps plan \<le> uploadKbps (pickEffectiveRate plan boosts)"
proof -
  have eq: "pickEffectiveRate plan boosts = Max (set (plan # map (boosted plan) boosts))"
    unfolding pickEffectiveRate_def by (rule fold_fastest)
  have "pickEffectiveRate plan boosts \<in> set (plan # map (boosted plan) boosts)"
    unfolding eq by (rule Max_in) simp_all
  then show ?thesis using eq by (auto simp: boosted_def)
qed

section \<open>Network accounts\<close>

definition mikrotikRateLimit :: "int \<Rightarrow> int \<Rightarrow> string" where
  "mikrotikRateLimit download upload = int_to_string upload @ ''k/'' @ int_to_string download @ ''k''"

record provision_input =
  pr_tenantId :: id
  pr_tenantSlug :: string
  pr_customerId :: id
  pr_customerServiceId :: id
  pr_customerNumber :: string
  pr_downloadKbps :: int
  pr_uploadKbps :: int
  pr_connectionType :: "string option"

definition provisionRadiusUser ::
  "(string \<Rightarrow> string) \<Rightarrow> string \<Rightarrow> provision_input \<Rightarrow> 'x billing_db_scheme \<Rightarrow>
     ((radius_user \<times> string) \<times> 'x billing_db_scheme) result" where
  "provisionRadiusUser encryptAtRest plaintextPassword inp db =
     (let username = buildRadiusUsername (pr_tenantSlug inp) (pr_customerNumber inp)
      in if \<exists>u \<in> set (radiusUsers db). ru_username u = username
         then Inl (ConflictError (''A RADIUS user for \"'' @ username @ ''\" already exists''))
         else
           let radiusUser = \<lparr>ru_id = nextId db, ru_tenantId = pr_tenantId inp, ru_customerId = pr_customerId inp,
                 ru_customerServiceId = pr_customerServiceId inp, ru_username = username,
                 ru_passwordEncrypted = encryptAtRest plaintextPassword, ru_status = R_ACTIVE,
                 ru_connectionType = (case pr_connectionType inp of Some t \<Rightarrow> t | None \<Rightarrow> ''PPPOE''),
                 ru_downloadKbps = pr_downloadKbps inp, ru_uploadKbps = pr_uploadKbps inp\<rparr>;
               check = \<lparr>rr_username = username, rr_attribute = ''Cleartext-Password'', rr_op = '':='', rr_value = plaintextPassword\<rparr>;
               reply = \<lparr>rr_username = username, rr_attribute = ''Mikrotik-Rate-Limit'', rr_op = ''='',
                 rr_value = mikrotikRateLimit (pr_downloadKbps inp) (pr_uploadKbps inp)\<rparr>
           in Inr ((radiusUser, plaintextPassword),
                db\<lparr>nextId := nextId db + 1, radiusUsers := radiusUsers db @ [radiusUser],
                   radChecks := radChecks db @ [check], radReplies := radReplies db @ [reply]\<rparr>))"

definition getRadiusUserByCustomerServiceOrThrow :: "id \<Rightarrow> id \<Rightarrow> 'x billing_db_scheme \<Rightarrow> radius_user result" where
  "getRadiusUserByCustomerServiceOrThrow tenantId customerServiceId db =
     (case List.find (\<lambda>u. ru_tenantId u = tenantId \<and> ru_customerServiceId u = customerServiceId) (radiusUsers db) of
        None \<Rightarrow> Inl (NotFoundError ''RADIUS user'')
      | Some u \<Rightarrow> Inr u)"

definition delete_rows :: "string \<Rightarrow> string \<Rightarrow> rad_row list \<Rightarrow> rad_row list" where
  "delete_rows username attribute rows =
     filter (\<lambda>r. \<not> (rr_username r = username \<and> rr_attribute r = attribute)) rows"

definition set_radius_status :: "id \<Rightarrow> radius_status \<Rightarrow> radius_user list \<Rightarrow> radius_user list" where
  "set_radius_status uid st us = update_where (\<lambda>u. ru_id u = uid) (\<lambda>u. u\<lparr>ru_status := st\<rparr>) us"

definition suspendRadiusUser ::
  "id \<Rightarrow> id \<Rightarrow> 'x billing_db_scheme \<Rightarrow> (radius_user \<times> 'x billing_db_scheme) result" where
  "suspendRadiusUser tenantId customerServiceId db =
     (case getRadiusUserByCustomerServiceOrThrow tenantId customerServiceId db of
        Inl e \<Rightarrow> Inl e
      | Inr radiusUser \<Rightarrow>
          if ru_status radiusUser = R_SUSPENDED then Inr (radiusUser, db)
          else
            let reject = \<lparr>rr_username = ru_username radiusUser, rr_attribute = ''Auth-Type'', rr_op = '':='', rr_value = ''Reject''\<rparr>
            in Inr (radiusUser\<lparr>ru_status := R_SUSPENDED\<rparr>,
                 db\<lparr>radChecks := delete_rows (ru_username radiusUser) ''Auth-Type'' (radChecks db) @ [reject],
                    radiusUsers := set_radius_status (ru_id radiusUser) R_SUSPENDED (radiusUsers db),
                    outbox := outbox db @ [DisconnectUser tenantId (ru_id radiusUser)]\<rparr>))"

definition reactivateRadiusUser ::
  "id \<Rightarrow> id \<Rightarrow> 'x billing_db_scheme \<Rightarrow> (radius_user \<times> 'x billing_db_scheme) result" where
  "reactivateRadiusUser tenantId customerServiceId db =
     (case getRadiusUserByCustomerServiceOrThrow tenantId customerServiceId db of
        Inl e \<Rightarrow> Inl e
      | Inr radiusUser \<Rightarrow>
          if ru_status radiusUser = R_ACTIVE then Inr (radiusUser, db)
          else Inr (radiusUser\<lparr>ru_status := R_ACTIVE\<rparr>,
                 db\<lparr>radChecks := delete_rows (ru_username radiusUser) ''Auth-Type'' (radChecks db),
                    radiusUsers := set_radius_status (ru_id radiusUser) R_ACTIVE (radiusUsers db)\<rparr>))"

section \<open>The account and its radcheck rows agree\<close>

text \<open>
  What the RADIUS server enforces is in radcheck: a user with an \<open>Auth-Type\<close> row is rejected.
  The account's status and those rows must not drift apart, and a user keeps a password row.
\<close>

definition rejected :: "string \<Rightarrow> rad_row list \<Rightarrow> bool" where
  "rejected username rows \<longleftrightarrow> (\<exists>r \<in> set rows. rr_username r = username \<and> rr_attribute r = ''Auth-Type'')"

definition radius_in_sync :: "'x billing_db_scheme \<Rightarrow> bool" where
  "radius_in_sync db \<longleftrightarrow>
     distinct (map ru_id (radiusUsers db)) \<and> distinct (map ru_username (radiusUsers db)) \<and>
     (\<forall>u \<in> set (radiusUsers db). ru_id u < nextId db) \<and>
     (\<forall>r \<in> set (radChecks db). rr_attribute r = ''Auth-Type'' \<longrightarrow>
        (\<exists>u \<in> set (radiusUsers db). ru_username u = rr_username r)) \<and>
     (\<forall>u \<in> set (radiusUsers db).
        (ru_status u = R_SUSPENDED \<longleftrightarrow> rejected (ru_username u) (radChecks db)) \<and>
        (\<exists>r \<in> set (radChecks db). rr_username r = ru_username u \<and> rr_attribute r = ''Cleartext-Password''))"

lemma rejected_delete [simp]:
  "rejected u (delete_rows v ''Auth-Type'' rows) \<longleftrightarrow> u \<noteq> v \<and> rejected u rows"
  by (auto simp: rejected_def delete_rows_def)

lemma rejected_append [simp]:
  "rejected u (rows @ [r]) \<longleftrightarrow> rejected u rows \<or> (rr_username r = u \<and> rr_attribute r = ''Auth-Type'')"
  by (auto simp: rejected_def)

lemma set_radius_status_maps [simp]:
  "map ru_id (set_radius_status uid st us) = map ru_id us"
  "map ru_username (set_radius_status uid st us) = map ru_username us"
  by (simp_all add: set_radius_status_def map_update_where)

lemma getRadiusUserD:
  "getRadiusUserByCustomerServiceOrThrow t s db = Inr u \<Longrightarrow>
     u \<in> set (radiusUsers db) \<and> ru_tenantId u = t \<and> ru_customerServiceId u = s"
  by (auto simp: getRadiusUserByCustomerServiceOrThrow_def split: option.splits dest: find_SomeD)

text \<open>One account's status and its \<open>Auth-Type\<close> row set together.\<close>

lemma radius_in_sync_set:
  assumes ok: "radius_in_sync db" and u: "u \<in> set (radiusUsers db)"
    and chk: "rows = delete_rows (ru_username u) ''Auth-Type'' (radChecks db) @
        (if st = R_SUSPENDED then [\<lparr>rr_username = ru_username u, rr_attribute = ''Auth-Type'', rr_op = '':='', rr_value = ''Reject''\<rparr>] else [])"
    and db': "radiusUsers db' = set_radius_status (ru_id u) st (radiusUsers db)" "radChecks db' = rows"
      "nextId db' = nextId db"
  shows "radius_in_sync db'"
proof -
  have only: "x = u" if "x \<in> set (radiusUsers db)" "ru_username x = ru_username u \<or> ru_id x = ru_id u" for x
    using key_eq_rows [of ru_id "radiusUsers db" x u] key_eq_rows [of ru_username "radiusUsers db" x u] ok u that
    by (auto simp: radius_in_sync_def)
  have members: "set (set_radius_status (ru_id u) st (radiusUsers db)) =
      insert (u\<lparr>ru_status := st\<rparr>) (set (radiusUsers db) - {u})"
  proof -
    have one: "{x \<in> set (radiusUsers db). ru_id x = ru_id u} = {u}"
      and rest: "{x \<in> set (radiusUsers db). ru_id x \<noteq> ru_id u} = set (radiusUsers db) - {u}"
      using only u by blast+
    show ?thesis by (simp add: set_radius_status_def set_update_where one rest)
  qed
  have rej: "rejected n rows \<longleftrightarrow> (if n = ru_username u then st = R_SUSPENDED else rejected n (radChecks db))" for n
    by (auto simp: chk)
  have pass: "(\<exists>r \<in> set rows. rr_username r = n \<and> rr_attribute r = ''Cleartext-Password'') \<longleftrightarrow>
      (\<exists>r \<in> set (radChecks db). rr_username r = n \<and> rr_attribute r = ''Cleartext-Password'')" for n
    by (auto simp: chk delete_rows_def)
  have known: "\<exists>x \<in> set (radiusUsers db). ru_username x = rr_username r"
    if "r \<in> set rows" "rr_attribute r = ''Auth-Type''" for r
  proof -
    have "r \<in> set (radChecks db) \<or> rr_username r = ru_username u"
      using that(1) by (auto simp: chk delete_rows_def split: if_splits)
    with that(2) u ok show ?thesis unfolding radius_in_sync_def by metis
  qed
  have old: "ru_status x = R_SUSPENDED \<longleftrightarrow> rejected (ru_username x) (radChecks db)"
    "\<exists>r \<in> set (radChecks db). rr_username r = ru_username x \<and> rr_attribute r = ''Cleartext-Password''"
    if "x \<in> set (radiusUsers db)" for x
    using ok that unfolding radius_in_sync_def by blast+
  show ?thesis
    unfolding radius_in_sync_def db' set_radius_status_maps
  proof (intro conjI ballI impI)
    show "distinct (map ru_id (radiusUsers db))" "distinct (map ru_username (radiusUsers db))"
      using ok by (simp_all add: radius_in_sync_def)
    show "ru_id x < nextId db" if "x \<in> set (set_radius_status (ru_id u) st (radiusUsers db))" for x
      using that ok u unfolding members by (auto simp: radius_in_sync_def)
    show "\<exists>x \<in> set (set_radius_status (ru_id u) st (radiusUsers db)). ru_username x = rr_username r"
      if "r \<in> set rows" "rr_attribute r = ''Auth-Type''" for r
      using known [OF that] unfolding members by force
    show "ru_status x = R_SUSPENDED \<longleftrightarrow> rejected (ru_username x) rows"
      if "x \<in> set (set_radius_status (ru_id u) st (radiusUsers db))" for x
      using that old(1) [of x] only [of x] unfolding members rej by auto
    show "\<exists>r \<in> set rows. rr_username r = ru_username x \<and> rr_attribute r = ''Cleartext-Password''"
      if "x \<in> set (set_radius_status (ru_id u) st (radiusUsers db))" for x
      using that old(2) [of x] old(2) [OF u] unfolding members pass by auto
  qed
qed

lemma suspendRadiusUser_sync:
  assumes "radius_in_sync db" and "suspendRadiusUser t s db = Inr (u, db')"
  shows "radius_in_sync db' \<and> rejected (ru_username u) (radChecks db')"
proof -
  obtain w where w: "getRadiusUserByCustomerServiceOrThrow t s db = Inr w"
    using assms(2) by (auto simp: suspendRadiusUser_def split: sum.splits)
  from getRadiusUserD [OF w] have mem: "w \<in> set (radiusUsers db)" by simp
  show ?thesis
  proof (cases "ru_status w = R_SUSPENDED")
    case True
    then show ?thesis using assms w mem by (auto simp: suspendRadiusUser_def radius_in_sync_def)
  next
    case False
    from radius_in_sync_set [OF assms(1) mem refl, of db' R_SUSPENDED] show ?thesis
      using assms(2) w False by (auto simp: suspendRadiusUser_def Let_def)
  qed
qed

lemma reactivateRadiusUser_sync:
  assumes "radius_in_sync db" and "reactivateRadiusUser t s db = Inr (u, db')"
  shows "radius_in_sync db' \<and> \<not> rejected (ru_username u) (radChecks db')"
proof -
  obtain w where w: "getRadiusUserByCustomerServiceOrThrow t s db = Inr w"
    using assms(2) by (auto simp: reactivateRadiusUser_def split: sum.splits)
  from getRadiusUserD [OF w] have mem: "w \<in> set (radiusUsers db)" by simp
  show ?thesis
  proof (cases "ru_status w = R_ACTIVE")
    case True
    then show ?thesis using assms w mem by (auto simp: reactivateRadiusUser_def radius_in_sync_def)
  next
    case False
    from radius_in_sync_set [OF assms(1) mem refl, of db' R_ACTIVE] show ?thesis
      using assms(2) w False by (auto simp: reactivateRadiusUser_def)
  qed
qed

lemma provisionRadiusUser_sync:
  assumes ok: "radius_in_sync db" and r: "provisionRadiusUser enc pw inp db = Inr ((u, pw'), db')"
  shows "radius_in_sync db' \<and> u \<in> set (radiusUsers db') \<and> \<not> rejected (ru_username u) (radChecks db')
    \<and> ru_username u \<notin> ru_username ` set (radiusUsers db)"
proof -
  let ?name = "buildRadiusUsername (pr_tenantSlug inp) (pr_customerNumber inp)"
  have new: "?name \<notin> ru_username ` set (radiusUsers db)"
    using r by (auto simp: provisionRadiusUser_def Let_def split: if_splits)
  have "\<forall>r \<in> set (radChecks db). rr_attribute r = ''Auth-Type'' \<longrightarrow> rr_username r \<in> ru_username ` set (radiusUsers db)"
    using ok unfolding radius_in_sync_def by (metis imageI)
  then have clean: "\<not> rejected ?name (radChecks db)"
    using new unfolding rejected_def by metis
  have row: "ru_id u = nextId db" "ru_username u = ?name" "ru_status u = R_ACTIVE"
    and db': "radiusUsers db' = radiusUsers db @ [u]" "nextId db' = nextId db + 1"
      "radChecks db' = radChecks db @ [\<lparr>rr_username = ?name, rr_attribute = ''Cleartext-Password'', rr_op = '':='', rr_value = pw\<rparr>]"
    using r by (auto simp: provisionRadiusUser_def Let_def split: if_splits)
  have grown: "rejected n (radChecks db') \<longleftrightarrow> rejected n (radChecks db)" for n
    by (simp add: db')
  have "radius_in_sync db'"
    unfolding radius_in_sync_def
  proof (intro conjI ballI impI)
    show "distinct (map ru_id (radiusUsers db'))" "distinct (map ru_username (radiusUsers db'))"
      using ok new by (auto simp: radius_in_sync_def db' row)
    show "ru_id x < nextId db'" if "x \<in> set (radiusUsers db')" for x
      using that ok by (fastforce simp: radius_in_sync_def db' row)
    show "\<exists>x \<in> set (radiusUsers db'). ru_username x = rr_username r"
      if "r \<in> set (radChecks db')" "rr_attribute r = ''Auth-Type''" for r
      using that ok by (auto simp: radius_in_sync_def db')
    show "ru_status x = R_SUSPENDED \<longleftrightarrow> rejected (ru_username x) (radChecks db')"
      if "x \<in> set (radiusUsers db')" for x
      using that ok clean unfolding grown by (auto simp: radius_in_sync_def db' row)
    show "\<exists>r \<in> set (radChecks db'). rr_username r = ru_username x \<and> rr_attribute r = ''Cleartext-Password''"
      if "x \<in> set (radiusUsers db')" for x
      using that ok by (auto simp: radius_in_sync_def db' row)
  qed
  then show ?thesis using new clean by (simp add: db' row)
qed

text \<open>
  The account record and the rows the RADIUS server reads never drift apart: provisioning,
  suspending and reactivating each keep, for every account, "suspended" equivalent to having a
  reject row, keep the password row, and keep usernames unique. After suspending the user is
  rejected, after reactivating and after provisioning the user is not.
\<close>

theorem radius_rows_never_drift:
  assumes "radius_in_sync db"
  shows "(suspendRadiusUser t s db = Inr (u, db') \<longrightarrow> radius_in_sync db' \<and> rejected (ru_username u) (radChecks db'))
    \<and> (reactivateRadiusUser t s db = Inr (u, db') \<longrightarrow> radius_in_sync db' \<and> \<not> rejected (ru_username u) (radChecks db'))
    \<and> (provisionRadiusUser enc pw inp db = Inr ((u, pw'), db') \<longrightarrow>
        radius_in_sync db' \<and> \<not> rejected (ru_username u) (radChecks db')
        \<and> ru_username u \<notin> ru_username ` set (radiusUsers db))"
  using suspendRadiusUser_sync [OF assms] reactivateRadiusUser_sync [OF assms] provisionRadiusUser_sync [OF assms]
  by blast

definition sample_provision :: provision_input where
  "sample_provision = \<lparr>pr_tenantId = 7, pr_tenantSlug = ''Acme'', pr_customerId = 3, pr_customerServiceId = 60,
     pr_customerNumber = ''CUS-000001'', pr_downloadKbps = 10000, pr_uploadKbps = 5000, pr_connectionType = None\<rparr>"

theorem radius_rows_never_drift_witness:
  "case provisionRadiusUser (\<lambda>x. ''enc:'' @ x) ''s3cret'' sample_provision empty_db of
      Inl _ \<Rightarrow> False
    | Inr ((u, pw), db') \<Rightarrow> radius_in_sync db' \<and> \<not> rejected (ru_username u) (radChecks db')"
proof -
  have "radius_in_sync empty_db" by (simp add: radius_in_sync_def empty_db_def)
  then have "provisionRadiusUser (\<lambda>x. ''enc:'' @ x) ''s3cret'' sample_provision empty_db = Inr ((u, pw), db') \<Longrightarrow>
      radius_in_sync db' \<and> \<not> rejected (ru_username u) (radChecks db')" for u pw db'
    using radius_rows_never_drift by blast
  moreover have "is_ok (provisionRadiusUser (\<lambda>x. ''enc:'' @ x) ''s3cret'' sample_provision empty_db)"
    by (simp add: provisionRadiusUser_def Let_def empty_db_def)
  ultimately show ?thesis by (auto split: sum.splits)
qed

end
