(* ===== verification/BillingCycle.thy ===== *)
theory BillingCycle
  imports Invoices RadiusUsers
begin

text \<open>
  packages/billing/src/billing-cycle.service.ts: the sweeps the worker runs (renewals, overdue
  invoices, suspensions, reactivations) and the reactivation of one customer. Every sweep reads
  the clock once; each loop works on the list read before it, re-reading rows as the code does.
\<close>

section \<open>Cutting and restoring access\<close>

datatype radius_action = suspend_access | reactivate_access

text \<open>
  A failure of the RADIUS side is logged and dropped, so its state change is the only effect;
  then the network change is queued.
\<close>

definition bestEffortRadiusSync :: "id \<Rightarrow> id \<Rightarrow> radius_action \<Rightarrow> 'x billing_db_scheme \<Rightarrow> 'x billing_db_scheme" where
  "bestEffortRadiusSync tenantId customerServiceId action db =
     (let db1 = (case (if action = suspend_access then suspendRadiusUser tenantId customerServiceId db
                       else reactivateRadiusUser tenantId customerServiceId db) of
                   Inl _ \<Rightarrow> db | Inr (_, d) \<Rightarrow> d)
      in db1\<lparr>outbox := outbox db1 @
              [NetworkChange tenantId customerServiceId (if action = suspend_access then SUSPEND else RESTORE)]\<rparr>)"

lemma suspendRadiusUser_frame:
  assumes "suspendRadiusUser t s db = Inr (u, db')"
  shows "clock db' = clock db" "nextId db' = nextId db" "tenants db' = tenants db" "customers db' = customers db"
    "packages db' = packages db" "services db' = services db" "invoices db' = invoices db" "wallets db' = wallets db"
    "walletTxns db' = walletTxns db" "payments db' = payments db" "receipts db' = receipts db" "pauses db' = pauses db"
    "radReplies db' = radReplies db" "billing_db.more db' = billing_db.more db"
  using assms by (auto simp: suspendRadiusUser_def Let_def split: sum.splits if_splits)

lemma reactivateRadiusUser_frame:
  assumes "reactivateRadiusUser t s db = Inr (u, db')"
  shows "clock db' = clock db" "nextId db' = nextId db" "tenants db' = tenants db" "customers db' = customers db"
    "packages db' = packages db" "services db' = services db" "invoices db' = invoices db" "wallets db' = wallets db"
    "walletTxns db' = walletTxns db" "payments db' = payments db" "receipts db' = receipts db" "pauses db' = pauses db"
    "radReplies db' = radReplies db" "billing_db.more db' = billing_db.more db"
  using assms by (auto simp: reactivateRadiusUser_def split: sum.splits if_splits)

lemma bestEffortRadiusSync_frame [simp, frame_simps]:
  "clock (bestEffortRadiusSync t s a db) = clock db" "nextId (bestEffortRadiusSync t s a db) = nextId db"
  "tenants (bestEffortRadiusSync t s a db) = tenants db" "customers (bestEffortRadiusSync t s a db) = customers db"
  "packages (bestEffortRadiusSync t s a db) = packages db" "services (bestEffortRadiusSync t s a db) = services db"
  "invoices (bestEffortRadiusSync t s a db) = invoices db" "wallets (bestEffortRadiusSync t s a db) = wallets db"
  "walletTxns (bestEffortRadiusSync t s a db) = walletTxns db" "payments (bestEffortRadiusSync t s a db) = payments db"
  "receipts (bestEffortRadiusSync t s a db) = receipts db" "pauses (bestEffortRadiusSync t s a db) = pauses db"
  "radReplies (bestEffortRadiusSync t s a db) = radReplies db" "billing_db.more (bestEffortRadiusSync t s a db) = billing_db.more db"
  by (simp_all add: bestEffortRadiusSync_def Let_def suspendRadiusUser_frame reactivateRadiusUser_frame
      split: sum.splits prod.splits)

lemma radius_in_sync_cong:
  "radius_in_sync db \<Longrightarrow> radiusUsers db' = radiusUsers db \<Longrightarrow> radChecks db' = radChecks db \<Longrightarrow>
     nextId db \<le> nextId db' \<Longrightarrow> radius_in_sync db'"
  by (auto simp: radius_in_sync_def intro: less_le_trans)

lemma bestEffortRadiusSync_sync:
  assumes "radius_in_sync db"
  shows "radius_in_sync (bestEffortRadiusSync t s a db)"
proof -
  have "radius_in_sync d"
    if "(if a = suspend_access then suspendRadiusUser t s db else reactivateRadiusUser t s db) = Inr (u, d)" for u d
    using that suspendRadiusUser_sync [OF assms] reactivateRadiusUser_sync [OF assms] by (auto split: if_splits)
  then show ?thesis
    using assms unfolding bestEffortRadiusSync_def Let_def
    by (auto split: sum.splits prod.splits intro: radius_in_sync_cong)
qed

section \<open>Renewals\<close>

record job_result =
  processed :: nat
  affected :: nat
  errors :: nat

definition is_due :: "time \<Rightarrow> service \<Rightarrow> bool" where
  "is_due now s \<longleftrightarrow> s_status s = S_ACTIVE \<and> s_autoRenew s \<and> s_nextBillingAt s \<le> now"

text \<open>The transaction for one candidate.\<close>

definition renew_one :: "id \<Rightarrow> 'x billing_db_scheme \<Rightarrow> 'x billing_db_scheme result" where
  "renew_one sid db =
     (case find_service sid db of
        None \<Rightarrow> Inr db
      | Some fresh \<Rightarrow>
          if s_status fresh \<noteq> S_ACTIVE \<or> \<not> s_autoRenew fresh \<or> s_nextBillingAt fresh > clock db then Inr db
          else (case find_package (s_packageId fresh) db of
              None \<Rightarrow> Inl RecordNotFound
            | Some pkg \<Rightarrow>
                (case cycleLengthDays (k_billingCycle pkg) (k_durationDays pkg) of
                   Inl e \<Rightarrow> Inl e
                 | Inr cycleDays \<Rightarrow>
                     (case createRenewalInvoice fresh pkg (s_nextBillingAt fresh) db of
                        Inl e \<Rightarrow> Inl e
                      | Inr (_, db1) \<Rightarrow>
                          Inr (update_service (s_id fresh)
                            (\<lambda>s. s\<lparr>s_nextBillingAt := addDays (s_nextBillingAt fresh) cycleDays\<rparr>) db1)))))"

fun renew_all :: "id list \<Rightarrow> nat \<Rightarrow> nat \<Rightarrow> 'x billing_db_scheme \<Rightarrow> (nat \<times> nat) \<times> 'x billing_db_scheme" where
  "renew_all [] aff errs db = ((aff, errs), db)"
| "renew_all (sid # sids) aff errs db =
     (case renew_one sid db of
        Inr db' \<Rightarrow> renew_all sids (aff + 1) errs db'
      | Inl _ \<Rightarrow> renew_all sids aff (errs + 1) db)"

definition generateDueRenewalInvoices :: "'x billing_db_scheme \<Rightarrow> job_result \<times> 'x billing_db_scheme" where
  "generateDueRenewalInvoices db =
     (let due = filter (is_due (clock db)) (services db);
          ((aff, errs), db') = renew_all (map s_id due) 0 0 db
      in (\<lparr>processed = length due, affected = aff, errors = errs\<rparr>, db'))"

section \<open>Overdue invoices, suspension, reactivation\<close>

definition overdue_candidate :: "time \<Rightarrow> invoice \<Rightarrow> bool" where
  "overdue_candidate now i \<longleftrightarrow> (i_status i = I_PENDING \<or> i_status i = I_PARTIALLY_PAID) \<and> i_dueDate i < now"

definition markOverdueInvoices :: "'x billing_db_scheme \<Rightarrow> job_result \<times> 'x billing_db_scheme" where
  "markOverdueInvoices db =
     (let n = count_where (overdue_candidate (clock db)) (invoices db)
      in (\<lparr>processed = n, affected = n, errors = 0\<rparr>,
          db\<lparr>invoices := update_where (overdue_candidate (clock db)) (\<lambda>i. i\<lparr>i_status := I_OVERDUE\<rparr>) (invoices db)\<rparr>))"

definition suspend_step :: "id \<Rightarrow> nat \<times> 'x billing_db_scheme \<Rightarrow> nat \<times> 'x billing_db_scheme" where
  "suspend_step sid st =
     (case st of (aff, db) \<Rightarrow>
        (case find_service sid db of
           None \<Rightarrow> (aff, db)
         | Some sub \<Rightarrow>
             if s_status sub \<noteq> S_ACTIVE then (aff, db)
             else
               let sel = (\<lambda>s. s_id s = sid \<and> s_status s = S_ACTIVE);
                   n = count_where sel (services db);
                   db1 = db\<lparr>services := update_where sel (\<lambda>s. s\<lparr>s_status := S_SUSPENDED\<rparr>) (services db)\<rparr>
               in if n > 0 then (aff + n, bestEffortRadiusSync (s_tenantId sub) sid suspend_access db1)
                  else (aff, db1)))"

definition past_grace :: "time \<Rightarrow> invoice \<Rightarrow> bool" where
  "past_grace cutoff i \<longleftrightarrow> i_status i = I_OVERDUE \<and> i_dueDate i < cutoff \<and> i_customerServiceId i \<noteq> None"

definition suspendOverdueSubscriptions :: "int \<Rightarrow> 'x billing_db_scheme \<Rightarrow> job_result \<times> 'x billing_db_scheme" where
  "suspendOverdueSubscriptions gracePeriodDays db =
     (let cutoff = clock db - gracePeriodDays * day_ms;
          ids = remdups (map (\<lambda>i. the (i_customerServiceId i)) (filter (past_grace cutoff) (invoices db)));
          (aff, db') = fold suspend_step ids (0, db)
      in (\<lparr>processed = length ids, affected = aff, errors = 0\<rparr>, db'))"

definition unpaid_count :: "id \<Rightarrow> 'x billing_db_scheme \<Rightarrow> nat" where
  "unpaid_count customerId db = count_where (\<lambda>i. i_customerId i = customerId \<and> is_unpaid i) (invoices db)"

definition may_reactivate :: "time \<Rightarrow> service \<Rightarrow> bool" where
  "may_reactivate now s \<longleftrightarrow> s_status s = S_SUSPENDED \<and>
     (case s_pausedUntil s of None \<Rightarrow> True | Some t \<Rightarrow> t \<le> now)"

definition reactivate_one :: "service \<Rightarrow> 'x billing_db_scheme \<Rightarrow> 'x billing_db_scheme" where
  "reactivate_one sub db =
     bestEffortRadiusSync (s_tenantId sub) (s_id sub) reactivate_access
       (update_service (s_id sub) (\<lambda>s. s\<lparr>s_status := S_ACTIVE\<rparr>) db)"

definition reactivate_step :: "service \<Rightarrow> nat \<times> 'x billing_db_scheme \<Rightarrow> nat \<times> 'x billing_db_scheme" where
  "reactivate_step sub st =
     (case st of (aff, db) \<Rightarrow>
        if unpaid_count (s_customerId sub) db = 0 then (aff + 1, reactivate_one sub db) else (aff, db))"

definition reactivateClearedSubscriptions :: "'x billing_db_scheme \<Rightarrow> job_result \<times> 'x billing_db_scheme" where
  "reactivateClearedSubscriptions db =
     (let suspended = filter (may_reactivate (clock db)) (services db);
          (aff, db') = fold reactivate_step suspended (0, db)
      in (\<lparr>processed = length suspended, affected = aff, errors = 0\<rparr>, db'))"

definition reactivateCustomerIfCleared :: "id \<Rightarrow> id \<Rightarrow> 'x billing_db_scheme \<Rightarrow> nat \<times> 'x billing_db_scheme" where
  "reactivateCustomerIfCleared tenantId customerId db =
     (if unpaid_count customerId db > 0 then (0, db)
      else
        let suspended = filter (\<lambda>s. s_tenantId s = tenantId \<and> s_customerId s = customerId
                                  \<and> may_reactivate (clock db) s) (services db)
        in (length suspended, fold reactivate_one suspended db))"

definition restoreServiceAfterPayment :: "id \<Rightarrow> id option \<Rightarrow> 'x billing_db_scheme \<Rightarrow> nat \<times> 'x billing_db_scheme" where
  "restoreServiceAfterPayment tenantId customerId db =
     (case customerId of None \<Rightarrow> (0, db) | Some c \<Rightarrow> reactivateCustomerIfCleared tenantId c db)"

section \<open>Renewal: what one run does\<close>

definition services_ok :: "'x billing_db_scheme \<Rightarrow> bool" where
  "services_ok db \<longleftrightarrow> distinct (map s_id (services db))"

text \<open>A service whose package is there and has a usable cycle, and the length of that cycle.\<close>

definition cycle_of :: "package list \<Rightarrow> service \<Rightarrow> int option" where
  "cycle_of ks s =
     (case List.find (\<lambda>k. k_id k = s_packageId s) ks of
        None \<Rightarrow> None
      | Some pkg \<Rightarrow> (case cycleLengthDays (k_billingCycle pkg) (k_durationDays pkg) of Inl _ \<Rightarrow> None | Inr n \<Rightarrow> Some n))"

definition advance :: "package list \<Rightarrow> service \<Rightarrow> service" where
  "advance ks s = (case cycle_of ks s of None \<Rightarrow> s | Some n \<Rightarrow> s\<lparr>s_nextBillingAt := addDays (s_nextBillingAt s) n\<rparr>)"

definition renewal_key :: "invoice \<Rightarrow> id option \<times> time" where
  "renewal_key i = (i_customerServiceId i, i_dueDate i)"

lemma advance_simps [simp]: "s_id (advance ks s) = s_id s" "s_status (advance ks s) = s_status s"
  "s_autoRenew (advance ks s) = s_autoRenew s"
  by (simp_all add: advance_def split: option.splits)

lemma cycle_of_pos: "cycle_of ks s = Some n \<Longrightarrow> 1 \<le> n"
  by (auto simp: cycle_of_def split: option.splits sum.splits dest: cycleLengthDays_pos)

lemma renew_one_due:
  assumes "invoices_ok db" and "services_ok db" and "s \<in> set (services db)" and "is_due (clock db) s"
  shows "case cycle_of (packages db) s of
      None \<Rightarrow> \<exists>e. renew_one (s_id s) db = Inl e
    | Some n \<Rightarrow> \<exists>bill db'. renew_one (s_id s) db = Inr db' \<and> invoices_ok db' \<and> clock db' = clock db
        \<and> packages db' = packages db \<and> invoices db' = invoices db @ [bill]
        \<and> renewal_key bill = (Some (s_id s), s_nextBillingAt s)
        \<and> services db' = update_where (\<lambda>x. s_id x = s_id s) (advance (packages db)) (services db)"
proof -
  have f: "find_service (s_id s) db = Some s"
    using assms(2,3) unfolding find_service_def services_ok_def by (rule find_key_unique)
  have only: "x = s" if "x \<in> set (services db)" "s_id x = s_id s" for x
    using key_eq_rows [of s_id "services db" x s] assms(2,3) that by (simp add: services_ok_def)
  show ?thesis
  proof (cases "cycle_of (packages db) s")
    case None
    then show ?thesis
      using assms(4) f by (auto simp: renew_one_def cycle_of_def find_package_def is_due_def split: option.splits sum.splits)
  next
    case (Some n)
    then obtain pkg where pkg: "find_package (s_packageId s) db = Some pkg"
      and cyc: "cycleLengthDays (k_billingCycle pkg) (k_durationDays pkg) = Inr n"
      by (auto simp: cycle_of_def find_package_def split: option.splits sum.splits)
    let ?items = "[single_item (k_name pkg @ '' '' @ em_dash @ '' renewal'') (base_price s pkg)]"
    obtain bill where bill:
      "createInvoice (s_tenantId s) (s_customerId s) (Some (s_id s)) ?items (k_taxPercent pkg) (s_nextBillingAt s) (k_currency pkg) db
         = Inr (bill, db\<lparr>invoices := invoices db @ [bill], nextId := nextId db + 1\<rparr>)"
      "bill = fresh_invoice (nextId db)
         (numbered ''INV-'' 7 (count_where (\<lambda>i. i_tenantId i = s_tenantId s) (invoices db) + 1)) (clock db)
         (s_tenantId s) (s_customerId s) (Some (s_id s)) ?items (k_taxPercent pkg) (s_nextBillingAt s) (k_currency pkg)"
      "invoices_ok (db\<lparr>invoices := invoices db @ [bill], nextId := nextId db + 1\<rparr>)"
      by (rule createInvoice_ok [OF assms(1)])
    have key: "renewal_key bill = (Some (s_id s), s_nextBillingAt s)"
      by (simp add: bill(2) renewal_key_def fresh_invoice_def Let_def)
    have upd: "update_where (\<lambda>x. s_id x = s_id s) (\<lambda>x. x\<lparr>s_nextBillingAt := addDays (s_nextBillingAt s) n\<rparr>) (services db)
        = update_where (\<lambda>x. s_id x = s_id s) (advance (packages db)) (services db)"
      using Some by (intro update_where_cong) (auto simp: advance_def dest!: only)
    let ?db' = "update_service (s_id s) (\<lambda>x. x\<lparr>s_nextBillingAt := addDays (s_nextBillingAt s) n\<rparr>)
        (db\<lparr>invoices := invoices db @ [bill], nextId := nextId db + 1\<rparr>)"
    have run: "renew_one (s_id s) db = Inr ?db'"
      using assms(4) f pkg cyc bill(1) by (simp add: renew_one_def is_due_def createRenewalInvoice_def)
    have "invoices_ok ?db'" by (rule invoices_ok_cong [OF bill(3)]) simp_all
    with run key upd Some show ?thesis by simp
  qed
qed

lemma services_ok_update:
  assumes "services_ok db" and "services db' = update_where p f (services db)" and "\<And>s. s_id (f s) = s_id s"
  shows "services_ok db'"
  using assms(1) unfolding services_ok_def assms(2) by (simp add: map_update_where [of p s_id f] assms(3))

lemma renew_all_spec:
  "invoices_ok db \<Longrightarrow> services_ok db \<Longrightarrow> distinct (map s_id ss) \<Longrightarrow> set ss \<subseteq> set (services db) \<Longrightarrow>
   \<forall>s \<in> set ss. is_due (clock db) s \<Longrightarrow> good = filter (\<lambda>s. cycle_of (packages db) s \<noteq> None) ss \<Longrightarrow>
   \<exists>db' new. renew_all (map s_id ss) a e db = ((a + length good, e + (length ss - length good)), db')
     \<and> invoices_ok db' \<and> clock db' = clock db \<and> packages db' = packages db
     \<and> invoices db' = invoices db @ new
     \<and> map renewal_key new = map (\<lambda>s. (Some (s_id s), s_nextBillingAt s)) good
     \<and> services db' = update_where (\<lambda>x. s_id x \<in> s_id ` set ss) (advance (packages db)) (services db)"
proof (induction ss arbitrary: a e db good)
  case Nil
  then show ?case by (simp add: update_where_def)
next
  case (Cons s ss)
  have le: "length (filter P ss) \<le> length ss" for P :: "service \<Rightarrow> bool" by simp
  from Cons.prems have in_s: "s \<in> set (services db)" and due: "is_due (clock db) s" by auto
  note one = renew_one_due [OF Cons.prems(1,2) in_s due]
  show ?case
  proof (cases "cycle_of (packages db) s")
    case None
    with one obtain err where err: "renew_one (s_id s) db = Inl err" by auto
    obtain db' new where IH: "renew_all (map s_id ss) a (e + 1) db = ((a + length (filter (\<lambda>s. cycle_of (packages db) s \<noteq> None) ss),
          e + 1 + (length ss - length (filter (\<lambda>s. cycle_of (packages db) s \<noteq> None) ss))), db')"
        "invoices_ok db'" "clock db' = clock db" "packages db' = packages db" "invoices db' = invoices db @ new"
        "map renewal_key new = map (\<lambda>s. (Some (s_id s), s_nextBillingAt s)) (filter (\<lambda>s. cycle_of (packages db) s \<noteq> None) ss)"
        "services db' = update_where (\<lambda>x. s_id x \<in> s_id ` set ss) (advance (packages db)) (services db)"
      using Cons.IH [OF Cons.prems(1,2) _ _ _ refl, of a "e + 1"] Cons.prems(3-5) by auto
    have eqs: "x = s" if "x \<in> set (services db)" "s_id x = s_id s" for x
      using key_eq_rows [of s_id "services db" x s] Cons.prems(2) in_s that by (simp add: services_ok_def)
    have stay: "advance (packages db) x = x" if "x \<in> set (services db)" "s_id x = s_id s" for x
      using None unfolding eqs [OF that] by (simp add: advance_def)
    have same: "update_where (\<lambda>x. s_id x \<in> s_id ` set ss) (advance (packages db)) (services db) =
        update_where (\<lambda>x. s_id x \<in> s_id ` set (s # ss)) (advance (packages db)) (services db)"
      unfolding update_where_def by (intro map_cong refl) (auto simp: stay)
    show ?thesis
      using IH err None Cons.prems(6) le same [symmetric] by (simp add: Suc_diff_le del: update_where_simps)
  next
    case (Some n)
    with one obtain bill db1 where db1: "renew_one (s_id s) db = Inr db1" "invoices_ok db1" "clock db1 = clock db"
        "packages db1 = packages db" "invoices db1 = invoices db @ [bill]"
        "renewal_key bill = (Some (s_id s), s_nextBillingAt s)"
        "services db1 = update_where (\<lambda>x. s_id x = s_id s) (advance (packages db)) (services db)"
      by auto
    have so: "services_ok db1" by (rule services_ok_update [OF Cons.prems(2) db1(7)]) simp
    have fresh: "s_id x \<noteq> s_id s" if "x \<in> set ss" for x
      using Cons.prems(3) that by (auto simp: image_iff)
    have sub: "set ss \<subseteq> set (services db1)"
      using Cons.prems(4) fresh by (auto simp: db1(7) set_update_where)
    obtain db' new where IH: "renew_all (map s_id ss) (a + 1) e db1 = ((a + 1 + length (filter (\<lambda>s. cycle_of (packages db) s \<noteq> None) ss),
          e + (length ss - length (filter (\<lambda>s. cycle_of (packages db) s \<noteq> None) ss))), db')"
        "invoices_ok db'" "clock db' = clock db" "packages db' = packages db" "invoices db' = invoices db @ bill # new"
        "map renewal_key new = map (\<lambda>s. (Some (s_id s), s_nextBillingAt s)) (filter (\<lambda>s. cycle_of (packages db) s \<noteq> None) ss)"
        "services db' = update_where (\<lambda>x. s_id x \<in> s_id ` set ss) (advance (packages db)) (services db1)"
      using Cons.IH [OF db1(2) so _ sub _ refl, of "a + 1" e] Cons.prems(3,5) db1(3-5) by auto
    have both: "services db' = update_where (\<lambda>x. s_id x \<in> s_id ` set (s # ss)) (advance (packages db)) (services db)"
    proof -
      have "s_id s \<notin> s_id ` set ss" using Cons.prems(3) by simp
      then show ?thesis unfolding IH(7) db1(7) update_where_def by (auto intro!: map_cong)
    qed
    have "map renewal_key (bill # new) = map (\<lambda>s. (Some (s_id s), s_nextBillingAt s)) good"
      using IH(6) db1(6) Some Cons.prems(6) by simp
    with IH(1-5) both db1(1) Some Cons.prems(6) show ?thesis by auto
  qed
qed

text \<open>
  C24. One renewal run bills each due subscription exactly once and moves its next bill on. It
  creates one invoice per due subscription whose package has a usable cycle, in order, each for
  that subscription and due on its old billing date; it advances exactly those subscriptions,
  each to a strictly later date; the rest of the table and every earlier invoice stay; and the
  job's counts are the number billed and the number that failed.
\<close>

theorem renewals_bill_each_due_service_once:
  assumes "invoices_ok db" and "services_ok db"
    and "generateDueRenewalInvoices db = (job, db')"
  shows "\<exists>new. let due = filter (is_due (clock db)) (services db);
             good = filter (\<lambda>s. cycle_of (packages db) s \<noteq> None) due
         in invoices db' = invoices db @ new
            \<and> map renewal_key new = map (\<lambda>s. (Some (s_id s), s_nextBillingAt s)) good
            \<and> services db' = update_where (is_due (clock db)) (advance (packages db)) (services db)
            \<and> (\<forall>s \<in> set good. s_nextBillingAt s < s_nextBillingAt (advance (packages db) s))
            \<and> processed job = length due \<and> affected job = length good
            \<and> errors job = length due - length good \<and> invoices_ok db' \<and> services_ok db'"
proof -
  let ?due = "filter (is_due (clock db)) (services db)"
  have d: "distinct (map s_id ?due)"
    using assms(2) unfolding services_ok_def by (simp add: distinct_map inj_on_def)
  have sub: "set ?due \<subseteq> set (services db)" and all_due: "\<forall>s \<in> set ?due. is_due (clock db) s" by auto
  obtain db2 new where r: "renew_all (map s_id ?due) 0 0 db =
        ((length (filter (\<lambda>s. cycle_of (packages db) s \<noteq> None) ?due),
          length ?due - length (filter (\<lambda>s. cycle_of (packages db) s \<noteq> None) ?due)), db2)"
      "invoices_ok db2" "invoices db2 = invoices db @ new"
      "map renewal_key new = map (\<lambda>s. (Some (s_id s), s_nextBillingAt s)) (filter (\<lambda>s. cycle_of (packages db) s \<noteq> None) ?due)"
      "services db2 = update_where (\<lambda>x. s_id x \<in> s_id ` set ?due) (advance (packages db)) (services db)"
    using renew_all_spec [OF assms(1,2) d sub all_due refl, of 0 0] unfolding add_0 by blast
  have job: "db2 = db'" "job = \<lparr>processed = length ?due, affected = length (filter (\<lambda>s. cycle_of (packages db) s \<noteq> None) ?due),
      errors = length ?due - length (filter (\<lambda>s. cycle_of (packages db) s \<noteq> None) ?due)\<rparr>"
    using assms(3) r(1) by (simp_all add: generateDueRenewalInvoices_def Let_def)
  have only: "x = y" if "x \<in> set (services db)" "y \<in> set (services db)" "s_id x = s_id y" for x y
    using key_eq_rows [of s_id "services db" x y] assms(2) that by (simp add: services_ok_def)
  have mem: "s_id x \<in> s_id ` set ?due \<longleftrightarrow> is_due (clock db) x" if x: "x \<in> set (services db)" for x
  proof
    assume "s_id x \<in> s_id ` set ?due"
    then obtain y where "y \<in> set ?due" "s_id x = s_id y" by blast
    with only [OF x, of y] show "is_due (clock db) x" by simp
  qed (use x in simp)
  have sel: "update_where (\<lambda>x. s_id x \<in> s_id ` set ?due) (advance (packages db)) (services db) =
      update_where (is_due (clock db)) (advance (packages db)) (services db)"
    using mem by (intro update_where_cong refl) blast+
  have later: "s_nextBillingAt s < s_nextBillingAt (advance (packages db) s)" if "cycle_of (packages db) s \<noteq> None" for s
    using that cycle_of_pos [of "packages db" s] by (auto simp: advance_def intro!: addDays_less)
  have "services_ok db2" by (rule services_ok_update [OF assms(2) r(5)]) simp
  with r later show ?thesis unfolding sel job by (auto simp: Let_def)
qed

definition sample_db :: billing_db where
  "sample_db = empty_db\<lparr>clock := 500, nextId := 100, packages := [sample_package], services := [sample_service],
     invoices := [sample_invoice]\<rparr>"

lemma sample_db_ok: "invoices_ok sample_db" "services_ok sample_db"
proof -
  have "nat_to_string 1 = ''1''" by (subst nat_to_string.simps) (simp add: digit_char_def)
  then have "numbers_dense i_tenantId i_invoiceNumber (numbered ''INV-'' 7) ([] @ [sample_invoice])"
    by (intro invoice_numbers.append_numbered)
      (simp_all add: numbers_dense_def count_where_def sample_invoice_def numbered_def pad_start_def numeral_nat)
  then show "invoices_ok sample_db" "services_ok sample_db"
    by (simp_all add: invoices_ok_def services_ok_def sample_db_def sample_invoice_def)
qed

theorem renewals_bill_each_due_service_once_witness:
  "\<exists>bill. invoices (snd (generateDueRenewalInvoices sample_db)) = [sample_invoice, bill]
      \<and> renewal_key bill = (Some 60, 100)"
proof -
  obtain job db' where r: "generateDueRenewalInvoices sample_db = (job, db')" by fastforce
  have due: "filter (\<lambda>s. cycle_of (packages sample_db) s \<noteq> None)
      (filter (is_due (clock sample_db)) (services sample_db)) = [sample_service]"
    by (simp add: sample_db_def is_due_def cycle_of_def sample_service_def sample_package_def)
  show ?thesis
    using renewals_bill_each_due_service_once [OF sample_db_ok r] due r
    by (auto simp: Let_def sample_service_def sample_db_def)
qed

section \<open>Suspension and reactivation: which services change\<close>

abbreviation suspended_row :: "service \<Rightarrow> service" where
  "suspended_row s \<equiv> s\<lparr>s_status := S_SUSPENDED\<rparr>"

abbreviation active_row :: "service \<Rightarrow> service" where
  "active_row s \<equiv> s\<lparr>s_status := S_ACTIVE\<rparr>"

lemma find_service_ok:
  "services_ok db \<Longrightarrow> s \<in> set (services db) \<Longrightarrow> find_service (s_id s) db = Some s"
  unfolding find_service_def services_ok_def by (rule find_key_unique)

lemma services_key: "services_ok db \<Longrightarrow> a \<in> set (services db) \<Longrightarrow> b \<in> set (services db) \<Longrightarrow> s_id a = s_id b \<Longrightarrow> a = b"
  unfolding services_ok_def by (rule key_eq_rows)

lemma count_where_split:
  assumes "sid \<notin> S"
  shows "count_where (\<lambda>s. s_id s \<in> insert sid S \<and> s_status s = S_ACTIVE) t =
    count_where (\<lambda>s. s_id s = sid \<and> s_status s = S_ACTIVE) t
    + count_where (\<lambda>s. s_id s \<in> S \<and> s_status s = S_ACTIVE)
        (update_where (\<lambda>s. s_id s = sid \<and> s_status s = S_ACTIVE) suspended_row t)"
  using assms by (induction t) (auto simp: count_where_def)

lemma suspend_step_spec:
  assumes "services_ok db" and "suspend_step sid (a, db) = (a', db')"
  shows "services db' = update_where (\<lambda>s. s_id s = sid \<and> s_status s = S_ACTIVE) suspended_row (services db)
    \<and> a' = a + count_where (\<lambda>s. s_id s = sid \<and> s_status s = S_ACTIVE) (services db)
    \<and> invoices db' = invoices db \<and> clock db' = clock db \<and> services_ok db'
    \<and> (radius_in_sync db \<longrightarrow> radius_in_sync db')"
proof (cases "find_service sid db")
  case None
  then have no: "\<forall>s \<in> set (services db). s_id s \<noteq> sid" by (auto simp: find_service_def find_None_iff)
  then have "update_where (\<lambda>s. s_id s = sid \<and> s_status s = S_ACTIVE) suspended_row (services db) = services db"
    "count_where (\<lambda>s. s_id s = sid \<and> s_status s = S_ACTIVE) (services db) = 0"
    by (auto simp: count_where_eq_0 intro: update_where_none)
  with assms None show ?thesis by (simp add: suspend_step_def)
next
  case (Some sub)
  then have sub: "sub \<in> set (services db)" "s_id sub = sid" by (auto dest: find_serviceD)
  show ?thesis
  proof (cases "s_status sub = S_ACTIVE")
    case False
    have no: "\<not> (s_id s = sid \<and> s_status s = S_ACTIVE)" if "s \<in> set (services db)" for s
      using services_key [OF assms(1) that sub(1)] sub(2) False by auto
    then have "update_where (\<lambda>s. s_id s = sid \<and> s_status s = S_ACTIVE) suspended_row (services db) = services db"
      "count_where (\<lambda>s. s_id s = sid \<and> s_status s = S_ACTIVE) (services db) = 0"
      by (auto simp: count_where_eq_0 intro: update_where_none)
    with assms Some False show ?thesis by (simp add: suspend_step_def)
  next
    case True
    have "count_where (\<lambda>s. s_id s = sid \<and> s_status s = S_ACTIVE) (services db) \<noteq> 0"
      unfolding count_where_eq_0 using sub True by blast
    then have pos: "0 < count_where (\<lambda>s. s_id s = sid \<and> s_status s = S_ACTIVE) (services db)" by simp
    let ?db1 = "db\<lparr>services := update_where (\<lambda>s. s_id s = sid \<and> s_status s = S_ACTIVE) suspended_row (services db)\<rparr>"
    have step: "a' = a + count_where (\<lambda>s. s_id s = sid \<and> s_status s = S_ACTIVE) (services db)"
      "db' = bestEffortRadiusSync (s_tenantId sub) sid suspend_access ?db1"
      using assms(2) Some True pos by (simp_all add: suspend_step_def Let_def)
    have "services_ok db'"
      by (rule services_ok_update [OF assms(1), where p = "\<lambda>s. s_id s = sid \<and> s_status s = S_ACTIVE" and f = suspended_row])
        (simp_all add: step)
    moreover have "radius_in_sync db'" if "radius_in_sync db"
      unfolding step by (rule bestEffortRadiusSync_sync) (rule radius_in_sync_cong [OF that], simp_all)
    ultimately show ?thesis by (simp add: step)
  qed
qed

lemma fold_suspend_spec:
  "services_ok db \<Longrightarrow> distinct ids \<Longrightarrow> fold suspend_step ids (a, db) = (a', db') \<Longrightarrow>
     services db' = update_where (\<lambda>s. s_id s \<in> set ids \<and> s_status s = S_ACTIVE) suspended_row (services db)
     \<and> a' = a + count_where (\<lambda>s. s_id s \<in> set ids \<and> s_status s = S_ACTIVE) (services db)
     \<and> invoices db' = invoices db \<and> services_ok db' \<and> (radius_in_sync db \<longrightarrow> radius_in_sync db')"
proof (induction ids arbitrary: a db)
  case Nil
  then show ?case by (simp add: update_where_def count_where_def)
next
  case (Cons sid ids)
  obtain a1 db1 where st: "suspend_step sid (a, db) = (a1, db1)" by fastforce
  note one = suspend_step_spec [OF Cons.prems(1) st]
  have IH: "services db' = update_where (\<lambda>s. s_id s \<in> set ids \<and> s_status s = S_ACTIVE) suspended_row (services db1)"
    "a' = a1 + count_where (\<lambda>s. s_id s \<in> set ids \<and> s_status s = S_ACTIVE) (services db1)"
    "invoices db' = invoices db1" "services_ok db'" "radius_in_sync db1 \<longrightarrow> radius_in_sync db'"
    using Cons.IH [of db1 a1] one Cons.prems(2,3) st by simp_all
  have both: "update_where (\<lambda>s. s_id s \<in> set ids \<and> s_status s = S_ACTIVE) suspended_row
      (update_where (\<lambda>s. s_id s = sid \<and> s_status s = S_ACTIVE) suspended_row (services db)) =
      update_where (\<lambda>s. s_id s \<in> set (sid # ids) \<and> s_status s = S_ACTIVE) suspended_row (services db)"
    unfolding update_where_def by auto
  show ?case
    using IH one both count_where_split [of sid "set ids" "services db"] Cons.prems(2) by simp
qed

text \<open>
  The suspension sweep switches off exactly the active subscriptions that have an invoice
  marked overdue whose due date is more than the grace period ago, changes no other
  subscription and no invoice, counts what it switched off, and leaves every account's RADIUS
  rows in step with its status.
\<close>

theorem suspendOverdue_exact:
  assumes "services_ok db" and "suspendOverdueSubscriptions grace db = (job, db')"
  shows "let hit = (\<lambda>s. (\<exists>i \<in> set (invoices db). i_status i = I_OVERDUE
               \<and> i_dueDate i < clock db - grace * day_ms \<and> i_customerServiceId i = Some (s_id s)) \<and> s_status s = S_ACTIVE)
         in services db' = update_where hit suspended_row (services db) \<and> invoices db' = invoices db
            \<and> affected job = count_where hit (services db) \<and> (radius_in_sync db \<longrightarrow> radius_in_sync db')"
proof -
  let ?ids = "remdups (map (\<lambda>i. the (i_customerServiceId i)) (filter (past_grace (clock db - grace * day_ms)) (invoices db)))"
  obtain a' where f: "fold suspend_step ?ids (0, db) = (a', db')" and job: "affected job = a'"
    using assms(2) by (auto simp: suspendOverdueSubscriptions_def Let_def split: prod.splits)
  have mem: "s_id s \<in> set ?ids \<longleftrightarrow> (\<exists>i \<in> set (invoices db).
      i_status i = I_OVERDUE \<and> i_dueDate i < clock db - grace * day_ms \<and> i_customerServiceId i = Some (s_id s))" for s
    by (force simp: past_grace_def image_iff)
  show ?thesis
    using fold_suspend_spec [OF assms(1) distinct_remdups f] unfolding mem job add_0 Let_def by blast
qed

theorem suspendOverdue_exact_witness:
  "s_status (hd (services (snd (suspendOverdueSubscriptions 3
      (sample_db\<lparr>clock := 4 * day_ms, invoices := [sample_invoice\<lparr>i_status := I_OVERDUE\<rparr>]\<rparr>))))) = S_SUSPENDED"
proof -
  let ?db = "sample_db\<lparr>clock := 4 * day_ms, invoices := [sample_invoice\<lparr>i_status := I_OVERDUE\<rparr>]\<rparr>"
  obtain job db' where r: "suspendOverdueSubscriptions 3 ?db = (job, db')" by fastforce
  have "services_ok ?db" using sample_db_ok(2) by (simp add: services_ok_def)
  from suspendOverdue_exact [OF this r] r show ?thesis
    by (simp add: Let_def sample_db_def sample_service_def sample_invoice_def day_ms_def)
qed

lemma reactivate_one_spec:
  assumes "services_ok db"
  shows "services (reactivate_one sub db) = update_where (\<lambda>s. s_id s = s_id sub) active_row (services db)
    \<and> invoices (reactivate_one sub db) = invoices db \<and> clock (reactivate_one sub db) = clock db
    \<and> services_ok (reactivate_one sub db) \<and> (radius_in_sync db \<longrightarrow> radius_in_sync (reactivate_one sub db))"
proof -
  have "services_ok (reactivate_one sub db)"
    by (rule services_ok_update [OF assms, where p = "\<lambda>s. s_id s = s_id sub" and f = active_row])
      (simp_all add: reactivate_one_def)
  moreover have "radius_in_sync (reactivate_one sub db)" if "radius_in_sync db"
    unfolding reactivate_one_def by (rule bestEffortRadiusSync_sync) (rule radius_in_sync_cong [OF that], simp_all)
  ultimately show ?thesis by (simp add: reactivate_one_def)
qed

lemma unpaid_count_cong: "invoices db' = invoices db \<Longrightarrow> unpaid_count c db' = unpaid_count c db"
  by (simp add: unpaid_count_def)

lemma fold_reactivate_spec:
  "services_ok db \<Longrightarrow> fold reactivate_step subs (a, db) = (a', db') \<Longrightarrow>
     services db' = update_where (\<lambda>s. s_id s \<in> s_id ` {x \<in> set subs. unpaid_count (s_customerId x) db = 0})
       active_row (services db)
     \<and> a' = a + count_where (\<lambda>x. unpaid_count (s_customerId x) db = 0) subs
     \<and> invoices db' = invoices db \<and> services_ok db' \<and> (radius_in_sync db \<longrightarrow> radius_in_sync db')"
proof (induction subs arbitrary: a db)
  case Nil
  then show ?case by (simp add: update_where_def count_where_def)
next
  case (Cons sub subs)
  show ?case
  proof (cases "unpaid_count (s_customerId sub) db = 0")
    case False
    then have "reactivate_step sub (a, db) = (a, db)" by (simp add: reactivate_step_def)
    with Cons.prems have "fold reactivate_step subs (a, db) = (a', db')" by simp
    moreover have "{x \<in> set (sub # subs). unpaid_count (s_customerId x) db = 0} = {x \<in> set subs. unpaid_count (s_customerId x) db = 0}"
      using False by auto
    ultimately show ?thesis
      using Cons.IH [OF Cons.prems(1), of a] False by (simp add: count_where_def del: update_where_simps)
  next
    case True
    let ?db1 = "reactivate_one sub db"
    note one = reactivate_one_spec [OF Cons.prems(1), of sub]
    have same: "unpaid_count c ?db1 = unpaid_count c db" for c using one by (intro unpaid_count_cong) simp
    have "reactivate_step sub (a, db) = (a + 1, ?db1)" using True by (simp add: reactivate_step_def)
    with Cons.prems(2) have f: "fold reactivate_step subs (a + 1, ?db1) = (a', db')" by simp
    have "update_where (\<lambda>s. s_id s \<in> s_id ` {x \<in> set subs. unpaid_count (s_customerId x) db = 0}) active_row
        (update_where (\<lambda>s. s_id s = s_id sub) active_row (services db)) =
        update_where (\<lambda>s. s_id s \<in> s_id ` {x \<in> set (sub # subs). unpaid_count (s_customerId x) db = 0}) active_row (services db)"
      using True unfolding update_where_def by auto
    with Cons.IH [OF _ f] one same True show ?thesis
      by (simp add: count_where_def del: update_where_simps)
  qed
qed

text \<open>
  The reactivation sweep switches back on exactly the suspended subscriptions whose
  customer has nothing unpaid and whose pause, if any, is over; it changes no other
  subscription and no invoice, counts what it switched on, and keeps the RADIUS rows in step.
\<close>

theorem reactivateCleared_exact:
  assumes "services_ok db" and "reactivateClearedSubscriptions db = (job, db')"
  shows "let hit = (\<lambda>s. may_reactivate (clock db) s \<and> (\<forall>i \<in> set (invoices db). i_customerId i = s_customerId s \<longrightarrow> \<not> is_unpaid i))
         in services db' = update_where hit active_row (services db) \<and> invoices db' = invoices db
            \<and> affected job = count_where hit (services db) \<and> (radius_in_sync db \<longrightarrow> radius_in_sync db')"
proof -
  let ?subs = "filter (may_reactivate (clock db)) (services db)"
  obtain a' where f: "fold reactivate_step ?subs (0, db) = (a', db')" and job: "affected job = a'"
    using assms(2) by (auto simp: reactivateClearedSubscriptions_def Let_def split: prod.splits)
  have clear: "unpaid_count (s_customerId s) db = 0 \<longleftrightarrow> (\<forall>i \<in> set (invoices db). i_customerId i = s_customerId s \<longrightarrow> \<not> is_unpaid i)" for s
    by (auto simp: unpaid_count_def count_where_eq_0)
  have mem: "s_id s \<in> s_id ` {x \<in> set ?subs. unpaid_count (s_customerId x) db = 0} \<longleftrightarrow>
      may_reactivate (clock db) s \<and> unpaid_count (s_customerId s) db = 0" if s: "s \<in> set (services db)" for s
  proof
    assume "s_id s \<in> s_id ` {x \<in> set ?subs. unpaid_count (s_customerId x) db = 0}"
    then obtain y where "y \<in> set ?subs" "unpaid_count (s_customerId y) db = 0" "s_id s = s_id y" by blast
    with services_key [OF assms(1) s, of y] show "may_reactivate (clock db) s \<and> unpaid_count (s_customerId s) db = 0"
      by simp
  qed (use s in simp)
  have upd: "update_where (\<lambda>s. s_id s \<in> s_id ` {x \<in> set ?subs. unpaid_count (s_customerId x) db = 0}) active_row (services db) =
      update_where (\<lambda>s. may_reactivate (clock db) s \<and> unpaid_count (s_customerId s) db = 0) active_row (services db)"
    by (intro update_where_cong refl) (rule mem)
  have cnt: "count_where (\<lambda>x. unpaid_count (s_customerId x) db = 0) ?subs =
      count_where (\<lambda>s. may_reactivate (clock db) s \<and> unpaid_count (s_customerId s) db = 0) (services db)"
    by (simp add: count_where_def conj_commute)
  show ?thesis
    using fold_reactivate_spec [OF assms(1) f, unfolded upd cnt add_0] unfolding job Let_def clear by blast
qed

theorem reactivateCleared_exact_witness:
  "s_status (hd (services (snd (reactivateClearedSubscriptions
      (sample_db\<lparr>services := [sample_service\<lparr>s_status := S_SUSPENDED\<rparr>], invoices := [sample_invoice\<lparr>i_status := I_PAID\<rparr>]\<rparr>))))) = S_ACTIVE"
proof -
  let ?db = "sample_db\<lparr>services := [sample_service\<lparr>s_status := S_SUSPENDED\<rparr>], invoices := [sample_invoice\<lparr>i_status := I_PAID\<rparr>]\<rparr>"
  obtain job db' where r: "reactivateClearedSubscriptions ?db = (job, db')" by fastforce
  have "services_ok ?db" by (simp add: services_ok_def)
  from reactivateCleared_exact [OF this r] r show ?thesis
    by (simp add: Let_def may_reactivate_def sample_service_def sample_invoice_def is_unpaid_def)
qed

end
