(* ===== verification/Wallet.thy ===== *)
theory Wallet
  imports Billing
begin

text \<open>
  packages/billing/src/wallet.service.ts: a customer's prepaid balance and its append-only
  ledger. The contract the rest of billing relies on is the locale \<open>protected_account\<close>: a
  credit always lands, a debit lands when the balance covers it and is refused otherwise,
  and nobody else's balance moves.
\<close>

section \<open>The contract\<close>

locale protected_account =
  fixes balance :: "'s \<Rightarrow> id \<Rightarrow> minor"
    and credit :: "id \<Rightarrow> minor \<Rightarrow> 's \<Rightarrow> 's result"
    and debit :: "id \<Rightarrow> minor \<Rightarrow> 's \<Rightarrow> 's result"
    and valid :: "'s \<Rightarrow> bool"
  assumes balance_nonneg: "valid s \<Longrightarrow> 0 \<le> balance s k"
    and credit_lands: "valid s \<Longrightarrow> 0 < a \<Longrightarrow>
      \<exists>s'. credit k a s = Inr s' \<and> valid s' \<and> balance s' = (balance s)(k := balance s k + a)"
    and debit_lands: "valid s \<Longrightarrow> 0 < a \<Longrightarrow> a \<le> balance s k \<Longrightarrow>
      \<exists>s'. debit k a s = Inr s' \<and> valid s' \<and> balance s' = (balance s)(k := balance s k - a)"
    and debit_refused: "valid s \<Longrightarrow> balance s k < a \<Longrightarrow> \<exists>e. debit k a s = Inl e"
    and nonpositive_refused:
      "a \<le> 0 \<Longrightarrow> (\<exists>e. credit k a s = Inl e) \<and> (\<exists>e. debit k a s = Inl e)"
begin

lemma creditD:
  assumes "valid s" and "credit k a s = Inr s'"
  shows "0 < a \<and> valid s' \<and> balance s' = (balance s)(k := balance s k + a)"
proof -
  have "0 < a" using nonpositive_refused [of a k s] assms(2) by (cases "0 < a") auto
  with credit_lands [OF assms(1) this, of k] assms(2) show ?thesis by auto
qed

lemma debitD:
  assumes "valid s" and "debit k a s = Inr s'"
  shows "0 < a \<and> a \<le> balance s k \<and> valid s' \<and> balance s' = (balance s)(k := balance s k - a)"
proof -
  have "0 < a" using nonpositive_refused [of a k s] assms(2) by (cases "0 < a") auto
  moreover have "a \<le> balance s k"
    using debit_refused [OF assms(1), of k a] assms(2) by (cases "a \<le> balance s k") auto
  ultimately show ?thesis using debit_lands [OF assms(1), of a k] assms(2) by auto
qed

text \<open>A debit after a credit of the same amount restores the balances.\<close>

lemma credit_then_debit:
  assumes "valid s" and "credit k a s = Inr s1"
  shows "\<exists>s2. debit k a s1 = Inr s2 \<and> valid s2 \<and> balance s2 = balance s"
proof -
  from creditD [OF assms] have 0: "0 < a" and v: "valid s1"
    and b: "balance s1 = (balance s)(k := balance s k + a)" by auto
  have "a \<le> balance s1 k" using b balance_nonneg [OF assms(1)] by simp
  from debit_lands [OF v 0 this] b show ?thesis by auto
qed

end

section \<open>The wallet service\<close>

record ledger_ref =
  referenceType :: "string option"
  referenceId :: "id option"

definition getOrCreateWallet :: "id \<Rightarrow> string \<Rightarrow> 'x billing_db_scheme \<Rightarrow> wallet \<times> 'x billing_db_scheme" where
  "getOrCreateWallet customerId currency db =
     (case List.find (\<lambda>w. w_customerId w = customerId) (wallets db) of
        Some existing \<Rightarrow> (existing, db)
      | None \<Rightarrow>
          let w = \<lparr>w_id = nextId db, w_customerId = customerId, w_balanceMinor = 0, w_currency = currency\<rparr>
          in (w, db\<lparr>wallets := wallets db @ [w], nextId := nextId db + 1\<rparr>))"

definition append_wallet_txn ::
  "wallet \<Rightarrow> wallet_txn_type \<Rightarrow> minor \<Rightarrow> minor \<Rightarrow> string \<Rightarrow> ledger_ref \<Rightarrow> 'x billing_db_scheme \<Rightarrow> 'x billing_db_scheme" where
  "append_wallet_txn w ty amountMinor balanceAfter reason ref db =
     db\<lparr>walletTxns := walletTxns db @
          [\<lparr>wt_walletId = w_id w, wt_type = ty, wt_amountMinor = amountMinor,
            wt_balanceAfterMinor = balanceAfter, wt_reason = reason,
            wt_referenceType = referenceType ref, wt_referenceId = referenceId ref,
            wt_createdAt = clock db\<rparr>]\<rparr>"

definition creditWallet ::
  "id \<Rightarrow> minor \<Rightarrow> string \<Rightarrow> ledger_ref \<Rightarrow> 'x billing_db_scheme \<Rightarrow> (wallet \<times> 'x billing_db_scheme) result" where
  "creditWallet customerId amountMinor reason ref db =
     (if amountMinor \<le> 0 then Inl (ValidationError ''Credit amount must be positive'')
      else
        let (w, db1) = getOrCreateWallet customerId ''KES'' db;
            updated = w\<lparr>w_balanceMinor := w_balanceMinor w + amountMinor\<rparr>;
            db2 = db1\<lparr>wallets := update_where (\<lambda>x. w_id x = w_id w)
                       (\<lambda>x. x\<lparr>w_balanceMinor := w_balanceMinor x + amountMinor\<rparr>) (wallets db1)\<rparr>
        in Inr (updated, append_wallet_txn w CREDIT amountMinor (w_balanceMinor updated) reason ref db2))"

definition debitWallet ::
  "id \<Rightarrow> minor \<Rightarrow> string \<Rightarrow> ledger_ref \<Rightarrow> 'x billing_db_scheme \<Rightarrow> (wallet \<times> 'x billing_db_scheme) result" where
  "debitWallet customerId amountMinor reason ref db =
     (if amountMinor \<le> 0 then Inl (ValidationError ''Debit amount must be positive'')
      else
        let (w, db1) = getOrCreateWallet customerId ''KES'' db;
            covers = (\<lambda>x. w_id x = w_id w \<and> w_balanceMinor x \<ge> amountMinor)
        in if count_where covers (wallets db1) = 0
           then Inl (ConflictError ''Insufficient wallet balance'')
           else
             let db2 = db1\<lparr>wallets := update_where covers
                             (\<lambda>x. x\<lparr>w_balanceMinor := w_balanceMinor x - amountMinor\<rparr>) (wallets db1)\<rparr>
             in case List.find (\<lambda>x. w_id x = w_id w) (wallets db2) of
                  None \<Rightarrow> Inl RecordNotFound
                | Some updated \<Rightarrow>
                    Inr (updated, append_wallet_txn w DEBIT amountMinor (w_balanceMinor updated) reason ref db2))"

definition listWalletTransactions :: "id \<Rightarrow> nat \<Rightarrow> 'x billing_db_scheme \<Rightarrow> wallet_txn list" where
  "listWalletTransactions customerId tk db =
     (case List.find (\<lambda>w. w_customerId w = customerId) (wallets db) of
        None \<Rightarrow> []
      | Some w \<Rightarrow> take tk (sort_key (\<lambda>t. - wt_createdAt t)
                    (filter (\<lambda>t. wt_walletId t = w_id w) (walletTxns db))))"

section \<open>Balances and the invariant\<close>

definition walletBalance :: "'x billing_db_scheme \<Rightarrow> id \<Rightarrow> minor" where
  "walletBalance db c =
     (case List.find (\<lambda>w. w_customerId w = c) (wallets db) of None \<Rightarrow> 0 | Some w \<Rightarrow> w_balanceMinor w)"

definition signed_amount :: "wallet_txn \<Rightarrow> minor" where
  "signed_amount t = (case wt_type t of CREDIT \<Rightarrow> wt_amountMinor t | DEBIT \<Rightarrow> - wt_amountMinor t)"

definition ledger_total :: "id \<Rightarrow> wallet_txn list \<Rightarrow> minor" where
  "ledger_total wid ts = sum_list (map signed_amount (filter (\<lambda>t. wt_walletId t = wid) ts))"

lemma ledger_total_append [simp]:
  "ledger_total wid (ts @ [t]) = ledger_total wid ts + (if wt_walletId t = wid then signed_amount t else 0)"
  by (simp add: ledger_total_def)

lemma ledger_total_none: "(\<And>t. t \<in> set ts \<Longrightarrow> wt_walletId t \<noteq> wid) \<Longrightarrow> ledger_total wid ts = 0"
  by (induction ts) (auto simp: ledger_total_def)

text \<open>Every wallet's balance is the sum of its ledger rows, and is never negative.\<close>

definition wallet_ok :: "'x billing_db_scheme \<Rightarrow> bool" where
  "wallet_ok db \<longleftrightarrow>
     distinct (map w_id (wallets db)) \<and> distinct (map w_customerId (wallets db)) \<and>
     (\<forall>w \<in> set (wallets db). w_id w < nextId db) \<and>
     (\<forall>t \<in> set (walletTxns db). wt_walletId t < nextId db) \<and>
     (\<forall>w \<in> set (wallets db). 0 \<le> w_balanceMinor w \<and>
         w_balanceMinor w = ledger_total (w_id w) (walletTxns db))"

lemma wallet_ok_cong:
  "wallet_ok db \<Longrightarrow> wallets db' = wallets db \<Longrightarrow> walletTxns db' = walletTxns db \<Longrightarrow>
     nextId db \<le> nextId db' \<Longrightarrow> wallet_ok db'"
  by (auto simp: wallet_ok_def intro: less_le_trans)

lemma walletBalance_cong: "wallets db' = wallets db \<Longrightarrow> walletBalance db' = walletBalance db"
  by (simp add: walletBalance_def fun_eq_iff)

lemma getOrCreateWallet_ok:
  assumes "wallet_ok db" and "getOrCreateWallet c cur db = (w, db')"
  shows "wallet_ok db' \<and> w \<in> set (wallets db') \<and> w_customerId w = c
    \<and> walletBalance db' = walletBalance db \<and> w_balanceMinor w = walletBalance db c"
proof (cases "List.find (\<lambda>w. w_customerId w = c) (wallets db)")
  case (Some x)
  then show ?thesis
    using assms find_SomeD [OF Some] by (auto simp: getOrCreateWallet_def walletBalance_def)
next
  case None
  then have new: "\<forall>x \<in> set (wallets db). w_customerId x \<noteq> c"
    by (auto simp: find_None_iff)
  have fresh: "ledger_total (nextId db) (walletTxns db) = 0"
    using assms(1) by (intro ledger_total_none) (auto simp: wallet_ok_def)
  have w: "w = \<lparr>w_id = nextId db, w_customerId = c, w_balanceMinor = 0, w_currency = cur\<rparr>"
    and db': "db' = db\<lparr>wallets := wallets db @ [w], nextId := nextId db + 1\<rparr>"
    using assms(2) None by (auto simp: getOrCreateWallet_def Let_def)
  have "walletBalance db' x = walletBalance db x" for x
    using new by (auto simp: walletBalance_def db' w find_append split: option.splits dest: find_SomeD)
  moreover have "wallet_ok db'"
    using assms(1) new fresh by (force simp: wallet_ok_def db' w)
  ultimately show ?thesis using None by (auto simp: db' w walletBalance_def)
qed

text \<open>The wallet row's update and the ledger row's append, together.\<close>

lemma wallet_move:
  assumes ok: "wallet_ok db" and w: "w \<in> set (wallets db)"
    and d: "d = (case ty of CREDIT \<Rightarrow> a | DEBIT \<Rightarrow> - a)" "0 \<le> w_balanceMinor w + d"
    and db': "db' = append_wallet_txn w ty a bal reason ref
        (db\<lparr>wallets := update_where (\<lambda>x. w_id x = w_id w) (\<lambda>x. x\<lparr>w_balanceMinor := w_balanceMinor x + d\<rparr>) (wallets db)\<rparr>)"
  shows "wallet_ok db' \<and> walletBalance db' = (walletBalance db)(w_customerId w := w_balanceMinor w + d)"
proof
  let ?upd = "\<lambda>x. x\<lparr>w_balanceMinor := w_balanceMinor x + d\<rparr>"
  have only: "x = w" if "x \<in> set (wallets db)" "w_id x = w_id w" for x
    using key_eq_rows [of w_id "wallets db" x w] ok w that by (simp add: wallet_ok_def)
  have m1: "map w_id (update_where (\<lambda>x. w_id x = w_id w) ?upd (wallets db)) = map w_id (wallets db)"
    and m2: "map w_customerId (update_where (\<lambda>x. w_id x = w_id w) ?upd (wallets db)) = map w_customerId (wallets db)"
    by (rule map_update_where, simp)+
  define row where "row = \<lparr>wt_walletId = w_id w, wt_type = ty, wt_amountMinor = a, wt_balanceAfterMinor = bal,
      wt_reason = reason, wt_referenceType = referenceType ref, wt_referenceId = referenceId ref,
      wt_createdAt = clock db\<rparr>"
  have row: "wt_walletId row = w_id w" "signed_amount row = d"
    using d(1) by (simp_all add: row_def signed_amount_def split: wallet_txn_type.splits)
  have shape: "wallets db' = update_where (\<lambda>x. w_id x = w_id w) ?upd (wallets db)"
      "walletTxns db' = walletTxns db @ [row]" "nextId db' = nextId db"
    by (simp_all add: db' append_wallet_txn_def row_def)
  show "wallet_ok db'"
    using ok w d(2) only unfolding wallet_ok_def shape m1 m2
    by (auto simp: set_update_where row)
  have cust: "w_id x = w_id w \<longleftrightarrow> w_customerId x = w_customerId w" if "x \<in> set (wallets db)" for x
    using key_eq_rows [of w_customerId "wallets db" x w] only [OF that] ok w that by (auto simp: wallet_ok_def)
  have upd: "update_where (\<lambda>x. w_id x = w_id w) ?upd (wallets db) =
             update_where (\<lambda>x. w_customerId x = w_customerId w) ?upd (wallets db)"
    using cust by (intro update_where_cong) auto
  have f: "List.find (\<lambda>x. w_customerId x = w_customerId w) (wallets db) = Some w"
    using ok w by (intro find_key_unique) (auto simp: wallet_ok_def)
  show "walletBalance db' = (walletBalance db)(w_customerId w := w_balanceMinor w + d)"
  proof
    fix c
    show "walletBalance db' c = ((walletBalance db)(w_customerId w := w_balanceMinor w + d)) c"
      by (cases "c = w_customerId w")
        (simp_all add: walletBalance_def db' append_wallet_txn_def upd find_update_where_same
          find_update_where_other f)
  qed
qed

lemma creditWallet_ok:
  assumes "wallet_ok db" and "0 < a"
  shows "\<exists>w db'. creditWallet c a reason ref db = Inr (w, db') \<and> wallet_ok db'
    \<and> walletBalance db' = (walletBalance db)(c := walletBalance db c + a)"
proof -
  obtain w db1 where g: "getOrCreateWallet c ''KES'' db = (w, db1)" by fastforce
  from getOrCreateWallet_ok [OF assms(1) g] have ok: "wallet_ok db1" and w: "w \<in> set (wallets db1)"
    and wb: "w_customerId w = c" "walletBalance db1 = walletBalance db" "w_balanceMinor w = walletBalance db c"
    by auto
  have "0 \<le> w_balanceMinor w + a" using ok w assms(2) by (auto simp: wallet_ok_def)
  from wallet_move [OF ok w _ this refl, where ty = CREDIT and a = a and bal = "w_balanceMinor w + a" and reason = reason and ref = ref]
  show ?thesis using assms(2) wb by (simp add: creditWallet_def g)
qed

lemma debitWallet_ok:
  assumes "wallet_ok db" and "0 < a"
  shows "if a \<le> walletBalance db c
    then \<exists>w db'. debitWallet c a reason ref db = Inr (w, db') \<and> wallet_ok db'
      \<and> walletBalance db' = (walletBalance db)(c := walletBalance db c - a)
    else debitWallet c a reason ref db = Inl (ConflictError ''Insufficient wallet balance'')"
proof -
  obtain w db1 where g: "getOrCreateWallet c ''KES'' db = (w, db1)" by fastforce
  from getOrCreateWallet_ok [OF assms(1) g] have ok: "wallet_ok db1" and w: "w \<in> set (wallets db1)"
    and wb: "w_customerId w = c" "walletBalance db1 = walletBalance db" "w_balanceMinor w = walletBalance db c"
    by auto
  have only: "x = w" if "x \<in> set (wallets db1)" "w_id x = w_id w" for x
    using key_eq_rows [of w_id "wallets db1" x w] ok w that by (simp add: wallet_ok_def)
  have none: "count_where (\<lambda>x. w_id x = w_id w \<and> w_balanceMinor x \<ge> a) (wallets db1) = 0
      \<longleftrightarrow> walletBalance db c < a"
    using only w wb(3) by (force simp: count_where_eq_0)
  show ?thesis
  proof (cases "a \<le> walletBalance db c")
    case False
    then show ?thesis using assms(2) none by (simp add: debitWallet_def g)
  next
    case True
    let ?dec = "\<lambda>x. x\<lparr>w_balanceMinor := w_balanceMinor x + - a\<rparr>"
    have upd: "update_where (\<lambda>x. w_id x = w_id w \<and> w_balanceMinor x \<ge> a)
          (\<lambda>x. x\<lparr>w_balanceMinor := w_balanceMinor x - a\<rparr>) (wallets db1) =
        update_where (\<lambda>x. w_id x = w_id w) ?dec (wallets db1)"
      using only True wb(3) by (intro update_where_cong) (auto dest!: only)
    have f: "List.find (\<lambda>x. w_id x = w_id w) (wallets db1) = Some w"
      using ok w by (intro find_key_unique) (auto simp: wallet_ok_def)
    have "0 \<le> w_balanceMinor w + - a" using True wb(3) by simp
    from wallet_move [OF ok w _ this refl, where ty = DEBIT and a = a and bal = "w_balanceMinor w - a" and reason = reason and ref = ref]
    show ?thesis using assms(2) wb none True
      by (simp add: debitWallet_def g upd find_update_where_same f)
  qed
qed

interpretation wallet_account: protected_account walletBalance
  "\<lambda>c a db. case creditWallet c a reason ref db of Inl e \<Rightarrow> Inl e | Inr (_, db') \<Rightarrow> Inr db'"
  "\<lambda>c a db. case debitWallet c a reason' ref' db of Inl e \<Rightarrow> Inl e | Inr (_, db') \<Rightarrow> Inr db'"
  wallet_ok
  for reason ref reason' ref'
proof unfold_locales
  fix db :: "'b billing_db_scheme" and c :: id and a :: minor
  show "wallet_ok db \<Longrightarrow> 0 \<le> walletBalance db c"
    by (auto simp: wallet_ok_def walletBalance_def split: option.splits dest: find_SomeD)
  show "wallet_ok db \<Longrightarrow> 0 < a \<Longrightarrow>
      \<exists>s'. (case creditWallet c a reason ref db of Inl e \<Rightarrow> Inl e | Inr (_, db') \<Rightarrow> Inr db') = Inr s'
        \<and> wallet_ok s' \<and> walletBalance s' = (walletBalance db)(c := walletBalance db c + a)"
    using creditWallet_ok [of db a c reason ref] by fastforce
  show "wallet_ok db \<Longrightarrow> 0 < a \<Longrightarrow> a \<le> walletBalance db c \<Longrightarrow>
      \<exists>s'. (case debitWallet c a reason' ref' db of Inl e \<Rightarrow> Inl e | Inr (_, db') \<Rightarrow> Inr db') = Inr s'
        \<and> wallet_ok s' \<and> walletBalance s' = (walletBalance db)(c := walletBalance db c - a)"
    using debitWallet_ok [of db a c reason' ref'] by fastforce
  show "wallet_ok db \<Longrightarrow> walletBalance db c < a \<Longrightarrow>
      \<exists>e. (case debitWallet c a reason' ref' db of Inl e \<Rightarrow> Inl e | Inr (_, db') \<Rightarrow> Inr db') = Inl e"
    using debitWallet_ok [of db a c reason' ref']
    by (cases "0 < a") (auto simp: debitWallet_def not_le)
  show "a \<le> 0 \<Longrightarrow>
      (\<exists>e. (case creditWallet c a reason ref db of Inl e \<Rightarrow> Inl e | Inr (_, db') \<Rightarrow> Inr db') = Inl e) \<and>
      (\<exists>e. (case debitWallet c a reason' ref' db of Inl e \<Rightarrow> Inl e | Inr (_, db') \<Rightarrow> Inr db') = Inl e)"
    by (auto simp: creditWallet_def debitWallet_def)
qed

end
