(* ===== verification/Payments.thy ===== *)
theory Payments
  imports BillingCycle Wallet
begin

text \<open>
  packages/billing/src/payment.service.ts: payments against an invoice, wallet top-ups and
  reversals, each the body of one database transaction (an \<open>Inl\<close> result rolls it back). The
  invariant \<open>books_ok\<close> says the books balance: what an invoice shows as paid is the sum of
  its completed payments and never exceeds its total, and every payment has its receipt.
\<close>

section \<open>Receipts\<close>

definition insert_receipt :: "id \<Rightarrow> id \<Rightarrow> string \<Rightarrow> 'x billing_db_scheme \<Rightarrow> (receipt \<times> 'x billing_db_scheme) result" where
  "insert_receipt tenantId paymentId receiptNumber db =
     (if \<exists>r \<in> set (receipts db). r_paymentId r = paymentId
           \<or> (r_tenantId r = tenantId \<and> r_receiptNumber r = receiptNumber)
      then Inl UniqueViolation
      else let r = \<lparr>r_id = nextId db, r_tenantId = tenantId, r_paymentId = paymentId, r_receiptNumber = receiptNumber\<rparr>
           in Inr (r, db\<lparr>receipts := receipts db @ [r], nextId := nextId db + 1\<rparr>))"

definition createReceipt :: "id \<Rightarrow> id \<Rightarrow> 'x billing_db_scheme \<Rightarrow> (receipt \<times> 'x billing_db_scheme) result" where
  "createReceipt tenantId paymentId db =
     withRetryOnNumberCollision
       (\<lambda>attempt. numbered ''RCT-'' 7 (count_where (\<lambda>r. r_tenantId r = tenantId) (receipts db) + 1 + attempt))
       (\<lambda>receiptNumber. insert_receipt tenantId paymentId receiptNumber db) 5"

section \<open>Payments against an invoice\<close>

record payment_input =
  in_invoiceId :: id
  in_method :: payment_method
  in_amountMinor :: minor
  in_reference :: "string option"
  in_recordedByUserId :: "id option"
  in_idempotencyKey :: string
  in_allowOverpayment :: bool

record payment_result =
  res_payment :: payment
  res_receipt :: receipt
  res_invoice :: "invoice option"
  res_wasAlreadyProcessed :: bool

definition invoice_ref :: "id \<Rightarrow> ledger_ref" where
  "invoice_ref i = \<lparr>referenceType = Some ''Invoice'', referenceId = Some i\<rparr>"

definition payment_ref :: "id \<Rightarrow> ledger_ref" where
  "payment_ref i = \<lparr>referenceType = Some ''Payment'', referenceId = Some i\<rparr>"

text \<open>The reactivation inside the payment: no look at \<open>pausedUntil\<close> here.\<close>

definition reactivate_paid_up :: "id \<Rightarrow> id \<Rightarrow> id \<Rightarrow> 'x billing_db_scheme \<Rightarrow> 'x billing_db_scheme" where
  "reactivate_paid_up tenantId customerId invoiceId db =
     (if count_where (\<lambda>i. i_customerId i = customerId \<and> i_id i \<noteq> invoiceId \<and> is_unpaid i) (invoices db) = 0
      then fold reactivate_one
             (filter (\<lambda>s. s_tenantId s = tenantId \<and> s_customerId s = customerId \<and> s_status s = S_SUSPENDED) (services db)) db
      else db)"

text \<open>From the creation of the payment row to the end, given what is applied and what is over.\<close>

definition post_payment ::
  "id \<Rightarrow> payment_input \<Rightarrow> invoice \<Rightarrow> minor \<Rightarrow> minor \<Rightarrow> 'x billing_db_scheme \<Rightarrow>
     (payment_result \<times> 'x billing_db_scheme) result" where
  "post_payment tenantId inp invoice appliedMinor excessMinor db =
     (let payment = \<lparr>p_id = nextId db, p_tenantId = tenantId, p_customerId = Some (i_customerId invoice),
            p_invoiceId = Some (i_id invoice), p_method = in_method inp, p_status = P_COMPLETED,
            p_amountMinor = appliedMinor, p_currency = i_currency invoice, p_reference = in_reference inp,
            p_idempotencyKey = in_idempotencyKey inp, p_recordedByUserId = in_recordedByUserId inp,
            p_reversedAt = None, p_reversalReason = None, p_createdAt = clock db\<rparr>;
          db1 = db\<lparr>payments := payments db @ [payment], nextId := nextId db + 1\<rparr>;
          amountPaidMinor = i_amountPaidMinor invoice + appliedMinor;
          newStatus = (if amountPaidMinor \<ge> i_totalMinor invoice then I_PAID else I_PARTIALLY_PAID);
          upd = (\<lambda>i. i\<lparr>i_amountPaidMinor := amountPaidMinor, i_status := newStatus,
                      i_paidAt := (if newStatus = I_PAID then Some (clock db) else i_paidAt invoice)\<rparr>);
          db2 = update_invoice (i_id invoice) upd db1
      in case createReceipt tenantId (p_id payment) db2 of
           Inl e \<Rightarrow> Inl e
         | Inr (receipt, db3) \<Rightarrow>
             let db4 = (if newStatus = I_PAID
                        then reactivate_paid_up tenantId (i_customerId invoice) (i_id invoice) db3 else db3);
                 out = \<lparr>res_payment = payment, res_receipt = receipt, res_invoice = Some (upd invoice),
                        res_wasAlreadyProcessed = False\<rparr>
             in if excessMinor > 0
                then (case creditWallet (i_customerId invoice) excessMinor
                             (''Overpayment credit '' @ em_dash @ '' invoice '' @ i_invoiceNumber invoice @ '' was already fully paid'')
                             (payment_ref (p_id payment)) db4 of
                        Inl e \<Rightarrow> Inl e
                      | Inr (_, db5) \<Rightarrow> Inr (out, db5))
                else Inr (out, db4))"

definition recordPaymentForInvoiceCore ::
  "id \<Rightarrow> payment_input \<Rightarrow> 'x billing_db_scheme \<Rightarrow> (payment_result \<times> 'x billing_db_scheme) result" where
  "recordPaymentForInvoiceCore tenantId inp db =
     (if in_amountMinor inp \<le> 0 then Inl (ValidationError ''Payment amount must be positive'')
      else case List.find (\<lambda>p. p_idempotencyKey p = in_idempotencyKey inp) (payments db) of
        Some existing \<Rightarrow>
          (case List.find (\<lambda>r. r_paymentId r = p_id existing) (receipts db) of
             None \<Rightarrow> Inl RecordNotFound
           | Some receipt \<Rightarrow>
               Inr (\<lparr>res_payment = existing, res_receipt = receipt,
                     res_invoice = (case p_invoiceId existing of None \<Rightarrow> None | Some i \<Rightarrow> find_invoice i db),
                     res_wasAlreadyProcessed = True\<rparr>, db))
      | None \<Rightarrow>
          (case find_invoice_in tenantId (in_invoiceId inp) db of
             None \<Rightarrow> Inl (NotFoundError ''Invoice'')
           | Some invoice \<Rightarrow>
               if i_status invoice = I_VOID then Inl (ConflictError ''Cannot record a payment against a void invoice'')
               else if i_status invoice = I_CANCELLED then Inl (ConflictError ''Cannot record a payment against a cancelled invoice'')
               else if i_status invoice = I_PAID then Inl (ConflictError ''Invoice is already fully paid'')
               else
                 let remainingMinor = i_totalMinor invoice - i_amountPaidMinor invoice;
                     over = (in_amountMinor inp > remainingMinor);
                     appliedMinor = (if over then remainingMinor else in_amountMinor inp);
                     excessMinor = (if over then in_amountMinor inp - remainingMinor else 0)
                 in if over \<and> \<not> in_allowOverpayment inp
                    then Inl (ValidationError ''Payment exceeds the remaining invoice balance'')
                    else if in_method inp = WALLET
                    then (case debitWallet (i_customerId invoice) appliedMinor
                                 (''Payment for invoice '' @ i_invoiceNumber invoice) (invoice_ref (i_id invoice)) db of
                            Inl e \<Rightarrow> Inl e
                          | Inr (_, db1) \<Rightarrow> post_payment tenantId inp invoice appliedMinor excessMinor db1)
                    else post_payment tenantId inp invoice appliedMinor excessMinor db))"

section \<open>Top-ups and reversals\<close>

record topup_input =
  tu_customerId :: id
  tu_amountMinor :: minor
  tu_method :: payment_method
  tu_currency :: "string option"
  tu_reference :: "string option"
  tu_recordedByUserId :: "id option"
  tu_idempotencyKey :: string

definition topUpWalletCore ::
  "id \<Rightarrow> topup_input \<Rightarrow> 'x billing_db_scheme \<Rightarrow> (payment_result \<times> 'x billing_db_scheme) result" where
  "topUpWalletCore tenantId inp db =
     (if tu_amountMinor inp \<le> 0 then Inl (ValidationError ''Top-up amount must be positive'')
      else case List.find (\<lambda>p. p_idempotencyKey p = tu_idempotencyKey inp) (payments db) of
        Some existing \<Rightarrow>
          (case List.find (\<lambda>r. r_paymentId r = p_id existing) (receipts db) of
             None \<Rightarrow> Inl RecordNotFound
           | Some receipt \<Rightarrow> Inr (\<lparr>res_payment = existing, res_receipt = receipt, res_invoice = None,
                                  res_wasAlreadyProcessed = True\<rparr>, db))
      | None \<Rightarrow>
          (case List.find (\<lambda>c. c_id c = tu_customerId inp \<and> c_tenantId c = tenantId \<and> c_deletedAt c = None) (customers db) of
             None \<Rightarrow> Inl (NotFoundError ''Customer'')
           | Some customer \<Rightarrow>
               let payment = \<lparr>p_id = nextId db, p_tenantId = tenantId, p_customerId = Some (c_id customer),
                     p_invoiceId = None, p_method = tu_method inp, p_status = P_COMPLETED,
                     p_amountMinor = tu_amountMinor inp,
                     p_currency = (case tu_currency inp of Some c \<Rightarrow> c | None \<Rightarrow> ''KES''),
                     p_reference = tu_reference inp, p_idempotencyKey = tu_idempotencyKey inp,
                     p_recordedByUserId = tu_recordedByUserId inp, p_reversedAt = None,
                     p_reversalReason = None, p_createdAt = clock db\<rparr>;
                   db1 = db\<lparr>payments := payments db @ [payment], nextId := nextId db + 1\<rparr>
               in case creditWallet (c_id customer) (tu_amountMinor inp) ''Wallet top-up'' (payment_ref (p_id payment)) db1 of
                    Inl e \<Rightarrow> Inl e
                  | Inr (_, db2) \<Rightarrow>
                      (case createReceipt tenantId (p_id payment) db2 of
                         Inl e \<Rightarrow> Inl e
                       | Inr (receipt, db3) \<Rightarrow>
                           Inr (\<lparr>res_payment = payment, res_receipt = receipt, res_invoice = None,
                                 res_wasAlreadyProcessed = False\<rparr>, db3))))"

text \<open>The wallet side of a reversal.\<close>

definition reverse_wallet :: "payment \<Rightarrow> 'x billing_db_scheme \<Rightarrow> 'x billing_db_scheme result" where
  "reverse_wallet payment db =
     (case p_customerId payment of
        None \<Rightarrow> Inr db
      | Some customerId \<Rightarrow>
          if p_method payment = WALLET
          then (case creditWallet customerId (p_amountMinor payment) (''Reversal of payment '' @ nat_to_string (p_id payment))
                       (payment_ref (p_id payment)) db of Inl e \<Rightarrow> Inl e | Inr (_, db1) \<Rightarrow> Inr db1)
          else if p_invoiceId payment = None
          then (case debitWallet customerId (p_amountMinor payment) (''Reversal of top-up '' @ nat_to_string (p_id payment))
                       (payment_ref (p_id payment)) db of Inl e \<Rightarrow> Inl e | Inr (_, db1) \<Rightarrow> Inr db1)
          else Inr db)"

text \<open>The invoice side of a reversal.\<close>

definition reverse_invoice :: "payment \<Rightarrow> 'x billing_db_scheme \<Rightarrow> 'x billing_db_scheme result" where
  "reverse_invoice payment db =
     (case p_invoiceId payment of
        None \<Rightarrow> Inr db
      | Some invoiceId \<Rightarrow>
          (case find_invoice invoiceId db of
             None \<Rightarrow> Inl RecordNotFound
           | Some invoice \<Rightarrow>
               let amountPaidMinor = max 0 (i_amountPaidMinor invoice - p_amountMinor payment);
                   newStatus = (if amountPaidMinor \<le> 0 then I_PENDING
                                else if amountPaidMinor < i_totalMinor invoice then I_PARTIALLY_PAID else I_PAID)
               in Inr (update_invoice (i_id invoice)
                    (\<lambda>i. i\<lparr>i_amountPaidMinor := amountPaidMinor, i_status := newStatus,
                           i_paidAt := (if newStatus = I_PAID then i_paidAt invoice else None)\<rparr>) db)))"

definition refundPaymentCore ::
  "id \<Rightarrow> id \<Rightarrow> string \<Rightarrow> 'x billing_db_scheme \<Rightarrow> (payment \<times> 'x billing_db_scheme) result" where
  "refundPaymentCore tenantId paymentId reason db =
     (case List.find (\<lambda>p. p_id p = paymentId \<and> p_tenantId p = tenantId) (payments db) of
        None \<Rightarrow> Inl (NotFoundError ''Payment'')
      | Some payment \<Rightarrow>
          if p_status payment = P_REVERSED then Inl (ConflictError ''Payment has already been reversed'')
          else if p_status payment \<noteq> P_COMPLETED then Inl (ConflictError ''Only a completed payment can be reversed'')
          else (case reverse_wallet payment db of
              Inl e \<Rightarrow> Inl e
            | Inr db1 \<Rightarrow>
                (case reverse_invoice payment db1 of
                   Inl e \<Rightarrow> Inl e
                 | Inr db2 \<Rightarrow>
                     let upd = (\<lambda>p. p\<lparr>p_status := P_REVERSED, p_reversedAt := Some (clock db2), p_reversalReason := Some reason\<rparr>)
                     in Inr (upd payment, update_payment paymentId upd db2))))"

section \<open>The books\<close>

text \<open>
  Payments have distinct ids and idempotency keys and amounts that are not negative; every payment
  of a customer has its receipt (a guest's hotspot purchase has none); every invoice shows the sum
  of the completed payments made for it.
\<close>

definition pays_for :: "id \<Rightarrow> payment \<Rightarrow> minor" where
  "pays_for iid p = (if p_status p = P_COMPLETED \<and> p_invoiceId p = Some iid then p_amountMinor p else 0)"

definition applied_total :: "id \<Rightarrow> payment list \<Rightarrow> minor" where
  "applied_total iid ps = sum_list (map (pays_for iid) ps)"

definition payments_ok :: "id \<Rightarrow> payment list \<Rightarrow> receipt list \<Rightarrow> bool" where
  "payments_ok n ps rs \<longleftrightarrow>
     distinct (map p_id ps) \<and> distinct (map p_idempotencyKey ps) \<and>
     (\<forall>p \<in> set ps. p_id p < n \<and> 0 \<le> p_amountMinor p \<and> (\<forall>i. p_invoiceId p = Some i \<longrightarrow> i < n)
        \<and> (p_customerId p \<noteq> None \<longrightarrow> (\<exists>r \<in> set rs. r_paymentId r = p_id p))) \<and>
     (\<forall>r \<in> set rs. r_paymentId r < n) \<and> distinct (map r_paymentId rs)"

definition paid_ok :: "invoice list \<Rightarrow> payment list \<Rightarrow> bool" where
  "paid_ok is ps \<longleftrightarrow> (\<forall>i \<in> set is. i_amountPaidMinor i = applied_total (i_id i) ps \<and> i_amountPaidMinor i \<le> i_totalMinor i)"

definition books_ok :: "'x billing_db_scheme \<Rightarrow> bool" where
  "books_ok db \<longleftrightarrow> invoices_ok db \<and> numbers_dense r_tenantId r_receiptNumber (numbered ''RCT-'' 7) (receipts db)
     \<and> payments_ok (nextId db) (payments db) (receipts db) \<and> paid_ok (invoices db) (payments db)"

lemma payments_ok_mono: "payments_ok n ps rs \<Longrightarrow> n \<le> m \<Longrightarrow> payments_ok m ps rs"
  unfolding payments_ok_def by (auto intro: less_le_trans)

lemma books_ok_cong:
  "books_ok db \<Longrightarrow> invoices db' = invoices db \<Longrightarrow> payments db' = payments db \<Longrightarrow> receipts db' = receipts db \<Longrightarrow>
     nextId db \<le> nextId db' \<Longrightarrow> books_ok db'"
  by (auto simp: books_ok_def intro: invoices_ok_cong payments_ok_mono)

lemma applied_total_append: "applied_total i (ps @ [p]) = applied_total i ps + pays_for i p"
  by (simp add: applied_total_def)

lemma applied_total_nonneg: "payments_ok n ps rs \<Longrightarrow> 0 \<le> applied_total i ps"
  unfolding applied_total_def payments_ok_def by (intro sum_list_nonneg) (auto simp: pays_for_def)

lemma creditWallet_frame:
  assumes "creditWallet c a why ref db = Inr (w, db')"
  shows "clock db' = clock db" "tenants db' = tenants db" "customers db' = customers db" "packages db' = packages db"
    "services db' = services db" "invoices db' = invoices db" "payments db' = payments db" "receipts db' = receipts db"
    "pauses db' = pauses db" "radiusUsers db' = radiusUsers db" "radChecks db' = radChecks db"
    "radReplies db' = radReplies db" "outbox db' = outbox db" "nextId db \<le> nextId db'"
    "billing_db.more db' = billing_db.more db"
  using assms by (auto simp: creditWallet_def getOrCreateWallet_def append_wallet_txn_def Let_def
      split: if_splits option.splits)

lemma debitWallet_frame:
  assumes "debitWallet c a why ref db = Inr (w, db')"
  shows "clock db' = clock db" "tenants db' = tenants db" "customers db' = customers db" "packages db' = packages db"
    "services db' = services db" "invoices db' = invoices db" "payments db' = payments db" "receipts db' = receipts db"
    "pauses db' = pauses db" "radiusUsers db' = radiusUsers db" "radChecks db' = radChecks db"
    "radReplies db' = radReplies db" "outbox db' = outbox db" "nextId db \<le> nextId db'"
    "billing_db.more db' = billing_db.more db"
  using assms by (auto simp: debitWallet_def getOrCreateWallet_def append_wallet_txn_def Let_def
      split: if_splits option.splits)

text \<open>The wallet contract, as payments use it.\<close>

lemma credit_result:
  assumes "wallet_ok db" and "creditWallet c a why ref db = Inr (w, db')"
  shows "wallet_ok db' \<and> walletBalance db' = (walletBalance db)(c := walletBalance db c + a)"
  using wallet_account.creditD [where s = db and k = c and a = a and s' = db' and reason = why and ref = ref] assms by simp

lemma debit_result:
  assumes "wallet_ok db" and "debitWallet c a why ref db = Inr (w, db')"
  shows "wallet_ok db' \<and> a \<le> walletBalance db c \<and> walletBalance db' = (walletBalance db)(c := walletBalance db c - a)"
  using wallet_account.debitD [where s = db and k = c and a = a and s' = db' and reason' = why and ref' = ref] assms by simp

lemma reactivate_paid_up_frame:
  shows "clock (reactivate_paid_up t c i db) = clock db" "nextId (reactivate_paid_up t c i db) = nextId db"
    "invoices (reactivate_paid_up t c i db) = invoices db" "payments (reactivate_paid_up t c i db) = payments db"
    "receipts (reactivate_paid_up t c i db) = receipts db" "wallets (reactivate_paid_up t c i db) = wallets db"
    "walletTxns (reactivate_paid_up t c i db) = walletTxns db" "customers (reactivate_paid_up t c i db) = customers db"
    "billing_db.more (reactivate_paid_up t c i db) = billing_db.more db"
proof -
  have "clock (fold reactivate_one ss db) = clock db \<and> nextId (fold reactivate_one ss db) = nextId db
    \<and> invoices (fold reactivate_one ss db) = invoices db \<and> payments (fold reactivate_one ss db) = payments db
    \<and> receipts (fold reactivate_one ss db) = receipts db \<and> wallets (fold reactivate_one ss db) = wallets db
    \<and> walletTxns (fold reactivate_one ss db) = walletTxns db \<and> customers (fold reactivate_one ss db) = customers db
    \<and> billing_db.more (fold reactivate_one ss db) = billing_db.more db" for ss
    by (induction ss arbitrary: db) (simp_all add: reactivate_one_def)
  then show "clock (reactivate_paid_up t c i db) = clock db" "nextId (reactivate_paid_up t c i db) = nextId db"
    "invoices (reactivate_paid_up t c i db) = invoices db" "payments (reactivate_paid_up t c i db) = payments db"
    "receipts (reactivate_paid_up t c i db) = receipts db" "wallets (reactivate_paid_up t c i db) = wallets db"
    "walletTxns (reactivate_paid_up t c i db) = walletTxns db" "customers (reactivate_paid_up t c i db) = customers db"
    "billing_db.more (reactivate_paid_up t c i db) = billing_db.more db"
    by (simp_all add: reactivate_paid_up_def)
qed

lemma createReceipt_eq:
  assumes "numbers_dense r_tenantId r_receiptNumber (numbered ''RCT-'' 7) (receipts db)"
    and "\<forall>r \<in> set (receipts db). r_paymentId r \<noteq> pid"
  shows "createReceipt t pid db =
    (let r = \<lparr>r_id = nextId db, r_tenantId = t, r_paymentId = pid,
              r_receiptNumber = numbered ''RCT-'' 7 (count_where (\<lambda>r. r_tenantId r = t) (receipts db) + 1)\<rparr>
     in Inr (r, db\<lparr>receipts := receipts db @ [r], nextId := nextId db + 1\<rparr>))"
proof -
  have "\<not> (\<exists>r \<in> set (receipts db). r_paymentId r = pid \<or> (r_tenantId r = t
      \<and> r_receiptNumber r = numbered ''RCT-'' 7 (count_where (\<lambda>r. r_tenantId r = t) (receipts db) + 1)))"
    using receipt_numbers.next_number_free [OF assms(1)] assms(2) by auto
  then show ?thesis
    unfolding createReceipt_def Let_def by (intro retry_first) (simp_all add: insert_receipt_def Let_def)
qed

text \<open>A payment row, its receipt, and the invoice's new amount keep the books balanced.\<close>

lemma books_ok_pay:
  assumes ok: "books_ok db" and n: "nextId db < nextId db'"
    and p: "p_id p = nextId db" "p_status p = P_COMPLETED" "0 \<le> p_amountMinor p" "\<forall>i. p_invoiceId p = Some i \<longrightarrow> i < nextId db"
      "p_idempotencyKey p \<notin> p_idempotencyKey ` set (payments db)"
    and r: "r_paymentId r = nextId db"
      "r_receiptNumber r = numbered ''RCT-'' 7 (count_where (\<lambda>x. r_tenantId x = r_tenantId r) (receipts db) + 1)"
    and db': "payments db' = payments db @ [p]" "receipts db' = receipts db @ [r]"
    and inv: "invoices db' = (case p_invoiceId p of None \<Rightarrow> invoices db
        | Some iid \<Rightarrow> update_where (\<lambda>i. i_id i = iid) f (invoices db))"
      "\<And>i. i_id (f i) = i_id i \<and> i_tenantId (f i) = i_tenantId i \<and> i_invoiceNumber (f i) = i_invoiceNumber i
        \<and> i_totalMinor (f i) = i_totalMinor i"
      "\<And>i. i \<in> set (invoices db) \<Longrightarrow> p_invoiceId p = Some (i_id i) \<Longrightarrow>
        i_amountPaidMinor (f i) = i_amountPaidMinor i + p_amountMinor p \<and> i_amountPaidMinor (f i) \<le> i_totalMinor i"
  shows "books_ok db'"
  unfolding books_ok_def
proof (intro conjI)
  have iok: "invoices_ok db" and dense: "numbers_dense r_tenantId r_receiptNumber (numbered ''RCT-'' 7) (receipts db)"
    and pok: "payments_ok (nextId db) (payments db) (receipts db)" and paid: "paid_ok (invoices db) (payments db)"
    using ok by (simp_all add: books_ok_def)
  show "invoices_ok db'"
  proof (cases "p_invoiceId p")
    case None
    then show ?thesis using inv(1) n by (intro invoices_ok_cong [OF iok]) simp_all
  next
    case (Some iid)
    have "invoices_ok (update_invoice iid f db)" by (rule invoices_ok_update [OF iok]) (simp_all add: inv(2))
    then show ?thesis by (rule invoices_ok_cong) (use inv(1) Some n in simp_all)
  qed
  show "numbers_dense r_tenantId r_receiptNumber (numbered ''RCT-'' 7) (receipts db')"
    unfolding db' using dense r(2) by (rule receipt_numbers.append_numbered)
  show "payments_ok (nextId db') (payments db') (receipts db')"
    unfolding payments_ok_def
  proof (intro conjI ballI allI impI)
    show "distinct (map p_id (payments db'))" "distinct (map p_idempotencyKey (payments db'))"
      using pok p(1,5) by (auto simp: db' payments_ok_def)
    show "distinct (map r_paymentId (receipts db'))"
      using pok r(1) by (auto simp: db' payments_ok_def)
    show "p_id q < nextId db'" "0 \<le> p_amountMinor q" if "q \<in> set (payments db')" for q
      using that pok p(1,3) n by (auto simp: db' payments_ok_def intro: less_trans)
    show "i < nextId db'" if "q \<in> set (payments db')" "p_invoiceId q = Some i" for q i
      using that pok p(4) n by (auto simp: db' payments_ok_def intro: less_trans)
    show "\<exists>x \<in> set (receipts db'). r_paymentId x = p_id q" if "q \<in> set (payments db')" "p_customerId q \<noteq> None" for q
      using that pok p(1) r(1) by (auto simp: db' payments_ok_def)
    show "r_paymentId x < nextId db'" if "x \<in> set (receipts db')" for x
      using that pok r(1) n by (auto simp: db' payments_ok_def intro: less_trans)
  qed
  show "paid_ok (invoices db') (payments db')"
  proof (cases "p_invoiceId p")
    case None
    then have "pays_for i p = 0" for i by (simp add: pays_for_def)
    then show ?thesis using paid inv(1) None by (auto simp: paid_ok_def db' applied_total_append)
  next
    case (Some iid)
    show ?thesis
      unfolding paid_ok_def
    proof (intro ballI)
      fix x
      assume "x \<in> set (invoices db')"
      then consider i where "i \<in> set (invoices db)" "i_id i = iid" "x = f i"
        | "x \<in> set (invoices db)" "i_id x \<noteq> iid"
        using inv(1) Some by (auto simp: set_update_where)
      then show "i_amountPaidMinor x = applied_total (i_id x) (payments db') \<and> i_amountPaidMinor x \<le> i_totalMinor x"
      proof cases
        case 1
        then show ?thesis
          using inv(2,3) [of i] paid Some p(2) by (auto simp: paid_ok_def db' applied_total_append pays_for_def)
      next
        case 2
        then show ?thesis using paid Some by (auto simp: paid_ok_def db' applied_total_append pays_for_def)
      qed
    qed
  qed
qed

section \<open>Recording a payment\<close>

lemma receipt_free:
  assumes "books_ok db"
  shows "\<forall>r \<in> set (receipts db). r_paymentId r \<noteq> nextId db"
  using assms by (auto simp: books_ok_def payments_ok_def)

lemma post_payment_spec:
  assumes ok: "books_ok db" "wallet_ok db" and bill: "bill \<in> set (invoices db)"
    and amt: "0 \<le> applied" "i_amountPaidMinor bill + applied \<le> i_totalMinor bill" "0 \<le> excess"
    and key: "in_idempotencyKey inp \<notin> p_idempotencyKey ` set (payments db)"
  obtains out db' where "post_payment t inp bill applied excess db = Inr (out, db')"
    "books_ok db'" "wallet_ok db'"
    "walletBalance db' = (walletBalance db)(i_customerId bill := walletBalance db (i_customerId bill) + excess)"
    "payments db' = payments db @ [res_payment out]" "receipts db' = receipts db @ [res_receipt out]"
    "p_id (res_payment out) = nextId db" "r_paymentId (res_receipt out) = nextId db"
    "p_amountMinor (res_payment out) = applied" "p_invoiceId (res_payment out) = Some (i_id bill)"
    "p_customerId (res_payment out) = Some (i_customerId bill)" "p_method (res_payment out) = in_method inp"
    "p_status (res_payment out) = P_COMPLETED" "p_idempotencyKey (res_payment out) = in_idempotencyKey inp"
    "p_tenantId (res_payment out) = t"
    "invoices db' = update_where (\<lambda>i. i_id i = i_id bill) (\<lambda>i. i\<lparr>i_amountPaidMinor := i_amountPaidMinor bill + applied,
        i_status := (if i_amountPaidMinor bill + applied \<ge> i_totalMinor bill then I_PAID else I_PARTIALLY_PAID),
        i_paidAt := (if i_amountPaidMinor bill + applied \<ge> i_totalMinor bill then Some (clock db) else i_paidAt bill)\<rparr>) (invoices db)"
    "\<not> res_wasAlreadyProcessed out" "clock db' = clock db"
proof -
  define pay where "pay = \<lparr>p_id = nextId db, p_tenantId = t, p_customerId = Some (i_customerId bill),
            p_invoiceId = Some (i_id bill), p_method = in_method inp, p_status = P_COMPLETED,
            p_amountMinor = applied, p_currency = i_currency bill, p_reference = in_reference inp,
            p_idempotencyKey = in_idempotencyKey inp, p_recordedByUserId = in_recordedByUserId inp,
            p_reversedAt = None, p_reversalReason = None, p_createdAt = clock db\<rparr>"
  define full :: bool where "full \<longleftrightarrow> i_amountPaidMinor bill + applied \<ge> i_totalMinor bill"
  let ?st = "if full then I_PAID else I_PARTIALLY_PAID"
  define upd :: "invoice \<Rightarrow> invoice" where "upd = (\<lambda>i. i\<lparr>i_amountPaidMinor := i_amountPaidMinor bill + applied, i_status := ?st,
      i_paidAt := (if full then Some (clock db) else i_paidAt bill)\<rparr>)"
  let ?db2 = "update_invoice (i_id bill) upd (db\<lparr>payments := payments db @ [pay], nextId := nextId db + 1\<rparr>)"
  define rc where "rc = \<lparr>r_id = nextId db + 1, r_tenantId = t, r_paymentId = nextId db,
      r_receiptNumber = numbered ''RCT-'' 7 (count_where (\<lambda>r. r_tenantId r = t) (receipts db) + 1)\<rparr>"
  define db3 where "db3 = ?db2\<lparr>receipts := receipts db @ [rc], nextId := nextId db + 2\<rparr>"
  define db4 where "db4 = (if full then reactivate_paid_up t (i_customerId bill) (i_id bill) db3 else db3)"
  let ?out = "\<lparr>res_payment = pay, res_receipt = rc, res_invoice = Some (upd bill), res_wasAlreadyProcessed = False\<rparr>"
  have dense: "numbers_dense r_tenantId r_receiptNumber (numbered ''RCT-'' 7) (receipts ?db2)"
    using ok(1) by (simp add: books_ok_def)
  have rcpt: "createReceipt t (p_id pay) ?db2 = Inr (rc, db3)"
    using createReceipt_eq [OF dense, of "p_id pay" t] receipt_free [OF ok(1)]
    by (simp add: pay_def rc_def db3_def Let_def)
  have only: "i = bill" if "i \<in> set (invoices db)" "i_id i = i_id bill" for i
    using ok(1) bill that key_eq_rows [of i_id "invoices db" i bill] by (simp add: books_ok_def invoices_ok_def)
  have mid: "invoices db4 = update_where (\<lambda>i. i_id i = i_id bill) upd (invoices db)" "payments db4 = payments db @ [pay]"
      "receipts db4 = receipts db @ [rc]" "nextId db4 = nextId db + 2" "wallets db4 = wallets db"
      "walletTxns db4 = walletTxns db" "clock db4 = clock db"
    by (simp_all add: db4_def db3_def reactivate_paid_up_frame)
  have books4: "books_ok db4"
  proof (rule books_ok_pay [OF ok(1), of _ pay rc upd])
    show "nextId db < nextId db4" unfolding mid by simp
    show "p_id pay = nextId db" "p_status pay = P_COMPLETED" "0 \<le> p_amountMinor pay"
      "p_idempotencyKey pay \<notin> p_idempotencyKey ` set (payments db)"
      using amt key by (simp_all add: pay_def)
    show "\<forall>i. p_invoiceId pay = Some i \<longrightarrow> i < nextId db"
      using ok(1) bill by (simp add: pay_def books_ok_def invoices_ok_def)
    show "r_paymentId rc = nextId db" by (simp add: rc_def)
    show "r_receiptNumber rc = numbered ''RCT-'' 7 (count_where (\<lambda>x. r_tenantId x = r_tenantId rc) (receipts db) + 1)"
      by (simp add: rc_def)
    show "i_amountPaidMinor (upd i) = i_amountPaidMinor i + p_amountMinor pay \<and> i_amountPaidMinor (upd i) \<le> i_totalMinor i"
      if "i \<in> set (invoices db)" "p_invoiceId pay = Some (i_id i)" for i
      using only [of i] that amt by (simp add: pay_def upd_def)
  qed (simp_all add: mid pay_def upd_def)
  have wal4: "wallet_ok db4" by (rule wallet_ok_cong [OF ok(2)]) (simp_all add: mid)
  have bal4: "walletBalance db4 = walletBalance db" by (rule walletBalance_cong) (simp only: mid)
  have run: "post_payment t inp bill applied excess db =
      (if excess > 0
       then (case creditWallet (i_customerId bill) excess
                (''Overpayment credit '' @ em_dash @ '' invoice '' @ i_invoiceNumber bill @ '' was already fully paid'')
                (payment_ref (p_id pay)) db4 of
               Inl e \<Rightarrow> Inl e | Inr (_, db5) \<Rightarrow> Inr (?out, db5))
       else Inr (?out, db4))"
    using rcpt unfolding post_payment_def Let_def pay_def [symmetric] full_def [symmetric]
    by (cases full) (simp_all add: upd_def db4_def split: sum.split)
  have outs: "p_id (res_payment ?out) = nextId db" "r_paymentId (res_receipt ?out) = nextId db"
    "p_amountMinor (res_payment ?out) = applied" "p_invoiceId (res_payment ?out) = Some (i_id bill)"
    "p_customerId (res_payment ?out) = Some (i_customerId bill)" "p_method (res_payment ?out) = in_method inp"
    "p_status (res_payment ?out) = P_COMPLETED" "p_idempotencyKey (res_payment ?out) = in_idempotencyKey inp"
    "p_tenantId (res_payment ?out) = t" "\<not> res_wasAlreadyProcessed ?out"
    by (simp_all add: pay_def rc_def)
  show ?thesis
  proof (cases "excess > 0")
    case False
    then have "excess = 0" using amt(3) by simp
    with run False that [of ?out db4] books4 wal4 bal4 mid outs show ?thesis by (simp add: full_def upd_def)
  next
    case True
    obtain w db5 where c: "creditWallet (i_customerId bill) excess
        (''Overpayment credit '' @ em_dash @ '' invoice '' @ i_invoiceNumber bill @ '' was already fully paid'')
        (payment_ref (p_id pay)) db4 = Inr (w, db5)"
      using creditWallet_ok [OF wal4 True] by blast
    have fr: "invoices db5 = invoices db4" "payments db5 = payments db4" "receipts db5 = receipts db4"
        "nextId db4 \<le> nextId db5" "clock db5 = clock db4"
      using creditWallet_frame [OF c] by blast+
    have books5: "books_ok db5" by (rule books_ok_cong [OF books4 fr(1-4)])
    show ?thesis
      by (rule that [of ?out db5])
        (use run True c books5 credit_result [OF wal4 c] bal4 fr mid outs in \<open>simp_all add: full_def upd_def\<close>)
  qed
qed

lemma key_free: "List.find (\<lambda>p. p_idempotencyKey p = k) ps = None \<Longrightarrow> k \<notin> p_idempotencyKey ` set ps"
  by (auto simp: find_None_iff)

lemma find_invoice_inD:
  "find_invoice_in t i db = Some bill \<Longrightarrow> bill \<in> set (invoices db) \<and> i_id bill = i \<and> i_tenantId bill = t"
  by (auto simp: find_invoice_in_def dest: find_SomeD)

lemma books_paid: "books_ok db \<Longrightarrow> i \<in> set (invoices db) \<Longrightarrow> i_amountPaidMinor i \<le> i_totalMinor i"
  unfolding books_ok_def paid_ok_def by blast

lemma record_new_payment:
  assumes ok: "books_ok db" "wallet_ok db"
    and run: "recordPaymentForInvoiceCore t inp db = Inr (out, db')" and new: "\<not> res_wasAlreadyProcessed out"
  obtains bill applied excess db1 where
    "find_invoice_in t (in_invoiceId inp) db = Some bill" "i_status bill \<notin> {I_VOID, I_CANCELLED, I_PAID}"
    "0 < in_amountMinor inp" "applied = min (in_amountMinor inp) (i_totalMinor bill - i_amountPaidMinor bill)"
    "excess = in_amountMinor inp - applied" "excess > 0 \<longrightarrow> in_allowOverpayment inp" "0 \<le> applied" "0 \<le> excess"
    "in_idempotencyKey inp \<notin> p_idempotencyKey ` set (payments db)"
    "post_payment t inp bill applied excess db1 = Inr (out, db')"
    "books_ok db1" "wallet_ok db1" "invoices db1 = invoices db" "payments db1 = payments db" "receipts db1 = receipts db"
    "nextId db \<le> nextId db1" "clock db1 = clock db"
    "walletBalance db1 = (walletBalance db)(i_customerId bill := walletBalance db (i_customerId bill)
        - (if in_method inp = WALLET then applied else 0))"
    "in_method inp = WALLET \<longrightarrow> applied \<le> walletBalance db (i_customerId bill)"
proof -
  have pos: "0 < in_amountMinor inp" and key: "List.find (\<lambda>p. p_idempotencyKey p = in_idempotencyKey inp) (payments db) = None"
    using run new by (auto simp: recordPaymentForInvoiceCore_def split: if_splits option.splits)
  obtain bill where bill: "find_invoice_in t (in_invoiceId inp) db = Some bill"
    using run pos key by (auto simp: recordPaymentForInvoiceCore_def split: option.splits)
  have st: "i_status bill \<notin> {I_VOID, I_CANCELLED, I_PAID}"
    using run pos key bill by (auto simp: recordPaymentForInvoiceCore_def split: if_splits)
  define rest where "rest = i_totalMinor bill - i_amountPaidMinor bill"
  define applied where "applied = min (in_amountMinor inp) rest"
  define excess where "excess = in_amountMinor inp - applied"
  have "(excess > 0 \<longrightarrow> in_allowOverpayment inp) \<and> (if in_method inp = WALLET
        then (case debitWallet (i_customerId bill) applied (''Payment for invoice '' @ i_invoiceNumber bill)
                  (invoice_ref (i_id bill)) db of Inl e \<Rightarrow> Inl e | Inr (_, db1) \<Rightarrow> post_payment t inp bill applied excess db1)
        else post_payment t inp bill applied excess db) = Inr (out, db')"
  proof (cases "in_amountMinor inp > rest")
    case True
    then have ap: "applied = i_totalMinor bill - i_amountPaidMinor bill"
      and ex: "excess = in_amountMinor inp - (i_totalMinor bill - i_amountPaidMinor bill)"
      by (simp_all add: applied_def excess_def rest_def)
    show ?thesis
      unfolding ap ex using run pos key bill st True
      by (auto simp: recordPaymentForInvoiceCore_def Let_def rest_def split: if_splits)
  next
    case False
    then have ap: "applied = in_amountMinor inp" and ex: "excess = 0"
      by (simp_all add: applied_def excess_def)
    show ?thesis
      unfolding ap ex using run pos key bill st False
      by (auto simp: recordPaymentForInvoiceCore_def Let_def rest_def split: if_splits)
  qed
  then have over: "excess > 0 \<longrightarrow> in_allowOverpayment inp" and body: "(if in_method inp = WALLET
        then (case debitWallet (i_customerId bill) applied (''Payment for invoice '' @ i_invoiceNumber bill)
                  (invoice_ref (i_id bill)) db of Inl e \<Rightarrow> Inl e | Inr (_, db1) \<Rightarrow> post_payment t inp bill applied excess db1)
        else post_payment t inp bill applied excess db) = Inr (out, db')"
    by blast+
  have signs: "0 \<le> applied" "0 \<le> excess"
    using pos books_paid [OF ok(1)] find_invoice_inD [OF bill] by (auto simp: rest_def applied_def excess_def)
  show ?thesis
  proof (cases "in_method inp = WALLET")
    case True
    then obtain w db1 where d: "debitWallet (i_customerId bill) applied (''Payment for invoice '' @ i_invoiceNumber bill)
        (invoice_ref (i_id bill)) db = Inr (w, db1)" and pp: "post_payment t inp bill applied excess db1 = Inr (out, db')"
      using body by (auto split: sum.splits)
    note fr = debitWallet_frame [OF d] and bal = debit_result [OF ok(2) d]
    have "books_ok db1" by (rule books_ok_cong [OF ok(1)]) (simp_all add: fr)
    with that [OF bill st pos applied_def [unfolded rest_def] excess_def over signs key_free [OF key] pp] fr bal True
    show ?thesis by simp
  next
    case False
    with that [OF bill st pos applied_def [unfolded rest_def] excess_def over signs key_free [OF key], of db] body ok
    show ?thesis by simp
  qed
qed

lemma find_by_key:
  "payments_ok n ps rs \<Longrightarrow> p \<in> set ps \<Longrightarrow> List.find (\<lambda>x. p_idempotencyKey x = p_idempotencyKey p) ps = Some p"
  by (rule find_key_unique) (simp_all add: payments_ok_def)

lemma find_receipt:
  "payments_ok n ps rs \<Longrightarrow> r \<in> set rs \<Longrightarrow> List.find (\<lambda>x. r_paymentId x = r_paymentId r) rs = Some r"
  by (rule find_key_unique) (simp_all add: payments_ok_def)

lemma record_succeeds:
  assumes ok: "books_ok db" "wallet_ok db" and pos: "0 < in_amountMinor inp"
    and key: "in_idempotencyKey inp \<notin> p_idempotencyKey ` set (payments db)"
    and bill: "find_invoice_in t (in_invoiceId inp) db = Some bill" "i_status bill \<notin> {I_VOID, I_CANCELLED, I_PAID}"
    and fits: "in_amountMinor inp \<le> i_totalMinor bill - i_amountPaidMinor bill \<or> in_allowOverpayment inp"
    and meth: "in_method inp \<noteq> WALLET"
  shows "\<exists>out db'. recordPaymentForInvoiceCore t inp db = Inr (out, db') \<and> \<not> res_wasAlreadyProcessed out"
proof -
  let ?rest = "i_totalMinor bill - i_amountPaidMinor bill"
  let ?over = "in_amountMinor inp > ?rest"
  have k: "List.find (\<lambda>p. p_idempotencyKey p = in_idempotencyKey inp) (payments db) = None"
    using key unfolding find_None_iff by (metis imageI)
  have mem: "bill \<in> set (invoices db)" using find_invoice_inD [OF bill(1)] by simp
  have signs: "0 \<le> (if ?over then ?rest else in_amountMinor inp)" "0 \<le> (if ?over then in_amountMinor inp - ?rest else 0)"
    "i_amountPaidMinor bill + (if ?over then ?rest else in_amountMinor inp) \<le> i_totalMinor bill"
    using books_paid [OF ok(1) mem] pos by auto
  obtain out db' where "post_payment t inp bill (if ?over then ?rest else in_amountMinor inp)
      (if ?over then in_amountMinor inp - ?rest else 0) db = Inr (out, db')" "\<not> res_wasAlreadyProcessed out"
    by (rule post_payment_spec [OF ok mem signs(1,3,2) key]) (rule that)
  then show ?thesis
    using pos k bill fits meth by (auto simp: recordPaymentForInvoiceCore_def Let_def not_less)
qed

text \<open>A gateway payment of 3,000.00 against the sample invoice of 2,500.00.\<close>

definition sample_payment_input :: payment_input where
  "sample_payment_input = \<lparr>in_invoiceId = 70, in_method = MPESA, in_amountMinor = 300000, in_reference = Some ''QGR1'',
     in_recordedByUserId = None, in_idempotencyKey = ''mpesa:QGR1'', in_allowOverpayment = True\<rparr>"

lemma sample_books_ok: "books_ok sample_db" "wallet_ok sample_db"
proof -
  show "wallet_ok sample_db" by (simp add: wallet_ok_def sample_db_def empty_db_def)
  show "books_ok sample_db"
    using sample_db_ok(1) by (simp add: books_ok_def sample_db_def empty_db_def payments_ok_def paid_ok_def
        applied_total_def numbers_dense_def count_where_def sample_invoice_def)
qed

lemma sample_simps:
  "walletBalance sample_db = (\<lambda>_. 0)" "i_totalMinor sample_invoice = 250000" "i_amountPaidMinor sample_invoice = 0"
  "i_customerId sample_invoice = 3" "in_amountMinor sample_payment_input = 300000" "in_method sample_payment_input = MPESA"
  "find_invoice_in 7 (in_invoiceId sample_payment_input) sample_db = Some sample_invoice"
  "in_idempotencyKey sample_payment_input = ''mpesa:QGR1''" "in_allowOverpayment sample_payment_input"
  "payments sample_db = []"
  by (simp_all add: walletBalance_def sample_db_def empty_db_def sample_invoice_def sample_payment_input_def
      find_invoice_in_def fun_eq_iff)

lemma sample_payment_runs:
  "\<exists>out db'. recordPaymentForInvoiceCore 7 sample_payment_input sample_db = Inr (out, db') \<and> \<not> res_wasAlreadyProcessed out"
  by (rule record_succeeds [OF sample_books_ok, where bill = sample_invoice])
    (simp_all add: sample_simps, simp add: sample_invoice_def)

lemma record_spec:
  assumes "books_ok db" and "wallet_ok db"
    and "recordPaymentForInvoiceCore t inp db = Inr (out, db')" and "\<not> res_wasAlreadyProcessed out"
  shows "books_ok db' \<and> wallet_ok db' \<and> (\<exists>bill. find_invoice_in t (in_invoiceId inp) db = Some bill \<and>
    (let applied = p_amountMinor (res_payment out); excess = in_amountMinor inp - applied;
         owing = i_totalMinor bill - i_amountPaidMinor bill
     in applied = min (in_amountMinor inp) owing \<and> 0 \<le> excess \<and> (0 < excess \<longrightarrow> in_allowOverpayment inp)
        \<and> payments db' = payments db @ [res_payment out] \<and> receipts db' = receipts db @ [res_receipt out]
        \<and> r_paymentId (res_receipt out) = p_id (res_payment out) \<and> p_status (res_payment out) = P_COMPLETED
        \<and> p_invoiceId (res_payment out) = Some (i_id bill) \<and> p_customerId (res_payment out) = Some (i_customerId bill)
        \<and> p_method (res_payment out) = in_method inp \<and> p_tenantId (res_payment out) = t
        \<and> walletBalance db' = (walletBalance db)(i_customerId bill := walletBalance db (i_customerId bill)
              + excess - (if in_method inp = WALLET then applied else 0))
        \<and> (\<exists>paid. invoices db' = update_where (\<lambda>i. i_id i = i_id bill)
              (\<lambda>i. i\<lparr>i_amountPaidMinor := i_amountPaidMinor bill + applied,
                     i_status := (if applied = owing then I_PAID else I_PARTIALLY_PAID), i_paidAt := paid\<rparr>) (invoices db))))"
proof -
  obtain bill applied excess db1 where r:
    "find_invoice_in t (in_invoiceId inp) db = Some bill" "i_status bill \<notin> {I_VOID, I_CANCELLED, I_PAID}"
    "0 < in_amountMinor inp" "applied = min (in_amountMinor inp) (i_totalMinor bill - i_amountPaidMinor bill)"
    "excess = in_amountMinor inp - applied" "excess > 0 \<longrightarrow> in_allowOverpayment inp" "0 \<le> applied" "0 \<le> excess"
    "in_idempotencyKey inp \<notin> p_idempotencyKey ` set (payments db)"
    "post_payment t inp bill applied excess db1 = Inr (out, db')"
    "books_ok db1" "wallet_ok db1" "invoices db1 = invoices db" "payments db1 = payments db" "receipts db1 = receipts db"
    "nextId db \<le> nextId db1" "clock db1 = clock db"
    "walletBalance db1 = (walletBalance db)(i_customerId bill := walletBalance db (i_customerId bill)
        - (if in_method inp = WALLET then applied else 0))"
    "in_method inp = WALLET \<longrightarrow> applied \<le> walletBalance db (i_customerId bill)"
    by (rule record_new_payment [OF assms]) (rule that)
  have mem: "bill \<in> set (invoices db1)" and key: "in_idempotencyKey inp \<notin> p_idempotencyKey ` set (payments db1)"
    and le: "i_amountPaidMinor bill + applied \<le> i_totalMinor bill"
    using find_invoice_inD [OF r(1)] r by simp_all
  have full: "i_amountPaidMinor bill + applied \<ge> i_totalMinor bill \<longleftrightarrow> applied = i_totalMinor bill - i_amountPaidMinor bill"
    using le by linarith
  obtain out2 db2 where s: "post_payment t inp bill applied excess db1 = Inr (out2, db2)"
    "books_ok db2" "wallet_ok db2"
    "walletBalance db2 = (walletBalance db1)(i_customerId bill := walletBalance db1 (i_customerId bill) + excess)"
    "payments db2 = payments db1 @ [res_payment out2]" "receipts db2 = receipts db1 @ [res_receipt out2]"
    "p_id (res_payment out2) = nextId db1" "r_paymentId (res_receipt out2) = nextId db1"
    "p_amountMinor (res_payment out2) = applied" "p_invoiceId (res_payment out2) = Some (i_id bill)"
    "p_customerId (res_payment out2) = Some (i_customerId bill)" "p_method (res_payment out2) = in_method inp"
    "p_status (res_payment out2) = P_COMPLETED" "p_tenantId (res_payment out2) = t"
    "invoices db2 = update_where (\<lambda>i. i_id i = i_id bill) (\<lambda>i. i\<lparr>i_amountPaidMinor := i_amountPaidMinor bill + applied,
        i_status := (if i_amountPaidMinor bill + applied \<ge> i_totalMinor bill then I_PAID else I_PARTIALLY_PAID),
        i_paidAt := (if i_amountPaidMinor bill + applied \<ge> i_totalMinor bill then Some (clock db1) else i_paidAt bill)\<rparr>) (invoices db1)"
    by (rule post_payment_spec [OF r(11,12) mem r(7) le r(8) key]) (rule that)
  have [simp]: "out2 = out" "db2 = db'" using s(1) r(10) by simp_all
  have inv: "\<exists>paid. invoices db' = update_where (\<lambda>i. i_id i = i_id bill)
      (\<lambda>i. i\<lparr>i_amountPaidMinor := i_amountPaidMinor bill + applied,
             i_status := (if applied = i_totalMinor bill - i_amountPaidMinor bill then I_PAID else I_PARTIALLY_PAID), i_paidAt := paid\<rparr>) (invoices db)"
    using s(15) r(13) unfolding full by auto
  show ?thesis
    using r(1,4,5,6,8,14,15,18) s(2-14) inv by (auto simp: Let_def)
qed

text \<open>
  C22. Recording a payment keeps the books balanced and conserves the money. A recorded payment
  applies the smaller of what was paid and what was owing; anything over is accepted only from
  a caller that allows it and lands in the customer's wallet; a wallet payment takes exactly the
  applied amount out of the wallet; the invoice shows the applied amount more, is PAID exactly
  when that covers its total, and no other invoice changes.
\<close>

theorem recordPayment_conserves_money:
  assumes "books_ok db" and "wallet_ok db"
    and "recordPaymentForInvoiceCore t inp db = Inr (out, db')" and "\<not> res_wasAlreadyProcessed out"
  shows "books_ok db' \<and> wallet_ok db' \<and> (\<exists>bill. find_invoice_in t (in_invoiceId inp) db = Some bill \<and>
    (let applied = p_amountMinor (res_payment out); excess = in_amountMinor inp - applied;
         owing = i_totalMinor bill - i_amountPaidMinor bill
     in applied = min (in_amountMinor inp) owing \<and> 0 \<le> excess \<and> (0 < excess \<longrightarrow> in_allowOverpayment inp)
        \<and> payments db' = payments db @ [res_payment out] \<and> receipts db' = receipts db @ [res_receipt out]
        \<and> r_paymentId (res_receipt out) = p_id (res_payment out) \<and> p_status (res_payment out) = P_COMPLETED
        \<and> p_invoiceId (res_payment out) = Some (i_id bill) \<and> p_customerId (res_payment out) = Some (i_customerId bill)
        \<and> p_method (res_payment out) = in_method inp \<and> p_tenantId (res_payment out) = t
        \<and> walletBalance db' = (walletBalance db)(i_customerId bill := walletBalance db (i_customerId bill)
              + excess - (if in_method inp = WALLET then applied else 0))
        \<and> (\<exists>paid. invoices db' = update_where (\<lambda>i. i_id i = i_id bill)
              (\<lambda>i. i\<lparr>i_amountPaidMinor := i_amountPaidMinor bill + applied,
                     i_status := (if applied = owing then I_PAID else I_PARTIALLY_PAID), i_paidAt := paid\<rparr>) (invoices db))))"
  by (rule record_spec [OF assms])

theorem recordPayment_conserves_money_witness:
  "\<exists>out db'. recordPaymentForInvoiceCore 7 sample_payment_input sample_db = Inr (out, db')
     \<and> p_amountMinor (res_payment out) = 250000 \<and> walletBalance db' 3 = 50000"
proof -
  obtain out db' where r: "recordPaymentForInvoiceCore 7 sample_payment_input sample_db = Inr (out, db')"
      "\<not> res_wasAlreadyProcessed out"
    using sample_payment_runs by blast
  show ?thesis
    using recordPayment_conserves_money [OF sample_books_ok r] r(1) by (auto simp: Let_def sample_simps)
qed

text \<open>
  Recording is idempotent on the key: once a payment is recorded, any further call with the
  same key and a positive amount, whatever its other arguments, changes nothing and returns the
  recorded payment with its receipt.
\<close>

theorem recordPayment_idempotent:
  assumes "books_ok db" and "wallet_ok db" and "recordPaymentForInvoiceCore t inp db = Inr (out, db')"
    and "in_idempotencyKey inp2 = in_idempotencyKey inp" and "0 < in_amountMinor inp2"
  shows "\<exists>out2. recordPaymentForInvoiceCore t2 inp2 db' = Inr (out2, db') \<and> res_wasAlreadyProcessed out2
    \<and> res_payment out2 = res_payment out \<and> res_receipt out2 = res_receipt out"
proof -
  have "books_ok db' \<and> res_payment out \<in> set (payments db') \<and> p_idempotencyKey (res_payment out) = in_idempotencyKey inp
    \<and> res_receipt out \<in> set (receipts db') \<and> r_paymentId (res_receipt out) = p_id (res_payment out)"
  proof (cases "res_wasAlreadyProcessed out")
    case False
    obtain bill applied excess db1 where r:
      "find_invoice_in t (in_invoiceId inp) db = Some bill" "i_status bill \<notin> {I_VOID, I_CANCELLED, I_PAID}"
      "0 < in_amountMinor inp" "applied = min (in_amountMinor inp) (i_totalMinor bill - i_amountPaidMinor bill)"
      "excess = in_amountMinor inp - applied" "excess > 0 \<longrightarrow> in_allowOverpayment inp" "0 \<le> applied" "0 \<le> excess"
      "in_idempotencyKey inp \<notin> p_idempotencyKey ` set (payments db)"
      "post_payment t inp bill applied excess db1 = Inr (out, db')"
      "books_ok db1" "wallet_ok db1" "invoices db1 = invoices db" "payments db1 = payments db" "receipts db1 = receipts db"
      by (rule record_new_payment [OF assms(1-3) False]) (rule that)
    have mem: "bill \<in> set (invoices db1)" and key: "in_idempotencyKey inp \<notin> p_idempotencyKey ` set (payments db1)"
      and le: "i_amountPaidMinor bill + applied \<le> i_totalMinor bill"
      using find_invoice_inD [OF r(1)] r by simp_all
    obtain out2 db2 where s: "post_payment t inp bill applied excess db1 = Inr (out2, db2)" "books_ok db2"
      "payments db2 = payments db1 @ [res_payment out2]" "receipts db2 = receipts db1 @ [res_receipt out2]"
      "p_id (res_payment out2) = nextId db1" "r_paymentId (res_receipt out2) = nextId db1"
      "p_idempotencyKey (res_payment out2) = in_idempotencyKey inp"
      by (rule post_payment_spec [OF r(11,12) mem r(7) le r(8) key]) (rule that)
    with r(10) show ?thesis by simp
  next
    case True
    have pp: "res_wasAlreadyProcessed o1 = False" if "post_payment t inp b a e d = Inr (o1, d')" for b a e d o1 d'
      using that by (auto simp: post_payment_def Let_def split: sum.splits if_splits)
    have "\<exists>p. List.find (\<lambda>p. p_idempotencyKey p = in_idempotencyKey inp) (payments db) = Some p"
      using assms(3) True pp by (fastforce simp: recordPaymentForInvoiceCore_def Let_def split: if_splits option.splits sum.splits)
    then show ?thesis
      using assms(1,3) by (auto simp: recordPaymentForInvoiceCore_def split: if_splits option.splits dest!: find_SomeD)
  qed
  then have b: "books_ok db'" and p: "res_payment out \<in> set (payments db')" "p_idempotencyKey (res_payment out) = in_idempotencyKey inp"
    and r: "res_receipt out \<in> set (receipts db')" "r_paymentId (res_receipt out) = p_id (res_payment out)" by auto
  have pok: "payments_ok (nextId db') (payments db') (receipts db')" using b by (simp add: books_ok_def)
  show ?thesis
    using find_by_key [OF pok p(1)] find_receipt [OF pok r(1)] assms(4,5) p(2) r(2)
    by (simp add: recordPaymentForInvoiceCore_def)
qed

theorem recordPayment_idempotent_witness:
  "\<exists>out db' out2. recordPaymentForInvoiceCore 7 sample_payment_input sample_db = Inr (out, db')
     \<and> recordPaymentForInvoiceCore 8 (sample_payment_input\<lparr>in_amountMinor := 1\<rparr>) db' = Inr (out2, db')
     \<and> res_payment out2 = res_payment out"
proof -
  obtain out db' where r: "recordPaymentForInvoiceCore 7 sample_payment_input sample_db = Inr (out, db')"
    using sample_payment_runs by blast
  from recordPayment_idempotent [OF sample_books_ok r, of "sample_payment_input\<lparr>in_amountMinor := 1\<rparr>" 8] r
  show ?thesis by fastforce
qed

end
