(* ===== verification/Reversals.thy ===== *)
theory Reversals
  imports Payments
begin

text \<open>
  What a reversal (\<open>refundPaymentCore\<close>) and a wallet top-up do to the books, and how a
  reversal relates to the payment it reverses.
\<close>

section \<open>Top-ups\<close>

lemma topUp_new:
  assumes ok: "books_ok db" "wallet_ok db"
    and run: "topUpWalletCore t inp db = Inr (out, db')" and new: "\<not> res_wasAlreadyProcessed out"
  shows "books_ok db' \<and> wallet_ok db' \<and> invoices db' = invoices db
    \<and> payments db' = payments db @ [res_payment out] \<and> p_amountMinor (res_payment out) = tu_amountMinor inp
    \<and> walletBalance db' = (walletBalance db)(tu_customerId inp := walletBalance db (tu_customerId inp) + tu_amountMinor inp)"
proof -
  have pos: "0 < tu_amountMinor inp" and key: "List.find (\<lambda>p. p_idempotencyKey p = tu_idempotencyKey inp) (payments db) = None"
    using run new by (auto simp: topUpWalletCore_def split: if_splits option.splits)
  obtain cust where cust: "List.find (\<lambda>c. c_id c = tu_customerId inp \<and> c_tenantId c = t \<and> c_deletedAt c = None) (customers db) = Some cust"
    using run pos key by (auto simp: topUpWalletCore_def split: option.splits)
  then have cid: "c_id cust = tu_customerId inp" by (auto dest: find_SomeD)
  define pay where "pay = \<lparr>p_id = nextId db, p_tenantId = t, p_customerId = Some (c_id cust),
      p_invoiceId = None, p_method = tu_method inp, p_status = P_COMPLETED, p_amountMinor = tu_amountMinor inp,
      p_currency = (case tu_currency inp of Some c \<Rightarrow> c | None \<Rightarrow> ''KES''),
      p_reference = tu_reference inp, p_idempotencyKey = tu_idempotencyKey inp,
      p_recordedByUserId = tu_recordedByUserId inp, p_reversedAt = None,
      p_reversalReason = None, p_createdAt = clock db\<rparr>"
  define db1 where "db1 = db\<lparr>payments := payments db @ [pay], nextId := nextId db + 1\<rparr>"
  have wal1: "wallet_ok db1" by (rule wallet_ok_cong [OF ok(2)]) (simp_all add: db1_def)
  have bal1: "walletBalance db1 = walletBalance db" by (rule walletBalance_cong) (simp add: db1_def)
  obtain w db2 where c: "creditWallet (c_id cust) (tu_amountMinor inp) ''Wallet top-up'' (payment_ref (p_id pay)) db1 = Inr (w, db2)"
    using creditWallet_ok [OF wal1 pos] by blast
  note fr = creditWallet_frame [OF c] and bal = credit_result [OF wal1 c]
  define rc where "rc = \<lparr>r_id = nextId db2, r_tenantId = t, r_paymentId = nextId db,
      r_receiptNumber = numbered ''RCT-'' 7 (count_where (\<lambda>r. r_tenantId r = t) (receipts db) + 1)\<rparr>"
  have rcpt: "createReceipt t (p_id pay) db2 = Inr (rc, db2\<lparr>receipts := receipts db2 @ [rc], nextId := nextId db2 + 1\<rparr>)"
    using createReceipt_eq [of db2 "p_id pay" t] receipt_free [OF ok(1)] ok(1) fr
    by (simp add: pay_def rc_def db1_def Let_def books_ok_def)
  have res: "out = \<lparr>res_payment = pay, res_receipt = rc, res_invoice = None, res_wasAlreadyProcessed = False\<rparr>"
      "db' = db2\<lparr>receipts := receipts db2 @ [rc], nextId := nextId db2 + 1\<rparr>"
    using run pos key cust c [unfolded db1_def pay_def] rcpt [unfolded pay_def]
    by (simp_all add: topUpWalletCore_def Let_def pay_def)
  have "books_ok db'"
  proof (rule books_ok_pay [OF ok(1), of _ pay rc id])
    show "nextId db < nextId db'" using fr by (simp add: res db1_def)
    show "p_idempotencyKey pay \<notin> p_idempotencyKey ` set (payments db)"
      using key_free [OF key] by (simp add: pay_def)
  qed (use pos fr in \<open>simp_all add: pay_def rc_def res db1_def\<close>)
  moreover have "wallet_ok db'" by (rule wallet_ok_cong [OF conjunct1 [OF bal]]) (simp_all add: res)
  moreover have "walletBalance db' = walletBalance db2" by (rule walletBalance_cong) (simp add: res)
  ultimately show ?thesis using bal bal1 fr by (simp add: res db1_def pay_def cid)
qed

section \<open>Reversals\<close>

abbreviation reversed_row :: "time \<Rightarrow> string \<Rightarrow> payment \<Rightarrow> payment" where
  "reversed_row now reason p \<equiv> p\<lparr>p_status := P_REVERSED, p_reversedAt := Some now, p_reversalReason := Some reason\<rparr>"

lemma applied_total_reverse:
  assumes "payments_ok n ps rs" and "p \<in> set ps"
  shows "applied_total i (update_where (\<lambda>x. p_id x = p_id p) (reversed_row now why) ps) = applied_total i ps - pays_for i p"
proof -
  have "distinct (map p_id ps)" using assms(1) by (simp add: payments_ok_def)
  from sum_list_update_where [OF this assms(2), of "pays_for i" "reversed_row now why"]
  show ?thesis by (simp add: applied_total_def pays_for_def [of i "reversed_row now why p"])
qed

lemma payments_ok_reverse:
  assumes "payments_ok n ps rs"
  shows "payments_ok n (update_where q (reversed_row now why) ps) rs"
proof -
  have "map p_id (update_where q (reversed_row now why) ps) = map p_id ps"
    "map p_idempotencyKey (update_where q (reversed_row now why) ps) = map p_idempotencyKey ps"
    by (rule map_update_where, simp)+
  then show ?thesis using assms unfolding payments_ok_def by (auto simp: set_update_where)
qed

lemma reverse_wallet_spec:
  assumes "wallet_ok db" and "reverse_wallet p db = Inr db1"
  shows "wallet_ok db1 \<and> walletBalance db1 = (case p_customerId p of None \<Rightarrow> walletBalance db
      | Some c \<Rightarrow> (walletBalance db)(c := walletBalance db c
          + (if p_method p = WALLET then p_amountMinor p else if p_invoiceId p = None then - p_amountMinor p else 0)))
    \<and> invoices db1 = invoices db \<and> payments db1 = payments db \<and> receipts db1 = receipts db
    \<and> nextId db \<le> nextId db1 \<and> clock db1 = clock db"
  using assms credit_result [OF assms(1)] debit_result [OF assms(1)]
  by (auto simp: reverse_wallet_def creditWallet_frame debitWallet_frame split: option.splits if_splits sum.splits)

lemma refund_spec:
  assumes "books_ok db" and "wallet_ok db" and "refundPaymentCore t pid reason db = Inr (q, db')"
  shows "\<exists>p. p \<in> set (payments db) \<and> p_id p = pid \<and> p_tenantId p = t \<and> p_status p = P_COMPLETED
     \<and> payments db' = update_where (\<lambda>x. p_id x = pid) (reversed_row (clock db) reason) (payments db)
     \<and> map i_amountPaidMinor (invoices db') = map (\<lambda>i. i_amountPaidMinor i - pays_for (i_id i) p) (invoices db)
     \<and> walletBalance db' = (case p_customerId p of None \<Rightarrow> walletBalance db
         | Some c \<Rightarrow> (walletBalance db)(c := walletBalance db c
             + (if p_method p = WALLET then p_amountMinor p else if p_invoiceId p = None then - p_amountMinor p else 0)))
     \<and> books_ok db' \<and> wallet_ok db'
     \<and> refundPaymentCore t pid reason2 db' = Inl (ConflictError ''Payment has already been reversed'')"
proof -
  obtain p where f: "List.find (\<lambda>p. p_id p = pid \<and> p_tenantId p = t) (payments db) = Some p"
    using assms(3) by (auto simp: refundPaymentCore_def split: option.splits)
  then have p: "p \<in> set (payments db)" "p_id p = pid" "p_tenantId p = t" by (auto dest: find_SomeD)
  have st: "p_status p = P_COMPLETED"
    using assms(3) f by (auto simp: refundPaymentCore_def split: if_splits)
  obtain db1 where w: "reverse_wallet p db = Inr db1"
    using assms(3) f st by (auto simp: refundPaymentCore_def split: sum.splits)
  obtain db2 where i: "reverse_invoice p db1 = Inr db2" and db': "db' = update_payment pid (reversed_row (clock db2) reason) db2"
    using assms(3) f st w by (auto simp: refundPaymentCore_def Let_def split: sum.splits)
  note ws = reverse_wallet_spec [OF assms(2) w]
  have iok: "invoices_ok db" and dense: "numbers_dense r_tenantId r_receiptNumber (numbered ''RCT-'' 7) (receipts db)"
    and pok: "payments_ok (nextId db) (payments db) (receipts db)" and paid: "paid_ok (invoices db) (payments db)"
    using assms(1) by (simp_all add: books_ok_def)
  let ?ps = "update_where (\<lambda>x. p_id x = p_id p) (reversed_row (clock db) reason) (payments db)"
  have tot: "applied_total k ?ps = applied_total k (payments db) - pays_for k p" for k
    by (rule applied_total_reverse [OF pok p(1)])
  have nonneg: "0 \<le> applied_total k (payments db) - pays_for k p" for k
    using applied_total_nonneg [OF payments_ok_reverse [OF pok]] tot by metis
  have pn: "0 \<le> pays_for k p" for k using pok p(1) by (auto simp: pays_for_def payments_ok_def)
  have eff: "clock db2 = clock db \<and> nextId db \<le> nextId db2 \<and> payments db2 = payments db \<and> receipts db2 = receipts db
      \<and> wallets db2 = wallets db1 \<and> walletTxns db2 = walletTxns db1 \<and> nextId db2 = nextId db1
      \<and> map i_amountPaidMinor (invoices db2) = map (\<lambda>i. i_amountPaidMinor i - pays_for (i_id i) p) (invoices db)
      \<and> map i_id (invoices db2) = map i_id (invoices db) \<and> map i_totalMinor (invoices db2) = map i_totalMinor (invoices db)
      \<and> invoices_ok db2"
  proof (cases "p_invoiceId p")
    case None
    then have "pays_for k p = 0" for k by (simp add: pays_for_def)
    moreover have "invoices_ok db2" using i None ws by (intro invoices_ok_cong [OF iok]) (simp_all add: reverse_invoice_def)
    ultimately show ?thesis using i None ws by (simp add: reverse_invoice_def)
  next
    case (Some iid)
    then obtain bill where b: "find_invoice iid db1 = Some bill"
      using i by (auto simp: reverse_invoice_def split: option.splits)
    then have bm: "bill \<in> set (invoices db)" "i_id bill = iid" using ws by (auto dest: find_invoiceD)
    have amt: "pays_for k p = (if k = iid then p_amountMinor p else 0)" for k
      using Some st by (simp add: pays_for_def)
    have "i_amountPaidMinor bill = applied_total iid (payments db)" using paid bm by (simp add: paid_ok_def)
    then have ge: "max 0 (i_amountPaidMinor bill - p_amountMinor p) = i_amountPaidMinor bill - p_amountMinor p"
      using nonneg [of iid] amt [of iid] by simp
    have only: "x = bill" if "x \<in> set (invoices db)" "i_id x = iid" for x
      using key_eq_rows [of i_id "invoices db" x bill] iok bm that by (simp add: invoices_ok_def)
    let ?st = "if i_amountPaidMinor bill - p_amountMinor p \<le> 0 then I_PENDING
        else if i_amountPaidMinor bill - p_amountMinor p < i_totalMinor bill then I_PARTIALLY_PAID else I_PAID"
    define upd :: "invoice \<Rightarrow> invoice" where "upd = (\<lambda>x. x\<lparr>i_amountPaidMinor := i_amountPaidMinor bill - p_amountMinor p,
        i_status := ?st, i_paidAt := (if ?st = I_PAID then i_paidAt bill else None)\<rparr>)"
    have db2: "db2 = update_invoice iid upd db1"
      using i Some b ge bm(2) by (simp add: reverse_invoice_def Let_def upd_def)
    have "invoices_ok (update_invoice iid upd db)"
      by (rule invoices_ok_update [OF iok]) (simp_all add: upd_def)
    then have "invoices_ok db2" by (rule invoices_ok_cong) (use ws in \<open>simp_all add: db2\<close>)
    moreover have "map i_amountPaidMinor (update_where (\<lambda>r. i_id r = iid) upd (invoices db)) =
        map (\<lambda>i. i_amountPaidMinor i - pays_for (i_id i) p) (invoices db)"
      using only by (auto simp: update_where_def upd_def amt)
    moreover have "map i_id (update_where (\<lambda>r. i_id r = iid) upd (invoices db)) = map i_id (invoices db)"
      "map i_totalMinor (update_where (\<lambda>r. i_id r = iid) upd (invoices db)) = map i_totalMinor (invoices db)"
      by (rule map_update_where, simp add: upd_def)+
    ultimately show ?thesis using ws by (simp add: db2)
  qed
  have ps: "payments db' = ?ps" using eff p(2) by (simp add: db')
  have "paid_ok (invoices db2) ?ps"
    unfolding paid_ok_def
  proof
    fix x
    assume "x \<in> set (invoices db2)"
    then obtain k where k: "k < length (invoices db2)" "x = invoices db2 ! k" by (auto simp: in_set_conv_nth)
    have maps: "map i_id (invoices db2) = map i_id (invoices db)" "map i_totalMinor (invoices db2) = map i_totalMinor (invoices db)"
      "map i_amountPaidMinor (invoices db2) = map (\<lambda>i. i_amountPaidMinor i - pays_for (i_id i) p) (invoices db)"
      using eff by blast+
    have len: "length (invoices db2) = length (invoices db)" by (rule map_eq_imp_length_eq [OF maps(1)])
    let ?y = "invoices db ! k"
    have y: "?y \<in> set (invoices db)" using k len by simp
    have "i_id x = i_id ?y" "i_totalMinor x = i_totalMinor ?y" "i_amountPaidMinor x = i_amountPaidMinor ?y - pays_for (i_id ?y) p"
      using arg_cong [OF maps(1), of "\<lambda>l. l ! k"] arg_cong [OF maps(2), of "\<lambda>l. l ! k"]
        arg_cong [OF maps(3), of "\<lambda>l. l ! k"] k len by simp_all
    moreover have "i_amountPaidMinor ?y = applied_total (i_id ?y) (payments db)" "i_amountPaidMinor ?y \<le> i_totalMinor ?y"
      using paid y unfolding paid_ok_def by blast+
    ultimately show "i_amountPaidMinor x = applied_total (i_id x) ?ps \<and> i_amountPaidMinor x \<le> i_totalMinor x"
      using tot [of "i_id ?y"] pn [of "i_id ?y"] by simp
  qed
  moreover have invs: "invoices db' = invoices db2" "receipts db' = receipts db" "nextId db' = nextId db2"
    "nextId db \<le> nextId db2" "invoices_ok db2" "clock db2 = clock db"
    using eff by (auto simp: db')
  moreover have "invoices_ok db'" by (rule invoices_ok_cong [OF invs(5)]) (simp_all add: invs)
  moreover have "payments_ok (nextId db2) ?ps (receipts db)"
    by (rule payments_ok_mono [OF payments_ok_reverse [OF pok] invs(4)])
  ultimately have books: "books_ok db'"
    using dense unfolding books_ok_def ps by simp
  have wok: "wallet_ok db'" by (rule wallet_ok_cong [of db1]) (use ws eff in \<open>simp_all add: db'\<close>)
  have bal: "walletBalance db' = walletBalance db1" by (rule walletBalance_cong) (use eff in \<open>simp add: db'\<close>)
  have "List.find (\<lambda>x. p_id x = pid \<and> p_tenantId x = t) ?ps = Some (reversed_row (clock db) reason p)"
  proof -
    have "distinct (map p_id ?ps)" using payments_ok_reverse [OF pok] unfolding payments_ok_def by blast
    moreover have "reversed_row (clock db) reason p \<in> set ?ps" using p(1) by (force simp: set_update_where)
    ultimately show ?thesis
      using find_key_and [of p_id ?ps "reversed_row (clock db) reason p" "\<lambda>x. p_tenantId x = t"] p(2,3) by simp
  qed
  then have again: "refundPaymentCore t pid reason2 db' = Inl (ConflictError ''Payment has already been reversed'')"
    unfolding refundPaymentCore_def ps by simp
  have "map i_amountPaidMinor (invoices db') = map (\<lambda>i. i_amountPaidMinor i - pays_for (i_id i) p) (invoices db)"
    using eff invs(1) by simp
  note amounts = this
  have psd: "payments db' = update_where (\<lambda>x. p_id x = pid) (reversed_row (clock db) reason) (payments db)"
    using ps p(2) by simp
  have bal2: "walletBalance db' = (case p_customerId p of None \<Rightarrow> walletBalance db
      | Some c \<Rightarrow> (walletBalance db)(c := walletBalance db c
          + (if p_method p = WALLET then p_amountMinor p else if p_invoiceId p = None then - p_amountMinor p else 0)))"
    using bal ws by simp
  show ?thesis
    by (intro exI [of _ p] conjI p st psd amounts bal2 books wok again)
qed

text \<open>A recorded gateway payment can always be reversed.\<close>

lemma refund_runs:
  assumes "books_ok db" and "wallet_ok db"
    and "recordPaymentForInvoiceCore t inp db = Inr (out, db1)" and "\<not> res_wasAlreadyProcessed out"
    and "in_method inp \<noteq> WALLET"
  shows "\<exists>q db2. refundPaymentCore t (p_id (res_payment out)) reason db1 = Inr (q, db2)"
proof -
  let ?pay = "res_payment out"
  obtain bill where b: "find_invoice_in t (in_invoiceId inp) db = Some bill" "payments db1 = payments db @ [?pay]"
      "p_status ?pay = P_COMPLETED" "p_invoiceId ?pay = Some (i_id bill)" "p_method ?pay = in_method inp"
      "p_tenantId ?pay = t" "p_customerId ?pay = Some (i_customerId bill)" and ok1: "books_ok db1"
    and inv1: "\<exists>f. invoices db1 = update_where (\<lambda>i. i_id i = i_id bill) f (invoices db) \<and> (\<forall>i. i_id (f i) = i_id i)"
    using record_spec [OF assms(1-4)] by (fastforce simp: Let_def)
  have "distinct (map p_id (payments db1))" using ok1 by (simp add: books_ok_def payments_ok_def)
  from find_key_and [OF this, of ?pay "\<lambda>x. p_tenantId x = t"] b(2,6)
  have f: "List.find (\<lambda>x. p_id x = p_id ?pay \<and> p_tenantId x = t) (payments db1) = Some ?pay" by simp
  have "bill \<in> set (invoices db)" using find_invoice_inD [OF b(1)] by simp
  moreover obtain f where "invoices db1 = update_where (\<lambda>i. i_id i = i_id bill) f (invoices db)" "\<forall>i. i_id (f i) = i_id i"
    using inv1 by blast
  ultimately have "f bill \<in> set (invoices db1)" "i_id (f bill) = i_id bill" by (auto simp: set_update_where)
  then have "\<exists>x \<in> set (invoices db1). i_id x = i_id bill" by blast
  then obtain x where x: "find_invoice (i_id bill) db1 = Some x"
    unfolding find_invoice_def using find_exists [of _ "invoices db1" "\<lambda>r. i_id r = i_id bill"] by blast
  have "reverse_wallet ?pay db1 = Inr db1" using b assms(5) by (simp add: reverse_wallet_def)
  then show ?thesis using f b(3,4) x by (simp add: refundPaymentCore_def reverse_invoice_def Let_def)
qed

lemma sample_refund_runs:
  "\<exists>out db1 q db2. recordPaymentForInvoiceCore 7 sample_payment_input sample_db = Inr (out, db1)
     \<and> \<not> res_wasAlreadyProcessed out \<and> refundPaymentCore 7 (p_id (res_payment out)) ''paid twice'' db1 = Inr (q, db2)"
proof -
  obtain out db1 where r: "recordPaymentForInvoiceCore 7 sample_payment_input sample_db = Inr (out, db1)"
    "\<not> res_wasAlreadyProcessed out" using sample_payment_runs by blast
  moreover have "in_method sample_payment_input \<noteq> WALLET" by (simp add: sample_simps)
  ultimately show ?thesis using refund_runs [OF sample_books_ok r] by blast
qed

text \<open>
  C23. A reversal takes back exactly what the payment did. The payment becomes REVERSED and
  nothing else in the payments table changes; the invoice it paid shows exactly its amount
  less, other invoices nothing; a wallet payment returns to the wallet, a top-up is taken back
  out of it, any other payment leaves every wallet alone; the books stay balanced; and a second
  reversal of the same payment is refused.
\<close>

theorem refund_takes_back_payment:
  assumes "books_ok db" and "wallet_ok db" and "refundPaymentCore t pid reason db = Inr (q, db')"
  shows "\<exists>p. p \<in> set (payments db) \<and> p_id p = pid \<and> p_tenantId p = t \<and> p_status p = P_COMPLETED
     \<and> payments db' = update_where (\<lambda>x. p_id x = pid) (reversed_row (clock db) reason) (payments db)
     \<and> map i_amountPaidMinor (invoices db') = map (\<lambda>i. i_amountPaidMinor i - pays_for (i_id i) p) (invoices db)
     \<and> walletBalance db' = (case p_customerId p of None \<Rightarrow> walletBalance db
         | Some c \<Rightarrow> (walletBalance db)(c := walletBalance db c
             + (if p_method p = WALLET then p_amountMinor p else if p_invoiceId p = None then - p_amountMinor p else 0)))
     \<and> books_ok db' \<and> wallet_ok db'
     \<and> refundPaymentCore t pid reason2 db' = Inl (ConflictError ''Payment has already been reversed'')"
  by (rule refund_spec [OF assms])

theorem refund_takes_back_payment_witness:
  "\<exists>out db1 q db2. recordPaymentForInvoiceCore 7 sample_payment_input sample_db = Inr (out, db1)
     \<and> refundPaymentCore 7 (p_id (res_payment out)) ''paid twice'' db1 = Inr (q, db2)
     \<and> refundPaymentCore 7 (p_id (res_payment out)) ''again'' db2 = Inl (ConflictError ''Payment has already been reversed'')"
proof -
  obtain out db1 q db2 where r: "recordPaymentForInvoiceCore 7 sample_payment_input sample_db = Inr (out, db1)"
    "\<not> res_wasAlreadyProcessed out" "refundPaymentCore 7 (p_id (res_payment out)) ''paid twice'' db1 = Inr (q, db2)"
    using sample_refund_runs by blast
  have "books_ok db1" "wallet_ok db1" using record_spec [OF sample_books_ok r(1,2)] by simp_all
  from refund_takes_back_payment [OF this r(3), of "''again''"] r show ?thesis by blast
qed

text \<open>
  C25. Reversing a payment restores the invoice, and the wallet except for the overpayment: after
  a recorded payment and its reversal, every invoice shows the amount paid it showed before, and
  the customer's wallet is back to its balance plus the excess that was credited, which the
  reversal leaves behind.
\<close>

theorem record_then_refund:
  assumes "books_ok db" and "wallet_ok db"
    and "recordPaymentForInvoiceCore t inp db = Inr (out, db1)" and "\<not> res_wasAlreadyProcessed out"
    and "refundPaymentCore t (p_id (res_payment out)) reason db1 = Inr (q, db2)"
  shows "map i_amountPaidMinor (invoices db2) = map i_amountPaidMinor (invoices db)
    \<and> (\<exists>bill. find_invoice_in t (in_invoiceId inp) db = Some bill
        \<and> walletBalance db2 = (walletBalance db)(i_customerId bill :=
            walletBalance db (i_customerId bill) + (in_amountMinor inp - p_amountMinor (res_payment out))))"
proof -
  let ?pay = "res_payment out"
  obtain bill where b: "find_invoice_in t (in_invoiceId inp) db = Some bill" "payments db1 = payments db @ [?pay]"
      "p_status ?pay = P_COMPLETED" "p_invoiceId ?pay = Some (i_id bill)" "p_customerId ?pay = Some (i_customerId bill)"
      "p_method ?pay = in_method inp" and ok1: "books_ok db1" "wallet_ok db1"
    and bal1: "walletBalance db1 = (walletBalance db)(i_customerId bill := walletBalance db (i_customerId bill)
              + (in_amountMinor inp - p_amountMinor ?pay) - (if in_method inp = WALLET then p_amountMinor ?pay else 0))"
    and inv1: "\<exists>st paid. invoices db1 = update_where (\<lambda>i. i_id i = i_id bill)
              (\<lambda>i. i\<lparr>i_amountPaidMinor := i_amountPaidMinor bill + p_amountMinor ?pay, i_status := st, i_paidAt := paid\<rparr>) (invoices db)"
    using record_spec [OF assms(1-4)] by (auto simp: Let_def)
  obtain p where p: "p \<in> set (payments db1)" "p_id p = p_id ?pay"
    "map i_amountPaidMinor (invoices db2) = map (\<lambda>i. i_amountPaidMinor i - pays_for (i_id i) p) (invoices db1)"
    "walletBalance db2 = (case p_customerId p of None \<Rightarrow> walletBalance db1
         | Some c \<Rightarrow> (walletBalance db1)(c := walletBalance db1 c
             + (if p_method p = WALLET then p_amountMinor p else if p_invoiceId p = None then - p_amountMinor p else 0)))"
    using refund_spec [OF ok1 assms(5)] by blast
  have "distinct (map p_id (payments db1))" using ok1(1) by (simp add: books_ok_def payments_ok_def)
  from key_eq_rows [OF this p(1) _ p(2)] b(2) have same: "p = ?pay" by simp
  have mem: "bill \<in> set (invoices db)" using find_invoice_inD [OF b(1)] by simp
  have only: "x = bill" if "x \<in> set (invoices db)" "i_id x = i_id bill" for x
    using key_eq_rows [of i_id "invoices db" x bill] assms(1) mem that by (simp add: books_ok_def invoices_ok_def)
  have "map (\<lambda>i. i_amountPaidMinor i - pays_for (i_id i) ?pay) (invoices db1) = map i_amountPaidMinor (invoices db)"
  proof -
    from inv1 obtain st paid where i1: "invoices db1 = update_where (\<lambda>i. i_id i = i_id bill)
        (\<lambda>i. i\<lparr>i_amountPaidMinor := i_amountPaidMinor bill + p_amountMinor ?pay, i_status := st, i_paidAt := paid\<rparr>) (invoices db)"
      by blast
    have amt: "pays_for k ?pay = (if k = i_id bill then p_amountMinor ?pay else 0)" for k
      using b(3,4) by (simp add: pays_for_def)
    show ?thesis unfolding i1 update_where_def using only by (auto simp: amt)
  qed
  with p(3) same have "map i_amountPaidMinor (invoices db2) = map i_amountPaidMinor (invoices db)" by simp
  moreover have "walletBalance db2 = (walletBalance db)(i_customerId bill :=
      walletBalance db (i_customerId bill) + (in_amountMinor inp - p_amountMinor ?pay))"
    unfolding p(4) same b(4-6) bal1 by (auto simp: fun_eq_iff)
  ultimately show ?thesis using b(1) by blast
qed

theorem record_then_refund_witness:
  "\<exists>out db1 q db2. recordPaymentForInvoiceCore 7 sample_payment_input sample_db = Inr (out, db1)
     \<and> refundPaymentCore 7 (p_id (res_payment out)) ''paid twice'' db1 = Inr (q, db2)
     \<and> map i_amountPaidMinor (invoices db2) = [0]"
proof -
  obtain out db1 q db2 where r: "recordPaymentForInvoiceCore 7 sample_payment_input sample_db = Inr (out, db1)"
    "\<not> res_wasAlreadyProcessed out" "refundPaymentCore 7 (p_id (res_payment out)) ''paid twice'' db1 = Inr (q, db2)"
    using sample_refund_runs by blast
  have "map i_amountPaidMinor (invoices sample_db) = [0]" by (simp add: sample_db_def sample_invoice_def)
  with record_then_refund [OF sample_books_ok r] r show ?thesis by auto
qed

end
