(* ===== verification/Fees.thy ===== *)
theory Fees
  imports Prelude
begin

text \<open>
  packages/payments/src/gateway/fees.ts: the platform's fee on a collected payment and the
  share of it that goes back with a refund. Pure integer arithmetic.
\<close>

definition max_safe_integer :: int where
  "max_safe_integer = 2 ^ 53 - 1"

definition is_safe_integer :: "int \<Rightarrow> bool" where
  "is_safe_integer n \<longleftrightarrow> \<bar>n\<bar> \<le> max_safe_integer"

record fee_rule =
  percentBps :: int
  fixedMinor :: minor

record fee_breakdown =
  fb_grossMinor :: minor
  fb_feeMinor :: minor
  fb_netMinor :: minor
  fb_percentBps :: int
  fb_fixedMinor :: minor

definition assertWholeNonNegative :: "int \<Rightarrow> string \<Rightarrow> unit result" where
  "assertWholeNonNegative value name =
     (if \<not> is_safe_integer value \<or> value < 0
      then Inl (RangeError (name @ '' must be a non-negative whole number of minor units, got ''
                             @ int_to_string value))
      else Inr ())"

definition calculateFee :: "minor \<Rightarrow> fee_rule \<Rightarrow> fee_breakdown result" where
  "calculateFee grossMinor rule =
     (if \<not> is_safe_integer grossMinor \<or> grossMinor \<le> 0
      then Inl (RangeError (''grossMinor must be a positive whole number, got '' @ int_to_string grossMinor))
      else case assertWholeNonNegative (fixedMinor rule) ''fixedMinor'' of
        Inl e \<Rightarrow> Inl e
      | Inr _ \<Rightarrow>
          if \<not> is_safe_integer (percentBps rule) \<or> percentBps rule < 0 \<or> percentBps rule > 10000
          then Inl (RangeError (''percentBps must be between 0 and 10000, got ''
                                 @ int_to_string (percentBps rule)))
          else
            let percentPart = (grossMinor * percentBps rule + 5000) div 10000;
                feeMinor = min grossMinor (percentPart + fixedMinor rule)
            in Inr \<lparr>fb_grossMinor = grossMinor, fb_feeMinor = feeMinor,
                     fb_netMinor = grossMinor - feeMinor, fb_percentBps = percentBps rule,
                     fb_fixedMinor = fixedMinor rule\<rparr>)"

definition feeShareForRefund :: "minor \<Rightarrow> minor \<Rightarrow> minor \<Rightarrow> minor \<Rightarrow> minor \<Rightarrow> minor" where
  "feeShareForRefund grossMinor feeMinor alreadyRefundedMinor feeAlreadyReturnedMinor refundMinor =
     (let remainingFee = feeMinor - feeAlreadyReturnedMinor
      in if alreadyRefundedMinor + refundMinor \<ge> grossMinor then remainingFee
         else min remainingFee ((feeMinor * refundMinor) div grossMinor))"

section \<open>The fee\<close>

lemma calculateFee_cases:
  assumes "calculateFee g rule = Inr b"
  shows "0 < g \<and> 0 \<le> fixedMinor rule \<and> 0 \<le> percentBps rule \<and> percentBps rule \<le> 10000
    \<and> b = \<lparr>fb_grossMinor = g, fb_feeMinor = min g ((g * percentBps rule + 5000) div 10000 + fixedMinor rule),
           fb_netMinor = g - min g ((g * percentBps rule + 5000) div 10000 + fixedMinor rule),
           fb_percentBps = percentBps rule, fb_fixedMinor = fixedMinor rule\<rparr>"
  using assms
  by (auto simp: calculateFee_def assertWholeNonNegative_def Let_def split: if_splits sum.splits)

lemma calculateFee_bounds:
  assumes "calculateFee g rule = Inr b"
  shows "0 \<le> fb_feeMinor b" "fb_feeMinor b \<le> g" "0 \<le> fb_netMinor b" "0 < g"
    "fb_feeMinor b + fb_netMinor b = g" "fb_grossMinor b = g"
proof -
  have "0 \<le> (g * percentBps rule + 5000) div 10000"
    using calculateFee_cases [OF assms] by (simp add: pos_imp_zdiv_nonneg_iff)
  then show "0 \<le> fb_feeMinor b" "fb_feeMinor b \<le> g" "0 \<le> fb_netMinor b" "0 < g"
    "fb_feeMinor b + fb_netMinor b = g" "fb_grossMinor b = g"
    using calculateFee_cases [OF assms] by auto
qed

text \<open>
  The platform's fee on a payment never exceeds the payment, so the tenant's net is
  never negative and fee and net always add up to the gross; and while the cap does not
  bite, the percentage part is the exact percentage rounded half up to a cent, so the fee
  is within half a cent of the rule.
\<close>

theorem calculateFee_sound:
  assumes "calculateFee g rule = Inr b"
  shows "0 \<le> fb_feeMinor b \<and> fb_feeMinor b \<le> g \<and> 0 \<le> fb_netMinor b
    \<and> fb_feeMinor b + fb_netMinor b = g
    \<and> (fb_feeMinor b < g \<longrightarrow>
         g * percentBps rule - 5000 < 10000 * (fb_feeMinor b - fixedMinor rule)
       \<and> 10000 * (fb_feeMinor b - fixedMinor rule) \<le> g * percentBps rule + 5000)"
proof -
  let ?n = "g * percentBps rule + 5000"
  have dm: "10000 * (?n div 10000) + ?n mod 10000 = ?n" by (rule mult_div_mod_eq)
  have m: "0 \<le> ?n mod 10000" "?n mod 10000 < 10000" by simp_all
  show ?thesis
    using calculateFee_bounds [OF assms] calculateFee_cases [OF assms] dm m by auto
qed

theorem calculateFee_sound_witness:
  "calculateFee 12345 \<lparr>percentBps = 200, fixedMinor = 500\<rparr> =
     Inr \<lparr>fb_grossMinor = 12345, fb_feeMinor = 747, fb_netMinor = 11598, fb_percentBps = 200, fb_fixedMinor = 500\<rparr>
   \<and> (747 :: int) \<le> 12345"
proof -
  have h: "calculateFee 12345 \<lparr>percentBps = 200, fixedMinor = 500\<rparr> =
     Inr \<lparr>fb_grossMinor = 12345, fb_feeMinor = 747, fb_netMinor = 11598, fb_percentBps = 200, fb_fixedMinor = 500\<rparr>"
    by (simp add: calculateFee_def assertWholeNonNegative_def is_safe_integer_def max_safe_integer_def)
  show ?thesis using h calculateFee_sound [OF h] by simp
qed

section \<open>The fee returned with refunds\<close>

lemma feeShare_bounds:
  assumes "0 < gross" "0 \<le> fee" "returned \<le> fee" "0 \<le> amount"
  shows "0 \<le> feeShareForRefund gross fee refunded returned amount"
    and "returned + feeShareForRefund gross fee refunded returned amount \<le> fee"
proof -
  have "0 \<le> fee * amount div gross" using assms by (simp add: pos_imp_zdiv_nonneg_iff)
  then show "0 \<le> feeShareForRefund gross fee refunded returned amount"
    "returned + feeShareForRefund gross fee refunded returned amount \<le> fee"
    using assms by (auto simp: feeShareForRefund_def Let_def)
qed

lemma feeShare_final:
  "refunded + amount \<ge> gross \<Longrightarrow>
     returned + feeShareForRefund gross fee refunded returned amount = fee"
  by (simp add: feeShareForRefund_def Let_def)

text \<open>
  A sequence of refunds of one transaction, each share computed from the totals so far, as
  recordGatewayRefundTx does; the result is what was refunded and what fee was returned.
\<close>

fun refund_run :: "minor \<Rightarrow> minor \<Rightarrow> minor \<times> minor \<Rightarrow> minor list \<Rightarrow> minor \<times> minor" where
  "refund_run gross fee st [] = st"
| "refund_run gross fee (refunded, returned) (a # amounts) =
     refund_run gross fee
       (refunded + a, returned + feeShareForRefund gross fee refunded returned a) amounts"

lemma refund_run_refunded: "fst (refund_run gross fee st xs) = fst st + sum_list xs"
  by (induction xs arbitrary: st) (auto simp: split: prod.splits)

lemma refund_run_invariant:
  assumes "0 < gross" "0 \<le> fee" "0 \<le> snd st" "snd st \<le> fee" "fst st < gross \<or> snd st = fee"
    "\<forall>a \<in> set amounts. 0 < a"
  shows "0 \<le> snd (refund_run gross fee st amounts) \<and> snd (refund_run gross fee st amounts) \<le> fee
    \<and> (fst (refund_run gross fee st amounts) < gross \<or> snd (refund_run gross fee st amounts) = fee)"
  using assms
proof (induction amounts arbitrary: st)
  case Nil
  then show ?case by simp
next
  case (Cons a amounts)
  obtain refunded returned where st: "st = (refunded, returned)" by (cases st)
  let ?share = "feeShareForRefund gross fee refunded returned a"
  have b: "0 \<le> ?share" "returned + ?share \<le> fee"
    using feeShare_bounds [of gross fee returned a refunded] Cons.prems st by auto
  have "refunded + a < gross \<or> returned + ?share = fee"
    using feeShare_final [of gross refunded a returned fee] by force
  then show ?case
    using Cons.IH [of "(refunded + a, returned + ?share)"] Cons.prems b st by simp
qed

text \<open>
  Whatever the sequence of partial refunds, the fee handed back with them never exceeds
  the fee that was charged, and once the whole payment has been refunded exactly the whole
  fee has been handed back.
\<close>

theorem refund_run_returns_fee:
  assumes "0 < gross" "0 \<le> fee" "\<forall>a \<in> set amounts. 0 < a"
  shows "0 \<le> snd (refund_run gross fee (0, 0) amounts)
    \<and> snd (refund_run gross fee (0, 0) amounts) \<le> fee
    \<and> (gross \<le> sum_list amounts \<longrightarrow> snd (refund_run gross fee (0, 0) amounts) = fee)"
  using refund_run_invariant [of gross fee "(0, 0)" amounts]
    refund_run_refunded [of gross fee "(0, 0)" amounts] assms by auto

theorem refund_run_returns_fee_witness:
  "(0::int) < 1000 \<and> snd (refund_run 1000 33 (0, 0) [333, 333, 334]) = 33"
proof -
  have "0 \<le> snd (refund_run 1000 33 (0, 0) [333, 333, 334])
    \<and> snd (refund_run 1000 33 (0, 0) [333, 333, 334]) \<le> 33
    \<and> ((1000 :: int) \<le> sum_list [333, 333, 334] \<longrightarrow> snd (refund_run 1000 33 (0, 0) [333, 333, 334]) = 33)"
    by (rule refund_run_returns_fee) simp_all
  then show ?thesis by simp
qed

end
