(* ===== verification/Ledger.thy ===== *)
theory Ledger
  imports Billing Fees
begin

text \<open>
  The payment gateway's tables on top of the billing database, and its append-only ledger:
  packages/payments/src/ledger.service.ts, gateway/settings.service.ts, gateway/common.ts and
  gateway/collection.service.ts. The locale \<open>append_only_journal\<close> is the contract of the ledger:
  an entry with a new key is appended, one with a known key is dropped, and nothing else moves.
\<close>

section \<open>The contract of an idempotent journal\<close>

locale append_only_journal =
  fixes entries :: "'s \<Rightarrow> 'e list"
    and key :: "'e \<Rightarrow> 'k"
    and acceptable :: "'e \<Rightarrow> bool"
    and append :: "'e \<Rightarrow> 's \<Rightarrow> (bool \<times> 's) result"
  assumes append_new: "acceptable e \<Longrightarrow> key e \<notin> key ` set (entries s) \<Longrightarrow>
      \<exists>s'. append e s = Inr (True, s') \<and> entries s' = entries s @ [e]"
    and append_known: "acceptable e \<Longrightarrow> key e \<in> key ` set (entries s) \<Longrightarrow> append e s = Inr (False, s)"
    and append_bad: "\<not> acceptable e \<Longrightarrow> \<exists>err. append e s = Inl err"
begin

lemma append_cases:
  assumes "append e s = Inr (wrote, s')"
  shows "acceptable e \<and> (if wrote then key e \<notin> key ` set (entries s) \<and> entries s' = entries s @ [e]
    else key e \<in> key ` set (entries s) \<and> s' = s)"
  using assms append_new [of e s] append_known [of e s] append_bad [of e s]
  by (cases "acceptable e"; cases "key e \<in> key ` set (entries s)") auto

lemma append_replay:
  assumes "append e s = Inr (wrote, s')" and "acceptable e'" and "key e' = key e"
  shows "append e' s' = Inr (False, s')"
proof -
  have "key e' \<in> key ` set (entries s')"
    using append_cases [OF assms(1)] assms(3) by (cases wrote) auto
  then show ?thesis using append_known assms(2) by blast
qed

lemma append_distinct:
  "append e s = Inr (wrote, s') \<Longrightarrow> distinct (map key (entries s)) \<Longrightarrow> distinct (map key (entries s'))"
  using append_cases [of e s wrote s'] by (cases wrote) auto

lemma append_keeps: "append e s = Inr (wrote, s') \<Longrightarrow> set (entries s) \<subseteq> set (entries s')"
  using append_cases [of e s wrote s'] by (cases wrote) auto

end

section \<open>The gateway's tables\<close>

datatype ledger_direction = L_CREDIT | L_DEBIT

datatype entry_type = CUSTOMER_PAYMENT | PLATFORM_FEE | SETTLEMENT | SETTLEMENT_REVERSAL
  | PAYMENT_REVERSAL | FEE_REVERSAL | REFUND | ADJUSTMENT

record ledger_entry =
  le_tenantId :: id
  le_direction :: ledger_direction
  le_entryType :: entry_type
  le_amountMinor :: minor
  le_currency :: string
  le_description :: string
  le_sourceType :: string
  le_sourceId :: id
  le_gatewayTransactionId :: "id option"
  le_settlementId :: "id option"
  le_createdByUserId :: "id option"

datatype settlement_status = REQUESTED | AWAITING_APPROVAL | PROCESSING | SETTLED | ST_FAILED | CANCELLED
datatype provider_kind = MPESA_B2B | MPESA_B2C | MANUAL_TRANSFER | SANDBOX_PROVIDER
datatype settlement_trigger = AUTOMATIC | TENANT_REQUEST | ADMIN
datatype settlement_mode = MODE_AUTOMATIC | MODE_MANUAL
datatype settlement_frequency = INSTANT | F_DAILY | F_WEEKLY | F_MANUAL
datatype destination_type = MPESA_PHONE | BANK_ACCOUNT | TILL | PAYBILL
datatype verification_status = UNVERIFIED | VERIFIED | V_FAILED
datatype environment = ENV_SANDBOX | ENV_PRODUCTION
datatype gateway_channel = MPESA_STK | MPESA_C2B
datatype gateway_txn_status = GT_COMPLETED | GT_PARTIALLY_REFUNDED | GT_REFUNDED | GT_REVERSED
datatype txn_settlement_status = UNSETTLED | SETTLEMENT_PENDING | TXN_SETTLED
datatype refund_kind = K_REFUND | K_REVERSAL
datatype refund_status = PENDING_CUSTOMER_PAYOUT | RF_COMPLETED

record settlement_settings =
  gatewayEnabled :: bool
  feePercentBps :: int
  feeFixedMinor :: minor
  settlementMode :: settlement_mode
  settlementFrequency :: settlement_frequency
  settlementMinimumMinor :: minor
  settlementHourEat :: int
  settlementWeekday :: int
  lastScheduledRunAt :: "time option"
  updatedByUserId :: "id option"

definition default_settings :: settlement_settings where
  "default_settings = \<lparr>gatewayEnabled = False, feePercentBps = 0, feeFixedMinor = 0,
     settlementMode = MODE_AUTOMATIC, settlementFrequency = INSTANT, settlementMinimumMinor = 100,
     settlementHourEat = 9, settlementWeekday = 1, lastScheduledRunAt = None, updatedByUserId = None\<rparr>"

record gateway_txn =
  g_id :: id
  g_txnNumber :: string
  g_tenantId :: id
  g_paymentId :: id
  g_customerId :: "id option"
  g_invoiceId :: "id option"
  g_paymentReferenceId :: "id option"
  g_channel :: gateway_channel
  g_providerReference :: string
  g_providerRequestId :: "string option"
  g_payerPhone :: "string option"
  g_environment :: environment
  g_currency :: string
  g_grossMinor :: minor
  g_feeMinor :: minor
  g_netMinor :: minor
  g_feePercentBps :: int
  g_feeFixedMinor :: minor
  g_refundedMinor :: minor
  g_status :: gateway_txn_status
  g_settlementStatus :: txn_settlement_status
  g_settlementId :: "id option"
  g_description :: string
  g_createdAt :: time

record gateway_refund =
  gr_id :: id
  gr_refundNumber :: string
  gr_tenantId :: id
  gr_gatewayTransactionId :: id
  gr_kind :: refund_kind
  gr_amountMinor :: minor
  gr_feeReturnedMinor :: minor
  gr_reason :: string
  gr_status :: refund_status
  gr_externalReference :: "string option"
  gr_createdByUserId :: "id option"
  gr_completedAt :: "time option"
  gr_completedByUserId :: "id option"

record destination =
  d_id :: id
  d_tenantId :: id
  d_type :: destination_type
  d_accountName :: string
  d_phone :: "string option"
  d_bankName :: "string option"
  d_bankBranch :: "string option"
  d_bankAccountNumberEncrypted :: "string option"
  d_bankAccountLast4 :: "string option"
  d_tillNumber :: "string option"
  d_paybillNumber :: "string option"
  d_paybillAccountReference :: "string option"
  d_verificationStatus :: verification_status
  d_verifiedAt :: "time option"
  d_isActive :: bool
  d_deactivatedAt :: "time option"
  d_createdByUserId :: "id option"
  d_createdAt :: time

record destination_snapshot =
  sn_type :: destination_type
  sn_label :: string
  sn_accountName :: string
  sn_phone :: "string option"
  sn_bankName :: "string option"
  sn_bankAccountLast4 :: "string option"
  sn_tillNumber :: "string option"
  sn_paybillNumber :: "string option"
  sn_paybillAccountReference :: "string option"

record payout =
  y_id :: id
  y_settlementNumber :: string
  y_tenantId :: id
  y_amountMinor :: minor
  y_currency :: string
  y_destinationId :: "id option"
  y_destinationSnapshot :: "destination_snapshot option"
  y_destinationShortcode :: "string option"
  y_destinationType :: destination_type
  y_provider :: provider_kind
  y_environment :: environment
  y_trigger :: settlement_trigger
  y_status :: settlement_status
  y_requestedByUserId :: "id option"
  y_approvedByUserId :: "id option"
  y_approvedAt :: "time option"
  y_processingStartedAt :: "time option"
  y_conversationId :: "string option"
  y_originatorConversationId :: "string option"
  y_transactionId :: "string option"
  y_resultCode :: "int option"
  y_resultDesc :: "string option"
  y_failureReason :: "string option"
  y_providerConfirmedAt :: "time option"
  y_timedOutAt :: "time option"
  y_retryOfId :: "id option"
  y_resolvedByUserId :: "id option"
  y_notes :: "string option"
  y_createdAt :: time
  y_completedAt :: "time option"
  y_failedAt :: "time option"
  y_cancelledAt :: "time option"

record user_phone =
  up_tenantId :: id
  up_phone :: "string option"
  up_createdAt :: time

text \<open>
  \<open>txnSeq\<close>, \<open>stlSeq\<close> and \<open>rfdSeq\<close> are the Postgres sequences; \<open>businessDay\<close> is today's Nairobi
  date as text, which the numbers carry; \<open>mpesaProduction\<close> says whether the platform's M-Pesa
  configuration names the production environment; \<open>nodeEnv\<close> and \<open>sandboxFlag\<close> are the process
  environment variables NODE_ENV and PAYMENTS_SANDBOX_SETTLEMENTS.
\<close>

record gateway_db = billing_db +
  gsettings :: settlement_settings
  ledgerEntries :: "ledger_entry list"
  gatewayTxns :: "gateway_txn list"
  gatewayRefunds :: "gateway_refund list"
  destinations :: "destination list"
  payouts :: "payout list"
  userPhones :: "user_phone list"
  txnSeq :: nat
  stlSeq :: nat
  rfdSeq :: nat
  businessDay :: string
  mpesaProduction :: bool
  nodeEnv :: "string option"
  sandboxFlag :: "string option"

section \<open>Numbers\<close>

definition number_text :: "string \<Rightarrow> string \<Rightarrow> nat \<Rightarrow> string" where
  "number_text prefix day n = prefix @ ''-'' @ day @ ''-'' @ pad_start 6 (CHR ''0'') (nat_to_string n)"

definition nextTransactionNumber :: "'x gateway_db_scheme \<Rightarrow> string \<times> 'x gateway_db_scheme" where
  "nextTransactionNumber db = (number_text ''TXN'' (businessDay db) (txnSeq db), db\<lparr>txnSeq := txnSeq db + 1\<rparr>)"

definition nextSettlementNumber :: "'x gateway_db_scheme \<Rightarrow> string \<times> 'x gateway_db_scheme" where
  "nextSettlementNumber db = (number_text ''STL'' (businessDay db) (stlSeq db), db\<lparr>stlSeq := stlSeq db + 1\<rparr>)"

definition nextRefundNumber :: "'x gateway_db_scheme \<Rightarrow> string \<times> 'x gateway_db_scheme" where
  "nextRefundNumber db = (number_text ''RFD'' (businessDay db) (rfdSeq db), db\<lparr>rfdSeq := rfdSeq db + 1\<rparr>)"

section \<open>The ledger\<close>

definition entry_key :: "ledger_entry \<Rightarrow> string \<times> id" where
  "entry_key e = (le_sourceType e, le_sourceId e)"

definition entry_ok :: "ledger_entry \<Rightarrow> bool" where
  "entry_ok e \<longleftrightarrow> is_safe_integer (le_amountMinor e) \<and> 0 < le_amountMinor e"

definition appendLedgerEntry :: "ledger_entry \<Rightarrow> 'x gateway_db_scheme \<Rightarrow> (bool \<times> 'x gateway_db_scheme) result" where
  "appendLedgerEntry inp db =
     (if \<not> is_safe_integer (le_amountMinor inp) \<or> le_amountMinor inp \<le> 0
      then Inl (RangeError (''Ledger amounts must be positive whole minor units, got '' @ int_to_string (le_amountMinor inp)))
      else case List.find (\<lambda>e. entry_key e = entry_key inp) (ledgerEntries db) of
             Some _ \<Rightarrow> Inr (False, db)
           | None \<Rightarrow> Inr (True, db\<lparr>ledgerEntries := ledgerEntries db @ [inp]\<rparr>))"

lemma append_new_entry:
  assumes "entry_ok e" and "entry_key e \<notin> entry_key ` set (ledgerEntries db)"
  shows "appendLedgerEntry e db = Inr (True, db\<lparr>ledgerEntries := ledgerEntries db @ [e]\<rparr>)"
  using assms(1) find_none_image [OF assms(2)] by (simp add: appendLedgerEntry_def entry_ok_def)

lemma append_known_entry:
  assumes "entry_ok e" and "entry_key e \<in> entry_key ` set (ledgerEntries db)"
  shows "appendLedgerEntry e db = Inr (False, db)"
  using assms(1) find_some_image [OF assms(2)] by (auto simp: appendLedgerEntry_def entry_ok_def)

interpretation ledger: append_only_journal ledgerEntries entry_key entry_ok appendLedgerEntry
  by unfold_locales
    (auto simp: append_new_entry append_known_entry, auto simp: appendLedgerEntry_def entry_ok_def)

lemma append_db:
  assumes "appendLedgerEntry e db = Inr (wrote, db')"
  shows "db' = (if wrote then db\<lparr>ledgerEntries := ledgerEntries db @ [e]\<rparr> else db)" and "entry_ok e"
    and "wrote \<longleftrightarrow> entry_key e \<notin> entry_key ` set (ledgerEntries db)"
proof -
  show ok: "entry_ok e" using ledger.append_cases [OF assms] by simp
  show "wrote \<longleftrightarrow> entry_key e \<notin> entry_key ` set (ledgerEntries db)"
    using ledger.append_cases [OF assms] by (auto split: if_splits)
  show "db' = (if wrote then db\<lparr>ledgerEntries := ledgerEntries db @ [e]\<rparr> else db)"
  proof (cases "entry_key e \<in> entry_key ` set (ledgerEntries db)")
    case True
    from append_known_entry [OF ok this] assms show ?thesis by simp
  next
    case False
    from append_new_entry [OF ok this] assms show ?thesis by auto
  qed
qed

definition signed_entry :: "ledger_entry \<Rightarrow> minor" where
  "signed_entry e = (case le_direction e of L_CREDIT \<Rightarrow> le_amountMinor e | L_DEBIT \<Rightarrow> - le_amountMinor e)"

text \<open>The SQL sums: over one tenant's rows, of the rows a predicate picks.\<close>

definition sum_entries :: "id \<Rightarrow> (ledger_entry \<Rightarrow> bool) \<Rightarrow> ledger_entry list \<Rightarrow> minor" where
  "sum_entries t p es = sum_where (\<lambda>e. le_tenantId e = t \<and> p e) le_amountMinor es"

definition sum_payouts :: "id \<Rightarrow> (settlement_status \<Rightarrow> bool) \<Rightarrow> payout list \<Rightarrow> minor" where
  "sum_payouts t p ys = sum_where (\<lambda>y. y_tenantId y = t \<and> p (y_status y)) y_amountMinor ys"

abbreviation of_type :: "entry_type \<Rightarrow> ledger_entry \<Rightarrow> bool" where
  "of_type k e \<equiv> le_entryType e = k"

record tenant_balance =
  collectedMinor :: minor
  feesMinor :: minor
  refundsMinor :: minor
  settledMinor :: minor
  pendingSettlementMinor :: minor
  availableMinor :: minor
  settleableMinor :: minor

definition in_flight :: "settlement_status \<Rightarrow> bool" where
  "in_flight s \<longleftrightarrow> s = REQUESTED \<or> s = AWAITING_APPROVAL \<or> s = PROCESSING"

definition getTenantBalance :: "id \<Rightarrow> 'x gateway_db_scheme \<Rightarrow> tenant_balance" where
  "getTenantBalance t db =
     (let es = ledgerEntries db;
          available = sum_entries t (\<lambda>e. le_direction e = L_CREDIT) es - sum_entries t (\<lambda>e. le_direction e = L_DEBIT) es
      in \<lparr>collectedMinor = sum_entries t (of_type CUSTOMER_PAYMENT) es,
          feesMinor = sum_entries t (of_type PLATFORM_FEE) es - sum_entries t (of_type FEE_REVERSAL) es,
          refundsMinor = sum_entries t (\<lambda>e. of_type PAYMENT_REVERSAL e \<or> of_type REFUND e) es,
          settledMinor = sum_payouts t (\<lambda>s. s = SETTLED) (payouts db),
          pendingSettlementMinor = sum_payouts t in_flight (payouts db),
          availableMinor = available,
          settleableMinor = (if available > 0 then (available div 100) * 100 else 0)\<rparr>)"

text \<open>Tenants that are not deleted and whose balance reaches the minimum.\<close>

definition listTenantsWithBalance :: "minor \<Rightarrow> 'x gateway_db_scheme \<Rightarrow> (id \<times> minor) list" where
  "listTenantsWithBalance minimumMinor db =
     filter (\<lambda>(t, a). minimumMinor \<le> a)
       (map (\<lambda>t. (t, availableMinor (getTenantBalance t db)))
          (remdups (map le_tenantId
             (filter (\<lambda>e. \<exists>x \<in> set (tenants db). t_id x = le_tenantId e \<and> t_deletedAt x = None) (ledgerEntries db)))))"

section \<open>Settings and fees\<close>

definition getEffectiveFeeRule :: "id \<Rightarrow> 'x gateway_db_scheme \<Rightarrow> fee_rule" where
  "getEffectiveFeeRule tenantId db =
     (let tn = List.find (\<lambda>x. t_id x = tenantId) (tenants db);
          pct = (case tn of None \<Rightarrow> None | Some x \<Rightarrow> t_feePercentBpsOverride x);
          fixed = (case tn of None \<Rightarrow> None | Some x \<Rightarrow> t_feeFixedMinorOverride x)
      in \<lparr>percentBps = (case pct of Some v \<Rightarrow> v | None \<Rightarrow> feePercentBps (gsettings db)),
          fixedMinor = (case fixed of Some v \<Rightarrow> v | None \<Rightarrow> feeFixedMinor (gsettings db))\<rparr>)"

record update_settings_input =
  us_gatewayEnabled :: "bool option"
  us_feePercentBps :: "int option"
  us_feeFixedMinor :: "minor option"
  us_settlementMode :: "settlement_mode option"
  us_settlementFrequency :: "settlement_frequency option"
  us_settlementMinimumMinor :: "minor option"
  us_settlementHourEat :: "int option"
  us_settlementWeekday :: "int option"

definition keep_or :: "'a option \<Rightarrow> 'a \<Rightarrow> 'a" where
  "keep_or new old = (case new of Some v \<Rightarrow> v | None \<Rightarrow> old)"

definition updateSettlementSettings ::
  "update_settings_input \<Rightarrow> id \<Rightarrow> 'x gateway_db_scheme \<Rightarrow> (settlement_settings \<times> 'x gateway_db_scheme) result" where
  "updateSettlementSettings inp userId db =
     (if (case us_settlementMinimumMinor inp of None \<Rightarrow> False | Some m \<Rightarrow> m mod 100 \<noteq> 0)
      then Inl (ValidationError ''The minimum settlement must be a whole number of shillings'')
      else
        let s = gsettings db;
            after = s\<lparr>gatewayEnabled := keep_or (us_gatewayEnabled inp) (gatewayEnabled s),
                      feePercentBps := keep_or (us_feePercentBps inp) (feePercentBps s),
                      feeFixedMinor := keep_or (us_feeFixedMinor inp) (feeFixedMinor s),
                      settlementMode := keep_or (us_settlementMode inp) (settlementMode s),
                      settlementFrequency := keep_or (us_settlementFrequency inp) (settlementFrequency s),
                      settlementMinimumMinor := keep_or (us_settlementMinimumMinor inp) (settlementMinimumMinor s),
                      settlementHourEat := keep_or (us_settlementHourEat inp) (settlementHourEat s),
                      settlementWeekday := keep_or (us_settlementWeekday inp) (settlementWeekday s),
                      updatedByUserId := Some userId\<rparr>
        in Inr (after, db\<lparr>gsettings := after\<rparr>))"

section \<open>Collection\<close>

record collection_input =
  ci_tenantId :: id
  ci_paymentId :: id
  ci_grossMinor :: minor
  ci_currency :: string
  ci_channel :: gateway_channel
  ci_providerReference :: string
  ci_providerRequestId :: "string option"
  ci_payerPhone :: "string option"
  ci_customerId :: "id option"
  ci_invoiceId :: "id option"
  ci_paymentReferenceId :: "id option"
  ci_description :: string

definition getPlatformEnvironment :: "'x gateway_db_scheme \<Rightarrow> environment" where
  "getPlatformEnvironment db = (if mpesaProduction db then ENV_PRODUCTION else ENV_SANDBOX)"

definition middle_dot :: string where
  "middle_dot = '' '' @ [CHR 0xC2, CHR 0xB7] @ '' ''"

definition insert_gateway_txn :: "gateway_txn \<Rightarrow> 'x gateway_db_scheme \<Rightarrow> 'x gateway_db_scheme result" where
  "insert_gateway_txn g db =
     (if \<exists>x \<in> set (gatewayTxns db). g_paymentId x = g_paymentId g \<or> g_txnNumber x = g_txnNumber g
           \<or> (g_channel x = g_channel g \<and> g_providerReference x = g_providerReference g)
      then Inl UniqueViolation
      else Inr (db\<lparr>gatewayTxns := gatewayTxns db @ [g], nextId := nextId db + 1\<rparr>))"

text \<open>The two ledger rows of a collected payment.\<close>

definition collection_entry :: "gateway_txn \<Rightarrow> ledger_entry" where
  "collection_entry g =
     \<lparr>le_tenantId = g_tenantId g, le_direction = L_CREDIT, le_entryType = CUSTOMER_PAYMENT,
      le_amountMinor = g_grossMinor g, le_currency = g_currency g,
      le_description = g_description g @ middle_dot @ g_txnNumber g,
      le_sourceType = ''GatewayTransaction'', le_sourceId = g_id g,
      le_gatewayTransactionId = Some (g_id g), le_settlementId = None, le_createdByUserId = None\<rparr>"

definition collection_fee_entry :: "gateway_txn \<Rightarrow> ledger_entry" where
  "collection_fee_entry g =
     \<lparr>le_tenantId = g_tenantId g, le_direction = L_DEBIT, le_entryType = PLATFORM_FEE,
      le_amountMinor = g_feeMinor g, le_currency = g_currency g,
      le_description = ''Platform fee'' @ middle_dot @ g_txnNumber g,
      le_sourceType = ''GatewayTransactionFee'', le_sourceId = g_id g,
      le_gatewayTransactionId = Some (g_id g), le_settlementId = None, le_createdByUserId = None\<rparr>"

definition new_gateway_txn :: "collection_input \<Rightarrow> fee_breakdown \<Rightarrow> string \<Rightarrow> 'x gateway_db_scheme \<Rightarrow> gateway_txn" where
  "new_gateway_txn inp fee txnNumber db =
     \<lparr>g_id = nextId db, g_txnNumber = txnNumber, g_tenantId = ci_tenantId inp,
      g_paymentId = ci_paymentId inp, g_customerId = ci_customerId inp,
      g_invoiceId = ci_invoiceId inp, g_paymentReferenceId = ci_paymentReferenceId inp,
      g_channel = ci_channel inp, g_providerReference = ci_providerReference inp,
      g_providerRequestId = ci_providerRequestId inp, g_payerPhone = ci_payerPhone inp,
      g_environment = getPlatformEnvironment db, g_currency = ci_currency inp,
      g_grossMinor = fb_grossMinor fee, g_feeMinor = fb_feeMinor fee, g_netMinor = fb_netMinor fee,
      g_feePercentBps = fb_percentBps fee, g_feeFixedMinor = fb_fixedMinor fee,
      g_refundedMinor = 0, g_status = GT_COMPLETED, g_settlementStatus = UNSETTLED,
      g_settlementId = None, g_description = ci_description inp, g_createdAt = clock db\<rparr>"

definition recordPlatformCollection ::
  "collection_input \<Rightarrow> 'x gateway_db_scheme \<Rightarrow> ((gateway_txn \<times> bool) \<times> 'x gateway_db_scheme) result" where
  "recordPlatformCollection inp db =
     (case List.find (\<lambda>g. g_paymentId g = ci_paymentId inp) (gatewayTxns db) of
        Some existing \<Rightarrow> Inr ((existing, False), db)
      | None \<Rightarrow>
          (case calculateFee (ci_grossMinor inp) (getEffectiveFeeRule (ci_tenantId inp) db) of
             Inl e \<Rightarrow> Inl e
           | Inr fee \<Rightarrow>
               let (txnNumber, db1) = nextTransactionNumber db;
                   g = new_gateway_txn inp fee txnNumber db1
               in case insert_gateway_txn g db1 of
                    Inl e \<Rightarrow> Inl e
                  | Inr db2 \<Rightarrow>
                      (case appendLedgerEntry (collection_entry g) db2 of
                         Inl e \<Rightarrow> Inl e
                       | Inr (_, db3) \<Rightarrow>
                           if g_feeMinor g > 0
                           then (case appendLedgerEntry (collection_fee_entry g) db3 of
                                   Inl e \<Rightarrow> Inl e
                                 | Inr (_, db4) \<Rightarrow> Inr ((g, True), db4))
                           else Inr ((g, True), db3))))"

definition upgradeProvisionalReceipt :: "id \<Rightarrow> string \<Rightarrow> 'x gateway_db_scheme \<Rightarrow> 'x gateway_db_scheme" where
  "upgradeProvisionalReceipt paymentId receipt db =
     db\<lparr>gatewayTxns := update_where (\<lambda>g. g_paymentId g = paymentId \<and> starts_with ''PRV-'' (g_providerReference g))
          (\<lambda>g. g\<lparr>g_providerReference := receipt\<rparr>) (gatewayTxns db)\<rparr>"

section \<open>An empty database\<close>

text \<open>A gateway database with no rows but the settings, for the examples.\<close>

definition empty_gateway :: gateway_db where
  "empty_gateway = billing_db.extend empty_db
     (gateway_db.fields (default_settings\<lparr>feePercentBps := 200\<rparr>) [] [] [] [] [] [] 1 1 1 ''20260923'' False None None)"

lemma empty_gateway_fields [simp]:
  "ledgerEntries empty_gateway = []" "gatewayTxns empty_gateway = []" "gatewayRefunds empty_gateway = []"
  "destinations empty_gateway = []" "payouts empty_gateway = []" "nextId empty_gateway = 1" "tenants empty_gateway = []"
  "gsettings empty_gateway = default_settings\<lparr>feePercentBps := 200\<rparr>" "businessDay empty_gateway = ''20260923''"
  "txnSeq empty_gateway = 1" "clock empty_gateway = 0" "mpesaProduction empty_gateway = False" "stlSeq empty_gateway = 1"
  "userPhones empty_gateway = []" "nodeEnv empty_gateway = None" "sandboxFlag empty_gateway = None"
  by (simp_all add: empty_gateway_def billing_db.defs gateway_db.defs empty_db_def)

end
