(* ===== verification/GatewayInvariant.thy ===== *)
theory GatewayInvariant
  imports Ledger
begin

text \<open>
  What the payment gateway's tables promise of each other, and the platform collection of
  gateway/collection.service.ts that keeps it. Each part of the invariant is a predicate on the
  tables it speaks of, so that an operation that leaves a table alone keeps its part at once.
  The parts are proved here for a collection; the refunds and the settlements prove theirs, and
  \<open>GatewaySystem\<close> puts them together over all interleavings.
\<close>

section \<open>The parts of the invariant\<close>

text \<open>The source of an entry fixes its type, its direction and what it is linked to.\<close>

fun shape_of :: "string \<Rightarrow> entry_type \<Rightarrow> ledger_direction \<Rightarrow> bool" where
  "shape_of src CUSTOMER_PAYMENT dir \<longleftrightarrow> src = ''GatewayTransaction'' \<and> dir = L_CREDIT"
| "shape_of src PLATFORM_FEE dir \<longleftrightarrow> src = ''GatewayTransactionFee'' \<and> dir = L_DEBIT"
| "shape_of src PAYMENT_REVERSAL dir \<longleftrightarrow> src = ''GatewayRefund'' \<and> dir = L_DEBIT"
| "shape_of src REFUND dir \<longleftrightarrow> src = ''GatewayRefund'' \<and> dir = L_DEBIT"
| "shape_of src FEE_REVERSAL dir \<longleftrightarrow> src = ''GatewayRefundFee'' \<and> dir = L_CREDIT"
| "shape_of src SETTLEMENT dir \<longleftrightarrow> src = ''Settlement'' \<and> dir = L_DEBIT"
| "shape_of src SETTLEMENT_REVERSAL dir \<longleftrightarrow> src = ''SettlementReversal'' \<and> dir = L_CREDIT"
| "shape_of src ADJUSTMENT dir \<longleftrightarrow> False"

definition entry_shape :: "ledger_entry \<Rightarrow> bool" where
  "entry_shape e \<longleftrightarrow> shape_of (le_sourceType e) (le_entryType e) (le_direction e)
     \<and> (le_entryType e \<in> {CUSTOMER_PAYMENT, PLATFORM_FEE} \<longrightarrow> le_gatewayTransactionId e = Some (le_sourceId e))
     \<and> (le_entryType e \<in> {SETTLEMENT, SETTLEMENT_REVERSAL} \<longrightarrow> le_settlementId e = Some (le_sourceId e))"

definition entry_keys :: "ledger_entry list \<Rightarrow> (string \<times> id) set" where
  "entry_keys es = entry_key ` set es"

definition journal_ok :: "id \<Rightarrow> ledger_entry list \<Rightarrow> bool" where
  "journal_ok n es \<longleftrightarrow> distinct (map entry_key es)
     \<and> (\<forall>e \<in> set es. entry_ok e \<and> entry_shape e \<and> le_sourceId e < n)"

definition txn_ok :: "gateway_txn \<Rightarrow> bool" where
  "txn_ok g \<longleftrightarrow> 0 < g_grossMinor g \<and> is_safe_integer (g_grossMinor g) \<and> 0 \<le> g_feeMinor g \<and> g_feeMinor g \<le> g_grossMinor g
     \<and> g_netMinor g = g_grossMinor g - g_feeMinor g \<and> 0 \<le> g_refundedMinor g \<and> g_refundedMinor g \<le> g_grossMinor g
     \<and> (g_status g \<in> {GT_REFUNDED, GT_REVERSED} \<longleftrightarrow> g_refundedMinor g = g_grossMinor g)"

definition txns_ok :: "id \<Rightarrow> gateway_txn list \<Rightarrow> bool" where
  "txns_ok n gs \<longleftrightarrow> distinct (map g_id gs) \<and> (\<forall>g \<in> set gs. txn_ok g \<and> g_id g < n)"

definition refunded_of :: "id \<Rightarrow> gateway_refund list \<Rightarrow> minor" where
  "refunded_of g rs = sum_where (\<lambda>r. gr_gatewayTransactionId r = g) gr_amountMinor rs"

definition fee_returned_of :: "id \<Rightarrow> gateway_refund list \<Rightarrow> minor" where
  "fee_returned_of g rs = sum_where (\<lambda>r. gr_gatewayTransactionId r = g) gr_feeReturnedMinor rs"

definition refunds_ok :: "id \<Rightarrow> gateway_txn list \<Rightarrow> gateway_refund list \<Rightarrow> bool" where
  "refunds_ok n gs rs \<longleftrightarrow> distinct (map gr_id rs)
     \<and> (\<forall>r \<in> set rs. gr_id r < n \<and> 0 < gr_amountMinor r \<and> 0 \<le> gr_feeReturnedMinor r
          \<and> (\<exists>g \<in> set gs. g_id g = gr_gatewayTransactionId r \<and> g_tenantId g = gr_tenantId r))
     \<and> (\<forall>g \<in> set gs. refunded_of (g_id g) rs = g_refundedMinor g
          \<and> fee_returned_of (g_id g) rs \<le> g_feeMinor g
          \<and> (g_refundedMinor g = g_grossMinor g \<longrightarrow> fee_returned_of (g_id g) rs = g_feeMinor g))"

text \<open>A payout whose reservation was given back.\<close>

definition given_back :: "settlement_status \<Rightarrow> bool" where
  "given_back s \<longleftrightarrow> s = ST_FAILED \<or> s = CANCELLED"

definition queued :: "settlement_status \<Rightarrow> bool" where
  "queued s \<longleftrightarrow> s = REQUESTED \<or> s = AWAITING_APPROVAL"

definition payouts_ok :: "id \<Rightarrow> payout list \<Rightarrow> bool" where
  "payouts_ok n ys \<longleftrightarrow> distinct (map y_id ys) \<and> (\<forall>y \<in> set ys. y_id y < n \<and> 0 < y_amountMinor y \<and> is_safe_integer (y_amountMinor y))
     \<and> (\<forall>y \<in> set ys. \<forall>z \<in> set ys. queued (y_status y) \<longrightarrow> queued (y_status z) \<longrightarrow> y_tenantId y = y_tenantId z \<longrightarrow> y = z)"

text \<open>Which movements the ledger must hold, and which it must not.\<close>

definition linked :: "(string \<times> id) set \<Rightarrow> gateway_txn list \<Rightarrow> payout list \<Rightarrow> bool" where
  "linked ks gs ys \<longleftrightarrow>
     (\<forall>g \<in> set gs. (''GatewayTransaction'', g_id g) \<in> ks \<and> (0 < g_feeMinor g \<longrightarrow> (''GatewayTransactionFee'', g_id g) \<in> ks))
   \<and> (\<forall>y \<in> set ys. (''Settlement'', y_id y) \<in> ks \<and> ((''SettlementReversal'', y_id y) \<in> ks \<longleftrightarrow> given_back (y_status y)))"

definition txn_sum :: "id \<Rightarrow> (gateway_txn \<Rightarrow> minor) \<Rightarrow> gateway_txn list \<Rightarrow> minor" where
  "txn_sum t v gs = sum_where (\<lambda>g. g_tenantId g = t) v gs"

definition refund_sum :: "id \<Rightarrow> (gateway_refund \<Rightarrow> minor) \<Rightarrow> gateway_refund list \<Rightarrow> minor" where
  "refund_sum t v rs = sum_where (\<lambda>r. gr_tenantId r = t) v rs"

definition is_refund_entry :: "ledger_entry \<Rightarrow> bool" where
  "is_refund_entry e \<longleftrightarrow> of_type PAYMENT_REVERSAL e \<or> of_type REFUND e"

definition collected_sums :: "ledger_entry list \<Rightarrow> gateway_txn list \<Rightarrow> bool" where
  "collected_sums es gs \<longleftrightarrow> (\<forall>t. sum_entries t (of_type CUSTOMER_PAYMENT) es = txn_sum t g_grossMinor gs
     \<and> sum_entries t (of_type PLATFORM_FEE) es = txn_sum t g_feeMinor gs)"

definition refund_sums :: "ledger_entry list \<Rightarrow> gateway_txn list \<Rightarrow> gateway_refund list \<Rightarrow> bool" where
  "refund_sums es gs rs \<longleftrightarrow> (\<forall>t. sum_entries t is_refund_entry es = refund_sum t gr_amountMinor rs
     \<and> sum_entries t (of_type FEE_REVERSAL) es = refund_sum t gr_feeReturnedMinor rs
     \<and> refund_sum t gr_amountMinor rs = txn_sum t g_refundedMinor gs
     \<and> refund_sum t gr_feeReturnedMinor rs = txn_sum t (\<lambda>g. fee_returned_of (g_id g) rs) gs)"

definition payout_sums :: "ledger_entry list \<Rightarrow> payout list \<Rightarrow> bool" where
  "payout_sums es ys \<longleftrightarrow> (\<forall>t. sum_entries t (of_type SETTLEMENT) es = sum_payouts t (\<lambda>s. True) ys
     \<and> sum_entries t (of_type SETTLEMENT_REVERSAL) es = sum_payouts t given_back ys)"

text \<open>What was sent or is on its way was collected before.\<close>

definition covered :: "gateway_txn list \<Rightarrow> payout list \<Rightarrow> bool" where
  "covered gs ys \<longleftrightarrow> (\<forall>t. sum_payouts t (\<lambda>s. \<not> given_back s) ys \<le> txn_sum t g_grossMinor gs)"

definition gateway_ok :: "'x gateway_db_scheme \<Rightarrow> bool" where
  "gateway_ok db \<longleftrightarrow>
     journal_ok (nextId db) (ledgerEntries db) \<and> txns_ok (nextId db) (gatewayTxns db)
   \<and> refunds_ok (nextId db) (gatewayTxns db) (gatewayRefunds db) \<and> payouts_ok (nextId db) (payouts db)
   \<and> linked (entry_keys (ledgerEntries db)) (gatewayTxns db) (payouts db)
   \<and> collected_sums (ledgerEntries db) (gatewayTxns db)
   \<and> refund_sums (ledgerEntries db) (gatewayTxns db) (gatewayRefunds db)
   \<and> payout_sums (ledgerEntries db) (payouts db) \<and> covered (gatewayTxns db) (payouts db)"

section \<open>Lemmas on the parts\<close>

lemma entry_keys_append [simp]: "entry_keys (es @ fs) = entry_keys es \<union> entry_keys fs"
  and entry_keys_Cons [simp]: "entry_keys (e # es) = insert (entry_key e) (entry_keys es)"
  and entry_keys_Nil [simp]: "entry_keys [] = {}"
  by (auto simp: entry_keys_def)

lemma sum_entries_simps [simp]:
  "sum_entries t p [] = 0"
  "sum_entries t p (e # es) = (if le_tenantId e = t \<and> p e then le_amountMinor e else 0) + sum_entries t p es"
  "sum_entries t p (es @ fs) = sum_entries t p es + sum_entries t p fs"
  by (simp_all add: sum_entries_def)

lemma journal_fresh: "journal_ok n es \<Longrightarrow> n \<le> i \<Longrightarrow> (src, i) \<notin> entry_keys es"
  by (fastforce simp: journal_ok_def entry_keys_def entry_key_def)

lemma journal_ok_append:
  assumes "journal_ok n es" "entry_key e \<notin> entry_keys es" "entry_ok e" "entry_shape e" "le_sourceId e < m" "n \<le> m"
  shows "journal_ok m (es @ [e])"
  using assms by (fastforce simp: journal_ok_def entry_keys_def)

lemma journal_ok_mono: "journal_ok n es \<Longrightarrow> n \<le> m \<Longrightarrow> journal_ok m es"
  by (auto simp: journal_ok_def)

lemma txns_ok_mono: "txns_ok n gs \<Longrightarrow> n \<le> m \<Longrightarrow> txns_ok m gs"
  by (auto simp: txns_ok_def)

lemma refunds_ok_mono: "refunds_ok n gs rs \<Longrightarrow> n \<le> m \<Longrightarrow> refunds_ok m gs rs"
  by (auto simp: refunds_ok_def)

lemma payouts_ok_mono: "payouts_ok n ys \<Longrightarrow> n \<le> m \<Longrightarrow> payouts_ok m ys"
  unfolding payouts_ok_def using order_less_le_trans by blast

lemma credits_minus_debits:
  assumes "\<forall>e \<in> set es. entry_shape e"
  shows "sum_entries t (\<lambda>e. le_direction e = L_CREDIT) es - sum_entries t (\<lambda>e. le_direction e = L_DEBIT) es =
    sum_entries t (of_type CUSTOMER_PAYMENT) es + sum_entries t (of_type FEE_REVERSAL) es
    + sum_entries t (of_type SETTLEMENT_REVERSAL) es - sum_entries t (of_type PLATFORM_FEE) es
    - sum_entries t is_refund_entry es - sum_entries t (of_type SETTLEMENT) es"
  using assms
proof (induction es)
  case (Cons e es)
  then have IH: "sum_entries t (\<lambda>e. le_direction e = L_CREDIT) es - sum_entries t (\<lambda>e. le_direction e = L_DEBIT) es =
    sum_entries t (of_type CUSTOMER_PAYMENT) es + sum_entries t (of_type FEE_REVERSAL) es
    + sum_entries t (of_type SETTLEMENT_REVERSAL) es - sum_entries t (of_type PLATFORM_FEE) es
    - sum_entries t is_refund_entry es - sum_entries t (of_type SETTLEMENT) es" by simp
  have sh: "shape_of (le_sourceType e) (le_entryType e) (le_direction e)"
    using Cons.prems by (simp add: entry_shape_def)
  have "(if le_tenantId e = t \<and> le_direction e = L_CREDIT then le_amountMinor e else 0)
      - (if le_tenantId e = t \<and> le_direction e = L_DEBIT then le_amountMinor e else 0) =
      (if le_tenantId e = t \<and> of_type CUSTOMER_PAYMENT e then le_amountMinor e else 0)
      + (if le_tenantId e = t \<and> of_type FEE_REVERSAL e then le_amountMinor e else 0)
      + (if le_tenantId e = t \<and> of_type SETTLEMENT_REVERSAL e then le_amountMinor e else 0)
      - (if le_tenantId e = t \<and> of_type PLATFORM_FEE e then le_amountMinor e else 0)
      - (if le_tenantId e = t \<and> is_refund_entry e then le_amountMinor e else 0)
      - (if le_tenantId e = t \<and> of_type SETTLEMENT e then le_amountMinor e else 0)"
    using sh by (cases "le_entryType e") (auto simp: is_refund_entry_def)
  with IH show ?case unfolding sum_entries_simps by linarith
qed simp

lemma payouts_all: "sum_payouts t (\<lambda>s. True) ys = sum_payouts t (\<lambda>s. \<not> given_back s) ys + sum_payouts t given_back ys"
  unfolding sum_payouts_def by (rule sum_where_split) auto

lemma payouts_open: "sum_payouts t (\<lambda>s. \<not> given_back s) ys = sum_payouts t (\<lambda>s. s = SETTLED) ys + sum_payouts t in_flight ys"
  unfolding sum_payouts_def
proof (rule sum_where_split)
  fix y :: payout
  show "y_tenantId y = t \<and> \<not> given_back (y_status y) \<longleftrightarrow>
      y_tenantId y = t \<and> y_status y = SETTLED \<or> y_tenantId y = t \<and> in_flight (y_status y)"
    by (cases "y_status y") (auto simp: given_back_def in_flight_def)
qed (auto simp: in_flight_def)

text \<open>The balance a tenant is shown, spelled out by its parts.\<close>

lemma balance_equation:
  assumes "gateway_ok db"
  shows "availableMinor (getTenantBalance t db) =
    collectedMinor (getTenantBalance t db) - feesMinor (getTenantBalance t db) - refundsMinor (getTenantBalance t db)
    - settledMinor (getTenantBalance t db) - pendingSettlementMinor (getTenantBalance t db)"
proof -
  have sh: "\<forall>e \<in> set (ledgerEntries db). entry_shape e" using assms by (simp add: gateway_ok_def journal_ok_def)
  have p: "sum_entries t (of_type SETTLEMENT) (ledgerEntries db) - sum_entries t (of_type SETTLEMENT_REVERSAL) (ledgerEntries db)
      = sum_payouts t (\<lambda>s. s = SETTLED) (payouts db) + sum_payouts t in_flight (payouts db)"
    using assms payouts_all [of t "payouts db"] payouts_open [of t "payouts db"] by (simp add: gateway_ok_def payout_sums_def)
  show ?thesis
    using credits_minus_debits [OF sh, of t] p unfolding is_refund_entry_def [abs_def]
    by (simp add: getTenantBalance_def Let_def)
qed

lemma fees_kept:
  assumes "gateway_ok db"
  shows "0 \<le> feesMinor (getTenantBalance t db)" and "0 \<le> refundsMinor (getTenantBalance t db)"
proof -
  have f: "fee_returned_of (g_id g) (gatewayRefunds db) \<le> g_feeMinor g" if "g \<in> set (gatewayTxns db)" for g
    using assms that by (simp add: gateway_ok_def refunds_ok_def)
  have "txn_sum t (\<lambda>g. fee_returned_of (g_id g) (gatewayRefunds db)) (gatewayTxns db) \<le> txn_sum t g_feeMinor (gatewayTxns db)"
    unfolding txn_sum_def by (rule sum_where_mono) (rule f)
  then show "0 \<le> feesMinor (getTenantBalance t db)"
    using assms by (simp add: gateway_ok_def getTenantBalance_def Let_def collected_sums_def refund_sums_def)
  have "0 \<le> le_amountMinor e" if "e \<in> set (ledgerEntries db)" for e
    using assms that by (auto simp: gateway_ok_def journal_ok_def entry_ok_def)
  then show "0 \<le> refundsMinor (getTenantBalance t db)"
    by (simp add: getTenantBalance_def Let_def sum_entries_def sum_where_nonneg)
qed

section \<open>Collection\<close>

lemma collection_entry_ok:
  assumes "txn_ok g"
  shows "entry_ok (collection_entry g)" "entry_shape (collection_entry g)"
    "0 < g_feeMinor g \<Longrightarrow> entry_ok (collection_fee_entry g)" "entry_shape (collection_fee_entry g)"
  using assms by (auto simp: txn_ok_def entry_ok_def entry_shape_def collection_entry_def collection_fee_entry_def
      is_safe_integer_def)

lemma collection_entry_key [simp]:
  "entry_key (collection_entry g) = (''GatewayTransaction'', g_id g)"
  "entry_key (collection_fee_entry g) = (''GatewayTransactionFee'', g_id g)"
  by (simp_all add: entry_key_def collection_entry_def collection_fee_entry_def)

lemma new_txn_ok:
  assumes "calculateFee (ci_grossMinor inp) rule = Inr fee"
  shows "txn_ok (new_gateway_txn inp fee no db)"
proof -
  have "is_safe_integer (ci_grossMinor inp)"
    using assms by (auto simp: calculateFee_def split: if_splits)
  with calculateFee_bounds [OF assms] show ?thesis by (simp add: txn_ok_def new_gateway_txn_def)
qed

definition after_collection :: "gateway_txn \<Rightarrow> 'x gateway_db_scheme \<Rightarrow> 'x gateway_db_scheme" where
  "after_collection g db = db\<lparr>nextId := nextId db + 1, gatewayTxns := gatewayTxns db @ [g],
     ledgerEntries := ledgerEntries db @ collection_entry g # (if 0 < g_feeMinor g then [collection_fee_entry g] else []),
     txnSeq := txnSeq db + 1\<rparr>"

lemma collection_spec:
  assumes "recordPlatformCollection inp db = Inr ((g, True), db')" and j: "journal_ok (nextId db) (ledgerEntries db)"
  obtains fee where "calculateFee (ci_grossMinor inp) (getEffectiveFeeRule (ci_tenantId inp) db) = Inr fee"
    "g = new_gateway_txn inp fee (fst (nextTransactionNumber db)) db" "db' = after_collection g db"
    "List.find (\<lambda>g. g_paymentId g = ci_paymentId inp) (gatewayTxns db) = None"
proof -
  have none: "List.find (\<lambda>g. g_paymentId g = ci_paymentId inp) (gatewayTxns db) = None"
    using assms(1) by (auto simp: recordPlatformCollection_def split: option.splits)
  obtain fee where fee: "calculateFee (ci_grossMinor inp) (getEffectiveFeeRule (ci_tenantId inp) db) = Inr fee"
    using assms(1) none by (auto simp: recordPlatformCollection_def split: sum.splits)
  define db1 where "db1 = snd (nextTransactionNumber db)"
  define no where "no = fst (nextTransactionNumber db)"
  define n where "n = new_gateway_txn inp fee no db"
  have num: "nextTransactionNumber db = (no, db1)" by (simp add: no_def db1_def)
  have n1: "new_gateway_txn inp fee no db1 = n"
    by (simp add: n_def db1_def nextTransactionNumber_def new_gateway_txn_def getPlatformEnvironment_def)
  define db2 where "db2 = db1\<lparr>gatewayTxns := gatewayTxns db1 @ [n], nextId := nextId db1 + 1\<rparr>"
  have ok: "txn_ok n" unfolding n_def by (rule new_txn_ok [OF fee])
  have id: "g_id n = nextId db" by (simp add: n_def new_gateway_txn_def)
  have led2: "ledgerEntries db2 = ledgerEntries db" by (simp add: db2_def db1_def nextTransactionNumber_def)
  have a1: "appendLedgerEntry (collection_entry n) db2 = Inr (True, db2\<lparr>ledgerEntries := ledgerEntries db @ [collection_entry n]\<rparr>)"
    using append_new_entry [of "collection_entry n" db2] journal_fresh [OF j, of "nextId db"] collection_entry_ok [OF ok] led2 id
    by (simp add: entry_keys_def entry_key_def collection_entry_def)
  define db3 where "db3 = db2\<lparr>ledgerEntries := ledgerEntries db @ [collection_entry n]\<rparr>"
  have a2: "0 < g_feeMinor n \<Longrightarrow> appendLedgerEntry (collection_fee_entry n) db3 =
      Inr (True, db3\<lparr>ledgerEntries := ledgerEntries db @ [collection_entry n, collection_fee_entry n]\<rparr>)"
    using append_new_entry [of "collection_fee_entry n" db3] journal_fresh [OF j, of "nextId db"] collection_entry_ok [OF ok] id
    by (simp add: entry_keys_def entry_key_def collection_entry_def collection_fee_entry_def db3_def)
  have ins: "insert_gateway_txn n db1 = Inr db2"
    using assms(1) none fee n1 num unfolding recordPlatformCollection_def
    by (auto simp: insert_gateway_txn_def db2_def split: if_splits)
  have res: "recordPlatformCollection inp db = Inr ((n, True), if 0 < g_feeMinor n
      then db3\<lparr>ledgerEntries := ledgerEntries db @ [collection_entry n, collection_fee_entry n]\<rparr> else db3)"
    using none fee n1 num ins a1 a2 unfolding recordPlatformCollection_def by (simp add: db3_def)
  have "db' = after_collection n db" "g = n"
    using res assms(1) by (auto simp: after_collection_def db3_def db2_def db1_def nextTransactionNumber_def)
  then show thesis using that fee none by (simp add: n_def no_def)
qed

lemma refunds_ok_new_txn:
  assumes "refunds_ok n gs rs" "txns_ok n gs" "n \<le> g_id g" "g_refundedMinor g = 0" "0 < g_grossMinor g" "0 \<le> g_feeMinor g" "n \<le> m"
  shows "refunds_ok m (gs @ [g]) rs"
proof -
  have "gr_gatewayTransactionId r \<noteq> g_id g" if "r \<in> set rs" for r
    using assms(1-3) that by (fastforce simp: refunds_ok_def txns_ok_def)
  then have "refunded_of (g_id g) rs = 0" "fee_returned_of (g_id g) rs = 0"
    unfolding refunded_of_def fee_returned_of_def sum_where_def by (simp_all add: sum_list_0 cong: map_cong)
  then show ?thesis using assms by (auto simp: refunds_ok_def)
qed

lemma fee_returned_new_txn:
  assumes "refunds_ok n gs rs" "txns_ok n gs" "n \<le> g_id g"
  shows "fee_returned_of (g_id g) rs = 0"
proof -
  have "gr_gatewayTransactionId r \<noteq> g_id g" if "r \<in> set rs" for r
    using assms that by (fastforce simp: refunds_ok_def txns_ok_def)
  then show ?thesis unfolding fee_returned_of_def sum_where_def by (simp add: sum_list_0 cong: map_cong)
qed

lemma collection_keeps_gateway_ok:
  assumes ok: "gateway_ok db" and "recordPlatformCollection inp db = Inr ((g, new), db')"
  shows "gateway_ok db'"
proof (cases new)
  case False
  then have "db' = db" using assms(2) unfolding recordPlatformCollection_def
    by (auto simp: Let_def split: option.splits sum.splits prod.splits if_splits)
  then show ?thesis using ok by simp
next
  case True
  have j: "journal_ok (nextId db) (ledgerEntries db)" and tx: "txns_ok (nextId db) (gatewayTxns db)"
    and rf: "refunds_ok (nextId db) (gatewayTxns db) (gatewayRefunds db)" and po: "payouts_ok (nextId db) (payouts db)"
    and li: "linked (entry_keys (ledgerEntries db)) (gatewayTxns db) (payouts db)"
    and cs: "collected_sums (ledgerEntries db) (gatewayTxns db)"
    and rs: "refund_sums (ledgerEntries db) (gatewayTxns db) (gatewayRefunds db)"
    and ps: "payout_sums (ledgerEntries db) (payouts db)" and co: "covered (gatewayTxns db) (payouts db)"
    using ok by (simp_all add: gateway_ok_def)
  obtain fee where fee: "calculateFee (ci_grossMinor inp) (getEffectiveFeeRule (ci_tenantId inp) db) = Inr fee"
    and g: "g = new_gateway_txn inp fee (fst (nextTransactionNumber db)) db" and db': "db' = after_collection g db"
    using assms(2) True by (auto elim: collection_spec [OF _ j])
  have tok: "txn_ok g" unfolding g by (rule new_txn_ok [OF fee])
  have id: "g_id g = nextId db" "g_refundedMinor g = 0" by (simp_all add: g new_gateway_txn_def)
  let ?es = "ledgerEntries db @ collection_entry g # (if 0 < g_feeMinor g then [collection_fee_entry g] else [])"
  have j1: "journal_ok (nextId db + 1) (ledgerEntries db @ [collection_entry g])"
    by (rule journal_ok_append [OF j])
      (use collection_entry_ok [OF tok] id journal_fresh [OF j, of "nextId db"] in \<open>auto simp: entry_key_def collection_entry_def\<close>)
  have "journal_ok (nextId db + 1) ((ledgerEntries db @ [collection_entry g]) @ [collection_fee_entry g])" if "0 < g_feeMinor g"
    by (rule journal_ok_append [OF j1])
      (use collection_entry_ok [OF tok] id that journal_fresh [OF j, of "nextId db"] in
        \<open>auto simp: entry_key_def collection_entry_def collection_fee_entry_def\<close>)
  with j1 have j2: "journal_ok (nextId db + 1) ?es" by auto
  have t2: "txns_ok (nextId db + 1) (gatewayTxns db @ [g])"
    using tx tok id by (fastforce simp: txns_ok_def)
  have r2: "refunds_ok (nextId db + 1) (gatewayTxns db @ [g]) (gatewayRefunds db)"
    using refunds_ok_new_txn [OF rf tx] tok id by (simp add: txn_ok_def)
  have l2: "linked (entry_keys ?es) (gatewayTxns db @ [g]) (payouts db)"
    using li by (auto simp: linked_def)
  have c2: "collected_sums ?es (gatewayTxns db @ [g])"
    using cs tok by (auto simp: collected_sums_def txn_sum_def collection_entry_def collection_fee_entry_def txn_ok_def)
  have rs2: "refund_sums ?es (gatewayTxns db @ [g]) (gatewayRefunds db)"
    using rs fee_returned_new_txn [OF rf tx, of g] id
    by (auto simp: refund_sums_def txn_sum_def is_refund_entry_def collection_entry_def collection_fee_entry_def)
  have p2: "payout_sums ?es (payouts db)"
    using ps by (auto simp: payout_sums_def collection_entry_def collection_fee_entry_def)
  have co2: "covered (gatewayTxns db @ [g]) (payouts db)"
    using co tok by (auto simp: covered_def txn_sum_def txn_ok_def add_increasing2)
  show ?thesis
    using j2 t2 r2 payouts_ok_mono [OF po, of "nextId db + 1"] l2 c2 rs2 p2 co2
    by (simp add: gateway_ok_def db' after_collection_def)
qed

text \<open>What a collection does to every tenant's balance.\<close>

lemma collection_balance:
  assumes ok: "gateway_ok db" and c: "recordPlatformCollection inp db = Inr ((g, True), db')"
  shows "collectedMinor (getTenantBalance t db') = collectedMinor (getTenantBalance t db) + (if t = ci_tenantId inp then ci_grossMinor inp else 0)"
    and "feesMinor (getTenantBalance t db') = feesMinor (getTenantBalance t db) + (if t = ci_tenantId inp then g_feeMinor g else 0)"
    and "availableMinor (getTenantBalance t db') = availableMinor (getTenantBalance t db) + (if t = ci_tenantId inp then g_netMinor g else 0)"
    and "g_feeMinor g + g_netMinor g = ci_grossMinor inp" "0 \<le> g_feeMinor g" "0 \<le> g_netMinor g"
    and "g \<in> set (gatewayTxns db')" "g_paymentId g = ci_paymentId inp"
    and "List.find (\<lambda>g. g_paymentId g = ci_paymentId inp) (gatewayTxns db') = Some g"
proof -
  have j: "journal_ok (nextId db) (ledgerEntries db)" using ok by (simp add: gateway_ok_def)
  obtain fee where fee: "calculateFee (ci_grossMinor inp) (getEffectiveFeeRule (ci_tenantId inp) db) = Inr fee"
    and g: "g = new_gateway_txn inp fee (fst (nextTransactionNumber db)) db" and db': "db' = after_collection g db"
    and none: "List.find (\<lambda>g. g_paymentId g = ci_paymentId inp) (gatewayTxns db) = None"
    using collection_spec [OF c j] by metis
  have f: "0 \<le> g_feeMinor g" "0 \<le> g_netMinor g" "g_grossMinor g = ci_grossMinor inp"
      "g_feeMinor g + g_netMinor g = ci_grossMinor inp" "g_tenantId g = ci_tenantId inp"
      "g_paymentId g = ci_paymentId inp"
    using calculateFee_bounds [OF fee] by (simp_all add: g new_gateway_txn_def)
  show "collectedMinor (getTenantBalance t db') = collectedMinor (getTenantBalance t db) + (if t = ci_tenantId inp then ci_grossMinor inp else 0)"
    "feesMinor (getTenantBalance t db') = feesMinor (getTenantBalance t db) + (if t = ci_tenantId inp then g_feeMinor g else 0)"
    "availableMinor (getTenantBalance t db') = availableMinor (getTenantBalance t db) + (if t = ci_tenantId inp then g_netMinor g else 0)"
    using f by (auto simp: db' after_collection_def getTenantBalance_def Let_def collection_entry_def collection_fee_entry_def)
  show "g_feeMinor g + g_netMinor g = ci_grossMinor inp" "0 \<le> g_feeMinor g" "0 \<le> g_netMinor g"
    "g_paymentId g = ci_paymentId inp" "g \<in> set (gatewayTxns db')"
    using f by (simp_all add: db' after_collection_def)
  show "List.find (\<lambda>g. g_paymentId g = ci_paymentId inp) (gatewayTxns db') = Some g"
    using none f by (simp add: db' after_collection_def find_append)
qed

text \<open>
  A payment the platform collected is credited to its tenant exactly once. Recording it
  raises that tenant's balance by the net amount (gross minus the fee, both at least zero),
  leaves every other tenant's balance alone, and keeps the gateway's invariant; recording the
  same payment again, with whatever other details, changes nothing and returns the first
  transaction.
\<close>

theorem collection_credits_once:
  assumes "gateway_ok db" and "recordPlatformCollection inp db = Inr ((g, True), db')"
  shows "gateway_ok db' \<and> g_feeMinor g + g_netMinor g = ci_grossMinor inp \<and> 0 \<le> g_feeMinor g \<and> 0 \<le> g_netMinor g
    \<and> availableMinor (getTenantBalance t db') = availableMinor (getTenantBalance t db) + (if t = ci_tenantId inp then g_netMinor g else 0)
    \<and> (ci_paymentId again = ci_paymentId inp \<longrightarrow> recordPlatformCollection again db' = Inr ((g, False), db'))"
proof -
  have "recordPlatformCollection again db' = Inr ((g, False), db')" if "ci_paymentId again = ci_paymentId inp"
    using collection_balance(9) [OF assms] that by (simp add: recordPlatformCollection_def)
  then show ?thesis
    using collection_keeps_gateway_ok [OF assms] collection_balance(3) [OF assms, of t]
      collection_balance(4-6) [OF assms] by blast
qed

text \<open>A collection into the empty database, for the examples.\<close>

definition sample_collection :: collection_input where
  "sample_collection = \<lparr>ci_tenantId = 7, ci_paymentId = 90, ci_grossMinor = 100000, ci_currency = ''KES'',
     ci_channel = MPESA_STK, ci_providerReference = ''QX1'', ci_providerRequestId = None, ci_payerPhone = None,
     ci_customerId = Some 3, ci_invoiceId = Some 70, ci_paymentReferenceId = None, ci_description = ''Invoice''\<rparr>"

definition sample_txn :: gateway_txn where
  "sample_txn = new_gateway_txn sample_collection
     \<lparr>fb_grossMinor = 100000, fb_feeMinor = 2000, fb_netMinor = 98000, fb_percentBps = 200, fb_fixedMinor = 0\<rparr>
     (number_text ''TXN'' ''20260923'' 1) empty_gateway"

lemma empty_gateway_ok: "gateway_ok empty_gateway"
  by (simp add: gateway_ok_def journal_ok_def txns_ok_def refunds_ok_def payouts_ok_def
      linked_def collected_sums_def refund_sums_def payout_sums_def covered_def sum_payouts_def txn_sum_def
      refund_sum_def)

lemma sample_collects:
  "recordPlatformCollection sample_collection empty_gateway = Inr ((sample_txn, True), after_collection sample_txn empty_gateway)"
proof -
  have "calculateFee 100000 \<lparr>percentBps = 200, fixedMinor = 0\<rparr> = Inr \<lparr>fb_grossMinor = 100000, fb_feeMinor = 2000,
      fb_netMinor = 98000, fb_percentBps = 200, fb_fixedMinor = 0\<rparr>"
    by (simp add: calculateFee_def assertWholeNonNegative_def is_safe_integer_def max_safe_integer_def)
  then show ?thesis
    by (simp add: recordPlatformCollection_def getEffectiveFeeRule_def nextTransactionNumber_def insert_gateway_txn_def
        appendLedgerEntry_def after_collection_def sample_txn_def new_gateway_txn_def getPlatformEnvironment_def
        sample_collection_def collection_entry_def collection_fee_entry_def entry_key_def is_safe_integer_def
        max_safe_integer_def default_settings_def Let_def)
qed

theorem collection_credits_once_witness:
  "gateway_ok (after_collection sample_txn empty_gateway)
   \<and> availableMinor (getTenantBalance 7 (after_collection sample_txn empty_gateway)) =
     availableMinor (getTenantBalance 7 empty_gateway) + 98000"
  using collection_credits_once [OF empty_gateway_ok sample_collects, of 7 sample_collection]
  by (simp add: sample_txn_def new_gateway_txn_def sample_collection_def)

end
