(* ===== verification/GatewayRefunds.thy ===== *)
theory GatewayRefunds
  imports GatewayInvariant Payments
begin

text \<open>
  Money going back after the platform collected it: packages/payments/src/gateway/refund.service.ts.
  A refund debits the tenant and returns a share of the fee; a reversal takes the whole rest and
  reverses the billing payment as well.
\<close>

record refund_input =
  ri_gatewayTransactionId :: id
  ri_kind :: refund_kind
  ri_amountMinor :: "minor option"
  ri_reason :: string
  ri_moneyAlreadyReturned :: bool
  ri_externalReference :: "string option"
  ri_userId :: id
  ri_tenantId :: "id option"

definition find_txn :: "id \<Rightarrow> 'x gateway_db_scheme \<Rightarrow> gateway_txn option" where
  "find_txn i db = List.find (\<lambda>g. g_id g = i) (gatewayTxns db)"

definition refund_amount :: "refund_input \<Rightarrow> gateway_txn \<Rightarrow> minor" where
  "refund_amount inp txn = (if ri_kind inp = K_REVERSAL then g_grossMinor txn - g_refundedMinor txn
     else case ri_amountMinor inp of Some a \<Rightarrow> a | None \<Rightarrow> 0)"

definition new_refund :: "refund_input \<Rightarrow> gateway_txn \<Rightarrow> 'x gateway_db_scheme \<Rightarrow> gateway_refund" where
  "new_refund inp txn db =
     (let amountMinor = refund_amount inp txn;
          completed = (ri_kind inp = K_REVERSAL \<and> ri_moneyAlreadyReturned inp)
      in \<lparr>gr_id = nextId db, gr_refundNumber = fst (nextRefundNumber db), gr_tenantId = g_tenantId txn,
          gr_gatewayTransactionId = g_id txn, gr_kind = ri_kind inp, gr_amountMinor = amountMinor,
          gr_feeReturnedMinor = feeShareForRefund (g_grossMinor txn) (g_feeMinor txn) (g_refundedMinor txn)
            (fee_returned_of (g_id txn) (gatewayRefunds db)) amountMinor,
          gr_reason = take 500 (trim (ri_reason inp)),
          gr_status = (if completed then RF_COMPLETED else PENDING_CUSTOMER_PAYOUT),
          gr_externalReference = trim_or_null (ri_externalReference inp),
          gr_createdByUserId = Some (ri_userId inp),
          gr_completedAt = (if completed then Some (clock db) else None),
          gr_completedByUserId = (if completed then Some (ri_userId inp) else None)\<rparr>)"

definition insert_gateway_refund :: "gateway_refund \<Rightarrow> 'x gateway_db_scheme \<Rightarrow> 'x gateway_db_scheme result" where
  "insert_gateway_refund r db =
     (if \<exists>x \<in> set (gatewayRefunds db). gr_refundNumber x = gr_refundNumber r
           \<or> (gr_kind x = K_REVERSAL \<and> gr_kind r = K_REVERSAL \<and> gr_gatewayTransactionId x = gr_gatewayTransactionId r)
      then Inl UniqueViolation
      else Inr (db\<lparr>gatewayRefunds := gatewayRefunds db @ [r], nextId := nextId db + 1, rfdSeq := rfdSeq db + 1\<rparr>))"

definition refund_entry :: "gateway_refund \<Rightarrow> gateway_txn \<Rightarrow> ledger_entry" where
  "refund_entry r txn =
     \<lparr>le_tenantId = g_tenantId txn, le_direction = L_DEBIT,
      le_entryType = (if gr_kind r = K_REVERSAL then PAYMENT_REVERSAL else REFUND),
      le_amountMinor = gr_amountMinor r, le_currency = g_currency txn,
      le_description = (if gr_kind r = K_REVERSAL then ''Reversal '' else ''Refund '') @ gr_refundNumber r
        @ '' of '' @ g_txnNumber txn,
      le_sourceType = ''GatewayRefund'', le_sourceId = gr_id r, le_gatewayTransactionId = Some (g_id txn),
      le_settlementId = None, le_createdByUserId = gr_createdByUserId r\<rparr>"

definition refund_fee_entry :: "gateway_refund \<Rightarrow> gateway_txn \<Rightarrow> ledger_entry" where
  "refund_fee_entry r txn =
     \<lparr>le_tenantId = g_tenantId txn, le_direction = L_CREDIT, le_entryType = FEE_REVERSAL,
      le_amountMinor = gr_feeReturnedMinor r, le_currency = g_currency txn,
      le_description = ''Platform fee returned with '' @ gr_refundNumber r,
      le_sourceType = ''GatewayRefundFee'', le_sourceId = gr_id r, le_gatewayTransactionId = Some (g_id txn),
      le_settlementId = None, le_createdByUserId = gr_createdByUserId r\<rparr>"

definition refunded_txn :: "gateway_refund \<Rightarrow> gateway_txn \<Rightarrow> gateway_txn" where
  "refunded_txn r txn =
     (let refundedMinor = g_refundedMinor txn + gr_amountMinor r
      in txn\<lparr>g_refundedMinor := refundedMinor,
             g_status := (if refundedMinor < g_grossMinor txn then GT_PARTIALLY_REFUNDED
                          else if gr_kind r = K_REVERSAL then GT_REVERSED else GT_REFUNDED)\<rparr>)"

text \<open>The writes of a refund, once the checks have passed.\<close>

definition post_refund ::
  "gateway_refund \<Rightarrow> gateway_txn \<Rightarrow> 'x gateway_db_scheme \<Rightarrow> 'x gateway_db_scheme result" where
  "post_refund r txn db =
     (case insert_gateway_refund r db of
        Inl e \<Rightarrow> Inl e
      | Inr db1 \<Rightarrow>
          (case appendLedgerEntry (refund_entry r txn) db1 of
             Inl e \<Rightarrow> Inl e
           | Inr (_, db2) \<Rightarrow>
               (case (if gr_feeReturnedMinor r > 0 then appendLedgerEntry (refund_fee_entry r txn) db2 else Inr (False, db2)) of
                  Inl e \<Rightarrow> Inl e
                | Inr (_, db3) \<Rightarrow>
                    Inr (db3\<lparr>gatewayTxns := update_where (\<lambda>g. g_id g = g_id txn) (refunded_txn r) (gatewayTxns db3)\<rparr>))))"

definition recordGatewayRefundTx ::
  "refund_input \<Rightarrow> 'x gateway_db_scheme \<Rightarrow> ((gateway_refund \<times> gateway_txn) \<times> 'x gateway_db_scheme) result" where
  "recordGatewayRefundTx inp db =
     (if trim (ri_reason inp) = '''' then Inl (ValidationError ''A reason is required.'')
      else case find_txn (ri_gatewayTransactionId inp) db of
        None \<Rightarrow> Inl (NotFoundError ''Transaction'')
      | Some txn \<Rightarrow>
          if (case ri_tenantId inp of None \<Rightarrow> False | Some t \<Rightarrow> g_tenantId txn \<noteq> t)
          then Inl (NotFoundError ''Transaction'')
          else if g_status txn = GT_REVERSED \<or> g_status txn = GT_REFUNDED
          then Inl (ConflictError (g_txnNumber txn @ '' has already been fully ''
                 @ (if g_status txn = GT_REVERSED then ''reversed'' else ''refunded'') @ ''.''))
          else
            let remaining = g_grossMinor txn - g_refundedMinor txn;
                amountMinor = refund_amount inp txn
            in if \<not> is_safe_integer amountMinor \<or> amountMinor \<le> 0
               then Inl (ValidationError ''Enter an amount to refund.'')
               else if amountMinor > remaining
               then Inl (ValidationError (''Only '' @ major_text remaining @ '' '' @ g_currency txn @ '' of ''
                           @ g_txnNumber txn @ '' is left to refund.''))
               else
                 let refund = new_refund inp txn db
                 in case post_refund refund txn db of
                      Inl e \<Rightarrow> Inl e
                    | Inr db1 \<Rightarrow>
                        let out = (refund, refunded_txn refund txn)
                        in if ri_kind inp = K_REVERSAL
                              \<and> (case find_payment (g_paymentId txn) db1 of None \<Rightarrow> False | Some p \<Rightarrow> p_status p = P_COMPLETED)
                           then (case refundPaymentCore (g_tenantId txn) (g_paymentId txn) (trim (ri_reason inp)) db1 of
                                   Inl e \<Rightarrow> Inl e
                                 | Inr (_, db2) \<Rightarrow> Inr (out, db2))
                           else Inr (out, db1))"

definition completeGatewayRefund ::
  "id \<Rightarrow> string \<Rightarrow> id \<Rightarrow> 'x gateway_db_scheme \<Rightarrow> (gateway_refund \<times> 'x gateway_db_scheme) result" where
  "completeGatewayRefund refundId externalReference userId db =
     (if trim externalReference = ''''
      then Inl (ValidationError ''Enter the M-Pesa or bank reference of the refund to the customer.'')
      else
        let waiting = (\<lambda>r. gr_id r = refundId \<and> gr_status r = PENDING_CUSTOMER_PAYOUT);
            db1 = db\<lparr>gatewayRefunds := update_where waiting
                       (\<lambda>r. r\<lparr>gr_status := RF_COMPLETED, gr_externalReference := Some (take 64 (trim externalReference)),
                              gr_completedByUserId := Some userId, gr_completedAt := Some (clock db)\<rparr>) (gatewayRefunds db)\<rparr>
        in if count_where waiting (gatewayRefunds db) = 0
           then Inl (ConflictError ''This refund is not waiting for a customer payout.'')
           else case List.find (\<lambda>r. gr_id r = refundId) (gatewayRefunds db1) of
                  None \<Rightarrow> Inl RecordNotFound
                | Some r \<Rightarrow> Inr (r, db1))"

definition reverseGatewayTransactionForPayment ::
  "id \<Rightarrow> id \<Rightarrow> string \<Rightarrow> id \<Rightarrow> 'x gateway_db_scheme \<Rightarrow> (gateway_refund option \<times> 'x gateway_db_scheme) result" where
  "reverseGatewayTransactionForPayment tenantId paymentId reason userId db =
     (case List.find (\<lambda>g. g_paymentId g = paymentId) (gatewayTxns db) of
        None \<Rightarrow> Inr (None, db)
      | Some txn \<Rightarrow>
          if g_tenantId txn \<noteq> tenantId then Inr (None, db)
          else if g_status txn = GT_REVERSED \<or> g_status txn = GT_REFUNDED then Inr (None, db)
          else (case recordGatewayRefundTx
                  \<lparr>ri_gatewayTransactionId = g_id txn, ri_kind = K_REVERSAL, ri_amountMinor = None, ri_reason = reason,
                   ri_moneyAlreadyReturned = False, ri_externalReference = None, ri_userId = userId,
                   ri_tenantId = Some tenantId\<rparr> db of
                  Inl e \<Rightarrow> Inl e
                | Inr ((refund, _), db1) \<Rightarrow> Inr (Some refund, db1)))"

section \<open>Steps of the other services\<close>

text \<open>A transaction that only touches the billing tables, and draws identifiers upwards.\<close>

definition billing_step :: "'x billing_db_scheme \<Rightarrow> 'x billing_db_scheme \<Rightarrow> bool" where
  "billing_step db db' \<longleftrightarrow> billing_db.more db' = billing_db.more db \<and> nextId db \<le> nextId db'"

lemma billing_step_refl [simp]: "billing_step db db"
  by (simp add: billing_step_def)

lemma billing_step_trans: "billing_step a b \<Longrightarrow> billing_step b c \<Longrightarrow> billing_step a c"
  by (simp add: billing_step_def)

lemma billing_step_fields:
  fixes db :: "'x gateway_db_scheme"
  assumes "billing_step db db'"
  shows "gsettings db' = gsettings db" "ledgerEntries db' = ledgerEntries db" "gatewayTxns db' = gatewayTxns db"
    "gatewayRefunds db' = gatewayRefunds db" "destinations db' = destinations db" "payouts db' = payouts db"
    "userPhones db' = userPhones db" "txnSeq db' = txnSeq db" "stlSeq db' = stlSeq db" "rfdSeq db' = rfdSeq db"
    "businessDay db' = businessDay db" "mpesaProduction db' = mpesaProduction db"
    "nextId db \<le> nextId db'"
  using assms unfolding billing_step_def by (cases db; cases db'; simp)+

lemma gateway_ok_billing_step: "gateway_ok db \<Longrightarrow> billing_step db db' \<Longrightarrow> gateway_ok db'"
  using journal_ok_mono txns_ok_mono refunds_ok_mono payouts_ok_mono
  unfolding gateway_ok_def by (metis billing_step_fields(2-4) billing_step_fields(6) billing_step_fields(13))

lemma getOrCreateWallet_step: "getOrCreateWallet c cur db = (w, db') \<Longrightarrow> billing_step db db'"
  by (auto simp: getOrCreateWallet_def billing_step_def Let_def split: option.splits)

lemma creditWallet_step: "creditWallet c a rs rf db = Inr (w, db') \<Longrightarrow> billing_step db db'"
  by (auto simp: creditWallet_def append_wallet_txn_def billing_step_def Let_def split: if_splits prod.splits
      dest!: getOrCreateWallet_step)

lemma debitWallet_step: "debitWallet c a rs rf db = Inr (w, db') \<Longrightarrow> billing_step db db'"
  by (auto simp: debitWallet_def append_wallet_txn_def billing_step_def Let_def split: if_splits prod.splits option.splits
      dest!: getOrCreateWallet_step)

lemma refundPaymentCore_step:
  assumes "refundPaymentCore t p reason db = Inr (out, db')"
  shows "billing_step db db'"
proof -
  have w: "billing_step d d'" if "reverse_wallet pay d = Inr d'" for pay d d'
    using that unfolding reverse_wallet_def
    by (auto split: option.splits if_splits sum.splits dest: creditWallet_step debitWallet_step)
  have i: "billing_step d d'" if "reverse_invoice pay d = Inr d'" for pay d d'
    using that unfolding reverse_invoice_def by (auto simp: billing_step_def Let_def split: option.splits)
  have u: "billing_step d (update_payment q f d)" for q f d by (simp add: billing_step_def)
  obtain pay db1 db2 f where "reverse_wallet pay db = Inr db1" "reverse_invoice pay db1 = Inr db2" "db' = update_payment p f db2"
    using assms by (auto simp: refundPaymentCore_def Let_def split: option.splits if_splits sum.splits)
  then show ?thesis using w i u billing_step_trans by metis
qed


section \<open>What a refund does\<close>

lemma sum_where_bump:
  fixes v :: "'r \<Rightarrow> int"
  assumes "distinct (map k t)" and "x \<in> set t"
  shows "sum_where p (\<lambda>r. v r + (if k r = k x then c else 0)) t = sum_where p v t + (if p x then c else 0)"
  using assms
proof (induction t)
  case (Cons y t)
  show ?case
  proof (cases "x = y")
    case True
    with Cons.prems have "k r \<noteq> k x" if "r \<in> set t" for r using that by (auto simp: image_iff)
    then have "sum_where p (\<lambda>r. v r + (if k r = k x then c else 0)) t = sum_where p v t"
      by (intro sum_where_cong) auto
    with True show ?thesis by simp
  next
    case False
    with Cons.prems have "k y \<noteq> k x" by (auto simp: image_iff)
    with Cons False show ?thesis by simp
  qed
qed simp

lemma refund_entry_key [simp]:
  "entry_key (refund_entry r txn) = (''GatewayRefund'', gr_id r)"
  "entry_key (refund_fee_entry r txn) = (''GatewayRefundFee'', gr_id r)"
  "le_sourceId (refund_entry r txn) = gr_id r" "le_sourceId (refund_fee_entry r txn) = gr_id r"
  by (simp_all add: entry_key_def refund_entry_def refund_fee_entry_def)

lemma refunded_of_append [simp]:
  "refunded_of i (rs @ [r]) = refunded_of i rs + (if gr_gatewayTransactionId r = i then gr_amountMinor r else 0)"
  "fee_returned_of i (rs @ [r]) = fee_returned_of i rs + (if gr_gatewayTransactionId r = i then gr_feeReturnedMinor r else 0)"
  by (simp_all add: refunded_of_def fee_returned_of_def)

lemma refunded_txn_simps [simp]:
  "g_id (refunded_txn r g) = g_id g" "g_tenantId (refunded_txn r g) = g_tenantId g" "g_grossMinor (refunded_txn r g) = g_grossMinor g"
  "g_feeMinor (refunded_txn r g) = g_feeMinor g" "g_netMinor (refunded_txn r g) = g_netMinor g"
  "g_refundedMinor (refunded_txn r g) = g_refundedMinor g + gr_amountMinor r" "g_paymentId (refunded_txn r g) = g_paymentId g"
  by (simp_all add: refunded_txn_def Let_def)

definition after_refund :: "gateway_refund \<Rightarrow> gateway_txn \<Rightarrow> 'x gateway_db_scheme \<Rightarrow> 'x gateway_db_scheme" where
  "after_refund r txn db = db\<lparr>gatewayRefunds := gatewayRefunds db @ [r], nextId := nextId db + 1, rfdSeq := rfdSeq db + 1,
     ledgerEntries := ledgerEntries db @ refund_entry r txn # (if 0 < gr_feeReturnedMinor r then [refund_fee_entry r txn] else []),
     gatewayTxns := update_where (\<lambda>g. g_id g = g_id txn) (refunded_txn r) (gatewayTxns db)\<rparr>"

text \<open>What a refund row says of its transaction when its checks have passed.\<close>

definition refund_fits :: "gateway_refund \<Rightarrow> gateway_txn \<Rightarrow> 'x gateway_db_scheme \<Rightarrow> bool" where
  "refund_fits r txn db \<longleftrightarrow> txn \<in> set (gatewayTxns db) \<and> gr_id r = nextId db \<and> gr_tenantId r = g_tenantId txn
     \<and> gr_gatewayTransactionId r = g_id txn \<and> 0 < gr_amountMinor r
     \<and> g_refundedMinor txn + gr_amountMinor r \<le> g_grossMinor txn
     \<and> 0 \<le> gr_feeReturnedMinor r
     \<and> fee_returned_of (g_id txn) (gatewayRefunds db) + gr_feeReturnedMinor r \<le> g_feeMinor txn
     \<and> (g_refundedMinor txn + gr_amountMinor r = g_grossMinor txn \<longrightarrow>
          fee_returned_of (g_id txn) (gatewayRefunds db) + gr_feeReturnedMinor r = g_feeMinor txn)"

lemma fee_returned_nonneg: "refunds_ok n gs rs \<Longrightarrow> 0 \<le> fee_returned_of i rs"
  unfolding fee_returned_of_def by (rule sum_where_nonneg) (auto simp: refunds_ok_def)

lemma new_refund_fits:
  assumes ok: "gateway_ok db" and f: "find_txn i db = Some txn" and a: "0 < refund_amount inp txn"
    "refund_amount inp txn \<le> g_grossMinor txn - g_refundedMinor txn"
  shows "refund_fits (new_refund inp txn db) txn db"
proof -
  have m: "txn \<in> set (gatewayTxns db)" using f by (auto simp: find_txn_def dest: find_SomeD)
  have t: "txn_ok txn" and fr: "fee_returned_of (g_id txn) (gatewayRefunds db) \<le> g_feeMinor txn"
    using ok m by (auto simp: gateway_ok_def txns_ok_def refunds_ok_def)
  note b = feeShare_bounds [of "g_grossMinor txn" "g_feeMinor txn" "fee_returned_of (g_id txn) (gatewayRefunds db)"
      "refund_amount inp txn" "g_refundedMinor txn"]
  note fin = feeShare_final [of "g_grossMinor txn" "g_refundedMinor txn" "refund_amount inp txn"
      "fee_returned_of (g_id txn) (gatewayRefunds db)" "g_feeMinor txn"]
  show ?thesis using m t fr a b fin by (simp add: refund_fits_def new_refund_def Let_def txn_ok_def)
qed

lemma entry_ok_refund:
  assumes "refund_fits r txn db" and ok: "gateway_ok db"
  shows "entry_ok (refund_entry r txn)" "entry_shape (refund_entry r txn)"
    "0 < gr_feeReturnedMinor r \<Longrightarrow> entry_ok (refund_fee_entry r txn)" "entry_shape (refund_fee_entry r txn)"
proof -
  have t: "txn_ok txn" using assms by (auto simp: refund_fits_def gateway_ok_def txns_ok_def)
  have "0 \<le> fee_returned_of (g_id txn) (gatewayRefunds db)"
    using ok fee_returned_nonneg by (auto simp: gateway_ok_def)
  with assms(1) t have "0 < gr_amountMinor r" "gr_amountMinor r \<le> max_safe_integer" "gr_feeReturnedMinor r \<le> max_safe_integer"
    by (auto simp: refund_fits_def txn_ok_def is_safe_integer_def)
  then show "entry_ok (refund_entry r txn)" "0 < gr_feeReturnedMinor r \<Longrightarrow> entry_ok (refund_fee_entry r txn)"
    by (simp_all add: entry_ok_def refund_entry_def refund_fee_entry_def is_safe_integer_def)
  show "entry_shape (refund_entry r txn)" "entry_shape (refund_fee_entry r txn)"
    by (simp_all add: entry_shape_def refund_entry_def refund_fee_entry_def)
qed

lemma post_refund_runs:
  assumes "insert_gateway_refund r db = Inr d" and fit: "refund_fits r txn db" and ok: "gateway_ok db"
  shows "post_refund r txn db = Inr (after_refund r txn db)"
proof -
  have j: "journal_ok (nextId db) (ledgerEntries db)" using ok by (simp add: gateway_ok_def)
  note eok = entry_ok_refund [OF fit ok]
  have id: "gr_id r = nextId db" using fit by (simp add: refund_fits_def)
  define db2 where "db2 = db\<lparr>gatewayRefunds := gatewayRefunds db @ [r], nextId := nextId db + 1, rfdSeq := rfdSeq db + 1\<rparr>"
  have ins: "insert_gateway_refund r db = Inr db2"
    using assms(1) by (auto simp: insert_gateway_refund_def db2_def split: if_splits)
  have led2: "ledgerEntries db2 = ledgerEntries db" by (simp add: db2_def)
  define db3 where "db3 = db2\<lparr>ledgerEntries := ledgerEntries db @ [refund_entry r txn]\<rparr>"
  have a1: "appendLedgerEntry (refund_entry r txn) db2 = Inr (True, db3)"
    using append_new_entry [of "refund_entry r txn" db2] eok journal_fresh [OF j, of "nextId db"] id
    by (simp add: led2 db3_def entry_keys_def)
  have a2: "0 < gr_feeReturnedMinor r \<Longrightarrow> appendLedgerEntry (refund_fee_entry r txn) db3 =
      Inr (True, db3\<lparr>ledgerEntries := ledgerEntries db @ [refund_entry r txn, refund_fee_entry r txn]\<rparr>)"
    using append_new_entry [of "refund_fee_entry r txn" db3] eok journal_fresh [OF j, of "nextId db"] id
    by (simp add: db3_def entry_keys_def)
  have "post_refund r txn db =
      (let d = (if 0 < gr_feeReturnedMinor r then db3\<lparr>ledgerEntries := ledgerEntries db @ [refund_entry r txn, refund_fee_entry r txn]\<rparr> else db3)
       in Inr (d\<lparr>gatewayTxns := update_where (\<lambda>g. g_id g = g_id txn) (refunded_txn r) (gatewayTxns d)\<rparr>))"
    by (simp add: post_refund_def ins a1 a2)
  then show ?thesis by (simp add: after_refund_def db3_def db2_def)
qed

lemma post_refund_spec:
  assumes "post_refund r txn db = Inr db1" and "refund_fits r txn db" and "gateway_ok db"
  shows "db1 = after_refund r txn db"
proof -
  obtain d where "insert_gateway_refund r db = Inr d"
    using assms(1) by (auto simp: post_refund_def split: sum.splits)
  from post_refund_runs [OF this assms(2,3)] assms(1) show ?thesis by simp
qed

lemma after_refund_ok:
  assumes ok: "gateway_ok db" and fit: "refund_fits r txn db"
  shows "gateway_ok (after_refund r txn db)"
proof -
  have j: "journal_ok (nextId db) (ledgerEntries db)" and tx: "txns_ok (nextId db) (gatewayTxns db)"
    and rf: "refunds_ok (nextId db) (gatewayTxns db) (gatewayRefunds db)" and po: "payouts_ok (nextId db) (payouts db)"
    and li: "linked (entry_keys (ledgerEntries db)) (gatewayTxns db) (payouts db)"
    and cs: "collected_sums (ledgerEntries db) (gatewayTxns db)"
    and rs: "refund_sums (ledgerEntries db) (gatewayTxns db) (gatewayRefunds db)"
    and ps: "payout_sums (ledgerEntries db) (payouts db)" and co: "covered (gatewayTxns db) (payouts db)"
    using ok by (simp_all add: gateway_ok_def)
  note eok = entry_ok_refund [OF fit ok]
  have m: "txn \<in> set (gatewayTxns db)" and id: "gr_id r = nextId db" and tn: "gr_tenantId r = g_tenantId txn"
    and gt: "gr_gatewayTransactionId r = g_id txn"
    using fit by (simp_all add: refund_fits_def)
  have d: "distinct (map g_id (gatewayTxns db))" using tx by (simp add: txns_ok_def)
  let ?gs = "update_where (\<lambda>g. g_id g = g_id txn) (refunded_txn r) (gatewayTxns db)"
  let ?es = "ledgerEntries db @ refund_entry r txn # (if 0 < gr_feeReturnedMinor r then [refund_fee_entry r txn] else [])"
  have uniq: "g = txn" if "g \<in> set (gatewayTxns db)" "g_id g = g_id txn" for g
    using key_eq_rows [OF d that(1) m that(2)] .
  have sg: "set ?gs \<subseteq> insert (refunded_txn r txn) {g \<in> set (gatewayTxns db). g_id g \<noteq> g_id txn}"
    using uniq by (auto simp: set_update_where)
  have j1: "journal_ok (nextId db + 1) (ledgerEntries db @ [refund_entry r txn])"
    by (rule journal_ok_append [OF j])
      (use eok id journal_fresh [OF j, of "nextId db"] in \<open>auto\<close>)
  have "journal_ok (nextId db + 1) ((ledgerEntries db @ [refund_entry r txn]) @ [refund_fee_entry r txn])" if "0 < gr_feeReturnedMinor r"
    by (rule journal_ok_append [OF j1])
      (use eok id that journal_fresh [OF j, of "nextId db"] in \<open>auto\<close>)
  with j1 have j2: "journal_ok (nextId db + 1) ?es" by auto
  have tok: "txn_ok (refunded_txn r txn)"
    using fit tx m by (auto simp: refund_fits_def txns_ok_def txn_ok_def) (auto simp: refunded_txn_def Let_def)
  have "map g_id ?gs = map g_id (gatewayTxns db)" by (rule map_update_where) simp
  moreover have "txn_ok g \<and> g_id g < nextId db + 1" if "g \<in> set ?gs" for g
    using subsetD [OF sg that] tx tok m by (auto simp: txns_ok_def)
  ultimately have t2: "txns_ok (nextId db + 1) ?gs"
    using d by (simp add: txns_ok_def)
  have g2: "refunded_of (g_id g) (gatewayRefunds db @ [r]) = g_refundedMinor g
      \<and> fee_returned_of (g_id g) (gatewayRefunds db @ [r]) \<le> g_feeMinor g
      \<and> (g_refundedMinor g = g_grossMinor g \<longrightarrow> fee_returned_of (g_id g) (gatewayRefunds db @ [r]) = g_feeMinor g)"
    if "g \<in> set ?gs" for g
  proof -
    have old: "refunded_of (g_id h) (gatewayRefunds db) = g_refundedMinor h
        \<and> fee_returned_of (g_id h) (gatewayRefunds db) \<le> g_feeMinor h
        \<and> (g_refundedMinor h = g_grossMinor h \<longrightarrow> fee_returned_of (g_id h) (gatewayRefunds db) = g_feeMinor h)"
      if "h \<in> set (gatewayTxns db)" for h
      using rf that by (simp add: refunds_ok_def)
    consider "g = refunded_txn r txn" | "g \<in> set (gatewayTxns db)" "g_id g \<noteq> g_id txn"
      using subsetD [OF sg \<open>g \<in> set ?gs\<close>] by blast
    then show ?thesis
    proof cases
      case 1
      then show ?thesis using old [OF m] fit by (simp add: gt refund_fits_def)
    next
      case 2
      then show ?thesis using old [OF 2(1)] by (simp add: gt)
    qed
  qed
  have ex: "\<exists>g \<in> set ?gs. g_id g = i \<and> g_tenantId g = t" if "\<exists>g \<in> set (gatewayTxns db). g_id g = i \<and> g_tenantId g = t" for i t
  proof -
    obtain g where g: "g \<in> set (gatewayTxns db)" "g_id g = i" "g_tenantId g = t" using \<open>\<exists>g \<in> _. _\<close> by blast
    then have "(if g_id g = g_id txn then refunded_txn r g else g) \<in> set ?gs" by (auto simp: update_where_def)
    then show ?thesis by (rule rev_bexI) (use g in auto)
  qed
  have r2: "refunds_ok (nextId db + 1) ?gs (gatewayRefunds db @ [r])"
    unfolding refunds_ok_def
  proof (intro conjI ballI)
    show "distinct (map gr_id (gatewayRefunds db @ [r]))" using rf id by (auto simp: refunds_ok_def)
    fix q assume q: "q \<in> set (gatewayRefunds db @ [r])"
    show "gr_id q < nextId db + 1" "0 < gr_amountMinor q" "0 \<le> gr_feeReturnedMinor q"
      using q rf fit by (auto simp: refunds_ok_def refund_fits_def)
    show "\<exists>g \<in> set ?gs. g_id g = gr_gatewayTransactionId q \<and> g_tenantId g = gr_tenantId q"
      by (rule ex) (use q rf m gt tn in \<open>auto simp: refunds_ok_def\<close>)
  qed (use g2 in blast)+
  have l2: "linked (entry_keys ?es) ?gs (payouts db)"
    using li by (auto simp: linked_def set_update_where)
  have c2: "collected_sums ?es ?gs"
    using cs by (auto simp: collected_sums_def txn_sum_def refund_entry_def refund_fee_entry_def sum_where_update_same)
  have b1: "txn_sum t g_refundedMinor ?gs = txn_sum t g_refundedMinor (gatewayTxns db) + (if g_tenantId txn = t then gr_amountMinor r else 0)" for t
    unfolding txn_sum_def by (simp add: sum_where_update [OF d m refl])
  have b2: "txn_sum t (\<lambda>g. fee_returned_of (g_id g) (gatewayRefunds db @ [r])) ?gs =
      txn_sum t (\<lambda>g. fee_returned_of (g_id g) (gatewayRefunds db)) (gatewayTxns db) + (if g_tenantId txn = t then gr_feeReturnedMinor r else 0)" for t
  proof -
    have "txn_sum t (\<lambda>g. fee_returned_of (g_id g) (gatewayRefunds db @ [r])) ?gs =
        txn_sum t (\<lambda>g. fee_returned_of (g_id g) (gatewayRefunds db @ [r])) (gatewayTxns db)"
      unfolding txn_sum_def by (rule sum_where_update_same) simp
    also have "\<dots> = txn_sum t (\<lambda>g. fee_returned_of (g_id g) (gatewayRefunds db) + (if g_id g = g_id txn then gr_feeReturnedMinor r else 0)) (gatewayTxns db)"
      unfolding txn_sum_def by (rule sum_where_cong) (auto simp: gt)
    finally show ?thesis unfolding txn_sum_def using sum_where_bump [OF d m] by simp
  qed
  have rs2: "refund_sums ?es ?gs (gatewayRefunds db @ [r])"
    using rs b1 b2 fit by (auto simp: refund_sums_def refund_sum_def is_refund_entry_def refund_entry_def refund_fee_entry_def tn refund_fits_def)
  have p2: "payout_sums ?es (payouts db)"
    using ps by (auto simp: payout_sums_def refund_entry_def refund_fee_entry_def)
  have co2: "covered ?gs (payouts db)"
    using co by (auto simp: covered_def txn_sum_def sum_where_update_same)
  show ?thesis
    using j2 t2 r2 payouts_ok_mono [OF po, of "nextId db + 1"] l2 c2 rs2 p2 co2
    by (simp add: gateway_ok_def after_refund_def)
qed
lemma after_refund_balance:
  assumes "refund_fits r txn db"
  shows "availableMinor (getTenantBalance t (after_refund r txn db)) = availableMinor (getTenantBalance t db)
    - (if t = gr_tenantId r then gr_amountMinor r - gr_feeReturnedMinor r else 0)"
  using assms by (auto simp: getTenantBalance_def Let_def after_refund_def refund_entry_def refund_fee_entry_def refund_fits_def)

lemma balance_billing_step: "billing_step db db' \<Longrightarrow> getTenantBalance t db' = getTenantBalance t db"
  by (simp add: getTenantBalance_def billing_step_fields)

lemma refundPaymentCore_reversed:
  assumes "refundPaymentCore t p reason db = Inr (out, db')" and "find_payment p db' = Some q"
  shows "p_status q = P_REVERSED"
proof -
  define upd where "upd = (\<lambda>d::'a billing_db_scheme. \<lambda>p::payment. p\<lparr>p_status := P_REVERSED, p_reversedAt := Some (clock d), p_reversalReason := Some reason\<rparr>)"
  obtain db2 :: "'a billing_db_scheme" where "db' = update_payment p (upd db2) db2"
    using assms(1) by (auto simp: refundPaymentCore_def Let_def upd_def split: option.splits if_splits sum.splits)
  then have "find_payment p db' = map_option (upd db2) (find_payment p db2)"
    by (simp add: find_payment_def find_update_where_same upd_def)
  then show ?thesis using assms(2) by (cases "find_payment p db2") (auto simp: upd_def)
qed

lemma record_refund_spec:
  assumes ok: "gateway_ok db" and run: "recordGatewayRefundTx inp db = Inr ((r, g), db')"
  obtains txn where "find_txn (ri_gatewayTransactionId inp) db = Some txn" "r = new_refund inp txn db" "g = refunded_txn r txn"
    "refund_fits r txn db" "billing_step (after_refund r txn db) db'"
    "ri_kind inp = K_REVERSAL \<longrightarrow> (\<forall>p. find_payment (g_paymentId txn) db' = Some p \<longrightarrow> p_status p \<noteq> P_COMPLETED)"
proof -
  obtain txn where txn: "find_txn (ri_gatewayTransactionId inp) db = Some txn"
    using run by (auto simp: recordGatewayRefundTx_def split: if_splits option.splits)
  define rf where "rf = new_refund inp txn db"
  define rev where "rev = (\<lambda>d::'a gateway_db_scheme. ri_kind inp = K_REVERSAL
      \<and> (case find_payment (g_paymentId txn) d of None \<Rightarrow> False | Some p \<Rightarrow> p_status p = P_COMPLETED))"
  have amt: "0 < refund_amount inp txn" "refund_amount inp txn \<le> g_grossMinor txn - g_refundedMinor txn"
    using run txn by (auto simp: recordGatewayRefundTx_def Let_def split: if_splits option.splits)
  obtain db1 where db1: "post_refund rf txn db = Inr db1" and res: "r = rf" "g = refunded_txn rf txn"
      "if rev db1 then \<exists>out. refundPaymentCore (g_tenantId txn) (g_paymentId txn) (trim (ri_reason inp)) db1 = Inr (out, db') else db' = db1"
    using run unfolding recordGatewayRefundTx_def txn rf_def rev_def
    by (auto simp: txn Let_def split: if_splits sum.splits option.splits)
  have fit: "refund_fits rf txn db" unfolding rf_def by (rule new_refund_fits [OF ok txn amt])
  have d1: "db1 = after_refund rf txn db" by (rule post_refund_spec [OF db1 fit ok])
  have "billing_step db1 db'" using res(3) refundPaymentCore_step by (auto split: if_splits)
  moreover have "ri_kind inp = K_REVERSAL \<longrightarrow> (\<forall>p. find_payment (g_paymentId txn) db' = Some p \<longrightarrow> p_status p \<noteq> P_COMPLETED)"
    using res(3) refundPaymentCore_reversed by (fastforce simp: rev_def split: if_splits)
  ultimately show thesis using that txn fit d1 res by (simp add: rf_def)
qed

lemma gateway_refund_spec:
  assumes ok: "gateway_ok db" and run: "recordGatewayRefundTx inp db = Inr ((r, g), db')"
  shows "gateway_ok db' \<and> 0 < gr_amountMinor r
    \<and> availableMinor (getTenantBalance t db') = availableMinor (getTenantBalance t db)
        - (if t = gr_tenantId r then gr_amountMinor r - gr_feeReturnedMinor r else 0)
    \<and> find_txn (ri_gatewayTransactionId inp) db' = Some g
    \<and> refunded_of (g_id g) (gatewayRefunds db') = g_refundedMinor g \<and> g_refundedMinor g \<le> g_grossMinor g
    \<and> fee_returned_of (g_id g) (gatewayRefunds db') \<le> g_feeMinor g
    \<and> (g_refundedMinor g = g_grossMinor g \<longrightarrow>
         fee_returned_of (g_id g) (gatewayRefunds db') = g_feeMinor g
         \<and> (ri_gatewayTransactionId again = ri_gatewayTransactionId inp \<longrightarrow> (\<exists>e. recordGatewayRefundTx again db' = Inl e)))
    \<and> (ri_kind inp = K_REVERSAL \<longrightarrow> g_refundedMinor g = g_grossMinor g
         \<and> (\<forall>p. find_payment (g_paymentId g) db' = Some p \<longrightarrow> p_status p \<noteq> P_COMPLETED))"
proof -
  obtain txn where txn: "find_txn (ri_gatewayTransactionId inp) db = Some txn" and r: "r = new_refund inp txn db"
    and g: "g = refunded_txn r txn" and fit: "refund_fits r txn db" and st: "billing_step (after_refund r txn db) db'"
    and pay: "ri_kind inp = K_REVERSAL \<longrightarrow> (\<forall>p. find_payment (g_paymentId txn) db' = Some p \<longrightarrow> p_status p \<noteq> P_COMPLETED)"
    by (rule record_refund_spec [OF ok run])
  have ok': "gateway_ok db'" by (rule gateway_ok_billing_step [OF after_refund_ok [OF ok fit] st])
  have i: "g_id txn = ri_gatewayTransactionId inp" using txn by (auto simp: find_txn_def dest: find_SomeD)
  have fg: "find_txn (ri_gatewayTransactionId inp) db' = Some g"
    using txn find_update_where_same [of g_id "refunded_txn r" "g_id txn" "gatewayTxns db"]
    by (simp add: find_txn_def billing_step_fields [OF st] after_refund_def i g)
  then have gm: "g \<in> set (gatewayTxns db')" by (auto simp: find_txn_def dest: find_SomeD)
  have rf: "refunds_ok (nextId db') (gatewayTxns db') (gatewayRefunds db')" and tok: "txn_ok g"
    using ok' gm by (auto simp: gateway_ok_def txns_ok_def)
  have bal: "availableMinor (getTenantBalance t db') = availableMinor (getTenantBalance t db)
      - (if t = gr_tenantId r then gr_amountMinor r - gr_feeReturnedMinor r else 0)"
    unfolding balance_billing_step [OF st] by (rule after_refund_balance [OF fit])
  have full: "\<exists>e. recordGatewayRefundTx again db' = Inl e"
    if "g_refundedMinor g = g_grossMinor g" "ri_gatewayTransactionId again = ri_gatewayTransactionId inp"
    using that fg tok by (auto simp: recordGatewayRefundTx_def txn_ok_def split: option.split)
  have rev: "ri_kind inp = K_REVERSAL \<Longrightarrow> g_refundedMinor g = g_grossMinor g"
    by (simp add: g r new_refund_def Let_def refund_amount_def)
  have sums: "refunded_of (g_id g) (gatewayRefunds db') = g_refundedMinor g"
    "fee_returned_of (g_id g) (gatewayRefunds db') \<le> g_feeMinor g"
    "g_refundedMinor g = g_grossMinor g \<longrightarrow> fee_returned_of (g_id g) (gatewayRefunds db') = g_feeMinor g"
    using rf gm by (simp_all add: refunds_ok_def)
  have pid: "g_paymentId g = g_paymentId txn" "0 < gr_amountMinor r" "g_refundedMinor g \<le> g_grossMinor g"
    using fit tok by (simp_all add: g refund_fits_def txn_ok_def)
  show ?thesis using ok' bal fg sums pid full rev pay by simp
qed

text \<open>
  C21. A refund takes back from the tenant exactly their net share of it: the balance of the
  transaction's tenant falls by the refunded amount less the returned fee, no other balance
  moves. The refunds of a transaction add up to its refunded total, which never exceeds the
  payment; the fees returned never exceed the fee, and when all is refunded the whole fee has
  come back and every further refund is refused. A reversal refunds the whole rest and leaves
  no completed billing payment behind.
\<close>

theorem gateway_refund_charges_tenant:
  assumes "gateway_ok db" and "recordGatewayRefundTx inp db = Inr ((r, g), db')"
  shows "gateway_ok db' \<and> 0 < gr_amountMinor r
    \<and> availableMinor (getTenantBalance t db') = availableMinor (getTenantBalance t db)
        - (if t = gr_tenantId r then gr_amountMinor r - gr_feeReturnedMinor r else 0)
    \<and> find_txn (ri_gatewayTransactionId inp) db' = Some g
    \<and> refunded_of (g_id g) (gatewayRefunds db') = g_refundedMinor g \<and> g_refundedMinor g \<le> g_grossMinor g
    \<and> fee_returned_of (g_id g) (gatewayRefunds db') \<le> g_feeMinor g
    \<and> (g_refundedMinor g = g_grossMinor g \<longrightarrow>
         fee_returned_of (g_id g) (gatewayRefunds db') = g_feeMinor g
         \<and> (ri_gatewayTransactionId again = ri_gatewayTransactionId inp \<longrightarrow> (\<exists>e. recordGatewayRefundTx again db' = Inl e)))
    \<and> (ri_kind inp = K_REVERSAL \<longrightarrow> g_refundedMinor g = g_grossMinor g
         \<and> (\<forall>p. find_payment (g_paymentId g) db' = Some p \<longrightarrow> p_status p \<noteq> P_COMPLETED))"
  using assms by (rule gateway_refund_spec)

definition sample_refund_input :: refund_input where
  "sample_refund_input = \<lparr>ri_gatewayTransactionId = 1, ri_kind = K_REFUND, ri_amountMinor = Some 40000,
     ri_reason = ''Overpaid'', ri_moneyAlreadyReturned = False, ri_externalReference = None, ri_userId = 5, ri_tenantId = None\<rparr>"

definition sample_collected :: gateway_db where
  "sample_collected = after_collection sample_txn empty_gateway"

lemma sample_collected_ok: "gateway_ok sample_collected"
  unfolding sample_collected_def by (rule collection_keeps_gateway_ok [OF empty_gateway_ok sample_collects])

lemma sample_txn_simps [simp]:
  "g_id sample_txn = 1" "g_tenantId sample_txn = 7" "g_grossMinor sample_txn = 100000" "g_feeMinor sample_txn = 2000"
  "g_refundedMinor sample_txn = 0" "g_status sample_txn = GT_COMPLETED" "g_paymentId sample_txn = 90"
  by (simp_all add: sample_txn_def new_gateway_txn_def sample_collection_def)

lemma sample_gateway_refund_runs:
  "recordGatewayRefundTx sample_refund_input sample_collected =
     (let r = new_refund sample_refund_input sample_txn sample_collected
      in Inr ((r, refunded_txn r sample_txn), after_refund r sample_txn sample_collected))"
proof -
  define r where "r = new_refund sample_refund_input sample_txn sample_collected"
  have f: "find_txn 1 sample_collected = Some sample_txn"
    by (simp add: find_txn_def sample_collected_def after_collection_def)
  have a: "refund_amount sample_refund_input sample_txn = 40000" by (simp add: refund_amount_def sample_refund_input_def)
  have fit: "refund_fits r sample_txn sample_collected"
    unfolding r_def by (rule new_refund_fits [OF sample_collected_ok f]) (simp_all add: a)
  have "insert_gateway_refund r sample_collected =
      Inr (sample_collected\<lparr>gatewayRefunds := [r], nextId := nextId sample_collected + 1, rfdSeq := rfdSeq sample_collected + 1\<rparr>)"
    by (simp add: insert_gateway_refund_def sample_collected_def after_collection_def)
  then have "post_refund r sample_txn sample_collected = Inr (after_refund r sample_txn sample_collected)"
    by (rule post_refund_runs [OF _ fit sample_collected_ok])
  moreover have "trim ''Overpaid'' = ''Overpaid''" by (simp add: trim_def is_space_def)
  moreover have "ri_kind sample_refund_input \<noteq> K_REVERSAL" "ri_tenantId sample_refund_input = None"
     "ri_reason sample_refund_input = ''Overpaid''" "ri_gatewayTransactionId sample_refund_input = 1"
    by (simp_all add: sample_refund_input_def)
  ultimately show ?thesis
    by (simp add: recordGatewayRefundTx_def f [simplified] a Let_def r_def is_safe_integer_def max_safe_integer_def)
qed

theorem gateway_refund_charges_tenant_witness:
  "let r = new_refund sample_refund_input sample_txn sample_collected; db' = after_refund r sample_txn sample_collected
   in gateway_ok db' \<and> availableMinor (getTenantBalance 7 db') = availableMinor (getTenantBalance 7 sample_collected) - 39200"
proof -
  have r: "gr_amountMinor (new_refund sample_refund_input sample_txn sample_collected) = 40000"
    "gr_feeReturnedMinor (new_refund sample_refund_input sample_txn sample_collected) = 800"
    "gr_tenantId (new_refund sample_refund_input sample_txn sample_collected) = 7"
    by (simp_all add: new_refund_def Let_def refund_amount_def sample_refund_input_def feeShareForRefund_def
        fee_returned_of_def sample_collected_def after_collection_def)
  show ?thesis
    using gateway_refund_charges_tenant [OF sample_collected_ok sample_gateway_refund_runs [unfolded Let_def], of 7 sample_refund_input] r
    by (simp add: Let_def)
qed


lemma completeGatewayRefund_keeps:
  assumes ok: "gateway_ok db" and run: "completeGatewayRefund i x u db = Inr (r, db')"
  shows "gateway_ok db'"
proof -
  define p where "p = (\<lambda>r::gateway_refund. gr_id r = i \<and> gr_status r = PENDING_CUSTOMER_PAYOUT)"
  define f :: "gateway_refund \<Rightarrow> gateway_refund" where
    "f = (\<lambda>r. r\<lparr>gr_status := RF_COMPLETED, gr_externalReference := Some (take 64 (trim x)),
        gr_completedByUserId := Some u, gr_completedAt := Some (clock db)\<rparr>)"
  have db': "db' = db\<lparr>gatewayRefunds := update_where p f (gatewayRefunds db)\<rparr>"
    using run by (auto simp: completeGatewayRefund_def Let_def p_def f_def split: if_splits option.splits)
  have f: "gr_id (f r) = gr_id r" "gr_tenantId (f r) = gr_tenantId r" "gr_gatewayTransactionId (f r) = gr_gatewayTransactionId r"
    "gr_amountMinor (f r) = gr_amountMinor r" "gr_feeReturnedMinor (f r) = gr_feeReturnedMinor r" for r
    by (simp_all add: f_def)
  have s: "refunded_of g (update_where p f rs) = refunded_of g rs" "fee_returned_of g (update_where p f rs) = fee_returned_of g rs"
    "refund_sum t gr_amountMinor (update_where p f rs) = refund_sum t gr_amountMinor rs"
    "refund_sum t gr_feeReturnedMinor (update_where p f rs) = refund_sum t gr_feeReturnedMinor rs" for g t rs
    unfolding refunded_of_def fee_returned_of_def refund_sum_def by (simp_all add: sum_where_update_same f)
  have m: "map gr_id (update_where p f rs) = map gr_id rs" for rs by (rule map_update_where) (simp add: f)
  have "refunds_ok (nextId db) (gatewayTxns db) (update_where p f (gatewayRefunds db))"
    using ok unfolding gateway_ok_def refunds_ok_def s m by (auto simp: set_update_where f)
  then show ?thesis using ok by (simp add: gateway_ok_def db' refund_sums_def s)
qed

lemma reverseGateway_keeps:
  "gateway_ok db \<Longrightarrow> reverseGatewayTransactionForPayment t p rs u db = Inr (out, db') \<Longrightarrow> gateway_ok db'"
  by (auto simp: reverseGatewayTransactionForPayment_def split: option.splits if_splits sum.splits prod.splits
      dest: gateway_refund_spec)

text \<open>An update of a transaction's status-free details keeps the invariant.\<close>

lemma gateway_ok_update_txns:
  assumes ok: "gateway_ok db"
    and f: "\<And>g. g_id (f g) = g_id g" "\<And>g. g_tenantId (f g) = g_tenantId g" "\<And>g. g_grossMinor (f g) = g_grossMinor g"
      "\<And>g. g_feeMinor (f g) = g_feeMinor g" "\<And>g. g_netMinor (f g) = g_netMinor g"
      "\<And>g. g_refundedMinor (f g) = g_refundedMinor g" "\<And>g. g_status (f g) = g_status g"
  shows "gateway_ok (db\<lparr>gatewayTxns := update_where q f (gatewayTxns db)\<rparr>)"
proof -
  let ?gs = "update_where q f (gatewayTxns db)"
  have tok: "txn_ok (f g) = txn_ok g" for g by (simp add: txn_ok_def f)
  have m: "map g_id ?gs = map g_id (gatewayTxns db)" by (rule map_update_where) (simp add: f)
  have "txns_ok n ?gs" if "txns_ok n (gatewayTxns db)" for n
    using that unfolding txns_ok_def m by (auto simp: set_update_where tok f)
  moreover have "refunds_ok n ?gs rs" if "refunds_ok n (gatewayTxns db) rs" for n rs
  proof -
    have ex: "\<exists>g \<in> set ?gs. g_id g = i \<and> g_tenantId g = t" if "\<exists>g \<in> set (gatewayTxns db). g_id g = i \<and> g_tenantId g = t" for i t
    proof -
      obtain g where g: "g \<in> set (gatewayTxns db)" "g_id g = i" "g_tenantId g = t" using \<open>\<exists>g \<in> _. _\<close> by blast
      then have "(if q g then f g else g) \<in> set ?gs" by (auto simp: update_where_def)
      then show ?thesis by (rule rev_bexI) (use g f in auto)
    qed
    have "\<exists>g \<in> set ?gs. g_id g = gr_gatewayTransactionId r \<and> g_tenantId g = gr_tenantId r" if "r \<in> set rs" for r
      by (rule ex) (use \<open>refunds_ok n (gatewayTxns db) rs\<close> that in \<open>simp add: refunds_ok_def\<close>)
    then show ?thesis
      using \<open>refunds_ok n (gatewayTxns db) rs\<close> unfolding refunds_ok_def by (auto simp: set_update_where f)
  qed
  moreover have "linked ks ?gs ys" if "linked ks (gatewayTxns db) ys" for ks ys
    using that by (auto simp: linked_def set_update_where f)
  moreover have s: "txn_sum t v ?gs = txn_sum t v (gatewayTxns db)" if "\<And>g. v (f g) = v g" for t v
    unfolding txn_sum_def by (rule sum_where_update_same) (simp add: f that)
  ultimately show ?thesis
    using ok by (simp add: gateway_ok_def collected_sums_def refund_sums_def covered_def f)
qed

text \<open>The receipt of a provisional transaction is replaced; the settings do not enter the invariant.\<close>

lemma upgradeProvisionalReceipt_keeps: "gateway_ok db \<Longrightarrow> gateway_ok (upgradeProvisionalReceipt p rc db)"
proof -
  assume ok: "gateway_ok db"
  define q where "q = (\<lambda>g::gateway_txn. g_paymentId g = p \<and> starts_with ''PRV-'' (g_providerReference g))"
  define f :: "gateway_txn \<Rightarrow> gateway_txn" where "f = (\<lambda>g. g\<lparr>g_providerReference := rc\<rparr>)"
  have "gateway_ok (db\<lparr>gatewayTxns := update_where q f (gatewayTxns db)\<rparr>)"
    by (rule gateway_ok_update_txns [OF ok]) (simp_all add: f_def)
  then show ?thesis by (simp add: upgradeProvisionalReceipt_def q_def f_def)
qed

end
