(* ===== verification/Phones.thy ===== *)
theory Phones
  imports Prelude
begin

text \<open>
  Kenyan phone numbers: packages/payments/src/mpesa/phone.ts, packages/sms/src/phone.ts, the
  variants packages/radius/src/hotspot-account-login.service.ts looks a customer up by, and the
  masking of packages/payments/src/gateway/common.ts.
\<close>

definition digits_only :: "string \<Rightarrow> string" where
  "digits_only s = filter is_digit s"

text \<open>Nine digits starting with 7 or 1: the pattern \<open>(7|1)\d{8}\<close> on a string of digits.\<close>

definition subscriber :: "string \<Rightarrow> bool" where
  "subscriber d \<longleftrightarrow> length d = 9 \<and> (hd d = CHR ''7'' \<or> hd d = CHR ''1'')"

definition invalid_phone :: "string \<Rightarrow> app_error" where
  "invalid_phone inp = ValidationError (''\"'' @ inp @ ''\" is not a valid Kenyan phone number'')"

definition normalizeKenyanPhone :: "string \<Rightarrow> string result" where
  "normalizeKenyanPhone inp =
     (let digits = digits_only inp
      in if starts_with ''0'' digits \<and> subscriber (drop 1 digits) then Inr (''254'' @ drop 1 digits)
         else if starts_with ''254'' digits \<and> subscriber (drop 3 digits) then Inr digits
         else if subscriber digits then Inr (''254'' @ digits)
         else Inl (invalid_phone inp))"

definition normalizeKenyanPhoneE164 :: "string \<Rightarrow> string result" where
  "normalizeKenyanPhoneE164 inp =
     (let digits = digits_only inp
      in if starts_with ''0'' digits \<and> subscriber (drop 1 digits) then Inr (''+254'' @ drop 1 digits)
         else if starts_with ''254'' digits \<and> subscriber (drop 3 digits) then Inr (''+'' @ digits)
         else if subscriber digits then Inr (''+254'' @ digits)
         else Inl (invalid_phone inp))"

definition extra_variants :: "string \<Rightarrow> string list" where
  "extra_variants digits =
     (if starts_with ''0'' digits \<and> subscriber (drop 1 digits)
      then [digits, ''254'' @ drop 1 digits, ''+254'' @ drop 1 digits]
      else if starts_with ''254'' digits \<and> subscriber (drop 3 digits)
      then [digits, ''+'' @ digits, ''0'' @ drop 3 digits]
      else if subscriber digits
      then [digits, ''254'' @ digits, ''+254'' @ digits, ''0'' @ digits]
      else [])"

text \<open>The values of the JavaScript set, in insertion order.\<close>

definition phoneVariants :: "string \<Rightarrow> string list" where
  "phoneVariants inp = rev (remdups (rev (trim inp # extra_variants (digits_only inp))))"

definition last_chars :: "nat \<Rightarrow> string \<Rightarrow> string" where
  "last_chars n s = drop (length s - n) s"

definition maskPhone :: "string option \<Rightarrow> string option" where
  "maskPhone phone =
     (case phone of None \<Rightarrow> None
      | Some p \<Rightarrow> if p = '''' then None else Some (''****'' @ last_chars 4 (digits_only p)))"

definition maskTail :: "string option \<Rightarrow> nat \<Rightarrow> string option" where
  "maskTail val visible =
     (case val of None \<Rightarrow> None
      | Some v \<Rightarrow> if v = '''' then None
                  else if length v \<le> visible then Some v else Some (''****'' @ last_chars visible v))"

section \<open>Lemmas\<close>

lemma digits_only_digits [simp]: "\<forall>c \<in> set s. is_digit c \<Longrightarrow> digits_only s = s"
  by (simp add: digits_only_def)

lemma digits_only_set: "c \<in> set (digits_only s) \<Longrightarrow> is_digit c"
  by (simp add: digits_only_def)

lemma digits_only_append: "digits_only (a @ b) = digits_only a @ digits_only b"
  by (simp add: digits_only_def)

lemma digits_only_idem [simp]: "digits_only (digits_only s) = digits_only s"
  by (simp add: digits_only_def)

lemma digits_only_drop [simp]: "digits_only (drop n (digits_only s)) = drop n (digits_only s)"
  by (rule digits_only_digits) (auto dest!: in_set_dropD intro: digits_only_set)

lemma prefix_digits [simp]: "digits_only ''254'' = ''254''" "digits_only ''0'' = ''0''" "digits_only ''+'' = ''''"
  "digits_only ''+254'' = ''254''"
  by (simp_all add: digits_only_def is_digit_def)

lemma starts_with_iff: "starts_with p s \<longleftrightarrow> (\<exists>r. s = p @ r)"
  by (auto simp: starts_with_def) (metis append_take_drop_id)

lemma subscriber_length: "subscriber d \<Longrightarrow> length d = 9"
  by (simp add: subscriber_def)

lemma subscriber_not_0: "subscriber d \<Longrightarrow> \<not> starts_with ''0'' d"
  by (auto simp: subscriber_def starts_with_iff)

text \<open>The number an accepted input stands for: its nine-digit subscriber part.\<close>

definition subscriber_of :: "string \<Rightarrow> string option" where
  "subscriber_of inp =
     (let digits = digits_only inp
      in if starts_with ''0'' digits \<and> subscriber (drop 1 digits) then Some (drop 1 digits)
         else if starts_with ''254'' digits \<and> subscriber (drop 3 digits) then Some (drop 3 digits)
         else if subscriber digits then Some digits else None)"

lemma normalize_subscriber:
  "normalizeKenyanPhone inp = (case subscriber_of inp of None \<Rightarrow> Inl (invalid_phone inp) | Some d \<Rightarrow> Inr (''254'' @ d))"
  by (auto simp: normalizeKenyanPhone_def subscriber_of_def Let_def starts_with_iff)

lemma E164_subscriber:
  "normalizeKenyanPhoneE164 inp = (case subscriber_of inp of None \<Rightarrow> Inl (invalid_phone inp) | Some d \<Rightarrow> Inr (''+254'' @ d))"
  by (auto simp: normalizeKenyanPhoneE164_def subscriber_of_def Let_def starts_with_iff)

lemma subscriber_of_Some:
  "subscriber_of inp = Some d \<Longrightarrow> subscriber d \<and> (\<forall>c \<in> set d. is_digit c)"
  by (auto simp: subscriber_of_def Let_def split: if_splits dest!: in_set_dropD intro: digits_only_set)

lemma subscriber_of_forms:
  assumes "subscriber d" and "\<forall>c \<in> set d. is_digit c"
  shows "subscriber_of d = Some d" "subscriber_of (''0'' @ d) = Some d" "subscriber_of (''254'' @ d) = Some d"
    "subscriber_of (''+254'' @ d) = Some d"
proof -
  have d: "digits_only d = d" using assms(2) by simp
  have l: "length d = 9" using assms(1) by (rule subscriber_length)
  show "subscriber_of d = Some d"
    using assms(1) subscriber_not_0 [OF assms(1)] l by (auto simp: subscriber_of_def d subscriber_def)
  show "subscriber_of (''0'' @ d) = Some d"
    using assms(1) by (simp add: subscriber_of_def digits_only_append d starts_with_iff del: append_Cons)
  have no: "\<not> starts_with ''0'' (''254'' @ d)" by (simp add: starts_with_def)
  show "subscriber_of (''254'' @ d) = Some d" "subscriber_of (''+254'' @ d) = Some d"
    using assms(1) no by (simp_all add: subscriber_of_def digits_only_append d starts_with_iff del: append_Cons)
qed

text \<open>
  The M-Pesa and SMS forms of a phone number agree and are canonical. An input either
  is refused by both, or both accept it: the M-Pesa form is then 254 and nine digits starting
  with 7 or 1, normalising it again gives it back, the SMS form is the same with a plus, and
  every variant a hotspot customer is looked up by, the trimmed input aside, stands for it.
\<close>

theorem phone_forms_agree:
  "case normalizeKenyanPhone inp of
     Inl e \<Rightarrow> normalizeKenyanPhoneE164 inp = Inl e \<and> phoneVariants inp = [trim inp]
   | Inr n \<Rightarrow> normalizeKenyanPhoneE164 inp = Inr (''+'' @ n) \<and> normalizeKenyanPhone n = Inr n
       \<and> length n = 12 \<and> starts_with ''254'' n \<and> (\<forall>c \<in> set n. is_digit c) \<and> n ! 3 \<in> {CHR ''7'', CHR ''1''}
       \<and> (\<forall>v \<in> set (phoneVariants inp). v = trim inp \<or> normalizeKenyanPhone v = Inr n)
       \<and> {n, ''+'' @ n, ''0'' @ drop 3 n} \<subseteq> set (phoneVariants inp)"
proof (cases "subscriber_of inp")
  case None
  then have "extra_variants (digits_only inp) = []"
    unfolding extra_variants_def subscriber_of_def Let_def by (auto split: if_split_asm)
  then have "phoneVariants inp = [trim inp]" by (simp add: phoneVariants_def)
  with None show ?thesis by (simp add: normalize_subscriber E164_subscriber)
next
  case (Some d)
  then have sub: "subscriber d" and dig: "\<forall>c \<in> set d. is_digit c" using subscriber_of_Some by auto
  note forms = subscriber_of_forms [OF sub dig]
  have vars: "set (phoneVariants inp) \<subseteq> {trim inp, d, ''0'' @ d, ''254'' @ d, ''+254'' @ d}"
    "{''0'' @ d, ''254'' @ d, ''+254'' @ d} \<subseteq> set (phoneVariants inp)"
    using Some by (auto simp: phoneVariants_def extra_variants_def subscriber_of_def Let_def starts_with_iff split: if_splits)
  have n3: "(''254'' @ d) ! 3 \<in> {CHR ''7'', CHR ''1''}"
    using sub by (cases d) (auto simp: subscriber_def nth_append numeral_3_eq_3)
  have d254: "\<forall>c \<in> set (''254'' @ d). is_digit c" using dig by (simp add: is_digit_def)
  have norm: "normalizeKenyanPhone v = Inr (''254'' @ d)" if "v \<in> {d, ''0'' @ d, ''254'' @ d, ''+254'' @ d}" for v
    using that forms by (auto simp: normalize_subscriber)
  have all: "\<forall>v \<in> set (phoneVariants inp). v = trim inp \<or> normalizeKenyanPhone v = Inr (''254'' @ d)"
    using vars(1) norm by blast
  have len: "length (''254'' @ d) = 12" using subscriber_length [OF sub] by simp
  have incl: "{''254'' @ d, ''+'' @ (''254'' @ d), ''0'' @ drop 3 (''254'' @ d)} \<subseteq> set (phoneVariants inp)"
    using vars(2) by simp
  have st: "starts_with ''254'' (''254'' @ d)" by (simp add: starts_with_def)
  have both: "normalizeKenyanPhone inp = Inr (''254'' @ d)" "normalizeKenyanPhoneE164 inp = Inr (''+'' @ (''254'' @ d))"
    using Some by (simp_all add: normalize_subscriber E164_subscriber)
  have n1: "normalizeKenyanPhone (''254'' @ d) = Inr (''254'' @ d)" by (rule norm) simp
  show ?thesis
    unfolding both sum.case by (intro conjI refl n1 all len st d254 n3 incl)
qed

theorem phone_forms_agree_witness:
  "normalizeKenyanPhone ''0712 345 678'' = Inr ''254712345678''
   \<and> normalizeKenyanPhoneE164 ''0712 345 678'' = Inr ''+254712345678''"
proof -
  have n: "normalizeKenyanPhone ''0712 345 678'' = Inr ''254712345678''"
    by (simp add: normalizeKenyanPhone_def digits_only_def is_digit_def starts_with_def subscriber_def Let_def)
  show ?thesis using phone_forms_agree [of "''0712 345 678''"] n by simp
qed

end
