(* ===== verification/Destinations.thy ===== *)
theory Destinations
  imports Ledger Phones
begin

text \<open>
  Where a tenant's money goes and who carries it: packages/payments/src/gateway/destination.service.ts
  and gateway/providers.ts. The M-Pesa client (mpesa/daraja-client.ts with its credentials) is the
  record \<open>provider_api\<close>, and the encryption of bank numbers is the parameter \<open>enc\<close> or \<open>dec\<close>.
\<close>

section \<open>Details and their validation\<close>

record destination_details =
  dd_type :: destination_type
  dd_accountName :: string
  dd_phone :: "string option"
  dd_bankName :: "string option"
  dd_bankBranch :: "string option"
  dd_bankAccountNumber :: "string option"
  dd_tillNumber :: "string option"
  dd_paybillNumber :: "string option"
  dd_paybillAccountReference :: "string option"

definition or_empty :: "string option \<Rightarrow> string" where
  "or_empty s = (case s of Some v \<Rightarrow> v | None \<Rightarrow> '''')"

definition en_dash :: string where
  "en_dash = [CHR 0xE2, CHR 0x80, CHR 0x93]"

definition is_alnum :: "char \<Rightarrow> bool" where
  "is_alnum c \<longleftrightarrow> is_digit c \<or> (CHR ''A'' \<le> c \<and> c \<le> CHR ''Z'') \<or> (CHR ''a'' \<le> c \<and> c \<le> CHR ''z'')"

text \<open>A string of allowed characters whose length is in the range, as the anchored patterns test it.\<close>

definition all_in :: "(char \<Rightarrow> bool) \<Rightarrow> nat \<Rightarrow> nat \<Rightarrow> string \<Rightarrow> bool" where
  "all_in p lo hi s \<longleftrightarrow> (\<forall>c \<in> set s. p c) \<and> lo \<le> length s \<and> length s \<le> hi"

definition validateDestinationShape :: "destination_details \<Rightarrow> string list" where
  "validateDestinationShape d =
     (if length (trim (dd_accountName d)) < 2 then [''Account name is required.''] else [])
     @ (case dd_type d of
          MPESA_PHONE \<Rightarrow>
            (case normalizeKenyanPhone (or_empty (dd_phone d)) of
               Inl _ \<Rightarrow> [''Enter a valid Kenyan M-Pesa number, e.g. 0712 345 678.''] | Inr _ \<Rightarrow> [])
        | TILL \<Rightarrow>
            if all_in is_digit 5 8 (or_empty (dd_tillNumber d)) then []
            else [''A till number is 5'' @ en_dash @ ''8 digits.'']
        | PAYBILL \<Rightarrow>
            (if all_in is_digit 5 7 (or_empty (dd_paybillNumber d)) then []
             else [''A paybill number is 5'' @ en_dash @ ''7 digits.''])
            @ (if or_empty (dd_paybillAccountReference d) \<noteq> ''''
                  \<and> \<not> all_in (\<lambda>c. is_alnum c \<or> c \<in> set '' _-'') 1 20 (or_empty (dd_paybillAccountReference d))
               then [''The paybill account number can be up to 20 letters, digits, spaces, dashes or underscores.''] else [])
        | BANK_ACCOUNT \<Rightarrow>
            (if length (trim (or_empty (dd_bankName d))) < 2 then [''Bank name is required.''] else [])
            @ (if all_in (\<lambda>c. is_alnum c \<or> c = CHR ''-'') 6 24 (or_empty (dd_bankAccountNumber d)) then []
               else [''A bank account number is 6'' @ en_dash @ ''24 letters or digits.'']))"

section \<open>Providers\<close>

definition provider_automatic :: "provider_kind \<Rightarrow> bool" where
  "provider_automatic k \<longleftrightarrow> k \<noteq> MANUAL_TRANSFER"

fun provider_supports :: "provider_kind \<Rightarrow> destination_type \<Rightarrow> bool" where
  "provider_supports MPESA_B2B ty \<longleftrightarrow> ty = TILL \<or> ty = PAYBILL"
| "provider_supports MPESA_B2C ty \<longleftrightarrow> ty = MPESA_PHONE"
| "provider_supports MANUAL_TRANSFER ty \<longleftrightarrow> True"
| "provider_supports SANDBOX_PROVIDER ty \<longleftrightarrow> ty \<noteq> BANK_ACCOUNT"

definition sandboxSettlementsEnabled :: "'x gateway_db_scheme \<Rightarrow> bool" where
  "sandboxSettlementsEnabled db \<longleftrightarrow> nodeEnv db \<noteq> Some ''production'' \<and> sandboxFlag db = Some ''true''"

definition providerForDestination :: "destination_type \<Rightarrow> 'x gateway_db_scheme \<Rightarrow> provider_kind" where
  "providerForDestination ty db =
     (if ty = BANK_ACCOUNT then MANUAL_TRANSFER
      else if sandboxSettlementsEnabled db then SANDBOX_PROVIDER
      else if ty = MPESA_PHONE then MPESA_B2C else MPESA_B2B)"

fun recordedStatus :: "settlement_status \<Rightarrow> string" where
  "recordedStatus SETTLED = ''SETTLED''"
| "recordedStatus ST_FAILED = ''FAILED''"
| "recordedStatus CANCELLED = ''FAILED''"
| "recordedStatus PROCESSING = ''PROCESSING''"
| "recordedStatus _ = ''UNKNOWN''"

text \<open>What the M-Pesa client answers: an acknowledgement, or a thrown value and whether it is an \<open>Error\<close>.\<close>

datatype daraja_reply =
    Acknowledged "string option" string
  | Raised bool string

record b2b_call =
  bb_destinationShortcode :: string
  bb_destinationType :: destination_type
  bb_amountMinor :: minor
  bb_accountReference :: string
  bb_remarks :: string

record b2c_call =
  bc_originatorConversationId :: string
  bc_phone :: string
  bc_amountMinor :: minor
  bc_remarks :: string
  bc_occasion :: string

record provider_api =
  api_b2b :: "b2b_call \<Rightarrow> daraja_reply"
  api_b2c :: "b2c_call \<Rightarrow> daraja_reply"
  api_uuid :: string

datatype initiate_error =
    SettlementRejectedError string
  | SettlementOutcomeUnknownError string
  | OtherError string
  | NotAnError string

datatype initiate_result = ACCEPTED "string option" string | MANUAL_RESULT | THREW initiate_error

definition contains :: "string \<Rightarrow> string \<Rightarrow> bool" where
  "contains sub s \<longleftrightarrow> (\<exists>i < length s + 1. starts_with sub (drop i s))"

definition classifyDarajaError :: "bool \<Rightarrow> string \<Rightarrow> initiate_error" where
  "classifyDarajaError isError message =
     (if starts_with ''M-Pesa B2B payment failed:'' message \<or> starts_with ''M-Pesa B2C payment failed:'' message
         \<or> starts_with ''M-Pesa OAuth request failed'' message
      then SettlementRejectedError message
      else if isError \<and> (\<exists>s \<in> set [''not configured'', ''incomplete'', ''platform m-pesa configuration''].
                           contains s (map to_lower message))
      then SettlementRejectedError message
      else SettlementOutcomeUnknownError (''No definite answer from M-Pesa ('' @ message
             @ ''). The transfer may or may not have been made '' @ em_dash @ '' confirm with Safaricom before resolving.''))"

record settlement_instruction =
  si_settlementId :: id
  si_settlementNumber :: string
  si_amountMinor :: minor
  si_currency :: string
  si_tenantName :: string
  si_tenantSlug :: string
  si_destination :: destination_details

definition mpesaB2B_initiate :: "provider_api \<Rightarrow> settlement_instruction \<Rightarrow> initiate_result" where
  "mpesaB2B_initiate api i =
     (let d = si_destination i;
          shortcode = or_empty (if dd_type d = TILL then dd_tillNumber d else dd_paybillNumber d)
      in if shortcode = '''' then THREW (SettlementRejectedError ''Destination has no till or paybill number.'')
         else case api_b2b api
                \<lparr>bb_destinationShortcode = shortcode,
                 bb_destinationType = (if dd_type d = TILL then TILL else PAYBILL),
                 bb_amountMinor = si_amountMinor i,
                 bb_accountReference = (if or_empty (dd_paybillAccountReference d) \<noteq> ''''
                                        then or_empty (dd_paybillAccountReference d) else si_tenantSlug i),
                 bb_remarks = ''Settlement '' @ si_settlementNumber i\<rparr> of
                Raised isError message \<Rightarrow> THREW (classifyDarajaError isError message)
              | Acknowledged conversationId originatorConversationId \<Rightarrow> ACCEPTED conversationId originatorConversationId)"

definition mpesaB2C_initiate :: "provider_api \<Rightarrow> settlement_instruction \<Rightarrow> initiate_result" where
  "mpesaB2C_initiate api i =
     (case normalizeKenyanPhone (or_empty (dd_phone (si_destination i))) of
        Inl _ \<Rightarrow> THREW (OtherError (''\"'' @ or_empty (dd_phone (si_destination i)) @ ''\" is not a valid Kenyan phone number''))
      | Inr phone \<Rightarrow>
          let originatorConversationId = ''STL-'' @ nat_to_string (si_settlementId i)
          in case api_b2c api
               \<lparr>bc_originatorConversationId = originatorConversationId, bc_phone = phone,
                bc_amountMinor = si_amountMinor i, bc_remarks = ''Settlement '' @ si_settlementNumber i,
                bc_occasion = si_tenantName i\<rparr> of
               Raised isError message \<Rightarrow> THREW (classifyDarajaError isError message)
             | Acknowledged conversationId echoed \<Rightarrow>
                 ACCEPTED conversationId (if echoed = '''' then originatorConversationId else echoed))"

fun initiateSettlement :: "provider_kind \<Rightarrow> provider_api \<Rightarrow> settlement_instruction \<Rightarrow> initiate_result" where
  "initiateSettlement MPESA_B2B api i = mpesaB2B_initiate api i"
| "initiateSettlement MPESA_B2C api i = mpesaB2C_initiate api i"
| "initiateSettlement MANUAL_TRANSFER api i = MANUAL_RESULT"
| "initiateSettlement SANDBOX_PROVIDER api i = ACCEPTED None (''SBX-'' @ api_uuid api)"

section \<open>Destinations\<close>

record destination_input =
  di_type :: destination_type
  di_accountName :: string
  di_phone :: "string option"
  di_bankName :: "string option"
  di_bankBranch :: "string option"
  di_bankAccountNumber :: "string option"
  di_tillNumber :: "string option"
  di_paybillNumber :: "string option"
  di_paybillAccountReference :: "string option"

definition destinationLabel :: "destination \<Rightarrow> string" where
  "destinationLabel d =
     (case d_type d of
        MPESA_PHONE \<Rightarrow> trim (''M-Pesa '' @ or_empty (maskPhone (d_phone d)))
      | BANK_ACCOUNT \<Rightarrow> trim ((case d_bankName d of Some b \<Rightarrow> b | None \<Rightarrow> ''Bank'') @ '' ''
            @ (if or_empty (d_bankAccountLast4 d) \<noteq> '''' then ''****'' @ or_empty (d_bankAccountLast4 d) else ''''))
      | TILL \<Rightarrow> trim (''Till '' @ or_empty (d_tillNumber d))
      | PAYBILL \<Rightarrow> ''Paybill '' @ or_empty (d_paybillNumber d)
            @ (if or_empty (d_paybillAccountReference d) \<noteq> ''''
               then middle_dot @ ''Acc '' @ or_empty (d_paybillAccountReference d) else ''''))"

definition destinationSnapshot :: "destination \<Rightarrow> destination_snapshot" where
  "destinationSnapshot d =
     \<lparr>sn_type = d_type d, sn_label = destinationLabel d, sn_accountName = d_accountName d,
      sn_phone = maskPhone (d_phone d), sn_bankName = d_bankName d, sn_bankAccountLast4 = d_bankAccountLast4 d,
      sn_tillNumber = d_tillNumber d, sn_paybillNumber = d_paybillNumber d,
      sn_paybillAccountReference = d_paybillAccountReference d\<rparr>"

record presented_destination =
  pd_id :: id
  pd_snapshot :: destination_snapshot
  pd_bankBranch :: "string option"
  pd_verificationStatus :: verification_status
  pd_verifiedAt :: "time option"
  pd_isActive :: bool
  pd_automatic :: bool
  pd_provider :: provider_kind
  pd_createdAt :: time

definition presentDestination :: "destination \<Rightarrow> 'x gateway_db_scheme \<Rightarrow> presented_destination" where
  "presentDestination d db =
     (let provider = providerForDestination (d_type d) db
      in \<lparr>pd_id = d_id d, pd_snapshot = destinationSnapshot d, pd_bankBranch = d_bankBranch d,
          pd_verificationStatus = d_verificationStatus d, pd_verifiedAt = d_verifiedAt d, pd_isActive = d_isActive d,
          pd_automatic = provider_automatic provider, pd_provider = provider, pd_createdAt = d_createdAt d\<rparr>)"

definition destinationDetails :: "(string \<Rightarrow> string) \<Rightarrow> destination \<Rightarrow> destination_details" where
  "destinationDetails dec d =
     \<lparr>dd_type = d_type d, dd_accountName = d_accountName d, dd_phone = d_phone d, dd_bankName = d_bankName d,
      dd_bankBranch = d_bankBranch d,
      dd_bankAccountNumber = (if or_empty (d_bankAccountNumberEncrypted d) \<noteq> ''''
                              then Some (dec (or_empty (d_bankAccountNumberEncrypted d))) else None),
      dd_tillNumber = d_tillNumber d, dd_paybillNumber = d_paybillNumber d,
      dd_paybillAccountReference = d_paybillAccountReference d\<rparr>"

definition strip_spaces :: "string \<Rightarrow> string" where
  "strip_spaces s = filter (\<lambda>c. \<not> is_space c) s"

definition normalise :: "destination_input \<Rightarrow> destination_details" where
  "normalise inp =
     (let base = \<lparr>dd_type = di_type inp, dd_accountName = trim (di_accountName inp), dd_phone = None, dd_bankName = None,
                  dd_bankBranch = None, dd_bankAccountNumber = None, dd_tillNumber = None, dd_paybillNumber = None,
                  dd_paybillAccountReference = None\<rparr>
      in case di_type inp of
           MPESA_PHONE \<Rightarrow> base\<lparr>dd_phone := trim_or_null (di_phone inp)\<rparr>
         | BANK_ACCOUNT \<Rightarrow> base\<lparr>dd_bankName := trim_or_null (di_bankName inp),
                               dd_bankBranch := trim_or_null (di_bankBranch inp),
                               dd_bankAccountNumber := map_option strip_spaces (trim_or_null (di_bankAccountNumber inp))\<rparr>
         | TILL \<Rightarrow> base\<lparr>dd_tillNumber := map_option strip_spaces (trim_or_null (di_tillNumber inp))\<rparr>
         | PAYBILL \<Rightarrow> base\<lparr>dd_paybillNumber := map_option strip_spaces (trim_or_null (di_paybillNumber inp)),
                          dd_paybillAccountReference := trim_or_null (di_paybillAccountReference inp)\<rparr>)"

fun join_with :: "string \<Rightarrow> string list \<Rightarrow> string" where
  "join_with sep [] = ''''"
| "join_with sep [s] = s"
| "join_with sep (s # t # ss) = s @ sep @ join_with sep (t # ss)"

definition validateDestinationInput :: "destination_input \<Rightarrow> destination_details result" where
  "validateDestinationInput inp =
     (let details = normalise inp;
          problems = validateDestinationShape details
      in if problems \<noteq> [] then Inl (ValidationError (join_with '' '' problems))
         else if dd_type details = MPESA_PHONE
         then (case normalizeKenyanPhone (or_empty (dd_phone details)) of
                 Inl e \<Rightarrow> Inl e | Inr n \<Rightarrow> Inr (details\<lparr>dd_phone := Some n\<rparr>))
         else Inr details)"

definition active_for :: "id \<Rightarrow> destination \<Rightarrow> bool" where
  "active_for t d \<longleftrightarrow> d_tenantId d = t \<and> d_isActive d"

definition getActiveDestination :: "id \<Rightarrow> 'x gateway_db_scheme \<Rightarrow> destination option" where
  "getActiveDestination tenantId db = List.find (active_for tenantId) (destinations db)"

definition listDestinations :: "id \<Rightarrow> 'x gateway_db_scheme \<Rightarrow> destination list" where
  "listDestinations tenantId db =
     take 50 (sort_key (\<lambda>d. - d_createdAt d) (filter (\<lambda>d. d_tenantId d = tenantId) (destinations db)))"

text \<open>\<open>create\<close> under the partial unique index \<open>settlement_destinations_one_active_per_tenant\<close>.\<close>

definition insert_destination :: "destination \<Rightarrow> 'x gateway_db_scheme \<Rightarrow> 'x gateway_db_scheme result" where
  "insert_destination d db =
     (if d_isActive d \<and> (\<exists>x \<in> set (destinations db). active_for (d_tenantId d) x) then Inl UniqueViolation
      else Inr (db\<lparr>destinations := destinations db @ [d], nextId := nextId db + 1\<rparr>))"

definition new_destination ::
  "(string \<Rightarrow> string) \<Rightarrow> id \<Rightarrow> destination_details \<Rightarrow> id option \<Rightarrow> 'x gateway_db_scheme \<Rightarrow> destination" where
  "new_destination enc tenantId details userId db =
     \<lparr>d_id = nextId db, d_tenantId = tenantId, d_type = dd_type details, d_accountName = dd_accountName details,
      d_phone = dd_phone details, d_bankName = dd_bankName details, d_bankBranch = dd_bankBranch details,
      d_bankAccountNumberEncrypted = (if or_empty (dd_bankAccountNumber details) \<noteq> ''''
                                      then Some (enc (or_empty (dd_bankAccountNumber details))) else None),
      d_bankAccountLast4 = (if or_empty (dd_bankAccountNumber details) \<noteq> ''''
                            then Some (last_chars 4 (or_empty (dd_bankAccountNumber details))) else None),
      d_tillNumber = dd_tillNumber details, d_paybillNumber = dd_paybillNumber details,
      d_paybillAccountReference = dd_paybillAccountReference details,
      d_verificationStatus = UNVERIFIED, d_verifiedAt = None, d_isActive = True, d_deactivatedAt = None,
      d_createdByUserId = userId, d_createdAt = clock db\<rparr>"

definition setActiveDestination ::
  "(string \<Rightarrow> string) \<Rightarrow> id \<Rightarrow> destination_input \<Rightarrow> id \<Rightarrow> 'x gateway_db_scheme \<Rightarrow>
     ((destination option \<times> destination) \<times> 'x gateway_db_scheme) result" where
  "setActiveDestination enc tenantId inp userId db =
     (case validateDestinationInput inp of
        Inl e \<Rightarrow> Inl e
      | Inr details \<Rightarrow>
          let before = getActiveDestination tenantId db;
              db1 = (case before of
                       None \<Rightarrow> db
                     | Some b \<Rightarrow> db\<lparr>destinations := update_where (\<lambda>d. d_id d = d_id b)
                                  (\<lambda>d. d\<lparr>d_isActive := False, d_deactivatedAt := Some (clock db)\<rparr>) (destinations db)\<rparr>);
              after = new_destination enc tenantId details (Some userId) db1
          in case insert_destination after db1 of
               Inl e \<Rightarrow> Inl e
             | Inr db2 \<Rightarrow> Inr ((before, after), db2))"

section \<open>One active destination per tenant\<close>

definition destinations_ok :: "'x gateway_db_scheme \<Rightarrow> bool" where
  "destinations_ok db \<longleftrightarrow> distinct (map d_id (destinations db)) \<and> (\<forall>d \<in> set (destinations db). d_id d < nextId db)
     \<and> (\<forall>d \<in> set (destinations db). \<forall>e \<in> set (destinations db). d_isActive d \<longrightarrow> d_isActive e \<longrightarrow> d_tenantId d = d_tenantId e \<longrightarrow> d = e)
     \<and> (\<forall>d \<in> set (destinations db). d_type d = MPESA_PHONE \<longrightarrow> (\<exists>p. d_phone d = Some p \<and> normalizeKenyanPhone p = Inr p))"


lemma normalize_idem: "normalizeKenyanPhone s = Inr n \<Longrightarrow> normalizeKenyanPhone n = Inr n"
  using subscriber_of_forms(3) subscriber_of_Some
  by (auto simp: normalize_subscriber split: option.splits)

lemma validated_shape:
  assumes "validateDestinationInput inp = Inr d"
  shows "validateDestinationShape d = []" and "dd_bankAccountNumber d \<noteq> Some ''''"
    and "dd_type d = di_type inp"
    and "di_type inp = MPESA_PHONE \<Longrightarrow> \<exists>p. dd_phone d = Some p \<and> normalizeKenyanPhone p = Inr p"
proof -
  have t: "dd_type (normalise inp) = di_type inp"
    by (simp add: normalise_def Let_def split: destination_type.split)
  have v: "validateDestinationShape (normalise inp) = []"
    using assms by (auto simp: validateDestinationInput_def Let_def split: if_splits)
  consider "di_type inp = MPESA_PHONE" | "di_type inp \<noteq> MPESA_PHONE" "d = normalise inp"
    using assms t by (auto simp: validateDestinationInput_def Let_def split: if_splits)
  note cs = this
  show "dd_type d = di_type inp"
    using assms t by (auto simp: validateDestinationInput_def Let_def split: if_splits sum.splits)
  obtain n where n: "di_type inp = MPESA_PHONE \<Longrightarrow> normalizeKenyanPhone (or_empty (dd_phone (normalise inp))) = Inr n"
      "di_type inp = MPESA_PHONE \<Longrightarrow> d = (normalise inp)\<lparr>dd_phone := Some n\<rparr>"
    using assms t by (auto simp: validateDestinationInput_def Let_def split: if_splits sum.splits)
  show "\<exists>p. dd_phone d = Some p \<and> normalizeKenyanPhone p = Inr p" if "di_type inp = MPESA_PHONE"
    using n [OF that] normalize_idem by auto
  show "validateDestinationShape d = []"
    using cs
  proof cases
    case 1
    then show ?thesis using n [OF 1] v normalize_idem [OF n(1) [OF 1]] t
      by (simp add: validateDestinationShape_def or_empty_def)
  qed (use v in simp)
  show "dd_bankAccountNumber d \<noteq> Some ''''"
  proof (cases "di_type inp = BANK_ACCOUNT")
    case True
    then have "d = normalise inp" using cs by auto
    then show ?thesis using True v t by (auto simp: validateDestinationShape_def all_in_def or_empty_def split: if_splits)
  next
    case False
    then have "dd_bankAccountNumber (normalise inp) = None"
      by (simp add: normalise_def Let_def split: destination_type.split)
    then show ?thesis using cs n by fastforce
  qed
qed

lemma stored_details:
  assumes "dd_bankAccountNumber details \<noteq> Some ''''" and "\<And>s. dec (enc s) = s" and "\<And>s. enc s \<noteq> ''''"
  shows "destinationDetails dec (new_destination enc t details u db) = details"
  using assms by (cases details) (auto simp: destinationDetails_def new_destination_def or_empty_def split: option.splits)

definition retire :: "destination option \<Rightarrow> 'x gateway_db_scheme \<Rightarrow> 'x gateway_db_scheme" where
  "retire before db = (case before of None \<Rightarrow> db
     | Some b \<Rightarrow> db\<lparr>destinations := update_where (\<lambda>d. d_id d = d_id b)
                  (\<lambda>d. d\<lparr>d_isActive := False, d_deactivatedAt := Some (clock db)\<rparr>) (destinations db)\<rparr>)"

lemma active_unique:
  assumes "destinations_ok db" "d \<in> set (destinations db)" "active_for t d"
  shows "getActiveDestination t db = Some d"
proof -
  obtain e where e: "getActiveDestination t db = Some e"
    using find_exists [of d "destinations db" "active_for t"] assms(2,3) unfolding getActiveDestination_def by blast
  then have "e \<in> set (destinations db)" "active_for t e" unfolding getActiveDestination_def by (auto dest: find_SomeD)
  then show ?thesis using assms e by (auto simp: destinations_ok_def active_for_def)
qed

lemma retire_destinations:
  assumes ok: "destinations_ok db"
  shows "destinations_ok (retire (getActiveDestination t db) db)"
    and "\<forall>d \<in> set (destinations (retire (getActiveDestination t db) db)). \<not> active_for t d"
    and "t' \<noteq> t \<Longrightarrow> getActiveDestination t' (retire (getActiveDestination t db) db) = getActiveDestination t' db"
    and "nextId (retire (getActiveDestination t db) db) = nextId db"
proof -
  let ?b = "getActiveDestination t db" and ?f = "\<lambda>d. d\<lparr>d_isActive := False, d_deactivatedAt := Some (clock db)\<rparr>"
  show "nextId (retire ?b db) = nextId db" by (simp add: retire_def split: option.split)
  show "destinations_ok (retire ?b db)"
  proof (cases ?b)
    case (Some b)
    have m: "map d_id (update_where (\<lambda>d. d_id d = d_id b) ?f (destinations db)) = map d_id (destinations db)"
      by (rule map_update_where) simp
    show ?thesis using ok unfolding destinations_ok_def by (simp add: retire_def Some m) (auto simp: set_update_where)
  qed (simp add: retire_def ok)
  show "\<forall>d \<in> set (destinations (retire ?b db)). \<not> active_for t d"
  proof (cases ?b)
    case None
    then show ?thesis by (auto simp: retire_def getActiveDestination_def dest: find_NoneD)
  next
    case (Some b)
    then have "d_id d = d_id b" if "d \<in> set (destinations db)" "active_for t d" for d
      using active_unique [OF ok that] by simp
    then show ?thesis by (auto simp: retire_def Some set_update_where active_for_def)
  qed
  show "getActiveDestination t' (retire ?b db) = getActiveDestination t' db" if "t' \<noteq> t"
  proof (cases ?b)
    case (Some b)
    then have b: "d_tenantId b = t" "b \<in> set (destinations db)" unfolding getActiveDestination_def by (auto dest: find_SomeD simp: active_for_def)
    have "List.find (active_for t') (update_where (\<lambda>d. d_id d = d_id b) ?f ds) = List.find (active_for t') ds"
      if "\<forall>d \<in> set ds. d_id d = d_id b \<longrightarrow> d = b" for ds
      using that b(1) \<open>t' \<noteq> t\<close> by (induction ds) (auto simp: active_for_def)
    moreover have "\<forall>d \<in> set (destinations db). d_id d = d_id b \<longrightarrow> d = b"
      using ok b(2) key_eq_rows [of d_id "destinations db"] by (auto simp: destinations_ok_def)
    ultimately show ?thesis by (simp add: getActiveDestination_def retire_def Some [unfolded getActiveDestination_def])
  qed (simp add: retire_def)
qed

lemma insert_destination_ok:
  assumes ok: "destinations_ok db" and ins: "insert_destination d db = Inr db'" and d: "d_id d = nextId db"
    "d_type d = MPESA_PHONE \<Longrightarrow> \<exists>p. d_phone d = Some p \<and> normalizeKenyanPhone p = Inr p"
  shows "destinations_ok db'"
proof -
  have db': "db' = db\<lparr>destinations := destinations db @ [d], nextId := nextId db + 1\<rparr>"
    and na: "d_isActive d \<longrightarrow> (\<forall>x \<in> set (destinations db). \<not> active_for (d_tenantId d) x)"
    using ins by (auto simp: insert_destination_def split: if_splits)
  have new: "d_id d \<notin> d_id ` set (destinations db)" using ok d(1) by (fastforce simp: destinations_ok_def)
  have u: "\<forall>x \<in> set (destinations db @ [d]). \<forall>y \<in> set (destinations db @ [d]).
      d_isActive x \<longrightarrow> d_isActive y \<longrightarrow> d_tenantId x = d_tenantId y \<longrightarrow> x = y"
    using ok na by (auto simp: destinations_ok_def active_for_def)
  show ?thesis unfolding destinations_ok_def using ok new u d by (auto simp: db' destinations_ok_def)
qed

lemma setActiveDestination_spec:
  assumes ok: "destinations_ok db" and v: "validateDestinationInput inp = Inr details"
  obtains db' where "setActiveDestination enc t inp u db =
      Inr ((getActiveDestination t db, new_destination enc t details (Some u) db), db')"
    "destinations_ok db'" "getActiveDestination t db' = Some (new_destination enc t details (Some u) db)"
    "\<forall>t'. t' \<noteq> t \<longrightarrow> getActiveDestination t' db' = getActiveDestination t' db"
    "length (destinations db') = length (destinations db) + 1"
proof -
  let ?b = "getActiveDestination t db"
  define db1 where "db1 = retire ?b db"
  define after where "after = new_destination enc t details (Some u) db"
  define db2 where "db2 = db1\<lparr>destinations := destinations db1 @ [after], nextId := nextId db1 + 1\<rparr>"
  note r = retire_destinations(1,2,4) [OF ok, of t, folded db1_def]
  have a1: "new_destination enc t details (Some u) db1 = after"
    by (simp add: after_def db1_def retire_def new_destination_def split: option.split)
  have at: "d_tenantId after = t" "d_isActive after" "d_id after = nextId db" by (simp_all add: after_def new_destination_def)
  have ins: "insert_destination after db1 = Inr db2"
    using r(2) at by (simp add: insert_destination_def db2_def)
  have "setActiveDestination enc t inp u db = Inr ((?b, after), db2)"
    using v a1 ins by (simp add: setActiveDestination_def Let_def db1_def retire_def)
  moreover have "destinations_ok db2"
    by (rule insert_destination_ok [OF r(1) ins])
      (use r(3) at validated_shape(3,4) [OF v] in \<open>auto simp: after_def new_destination_def\<close>)
  moreover have "getActiveDestination t db2 = Some after"
  proof -
    have "List.find (active_for t) (destinations db1) = None" using r(2) by (auto simp: find_None_iff)
    then show ?thesis using at by (simp add: getActiveDestination_def db2_def find_append active_for_def)
  qed
  moreover have "getActiveDestination t' db2 = getActiveDestination t' db" if "t' \<noteq> t" for t'
    using retire_destinations(3) [OF ok that, folded db1_def] at that by (simp add: getActiveDestination_def db2_def find_append active_for_def split: option.splits)
  moreover have "length (destinations db2) = length (destinations db) + 1"
    by (simp add: db2_def db1_def retire_def split: option.split)
  ultimately show thesis using that by (auto simp: after_def)
qed


text \<open>
  Setting a payout destination replaces the tenant's active one and nothing else. When the
  input validates, the call succeeds; the new row is the tenant's only active destination, other
  tenants keep theirs, no row is deleted, and what a provider is later given for it is exactly
  the validated details, which are still valid (the bank number is read back through the
  cipher).
\<close>

theorem setActiveDestination_replaces:
  assumes "destinations_ok db" and "validateDestinationInput inp = Inr details"
    and "\<forall>s. dec (enc s) = s" and "\<forall>s. enc s \<noteq> ''''"
  shows "\<exists>after db'. setActiveDestination enc t inp u db = Inr ((getActiveDestination t db, after), db')
    \<and> destinations_ok db' \<and> length (destinations db') = length (destinations db) + 1
    \<and> (\<forall>d \<in> set (destinations db'). active_for t d \<longrightarrow> d = after) \<and> active_for t after \<and> after \<in> set (destinations db')
    \<and> (\<forall>t'. t' \<noteq> t \<longrightarrow> getActiveDestination t' db' = getActiveDestination t' db)
    \<and> destinationDetails dec after = details \<and> validateDestinationShape (destinationDetails dec after) = []"
proof -
  obtain db' where run: "setActiveDestination enc t inp u db =
      Inr ((getActiveDestination t db, new_destination enc t details (Some u) db), db')" and ok': "destinations_ok db'"
    and act: "getActiveDestination t db' = Some (new_destination enc t details (Some u) db)"
    and oth: "\<forall>t'. t' \<noteq> t \<longrightarrow> getActiveDestination t' db' = getActiveDestination t' db"
    and len: "length (destinations db') = length (destinations db) + 1"
    by (rule setActiveDestination_spec [OF assms(1,2)])
  have one: "\<forall>d \<in> set (destinations db'). active_for t d \<longrightarrow> d = new_destination enc t details (Some u) db"
    using active_unique [OF ok'] act by auto
  have mem: "active_for t (new_destination enc t details (Some u) db)" "new_destination enc t details (Some u) db \<in> set (destinations db')"
    using act by (auto simp: getActiveDestination_def dest: find_SomeD)
  have det: "destinationDetails dec (new_destination enc t details (Some u) db) = details"
    by (rule stored_details) (use assms(3,4) validated_shape(2) [OF assms(2)] in auto)
  have sh: "validateDestinationShape (destinationDetails dec (new_destination enc t details (Some u) db)) = []"
    unfolding det by (rule validated_shape(1) [OF assms(2)])
  show ?thesis
    by (intro exI conjI) (rule run, rule ok', rule len, rule one, rule mem, rule mem, rule oth, rule det, rule sh)
qed

definition sample_destination_input :: destination_input where
  "sample_destination_input = \<lparr>di_type = TILL, di_accountName = ''Acme Net'', di_phone = None,
     di_bankName = None, di_bankBranch = None, di_bankAccountNumber = None, di_tillNumber = Some '' 123 456'', di_paybillNumber = None,
     di_paybillAccountReference = None\<rparr>"

definition sample_details :: destination_details where
  "sample_details = \<lparr>dd_type = TILL, dd_accountName = ''Acme Net'', dd_phone = None, dd_bankName = None,
     dd_bankBranch = None, dd_bankAccountNumber = None, dd_tillNumber = Some ''123456'', dd_paybillNumber = None,
     dd_paybillAccountReference = None\<rparr>"

lemma sample_destination_validates: "validateDestinationInput sample_destination_input = Inr sample_details"
  by (simp add: validateDestinationInput_def normalise_def sample_destination_input_def sample_details_def trim_def
      is_space_def trim_or_null_def strip_spaces_def validateDestinationShape_def all_in_def is_digit_def or_empty_def)

theorem setActiveDestination_replaces_witness:
  "\<exists>after db'. setActiveDestination (\<lambda>s. ''v1:'' @ s) 7 sample_destination_input 5 empty_gateway = Inr ((None, after), db')
     \<and> active_for 7 after \<and> destinationDetails (drop 3) after = sample_details"
proof -
  have ok: "destinations_ok empty_gateway" by (simp add: destinations_ok_def)
  have n: "getActiveDestination 7 empty_gateway = None" by (simp add: getActiveDestination_def)
  have c: "\<forall>s. drop 3 (''v1:'' @ s) = s" "\<forall>s. ''v1:'' @ s \<noteq> ''''" by simp_all
  show ?thesis
    using setActiveDestination_replaces [OF ok sample_destination_validates c, of 7 5] unfolding n by blast
qed

end
