(* ===== verification/Settlements.thy ===== *)
theory Settlements
  imports GatewayRefunds Destinations
begin

text \<open>
  Paying a tenant what the ledger says they are owed: packages/payments/src/gateway/settlement.service.ts.
  A database transaction is a function into \<open>result\<close>; an operation that talks to a provider between
  two transactions is a function into a result and the database it leaves behind, because what it
  wrote before an error stays written.
\<close>

section \<open>Rows\<close>

fun status_text :: "settlement_status \<Rightarrow> string" where
  "status_text REQUESTED = ''REQUESTED''"
| "status_text AWAITING_APPROVAL = ''AWAITING_APPROVAL''"
| "status_text PROCESSING = ''PROCESSING''"
| "status_text SETTLED = ''SETTLED''"
| "status_text ST_FAILED = ''FAILED''"
| "status_text CANCELLED = ''CANCELLED''"

definition find_payout :: "id \<Rightarrow> 'x gateway_db_scheme \<Rightarrow> payout option" where
  "find_payout i db = List.find (\<lambda>y. y_id y = i) (payouts db)"

definition update_payout :: "id \<Rightarrow> (payout \<Rightarrow> payout) \<Rightarrow> 'x gateway_db_scheme \<Rightarrow> 'x gateway_db_scheme" where
  "update_payout i f db = db\<lparr>payouts := update_where (\<lambda>y. y_id y = i) f (payouts db)\<rparr>"

text \<open>\<open>create\<close> under the table's unique indexes.\<close>

definition insert_payout :: "payout \<Rightarrow> 'x gateway_db_scheme \<Rightarrow> 'x gateway_db_scheme result" where
  "insert_payout y db =
     (if \<exists>x \<in> set (payouts db). y_settlementNumber x = y_settlementNumber y
           \<or> (queued (y_status x) \<and> queued (y_status y) \<and> y_tenantId x = y_tenantId y)
           \<or> (y_retryOfId y \<noteq> None \<and> y_retryOfId x = y_retryOfId y)
      then Inl UniqueViolation
      else Inr (db\<lparr>payouts := payouts db @ [y], nextId := nextId db + 1, stlSeq := stlSeq db + 1\<rparr>))"

section \<open>Requesting a settlement\<close>

record request_input =
  rq_tenantId :: id
  rq_trigger :: settlement_trigger
  rq_requestedByUserId :: "id option"
  rq_retryOfId :: "id option"
  rq_enforceMinimum :: bool

text \<open>Groups of three digits, as \<open>toLocaleString\<close> prints a number of shillings.\<close>

fun group_thousands :: "nat \<Rightarrow> string" where
  "group_thousands n = (if n < 1000 then nat_to_string n
     else group_thousands (n div 1000) @ '','' @ pad_start 3 (CHR ''0'') (nat_to_string (n mod 1000)))"

declare group_thousands.simps [simp del]

definition locale_major :: "minor \<Rightarrow> string" where
  "locale_major n =
     (let frac = nat (\<bar>n\<bar> mod 100)
      in (if n < 0 then ''-'' else '''') @ group_thousands (nat (\<bar>n\<bar> div 100))
         @ (if frac = 0 then '''' else if frac mod 10 = 0 then ''.'' @ nat_to_string (frac div 10)
            else ''.'' @ pad_start 2 (CHR ''0'') (nat_to_string frac)))"

definition empty_details :: "destination_type \<Rightarrow> string \<Rightarrow> destination_details" where
  "empty_details ty accountName = \<lparr>dd_type = ty, dd_accountName = accountName, dd_phone = None, dd_bankName = None,
     dd_bankBranch = None, dd_bankAccountNumber = None, dd_tillNumber = None, dd_paybillNumber = None,
     dd_paybillAccountReference = None\<rparr>"

definition shortcode_details :: "tenant \<Rightarrow> string \<Rightarrow> destination_details" where
  "shortcode_details tn shortcode =
     (if t_payoutShortcodeType tn = ''TILL'' then (empty_details TILL (t_name tn))\<lparr>dd_tillNumber := Some shortcode\<rparr>
      else (empty_details PAYBILL (t_name tn))\<lparr>dd_paybillNumber := Some shortcode,
              dd_paybillAccountReference := Some (take 20 (t_slug tn))\<rparr>)"

definition owner_phone :: "id \<Rightarrow> 'x gateway_db_scheme \<Rightarrow> string option" where
  "owner_phone tenantId db =
     (case sort_key up_createdAt (filter (\<lambda>u. up_tenantId u = tenantId \<and> up_phone u \<noteq> None) (userPhones db)) of
        [] \<Rightarrow> None | u # _ \<Rightarrow> up_phone u)"

text \<open>The active destination, or one made from the tenant's shortcode or its owner's phone.\<close>

definition resolve_destination :: "tenant \<Rightarrow> 'x gateway_db_scheme \<Rightarrow> (destination option \<times> 'x gateway_db_scheme) result" where
  "resolve_destination tn db =
     (case getActiveDestination (t_id tn) db of
        Some d \<Rightarrow> Inr (Some d, db)
      | None \<Rightarrow>
          let create = (\<lambda>details.
                let d = new_destination (\<lambda>s. s) (t_id tn) details None db
                in (case insert_destination d db of Inl e \<Rightarrow> Inl e | Inr db1 \<Rightarrow> Inr (Some d, db1)))
          in if or_empty (t_payoutShortcode tn) \<noteq> ''''
             then create (shortcode_details tn (or_empty (t_payoutShortcode tn)))
             else if or_empty (owner_phone (t_id tn) db) \<noteq> ''''
             then (case normalizeKenyanPhone (or_empty (owner_phone (t_id tn) db)) of
                     Inl _ \<Rightarrow> Inr (None, db)
                   | Inr cleanPhone \<Rightarrow> create ((empty_details MPESA_PHONE (t_name tn))\<lparr>dd_phone := Some cleanPhone\<rparr>))
             else Inr (None, db))"

definition latest_payout :: "id \<Rightarrow> 'x gateway_db_scheme \<Rightarrow> payout option" where
  "latest_payout tenantId db =
     (case sort_key (\<lambda>y. - y_createdAt y) (filter (\<lambda>y. y_tenantId y = tenantId) (payouts db)) of
        [] \<Rightarrow> None | y # _ \<Rightarrow> Some y)"

text \<open>What keeps a settlement from being created, once there is a destination.\<close>

definition request_refused :: "request_input \<Rightarrow> 'x gateway_db_scheme \<Rightarrow> app_error option" where
  "request_refused inp db =
     (case List.find (\<lambda>y. y_tenantId y = rq_tenantId inp \<and> queued (y_status y)) (payouts db) of
        Some q \<Rightarrow> Some (ConflictError (''Settlement '' @ y_settlementNumber q @ '' is already waiting to be sent.''))
      | None \<Rightarrow>
          (case (if rq_trigger inp = AUTOMATIC then latest_payout (rq_tenantId inp) db else None) of
             Some l \<Rightarrow>
               if y_status l = ST_FAILED
               then Some (ConflictError (''Automatic settlements are paused because '' @ y_settlementNumber l
                      @ '' failed. Retry it or request a settlement to resume.''))
               else None
           | None \<Rightarrow> None))"

definition amount_refused :: "request_input \<Rightarrow> minor \<Rightarrow> settlement_settings \<Rightarrow> app_error option" where
  "amount_refused inp amountMinor settings =
     (if amountMinor \<le> 0 then Some (ConflictError ''There is no available balance to settle.'')
      else if rq_enforceMinimum inp \<and> amountMinor < settlementMinimumMinor settings
      then Some (ConflictError (''The available balance is below the minimum settlement of KES ''
                   @ locale_major (settlementMinimumMinor settings) @ ''.''))
      else None)"

definition new_payout :: "request_input \<Rightarrow> destination \<Rightarrow> minor \<Rightarrow> 'x gateway_db_scheme \<Rightarrow> payout" where
  "new_payout inp d amountMinor db =
     (let provider = providerForDestination (d_type d) db;
          needsApproval = (\<not> provider_automatic provider \<or> settlementMode (gsettings db) = MODE_MANUAL)
      in \<lparr>y_id = nextId db, y_settlementNumber = fst (nextSettlementNumber db), y_tenantId = rq_tenantId inp,
          y_amountMinor = amountMinor, y_currency = ''KES'', y_destinationId = Some (d_id d),
          y_destinationSnapshot = Some (destinationSnapshot d),
          y_destinationShortcode = (case d_tillNumber d of Some n \<Rightarrow> Some n | None \<Rightarrow> d_paybillNumber d),
          y_destinationType = d_type d, y_provider = provider,
          y_environment = (if provider = SANDBOX_PROVIDER then ENV_SANDBOX else getPlatformEnvironment db),
          y_trigger = rq_trigger inp, y_status = (if needsApproval then AWAITING_APPROVAL else REQUESTED),
          y_requestedByUserId = rq_requestedByUserId inp, y_approvedByUserId = None, y_approvedAt = None,
          y_processingStartedAt = None, y_conversationId = None, y_originatorConversationId = None,
          y_transactionId = None, y_resultCode = None, y_resultDesc = None, y_failureReason = None,
          y_providerConfirmedAt = None, y_timedOutAt = None, y_retryOfId = rq_retryOfId inp,
          y_resolvedByUserId = None, y_notes = None, y_createdAt = clock db, y_completedAt = None,
          y_failedAt = None, y_cancelledAt = None\<rparr>)"

definition settlement_entry :: "payout \<Rightarrow> ledger_entry" where
  "settlement_entry y =
     \<lparr>le_tenantId = y_tenantId y, le_direction = L_DEBIT, le_entryType = SETTLEMENT, le_amountMinor = y_amountMinor y,
      le_currency = y_currency y, le_description = ''Settlement '' @ y_settlementNumber y, le_sourceType = ''Settlement'',
      le_sourceId = y_id y, le_gatewayTransactionId = None, le_settlementId = Some (y_id y),
      le_createdByUserId = y_requestedByUserId y\<rparr>"

definition link_unsettled :: "payout \<Rightarrow> gateway_txn list \<Rightarrow> gateway_txn list" where
  "link_unsettled y gs =
     update_where (\<lambda>g. g_tenantId g = y_tenantId y \<and> g_settlementStatus g = UNSETTLED
                     \<and> (g_status g = GT_COMPLETED \<or> g_status g = GT_PARTIALLY_REFUNDED) \<and> g_createdAt g \<le> y_createdAt y)
       (\<lambda>g. g\<lparr>g_settlementStatus := SETTLEMENT_PENDING, g_settlementId := Some (y_id y)\<rparr>) gs"

text \<open>The transaction of \<open>requestSettlement\<close>.\<close>

definition create_settlement :: "request_input \<Rightarrow> 'x gateway_db_scheme \<Rightarrow> (payout \<times> 'x gateway_db_scheme) result" where
  "create_settlement inp db =
     (case List.find (\<lambda>t. t_id t = rq_tenantId inp \<and> t_deletedAt t = None) (tenants db) of
        None \<Rightarrow> Inl (NotFoundError ''Tenant'')
      | Some tn \<Rightarrow>
          (case resolve_destination tn db of
             Inl e \<Rightarrow> Inl e
           | Inr (None, db1) \<Rightarrow>
               Inl (ValidationError (''\"'' @ t_name tn @ ''\" has no settlement destination '' @ em_dash
                      @ '' add one in Payment Settings.''))
           | Inr (Some d, db1) \<Rightarrow>
               (case request_refused inp db1 of
                  Some e \<Rightarrow> Inl e
                | None \<Rightarrow>
                    let amountMinor = settleableMinor (getTenantBalance (rq_tenantId inp) db1)
                    in case amount_refused inp amountMinor (gsettings db1) of
                         Some e \<Rightarrow> Inl e
                       | None \<Rightarrow>
                           let y = new_payout inp d amountMinor db1
                           in case insert_payout y db1 of
                                Inl e \<Rightarrow> Inl e
                              | Inr db2 \<Rightarrow>
                                  (case appendLedgerEntry (settlement_entry y) db2 of
                                     Inl e \<Rightarrow> Inl e
                                   | Inr (_, db3) \<Rightarrow>
                                       Inr (y, db3\<lparr>gatewayTxns := link_unsettled y (gatewayTxns db3)\<rparr>)))))"

section \<open>Final states\<close>

record fail_extra =
  fx_resultCode :: "int option"
  fx_resultDesc :: "string option"
  fx_userId :: "id option"

definition no_extra :: fail_extra where
  "no_extra = \<lparr>fx_resultCode = None, fx_resultDesc = None, fx_userId = None\<rparr>"

definition reversal_entry :: "payout \<Rightarrow> string \<Rightarrow> id option \<Rightarrow> ledger_entry" where
  "reversal_entry y description userId =
     \<lparr>le_tenantId = y_tenantId y, le_direction = L_CREDIT, le_entryType = SETTLEMENT_REVERSAL,
      le_amountMinor = y_amountMinor y, le_currency = y_currency y, le_description = description,
      le_sourceType = ''SettlementReversal'', le_sourceId = y_id y, le_gatewayTransactionId = None,
      le_settlementId = Some (y_id y), le_createdByUserId = userId\<rparr>"

definition restoreReservedBalance ::
  "payout \<Rightarrow> string \<Rightarrow> id option \<Rightarrow> 'x gateway_db_scheme \<Rightarrow> 'x gateway_db_scheme result" where
  "restoreReservedBalance y description userId db =
     (let has = (\<lambda>src. List.find (\<lambda>e. entry_key e = (src, y_id y)) (ledgerEntries db) \<noteq> None);
          unlink = (\<lambda>d. d\<lparr>gatewayTxns := update_where (\<lambda>g. g_settlementId g = Some (y_id y))
                     (\<lambda>g. g\<lparr>g_settlementStatus := UNSETTLED, g_settlementId := None\<rparr>) (gatewayTxns d)\<rparr>)
      in if has ''Settlement'' \<or> has ''TenantPayout''
         then (case appendLedgerEntry (reversal_entry y description userId) db of
                 Inl e \<Rightarrow> Inl e | Inr (_, db1) \<Rightarrow> Inr (unlink db1))
         else Inr (unlink db))"

definition failed_payout :: "string \<Rightarrow> fail_extra \<Rightarrow> time \<Rightarrow> payout \<Rightarrow> payout" where
  "failed_payout reason extra now y =
     y\<lparr>y_status := ST_FAILED, y_failedAt := Some now, y_failureReason := Some (take 500 reason),
       y_resultCode := (case fx_resultCode extra of Some c \<Rightarrow> Some c | None \<Rightarrow> y_resultCode y),
       y_resultDesc := (case fx_resultDesc extra of Some d \<Rightarrow> Some (take 500 d) | None \<Rightarrow> y_resultDesc y),
       y_resolvedByUserId := (case fx_userId extra of Some u \<Rightarrow> Some u | None \<Rightarrow> y_resolvedByUserId y)\<rparr>"

definition failSettlementTx ::
  "payout \<Rightarrow> string \<Rightarrow> fail_extra \<Rightarrow> 'x gateway_db_scheme \<Rightarrow> (payout \<times> 'x gateway_db_scheme) result" where
  "failSettlementTx y reason extra db =
     (let f = failed_payout reason extra (clock db);
          failed = f y
      in case restoreReservedBalance failed
               (''Settlement '' @ y_settlementNumber failed @ '' failed '' @ em_dash @ '' balance restored'') (fx_userId extra)
               (update_payout (y_id y) f db) of
           Inl e \<Rightarrow> Inl e
         | Inr db1 \<Rightarrow> Inr (failed, db1))"

definition lockSettlement :: "id \<Rightarrow> 'x gateway_db_scheme \<Rightarrow> payout result" where
  "lockSettlement i db = (case find_payout i db of None \<Rightarrow> Inl (NotFoundError ''Settlement'') | Some y \<Rightarrow> Inr y)"

definition is_final :: "settlement_status \<Rightarrow> bool" where
  "is_final s \<longleftrightarrow> s = SETTLED \<or> s = ST_FAILED \<or> s = CANCELLED"

definition failSettlement ::
  "id \<Rightarrow> string \<Rightarrow> fail_extra \<Rightarrow> 'x gateway_db_scheme \<Rightarrow> (payout \<times> 'x gateway_db_scheme) result" where
  "failSettlement i reason extra db =
     (case lockSettlement i db of
        Inl e \<Rightarrow> Inl e
      | Inr current \<Rightarrow> if is_final (y_status current) then Inr (current, db) else failSettlementTx current reason extra db)"

record settled_data =
  sd_transactionId :: "string option"
  sd_resultCode :: "int option"
  sd_resultDesc :: "string option"
  sd_userId :: "id option"
  sd_notes :: "string option"
  sd_providerConfirmed :: bool

definition settled_payout :: "settled_data \<Rightarrow> time \<Rightarrow> payout \<Rightarrow> payout" where
  "settled_payout data now y =
     y\<lparr>y_status := SETTLED, y_completedAt := Some now,
       y_providerConfirmedAt := (if sd_providerConfirmed data then Some now else None),
       y_transactionId := sd_transactionId data, y_failureReason := None,
       y_resultCode := (case sd_resultCode data of Some c \<Rightarrow> Some c | None \<Rightarrow> y_resultCode y),
       y_resultDesc := (case sd_resultDesc data of Some d \<Rightarrow> Some (take 500 d) | None \<Rightarrow> y_resultDesc y),
       y_resolvedByUserId := (case sd_userId data of Some u \<Rightarrow> Some u | None \<Rightarrow> y_resolvedByUserId y),
       y_notes := (if or_empty (sd_notes data) \<noteq> '''' then Some (take 1000 (or_empty (sd_notes data))) else y_notes y)\<rparr>"

definition markSettledTx :: "payout \<Rightarrow> settled_data \<Rightarrow> 'x gateway_db_scheme \<Rightarrow> payout \<times> 'x gateway_db_scheme" where
  "markSettledTx y data db =
     (let f = settled_payout data (clock db);
          db1 = update_payout (y_id y) f db;
          db2 = db1\<lparr>gatewayTxns := update_where (\<lambda>g. g_settlementId g = Some (y_id y))
                      (\<lambda>g. g\<lparr>g_settlementStatus := TXN_SETTLED\<rparr>) (gatewayTxns db1)\<rparr>;
          db3 = (if y_destinationId y \<noteq> None \<and> sd_providerConfirmed data
                 then db2\<lparr>destinations := update_where
                            (\<lambda>d. Some (d_id d) = y_destinationId y \<and> d_verificationStatus d \<noteq> VERIFIED)
                            (\<lambda>d. d\<lparr>d_verificationStatus := VERIFIED, d_verifiedAt := Some (clock db)\<rparr>) (destinations db2)\<rparr>
                 else db2)
      in (f y, db3))"


section \<open>Dispatch\<close>

text \<open>The conditional update: only one of two racing workers sees it succeed.\<close>

definition claim_dispatch :: "id \<Rightarrow> 'x gateway_db_scheme \<Rightarrow> bool \<times> 'x gateway_db_scheme" where
  "claim_dispatch i db =
     (let p = (\<lambda>y. y_id y = i \<and> y_status y = REQUESTED)
      in (count_where p (payouts db) \<noteq> 0,
          db\<lparr>payouts := update_where p (\<lambda>y. y\<lparr>y_status := PROCESSING, y_processingStartedAt := Some (clock db)\<rparr>) (payouts db)\<rparr>))"

text \<open>\<open>update\<close> of the provider's identifiers, under the unique index on the originator's.\<close>

definition set_conversation ::
  "id \<Rightarrow> string option \<Rightarrow> string \<Rightarrow> 'x gateway_db_scheme \<Rightarrow> (payout \<times> 'x gateway_db_scheme) result" where
  "set_conversation i conversationId orig db =
     (if \<exists>y \<in> set (payouts db). y_id y \<noteq> i \<and> y_originatorConversationId y = Some orig then Inl UniqueViolation
      else case find_payout i (update_payout i
                  (\<lambda>y. y\<lparr>y_conversationId := conversationId, y_originatorConversationId := Some orig\<rparr>) db) of
             None \<Rightarrow> Inl RecordNotFound
           | Some y \<Rightarrow> Inr (y, update_payout i
                  (\<lambda>y. y\<lparr>y_conversationId := conversationId, y_originatorConversationId := Some orig\<rparr>) db))"

definition note_unknown :: "id \<Rightarrow> string \<Rightarrow> 'x gateway_db_scheme \<Rightarrow> (payout \<times> 'x gateway_db_scheme) result" where
  "note_unknown i message db =
     (let f = (\<lambda>y. y\<lparr>y_failureReason := Some message,
                     y_notes := Some (''Outcome unknown '' @ em_dash @ '' confirm with the provider, then resolve.'')\<rparr>)
      in case find_payout i (update_payout i f db) of
           None \<Rightarrow> Inl RecordNotFound | Some y \<Rightarrow> Inr (y, update_payout i f db))"

text \<open>What happens with the provider's answer.\<close>

definition finish_dispatch ::
  "payout \<Rightarrow> initiate_result \<Rightarrow> 'x gateway_db_scheme \<Rightarrow> (payout \<times> 'x gateway_db_scheme) result" where
  "finish_dispatch y outcome db =
     (case outcome of
        MANUAL_RESULT \<Rightarrow> Inr (y, db)
      | ACCEPTED conversationId orig \<Rightarrow> set_conversation (y_id y) conversationId orig db
      | THREW (SettlementOutcomeUnknownError m) \<Rightarrow> note_unknown (y_id y) (take 500 m) db
      | THREW (NotAnError m) \<Rightarrow> note_unknown (y_id y) (take 500 m) db
      | THREW (SettlementRejectedError m) \<Rightarrow> failSettlement (y_id y) (take 500 m) no_extra db
      | THREW (OtherError m) \<Rightarrow> failSettlement (y_id y) (take 500 m) no_extra db)"

definition settlement_instruction_for :: "(string \<Rightarrow> string) \<Rightarrow> payout \<Rightarrow> destination \<Rightarrow> tenant \<Rightarrow> settlement_instruction" where
  "settlement_instruction_for dec y d tn =
     \<lparr>si_settlementId = y_id y, si_settlementNumber = y_settlementNumber y, si_amountMinor = y_amountMinor y,
      si_currency = y_currency y, si_tenantName = t_name tn, si_tenantSlug = t_slug tn,
      si_destination = destinationDetails dec d\<rparr>"

text \<open>A transaction run on its own: its writes are dropped when it throws.\<close>

definition commit :: "('a \<times> 's) result \<Rightarrow> 's \<Rightarrow> 'a result \<times> 's" where
  "commit r db = (case r of Inl e \<Rightarrow> (Inl e, db) | Inr (x, db') \<Rightarrow> (Inr x, db'))"

definition dispatchSettlement ::
  "provider_api \<Rightarrow> (string \<Rightarrow> string) \<Rightarrow> id \<Rightarrow> 'x gateway_db_scheme \<Rightarrow> payout result \<times> 'x gateway_db_scheme" where
  "dispatchSettlement api dec i db =
     (let (claimed, db1) = claim_dispatch i db
      in case find_payout i db1 of
           None \<Rightarrow> (Inl RecordNotFound, db1)
         | Some y \<Rightarrow>
             if \<not> claimed then (Inr y, db1)
             else case (List.find (\<lambda>d. Some (d_id d) = y_destinationId y) (destinations db1),
                        List.find (\<lambda>t. t_id t = y_tenantId y) (tenants db1)) of
                    (Some d, Some tn) \<Rightarrow>
                      commit (finish_dispatch y (initiateSettlement (y_provider y) api (settlement_instruction_for dec y d tn)) db1) db1
                  | (Some d, None) \<Rightarrow> (Inl RecordNotFound, db1)
                  | (None, _) \<Rightarrow> commit (failSettlement i ''The settlement has no destination.'' no_extra db1) db1)"

definition requestSettlement ::
  "provider_api \<Rightarrow> (string \<Rightarrow> string) \<Rightarrow> request_input \<Rightarrow> 'x gateway_db_scheme \<Rightarrow> payout result \<times> 'x gateway_db_scheme" where
  "requestSettlement api dec inp db =
     (case create_settlement inp db of
        Inl e \<Rightarrow> (Inl e, db)
      | Inr (y, db1) \<Rightarrow> if y_status y = REQUESTED then dispatchSettlement api dec (y_id y) db1 else (Inr y, db1))"

section \<open>Provider results\<close>

datatype result_outcome = RO_PROCESSED | RO_DUPLICATE | RO_IGNORED

record settlement_result =
  sr_originatorConversationId :: string
  sr_resultCode :: int
  sr_resultDesc :: string
  sr_transactionId :: "string option"

definition find_by_conversation :: "string \<Rightarrow> 'x gateway_db_scheme \<Rightarrow> payout option" where
  "find_by_conversation orig db = List.find (\<lambda>y. y_originatorConversationId y = Some orig) (payouts db)"

definition applySettlementResult ::
  "settlement_result \<Rightarrow> 'x gateway_db_scheme \<Rightarrow> ((result_outcome \<times> payout option) \<times> 'x gateway_db_scheme) result" where
  "applySettlementResult inp db =
     (case find_by_conversation (sr_originatorConversationId inp) db of
        None \<Rightarrow> Inr ((RO_IGNORED, None), db)
      | Some found \<Rightarrow>
          (case lockSettlement (y_id found) db of
             Inl e \<Rightarrow> Inl e
           | Inr y \<Rightarrow>
               if y_status y \<noteq> PROCESSING then Inr ((RO_DUPLICATE, Some y), db)
               else if sr_resultCode inp = 0
               then (let (settled, db1) = markSettledTx y
                            \<lparr>sd_transactionId = sr_transactionId inp, sd_resultCode = Some (sr_resultCode inp),
                             sd_resultDesc = Some (sr_resultDesc inp), sd_userId = None, sd_notes = None,
                             sd_providerConfirmed = True\<rparr> db
                     in Inr ((RO_PROCESSED, Some settled), db1))
               else (case failSettlementTx y
                            (if sr_resultDesc inp \<noteq> '''' then sr_resultDesc inp
                             else ''Provider result '' @ int_to_string (sr_resultCode inp))
                            \<lparr>fx_resultCode = Some (sr_resultCode inp), fx_resultDesc = Some (sr_resultDesc inp), fx_userId = None\<rparr> db of
                       Inl e \<Rightarrow> Inl e
                     | Inr (failed, db1) \<Rightarrow> Inr ((RO_PROCESSED, Some failed), db1))))"

definition markSettlementTimedOut ::
  "string \<Rightarrow> 'x gateway_db_scheme \<Rightarrow> (result_outcome \<times> payout option) \<times> 'x gateway_db_scheme" where
  "markSettlementTimedOut orig db =
     (case find_by_conversation orig db of
        None \<Rightarrow> ((RO_IGNORED, None), db)
      | Some y \<Rightarrow>
          if y_status y \<noteq> PROCESSING \<or> y_timedOutAt y \<noteq> None then ((RO_DUPLICATE, Some y), db)
          else
            let f = (\<lambda>y. y\<lparr>y_timedOutAt := Some (clock db),
                  y_notes := Some (''M-Pesa reported a queue timeout '' @ em_dash
                    @ '' confirm the transfer status with Safaricom, then resolve.'')\<rparr>)
            in ((RO_PROCESSED, Some (f y)), update_payout (y_id y) f db))"

section \<open>Administrator actions\<close>

definition approve_tx :: "id \<Rightarrow> id \<Rightarrow> 'x gateway_db_scheme \<Rightarrow> (payout \<times> 'x gateway_db_scheme) result" where
  "approve_tx i userId db =
     (case lockSettlement i db of
        Inl e \<Rightarrow> Inl e
      | Inr y \<Rightarrow>
          if y_status y \<noteq> AWAITING_APPROVAL
          then Inl (ConflictError (''Settlement '' @ y_settlementNumber y @ '' is '' @ status_text (y_status y)
                 @ '', not awaiting approval.''))
          else
            let f = (\<lambda>y. if provider_automatic (y_provider y)
                  then y\<lparr>y_approvedByUserId := Some userId, y_approvedAt := Some (clock db), y_status := REQUESTED\<rparr>
                  else y\<lparr>y_approvedByUserId := Some userId, y_approvedAt := Some (clock db), y_status := PROCESSING,
                         y_processingStartedAt := Some (clock db)\<rparr>)
            in Inr (f y, update_payout i f db))"

definition approveSettlement ::
  "provider_api \<Rightarrow> (string \<Rightarrow> string) \<Rightarrow> id \<Rightarrow> id \<Rightarrow> 'x gateway_db_scheme \<Rightarrow> payout result \<times> 'x gateway_db_scheme" where
  "approveSettlement api dec i userId db =
     (case approve_tx i userId db of
        Inl e \<Rightarrow> (Inl e, db)
      | Inr (approved, db1) \<Rightarrow>
          if y_status approved = REQUESTED then dispatchSettlement api dec (y_id approved) db1 else (Inr approved, db1))"

definition cancelSettlement :: "id \<Rightarrow> string \<Rightarrow> id \<Rightarrow> 'x gateway_db_scheme \<Rightarrow> (payout \<times> 'x gateway_db_scheme) result" where
  "cancelSettlement i reason userId db =
     (case lockSettlement i db of
        Inl e \<Rightarrow> Inl e
      | Inr y \<Rightarrow>
          if \<not> queued (y_status y)
          then Inl (ConflictError (''Settlement '' @ y_settlementNumber y @ '' is '' @ status_text (y_status y)
                 @ ''. Only a settlement that has not been sent can be cancelled.''))
          else
            let f = (\<lambda>y. y\<lparr>y_status := CANCELLED, y_cancelledAt := Some (clock db), y_resolvedByUserId := Some userId,
                           y_notes := Some (take 1000 reason)\<rparr>);
                cancelled = f y
            in case restoreReservedBalance cancelled
                      (''Settlement '' @ y_settlementNumber cancelled @ '' cancelled '' @ em_dash @ '' balance restored'')
                      (Some userId) (update_payout i f db) of
                 Inl e \<Rightarrow> Inl e
               | Inr db1 \<Rightarrow> Inr (cancelled, db1))"

record resolve_input =
  rv_settled :: bool
  rv_reference :: "string option"
  rv_notes :: string

definition resolveSettlement ::
  "id \<Rightarrow> resolve_input \<Rightarrow> id \<Rightarrow> 'x gateway_db_scheme \<Rightarrow> (payout \<times> 'x gateway_db_scheme) result" where
  "resolveSettlement i inp userId db =
     (if rv_settled inp \<and> trim (or_empty (rv_reference inp)) = ''''
      then Inl (ValidationError ''A settled transfer needs its M-Pesa or bank reference.'')
      else case lockSettlement i db of
        Inl e \<Rightarrow> Inl e
      | Inr y \<Rightarrow>
          if y_status y \<noteq> PROCESSING
          then Inl (ConflictError (''Settlement '' @ y_settlementNumber y @ '' is '' @ status_text (y_status y)
                 @ ''; only a processing settlement can be resolved.''))
          else if rv_settled inp
          then Inr (markSettledTx y
                 \<lparr>sd_transactionId = Some (take 64 (trim (or_empty (rv_reference inp)))), sd_resultCode = None,
                  sd_resultDesc = None, sd_userId = Some userId, sd_notes = Some (rv_notes inp), sd_providerConfirmed = False\<rparr> db)
          else failSettlementTx y
                 (if rv_notes inp \<noteq> '''' then rv_notes inp else ''Resolved as failed by an administrator'')
                 \<lparr>fx_resultCode = None, fx_resultDesc = None, fx_userId = Some userId\<rparr> db)"

definition retrySettlement ::
  "provider_api \<Rightarrow> (string \<Rightarrow> string) \<Rightarrow> id \<Rightarrow> id \<Rightarrow> 'x gateway_db_scheme \<Rightarrow> payout result \<times> 'x gateway_db_scheme" where
  "retrySettlement api dec i userId db =
     (case find_payout i db of
        None \<Rightarrow> (Inl (NotFoundError ''Settlement''), db)
      | Some failed \<Rightarrow>
          if y_status failed \<noteq> ST_FAILED then (Inl (ConflictError ''Only a failed settlement can be retried.''), db)
          else case List.find (\<lambda>y. y_retryOfId y = Some i) (payouts db) of
                 Some r \<Rightarrow> (Inl (ConflictError (''Already retried as '' @ y_settlementNumber r @ ''.'')), db)
               | None \<Rightarrow>
                   requestSettlement api dec
                     \<lparr>rq_tenantId = y_tenantId failed, rq_trigger = ADMIN, rq_requestedByUserId = Some userId,
                      rq_retryOfId = Some (y_id failed), rq_enforceMinimum = False\<rparr> db)"

definition simulateSandboxResult ::
  "string \<Rightarrow> id \<Rightarrow> bool \<Rightarrow> 'x gateway_db_scheme \<Rightarrow> (payout option \<times> 'x gateway_db_scheme) result" where
  "simulateSandboxResult stamp i success db =
     (if \<not> sandboxSettlementsEnabled db then Inl (ConflictError ''Sandbox settlements are not enabled.'')
      else case find_payout i db of
        None \<Rightarrow> Inl (NotFoundError ''Settlement'')
      | Some y \<Rightarrow>
          if y_provider y \<noteq> SANDBOX_PROVIDER \<or> or_empty (y_originatorConversationId y) = ''''
          then Inl (ConflictError ''Only a dispatched SANDBOX settlement can have its result simulated.'')
          else (case applySettlementResult
                   \<lparr>sr_originatorConversationId = or_empty (y_originatorConversationId y),
                    sr_resultCode = (if success then 0 else 2001),
                    sr_resultDesc = (if success then ''Sandbox: the service request is processed successfully.''
                                     else ''Sandbox: simulated provider failure.''),
                    sr_transactionId = (if success then Some (''SBX'' @ stamp) else None)\<rparr> db of
                  Inl e \<Rightarrow> Inl e
                | Inr ((_, settlement), db1) \<Rightarrow> Inr (settlement, db1)))"

section \<open>Scheduling\<close>

definition hour_ms :: int where "hour_ms = 3600000"

text \<open>JavaScript's remainder: the sign of the dividend.\<close>

definition js_rem :: "int \<Rightarrow> int \<Rightarrow> int" where
  "js_rem a b = (if 0 \<le> a then a mod b else - ((- a) mod b))"

text \<open>The ISO weekday (1 = Monday) of a day counted from the epoch, a Thursday.\<close>

definition iso_weekday :: "int \<Rightarrow> int" where
  "iso_weekday d = ((4 + d) mod 7 + 6) mod 7 + 1"

definition latestScheduledRun :: "time \<Rightarrow> settlement_frequency \<Rightarrow> int \<Rightarrow> int \<Rightarrow> time option" where
  "latestScheduledRun now frequency hourEat weekday =
     (let localNow = now + 3 * hour_ms;
          today = localNow div day_ms;
          slot = today * day_ms + hourEat * hour_ms
      in case frequency of
           F_MANUAL \<Rightarrow> None
         | INSTANT \<Rightarrow> Some now
         | F_DAILY \<Rightarrow> Some ((if slot > localNow then slot - day_ms else slot) - 3 * hour_ms)
         | F_WEEKLY \<Rightarrow>
             let slot1 = slot - js_rem (iso_weekday today - weekday + 7) 7 * day_ms
             in Some ((if slot1 > localNow then slot1 - 7 * day_ms else slot1) - 3 * hour_ms))"

record run_result =
  rn_ran :: bool
  rn_reason :: "string option"
  rn_created :: nat
  rn_skipped :: nat
  rn_failed :: nat

definition not_run :: "string \<Rightarrow> run_result" where
  "not_run reason = \<lparr>rn_ran = False, rn_reason = Some reason, rn_created = 0, rn_skipped = 0, rn_failed = 0\<rparr>"

text \<open>The claim of the slot against the settings a worker has read.\<close>

definition claim_slot :: "settlement_settings \<Rightarrow> time \<Rightarrow> 'x gateway_db_scheme \<Rightarrow> bool \<times> 'x gateway_db_scheme" where
  "claim_slot settings now db =
     (if lastScheduledRunAt (gsettings db) = lastScheduledRunAt settings
      then (True, db\<lparr>gsettings := (gsettings db)\<lparr>lastScheduledRunAt := Some now\<rparr>\<rparr>)
      else (False, db))"

definition is_skip :: "app_error \<Rightarrow> bool" where
  "is_skip e = (case e of ConflictError _ \<Rightarrow> True | ValidationError _ \<Rightarrow> True | _ \<Rightarrow> False)"

definition automatic_request :: "id \<Rightarrow> request_input" where
  "automatic_request t = \<lparr>rq_tenantId = t, rq_trigger = AUTOMATIC, rq_requestedByUserId = None, rq_retryOfId = None, rq_enforceMinimum = True\<rparr>"

fun settle_all ::
  "provider_api \<Rightarrow> (string \<Rightarrow> string) \<Rightarrow> id list \<Rightarrow> run_result \<Rightarrow> 'x gateway_db_scheme \<Rightarrow> run_result \<times> 'x gateway_db_scheme" where
  "settle_all api dec [] acc db = (acc, db)"
| "settle_all api dec (t # ts) acc db =
     (case requestSettlement api dec (automatic_request t) db of
        (Inr _, db1) \<Rightarrow> settle_all api dec ts (acc\<lparr>rn_created := rn_created acc + 1\<rparr>) db1
      | (Inl e, db1) \<Rightarrow>
          settle_all api dec ts
            (if is_skip e then acc\<lparr>rn_skipped := rn_skipped acc + 1\<rparr> else acc\<lparr>rn_failed := rn_failed acc + 1\<rparr>) db1)"

definition runScheduledSettlements ::
  "provider_api \<Rightarrow> (string \<Rightarrow> string) \<Rightarrow> settlement_settings \<Rightarrow> time \<Rightarrow> 'x gateway_db_scheme \<Rightarrow> run_result \<times> 'x gateway_db_scheme" where
  "runScheduledSettlements api dec settings now db =
     (case latestScheduledRun now (settlementFrequency settings) (settlementHourEat settings) (settlementWeekday settings) of
        None \<Rightarrow> (not_run ''Settlement frequency is MANUAL'', db)
      | Some due \<Rightarrow>
          if settlementFrequency settings \<noteq> INSTANT
             \<and> (case lastScheduledRunAt settings of None \<Rightarrow> False | Some l \<Rightarrow> due \<le> l)
          then (not_run ''Not due yet'', db)
          else
            let (claimed, db1) = claim_slot settings now db
            in if \<not> claimed then (not_run ''Another worker is running this slot'', db1)
               else settle_all api dec (map fst (listTenantsWithBalance (max (settlementMinimumMinor settings) 100) db1))
                      \<lparr>rn_ran = True, rn_reason = None, rn_created = 0, rn_skipped = 0, rn_failed = 0\<rparr> db1)"

definition settleTenantIfInstant ::
  "provider_api \<Rightarrow> (string \<Rightarrow> string) \<Rightarrow> id \<Rightarrow> 'x gateway_db_scheme \<Rightarrow> payout option result \<times> 'x gateway_db_scheme" where
  "settleTenantIfInstant api dec tenantId db =
     (if settlementFrequency (gsettings db) \<noteq> INSTANT then (Inr None, db)
      else case requestSettlement api dec (automatic_request tenantId) db of
             (Inr y, db1) \<Rightarrow> (Inr (Some y), db1)
           | (Inl e, db1) \<Rightarrow> if is_skip e then (Inr None, db1) else (Inl e, db1))"


section \<open>The gateway's invariant under settlement operations\<close>

lemma find_payoutD: "find_payout i db = Some y \<Longrightarrow> y \<in> set (payouts db) \<and> y_id y = i"
  by (auto simp: find_payout_def dest: find_SomeD)

lemma gateway_ok_payouts:
  "gateway_ok db \<Longrightarrow> distinct (map y_id (payouts db))"
  by (simp add: gateway_ok_def payouts_ok_def)

text \<open>An update that gives nothing back and queues nothing new.\<close>

lemma gateway_ok_update_payouts:
  assumes ok: "gateway_ok db"
    and f: "\<And>y. q y \<Longrightarrow> y \<in> set (payouts db) \<Longrightarrow> y_id (f y) = y_id y \<and> y_tenantId (f y) = y_tenantId y \<and> y_amountMinor (f y) = y_amountMinor y
        \<and> given_back (y_status (f y)) = given_back (y_status y) \<and> (queued (y_status (f y)) \<longrightarrow> queued (y_status y))"
  shows "gateway_ok (db\<lparr>payouts := update_where q f (payouts db)\<rparr>)"
proof -
  let ?ys = "payouts db"
  define h where "h = (\<lambda>y. if q y then f y else y)"
  have u: "update_where q f ?ys = map h ?ys" by (simp add: update_where_def h_def)
  have h: "y_id (h y) = y_id y \<and> y_tenantId (h y) = y_tenantId y \<and> y_amountMinor (h y) = y_amountMinor y
        \<and> given_back (y_status (h y)) = given_back (y_status y) \<and> (queued (y_status (h y)) \<longrightarrow> queued (y_status y))"
    if "y \<in> set ?ys" for y
    using f [of y] that by (simp add: h_def)
  have m: "map y_id (map h ?ys) = map y_id ?ys" using h by simp
  have p: "payouts_ok (nextId db) ?ys" and l: "linked (entry_keys (ledgerEntries db)) (gatewayTxns db) ?ys"
    using ok by (simp_all add: gateway_ok_def)
  have "payouts_ok (nextId db) (map h ?ys)"
    unfolding payouts_ok_def
  proof (intro conjI ballI impI)
    show "distinct (map y_id (map h ?ys))" unfolding m using p by (simp add: payouts_ok_def)
    fix a assume "a \<in> set (map h ?ys)"
    then obtain y where y: "y \<in> set ?ys" "a = h y" by auto
    then show "y_id a < nextId db" "0 < y_amountMinor a" "is_safe_integer (y_amountMinor a)"
      using h [OF y(1)] p by (simp_all add: payouts_ok_def)
    fix b assume "b \<in> set (map h ?ys)" and qq: "queued (y_status a)" "queued (y_status b)" "y_tenantId a = y_tenantId b"
    then obtain z where z: "z \<in> set ?ys" "b = h z" by auto
    have "y = z" using p qq h [OF y(1)] h [OF z(1)] y z unfolding payouts_ok_def by metis
    then show "a = b" using y z by simp
  qed
  moreover have "linked (entry_keys (ledgerEntries db)) (gatewayTxns db) (map h ?ys)"
    using l h by (simp add: linked_def)
  moreover have s: "sum_payouts t P (map h ?ys) = sum_payouts t P ?ys"
    if P: "P = (\<lambda>s. True) \<or> P = given_back \<or> P = (\<lambda>s. \<not> given_back s)" for t P
    unfolding sum_payouts_def sum_where_def map_map using h P
    by (intro arg_cong [where f = sum_list] map_cong) auto
  ultimately show ?thesis using ok by (simp add: gateway_ok_def u payout_sums_def covered_def)
qed

lemma gateway_ok_update_payout:
  assumes "gateway_ok db"
    and "\<And>y. y_id y = i \<Longrightarrow> y \<in> set (payouts db) \<Longrightarrow> y_id (f y) = y_id y \<and> y_tenantId (f y) = y_tenantId y \<and> y_amountMinor (f y) = y_amountMinor y
        \<and> given_back (y_status (f y)) = given_back (y_status y) \<and> (queued (y_status (f y)) \<longrightarrow> queued (y_status y))"
  shows "gateway_ok (update_payout i f db)"
  unfolding update_payout_def by (rule gateway_ok_update_payouts [OF assms])

text \<open>A reservation given back, with the entry that says so.\<close>

lemma reversal_entry_simps [simp]:
  "entry_key (reversal_entry y d u) = (''SettlementReversal'', y_id y)" "le_sourceId (reversal_entry y d u) = y_id y"
  "entry_key (settlement_entry y) = (''Settlement'', y_id y)" "le_sourceId (settlement_entry y) = y_id y"
  by (simp_all add: entry_key_def reversal_entry_def settlement_entry_def)

lemma gateway_ok_give_back:
  assumes ok: "gateway_ok db" and y: "y \<in> set (payouts db)" "\<not> given_back (y_status y)"
    and f: "y_id (f y) = y_id y" "y_tenantId (f y) = y_tenantId y" "y_amountMinor (f y) = y_amountMinor y" "given_back (y_status (f y))"
  shows "gateway_ok (db\<lparr>payouts := update_where (\<lambda>x. y_id x = y_id y) f (payouts db),
    ledgerEntries := ledgerEntries db @ [reversal_entry (f y) d u]\<rparr>)"
proof -
  let ?ys = "payouts db" and ?es = "ledgerEntries db" and ?e = "reversal_entry (f y) d u"
  let ?us = "update_where (\<lambda>x. y_id x = y_id y) f ?ys"
  have p: "payouts_ok (nextId db) ?ys" and l: "linked (entry_keys ?es) (gatewayTxns db) ?ys"
    and j: "journal_ok (nextId db) ?es" and ps: "payout_sums ?es ?ys" and co: "covered (gatewayTxns db) ?ys"
    and cs: "collected_sums ?es (gatewayTxns db)" and rs: "refund_sums ?es (gatewayTxns db) (gatewayRefunds db)"
    using ok by (simp_all add: gateway_ok_def)
  have d: "distinct (map y_id ?ys)" by (rule gateway_ok_payouts [OF ok])
  have uniq: "x = y" if "x \<in> set ?ys" "y_id x = y_id y" for x using key_eq_rows [OF d that(1) y(1) that(2)] .
  have su: "set ?us = insert (f y) {x \<in> set ?ys. y_id x \<noteq> y_id y}"
    using uniq y(1) by (auto simp: set_update_where)
  have nr: "(''SettlementReversal'', y_id y) \<notin> entry_keys ?es" using l y by (auto simp: linked_def)
  have amt: "0 < y_amountMinor y" "is_safe_integer (y_amountMinor y)" "y_id y < nextId db" using p y(1) by (simp_all add: payouts_ok_def)
  have j': "journal_ok (nextId db) (?es @ [?e])"
    by (rule journal_ok_append [OF j])
      (use nr f amt in \<open>simp_all add: entry_ok_def entry_shape_def\<close>, simp_all add: reversal_entry_def)
  have m: "map y_id ?us = map y_id ?ys"
  proof -
    have "map y_id (update_where (\<lambda>x. y_id x = y_id y) f zs) = map y_id zs" if "set zs \<subseteq> set ?ys" for zs
      using that by (induction zs) (auto dest!: uniq simp: f)
    then show ?thesis by simp
  qed
  have nq: "\<not> queued (y_status (f y))" using f(4) by (auto simp: given_back_def queued_def)
  have p': "payouts_ok (nextId db) ?us"
    unfolding payouts_ok_def m
  proof (intro conjI ballI impI)
    show "distinct (map y_id ?ys)" by (rule d)
    fix a assume a: "a \<in> set ?us"
    then show "y_id a < nextId db" "0 < y_amountMinor a" "is_safe_integer (y_amountMinor a)"
      using p amt f unfolding su payouts_ok_def by auto
    fix b assume "b \<in> set ?us" "queued (y_status a)" "queued (y_status b)" "y_tenantId a = y_tenantId b"
    with a nq p show "a = b" unfolding su payouts_ok_def by auto
  qed
  have l': "linked (entry_keys (?es @ [?e])) (gatewayTxns db) ?us"
    using l f y(1) unfolding linked_def su by auto
  have fix1: "sum_payouts t P ?us = sum_payouts t P ?ys
      - (if y_tenantId y = t \<and> P (y_status y) then y_amountMinor y else 0)
      + (if y_tenantId y = t \<and> P (y_status (f y)) then y_amountMinor y else 0)" for t P
    unfolding sum_payouts_def by (simp add: sum_where_update [OF d y(1) refl] f)
  have ps': "payout_sums (?es @ [?e]) ?us"
    using ps y(2) f by (auto simp: payout_sums_def fix1 reversal_entry_def)
  have co': "covered (gatewayTxns db) ?us"
    using co y(2) f amt unfolding covered_def fix1 by (auto simp: less_imp_le add_increasing2) (metis diff_left_mono diff_zero less_imp_le order_trans)
  have cs': "collected_sums (?es @ [?e]) (gatewayTxns db)" and rs': "refund_sums (?es @ [?e]) (gatewayTxns db) (gatewayRefunds db)"
    using cs rs by (simp_all add: collected_sums_def refund_sums_def is_refund_entry_def reversal_entry_def)
  show ?thesis using ok j' p' l' ps' co' cs' rs' by (simp add: gateway_ok_def)
qed


text \<open>The database after a reservation was given back.\<close>

definition given_back_db :: "(payout \<Rightarrow> payout) \<Rightarrow> payout \<Rightarrow> string \<Rightarrow> id option \<Rightarrow> 'x gateway_db_scheme \<Rightarrow> 'x gateway_db_scheme" where
  "given_back_db f y d u db = db\<lparr>payouts := update_where (\<lambda>x. y_id x = y_id y) f (payouts db),
     ledgerEntries := ledgerEntries db @ [reversal_entry (f y) d u],
     gatewayTxns := update_where (\<lambda>g. g_settlementId g = Some (y_id y))
       (\<lambda>g. g\<lparr>g_settlementStatus := UNSETTLED, g_settlementId := None\<rparr>) (gatewayTxns db)\<rparr>"

definition gives_back :: "(payout \<Rightarrow> payout) \<Rightarrow> payout \<Rightarrow> bool" where
  "gives_back f y \<longleftrightarrow> y_id (f y) = y_id y \<and> y_tenantId (f y) = y_tenantId y \<and> y_amountMinor (f y) = y_amountMinor y
     \<and> given_back (y_status (f y))"

lemma restore_runs:
  assumes ok: "gateway_ok db" and y: "y \<in> set (payouts db)" "\<not> given_back (y_status y)" and f: "gives_back f y"
  shows "restoreReservedBalance (f y) d u (update_payout (y_id y) f db) = Inr (given_back_db f y d u db)"
    and "gateway_ok (given_back_db f y d u db)"
proof -
  have l: "(''Settlement'', y_id y) \<in> entry_keys (ledgerEntries db)" "(''SettlementReversal'', y_id y) \<notin> entry_keys (ledgerEntries db)"
    and amt: "0 < y_amountMinor y" "is_safe_integer (y_amountMinor y)"
    using ok y by (simp_all add: gateway_ok_def linked_def payouts_ok_def)
  have fi: "y_id (f y) = y_id y" "y_amountMinor (f y) = y_amountMinor y" using f by (simp_all add: gives_back_def)
  obtain e where has: "List.find (\<lambda>e. entry_key e = (''Settlement'', y_id y)) (ledgerEntries db) = Some e"
    using find_some_image [OF l(1) [unfolded entry_keys_def]] by blast
  have eok: "entry_ok (reversal_entry (f y) d u)"
    using amt fi by (simp add: entry_ok_def reversal_entry_def)
  have app: "appendLedgerEntry (reversal_entry (f y) d u) (update_payout (y_id y) f db) =
      Inr (True, (update_payout (y_id y) f db)\<lparr>ledgerEntries := ledgerEntries db @ [reversal_entry (f y) d u]\<rparr>)"
    using append_new_entry [OF eok, of "update_payout (y_id y) f db"] l(2) fi by (simp add: update_payout_def entry_keys_def)
  show "restoreReservedBalance (f y) d u (update_payout (y_id y) f db) = Inr (given_back_db f y d u db)"
    unfolding restoreReservedBalance_def Let_def fi app
    by (simp add: has given_back_db_def update_payout_def)
  have "gateway_ok (db\<lparr>payouts := update_where (\<lambda>x. y_id x = y_id y) f (payouts db),
      ledgerEntries := ledgerEntries db @ [reversal_entry (f y) d u]\<rparr>)" (is "gateway_ok ?db1")
    by (rule gateway_ok_give_back [OF ok y]) (use f in \<open>simp_all add: gives_back_def\<close>)
  from gateway_ok_update_txns [OF this, of "\<lambda>g. g\<lparr>g_settlementStatus := UNSETTLED, g_settlementId := None\<rparr>"
      "\<lambda>g. g_settlementId g = Some (y_id y)"]
  show "gateway_ok (given_back_db f y d u db)" by (simp add: given_back_db_def)
qed

lemma given_back_balance:
  assumes "gives_back f y"
  shows "availableMinor (getTenantBalance t (given_back_db f y d u db)) =
    availableMinor (getTenantBalance t db) + (if t = y_tenantId y then y_amountMinor y else 0)"
  using assms by (auto simp: getTenantBalance_def Let_def given_back_db_def reversal_entry_def gives_back_def)

lemma failed_gives_back: "gives_back (failed_payout r x n) y"
  by (simp add: gives_back_def failed_payout_def given_back_def)

lemma failSettlementTx_runs:
  assumes ok: "gateway_ok db" and y: "y \<in> set (payouts db)" "\<not> given_back (y_status y)"
  shows "failSettlementTx y reason extra db = Inr (failed_payout reason extra (clock db) y,
    given_back_db (failed_payout reason extra (clock db)) y
      (''Settlement '' @ y_settlementNumber y @ '' failed '' @ em_dash @ '' balance restored'') (fx_userId extra) db)"
proof -
  have n: "y_settlementNumber (failed_payout reason extra (clock db) y) = y_settlementNumber y" by (simp add: failed_payout_def)
  show ?thesis
    unfolding failSettlementTx_def Let_def n
    by (simp add: restore_runs(1) [OF ok y failed_gives_back] del: append_Cons)
qed

lemma failSettlementTx_keeps:
  assumes "gateway_ok db" "y \<in> set (payouts db)" "\<not> given_back (y_status y)" "failSettlementTx y reason extra db = Inr (z, db')"
  shows "gateway_ok db'"
  using assms(4) restore_runs(2) [OF assms(1-3) failed_gives_back] unfolding failSettlementTx_runs [OF assms(1-3)] by auto

lemma lockSettlementD: "lockSettlement i db = Inr y \<Longrightarrow> y \<in> set (payouts db) \<and> y_id y = i \<and> find_payout i db = Some y"
  by (auto simp: lockSettlement_def find_payout_def split: option.splits dest: find_SomeD)

lemma failSettlement_keeps:
  "gateway_ok db \<Longrightarrow> failSettlement i reason extra db = Inr (z, db') \<Longrightarrow> gateway_ok db'"
  by (auto simp: failSettlement_def is_final_def given_back_def split: sum.splits if_splits
      intro: failSettlementTx_keeps dest!: lockSettlementD)

lemma gateway_ok_destinations [simp]: "gateway_ok (db\<lparr>destinations := ds\<rparr>) = gateway_ok db"
  by (simp add: gateway_ok_def)

lemma markSettledTx_keeps:
  assumes ok: "gateway_ok db" and y: "y \<in> set (payouts db)" "\<not> given_back (y_status y)"
  shows "gateway_ok (snd (markSettledTx y data db))"
proof -
  let ?f = "settled_payout data (clock db)"
  have "gateway_ok (update_payout (y_id y) ?f db)"
  proof (rule gateway_ok_update_payout [OF ok])
    fix x assume x: "y_id x = y_id y" "x \<in> set (payouts db)"
    then have "x = y" using key_eq_rows [OF gateway_ok_payouts [OF ok] x(2) y(1) x(1)] by simp
    then show "y_id (?f x) = y_id x \<and> y_tenantId (?f x) = y_tenantId x \<and> y_amountMinor (?f x) = y_amountMinor x
        \<and> given_back (y_status (?f x)) = given_back (y_status x) \<and> (queued (y_status (?f x)) \<longrightarrow> queued (y_status x))"
      using y(2) by (simp add: settled_payout_def given_back_def queued_def)
  qed
  from gateway_ok_update_txns [OF this, of "\<lambda>g. g\<lparr>g_settlementStatus := TXN_SETTLED\<rparr>" "\<lambda>g. g_settlementId g = Some (y_id y)"]
  show ?thesis by (simp add: markSettledTx_def Let_def)
qed

lemma claim_dispatch_keeps: "gateway_ok db \<Longrightarrow> gateway_ok (snd (claim_dispatch i db))"
  unfolding claim_dispatch_def Let_def snd_conv
  by (rule gateway_ok_update_payouts) (auto simp: given_back_def queued_def)

lemma set_conversation_keeps: "gateway_ok db \<Longrightarrow> set_conversation i c o' db = Inr (y, db') \<Longrightarrow> gateway_ok db'"
  by (auto simp: set_conversation_def split: if_splits option.splits intro: gateway_ok_update_payout)

lemma note_unknown_keeps: "gateway_ok db \<Longrightarrow> note_unknown i m db = Inr (y, db') \<Longrightarrow> gateway_ok db'"
  by (auto simp: note_unknown_def Let_def split: option.splits intro: gateway_ok_update_payout)

lemma finish_dispatch_keeps: "gateway_ok db \<Longrightarrow> finish_dispatch y out db = Inr (z, db') \<Longrightarrow> gateway_ok db'"
  by (auto simp: finish_dispatch_def split: initiate_result.splits initiate_error.splits
      intro: set_conversation_keeps note_unknown_keeps failSettlement_keeps)

definition result_data :: "settlement_result \<Rightarrow> settled_data" where
  "result_data inp = \<lparr>sd_transactionId = sr_transactionId inp, sd_resultCode = Some (sr_resultCode inp),
     sd_resultDesc = Some (sr_resultDesc inp), sd_userId = None, sd_notes = None, sd_providerConfirmed = True\<rparr>"

lemma applySettlementResult_cases:
  assumes "applySettlementResult inp db = Inr ((out, s), db')"
  obtains (ignored) "find_by_conversation (sr_originatorConversationId inp) db = None" "out = RO_IGNORED" "s = None" "db' = db"
  | (known) y where "find_by_conversation (sr_originatorConversationId inp) db \<noteq> None"
      "lockSettlement (y_id (the (find_by_conversation (sr_originatorConversationId inp) db))) db = Inr y"
      "y_status y \<noteq> PROCESSING" "out = RO_DUPLICATE" "s = Some y" "db' = db"
  | (settled) y where "find_by_conversation (sr_originatorConversationId inp) db \<noteq> None"
      "lockSettlement (y_id (the (find_by_conversation (sr_originatorConversationId inp) db))) db = Inr y"
      "y_status y = PROCESSING" "sr_resultCode inp = 0" "out = RO_PROCESSED"
      "s = Some (fst (markSettledTx y (result_data inp) db))" "db' = snd (markSettledTx y (result_data inp) db)"
  | (failed) y reason extra z where "find_by_conversation (sr_originatorConversationId inp) db \<noteq> None"
      "lockSettlement (y_id (the (find_by_conversation (sr_originatorConversationId inp) db))) db = Inr y"
      "y_status y = PROCESSING" "sr_resultCode inp \<noteq> 0" "out = RO_PROCESSED" "s = Some z"
      "failSettlementTx y reason extra db = Inr (z, db')"
proof (cases "find_by_conversation (sr_originatorConversationId inp) db")
  case None
  show thesis by (rule ignored) (use None assms in \<open>simp_all add: applySettlementResult_def\<close>)
next
  case (Some found)
  obtain y where l: "lockSettlement (y_id found) db = Inr y"
    using assms Some by (auto simp: applySettlementResult_def split: sum.splits)
  have f: "find_by_conversation (sr_originatorConversationId inp) db \<noteq> None"
    "lockSettlement (y_id (the (find_by_conversation (sr_originatorConversationId inp) db))) db = Inr y"
    using Some l by simp_all
  consider "y_status y \<noteq> PROCESSING" | "y_status y = PROCESSING" "sr_resultCode inp = 0"
    | "y_status y = PROCESSING" "sr_resultCode inp \<noteq> 0" by blast
  then show thesis
  proof cases
    case 1
    with assms Some l show thesis by (intro known [OF f]) (auto simp: applySettlementResult_def)
  next
    case 2
    with assms Some l show thesis
      by (intro settled [OF f]) (auto simp: applySettlementResult_def result_data_def split: prod.splits)
  next
    case 3
    with assms Some l show thesis
      by (auto simp: applySettlementResult_def split: sum.splits intro: failed [OF f])
  qed
qed

lemma applySettlementResult_keeps:
  assumes ok: "gateway_ok db" and run: "applySettlementResult inp db = Inr (out, db')"
  shows "gateway_ok db'"
proof -
  obtain o' s where "out = (o', s)" by (cases out)
  with run have "applySettlementResult inp db = Inr ((o', s), db')" by simp
  then show ?thesis
  proof (cases rule: applySettlementResult_cases)
    case (settled y)
    then show ?thesis using markSettledTx_keeps [OF ok, of y] lockSettlementD [OF settled(2)] by (simp add: given_back_def)
  next
    case (failed y reason extra z)
    then show ?thesis using failSettlementTx_keeps [OF ok _ _ failed(7)] lockSettlementD [OF failed(2)] by (simp add: given_back_def)
  qed (use ok in simp_all)
qed

lemma markSettlementTimedOut_keeps: "gateway_ok db \<Longrightarrow> gateway_ok (snd (markSettlementTimedOut orig db))"
  by (auto simp: markSettlementTimedOut_def Let_def split: option.splits intro: gateway_ok_update_payout)

lemma approve_keeps: "gateway_ok db \<Longrightarrow> approve_tx i u db = Inr (y, db') \<Longrightarrow> gateway_ok db'"
proof -
  assume ok: "gateway_ok db" and run: "approve_tx i u db = Inr (y, db')"
  define f where "f = (\<lambda>y. if provider_automatic (y_provider y)
      then y\<lparr>y_approvedByUserId := Some u, y_approvedAt := Some (clock db), y_status := REQUESTED\<rparr>
      else (y::payout)\<lparr>y_approvedByUserId := Some u, y_approvedAt := Some (clock db), y_status := PROCESSING,
             y_processingStartedAt := Some (clock db)\<rparr>)"
  obtain x where x: "x \<in> set (payouts db)" "y_id x = i" "y_status x = AWAITING_APPROVAL" "db' = update_payout i f db"
    using run by (auto simp: approve_tx_def Let_def f_def split: sum.splits if_splits dest!: lockSettlementD)
  show "gateway_ok db'" unfolding x(4)
  proof (rule gateway_ok_update_payout [OF ok])
    fix z assume z: "y_id z = i" "z \<in> set (payouts db)"
    then have "z = x" using key_eq_rows [OF gateway_ok_payouts [OF ok] z(2) x(1)] x(2) by simp
    then show "y_id (f z) = y_id z \<and> y_tenantId (f z) = y_tenantId z \<and> y_amountMinor (f z) = y_amountMinor z
        \<and> given_back (y_status (f z)) = given_back (y_status z) \<and> (queued (y_status (f z)) \<longrightarrow> queued (y_status z))"
      using x(3) by (simp add: f_def given_back_def queued_def)
  qed
qed

lemma cancel_runs:
  assumes ok: "gateway_ok db" and run: "cancelSettlement i reason u db = Inr (z, db')"
  obtains y f where "y \<in> set (payouts db)" "y_id y = i" "queued (y_status y)" "gives_back f y" "y_status (f y) = CANCELLED"
    "z = f y" "db' = given_back_db f y (''Settlement '' @ y_settlementNumber y @ '' cancelled '' @ em_dash @ '' balance restored'') (Some u) db"
    "gateway_ok db'"
proof -
  define f :: "payout \<Rightarrow> payout" where "f = (\<lambda>y. y\<lparr>y_status := CANCELLED, y_cancelledAt := Some (clock db), y_resolvedByUserId := Some u,
      y_notes := Some (take 1000 reason)\<rparr>)"
  obtain y where l: "lockSettlement i db = Inr y" and q: "queued (y_status y)"
    using run by (auto simp: cancelSettlement_def split: sum.splits if_splits)
  have y: "y \<in> set (payouts db)" "y_id y = i" using lockSettlementD [OF l] by simp_all
  have ng: "\<not> given_back (y_status y)" using q by (auto simp: queued_def given_back_def)
  have g: "gives_back f y" "y_status (f y) = CANCELLED" "y_settlementNumber (f y) = y_settlementNumber y"
    by (simp_all add: gives_back_def f_def given_back_def)
  note r = restore_runs [OF ok y(1) ng g(1)]
  have "cancelSettlement i reason u db = Inr (f y, given_back_db f y
      (''Settlement '' @ y_settlementNumber y @ '' cancelled '' @ em_dash @ '' balance restored'') (Some u) db)"
    unfolding cancelSettlement_def l using q r(1) y(2) g(3)
    by (simp add: Let_def flip: f_def del: append_Cons)
  then show thesis using that [OF y q g(1,2)] run r(2) by auto
qed


section \<open>What a request does\<close>

lemma insert_destination_frame:
  "insert_destination d db = Inr db' \<Longrightarrow> db' = db\<lparr>destinations := destinations db @ [d], nextId := nextId db + 1\<rparr>"
  by (auto simp: insert_destination_def split: if_splits)

lemma gateway_ok_nextId: "gateway_ok db \<Longrightarrow> nextId db \<le> n \<Longrightarrow> gateway_ok (db\<lparr>destinations := ds, nextId := n\<rparr>)"
  using journal_ok_mono txns_ok_mono refunds_ok_mono payouts_ok_mono
  unfolding gateway_ok_def by simp blast

lemma resolve_destination_frame:
  assumes "resolve_destination tn db = Inr (d, db1)"
  obtains ds n where "db1 = db\<lparr>destinations := ds, nextId := n\<rparr>" "nextId db \<le> n"
proof -
  have "db1 = db \<or> (\<exists>e. db1 = db\<lparr>destinations := destinations db @ [e], nextId := nextId db + 1\<rparr>)"
    using assms by (auto simp: resolve_destination_def Let_def split: option.splits if_splits sum.splits dest!: insert_destination_frame)
  then show thesis
  proof
    assume "db1 = db"
    then show thesis using that [of "nextId db" "destinations db"] by simp
  next
    assume "\<exists>e. db1 = db\<lparr>destinations := destinations db @ [e], nextId := nextId db + 1\<rparr>"
    then show thesis using that by fastforce
  qed
qed

lemma gateway_ok_new_payout:
  assumes ok: "gateway_ok db" and y: "y_id y = nextId db" "0 < y_amountMinor y" "is_safe_integer (y_amountMinor y)"
    "\<not> given_back (y_status y)" "y_amountMinor y \<le> availableMinor (getTenantBalance (y_tenantId y) db)"
    and q: "queued (y_status y) \<longrightarrow> (\<forall>z \<in> set (payouts db). y_tenantId z = y_tenantId y \<longrightarrow> \<not> queued (y_status z))"
  shows "gateway_ok (db\<lparr>payouts := payouts db @ [y], nextId := nextId db + 1, ledgerEntries := ledgerEntries db @ [settlement_entry y]\<rparr>)"
proof -
  let ?ys = "payouts db" and ?es = "ledgerEntries db" and ?n = "nextId db + 1"
  have j: "journal_ok (nextId db) ?es" and tx: "txns_ok (nextId db) (gatewayTxns db)"
    and rf: "refunds_ok (nextId db) (gatewayTxns db) (gatewayRefunds db)" and p: "payouts_ok (nextId db) ?ys"
    and l: "linked (entry_keys ?es) (gatewayTxns db) ?ys" and cs: "collected_sums ?es (gatewayTxns db)"
    and rs: "refund_sums ?es (gatewayTxns db) (gatewayRefunds db)" and ps: "payout_sums ?es ?ys" and co: "covered (gatewayTxns db) ?ys"
    using ok by (simp_all add: gateway_ok_def)
  have j': "journal_ok ?n (?es @ [settlement_entry y])"
    by (rule journal_ok_append [OF j])
      (use y journal_fresh [OF j, of "nextId db"] in \<open>simp_all add: entry_ok_def entry_shape_def\<close>, simp_all add: settlement_entry_def y)
  have old: "y_id y \<notin> y_id ` set ?ys" using p y(1) by (fastforce simp: payouts_ok_def)
  have p': "payouts_ok ?n (?ys @ [y])"
    unfolding payouts_ok_def
  proof (intro conjI ballI impI)
    show "distinct (map y_id (?ys @ [y]))" using p old by (auto simp: payouts_ok_def)
    fix a assume a: "a \<in> set (?ys @ [y])"
    then show "y_id a < ?n" "0 < y_amountMinor a" "is_safe_integer (y_amountMinor a)"
      using p y by (auto simp: payouts_ok_def)
    fix b assume "b \<in> set (?ys @ [y])" "queued (y_status a)" "queued (y_status b)" "y_tenantId a = y_tenantId b"
    with a show "a = b" using p q by (auto simp: payouts_ok_def)
  qed
  have nr: "(''SettlementReversal'', y_id y) \<notin> entry_keys ?es" using journal_fresh [OF j] y(1) by simp
  have l': "linked (entry_keys (?es @ [settlement_entry y])) (gatewayTxns db) (?ys @ [y])"
    using l y(4) nr by (auto simp: linked_def)
  have s: "sum_payouts t P (?ys @ [y]) = sum_payouts t P ?ys + (if y_tenantId y = t \<and> P (y_status y) then y_amountMinor y else 0)" for t P
    by (simp add: sum_payouts_def)
  have ps': "payout_sums (?es @ [settlement_entry y]) (?ys @ [y])"
    using ps y(4) by (auto simp: payout_sums_def s settlement_entry_def)
  have "sum_payouts (y_tenantId y) (\<lambda>s. \<not> given_back s) ?ys + y_amountMinor y \<le> txn_sum (y_tenantId y) g_grossMinor (gatewayTxns db)"
    using balance_equation [OF ok, of "y_tenantId y"] fees_kept [OF ok, of "y_tenantId y"] y(5) cs payouts_open [of "y_tenantId y" ?ys]
    by (simp add: getTenantBalance_def Let_def collected_sums_def)
  then have co': "covered (gatewayTxns db) (?ys @ [y])"
    using co y(4) unfolding covered_def s by auto
  have cs': "collected_sums (?es @ [settlement_entry y]) (gatewayTxns db)"
    and rs': "refund_sums (?es @ [settlement_entry y]) (gatewayTxns db) (gatewayRefunds db)"
    using cs rs by (simp_all add: collected_sums_def refund_sums_def is_refund_entry_def settlement_entry_def)
  show ?thesis
    using j' p' l' ps' co' cs' rs' txns_ok_mono [OF tx, of ?n] refunds_ok_mono [OF rf, of ?n] by (simp add: gateway_ok_def)
qed

lemma settleable_eq: "settleableMinor (getTenantBalance t db) =
    (if availableMinor (getTenantBalance t db) > 0 then (availableMinor (getTenantBalance t db) div 100) * 100 else 0)"
  by (simp add: getTenantBalance_def Let_def)

lemma settleable_bounds:
  assumes "0 < settleableMinor (getTenantBalance t db)"
  shows "settleableMinor (getTenantBalance t db) \<le> availableMinor (getTenantBalance t db)"
    "availableMinor (getTenantBalance t db) < settleableMinor (getTenantBalance t db) + 100"
    "settleableMinor (getTenantBalance t db) mod 100 = 0"
proof -
  let ?a = "availableMinor (getTenantBalance t db)"
  have "?a div 100 * 100 + ?a mod 100 = ?a" "0 \<le> ?a mod 100" "?a mod 100 < 100" by simp_all
  with assms show "settleableMinor (getTenantBalance t db) \<le> ?a" "?a < settleableMinor (getTenantBalance t db) + 100"
    "settleableMinor (getTenantBalance t db) mod 100 = 0"
    unfolding settleable_eq by (simp_all split: if_splits)
qed

text \<open>The database after a settlement was created.\<close>

definition requested_db :: "payout \<Rightarrow> 'x gateway_db_scheme \<Rightarrow> 'x gateway_db_scheme" where
  "requested_db y db = db\<lparr>payouts := payouts db @ [y], nextId := nextId db + 1, stlSeq := stlSeq db + 1,
     ledgerEntries := ledgerEntries db @ [settlement_entry y], gatewayTxns := link_unsettled y (gatewayTxns db)\<rparr>"

lemma create_settlement_spec:
  assumes ok: "gateway_ok db" and run: "create_settlement inp db = Inr (y, db')"
  obtains tn d db1 where "resolve_destination tn db = Inr (Some d, db1)" "t_id tn = rq_tenantId inp" "tn \<in> set (tenants db)"
    "y = new_payout inp d (settleableMinor (getTenantBalance (rq_tenantId inp) db)) db1" "db' = requested_db y db1"
    "0 < y_amountMinor y" "\<forall>z \<in> set (payouts db). y_tenantId z = rq_tenantId inp \<longrightarrow> \<not> queued (y_status z)"
    "rq_enforceMinimum inp \<longrightarrow> settlementMinimumMinor (gsettings db) \<le> y_amountMinor y" "gateway_ok db1" "gateway_ok db'"
proof -
  obtain tn where tn: "List.find (\<lambda>t. t_id t = rq_tenantId inp \<and> t_deletedAt t = None) (tenants db) = Some tn"
    using run by (auto simp: create_settlement_def split: option.splits)
  obtain d db1 where res: "resolve_destination tn db = Inr (Some d, db1)"
    using run tn by (auto simp: create_settlement_def split: option.splits sum.splits prod.splits)
  obtain ds n where db1: "db1 = db\<lparr>destinations := ds, nextId := n\<rparr>" and n: "nextId db \<le> n"
    by (rule resolve_destination_frame [OF res])
  have ok1: "gateway_ok db1" unfolding db1 by (rule gateway_ok_nextId [OF ok n])
  have b1: "getTenantBalance t db1 = getTenantBalance t db" for t by (simp add: db1 getTenantBalance_def)
  let ?a = "settleableMinor (getTenantBalance (rq_tenantId inp) db)"
  define z where "z = new_payout inp d ?a db1"
  have ref: "request_refused inp db1 = None" and am: "amount_refused inp ?a (gsettings db1) = None"
    using run tn res by (auto simp: create_settlement_def b1 Let_def split: option.splits)
  obtain db2 where ins: "insert_payout z db1 = Inr db2"
    using run tn res ref am by (auto simp: create_settlement_def b1 Let_def z_def split: sum.splits)
  have db2: "db2 = db1\<lparr>payouts := payouts db1 @ [z], nextId := nextId db1 + 1, stlSeq := stlSeq db1 + 1\<rparr>"
    using ins by (auto simp: insert_payout_def split: if_splits)
  obtain w db3 where app: "appendLedgerEntry (settlement_entry z) db2 = Inr (w, db3)"
      and y: "y = z" and db': "db' = db3\<lparr>gatewayTxns := link_unsettled z (gatewayTxns db3)\<rparr>"
    using run tn res ref am ins by (auto simp: create_settlement_def b1 Let_def z_def [symmetric] split: sum.splits)
  have zid: "y_id z = nextId db1" "y_amountMinor z = ?a" "y_tenantId z = rq_tenantId inp" "\<not> given_back (y_status z)" "queued (y_status z)"
    by (simp_all add: z_def new_payout_def Let_def given_back_def queued_def)
  have j: "journal_ok (nextId db1) (ledgerEntries db1)" using ok1 by (simp add: gateway_ok_def)
  have w: "w" using append_db(3) [OF app] journal_fresh [OF j, of "nextId db1"] zid by (simp add: db2 entry_keys_def)
  then have db'2: "db' = requested_db z db1"
    using append_db(1) [OF app] by (simp add: db' requested_db_def db2)
  have safe: "is_safe_integer (y_amountMinor z)" using append_db(2) [OF app] by (simp add: entry_ok_def settlement_entry_def)
  have pos: "0 < ?a" "rq_enforceMinimum inp \<longrightarrow> settlementMinimumMinor (gsettings db) \<le> ?a"
    using am by (auto simp: amount_refused_def db1 split: if_splits)
  have nq: "\<forall>x \<in> set (payouts db). y_tenantId x = rq_tenantId inp \<longrightarrow> \<not> queued (y_status x)"
    using ref by (auto simp: request_refused_def db1 split: option.splits dest: find_NoneD)
  have le: "?a \<le> availableMinor (getTenantBalance (rq_tenantId inp) db)"
    using settleable_bounds [OF pos(1)] by simp
  have "gateway_ok (db1\<lparr>payouts := payouts db1 @ [z], nextId := nextId db1 + 1, ledgerEntries := ledgerEntries db1 @ [settlement_entry z]\<rparr>)"
    by (rule gateway_ok_new_payout [OF ok1]) (use zid pos safe le nq b1 in \<open>simp_all add: db1\<close>)
  from gateway_ok_update_txns [OF this, of "\<lambda>g. g\<lparr>g_settlementStatus := SETTLEMENT_PENDING, g_settlementId := Some (y_id z)\<rparr>"
      "\<lambda>g. g_tenantId g = y_tenantId z \<and> g_settlementStatus g = UNSETTLED
           \<and> (g_status g = GT_COMPLETED \<or> g_status g = GT_PARTIALLY_REFUNDED) \<and> g_createdAt g \<le> y_createdAt z"]
  have "gateway_ok (requested_db z db1)" by (simp add: requested_db_def link_unsettled_def gateway_ok_def)
  then show thesis
    using that [OF res] tn zid pos nq ok1 db'2 y by (auto simp: z_def dest: find_SomeD)
qed

lemma requested_balance:
  "availableMinor (getTenantBalance t (requested_db y db)) =
     availableMinor (getTenantBalance t db) - (if t = y_tenantId y then y_amountMinor y else 0)"
  by (simp add: getTenantBalance_def Let_def requested_db_def settlement_entry_def)


section \<open>Properties\<close>

lemma resolve_destination_queue:
  assumes q: "z \<in> set (payouts db)" "queued (y_status z)" "y_tenantId z = rq_tenantId inp"
  shows "\<exists>e. create_settlement inp db = Inl e"
proof (cases "List.find (\<lambda>t. t_id t = rq_tenantId inp \<and> t_deletedAt t = None) (tenants db)")
  case (Some tn)
  show ?thesis
  proof (cases "resolve_destination tn db")
    case (Inr r)
    obtain d db1 where r: "r = (d, db1)" by (cases r)
    obtain ds n where db1: "db1 = db\<lparr>destinations := ds, nextId := n\<rparr>"
      by (rule resolve_destination_frame [OF Inr [unfolded r]])
    have "List.find (\<lambda>y. y_tenantId y = rq_tenantId inp \<and> queued (y_status y)) (payouts db) \<noteq> None"
      using q by (auto simp: find_None_iff)
    then have "request_refused inp db1 \<noteq> None" by (auto simp: request_refused_def db1)
    with Some Inr r show ?thesis by (auto simp: create_settlement_def split: option.split)
  qed (simp add: create_settlement_def Some)
qed (simp add: create_settlement_def)

text \<open>
  C19. A settlement reserves what it will pay before anything is sent. When a request is
  accepted, its amount is a positive whole number of shillings, at least the platform minimum
  where that is enforced, and it is the largest such amount the balance covers: the tenant's
  balance falls by exactly the amount and less than a shilling is left, no other tenant's balance
  moves, and until the settlement leaves the queue every further request of the tenant is
  refused.
\<close>

theorem create_settlement_reserves:
  assumes ok: "gateway_ok db" and run: "create_settlement inp db = Inr (y, db')"
  shows "gateway_ok db' \<and> y \<in> set (payouts db') \<and> y_tenantId y = rq_tenantId inp \<and> 0 < y_amountMinor y \<and> y_amountMinor y mod 100 = 0
    \<and> (rq_enforceMinimum inp \<longrightarrow> settlementMinimumMinor (gsettings db) \<le> y_amountMinor y)
    \<and> (\<forall>t. availableMinor (getTenantBalance t db') = availableMinor (getTenantBalance t db) - (if t = rq_tenantId inp then y_amountMinor y else 0))
    \<and> 0 \<le> availableMinor (getTenantBalance (rq_tenantId inp) db') \<and> availableMinor (getTenantBalance (rq_tenantId inp) db') < 100
    \<and> (rq_tenantId again = rq_tenantId inp \<longrightarrow> (\<exists>e. create_settlement again db' = Inl e))"
proof -
  obtain tn d db1 where res: "resolve_destination tn db = Inr (Some d, db1)"
    and y: "y = new_payout inp d (settleableMinor (getTenantBalance (rq_tenantId inp) db)) db1" and db': "db' = requested_db y db1"
    and pos: "0 < y_amountMinor y" and min: "rq_enforceMinimum inp \<longrightarrow> settlementMinimumMinor (gsettings db) \<le> y_amountMinor y"
    and ok': "gateway_ok db'"
    by (rule create_settlement_spec [OF ok run])
  obtain ds n where db1: "db1 = db\<lparr>destinations := ds, nextId := n\<rparr>" by (rule resolve_destination_frame [OF res])
  have b1: "getTenantBalance t db1 = getTenantBalance t db" for t by (simp add: db1 getTenantBalance_def)
  have f: "y_tenantId y = rq_tenantId inp" "y_amountMinor y = settleableMinor (getTenantBalance (rq_tenantId inp) db)" "queued (y_status y)"
    by (simp_all add: y new_payout_def Let_def queued_def)
  have mem: "y \<in> set (payouts db')" by (simp add: db' requested_db_def)
  have bal: "availableMinor (getTenantBalance t db') = availableMinor (getTenantBalance t db) - (if t = rq_tenantId inp then y_amountMinor y else 0)" for t
    unfolding db' requested_balance b1 f(1) ..
  show ?thesis
    using ok' mem f pos min bal settleable_bounds [OF pos [unfolded f(2)]] resolve_destination_queue [OF mem f(3), of again]
    by auto
qed

lemma find_by_conversation_updated:
  assumes "\<And>y. y_originatorConversationId (f y) = y_originatorConversationId y"
  shows "find_by_conversation c (update_payout i f db) = map_option (\<lambda>y. if y_id y = i then f y else y) (find_by_conversation c db)"
proof -
  have "List.find (\<lambda>y. y_originatorConversationId y = Some c) (update_where (\<lambda>y. y_id y = i) f ys) =
      map_option (\<lambda>y. if y_id y = i then f y else y) (List.find (\<lambda>y. y_originatorConversationId y = Some c) ys)" for ys
    using assms by (induction ys) auto
  then show ?thesis by (simp add: find_by_conversation_def update_payout_def)
qed

lemma final_result_ignored:
  assumes "find_by_conversation (sr_originatorConversationId inp) db = Some y" "y_status y \<noteq> PROCESSING" "find_payout (y_id y) db = Some y"
  shows "applySettlementResult inp db = Inr ((RO_DUPLICATE, Some y), db)"
  using assms by (simp add: applySettlementResult_def lockSettlement_def)

lemma settlement_result_spec:
  assumes ok: "gateway_ok db" and run: "applySettlementResult inp db = Inr ((RO_PROCESSED, s), db')"
  obtains x y where "x \<in> set (payouts db)" "y_originatorConversationId x = Some (sr_originatorConversationId inp)" "y_status x = PROCESSING"
    "s = Some y" "y_status y = (if sr_resultCode inp = 0 then SETTLED else ST_FAILED)" "y_id y = y_id x" "y_amountMinor y = y_amountMinor x"
    "y_tenantId y = y_tenantId x"
    "\<forall>t. availableMinor (getTenantBalance t db') = availableMinor (getTenantBalance t db)
       + (if t = y_tenantId x \<and> sr_resultCode inp \<noteq> 0 then y_amountMinor x else 0)"
    "gateway_ok db'" "find_by_conversation (sr_originatorConversationId inp) db' = Some y" "find_payout (y_id y) db' = Some y"
proof -
  have ok': "gateway_ok db'" by (rule applySettlementResult_keeps [OF ok run])
  have d: "distinct (map y_id (payouts db))" by (rule gateway_ok_payouts [OF ok])
  obtain x f where f: "find_by_conversation (sr_originatorConversationId inp) db = Some x" "x \<in> set (payouts db)" "y_status x = PROCESSING"
    and up: "\<And>y. y_id (f y) = y_id y" "\<And>y. y_amountMinor (f y) = y_amountMinor y" "\<And>y. y_tenantId (f y) = y_tenantId y"
      "\<And>y. y_originatorConversationId (f y) = y_originatorConversationId y"
    and s: "s = Some (f x)" "y_status (f x) = (if sr_resultCode inp = 0 then SETTLED else ST_FAILED)"
    and pay: "payouts db' = update_where (\<lambda>y. y_id y = y_id x) f (payouts db)"
    and bal: "\<forall>t. availableMinor (getTenantBalance t db') = availableMinor (getTenantBalance t db)
       + (if t = y_tenantId x \<and> sr_resultCode inp \<noteq> 0 then y_amountMinor x else 0)"
    using run
  proof (cases rule: applySettlementResult_cases)
    case (settled x)
    obtain x0 where x0: "find_by_conversation (sr_originatorConversationId inp) db = Some x0" using settled(1) by auto
    then have "x0 \<in> set (payouts db)" by (auto simp: find_by_conversation_def dest: find_SomeD)
    then have "x = x0" using lockSettlementD [OF settled(2)] x0 key_eq_rows [OF d] by auto
    then show ?thesis
      using settled x0 lockSettlementD [OF settled(2)]
      by (intro that [of x "settled_payout (result_data inp) (clock db)"])
        (simp_all add: markSettledTx_def Let_def settled_payout_def update_payout_def getTenantBalance_def)
  next
    case (failed x reason extra z)
    obtain x0 where x0: "find_by_conversation (sr_originatorConversationId inp) db = Some x0" using failed(1) by auto
    then have "x0 \<in> set (payouts db)" by (auto simp: find_by_conversation_def dest: find_SomeD)
    then have x: "x = x0" using lockSettlementD [OF failed(2)] x0 key_eq_rows [OF d] by auto
    have m: "x \<in> set (payouts db)" using lockSettlementD [OF failed(2)] by simp
    have ng: "\<not> given_back (y_status x)" using failed(3) by (simp add: given_back_def)
    note r = failSettlementTx_runs [OF ok m ng, of reason extra]
    show ?thesis
      using failed x x0 m r
      by (intro that [of x "failed_payout reason extra (clock db)"])
        (simp_all add: given_back_balance [OF failed_gives_back] del: append_Cons, simp_all add: failed_payout_def given_back_db_def)
  qed simp_all
  have "find_by_conversation (sr_originatorConversationId inp) db' =
      map_option (\<lambda>y. if y_id y = y_id x then f y else y) (find_by_conversation (sr_originatorConversationId inp) db)"
    using find_by_conversation_updated [OF up(4)] by (simp add: find_by_conversation_def update_payout_def pay)
  then have c: "find_by_conversation (sr_originatorConversationId inp) db' = Some (f x)" by (simp add: f)
  have p: "find_payout (y_id (f x)) db' = Some (f x)"
    using find_key_unique [OF d f(2)] by (simp add: find_payout_def pay up find_update_where_same [of y_id f])
  have o': "y_originatorConversationId x = Some (sr_originatorConversationId inp)"
    using f(1) by (auto simp: find_by_conversation_def dest: find_SomeD)
  show thesis by (rule that [OF f(2) o' f(3) s up(1-3) bal ok' c p])
qed

text \<open>
  C18. A provider's result is applied exactly once. When it is processed, the settlement it names was
  being processed and becomes SETTLED (result code 0) or FAILED; the tenant's balance gets the
  reserved amount back exactly on failure, and no other balance moves. Whatever result arrives
  later for the same conversation, a success, a failure or a replay, is a duplicate and changes
  nothing.
\<close>

theorem settlement_result_applied_once:
  assumes "gateway_ok db" and "applySettlementResult inp db = Inr ((RO_PROCESSED, s), db')"
  shows "\<exists>x y. x \<in> set (payouts db) \<and> y_originatorConversationId x = Some (sr_originatorConversationId inp) \<and> y_status x = PROCESSING
    \<and> s = Some y \<and> y_id y = y_id x \<and> y_amountMinor y = y_amountMinor x
    \<and> y_status y = (if sr_resultCode inp = 0 then SETTLED else ST_FAILED)
    \<and> (\<forall>t. availableMinor (getTenantBalance t db') = availableMinor (getTenantBalance t db)
         + (if t = y_tenantId x \<and> sr_resultCode inp \<noteq> 0 then y_amountMinor x else 0))
    \<and> (sr_originatorConversationId later = sr_originatorConversationId inp \<longrightarrow>
         applySettlementResult later db' = Inr ((RO_DUPLICATE, Some y), db'))"
proof -
  obtain x y where x: "x \<in> set (payouts db)" "y_originatorConversationId x = Some (sr_originatorConversationId inp)" "y_status x = PROCESSING"
    and y: "s = Some y" "y_status y = (if sr_resultCode inp = 0 then SETTLED else ST_FAILED)" "y_id y = y_id x" "y_amountMinor y = y_amountMinor x"
    and bal: "\<forall>t. availableMinor (getTenantBalance t db') = availableMinor (getTenantBalance t db)
       + (if t = y_tenantId x \<and> sr_resultCode inp \<noteq> 0 then y_amountMinor x else 0)"
    and f: "find_by_conversation (sr_originatorConversationId inp) db' = Some y" "find_payout (y_id y) db' = Some y"
    using settlement_result_spec [OF assms] by metis
  have "y_status y \<noteq> PROCESSING" using y(2) by simp
  then have "sr_originatorConversationId later = sr_originatorConversationId inp \<Longrightarrow>
      applySettlementResult later db' = Inr ((RO_DUPLICATE, Some y), db')"
    using final_result_ignored [of later db' y] f by simp
  with x y bal show ?thesis by blast
qed


section \<open>Examples\<close>

definition sample_tenant :: tenant where
  "sample_tenant = \<lparr>t_id = 7, t_name = ''Acme Net'', t_slug = ''acme'', t_currency = ''KES'', t_deletedAt = None,
     t_collectsOnPlatform = True, t_payoutShortcode = Some ''123456'', t_payoutShortcodeType = ''TILL'',
     t_feePercentBpsOverride = None, t_feeFixedMinorOverride = None\<rparr>"

definition sample_funded :: gateway_db where
  "sample_funded = sample_collected\<lparr>tenants := [sample_tenant]\<rparr>"

definition sample_request :: request_input where
  "sample_request = \<lparr>rq_tenantId = 7, rq_trigger = TENANT_REQUEST, rq_requestedByUserId = Some 5, rq_retryOfId = None,
     rq_enforceMinimum = True\<rparr>"

definition sample_destination :: destination where
  "sample_destination = new_destination (\<lambda>s. s) 7 (shortcode_details sample_tenant ''123456'') None sample_funded"

definition sample_with_destination :: gateway_db where
  "sample_with_destination = sample_funded\<lparr>destinations := [sample_destination], nextId := 3\<rparr>"

definition sample_payout :: payout where
  "sample_payout = new_payout sample_request sample_destination 98000 sample_with_destination"

definition sample_requested :: gateway_db where
  "sample_requested = requested_db sample_payout sample_with_destination"

lemma sample_funded_fields [simp]:
  "tenants sample_funded = [sample_tenant]" "destinations sample_funded = []" "payouts sample_funded = []" "nextId sample_funded = 2"
  "gsettings sample_funded = default_settings\<lparr>feePercentBps := 200\<rparr>" "userPhones sample_funded = []"
  "ledgerEntries sample_funded = [collection_entry sample_txn, collection_fee_entry sample_txn]"
  by (simp_all add: sample_funded_def sample_collected_def after_collection_def)

lemma sample_funded_ok: "gateway_ok sample_funded"
  by (rule gateway_ok_billing_step [OF sample_collected_ok]) (simp add: billing_step_def sample_funded_def)

lemma sample_available: "availableMinor (getTenantBalance 7 sample_funded) = 98000"
  by (simp add: getTenantBalance_def Let_def collection_entry_def collection_fee_entry_def)

lemma sample_request_runs: "create_settlement sample_request sample_funded = Inr (sample_payout, sample_requested)"
proof -
  have t [simp]: "t_id sample_tenant = 7" "t_deletedAt sample_tenant = None" "t_payoutShortcode sample_tenant = Some ''123456''"
    by (simp_all add: sample_tenant_def)
  have r [simp]: "rq_tenantId sample_request = 7" "rq_trigger sample_request = TENANT_REQUEST" "rq_enforceMinimum sample_request"
    by (simp_all add: sample_request_def)
  have res: "resolve_destination sample_tenant sample_funded = Inr (Some sample_destination, sample_with_destination)"
    by (simp add: resolve_destination_def getActiveDestination_def or_empty_def Let_def insert_destination_def
        sample_with_destination_def sample_destination_def)
  have pay: "payouts sample_with_destination = []" "gsettings sample_with_destination = gsettings sample_funded"
    by (simp_all add: sample_with_destination_def)
  have bal: "getTenantBalance 7 sample_with_destination = getTenantBalance 7 sample_funded"
    by (simp add: getTenantBalance_def sample_with_destination_def)
  have amt: "settleableMinor (getTenantBalance 7 sample_with_destination) = 98000"
    unfolding bal settleable_eq sample_available by simp
  have ref: "request_refused sample_request sample_with_destination = None"
    by (simp add: request_refused_def pay)
  have am: "amount_refused sample_request 98000 (gsettings sample_with_destination) = None"
    by (simp add: amount_refused_def pay default_settings_def)
  have ins: "insert_payout sample_payout sample_with_destination = Inr (sample_with_destination\<lparr>payouts := [sample_payout],
      nextId := nextId sample_with_destination + 1, stlSeq := stlSeq sample_with_destination + 1\<rparr>)"
    by (simp add: insert_payout_def pay)
  have y: "y_id sample_payout = 3" "y_amountMinor sample_payout = 98000"
    by (simp_all add: sample_payout_def new_payout_def Let_def sample_with_destination_def)
  have eok: "entry_ok (settlement_entry sample_payout)"
    by (simp add: entry_ok_def settlement_entry_def y is_safe_integer_def max_safe_integer_def)
  have fresh: "entry_key (settlement_entry sample_payout) \<notin> entry_key ` set (ledgerEntries sample_funded)"
    by (simp add: y)
  have app: "appendLedgerEntry (settlement_entry sample_payout) (sample_with_destination\<lparr>payouts := [sample_payout],
      nextId := nextId sample_with_destination + 1, stlSeq := stlSeq sample_with_destination + 1\<rparr>) =
      Inr (True, sample_with_destination\<lparr>payouts := [sample_payout],
      nextId := nextId sample_with_destination + 1, stlSeq := stlSeq sample_with_destination + 1,
      ledgerEntries := ledgerEntries sample_funded @ [settlement_entry sample_payout]\<rparr>)"
    using append_new_entry [OF eok, of "sample_with_destination\<lparr>payouts := [sample_payout],
      nextId := nextId sample_with_destination + 1, stlSeq := stlSeq sample_with_destination + 1\<rparr>"] fresh
    by (simp add: sample_with_destination_def del: sample_funded_fields)
  have find: "List.find (\<lambda>t. t_id t = 7 \<and> t_deletedAt t = None) (tenants sample_funded) = Some sample_tenant"
    by simp
  show ?thesis
    unfolding create_settlement_def find option.case res sum.case prod.case ref r(1) amt Let_def am
      sample_payout_def [symmetric] ins app
    by (simp add: sample_requested_def requested_db_def pay) (simp add: sample_with_destination_def)
qed

theorem create_settlement_reserves_witness:
  "y_amountMinor sample_payout = 98000 \<and> availableMinor (getTenantBalance 7 sample_funded) = 98000
   \<and> availableMinor (getTenantBalance 7 sample_requested) = 0 \<and> (\<exists>e. create_settlement sample_request sample_requested = Inl e)"
  using create_settlement_reserves [OF sample_funded_ok sample_request_runs, of sample_request] sample_available
  by (simp add: sample_payout_def new_payout_def Let_def sample_request_def)

text \<open>The same settlement handed to the provider, which acknowledged it.\<close>

definition sample_sent :: gateway_db where
  "sample_sent = update_payout 3 (\<lambda>y. y\<lparr>y_conversationId := None, y_originatorConversationId := Some ''AG1''\<rparr>)
     (snd (claim_dispatch 3 sample_requested))"

definition sample_result :: "int \<Rightarrow> settlement_result" where
  "sample_result code = \<lparr>sr_originatorConversationId = ''AG1'', sr_resultCode = code, sr_resultDesc = ''result'', sr_transactionId = Some ''QX9''\<rparr>"

lemma sample_requested_ok: "gateway_ok sample_requested"
  using create_settlement_spec [OF sample_funded_ok sample_request_runs] by metis

lemma sample_sent_ok: "gateway_ok sample_sent"
  unfolding sample_sent_def by (rule gateway_ok_update_payout [OF claim_dispatch_keeps [OF sample_requested_ok]]) simp

lemma sample_sent_payouts:
  "payouts sample_sent = [sample_payout\<lparr>y_status := PROCESSING, y_processingStartedAt := Some 0,
     y_conversationId := None, y_originatorConversationId := Some ''AG1''\<rparr>]"
  by (simp add: sample_sent_def claim_dispatch_def update_payout_def sample_requested_def requested_db_def sample_with_destination_def
      sample_payout_def new_payout_def Let_def providerForDestination_def provider_automatic_def sample_destination_def
      new_destination_def shortcode_details_def empty_details_def sample_tenant_def sandboxSettlementsEnabled_def default_settings_def
      sample_funded_def sample_collected_def after_collection_def)

lemma sample_result_runs:
  "\<exists>s db'. applySettlementResult (sample_result 2001) sample_sent = Inr ((RO_PROCESSED, s), db')"
proof -
  define y where "y = sample_payout\<lparr>y_status := PROCESSING, y_processingStartedAt := Some 0,
     y_conversationId := None, y_originatorConversationId := Some ''AG1''\<rparr>"
  have p: "payouts sample_sent = [y]" unfolding y_def by (rule sample_sent_payouts)
  have y: "y_originatorConversationId y = Some ''AG1''" "y_status y = PROCESSING" by (simp_all add: y_def)
  have m: "y \<in> set (payouts sample_sent)" "\<not> given_back (y_status y)" using y by (simp_all add: p given_back_def)
  have f: "find_by_conversation ''AG1'' sample_sent = Some y" "lockSettlement (y_id y) sample_sent = Inr y"
    using y by (simp_all add: find_by_conversation_def lockSettlement_def find_payout_def p)
  show ?thesis
    unfolding applySettlementResult_def sample_result_def
    by (simp add: f y failSettlementTx_runs [OF sample_sent_ok m])
qed

theorem settlement_result_applied_once_witness:
  "\<exists>s db'. applySettlementResult (sample_result 2001) sample_sent = Inr ((RO_PROCESSED, s), db')
     \<and> (\<exists>y. applySettlementResult (sample_result 0) db' = Inr ((RO_DUPLICATE, Some y), db') \<and> y_status y = ST_FAILED)"
proof -
  obtain s db' where run: "applySettlementResult (sample_result 2001) sample_sent = Inr ((RO_PROCESSED, s), db')"
    using sample_result_runs by blast
  have c: "sr_originatorConversationId (sample_result 0) = sr_originatorConversationId (sample_result 2001)"
    "sr_resultCode (sample_result 2001) \<noteq> 0" by (simp_all add: sample_result_def)
  show ?thesis
    using settlement_result_applied_once [OF sample_sent_ok run, of "sample_result 0"] run c by auto
qed


section \<open>The schedule\<close>

lemma iso_weekday_eq: "iso_weekday d = (d + 3) mod 7 + 1"
proof -
  have "((4 + d) mod 7 + 6) mod 7 = (4 + d + 6) mod 7" by (rule mod_add_left_eq)
  also have "4 + d + 6 = d + 3 + 7" by simp
  also have "(d + 3 + 7) mod 7 = (d + 3) mod 7" by (rule mod_add_self2)
  finally show ?thesis by (simp add: iso_weekday_def)
qed

text \<open>The last time at or before \<open>L\<close> that falls in the residue class of a slot.\<close>

lemma slot_unique:
  fixes x y L p :: int
  assumes "x \<le> L" "L < x + p" "y \<le> L" "L < y + p" "x mod p = y mod p" "0 < p"
  shows "x = y"
proof -
  have "p dvd x - y" using assms(5) by (simp add: mod_eq_dvd_iff)
  moreover have "\<bar>x - y\<bar> < p" using assms by linarith
  ultimately have "x - y = 0" using dvd_imp_le_int [of "x - y" p] assms(6) by (cases "x - y = 0") auto
  then show ?thesis by simp
qed

lemma daily_slot:
  fixes L h :: int
  assumes "0 \<le> h" "h < day_ms"
  defines "x \<equiv> (if L div day_ms * day_ms + h > L then L div day_ms * day_ms + h - day_ms else L div day_ms * day_ms + h)"
  shows "x \<le> L" "L < x + day_ms" "x mod day_ms = h"
proof -
  have D: "0 < day_ms" by (simp add: day_ms_def)
  have L: "L div day_ms * day_ms \<le> L" "L < L div day_ms * day_ms + day_ms"
    using D by (simp_all add: minus_mod_eq_div_mult [symmetric])
  show "x \<le> L" "L < x + day_ms" using assms L by (auto simp: x_def)
  have "(L div day_ms * day_ms + h) mod day_ms = h" using assms by simp
  moreover have "(L div day_ms * day_ms + h - day_ms) mod day_ms = h" using assms by (simp add: mod_diff_eq [symmetric])
  ultimately show "x mod day_ms = h" by (simp add: x_def)
qed

lemma weekday_back:
  fixes q T w r :: int
  assumes "q = T - r \<or> q = T - r - 7" "r = ((T + 3) mod 7 + 1 - w) mod 7" "1 \<le> w" "w \<le> 7"
  shows "(q + 3) mod 7 + 1 = w"
proof -
  have "q + 3 = T - r + 3 \<or> q + 3 = (T - r + 3) - 7" using assms(1) by linarith
  then have "(q + 3) mod 7 = (T - r + 3) mod 7" by (metis minus_mod_self2)
  also have "\<dots> = (w - 1) mod 7"
  proof -
    have "(T - r + 3) mod 7 = ((T + 3) - ((T + 3) mod 7 + 1 - w)) mod 7"
    proof -
      have "T - r + 3 = T + 3 - r" by simp
      then show ?thesis unfolding assms(2) by (simp only: mod_diff_right_eq)
    qed
    also have "\<dots> = ((T + 3) mod 7 - ((T + 3) mod 7 + 1 - w)) mod 7" by (rule mod_diff_left_eq [symmetric])
    finally show ?thesis by simp
  qed
  also have "\<dots> = w - 1" using assms(3,4) by simp
  finally show ?thesis by simp
qed

lemma weekday_residue: "1 \<le> w \<Longrightarrow> w \<le> 7 \<Longrightarrow> (q + 3) mod 7 + 1 = (w :: int) \<Longrightarrow> q mod 7 = (w + 3) mod 7"
proof -
  assume "(q + 3) mod 7 + 1 = w"
  then have "w + 3 = (q + 3) mod 7 + 4" by linarith
  then have "(w + 3) mod 7 = ((q + 3) mod 7 + 4) mod 7" by (rule arg_cong)
  also have "\<dots> = (q + 3 + 4) mod 7" by (rule mod_add_left_eq)
  also have "\<dots> = (q + 7) mod 7" by (simp only: add.assoc) simp
  finally show "q mod 7 = (w + 3) mod 7" by simp
qed

lemma weekly_slot:
  fixes L h w :: int
  assumes "0 \<le> h" "h < day_ms" "1 \<le> w" "w \<le> 7"
  defines "s \<equiv> L div day_ms * day_ms + h - js_rem (iso_weekday (L div day_ms) - w + 7) 7 * day_ms"
  defines "x \<equiv> (if s > L then s - 7 * day_ms else s)"
  shows "x \<le> L" "L < x + 7 * day_ms" "x mod (7 * day_ms) = ((w + 3) mod 7) * day_ms + h"
    and "x mod day_ms = h" "iso_weekday (x div day_ms) = w"
proof -
  have D: "0 < day_ms" by (simp add: day_ms_def)
  let ?T = "L div day_ms"
  define r where "r = js_rem (iso_weekday ?T - w + 7) 7"
  have iso: "1 \<le> iso_weekday ?T" "iso_weekday ?T \<le> 7" by (simp_all add: iso_weekday_eq)
  then have r: "r = (iso_weekday ?T - w) mod 7" "0 \<le> r" "r \<le> 6"
    using assms(3,4) unfolding r_def js_rem_def by (auto simp: mod_simps)
  have L: "?T * day_ms \<le> L" "L < ?T * day_ms + day_ms"
    using D by (simp_all add: minus_mod_eq_div_mult [symmetric])
  obtain q where q: "x = q * day_ms + h" "q = ?T - r \<or> (q = ?T - r - 7)" "x = s \<or> x = s - 7 * day_ms"
    by (rule that [of "if s > L then ?T - r - 7 else ?T - r"]) (auto simp: x_def s_def r_def algebra_simps)
  have rd: "r * day_ms \<le> 6 * day_ms" "0 \<le> r * day_ms" using r D by simp_all
  have s: "s = ?T * day_ms + h - r * day_ms" by (simp add: s_def r_def)
  show "x \<le> L" using L s rd assms(1,2) by (auto simp: x_def)
  show "L < x + 7 * day_ms"
  proof (cases "s > L")
    case True
    then show ?thesis by (simp add: x_def)
  next
    case False
    then have "x = s" by (simp add: x_def)
    then show ?thesis using L s rd assms(1,2) by linarith
  qed
  have dv: "x div day_ms = q" and md: "x mod day_ms = h" using q(1) assms(1,2) by simp_all
  show "x mod day_ms = h" by (rule md)
  have "(q + 3) mod 7 + 1 = w"
    by (rule weekday_back) (use q(2) r(1) assms(3,4) in \<open>simp_all add: iso_weekday_eq\<close>)
  then show iw: "iso_weekday (x div day_ms) = w" by (simp add: dv iso_weekday_eq)
  then have q7: "q mod 7 = (w + 3) mod 7" using weekday_residue [OF assms(3,4)] by (simp add: dv iso_weekday_eq)
  have "x mod (7 * day_ms) = (q mod 7) * day_ms + h"
  proof -
    have "x mod (day_ms * 7) = day_ms * (x div day_ms mod 7) + x mod day_ms"
      using D by (simp add: mod_mult2_eq' zmod_zmult2_eq)
    then show ?thesis by (simp add: dv md mult.commute)
  qed
  then show "x mod (7 * day_ms) = ((w + 3) mod 7) * day_ms + h" by (simp add: q7)
qed

definition period_of :: "settlement_frequency \<Rightarrow> int" where
  "period_of f = (if f = F_WEEKLY then 7 * day_ms else day_ms)"

lemma latest_slot_spec:
  assumes "0 \<le> h" "h < 24" "1 \<le> w" "w \<le> 7" and f: "f = F_DAILY \<or> f = F_WEEKLY"
  obtains due where "latestScheduledRun now f h w = Some due" "due \<le> now" "now < due + period_of f"
    "(due + 3 * hour_ms) mod day_ms = h * hour_ms" "f = F_WEEKLY \<longrightarrow> iso_weekday ((due + 3 * hour_ms) div day_ms) = w"
    "(due + 3 * hour_ms) mod period_of f = (if f = F_WEEKLY then ((w + 3) mod 7) * day_ms else 0) + h * hour_ms"
proof -
  have h: "0 \<le> h * hour_ms" "h * hour_ms < day_ms" using assms(1,2) by (simp_all add: hour_ms_def day_ms_def)
  note d = daily_slot [OF h, of "now + 3 * hour_ms"] and w = weekly_slot [OF h assms(3,4), of "now + 3 * hour_ms"]
  show thesis
  proof (cases "f = F_WEEKLY")
    case True
    define x where "x = (if (now + 3 * hour_ms) div day_ms * day_ms + h * hour_ms - js_rem (iso_weekday ((now + 3 * hour_ms) div day_ms) - w + 7) 7 * day_ms > now + 3 * hour_ms
      then (now + 3 * hour_ms) div day_ms * day_ms + h * hour_ms - js_rem (iso_weekday ((now + 3 * hour_ms) div day_ms) - w + 7) 7 * day_ms - 7 * day_ms
      else (now + 3 * hour_ms) div day_ms * day_ms + h * hour_ms - js_rem (iso_weekday ((now + 3 * hour_ms) div day_ms) - w + 7) 7 * day_ms)"
    have "latestScheduledRun now f h w = Some (x - 3 * hour_ms)"
      using True by (simp add: x_def latestScheduledRun_def Let_def)
    then show thesis using w [folded x_def] True by (intro that [of "x - 3 * hour_ms"]) (simp_all add: period_of_def)
  next
    case False
    define x where "x = (if (now + 3 * hour_ms) div day_ms * day_ms + h * hour_ms > now + 3 * hour_ms
      then (now + 3 * hour_ms) div day_ms * day_ms + h * hour_ms - day_ms else (now + 3 * hour_ms) div day_ms * day_ms + h * hour_ms)"
    have "latestScheduledRun now f h w = Some (x - 3 * hour_ms)"
      using f False by (simp add: x_def latestScheduledRun_def Let_def)
    then show thesis using d [folded x_def] False f by (intro that [of "x - 3 * hour_ms"]) (simp_all add: period_of_def)
  qed
qed

text \<open>
  The settlement schedule has exactly one slot per day or week. With a valid hour and
  weekday, the slot found for a time is at or before it and less than a period old, falls on
  the configured hour of the Nairobi day (and weekday, for a weekly schedule), and every later
  time before the next slot finds the same one: a run recorded at or after the slot therefore
  makes every further run in that period do nothing.
\<close>

theorem schedule_runs_once_per_period:
  assumes "0 \<le> h" "h < 24" "1 \<le> w" "w \<le> 7" "f = F_DAILY \<or> f = F_WEEKLY"
  shows "\<exists>due. latestScheduledRun now f h w = Some due \<and> due \<le> now \<and> now < due + period_of f
    \<and> (due + 3 * hour_ms) mod day_ms = h * hour_ms \<and> (f = F_WEEKLY \<longrightarrow> iso_weekday ((due + 3 * hour_ms) div day_ms) = w)
    \<and> (\<forall>later. now \<le> later \<longrightarrow> later < due + period_of f \<longrightarrow> latestScheduledRun later f h w = Some due)
    \<and> (\<forall>later settings api dec db. now \<le> later \<longrightarrow> later < due + period_of f \<longrightarrow> lastScheduledRunAt settings = Some now \<longrightarrow>
         settlementFrequency settings = f \<longrightarrow> settlementHourEat settings = h \<longrightarrow> settlementWeekday settings = w \<longrightarrow>
         runScheduledSettlements api dec settings later (db :: gateway_db) = (not_run ''Not due yet'', db))"
proof -
  obtain due where due: "latestScheduledRun now f h w = Some due" "due \<le> now" "now < due + period_of f"
    "(due + 3 * hour_ms) mod day_ms = h * hour_ms" "f = F_WEEKLY \<longrightarrow> iso_weekday ((due + 3 * hour_ms) div day_ms) = w"
    "(due + 3 * hour_ms) mod period_of f = (if f = F_WEEKLY then ((w + 3) mod 7) * day_ms else 0) + h * hour_ms"
    by (rule latest_slot_spec [OF assms])
  have same: "latestScheduledRun later f h w = Some due" if "now \<le> later" "later < due + period_of f" for later
  proof -
    obtain due2 where due2: "latestScheduledRun later f h w = Some due2" "due2 \<le> later" "later < due2 + period_of f"
      "(due2 + 3 * hour_ms) mod period_of f = (if f = F_WEEKLY then ((w + 3) mod 7) * day_ms else 0) + h * hour_ms"
      using latest_slot_spec [OF assms, of later] by metis
    have "due + 3 * hour_ms = due2 + 3 * hour_ms"
      by (rule slot_unique [of _ "later + 3 * hour_ms" "period_of f"])
        (use due due2 that in \<open>simp_all add: period_of_def day_ms_def\<close>)
    then show ?thesis using due2(1) by simp
  qed
  have run: "runScheduledSettlements api dec settings later db = (not_run ''Not due yet'', db)"
    if "now \<le> later" "later < due + period_of f" "lastScheduledRunAt settings = Some now"
      "settlementFrequency settings = f" "settlementHourEat settings = h" "settlementWeekday settings = w"
    for later settings api dec and db :: gateway_db
    using same [OF that(1,2)] that assms(5) due(2) by (auto simp: runScheduledSettlements_def)
  show ?thesis using due same run by blast
qed

theorem schedule_runs_once_per_period_witness:
  "latestScheduledRun 1000000000000 F_DAILY 9 1 = Some 999928800000
   \<and> (\<exists>due. latestScheduledRun 1000000000000 F_WEEKLY 9 1 = Some due \<and> (due + 3 * hour_ms) mod day_ms = 9 * hour_ms)"
proof -
  have "latestScheduledRun 1000000000000 F_DAILY 9 1 = Some 999928800000"
    by (simp add: latestScheduledRun_def Let_def day_ms_def hour_ms_def)
  then show ?thesis
    using schedule_runs_once_per_period [of 9 1 F_WEEKLY 1000000000000] by auto
qed


section \<open>Dispatch and money\<close>

lemma update_payout_balance:
  "availableMinor (getTenantBalance t (update_payout i f db)) = availableMinor (getTenantBalance t db)"
  by (simp add: getTenantBalance_def Let_def update_payout_def)

lemma find_payout_update:
  assumes "\<And>y. y_id (f y) = y_id y"
  shows "find_payout i (update_payout i f db) = map_option f (find_payout i db)"
  using assms by (simp add: find_payout_def update_payout_def find_update_where_same)

text \<open>What a provider's answer says about the money: it was definitely not sent.\<close>

definition not_sent :: "initiate_result \<Rightarrow> bool" where
  "not_sent r = (case r of THREW (SettlementRejectedError _) \<Rightarrow> True | THREW (OtherError _) \<Rightarrow> True | _ \<Rightarrow> False)"

lemma claim_dispatch_first:
  assumes ok: "gateway_ok db" and y: "y \<in> set (payouts db)" "y_status y = REQUESTED"
  shows "claim_dispatch (y_id y) db =
    (True, update_payout (y_id y) (\<lambda>z. z\<lparr>y_status := PROCESSING, y_processingStartedAt := Some (clock db)\<rparr>) db)"
proof -
  have d: "distinct (map y_id (payouts db))" by (rule gateway_ok_payouts [OF ok])
  have u: "z \<in> set (payouts db) \<Longrightarrow> y_id z = y_id y \<Longrightarrow> z = y" for z using key_eq_rows [OF d _ y(1)] by blast
  have "update_where (\<lambda>z. y_id z = y_id y \<and> y_status z = REQUESTED) f (payouts db) = update_where (\<lambda>z. y_id z = y_id y) f (payouts db)" for f
    by (rule update_where_cong) (use u y(2) in auto)
  moreover have "count_where (\<lambda>z. y_id z = y_id y \<and> y_status z = REQUESTED) (payouts db) \<noteq> 0"
    unfolding count_where_eq_0 using y by blast
  ultimately show ?thesis by (simp add: claim_dispatch_def update_payout_def)
qed

lemma claim_dispatch_lost:
  assumes "\<And>y. y \<in> set (payouts db) \<Longrightarrow> y_id y = i \<Longrightarrow> y_status y \<noteq> REQUESTED"
  shows "claim_dispatch i db = (False, db)"
proof -
  have "count_where (\<lambda>y. y_id y = i \<and> y_status y = REQUESTED) (payouts db) = 0" unfolding count_where_eq_0 using assms by blast
  moreover have "update_where (\<lambda>y. y_id y = i \<and> y_status y = REQUESTED) f (payouts db) = payouts db" for f
    by (rule update_where_none) (use assms in blast)
  ultimately show ?thesis by (simp add: claim_dispatch_def)
qed

lemma dispatch_again:
  assumes ok: "gateway_ok db" and y: "find_payout i db = Some y" "y_status y \<noteq> REQUESTED"
  shows "dispatchSettlement api dec i db = (Inr y, db)"
proof -
  have "claim_dispatch i db = (False, db)"
    by (rule claim_dispatch_lost) (use key_eq_rows [OF gateway_ok_payouts [OF ok]] find_payoutD [OF y(1)] y(2) in metis)
  then show ?thesis by (simp add: dispatchSettlement_def y)
qed

lemma dispatch_spec:
  assumes ok: "gateway_ok db" and y: "y \<in> set (payouts db)" "y_status y = REQUESTED"
    and d: "List.find (\<lambda>d. Some (d_id d) = y_destinationId y) (destinations db) = Some d"
    and tn: "List.find (\<lambda>t. t_id t = y_tenantId y) (tenants db) = Some tn"
    and fresh: "\<And>c orig. initiateSettlement (y_provider y) api (settlement_instruction_for dec y d tn) = ACCEPTED c orig \<Longrightarrow>
      \<forall>z \<in> set (payouts db). y_originatorConversationId z \<noteq> Some orig"
  defines "answer \<equiv> initiateSettlement (y_provider y) api (settlement_instruction_for dec y d tn)"
  obtains z db' where "dispatchSettlement api dec (y_id y) db = (Inr z, db')" "gateway_ok db'" "find_payout (y_id y) db' = Some z"
    "y_id z = y_id y" "y_status z = (if not_sent answer then ST_FAILED else PROCESSING)"
    "\<forall>t. availableMinor (getTenantBalance t db') = availableMinor (getTenantBalance t db) + (if t = y_tenantId y \<and> not_sent answer then y_amountMinor y else 0)"
    "\<forall>c orig. answer = ACCEPTED c orig \<longrightarrow> y_originatorConversationId z = Some orig"
proof -
  note conclude = that
  define f :: "payout \<Rightarrow> payout" where "f = (\<lambda>z. z\<lparr>y_status := PROCESSING, y_processingStartedAt := Some (clock db)\<rparr>)"
  define db1 where "db1 = update_payout (y_id y) f db"
  have fid: "y_id (f z) = y_id z" for z by (simp add: f_def)
  have cl: "claim_dispatch (y_id y) db = (True, db1)" using claim_dispatch_first [OF ok y] by (simp add: db1_def f_def)
  have ok1: "gateway_ok db1" using claim_dispatch_keeps [OF ok, of "y_id y"] cl by simp
  have f0: "find_payout (y_id y) db = Some y"
    using find_key_unique [OF gateway_ok_payouts [OF ok] y(1)] by (simp add: find_payout_def)
  have f1: "find_payout (y_id y) db1 = Some (f y)" using find_payout_update [of f "y_id y" db, OF fid] f0 by (simp add: db1_def)
  have b1: "availableMinor (getTenantBalance t db1) = availableMinor (getTenantBalance t db)" for t
    unfolding db1_def by (rule update_payout_balance)
  have st: "y_status (f y) = PROCESSING" "y_amountMinor (f y) = y_amountMinor y" "y_tenantId (f y) = y_tenantId y"
    "y_destinationId (f y) = y_destinationId y" "y_provider (f y) = y_provider y"
    by (simp_all add: f_def)
  have ins: "settlement_instruction_for dec (f y) d tn = settlement_instruction_for dec y d tn"
    by (simp add: settlement_instruction_for_def f_def)
  have same: "destinations db1 = destinations db" "tenants db1 = tenants db" by (simp_all add: db1_def update_payout_def)
  have run: "dispatchSettlement api dec (y_id y) db = commit (finish_dispatch (f y) answer db1) db1"
    by (simp add: dispatchSettlement_def cl f1 st same d tn ins answer_def)
  have m: "f y \<in> set (payouts db1)" "\<not> given_back (y_status (f y))" using find_payoutD [OF f1] st by (auto simp: given_back_def)
  have keep: thesis if g: "\<And>z. y_id (g z) = y_id z" "\<And>z. y_status (g z) = y_status z" "\<And>z. given_back (y_status (g z)) = given_back (y_status z)"
      "\<And>z. y_tenantId (g z) = y_tenantId z" "\<And>z. y_amountMinor (g z) = y_amountMinor z"
      and fin: "finish_dispatch (f y) answer db1 = Inr (g (f y), update_payout (y_id y) g db1)" and ns: "\<not> not_sent answer"
      and c: "\<forall>c orig. answer = ACCEPTED c orig \<longrightarrow> y_originatorConversationId (g (f y)) = Some orig" for g
  proof -
    have "gateway_ok (update_payout (y_id y) g db1)" by (rule gateway_ok_update_payout [OF ok1]) (use g in simp)
    then show thesis
      using run fin ns c g st b1 update_payout_balance [of _ "y_id y" g db1] find_payout_update [of g "y_id y" db1, OF g(1)] f1
      by (intro conclude [of "g (f y)" "update_payout (y_id y) g db1"]) (simp_all add: commit_def fid)
  qed
  have fail: thesis if "finish_dispatch (f y) answer db1 = failSettlement (y_id y) m no_extra db1" and ns: "not_sent answer" for m
  proof -
    let ?h = "failed_payout m no_extra (clock db1)"
      and ?db' = "given_back_db (failed_payout m no_extra (clock db1)) (f y) (''Settlement '' @ y_settlementNumber (f y) @ '' failed '' @ em_dash @ '' balance restored'') (fx_userId no_extra) db1"
    have fs: "failSettlement (y_id y) m no_extra db1 = Inr (?h (f y), ?db')"
      using failSettlementTx_runs [OF ok1 m, of m no_extra] st
      by (simp add: failSettlement_def lockSettlement_def f1 is_final_def del: append_Cons)
    have hid: "y_id (?h z) = y_id z" "y_status (?h z) = ST_FAILED" for z by (simp_all add: failed_payout_def)
    have fp: "find_payout (y_id y) ?db' = Some (?h (f y))"
      using find_payout_update [of ?h "y_id y" db1, OF hid(1)] f1 by (simp add: given_back_db_def find_payout_def update_payout_def fid)
    show thesis
      using run that(1) fs ns st b1 hid fp restore_runs(2) [OF ok1 m failed_gives_back]
      by (intro conclude [of "?h (f y)" ?db'])
        (auto simp: commit_def fid given_back_balance [OF failed_gives_back] not_sent_def split: initiate_result.splits initiate_error.splits)
  qed
  show thesis
  proof (cases answer)
    case (ACCEPTED c orig)
    let ?g = "\<lambda>y. y\<lparr>y_conversationId := c, y_originatorConversationId := Some orig\<rparr>"
    have nx: "\<not> (\<exists>z \<in> set (payouts db1). y_id z \<noteq> y_id y \<and> y_originatorConversationId z = Some orig)"
      using fresh [OF ACCEPTED [unfolded answer_def]] by (auto simp: db1_def update_payout_def set_update_where f_def)
    have fp: "find_payout (y_id y) (update_payout (y_id y) ?g db1) = Some (?g (f y))"
      using find_payout_update [of ?g "y_id y" db1] f1 by simp
    show ?thesis
      by (rule keep [of ?g]) (use ACCEPTED nx fp in \<open>simp_all add: finish_dispatch_def set_conversation_def fid not_sent_def\<close>)
  next
    case MANUAL_RESULT
    have "update_payout (y_id y) (\<lambda>z. z) db1 = db1" by (simp add: update_payout_def update_where_def)
    then show ?thesis
      by (intro keep [of "\<lambda>z. z"]) (use MANUAL_RESULT in \<open>simp_all add: finish_dispatch_def not_sent_def\<close>)
  next
    case (THREW e)
    have noted: "note_unknown (y_id y) m db1 = Inr (g (f y), update_payout (y_id y) g db1)"
      if "g = (\<lambda>y. y\<lparr>y_failureReason := Some m, y_notes := Some (''Outcome unknown '' @ em_dash @ '' confirm with the provider, then resolve.'')\<rparr>)" for m g
      using find_payout_update [of g "y_id y" db1] f1 that by (simp add: note_unknown_def)
    show ?thesis
    proof (cases e)
      case (SettlementOutcomeUnknownError m)
      show ?thesis
        by (rule keep [of "\<lambda>y. y\<lparr>y_failureReason := Some (take 500 m), y_notes := Some (''Outcome unknown '' @ em_dash @ '' confirm with the provider, then resolve.'')\<rparr>"])
          (use THREW SettlementOutcomeUnknownError noted in \<open>simp_all add: finish_dispatch_def not_sent_def fid\<close>)
    next
      case (NotAnError m)
      show ?thesis
        by (rule keep [of "\<lambda>y. y\<lparr>y_failureReason := Some (take 500 m), y_notes := Some (''Outcome unknown '' @ em_dash @ '' confirm with the provider, then resolve.'')\<rparr>"])
          (use THREW NotAnError noted in \<open>simp_all add: finish_dispatch_def not_sent_def fid\<close>)
    next
      case (SettlementRejectedError m)
      show ?thesis by (rule fail [of "take 500 m"]) (use THREW SettlementRejectedError in \<open>simp_all add: finish_dispatch_def not_sent_def fid\<close>)
    next
      case (OtherError m)
      show ?thesis by (rule fail [of "take 500 m"]) (use THREW OtherError in \<open>simp_all add: finish_dispatch_def not_sent_def fid\<close>)
    qed
  qed
qed


text \<open>
  C17. Dispatching a settlement gives the reserved money back only when it was certainly not sent.
  The settlement is claimed first; if the provider refused it (or the instruction never left),
  it is FAILED and the balance restored, in every other case (accepted, to be done by a person,
  or an unknown outcome) it stays PROCESSING and the balance stays reserved. Dispatching it once
  more, with whatever provider, does nothing.
\<close>

theorem dispatch_restores_only_unsent:
  assumes "gateway_ok db" and "y \<in> set (payouts db)" "y_status y = REQUESTED"
    and "List.find (\<lambda>d. Some (d_id d) = y_destinationId y) (destinations db) = Some d"
    and "List.find (\<lambda>t. t_id t = y_tenantId y) (tenants db) = Some tn"
    and "\<forall>c orig. initiateSettlement (y_provider y) api (settlement_instruction_for dec y d tn) = ACCEPTED c orig \<longrightarrow>
      (\<forall>z \<in> set (payouts db). y_originatorConversationId z \<noteq> Some orig)"
  shows "\<exists>z db'. dispatchSettlement api dec (y_id y) db = (Inr z, db') \<and> gateway_ok db' \<and> find_payout (y_id y) db' = Some z
    \<and> y_status z = (if not_sent (initiateSettlement (y_provider y) api (settlement_instruction_for dec y d tn)) then ST_FAILED else PROCESSING)
    \<and> (\<forall>t. availableMinor (getTenantBalance t db') = availableMinor (getTenantBalance t db)
         + (if t = y_tenantId y \<and> not_sent (initiateSettlement (y_provider y) api (settlement_instruction_for dec y d tn)) then y_amountMinor y else 0))
    \<and> (\<forall>api2. dispatchSettlement api2 dec (y_id y) db' = (Inr z, db'))"
proof -
  obtain z db' where z: "dispatchSettlement api dec (y_id y) db = (Inr z, db')" "gateway_ok db'" "find_payout (y_id y) db' = Some z"
    "y_status z = (if not_sent (initiateSettlement (y_provider y) api (settlement_instruction_for dec y d tn)) then ST_FAILED else PROCESSING)"
    "\<forall>t. availableMinor (getTenantBalance t db') = availableMinor (getTenantBalance t db)
         + (if t = y_tenantId y \<and> not_sent (initiateSettlement (y_provider y) api (settlement_instruction_for dec y d tn)) then y_amountMinor y else 0)"
    by (rule dispatch_spec [OF assms(1-5)]) (use assms(6) in auto)
  have "y_status z \<noteq> REQUESTED" using z(4) by simp
  then have "dispatchSettlement api2 dec (y_id y) db' = (Inr z, db')" for api2 by (rule dispatch_again [OF z(2,3)])
  with z show ?thesis by blast
qed

definition sample_api :: provider_api where
  "sample_api = \<lparr>api_b2b = (\<lambda>_. Raised False ''timeout''), api_b2c = (\<lambda>_. Acknowledged None ''AG7''), api_uuid = ''1''\<rparr>"

theorem dispatch_restores_only_unsent_witness:
  "\<exists>z db'. dispatchSettlement sample_api id 3 sample_requested = (Inr z, db') \<and> y_status z = PROCESSING
     \<and> availableMinor (getTenantBalance 7 db') = availableMinor (getTenantBalance 7 sample_requested)"
proof -
  have y: "sample_payout \<in> set (payouts sample_requested)" "y_status sample_payout = REQUESTED" "y_id sample_payout = 3"
      "y_provider sample_payout = MPESA_B2B" "y_destinationId sample_payout = Some 2" "y_tenantId sample_payout = 7"
    by (simp_all add: sample_requested_def requested_db_def
      sample_payout_def new_payout_def Let_def providerForDestination_def provider_automatic_def sample_destination_def
      new_destination_def shortcode_details_def empty_details_def sample_tenant_def sandboxSettlementsEnabled_def default_settings_def
      sample_with_destination_def sample_request_def sample_funded_def sample_collected_def after_collection_def)
  have d: "List.find (\<lambda>d. Some (d_id d) = y_destinationId sample_payout) (destinations sample_requested) = Some sample_destination"
    by (simp add: y sample_requested_def requested_db_def sample_with_destination_def sample_destination_def new_destination_def)
  have t: "List.find (\<lambda>t. t_id t = y_tenantId sample_payout) (tenants sample_requested) = Some sample_tenant"
    by (simp add: y sample_requested_def requested_db_def sample_with_destination_def) (simp add: sample_tenant_def)
  have a: "\<exists>m. initiateSettlement (y_provider sample_payout) sample_api (settlement_instruction_for id sample_payout sample_destination sample_tenant)
      = THREW (SettlementOutcomeUnknownError m)"
    by (simp add: y mpesaB2B_initiate_def sample_api_def classifyDarajaError_def starts_with_def settlement_instruction_for_def
        destinationDetails_def sample_destination_def new_destination_def shortcode_details_def empty_details_def sample_tenant_def or_empty_def)
  then show ?thesis
    using dispatch_restores_only_unsent [OF sample_requested_ok y(1,2) d t, of sample_api id] y(3)
    by (auto simp: not_sent_def)
qed

end
