(* ===== verification/GatewaySystem.thy ===== *)
theory GatewaySystem
  imports Settlements
begin

text \<open>
  All the gateway's transactions together. \<open>gw_step\<close> is one transaction of any of them, in any
  order and for any input, with the provider's answers and the other services' writes in between;
  the invariant of \<open>GatewayInvariant\<close> holds in every reachable state. The abstract machine
  \<open>acct_step\<close> is what the ledger promises a tenant: money is earned, reserved, released, paid
  out or charged back, and every transaction is one of its steps or none.
\<close>

section \<open>The abstract account\<close>

record account =
  ac_available :: minor
  ac_reserved :: minor
  ac_paid :: minor

datatype money_event = Idle | Earn id minor | ChargeBack id minor | Reserve id minor | Release id minor | PayOut id minor

fun acct_step :: "(id \<Rightarrow> account) \<Rightarrow> money_event \<Rightarrow> (id \<Rightarrow> account) option" where
  "acct_step A Idle = Some A"
| "acct_step A (Earn t n) = (if 0 \<le> n then Some (A(t := (A t)\<lparr>ac_available := ac_available (A t) + n\<rparr>)) else None)"
| "acct_step A (ChargeBack t n) = Some (A(t := (A t)\<lparr>ac_available := ac_available (A t) - n\<rparr>))"
| "acct_step A (Reserve t n) =
     (if 0 < n \<and> n \<le> ac_available (A t)
      then Some (A(t := (A t)\<lparr>ac_available := ac_available (A t) - n, ac_reserved := ac_reserved (A t) + n\<rparr>)) else None)"
| "acct_step A (Release t n) =
     (if 0 < n \<and> n \<le> ac_reserved (A t)
      then Some (A(t := (A t)\<lparr>ac_available := ac_available (A t) + n, ac_reserved := ac_reserved (A t) - n\<rparr>)) else None)"
| "acct_step A (PayOut t n) =
     (if 0 < n \<and> n \<le> ac_reserved (A t)
      then Some (A(t := (A t)\<lparr>ac_reserved := ac_reserved (A t) - n, ac_paid := ac_paid (A t) + n\<rparr>)) else None)"

definition account_of :: "'x gateway_db_scheme \<Rightarrow> id \<Rightarrow> account" where
  "account_of db t = \<lparr>ac_available = availableMinor (getTenantBalance t db),
     ac_reserved = pendingSettlementMinor (getTenantBalance t db), ac_paid = settledMinor (getTenantBalance t db)\<rparr>"

section \<open>What a transaction may do\<close>

text \<open>No payout is deleted, its owner and amount never change, and a final status is final.\<close>

definition same_payout :: "payout \<Rightarrow> payout \<Rightarrow> bool" where
  "same_payout y z \<longleftrightarrow> y_id z = y_id y \<and> y_tenantId z = y_tenantId y \<and> y_amountMinor z = y_amountMinor y
     \<and> (is_final (y_status y) \<longrightarrow> y_status z = y_status y)"

definition payouts_evolve :: "payout list \<Rightarrow> payout list \<Rightarrow> bool" where
  "payouts_evolve ys zs \<longleftrightarrow> (\<exists>h new. zs = map h ys @ new \<and> (\<forall>y \<in> set ys. same_payout y (h y)))"

definition good_step :: "'x gateway_db_scheme \<Rightarrow> 'x gateway_db_scheme \<Rightarrow> bool" where
  "good_step db db' \<longleftrightarrow> gateway_ok db' \<and> payouts_evolve (payouts db) (payouts db')
     \<and> (\<exists>ev. acct_step (account_of db) ev = Some (account_of db'))"

lemma same_payout_refl [simp]: "same_payout y y"
  by (simp add: same_payout_def)

lemma payouts_evolve_refl [simp]: "payouts_evolve ys ys"
  unfolding payouts_evolve_def by (rule exI [of _ "\<lambda>y. y"], rule exI [of _ "[]"]) simp

lemma payouts_evolve_append: "payouts_evolve ys (ys @ zs)"
  unfolding payouts_evolve_def by (rule exI [of _ "\<lambda>y. y"], rule exI [of _ zs]) simp

lemma same_payout_trans: "same_payout x y \<Longrightarrow> same_payout y z \<Longrightarrow> same_payout x z"
  by (auto simp: same_payout_def)

lemma payouts_evolve_trans:
  assumes "payouts_evolve xs ys" "payouts_evolve ys zs"
  shows "payouts_evolve xs zs"
proof -
  obtain h new where h: "ys = map h xs @ new" "\<forall>x \<in> set xs. same_payout x (h x)" using assms(1) by (auto simp: payouts_evolve_def)
  obtain k more where k: "zs = map k ys @ more" "\<forall>y \<in> set ys. same_payout y (k y)" using assms(2) by (auto simp: payouts_evolve_def)
  have "zs = map (k \<circ> h) xs @ (map k new @ more)" "\<forall>x \<in> set xs. same_payout x ((k \<circ> h) x)"
    using h k by (auto intro: same_payout_trans)
  then show ?thesis unfolding payouts_evolve_def by blast
qed

lemma payouts_evolve_update:
  assumes "\<And>y. y \<in> set ys \<Longrightarrow> q y \<Longrightarrow> same_payout y (f y)"
  shows "payouts_evolve ys (update_where q f ys)"
  unfolding payouts_evolve_def
  by (rule exI [of _ "\<lambda>y. if q y then f y else y"], rule exI [of _ "[]"]) (use assms in \<open>auto simp: update_where_def\<close>)

lemma payouts_evolve_row:
  assumes "distinct (map y_id ys)" "y \<in> set ys" "same_payout y (f y)"
  shows "payouts_evolve ys (update_where (\<lambda>x. y_id x = y_id y) f ys)"
  by (rule payouts_evolve_update) (use key_eq_rows [OF assms(1) _ assms(2)] assms(3) in blast)

text \<open>A transaction that leaves the ledger and every payout's stage alone.\<close>

definition stage :: "settlement_status \<Rightarrow> nat" where
  "stage s = (if in_flight s then 0 else if s = SETTLED then 1 else 2)"

lemma stage_eq: "stage s = stage s' \<longleftrightarrow> in_flight s = in_flight s' \<and> (s = SETTLED) = (s' = SETTLED)"
  by (auto simp: stage_def in_flight_def)

lemma good_quiet:
  assumes ok: "gateway_ok db'" and l: "ledgerEntries db' = ledgerEntries db"
    and p: "payouts db' = update_where q f (payouts db)"
    and f: "\<And>y. y \<in> set (payouts db) \<Longrightarrow> q y \<Longrightarrow> same_payout y (f y) \<and> stage (y_status (f y)) = stage (y_status y)"
  shows "good_step db db'"
proof -
  have s: "sum_payouts t P (payouts db') = sum_payouts t P (payouts db)" if "P = in_flight \<or> P = (\<lambda>s. s = SETTLED)" for t P
  proof -
    have "y_tenantId (f y) = y_tenantId y \<and> y_amountMinor (f y) = y_amountMinor y \<and> P (y_status (f y)) = P (y_status y)"
      if "y \<in> set (payouts db)" "q y" for y
      using f [OF that] \<open>P = in_flight \<or> _\<close> by (auto simp: same_payout_def stage_eq)
    then show ?thesis
      unfolding sum_payouts_def sum_where_def p update_where_def map_map
      by (intro arg_cong [where f = sum_list] map_cong) auto
  qed
  have "account_of db' = account_of db"
    by (rule ext) (simp add: account_of_def getTenantBalance_def Let_def l s)
  then have "acct_step (account_of db) Idle = Some (account_of db')" by simp
  moreover have "payouts_evolve (payouts db) (payouts db')" unfolding p by (rule payouts_evolve_update) (use f in blast)
  ultimately show ?thesis using ok unfolding good_step_def by blast
qed

lemma good_nothing:
  "gateway_ok db' \<Longrightarrow> ledgerEntries db' = ledgerEntries db \<Longrightarrow> payouts db' = payouts db \<Longrightarrow> good_step db db'"
  by (rule good_quiet [where q = "\<lambda>_. False" and f = "\<lambda>y. y"]) (simp_all add: update_where_def)

lemma payout_sum_change:
  assumes "distinct (map y_id ys)" "y \<in> set ys" "y_tenantId (f y) = y_tenantId y" "y_amountMinor (f y) = y_amountMinor y"
  shows "sum_payouts t P (update_where (\<lambda>x. y_id x = y_id y) f ys) = sum_payouts t P ys
    + (if y_tenantId y = t then (if P (y_status (f y)) then y_amountMinor y else 0) - (if P (y_status y) then y_amountMinor y else 0) else 0)"
  unfolding sum_payouts_def using assms by (simp add: sum_where_update [OF assms(1,2) refl])

lemma reserved_covers:
  assumes ok: "gateway_ok db" and y: "y \<in> set (payouts db)" "in_flight (y_status y)"
  shows "0 < y_amountMinor y" and "y_amountMinor y \<le> pendingSettlementMinor (getTenantBalance (y_tenantId y) db)"
proof -
  have pos: "0 < y_amountMinor z" if "z \<in> set (payouts db)" for z using ok that by (simp add: gateway_ok_def payouts_ok_def)
  show "0 < y_amountMinor y" by (rule pos [OF y(1)])
  define c where "c = y\<lparr>y_status := CANCELLED\<rparr>"
  have "sum_payouts (y_tenantId y) in_flight (update_where (\<lambda>x. y_id x = y_id y) (\<lambda>x. x\<lparr>y_status := CANCELLED\<rparr>) (payouts db)) =
      sum_payouts (y_tenantId y) in_flight (payouts db) - y_amountMinor y"
    using payout_sum_change [OF gateway_ok_payouts [OF ok] y(1), of "\<lambda>x. x\<lparr>y_status := CANCELLED\<rparr>" "y_tenantId y" in_flight] y(2)
    by (simp add: in_flight_def)
  moreover have "0 \<le> sum_payouts (y_tenantId y) in_flight (update_where (\<lambda>x. y_id x = y_id y) (\<lambda>x. x\<lparr>y_status := CANCELLED\<rparr>) (payouts db))"
    unfolding sum_payouts_def by (rule sum_where_nonneg) (auto simp: set_update_where dest!: pos)
  ultimately show "y_amountMinor y \<le> pendingSettlementMinor (getTenantBalance (y_tenantId y) db)"
    by (simp add: getTenantBalance_def Let_def)
qed

lemma good_give_back:
  assumes ok: "gateway_ok db" and y: "y \<in> set (payouts db)" "in_flight (y_status y)" and f: "gives_back f y"
  shows "good_step db (given_back_db f y d u db)"
proof -
  let ?db = "given_back_db f y d u db"
  have ng: "\<not> given_back (y_status y)" using y(2) by (auto simp: in_flight_def given_back_def)
  have f': "y_id (f y) = y_id y" "y_tenantId (f y) = y_tenantId y" "y_amountMinor (f y) = y_amountMinor y" "\<not> in_flight (y_status (f y))" "y_status (f y) \<noteq> SETTLED"
    using f by (auto simp: gives_back_def given_back_def in_flight_def)
  have d: "distinct (map y_id (payouts db))" by (rule gateway_ok_payouts [OF ok])
  have p: "payouts ?db = update_where (\<lambda>x. y_id x = y_id y) f (payouts db)" by (simp add: given_back_db_def)
  have "y_status y \<noteq> SETTLED" using y(2) by (auto simp: in_flight_def)
  then have "account_of ?db = (account_of db)(y_tenantId y := (account_of db (y_tenantId y))
      \<lparr>ac_available := ac_available (account_of db (y_tenantId y)) + y_amountMinor y,
       ac_reserved := ac_reserved (account_of db (y_tenantId y)) - y_amountMinor y\<rparr>)"
    using payout_sum_change [where f = f, OF d y(1) f'(2,3)] y(2) f' given_back_balance [OF f, where db = db]
    by (intro ext) (simp add: account_of_def getTenantBalance_def Let_def p)
  then have "acct_step (account_of db) (Release (y_tenantId y) (y_amountMinor y)) = Some (account_of ?db)"
    using reserved_covers [OF ok y] by (simp add: account_of_def)
  moreover have "payouts_evolve (payouts db) (payouts ?db)" unfolding p
    by (rule payouts_evolve_row [OF d y(1)]) (use f' y(2) in \<open>auto simp: same_payout_def is_final_def in_flight_def\<close>)
  ultimately show ?thesis using restore_runs(2) [OF ok y(1) ng f] unfolding good_step_def by blast
qed


lemma good_settled:
  assumes ok: "gateway_ok db" and y: "y \<in> set (payouts db)" "y_status y = PROCESSING"
  shows "good_step db (snd (markSettledTx y data db))"
proof -
  let ?db = "snd (markSettledTx y data db)" and ?f = "settled_payout data (clock db)"
  have d: "distinct (map y_id (payouts db))" by (rule gateway_ok_payouts [OF ok])
  have p: "payouts ?db = update_where (\<lambda>x. y_id x = y_id y) ?f (payouts db)" and l: "ledgerEntries ?db = ledgerEntries db"
    by (simp_all add: markSettledTx_def Let_def update_payout_def)
  have f: "y_id (?f x) = y_id x" "y_tenantId (?f x) = y_tenantId x" "y_amountMinor (?f x) = y_amountMinor x" "y_status (?f x) = SETTLED" for x
    by (simp_all add: settled_payout_def)
  have i: "in_flight (y_status y)" using y(2) by (simp add: in_flight_def)
  have "account_of ?db = (account_of db)(y_tenantId y := (account_of db (y_tenantId y))
      \<lparr>ac_reserved := ac_reserved (account_of db (y_tenantId y)) - y_amountMinor y,
       ac_paid := ac_paid (account_of db (y_tenantId y)) + y_amountMinor y\<rparr>)"
    using payout_sum_change [where f = ?f, OF d y(1) f(2,3)] y(2) f i
    by (intro ext) (simp add: account_of_def getTenantBalance_def Let_def p l in_flight_def)
  then have "acct_step (account_of db) (PayOut (y_tenantId y) (y_amountMinor y)) = Some (account_of ?db)"
    using reserved_covers [OF ok y(1) i] by (simp add: account_of_def)
  moreover have "payouts_evolve (payouts db) (payouts ?db)" unfolding p
    by (rule payouts_evolve_row [OF d y(1)]) (simp add: same_payout_def is_final_def f y(2))
  moreover have "gateway_ok ?db" by (rule markSettledTx_keeps [OF ok y(1)]) (simp add: y(2) given_back_def)
  ultimately show ?thesis unfolding good_step_def by blast
qed

lemma good_request:
  assumes ok: "gateway_ok db" and run: "create_settlement inp db = Inr (y, db')"
  shows "good_step db db'"
proof -
  obtain tn d db1 where res: "resolve_destination tn db = Inr (Some d, db1)"
    and y: "y = new_payout inp d (settleableMinor (getTenantBalance (rq_tenantId inp) db)) db1" and db': "db' = requested_db y db1"
    and pos: "0 < y_amountMinor y" and ok': "gateway_ok db'"
    by (rule create_settlement_spec [OF ok run])
  obtain ds n where db1: "db1 = db\<lparr>destinations := ds, nextId := n\<rparr>" by (rule resolve_destination_frame [OF res])
  have f: "y_tenantId y = rq_tenantId inp" "y_amountMinor y = settleableMinor (getTenantBalance (rq_tenantId inp) db)" "queued (y_status y)"
    by (simp_all add: y new_payout_def Let_def queued_def)
  have st: "in_flight (y_status y)" "y_status y \<noteq> SETTLED" using f(3) by (auto simp: queued_def in_flight_def)
  have p: "payouts db' = payouts db @ [y]" by (simp add: db' requested_db_def db1)
  have "account_of db' = (account_of db)(y_tenantId y := (account_of db (y_tenantId y))
      \<lparr>ac_available := ac_available (account_of db (y_tenantId y)) - y_amountMinor y,
       ac_reserved := ac_reserved (account_of db (y_tenantId y)) + y_amountMinor y\<rparr>)"
    using st by (intro ext) (simp add: account_of_def getTenantBalance_def Let_def db' requested_db_def db1 settlement_entry_def sum_payouts_def)
  then have "acct_step (account_of db) (Reserve (y_tenantId y) (y_amountMinor y)) = Some (account_of db')"
    using settleable_bounds(1) [OF pos [unfolded f(2)]] pos f by (simp add: account_of_def)
  then show ?thesis using ok' payouts_evolve_append unfolding good_step_def p by blast
qed

lemma good_collect:
  assumes ok: "gateway_ok db" and run: "recordPlatformCollection inp db = Inr ((g, new), db')"
  shows "good_step db db'"
proof (cases new)
  case False
  then have "db' = db" using run unfolding recordPlatformCollection_def
    by (auto simp: Let_def split: option.splits sum.splits prod.splits if_splits)
  then show ?thesis using good_nothing [OF ok] by simp
next
  case True
  have run': "recordPlatformCollection inp db = Inr ((g, True), db')" using run True by simp
  have "journal_ok (nextId db) (ledgerEntries db)" using ok by (simp add: gateway_ok_def)
  then have p: "payouts db' = payouts db" by (rule collection_spec [OF run']) (simp add: after_collection_def)
  have "account_of db' = (account_of db)(ci_tenantId inp := (account_of db (ci_tenantId inp))
      \<lparr>ac_available := ac_available (account_of db (ci_tenantId inp)) + g_netMinor g\<rparr>)"
    using collection_balance(3) [OF ok run'] by (intro ext) (simp add: account_of_def getTenantBalance_def Let_def p)
  then have "acct_step (account_of db) (Earn (ci_tenantId inp) (g_netMinor g)) = Some (account_of db')"
    using collection_balance(6) [OF ok run'] by simp
  then show ?thesis using collection_keeps_gateway_ok [OF ok run] unfolding good_step_def p by (metis payouts_evolve_refl)
qed

lemma account_billing_step: "billing_step db db' \<Longrightarrow> account_of db' = account_of db"
  by (rule ext) (simp add: account_of_def balance_billing_step)

lemma good_refund:
  assumes ok: "gateway_ok db" and run: "recordGatewayRefundTx inp db = Inr ((r, g), db')"
  shows "good_step db db'"
proof -
  obtain txn where fit: "refund_fits r txn db" and st: "billing_step (after_refund r txn db) db'"
    by (rule record_refund_spec [OF ok run])
  have p: "payouts db' = payouts db" using billing_step_fields(6) [OF st] by (simp add: after_refund_def)
  have "account_of (after_refund r txn db) = (account_of db)(gr_tenantId r := (account_of db (gr_tenantId r))
      \<lparr>ac_available := ac_available (account_of db (gr_tenantId r)) - (gr_amountMinor r - gr_feeReturnedMinor r)\<rparr>)"
    using after_refund_balance [OF fit]
    by (intro ext) (simp add: account_of_def, simp add: getTenantBalance_def Let_def after_refund_def)
  then have "acct_step (account_of db) (ChargeBack (gr_tenantId r) (gr_amountMinor r - gr_feeReturnedMinor r)) = Some (account_of db')"
    by (simp add: account_billing_step [OF st])
  moreover have "gateway_ok db'" using gateway_refund_spec [OF ok run] by blast
  ultimately show ?thesis unfolding good_step_def p by (metis payouts_evolve_refl)
qed

lemma good_fail:
  assumes ok: "gateway_ok db" and run: "failSettlement i reason extra db = Inr (z, db')"
  shows "good_step db db'"
proof -
  obtain y where l: "lockSettlement i db = Inr y" using run by (auto simp: failSettlement_def split: sum.splits)
  have y: "y \<in> set (payouts db)" using lockSettlementD [OF l] by simp
  show ?thesis
  proof (cases "is_final (y_status y)")
    case True
    then have "db' = db" using run l by (simp add: failSettlement_def)
    then show ?thesis using good_nothing [OF ok] by simp
  next
    case False
    then have i: "in_flight (y_status y)" by (cases "y_status y") (auto simp: is_final_def in_flight_def)
    then have ng: "\<not> given_back (y_status y)" by (auto simp: in_flight_def given_back_def)
    show ?thesis
      using run l False failSettlementTx_runs [OF ok y ng, of reason extra] good_give_back [OF ok y i failed_gives_back]
      by (auto simp: failSettlement_def)
  qed
qed

lemma good_update:
  assumes ok: "gateway_ok db'" and db': "db' = update_payout i f db"
    and f: "\<And>y. y \<in> set (payouts db) \<Longrightarrow> y_id y = i \<Longrightarrow> same_payout y (f y) \<and> stage (y_status (f y)) = stage (y_status y)"
  shows "good_step db db'"
  by (rule good_quiet [OF ok, where q = "\<lambda>y. y_id y = i" and f = f]) (use f in \<open>simp_all add: db' update_payout_def\<close>)


section \<open>The system\<close>

text \<open>
  One committed transaction. \<open>Billing\<close> is any transaction of the billing services and the passing
  of time; \<open>Environment\<close> is the calendar day, the users and the platform configuration; \<open>Answered\<close>
  is whatever a provider answers, whenever it arrives.
\<close>

inductive gw_step :: "'x gateway_db_scheme \<Rightarrow> 'x gateway_db_scheme \<Rightarrow> bool" where
  Billing: "billing_step db db' \<Longrightarrow> gw_step db db'"
| Environment: "gw_step db (db\<lparr>businessDay := day, userPhones := ups, mpesaProduction := live, nodeEnv := env, sandboxFlag := flag\<rparr>)"
| Collect: "recordPlatformCollection inp db = Inr (out, db') \<Longrightarrow> gw_step db db'"
| Receipt: "gw_step db (upgradeProvisionalReceipt p rc db)"
| Refund: "recordGatewayRefundTx ri db = Inr (ro, db') \<Longrightarrow> gw_step db db'"
| RefundDone: "completeGatewayRefund i ref u db = Inr (r, db') \<Longrightarrow> gw_step db db'"
| Settings: "updateSettlementSettings si u db = Inr (s, db') \<Longrightarrow> gw_step db db'"
| Slot: "gw_step db (snd (claim_slot s now db))"
| Destination: "setActiveDestination enc t di u db = Inr (o', db') \<Longrightarrow> gw_step db db'"
| Request: "create_settlement rq db = Inr (y, db') \<Longrightarrow> gw_step db db'"
| Claim: "gw_step db (snd (claim_dispatch i db))"
| Answered: "finish_dispatch y answer db = Inr (z, db') \<Longrightarrow> gw_step db db'"
| Failed: "failSettlement i reason extra db = Inr (z, db') \<Longrightarrow> gw_step db db'"
| Result: "applySettlementResult sr db = Inr (o2, db') \<Longrightarrow> gw_step db db'"
| TimedOut: "gw_step db (snd (markSettlementTimedOut c db))"
| Approve: "approve_tx i u db = Inr (y, db') \<Longrightarrow> gw_step db db'"
| Cancel: "cancelSettlement i reason u db = Inr (y, db') \<Longrightarrow> gw_step db db'"
| Resolve: "resolveSettlement i rv u db = Inr (y, db') \<Longrightarrow> gw_step db db'"

inductive gw_steps :: "'x gateway_db_scheme \<Rightarrow> 'x gateway_db_scheme \<Rightarrow> bool" where
  gw_refl: "gw_steps db db"
| gw_more: "gw_steps db db1 \<Longrightarrow> gw_step db1 db2 \<Longrightarrow> gw_steps db db2"

lemma gw_steps_one: "gw_step db db' \<Longrightarrow> gw_steps db db'"
  by (rule gw_more [OF gw_refl])

lemma gw_steps_trans: "gw_steps b c \<Longrightarrow> gw_steps a b \<Longrightarrow> gw_steps a c"
  by (induction rule: gw_steps.induct) (auto intro: gw_more)

lemma good_approve: "gateway_ok db \<Longrightarrow> approve_tx i u db = Inr (y, db') \<Longrightarrow> good_step db db'"
proof -
  assume ok: "gateway_ok db" and run: "approve_tx i u db = Inr (y, db')"
  define f where "f = (\<lambda>y. if provider_automatic (y_provider y)
      then y\<lparr>y_approvedByUserId := Some u, y_approvedAt := Some (clock db), y_status := REQUESTED\<rparr>
      else (y::payout)\<lparr>y_approvedByUserId := Some u, y_approvedAt := Some (clock db), y_status := PROCESSING,
             y_processingStartedAt := Some (clock db)\<rparr>)"
  obtain x where x: "x \<in> set (payouts db)" "y_id x = i" "y_status x = AWAITING_APPROVAL" "db' = update_payout i f db"
    using run by (auto simp: approve_tx_def Let_def f_def split: sum.splits if_splits dest!: lockSettlementD)
  show "good_step db db'"
  proof (rule good_update [OF approve_keeps [OF ok run] x(4)])
    fix z assume z: "z \<in> set (payouts db)" "y_id z = i"
    have "z = x" using key_eq_rows [OF gateway_ok_payouts [OF ok] z(1) x(1)] x(2) z(2) by simp
    then show "same_payout z (f z) \<and> stage (y_status (f z)) = stage (y_status z)"
      using x(3) by (simp add: f_def same_payout_def is_final_def stage_def in_flight_def)
  qed
qed

lemma good_claim: "gateway_ok db \<Longrightarrow> good_step db (snd (claim_dispatch i db))"
  by (rule good_quiet [OF claim_dispatch_keeps, where q = "\<lambda>y. y_id y = i \<and> y_status y = REQUESTED"
        and f = "\<lambda>y. y\<lparr>y_status := PROCESSING, y_processingStartedAt := Some (clock db)\<rparr>"])
    (auto simp: claim_dispatch_def Let_def same_payout_def is_final_def stage_def in_flight_def)

lemma good_answer: "gateway_ok db \<Longrightarrow> finish_dispatch y answer db = Inr (z, db') \<Longrightarrow> good_step db db'"
proof -
  assume ok: "gateway_ok db" and run: "finish_dispatch y answer db = Inr (z, db')"
  have upd: "good_step db db'" if "db' = update_payout (y_id y) f db" "\<And>y. same_payout y (f y) \<and> y_status (f y) = y_status y" for f
    by (rule good_update [OF finish_dispatch_keeps [OF ok run] that(1)]) (use that(2) in simp)
  show "good_step db db'"
  proof (cases answer)
    case (ACCEPTED c orig)
    then have "db' = update_payout (y_id y) (\<lambda>y. y\<lparr>y_conversationId := c, y_originatorConversationId := Some orig\<rparr>) db"
      using run by (auto simp: finish_dispatch_def set_conversation_def split: if_splits option.splits)
    then show ?thesis by (rule upd) (simp add: same_payout_def)
  next
    case MANUAL_RESULT
    then have "db' = db" using run by (simp add: finish_dispatch_def)
    then show ?thesis using good_nothing [OF ok] by simp
  next
    case (THREW e)
    have noted: "good_step db db'" if "note_unknown (y_id y) m db = Inr (z, db')" for m
    proof (rule upd)
      show "db' = update_payout (y_id y) (\<lambda>y. y\<lparr>y_failureReason := Some m,
          y_notes := Some (''Outcome unknown '' @ em_dash @ '' confirm with the provider, then resolve.'')\<rparr>) db"
        using that by (auto simp: note_unknown_def Let_def split: option.splits)
    qed (simp add: same_payout_def)
    show ?thesis using run THREW good_fail [OF ok] noted by (cases e) (auto simp: finish_dispatch_def)
  qed
qed

lemma good_result:
  assumes ok: "gateway_ok db" and run: "applySettlementResult sr db = Inr (out, db')"
  shows "good_step db db'"
proof -
  obtain o' s where "out = (o', s)" by (cases out)
  with run have "applySettlementResult sr db = Inr ((o', s), db')" by simp
  then show ?thesis
  proof (cases rule: applySettlementResult_cases)
    case (settled y)
    then show ?thesis using good_settled [OF ok] lockSettlementD [OF settled(2)] by simp
  next
    case (failed y reason extra z)
    have y: "y \<in> set (payouts db)" "in_flight (y_status y)" "\<not> given_back (y_status y)"
      using lockSettlementD [OF failed(2)] failed(3) by (simp_all add: in_flight_def given_back_def)
    show ?thesis
      using failed(7) failSettlementTx_runs [OF ok y(1,3), of reason extra] good_give_back [OF ok y(1,2) failed_gives_back]
      by auto
  qed (use good_nothing [OF ok] in simp_all)
qed

lemma good_timeout: "gateway_ok db \<Longrightarrow> good_step db (snd (markSettlementTimedOut c db))"
proof -
  assume ok: "gateway_ok db"
  define f where "f = (\<lambda>y::payout. y\<lparr>y_timedOutAt := Some (clock db), y_notes := Some (''M-Pesa reported a queue timeout '' @ em_dash
                    @ '' confirm the transfer status with Safaricom, then resolve.'')\<rparr>)"
  have "snd (markSettlementTimedOut c db) = db \<or> (\<exists>i. snd (markSettlementTimedOut c db) = update_payout i f db)"
    by (auto simp: markSettlementTimedOut_def Let_def f_def split: option.split)
  then show ?thesis
  proof (elim disjE exE)
    fix i assume i: "snd (markSettlementTimedOut c db) = update_payout i f db"
    show ?thesis by (rule good_update [OF markSettlementTimedOut_keeps [OF ok] i]) (simp add: f_def same_payout_def)
  qed (use good_nothing [OF ok] in simp)
qed

lemma good_resolve:
  assumes ok: "gateway_ok db" and run: "resolveSettlement i rv u db = Inr (z, db')"
  shows "good_step db db'"
proof -
  obtain y where l: "lockSettlement i db = Inr y" and st: "y_status y = PROCESSING"
    using run by (auto simp: resolveSettlement_def split: if_splits sum.splits)
  have y: "y \<in> set (payouts db)" "in_flight (y_status y)" "\<not> given_back (y_status y)"
    using lockSettlementD [OF l] st by (simp_all add: in_flight_def given_back_def)
  show ?thesis
  proof (cases "rv_settled rv")
    case True
    then obtain data where "markSettledTx y data db = (z, db')"
      using run l st by (auto simp: resolveSettlement_def split: if_splits)
    then show ?thesis using good_settled [OF ok y(1) st, of data] by simp
  next
    case False
    then obtain reason extra where "failSettlementTx y reason extra db = Inr (z, db')"
      using run l st by (auto simp: resolveSettlement_def split: if_splits)
    then show ?thesis
      using failSettlementTx_runs [OF ok y(1,3), of reason extra] good_give_back [OF ok y(1,2) failed_gives_back] by auto
  qed
qed

lemma good_cancel:
  assumes ok: "gateway_ok db" and run: "cancelSettlement i reason u db = Inr (z, db')"
  shows "good_step db db'"
proof -
  obtain y f where y: "y \<in> set (payouts db)" "queued (y_status y)" and g: "gives_back f y"
    and db': "db' = given_back_db f y (''Settlement '' @ y_settlementNumber y @ '' cancelled '' @ em_dash @ '' balance restored'') (Some u) db"
    by (rule cancel_runs [OF ok run])
  have "in_flight (y_status y)" using y(2) by (auto simp: queued_def in_flight_def)
  then show ?thesis unfolding db' by (rule good_give_back [OF ok y(1) _ g])
qed

lemma good_destination:
  assumes ok: "gateway_ok db" and run: "setActiveDestination enc t inp u db = Inr (o', db')"
  shows "good_step db db'"
proof -
  obtain ds n where "db' = db\<lparr>destinations := ds, nextId := n\<rparr>" "nextId db \<le> n"
    using run by (auto simp: setActiveDestination_def Let_def split: sum.splits option.splits dest!: insert_destination_frame)
  then show ?thesis using gateway_ok_nextId [OF ok] by (intro good_nothing) simp_all
qed

lemma gw_step_good:
  assumes "gw_step db db'" and ok: "gateway_ok db"
  shows "good_step db db'"
  using assms(1)
proof cases
  case Billing
  then show ?thesis
    using gateway_ok_billing_step [OF ok] by (intro good_nothing) (simp_all add: billing_step_fields)
next
  case (Environment day ups live env flag)
  show ?thesis by (rule good_nothing) (use ok Environment in \<open>simp_all add: gateway_ok_def\<close>)
next
  case (Collect inp out)
  then show ?thesis using good_collect [OF ok] by (cases out) auto
next
  case (Receipt p rc)
  then show ?thesis using upgradeProvisionalReceipt_keeps [OF ok] by (intro good_nothing) (simp_all add: upgradeProvisionalReceipt_def)
next
  case (Refund ri ro)
  then show ?thesis using good_refund [OF ok] by (cases ro) auto
next
  case (RefundDone i ref u r)
  then show ?thesis using completeGatewayRefund_keeps [OF ok]
    by (intro good_nothing) (auto simp: completeGatewayRefund_def Let_def split: if_splits option.splits)
next
  case (Settings si u s)
  then show ?thesis using ok
    by (intro good_nothing) (auto simp: updateSettlementSettings_def Let_def gateway_ok_def split: if_splits)
next
  case (Slot s now)
  then show ?thesis using ok by (intro good_nothing) (simp_all add: claim_slot_def gateway_ok_def)
next
  case (Destination enc t di u o')
  then show ?thesis by (intro good_destination [OF ok])
next
  case (Request rq y)
  then show ?thesis by (intro good_request [OF ok])
next
  case (Claim i)
  then show ?thesis using good_claim [OF ok] by simp
next
  case (Answered y answer z)
  then show ?thesis by (intro good_answer [OF ok])
next
  case (Failed i reason extra z)
  then show ?thesis by (intro good_fail [OF ok])
next
  case (Result sr o2)
  then show ?thesis by (intro good_result [OF ok])
next
  case (TimedOut c)
  then show ?thesis using good_timeout [OF ok] by simp
next
  case (Approve i u y)
  then show ?thesis by (intro good_approve [OF ok])
next
  case (Cancel i reason u y)
  then show ?thesis by (intro good_cancel [OF ok])
next
  case (Resolve i rv u y)
  then show ?thesis by (intro good_resolve [OF ok])
qed


text \<open>From a gateway that has recorded nothing yet.\<close>

definition gateway_fresh :: "'x gateway_db_scheme \<Rightarrow> bool" where
  "gateway_fresh db \<longleftrightarrow> ledgerEntries db = [] \<and> gatewayTxns db = [] \<and> gatewayRefunds db = [] \<and> payouts db = []"

lemma gateway_fresh_ok: "gateway_fresh db \<Longrightarrow> gateway_ok db"
  by (simp add: gateway_fresh_def gateway_ok_def journal_ok_def txns_ok_def refunds_ok_def payouts_ok_def
      linked_def collected_sums_def refund_sums_def payout_sums_def covered_def sum_payouts_def txn_sum_def refund_sum_def)

lemma gw_steps_ok:
  "gw_steps db db' \<Longrightarrow> gateway_ok db \<Longrightarrow> gateway_ok db' \<and> payouts_evolve (payouts db) (payouts db')"
proof (induction rule: gw_steps.induct)
  case (gw_more db db1 db2)
  then show ?case using gw_step_good [of db1 db2] by (auto simp: good_step_def intro: payouts_evolve_trans)
qed simp

lemmas reachable_ok = gw_steps_ok [OF _ gateway_fresh_ok, THEN conjunct1]

section \<open>The entry points are sequences of steps\<close>

lemma commit_steps: "(\<And>x d. r = Inr (x, d) \<Longrightarrow> gw_steps db d) \<Longrightarrow> gw_steps db (snd (commit r db))"
  by (auto simp: commit_def gw_refl split: sum.split)

lemma dispatch_steps: "gw_steps db (snd (dispatchSettlement api dec i db))"
proof -
  obtain c db1 where c: "claim_dispatch i db = (c, db1)" by (cases "claim_dispatch i db")
  then have s: "gw_steps db db1" using gw_step.Claim [of db i] gw_steps_one by fastforce
  have "gw_steps db1 (snd (commit (finish_dispatch y a db1) db1))" for y a
    by (rule commit_steps) (blast intro: gw_steps_one gw_step.Answered)
  moreover have "gw_steps db1 (snd (commit (failSettlement i m no_extra db1) db1))" for m
    by (rule commit_steps) (blast intro: gw_steps_one gw_step.Failed)
  ultimately have "gw_steps db1 (snd (dispatchSettlement api dec i db))"
    by (auto simp: dispatchSettlement_def c gw_refl split: option.split prod.split)
  then show ?thesis using s by (rule gw_steps_trans)
qed

lemma request_steps: "gw_steps db (snd (requestSettlement api dec inp db))"
proof (cases "create_settlement inp db")
  case (Inr r)
  obtain y db1 where r: "r = (y, db1)" by (cases r)
  have "gw_steps db db1" by (rule gw_steps_one, rule gw_step.Request, rule Inr [unfolded r])
  then show ?thesis using dispatch_steps gw_steps_trans by (fastforce simp: requestSettlement_def Inr r)
qed (simp add: requestSettlement_def gw_refl)

lemma settle_all_steps: "gw_steps db (snd (settle_all api dec ts acc db))"
proof (induction ts arbitrary: acc db)
  case (Cons t ts)
  obtain r db1 where r: "requestSettlement api dec (automatic_request t) db = (r, db1)" by (cases "requestSettlement api dec (automatic_request t) db")
  have "gw_steps db db1" using request_steps [of db api dec "automatic_request t"] r by simp
  then show ?case using Cons.IH gw_steps_trans by (fastforce simp: r split: sum.split)
qed (simp add: gw_refl)

lemma entry_points_spec:
  "gw_steps db (snd (dispatchSettlement api dec i db)) \<and> gw_steps db (snd (requestSettlement api dec inp db))
   \<and> gw_steps db (snd (approveSettlement api dec i u db)) \<and> gw_steps db (snd (retrySettlement api dec i u db))
   \<and> gw_steps db (snd (runScheduledSettlements api dec settings now db)) \<and> gw_steps db (snd (settleTenantIfInstant api dec t db))"
proof (intro conjI)
  show "gw_steps db (snd (dispatchSettlement api dec i db))" by (rule dispatch_steps)
  show "gw_steps db (snd (requestSettlement api dec inp db))" by (rule request_steps)
  show "gw_steps db (snd (approveSettlement api dec i u db))"
  proof (cases "approve_tx i u db")
    case (Inr r)
    obtain y db1 where r: "r = (y, db1)" by (cases r)
    have "gw_steps db db1" by (rule gw_steps_one, rule gw_step.Approve, rule Inr [unfolded r])
    then show ?thesis using dispatch_steps gw_steps_trans by (fastforce simp: approveSettlement_def Inr r)
  qed (simp add: approveSettlement_def gw_refl)
  show "gw_steps db (snd (retrySettlement api dec i u db))"
    by (auto simp: retrySettlement_def gw_refl request_steps split: option.split)
  show "gw_steps db (snd (runScheduledSettlements api dec settings now db))"
  proof -
    have "gw_steps db (snd (claim_slot settings now db))" by (rule gw_steps_one, rule gw_step.Slot)
    then have "gw_steps db (snd (settle_all api dec ts acc (snd (claim_slot settings now db))))" for ts acc
      using settle_all_steps gw_steps_trans by blast
    then show ?thesis
      by (auto simp: runScheduledSettlements_def Let_def gw_refl claim_slot_def split: option.split)
  qed
  show "gw_steps db (snd (settleTenantIfInstant api dec t db))"
    using request_steps [of db api dec "automatic_request t"]
    by (auto simp: settleTenantIfInstant_def gw_refl split: prod.split sum.split)
qed

section \<open>Reconciliation\<close>

text \<open>
  The checks of gateway/reconciliation.service.ts over the tables of this model. A discrepancy is
  the row's identifier, tenant, reference and amount; its time and explanatory text are left out, and
  so are the orders of the lists.
\<close>

record discrepancy =
  dc_id :: id
  dc_tenantId :: id
  dc_tenantName :: string
  dc_reference :: string
  dc_amountMinor :: minor

record discrepancy_check =
  ck_code :: string
  ck_count :: nat
  ck_amountMinor :: minor
  ck_items :: "discrepancy list"

definition run_check :: "string \<Rightarrow> discrepancy list \<Rightarrow> discrepancy_check" where
  "run_check code rows = \<lparr>ck_code = code, ck_count = length rows, ck_amountMinor = sum_list (map dc_amountMinor rows),
     ck_items = take 100 rows\<rparr>"

text \<open>\<open>JOIN "tenants" t ON t."id" = r."tenantId"\<close>.\<close>

definition join_tenant :: "'x gateway_db_scheme \<Rightarrow> id \<Rightarrow> (string \<Rightarrow> discrepancy) \<Rightarrow> discrepancy list" where
  "join_tenant db t row = map (\<lambda>tn. row (t_name tn)) (filter (\<lambda>tn. t_id tn = t) (tenants db))"

definition txn_row :: "'x gateway_db_scheme \<Rightarrow> minor \<Rightarrow> gateway_txn \<Rightarrow> discrepancy list" where
  "txn_row db amount g = join_tenant db (g_tenantId g)
     (\<lambda>name. \<lparr>dc_id = g_id g, dc_tenantId = g_tenantId g, dc_tenantName = name, dc_reference = g_txnNumber g, dc_amountMinor = amount\<rparr>)"

definition payout_row :: "'x gateway_db_scheme \<Rightarrow> payout \<Rightarrow> discrepancy list" where
  "payout_row db y = join_tenant db (y_tenantId y)
     (\<lambda>name. \<lparr>dc_id = y_id y, dc_tenantId = y_tenantId y, dc_tenantName = name, dc_reference = y_settlementNumber y, dc_amountMinor = y_amountMinor y\<rparr>)"

definition has_entry :: "(ledger_entry \<Rightarrow> id option) \<Rightarrow> entry_type \<Rightarrow> id \<Rightarrow> ledger_entry list \<Rightarrow> bool" where
  "has_entry link k i es \<longleftrightarrow> (\<exists>e \<in> set es. link e = Some i \<and> le_entryType e = k)"

definition check_ledger_incomplete :: "'x gateway_db_scheme \<Rightarrow> discrepancy_check" where
  "check_ledger_incomplete db = run_check ''LEDGER_INCOMPLETE''
     (concat (map (\<lambda>g. txn_row db (g_grossMinor g) g)
       (filter (\<lambda>g. \<not> has_entry le_gatewayTransactionId CUSTOMER_PAYMENT (g_id g) (ledgerEntries db)
           \<or> (g_feeMinor g > 0 \<and> \<not> has_entry le_gatewayTransactionId PLATFORM_FEE (g_id g) (ledgerEntries db))) (gatewayTxns db))))"

definition check_reversed_still_credited :: "'x gateway_db_scheme \<Rightarrow> discrepancy_check" where
  "check_reversed_still_credited db = run_check ''REVERSED_PAYMENT_STILL_CREDITED''
     (concat (map (\<lambda>g. txn_row db (g_grossMinor g - g_refundedMinor g) g)
       (filter (\<lambda>g. (\<exists>p \<in> set (payments db). p_id p = g_paymentId g \<and> p_status p = P_REVERSED)
           \<and> (g_status g = GT_COMPLETED \<or> g_status g = GT_PARTIALLY_REFUNDED)) (gatewayTxns db))))"

definition check_settlement_mismatch :: "'x gateway_db_scheme \<Rightarrow> discrepancy_check" where
  "check_settlement_mismatch db = run_check ''SETTLEMENT_LEDGER_MISMATCH''
     (concat (map (payout_row db)
       (filter (\<lambda>y. let has_debit = has_entry le_settlementId SETTLEMENT (y_id y) (ledgerEntries db);
                        has_reversal = has_entry le_settlementId SETTLEMENT_REVERSAL (y_id y) (ledgerEntries db)
          in ((in_flight (y_status y) \<or> y_status y = SETTLED) \<and> (\<not> has_debit \<or> has_reversal))
             \<or> ((y_status y = ST_FAILED \<or> y_status y = CANCELLED) \<and> has_debit \<noteq> has_reversal)) (payouts db))))"

definition check_settlement_failed :: "'x gateway_db_scheme \<Rightarrow> discrepancy_check" where
  "check_settlement_failed db = run_check ''SETTLEMENT_FAILED''
     (concat (map (payout_row db)
       (filter (\<lambda>y. y_status y = ST_FAILED \<and> \<not> (\<exists>r \<in> set (payouts db). y_retryOfId r = Some (y_id y))) (payouts db))))"

definition check_refund_awaiting :: "'x gateway_db_scheme \<Rightarrow> discrepancy_check" where
  "check_refund_awaiting db = run_check ''REFUND_AWAITING_CUSTOMER_PAYOUT''
     (concat (map (\<lambda>r. join_tenant db (gr_tenantId r) (\<lambda>name. \<lparr>dc_id = gr_id r, dc_tenantId = gr_tenantId r, dc_tenantName = name,
         dc_reference = gr_refundNumber r, dc_amountMinor = gr_amountMinor r\<rparr>))
       (filter (\<lambda>r. gr_status r = PENDING_CUSTOMER_PAYOUT) (gatewayRefunds db))))"

definition check_negative_balance :: "'x gateway_db_scheme \<Rightarrow> discrepancy_check" where
  "check_negative_balance db = run_check ''NEGATIVE_BALANCE''
     (concat (map (\<lambda>t. map (\<lambda>tn. \<lparr>dc_id = t, dc_tenantId = t, dc_tenantName = t_name tn, dc_reference = t_slug tn,
           dc_amountMinor = availableMinor (getTenantBalance t db)\<rparr>) (filter (\<lambda>tn. t_id tn = t) (tenants db)))
       (filter (\<lambda>t. availableMinor (getTenantBalance t db) < 0) (remdups (map le_tenantId (ledgerEntries db))))))"

definition check_provisional :: "'x gateway_db_scheme \<Rightarrow> discrepancy_check" where
  "check_provisional db = run_check ''PROVISIONAL_RECEIPT''
     (concat (map (\<lambda>g. txn_row db (g_grossMinor g) g)
       (filter (\<lambda>g. starts_with ''PRV-'' (g_providerReference g) \<and> g_createdAt g < clock db - 3600000) (gatewayTxns db))))"

lemma has_entry_key:
  assumes j: "journal_ok n es"
  shows "has_entry le_gatewayTransactionId CUSTOMER_PAYMENT i es \<longleftrightarrow> (''GatewayTransaction'', i) \<in> entry_keys es"
    "has_entry le_gatewayTransactionId PLATFORM_FEE i es \<longleftrightarrow> (''GatewayTransactionFee'', i) \<in> entry_keys es"
    "has_entry le_settlementId SETTLEMENT i es \<longleftrightarrow> (''Settlement'', i) \<in> entry_keys es"
    "has_entry le_settlementId SETTLEMENT_REVERSAL i es \<longleftrightarrow> (''SettlementReversal'', i) \<in> entry_keys es"
proof -
  have sh: "shape_of (le_sourceType e) (le_entryType e) (le_direction e)"
    "le_entryType e \<in> {CUSTOMER_PAYMENT, PLATFORM_FEE} \<longrightarrow> le_gatewayTransactionId e = Some (le_sourceId e)"
    "le_entryType e \<in> {SETTLEMENT, SETTLEMENT_REVERSAL} \<longrightarrow> le_settlementId e = Some (le_sourceId e)" if "e \<in> set es" for e
    using j that by (auto simp: journal_ok_def entry_shape_def)
  have iff: "has_entry link k i es \<longleftrightarrow> (src, i) \<in> entry_keys es"
    if "\<And>e. e \<in> set es \<Longrightarrow> (link e = Some i \<and> le_entryType e = k) = (le_sourceType e = src \<and> le_sourceId e = i)" for link k src
    using that by (auto simp: has_entry_def entry_keys_def entry_key_def image_iff)
  have src: "(le_sourceType e = ''GatewayTransaction'') = (le_entryType e = CUSTOMER_PAYMENT)"
    "(le_sourceType e = ''GatewayTransactionFee'') = (le_entryType e = PLATFORM_FEE)"
    "(le_sourceType e = ''Settlement'') = (le_entryType e = SETTLEMENT)"
    "(le_sourceType e = ''SettlementReversal'') = (le_entryType e = SETTLEMENT_REVERSAL)" if "e \<in> set es" for e
    using sh(1) [OF that] by (cases "le_entryType e"; auto)+
  show "has_entry le_gatewayTransactionId CUSTOMER_PAYMENT i es \<longleftrightarrow> (''GatewayTransaction'', i) \<in> entry_keys es"
    "has_entry le_gatewayTransactionId PLATFORM_FEE i es \<longleftrightarrow> (''GatewayTransactionFee'', i) \<in> entry_keys es"
    "has_entry le_settlementId SETTLEMENT i es \<longleftrightarrow> (''Settlement'', i) \<in> entry_keys es"
    "has_entry le_settlementId SETTLEMENT_REVERSAL i es \<longleftrightarrow> (''SettlementReversal'', i) \<in> entry_keys es"
    by (rule iff; use src sh(2,3) in auto)+
qed

lemma reconciliation_clean:
  assumes ok: "gateway_ok db"
  shows "ck_count (check_ledger_incomplete db) = 0" "ck_count (check_settlement_mismatch db) = 0"
proof -
  have j: "journal_ok (nextId db) (ledgerEntries db)" and l: "linked (entry_keys (ledgerEntries db)) (gatewayTxns db) (payouts db)"
    using ok by (simp_all add: gateway_ok_def)
  show "ck_count (check_ledger_incomplete db) = 0"
    using l by (auto simp: check_ledger_incomplete_def run_check_def has_entry_key [OF j] linked_def)
  show "ck_count (check_settlement_mismatch db) = 0"
    using l by (auto simp: check_settlement_mismatch_def run_check_def has_entry_key [OF j] linked_def given_back_def in_flight_def)
qed


section \<open>The properties of the whole gateway\<close>

fun acct_run :: "(id \<Rightarrow> account) \<Rightarrow> money_event list \<Rightarrow> (id \<Rightarrow> account) option" where
  "acct_run A [] = Some A"
| "acct_run A (e # es) = (case acct_step A e of None \<Rightarrow> None | Some B \<Rightarrow> acct_run B es)"

lemma acct_run_snoc: "acct_run A es = Some B \<Longrightarrow> acct_step B e = Some C \<Longrightarrow> acct_run A (es @ [e]) = Some C"
  by (induction es arbitrary: A) (auto split: option.splits)

definition new_accounts :: "id \<Rightarrow> account" where
  "new_accounts t = \<lparr>ac_available = 0, ac_reserved = 0, ac_paid = 0\<rparr>"

lemma fresh_accounts: "gateway_fresh db \<Longrightarrow> account_of db = new_accounts"
  by (rule ext) (simp add: gateway_fresh_def account_of_def new_accounts_def getTenantBalance_def Let_def sum_payouts_def)

lemma gw_steps_simulated:
  "gw_steps db db' \<Longrightarrow> gateway_ok db \<Longrightarrow> \<exists>evs. acct_run (account_of db) evs = Some (account_of db')"
proof (induction rule: gw_steps.induct)
  case (gw_refl db)
  then show ?case by (intro exI [of _ "[]"]) simp
next
  case (gw_more db db1 db2)
  have "gateway_ok db1" using gw_steps_ok [OF gw_more.hyps(1) gw_more.prems] by blast
  then obtain ev where "acct_step (account_of db1) ev = Some (account_of db2)"
    using gw_step_good [OF gw_more.hyps(2)] by (auto simp: good_step_def)
  then show ?case using gw_more.IH [OF gw_more.prems] acct_run_snoc by blast
qed

lemma sent_within_collected:
  assumes "gateway_ok db"
  shows "settledMinor (getTenantBalance t db) + pendingSettlementMinor (getTenantBalance t db) \<le> collectedMinor (getTenantBalance t db)"
proof -
  have "sum_payouts t (\<lambda>s. \<not> given_back s) (payouts db) \<le> txn_sum t g_grossMinor (gatewayTxns db)"
    "sum_entries t (of_type CUSTOMER_PAYMENT) (ledgerEntries db) = txn_sum t g_grossMinor (gatewayTxns db)"
    using assms by (simp_all add: gateway_ok_def covered_def collected_sums_def)
  then show ?thesis by (simp add: payouts_open getTenantBalance_def Let_def)
qed

lemma sample_run: "gw_steps empty_gateway sample_requested" "gateway_fresh empty_gateway"
proof -
  have "gw_steps empty_gateway sample_collected"
    unfolding sample_collected_def by (rule gw_steps_one, rule gw_step.Collect [OF sample_collects])
  moreover have "gw_step sample_collected sample_funded"
    by (rule gw_step.Billing) (simp add: billing_step_def sample_funded_def)
  ultimately have "gw_steps empty_gateway sample_funded" by (rule gw_more)
  then show "gw_steps empty_gateway sample_requested"
    by (rule gw_more) (rule gw_step.Request [OF sample_request_runs])
qed (simp add: gateway_fresh_def)

lemma sample_balance:
  "availableMinor (getTenantBalance 7 sample_requested) = 0"
  "collectedMinor (getTenantBalance 7 sample_requested) = 100000" "feesMinor (getTenantBalance 7 sample_requested) = 2000"
  "pendingSettlementMinor (getTenantBalance 7 sample_requested) = 98000"
  by (simp_all add: sample_requested_def requested_db_def sample_with_destination_def getTenantBalance_def Let_def settlement_entry_def
    sample_payout_def new_payout_def Let_def sample_request_def in_flight_def sum_payouts_def collection_entry_def collection_fee_entry_def is_refund_entry_def)

text \<open>
  C1. The gateway's balance sheet: after any sequence of transactions and provider answers from an
  empty gateway, in any order, what a tenant can still withdraw is exactly what was collected less
  the fees kept, the refunds, what was paid out and what is on its way; never more is sent out than
  was collected; fees and refunds are never negative.
\<close>

theorem gateway_balance_sheet:
  assumes "gateway_fresh db0" "gw_steps db0 db" "b = getTenantBalance t db"
  shows "availableMinor b = collectedMinor b - feesMinor b - refundsMinor b - settledMinor b - pendingSettlementMinor b
    \<and> settledMinor b + pendingSettlementMinor b \<le> collectedMinor b \<and> 0 \<le> feesMinor b \<and> 0 \<le> refundsMinor b"
proof -
  have "gateway_ok db" by (rule reachable_ok [OF assms(2,1)])
  then show ?thesis unfolding assms(3) using balance_equation fees_kept sent_within_collected by blast
qed

theorem gateway_balance_sheet_witness:
  "(0::int) = 100000 - 2000 - refundsMinor (getTenantBalance 7 sample_requested) - settledMinor (getTenantBalance 7 sample_requested) - 98000"
  using gateway_balance_sheet [OF sample_run(2,1) refl, of 7] unfolding sample_balance by blast



text \<open>
  C20. No payout is ever lost or changes its amount or its owner, and once it is settled, failed or
  cancelled it keeps that status in every later state.
\<close>

theorem payout_status_is_final:
  assumes "gateway_fresh db0" "gw_steps db0 db" "gw_steps db db'" "y \<in> set (payouts db)"
  shows "\<exists>z \<in> set (payouts db'). y_id z = y_id y \<and> y_tenantId z = y_tenantId y \<and> y_amountMinor z = y_amountMinor y
    \<and> (y_status y \<in> {SETTLED, ST_FAILED, CANCELLED} \<longrightarrow> y_status z = y_status y)"
proof -
  have "payouts_evolve (payouts db) (payouts db')"
    using gw_steps_ok [OF assms(3) reachable_ok [OF assms(2,1)]] by blast
  then obtain h new where "payouts db' = map h (payouts db) @ new" "same_payout y (h y)"
    using assms(4) by (auto simp: payouts_evolve_def)
  then show ?thesis using assms(4) by (intro bexI [of _ "h y"]) (auto simp: same_payout_def is_final_def)
qed

theorem payout_status_is_final_witness:
  "\<exists>z \<in> set (payouts (snd (dispatchSettlement sample_api (\<lambda>s. s) 3 sample_requested))). y_amountMinor z = 98000"
proof -
  have y: "sample_payout \<in> set (payouts sample_requested)" "y_amountMinor sample_payout = 98000"
    by (simp_all add: sample_requested_def requested_db_def sample_with_destination_def sample_payout_def new_payout_def Let_def)
  show ?thesis using payout_status_is_final [OF sample_run(2,1) dispatch_steps [where api = sample_api and dec = "\<lambda>s. s" and i = 3] y(1)] y(2) by auto
qed

text \<open>
  The two reconciliation checks that look for gaps between the ledger and the transactions or the
  settlements find nothing in any state the gateway can reach: each collection has its credit and,
  where a fee was charged, its fee entry; each live or settled payout has its debit and no reversal,
  each failed or cancelled one has both or neither.
\<close>

theorem reconciliation_finds_nothing:
  assumes "gateway_fresh db0" "gw_steps db0 db"
  shows "ck_count (check_ledger_incomplete db) = 0 \<and> ck_count (check_settlement_mismatch db) = 0"
  using reconciliation_clean [OF reachable_ok [OF assms(2,1)]] by blast

theorem reconciliation_finds_nothing_witness:
  "ck_count (check_ledger_incomplete sample_requested) = 0 \<and> ck_count (check_settlement_mismatch sample_requested) = 0"
  by (rule reconciliation_finds_nothing [OF sample_run(2,1)])

end
