(* ===== verification/IpPools.thy ===== *)
theory IpPools
  imports RadiusUsers "HOL-Library.Word" "HOL-Library.List_Lexorder"
begin

unbundle bit_operations_syntax

text \<open>
  IP pools (packages/radius/src/cidr.ts and ip-pool.service.ts): the expansion of an IPv4 block
  into its host addresses, and the leasing of pool addresses to RADIUS users, mirrored into
  FreeRADIUS's radreply table. JavaScript's 32-bit operators are those of \<open>32 word\<close>.
\<close>

section \<open>IPv4 addresses\<close>

fun split_on :: "char \<Rightarrow> string \<Rightarrow> string list" where
  "split_on c [] = [[]]"
| "split_on c (x # xs) = (if x = c then [] # split_on c xs else (x # hd (split_on c xs)) # tl (split_on c xs))"

fun join_on :: "string \<Rightarrow> string list \<Rightarrow> string" where
  "join_on sep [] = []"
| "join_on sep [p] = p"
| "join_on sep (p # ps) = p @ sep @ join_on sep ps"

text \<open>The pattern \<open>\d{1,n}\<close> on a whole part.\<close>

definition digits_upto :: "nat \<Rightarrow> string \<Rightarrow> bool" where
  "digits_upto n p \<longleftrightarrow> 1 \<le> length p \<and> length p \<le> n \<and> list_all is_digit p"

definition ipv4ToInt :: "string \<Rightarrow> 32 word result" where
  "ipv4ToInt ip =
     (let parts = split_on (CHR ''.'') ip
      in if length parts \<noteq> 4 \<or> (\<exists>p \<in> set parts. \<not> digits_upto 3 p \<or> string_to_nat p > 255)
         then Inl (ValidationError (''Not a valid IPv4 address: \"'' @ ip @ ''\"''))
         else Inr (foldl (\<lambda>acc p. push_bit 8 acc + word_of_nat (string_to_nat p)) 0 parts))"

definition intToIpv4 :: "32 word \<Rightarrow> string" where
  "intToIpv4 n = join_on ''.'' (map (\<lambda>k. nat_to_string (unat (drop_bit k n AND 255))) [24, 16, 8, 0])"

definition max_ipv4_pool_size :: nat where
  "max_ipv4_pool_size = 4096"

text \<open>The pattern of \<open>expandIpv4Cidr\<close>: the address part and the prefix length.\<close>

definition match_cidr :: "string \<Rightarrow> (string \<times> string) option" where
  "match_cidr s =
     (case split_on (CHR ''/'') s of
        [a, p] \<Rightarrow> if length (split_on (CHR ''.'') a) = 4 \<and> list_all (digits_upto 3) (split_on (CHR ''.'') a) \<and> digits_upto 2 p
                  then Some (a, p) else None
      | _ \<Rightarrow> None)"

definition expandIpv4Cidr :: "string \<Rightarrow> string list result" where
  "expandIpv4Cidr cidr =
     (case match_cidr (trim cidr) of None \<Rightarrow> Inl (ValidationError (''Not a valid IPv4 CIDR block: \"'' @ cidr @ ''\"''))
      | Some (a, p) \<Rightarrow>
          let prefixLength = string_to_nat p
          in if prefixLength > 32 then Inl (ValidationError (''Not a valid IPv4 prefix length: \"'' @ cidr @ ''\"''))
             else (case ipv4ToInt a of Inl e \<Rightarrow> Inl e
                   | Inr base \<Rightarrow>
                       let hostBits = 32 - prefixLength;
                           size = (if hostBits \<ge> 32 then 0xffffffff else 2 ^ hostBits) :: nat;
                           network = (if hostBits \<ge> 32 then 0 else base AND NOT (word_of_nat (size - 1)));
                           usableCount = size - 2
                       in if prefixLength \<ge> 31 then Inr [intToIpv4 network]
                          else if usableCount > max_ipv4_pool_size then
                            Inl (ValidationError (''CIDR block \"'' @ cidr @ ''\" would expand to '' @ nat_to_string usableCount
                              @ '' addresses, over the '' @ nat_to_string max_ipv4_pool_size @ '' pool limit''))
                          else Inr (map (\<lambda>i. intToIpv4 (network + word_of_nat i)) [1..<usableCount + 1])))"

section \<open>Pools and leases\<close>

datatype ip_version = IPV4 | IPV6
datatype ip_status = AVAILABLE | RESERVED | ASSIGNED

record ip_pool =
  pl_id :: id
  pl_tenantId :: id
  pl_routerId :: "id option"
  pl_name :: string
  pl_version :: ip_version
  pl_cidr :: string
  pl_gateway :: "string option"
  pl_dnsServers :: "string list"

record ip_address =
  ip_id :: id
  ip_tenantId :: id
  ip_poolId :: id
  ip_address :: string
  ip_status :: ip_status
  ip_assignedTo :: "id option"

record pool_db = billing_db +
  ipPools :: "ip_pool list"
  ipAddresses :: "ip_address list"

record create_pool_input =
  cp_tenantId :: id
  cp_routerId :: "id option"
  cp_name :: string
  cp_version :: ip_version
  cp_cidr :: string
  cp_gateway :: "string option"
  cp_dnsServers :: "string list option"

text \<open>\<open>createMany\<close>: one row per address, with consecutive identifiers.\<close>

definition address_rows :: "id \<Rightarrow> id \<Rightarrow> id \<Rightarrow> string list \<Rightarrow> ip_address list" where
  "address_rows n tenantId poolId as =
     map2 (\<lambda>i a. \<lparr>ip_id = i, ip_tenantId = tenantId, ip_poolId = poolId, ip_address = a, ip_status = AVAILABLE, ip_assignedTo = None\<rparr>)
       [n..<n + length as] as"

definition createIpPool :: "create_pool_input \<Rightarrow> 'x pool_db_scheme \<Rightarrow> (ip_pool \<times> 'x pool_db_scheme) result" where
  "createIpPool inp db =
     (if \<exists>p \<in> set (ipPools db). pl_tenantId p = cp_tenantId inp \<and> pl_name p = cp_name inp
      then Inl (ConflictError (''An IP pool named \"'' @ cp_name inp @ ''\" already exists''))
      else case (if cp_version inp = IPV4 then expandIpv4Cidr (cp_cidr inp) else Inr []) of
        Inl e \<Rightarrow> Inl e
      | Inr addresses \<Rightarrow>
          let pool = \<lparr>pl_id = nextId db, pl_tenantId = cp_tenantId inp, pl_routerId = cp_routerId inp, pl_name = cp_name inp,
                pl_version = cp_version inp, pl_cidr = cp_cidr inp, pl_gateway = cp_gateway inp,
                pl_dnsServers = (case cp_dnsServers inp of None \<Rightarrow> [] | Some ds \<Rightarrow> ds)\<rparr>
          in Inr (pool, db\<lparr>ipPools := ipPools db @ [pool],
                ipAddresses := ipAddresses db @ address_rows (nextId db + 1) (cp_tenantId inp) (pl_id pool) addresses,
                nextId := nextId db + 1 + length addresses\<rparr>))"

record pool_usage =
  us_total :: nat
  us_assigned :: nat
  us_reserved :: nat
  us_available :: int

definition poolUsageSummary :: "id \<Rightarrow> id \<Rightarrow> 'x pool_db_scheme \<Rightarrow> pool_usage result" where
  "poolUsageSummary tenantId poolId db =
     (if \<exists>p \<in> set (ipPools db). pl_id p = poolId \<and> pl_tenantId p = tenantId then
        let total = count_where (\<lambda>a. ip_poolId a = poolId) (ipAddresses db);
            assigned = count_where (\<lambda>a. ip_poolId a = poolId \<and> ip_status a = ASSIGNED) (ipAddresses db);
            reserved = count_where (\<lambda>a. ip_poolId a = poolId \<and> ip_status a = RESERVED) (ipAddresses db)
        in Inr \<lparr>us_total = total, us_assigned = assigned, us_reserved = reserved, us_available = int total - int assigned - int reserved\<rparr>
      else Inl (NotFoundError ''IP pool''))"

definition releaseIpAddressWithDb :: "id \<Rightarrow> id \<Rightarrow> 'x pool_db_scheme \<Rightarrow> 'x pool_db_scheme" where
  "releaseIpAddressWithDb tenantId radiusUserId db =
     (case List.find (\<lambda>a. ip_tenantId a = tenantId \<and> ip_assignedTo a = Some radiusUserId) (ipAddresses db) of
        None \<Rightarrow> db
      | Some current \<Rightarrow>
          let db1 = db\<lparr>ipAddresses := update_where (\<lambda>a. ip_id a = ip_id current)
                      (\<lambda>a. a\<lparr>ip_status := AVAILABLE, ip_assignedTo := None\<rparr>) (ipAddresses db)\<rparr>
          in (case List.find (\<lambda>u. ru_id u = radiusUserId) (radiusUsers db1) of
                None \<Rightarrow> db1
              | Some u \<Rightarrow> db1\<lparr>radReplies := delete_rows (ru_username u) ''Framed-IP-Address'' (radReplies db1)\<rparr>))"

definition releaseIpAddress :: "id \<Rightarrow> id \<Rightarrow> 'x pool_db_scheme \<Rightarrow> 'x pool_db_scheme" where
  "releaseIpAddress = releaseIpAddressWithDb"

text \<open>
  \<open>findFirst\<close> ordered by address: \<open>collate\<close> is the database's string order, which the server's
  locale decides.
\<close>

definition find_candidate :: "(string \<Rightarrow> 'k::linorder) \<Rightarrow> id \<Rightarrow> id \<Rightarrow> 'x pool_db_scheme \<Rightarrow> ip_address option" where
  "find_candidate collate tenantId poolId db =
     List.find (\<lambda>a. ip_tenantId a = tenantId \<and> ip_poolId a = poolId \<and> ip_status a = AVAILABLE)
       (sort_key (\<lambda>a. collate (ip_address a)) (ipAddresses db))"

definition claim_address :: "id \<Rightarrow> radius_user \<Rightarrow> ip_address \<Rightarrow> 'x pool_db_scheme \<Rightarrow> (ip_address \<times> 'x pool_db_scheme) result" where
  "claim_address radiusUserId u candidate db =
     (if \<exists>a \<in> set (ipAddresses db). ip_id a \<noteq> ip_id candidate \<and> ip_assignedTo a = Some radiusUserId then Inl UniqueViolation
      else let claim = (\<lambda>a. a\<lparr>ip_status := ASSIGNED, ip_assignedTo := Some radiusUserId\<rparr>);
               claimed = claim candidate
           in Inr (claimed, db\<lparr>ipAddresses := update_where (\<lambda>a. ip_id a = ip_id candidate) claim (ipAddresses db),
                radReplies := delete_rows (ru_username u) ''Framed-IP-Address'' (radReplies db)
                  @ [\<lparr>rr_username = ru_username u, rr_attribute = ''Framed-IP-Address'', rr_op = ''='', rr_value = ip_address claimed\<rparr>]\<rparr>))"

definition allocateIpAddress ::
  "(string \<Rightarrow> 'k::linorder) \<Rightarrow> id \<Rightarrow> id \<Rightarrow> id \<Rightarrow> 'x pool_db_scheme \<Rightarrow> (ip_address \<times> 'x pool_db_scheme) result" where
  "allocateIpAddress collate tenantId poolId radiusUserId db =
     (case List.find (\<lambda>u. ru_id u = radiusUserId \<and> ru_tenantId u = tenantId) (radiusUsers db) of
        None \<Rightarrow> Inl (NotFoundError ''RADIUS user'')
      | Some u \<Rightarrow>
          let db1 = releaseIpAddressWithDb tenantId radiusUserId db
          in (case find_candidate collate tenantId poolId db1 of
                None \<Rightarrow> Inl (ValidationError ''No available addresses remain in this pool'')
              | Some candidate \<Rightarrow> claim_address radiusUserId u candidate db1))"

section \<open>Address text round trip\<close>

lemma split_on_nonempty [simp]: "split_on c s \<noteq> []"
  by (induction s) auto

lemma split_on_none: "c \<notin> set s \<Longrightarrow> split_on c s = [s]"
  by (induction s) auto

lemma split_on_append: "c \<notin> set p \<Longrightarrow> split_on c (p @ c # s) = p # split_on c s"
  by (induction p) auto

lemma split_join: "\<forall>p \<in> set ps. c \<notin> set p \<Longrightarrow> ps \<noteq> [] \<Longrightarrow> split_on c (join_on [c] ps) = ps"
  by (induction "[c]" ps rule: join_on.induct) (auto simp: split_on_none split_on_append)

lemma octet_digits: "n < 256 \<Longrightarrow> digits_upto 3 (nat_to_string n)"
proof -
  assume n: "n < 256"
  have "n div 10 div 10 < 10" using n by (simp add: div_mult2_eq [symmetric])
  then have "length (nat_to_string n) \<le> 3"
    by (simp add: nat_to_string.simps [of n] nat_to_string.simps [of "n div 10"] nat_to_string.simps [of "n div 10 div 10"])
  then show ?thesis using nat_to_string_digits
    by (auto simp: digits_upto_def list_all_iff Suc_le_eq)
qed

lemma word_octets: "foldl (\<lambda>acc k. push_bit 8 acc + (drop_bit k n AND 255)) 0 [24, 16, 8, 0] = (n :: 32 word)"
proof -
  have m: "(255 :: 32 word) = mask 8" by (simp add: mask_eq_exp_minus_1)
  have join: "push_bit 8 a + b = push_bit 8 a OR b" if "b AND 255 = b" for a b :: "32 word"
  proof -
    have "push_bit 8 a AND (b AND mask 8) = 0" by (rule bit_word_eqI) (auto simp: bit_simps)
    then have "push_bit 8 a AND b = 0" using that by (simp add: m)
    then show ?thesis by (rule disjunctive_add_eq_or)
  qed
  have "push_bit 8 (push_bit 8 (push_bit 8 (drop_bit 24 n AND 255) OR (drop_bit 16 n AND 255)) OR (drop_bit 8 n AND 255)) OR (n AND 255) = n"
  proof (rule bit_word_eqI)
    fix i assume "i < LENGTH(32)"
    consider "i < 8" | "8 \<le> i" "i < 16" | "16 \<le> i" "i < 24" | "24 \<le> i" by linarith
    then show "bit (push_bit 8 (push_bit 8 (push_bit 8 (drop_bit 24 n AND 255) OR (drop_bit 16 n AND 255)) OR (drop_bit 8 n AND 255)) OR (n AND 255)) i = bit n i"
      using \<open>i < LENGTH(32)\<close> unfolding m by cases (auto simp: bit_simps)
  qed
  then show ?thesis by (simp add: join and.assoc)
qed

lemma ipv4_round_trip: "ipv4ToInt (intToIpv4 n) = Inr n"
proof -
  let ?o = "\<lambda>k. unat (drop_bit k n AND 255 :: 32 word)"
  have o: "?o k < 256" for k
  proof -
    have m: "(255 :: nat) = mask 8" by (simp add: mask_eq_exp_minus_1)
    have "?o k = unat (drop_bit k n) AND 255" by (simp add: unsigned_and_eq)
    also have "\<dots> = take_bit 8 (unat (drop_bit k n))" by (simp add: m take_bit_eq_mask)
    also have "\<dots> < 2 ^ 8" by (rule take_bit_nat_less_exp)
    finally show ?thesis by simp
  qed
  have parts: "split_on (CHR ''.'') (intToIpv4 n) = map (\<lambda>k. nat_to_string (?o k)) [24, 16, 8, 0]"
    unfolding intToIpv4_def by (rule split_join) (auto dest: nat_to_string_digits simp: is_digit_def)
  have ok: "\<forall>p \<in> set (map (\<lambda>k. nat_to_string (?o k)) [24, 16, 8, 0]). digits_upto 3 p \<and> string_to_nat p \<le> 255"
  proof -
    have "digits_upto 3 (nat_to_string (?o k)) \<and> string_to_nat (nat_to_string (?o k)) \<le> 255" for k
      using octet_digits [OF o [of k]] o [of k] by simp
    then show ?thesis by (simp only: set_map) blast
  qed
  have "foldl (\<lambda>acc p. push_bit 8 acc + word_of_nat (string_to_nat p)) 0 (map (\<lambda>k. nat_to_string (?o k)) [24, 16, 8, 0]) = n"
    using word_octets [of n] by simp
  then show ?thesis using ok unfolding ipv4ToInt_def parts Let_def by (auto simp: not_less)
qed

section \<open>The expansion of a block\<close>

lemma intToIpv4_inj: "intToIpv4 a = intToIpv4 b \<Longrightarrow> a = b"
  by (metis ipv4_round_trip sum.inject(2))

lemma host_bits:
  fixes base :: "32 word"
  assumes "i < 2 ^ h" "h \<le> 31"
  defines "w \<equiv> (base AND NOT (mask h)) + word_of_nat i"
  shows "drop_bit h w = drop_bit h base" and "take_bit h w = word_of_nat i"
proof -
  have hi: "\<not> bit i k" if "h \<le> k" for k
  proof -
    have "i < 2 ^ k" using assms(1) that by (meson less_le_trans one_le_numeral power_increasing)
    then show ?thesis by (simp add: bit_iff_odd)
  qed
  have "(base AND NOT (mask h)) AND word_of_nat i = 0" by (rule bit_word_eqI) (auto simp: bit_simps hi not_less)
  then have w: "w = (base AND NOT (mask h)) OR word_of_nat i" unfolding w_def by (rule disjunctive_add_eq_or)
  show "drop_bit h w = drop_bit h base" unfolding w by (rule bit_word_eqI) (auto simp: bit_simps hi dest: bit_imp_le_length)
  show "take_bit h w = word_of_nat i" unfolding w by (rule bit_word_eqI) (use hi not_less in \<open>auto simp: bit_simps\<close>)
qed

lemma expand_spec:
  assumes "expandIpv4Cidr cidr = Inr as"
  obtains a p base where "match_cidr (trim cidr) = Some (a, p)" "ipv4ToInt a = Inr base" "string_to_nat p \<le> 32"
    "if 31 \<le> string_to_nat p then as = [intToIpv4 (base AND NOT (mask (32 - string_to_nat p)))]
     else 2 ^ (32 - string_to_nat p) - 2 \<le> (4096::nat) \<and> as = map (\<lambda>i. intToIpv4 ((base AND NOT (mask (32 - string_to_nat p))) + word_of_nat i)) [1..<2 ^ (32 - string_to_nat p) - 1]"
proof -
  obtain a p where m: "match_cidr (trim cidr) = Some (a, p)" and p: "string_to_nat p \<le> 32"
    using assms by (auto simp: expandIpv4Cidr_def Let_def split: option.splits if_splits)
  then obtain base where b: "ipv4ToInt a = Inr base"
    using assms by (auto simp: expandIpv4Cidr_def Let_def split: sum.splits if_splits)
  define h where "h = 32 - string_to_nat p"
  have mk: "2 ^ h - 1 = (mask h :: 32 word)" by (simp add: mask_eq_exp_minus_1)
  have "\<not> string_to_nat p = 0"
    using assms by (auto simp: expandIpv4Cidr_def m b Let_def max_ipv4_pool_size_def split: if_splits)
  then have h: "\<not> 32 \<le> h" by (simp add: h_def)
  have e: "expandIpv4Cidr cidr = (if 31 \<le> string_to_nat p then Inr [intToIpv4 (base AND NOT (mask h))]
     else if 4096 < (2::nat) ^ h - 2 then Inl (ValidationError (''CIDR block \"'' @ cidr @ ''\" would expand to '' @ nat_to_string (2 ^ h - 2)
                              @ '' addresses, over the '' @ nat_to_string 4096 @ '' pool limit''))
     else Inr (map (\<lambda>i. intToIpv4 ((base AND NOT (mask h)) + word_of_nat i)) [1..<2 ^ h - 2 + 1]))"
    using p h unfolding expandIpv4Cidr_def m option.case prod.case Let_def b sum.case h_def [symmetric] max_ipv4_pool_size_def
    by (simp add: mk)
  have "2 ^ h - 2 + 1 = (2::nat) ^ h - 1" if "string_to_nat p < 31"
  proof -
    have "(2::nat) ^ 1 \<le> 2 ^ h" by (rule power_increasing) (use that in \<open>simp_all add: h_def\<close>)
    then show ?thesis by simp
  qed
  then have "if 31 \<le> string_to_nat p then as = [intToIpv4 (base AND NOT (mask h))]
     else 2 ^ h - 2 \<le> (4096::nat) \<and> as = map (\<lambda>i. intToIpv4 ((base AND NOT (mask h)) + word_of_nat i)) [1..<2 ^ h - 1]"
    using assms e by (auto split: if_splits)
  then show ?thesis unfolding h_def by (rule that [OF m b p])
qed

lemma expand_sound_spec:
  assumes "expandIpv4Cidr cidr = Inr as"
  shows "\<exists>a p base. match_cidr (trim cidr) = Some (a, p) \<and> ipv4ToInt a = Inr base \<and> string_to_nat p \<le> 32 \<and> distinct as
    \<and> length as = (if 31 \<le> string_to_nat p then 1 else 2 ^ (32 - string_to_nat p) - 2) \<and> length as \<le> 4096
    \<and> (\<forall>s \<in> set as. \<exists>w. ipv4ToInt s = Inr w \<and> drop_bit (32 - string_to_nat p) w = drop_bit (32 - string_to_nat p) base
         \<and> (string_to_nat p < 31 \<longrightarrow> take_bit (32 - string_to_nat p) w \<noteq> 0 \<and> take_bit (32 - string_to_nat p) w \<noteq> mask (32 - string_to_nat p)))"
proof -
  obtain a p base where m: "match_cidr (trim cidr) = Some (a, p)" and b: "ipv4ToInt a = Inr base" and p: "string_to_nat p \<le> 32"
    and as: "if 31 \<le> string_to_nat p then as = [intToIpv4 (base AND NOT (mask (32 - string_to_nat p)))]
     else 2 ^ (32 - string_to_nat p) - 2 \<le> (4096::nat) \<and> as = map (\<lambda>i. intToIpv4 ((base AND NOT (mask (32 - string_to_nat p))) + word_of_nat i)) [1..<2 ^ (32 - string_to_nat p) - 1]"
    by (rule expand_spec [OF assms])
  define h where "h = 32 - string_to_nat p"
  note as = as [folded h_def]
  have rest: "distinct as \<and> length as = (if 31 \<le> string_to_nat p then 1 else 2 ^ h - 2) \<and> length as \<le> 4096
    \<and> (\<forall>s \<in> set as. \<exists>w. ipv4ToInt s = Inr w \<and> drop_bit h w = drop_bit h base
         \<and> (string_to_nat p < 31 \<longrightarrow> take_bit h w \<noteq> 0 \<and> take_bit h w \<noteq> mask h))"
  proof (cases "31 \<le> string_to_nat p")
    case True
    then have a: "as = [intToIpv4 (base AND NOT (mask h))]" and "h \<le> 31" using as p by (simp_all add: h_def)
    then have "drop_bit h (base AND NOT (mask h)) = drop_bit h base" using host_bits(1) [of 0 h base] by simp
    then show ?thesis using True by (simp add: a ipv4_round_trip)
  next
    case False
    define w where "w = (\<lambda>i. (base AND NOT (mask h)) + (word_of_nat i :: 32 word))"
    have a: "as = map (\<lambda>i. intToIpv4 (w i)) [1..<2 ^ h - 1]" and le: "2 ^ h - 2 \<le> (4096::nat)" using as False by (simp_all add: w_def)
    have h: "h \<le> 31"
    proof (rule ccontr)
      assume "\<not> h \<le> 31"
      then have "(2::nat) ^ 32 \<le> 2 ^ h" by (intro power_increasing) simp_all
      then show False using le by simp
    qed
    have small: "unat (word_of_nat i :: 32 word) = i" if "i < 2 ^ h" for i
    proof -
      have "(2::nat) ^ h \<le> 2 ^ 31" using h by (intro power_increasing) simp_all
      then show ?thesis using that by (simp add: unat_of_nat)
    qed
    have bits: "drop_bit h (w i) = drop_bit h base" "take_bit h (w i) = word_of_nat i" if "i < 2 ^ h" for i
      using host_bits [OF that h, of base] by (simp_all add: w_def)
    have inj: "inj_on (\<lambda>i. intToIpv4 (w i)) {1..<2 ^ h - 1}"
    proof (rule inj_onI)
      fix i j assume ij: "i \<in> {1..<2 ^ h - 1}" "j \<in> {1..<2 ^ h - 1}" "intToIpv4 (w i) = intToIpv4 (w j)"
      then have lt: "i < 2 ^ h" "j < 2 ^ h" by auto
      then have "(word_of_nat i :: 32 word) = word_of_nat j" using bits(2) intToIpv4_inj [OF ij(3)] by metis
      then have "unat (word_of_nat i :: 32 word) = unat (word_of_nat j :: 32 word)" by simp
      then show "i = j" using small lt by simp
    qed
    have host: "take_bit h (w i) \<noteq> 0 \<and> take_bit h (w i) \<noteq> mask h" if "i \<in> {1..<2 ^ h - 1}" for i
    proof -
      have i: "i < 2 ^ h" using that by auto
      have "(mask h :: 32 word) = word_of_nat (2 ^ h - 1)" by (simp add: mask_eq_exp_minus_1)
      moreover have "unat (word_of_nat (2 ^ h - 1) :: 32 word) = 2 ^ h - 1" by (rule small) simp
      ultimately have "unat (take_bit h (w i)) = i" "unat (mask h :: 32 word) = 2 ^ h - 1"
        using bits(2) [OF i] small [OF i] by simp_all
      moreover have "0 < i" "i < 2 ^ h - 1" using that by simp_all
      ultimately show ?thesis by (metis less_irrefl unat_0)
    qed
    have "\<forall>s \<in> set as. \<exists>x. ipv4ToInt s = Inr x \<and> drop_bit h x = drop_bit h base \<and> take_bit h x \<noteq> 0 \<and> take_bit h x \<noteq> mask h"
      using bits(1) host by (auto simp: a ipv4_round_trip)
    moreover have "distinct as" using inj by (simp add: a distinct_map)
    moreover have "length as = 2 ^ h - 2" by (simp add: a)
    ultimately show ?thesis using le False by simp
  qed
  show ?thesis using m b p rest unfolding h_def by blast
qed

section \<open>Leases\<close>

definition lease_in :: "ip_address list \<Rightarrow> id \<Rightarrow> ip_address option" where
  "lease_in as u = List.find (\<lambda>a. ip_assignedTo a = Some u) as"

definition framed :: "string \<Rightarrow> rad_row list \<Rightarrow> string list" where
  "framed username rows = map rr_value (filter (\<lambda>r. rr_username r = username \<and> rr_attribute r = ''Framed-IP-Address'') rows)"

text \<open>
  Identifiers are unique, a pool has no address twice, the status says whether the address is
  leased, and a user holds at most one address.
\<close>

definition addresses_ok :: "id \<Rightarrow> ip_address list \<Rightarrow> bool" where
  "addresses_ok n as \<longleftrightarrow> distinct (map ip_id as) \<and> (\<forall>a \<in> set as. ip_id a < n \<and> ip_poolId a < n)
     \<and> distinct (map (\<lambda>a. (ip_poolId a, ip_address a)) as)
     \<and> (\<forall>a \<in> set as. (ip_status a = ASSIGNED) = (ip_assignedTo a \<noteq> None))
     \<and> (\<forall>a \<in> set as. \<forall>b \<in> set as. \<forall>u. ip_assignedTo a = Some u \<longrightarrow> ip_assignedTo b = Some u \<longrightarrow> ip_id a = ip_id b)"

text \<open>An address is leased to a user of its own tenant, and radreply hands each user exactly the address leased to it.\<close>

definition owners_ok :: "ip_address list \<Rightarrow> radius_user list \<Rightarrow> bool" where
  "owners_ok as us \<longleftrightarrow> (\<forall>a \<in> set as. \<forall>u. ip_assignedTo a = Some u \<longrightarrow> (\<exists>r \<in> set us. ru_id r = u \<and> ru_tenantId r = ip_tenantId a))"

definition mirrored :: "ip_address list \<Rightarrow> radius_user list \<Rightarrow> rad_row list \<Rightarrow> bool" where
  "mirrored as us rows \<longleftrightarrow>
     (\<forall>r \<in> set us. framed (ru_username r) rows = (case lease_in as (ru_id r) of None \<Rightarrow> [] | Some a \<Rightarrow> [ip_address a]))"

definition pool_ok :: "'x pool_db_scheme \<Rightarrow> bool" where
  "pool_ok db \<longleftrightarrow> addresses_ok (nextId db) (ipAddresses db) \<and> owners_ok (ipAddresses db) (radiusUsers db)
     \<and> distinct (map ru_id (radiusUsers db)) \<and> distinct (map ru_username (radiusUsers db))
     \<and> mirrored (ipAddresses db) (radiusUsers db) (radReplies db)"

lemma framed_delete [simp]:
  "framed u (delete_rows v ''Framed-IP-Address'' rows) = (if u = v then [] else framed u rows)"
  by (induction rows) (auto simp: framed_def delete_rows_def)

lemma framed_append [simp]:
  "framed u (rows @ [r]) = framed u rows @ (if rr_username r = u \<and> rr_attribute r = ''Framed-IP-Address'' then [rr_value r] else [])"
  by (simp add: framed_def)

lemma lease_row:
  assumes ok: "addresses_ok n as" and r: "a \<in> set as" "b \<in> set as" "ip_assignedTo a = Some u" "ip_assignedTo b = Some u"
  shows "a = b"
proof -
  have "ip_id a = ip_id b" using ok r unfolding addresses_ok_def by blast
  moreover have "distinct (map ip_id as)" using ok unfolding addresses_ok_def by blast
  ultimately show ?thesis using key_eq_rows r(1,2) by metis
qed

lemma lease_iff:
  assumes "addresses_ok n as"
  shows "lease_in as u = Some a \<longleftrightarrow> a \<in> set as \<and> ip_assignedTo a = Some u"
proof
  assume "lease_in as u = Some a"
  then show "a \<in> set as \<and> ip_assignedTo a = Some u" unfolding lease_in_def by (rule find_SomeD)
next
  assume a: "a \<in> set as \<and> ip_assignedTo a = Some u"
  then obtain b where b: "lease_in as u = Some b" using find_exists [of a as "\<lambda>a. ip_assignedTo a = Some u"] by (auto simp: lease_in_def)
  then have "b \<in> set as \<and> ip_assignedTo b = Some u" unfolding lease_in_def by (rule find_SomeD)
  then have "a = b" using lease_row [OF assms, of a b u] a by blast
  then show "lease_in as u = Some a" using b by simp
qed

definition set_lease :: "id option \<Rightarrow> ip_address \<Rightarrow> ip_address" where
  "set_lease o' a = a\<lparr>ip_status := (if o' = None then AVAILABLE else ASSIGNED), ip_assignedTo := o'\<rparr>"

lemma set_lease_simps [simp]:
  "ip_id (set_lease o' a) = ip_id a" "ip_tenantId (set_lease o' a) = ip_tenantId a" "ip_poolId (set_lease o' a) = ip_poolId a"
  "ip_address (set_lease o' a) = ip_address a" "ip_assignedTo (set_lease o' a) = o'" "(ip_status (set_lease o' a) = ASSIGNED) = (o' \<noteq> None)"
  by (simp_all add: set_lease_def)

lemma addresses_ok_set:
  assumes ok: "addresses_ok n as" and a: "a \<in> set as" and free: "o' \<noteq> None \<Longrightarrow> \<forall>b \<in> set as. ip_assignedTo b \<noteq> o'"
  defines "as' \<equiv> update_where (\<lambda>b. ip_id b = ip_id a) (set_lease o') as"
  shows "addresses_ok n as'" and "lease_in as' u = (if o' = Some u then Some (set_lease o' a) else if ip_assignedTo a = Some u then None else lease_in as u)"
proof -
  have rows: "b \<in> set as' \<longleftrightarrow> b = set_lease o' a \<or> (b \<in> set as \<and> b \<noteq> a)" for b
  proof -
    have "c = a" if "c \<in> set as" "ip_id c = ip_id a" for c
      by (rule key_eq_rows [OF _ that(1) a that(2)]) (use ok in \<open>simp add: addresses_ok_def\<close>)
    then have "{c \<in> set as. ip_id c = ip_id a} = {a}" "{c \<in> set as. ip_id c \<noteq> ip_id a} = set as - {a}" using a by blast+
    then show ?thesis unfolding as'_def set_update_where by auto
  qed
  have "map ip_id as' = map ip_id as" "map (\<lambda>a. (ip_poolId a, ip_address a)) as' = map (\<lambda>a. (ip_poolId a, ip_address a)) as"
    unfolding as'_def by (simp_all add: map_update_where)
  moreover have "\<forall>b \<in> set as'. ip_id b < n \<and> ip_poolId b < n \<and> (ip_status b = ASSIGNED) = (ip_assignedTo b \<noteq> None)"
  proof
    fix b assume "b \<in> set as'"
    moreover have "\<forall>c \<in> set as. ip_id c < n \<and> ip_poolId c < n \<and> (ip_status c = ASSIGNED) = (ip_assignedTo c \<noteq> None)"
      using ok by (simp add: addresses_ok_def)
    ultimately show "ip_id b < n \<and> ip_poolId b < n \<and> (ip_status b = ASSIGNED) = (ip_assignedTo b \<noteq> None)"
      using a unfolding rows by auto
  qed
  moreover have "\<forall>b \<in> set as'. \<forall>c \<in> set as'. \<forall>v. ip_assignedTo b = Some v \<longrightarrow> ip_assignedTo c = Some v \<longrightarrow> ip_id b = ip_id c"
  proof (intro ballI allI impI)
    fix b c v assume bc: "b \<in> set as'" "c \<in> set as'" "ip_assignedTo b = Some v" "ip_assignedTo c = Some v"
    have only: "x = set_lease o' a" if "x \<in> set as'" "ip_assignedTo x = o'" "o' \<noteq> None" for x
      using that free rows by blast
    show "ip_id b = ip_id c"
    proof (cases "o' = Some v")
      case True
      then show ?thesis using only [of b] only [of c] bc by simp
    next
      case False
      then have "b \<in> set as" "c \<in> set as" using bc rows by auto
      then show ?thesis using lease_row [OF ok _ _ bc(3,4)] by blast
    qed
  qed
  ultimately show ok': "addresses_ok n as'" using ok unfolding addresses_ok_def by (elim conjE, intro conjI) (simp_all only: ball_simps, blast+)
  have eq: "lease_in as' u = Some b \<longleftrightarrow> (if o' = Some u then Some (set_lease o' a) else if ip_assignedTo a = Some u then None else lease_in as u) = Some b" for b
  proof (cases "o' = Some u")
    case True
    then show ?thesis using free unfolding lease_iff [OF ok'] rows by auto
  next
    case False
    have "b = a" if "ip_assignedTo a = Some u" "b \<in> set as" "ip_assignedTo b = Some u"
      by (rule lease_row [OF ok that(2) a that(3,1)])
    then show ?thesis using False a unfolding lease_iff [OF ok'] rows by (auto simp: lease_iff [OF ok])
  qed
  then show "lease_in as' u = (if o' = Some u then Some (set_lease o' a) else if ip_assignedTo a = Some u then None else lease_in as u)"
    by (metis not_Some_eq)
qed

definition known_user :: "id \<Rightarrow> id \<Rightarrow> 'x pool_db_scheme \<Rightarrow> bool" where
  "known_user u t db \<longleftrightarrow> (\<exists>r \<in> set (radiusUsers db). ru_id r = u \<and> ru_tenantId r = t)"

lemma owners_ok_set:
  assumes "owners_ok as us" "a \<in> set as" "\<And>v. o' = Some v \<Longrightarrow> \<exists>r \<in> set us. ru_id r = v \<and> ru_tenantId r = ip_tenantId a"
    "distinct (map ip_id as)"
  shows "owners_ok (update_where (\<lambda>b. ip_id b = ip_id a) (set_lease o') as) us"
proof -
  have "c = a" if "c \<in> set as" "ip_id c = ip_id a" for c by (rule key_eq_rows [OF assms(4) that(1) assms(2) that(2)])
  then have "{c \<in> set as. ip_id c = ip_id a} = {a}" using assms(2) by blast
  then show ?thesis using assms(1,3) unfolding owners_ok_def set_update_where by auto
qed

lemma mirrored_set:
  assumes m: "mirrored as us rows" and ok: "addresses_ok n as" and a: "a \<in> set as" and free: "o' \<noteq> None \<Longrightarrow> \<forall>b \<in> set as. ip_assignedTo b \<noteq> o'"
    and d: "distinct (map ru_id us)" "distinct (map ru_username us)" and u: "r \<in> set us" "ru_id r = u"
    and own: "ip_assignedTo a = None \<or> ip_assignedTo a = Some u" and o': "o' = None \<or> o' = Some u"
    and rows': "\<And>s. framed s rows' = (if s = ru_username r then (case o' of None \<Rightarrow> [] | Some _ \<Rightarrow> [ip_address a]) else framed s rows)"
    and none: "o' = None \<Longrightarrow> ip_assignedTo a = Some u"
  shows "mirrored (update_where (\<lambda>b. ip_id b = ip_id a) (set_lease o') as) us rows'"
  unfolding mirrored_def
proof
  fix x assume x: "x \<in> set us"
  have name: "(ru_username x = ru_username r) = (ru_id x = u)"
    using key_eq_rows [OF d(1) x u(1)] key_eq_rows [OF d(2) x u(1)] u(2) by auto
  have "framed (ru_username x) rows = (case lease_in as (ru_id x) of None \<Rightarrow> [] | Some a \<Rightarrow> [ip_address a])"
    using m x by (simp add: mirrored_def)
  then show "framed (ru_username x) rows' = (case lease_in (update_where (\<lambda>b. ip_id b = ip_id a) (set_lease o') as) (ru_id x) of None \<Rightarrow> [] | Some a \<Rightarrow> [ip_address a])"
    using own o' none addresses_ok_set(2) [where o' = o' and u = "ru_id x", OF ok a free] unfolding rows' name by auto
qed

lemma release_spec:
  fixes t u :: id
  assumes ok: "pool_ok db"
  defines "db' \<equiv> releaseIpAddressWithDb t u db"
  shows "pool_ok db'" and "known_user u t db \<Longrightarrow> lease_in (ipAddresses db') = (lease_in (ipAddresses db))(u := None)"
    and "radiusUsers db' = radiusUsers db" and "nextId db' = nextId db"
proof -
  have a: "addresses_ok (nextId db) (ipAddresses db)" and o: "owners_ok (ipAddresses db) (radiusUsers db)"
    and d: "distinct (map ru_id (radiusUsers db))" "distinct (map ru_username (radiusUsers db))"
    and m: "mirrored (ipAddresses db) (radiusUsers db) (radReplies db)"
    using ok by (simp_all add: pool_ok_def)
  have "pool_ok db' \<and> (known_user u t db \<longrightarrow> lease_in (ipAddresses db') = (lease_in (ipAddresses db))(u := None))
    \<and> radiusUsers db' = radiusUsers db \<and> nextId db' = nextId db"
  proof (cases "List.find (\<lambda>a. ip_tenantId a = t \<and> ip_assignedTo a = Some u) (ipAddresses db)")
    case None
    have "lease_in (ipAddresses db) u = None" if known: "known_user u t db"
    proof (rule ccontr)
      assume "lease_in (ipAddresses db) u \<noteq> None"
      then obtain b where b: "b \<in> set (ipAddresses db)" "ip_assignedTo b = Some u" using lease_iff [OF a] by blast
      then obtain r where r: "r \<in> set (radiusUsers db)" "ru_id r = u" "ru_tenantId r = ip_tenantId b"
        using o unfolding owners_ok_def by blast
      obtain q where q: "q \<in> set (radiusUsers db)" "ru_id q = u" "ru_tenantId q = t" using known unfolding known_user_def by blast
      have "q = r" by (rule key_eq_rows [OF d(1) q(1) r(1)]) (simp add: q(2) r(2))
      then show False using find_NoneD [OF None b(1)] b(2) q(3) r(3) by simp
    qed
    then show ?thesis using ok None by (simp add: db'_def releaseIpAddressWithDb_def fun_upd_idem)
  next
    case (Some b)
    have b: "b \<in> set (ipAddresses db)" "ip_tenantId b = t" "ip_assignedTo b = Some u" using find_SomeD [OF Some] by simp_all
    then obtain r where r: "r \<in> set (radiusUsers db)" "ru_id r = u" using o unfolding owners_ok_def by blast
    have f: "List.find (\<lambda>u'. ru_id u' = u) (radiusUsers db) = Some r" using find_key_unique [OF d(1) r(1)] r(2) by simp
    have s: "(\<lambda>a::ip_address. a\<lparr>ip_status := AVAILABLE, ip_assignedTo := None\<rparr>) = set_lease None"
      by (rule ext) (simp add: set_lease_def)
    have ids: "distinct (map ip_id (ipAddresses db))" using a unfolding addresses_ok_def by blast
    let ?as = "update_where (\<lambda>a. ip_id a = ip_id b) (set_lease None) (ipAddresses db)"
    have db': "ipAddresses db' = ?as" "radReplies db' = delete_rows (ru_username r) ''Framed-IP-Address'' (radReplies db)"
      "radiusUsers db' = radiusUsers db" "nextId db' = nextId db"
      using Some f by (simp_all add: db'_def releaseIpAddressWithDb_def Let_def s)
    have l: "lease_in ?as = (lease_in (ipAddresses db))(u := None)"
    proof
      fix v
      show "lease_in ?as v = ((lease_in (ipAddresses db))(u := None)) v"
        using addresses_ok_set(2) [OF a b(1), of None v] b(3) by auto
    qed
    have "addresses_ok (nextId db) ?as" by (rule addresses_ok_set(1) [OF a b(1)]) simp
    moreover have "owners_ok ?as (radiusUsers db)" by (rule owners_ok_set [OF o b(1) _ ids]) simp
    moreover have "mirrored ?as (radiusUsers db) (radReplies db')"
      by (rule mirrored_set [OF m a b(1) _ d r]) (simp_all add: b(3) db'(2))
    ultimately show ?thesis using d l by (simp add: pool_ok_def db')
  qed
  then show "pool_ok db'" "known_user u t db \<Longrightarrow> lease_in (ipAddresses db') = (lease_in (ipAddresses db))(u := None)"
    "radiusUsers db' = radiusUsers db" "nextId db' = nextId db" by blast+
qed

lemma allocate_spec:
  fixes collate :: "string \<Rightarrow> 'k::linorder"
  assumes ok: "pool_ok db" and run: "allocateIpAddress collate t p u db = Inr (a, db')"
  obtains r c where "r \<in> set (radiusUsers db)" "ru_id r = u" "ru_tenantId r = t"
    "c \<in> set (ipAddresses (releaseIpAddressWithDb t u db))" "ip_status c = AVAILABLE" "ip_assignedTo c = None" "ip_tenantId c = t" "ip_poolId c = p"
    "a = set_lease (Some u) c" "pool_ok db'" "lease_in (ipAddresses db') = (lease_in (ipAddresses db))(u \<mapsto> a)"
    "radiusUsers db' = radiusUsers db"
proof -
  define db1 where "db1 = releaseIpAddressWithDb t u db"
  obtain r where f: "List.find (\<lambda>x. ru_id x = u \<and> ru_tenantId x = t) (radiusUsers db) = Some r"
    using run by (auto simp: allocateIpAddress_def split: option.splits)
  have r: "r \<in> set (radiusUsers db)" "ru_id r = u" "ru_tenantId r = t" using find_SomeD [OF f] by simp_all
  obtain c where c: "find_candidate collate t p db1 = Some c" and cl: "claim_address u r c db1 = Inr (a, db')"
    using run f by (auto simp: allocateIpAddress_def Let_def db1_def split: option.splits)
  have k: "known_user u t db" using r by (auto simp: known_user_def)
  note rel = release_spec [OF ok, where t = t and u = u, folded db1_def]
  have a1: "addresses_ok (nextId db1) (ipAddresses db1)" and o1: "owners_ok (ipAddresses db1) (radiusUsers db1)"
    and d1: "distinct (map ru_id (radiusUsers db1))" "distinct (map ru_username (radiusUsers db1))"
    and m1: "mirrored (ipAddresses db1) (radiusUsers db1) (radReplies db1)"
    using rel(1) by (simp_all add: pool_ok_def)
  have c1: "c \<in> set (ipAddresses db1)" "ip_tenantId c = t" "ip_poolId c = p" "ip_status c = AVAILABLE"
    using find_SomeD [OF c [unfolded find_candidate_def]] by simp_all
  have "(ip_status c = ASSIGNED) = (ip_assignedTo c \<noteq> None)" using a1 c1(1) unfolding addresses_ok_def by blast
  then have c2: "ip_assignedTo c = None" using c1(4) by auto
  have ids: "distinct (map ip_id (ipAddresses db1))" using a1 unfolding addresses_ok_def by blast
  have free: "\<forall>b \<in> set (ipAddresses db1). ip_assignedTo b \<noteq> Some u"
    using lease_iff [OF a1, of u] rel(2) [OF k] by auto
  have s: "(\<lambda>a::ip_address. a\<lparr>ip_status := ASSIGNED, ip_assignedTo := Some u\<rparr>) = set_lease (Some u)"
    by (rule ext) (simp add: set_lease_def)
  let ?as = "update_where (\<lambda>b. ip_id b = ip_id c) (set_lease (Some u)) (ipAddresses db1)"
  have a: "a = set_lease (Some u) c" and db': "ipAddresses db' = ?as" "radiusUsers db' = radiusUsers db1" "nextId db' = nextId db1"
    "radReplies db' = delete_rows (ru_username r) ''Framed-IP-Address'' (radReplies db1)
       @ [\<lparr>rr_username = ru_username r, rr_attribute = ''Framed-IP-Address'', rr_op = ''='', rr_value = ip_address c\<rparr>]"
    using cl by (auto simp: claim_address_def Let_def s split: if_splits)
  have l: "lease_in ?as = (lease_in (ipAddresses db))(u \<mapsto> a)"
  proof
    fix v
    show "lease_in ?as v = ((lease_in (ipAddresses db))(u \<mapsto> a)) v"
      using addresses_ok_set(2) [OF a1 c1(1), of "Some u" v] free c2 rel(2) [OF k] a by auto
  qed
  have r1: "r \<in> set (radiusUsers db1)" using r(1) rel(3) by simp
  have "addresses_ok (nextId db1) ?as" by (rule addresses_ok_set(1) [OF a1 c1(1)]) (use free in simp)
  moreover have "owners_ok ?as (radiusUsers db1)" by (rule owners_ok_set [OF o1 c1(1) _ ids]) (use r r1 c1(2) in auto)
  moreover have "mirrored ?as (radiusUsers db1) (radReplies db')"
    by (rule mirrored_set [OF m1 a1 c1(1) _ d1 r1 r(2)]) (use free in \<open>simp_all add: c2 db'\<close>)
  ultimately have "pool_ok db'" using d1 by (simp add: pool_ok_def db')
  moreover have "lease_in (ipAddresses db') = (lease_in (ipAddresses db))(u \<mapsto> a)" by (simp only: db' l)
  ultimately show ?thesis using that [OF r c1(1) [unfolded db1_def] c1(4) c2 c1(2,3) a] db'(2) rel(3) by simp
qed

section \<open>Properties\<close>

text \<open>
  Expanding an IPv4 block: a block that is accepted yields at most 4096 addresses, exactly
  \<open>2^(32 - p) - 2\<close> for a prefix shorter than 31 bits and one otherwise, all different, each a valid
  address of the block (its first \<open>p\<close> bits are those of the base), and for a prefix shorter than 31
  bits never the network or the broadcast address.
\<close>

theorem expandIpv4Cidr_sound:
  assumes "expandIpv4Cidr cidr = Inr as"
  shows "\<exists>a p base. match_cidr (trim cidr) = Some (a, p) \<and> ipv4ToInt a = Inr base \<and> string_to_nat p \<le> 32 \<and> distinct as
    \<and> length as = (if 31 \<le> string_to_nat p then 1 else 2 ^ (32 - string_to_nat p) - 2) \<and> length as \<le> 4096
    \<and> (\<forall>s \<in> set as. \<exists>w. ipv4ToInt s = Inr w \<and> drop_bit (32 - string_to_nat p) w = drop_bit (32 - string_to_nat p) base
         \<and> (string_to_nat p < 31 \<longrightarrow> take_bit (32 - string_to_nat p) w \<noteq> 0 \<and> take_bit (32 - string_to_nat p) w \<noteq> mask (32 - string_to_nat p)))"
  using assms by (rule expand_sound_spec)

theorem expandIpv4Cidr_sound_witness:
  "expandIpv4Cidr ''10.0.0.9/30'' = Inr [''10.0.0.9'', ''10.0.0.10''] \<and> distinct [''10.0.0.9'', ''10.0.0.10'']"
proof -
  have "expandIpv4Cidr ''10.0.0.9/30'' = Inr [''10.0.0.9'', ''10.0.0.10'']" by code_simp
  then show ?thesis using expandIpv4Cidr_sound by blast
qed

text \<open>
  Every 32-bit address survives being printed and read back: \<open>ipv4ToInt\<close> of \<open>intToIpv4\<close> is the
  address itself, so the printed forms of different addresses differ.
\<close>

theorem ipv4_text_round_trip: "ipv4ToInt (intToIpv4 n) = Inr n"
  by (rule ipv4_round_trip)

definition leases :: "'x pool_db_scheme \<Rightarrow> id \<rightharpoonup> (id \<times> string)" where
  "leases db u = map_option (\<lambda>a. (ip_poolId a, ip_address a)) (lease_in (ipAddresses db) u)"

lemma candidate_free:
  assumes ok: "pool_ok db" and k: "known_user u t db" and c: "c \<in> set (ipAddresses (releaseIpAddressWithDb t u db))" "ip_assignedTo c = None"
    and v: "v \<noteq> u"
  shows "leases db v \<noteq> Some (ip_poolId c, ip_address c)"
proof
  assume "leases db v = Some (ip_poolId c, ip_address c)"
  then obtain b where b: "lease_in (ipAddresses db) v = Some b" "ip_poolId b = ip_poolId c" "ip_address b = ip_address c"
    by (auto simp: leases_def)
  let ?as = "ipAddresses (releaseIpAddressWithDb t u db)"
  have ok1: "addresses_ok (nextId (releaseIpAddressWithDb t u db)) ?as" using release_spec(1) [OF ok] by (simp add: pool_ok_def)
  have "lease_in ?as v = Some b" using release_spec(2) [OF ok k] b(1) v by simp
  then have b1: "b \<in> set ?as" "ip_assignedTo b = Some v" using lease_iff [OF ok1] by simp_all
  have "distinct (map (\<lambda>a. (ip_poolId a, ip_address a)) ?as)" using ok1 unfolding addresses_ok_def by blast
  then have "b = c" by (rule key_eq_rows [OF _ b1(1) c(1)]) (simp add: b)
  then show False using b1(2) c(2) by simp
qed

text \<open>
  C27. The pool tables implement a partial map from users to (pool, address) that is never shared:
  an allocation sets the user's entry to an address of the pool that no other user holds, a release
  removes it, nobody else's entry changes, the tables stay well formed, and after either radreply
  holds exactly the address the map says for every user.
\<close>

theorem leases_refine_map:
  assumes "pool_ok db"
  shows "(\<forall>a db'. allocateIpAddress collate t p u db = Inr (a, db') \<longrightarrow>
      pool_ok db' \<and> leases db' = (leases db)(u \<mapsto> (p, ip_address a)) \<and> (\<forall>v. v \<noteq> u \<longrightarrow> leases db v \<noteq> Some (p, ip_address a))
      \<and> (\<forall>r \<in> set (radiusUsers db'). framed (ru_username r) (radReplies db') = (case leases db' (ru_id r) of None \<Rightarrow> [] | Some (_, x) \<Rightarrow> [x])))
    \<and> ((\<exists>r \<in> set (radiusUsers db). ru_id r = u \<and> ru_tenantId r = t) \<longrightarrow>
      pool_ok (releaseIpAddress t u db) \<and> leases (releaseIpAddress t u db) = (leases db)(u := None))"
proof (intro conjI allI impI)
  fix a db' assume run: "allocateIpAddress collate t p u db = Inr (a, db')"
  obtain r c where r: "r \<in> set (radiusUsers db)" "ru_id r = u" "ru_tenantId r = t"
    and c: "c \<in> set (ipAddresses (releaseIpAddressWithDb t u db))" "ip_assignedTo c = None" "ip_poolId c = p"
    and a: "a = set_lease (Some u) c" and ok': "pool_ok db'" and l: "lease_in (ipAddresses db') = (lease_in (ipAddresses db))(u \<mapsto> a)"
    by (rule allocate_spec [OF assms run])
  have k: "known_user u t db" using r by (auto simp: known_user_def)
  show "pool_ok db'" by (rule ok')
  show "leases db' = (leases db)(u \<mapsto> (p, ip_address a))" by (rule ext) (simp add: leases_def l a c(3))
  show "leases db v \<noteq> Some (p, ip_address a)" if "v \<noteq> u" for v using candidate_free [OF assms k c(1,2) that] by (simp add: a c(3))
  show "\<forall>r \<in> set (radiusUsers db'). framed (ru_username r) (radReplies db') = (case leases db' (ru_id r) of None \<Rightarrow> [] | Some (_, x) \<Rightarrow> [x])"
    using ok' by (auto simp: pool_ok_def mirrored_def leases_def split: option.split)
next
  assume "\<exists>r \<in> set (radiusUsers db). ru_id r = u \<and> ru_tenantId r = t"
  then have k: "known_user u t db" by (simp add: known_user_def)
  show "pool_ok (releaseIpAddress t u db)" using release_spec(1) [OF assms] by (simp add: releaseIpAddress_def)
  show "leases (releaseIpAddress t u db) = (leases db)(u := None)"
    using release_spec(2) [OF assms k] by (intro ext) (simp add: releaseIpAddress_def leases_def)
qed

text \<open>A pool of two addresses and two users, for the examples.\<close>

definition sample_user :: "id \<Rightarrow> string \<Rightarrow> radius_user" where
  "sample_user i name = \<lparr>ru_id = i, ru_tenantId = 7, ru_customerId = i, ru_customerServiceId = i, ru_username = name, ru_passwordEncrypted = '''',
     ru_status = R_ACTIVE, ru_connectionType = ''PPPOE'', ru_downloadKbps = 1000, ru_uploadKbps = 1000\<rparr>"

definition sample_address :: "id \<Rightarrow> string \<Rightarrow> ip_address" where
  "sample_address i a = \<lparr>ip_id = i, ip_tenantId = 7, ip_poolId = 1, ip_address = a, ip_status = AVAILABLE, ip_assignedTo = None\<rparr>"

definition sample_pool :: pool_db where
  "sample_pool = billing_db.extend (empty_db\<lparr>nextId := 9, radiusUsers := [sample_user 4 ''ann'', sample_user 5 ''bob'']\<rparr>)
     (pool_db.fields [] [sample_address 2 ''10.0.0.9'', sample_address 3 ''10.0.0.10''])"

lemma sample_pool_fields [simp]:
  "radiusUsers sample_pool = [sample_user 4 ''ann'', sample_user 5 ''bob'']" "radReplies sample_pool = []" "nextId sample_pool = 9"
  "ipAddresses sample_pool = [sample_address 2 ''10.0.0.9'', sample_address 3 ''10.0.0.10'']"
  by (simp_all add: sample_pool_def billing_db.defs pool_db.defs empty_db_def)

lemma sample_pool_ok: "pool_ok sample_pool"
  by (simp add: pool_ok_def addresses_ok_def owners_ok_def mirrored_def lease_in_def framed_def sample_user_def sample_address_def)

lemma sample_allocates:
  "\<exists>db'. allocateIpAddress (\<lambda>s. s) 7 1 4 sample_pool = Inr (set_lease (Some 4) (sample_address 3 ''10.0.0.10''), db')"
proof -
  have "sort_key ip_address [sample_address 2 ''10.0.0.9'', sample_address 3 ''10.0.0.10''] = [sample_address 3 ''10.0.0.10'', sample_address 2 ''10.0.0.9'']"
    by (simp add: sample_address_def)
  then have "find_candidate (\<lambda>s. s) 7 1 sample_pool = Some (sample_address 3 ''10.0.0.10'')"
    by (simp add: find_candidate_def) (simp add: sample_address_def)
  moreover have "releaseIpAddressWithDb 7 4 sample_pool = sample_pool" by (simp add: releaseIpAddressWithDb_def sample_address_def)
  moreover have "List.find (\<lambda>u. ru_id u = 4 \<and> ru_tenantId u = 7) (radiusUsers sample_pool) = Some (sample_user 4 ''ann'')" by (simp add: sample_user_def)
  ultimately show ?thesis
    by (simp add: allocateIpAddress_def claim_address_def Let_def) (simp add: sample_address_def set_lease_def)
qed

theorem leases_refine_map_witness:
  "\<exists>a db'. allocateIpAddress (\<lambda>s. s) 7 1 4 sample_pool = Inr (a, db') \<and> leases db' 4 = Some (1, ''10.0.0.10'') \<and> leases db' 5 = None"
proof -
  obtain db' where run: "allocateIpAddress (\<lambda>s. s) 7 1 4 sample_pool = Inr (set_lease (Some 4) (sample_address 3 ''10.0.0.10''), db')"
    using sample_allocates by blast
  have "leases db' = (leases sample_pool)(4 \<mapsto> (1, ip_address (set_lease (Some 4) (sample_address 3 ''10.0.0.10''))))"
    using leases_refine_map [OF sample_pool_ok, of "\<lambda>s. s" 7 1 4] run by blast
  moreover have "leases sample_pool 5 = None" by (simp add: leases_def lease_in_def sample_address_def)
  ultimately show ?thesis using run by (simp add: sample_address_def)
qed

text \<open>
  The two halves of the transaction are not isolated by the database's default level (read
  committed), and the update of the row does not repeat the status test. Two allocations that both
  look for a free address before either has claimed one take the same row: the second claim
  overwrites the first, and radreply hands one address to both users.
\<close>

lemma interleaved_allocations_share_address:
  "\<exists>c db1 db2. find_candidate (\<lambda>s. s) 7 1 sample_pool = Some c
     \<and> claim_address 4 (sample_user 4 ''ann'') c sample_pool = Inr (set_lease (Some 4) c, db1)
     \<and> claim_address 5 (sample_user 5 ''bob'') c db1 = Inr (set_lease (Some 5) c, db2)
     \<and> framed ''ann'' (radReplies db2) = framed ''bob'' (radReplies db2) \<and> framed ''ann'' (radReplies db2) = [ip_address c]"
proof -
  have "sort_key ip_address [sample_address 2 ''10.0.0.9'', sample_address 3 ''10.0.0.10''] = [sample_address 3 ''10.0.0.10'', sample_address 2 ''10.0.0.9'']"
    by (simp add: sample_address_def)
  then have c: "find_candidate (\<lambda>s. s) 7 1 sample_pool = Some (sample_address 3 ''10.0.0.10'')"
    by (simp add: find_candidate_def) (simp add: sample_address_def)
  show ?thesis
    by (rule exI [of _ "sample_address 3 ''10.0.0.10''"], simp only: c)
      (simp add: claim_address_def Let_def sample_address_def sample_user_def set_lease_def framed_def delete_rows_def)
qed

lemma address_rows_simps [simp]:
  "address_rows n t p [] = []"
  "address_rows n t p (a # as) =
     \<lparr>ip_id = n, ip_tenantId = t, ip_poolId = p, ip_address = a, ip_status = AVAILABLE, ip_assignedTo = None\<rparr> # address_rows (Suc n) t p as"
  by (simp_all add: address_rows_def upt_conv_Cons del: upt_Suc)

lemma address_rows_facts:
  "map ip_id (address_rows n t p as) = [n..<n + length as]"
  "map (\<lambda>a. (ip_poolId a, ip_address a)) (address_rows n t p as) = map (Pair p) as"
  "\<forall>a \<in> set (address_rows n t p as). ip_poolId a = p \<and> n \<le> ip_id a \<and> ip_id a < n + length as \<and> ip_status a = AVAILABLE \<and> ip_assignedTo a = None"
proof (induction as arbitrary: n)
  case (Cons a as)
  {
    case 1
    then show ?case using Cons(1) [of "Suc n"] by (simp add: upt_conv_Cons del: upt_Suc)
  next
    case 2
    then show ?case using Cons(2) [of "Suc n"] by simp
  next
    case 3
    then show ?case using Cons(3) [of "Suc n"] by fastforce
  }
qed simp_all

lemma lease_in_append: "\<forall>a \<in> set bs. ip_assignedTo a = None \<Longrightarrow> lease_in (as @ bs) u = lease_in as u"
proof -
  assume "\<forall>a \<in> set bs. ip_assignedTo a = None"
  then have "List.find (\<lambda>a. ip_assignedTo a = Some u) bs = None" by (auto simp: find_None_iff)
  then show ?thesis by (simp add: lease_in_def find_append split: option.split)
qed

lemma addresses_ok_append:
  assumes ok: "addresses_ok n as" and d: "distinct bs"
  shows "addresses_ok (n + 1 + length bs) (as @ address_rows (n + 1) t n bs)"
proof -
  let ?new = "address_rows (n + 1) t n bs"
  note f = address_rows_facts [of "n + 1" t n bs]
  have lt: "\<forall>a \<in> set as. ip_id a < n \<and> ip_poolId a < n" and ids: "distinct (map ip_id as)"
    and pairs: "distinct (map (\<lambda>a. (ip_poolId a, ip_address a)) as)"
    and st: "\<forall>a \<in> set as. (ip_status a = ASSIGNED) = (ip_assignedTo a \<noteq> None)"
    using ok unfolding addresses_ok_def by blast+
  have "set (map ip_id as) \<inter> set (map ip_id ?new) = {}" unfolding f(1) using lt by auto
  moreover have "distinct (map ip_id ?new)" unfolding f(1) by (rule distinct_upt)
  ultimately have "distinct (map ip_id (as @ ?new))" using ids unfolding map_append distinct_append by blast
  moreover have "distinct (map (\<lambda>a. (ip_poolId a, ip_address a)) (as @ ?new))"
    using pairs lt f(2) d by (auto simp: distinct_map inj_on_def)
  moreover have "\<forall>a \<in> set (as @ ?new). ip_id a < n + 1 + length bs \<and> ip_poolId a < n + 1 + length bs"
    using lt f(3) by fastforce
  moreover have "\<forall>a \<in> set (as @ ?new). (ip_status a = ASSIGNED) = (ip_assignedTo a \<noteq> None)"
    using st f(3) by fastforce
  moreover have "\<forall>a \<in> set (as @ ?new). \<forall>b \<in> set (as @ ?new). \<forall>u. ip_assignedTo a = Some u \<longrightarrow> ip_assignedTo b = Some u \<longrightarrow> ip_id a = ip_id b"
    using f(3) ok unfolding addresses_ok_def by (metis UnE not_None_eq set_append)
  ultimately show ?thesis unfolding addresses_ok_def by blast
qed

text \<open>Creating a pool keeps the tables well formed and leases nothing.\<close>

lemma createIpPool_keeps:
  assumes ok: "pool_ok db" and run: "createIpPool inp db = Inr (p, db')"
  shows "pool_ok db' \<and> leases db' = leases db"
proof -
  obtain as where as: "(if cp_version inp = IPV4 then expandIpv4Cidr (cp_cidr inp) else Inr []) = Inr as"
    and db': "ipAddresses db' = ipAddresses db @ address_rows (nextId db + 1) (cp_tenantId inp) (nextId db) as"
      "nextId db' = nextId db + 1 + length as" "radiusUsers db' = radiusUsers db" "radReplies db' = radReplies db"
    using run by (auto simp: createIpPool_def Let_def split: if_splits sum.splits)
  have d: "distinct as" using as expand_sound_spec [of "cp_cidr inp" as] by (auto split: if_splits)
  let ?new = "address_rows (nextId db + 1) (cp_tenantId inp) (nextId db) as"
  have none: "\<forall>a \<in> set ?new. ip_assignedTo a = None" using address_rows_facts(3) by blast
  have l: "lease_in (ipAddresses db @ ?new) u = lease_in (ipAddresses db) u" for u by (rule lease_in_append [OF none])
  have "addresses_ok (nextId db') (ipAddresses db')" unfolding db' by (rule addresses_ok_append [OF _ d]) (use ok in \<open>simp add: pool_ok_def\<close>)
  moreover have "owners_ok (ipAddresses db') (radiusUsers db')" using ok none by (auto simp: pool_ok_def owners_ok_def db')
  moreover have "mirrored (ipAddresses db') (radiusUsers db') (radReplies db')" using ok unfolding pool_ok_def mirrored_def db' l by blast
  ultimately show ?thesis using ok unfolding pool_ok_def leases_def [abs_def] db' l by blast
qed

end
