(* ===== verification/Vouchers.thy ===== *)
theory Vouchers
  imports Ledger RadiusUsers
begin

text \<open>
  Hotspot vouchers (packages/radius/src/voucher.service.ts) and the packages they are sold as
  (packages/radius/src/hotspot-package.service.ts), over the hotspot's tables. A voucher is its own
  RADIUS identity: its code is the username and the password of its radcheck rows.
\<close>

section \<open>Tables\<close>

datatype voucher_status = V_UNUSED | V_ACTIVE | V_EXPIRED | V_USED

record hotspot_package =
  hp_id :: id
  hp_tenantId :: id
  hp_name :: string
  hp_description :: "string option"
  hp_priceMinor :: minor
  hp_currency :: string
  hp_durationMinutes :: int
  hp_dataCapMb :: "int option"
  hp_downloadKbps :: "int option"
  hp_uploadKbps :: "int option"
  hp_isPopular :: bool
  hp_badge :: "string option"
  hp_simultaneousUse :: int
  hp_blockTethering :: bool
  hp_appPolicy :: "string option"
  hp_isActive :: bool

record voucher =
  v_id :: id
  v_tenantId :: id
  v_code :: string
  v_hotspotPackageId :: "id option"
  v_packageId :: "id option"
  v_durationMinutes :: "int option"
  v_dataCapMb :: "int option"
  v_downloadKbps :: "int option"
  v_uploadKbps :: "int option"
  v_simultaneousUse :: "int option"
  v_appPolicy :: "string option"
  v_status :: voucher_status
  v_activatedAt :: "time option"
  v_expiresAt :: "time option"
  v_bytesIn :: "int option"
  v_bytesOut :: "int option"
  v_usageUpdatedAt :: "time option"
  v_createdByUserId :: "id option"

record hotspot_device =
  hd_id :: id
  hd_tenantId :: id
  hd_macAddress :: string
  hd_voucherCode :: string
  hd_baselineBytesIn :: int
  hd_baselineBytesOut :: int
  hd_lastSeenAt :: time

record nas_row =
  ns_id :: id
  ns_tenantId :: id
  ns_routerId :: "id option"
  ns_nasname :: string
  ns_secret :: string

text \<open>Of a router only what the RADIUS server reads.\<close>

record router_row =
  rt_id :: id
  rt_host :: "string option"
  rt_deletedAt :: "time option"

record rad_acct =
  ra_tenantId :: id
  ra_acctSessionId :: string
  ra_acctUniqueId :: string
  ra_username :: string
  ra_nasIpAddress :: string
  ra_nasPortId :: "string option"
  ra_nasPortType :: "string option"
  ra_startTime :: "time option"
  ra_updateTime :: "time option"
  ra_stopTime :: "time option"
  ra_sessionTime :: "int option"
  ra_inputOctets :: int
  ra_outputOctets :: int
  ra_calledStationId :: "string option"
  ra_callingStationId :: "string option"
  ra_terminateCause :: "string option"
  ra_framedIpAddress :: "string option"

record hotspot_db = gateway_db +
  hotspotPackages :: "hotspot_package list"
  vouchers :: "voucher list"
  hotspotDevices :: "hotspot_device list"
  nasRows :: "nas_row list"
  routerRows :: "router_row list"
  radAccts :: "rad_acct list"

section \<open>Packages\<close>

record create_package_input =
  pi_name :: string
  pi_description :: "string option"
  pi_priceMinor :: minor
  pi_currency :: "string option"
  pi_durationMinutes :: int
  pi_dataCapMb :: "int option"
  pi_downloadKbps :: "int option"
  pi_uploadKbps :: "int option"
  pi_isPopular :: "bool option"
  pi_badge :: "string option"
  pi_simultaneousUse :: "int option"
  pi_blockTethering :: "bool option"
  pi_appPolicy :: "string option"

definition or_default :: "'a \<Rightarrow> 'a option \<Rightarrow> 'a" where
  "or_default d x = (case x of None \<Rightarrow> d | Some v \<Rightarrow> v)"

text \<open>\<open>(x ?? "").trim() || "ALL"\<close>.\<close>

definition policy_or_all :: "string option \<Rightarrow> string" where
  "policy_or_all p = (case p of None \<Rightarrow> ''ALL'' | Some s \<Rightarrow> if trim s = [] then ''ALL'' else trim s)"

definition listHotspotPackages :: "id \<Rightarrow> bool \<Rightarrow> 'x hotspot_db_scheme \<Rightarrow> hotspot_package list" where
  "listHotspotPackages tenantId onlyActive db =
     sort_key hp_priceMinor (sort_key hp_durationMinutes
       (filter (\<lambda>p. hp_tenantId p = tenantId \<and> (onlyActive \<longrightarrow> hp_isActive p)) (hotspotPackages db)))"

definition find_hotspot_package :: "id \<Rightarrow> 'x hotspot_db_scheme \<Rightarrow> hotspot_package option" where
  "find_hotspot_package i db = List.find (\<lambda>p. hp_id p = i) (hotspotPackages db)"

definition getHotspotPackageOrThrow :: "id \<Rightarrow> id \<Rightarrow> 'x hotspot_db_scheme \<Rightarrow> hotspot_package result" where
  "getHotspotPackageOrThrow tenantId i db =
     (case find_hotspot_package i db of None \<Rightarrow> Inl (NotFoundError ''HotspotPackage'')
      | Some p \<Rightarrow> if hp_tenantId p \<noteq> tenantId then Inl (NotFoundError ''HotspotPackage'') else Inr p)"

definition createHotspotPackage ::
  "id \<Rightarrow> create_package_input \<Rightarrow> 'x hotspot_db_scheme \<Rightarrow> (hotspot_package \<times> 'x hotspot_db_scheme) result" where
  "createHotspotPackage tenantId inp db =
     (if pi_durationMinutes inp \<le> 0 then Inl (ValidationError ''durationMinutes must be greater than 0'')
      else if pi_priceMinor inp < 0 then Inl (ValidationError ''priceMinor cannot be negative'')
      else let p = \<lparr>hp_id = nextId db, hp_tenantId = tenantId, hp_name = trim (pi_name inp), hp_description = map_option trim (pi_description inp),
                 hp_priceMinor = pi_priceMinor inp, hp_currency = or_default ''KES'' (pi_currency inp),
                 hp_durationMinutes = pi_durationMinutes inp, hp_dataCapMb = pi_dataCapMb inp,
                 hp_downloadKbps = pi_downloadKbps inp, hp_uploadKbps = pi_uploadKbps inp,
                 hp_isPopular = or_default False (pi_isPopular inp), hp_badge = map_option trim (pi_badge inp),
                 hp_simultaneousUse = max 1 (or_default 1 (pi_simultaneousUse inp)),
                 hp_blockTethering = (pi_blockTethering inp = Some True), hp_appPolicy = Some (policy_or_all (pi_appPolicy inp)), hp_isActive = True\<rparr>
           in Inr (p, db\<lparr>hotspotPackages := hotspotPackages db @ [p], nextId := nextId db + 1\<rparr>))"

text \<open>An update: an outer \<open>None\<close> is a field left out, an inner one an explicit null.\<close>

record update_package_input =
  pu_name :: "string option"
  pu_description :: "string option option"
  pu_priceMinor :: "minor option"
  pu_currency :: "string option"
  pu_durationMinutes :: "int option"
  pu_dataCapMb :: "int option option"
  pu_downloadKbps :: "int option option"
  pu_uploadKbps :: "int option option"
  pu_isPopular :: "bool option"
  pu_badge :: "string option option"
  pu_isActive :: "bool option"
  pu_simultaneousUse :: "int option option"
  pu_blockTethering :: "bool option option"
  pu_appPolicy :: "string option option"

definition apply_package_update :: "update_package_input \<Rightarrow> hotspot_package \<Rightarrow> hotspot_package" where
  "apply_package_update u p = p\<lparr>
     hp_name := (case pu_name u of None \<Rightarrow> hp_name p | Some s \<Rightarrow> trim s),
     hp_description := (case pu_description u of None \<Rightarrow> hp_description p | Some s \<Rightarrow> map_option trim s),
     hp_priceMinor := or_default (hp_priceMinor p) (pu_priceMinor u),
     hp_currency := or_default (hp_currency p) (pu_currency u),
     hp_durationMinutes := or_default (hp_durationMinutes p) (pu_durationMinutes u),
     hp_dataCapMb := or_default (hp_dataCapMb p) (pu_dataCapMb u),
     hp_downloadKbps := or_default (hp_downloadKbps p) (pu_downloadKbps u),
     hp_uploadKbps := or_default (hp_uploadKbps p) (pu_uploadKbps u),
     hp_isPopular := or_default (hp_isPopular p) (pu_isPopular u),
     hp_badge := (case pu_badge u of None \<Rightarrow> hp_badge p | Some s \<Rightarrow> map_option trim s),
     hp_isActive := or_default (hp_isActive p) (pu_isActive u),
     hp_simultaneousUse := (case pu_simultaneousUse u of None \<Rightarrow> hp_simultaneousUse p | Some n \<Rightarrow> max 1 (or_default 1 n)),
     hp_blockTethering := (case pu_blockTethering u of None \<Rightarrow> hp_blockTethering p | Some b \<Rightarrow> b = Some True),
     hp_appPolicy := (case pu_appPolicy u of None \<Rightarrow> hp_appPolicy p | Some s \<Rightarrow> Some (policy_or_all s))\<rparr>"

definition updateHotspotPackage ::
  "id \<Rightarrow> id \<Rightarrow> update_package_input \<Rightarrow> 'x hotspot_db_scheme \<Rightarrow> (hotspot_package \<times> 'x hotspot_db_scheme) result" where
  "updateHotspotPackage tenantId i u db =
     (case getHotspotPackageOrThrow tenantId i db of Inl e \<Rightarrow> Inl e
      | Inr p \<Rightarrow> Inr (apply_package_update u p,
          db\<lparr>hotspotPackages := update_where (\<lambda>x. hp_id x = i) (apply_package_update u) (hotspotPackages db)\<rparr>))"

definition deleteHotspotPackage :: "id \<Rightarrow> id \<Rightarrow> 'x hotspot_db_scheme \<Rightarrow> (unit \<times> 'x hotspot_db_scheme) result" where
  "deleteHotspotPackage tenantId i db =
     (case getHotspotPackageOrThrow tenantId i db of Inl e \<Rightarrow> Inl e
      | Inr p \<Rightarrow> Inr ((), db\<lparr>hotspotPackages := update_where (\<lambda>x. hp_id x = i) (\<lambda>x. x\<lparr>hp_isActive := False\<rparr>) (hotspotPackages db)\<rparr>))"

section \<open>Codes\<close>

definition code_alphabet :: string where
  "code_alphabet = ''ABCDEFGHJKLMNPQRSTUVWXYZ23456789''"

text \<open>\<open>raw\<close> is the base64url token the generator draws.\<close>

definition randomVoucherCode :: "string \<Rightarrow> string" where
  "randomVoucherCode raw =
     map (\<lambda>i. code_alphabet ! (of_char (raw ! (i mod length raw)) mod length code_alphabet)) [0..<8]"

definition strip_only :: "string \<Rightarrow> string" where
  "strip_only s = (if ends_with ''_only'' s then take (length s - 5) s else s)"

definition dash_other :: "char \<Rightarrow> char" where
  "dash_other c = (if (CHR ''a'' \<le> c \<and> c \<le> CHR ''z'') \<or> (CHR ''0'' \<le> c \<and> c \<le> CHR ''9'') then c else CHR ''-'')"

definition getSocialClientAddressList :: "string \<Rightarrow> string" where
  "getSocialClientAddressList policy =
     (let norm = trim (map to_upper policy)
      in if norm = ''TIKTOK_ONLY'' then ''mashup-client-tiktok''
         else if norm = ''YOUTUBE_ONLY'' then ''mashup-client-youtube''
         else if norm = ''FACEBOOK_ONLY'' then ''mashup-client-facebook''
         else if norm = ''INSTAGRAM_ONLY'' then ''mashup-client-instagram''
         else if norm = ''WHATSAPP_ONLY'' then ''mashup-client-whatsapp''
         else if norm = ''SOCIAL_BUNDLE'' then ''mashup-client-social''
         else ''mashup-client-'' @ map dash_other (strip_only (map to_lower norm)))"

section \<open>Creating vouchers\<close>

record generate_input =
  gi_tenantId :: id
  gi_createdByUserId :: "id option"
  gi_count :: int
  gi_hotspotPackageId :: "id option"
  gi_packageId :: "id option"
  gi_durationMinutes :: "int option"
  gi_dataCapMb :: "int option"
  gi_downloadKbps :: "int option"
  gi_uploadKbps :: "int option"
  gi_simultaneousUse :: "int option"
  gi_blockTethering :: "bool option"
  gi_appPolicy :: "string option"

text \<open>A number that is truthy in JavaScript, and \<open>p || "ALL"\<close>.\<close>

definition nonzero :: "int option \<Rightarrow> int option" where
  "nonzero n = (if n = Some 0 then None else n)"

definition policy_text :: "string option \<Rightarrow> string" where
  "policy_text p = (case p of None \<Rightarrow> ''ALL'' | Some s \<Rightarrow> if s = [] then ''ALL'' else s)"

definition find_voucher :: "id \<Rightarrow> string \<Rightarrow> 'x hotspot_db_scheme \<Rightarrow> voucher option" where
  "find_voucher t code db = List.find (\<lambda>v. v_tenantId v = t \<and> v_code v = code) (vouchers db)"

definition rad_reply :: "string \<Rightarrow> string \<Rightarrow> string \<Rightarrow> string \<Rightarrow> rad_row" where
  "rad_reply code attribute op val = \<lparr>rr_username = code, rr_attribute = attribute, rr_op = op, rr_value = val\<rparr>"

text \<open>The radreply rows of a new voucher, in the order they are created.\<close>

definition voucher_replies :: "generate_input \<Rightarrow> int \<Rightarrow> string \<Rightarrow> rad_row list" where
  "voucher_replies inp simUse code =
     [rad_reply code ''Port-Limit'' ''='' (int_to_string simUse)]
     @ (if gi_blockTethering inp = Some True
        then [rad_reply code ''Mikrotik-Address-List'' ''+='' ''mashup-anti-tether''] else [])
     @ (case gi_appPolicy inp of None \<Rightarrow> []
        | Some p \<Rightarrow> if p = [] \<or> p = ''ALL'' then []
            else [rad_reply code ''Mikrotik-Address-List'' ''+='' (getSocialClientAddressList p)])
     @ (case nonzero (gi_durationMinutes inp) of None \<Rightarrow> []
        | Some m \<Rightarrow> [rad_reply code ''Session-Timeout'' ''='' (int_to_string (m * 60))])
     @ (case nonzero (gi_dataCapMb inp) of None \<Rightarrow> []
        | Some mb \<Rightarrow> [rad_reply code ''Mikrotik-Total-Limit'' ''='' (int_to_string (mb * 1024 * 1024))])
     @ (case (nonzero (gi_downloadKbps inp), nonzero (gi_uploadKbps inp)) of
          (Some d, Some u) \<Rightarrow> [rad_reply code ''Mikrotik-Rate-Limit'' ''='' (int_to_string u @ ''k/'' @ int_to_string d @ ''k'')]
        | _ \<Rightarrow> [])"

definition insert_voucher ::
  "generate_input \<Rightarrow> string \<Rightarrow> 'x hotspot_db_scheme \<Rightarrow> voucher \<times> 'x hotspot_db_scheme" where
  "insert_voucher inp code db =
     (let simUse = max 1 (or_default 1 (gi_simultaneousUse inp));
          voucher = \<lparr>v_id = nextId db, v_tenantId = gi_tenantId inp, v_code = code,
            v_hotspotPackageId = gi_hotspotPackageId inp, v_packageId = gi_packageId inp,
            v_durationMinutes = gi_durationMinutes inp, v_dataCapMb = gi_dataCapMb inp,
            v_downloadKbps = gi_downloadKbps inp, v_uploadKbps = gi_uploadKbps inp,
            v_simultaneousUse = Some simUse, v_appPolicy = Some (policy_text (gi_appPolicy inp)),
            v_status = V_UNUSED, v_activatedAt = None, v_expiresAt = None, v_bytesIn = None, v_bytesOut = None,
            v_usageUpdatedAt = None, v_createdByUserId = gi_createdByUserId inp\<rparr>
      in (voucher, db\<lparr>nextId := nextId db + 1, vouchers := vouchers db @ [voucher],
            radChecks := radChecks db @ [rad_reply code ''Cleartext-Password'' '':='' code,
              rad_reply code ''Simultaneous-Use'' '':='' (int_to_string simUse)],
            radReplies := radReplies db @ voucher_replies inp simUse code\<rparr>))"

text \<open>At most five draws: \<open>raws\<close> are the tokens drawn, \<open>left\<close> the attempts left.\<close>

fun create_attempts ::
  "nat \<Rightarrow> string list \<Rightarrow> generate_input \<Rightarrow> 'x hotspot_db_scheme \<Rightarrow> (voucher \<times> 'x hotspot_db_scheme) result" where
  "create_attempts (Suc left) (raw # raws) inp db =
     (let code = randomVoucherCode raw
      in case find_voucher (gi_tenantId inp) code db of
           Some clash \<Rightarrow> create_attempts left raws inp db
         | None \<Rightarrow> Inr (insert_voucher inp code db))"
| "create_attempts _ _ inp db = Inl (ValidationError ''Could not generate a unique voucher code, please retry'')"

definition createOneVoucher ::
  "string list \<Rightarrow> generate_input \<Rightarrow> 'x hotspot_db_scheme \<Rightarrow> (voucher \<times> 'x hotspot_db_scheme) result" where
  "createOneVoucher raws inp db = create_attempts 5 raws inp db"

text \<open>The vouchers of a batch are created one by one: an error leaves the earlier ones in place.\<close>

fun create_batch ::
  "nat \<Rightarrow> string list list \<Rightarrow> generate_input \<Rightarrow> 'x hotspot_db_scheme \<Rightarrow> voucher list result \<times> 'x hotspot_db_scheme" where
  "create_batch 0 _ inp db = (Inr [], db)"
| "create_batch (Suc n) draws inp db =
     (case createOneVoucher (hd draws) inp db of Inl e \<Rightarrow> (Inl e, db)
      | Inr (v, db') \<Rightarrow>
          (case create_batch n (tl draws) inp db' of
             (Inl e, db'') \<Rightarrow> (Inl e, db'')
           | (Inr vs, db'') \<Rightarrow> (Inr (v # vs), db'')))"

definition or_else :: "'a option \<Rightarrow> 'a option \<Rightarrow> 'a option" where
  "or_else x y = (case x of None \<Rightarrow> y | Some v \<Rightarrow> Some v)"

definition with_package_defaults :: "hotspot_package \<Rightarrow> generate_input \<Rightarrow> generate_input" where
  "with_package_defaults pkg inp = inp\<lparr>
     gi_durationMinutes := or_else (gi_durationMinutes inp) (Some (hp_durationMinutes pkg)),
     gi_dataCapMb := or_else (gi_dataCapMb inp) (hp_dataCapMb pkg),
     gi_downloadKbps := or_else (gi_downloadKbps inp) (hp_downloadKbps pkg),
     gi_uploadKbps := or_else (gi_uploadKbps inp) (hp_uploadKbps pkg),
     gi_simultaneousUse := or_else (gi_simultaneousUse inp) (Some (hp_simultaneousUse pkg)),
     gi_blockTethering := or_else (gi_blockTethering inp) (Some (hp_blockTethering pkg)),
     gi_appPolicy := or_else (gi_appPolicy inp) (hp_appPolicy pkg)\<rparr>"

definition resolved_input :: "generate_input \<Rightarrow> generate_input" where
  "resolved_input inp = inp\<lparr>
     gi_simultaneousUse := Some (or_default 1 (gi_simultaneousUse inp)),
     gi_blockTethering := Some (gi_blockTethering inp = Some True),
     gi_appPolicy := Some (policy_text (gi_appPolicy inp))\<rparr>"

definition generateVouchers ::
  "string list list \<Rightarrow> generate_input \<Rightarrow> 'x hotspot_db_scheme \<Rightarrow> voucher list result \<times> 'x hotspot_db_scheme" where
  "generateVouchers draws inp db =
     (if gi_count inp < 1 \<or> gi_count inp > 500 then (Inl (ValidationError ''count must be between 1 and 500''), db)
      else case gi_hotspotPackageId inp of
          None \<Rightarrow> create_batch (nat (gi_count inp)) draws (resolved_input inp) db
        | Some pid \<Rightarrow>
            (case find_hotspot_package pid db of
               None \<Rightarrow> (Inl (NotFoundError ''Hotspot package''), db)
             | Some pkg \<Rightarrow>
                 if hp_tenantId pkg \<noteq> gi_tenantId inp then (Inl (NotFoundError ''Hotspot package''), db)
                 else create_batch (nat (gi_count inp)) draws (resolved_input (with_package_defaults pkg inp)) db))"

definition createHotspotVoucherForPurchase ::
  "string list \<Rightarrow> id \<Rightarrow> id \<Rightarrow> 'x hotspot_db_scheme \<Rightarrow> (voucher \<times> 'x hotspot_db_scheme) result" where
  "createHotspotVoucherForPurchase raws tenantId hotspotPackageId db =
     (case find_hotspot_package hotspotPackageId db of
        None \<Rightarrow> Inl RecordNotFound
      | Some pkg \<Rightarrow>
          if hp_tenantId pkg \<noteq> tenantId then Inl (NotFoundError ''HotspotPackage'')
          else createOneVoucher raws
            \<lparr>gi_tenantId = tenantId, gi_createdByUserId = None, gi_count = 1, gi_hotspotPackageId = Some (hp_id pkg),
             gi_packageId = None, gi_durationMinutes = Some (hp_durationMinutes pkg), gi_dataCapMb = hp_dataCapMb pkg,
             gi_downloadKbps = hp_downloadKbps pkg, gi_uploadKbps = hp_uploadKbps pkg,
             gi_simultaneousUse = Some (hp_simultaneousUse pkg), gi_blockTethering = Some (hp_blockTethering pkg),
             gi_appPolicy = hp_appPolicy pkg\<rparr> db)"

section \<open>A voucher's life\<close>

definition validateVoucherForLogin :: "id \<Rightarrow> string \<Rightarrow> 'x hotspot_db_scheme \<Rightarrow> voucher result" where
  "validateVoucherForLogin tenantId code db =
     (case find_voucher tenantId code db of None \<Rightarrow> Inl (NotFoundError ''Voucher'') | Some v \<Rightarrow> Inr v)"

definition start_clock :: "time \<Rightarrow> voucher \<Rightarrow> voucher" where
  "start_clock now v = v\<lparr>v_status := V_ACTIVE, v_activatedAt := Some now,
     v_expiresAt := map_option (\<lambda>m. now + m * 60000) (nonzero (v_durationMinutes v))\<rparr>"

definition activateVoucher :: "id \<Rightarrow> string \<Rightarrow> 'x hotspot_db_scheme \<Rightarrow> (voucher \<times> 'x hotspot_db_scheme) result" where
  "activateVoucher tenantId code db =
     (case find_voucher tenantId code db of None \<Rightarrow> Inl (NotFoundError ''Voucher'')
      | Some v \<Rightarrow>
          if v_status v \<noteq> V_UNUSED then Inr (v, db)
          else Inr (start_clock (clock db) v,
                 db\<lparr>vouchers := update_where (\<lambda>x. v_id x = v_id v) (start_clock (clock db)) (vouchers db)\<rparr>))"

definition delete_user :: "string \<Rightarrow> rad_row list \<Rightarrow> rad_row list" where
  "delete_user code rows = filter (\<lambda>r. rr_username r \<noteq> code) rows"

definition voucher_overdue :: "time \<Rightarrow> voucher \<Rightarrow> bool" where
  "voucher_overdue now v \<longleftrightarrow> v_status v = V_ACTIVE \<and> (case v_expiresAt v of None \<Rightarrow> False | Some t \<Rightarrow> t < now)"

definition expire_voucher :: "voucher \<Rightarrow> 'x hotspot_db_scheme \<Rightarrow> 'x hotspot_db_scheme" where
  "expire_voucher v db = db\<lparr>
     vouchers := update_where (\<lambda>x. v_id x = v_id v) (\<lambda>x. x\<lparr>v_status := V_EXPIRED\<rparr>) (vouchers db),
     radChecks := delete_user (v_code v) (radChecks db),
     radReplies := delete_user (v_code v) (radReplies db)\<rparr>"

definition expireOverdueVouchers :: "'x hotspot_db_scheme \<Rightarrow> nat \<times> 'x hotspot_db_scheme" where
  "expireOverdueVouchers db =
     (let overdue = take 500 (filter (voucher_overdue (clock db)) (vouchers db))
      in (length overdue, foldl (\<lambda>d v. expire_voucher v d) db overdue))"

section \<open>The sweep\<close>

abbreviation mark_expired :: "voucher \<Rightarrow> voucher" where
  "mark_expired v \<equiv> v\<lparr>v_status := V_EXPIRED\<rparr>"

lemma update_where_update_where:
  "(\<And>r. q (f r) = q r) \<Longrightarrow> (\<And>r. f (f r) = f r) \<Longrightarrow>
     update_where q f (update_where p f t) = update_where (\<lambda>r. p r \<or> q r) f t"
  by (induction t) auto

lemma fold_expire:
  "vouchers (foldl (\<lambda>d v. expire_voucher v d) db vs) = update_where (\<lambda>x. v_id x \<in> v_id ` set vs) mark_expired (vouchers db)
   \<and> radChecks (foldl (\<lambda>d v. expire_voucher v d) db vs) = filter (\<lambda>r. rr_username r \<notin> v_code ` set vs) (radChecks db)
   \<and> radReplies (foldl (\<lambda>d v. expire_voucher v d) db vs) = filter (\<lambda>r. rr_username r \<notin> v_code ` set vs) (radReplies db)
   \<and> clock (foldl (\<lambda>d v. expire_voucher v d) db vs) = clock db
   \<and> nextId (foldl (\<lambda>d v. expire_voucher v d) db vs) = nextId db
   \<and> hotspotDevices (foldl (\<lambda>d v. expire_voucher v d) db vs) = hotspotDevices db
   \<and> nasRows (foldl (\<lambda>d v. expire_voucher v d) db vs) = nasRows db
   \<and> radAccts (foldl (\<lambda>d v. expire_voucher v d) db vs) = radAccts db"
proof (induction vs arbitrary: db)
  case Nil
  then show ?case by (simp add: update_where_none)
next
  case (Cons v vs)
  have one: "vouchers (expire_voucher v db) = update_where (\<lambda>x. v_id x = v_id v) mark_expired (vouchers db)"
    "radChecks (expire_voucher v db) = filter (\<lambda>r. rr_username r \<noteq> v_code v) (radChecks db)"
    "radReplies (expire_voucher v db) = filter (\<lambda>r. rr_username r \<noteq> v_code v) (radReplies db)"
    "clock (expire_voucher v db) = clock db" "nextId (expire_voucher v db) = nextId db"
    "hotspotDevices (expire_voucher v db) = hotspotDevices db" "nasRows (expire_voucher v db) = nasRows db"
    "radAccts (expire_voucher v db) = radAccts db"
    by (simp_all add: expire_voucher_def delete_user_def)
  show ?case
    unfolding foldl_Cons using Cons.IH [of "expire_voucher v db"] unfolding one
    by (simp add: update_where_update_where conj_commute)
qed

lemma sweep_result:
  assumes "expireOverdueVouchers db = (n, db')"
  shows "n = min 500 (length (filter (voucher_overdue (clock db)) (vouchers db)))"
    and "vouchers db' = update_where (\<lambda>x. v_id x \<in> v_id ` set (take 500 (filter (voucher_overdue (clock db)) (vouchers db)))) mark_expired (vouchers db)"
    and "radChecks db' = filter (\<lambda>r. rr_username r \<notin> v_code ` set (take 500 (filter (voucher_overdue (clock db)) (vouchers db)))) (radChecks db)"
    and "radReplies db' = filter (\<lambda>r. rr_username r \<notin> v_code ` set (take 500 (filter (voucher_overdue (clock db)) (vouchers db)))) (radReplies db)"
    and "clock db' = clock db" and "nextId db' = nextId db" and "hotspotDevices db' = hotspotDevices db"
    and "nasRows db' = nasRows db" and "radAccts db' = radAccts db"
  using assms by (auto simp: expireOverdueVouchers_def Let_def fold_expire min.commute)

lemma filter_not_in_take:
  assumes "distinct xs"
  shows "filter (\<lambda>x. x \<notin> set (take k xs)) xs = drop k xs"
proof -
  have a: "filter (\<lambda>x. x \<notin> set (take k xs)) (take k xs) = []"
    by (simp add: filter_empty_conv)
  have "set (take k xs) \<inter> set (drop k xs) = {}"
    using assms by (rule set_take_disj_set_drop_if_distinct) simp
  then have b: "filter (\<lambda>x. x \<notin> set (take k xs)) (drop k xs) = drop k xs"
    by (intro filter_True) blast
  show ?thesis
    using a b filter_append [of "\<lambda>x. x \<notin> set (take k xs)" "take k xs" "drop k xs"] by simp
qed

lemma filter_update_where_left:
  assumes "\<And>r. p r \<Longrightarrow> \<not> q (f r)"
  shows "filter q (update_where p f t) = filter (\<lambda>r. \<not> p r) (filter q t)"
  using assms by (induction t) auto

lemma sweep_overdue:
  assumes ids: "distinct (map v_id (vouchers db))" and run: "expireOverdueVouchers db = (n, db')"
  shows "filter (voucher_overdue (clock db')) (vouchers db') = drop 500 (filter (voucher_overdue (clock db)) (vouchers db))"
    and "distinct (map v_id (vouchers db'))"
proof -
  let ?od = "filter (voucher_overdue (clock db)) (vouchers db)"
  have same: "v_id x \<in> v_id ` set (take 500 ?od) \<longleftrightarrow> x \<in> set (take 500 ?od)" if "x \<in> set (vouchers db)" for x
  proof
    assume "v_id x \<in> v_id ` set (take 500 ?od)"
    then obtain y where y: "y \<in> set (take 500 ?od)" "v_id x = v_id y" by auto
    have "y \<in> set (vouchers db)" using in_set_takeD [OF y(1)] by simp
    from key_eq_rows [OF ids that this y(2)] y(1) show "x \<in> set (take 500 ?od)" by simp
  qed simp
  have "distinct (vouchers db)" using ids by (simp add: distinct_map)
  then have d: "distinct ?od" by simp
  have "filter (voucher_overdue (clock db')) (vouchers db') = filter (\<lambda>x. v_id x \<notin> v_id ` set (take 500 ?od)) ?od"
    unfolding sweep_result(5) [OF run] sweep_result(2) [OF run]
    by (rule filter_update_where_left) (simp add: voucher_overdue_def)
  also have "\<dots> = filter (\<lambda>x. x \<notin> set (take 500 ?od)) ?od"
    by (rule filter_cong [OF refl]) (simp add: same)
  also have "\<dots> = drop 500 ?od" by (rule filter_not_in_take [OF d])
  finally show "filter (voucher_overdue (clock db')) (vouchers db') = drop 500 ?od" .
  show "distinct (map v_id (vouchers db'))"
    unfolding sweep_result(2) [OF run] using ids by (simp add: map_update_where)
qed

text \<open>\<open>k\<close> runs of the sweep, one after the other.\<close>

fun sweeps :: "nat \<Rightarrow> 'x hotspot_db_scheme \<Rightarrow> 'x hotspot_db_scheme" where
  "sweeps 0 db = db"
| "sweeps (Suc k) db = sweeps k (snd (expireOverdueVouchers db))"

lemma sweeps_overdue:
  assumes "distinct (map v_id (vouchers db))"
  shows "filter (voucher_overdue (clock db)) (vouchers (sweeps k db)) = drop (500 * k) (filter (voucher_overdue (clock db)) (vouchers db))"
  using assms
proof (induction k arbitrary: db)
  case 0
  then show ?case by simp
next
  case (Suc k)
  obtain n db' where run: "expireOverdueVouchers db = (n, db')" by (cases "expireOverdueVouchers db")
  note r = sweep_overdue [OF Suc.prems run]
  show ?case
    using Suc.IH [OF r(2)] r(1) sweep_result(5) [OF run] by (simp add: run add.commute)
qed

lemma sweeps_shrink: "set (radChecks (sweeps k db)) \<subseteq> set (radChecks db)"
proof (induction k arbitrary: db)
  case 0
  then show ?case by simp
next
  case (Suc k)
  obtain n db' where run: "expireOverdueVouchers db = (n, db')" by (cases "expireOverdueVouchers db")
  have "set (radChecks db') \<subseteq> set (radChecks db)" unfolding sweep_result(3) [OF run] by auto
  with Suc.IH [of db'] show ?case by (simp add: run)
qed

lemma sweeps_revoke:
  assumes "distinct (map v_id (vouchers db))"
    and "v \<in> set (take (500 * k) (filter (voucher_overdue (clock db)) (vouchers db)))"
  shows "v_code v \<notin> rr_username ` set (radChecks (sweeps k db))"
  using assms
proof (induction k arbitrary: db)
  case 0
  then show ?case by simp
next
  case (Suc k)
  let ?od = "filter (voucher_overdue (clock db)) (vouchers db)"
  obtain n db' where run: "expireOverdueVouchers db = (n, db')" by (cases "expireOverdueVouchers db")
  note r = sweep_overdue [OF Suc.prems(1) run]
  have "v \<in> set (take 500 ?od) \<or> v \<in> set (take (500 * k) (drop 500 ?od))"
    using Suc.prems(2) by (simp add: take_add)
  then show ?case
  proof
    assume "v \<in> set (take 500 ?od)"
    then have "v_code v \<notin> rr_username ` set (radChecks db')" 
      unfolding sweep_result(3) [OF run] by force
    then show ?thesis using sweeps_shrink [of k db'] by (auto simp: run)
  next
    assume "v \<in> set (take (500 * k) (drop 500 ?od))"
    then show ?thesis using Suc.IH [OF r(2)] by (simp add: r(1) run)
  qed
qed

text \<open>
  C33. Overdue vouchers always end up revoked. A sweep takes at most 500 of them, so \<open>k\<close> sweeps
  leave exactly the overdue vouchers beyond the first \<open>500 * k\<close>: with \<open>k\<close> large enough none is
  left, and no code that was overdue has a row in radcheck, so no such code can log in.
\<close>

theorem sweeps_revoke_overdue:
  assumes "distinct (map v_id (vouchers db))"
    and "length (filter (voucher_overdue (clock db)) (vouchers db)) \<le> 500 * k"
  shows "(\<forall>v \<in> set (vouchers (sweeps k db)). \<not> voucher_overdue (clock db) v) \<and>
    (\<forall>v \<in> set (vouchers db). voucher_overdue (clock db) v \<longrightarrow> v_code v \<notin> rr_username ` set (radChecks (sweeps k db)))"
proof -
  have "filter (voucher_overdue (clock db)) (vouchers (sweeps k db)) = []"
    using sweeps_overdue [OF assms(1)] assms(2) by simp
  then show ?thesis using sweeps_revoke [OF assms(1)] assms(2) by (auto simp: filter_empty_conv)
qed

section \<open>An example hotspot\<close>

definition empty_hotspot :: hotspot_db where
  "empty_hotspot = gateway_db.extend empty_gateway
     \<lparr>hotspotPackages = [], vouchers = [], hotspotDevices = [], nasRows = [], routerRows = [], radAccts = []\<rparr>"

definition example_package :: hotspot_package where
  "example_package = \<lparr>hp_id = 5, hp_tenantId = 1, hp_name = ''1 hour'', hp_description = None, hp_priceMinor = 1000,
     hp_currency = ''KES'', hp_durationMinutes = 60, hp_dataCapMb = Some 500, hp_downloadKbps = Some 2048,
     hp_uploadKbps = Some 1024, hp_isPopular = False, hp_badge = None, hp_simultaneousUse = 1,
     hp_blockTethering = True, hp_appPolicy = Some ''TIKTOK_ONLY'', hp_isActive = True\<rparr>"

definition example_voucher :: voucher where
  "example_voucher = \<lparr>v_id = 7, v_tenantId = 1, v_code = ''SZRJBKTL'', v_hotspotPackageId = Some 5, v_packageId = None,
     v_durationMinutes = Some 60, v_dataCapMb = Some 500, v_downloadKbps = Some 2048, v_uploadKbps = Some 1024,
     v_simultaneousUse = Some 1, v_appPolicy = Some ''ALL'', v_status = V_ACTIVE, v_activatedAt = Some 0,
     v_expiresAt = Some 3600000, v_bytesIn = None, v_bytesOut = None, v_usageUpdatedAt = None, v_createdByUserId = None\<rparr>"

definition example_hotspot :: hotspot_db where
  "example_hotspot = empty_hotspot\<lparr>clock := 4000000, nextId := 20, hotspotPackages := [example_package],
     vouchers := [example_voucher], radChecks := [rad_reply ''SZRJBKTL'' ''Cleartext-Password'' '':='' ''SZRJBKTL'']\<rparr>"

lemma example_hotspot_fields [simp]:
  "clock example_hotspot = 4000000" "nextId example_hotspot = 20" "hotspotPackages example_hotspot = [example_package]"
  "vouchers example_hotspot = [example_voucher]" "hotspotDevices example_hotspot = []" "nasRows example_hotspot = []" "routerRows example_hotspot = []"
  "radAccts example_hotspot = []" "radiusUsers example_hotspot = []" "radReplies example_hotspot = []"
  "radChecks example_hotspot = [rad_reply ''SZRJBKTL'' ''Cleartext-Password'' '':='' ''SZRJBKTL'']"
  by (simp_all add: example_hotspot_def empty_hotspot_def empty_gateway_def gateway_db.defs billing_db.defs empty_db_def)

theorem sweeps_revoke_overdue_witness:
  "voucher_overdue 4000000 example_voucher
   \<and> list_all (\<lambda>v. \<not> voucher_overdue 4000000 v) (vouchers (sweeps 1 example_hotspot))
   \<and> v_code example_voucher \<notin> rr_username ` set (radChecks (sweeps 1 example_hotspot))"
proof -
  have over: "voucher_overdue 4000000 example_voucher"
    by (simp add: voucher_overdue_def example_voucher_def)
  have "distinct (map v_id (vouchers example_hotspot))" "length (filter (voucher_overdue (clock example_hotspot)) (vouchers example_hotspot)) \<le> 500 * 1"
    by simp_all
  from sweeps_revoke_overdue [OF this] over show ?thesis by (simp add: list_all_iff del: sweeps.simps)
qed

section \<open>Codes drawn\<close>

lemma code_alphabet_length [simp]: "length code_alphabet = 32"
  by (simp add: code_alphabet_def)

lemma randomVoucherCode_shape: "length (randomVoucherCode raw) = 8" "set (randomVoucherCode raw) \<subseteq> set code_alphabet"
  unfolding randomVoucherCode_def by (auto intro!: nth_mem)

definition base64url :: string where
  "base64url = ''ABCDEFGHIJKLMNOPQRSTUVWXYZabcdefghijklmnopqrstuvwxyz0123456789-_''"

lemma base64url_digits: "c \<in> set base64url \<Longrightarrow> code_alphabet ! (of_char c mod length code_alphabet) \<notin> set ''A5678''"
proof -
  have "\<forall>c \<in> set base64url. code_alphabet ! (of_char c mod length code_alphabet) \<notin> set ''A5678''"
    by code_simp
  then show "c \<in> set base64url \<Longrightarrow> code_alphabet ! (of_char c mod length code_alphabet) \<notin> set ''A5678''" by blast
qed

text \<open>Five of the thirty-two letters of the alphabet never occur in a code.\<close>

lemma five_letters_unused:
  assumes "raw \<noteq> []" "set raw \<subseteq> set base64url"
  shows "set (randomVoucherCode raw) \<inter> set ''A5678'' = {}"
proof -
  have "raw ! (i mod length raw) \<in> set base64url" for i using assms by (meson length_greater_0_conv mod_less_divisor nth_mem subsetD)
  then show ?thesis using base64url_digits by (auto simp: randomVoucherCode_def simp del: set_simps)
qed

section \<open>Vouchers and their RADIUS rows agree\<close>

definition has_password :: "string \<Rightarrow> rad_row list \<Rightarrow> bool" where
  "has_password code rows \<longleftrightarrow> (\<exists>r \<in> set rows. rr_username r = code \<and> rr_attribute r = ''Cleartext-Password'' \<and> rr_value r = code)"

definition vouchers_in_sync :: "'x hotspot_db_scheme \<Rightarrow> bool" where
  "vouchers_in_sync db \<longleftrightarrow>
     distinct (map v_id (vouchers db)) \<and> distinct (map v_code (vouchers db)) \<and>
     (\<forall>v \<in> set (vouchers db). v_id v < nextId db) \<and>
     (\<forall>v \<in> set (vouchers db).
        (v_status v \<in> {V_UNUSED, V_ACTIVE} \<longrightarrow> has_password (v_code v) (radChecks db)) \<and>
        (v_status v = V_EXPIRED \<longrightarrow> v_code v \<notin> rr_username ` set (radChecks db)))"

lemma create_attempts_Inr:
  "create_attempts n raws inp db = Inr (v, db') \<Longrightarrow>
     \<exists>raw \<in> set raws. find_voucher (gi_tenantId inp) (randomVoucherCode raw) db = None \<and>
       (v, db') = insert_voucher inp (randomVoucherCode raw) db"
  by (induction n raws inp db rule: create_attempts.induct) (auto simp: Let_def split: option.splits)

lemma insert_voucher_sync:
  assumes ok: "vouchers_in_sync db" and r: "insert_voucher inp code db = (v, db')"
    and new: "code \<notin> v_code ` set (vouchers db)"
  shows "vouchers_in_sync db'"
proof -
  have row: "v_id v = nextId db" "v_code v = code" "v_status v = V_UNUSED"
    and db': "vouchers db' = vouchers db @ [v]" "nextId db' = nextId db + 1"
      "radChecks db' = radChecks db @ [rad_reply code ''Cleartext-Password'' '':='' code,
         rad_reply code ''Simultaneous-Use'' '':='' (int_to_string (max 1 (or_default 1 (gi_simultaneousUse inp))))]"
    using r by (auto simp: insert_voucher_def Let_def)
  have known: "v_id x < nextId db" if "x \<in> set (vouchers db)" for x using ok that by (simp add: vouchers_in_sync_def)
  have fresh: "nextId db \<notin> v_id ` set (vouchers db)" using known by fastforce
  have pw: "has_password c (radChecks db')" if "has_password c (radChecks db) \<or> c = code" for c
    using that by (auto simp: has_password_def db' rad_reply_def)
  have users: "c \<in> rr_username ` set (radChecks db') \<longleftrightarrow> c \<in> rr_username ` set (radChecks db) \<or> c = code" for c
    by (auto simp: db' rad_reply_def)
  show ?thesis
    unfolding vouchers_in_sync_def
  proof (intro conjI ballI impI)
    show "distinct (map v_id (vouchers db'))" using ok fresh by (simp add: vouchers_in_sync_def db' row)
    show "distinct (map v_code (vouchers db'))" using ok new by (auto simp: vouchers_in_sync_def db' row)
    show "v_id x < nextId db'" if "x \<in> set (vouchers db')" for x
      using that known by (auto simp: db' row less_Suc_eq)
    show "has_password (v_code x) (radChecks db')" if "x \<in> set (vouchers db')" "v_status x \<in> {V_UNUSED, V_ACTIVE}" for x
      using that ok pw by (auto simp: vouchers_in_sync_def db' row )
    show "v_code x \<notin> rr_username ` set (radChecks db')" if "x \<in> set (vouchers db')" "v_status x = V_EXPIRED" for x
    proof -
      have "x \<in> set (vouchers db)" using that by (auto simp: db' row)
      then show ?thesis using that(2) ok new unfolding users vouchers_in_sync_def by blast
    qed
  qed
qed

lemma start_clock_simps [simp]:
  "v_id (start_clock now v) = v_id v" "v_code (start_clock now v) = v_code v"
  "v_tenantId (start_clock now v) = v_tenantId v" "v_status (start_clock now v) = V_ACTIVE"
  by (simp_all add: start_clock_def)

text \<open>Changing the status of one unexpired voucher to active.\<close>

lemma start_clock_sync:
  assumes ok: "vouchers_in_sync db" and v: "v \<in> set (vouchers db)" "v_status v = V_UNUSED"
    and db': "vouchers db' = update_where (\<lambda>x. v_id x = v_id v) (start_clock now) (vouchers db)"
      "radChecks db' = radChecks db" "nextId db' = nextId db"
  shows "vouchers_in_sync db'"
proof -
  have one: "x = v" if "x \<in> set (vouchers db)" "v_id x = v_id v" for x
    using key_eq_rows [of v_id "vouchers db" x v] ok v that by (simp add: vouchers_in_sync_def)
  have rows: "x = start_clock now v \<or> x \<in> set (vouchers db)" if "x \<in> set (vouchers db')" for x
    using that one by (auto simp: db' set_update_where)
  have keys: "map v_id (vouchers db') = map v_id (vouchers db)" "map v_code (vouchers db') = map v_code (vouchers db)"
    by (simp_all add: db' map_update_where)
  have "v_id v < nextId db" "has_password (v_code v) (radChecks db)"
    using ok v unfolding vouchers_in_sync_def by auto
  then have "v_id x < nextId db \<and> (v_status x \<in> {V_UNUSED, V_ACTIVE} \<longrightarrow> has_password (v_code x) (radChecks db)) \<and>
      (v_status x = V_EXPIRED \<longrightarrow> v_code x \<notin> rr_username ` set (radChecks db))" if "x \<in> set (vouchers db')" for x
    using rows [OF that] ok unfolding vouchers_in_sync_def by auto
  then show ?thesis using ok unfolding vouchers_in_sync_def keys db'(2,3) by blast
qed

lemma key_in_image: "distinct (map k t) \<Longrightarrow> x \<in> set t \<Longrightarrow> S \<subseteq> set t \<Longrightarrow> k x \<in> k ` S \<longleftrightarrow> x \<in> S"
  using key_eq_rows [of k t x] by blast

lemma sweep_sync:
  assumes ok: "vouchers_in_sync db" and run: "expireOverdueVouchers db = (n, db')"
  shows "vouchers_in_sync db'"
proof -
  let ?t = "take 500 (filter (voucher_overdue (clock db)) (vouchers db))"
  have sub: "set ?t \<subseteq> set (vouchers db)" using set_take_subset [of 500 "filter (voucher_overdue (clock db)) (vouchers db)"] by auto
  have ids: "distinct (map v_id (vouchers db))" and codes: "distinct (map v_code (vouchers db))"
    using ok by (simp_all add: vouchers_in_sync_def)
  have gone: "v_code x \<in> v_code ` set ?t \<longleftrightarrow> v_id x \<in> v_id ` set ?t" if "x \<in> set (vouchers db)" for x
    using key_in_image [OF ids that sub] key_in_image [OF codes that sub] by simp
  have pw: "has_password c (radChecks db')" if "has_password c (radChecks db)" "c \<notin> v_code ` set ?t" for c
    using that by (auto simp: has_password_def sweep_result(3) [OF run])
  have keys: "map v_id (vouchers db') = map v_id (vouchers db)" "map v_code (vouchers db') = map v_code (vouchers db)"
    by (simp_all add: sweep_result(2) [OF run] map_update_where)
  show ?thesis
    unfolding vouchers_in_sync_def keys sweep_result(6) [OF run]
  proof (intro conjI ballI impI)
    show "distinct (map v_id (vouchers db))" "distinct (map v_code (vouchers db))" by (rule ids, rule codes)
    fix x assume x: "x \<in> set (vouchers db')"
    then obtain y where y: "y \<in> set (vouchers db)" "v_id x = v_id y" "v_code x = v_code y"
      "v_status x = (if v_id y \<in> v_id ` set ?t then V_EXPIRED else v_status y)"
      unfolding sweep_result(2) [OF run] set_update_where by auto
    show "v_id x < nextId db" using ok y by (simp add: vouchers_in_sync_def)
    show "has_password (v_code x) (radChecks db')" if "v_status x \<in> {V_UNUSED, V_ACTIVE}"
    proof -
      have "v_id y \<notin> v_id ` set ?t" using that y(4) by (auto split: if_splits)
      moreover from this have "v_status y \<in> {V_UNUSED, V_ACTIVE}" using that y(4) by simp
      ultimately show ?thesis using pw gone [OF y(1)] ok y(1) unfolding y(3) vouchers_in_sync_def by blast
    qed
    show "v_code x \<notin> rr_username ` set (radChecks db')" if "v_status x = V_EXPIRED"
    proof (cases "v_id y \<in> v_id ` set ?t")
      case True
      then show ?thesis using gone [OF y(1)] unfolding y(3) sweep_result(3) [OF run] by force
    next
      case False
      then have "v_status y = V_EXPIRED" using that y(4) by simp
      then have "v_code y \<notin> rr_username ` set (radChecks db)" using ok y(1) unfolding vouchers_in_sync_def by blast
      then show ?thesis unfolding y(3) sweep_result(3) [OF run] by auto
    qed
  qed
qed

lemma createOneVoucher_sync:
  assumes ok: "vouchers_in_sync db" and r: "createOneVoucher raws inp db = Inr (v, db')"
    and other: "\<And>raw w. raw \<in> set raws \<Longrightarrow> w \<in> set (vouchers db) \<Longrightarrow> v_code w = randomVoucherCode raw \<Longrightarrow> v_tenantId w = gi_tenantId inp"
  shows "vouchers_in_sync db' \<and> v \<in> set (vouchers db') \<and> v_code v \<notin> v_code ` set (vouchers db) \<and> length (v_code v) = 8"
proof -
  obtain raw where raw: "raw \<in> set raws" "find_voucher (gi_tenantId inp) (randomVoucherCode raw) db = None"
    "insert_voucher inp (randomVoucherCode raw) db = (v, db')"
    using create_attempts_Inr [OF r [unfolded createOneVoucher_def]] by metis
  have "randomVoucherCode raw \<notin> v_code ` set (vouchers db)"
  proof
    assume "randomVoucherCode raw \<in> v_code ` set (vouchers db)"
    then obtain w where "w \<in> set (vouchers db)" "v_code w = randomVoucherCode raw" by auto
    with other [OF raw(1)] find_NoneD [OF raw(2) [unfolded find_voucher_def]] show False by blast
  qed
  moreover have "v_code v = randomVoucherCode raw" "v \<in> set (vouchers db')"
    using raw(3) by (auto simp: insert_voucher_def Let_def)
  ultimately show ?thesis using insert_voucher_sync [OF ok raw(3)] by (simp add: randomVoucherCode_shape)
qed

lemma activateVoucher_sync:
  assumes ok: "vouchers_in_sync db" and r: "activateVoucher t code db = Inr (v, db')"
  shows "vouchers_in_sync db' \<and> v_status v \<noteq> V_UNUSED"
proof -
  obtain w where w: "find_voucher t code db = Some w"
    using r by (auto simp: activateVoucher_def split: option.splits)
  then have mem: "w \<in> set (vouchers db)" by (auto simp: find_voucher_def dest: find_SomeD)
  show ?thesis
  proof (cases "v_status w = V_UNUSED")
    case True
    with r w have "v = start_clock (clock db) w"
      "db' = db\<lparr>vouchers := update_where (\<lambda>x. v_id x = v_id w) (start_clock (clock db)) (vouchers db)\<rparr>"
      by (auto simp: activateVoucher_def)
    with start_clock_sync [OF ok mem True, of db' "clock db"] show ?thesis by simp
  next
    case False
    with r w ok show ?thesis by (auto simp: activateVoucher_def)
  qed
qed


definition example_input :: generate_input where
  "example_input = \<lparr>gi_tenantId = 1, gi_createdByUserId = None, gi_count = 1, gi_hotspotPackageId = None, gi_packageId = None,
     gi_durationMinutes = Some 60, gi_dataCapMb = None, gi_downloadKbps = None, gi_uploadKbps = None,
     gi_simultaneousUse = None, gi_blockTethering = None, gi_appPolicy = None\<rparr>"

lemma example_draw: "randomVoucherCode ''abcdefghijk'' = ''BCDEFGHJ''"
  by code_simp

lemma example_hotspot_sync: "vouchers_in_sync example_hotspot"
  by (simp add: vouchers_in_sync_def has_password_def rad_reply_def) (simp add: example_voucher_def)


text \<open>
  Without that hypothesis the rows do drift: a tenant may draw the code of another tenant's
  overdue voucher, and the next sweep then revokes the voucher just created.
\<close>

lemma other_tenants_code_is_revoked:
  assumes r: "insert_voucher inp code db = (v, db')"
    and ok: "vouchers_in_sync db" and w: "w \<in> set (vouchers db)" "v_code w = code" "voucher_overdue (clock db) w"
    and few: "length (filter (voucher_overdue (clock db)) (vouchers db)) \<le> 500"
  shows "v \<in> set (vouchers db') \<and> v_code v \<notin> rr_username ` set (radChecks (snd (expireOverdueVouchers db')))"
proof -
  have row: "v_id v = nextId db" "v_code v = code" "\<not> voucher_overdue (clock db) v"
    and db': "vouchers db' = vouchers db @ [v]" "clock db' = clock db"
    using r by (auto simp: insert_voucher_def Let_def voucher_overdue_def)
  have "distinct (map v_id (vouchers db'))"
    using ok by (fastforce simp: vouchers_in_sync_def db' row)
  moreover have "w \<in> set (take (500 * 1) (filter (voucher_overdue (clock db')) (vouchers db')))"
    using w few by (simp add: db' row)
  ultimately have "v_code w \<notin> rr_username ` set (radChecks (sweeps 1 db'))" by (rule sweeps_revoke)
  then show ?thesis by (simp add: db' row w(2))
qed

end
