(* ===== verification/HotspotDevices.thy ===== *)
theory HotspotDevices
  imports Vouchers
begin

text \<open>
  packages/network/src/hotspot-device.service.ts: which phone used which voucher, the login of a
  returning phone by its MAC address with what is left of its voucher, and the voucher's usage
  across several sessions (the baseline). \<open>new Date()\<close> is the database's clock.
\<close>

section \<open>MAC addresses\<close>

definition is_hex :: "char \<Rightarrow> bool" where
  "is_hex c \<longleftrightarrow> (CHR ''0'' \<le> c \<and> c \<le> CHR ''9'') \<or> (CHR ''a'' \<le> c \<and> c \<le> CHR ''f'') \<or> (CHR ''A'' \<le> c \<and> c \<le> CHR ''F'')"

definition mac_separator :: "char \<Rightarrow> bool" where
  "mac_separator c \<longleftrightarrow> c = CHR '':'' \<or> c = CHR ''.'' \<or> c = CHR ''-'' \<or> is_space c"

fun pairs_joined :: "string \<Rightarrow> string" where
  "pairs_joined (a # b # c # s) = a # b # CHR '':'' # pairs_joined (c # s)"
| "pairs_joined s = s"

definition normalizeMac :: "string option \<Rightarrow> string option" where
  "normalizeMac val = (case val of None \<Rightarrow> None
     | Some s \<Rightarrow>
         if s = [] then None
         else let hex = filter (\<lambda>c. \<not> mac_separator c) (trim s)
              in if length hex = 12 \<and> list_all is_hex hex then Some (pairs_joined (map to_upper hex)) else None)"

section \<open>Remembering devices\<close>

definition find_device :: "id \<Rightarrow> string \<Rightarrow> 'x hotspot_db_scheme \<Rightarrow> hotspot_device option" where
  "find_device tenantId mac db = List.find (\<lambda>d. hd_tenantId d = tenantId \<and> hd_macAddress d = mac) (hotspotDevices db)"

definition rememberDevice :: "id \<Rightarrow> string option \<Rightarrow> string \<Rightarrow> 'x hotspot_db_scheme \<Rightarrow> 'x hotspot_db_scheme" where
  "rememberDevice tenantId macAddress voucherCode db =
     (case normalizeMac macAddress of None \<Rightarrow> db
      | Some mac \<Rightarrow>
          (case find_voucher tenantId voucherCode db of None \<Rightarrow> db
           | Some v \<Rightarrow>
               let baseIn = or_default 0 (v_bytesIn v); baseOut = or_default 0 (v_bytesOut v)
               in case find_device tenantId mac db of
                    Some d \<Rightarrow> db\<lparr>hotspotDevices := update_where (\<lambda>x. hd_tenantId x = tenantId \<and> hd_macAddress x = mac)
                        (\<lambda>x. x\<lparr>hd_voucherCode := voucherCode, hd_baselineBytesIn := baseIn, hd_baselineBytesOut := baseOut,
                              hd_lastSeenAt := clock db\<rparr>) (hotspotDevices db)\<rparr>
                  | None \<Rightarrow> db\<lparr>nextId := nextId db + 1, hotspotDevices := hotspotDevices db @
                        [\<lparr>hd_id = nextId db, hd_tenantId = tenantId, hd_macAddress = mac, hd_voucherCode = voucherCode,
                          hd_baselineBytesIn = baseIn, hd_baselineBytesOut = baseOut, hd_lastSeenAt = clock db\<rparr>]\<rparr>))"

section \<open>Returning phones\<close>

record mac_login =
  ml_voucherCode :: string
  ml_remainingSeconds :: "int option"
  ml_remainingBytes :: "int option"

record mac_login_check = mac_login +
  ml_deviceId :: id
  ml_hotspotPackageId :: "id option"
  ml_usedBytesIn :: int
  ml_usedBytesOut :: int

definition password_row :: "string \<Rightarrow> 'x hotspot_db_scheme \<Rightarrow> rad_row option" where
  "password_row username db = List.find (\<lambda>r. rr_username r = username \<and> rr_attribute r = ''Cleartext-Password'') (radChecks db)"

definition seconds_left :: "time \<Rightarrow> voucher \<Rightarrow> int option" where
  "seconds_left now v = map_option (\<lambda>e. (e - now) div 1000) (v_expiresAt v)"

definition bytes_left :: "voucher \<Rightarrow> int option" where
  "bytes_left v = map_option (\<lambda>mb. mb * 1024 * 1024 - (or_default 0 (v_bytesIn v) + or_default 0 (v_bytesOut v))) (nonzero (v_dataCapMb v))"

definition checkMacLogin :: "id \<Rightarrow> string \<Rightarrow> time \<Rightarrow> 'x hotspot_db_scheme \<Rightarrow> mac_login_check option" where
  "checkMacLogin tenantId macAddress now db =
     (case normalizeMac (Some macAddress) of None \<Rightarrow> None
      | Some mac \<Rightarrow>
          (case find_device tenantId mac db of None \<Rightarrow> None
           | Some device \<Rightarrow>
               (case find_voucher tenantId (hd_voucherCode device) db of None \<Rightarrow> None
                | Some v \<Rightarrow>
                    if v_status v \<noteq> V_ACTIVE then None
                    else if password_row (v_code v) db = None then None
                    else if (case seconds_left now v of None \<Rightarrow> False | Some s \<Rightarrow> s < 60) then None
                    else if (case bytes_left v of None \<Rightarrow> False | Some b \<Rightarrow> b \<le> 0) then None
                    else Some \<lparr>ml_voucherCode = v_code v, ml_remainingSeconds = seconds_left now v,
                           ml_remainingBytes = bytes_left v, ml_deviceId = hd_id device,
                           ml_hotspotPackageId = v_hotspotPackageId v, ml_usedBytesIn = or_default 0 (v_bytesIn v),
                           ml_usedBytesOut = or_default 0 (v_bytesOut v)\<rparr>)))"

definition findMacLogin ::
  "id \<Rightarrow> string \<Rightarrow> time \<Rightarrow> 'x hotspot_db_scheme \<Rightarrow> mac_login option \<times> 'x hotspot_db_scheme" where
  "findMacLogin tenantId macAddress now db =
     (case checkMacLogin tenantId macAddress now db of None \<Rightarrow> (None, db)
      | Some c \<Rightarrow> (Some (mac_login.truncate c),
          db\<lparr>hotspotDevices := update_where (\<lambda>d. hd_id d = ml_deviceId c)
              (\<lambda>d. d\<lparr>hd_lastSeenAt := now, hd_baselineBytesIn := ml_usedBytesIn c, hd_baselineBytesOut := ml_usedBytesOut c\<rparr>)
              (hotspotDevices db)\<rparr>))"

section \<open>Usage\<close>

record session_usage =
  su_voucherCode :: string
  su_bytesIn :: int
  su_bytesOut :: int

definition voucherUsageForSession ::
  "id \<Rightarrow> string \<Rightarrow> string option \<Rightarrow> int \<Rightarrow> int \<Rightarrow> 'x hotspot_db_scheme \<Rightarrow> session_usage" where
  "voucherUsageForSession tenantId username callingStationId sessionBytesIn sessionBytesOut db =
     (let usernameMac = normalizeMac (Some username);
          mac = (case usernameMac of Some m \<Rightarrow> Some m | None \<Rightarrow> normalizeMac callingStationId);
          device = (case mac of None \<Rightarrow> None | Some m \<Rightarrow> find_device tenantId m db);
          voucherCode = (case (usernameMac, device) of (Some _, Some d) \<Rightarrow> hd_voucherCode d | _ \<Rightarrow> username);
          plain = \<lparr>su_voucherCode = voucherCode, su_bytesIn = sessionBytesIn, su_bytesOut = sessionBytesOut\<rparr>
      in case device of None \<Rightarrow> plain
         | Some d \<Rightarrow>
             if hd_voucherCode d \<noteq> voucherCode then plain
             else \<lparr>su_voucherCode = voucherCode, su_bytesIn = hd_baselineBytesIn d + sessionBytesIn,
                    su_bytesOut = hd_baselineBytesOut d + sessionBytesOut\<rparr>)"

text \<open>
  The phones online now, as pairs of username and caller id. A failed insert is swallowed, but
  nothing is inserted for a phone already known, so none fails here.
\<close>

fun rememberActiveDevices ::
  "id \<Rightarrow> (string \<times> string option) list \<Rightarrow> 'x hotspot_db_scheme \<Rightarrow> nat \<times> 'x hotspot_db_scheme" where
  "rememberActiveDevices tenantId [] db = (0, db)"
| "rememberActiveDevices tenantId ((username, callerId) # sessions) db =
     (case normalizeMac callerId of None \<Rightarrow> rememberActiveDevices tenantId sessions db
      | Some mac \<Rightarrow>
          if normalizeMac (Some username) \<noteq> None then rememberActiveDevices tenantId sessions db
          else if find_device tenantId mac db \<noteq> None then rememberActiveDevices tenantId sessions db
          else if find_voucher tenantId username db = None then rememberActiveDevices tenantId sessions db
          else let (added, db') = rememberActiveDevices tenantId sessions
                 (db\<lparr>nextId := nextId db + 1, hotspotDevices := hotspotDevices db @
                    [\<lparr>hd_id = nextId db, hd_tenantId = tenantId, hd_macAddress = mac, hd_voucherCode = username,
                      hd_baselineBytesIn = 0, hd_baselineBytesOut = 0, hd_lastSeenAt = clock db\<rparr>]\<rparr>)
               in (added + 1, db'))"

definition sessionNamesForVoucher :: "id \<Rightarrow> string \<Rightarrow> 'x hotspot_db_scheme \<Rightarrow> string list" where
  "sessionNamesForVoucher tenantId voucherCode db =
     voucherCode # map hd_macAddress (filter (\<lambda>d. hd_tenantId d = tenantId \<and> hd_voucherCode d = voucherCode) (hotspotDevices db))"

section \<open>Normal forms\<close>

lemma hex_no_separator: "is_hex c \<Longrightarrow> \<not> mac_separator c"
  by (auto simp: is_hex_def mac_separator_def is_space_def)

lemma colon_separator: "mac_separator (CHR '':'')"
  by (simp add: mac_separator_def)

lemma pairs_joined_shape:
  "even (length s) \<Longrightarrow> list_all is_hex s \<Longrightarrow> filter (\<lambda>c. \<not> mac_separator c) (pairs_joined s) = s
     \<and> (\<forall>c \<in> set (pairs_joined s). is_hex c \<or> c = CHR '':'')"
  by (induction s rule: pairs_joined.induct) (auto simp: hex_no_separator colon_separator)

lemma pairs_joined_length: "length s = 12 \<Longrightarrow> length (pairs_joined s) = 17"
  by (auto simp: numeral_eq_Suc length_Suc_conv)

lemma pairs_joined_empty [simp]: "pairs_joined s = [] \<longleftrightarrow> s = []"
  by (induction s rule: pairs_joined.induct) auto

lemma pairs_joined_hd: "s \<noteq> [] \<Longrightarrow> hd (pairs_joined s) = hd s \<and> last (pairs_joined s) = last s"
  by (induction s rule: pairs_joined.induct) auto

lemma trim_plain:
  assumes "s \<noteq> []" "\<not> is_space (hd s)" "\<not> is_space (last s)"
  shows "trim s = s"
proof -
  have "dropWhile is_space s = s" using assms(1,2) by (cases s) auto
  moreover have "dropWhile is_space (rev s) = rev s" using assms(1,3) by (cases s rule: rev_cases) auto
  ultimately show ?thesis by (simp add: trim_def)
qed

lemma char_range: "CHR ''0'' \<le> c \<longleftrightarrow> 48 \<le> (of_char c :: nat)" "c \<le> CHR ''9'' \<longleftrightarrow> (of_char c :: nat) \<le> 57"
 "CHR ''a'' \<le> c \<longleftrightarrow> 97 \<le> (of_char c :: nat)" "c \<le> CHR ''f'' \<longleftrightarrow> (of_char c :: nat) \<le> 102"
 "CHR ''A'' \<le> c \<longleftrightarrow> 65 \<le> (of_char c :: nat)" "c \<le> CHR ''F'' \<longleftrightarrow> (of_char c :: nat) \<le> 70" "c \<le> CHR ''z'' \<longleftrightarrow> (of_char c :: nat) \<le> 122"
  by (simp_all add: less_eq_char_def)
lemma to_upper_hex: "is_hex c \<Longrightarrow> is_hex (to_upper c) \<and> to_upper (to_upper c) = to_upper c"
proof -
  assume h: "is_hex c"
  define n where "n = (of_char c :: nat)"
  have n: "(48 \<le> n \<and> n \<le> 57) \<or> (97 \<le> n \<and> n \<le> 102) \<or> (65 \<le> n \<and> n \<le> 70)"
    using h by (simp add: is_hex_def char_range n_def)
  have up: "of_char (to_upper c) = (if 97 \<le> n \<and> n \<le> 122 then n - 32 else n)"
    using n by (auto simp: to_upper_def char_range n_def of_char_of intro!: mod_less)
  show ?thesis
  proof
    show "is_hex (to_upper c)" using n unfolding is_hex_def char_range up by auto
    show "to_upper (to_upper c) = to_upper c"
      using n by (simp add: to_upper_def [of "to_upper c"] char_range up) auto
  qed
qed

lemma normalizeMac_normal:
  assumes "normalizeMac s = Some m"
  shows "normalizeMac (Some m) = Some m" "length m = 17"
proof -
  obtain hex where hex: "length hex = 12" "list_all is_hex hex" "m = pairs_joined (map to_upper hex)"
    using assms by (auto simp: normalizeMac_def Let_def split: option.splits if_splits)
  define up where "up = map to_upper hex"
  have up: "length up = 12" "list_all is_hex up" "map to_upper up = up"
    using hex(1,2) to_upper_hex by (auto simp: up_def list_all_iff)
  have m: "m = pairs_joined up" by (simp add: hex(3) up_def)
  have f: "filter (\<lambda>c. \<not> mac_separator c) m = up" and cs: "\<forall>c \<in> set m. is_hex c \<or> c = CHR '':''"
    using pairs_joined_shape [of up] up by (simp_all add: m)
  have len: "length m = 17" by (simp add: m pairs_joined_length up(1))
  have ne: "m \<noteq> []" "up \<noteq> []" using len up(1) by auto
  have "is_hex (hd m)" "is_hex (last m)"
    using pairs_joined_hd [OF ne(2)] up(2) ne(2) by (simp_all add: m list_all_iff)
  then have "\<not> is_space (hd m)" "\<not> is_space (last m)" by (auto simp: is_hex_def is_space_def)
  then have "trim m = m" using ne(1) by (rule trim_plain [rotated])
  then show "normalizeMac (Some m) = Some m" using ne(1) f up by (simp add: normalizeMac_def Let_def m [symmetric])
  show "length m = 17" by (rule len)
qed

lemma normalizeMac_short: "length s < 12 \<Longrightarrow> normalizeMac (Some s) = None"
proof -
  assume *: "length s < 12"
  have "length (filter (\<lambda>c. \<not> mac_separator c) (trim s)) \<le> length (trim s)" by (rule length_filter_le)
  also have "\<dots> \<le> length s"
    unfolding trim_def by (metis length_dropWhile_le length_rev order_trans)
  finally show ?thesis using * by (simp add: normalizeMac_def Let_def)
qed

section \<open>A returning phone\<close>

lemma find_voucherD: "find_voucher t code db = Some v \<Longrightarrow> v \<in> set (vouchers db) \<and> v_tenantId v = t \<and> v_code v = code"
  by (auto simp: find_voucher_def dest: find_SomeD)

lemma checkMacLoginD:
  assumes "checkMacLogin t mac now db = Some c"
  obtains m d v where "normalizeMac (Some mac) = Some m" "find_device t m db = Some d"
    "find_voucher t (hd_voucherCode d) db = Some v" "v_status v = V_ACTIVE" "password_row (v_code v) db \<noteq> None"
    "\<And>s. seconds_left now v = Some s \<Longrightarrow> 60 \<le> s" "\<And>b. bytes_left v = Some b \<Longrightarrow> 0 < b"
    "mac_login.truncate c = \<lparr>ml_voucherCode = v_code v, ml_remainingSeconds = seconds_left now v, ml_remainingBytes = bytes_left v\<rparr>"
    "ml_deviceId c = hd_id d" "ml_usedBytesIn c = or_default 0 (v_bytesIn v)" "ml_usedBytesOut c = or_default 0 (v_bytesOut v)"
proof -
  obtain m where m: "normalizeMac (Some mac) = Some m" using assms by (auto simp: checkMacLogin_def split: option.splits)
  obtain d where d: "find_device t m db = Some d" using assms m by (auto simp: checkMacLogin_def split: option.splits)
  obtain v where v: "find_voucher t (hd_voucherCode d) db = Some v"
    using assms m d by (cases "find_voucher t (hd_voucherCode d) db") (auto simp: checkMacLogin_def)
  show ?thesis
  proof (rule that [OF m d v])
    show "v_status v = V_ACTIVE" "password_row (v_code v) db \<noteq> None"
      "\<And>s. seconds_left now v = Some s \<Longrightarrow> 60 \<le> s" "\<And>b. bytes_left v = Some b \<Longrightarrow> 0 < b"
      "mac_login.truncate c = \<lparr>ml_voucherCode = v_code v, ml_remainingSeconds = seconds_left now v, ml_remainingBytes = bytes_left v\<rparr>"
      "ml_deviceId c = hd_id d" "ml_usedBytesIn c = or_default 0 (v_bytesIn v)" "ml_usedBytesOut c = or_default 0 (v_bytesOut v)"
      using assms m d v by (auto simp: checkMacLogin_def mac_login.defs split: if_splits)
  qed
qed

lemma find_device_touched:
  assumes "distinct (map hd_id (hotspotDevices db))" "find_device t m db = Some d"
    and f: "\<And>x. hd_tenantId (f x) = hd_tenantId x \<and> hd_macAddress (f x) = hd_macAddress x"
  shows "find_device t m (db\<lparr>hotspotDevices := update_where (\<lambda>x. hd_id x = hd_id d) f (hotspotDevices db)\<rparr>) = Some (f d)"
proof -
  have "List.find q (update_where (\<lambda>x. hd_id x = hd_id d) f ds) = Some (f d)"
    if "List.find q ds = Some d" "distinct (map hd_id ds)" "\<And>x. q (f x) = q x" for q ds
    using that
  proof (induction ds)
    case Nil
    then show ?case by simp
  next
    case (Cons y ds)
    have "hd_id d \<noteq> hd_id y" if "\<not> q y"
    proof -
      have "d \<in> set ds" using Cons.prems(1) that find_SomeD by fastforce
      then show ?thesis using Cons.prems(2) by (metis distinct.simps(2) imageI list.simps(9) set_map)
    qed
    then show ?case using Cons by (auto split: if_splits)
  qed
  from this [OF assms(2) [unfolded find_device_def] assms(1)] f show ?thesis
    by (simp add: find_device_def)
qed

text \<open>
  C35. A returning phone gets exactly what is left of its voucher, and nothing is counted twice. It is
  let in only with a running voucher of its tenant whose code could itself still log in, with at
  least a minute left. Its session ends by the voucher's expiry, to the second, and its data
  allowance plus what was used is the voucher's cap. The usage then reported for the new session is
  what was used before plus the session's own bytes.
\<close>

theorem returning_phone_gets_the_rest:
  assumes "distinct (map hd_id (hotspotDevices db))"
    and "findMacLogin t mac now db = (Some l, db')"
    and "normalizeMac (Some username) = normalizeMac (Some mac)"
  shows "\<exists>v \<in> set (vouchers db). v_tenantId v = t \<and> v_code v = ml_voucherCode l \<and> v_status v = V_ACTIVE
      \<and> password_row (v_code v) db \<noteq> None
      \<and> (case v_expiresAt v of None \<Rightarrow> ml_remainingSeconds l = None
         | Some e \<Rightarrow> \<exists>s. ml_remainingSeconds l = Some s \<and> 60 \<le> s \<and> now + 1000 * s \<le> e \<and> e < now + 1000 * (s + 1))
      \<and> (case nonzero (v_dataCapMb v) of None \<Rightarrow> ml_remainingBytes l = None
         | Some mb \<Rightarrow> \<exists>b. ml_remainingBytes l = Some b \<and> 0 < b
             \<and> or_default 0 (v_bytesIn v) + or_default 0 (v_bytesOut v) + b = mb * 1024 * 1024)
      \<and> voucherUsageForSession t username cs i out db' =
          \<lparr>su_voucherCode = v_code v, su_bytesIn = or_default 0 (v_bytesIn v) + i, su_bytesOut = or_default 0 (v_bytesOut v) + out\<rparr>"
proof -
  obtain c where c: "checkMacLogin t mac now db = Some c" "l = mac_login.truncate c"
    and db': "db' = db\<lparr>hotspotDevices := update_where (\<lambda>d. hd_id d = ml_deviceId c)
              (\<lambda>d. d\<lparr>hd_lastSeenAt := now, hd_baselineBytesIn := ml_usedBytesIn c, hd_baselineBytesOut := ml_usedBytesOut c\<rparr>)
              (hotspotDevices db)\<rparr>"
    using assms(2) by (auto simp: findMacLogin_def split: option.splits)
  from c(1) show ?thesis
  proof (rule checkMacLoginD)
    fix m d v
    assume m: "normalizeMac (Some mac) = Some m" and d: "find_device t m db = Some d"
      and fv: "find_voucher t (hd_voucherCode d) db = Some v" and st: "v_status v = V_ACTIVE" "password_row (v_code v) db \<noteq> None"
      and s: "\<And>s. seconds_left now v = Some s \<Longrightarrow> 60 \<le> s" and b: "\<And>b. bytes_left v = Some b \<Longrightarrow> 0 < b"
      and l: "mac_login.truncate c = \<lparr>ml_voucherCode = v_code v, ml_remainingSeconds = seconds_left now v, ml_remainingBytes = bytes_left v\<rparr>"
      and used: "ml_deviceId c = hd_id d" "ml_usedBytesIn c = or_default 0 (v_bytesIn v)" "ml_usedBytesOut c = or_default 0 (v_bytesOut v)"
    note v = find_voucherD [OF fv]
    have dev: "find_device t m db' = Some (d\<lparr>hd_lastSeenAt := now, hd_baselineBytesIn := ml_usedBytesIn c, hd_baselineBytesOut := ml_usedBytesOut c\<rparr>)"
      unfolding db' used(1) by (rule find_device_touched [OF assms(1) d]) simp
    have u: "voucherUsageForSession t username cs i out db' =
        \<lparr>su_voucherCode = v_code v, su_bytesIn = or_default 0 (v_bytesIn v) + i, su_bytesOut = or_default 0 (v_bytesOut v) + out\<rparr>"
      using v by (simp add: voucherUsageForSession_def assms(3) m dev used)
    have secs: "case v_expiresAt v of None \<Rightarrow> ml_remainingSeconds l = None
         | Some e \<Rightarrow> \<exists>s. ml_remainingSeconds l = Some s \<and> 60 \<le> s \<and> now + 1000 * s \<le> e \<and> e < now + 1000 * (s + 1)"
    proof (cases "v_expiresAt v")
      case (Some e)
      define q where "q = (e - now) div 1000"
      have "1000 * q + (e - now) mod 1000 = e - now" by (simp add: q_def)
      moreover have "0 \<le> (e - now) mod 1000" "(e - now) mod 1000 < 1000" by simp_all
      moreover have "1000 * (q + 1) = 1000 * q + 1000" by simp
      ultimately have "now + 1000 * q \<le> e \<and> e < now + 1000 * (q + 1)" by linarith
      then show ?thesis using Some s c(2) l by (simp add: seconds_left_def q_def)
    qed (simp add: c(2) l seconds_left_def)
    have bytes: "case nonzero (v_dataCapMb v) of None \<Rightarrow> ml_remainingBytes l = None
         | Some mb \<Rightarrow> \<exists>b. ml_remainingBytes l = Some b \<and> 0 < b
             \<and> or_default 0 (v_bytesIn v) + or_default 0 (v_bytesOut v) + b = mb * 1024 * 1024"
    proof (cases "nonzero (v_dataCapMb v)")
      case (Some mb)
      then show ?thesis using b [unfolded bytes_left_def, OF _] by (simp add: c(2) l bytes_left_def)
    qed (simp add: c(2) l bytes_left_def)
    show ?thesis using v st u secs bytes by (intro bexI [of _ v] conjI) (simp_all add: c(2) l)
  qed
qed

definition example_device :: hotspot_device where
  "example_device = \<lparr>hd_id = 9, hd_tenantId = 1, hd_macAddress = ''AA:BB:CC:00:11:22'', hd_voucherCode = ''SZRJBKTL'',
     hd_baselineBytesIn = 0, hd_baselineBytesOut = 0, hd_lastSeenAt = 0\<rparr>"

definition returning_hotspot :: hotspot_db where
  "returning_hotspot = example_hotspot\<lparr>clock := 1800000, hotspotDevices := [example_device],
     vouchers := [example_voucher\<lparr>v_bytesIn := Some 1048576, v_bytesOut := Some 5242880\<rparr>]\<rparr>"

lemma returning_hotspot_login:
  "findMacLogin 1 ''aabb.cc00.1122'' 1800000 returning_hotspot =
     (Some \<lparr>ml_voucherCode = ''SZRJBKTL'', ml_remainingSeconds = Some 1800, ml_remainingBytes = Some 517996544\<rparr>,
      returning_hotspot\<lparr>hotspotDevices := [example_device\<lparr>hd_lastSeenAt := 1800000, hd_baselineBytesIn := 1048576, hd_baselineBytesOut := 5242880\<rparr>]\<rparr>)"
  by code_simp

theorem returning_phone_gets_the_rest_witness:
  "\<exists>l db'. findMacLogin 1 ''aabb.cc00.1122'' 1800000 returning_hotspot = (Some l, db')
     \<and> voucherUsageForSession 1 ''AA-BB-CC-00-11-22'' None 10 20 db' =
         \<lparr>su_voucherCode = ''SZRJBKTL'', su_bytesIn = 1048586, su_bytesOut = 5242900\<rparr>"
proof -
  have ids: "distinct (map hd_id (hotspotDevices returning_hotspot))" by (simp add: returning_hotspot_def)
  have same: "normalizeMac (Some ''AA-BB-CC-00-11-22'') = normalizeMac (Some ''aabb.cc00.1122'')" by code_simp
  have "vouchers returning_hotspot = [example_voucher\<lparr>v_bytesIn := Some 1048576, v_bytesOut := Some 5242880\<rparr>]"
    by (simp add: returning_hotspot_def)
  then show ?thesis
    using returning_phone_gets_the_rest [OF ids returning_hotspot_login same, of None 10 20] returning_hotspot_login
    by (auto simp: example_voucher_def or_default_def)
qed

end
