(* ===== verification/RouterOsProtocol.thy ===== *)
theory RouterOsProtocol
  imports Prelude "HOL-Library.Word"
begin

unbundle bit_operations_syntax

text \<open>
  The RouterOS API wire format (packages/network/src/mikrotik/protocol.ts) and the part of the
  client that turns the byte stream of a router back into replies
  (packages/network/src/mikrotik/routeros-client.ts). A byte is an \<open>8 word\<close>; a string is the list
  of the bytes of its UTF-8 form, as everywhere in the development.
\<close>

section \<open>Encoding\<close>

type_synonym byte = "8 word"

text \<open>Storing a number into a \<open>Buffer\<close> cell keeps its low eight bits.\<close>

definition cell :: "nat \<Rightarrow> byte" where
  "cell n = word_of_nat n"

definition writeUInt16BE :: "nat \<Rightarrow> byte list" where
  "writeUInt16BE n = [cell (drop_bit 8 n), cell n]"

definition writeUInt32BE :: "nat \<Rightarrow> byte list result" where
  "writeUInt32BE n = (if n < 2 ^ 32 then Inr [cell (drop_bit 24 n), cell (drop_bit 16 n), cell (drop_bit 8 n), cell n]
     else Inl (RangeError ''The value of \"value\" is out of range.''))"

definition encodeLength :: "nat \<Rightarrow> byte list result" where
  "encodeLength n =
     (if n < 0x80 then Inr [cell n]
      else if n < 0x4000 then Inr (writeUInt16BE (n OR 0x8000))
      else if n < 0x200000 then Inr [cell (drop_bit 16 n OR 0xc0), cell (drop_bit 8 n AND 0xff), cell (n AND 0xff)]
      else if n < 0x10000000 then
        Inr [cell (drop_bit 24 n OR 0xe0), cell (drop_bit 16 n AND 0xff), cell (drop_bit 8 n AND 0xff), cell (n AND 0xff)]
      else (case writeUInt32BE n of Inl e \<Rightarrow> Inl e | Inr bs \<Rightarrow> Inr (0xf0 # bs)))"

definition utf8 :: "string \<Rightarrow> byte list" where
  "utf8 s = map (\<lambda>c. cell (of_char c)) s"

definition utf8_text :: "byte list \<Rightarrow> string" where
  "utf8_text bs = map (\<lambda>b. char_of (unat b)) bs"

definition encodeWord :: "string \<Rightarrow> byte list result" where
  "encodeWord w = (case encodeLength (length (utf8 w)) of Inl e \<Rightarrow> Inl e | Inr h \<Rightarrow> Inr (h @ utf8 w))"

fun encodeSentence :: "string list \<Rightarrow> byte list result" where
  "encodeSentence [] = Inr [0]"
| "encodeSentence (w # ws) =
     (case encodeWord w of Inl e \<Rightarrow> Inl e
      | Inr b \<Rightarrow> (case encodeSentence ws of Inl e \<Rightarrow> Inl e | Inr bs \<Rightarrow> Inr (b @ bs)))"

section \<open>Decoding\<close>

definition push_chunk :: "byte list \<Rightarrow> byte list \<Rightarrow> byte list" where
  "push_chunk chunk buf = (if length buf = 0 then chunk else buf @ chunk)"

text \<open>The header of the first word: its length and the size of the header, or \<open>None\<close> when the header is not complete.\<close>

definition word_header :: "byte list \<Rightarrow> (nat \<times> nat) option" where
  "word_header buf =
     (let first = buf ! 0; at = (\<lambda>i. unat (buf ! i))
      in if first AND 0x80 = 0 then Some (unat first, 1)
         else if first AND 0xc0 = 0x80 then
           (if length buf < 2 then None else Some (push_bit 8 (unat (first AND 0x3f)) OR at 1, 2))
         else if first AND 0xe0 = 0xc0 then
           (if length buf < 3 then None else Some (push_bit 16 (unat (first AND 0x1f)) OR push_bit 8 (at 1) OR at 2, 3))
         else if first AND 0xf0 = 0xe0 then
           (if length buf < 4 then None
            else Some (push_bit 24 (unat (first AND 0x0f)) OR push_bit 16 (at 1) OR push_bit 8 (at 2) OR at 3, 4))
         else
           (if length buf < 5 then None
            else Some (push_bit 24 (at 1) OR push_bit 16 (at 2) OR push_bit 8 (at 3) OR at 4, 5)))"

definition next_word :: "byte list \<Rightarrow> string option \<times> byte list" where
  "next_word buf =
     (if length buf = 0 then (None, buf)
      else case word_header buf of None \<Rightarrow> (None, buf)
        | Some (n, headerLen) \<Rightarrow>
            (if length buf < headerLen + n then (None, buf)
             else (Some (utf8_text (take n (drop headerLen buf))), drop (headerLen + n) buf)))"

lemma next_word_shorter: "next_word buf = (Some w, rest) \<Longrightarrow> length rest < length buf"
  by (auto simp: next_word_def word_header_def Let_def split: if_splits)

section \<open>Sentences\<close>

record sentence =
  sn_type :: string
  sn_attributes :: "string \<rightharpoonup> string"

text \<open>The index of the first \<open>=\<close> at or after position \<open>from\<close>: \<open>w.indexOf("=", from)\<close>.\<close>

fun index_eq :: "nat \<Rightarrow> string \<Rightarrow> nat option" where
  "index_eq from [] = None"
| "index_eq 0 (c # cs) = (if c = CHR ''='' then Some 0 else map_option Suc (index_eq 0 cs))"
| "index_eq (Suc n) (c # cs) = map_option Suc (index_eq n cs)"

definition slice :: "nat \<Rightarrow> nat \<Rightarrow> string \<Rightarrow> string" where
  "slice a b s = drop a (take b s)"

definition add_attribute :: "string \<Rightarrow> (string \<rightharpoonup> string) \<Rightarrow> (string \<rightharpoonup> string)" where
  "add_attribute w attrs =
     (if starts_with ''='' w then
        (case index_eq 1 w of Some e \<Rightarrow> if e > 0 then attrs(slice 1 e w \<mapsto> drop (e + 1) w) else attrs | None \<Rightarrow> attrs)
      else if starts_with ''.'' w then
        (case index_eq 0 w of Some e \<Rightarrow> if e > 0 then attrs(slice 1 e w \<mapsto> drop (e + 1) w) else attrs | None \<Rightarrow> attrs)
      else attrs)"

definition parse_sentence :: "string list \<Rightarrow> sentence" where
  "parse_sentence ws = \<lparr>sn_type = hd ws, sn_attributes = fold add_attribute (tl ws) Map.empty\<rparr>"

definition push_word :: "string \<Rightarrow> string list \<Rightarrow> sentence option \<times> string list" where
  "push_word w currentWords =
     (if w = '''' then (if currentWords = [] then None else Some (parse_sentence currentWords), [])
      else (None, currentWords @ [w]))"

section \<open>The client\<close>

record client =
  cl_buffer :: "byte list"
  cl_words :: "string list"
  cl_nextTag :: nat
  cl_pending :: "string \<rightharpoonup> sentence list"
  cl_connected :: bool

definition deliver :: "sentence \<Rightarrow> (string \<rightharpoonup> sentence list) \<Rightarrow> (string \<rightharpoonup> sentence list)" where
  "deliver s pending =
     (case sn_attributes s ''tag'' of None \<Rightarrow> pending
      | Some tag \<Rightarrow> (case pending tag of None \<Rightarrow> pending | Some q \<Rightarrow> pending(tag \<mapsto> q @ [s])))"

text \<open>The loop of the \<open>data\<close> handler: it ends because every decoded word shortens the buffer.\<close>

function drain :: "client \<Rightarrow> client" where
  "drain c = (case next_word (cl_buffer c) of
      (None, buf) \<Rightarrow> c\<lparr>cl_buffer := buf\<rparr>
    | (Some w, buf) \<Rightarrow>
        (case push_word w (cl_words c) of (out, ws) \<Rightarrow>
           drain (c\<lparr>cl_buffer := buf, cl_words := ws,
             cl_pending := (case out of None \<Rightarrow> cl_pending c | Some s \<Rightarrow> deliver s (cl_pending c))\<rparr>)))"
  by pat_completeness auto

termination by (relation "measure (\<lambda>c. length (cl_buffer c))") (auto dest: next_word_shorter [OF sym])

declare drain.simps [simp del]

definition on_data :: "byte list \<Rightarrow> client \<Rightarrow> client" where
  "on_data chunk c = drain (c\<lparr>cl_buffer := push_chunk chunk (cl_buffer c)\<rparr>)"

definition assertNoTrap :: "sentence list \<Rightarrow> string \<Rightarrow> unit result" where
  "assertNoTrap sentences command =
     (case List.find (\<lambda>s. sn_type s = ''!trap'') sentences of None \<Rightarrow> Inr ()
      | Some t \<Rightarrow> Inl (UnexpectedError (case sn_attributes t ''message'' of Some m \<Rightarrow> m | None \<Rightarrow> ''RouterOS rejected '' @ command)))"

text \<open>Sending a command: the tag, the bytes on the socket, and the client waiting for the tag's replies.\<close>

definition tag_word :: "nat \<Rightarrow> string" where
  "tag_word n = ''.tag='' @ nat_to_string n"

definition talk_send :: "string list \<Rightarrow> client \<Rightarrow> (string \<times> byte list) result \<times> client" where
  "talk_send ws c =
     (if \<not> cl_connected c then (Inl (UnexpectedError ''Not connected''), c)
      else let tag = nat_to_string (cl_nextTag c);
               c' = c\<lparr>cl_nextTag := cl_nextTag c + 1, cl_pending := (cl_pending c)(tag \<mapsto> [])\<rparr>
           in (case encodeSentence (ws @ [''.tag='' @ tag]) of Inl e \<Rightarrow> (Inl e, c') | Inr bs \<Rightarrow> (Inr (tag, bs), c')))"

text \<open>
  The receiving loop over the replies queued so far: \<open>Inl\<close> is the rejection, \<open>Inr (Some _)\<close> the
  replies up to \<open>!done\<close>, \<open>Inr None\<close> is waiting for more.
\<close>

definition finish_reply :: "string \<Rightarrow> sentence list \<Rightarrow> sentence list option result" where
  "finish_reply command got = (case assertNoTrap got command of Inl e \<Rightarrow> Inl e | Inr _ \<Rightarrow> Inr (Some got))"

fun take_replies :: "string \<Rightarrow> sentence list \<Rightarrow> sentence list \<Rightarrow> sentence list option result" where
  "take_replies command collected [] = Inr None"
| "take_replies command collected (s # q) =
     (if sn_type s = ''!done'' then finish_reply command (collected @ [s])
      else take_replies command (collected @ [s]) q)"

definition talk_receive :: "string \<Rightarrow> string \<Rightarrow> client \<Rightarrow> sentence list option result" where
  "talk_receive command tag c = take_replies command [] (case cl_pending c tag of Some q \<Rightarrow> q | None \<Rightarrow> [])"

text \<open>The \<open>finally\<close> block.\<close>

definition talk_close :: "string \<Rightarrow> client \<Rightarrow> client" where
  "talk_close tag c = c\<lparr>cl_pending := (cl_pending c)(tag := None)\<rparr>"

definition print_rows :: "sentence list \<Rightarrow> (string \<rightharpoonup> string) list result" where
  "print_rows sentences =
     (case List.find (\<lambda>s. sn_type s = ''!trap'') sentences of
        Some t \<Rightarrow> Inl (UnexpectedError (case sn_attributes t ''message'' of Some m \<Rightarrow> m | None \<Rightarrow> ''RouterOS command failed''))
      | None \<Rightarrow> Inr (map sn_attributes (filter (\<lambda>s. sn_type s = ''!re'') sentences)))"

section \<open>Lengths round trip\<close>

lemma unat_cell: "unat (cell n) = n mod 256"
  by (simp add: cell_def unat_of_nat)

lemma join_bits:
  fixes h :: nat
  assumes "l < 2 ^ n"
  shows "push_bit n h OR l = h * 2 ^ n + l"
proof -
  have "\<not> bit l i" if "n \<le> i" for i
  proof -
    have "l < 2 ^ i" using assms that by (meson less_le_trans one_le_numeral power_increasing)
    then show ?thesis by (simp add: bit_iff_odd)
  qed
  then have "push_bit n h AND l = 0" by (intro bit_eqI) (auto simp: bit_simps)
  then show ?thesis by (simp add: disjunctive_add_eq_or [symmetric] push_bit_eq_mult)
qed

lemma and_field: "(a::nat) AND push_bit k (mask m) = a div 2 ^ k mod 2 ^ m * 2 ^ k"
proof -
  have "a AND push_bit k (mask m) = push_bit k (take_bit m (drop_bit k a))"
    by (rule bit_eqI) (auto simp: bit_simps)
  then show ?thesis by (simp add: push_bit_eq_mult take_bit_eq_mod drop_bit_eq_div)
qed

lemma header_tests:
  "first AND 0x80 = 0 \<longleftrightarrow> unat first div 128 mod 2 = 0"
  "first AND 0xc0 = 0x80 \<longleftrightarrow> unat first div 64 mod 4 = 2"
  "first AND 0xe0 = 0xc0 \<longleftrightarrow> unat first div 32 mod 8 = 6"
  "first AND 0xf0 = 0xe0 \<longleftrightarrow> unat first div 16 mod 16 = 14"
  "unat (first AND 0x3f) = unat first mod 64" "unat (first AND 0x1f) = unat first mod 32" "unat (first AND 0x0f) = unat first mod 16"
  for first :: byte
proof -
  have w: "x = y \<longleftrightarrow> unat x = unat y" for x y :: byte by (simp add: word_unat_eq_iff)
  have n: "(0x80::nat) = push_bit 7 (mask 1)" "(0xc0::nat) = push_bit 6 (mask 2)" "(0xe0::nat) = push_bit 5 (mask 3)"
    "(0xf0::nat) = push_bit 4 (mask 4)" "(0x3f::nat) = push_bit 0 (mask 6)" "(0x1f::nat) = push_bit 0 (mask 5)" "(0x0f::nat) = push_bit 0 (mask 4)"
    by (simp_all add: push_bit_eq_mult mask_eq_exp_minus_1)
  have u: "unat (first AND 0x80) = unat first div 2 ^ 7 mod 2 ^ 1 * 2 ^ 7" "unat (first AND 0xc0) = unat first div 2 ^ 6 mod 2 ^ 2 * 2 ^ 6"
    "unat (first AND 0xe0) = unat first div 2 ^ 5 mod 2 ^ 3 * 2 ^ 5" "unat (first AND 0xf0) = unat first div 2 ^ 4 mod 2 ^ 4 * 2 ^ 4"
    "unat (first AND 0x3f) = unat first div 2 ^ 0 mod 2 ^ 6 * 2 ^ 0" "unat (first AND 0x1f) = unat first div 2 ^ 0 mod 2 ^ 5 * 2 ^ 0"
    "unat (first AND 0x0f) = unat first div 2 ^ 0 mod 2 ^ 4 * 2 ^ 0"
    by (simp_all only: and_field [symmetric] n [symmetric]) (simp_all add: unsigned_and_eq)
  show "first AND 0x80 = 0 \<longleftrightarrow> unat first div 128 mod 2 = 0" unfolding w u by simp
  show "first AND 0xc0 = 0x80 \<longleftrightarrow> unat first div 64 mod 4 = 2" unfolding w u by simp
  show "first AND 0xe0 = 0xc0 \<longleftrightarrow> unat first div 32 mod 8 = 6" unfolding w u by simp
  show "first AND 0xf0 = 0xe0 \<longleftrightarrow> unat first div 16 mod 16 = 14" unfolding w u by simp
  show "unat (first AND 0x3f) = unat first mod 64" "unat (first AND 0x1f) = unat first mod 32" "unat (first AND 0x0f) = unat first mod 16"
    using u(5-7) by simp_all
qed

lemma or_flag:
  "(a::nat) < 2 ^ 14 \<Longrightarrow> a OR 0x8000 = 0x8000 + a" "b < 32 \<Longrightarrow> b OR 0xc0 = 0xc0 + b" "c < 16 \<Longrightarrow> c OR 0xe0 = 0xe0 + c" for b c :: nat
  using join_bits [of a 15 1] join_bits [of b 6 3] join_bits [of c 5 7] by (simp_all add: push_bit_eq_mult or.commute)

lemma and_low: "(n::nat) AND 0xff = n mod 256"
  using and_field [of n 0 8] by (simp add: mask_eq_exp_minus_1)

lemma join_bytes:
  fixes a b c d :: nat
  assumes "b < 256" "c < 256" "d < 256"
  shows "push_bit 8 c OR d = c * 256 + d"
    "push_bit 16 b OR push_bit 8 c OR d = (b * 256 + c) * 256 + d"
    "push_bit 24 a OR push_bit 16 b OR push_bit 8 c OR d = ((a * 256 + b) * 256 + c) * 256 + d"
proof -
  show 1: "push_bit 8 c OR d = c * 256 + d" using join_bits [of d 8 c] assms by simp
  show 2: "push_bit 16 b OR push_bit 8 c OR d = (b * 256 + c) * 256 + d" for b
    unfolding or.assoc 1 using join_bits [of "c * 256 + d" 16 b] assms by simp
  show "push_bit 24 a OR push_bit 16 b OR push_bit 8 c OR d = ((a * 256 + b) * 256 + c) * 256 + d"
    using join_bits [of "(b * 256 + c) * 256 + d" 24 a] assms 2 [of b] by (simp add: or.assoc)
qed

lemma base_256: "(m::nat) div 256 * 256 + m mod 256 = m"
  by simp

lemma div_bytes: "(n::nat) div 65536 = n div 256 div 256" "n div 16777216 = n div 256 div 256 div 256"
  by (simp_all add: div_mult2_eq [symmetric])

lemma digit_of: "(a::nat) < n \<Longrightarrow> (k * n + a) div n = k \<and> (k * n + a) mod n = a"
  by simp

lemma tests_2: "q < 64 \<Longrightarrow> (128 + q) mod 256 = 128 + q \<and> (128 + q) div 128 mod 2 = 1 \<and> (128 + q) div 64 mod 4 = 2 \<and> (128 + q) mod 64 = q" for q :: nat
  using digit_of [of q 128 1] digit_of [of q 64 2] by simp

lemma tests_3: "q < 32 \<Longrightarrow> (192 + q) mod 256 = 192 + q \<and> (192 + q) div 128 mod 2 = 1 \<and> (192 + q) div 64 mod 4 = 3
  \<and> (192 + q) div 32 mod 8 = 6 \<and> (192 + q) mod 32 = q" for q :: nat
  using digit_of [of "64 + q" 128 1] digit_of [of q 64 3] digit_of [of q 32 6] by simp

lemma tests_4: "q < 16 \<Longrightarrow> (224 + q) mod 256 = 224 + q \<and> (224 + q) div 128 mod 2 = 1 \<and> (224 + q) div 64 mod 4 = 3
  \<and> (224 + q) div 32 mod 8 = 7 \<and> (224 + q) div 16 mod 16 = 14 \<and> (224 + q) mod 16 = q" for q :: nat
  using digit_of [of "96 + q" 128 1] digit_of [of "32 + q" 64 3] digit_of [of q 32 7] digit_of [of q 16 14] by simp

lemma header_round_trip:
  assumes "encodeLength n = Inr h"
  shows "word_header (h @ rest) = Some (n, length h) \<and> h \<noteq> []"
proof -
  consider (a) "n < 0x80" | (b) "0x80 \<le> n" "n < 0x4000" | (c) "0x4000 \<le> n" "n < 0x200000" | (d) "0x200000 \<le> n" "n < 0x10000000"
    | (e) "0x10000000 \<le> n" by linarith
  then show ?thesis
  proof cases
    case a
    then have h: "h = [cell n]" using assms by (simp add: encodeLength_def)
    have "n mod 256 = n" "n div 128 = 0" using a by simp_all
    then show ?thesis by (simp add: h word_header_def Let_def header_tests unat_cell)
  next
    case b
    define q where "q = n div 256"
    have q: "q < 64" using b by (simp add: q_def)
    have "drop_bit 8 (n OR 0x8000) = 128 + q" using b or_flag(1) [of n] by (simp add: drop_bit_eq_div q_def)
    moreover have "cell (n OR 0x8000) = cell n" using b or_flag(1) [of n] by (simp add: word_unat_eq_iff unat_cell mod_add_eq [symmetric])
    ultimately have h: "h = [cell (128 + q), cell n]" using assms b by (auto simp: encodeLength_def writeUInt16BE_def)
    show ?thesis using join_bytes(1) [where c = q and d = "n mod 256" and b = 0] q tests_2 [OF q] base_256 [of n]
      by (simp add: h word_header_def Let_def header_tests unat_cell q_def)
  next
    case c
    define q where "q = n div 256 div 256"
    have q: "q < 32" using c by (simp add: q_def div_mult2_eq [symmetric])
    have h: "h = [cell (192 + q), cell (n div 256 mod 256), cell (n mod 256)]"
      using assms c or_flag(2) [OF q] by (auto simp: encodeLength_def drop_bit_eq_div and_low div_bytes q_def)
    have "(q * 256 + n div 256 mod 256) * 256 + n mod 256 = n" unfolding q_def base_256 ..
    then show ?thesis using join_bytes(2) [where b = q and c = "n div 256 mod 256" and d = "n mod 256"] q tests_3 [OF q]
      by (simp add: h word_header_def Let_def header_tests unat_cell)
  next
    case d
    define q where "q = n div 256 div 256 div 256"
    have q: "q < 16" using d by (simp add: q_def div_mult2_eq [symmetric])
    have h: "h = [cell (224 + q), cell (n div 256 div 256 mod 256), cell (n div 256 mod 256), cell (n mod 256)]"
      using assms d or_flag(3) [OF q] by (auto simp: encodeLength_def drop_bit_eq_div and_low div_bytes q_def)
    have "((q * 256 + n div 256 div 256 mod 256) * 256 + n div 256 mod 256) * 256 + n mod 256 = n" unfolding q_def base_256 ..
    then show ?thesis using join_bytes(3) [where b = "n div 256 div 256 mod 256" and c = "n div 256 mod 256" and d = "n mod 256" and a = q] tests_4 [OF q]
      by (simp add: h word_header_def Let_def header_tests unat_cell)
  next
    case e
    define q where "q = n div 256 div 256 div 256"
    have h: "h = [0xf0, cell q, cell (n div 256 div 256), cell (n div 256), cell n]" and n: "n < 2 ^ 32"
      using assms e by (auto simp: encodeLength_def writeUInt32BE_def drop_bit_eq_div div_bytes q_def split: if_splits)
    have "q < 256" using n by (simp add: q_def div_mult2_eq [symmetric])
    moreover have "((q * 256 + n div 256 div 256 mod 256) * 256 + n div 256 mod 256) * 256 + n mod 256 = n" unfolding q_def base_256 ..
    ultimately show ?thesis using join_bytes(3) [where b = "n div 256 div 256 mod 256" and c = "n div 256 mod 256" and d = "n mod 256" and a = q]
      by (simp add: h word_header_def Let_def header_tests unat_cell)
  qed
qed

section \<open>Decoding a stream\<close>

lemma utf8_round_trip [simp]: "utf8_text (utf8 s) = s"
proof -
  have "char_of (unat (cell (of_char c))) = c" for c by (simp add: unat_cell)
  then show ?thesis by (simp add: utf8_text_def utf8_def comp_def)
qed

lemma length_utf8 [simp]: "length (utf8 s) = length s"
  by (simp add: utf8_def)

lemma next_word_encoded: "encodeWord w = Inr b \<Longrightarrow> next_word (b @ rest) = (Some w, rest)"
  using header_round_trip by (auto simp: encodeWord_def next_word_def split: sum.splits)

lemma encodeWord_empty: "encodeWord [] = Inr [0]"
  by (simp add: encodeWord_def encodeLength_def cell_def utf8_def)

lemma next_word_terminator: "next_word (0 # rest) = (Some [], rest)"
  using next_word_encoded [OF encodeWord_empty] by simp

lemma word_header_more: "buf \<noteq> [] \<Longrightarrow> word_header buf = Some h \<Longrightarrow> word_header (buf @ extra) = Some h"
  by (auto simp: word_header_def Let_def nth_append split: if_splits)

lemma next_word_more: "next_word buf = (Some w, rest) \<Longrightarrow> next_word (buf @ extra) = (Some w, rest @ extra)"
  using word_header_more [of buf _ extra] by (auto simp: next_word_def split: if_splits option.splits)

lemma next_word_None: "next_word buf = (None, rest) \<Longrightarrow> rest = buf"
  by (auto simp: next_word_def split: if_splits option.splits)

lemma drain_step:
  "next_word (cl_buffer c) = (Some w, buf) \<Longrightarrow> push_word w (cl_words c) = (out, ws) \<Longrightarrow>
   drain c = drain (c\<lparr>cl_buffer := buf, cl_words := ws,
             cl_pending := (case out of None \<Rightarrow> cl_pending c | Some s \<Rightarrow> deliver s (cl_pending c))\<rparr>)"
  by (subst drain.simps) simp

lemma drain_stop: "next_word (cl_buffer c) = (None, buf) \<Longrightarrow> drain c = c"
  using next_word_None by (subst drain.simps) fastforce

lemma drain_append:
  "drain (c\<lparr>cl_buffer := cl_buffer c @ extra\<rparr>) = drain ((drain c)\<lparr>cl_buffer := cl_buffer (drain c) @ extra\<rparr>)"
proof (induction c rule: drain.induct)
  case (1 c)
  obtain o' buf where n: "next_word (cl_buffer c) = (o', buf)" by (cases "next_word (cl_buffer c)")
  show ?case
  proof (cases o')
    case None
    then show ?thesis using drain_stop n by simp
  next
    case (Some w)
    obtain out ws where p: "push_word w (cl_words c) = (out, ws)" by (cases "push_word w (cl_words c)")
    let ?c = "c\<lparr>cl_buffer := buf, cl_words := ws, cl_pending := (case out of None \<Rightarrow> cl_pending c | Some s \<Rightarrow> deliver s (cl_pending c))\<rparr>"
    have "drain (c\<lparr>cl_buffer := cl_buffer c @ extra\<rparr>) = drain (?c\<lparr>cl_buffer := buf @ extra\<rparr>)"
    proof -
      have e: "?c\<lparr>cl_buffer := buf @ extra\<rparr> = (c\<lparr>cl_buffer := cl_buffer c @ extra\<rparr>)\<lparr>cl_buffer := buf @ extra, cl_words := ws,
        cl_pending := (case out of None \<Rightarrow> cl_pending (c\<lparr>cl_buffer := cl_buffer c @ extra\<rparr>)
          | Some s \<Rightarrow> deliver s (cl_pending (c\<lparr>cl_buffer := cl_buffer c @ extra\<rparr>)))\<rparr>" by (cases out) simp_all
      show ?thesis unfolding e by (rule drain_step) (use next_word_more n Some p in simp_all)
    qed
    also have "\<dots> = drain ((drain ?c)\<lparr>cl_buffer := cl_buffer (drain ?c) @ extra\<rparr>)"
      using "1.IH" [OF n [symmetric] Some p [symmetric]] by simp
    also have "drain ?c = drain c" using drain_step [of c w buf out ws] n Some p by simp
    finally show ?thesis .
  qed
qed

lemma on_data_eq: "on_data chunk c = drain (c\<lparr>cl_buffer := cl_buffer c @ chunk\<rparr>)"
  by (simp add: on_data_def push_chunk_def)

lemma fold_on_data: "fold on_data chunks (drain c) = drain (c\<lparr>cl_buffer := cl_buffer c @ concat chunks\<rparr>)"
proof (induction chunks arbitrary: c)
  case (Cons x xs)
  have "on_data x (drain c) = drain (c\<lparr>cl_buffer := cl_buffer c @ x\<rparr>)" unfolding on_data_eq by (rule drain_append [symmetric])
  then show ?case using Cons.IH [of "c\<lparr>cl_buffer := cl_buffer c @ x\<rparr>"] by simp
qed simp

definition idle :: "client \<Rightarrow> bool" where
  "idle c \<longleftrightarrow> cl_buffer c = [] \<and> cl_words c = []"

lemma drain_idle: "idle c \<Longrightarrow> drain c = c"
  by (rule drain_stop) (simp add: idle_def next_word_def)

fun encode_all :: "string list list \<Rightarrow> byte list result" where
  "encode_all [] = Inr []"
| "encode_all (s # ss) = (case encodeSentence s of Inl e \<Rightarrow> Inl e
     | Inr b \<Rightarrow> (case encode_all ss of Inl e \<Rightarrow> Inl e | Inr bs \<Rightarrow> Inr (b @ bs)))"

lemma drain_sentence:
  assumes "encodeSentence ws = Inr b" "[] \<notin> set ws" "cl_buffer c = b @ rest" "cl_words c @ ws \<noteq> []"
  shows "drain c = drain (c\<lparr>cl_buffer := rest, cl_words := [], cl_pending := deliver (parse_sentence (cl_words c @ ws)) (cl_pending c)\<rparr>)"
  using assms
proof (induction ws arbitrary: b c)
  case Nil
  then have "next_word (cl_buffer c) = (Some [], rest)" "push_word [] (cl_words c) = (Some (parse_sentence (cl_words c)), [])"
    using next_word_terminator by (auto simp: push_word_def)
  then show ?case using drain_step [of c "[]" rest "Some (parse_sentence (cl_words c))" "[]"] by simp
next
  case (Cons w ws)
  obtain x y where b: "b = x @ y" "encodeWord w = Inr x" "encodeSentence ws = Inr y"
    using Cons.prems(1) by (auto split: sum.splits)
  have "drain c = drain (c\<lparr>cl_buffer := y @ rest, cl_words := cl_words c @ [w]\<rparr>)"
    using drain_step [of c w "y @ rest" None "cl_words c @ [w]"] next_word_encoded [OF b(2)] Cons.prems(2,3) b(1)
    by (auto simp: push_word_def)
  then show ?case
    using Cons.IH [OF b(3), of "c\<lparr>cl_buffer := y @ rest, cl_words := cl_words c @ [w]\<rparr>"] Cons.prems(2) by simp
qed

lemma drain_sentences:
  assumes "encode_all ss = Inr bs" "\<forall>s \<in> set ss. s \<noteq> [] \<and> [] \<notin> set s" "cl_words c = []" "cl_buffer c = bs"
  shows "drain c = c\<lparr>cl_buffer := [], cl_words := [], cl_pending := fold deliver (map parse_sentence ss) (cl_pending c)\<rparr>"
  using assms
proof (induction ss arbitrary: bs c)
  case Nil
  then show ?case using drain_idle [of c] by (simp add: idle_def)
next
  case (Cons s ss)
  obtain x y where b: "bs = x @ y" "encodeSentence s = Inr x" "encode_all ss = Inr y"
    using Cons.prems(1) by (auto split: sum.splits)
  have "drain c = drain (c\<lparr>cl_buffer := y, cl_words := [], cl_pending := deliver (parse_sentence s) (cl_pending c)\<rparr>)"
    using drain_sentence [OF b(2), of c y] Cons.prems b(1) by simp
  then show ?case
    using Cons.IH [OF b(3), of "c\<lparr>cl_buffer := y, cl_words := [], cl_pending := deliver (parse_sentence s) (cl_pending c)\<rparr>"] Cons.prems(2)
    by simp
qed

lemma fold_deliver:
  "pending tag = Some q \<Longrightarrow> fold deliver ss pending tag = Some (q @ filter (\<lambda>s. sn_attributes s ''tag'' = Some tag) ss)"
proof (induction ss arbitrary: pending q)
  case (Cons s ss)
  have "deliver s pending tag = Some (q @ (if sn_attributes s ''tag'' = Some tag then [s] else []))"
    using Cons.prems by (auto simp: deliver_def split: option.split)
  then show ?case using Cons.IH by fastforce
qed simp

section \<open>Attributes\<close>

lemma index_eq_found: "CHR ''='' \<notin> set k \<Longrightarrow> index_eq 0 (k @ CHR ''='' # v) = Some (length k)"
  by (induction k) auto

lemma add_attribute_word:
  "CHR ''='' \<notin> set k \<Longrightarrow> add_attribute (''='' @ k @ ''='' @ v) attrs = attrs(k \<mapsto> v)"
  by (simp add: add_attribute_def starts_with_def index_eq_found slice_def)

lemma add_control_word:
  "CHR ''='' \<notin> set k \<Longrightarrow> add_attribute (''.'' @ k @ ''='' @ v) attrs = attrs(k \<mapsto> v)"
  using index_eq_found [of "CHR ''.'' # k" v] by (simp add: add_attribute_def starts_with_def slice_def)

section \<open>Properties\<close>

lemma streams_spec:
  assumes "idle c" "encode_all ss = Inr bs" "\<forall>s \<in> set ss. s \<noteq> [] \<and> [] \<notin> set s" "concat chunks = bs"
  shows "fold on_data chunks c = c\<lparr>cl_pending := fold deliver (map parse_sentence ss) (cl_pending c)\<rparr>"
proof -
  have "fold on_data chunks c = drain (c\<lparr>cl_buffer := bs\<rparr>)"
    using fold_on_data [of chunks c] drain_idle [OF assms(1)] assms(1,4) by (simp add: idle_def)
  also have "\<dots> = c\<lparr>cl_pending := fold deliver (map parse_sentence ss) (cl_pending c)\<rparr>"
    using drain_sentences [OF assms(2,3), of "c\<lparr>cl_buffer := bs\<rparr>"] assms(1) by (simp add: idle_def)
  finally show ?thesis .
qed

lemma parse_reply:
  assumes "\<forall>(k, v) \<in> set attrs. CHR ''='' \<notin> set k"
  shows "parse_sentence (ty # map (\<lambda>(k, v). ''='' @ k @ ''='' @ v) attrs @ [tag_word n]) =
    \<lparr>sn_type = ty, sn_attributes = (fold (\<lambda>(k, v) m. m(k \<mapsto> v)) attrs Map.empty)(''tag'' \<mapsto> nat_to_string n)\<rparr>"
proof -
  have "fold add_attribute (map (\<lambda>(k, v). ''='' @ k @ ''='' @ v) attrs) m = fold (\<lambda>(k, v) m. m(k \<mapsto> v)) attrs m" for m
    using assms by (induction attrs arbitrary: m) (auto simp: add_attribute_word simp del: append_Cons)
  moreover have "add_attribute (tag_word n) m = m(''tag'' \<mapsto> nat_to_string n)" for m
    using add_control_word [of "''tag''" "nat_to_string n" m] by (simp add: tag_word_def)
  ultimately show ?thesis by (simp add: parse_sentence_def)
qed

text \<open>
  C26. The replies of a router reach the commands they answer, whatever the packets: if the router
  sends any sequence of sentences, and the network delivers their encoding in any chunks (split in
  the middle of a word or of a length prefix), then the queue of each open command receives exactly
  the sentences that carry its tag, in the order they were sent, and the client's buffers are empty.
\<close>

theorem replies_reach_their_command:
  assumes "idle c" "encode_all ss = Inr bs" "\<forall>s \<in> set ss. s \<noteq> [] \<and> [] \<notin> set s" "concat chunks = bs"
    "cl_pending c tag = Some q"
  shows "cl_pending (fold on_data chunks c) tag = Some (q @ filter (\<lambda>s. sn_attributes s ''tag'' = Some tag) (map parse_sentence ss))
    \<and> idle (fold on_data chunks c)"
  unfolding streams_spec [OF assms(1-4)] using fold_deliver [of "cl_pending c" tag q, OF assms(5)] assms(1) by (simp add: idle_def)

definition sample_client :: client where
  "sample_client = \<lparr>cl_buffer = [], cl_words = [], cl_nextTag = 3, cl_pending = [''1'' \<mapsto> [], ''2'' \<mapsto> []], cl_connected = True\<rparr>"

theorem replies_reach_their_command_witness:
  "map sn_type (the (cl_pending (fold on_data [[3, 33, 114], [101, 6, 46, 116, 97, 103, 61, 50, 0, 5], [33, 100, 111, 110, 101, 6, 46, 116, 97, 103, 61, 49, 0]]
     sample_client) ''1'')) = [''!done'']"
proof -
  have e: "encode_all [[''!re'', ''.tag=2''], [''!done'', ''.tag=1'']] =
    Inr (concat [[3, 33, 114], [101, 6, 46, 116, 97, 103, 61, 50, 0, 5], [33, 100, 111, 110, 101, 6, 46, 116, 97, 103, 61, 49, 0]])"
    by (simp add: encodeWord_def encodeLength_def cell_def utf8_def)
  have i: "idle sample_client" "cl_pending sample_client ''1'' = Some []" by (simp_all add: idle_def sample_client_def)
  have p: "sn_attributes (parse_sentence [''!re'', ''.tag=2'']) ''tag'' = Some ''2''" "sn_attributes (parse_sentence [''!done'', ''.tag=1'']) ''tag'' = Some ''1''"
    "sn_type (parse_sentence [''!done'', ''.tag=1'']) = ''!done''"
    by (simp_all add: parse_sentence_def add_attribute_def starts_with_def slice_def)
  show ?thesis
    using replies_reach_their_command [OF i(1) e _ refl i(2)] p by (simp del: concat.simps fold_simps)
qed

fun read_words :: "nat \<Rightarrow> byte list \<Rightarrow> string list \<times> byte list" where
  "read_words 0 buf = ([], buf)"
| "read_words (Suc n) buf = (case next_word buf of (None, b) \<Rightarrow> ([], b) | (Some w, b) \<Rightarrow> (case read_words n b of (ws, r) \<Rightarrow> (w # ws, r)))"

lemma read_sentence: "encodeSentence ws = Inr b \<Longrightarrow> read_words (length ws + 1) (b @ rest) = (ws @ [[]], rest)"
proof (induction ws arbitrary: b)
  case Nil
  then have "b = [0]" by simp
  then show ?case by (simp add: next_word_terminator)
next
  case (Cons w ws)
  then obtain x y where b: "b = x @ y" "encodeWord w = Inr x" "encodeSentence ws = Inr y"
    by (auto split: sum.splits)
  show ?case using Cons.IH [OF b(3)] next_word_encoded [OF b(2), of "y @ rest"] by (simp add: b(1))
qed

text \<open>
  A command's own encoding can be read back: the router that decodes what \<open>talk\<close> wrote sees the
  command's words followed by the tag, and nothing is left over.
\<close>

theorem command_round_trip:
  assumes "talk_send ws c = (Inr (tag, bs), c')"
  shows "read_words (length ws + 2) bs = (ws @ [''.tag='' @ tag, []], [])
    \<and> cl_pending c' tag = Some [] \<and> tag = nat_to_string (cl_nextTag c) \<and> cl_nextTag c' = cl_nextTag c + 1"
proof -
  have e: "encodeSentence (ws @ [''.tag='' @ tag]) = Inr bs" and t: "tag = nat_to_string (cl_nextTag c)"
    and c': "c' = c\<lparr>cl_nextTag := cl_nextTag c + 1, cl_pending := (cl_pending c)(tag \<mapsto> [])\<rparr>"
    using assms by (auto simp: talk_send_def Let_def split: if_splits sum.splits)
  show ?thesis using read_sentence [OF e, of "[]"] by (simp add: t c' del: read_words.simps)
qed

theorem command_round_trip_witness:
  "\<exists>bs c'. talk_send [''/login''] sample_client = (Inr (''3'', bs), c') \<and> read_words 3 bs = ([''/login'', ''.tag=3'', []], [])"
proof -
  have t: "talk_send [''/login''] sample_client = (Inr (''3'', snd (projr (fst (talk_send [''/login''] sample_client)))),
      snd (talk_send [''/login''] sample_client))"
    by (simp add: talk_send_def sample_client_def encodeWord_def encodeLength_def nat_to_string.simps digit_char_def Let_def)
  have "length [''/login''] + 2 = (3::nat)" by simp
  then show ?thesis using command_round_trip [OF t] t by (metis append_Cons append_Nil)
qed

lemma take_replies_done:
  "\<forall>s \<in> set pre. sn_type s \<noteq> ''!done'' \<Longrightarrow> sn_type d = ''!done'' \<Longrightarrow>
   take_replies command collected (pre @ d # rest) = finish_reply command (collected @ pre @ [d])"
  by (induction pre arbitrary: collected) auto

text \<open>
  A rejected command never looks successful: when \<open>talk\<close> returns replies they end with the
  first \<open>!done\<close>, none of them is a \<open>!trap\<close>, and they are the first replies queued; when a
  \<open>!trap\<close> comes before the \<open>!done\<close> the call throws, with the router's own message if it sent one.
\<close>

theorem rejected_command_throws:
  assumes "cl_pending c tag = Some (pre @ d # rest)" "sn_type d = ''!done''" "\<forall>s \<in> set pre. sn_type s \<noteq> ''!done''"
  shows "(\<forall>got. talk_receive command tag c = Inr (Some got) \<longrightarrow> got = pre @ [d] \<and> (\<forall>s \<in> set got. sn_type s \<noteq> ''!trap''))
    \<and> ((\<exists>s \<in> set pre. sn_type s = ''!trap'') \<longrightarrow>
         (\<exists>t \<in> set pre. sn_type t = ''!trap'' \<and> talk_receive command tag c =
            Inl (UnexpectedError (case sn_attributes t ''message'' of Some m \<Rightarrow> m | None \<Rightarrow> ''RouterOS rejected '' @ command))))
    \<and> talk_receive command tag c \<noteq> Inr None"
proof -
  have r: "talk_receive command tag c = finish_reply command (pre @ [d])"
    using take_replies_done [of pre d command "[]" rest] assms by (simp add: talk_receive_def)
  show ?thesis
  proof (cases "List.find (\<lambda>s. sn_type s = ''!trap'') (pre @ [d])")
    case None
    then have "\<forall>s \<in> set (pre @ [d]). sn_type s \<noteq> ''!trap''" unfolding find_None_iff by blast
    then show ?thesis using None by (auto simp: r finish_reply_def assertNoTrap_def)
  next
    case (Some t)
    then have "t \<in> set (pre @ [d])" "sn_type t = ''!trap''" using find_SomeD [OF Some] by auto
    then have "t \<in> set pre" "sn_type t = ''!trap''" using assms(2) by auto
    then show ?thesis using Some by (auto simp: r finish_reply_def assertNoTrap_def)
  qed
qed

theorem rejected_command_throws_witness:
  "talk_receive ''/ppp/secret/add'' ''1'' (sample_client\<lparr>cl_pending := [''1'' \<mapsto>
     [\<lparr>sn_type = ''!trap'', sn_attributes = [''message'' \<mapsto> ''unknown parameter'']\<rparr>, \<lparr>sn_type = ''!done'', sn_attributes = Map.empty\<rparr>]]\<rparr>)
   = Inl (UnexpectedError ''unknown parameter'')"
  using rejected_command_throws [of "sample_client\<lparr>cl_pending := [''1'' \<mapsto>
     [\<lparr>sn_type = ''!trap'', sn_attributes = [''message'' \<mapsto> ''unknown parameter'']\<rparr>, \<lparr>sn_type = ''!done'', sn_attributes = Map.empty\<rparr>]]\<rparr>"
     "''1''" "[\<lparr>sn_type = ''!trap'', sn_attributes = [''message'' \<mapsto> ''unknown parameter'']\<rparr>]"
     "\<lparr>sn_type = ''!done'', sn_attributes = Map.empty\<rparr>" "[]" "''/ppp/secret/add''"]
  by simp

end
