(* ===== verification/RadiusPackets.thy ===== *)
theory RadiusPackets
  imports RouterOsProtocol
begin

unbundle bit_operations_syntax

text \<open>
  RADIUS packets as packages/radius/src/radius-server.ts reads and writes them (RFC 2865, 2866,
  3579). The hash functions of the platform are parameters: \<open>md5\<close> on bytes, and \<open>hmac\<close>, the keyed
  MD5, on key and bytes; what is used of them is that a digest has sixteen bytes.
\<close>

section \<open>Reading a packet\<close>

type_synonym hash = "byte list \<Rightarrow> byte list"
type_synonym keyed_hash = "byte list \<Rightarrow> byte list \<Rightarrow> byte list"

record radius_attribute =
  at_type :: byte
  at_value :: "byte list"

record radius_packet =
  pk_code :: byte
  pk_identifier :: byte
  pk_authenticator :: "byte list"
  pk_attributes :: "radius_attribute list"

text \<open>\<open>buf.readUInt8(offset)\<close> throws outside the buffer; \<open>subarray\<close> never does.\<close>

definition readUInt8 :: "byte list \<Rightarrow> nat \<Rightarrow> byte result" where
  "readUInt8 buf offset = (if offset < length buf then Inr (buf ! offset)
     else Inl (RangeError ''The value of \"offset\" is out of range.''))"

definition readUInt16BE :: "byte list \<Rightarrow> nat \<Rightarrow> nat" where
  "readUInt16BE buf i = unat (buf ! i) * 256 + unat (buf ! (i + 1))"

definition readUInt32BE :: "byte list \<Rightarrow> nat" where
  "readUInt32BE buf = ((unat (buf ! 0) * 256 + unat (buf ! 1)) * 256 + unat (buf ! 2)) * 256 + unat (buf ! 3)"

definition subarray :: "nat \<Rightarrow> nat \<Rightarrow> byte list \<Rightarrow> byte list" where
  "subarray a b buf = drop a (take b buf)"

function parse_attributes :: "byte list \<Rightarrow> nat \<Rightarrow> nat \<Rightarrow> radius_attribute list result" where
  "parse_attributes buf len offset =
     (if offset < len then
        (case readUInt8 buf offset of Inl e \<Rightarrow> Inl e
         | Inr ty \<Rightarrow>
            (case readUInt8 buf (offset + 1) of Inl e \<Rightarrow> Inl e
             | Inr al \<Rightarrow>
                if unat al < 2 \<or> offset + unat al > len then Inr []
                else (case parse_attributes buf len (offset + unat al) of Inl e \<Rightarrow> Inl e
                      | Inr as \<Rightarrow> Inr (\<lparr>at_type = ty, at_value = subarray (offset + 2) (offset + unat al) buf\<rparr> # as))))
      else Inr [])"
  by pat_completeness auto

termination by (relation "measure (\<lambda>(buf, len, offset). len - offset)") auto

declare parse_attributes.simps [simp del]

definition parsePacket :: "byte list \<Rightarrow> radius_packet option result" where
  "parsePacket buf =
     (if length buf < 20 then Inr None
      else let len = readUInt16BE buf 2
           in if len > length buf then Inr None
              else (case parse_attributes buf len 20 of Inl e \<Rightarrow> Inl e
                    | Inr as \<Rightarrow> Inr (Some \<lparr>pk_code = buf ! 0, pk_identifier = buf ! 1,
                        pk_authenticator = subarray 4 20 buf, pk_attributes = as\<rparr>)))"

definition findAttr :: "radius_packet \<Rightarrow> byte \<Rightarrow> byte list option" where
  "findAttr packet t = map_option at_value (List.find (\<lambda>a. at_type a = t) (pk_attributes packet))"

definition readUInt32Attr :: "radius_packet \<Rightarrow> byte \<Rightarrow> nat" where
  "readUInt32Attr packet t = (case findAttr packet t of None \<Rightarrow> 0 | Some buf \<Rightarrow> if length buf = 4 then readUInt32BE buf else 0)"

definition readStringAttr :: "radius_packet \<Rightarrow> byte \<Rightarrow> string option" where
  "readStringAttr packet t =
     (case findAttr packet t of None \<Rightarrow> None
      | Some buf \<Rightarrow> let v = trim (filter (\<lambda>c. c \<noteq> CHR 0x00) (utf8_text buf)) in if length v > 0 then Some v else None)"

definition nasPortTypeName :: "radius_packet \<Rightarrow> string option" where
  "nasPortTypeName packet =
     (case findAttr packet 61 of None \<Rightarrow> None
      | Some buf \<Rightarrow>
          if length buf \<noteq> 4 then None
          else let c = readUInt32BE buf
               in Some (if c = 0 then ''Async'' else if c = 5 then ''Virtual'' else if c = 15 then ''Ethernet''
                        else if c = 19 then ''Wireless-802.11'' else if c = 20 then ''Wireless-Other'' else nat_to_string c))"

definition readIpAttr :: "radius_packet \<Rightarrow> byte \<Rightarrow> string option" where
  "readIpAttr packet t =
     (case findAttr packet t of None \<Rightarrow> None
      | Some buf \<Rightarrow>
          if length buf \<noteq> 4 then None
          else Some (nat_to_string (unat (buf ! 0)) @ ''.'' @ nat_to_string (unat (buf ! 1)) @ ''.''
                 @ nat_to_string (unat (buf ! 2)) @ ''.'' @ nat_to_string (unat (buf ! 3))))"

section \<open>The hidden password\<close>

function pap_blocks :: "hash \<Rightarrow> byte list \<Rightarrow> byte list \<Rightarrow> byte list \<Rightarrow> byte list" where
  "pap_blocks md5 secret prevBlock encrypted =
     (if encrypted = [] then []
      else let cipherBlock = take 16 encrypted; hash = md5 (secret @ prevBlock)
           in map2 (\<lambda>c h. c XOR h) cipherBlock hash @ pap_blocks md5 secret cipherBlock (drop 16 encrypted))"
  by pat_completeness auto

termination by (relation "measure (\<lambda>(md5, secret, prev, enc). length enc)") auto

declare pap_blocks.simps [simp del]

definition decodePapPassword :: "hash \<Rightarrow> byte list \<Rightarrow> string \<Rightarrow> byte list \<Rightarrow> string" where
  "decodePapPassword md5 encrypted secret requestAuthenticator =
     utf8_text (takeWhile (\<lambda>b. b \<noteq> 0) (pap_blocks md5 (utf8 secret) requestAuthenticator encrypted))"

section \<open>Writing a packet\<close>

definition encodeAttribute :: "radius_attribute \<Rightarrow> byte list" where
  "encodeAttribute a = at_type a # cell (length (at_value a) + 2) # at_value a"

definition buildResponse ::
  "hash \<Rightarrow> keyed_hash \<Rightarrow> byte \<Rightarrow> byte \<Rightarrow> byte list \<Rightarrow> string \<Rightarrow> radius_attribute list \<Rightarrow> byte list result" where
  "buildResponse md5 hmac code identifier requestAuthenticator secret attributes =
     (let withMessageAuthenticator = (code = 2 \<or> code = 3);
          allAttributes = (if withMessageAuthenticator then attributes @ [\<lparr>at_type = 80, at_value = replicate 16 0\<rparr>] else attributes);
          attrBuf = concat (map encodeAttribute allAttributes);
          len = 20 + length attrBuf
      in if len \<ge> 2 ^ 16 then Inl (RangeError ''The value of \"value\" is out of range.'')
         else let header = [code, identifier] @ writeUInt16BE len;
                  attrBuf' = (if withMessageAuthenticator
                    then take (length attrBuf - 16) attrBuf @ hmac (utf8 secret) (header @ requestAuthenticator @ attrBuf)
                    else attrBuf);
                  responseAuthenticator = md5 (header @ requestAuthenticator @ attrBuf' @ utf8 secret)
              in Inr (header @ responseAuthenticator @ attrBuf'))"

section \<open>Checking who sent a packet\<close>

definition verifyAccountingRequest :: "hash \<Rightarrow> byte list \<Rightarrow> string \<Rightarrow> bool" where
  "verifyAccountingRequest md5 packet secret =
     (if length packet < 20 then False
      else let len = readUInt16BE packet 2
           in if len \<noteq> length packet then False
              else md5 (take 4 packet @ replicate 16 0 @ subarray 20 len packet @ utf8 secret) = subarray 4 20 packet)"

function find_signature :: "keyed_hash \<Rightarrow> byte list \<Rightarrow> string \<Rightarrow> nat \<Rightarrow> nat \<Rightarrow> bool option" where
  "find_signature hmac packet secret len offset =
     (if offset + 2 \<le> len then
        let ty = packet ! offset; attrLen = unat (packet ! (offset + 1))
        in if attrLen < 2 \<or> offset + attrLen > len then None
           else if ty = 80 \<and> attrLen = 18 then
             Some (hmac (utf8 secret) (take (offset + 2) packet @ replicate 16 0 @ subarray (offset + 18) len packet)
                   = subarray (offset + 2) (offset + 18) packet)
           else find_signature hmac packet secret len (offset + attrLen)
      else None)"
  by pat_completeness auto

termination by (relation "measure (\<lambda>(hmac, packet, secret, len, offset). len - offset)") auto

declare find_signature.simps [simp del]

definition verifyRequestMessageAuthenticator :: "keyed_hash \<Rightarrow> byte list \<Rightarrow> string \<Rightarrow> bool option" where
  "verifyRequestMessageAuthenticator hmac packet secret =
     (if length packet < 20 then None
      else find_signature hmac packet secret (min (readUInt16BE packet 2) (length packet)) 20)"

section \<open>Attributes round trip\<close>

definition small :: "radius_attribute \<Rightarrow> bool" where
  "small a \<longleftrightarrow> length (at_value a) \<le> 253"

lemma encode_nth:
  "encodeAttribute a ! 0 = at_type a" "encodeAttribute a ! 1 = cell (length (at_value a) + 2)" "length (encodeAttribute a) = length (at_value a) + 2"
  by (simp_all add: encodeAttribute_def)

lemma parse_step:
  assumes "readUInt8 buf offset = Inr ty" "readUInt8 buf (offset + 1) = Inr al" "offset < len" "unat al = n"
  shows "parse_attributes buf len offset = (if n < 2 \<or> offset + n > len then Inr []
    else case parse_attributes buf len (offset + n) of Inl e \<Rightarrow> Inl e
      | Inr as \<Rightarrow> Inr (\<lparr>at_type = ty, at_value = subarray (offset + 2) (offset + n) buf\<rparr> # as))"
  by (subst parse_attributes.simps) (simp only: assms sum.case if_True)

lemma parse_one:
  assumes "small a" "buf = pre @ encodeAttribute a @ post" "length pre + length (encodeAttribute a) \<le> len"
  shows "parse_attributes buf len (length pre) = (case parse_attributes buf len (length pre + length (encodeAttribute a)) of Inl e \<Rightarrow> Inl e | Inr as \<Rightarrow> Inr (a # as))"
proof -
  have l: "unat (cell (length (at_value a) + 2)) = length (at_value a) + 2" using assms(1) by (simp add: unat_cell small_def)
  have r1: "readUInt8 buf (length pre) = Inr (at_type a)" and r2: "readUInt8 buf (length pre + 1) = Inr (cell (length (at_value a) + 2))"
    unfolding assms(2) by (simp_all add: readUInt8_def nth_append encodeAttribute_def)
  have v: "subarray (length pre + 2) (length pre + (length (at_value a) + 2)) buf = at_value a"
    unfolding assms(2) by (simp add: subarray_def encodeAttribute_def)
  have o: "length pre < len" using assms(3) by (simp add: encode_nth)
  have same: "\<lparr>at_type = at_type a, at_value = at_value a\<rparr> = a" by simp
  have fits: "(length (at_value a) + 2 < 2 \<or> length pre + (length (at_value a) + 2) > len) = False" using assms(3) by (simp add: encode_nth(3))
  show ?thesis unfolding parse_step [OF r1 r2 o l] encode_nth(3) v same fits by (simp only: if_False)
qed

lemma parse_encoded:
  assumes "\<forall>a \<in> set as. small a" "buf = pre @ concat (map encodeAttribute as) @ post" "length pre + length (concat (map encodeAttribute as)) \<le> len"
  shows "parse_attributes buf len (length pre) =
    (case parse_attributes buf len (length pre + length (concat (map encodeAttribute as))) of Inl e \<Rightarrow> Inl e | Inr rest \<Rightarrow> Inr (as @ rest))"
  using assms
proof (induction as arbitrary: pre)
  case Nil
  then show ?case by (simp split: sum.split)
next
  case (Cons a as)
  have "parse_attributes buf len (length pre) = (case parse_attributes buf len (length pre + length (encodeAttribute a)) of Inl e \<Rightarrow> Inl e | Inr as \<Rightarrow> Inr (a # as))"
    by (rule parse_one [where post = "concat (map encodeAttribute as) @ post"]) (use Cons.prems in simp_all)
  also have "parse_attributes buf len (length pre + length (encodeAttribute a)) =
    (case parse_attributes buf len (length pre + length (concat (map encodeAttribute (a # as)))) of Inl e \<Rightarrow> Inl e | Inr rest \<Rightarrow> Inr (as @ rest))"
    using Cons.IH [of "pre @ encodeAttribute a"] Cons.prems by (simp add: add.assoc)
  finally show ?case by (simp split: sum.splits)
qed

lemma parse_end: "len \<le> offset \<Longrightarrow> parse_attributes buf len offset = Inr []"
  by (subst parse_attributes.simps) simp

lemma parse_stray: "length buf = len \<Longrightarrow> offset + 1 = len \<Longrightarrow> \<exists>e. parse_attributes buf len offset = Inl e"
  by (subst parse_attributes.simps) (simp add: readUInt8_def)

lemma parse_raises:
  "parse_attributes buf len offset = Inl e \<Longrightarrow> len \<le> length buf \<Longrightarrow> offset \<le> length buf \<Longrightarrow>
   len = length buf \<and> (\<exists>as b. drop offset buf = concat (map encodeAttribute as) @ [b] \<and> (\<forall>a \<in> set as. small a))"
proof (induction buf len offset rule: parse_attributes.induct)
  case (1 buf len offset)
  have o: "offset < len" using "1.prems"(1) by (subst (asm) parse_attributes.simps) (auto split: if_splits)
  have r: "readUInt8 buf offset = Inr (buf ! offset)" using o "1.prems"(2) by (simp add: readUInt8_def)
  show ?case
  proof (cases "offset + 1 < length buf")
    case False
    then have "length buf = offset + 1" using o "1.prems"(2) by simp
    then have "drop offset buf = [buf ! offset]" by (simp add: Cons_nth_drop_Suc [symmetric])
    moreover have "len = length buf" using \<open>length buf = offset + 1\<close> o "1.prems"(2) by simp
    ultimately show ?thesis by (intro conjI exI [of _ "[]"] exI [of _ "buf ! offset"]) simp_all
  next
    case True
    define n where "n = unat (buf ! (offset + 1))"
    have r2: "readUInt8 buf (offset + 1) = Inr (buf ! (offset + 1))" using True by (simp add: readUInt8_def)
    note st = parse_step [OF r r2 o n_def [symmetric]]
    have n: "\<not> (n < 2 \<or> offset + n > len)" using "1.prems"(1) st by (auto split: if_splits)
    have rec: "parse_attributes buf len (offset + n) = Inl e" using "1.prems"(1) st n by (auto split: sum.splits)
    have ih: "len = length buf \<and> (\<exists>as b. drop (offset + n) buf = concat (map encodeAttribute as) @ [b] \<and> (\<forall>a \<in> set as. small a))"
      using "1.IH" [OF o r r2 n [unfolded n_def]] rec "1.prems"(2) n by (simp add: n_def)
    then obtain as b where as: "drop (offset + n) buf = concat (map encodeAttribute as) @ [b]" "\<forall>a \<in> set as. small a" by blast
    define a where "a = \<lparr>at_type = buf ! offset, at_value = subarray (offset + 2) (offset + n) buf\<rparr>"
    have len: "length (at_value a) = n - 2" using n "1.prems"(2) by (simp add: a_def subarray_def)
    have "n < 256" unfolding n_def using unsigned_less [where w = "buf ! (offset + 1)"] by simp
    then have "small a" by (simp add: small_def len)
    moreover have "drop offset buf = encodeAttribute a @ drop (offset + n) buf"
    proof -
      have "drop offset buf = buf ! offset # buf ! (offset + 1) # drop (offset + 2) buf"
        using o True by (simp add: Cons_nth_drop_Suc)
      moreover have "drop (offset + 2) buf = at_value a @ drop (offset + n) buf"
      proof -
        have "take (n - 2) (drop (offset + 2) buf) = at_value a" using n by (simp add: a_def subarray_def drop_take)
        moreover have "drop (n - 2) (drop (offset + 2) buf) = drop (offset + n) buf"
        proof -
          have "n - 2 + (offset + 2) = offset + n" using n by linarith
          then show ?thesis by (simp only: drop_drop)
        qed
        ultimately show ?thesis by (metis append_take_drop_id)
      qed
      moreover have "cell (length (at_value a) + 2) = buf ! (offset + 1)" using n by (simp add: len n_def cell_def)
      ultimately show ?thesis by (simp add: encodeAttribute_def a_def)
    qed
    ultimately show ?thesis using ih as by (intro conjI exI [of _ "a # as"] exI [of _ b]) auto
  qed
qed

section \<open>The password round trip\<close>

text \<open>RFC 2865, section 5.2: how the router hides a password of whole blocks.\<close>

function pap_hide :: "hash \<Rightarrow> byte list \<Rightarrow> byte list \<Rightarrow> byte list \<Rightarrow> byte list" where
  "pap_hide md5 secret prev plain =
     (if plain = [] then []
      else let c = map2 (\<lambda>p h. p XOR h) (take 16 plain) (md5 (secret @ prev)) in c @ pap_hide md5 secret c (drop 16 plain))"
  by pat_completeness auto

termination by (relation "measure (\<lambda>(md5, secret, prev, plain). length plain)") auto

declare pap_hide.simps [simp del]

definition digest :: "hash \<Rightarrow> bool" where
  "digest md5 \<longleftrightarrow> (\<forall>m. length (md5 m) = 16)"

definition pad_password :: "string \<Rightarrow> byte list" where
  "pad_password p = utf8 p @ replicate ((16 - length p mod 16) mod 16) 0"

lemma xor_twice: "length a \<le> length h \<Longrightarrow> map2 (\<lambda>c h. c XOR h) (map2 (\<lambda>p h. p XOR h) a h) h = (a :: byte list)"
  by (induction a h rule: list_induct2') (auto simp: xor.assoc)

lemma pap_blocks_hide:
  assumes md: "digest md5"
  shows "16 dvd length plain \<Longrightarrow> pap_blocks md5 secret prev (pap_hide md5 secret prev plain) = plain"
proof (induction plain arbitrary: prev rule: length_induct)
  case (1 plain)
  show ?case
  proof (cases "plain = []")
    case True
    then show ?thesis by (simp add: pap_hide.simps pap_blocks.simps)
  next
    case False
    define c where "c = map2 (\<lambda>p h. p XOR h) (take 16 plain) (md5 (secret @ prev))"
    have len: "16 \<le> length plain" using "1.prems" False by (auto dest: dvd_imp_le)
    have h: "length (md5 (secret @ prev)) = 16" using md by (simp add: digest_def)
    have c: "length c = 16" using len h by (simp add: c_def)
    have e: "pap_hide md5 secret prev plain = c @ pap_hide md5 secret c (drop 16 plain)"
      by (subst pap_hide.simps) (simp add: False c_def Let_def)
    have "c \<noteq> []" using c by auto
    then have "pap_blocks md5 secret prev (c @ pap_hide md5 secret c (drop 16 plain)) =
        map2 (\<lambda>c h. c XOR h) c (md5 (secret @ prev)) @ pap_blocks md5 secret c (pap_hide md5 secret c (drop 16 plain))"
      by (subst pap_blocks.simps) (simp add: c Let_def)
    also have "map2 (\<lambda>c h. c XOR h) c (md5 (secret @ prev)) = take 16 plain"
      unfolding c_def by (rule xor_twice) (use h len in simp)
    also have "pap_blocks md5 secret c (pap_hide md5 secret c (drop 16 plain)) = drop 16 plain"
      using "1.IH" False len "1.prems" by (simp add: dvd_diff_nat)
    finally show ?thesis by (simp add: e)
  qed
qed

lemma pad_password_blocks: "16 dvd length (pad_password p)"
proof -
  define m q where "m = length p mod 16" and "q = length p div 16"
  have l: "length p = 16 * q + m" by (simp add: m_def q_def)
  have m: "m < 16" by (simp add: m_def)
  have "16 dvd length p + (16 - m) mod 16"
  proof (cases "m = 0")
    case True
    then show ?thesis unfolding l by simp
  next
    case False
    have "(16 - m) mod 16 = 16 - m" by (rule mod_less) (use False m in arith)
    then have "length p + (16 - m) mod 16 = 16 * (q + 1)" unfolding l using m by simp
    then show ?thesis by (metis dvd_triv_left)
  qed
  then show ?thesis by (simp only: pad_password_def m_def length_append length_utf8 length_replicate)
qed

lemma take_password:
  assumes "CHR 0x00 \<notin> set p"
  shows "takeWhile (\<lambda>b. b \<noteq> 0) (pad_password p) = utf8 p"
proof -
  have "cell (of_char c) \<noteq> 0" if "c \<in> set p" for c
  proof
    assume "cell (of_char c) = 0"
    then have "unat (cell (of_char c)) = 0" by simp
    then have "of_char c = (0 :: nat)" by (simp add: unat_cell)
    moreover have "c = char_of (of_char c :: nat)" by simp
    moreover have "char_of (0 :: nat) = CHR 0x00" by (simp add: char_of_def)
    ultimately have "c = CHR 0x00" by metis
    then show False using assms that by simp
  qed
  then have "\<forall>b \<in> set (utf8 p). b \<noteq> 0" by (auto simp: utf8_def)
  then have "takeWhile (\<lambda>b. b \<noteq> 0) (utf8 p @ replicate k 0) = utf8 p" for k
    by (simp add: takeWhile_append)
  then show ?thesis by (simp add: pad_password_def)
qed

section \<open>What the router checks\<close>

text \<open>
  RFC 2865, section 3, and RFC 3579, section 3.2: the response authenticator over the packet with
  the request's authenticator in its place, and for Access-Accept and Access-Reject the
  Message-Authenticator, here the last attribute, over the same with its own value zeroed.
\<close>

definition nas_accepts :: "hash \<Rightarrow> keyed_hash \<Rightarrow> string \<Rightarrow> byte list \<Rightarrow> byte list \<Rightarrow> bool" where
  "nas_accepts md5 hmac secret requestAuthenticator packet \<longleftrightarrow>
     20 \<le> length packet \<and> length packet = readUInt16BE packet 2
     \<and> md5 (take 4 packet @ requestAuthenticator @ drop 20 packet @ utf8 secret) = subarray 4 20 packet
     \<and> (packet ! 0 = 2 \<or> packet ! 0 = 3 \<longrightarrow>
          (let n = length packet - 18
           in 38 \<le> length packet \<and> packet ! n = 80 \<and> packet ! (n + 1) = 18
              \<and> hmac (utf8 secret) (take 4 packet @ requestAuthenticator @ subarray 20 (n + 2) packet @ replicate 16 0) = drop (n + 2) packet))"

lemma be16: "n < 2 ^ 16 \<Longrightarrow> readUInt16BE (a # b # writeUInt16BE n @ rest) 2 = n"
  by (simp add: readUInt16BE_def writeUInt16BE_def unat_cell drop_bit_eq_div)

lemma build_shape:
  fixes ra :: "byte list"
  assumes run: "buildResponse md5 hmac code identifier ra secret attributes = Inr packet"
    and h: "digest md5" "digest (hmac (utf8 secret))"
  obtains hdr body resp where "packet = hdr @ resp @ body" "length resp = 16" "resp = md5 (hdr @ ra @ body @ utf8 secret)"
    "hdr = [code, identifier] @ writeUInt16BE (20 + length body)" "20 + length body < 2 ^ 16"
    "if code = 2 \<or> code = 3
     then \<exists>sig. length sig = 16 \<and> body = concat (map encodeAttribute attributes) @ encodeAttribute \<lparr>at_type = 80, at_value = sig\<rparr>
            \<and> sig = hmac (utf8 secret) (hdr @ ra @ concat (map encodeAttribute attributes) @ encodeAttribute \<lparr>at_type = 80, at_value = replicate 16 0\<rparr>)
     else body = concat (map encodeAttribute attributes)"
proof (cases "code = 2 \<or> code = 3")
  case True
  define es where "es = concat (map encodeAttribute attributes)"
  define n where "n = 20 + length es + 18"
  define hdr where "hdr = [code, identifier] @ writeUInt16BE n"
  define sig where "sig = hmac (utf8 secret) (hdr @ ra @ es @ encodeAttribute \<lparr>at_type = 80, at_value = replicate 16 0\<rparr>)"
  define body where "body = es @ encodeAttribute \<lparr>at_type = 80, at_value = sig\<rparr>"
  have sig: "length sig = 16" using h(2) by (simp add: sig_def digest_def)
  have e: "encodeAttribute \<lparr>at_type = 80, at_value = replicate 16 0\<rparr> = [80, cell 18] @ replicate 16 0"
    "encodeAttribute \<lparr>at_type = 80, at_value = sig\<rparr> = [80, cell 18] @ sig" by (simp_all add: encodeAttribute_def sig)
  have body': "body = es @ [80, cell 18] @ sig" by (simp add: body_def e)
  have len: "20 + length body = n" by (simp add: body_def n_def e sig)
  have b: "take (length (es @ [80, cell 18] @ replicate 16 0) - 16) (es @ [80, cell 18] @ replicate 16 0) @ sig = body"
    by (simp add: body_def e)
  have "packet = hdr @ md5 (hdr @ ra @ body @ utf8 secret) @ body \<and> n < 2 ^ 16"
    using run True unfolding buildResponse_def
    by (simp add: Let_def es_def [symmetric] e(1) split: if_splits)
       (auto simp: n_def [symmetric, simplified] body' hdr_def sig_def e(1), simp_all add: n_def)
  then show ?thesis using that [of hdr "md5 (hdr @ ra @ body @ utf8 secret)" body] True sig len h(1)
    by (simp add: digest_def hdr_def body_def es_def sig_def)
next
  case False
  define es where "es = concat (map encodeAttribute attributes)"
  have "packet = ([code, identifier] @ writeUInt16BE (20 + length es)) @ md5 (([code, identifier] @ writeUInt16BE (20 + length es)) @ ra @ es @ utf8 secret) @ es
      \<and> 20 + length es < 2 ^ 16"
    using run False unfolding buildResponse_def by (simp add: Let_def es_def [symmetric] split: if_splits)
  then show ?thesis using that [of "[code, identifier] @ writeUInt16BE (20 + length es)"
        "md5 (([code, identifier] @ writeUInt16BE (20 + length es)) @ ra @ es @ utf8 secret)" es] False h(1)
    by (simp add: digest_def es_def)
qed

section \<open>Properties\<close>

lemma response_layout:
  assumes run: "buildResponse md5 hmac code identifier ra secret attributes = Inr packet"
    and h: "digest md5" "digest (hmac (utf8 secret))"
  obtains hdr body resp where "packet = hdr @ resp @ body" "length hdr = 4" "length resp = 16"
    "length packet = 20 + length body" "readUInt16BE packet 2 = length packet"
    "take 4 packet = hdr" "drop 20 packet = body" "subarray 4 20 packet = resp" "packet ! 0 = code" "packet ! 1 = identifier"
    "resp = md5 (hdr @ ra @ body @ utf8 secret)"
    "if code = 2 \<or> code = 3
     then \<exists>sig. length sig = 16 \<and> body = concat (map encodeAttribute attributes) @ encodeAttribute \<lparr>at_type = 80, at_value = sig\<rparr>
            \<and> sig = hmac (utf8 secret) (hdr @ ra @ concat (map encodeAttribute attributes) @ encodeAttribute \<lparr>at_type = 80, at_value = replicate 16 0\<rparr>)
     else body = concat (map encodeAttribute attributes)"
proof -
  obtain hdr body resp where p: "packet = hdr @ resp @ body" and lr: "length resp = 16" and resp: "resp = md5 (hdr @ ra @ body @ utf8 secret)"
    and hdr: "hdr = [code, identifier] @ writeUInt16BE (20 + length body)" and lt: "20 + length body < 2 ^ 16"
    and body: "if code = 2 \<or> code = 3
     then \<exists>sig. length sig = 16 \<and> body = concat (map encodeAttribute attributes) @ encodeAttribute \<lparr>at_type = 80, at_value = sig\<rparr>
            \<and> sig = hmac (utf8 secret) (hdr @ ra @ concat (map encodeAttribute attributes) @ encodeAttribute \<lparr>at_type = 80, at_value = replicate 16 0\<rparr>)
     else body = concat (map encodeAttribute attributes)"
    by (rule build_shape [OF run h])
  have lh: "length hdr = 4" by (simp add: hdr writeUInt16BE_def)
  have lp: "length packet = 20 + length body" unfolding p length_append lh lr by simp
  have declared: "readUInt16BE packet 2 = length packet" unfolding lp unfolding p hdr by (simp add: be16 [OF lt])
  have t4: "take 4 packet = hdr" and d20: "drop 20 packet = body" and auth: "subarray 4 20 packet = resp"
    and c: "packet ! 0 = code" "packet ! 1 = identifier"
    by (simp_all add: p lh lr subarray_def) (simp_all add: hdr writeUInt16BE_def lr)
  show ?thesis by (rule that [OF p lh lr lp declared t4 d20 auth c resp body])
qed

text \<open>The router accepts every reply built for its request under its secret.\<close>

lemma response_accepted:
  assumes run: "buildResponse md5 hmac code identifier ra secret attributes = Inr packet"
    and h: "digest md5" "digest (hmac (utf8 secret))"
  shows "nas_accepts md5 hmac secret ra packet"
  using run h
proof (rule response_layout)
  fix hdr body resp
  assume p: "packet = hdr @ resp @ body" and lh: "length hdr = 4" and lr: "length resp = 16"
    and lp: "length packet = 20 + length body" and declared: "readUInt16BE packet 2 = length packet"
    and t4: "take 4 packet = hdr" and d20: "drop 20 packet = body" and auth: "subarray 4 20 packet = resp"
    and c: "packet ! 0 = code" "packet ! 1 = identifier"
    and resp: "resp = md5 (hdr @ ra @ body @ utf8 secret)"
    and body: "if code = 2 \<or> code = 3
     then \<exists>sig. length sig = 16 \<and> body = concat (map encodeAttribute attributes) @ encodeAttribute \<lparr>at_type = 80, at_value = sig\<rparr>
            \<and> sig = hmac (utf8 secret) (hdr @ ra @ concat (map encodeAttribute attributes) @ encodeAttribute \<lparr>at_type = 80, at_value = replicate 16 0\<rparr>)
     else body = concat (map encodeAttribute attributes)"
  have ma: "38 \<le> length packet \<and> packet ! (length packet - 18) = 80 \<and> packet ! (length packet - 18 + 1) = 18
      \<and> hmac (utf8 secret) (take 4 packet @ ra @ subarray 20 (length packet - 18 + 2) packet @ replicate 16 0) = drop (length packet - 18 + 2) packet"
    if ac: "code = 2 \<or> code = 3"
  proof -
    define es where "es = concat (map encodeAttribute attributes)"
    obtain sig where s: "length sig = 16" "body = es @ [80, cell 18] @ sig" "sig = hmac (utf8 secret) (hdr @ ra @ es @ [80, cell 18] @ replicate 16 0)"
      using body ac by (auto simp: encodeAttribute_def es_def)
    have q: "packet = (hdr @ resp @ es) @ [80, cell 18] @ sig" by (simp add: p s(2))
    have n: "length packet - 18 = length (hdr @ resp @ es)" by (simp add: q s(1))
    have m: "subarray 20 (length packet - 18 + 2) packet = es @ [80, cell 18]" unfolding n unfolding q by (simp add: subarray_def lh lr)
    have d: "drop (length packet - 18 + 2) packet = sig" unfolding n unfolding q by simp
    have b: "packet ! (length packet - 18) = 80" "packet ! (length packet - 18 + 1) = 18"
      unfolding n unfolding q by (simp_all add: nth_append cell_def)
    have g: "38 \<le> length packet" unfolding q by (simp add: lh lr s(1))
    show ?thesis unfolding m d t4 using b g s(3) by simp
  qed
  show ?thesis
    unfolding nas_accepts_def c d20 t4 auth declared Let_def using resp ma by (auto simp: lp t4)
qed

lemma response_parses:
  assumes run: "buildResponse md5 hmac code identifier ra secret attributes = Inr packet"
    and h: "digest md5" "digest (hmac (utf8 secret))" and sm: "\<forall>a \<in> set attributes. small a"
  shows "\<exists>auth extra. parsePacket packet = Inr (Some \<lparr>pk_code = code, pk_identifier = identifier, pk_authenticator = auth, pk_attributes = attributes @ extra\<rparr>)
      \<and> (if code = 2 \<or> code = 3 then map at_type extra = [80] else extra = [])"
  using run h
proof (rule response_layout)
  fix hdr body resp
  assume p: "packet = hdr @ resp @ body" and lh: "length hdr = 4" and lr: "length resp = 16"
    and lp: "length packet = 20 + length body" and declared: "readUInt16BE packet 2 = length packet"
    and c: "packet ! 0 = code" "packet ! 1 = identifier"
    and body: "if code = 2 \<or> code = 3
     then \<exists>sig. length sig = 16 \<and> body = concat (map encodeAttribute attributes) @ encodeAttribute \<lparr>at_type = 80, at_value = sig\<rparr>
            \<and> sig = hmac (utf8 secret) (hdr @ ra @ concat (map encodeAttribute attributes) @ encodeAttribute \<lparr>at_type = 80, at_value = replicate 16 0\<rparr>)
     else body = concat (map encodeAttribute attributes)"
  obtain as where as: "body = concat (map encodeAttribute (attributes @ as))" "\<forall>a \<in> set as. small a"
    "if code = 2 \<or> code = 3 then map at_type as = [80] else as = []"
  proof (cases "code = 2 \<or> code = 3")
    case True
    then obtain sig where "length sig = 16" "body = concat (map encodeAttribute attributes) @ encodeAttribute \<lparr>at_type = 80, at_value = sig\<rparr>" using body by auto
    then show ?thesis using that [of "[\<lparr>at_type = 80, at_value = sig\<rparr>]"] True by (simp add: small_def)
  next
    case False
    then show ?thesis using that [of "[]"] body by simp
  qed
  have "parse_attributes packet (length packet) (length (hdr @ resp)) =
      (case parse_attributes packet (length packet) (length (hdr @ resp) + length (concat (map encodeAttribute (attributes @ as)))) of Inl e \<Rightarrow> Inl e
       | Inr rest \<Rightarrow> Inr ((attributes @ as) @ rest))"
    by (rule parse_encoded [where post = "[]"]) (use sm as(1,2) p in auto)
  also have "length (hdr @ resp) + length (concat (map encodeAttribute (attributes @ as))) = length packet" by (simp add: p as(1))
  finally have "parse_attributes packet (length packet) 20 = Inr (attributes @ as)" by (simp add: parse_end lh lr)
  then show ?thesis
    using as(3) lp c(2) by (simp add: parsePacket_def declared c(1) Let_def)
qed

text \<open>
  C28. Every reply the server builds is one its router accepts and can read: the response
  authenticator and, on Access-Accept and Access-Reject, the Message-Authenticator verify under the
  shared secret and the request's authenticator, and parsing the reply gives back its code, its
  identifier and its attributes, followed only by the Message-Authenticator.
\<close>

theorem reply_verifies_and_parses:
  assumes "buildResponse md5 hmac code identifier ra secret attributes = Inr packet"
    and "digest md5" "digest (hmac (utf8 secret))" "\<forall>a \<in> set attributes. length (at_value a) \<le> 253"
  shows "nas_accepts md5 hmac secret ra packet
    \<and> (\<exists>auth extra. parsePacket packet = Inr (Some \<lparr>pk_code = code, pk_identifier = identifier, pk_authenticator = auth, pk_attributes = attributes @ extra\<rparr>)
      \<and> (if code = 2 \<or> code = 3 then map at_type extra = [80] else extra = []))"
proof -
  have "\<forall>a \<in> set attributes. small a" using assms(4) by (simp add: small_def)
  then show ?thesis using response_accepted [OF assms(1-3)] response_parses [OF assms(1-3)] by blast
qed

theorem reply_verifies_and_parses_witness:
  "\<exists>packet. buildResponse (\<lambda>_. replicate 16 7) (\<lambda>_ _. replicate 16 9) 3 1 (replicate 16 5) ''s3cret'' [\<lparr>at_type = 18, at_value = [72, 105]\<rparr>] = Inr packet
     \<and> nas_accepts (\<lambda>_. replicate 16 7) (\<lambda>_ _. replicate 16 9) ''s3cret'' (replicate 16 5) packet"
proof -
  obtain packet where run: "buildResponse (\<lambda>_. replicate 16 7) (\<lambda>_ _. replicate 16 9) 3 1 (replicate 16 5) ''s3cret'' [\<lparr>at_type = 18, at_value = [72, 105]\<rparr>] = Inr packet"
    by (simp add: buildResponse_def Let_def encodeAttribute_def)
  then show ?thesis using reply_verifies_and_parses [OF run] by (simp add: digest_def)
qed

text \<open>
  The password hidden by a router (RFC 2865, section 5.2) is the password the server compares:
  for every password without a NUL character, decoding its padded and hidden form with the same
  secret and request authenticator gives the password back.
\<close>

theorem pap_password_round_trip:
  assumes "digest md5" "CHR 0x00 \<notin> set p"
  shows "decodePapPassword md5 (pap_hide md5 (utf8 secret) ra (pad_password p)) secret ra = p"
  unfolding decodePapPassword_def pap_blocks_hide [OF assms(1) pad_password_blocks] take_password [OF assms(2)] by simp

theorem pap_password_round_trip_witness:
  "decodePapPassword (\<lambda>m. replicate 16 (word_of_nat (length m))) (pap_hide (\<lambda>m. replicate 16 (word_of_nat (length m))) (utf8 ''k'') [1] (pad_password ''ABCD2345'')) ''k'' [1] = ''ABCD2345''"
  by (rule pap_password_round_trip) (simp_all add: digest_def)

text \<open>
  When reading a packet throws: exactly when the packet is complete, its declared length is the
  datagram's, and its attributes are well formed up to a single left-over byte, whose length byte
  lies outside the buffer. Nothing else an attacker sends makes it throw.
\<close>

theorem parse_throws_iff:
  "(\<exists>e. parsePacket buf = Inl e) \<longleftrightarrow>
     20 \<le> length buf \<and> readUInt16BE buf 2 = length buf
     \<and> (\<exists>as b. drop 20 buf = concat (map encodeAttribute as) @ [b] \<and> (\<forall>a \<in> set as. length (at_value a) \<le> 253))"
proof
  assume "\<exists>e. parsePacket buf = Inl e"
  then obtain e where e: "20 \<le> length buf" "readUInt16BE buf 2 \<le> length buf" "parse_attributes buf (readUInt16BE buf 2) 20 = Inl e"
    by (auto simp: parsePacket_def Let_def not_less split: if_splits sum.splits)
  show "20 \<le> length buf \<and> readUInt16BE buf 2 = length buf
     \<and> (\<exists>as b. drop 20 buf = concat (map encodeAttribute as) @ [b] \<and> (\<forall>a \<in> set as. length (at_value a) \<le> 253))"
    using parse_raises [OF e(3,2,1)] e(1) by (auto simp: small_def)
next
  assume r: "20 \<le> length buf \<and> readUInt16BE buf 2 = length buf
     \<and> (\<exists>as b. drop 20 buf = concat (map encodeAttribute as) @ [b] \<and> (\<forall>a \<in> set as. length (at_value a) \<le> 253))"
  then obtain as b where as: "drop 20 buf = concat (map encodeAttribute as) @ [b]" "\<forall>a \<in> set as. small a" by (auto simp: small_def)
  have buf: "buf = take 20 buf @ concat (map encodeAttribute as) @ [b]" using as(1) by (metis append_take_drop_id)
  have l20: "length (take 20 buf) = 20" using r by simp
  have len: "length buf = length (take 20 buf) + length (concat (map encodeAttribute as)) + 1" by (subst buf) simp
  have "parse_attributes buf (length buf) (length (take 20 buf)) =
      (case parse_attributes buf (length buf) (length (take 20 buf) + length (concat (map encodeAttribute as))) of Inl e \<Rightarrow> Inl e | Inr rest \<Rightarrow> Inr (as @ rest))"
    by (rule parse_encoded [OF as(2) buf]) (use len in simp)
  moreover obtain e where "parse_attributes buf (length buf) (length (take 20 buf) + length (concat (map encodeAttribute as))) = Inl e"
    using parse_stray [OF refl] len by metis
  ultimately have "parse_attributes buf (length buf) 20 = Inl e" using l20 by simp
  then show "\<exists>e. parsePacket buf = Inl e" using r by (auto simp: parsePacket_def Let_def)
qed

theorem parse_throws_iff_witness:
  "\<exists>e. parsePacket ([1, 0, 0, 21] @ replicate 16 0 @ [1]) = Inl e"
  unfolding parse_throws_iff by (intro conjI exI [of _ "[]"] exI [of _ 1]) (simp_all add: readUInt16BE_def)

end
