(* ===== verification/RadiusServer.thy ===== *)
theory RadiusServer
  imports HotspotDevices RadiusPackets
begin

text \<open>
  The embedded RADIUS server of packages/radius/src/radius-server.ts: which router sent a packet,
  the credentials of an Access-Request, the attributes of the answer, the accounting rows and the
  data cap, and the two message handlers. What a handler starts without waiting for it (activating
  a voucher, remembering a phone, recording accounting) is done at the point where it is started.
\<close>

section \<open>Which router\<close>

definition getNas :: "string \<Rightarrow> 'x hotspot_db_scheme \<Rightarrow> nas_row option" where
  "getNas sourceAddress db = List.find (\<lambda>n. ns_nasname n = sourceAddress) (nasRows db)"

text \<open>\<open>verify\<close> is \<open>Some\<close> of the outcome, or \<open>None\<close> when the packet carries no signature.\<close>

definition resolveNas ::
  "string \<Rightarrow> (string \<Rightarrow> bool option) \<Rightarrow> 'x hotspot_db_scheme \<Rightarrow> nas_row option \<times> 'x hotspot_db_scheme" where
  "resolveNas sourceAddress verify db =
     (let byAddress = getNas sourceAddress db;
          trusted = (case byAddress of None \<Rightarrow> False | Some n \<Rightarrow> verify (ns_secret n) \<noteq> Some False)
      in if trusted then (byAddress, db)
         else
          (let candidates = take 2000 (filter (\<lambda>n. ns_nasname n \<noteq> sourceAddress) (nasRows db))
           in case List.find (\<lambda>c. verify (ns_secret c) = Some True) candidates of
                None \<Rightarrow> (None, db)
              | Some owner \<Rightarrow> (Some owner,
                  db\<lparr>nasRows := update_where (\<lambda>n. ns_id n = ns_id owner) (\<lambda>n. n\<lparr>ns_nasname := sourceAddress\<rparr>)
                       (filter (\<lambda>n. ns_nasname n \<noteq> sourceAddress) (nasRows db))\<rparr>)))"

section \<open>Credentials\<close>

definition activateVoucherOnFirstAuth :: "string \<Rightarrow> 'x hotspot_db_scheme \<Rightarrow> 'x hotspot_db_scheme" where
  "activateVoucherOnFirstAuth username db =
     (case List.find (\<lambda>v. v_code v = username \<and> v_status v = V_UNUSED) (vouchers db) of
        None \<Rightarrow> db
      | Some v \<Rightarrow> db\<lparr>vouchers := update_where (\<lambda>x. v_id x = v_id v \<and> v_status x = V_UNUSED) (start_clock (clock db)) (vouchers db)\<rparr>)"

definition checkCredentials :: "string \<Rightarrow> string \<Rightarrow> 'x hotspot_db_scheme \<Rightarrow> bool \<times> 'x hotspot_db_scheme" where
  "checkCredentials username password db =
     (case password_row username db of None \<Rightarrow> (False, db)
      | Some check \<Rightarrow>
          if rr_value check = password then (True, activateVoucherOnFirstAuth username db) else (False, db))"

section \<open>Reply attributes\<close>

text \<open>
  \<open>Number\<close> of a row's value. The rows hold decimal integers (voucher.service.ts writes
  \<open>String(n)\<close>); a text that is neither one nor blank counts as not a number here.
\<close>

definition signed_digits :: "string \<Rightarrow> int option" where
  "signed_digits s =
     (case s of [] \<Rightarrow> None
      | c # ds \<Rightarrow>
          if c = CHR ''-'' \<or> c = CHR ''+''
          then if ds \<noteq> [] \<and> list_all is_digit ds then Some ((if c = CHR ''-'' then -1 else 1) * int (string_to_nat ds)) else None
          else if list_all is_digit s then Some (int (string_to_nat s)) else None)"

definition js_number :: "string \<Rightarrow> int option" where
  "js_number s = (if trim s = [] then Some 0 else signed_digits (trim s))"

text \<open>\<open>parseInt(s, 10)\<close>: leading white space, a sign, then the longest run of digits.\<close>

definition js_parseInt :: "string \<Rightarrow> int option" where
  "js_parseInt s =
     (let t = dropWhile is_space s;
          sgn = (if t \<noteq> [] \<and> (hd t = CHR ''-'' \<or> hd t = CHR ''+'') then take 1 t else []);
          ds = takeWhile is_digit (drop (length sgn) t)
      in if ds = [] then None else Some ((if sgn = ''-'' then -1 else 1) * int (string_to_nat ds)))"

text \<open>\<open>buf.writeUInt32BE(n, 0)\<close> on a number known to be positive or an integer.\<close>

definition uint32_bytes :: "int \<Rightarrow> byte list result" where
  "uint32_bytes n = (if n < 0 then Inl (RangeError ''The value of \"value\" is out of range.'') else writeUInt32BE (nat n))"

definition uint32_attribute :: "byte \<Rightarrow> int \<Rightarrow> radius_attribute list result" where
  "uint32_attribute t n = (case uint32_bytes n of Inl e \<Rightarrow> Inl e | Inr b \<Rightarrow> Inr [\<lparr>at_type = t, at_value = b\<rparr>])"

text \<open>The vendor number 14988 on four bytes, then the vendor's own type, length and value.\<close>

definition encodeVendorSpecific :: "byte \<Rightarrow> byte list \<Rightarrow> radius_attribute" where
  "encodeVendorSpecific subType val =
     \<lparr>at_type = 26, at_value = [0, 0, 58, 140] @ [subType, cell (length val + 2)] @ val\<rparr>"

definition encodeTotalLimitAttributes :: "int \<Rightarrow> radius_attribute list result" where
  "encodeTotalLimitAttributes totalBytes =
     (case uint32_bytes (totalBytes mod 2 ^ 32) of Inl e \<Rightarrow> Inl e
      | Inr low \<Rightarrow>
          if totalBytes div 2 ^ 32 > 0 then
            (case uint32_bytes (totalBytes div 2 ^ 32) of Inl e \<Rightarrow> Inl e
             | Inr high \<Rightarrow> Inr [encodeVendorSpecific 17 low, encodeVendorSpecific 18 high])
          else Inr [encodeVendorSpecific 17 low])"

definition reply_row_attributes :: "mac_login option \<Rightarrow> rad_row \<Rightarrow> radius_attribute list result" where
  "reply_row_attributes remaining reply =
     (if (case remaining of None \<Rightarrow> False | Some l \<Rightarrow> ml_remainingSeconds l \<noteq> None \<and> rr_attribute reply = ''Session-Timeout'') then Inr []
      else if (case remaining of None \<Rightarrow> False | Some l \<Rightarrow> ml_remainingBytes l \<noteq> None \<and> rr_attribute reply = ''Mikrotik-Total-Limit'') then Inr []
      else if rr_attribute reply = ''Session-Timeout'' then
        (case js_number (rr_value reply) of None \<Rightarrow> Inr [] | Some n \<Rightarrow> if n > 0 then uint32_attribute 27 n else Inr [])
      else if rr_attribute reply = ''Port-Limit'' then
        (case js_number (rr_value reply) of None \<Rightarrow> Inr [] | Some n \<Rightarrow> if n > 0 then uint32_attribute 62 n else Inr [])
      else if rr_attribute reply = ''Mikrotik-Address-List'' then Inr [encodeVendorSpecific 19 (utf8 (rr_value reply))]
      else if rr_attribute reply = ''Mikrotik-Rate-Limit'' then Inr [encodeVendorSpecific 8 (utf8 (rr_value reply))]
      else if rr_attribute reply = ''Mikrotik-Total-Limit'' then
        (case js_number (rr_value reply) of None \<Rightarrow> Inr [] | Some n \<Rightarrow> if n > 0 then encodeTotalLimitAttributes n else Inr [])
      else Inr [])"

fun concat_results :: "'a list result list \<Rightarrow> 'a list result" where
  "concat_results [] = Inr []"
| "concat_results (Inl e # rs) = Inl e"
| "concat_results (Inr xs # rs) = (case concat_results rs of Inl e \<Rightarrow> Inl e | Inr ys \<Rightarrow> Inr (xs @ ys))"

definition buildReplyAttributes :: "string \<Rightarrow> mac_login option \<Rightarrow> 'x hotspot_db_scheme \<Rightarrow> radius_attribute list result" where
  "buildReplyAttributes username remaining db =
     concat_results
       (map (reply_row_attributes remaining) (filter (\<lambda>r. rr_username r = username) (radReplies db))
        @ [case remaining of None \<Rightarrow> Inr [] | Some l \<Rightarrow>
             (case ml_remainingSeconds l of None \<Rightarrow> Inr [] | Some s \<Rightarrow> uint32_attribute 27 s),
           case remaining of None \<Rightarrow> Inr [] | Some l \<Rightarrow>
             (case ml_remainingBytes l of None \<Rightarrow> Inr [] | Some b \<Rightarrow> encodeTotalLimitAttributes b)])"

section \<open>The Access-Request handler\<close>

definition other_devices_active :: "id \<Rightarrow> string \<Rightarrow> string option \<Rightarrow> 'x hotspot_db_scheme \<Rightarrow> nat" where
  "other_devices_active tenantId voucherCode callingStationId db =
     count_where (\<lambda>a. ra_username a \<in> set (sessionNamesForVoucher tenantId voucherCode db) \<and> ra_stopTime a = None \<and>
        (case callingStationId of None \<Rightarrow> True | Some c \<Rightarrow> ra_callingStationId a \<noteq> None \<and> ra_callingStationId a \<noteq> Some c))
       (radAccts db)"

text \<open>The limit that is reached, when one is.\<close>

definition device_limit_reached :: "id \<Rightarrow> string \<Rightarrow> string option \<Rightarrow> 'x hotspot_db_scheme \<Rightarrow> int option" where
  "device_limit_reached tenantId voucherCode callingStationId db =
     (case List.find (\<lambda>r. rr_username r = voucherCode \<and> rr_attribute r = ''Simultaneous-Use'') (radChecks db) of
        None \<Rightarrow> None
      | Some simCheck \<Rightarrow>
          (case js_parseInt (rr_value simCheck) of None \<Rightarrow> None
           | Some maxDevices \<Rightarrow>
               if maxDevices > 0 \<and> int (other_devices_active tenantId voucherCode callingStationId db) \<ge> maxDevices
               then Some maxDevices else None))"

definition limit_message :: "int \<Rightarrow> string" where
  "limit_message n = ''Another device is already connected with this voucher (Limit: '' @ int_to_string n
     @ '' device'' @ (if n > 1 then ''s'' else '''') @ '').''"

definition packet_username :: "radius_packet \<Rightarrow> string" where
  "packet_username packet = (case findAttr packet 1 of None \<Rightarrow> ''(missing)'' | Some b \<Rightarrow> utf8_text b)"

definition check_password :: "hash \<Rightarrow> nas_row \<Rightarrow> radius_packet \<Rightarrow> 'x hotspot_db_scheme \<Rightarrow> bool \<times> 'x hotspot_db_scheme" where
  "check_password md5 nas packet db =
     (case (findAttr packet 1, findAttr packet 2) of
        (Some _, Some pw) \<Rightarrow>
          checkCredentials (packet_username packet) (decodePapPassword md5 pw (ns_secret nas) (pk_authenticator packet)) db
      | _ \<Rightarrow> (False, db))"

text \<open>Whether the sender may come in, and as a returning phone with what.\<close>

definition authenticate ::
  "hash \<Rightarrow> nas_row \<Rightarrow> radius_packet \<Rightarrow> 'x hotspot_db_scheme \<Rightarrow> (bool \<times> mac_login option) \<times> 'x hotspot_db_scheme" where
  "authenticate md5 nas packet db =
     (let username = packet_username packet;
          (valid, db1) = check_password md5 nas packet db
      in case normalizeMac (Some username) of
           None \<Rightarrow> ((valid, None), db1)
         | Some mac \<Rightarrow>
             if \<not> valid \<and> normalizeMac (readStringAttr packet 31) = Some mac
             then (case findMacLogin (ns_tenantId nas) mac (clock db1) db1 of
                     (None, db2) \<Rightarrow> ((False, None), db2)
                   | (Some l, db2) \<Rightarrow> ((True, Some l), db2))
             else ((valid, None), db1))"

definition voucher_of_login :: "radius_packet \<Rightarrow> mac_login option \<Rightarrow> string" where
  "voucher_of_login packet macLogin = (case macLogin of None \<Rightarrow> packet_username packet | Some l \<Rightarrow> ml_voucherCode l)"

text \<open>
  The part of the handler inside its \<open>try\<close>: an error there is logged and nothing is sent.
\<close>

definition answer_access ::
  "hash \<Rightarrow> keyed_hash \<Rightarrow> nas_row \<Rightarrow> radius_packet \<Rightarrow> 'x hotspot_db_scheme \<Rightarrow> byte list option \<times> 'x hotspot_db_scheme" where
  "answer_access md5 hmac nas packet db =
     (let ((known, macLogin), db1) = authenticate md5 nas packet db;
          callingStationId = readStringAttr packet 31;
          voucherCode = voucher_of_login packet macLogin;
          reached = (if known then device_limit_reached (ns_tenantId nas) voucherCode callingStationId db1 else None);
          valid = (known \<and> reached = None);
          replyAttributes = (if valid then buildReplyAttributes voucherCode macLogin db1
            else case reached of Some n \<Rightarrow> Inr [\<lparr>at_type = 18, at_value = utf8 (limit_message n)\<rparr>] | None \<Rightarrow> Inr [])
      in case replyAttributes of Inl e \<Rightarrow> (None, db1)
         | Inr attributes \<Rightarrow>
             (let db2 = (if valid \<and> macLogin = None then rememberDevice (ns_tenantId nas) callingStationId (packet_username packet) db1 else db1)
              in case buildResponse md5 hmac (if valid then 2 else 3) (pk_identifier packet) (pk_authenticator packet) (ns_secret nas) attributes of
                   Inl e \<Rightarrow> (None, db2)
                 | Inr response \<Rightarrow> (Some response, db2)))"

text \<open>The whole handler: \<open>Inl\<close> is an error thrown outside the \<open>try\<close>.\<close>

definition access_message ::
  "hash \<Rightarrow> keyed_hash \<Rightarrow> byte list \<Rightarrow> string \<Rightarrow> 'x hotspot_db_scheme \<Rightarrow> (byte list option \<times> 'x hotspot_db_scheme) result" where
  "access_message md5 hmac msg address db =
     (case parsePacket msg of Inl e \<Rightarrow> Inl e
      | Inr None \<Rightarrow> Inr (None, db)
      | Inr (Some packet) \<Rightarrow>
          if pk_code packet \<noteq> 1 then Inr (None, db)
          else case resolveNas address (verifyRequestMessageAuthenticator hmac msg) db of
                 (None, db1) \<Rightarrow> Inr (None, db1)
               | (Some nas, db1) \<Rightarrow> Inr (answer_access md5 hmac nas packet db1))"

section \<open>Accounting\<close>

definition hex_digit :: "nat \<Rightarrow> char" where
  "hex_digit d = ''0123456789abcdef'' ! d"

definition hex_text :: "byte list \<Rightarrow> string" where
  "hex_text bs = concat (map (\<lambda>b. [hex_digit (unat b div 16), hex_digit (unat b mod 16)]) bs)"

definition terminate_causes :: "string list" where
  "terminate_causes =
     [''User-Request'', ''Lost-Carrier'', ''Lost-Service'', ''Idle-Timeout'', ''Session-Timeout'', ''Admin-Reset'',
      ''Admin-Reboot'', ''Port-Error'', ''NAS-Error'', ''NAS-Request'', ''NAS-Reboot'', ''Port-Unneeded'',
      ''Port-Preempted'', ''Port-Suspended'', ''Service-Unavailable'', ''Callback'', ''User-Error'', ''Host-Request'']"

definition terminate_cause :: "nat \<Rightarrow> string option" where
  "terminate_cause c = (if c = 0 then None
     else if c \<le> length terminate_causes then Some (terminate_causes ! (c - 1)) else Some (nat_to_string c))"

definition acct_unique_id :: "hash \<Rightarrow> string \<Rightarrow> string \<Rightarrow> string \<Rightarrow> string" where
  "acct_unique_id md5 acctSessionId nasIpAddress username =
     hex_text (md5 (utf8 (acctSessionId @ ''|'' @ nasIpAddress @ ''|'' @ username)))"

text \<open>An update leaves a column alone when the packet lacks the attribute (\<open>undefined\<close>).\<close>

definition acct_fields :: "radius_packet \<Rightarrow> time \<Rightarrow> nat \<Rightarrow> int \<Rightarrow> int \<Rightarrow> rad_acct \<Rightarrow> rad_acct" where
  "acct_fields packet now statusType inputBytes outputBytes a =
     (let sessionTime = readUInt32Attr packet 46;
          common = a\<lparr>ra_updateTime := Some now, ra_sessionTime := (if sessionTime = 0 then None else Some (int sessionTime)),
            ra_inputOctets := inputBytes, ra_outputOctets := outputBytes,
            ra_framedIpAddress := or_else (readIpAttr packet 8) (ra_framedIpAddress a),
            ra_callingStationId := or_else (readStringAttr packet 31) (ra_callingStationId a),
            ra_calledStationId := or_else (readStringAttr packet 30) (ra_calledStationId a),
            ra_nasPortId := or_else (readStringAttr packet 87) (ra_nasPortId a),
            ra_nasPortType := or_else (nasPortTypeName packet) (ra_nasPortType a)\<rparr>
      in if statusType = 2
         then common\<lparr>ra_stopTime := Some now, ra_terminateCause := terminate_cause (readUInt32Attr packet 49)\<rparr>
         else common)"

definition recordAccounting ::
  "hash \<Rightarrow> radius_packet \<Rightarrow> string \<Rightarrow> id \<Rightarrow> nat \<Rightarrow> string \<Rightarrow> int \<Rightarrow> int \<Rightarrow> 'x hotspot_db_scheme \<Rightarrow> 'x hotspot_db_scheme" where
  "recordAccounting md5 packet nasIpAddress tenantId statusType username inputBytes outputBytes db =
     (case readStringAttr packet 44 of None \<Rightarrow> db
      | Some acctSessionId \<Rightarrow>
          (let uid = acct_unique_id md5 acctSessionId nasIpAddress username;
               fields = acct_fields packet (clock db) statusType inputBytes outputBytes
           in if \<exists>a \<in> set (radAccts db). ra_acctUniqueId a = uid
              then db\<lparr>radAccts := update_where (\<lambda>a. ra_acctUniqueId a = uid) fields (radAccts db)\<rparr>
              else db\<lparr>radAccts := radAccts db @ [fields
                \<lparr>ra_tenantId = tenantId, ra_acctSessionId = acctSessionId, ra_acctUniqueId = uid, ra_username = username,
                 ra_nasIpAddress = nasIpAddress, ra_nasPortId = None, ra_nasPortType = None, ra_startTime = Some (clock db),
                 ra_updateTime = None, ra_stopTime = None, ra_sessionTime = None, ra_inputOctets = 0, ra_outputOctets = 0,
                 ra_calledStationId = None, ra_callingStationId = None, ra_terminateCause = None, ra_framedIpAddress = None\<rparr>]\<rparr>))"

text \<open>
  The router to disconnect the user on, when the cap is reached and a router is known. The
  disconnect itself is a call to the router, whose failure is logged.
\<close>

definition enforceDataCap :: "string \<Rightarrow> string \<Rightarrow> string \<Rightarrow> int \<Rightarrow> 'x hotspot_db_scheme \<Rightarrow> (router_row \<times> string) option" where
  "enforceDataCap voucherCode username nasAddress totalBytes db =
     (case List.find (\<lambda>r. rr_username r = voucherCode \<and> rr_attribute r = ''Mikrotik-Total-Limit'') (radReplies db) of
        None \<Rightarrow> None
      | Some cap \<Rightarrow>
          (case js_number (rr_value cap) of None \<Rightarrow> None
           | Some capBytes \<Rightarrow>
               if capBytes \<le> 0 \<or> totalBytes < capBytes then None
               else
                 map_option (\<lambda>r. (r, username))
                   (case (case getNas nasAddress db of None \<Rightarrow> None | Some nas \<Rightarrow> ns_routerId nas) of
                      Some rid \<Rightarrow> List.find (\<lambda>r. rt_id r = rid \<and> rt_deletedAt r = None) (routerRows db)
                    | None \<Rightarrow> List.find (\<lambda>r. rt_host r = Some nasAddress \<and> rt_deletedAt r = None) (routerRows db))))"

definition recordVoucherUsage :: "string \<Rightarrow> int \<Rightarrow> int \<Rightarrow> 'x hotspot_db_scheme \<Rightarrow> 'x hotspot_db_scheme" where
  "recordVoucherUsage username inputBytes outputBytes db =
     db\<lparr>vouchers := update_where (\<lambda>v. v_code v = username)
          (\<lambda>v. v\<lparr>v_bytesIn := Some inputBytes, v_bytesOut := Some outputBytes, v_usageUpdatedAt := Some (clock db)\<rparr>)
          (vouchers db)\<rparr>"

definition session_octets :: "radius_packet \<Rightarrow> byte \<Rightarrow> byte \<Rightarrow> int" where
  "session_octets packet gigawords octets = int (readUInt32Attr packet gigawords) * 2 ^ 32 + int (readUInt32Attr packet octets)"

definition account ::
  "hash \<Rightarrow> nas_row \<Rightarrow> string \<Rightarrow> radius_packet \<Rightarrow> 'x hotspot_db_scheme \<Rightarrow> (router_row \<times> string) option \<times> 'x hotspot_db_scheme" where
  "account md5 nas address packet db =
     (let statusType = readUInt32Attr packet 40
      in case findAttr packet 1 of None \<Rightarrow> (None, db)
         | Some b \<Rightarrow>
             let username = utf8_text b;
                 inputBytes = session_octets packet 52 42; outputBytes = session_octets packet 53 43;
                 db1 = recordAccounting md5 packet address (ns_tenantId nas) statusType username inputBytes outputBytes db
             in if username = [] then (None, db)
                else if statusType \<noteq> 3 \<and> statusType \<noteq> 2 then (None, db1)
                else let usage = voucherUsageForSession (ns_tenantId nas) username (readStringAttr packet 31) inputBytes outputBytes db1
                     in (enforceDataCap (su_voucherCode usage) username address (su_bytesIn usage + su_bytesOut usage) db1,
                         recordVoucherUsage (su_voucherCode usage) (su_bytesIn usage) (su_bytesOut usage) db1))"

text \<open>The whole handler: what is sent, whom it disconnects where, and the tables. Its errors are logged.\<close>

definition accounting_message ::
  "hash \<Rightarrow> keyed_hash \<Rightarrow> byte list \<Rightarrow> string \<Rightarrow> 'x hotspot_db_scheme \<Rightarrow>
     (byte list option \<times> (router_row \<times> string) option) \<times> 'x hotspot_db_scheme" where
  "accounting_message md5 hmac msg address db =
     (case parsePacket msg of Inl e \<Rightarrow> ((None, None), db)
      | Inr None \<Rightarrow> ((None, None), db)
      | Inr (Some packet) \<Rightarrow>
          if pk_code packet \<noteq> 4 then ((None, None), db)
          else case resolveNas address (\<lambda>secret. Some (verifyAccountingRequest md5 msg secret)) db of
                 (None, db1) \<Rightarrow> ((None, None), db1)
               | (Some nas, db1) \<Rightarrow>
                   (case buildResponse md5 hmac 5 (pk_identifier packet) (pk_authenticator packet) (ns_secret nas) [] of
                      Inl e \<Rightarrow> ((None, None), db1)
                    | Inr response \<Rightarrow>
                        let (disconnect, db2) = account md5 nas address packet db1
                        in ((Some response, disconnect), db2)))"

section \<open>What the handlers leave alone\<close>

text \<open>Everything the credentials depend on.\<close>

definition same_users :: "'x hotspot_db_scheme \<Rightarrow> 'x hotspot_db_scheme \<Rightarrow> bool" where
  "same_users db db' \<longleftrightarrow> radChecks db' = radChecks db \<and> radReplies db' = radReplies db \<and> vouchers db' = vouchers db
     \<and> hotspotDevices db' = hotspotDevices db \<and> radAccts db' = radAccts db \<and> clock db' = clock db"

lemma resolveNas_users: "same_users db (snd (resolveNas address verify db))"
  by (auto simp: resolveNas_def Let_def same_users_def split: option.splits)

lemma resolveNas_sender:
  assumes "resolveNas address verify db = (Some nas, db')"
  shows "nas \<in> set (nasRows db) \<and> (verify (ns_secret nas) = Some True \<or> (ns_nasname nas = address \<and> verify (ns_secret nas) = None))"
proof -
  consider (address) n where "getNas address db = Some n" "verify (ns_secret n) \<noteq> Some False" "nas = n"
    | (moved) owner where "List.find (\<lambda>c. verify (ns_secret c) = Some True) (take 2000 (filter (\<lambda>n. ns_nasname n \<noteq> address) (nasRows db))) = Some owner" "nas = owner"
    using assms by (auto simp: resolveNas_def Let_def split: option.splits if_splits)
  then show ?thesis
  proof cases
    case address
    then have "nas \<in> set (nasRows db)" "ns_nasname nas = address" by (auto simp: getNas_def dest: find_SomeD)
    then show ?thesis using address by (cases "verify (ns_secret n)") auto
  next
    case moved
    then show ?thesis using find_SomeD [OF moved(1)] by (auto dest: in_set_takeD)
  qed
qed

lemma buildResponse_code: "buildResponse md5 hmac code identifier ra secret attributes = Inr packet \<Longrightarrow> packet ! 0 = code"
  by (auto simp: buildResponse_def Let_def split: if_splits)

lemma answer_access_reply:
  assumes "answer_access md5 hmac nas packet db = (Some reply, db')"
  shows "\<exists>code attributes. buildResponse md5 hmac code (pk_identifier packet) (pk_authenticator packet) (ns_secret nas) attributes = Inr reply
     \<and> (code = 2 \<longrightarrow> fst (fst (authenticate md5 nas packet db))) \<and> (code = 2 \<or> code = 3)"
  using assms unfolding answer_access_def Let_def
  by (auto split: prod.splits sum.splits if_splits option.splits)

lemma access_message_reply:
  assumes "access_message md5 hmac msg address db = Inr (Some reply, db')"
  obtains packet nas db1 where "parsePacket msg = Inr (Some packet)" "pk_code packet = 1"
    "resolveNas address (verifyRequestMessageAuthenticator hmac msg) db = (Some nas, db1)"
    "answer_access md5 hmac nas packet db1 = (Some reply, db')"
  using assms by (auto simp: access_message_def split: sum.splits option.splits if_splits prod.splits)

text \<open>
  C29. The server answers only a router that shares a secret with it, and the router accepts the
  answer. Whenever a reply to an Access-Request is sent, it was built for a registered router that
  either signed the request or, when the request carries no signature, is registered at the
  sender's address; the reply's authenticators verify under that router's secret.
\<close>

theorem access_replies_are_authentic:
  assumes "access_message md5 hmac msg address db = Inr (Some reply, db')"
    and "digest md5" "\<forall>k. digest (hmac k)"
  shows "\<exists>packet. parsePacket msg = Inr (Some packet) \<and>
    (\<exists>nas \<in> set (nasRows db).
       (verifyRequestMessageAuthenticator hmac msg (ns_secret nas) = Some True
        \<or> (ns_nasname nas = address \<and> verifyRequestMessageAuthenticator hmac msg (ns_secret nas) = None))
       \<and> nas_accepts md5 hmac (ns_secret nas) (pk_authenticator packet) reply)"
  using assms(1)
proof (rule access_message_reply)
  fix packet nas db1
  assume p: "parsePacket msg = Inr (Some packet)" and r: "resolveNas address (verifyRequestMessageAuthenticator hmac msg) db = (Some nas, db1)"
    and a: "answer_access md5 hmac nas packet db1 = (Some reply, db')"
  obtain code attributes where "buildResponse md5 hmac code (pk_identifier packet) (pk_authenticator packet) (ns_secret nas) attributes = Inr reply"
    using answer_access_reply [OF a] by blast
  then have "nas_accepts md5 hmac (ns_secret nas) (pk_authenticator packet) reply"
    using assms(2,3) by (intro response_accepted) auto
  then show ?thesis using p resolveNas_sender [OF r] by blast
qed

section \<open>Revoked codes\<close>

lemma no_password_no_login:
  assumes "password_row (packet_username packet) db = None" "normalizeMac (Some (packet_username packet)) = None"
  shows "\<not> fst (fst (authenticate md5 nas packet db))"
  using assms by (auto simp: authenticate_def check_password_def checkCredentials_def Let_def split: option.splits prod.splits)

text \<open>
  C30. A voucher past its time cannot log in. After the sweeps that expire the overdue vouchers,
  whoever asks with an overdue code as the user name, on any router, with any password, is not
  let in: the only answer the server may send is an Access-Reject.
\<close>

theorem overdue_code_is_rejected:
  assumes "distinct (map v_id (vouchers db))"
    and "length (filter (voucher_overdue (clock db)) (vouchers db)) \<le> 500 * k"
    and "v \<in> set (vouchers db)" "voucher_overdue (clock db) v" "length (v_code v) = 8"
    and "parsePacket msg = Inr (Some packet)" "findAttr packet 1 = Some (utf8 (v_code v))"
    and "access_message md5 hmac msg address (sweeps k db) = Inr (Some reply, db')"
  shows "reply ! 0 = 3"
  using assms(8)
proof (rule access_message_reply)
  fix packet' nas db1
  assume p: "parsePacket msg = Inr (Some packet')" and r: "resolveNas address (verifyRequestMessageAuthenticator hmac msg) (sweeps k db) = (Some nas, db1)"
    and a: "answer_access md5 hmac nas packet' db1 = (Some reply, db')"
  have user: "packet_username packet' = v_code v" using p assms(6,7) by (simp add: packet_username_def)
  have "v_code v \<notin> rr_username ` set (radChecks (sweeps k db))"
    using sweeps_revoke [OF assms(1)] assms(2-4) by simp
  moreover have "radChecks db1 = radChecks (sweeps k db)"
    using resolveNas_users [of "sweeps k db" address "verifyRequestMessageAuthenticator hmac msg"] r by (simp add: same_users_def)
  ultimately have "password_row (packet_username packet') db1 = None"
    unfolding password_row_def user find_None_iff by (metis imageI)
  then have "\<not> fst (fst (authenticate md5 nas packet' db1))"
    using normalizeMac_short [of "v_code v"] assms(5) by (intro no_password_no_login) (simp_all add: user)
  then show ?thesis using answer_access_reply [OF a] buildResponse_code by blast
qed

section \<open>An example network\<close>

definition example_nas :: nas_row where
  "example_nas = \<lparr>ns_id = 1, ns_tenantId = 1, ns_routerId = Some 3, ns_nasname = ''10.0.0.1'', ns_secret = ''s3cret''\<rparr>"

definition example_network :: hotspot_db where
  "example_network = example_hotspot\<lparr>nasRows := [example_nas]\<rparr>"

definition toy_md5 :: hash where
  "toy_md5 = (\<lambda>_. replicate 16 7)"

definition toy_hmac :: keyed_hash where
  "toy_hmac = (\<lambda>_ _. replicate 16 9)"

definition login_request :: "byte list" where
  "login_request = [1, 5, 0, 30] @ replicate 16 0 @ [1, 10] @ utf8 ''SZRJBKTL''"

lemma toy_digests: "digest toy_md5" "\<forall>k. digest (toy_hmac k)"
  by (simp_all add: digest_def toy_md5_def toy_hmac_def)

lemma login_request_parsed:
  "parsePacket login_request = Inr (Some \<lparr>pk_code = 1, pk_identifier = 5, pk_authenticator = replicate 16 0,
     pk_attributes = [\<lparr>at_type = 1, at_value = utf8 ''SZRJBKTL''\<rparr>]\<rparr>)"
  by code_simp

lemma sweeps_nasRows: "nasRows (sweeps k db) = nasRows db"
proof (induction k arbitrary: db)
  case (Suc k)
  obtain n db' where run: "expireOverdueVouchers db = (n, db')" by (cases "expireOverdueVouchers db")
  show ?case using Suc.IH [of db'] sweep_result(8) [OF run] by (simp add: run)
qed simp

lemma login_request_unsigned: "verifyRequestMessageAuthenticator toy_hmac login_request ''s3cret'' = None"
  by code_simp

lemma login_request_mac: "normalizeMac (Some ''SZRJBKTL'') = None"
  by (rule normalizeMac_short) simp

lemma login_request_answered:
  assumes "nasRows db = [example_nas]"
  shows "\<exists>reply. access_message toy_md5 toy_hmac login_request ''10.0.0.1'' db = Inr (Some reply, db)"
proof -
  define packet where "packet = \<lparr>pk_code = 1, pk_identifier = 5, pk_authenticator = replicate 16 0,
     pk_attributes = [\<lparr>at_type = 1, at_value = utf8 ''SZRJBKTL''\<rparr>]\<rparr>"
  have nas: "resolveNas ''10.0.0.1'' (verifyRequestMessageAuthenticator toy_hmac login_request) db = (Some example_nas, db)"
    using login_request_unsigned by (simp add: resolveNas_def getNas_def assms example_nas_def)
  have name: "packet_username packet = ''SZRJBKTL''" by (simp add: packet_username_def findAttr_def packet_def)
  have auth: "authenticate toy_md5 example_nas packet db = ((False, None), db)"
    by (simp add: authenticate_def check_password_def name login_request_mac findAttr_def) (simp add: packet_def)
  obtain reply where "buildResponse toy_md5 toy_hmac 3 (pk_identifier packet) (pk_authenticator packet) (ns_secret example_nas) [] = Inr reply"
    by (simp add: buildResponse_def Let_def encodeAttribute_def)
  then have "answer_access toy_md5 toy_hmac example_nas packet db = (Some reply, db)"
    by (simp add: answer_access_def auth)
  then show ?thesis
    using nas by (simp add: access_message_def login_request_parsed packet_def [symmetric]) (simp add: packet_def)
qed

theorem access_replies_are_authentic_witness:
  "\<exists>reply. access_message toy_md5 toy_hmac login_request ''10.0.0.1'' example_network = Inr (Some reply, example_network)
     \<and> nas_accepts toy_md5 toy_hmac ''s3cret'' (replicate 16 0) reply"
proof -
  have rows: "nasRows example_network = [example_nas]" by (simp add: example_network_def)
  obtain reply where run: "access_message toy_md5 toy_hmac login_request ''10.0.0.1'' example_network = Inr (Some reply, example_network)"
    using login_request_answered [OF rows] by blast
  then show ?thesis
    using access_replies_are_authentic [OF run toy_digests] by (auto simp: login_request_parsed rows example_nas_def)
qed

theorem overdue_code_is_rejected_witness:
  "\<exists>reply. access_message toy_md5 toy_hmac login_request ''10.0.0.1'' (sweeps 1 example_network) = Inr (Some reply, sweeps 1 example_network)
     \<and> reply ! 0 = 3"
proof -
  have rows: "nasRows (sweeps 1 example_network) = [example_nas]" unfolding sweeps_nasRows by (simp add: example_network_def)
  obtain reply where run: "access_message toy_md5 toy_hmac login_request ''10.0.0.1'' (sweeps 1 example_network) = Inr (Some reply, sweeps 1 example_network)"
    using login_request_answered [OF rows] by blast
  have tables: "vouchers example_network = [example_voucher]" "clock example_network = 4000000" by (simp_all add: example_network_def)
  have "distinct (map v_id (vouchers example_network))" "example_voucher \<in> set (vouchers example_network)"
    "length (filter (voucher_overdue (clock example_network)) (vouchers example_network)) \<le> 500 * 1"
    by (simp_all add: tables)
  moreover have "voucher_overdue (clock example_network) example_voucher" unfolding tables
    by (simp add: voucher_overdue_def example_voucher_def)
  moreover have "length (v_code example_voucher) = 8" by (simp add: example_voucher_def)
  moreover have "findAttr \<lparr>pk_code = 1, pk_identifier = 5, pk_authenticator = replicate 16 0,
     pk_attributes = [\<lparr>at_type = 1, at_value = utf8 ''SZRJBKTL''\<rparr>]\<rparr> 1 = Some (utf8 (v_code example_voucher))"
    by (simp add: findAttr_def example_voucher_def)
  ultimately show ?thesis
    using overdue_code_is_rejected [where k = 1 and v = example_voucher and db = example_network, OF _ _ _ _ _ login_request_parsed _ run] run by blast
qed

section \<open>Suspended subscribers\<close>

definition same_login :: "'x hotspot_db_scheme \<Rightarrow> 'x hotspot_db_scheme \<Rightarrow> bool" where
  "same_login db db' \<longleftrightarrow> (\<forall>c. password_row c db' = password_row c db)
     \<and> (\<forall>c. List.find (\<lambda>r. rr_username r = c \<and> rr_attribute r = ''Simultaneous-Use'') (radChecks db')
          = List.find (\<lambda>r. rr_username r = c \<and> rr_attribute r = ''Simultaneous-Use'') (radChecks db))
     \<and> radReplies db' = radReplies db \<and> vouchers db' = vouchers db \<and> hotspotDevices db' = hotspotDevices db
     \<and> radAccts db' = radAccts db \<and> clock db' = clock db"

lemma find_delete_rows: "a \<noteq> a' \<Longrightarrow>
  List.find (\<lambda>r. rr_username r = c \<and> rr_attribute r = a) (delete_rows u a' rows) = List.find (\<lambda>r. rr_username r = c \<and> rr_attribute r = a) rows"
  by (induction rows) (auto simp: delete_rows_def)

lemma suspend_same_login:
  assumes "suspendRadiusUser t s db = Inr (u, db')"
  shows "same_login db db'"
  using assms
  by (auto simp: suspendRadiusUser_def same_login_def password_row_def find_delete_rows find_append Let_def
      split: sum.splits if_splits option.splits)

lemma same_login_tables:
  assumes "same_login db db'"
  shows "password_row c db' = password_row c db" "find_voucher t c db' = find_voucher t c db" "find_device t c db' = find_device t c db"
    "clock db' = clock db" "checkMacLogin t mac now db' = checkMacLogin t mac now db"
    "device_limit_reached t c cs db' = device_limit_reached t c cs db"
    "buildReplyAttributes c remaining db' = buildReplyAttributes c remaining db"
proof -
  show p: "password_row c db' = password_row c db" "find_voucher t c db' = find_voucher t c db" "find_device t c db' = find_device t c db"
    "clock db' = clock db" for t c
    using assms by (simp_all add: same_login_def find_voucher_def find_device_def)
  show "checkMacLogin t mac now db' = checkMacLogin t mac now db" unfolding checkMacLogin_def p by (rule refl)
  have o: "other_devices_active t c cs db' = other_devices_active t c cs db"
    using assms by (simp add: same_login_def other_devices_active_def sessionNamesForVoucher_def)
  show "device_limit_reached t c cs db' = device_limit_reached t c cs db"
    unfolding device_limit_reached_def o using assms by (simp add: same_login_def)
  show "buildReplyAttributes c remaining db' = buildReplyAttributes c remaining db"
    using assms by (simp add: same_login_def buildReplyAttributes_def)
qed

lemma same_login_check:
  assumes "same_login db db'"
  shows "fst (checkCredentials n p db') = fst (checkCredentials n p db) \<and> same_login (snd (checkCredentials n p db)) (snd (checkCredentials n p db'))"
  using assms unfolding checkCredentials_def activateVoucherOnFirstAuth_def
  by (auto simp: same_login_tables(1) [OF assms] split: option.splits) (auto simp: same_login_def password_row_def)

lemma same_login_mac:
  assumes "same_login db db'"
  shows "fst (findMacLogin t m now db') = fst (findMacLogin t m now db) \<and> same_login (snd (findMacLogin t m now db)) (snd (findMacLogin t m now db'))"
  using assms unfolding findMacLogin_def same_login_tables(5) [OF assms]
  by (auto simp: same_login_def password_row_def split: option.splits)

lemma same_login_authenticate:
  assumes "same_login db db'"
  shows "fst (authenticate md5 nas packet db') = fst (authenticate md5 nas packet db)
    \<and> same_login (snd (authenticate md5 nas packet db)) (snd (authenticate md5 nas packet db'))"
proof -
  have c: "fst (check_password md5 nas packet db') = fst (check_password md5 nas packet db) \<and>
      same_login (snd (check_password md5 nas packet db)) (snd (check_password md5 nas packet db'))"
    using same_login_check [OF assms] assms unfolding check_password_def by (cases "findAttr packet 1"; cases "findAttr packet 2") auto
  obtain b d where d: "check_password md5 nas packet db = (b, d)" by (cases "check_password md5 nas packet db")
  with c obtain d' where d': "check_password md5 nas packet db' = (b, d')" and dd: "same_login d d'"
    by (cases "check_password md5 nas packet db'") auto
  obtain l e e' where m: "findMacLogin (ns_tenantId nas) mac (clock d) d = (l mac, e mac)"
    "findMacLogin (ns_tenantId nas) mac (clock d) d' = (l mac, e' mac)" "same_login (e mac) (e' mac)" for mac
  proof (rule that [of "\<lambda>mac. fst (findMacLogin (ns_tenantId nas) mac (clock d) d)"
        "\<lambda>mac. snd (findMacLogin (ns_tenantId nas) mac (clock d) d)" "\<lambda>mac. snd (findMacLogin (ns_tenantId nas) mac (clock d) d')"])
  qed (simp_all add: same_login_mac [OF dd] prod_eq_iff)
  show ?thesis
    unfolding authenticate_def Let_def d d' case_prod_conv same_login_tables(4) [OF dd] m
    using dd m(3) by (simp split: option.split)
qed

lemma fst_sent:
  "fst (case x of Inl e \<Rightarrow> (None, d) | Inr a \<Rightarrow> (case B a of Inl e \<Rightarrow> (None, D a) | Inr r \<Rightarrow> (Some r, D a))) =
     (case x of Inl e \<Rightarrow> None | Inr a \<Rightarrow> (case B a of Inl e \<Rightarrow> None | Inr r \<Rightarrow> Some r))"
  by (auto split: sum.split)

lemma same_login_answer:
  assumes "same_login db db'"
  shows "fst (answer_access md5 hmac nas packet db') = fst (answer_access md5 hmac nas packet db)"
proof -
  obtain k l d where d: "authenticate md5 nas packet db = ((k, l), d)" by (metis prod.exhaust)
  with same_login_authenticate [OF assms, of md5 nas packet] obtain d' where d': "authenticate md5 nas packet db' = ((k, l), d')"
    and dd: "same_login d d'" by (cases "authenticate md5 nas packet db'") auto
  show ?thesis
    unfolding answer_access_def d d' Let_def case_prod_conv same_login_tables(6,7) [OF dd] fst_sent by (rule refl)
qed

text \<open>
  Suspending a subscriber does not stop the subscriber's logins here. Suspension writes an
  \<open>Auth-Type := Reject\<close> row and leaves the password row, and this server never reads the former:
  to every Access-Request, whoever sends it, it answers after the suspension exactly what it
  answered before. (A FreeRADIUS server on the same tables does read the row.)
\<close>

theorem suspension_changes_no_answer:
  assumes "suspendRadiusUser t s db = Inr (u, db')"
  shows "fst (answer_access md5 hmac nas packet db') = fst (answer_access md5 hmac nas packet db)"
  by (rule same_login_answer [OF suspend_same_login [OF assms]])

definition example_subscriber :: radius_user where
  "example_subscriber = \<lparr>ru_id = 11, ru_tenantId = 1, ru_customerId = 3, ru_customerServiceId = 60, ru_username = ''acme-001'',
     ru_passwordEncrypted = ''x'', ru_status = R_ACTIVE, ru_connectionType = ''PPPOE'', ru_downloadKbps = 1000, ru_uploadKbps = 500\<rparr>"

definition subscriber_network :: hotspot_db where
  "subscriber_network = example_network\<lparr>vouchers := [], radiusUsers := [example_subscriber],
     radChecks := [rad_reply ''acme-001'' ''Cleartext-Password'' '':='' ''pw'']\<rparr>"

definition subscriber_login :: radius_packet where
  "subscriber_login = \<lparr>pk_code = 1, pk_identifier = 5, pk_authenticator = replicate 16 0,
     pk_attributes = [\<lparr>at_type = 1, at_value = utf8 ''acme-001''\<rparr>,
       \<lparr>at_type = 2, at_value = pap_hide toy_md5 (utf8 ''s3cret'') (replicate 16 0) (pad_password ''pw'')\<rparr>]\<rparr>"

lemma subscriber_tables [simp]:
  "vouchers subscriber_network = []" "radiusUsers subscriber_network = [example_subscriber]"
  "radChecks subscriber_network = [rad_reply ''acme-001'' ''Cleartext-Password'' '':='' ''pw'']"
  "radReplies subscriber_network = []" "clock subscriber_network = 4000000"
  by (simp_all add: subscriber_network_def example_network_def)

lemma subscriber_login_attributes [simp]:
  "packet_username subscriber_login = ''acme-001''" "findAttr subscriber_login 1 = Some (utf8 ''acme-001'')"
  "findAttr subscriber_login 2 = Some (pap_hide toy_md5 (utf8 ''s3cret'') (replicate 16 0) (pad_password ''pw''))"
  "findAttr subscriber_login 31 = None" "pk_authenticator subscriber_login = replicate 16 0" "pk_identifier subscriber_login = 5"
  by (simp_all add: subscriber_login_def packet_username_def findAttr_def)

lemma subscriber_login_accepted:
  "\<exists>reply. fst (answer_access toy_md5 toy_hmac example_nas subscriber_login subscriber_network) = Some reply \<and> reply ! 0 = 2"
proof -
  have mac: "normalizeMac (Some ''acme-001'') = None" by (rule normalizeMac_short) simp
  have pw: "decodePapPassword toy_md5 (pap_hide toy_md5 (utf8 ''s3cret'') (replicate 16 0) (pad_password ''pw'')) (ns_secret example_nas) (replicate 16 0) = ''pw''"
    unfolding example_nas_def using pap_password_round_trip [OF toy_digests(1), of "''pw''" "''s3cret''" "replicate 16 0"] by simp
  have "check_password toy_md5 example_nas subscriber_login subscriber_network = (True, subscriber_network)"
    by (simp add: check_password_def pw checkCredentials_def password_row_def rad_reply_def activateVoucherOnFirstAuth_def)
  then have auth: "authenticate toy_md5 example_nas subscriber_login subscriber_network = ((True, None), subscriber_network)"
    by (simp add: authenticate_def mac)
  have limit: "device_limit_reached t ''acme-001'' c subscriber_network = None" for t c
    by (simp add: device_limit_reached_def rad_reply_def)
  have attrs: "buildReplyAttributes ''acme-001'' None subscriber_network = Inr []" by (simp add: buildReplyAttributes_def)
  obtain reply where "buildResponse toy_md5 toy_hmac 2 5 (replicate 16 0) (ns_secret example_nas) [] = Inr reply"
    by (simp add: buildResponse_def Let_def encodeAttribute_def)
  then show ?thesis using buildResponse_code
    by (simp add: answer_access_def auth voucher_of_login_def limit attrs)
qed

theorem suspension_changes_no_answer_witness:
  "\<exists>u db' reply. suspendRadiusUser 1 60 subscriber_network = Inr (u, db') \<and> rejected (ru_username u) (radChecks db')
     \<and> fst (answer_access toy_md5 toy_hmac example_nas subscriber_login db') = Some reply \<and> reply ! 0 = 2"
proof -
  have "is_ok (suspendRadiusUser 1 60 subscriber_network)"
    by (simp add: suspendRadiusUser_def getRadiusUserByCustomerServiceOrThrow_def Let_def) (simp add: example_subscriber_def)
  then obtain u db' where s: "suspendRadiusUser 1 60 subscriber_network = Inr (u, db')"
    by (cases "suspendRadiusUser 1 60 subscriber_network") auto
  then have "rejected (ru_username u) (radChecks db')"
    by (auto simp: suspendRadiusUser_def getRadiusUserByCustomerServiceOrThrow_def example_subscriber_def Let_def)
  then show ?thesis using s suspension_changes_no_answer [OF s] subscriber_login_accepted by fastforce
qed

section \<open>What a voucher was sold with is what the router is told\<close>

lemma string_of_digit: "list_all is_digit (nat_to_string n)"
  using nat_to_string_digits by (auto simp: list_all_iff)

lemma digit_not_sign: "is_digit c \<Longrightarrow> c \<noteq> CHR ''-'' \<and> c \<noteq> CHR ''+'' \<and> \<not> is_space c"
  by (auto simp: is_digit_def is_space_def)

lemma signed_digits_plain: "s \<noteq> [] \<Longrightarrow> list_all is_digit s \<Longrightarrow> signed_digits s = Some (int (string_to_nat s))"
proof (cases s)
  case (Cons c ds)
  assume "list_all is_digit s"
  then have "c \<noteq> CHR ''-'' \<and> c \<noteq> CHR ''+''" using Cons digit_not_sign [of c] by simp
  then show ?thesis using Cons \<open>list_all is_digit s\<close> by (simp add: signed_digits_def)
qed simp

lemma js_number_nat: "js_number (nat_to_string n) = Some (int n)"
proof -
  have d: "is_digit (hd (nat_to_string n))" "is_digit (last (nat_to_string n))"
    using string_of_digit [of n] by (simp_all add: list_all_iff)
  then have "trim (nat_to_string n) = nat_to_string n"
    using digit_not_sign by (intro trim_plain) auto
  then show ?thesis using signed_digits_plain [OF nat_to_string_nonempty string_of_digit] by (simp add: js_number_def)
qed

lemma js_number_int: "0 \<le> n \<Longrightarrow> js_number (int_to_string n) = Some n"
  by (simp add: int_to_string_def js_number_nat)

lemma concat_results_Inr: "concat_results (map Inr xss) = Inr (concat xss)"
  by (induction xss) auto

lemma uint32_read: "0 \<le> n \<Longrightarrow> n < 2 ^ 32 \<Longrightarrow> \<exists>b. uint32_bytes n = Inr b \<and> length b = 4 \<and> readUInt32BE b = nat n"
proof -
  assume n: "0 \<le> n" "n < 2 ^ 32"
  define k where "k = nat n"
  have k: "k < 2 ^ 32" using n by (simp add: k_def nat_less_iff)
  have q: "(k div 16777216) mod 256 = k div 16777216" using k by (intro mod_less) (simp add: div_less_iff_less_mult)
  have "((k div 16777216 * 256 + k div 65536 mod 256) * 256 + k div 256 mod 256) * 256 + k mod 256 = k"
    unfolding div_bytes using base_256 by metis
  then have "readUInt32BE [cell (drop_bit 24 k), cell (drop_bit 16 k), cell (drop_bit 8 k), cell k] = k"
    using q by (simp add: readUInt32BE_def unat_cell drop_bit_eq_div)
  moreover have "uint32_bytes n = Inr [cell (drop_bit 24 k), cell (drop_bit 16 k), cell (drop_bit 8 k), cell k]"
    using n k by (simp add: uint32_bytes_def writeUInt32BE_def k_def)
  ultimately show ?thesis unfolding k_def by (intro exI conjI) simp_all
qed

text \<open>What a router reads: the values of a plain attribute, and those of a vendor attribute.\<close>

definition attribute_values :: "byte \<Rightarrow> radius_attribute list \<Rightarrow> byte list list" where
  "attribute_values t attrs = map at_value (filter (\<lambda>a. at_type a = t) attrs)"

definition vendor_values :: "byte \<Rightarrow> radius_attribute list \<Rightarrow> byte list list" where
  "vendor_values sub attrs = map (drop 6) (filter (\<lambda>v. v ! 4 = sub) (attribute_values 26 attrs))"

definition data_limit :: "radius_attribute list \<Rightarrow> nat option" where
  "data_limit attrs = (case map readUInt32BE (vendor_values 17 attrs) of [] \<Rightarrow> None
     | low # _ \<Rightarrow> Some (low + (case map readUInt32BE (vendor_values 18 attrs) of [] \<Rightarrow> 0 | high # _ \<Rightarrow> 2 ^ 32 * high)))"

lemma values_simps [simp]:
  "attribute_values t [] = []" "vendor_values s [] = []"
  "attribute_values t (a # as) = (if at_type a = t then [at_value a] else []) @ attribute_values t as"
  "attribute_values t (as @ bs) = attribute_values t as @ attribute_values t bs"
  "vendor_values s (as @ bs) = vendor_values s as @ vendor_values s bs"
  "vendor_values s (a # as) = (if at_type a = 26 \<and> at_value a ! 4 = s then [drop 6 (at_value a)] else []) @ vendor_values s as"
  by (simp_all add: attribute_values_def vendor_values_def)

lemma vendor_fields [simp]:
  "at_type (encodeVendorSpecific s v) = 26" "at_value (encodeVendorSpecific s v) ! 4 = s" "drop 6 (at_value (encodeVendorSpecific s v)) = v"
  by (simp_all add: encodeVendorSpecific_def)

text \<open>What some radreply rows tell a router: timeouts, port limits, rates, and the two halves of the data limit.\<close>

definition tells :: "rad_row list \<Rightarrow> nat list \<Rightarrow> nat list \<Rightarrow> byte list list \<Rightarrow> nat list \<Rightarrow> nat list \<Rightarrow> bool" where
  "tells rows timeouts ports rates lows highs \<longleftrightarrow>
     (\<exists>xs. map (reply_row_attributes None) rows = map Inr xs
       \<and> map readUInt32BE (attribute_values 27 (concat xs)) = timeouts \<and> map readUInt32BE (attribute_values 62 (concat xs)) = ports
       \<and> vendor_values 8 (concat xs) = rates
       \<and> map readUInt32BE (vendor_values 17 (concat xs)) = lows \<and> map readUInt32BE (vendor_values 18 (concat xs)) = highs)"

lemma tells_append:
  assumes "tells a t p r l h" "tells b t' p' r' l' h'"
  shows "tells (a @ b) (t @ t') (p @ p') (r @ r') (l @ l') (h @ h')"
proof -
  obtain xs where xs: "map (reply_row_attributes None) a = map Inr xs"
    "map readUInt32BE (attribute_values 27 (concat xs)) = t" "map readUInt32BE (attribute_values 62 (concat xs)) = p"
    "vendor_values 8 (concat xs) = r" "map readUInt32BE (vendor_values 17 (concat xs)) = l" "map readUInt32BE (vendor_values 18 (concat xs)) = h"
    using assms(1) unfolding tells_def by blast
  obtain ys where ys: "map (reply_row_attributes None) b = map Inr ys"
    "map readUInt32BE (attribute_values 27 (concat ys)) = t'" "map readUInt32BE (attribute_values 62 (concat ys)) = p'"
    "vendor_values 8 (concat ys) = r'" "map readUInt32BE (vendor_values 17 (concat ys)) = l'" "map readUInt32BE (vendor_values 18 (concat ys)) = h'"
    using assms(2) unfolding tells_def by blast
  show ?thesis unfolding tells_def by (rule exI [of _ "xs @ ys"]) (simp add: xs ys)
qed

lemma tells_one:
  assumes "reply_row_attributes None r = Inr as"
  shows "tells [r] (map readUInt32BE (attribute_values 27 as)) (map readUInt32BE (attribute_values 62 as)) (vendor_values 8 as)
    (map readUInt32BE (vendor_values 17 as)) (map readUInt32BE (vendor_values 18 as))"
  unfolding tells_def by (rule exI [of _ "[as]"]) (simp add: assms)

lemma tells_none: "tells [] [] [] [] [] []"
  unfolding tells_def by (rule exI [of _ "[]"]) simp

lemma tells_address_list: "tells [rad_reply c ''Mikrotik-Address-List'' op v] [] [] [] [] []"
  using tells_one [of "rad_reply c ''Mikrotik-Address-List'' op v" "[encodeVendorSpecific 19 (utf8 v)]"]
  by (simp add: reply_row_attributes_def rad_reply_def)

lemma tells_rate: "tells [rad_reply c ''Mikrotik-Rate-Limit'' op v] [] [] [utf8 v] [] []"
  using tells_one [of "rad_reply c ''Mikrotik-Rate-Limit'' op v" "[encodeVendorSpecific 8 (utf8 v)]"]
  by (simp add: reply_row_attributes_def rad_reply_def)

lemma tells_timeout: "0 < n \<Longrightarrow> n < 2 ^ 32 \<Longrightarrow> tells [rad_reply c ''Session-Timeout'' op (int_to_string n)] [nat n] [] [] [] []"
proof -
  assume n: "0 < n" "n < 2 ^ 32"
  obtain b where b: "uint32_bytes n = Inr b" "readUInt32BE b = nat n" using uint32_read [of n] n by auto
  have "reply_row_attributes None (rad_reply c ''Session-Timeout'' op (int_to_string n)) = Inr [\<lparr>at_type = 27, at_value = b\<rparr>]"
    using n b by (simp add: reply_row_attributes_def rad_reply_def js_number_int uint32_attribute_def)
  from tells_one [OF this] b(2) show ?thesis by simp
qed

lemma tells_ports: "0 < n \<Longrightarrow> n < 2 ^ 32 \<Longrightarrow> tells [rad_reply c ''Port-Limit'' op (int_to_string n)] [] [nat n] [] [] []"
proof -
  assume n: "0 < n" "n < 2 ^ 32"
  obtain b where b: "uint32_bytes n = Inr b" "readUInt32BE b = nat n" using uint32_read [of n] n by auto
  have "reply_row_attributes None (rad_reply c ''Port-Limit'' op (int_to_string n)) = Inr [\<lparr>at_type = 62, at_value = b\<rparr>]"
    using n b by (simp add: reply_row_attributes_def rad_reply_def js_number_int uint32_attribute_def)
  from tells_one [OF this] b(2) show ?thesis by simp
qed

lemma total_limit_split:
  assumes "0 < n" "n < 2 ^ 64"
  obtains as low high where "encodeTotalLimitAttributes n = Inr as" "attribute_values 27 as = []" "attribute_values 62 as = []" "vendor_values 8 as = []"
    "map readUInt32BE (vendor_values 17 as) = [low]" "map readUInt32BE (vendor_values 18 as) = high"
    "int low + (case high of [] \<Rightarrow> 0 | h # _ \<Rightarrow> 2 ^ 32 * int h) = n"
proof -
  define q m where "q = n div 2 ^ 32" and "m = n mod 2 ^ 32"
  have n: "n = 2 ^ 32 * q + m" and m: "0 \<le> m" "m < 2 ^ 32" by (simp_all add: q_def m_def)
  have "0 \<le> q" using assms(1) by (simp add: q_def pos_imp_zdiv_nonneg_iff)
  moreover have "q < 2 ^ 32" using assms(2) n m by simp
  ultimately have q: "0 \<le> q" "q < 2 ^ 32" .
  obtain lo where lo: "uint32_bytes m = Inr lo" "readUInt32BE lo = nat m" using uint32_read [OF m] by blast
  obtain hi where hi: "uint32_bytes q = Inr hi" "readUInt32BE hi = nat q" using uint32_read [OF q] by blast
  show ?thesis
  proof (cases "0 < q")
    case True
    show ?thesis
      by (rule that [of "[encodeVendorSpecific 17 lo, encodeVendorSpecific 18 hi]" "nat m" "[nat q]"])
        (use True lo hi m q n in \<open>simp_all add: encodeTotalLimitAttributes_def q_def [symmetric] m_def [symmetric]\<close>)
  next
    case False
    show ?thesis
      by (rule that [of "[encodeVendorSpecific 17 lo]" "nat m" "[]"])
        (use False lo hi m q n in \<open>simp_all add: encodeTotalLimitAttributes_def q_def [symmetric] m_def [symmetric]\<close>)
  qed
qed

lemma tells_total:
  assumes "0 < n" "n < 2 ^ 64"
  shows "\<exists>low high. tells [rad_reply c ''Mikrotik-Total-Limit'' op (int_to_string n)] [] [] [] [low] high
    \<and> int low + (case high of [] \<Rightarrow> 0 | h # _ \<Rightarrow> 2 ^ 32 * int h) = n"
  using assms
proof (rule total_limit_split)
  fix as low high
  assume e: "encodeTotalLimitAttributes n = Inr as" and v: "attribute_values 27 as = []" "attribute_values 62 as = []" "vendor_values 8 as = []"
    "map readUInt32BE (vendor_values 17 as) = [low]" "map readUInt32BE (vendor_values 18 as) = high"
    and s: "int low + (case high of [] \<Rightarrow> 0 | h # _ \<Rightarrow> 2 ^ 32 * int h) = n"
  have "reply_row_attributes None (rad_reply c ''Mikrotik-Total-Limit'' op (int_to_string n)) = Inr as"
    using assms e by (simp add: reply_row_attributes_def rad_reply_def js_number_int)
  from tells_one [OF this] v s show ?thesis by auto
qed

text \<open>The terms a voucher is sold with: no time, data, speed or devices that are out of range.\<close>

definition sane_terms :: "generate_input \<Rightarrow> bool" where
  "sane_terms inp \<longleftrightarrow> (case gi_durationMinutes inp of None \<Rightarrow> True | Some m \<Rightarrow> 0 \<le> m \<and> m * 60 < 2 ^ 32)
     \<and> (case gi_dataCapMb inp of None \<Rightarrow> True | Some mb \<Rightarrow> 0 \<le> mb \<and> mb * 1024 * 1024 < 2 ^ 64)
     \<and> (case gi_simultaneousUse inp of None \<Rightarrow> True | Some n \<Rightarrow> n < 2 ^ 32)"

definition sold_rate :: "generate_input \<Rightarrow> byte list list" where
  "sold_rate inp = (case (nonzero (gi_downloadKbps inp), nonzero (gi_uploadKbps inp)) of
     (Some d, Some u) \<Rightarrow> [utf8 (int_to_string u @ ''k/'' @ int_to_string d @ ''k'')] | _ \<Rightarrow> [])"

lemma voucher_replies_tell:
  assumes "sane_terms inp" "0 < n" "n < 2 ^ 32"
  shows "\<exists>lows highs. tells (voucher_replies inp n code)
      (case nonzero (gi_durationMinutes inp) of None \<Rightarrow> [] | Some m \<Rightarrow> [nat (m * 60)]) [nat n] (sold_rate inp) lows highs
    \<and> (case nonzero (gi_dataCapMb inp) of None \<Rightarrow> lows = [] \<and> highs = []
       | Some mb \<Rightarrow> \<exists>low. lows = [low] \<and> int low + (case highs of [] \<Rightarrow> 0 | h # _ \<Rightarrow> 2 ^ 32 * int h) = mb * 1024 * 1024)"
proof -
  let ?ports = "[rad_reply code ''Port-Limit'' ''='' (int_to_string n)]"
  let ?tether = "if gi_blockTethering inp = Some True then [rad_reply code ''Mikrotik-Address-List'' ''+='' ''mashup-anti-tether''] else []"
  let ?policy = "case gi_appPolicy inp of None \<Rightarrow> []
        | Some p \<Rightarrow> if p = [] \<or> p = ''ALL'' then []
            else [rad_reply code ''Mikrotik-Address-List'' ''+='' (getSocialClientAddressList p)]"
  let ?time = "case nonzero (gi_durationMinutes inp) of None \<Rightarrow> [] | Some m \<Rightarrow> [rad_reply code ''Session-Timeout'' ''='' (int_to_string (m * 60))]"
  let ?total = "case nonzero (gi_dataCapMb inp) of None \<Rightarrow> []
        | Some mb \<Rightarrow> [rad_reply code ''Mikrotik-Total-Limit'' ''='' (int_to_string (mb * 1024 * 1024))]"
  let ?rate = "case (nonzero (gi_downloadKbps inp), nonzero (gi_uploadKbps inp)) of
          (Some d, Some u) \<Rightarrow> [rad_reply code ''Mikrotik-Rate-Limit'' ''='' (int_to_string u @ ''k/'' @ int_to_string d @ ''k'')] | _ \<Rightarrow> []"
  have ports: "tells ?ports [] [nat n] [] [] []" by (rule tells_ports [OF assms(2,3)])
  have tether: "tells ?tether [] [] [] [] []" by (simp add: tells_address_list tells_none)
  have policy: "tells ?policy [] [] [] [] []" by (simp add: tells_address_list tells_none split: option.split)
  have time: "tells ?time (case nonzero (gi_durationMinutes inp) of None \<Rightarrow> [] | Some m \<Rightarrow> [nat (m * 60)]) [] [] [] []"
  proof (cases "nonzero (gi_durationMinutes inp)")
    case (Some m)
    then have "0 < m * 60" "m * 60 < 2 ^ 32" using assms(1) by (auto simp: nonzero_def sane_terms_def split: if_splits)
    then show ?thesis using tells_timeout Some by simp
  qed (simp add: tells_none)
  have rate: "tells ?rate [] [] (sold_rate inp) [] []" by (simp add: sold_rate_def tells_rate tells_none split: option.split)
  obtain lows highs where total: "tells ?total [] [] [] lows highs"
    "case nonzero (gi_dataCapMb inp) of None \<Rightarrow> lows = [] \<and> highs = []
       | Some mb \<Rightarrow> \<exists>low. lows = [low] \<and> int low + (case highs of [] \<Rightarrow> 0 | h # _ \<Rightarrow> 2 ^ 32 * int h) = mb * 1024 * 1024"
  proof (cases "nonzero (gi_dataCapMb inp)")
    case (Some mb)
    then have "0 < mb * 1024 * 1024" "mb * 1024 * 1024 < 2 ^ 64" using assms(1) by (auto simp: nonzero_def sane_terms_def split: if_splits)
    then obtain low high where "tells [rad_reply code ''Mikrotik-Total-Limit'' ''='' (int_to_string (mb * 1024 * 1024))] [] [] [] [low] high"
      "int low + (case high of [] \<Rightarrow> 0 | h # _ \<Rightarrow> 2 ^ 32 * int h) = mb * 1024 * 1024" using tells_total by blast
    then show ?thesis using that [of "[low]" high] Some by simp
  qed (use that [of "[]" "[]"] in \<open>simp add: tells_none\<close>)
  have "tells (?ports @ ?tether @ ?policy @ ?time @ ?total @ ?rate)
      (case nonzero (gi_durationMinutes inp) of None \<Rightarrow> [] | Some m \<Rightarrow> [nat (m * 60)]) [nat n] (sold_rate inp) lows highs"
    using tells_append [OF ports tells_append [OF tether tells_append [OF policy tells_append [OF time tells_append [OF total(1) rate]]]]] by simp
  then show ?thesis using total(2) unfolding voucher_replies_def by blast
qed

text \<open>
  C31. What a voucher was sold with is what the router is told when its code logs in. From the terms
  of the sale, through the radreply rows, to the attributes of the Access-Accept: one session
  timeout of the voucher's minutes in seconds, one port limit of its devices, a data limit of exactly
  its megabytes (over both 32-bit halves), its speed, and none of them when the sale had none.
\<close>

theorem sold_terms_reach_the_router:
  assumes "createOneVoucher raws inp db = Inr (v, db')" "sane_terms inp"
    and "v_code v \<notin> rr_username ` set (radReplies db)"
  shows "\<exists>attrs. buildReplyAttributes (v_code v) None db' = Inr attrs
    \<and> map readUInt32BE (attribute_values 27 attrs) = (case nonzero (gi_durationMinutes inp) of None \<Rightarrow> [] | Some m \<Rightarrow> [nat (m * 60)])
    \<and> map readUInt32BE (attribute_values 62 attrs) = [nat (max 1 (or_default 1 (gi_simultaneousUse inp)))]
    \<and> map_option int (data_limit attrs) = map_option (\<lambda>mb. mb * 1024 * 1024) (nonzero (gi_dataCapMb inp))
    \<and> vendor_values 8 attrs = sold_rate inp"
proof -
  define n where "n = max 1 (or_default 1 (gi_simultaneousUse inp))"
  have n: "0 < n" "n < 2 ^ 32" using assms(2) by (auto simp: n_def sane_terms_def or_default_def split: option.splits)
  obtain code where ins: "(v, db') = insert_voucher inp code db"
    using create_attempts_Inr assms(1) unfolding createOneVoucher_def by blast
  have code: "v_code v = code" and rows: "radReplies db' = radReplies db @ voucher_replies inp n code"
    using ins by (auto simp: insert_voucher_def Let_def n_def)
  have "filter (\<lambda>r. rr_username r = code) (radReplies db) = []" using assms(3) by (auto simp: filter_empty_conv code)
  moreover have "filter (\<lambda>r. rr_username r = code) (voucher_replies inp n code) = voucher_replies inp n code"
    by (rule filter_True) (auto simp: voucher_replies_def rad_reply_def split: option.splits if_splits)
  ultimately have mine: "filter (\<lambda>r. rr_username r = v_code v) (radReplies db') = voucher_replies inp n code" by (simp add: rows code)
  obtain lows highs where told: "tells (voucher_replies inp n code)
      (case nonzero (gi_durationMinutes inp) of None \<Rightarrow> [] | Some m \<Rightarrow> [nat (m * 60)]) [nat n] (sold_rate inp) lows highs"
    and cap: "case nonzero (gi_dataCapMb inp) of None \<Rightarrow> lows = [] \<and> highs = []
       | Some mb \<Rightarrow> \<exists>low. lows = [low] \<and> int low + (case highs of [] \<Rightarrow> 0 | h # _ \<Rightarrow> 2 ^ 32 * int h) = mb * 1024 * 1024"
    using voucher_replies_tell [OF assms(2) n, of code] by (elim exE conjE) (rule that, assumption+)
  obtain xs where xs: "map (reply_row_attributes None) (voucher_replies inp n code) = map Inr xs"
    "map readUInt32BE (attribute_values 27 (concat xs)) = (case nonzero (gi_durationMinutes inp) of None \<Rightarrow> [] | Some m \<Rightarrow> [nat (m * 60)])"
    "map readUInt32BE (attribute_values 62 (concat xs)) = [nat n]" "vendor_values 8 (concat xs) = sold_rate inp"
    "map readUInt32BE (vendor_values 17 (concat xs)) = lows" "map readUInt32BE (vendor_values 18 (concat xs)) = highs"
    using told unfolding tells_def by (elim exE conjE) (rule that, assumption+)
  have "buildReplyAttributes (v_code v) None db' = concat_results (map Inr (xs @ [[], []]))"
    by (simp add: buildReplyAttributes_def mine xs(1))
  then have "buildReplyAttributes (v_code v) None db' = Inr (concat xs)" unfolding concat_results_Inr by simp
  moreover have "map_option int (data_limit (concat xs)) = map_option (\<lambda>mb. mb * 1024 * 1024) (nonzero (gi_dataCapMb inp))"
    using cap by (auto simp: data_limit_def xs(5,6) split: option.splits list.splits)
  ultimately show ?thesis using xs(2-4) by (auto simp: n_def)
qed

theorem sold_terms_reach_the_router_witness:
  "\<exists>v db' attrs. createOneVoucher [''abcdefghijk''] (example_input\<lparr>gi_dataCapMb := Some 5000\<rparr>) example_hotspot = Inr (v, db')
     \<and> buildReplyAttributes (v_code v) None db' = Inr attrs \<and> map readUInt32BE (attribute_values 27 attrs) = [3600]
     \<and> map_option int (data_limit attrs) = Some 5242880000"
proof -
  let ?inp = "example_input\<lparr>gi_dataCapMb := Some 5000\<rparr>"
  have "find_voucher 1 ''BCDEFGHJ'' example_hotspot = None" by (simp add: find_voucher_def example_voucher_def)
  then have "createOneVoucher [''abcdefghijk''] ?inp example_hotspot = Inr (insert_voucher ?inp ''BCDEFGHJ'' example_hotspot)"
    unfolding createOneVoucher_def by (simp add: numeral_eq_Suc example_draw example_input_def)
  then obtain v db' where r: "createOneVoucher [''abcdefghijk''] ?inp example_hotspot = Inr (v, db')"
    by (cases "insert_voucher ?inp ''BCDEFGHJ'' example_hotspot") auto
  have "sane_terms ?inp" by (simp add: sane_terms_def example_input_def)
  moreover have "v_code v \<notin> rr_username ` set (radReplies example_hotspot)" by simp
  ultimately show ?thesis
    using sold_terms_reach_the_router [OF r] r by (auto simp: example_input_def nonzero_def)
qed

section \<open>Accounting again\<close>

text \<open>The byte counters kept, of vouchers and of sessions.\<close>

definition counters :: "'x hotspot_db_scheme \<Rightarrow> (id \<times> int option \<times> int option) list \<times> (string \<times> int \<times> int) list" where
  "counters db = (map (\<lambda>v. (v_id v, v_bytesIn v, v_bytesOut v)) (vouchers db),
     map (\<lambda>a. (ra_acctUniqueId a, ra_inputOctets a, ra_outputOctets a)) (radAccts db))"

lemma acct_fields_simps [simp]:
  "ra_acctUniqueId (acct_fields p now st i out a) = ra_acctUniqueId a"
  "ra_inputOctets (acct_fields p now st i out a) = i" "ra_outputOctets (acct_fields p now st i out a) = out"
  by (simp_all add: acct_fields_def Let_def)

lemma recordAccounting_frame [simp]:
  "vouchers (recordAccounting md5 p addr t st n i out db) = vouchers db"
  "hotspotDevices (recordAccounting md5 p addr t st n i out db) = hotspotDevices db"
  "radReplies (recordAccounting md5 p addr t st n i out db) = radReplies db"
  "nasRows (recordAccounting md5 p addr t st n i out db) = nasRows db"
  "routerRows (recordAccounting md5 p addr t st n i out db) = routerRows db"
  by (simp_all add: recordAccounting_def Let_def split: option.split)

lemma recordAccounting_distinct:
  "distinct (map ra_acctUniqueId (radAccts db)) \<Longrightarrow> distinct (map ra_acctUniqueId (radAccts (recordAccounting md5 p addr t st n i out db)))"
  by (auto simp: recordAccounting_def Let_def map_update_where split: option.split)

lemma recordAccounting_again:
  assumes "radAccts db' = radAccts (recordAccounting md5 p addr t st n i out db)"
  shows "map (\<lambda>a. (ra_acctUniqueId a, ra_inputOctets a, ra_outputOctets a)) (radAccts (recordAccounting md5 p addr t st n i out db'))
    = map (\<lambda>a. (ra_acctUniqueId a, ra_inputOctets a, ra_outputOctets a)) (radAccts db')"
proof (cases "readStringAttr p 44")
  case None
  then show ?thesis by (simp add: recordAccounting_def)
next
  case (Some s)
  let ?uid = "acct_unique_id md5 s addr n"
  have there: "?uid \<in> ra_acctUniqueId ` set (radAccts db')"
  proof (cases "?uid \<in> ra_acctUniqueId ` set (radAccts db)")
    case True
    then have "radAccts db' = update_where (\<lambda>a. ra_acctUniqueId a = ?uid) (acct_fields p (clock db) st i out) (radAccts db)"
      unfolding assms by (auto simp: recordAccounting_def Some Let_def)
    then have "map ra_acctUniqueId (radAccts db') = map ra_acctUniqueId (radAccts db)" by (simp add: map_update_where)
    with True show ?thesis by (metis set_map)
  next
    case False
    then have "\<not> (\<exists>a \<in> set (radAccts db). ra_acctUniqueId a = ?uid)" by (metis imageI)
    then show ?thesis unfolding assms by (simp add: recordAccounting_def Some Let_def)
  qed
  have same: "\<And>a. a \<in> set (radAccts db') \<Longrightarrow> ra_acctUniqueId a = ?uid \<Longrightarrow> ra_inputOctets a = i \<and> ra_outputOctets a = out"
    unfolding assms by (auto simp: recordAccounting_def Some Let_def set_update_where split: if_splits)
  have "radAccts (recordAccounting md5 p addr t st n i out db') =
      update_where (\<lambda>a. ra_acctUniqueId a = ?uid) (acct_fields p (clock db') st i out) (radAccts db')"
    using there by (auto simp: recordAccounting_def Some Let_def)
  then show ?thesis using same by (simp add: update_where_def)
qed

lemma usage_frame:
  assumes "hotspotDevices db' = hotspotDevices db"
  shows "voucherUsageForSession t n cs i out db' = voucherUsageForSession t n cs i out db"
  unfolding voucherUsageForSession_def find_device_def assms by (rule refl)

lemma cap_frame:
  assumes "radReplies db' = radReplies db" "nasRows db' = nasRows db" "routerRows db' = routerRows db"
  shows "enforceDataCap c n addr b db' = enforceDataCap c n addr b db"
  unfolding enforceDataCap_def getNas_def assms by (rule refl)


definition interim_update :: radius_packet where
  "interim_update = \<lparr>pk_code = 4, pk_identifier = 9, pk_authenticator = replicate 16 0,
     pk_attributes = [\<lparr>at_type = 1, at_value = utf8 ''SZRJBKTL''\<rparr>, \<lparr>at_type = 40, at_value = [0, 0, 0, 3]\<rparr>,
       \<lparr>at_type = 44, at_value = utf8 ''81f0''\<rparr>, \<lparr>at_type = 42, at_value = [0, 0, 0, 100]\<rparr>, \<lparr>at_type = 43, at_value = [0, 0, 0, 50]\<rparr>]\<rparr>"

lemma interim_update_counted:
  "counters (snd (account toy_md5 example_nas ''10.0.0.1'' interim_update example_network)) =
     ([(7, Some 100, Some 50)], [(hex_text (replicate 16 7), 100, 50)])"
  by code_simp


end
