(* ===== verification/MpesaCallbacks.thy ===== *)
theory MpesaCallbacks
  imports Reversals GatewayInvariant Vouchers
begin

text \<open>
  packages/payments/src/mpesa/callback.service.ts: what an M-Pesa STK result (Safaricom's callback
  or a status query) does to the request, the payment, the wallet or the voucher it pays for, and
  the gateway ledger. The stored raw payload is a text; the random token of a voucher's code is an
  argument. The voucher's text message, sent after the commit, is part of the operation's result.
\<close>

section \<open>Tables\<close>

datatype mpesa_status = M_PENDING | M_COMPLETED | M_FAILED | M_CANCELLED
datatype collection_mode = OWN | PLATFORM

record stk_request =
  sq_id :: id
  sq_tenantId :: id
  sq_customerId :: "id option"
  sq_invoiceId :: "id option"
  sq_hotspotPackageId :: "id option"
  sq_hotspotVoucherCode :: "string option"
  sq_phone :: string
  sq_amountMinor :: minor
  sq_checkoutRequestId :: string
  sq_status :: mpesa_status
  sq_resultCode :: "int option"
  sq_resultDesc :: "string option"
  sq_mpesaReceiptNumber :: "string option"
  sq_paymentId :: "id option"
  sq_collectedBy :: collection_mode
  sq_paymentReferenceId :: "id option"
  sq_rawCallback :: "string option"

record donation =
  dn_id :: id
  dn_checkoutRequestId :: string
  dn_status :: mpesa_status
  dn_resultCode :: "int option"
  dn_resultDesc :: "string option"
  dn_mpesaReceiptNumber :: "string option"
  dn_rawCallback :: "string option"

record stk_db = hotspot_db +
  stkRequests :: "stk_request list"
  donations :: "donation list"

section \<open>The callback's metadata\<close>

text \<open>A value is a text, a whole number, or missing; Daraja reports whole shillings.\<close>

datatype item_value = Text string | Whole int | Missing

record callback_item =
  it_name :: string
  it_value :: item_value

record stk_metadata =
  md_amountMinor :: "minor option"
  md_mpesaReceiptNumber :: "string option"
  md_phone :: "string option"

definition js_string :: "item_value \<Rightarrow> string" where
  "js_string v = (case v of Text s \<Rightarrow> s | Whole n \<Rightarrow> int_to_string n | Missing \<Rightarrow> ''undefined'')"

definition read_item :: "callback_item \<Rightarrow> stk_metadata \<Rightarrow> stk_metadata" where
  "read_item item m =
     (let m1 = (case it_value item of Whole n \<Rightarrow> if it_name item = ''Amount'' then m\<lparr>md_amountMinor := Some (n * 100)\<rparr> else m | _ \<Rightarrow> m);
          m2 = (case it_value item of Text s \<Rightarrow> if it_name item = ''MpesaReceiptNumber'' then m1\<lparr>md_mpesaReceiptNumber := Some s\<rparr> else m1 | _ \<Rightarrow> m1)
      in if it_name item = ''PhoneNumber'' then m2\<lparr>md_phone := Some (js_string (it_value item))\<rparr> else m2)"

definition parseCallbackMetadata :: "callback_item list option \<Rightarrow> stk_metadata" where
  "parseCallbackMetadata items =
     fold read_item (case items of None \<Rightarrow> [] | Some is \<Rightarrow> is)
       \<lparr>md_amountMinor = None, md_mpesaReceiptNumber = None, md_phone = None\<rparr>"

section \<open>Open requests\<close>

definition contains_ci :: "string \<Rightarrow> string \<Rightarrow> bool" where
  "contains_ci needle hay = list_ex (\<lambda>k. starts_with needle (drop k (map to_lower hay))) [0..<length hay + 1]"

definition isStkStillProcessing :: "int \<Rightarrow> string option \<Rightarrow> bool" where
  "isStkStillProcessing resultCode resultDesc \<longleftrightarrow> resultCode = 4999
     \<or> contains_ci ''under processing'' (or_default '''' resultDesc) \<or> contains_ci ''being processed'' (or_default '''' resultDesc)"

definition isStkRequestOpen :: "stk_request \<Rightarrow> bool" where
  "isStkRequestOpen r \<longleftrightarrow> sq_status r = M_PENDING
     \<or> (sq_status r = M_FAILED \<and> (case sq_resultCode r of None \<Rightarrow> False | Some c \<Rightarrow> isStkStillProcessing c (sq_resultDesc r)))"

record stk_result =
  rs_resultCode :: int
  rs_resultDesc :: string
  rs_metadata :: "stk_metadata option"
  rs_raw :: string

text \<open>The receipt of a result: missing and empty are the same.\<close>

definition real_receipt :: "stk_result \<Rightarrow> string option" where
  "real_receipt res = (case rs_metadata res of None \<Rightarrow> None | Some m \<Rightarrow>
     (case md_mpesaReceiptNumber m of None \<Rightarrow> None | Some s \<Rightarrow> if s = [] then None else Some s))"

definition last_chars :: "nat \<Rightarrow> string \<Rightarrow> string" where
  "last_chars n s = drop (length s - n) s"

definition receipt_for :: "stk_result \<Rightarrow> string \<Rightarrow> string" where
  "receipt_for res checkoutRequestId = (case real_receipt res of Some s \<Rightarrow> s
     | None \<Rightarrow> ''PRV-'' @ map to_upper (last_chars 12 (filter is_alnum checkoutRequestId)))"

definition paidAfterAll :: "stk_request \<Rightarrow> stk_result \<Rightarrow> bool" where
  "paidAfterAll r res \<longleftrightarrow> sq_status r \<noteq> M_COMPLETED \<and> rs_resultCode res = 0
     \<and> (case real_receipt res of None \<Rightarrow> False | Some s \<Rightarrow> \<not> starts_with ''PRV-'' s)"

definition find_stk :: "string \<Rightarrow> 'x stk_db_scheme \<Rightarrow> stk_request option" where
  "find_stk c db = List.find (\<lambda>r. sq_checkoutRequestId r = c) (stkRequests db)"

text \<open>An update of one request, refused when it takes a receipt number or a payment another one has.\<close>

definition update_stk :: "stk_request \<Rightarrow> (stk_request \<Rightarrow> stk_request) \<Rightarrow> 'x stk_db_scheme \<Rightarrow> (stk_request \<times> 'x stk_db_scheme) result" where
  "update_stk r f db =
     (let r' = f r
      in if \<exists>x \<in> set (stkRequests db). sq_id x \<noteq> sq_id r \<and>
             ((sq_mpesaReceiptNumber r' \<noteq> None \<and> sq_mpesaReceiptNumber x = sq_mpesaReceiptNumber r')
              \<or> (sq_paymentId r' \<noteq> None \<and> sq_paymentId x = sq_paymentId r'))
         then Inl UniqueViolation
         else Inr (r', db\<lparr>stkRequests := update_where (\<lambda>x. sq_id x = sq_id r) f (stkRequests db)\<rparr>))"

section \<open>The voucher of a hotspot purchase\<close>

definition callback_address_list :: "string \<Rightarrow> string" where
  "callback_address_list policy =
     (let norm = trim (map to_upper policy)
      in if norm = ''SOCIAL_BUNDLE'' then ''mashup-client-social'' else ''mashup-client-'' @ strip_only (map to_lower norm))"

definition callback_replies :: "hotspot_package \<Rightarrow> int \<Rightarrow> string \<Rightarrow> rad_row list" where
  "callback_replies pkg simUse code =
     [rad_reply code ''Port-Limit'' ''='' (int_to_string simUse)]
     @ (if hp_blockTethering pkg then [rad_reply code ''Mikrotik-Address-List'' ''+='' ''mashup-anti-tether''] else [])
     @ (case hp_appPolicy pkg of None \<Rightarrow> []
        | Some p \<Rightarrow> if p = [] \<or> p = ''ALL'' then []
            else [rad_reply code ''Mikrotik-Address-List'' ''+='' (callback_address_list p)])
     @ (if hp_durationMinutes pkg = 0 then [] else [rad_reply code ''Session-Timeout'' ''='' (int_to_string (hp_durationMinutes pkg * 60))])
     @ (case nonzero (hp_dataCapMb pkg) of None \<Rightarrow> []
        | Some mb \<Rightarrow> [rad_reply code ''Mikrotik-Total-Limit'' ''='' (int_to_string (mb * 1024 * 1024))])
     @ (case (nonzero (hp_downloadKbps pkg), nonzero (hp_uploadKbps pkg)) of
          (Some d, Some u) \<Rightarrow> [rad_reply code ''Mikrotik-Rate-Limit'' ''='' (int_to_string u @ ''k/'' @ int_to_string d @ ''k'')]
        | _ \<Rightarrow> [])"

definition issue_voucher ::
  "id \<Rightarrow> hotspot_package \<Rightarrow> string \<Rightarrow> 'x hotspot_db_scheme \<Rightarrow> (voucher \<times> 'x hotspot_db_scheme) result" where
  "issue_voucher tenantId pkg code db =
     (if find_voucher tenantId code db \<noteq> None then Inl UniqueViolation
      else let simUse = max 1 (if hp_simultaneousUse pkg = 0 then 1 else hp_simultaneousUse pkg);
               v = \<lparr>v_id = nextId db, v_tenantId = tenantId, v_code = code, v_hotspotPackageId = Some (hp_id pkg), v_packageId = None,
                 v_durationMinutes = Some (hp_durationMinutes pkg), v_dataCapMb = hp_dataCapMb pkg,
                 v_downloadKbps = hp_downloadKbps pkg, v_uploadKbps = hp_uploadKbps pkg, v_simultaneousUse = Some simUse,
                 v_appPolicy = Some (policy_text (hp_appPolicy pkg)), v_status = V_UNUSED, v_activatedAt = None, v_expiresAt = None,
                 v_bytesIn = None, v_bytesOut = None, v_usageUpdatedAt = None, v_createdByUserId = None\<rparr>
           in Inr (v, db\<lparr>nextId := nextId db + 1, vouchers := vouchers db @ [v],
                radChecks := radChecks db @ [rad_reply code ''Cleartext-Password'' '':='' code,
                  rad_reply code ''Simultaneous-Use'' '':='' (int_to_string simUse)],
                radReplies := radReplies db @ callback_replies pkg simUse code\<rparr>))"

section \<open>Resolving a request\<close>

definition guest_payment :: "id \<Rightarrow> minor \<Rightarrow> string \<Rightarrow> 'x billing_db_scheme \<Rightarrow> (payment \<times> 'x billing_db_scheme) result" where
  "guest_payment tenantId amountMinor receiptNumber db =
     (if receiptNumber \<in> p_idempotencyKey ` set (payments db) then Inl UniqueViolation
      else let p = \<lparr>p_id = nextId db, p_tenantId = tenantId, p_customerId = None, p_invoiceId = None, p_method = MPESA,
             p_status = P_COMPLETED, p_amountMinor = amountMinor, p_currency = ''KES'', p_reference = Some receiptNumber,
             p_idempotencyKey = receiptNumber, p_recordedByUserId = None, p_reversedAt = None, p_reversalReason = None,
             p_createdAt = clock db\<rparr>
           in Inr (p, db\<lparr>nextId := nextId db + 1, payments := payments db @ [p]\<rparr>))"

definition collect_if_platform ::
  "stk_request \<Rightarrow> collection_input \<Rightarrow> 'x gateway_db_scheme \<Rightarrow> 'x gateway_db_scheme result" where
  "collect_if_platform r inp db =
     (if sq_collectedBy r = PLATFORM
      then (case recordPlatformCollection inp db of Inl e \<Rightarrow> Inl e | Inr (_, db') \<Rightarrow> Inr db')
      else Inr db)"

definition completed_request :: "stk_result \<Rightarrow> string \<Rightarrow> id \<Rightarrow> string option \<Rightarrow> stk_request \<Rightarrow> stk_request" where
  "completed_request res receiptNumber paymentId voucherCode r =
     r\<lparr>sq_status := M_COMPLETED, sq_resultCode := Some (rs_resultCode res), sq_resultDesc := Some (rs_resultDesc res),
       sq_mpesaReceiptNumber := Some receiptNumber, sq_paymentId := Some paymentId,
       sq_hotspotVoucherCode := or_else voucherCode (sq_hotspotVoucherCode r), sq_rawCallback := Some (rs_raw res)\<rparr>"

record issued_voucher =
  iv_code :: string
  iv_packageName :: string
  iv_phone :: string

definition complete_hotspot ::
  "string \<Rightarrow> stk_request \<Rightarrow> id \<Rightarrow> stk_result \<Rightarrow> 'x stk_db_scheme \<Rightarrow> ((stk_request \<times> issued_voucher option) \<times> 'x stk_db_scheme) result" where
  "complete_hotspot rawToken r packageId res db =
     (case find_hotspot_package packageId db of None \<Rightarrow> Inl RecordNotFound
      | Some pkg \<Rightarrow>
          let code = randomVoucherCode rawToken; receiptNumber = receipt_for res (sq_checkoutRequestId r)
          in case issue_voucher (sq_tenantId r) pkg code db of Inl e \<Rightarrow> Inl e
             | Inr (v, db1) \<Rightarrow>
                 (case guest_payment (sq_tenantId r) (sq_amountMinor r) receiptNumber db1 of Inl e \<Rightarrow> Inl e
                  | Inr (p, db2) \<Rightarrow>
                      (case collect_if_platform r
                          \<lparr>ci_tenantId = sq_tenantId r, ci_paymentId = p_id p, ci_grossMinor = p_amountMinor p, ci_currency = p_currency p,
                           ci_channel = MPESA_STK, ci_providerReference = receiptNumber, ci_providerRequestId = Some (sq_checkoutRequestId r),
                           ci_payerPhone = Some (sq_phone r), ci_customerId = None, ci_invoiceId = None, ci_paymentReferenceId = None,
                           ci_description = ''Hotspot voucher sale''\<rparr> db2 of Inl e \<Rightarrow> Inl e
                       | Inr db3 \<Rightarrow>
                           (case update_stk r (completed_request res receiptNumber (p_id p) (Some code)) db3 of Inl e \<Rightarrow> Inl e
                            | Inr (r', db4) \<Rightarrow>
                                Inr ((r', Some \<lparr>iv_code = code, iv_packageName = hp_name pkg, iv_phone = sq_phone r\<rparr>), db4)))))"

definition invoice_still_payable :: "stk_request \<Rightarrow> 'x billing_db_scheme \<Rightarrow> id option" where
  "invoice_still_payable r db =
     (case sq_invoiceId r of None \<Rightarrow> None
      | Some i \<Rightarrow> map_option i_id (List.find (\<lambda>x. i_id x = i \<and> i_tenantId x = sq_tenantId r \<and>
          (i_status x = I_PENDING \<or> i_status x = I_PARTIALLY_PAID \<or> i_status x = I_OVERDUE)) (invoices db)))"

text \<open>A request without a customer looks for one under an identifier no row has.\<close>

definition pay_invoice_or_wallet ::
  "stk_request \<Rightarrow> string \<Rightarrow> 'x billing_db_scheme \<Rightarrow> (payment_result \<times> 'x billing_db_scheme) result" where
  "pay_invoice_or_wallet r receiptNumber db =
     (case invoice_still_payable r db of
        Some i \<Rightarrow> recordPaymentForInvoiceCore (sq_tenantId r)
          \<lparr>in_invoiceId = i, in_method = MPESA, in_amountMinor = sq_amountMinor r, in_reference = Some receiptNumber,
           in_recordedByUserId = None, in_idempotencyKey = receiptNumber, in_allowOverpayment = True\<rparr> db
      | None \<Rightarrow> topUpWalletCore (sq_tenantId r)
          \<lparr>tu_customerId = or_default (nextId db) (sq_customerId r), tu_amountMinor = sq_amountMinor r, tu_method = MPESA,
           tu_currency = None, tu_reference = Some receiptNumber, tu_recordedByUserId = None, tu_idempotencyKey = receiptNumber\<rparr> db)"

definition complete_account ::
  "stk_request \<Rightarrow> stk_result \<Rightarrow> 'x stk_db_scheme \<Rightarrow> ((stk_request \<times> issued_voucher option) \<times> 'x stk_db_scheme) result" where
  "complete_account r res db =
     (let receiptNumber = receipt_for res (sq_checkoutRequestId r); payable = invoice_still_payable r db
      in case pay_invoice_or_wallet r receiptNumber db of Inl e \<Rightarrow> Inl e
         | Inr (paid, db1) \<Rightarrow>
             (case collect_if_platform r
                 \<lparr>ci_tenantId = sq_tenantId r, ci_paymentId = p_id (res_payment paid), ci_grossMinor = sq_amountMinor r,
                  ci_currency = p_currency (res_payment paid), ci_channel = MPESA_STK, ci_providerReference = receiptNumber,
                  ci_providerRequestId = Some (sq_checkoutRequestId r), ci_payerPhone = Some (sq_phone r),
                  ci_customerId = sq_customerId r, ci_invoiceId = payable, ci_paymentReferenceId = sq_paymentReferenceId r,
                  ci_description = (if payable = None then ''Wallet top-up'' else ''Invoice payment'')\<rparr> db1 of Inl e \<Rightarrow> Inl e
              | Inr db2 \<Rightarrow>
                  (case update_stk r (completed_request res receiptNumber (p_id (res_payment paid)) None) db2 of Inl e \<Rightarrow> Inl e
                   | Inr (r', db3) \<Rightarrow> Inr ((r', None), db3))))"

definition fail_request :: "stk_result \<Rightarrow> stk_request \<Rightarrow> stk_request" where
  "fail_request res r = r\<lparr>sq_status := (if rs_resultCode res = 1032 then M_CANCELLED else M_FAILED),
     sq_resultCode := Some (rs_resultCode res), sq_resultDesc := Some (rs_resultDesc res), sq_rawCallback := Some (rs_raw res)\<rparr>"

text \<open>A provisional receipt is replaced by the real one, on the request, the payment and the gateway.\<close>

definition upgrade_receipt :: "stk_request \<Rightarrow> string \<Rightarrow> string \<Rightarrow> 'x stk_db_scheme \<Rightarrow> (stk_request \<times> 'x stk_db_scheme) result" where
  "upgrade_receipt r realReceipt raw db =
     (case update_stk r (\<lambda>x. x\<lparr>sq_mpesaReceiptNumber := Some realReceipt, sq_rawCallback := Some raw\<rparr>) db of Inl e \<Rightarrow> Inl e
      | Inr (r', db1) \<Rightarrow>
          (case sq_paymentId r of None \<Rightarrow> Inr (r', db1)
           | Some pid \<Rightarrow>
               if pid \<notin> p_id ` set (payments db1) then Inl RecordNotFound
               else Inr (r', upgradeProvisionalReceipt pid realReceipt (update_payment pid (\<lambda>p. p\<lparr>p_reference := Some realReceipt\<rparr>) db1))))"

definition settled_already :: "stk_request \<Rightarrow> stk_result \<Rightarrow> 'x stk_db_scheme \<Rightarrow> (stk_request \<times> 'x stk_db_scheme) result" where
  "settled_already r res db =
     (case (real_receipt res, sq_mpesaReceiptNumber r) of
        (Some realReceipt, Some old) \<Rightarrow>
          if sq_status r = M_COMPLETED \<and> rs_resultCode res = 0 \<and> starts_with ''PRV-'' old
          then upgrade_receipt r realReceipt (rs_raw res) db else Inr (r, db)
      | _ \<Rightarrow> Inr (r, db))"

text \<open>The transaction.\<close>

definition complete_stk_tx ::
  "string \<Rightarrow> id \<Rightarrow> string \<Rightarrow> stk_result \<Rightarrow> 'x stk_db_scheme \<Rightarrow> ((stk_request \<times> issued_voucher option) \<times> 'x stk_db_scheme) result" where
  "complete_stk_tx rawToken tenantId checkoutRequestId res db =
     (case find_stk checkoutRequestId db of None \<Rightarrow> Inl (NotFoundError ''STK push request'')
      | Some r \<Rightarrow>
          if sq_tenantId r \<noteq> tenantId then Inl (NotFoundError ''STK push request'')
          else if \<not> isStkRequestOpen r \<and> \<not> paidAfterAll r res
          then (case settled_already r res db of Inl e \<Rightarrow> Inl e | Inr (r', db') \<Rightarrow> Inr ((r', None), db'))
          else if rs_resultCode res = 0
          then (case sq_hotspotPackageId r of
                  Some packageId \<Rightarrow> complete_hotspot rawToken r packageId res db
                | None \<Rightarrow> complete_account r res db)
          else (case update_stk r (fail_request res) db of Inl e \<Rightarrow> Inl e | Inr (r', db') \<Rightarrow> Inr ((r', None), db')))"

text \<open>The transaction, then the restoring of the customer's services. The result carries the text to send.\<close>

definition completeStkRequest ::
  "string \<Rightarrow> id \<Rightarrow> string \<Rightarrow> stk_result \<Rightarrow> 'x stk_db_scheme \<Rightarrow> ((stk_request \<times> issued_voucher option) \<times> 'x stk_db_scheme) result" where
  "completeStkRequest rawToken tenantId checkoutRequestId res db =
     (case complete_stk_tx rawToken tenantId checkoutRequestId res db of Inl e \<Rightarrow> Inl e
      | Inr ((r, issued), db') \<Rightarrow>
          Inr ((r, issued), if sq_status r = M_COMPLETED then snd (restoreServiceAfterPayment tenantId (sq_customerId r) db') else db'))"

section \<open>The callback\<close>

text \<open>The fields of \<open>Body.stkCallback\<close>; a result code that is not a number is missing.\<close>

record stk_callback =
  cb_checkoutRequestId :: "string option"
  cb_resultCode :: "int option"
  cb_resultDesc :: "string option"
  cb_items :: "callback_item list option"
  cb_raw :: string

record callback_outcome =
  co_handled :: bool
  co_checkoutRequestId :: "string option"
  co_duplicate :: "bool option"
  co_tenantId :: "id option"

definition handleStkCallback ::
  "string \<Rightarrow> stk_callback option \<Rightarrow> 'x stk_db_scheme \<Rightarrow> (callback_outcome \<times> 'x stk_db_scheme) result" where
  "handleStkCallback rawToken payload db =
     (let unhandled = (\<lambda>c. Inr (\<lparr>co_handled = False, co_checkoutRequestId = c, co_duplicate = None, co_tenantId = None\<rparr>, db))
      in case payload of None \<Rightarrow> unhandled None
         | Some cb \<Rightarrow>
             (case (cb_checkoutRequestId cb, cb_resultCode cb) of
                (Some c, Some resultCode) \<Rightarrow>
                  if c = [] then unhandled None
                  else (case find_stk c db of None \<Rightarrow> unhandled (Some c)
                    | Some existing \<Rightarrow>
                        (case completeStkRequest rawToken (sq_tenantId existing) c
                            \<lparr>rs_resultCode = resultCode, rs_resultDesc = or_default '''' (cb_resultDesc cb),
                             rs_metadata = Some (parseCallbackMetadata (cb_items cb)), rs_raw = cb_raw cb\<rparr> db of
                           Inl e \<Rightarrow> Inl e
                         | Inr (_, db') \<Rightarrow>
                             Inr (\<lparr>co_handled = True, co_checkoutRequestId = Some c, co_duplicate = Some (\<not> isStkRequestOpen existing),
                                   co_tenantId = Some (sq_tenantId existing)\<rparr>, db')))
              | _ \<Rightarrow> unhandled None))"

section \<open>Donations\<close>

definition donation_receipt :: "stk_metadata \<Rightarrow> donation \<Rightarrow> string \<Rightarrow> string" where
  "donation_receipt m d checkoutRequestId =
     (case md_mpesaReceiptNumber m of
        Some (c # s) \<Rightarrow> c # s
      | _ \<Rightarrow> (case dn_mpesaReceiptNumber d of
          Some (c # s) \<Rightarrow> c # s
        | _ \<Rightarrow> ''DON-'' @ map to_upper (last_chars 12 (filter is_alnum checkoutRequestId))))"

definition tryCompleteDonationCallback :: "stk_callback option \<Rightarrow> 'x stk_db_scheme \<Rightarrow> bool \<times> 'x stk_db_scheme" where
  "tryCompleteDonationCallback payload db =
     (case payload of None \<Rightarrow> (False, db)
      | Some cb \<Rightarrow>
          (case (cb_checkoutRequestId cb, cb_resultCode cb) of
             (Some c, Some resultCode) \<Rightarrow>
               (case (if c = [] then None else List.find (\<lambda>d. dn_checkoutRequestId d = c) (donations db)) of
                  None \<Rightarrow> (False, db)
                | Some d \<Rightarrow>
                    if dn_status d = M_COMPLETED \<and> \<not> (case dn_mpesaReceiptNumber d of None \<Rightarrow> False | Some s \<Rightarrow> starts_with ''DON-'' s)
                    then (True, db)
                    else if resultCode = 0 then
                      (True, db\<lparr>donations := update_where (\<lambda>x. dn_id x = dn_id d)
                         (\<lambda>x. x\<lparr>dn_status := M_COMPLETED, dn_resultCode := Some resultCode,
                            dn_resultDesc := Some (or_default ''The service request is processed successfully.'' (cb_resultDesc cb)),
                            dn_mpesaReceiptNumber := Some (donation_receipt (parseCallbackMetadata (cb_items cb)) d c),
                            dn_rawCallback := Some (cb_raw cb)\<rparr>) (donations db)\<rparr>)
                    else if dn_status d \<noteq> M_COMPLETED then
                      (True, db\<lparr>donations := update_where (\<lambda>x. dn_id x = dn_id d)
                         (\<lambda>x. x\<lparr>dn_status := (if resultCode = 1032 then M_CANCELLED else M_FAILED), dn_resultCode := Some resultCode,
                            dn_resultDesc := Some (or_default '''' (cb_resultDesc cb)), dn_rawCallback := Some (cb_raw cb)\<rparr>) (donations db)\<rparr>)
                    else (True, db))
           | _ \<Rightarrow> (False, db)))"

section \<open>What the parts leave alone\<close>

text \<open>The tables of \<open>gateway_db\<close> and its extensions are the part of a database no billing operation touches.\<close>

lemma stk_of_more:
  fixes db db' :: "'x stk_db_scheme"
  shows "billing_db.more db' = billing_db.more db \<Longrightarrow> stkRequests db' = stkRequests db"
    and "gateway_db.more db' = gateway_db.more db \<Longrightarrow> stkRequests db' = stkRequests db"
  by (cases db; cases db'; simp)+

lemma restore_frame:
  assumes "restoreServiceAfterPayment t c db = (n, db')"
  shows "invoices db' = invoices db" "payments db' = payments db" "receipts db' = receipts db" "wallets db' = wallets db"
    "walletTxns db' = walletTxns db" "nextId db' = nextId db" "billing_db.more db' = billing_db.more db"
proof -
  have "invoices (fold reactivate_one ss db) = invoices db \<and> payments (fold reactivate_one ss db) = payments db
    \<and> receipts (fold reactivate_one ss db) = receipts db \<and> wallets (fold reactivate_one ss db) = wallets db
    \<and> walletTxns (fold reactivate_one ss db) = walletTxns db \<and> nextId (fold reactivate_one ss db) = nextId db
    \<and> billing_db.more (fold reactivate_one ss db) = billing_db.more db" for ss
    by (induction ss arbitrary: db) (simp_all add: reactivate_one_def)
  then show "invoices db' = invoices db" "payments db' = payments db" "receipts db' = receipts db" "wallets db' = wallets db"
    "walletTxns db' = walletTxns db" "nextId db' = nextId db" "billing_db.more db' = billing_db.more db"
    using assms by (auto simp: restoreServiceAfterPayment_def reactivateCustomerIfCleared_def Let_def split: option.splits if_splits)
qed

lemma retry_loop_Inr: "retry_loop cand create a n e = Inr x \<Longrightarrow> \<exists>k. create (cand k) = Inr x"
  by (induction n arbitrary: a e) (auto split: sum.splits if_splits)

lemma createReceipt_grows:
  "createReceipt t pid db = Inr (r, db') \<Longrightarrow> billing_db.more db' = billing_db.more db \<and> nextId db \<le> nextId db'"
  unfolding createReceipt_def withRetryOnNumberCollision_def
  by (drule retry_loop_Inr) (auto simp: insert_receipt_def Let_def split: if_splits)

lemma post_payment_grows:
  assumes "post_payment t inp b a e db = Inr (out, db')"
  shows "billing_db.more db' = billing_db.more db \<and> nextId db < nextId db' \<and> nextId db = p_id (res_payment out)"
proof -
  have credit: "billing_db.more d' = billing_db.more d \<and> nextId d \<le> nextId d'"
    if "creditWallet c m why ref d = Inr (w, d')" for c m why ref w and d d' :: "'a billing_db_scheme"
    using creditWallet_frame(14,15) [OF that] by simp
  show ?thesis
    using assms unfolding post_payment_def Let_def
    by (auto simp: reactivate_paid_up_frame dest!: createReceipt_grows credit split: if_splits sum.splits)
qed

lemma recordPayment_grows:
  assumes "recordPaymentForInvoiceCore t inp db = Inr (out, db')"
  shows "billing_db.more db' = billing_db.more db \<and> nextId db \<le> nextId db'
    \<and> (\<not> res_wasAlreadyProcessed out \<longrightarrow> nextId db \<le> p_id (res_payment out) \<and> p_id (res_payment out) < nextId db')"
proof -
  have debit: "billing_db.more d' = billing_db.more d \<and> nextId d \<le> nextId d'"
    if "debitWallet c m why ref d = Inr (w, d')" for c m why ref w and d d' :: "'a billing_db_scheme"
    using debitWallet_frame(14,15) [OF that] by simp
  show ?thesis
    using assms unfolding recordPaymentForInvoiceCore_def Let_def
    by (auto dest!: post_payment_grows debit split: if_splits option.splits sum.splits)
qed

lemma topUp_grows:
  assumes "topUpWalletCore t inp db = Inr (out, db')"
  shows "billing_db.more db' = billing_db.more db \<and> nextId db \<le> nextId db'
    \<and> (\<not> res_wasAlreadyProcessed out \<longrightarrow> nextId db \<le> p_id (res_payment out) \<and> p_id (res_payment out) < nextId db')"
proof -
  have credit: "billing_db.more d' = billing_db.more d \<and> nextId d \<le> nextId d'"
    if "creditWallet c m why ref d = Inr (w, d')" for c m why ref w and d d' :: "'a billing_db_scheme"
    using creditWallet_frame(14,15) [OF that] by simp
  show ?thesis
    using assms unfolding topUpWalletCore_def Let_def
    by (auto dest!: createReceipt_grows credit split: if_splits option.splits sum.splits)
qed

lemma pay_grows:
  assumes "pay_invoice_or_wallet r receipt db = Inr (out, db')"
  shows "billing_db.more db' = billing_db.more db \<and> nextId db \<le> nextId db'
    \<and> (\<not> res_wasAlreadyProcessed out \<longrightarrow> nextId db \<le> p_id (res_payment out) \<and> p_id (res_payment out) < nextId db')"
  using assms unfolding pay_invoice_or_wallet_def
  by (auto dest: recordPayment_grows topUp_grows split: option.splits)

lemma collection_more:
  "recordPlatformCollection inp db = Inr (g, db') \<Longrightarrow> gateway_db.more db' = gateway_db.more db"
  unfolding recordPlatformCollection_def nextTransactionNumber_def insert_gateway_txn_def Let_def
  by (auto dest!: append_db(1) split: if_splits option.splits sum.splits)

section \<open>A request is settled once\<close>

text \<open>What money the database shows: everything but references to receipts and access to the network.\<close>

record money_view =
  mv_payments :: "(id \<times> id \<times> id option \<times> id option \<times> payment_status \<times> minor \<times> string) list"
  mv_invoices :: "invoice list"
  mv_receipts :: "receipt list"
  mv_wallets :: "wallet list"
  mv_walletTxns :: "wallet_txn list"
  mv_collected :: "(id \<times> id \<times> minor \<times> minor) list"
  mv_ledger :: "ledger_entry list"
  mv_vouchers :: "voucher list"

definition money_of :: "'x hotspot_db_scheme \<Rightarrow> money_view" where
  "money_of db = \<lparr>mv_payments = map (\<lambda>p. (p_id p, p_tenantId p, p_customerId p, p_invoiceId p, p_status p, p_amountMinor p, p_idempotencyKey p)) (payments db),
     mv_invoices = invoices db, mv_receipts = receipts db, mv_wallets = wallets db, mv_walletTxns = walletTxns db,
     mv_collected = map (\<lambda>g. (g_id g, g_paymentId g, g_grossMinor g, g_feeMinor g)) (gatewayTxns db),
     mv_ledger = ledgerEntries db, mv_vouchers = vouchers db\<rparr>"

text \<open>Any number of later results for the same request, callbacks and queries alike, and the texts they send.\<close>

fun deliveries :: "id \<Rightarrow> string \<Rightarrow> (string \<times> stk_result) list \<Rightarrow> 'x stk_db_scheme \<Rightarrow> issued_voucher list \<times> 'x stk_db_scheme" where
  "deliveries tenantId c [] db = ([], db)"
| "deliveries tenantId c ((rawToken, res) # later) db =
     (case completeStkRequest rawToken tenantId c res db of
        Inl e \<Rightarrow> deliveries tenantId c later db
      | Inr ((r, issued), db1) \<Rightarrow>
          (let (texts, db2) = deliveries tenantId c later db1
           in ((case issued of None \<Rightarrow> texts | Some v \<Rightarrow> v # texts), db2)))"

definition completed :: "string \<Rightarrow> 'x stk_db_scheme \<Rightarrow> bool" where
  "completed c db \<longleftrightarrow> (case find_stk c db of None \<Rightarrow> False | Some r \<Rightarrow> sq_status r = M_COMPLETED)"

lemma completed_cong: "stkRequests db' = stkRequests db \<Longrightarrow> completed c db' = completed c db"
  by (simp add: completed_def find_stk_def)

lemma update_stk_spec:
  assumes "update_stk r f db = Inr (r', db')" and "find_stk c db = Some r" and "\<And>x. sq_checkoutRequestId (f x) = sq_checkoutRequestId x"
  shows "r' = f r" "find_stk c db' = Some (f r)" "db' = db\<lparr>stkRequests := update_where (\<lambda>x. sq_id x = sq_id r) f (stkRequests db)\<rparr>"
  using assms find_after_update [of "\<lambda>r. sq_checkoutRequestId r = c" "stkRequests db" r "\<lambda>x. sq_id x = sq_id r" f]
  by (auto simp: update_stk_def find_stk_def Let_def split: if_splits)

lemma money_of_restore:
  fixes db :: "'x stk_db_scheme"
  assumes "restoreServiceAfterPayment t c db = (n, db')"
  shows "money_of db' = money_of db \<and> stkRequests db' = stkRequests db"
proof -
  have "gatewayTxns db' = gatewayTxns db \<and> ledgerEntries db' = ledgerEntries db \<and> vouchers db' = vouchers db"
    using restore_frame(7) [OF assms] by (cases db; cases db'; simp)
  then show ?thesis
    using restore_frame [OF assms] stk_of_more(1) [of db' db] by (simp add: money_of_def)
qed

lemma settled_already_spec:
  fixes db :: "'x stk_db_scheme"
  assumes "settled_already r res db = Inr (r', db')" and "find_stk c db = Some r" and "sq_status r = M_COMPLETED"
  shows "money_of db' = money_of db \<and> completed c db'"
proof -
  have maps: "map (\<lambda>p. (p_id p, p_tenantId p, p_customerId p, p_invoiceId p, p_status p, p_amountMinor p, p_idempotencyKey p))
      (update_where q (\<lambda>p. p\<lparr>p_reference := x\<rparr>) ps) =
    map (\<lambda>p. (p_id p, p_tenantId p, p_customerId p, p_invoiceId p, p_status p, p_amountMinor p, p_idempotencyKey p)) ps"
    "map (\<lambda>g. (g_id g, g_paymentId g, g_grossMinor g, g_feeMinor g)) (update_where q' (\<lambda>g. g\<lparr>g_providerReference := y\<rparr>) gs) =
     map (\<lambda>g. (g_id g, g_paymentId g, g_grossMinor g, g_feeMinor g)) gs" for q x ps q' y gs
    by (rule map_update_where, simp)+
  have up: "money_of db' = money_of db \<and> completed c db'" if u: "upgrade_receipt r receipt raw db = Inr (r', db')" for receipt raw
  proof -
    obtain r1 db1 where s: "update_stk r (\<lambda>x. x\<lparr>sq_mpesaReceiptNumber := Some receipt, sq_rawCallback := Some raw\<rparr>) db = Inr (r1, db1)"
      using u by (auto simp: upgrade_receipt_def split: sum.splits)
    note sp = update_stk_spec [OF s assms(2)]
    have "completed c db1" using sp(2) assms(3) by (simp add: completed_def)
    moreover have "money_of db1 = money_of db" using sp(3) by (simp add: money_of_def)
    ultimately show ?thesis using u s
      by (auto simp: upgrade_receipt_def upgradeProvisionalReceipt_def update_payment_def money_of_def maps completed_def find_stk_def
          split: option.splits if_splits)
  qed
  have "completed c db" using assms(2,3) by (simp add: completed_def)
  moreover have "db' = db \<or> (\<exists>receipt raw. upgrade_receipt r receipt raw db = Inr (r', db'))"
    using assms(1) by (auto simp: settled_already_def split: option.splits if_splits)
  ultimately show ?thesis using up by blast
qed

lemma settled_request_stays:
  fixes db :: "'x stk_db_scheme"
  assumes "completed c db" and "completeStkRequest rawToken t c res db = Inr ((r', issued), db')"
  shows "issued = None \<and> money_of db' = money_of db \<and> completed c db'"
proof -
  obtain r where r: "find_stk c db = Some r" "sq_status r = M_COMPLETED"
    using assms(1) by (auto simp: completed_def split: option.splits)
  have shut: "\<not> isStkRequestOpen r" "\<not> paidAfterAll r res" using r(2) by (simp_all add: isStkRequestOpen_def paidAfterAll_def)
  obtain db1 where tx: "complete_stk_tx rawToken t c res db = Inr ((r', issued), db1)"
    and db': "db' = (if sq_status r' = M_COMPLETED then snd (restoreServiceAfterPayment t (sq_customerId r') db1) else db1)"
    using assms(2) by (auto simp: completeStkRequest_def split: sum.splits)
  from tx r shut have s: "settled_already r res db = Inr (r', db1)" "issued = None"
    by (auto simp: complete_stk_tx_def split: if_splits sum.splits)
  from settled_already_spec [OF s(1) r] have m: "money_of db1 = money_of db" "completed c db1" by auto
  obtain n db2 where rs: "restoreServiceAfterPayment t (sq_customerId r') db1 = (n, db2)" by fastforce
  have "money_of db2 = money_of db1" "completed c db2 = completed c db1"
    using money_of_restore [OF rs] completed_cong [of db2 db1] by simp_all
  then show ?thesis using m s(2) db' rs by auto
qed

lemma completed_deliveries:
  fixes db :: "'x stk_db_scheme"
  assumes "completed c db"
  shows "fst (deliveries t c ds db) = [] \<and> money_of (snd (deliveries t c ds db)) = money_of db \<and> completed c (snd (deliveries t c ds db))"
  using assms
proof (induction ds arbitrary: db)
  case Nil
  then show ?case by simp
next
  case (Cons d ds)
  obtain rawToken res where d: "d = (rawToken, res)" by fastforce
  show ?case
  proof (cases "completeStkRequest rawToken t c res db")
    case (Inl e)
    then show ?thesis using Cons by (simp add: d)
  next
    case (Inr out)
    obtain r issued db1 where out: "out = ((r, issued), db1)" by (metis prod.collapse)
    have one: "issued = None \<and> money_of db1 = money_of db \<and> completed c db1"
      by (rule settled_request_stays [OF Cons.prems Inr [unfolded out]])
    from Cons.IH [of db1] one show ?thesis by (simp add: d Inr out split: prod.splits)
  qed
qed

lemma collect_more: "collect_if_platform r inp db = Inr db' \<Longrightarrow> gateway_db.more db' = gateway_db.more db"
  by (auto simp: collect_if_platform_def dest: collection_more split: if_splits sum.splits)

lemma completing_completes:
  fixes db :: "'x stk_db_scheme"
  assumes "completeStkRequest rawToken t c res db = Inr ((r', issued), db')" and "sq_status r' = M_COMPLETED"
  shows "completed c db'"
proof -
  obtain db1 where tx: "complete_stk_tx rawToken t c res db = Inr ((r', issued), db1)"
    and db': "db' = snd (restoreServiceAfterPayment t (sq_customerId r') db1)"
    using assms by (auto simp: completeStkRequest_def split: sum.splits)
  obtain r where r: "find_stk c db = Some r" using tx by (auto simp: complete_stk_tx_def split: option.splits)
  have upd: "completed c d'" if "update_stk r f d = Inr (r', d')" "stkRequests d = stkRequests db"
      "\<And>x. sq_checkoutRequestId (f x) = sq_checkoutRequestId x" for f and d d' :: "'x stk_db_scheme"
  proof -
    have "find_stk c d = Some r" using r that(2) by (simp add: find_stk_def)
    from update_stk_spec [OF that(1) this that(3)] show ?thesis using assms(2) by (simp add: completed_def)
  qed
  have "completed c db1"
  proof (cases "\<not> isStkRequestOpen r \<and> \<not> paidAfterAll r res")
    case True
    then have s: "settled_already r res db = Inr (r', db1)"
      using tx r by (auto simp: complete_stk_tx_def split: if_splits sum.splits)
    show ?thesis
    proof (cases "sq_status r = M_COMPLETED")
      case True
      from settled_already_spec [OF s r True] show ?thesis by blast
    next
      case False
      then have "r' = r" using s by (auto simp: settled_already_def split: option.splits if_splits)
      then show ?thesis using False assms(2) by simp
    qed
  next
    case False
    consider (fail) "rs_resultCode res \<noteq> 0" | (guest) packageId where "rs_resultCode res = 0" "sq_hotspotPackageId r = Some packageId"
      | (account) "rs_resultCode res = 0" "sq_hotspotPackageId r = None" by fastforce
    then show ?thesis
    proof cases
      case fail
      then have "update_stk r (fail_request res) db = Inr (r', db1)"
        using tx r False by (auto simp: complete_stk_tx_def split: if_splits sum.splits)
      then show ?thesis by (rule upd) (simp_all add: fail_request_def)
    next
      case guest
      then have h: "complete_hotspot rawToken r packageId res db = Inr ((r', issued), db1)"
        using tx r False by (auto simp: complete_stk_tx_def split: if_splits)
      obtain pkg v d1 p d2 d3 f where h1: "issue_voucher (sq_tenantId r) pkg (randomVoucherCode rawToken) db = Inr (v, d1)"
        and h2: "guest_payment (sq_tenantId r) (sq_amountMinor r) (receipt_for res (sq_checkoutRequestId r)) d1 = Inr (p, d2)"
        and h3: "collect_if_platform r f d2 = Inr d3"
        and h4: "update_stk r (completed_request res (receipt_for res (sq_checkoutRequestId r)) (p_id p) (Some (randomVoucherCode rawToken))) d3 = Inr (r', db1)"
        using h by (auto simp: complete_hotspot_def Let_def split: option.splits sum.splits)
      have "stkRequests d1 = stkRequests db" using h1 by (auto simp: issue_voucher_def Let_def split: if_splits)
      moreover have "stkRequests d2 = stkRequests d1" using h2 by (auto simp: guest_payment_def Let_def split: if_splits)
      moreover have "stkRequests d3 = stkRequests d2" by (rule stk_of_more(2) [OF collect_more [OF h3]])
      ultimately show ?thesis by (intro upd [OF h4]) (simp_all add: completed_request_def)
    next
      case account
      then have a: "complete_account r res db = Inr ((r', issued), db1)"
        using tx r False by (auto simp: complete_stk_tx_def split: if_splits)
      obtain paid d1 d2 f where a1: "pay_invoice_or_wallet r (receipt_for res (sq_checkoutRequestId r)) db = Inr (paid, d1)"
        and a2: "collect_if_platform r f d1 = Inr d2"
        and a3: "update_stk r (completed_request res (receipt_for res (sq_checkoutRequestId r)) (p_id (res_payment paid)) None) d2 = Inr (r', db1)"
        using a by (auto simp: complete_account_def Let_def split: sum.splits)
      have "stkRequests d1 = stkRequests db" using pay_grows [OF a1] by (intro stk_of_more(1)) simp
      moreover have "stkRequests d2 = stkRequests d1" by (rule stk_of_more(2) [OF collect_more [OF a2]])
      ultimately show ?thesis by (intro upd [OF a3]) (simp_all add: completed_request_def)
    qed
  qed
  obtain n db2 where rs: "restoreServiceAfterPayment t (sq_customerId r') db1 = (n, db2)" by fastforce
  have "completed c db2 = completed c db1" using money_of_restore [OF rs] completed_cong [of db2 db1] by simp
  then show ?thesis using \<open>completed c db1\<close> db' rs by simp
qed

text \<open>
  C3. A push request is settled once: after the result that completes it, any number of further
  results for it, in any order, from Safaricom or from status queries, succeeding or failing, leave
  every payment, invoice, receipt, wallet, collected transaction, ledger entry and voucher as they
  were, send no voucher text, and leave the request completed.
\<close>

theorem push_request_settles_once:
  fixes db :: "'x stk_db_scheme"
  assumes "completeStkRequest rawToken t c res db = Inr ((r, issued), db')" and "sq_status r = M_COMPLETED"
  shows "fst (deliveries t2 c later db') = [] \<and> money_of (snd (deliveries t2 c later db')) = money_of db'
    \<and> completed c (snd (deliveries t2 c later db'))"
  by (rule completed_deliveries [OF completing_completes [OF assms]])

section \<open>What a completing result records\<close>

text \<open>The money on the books: paid on invoices, held in wallets, and paid by guests who have neither.\<close>

definition wallets_total :: "'x billing_db_scheme \<Rightarrow> minor" where
  "wallets_total db = sum_list (map w_balanceMinor (wallets db))"

definition guests_total :: "payment list \<Rightarrow> minor" where
  "guests_total ps = sum_where (\<lambda>p. p_status p = P_COMPLETED \<and> p_customerId p = None) p_amountMinor ps"

definition recorded_total :: "'x billing_db_scheme \<Rightarrow> minor" where
  "recorded_total db = sum_list (map i_amountPaidMinor (invoices db)) + wallets_total db + guests_total (payments db)"

lemma wallets_total_over:
  assumes ok: "wallet_ok db" and A: "finite A" "w_customerId ` set (wallets db) \<subseteq> A"
  shows "wallets_total db = (\<Sum>c \<in> A. walletBalance db c)"
proof -
  have d: "distinct (map w_customerId (wallets db))" using ok by (simp add: wallet_ok_def)
  have "wallets_total db = (\<Sum>w \<in> set (wallets db). w_balanceMinor w)"
    unfolding wallets_total_def using d by (simp add: sum_list_distinct_conv_sum_set distinct_map)
  also have "\<dots> = (\<Sum>w \<in> set (wallets db). walletBalance db (w_customerId w))"
    by (rule sum.cong) (simp_all add: walletBalance_def find_key_unique [OF d])
  also have "\<dots> = (\<Sum>c \<in> w_customerId ` set (wallets db). walletBalance db c)"
    using d by (simp add: sum.reindex distinct_map)
  also have "\<dots> = (\<Sum>c \<in> A. walletBalance db c)"
  proof (rule sum.mono_neutral_left [OF A])
    show "\<forall>c \<in> A - w_customerId ` set (wallets db). walletBalance db c = 0"
      by (auto simp: walletBalance_def find_none_image)
  qed
  finally show ?thesis .
qed

lemma wallets_total_step:
  assumes "wallet_ok db" and "wallet_ok db'" and "walletBalance db' = (walletBalance db)(c := walletBalance db c + a)"
  shows "wallets_total db' = wallets_total db + a"
proof -
  let ?A = "insert c (w_customerId ` set (wallets db) \<union> w_customerId ` set (wallets db'))"
  have "(\<Sum>x \<in> ?A. walletBalance db' x) = (\<Sum>x \<in> ?A. walletBalance db x) + a"
    unfolding assms(3) by (subst (1 2) sum.remove [of _ c]) (auto intro!: sum.cong)
  moreover have "w_customerId ` set (wallets db) \<subseteq> ?A" "w_customerId ` set (wallets db') \<subseteq> ?A" by blast+
  ultimately show ?thesis
    using wallets_total_over [OF assms(1), of ?A] wallets_total_over [OF assms(2), of ?A] by simp
qed

definition same_gateway :: "'x gateway_db_scheme \<Rightarrow> 'x gateway_db_scheme \<Rightarrow> bool" where
  "same_gateway db db' \<longleftrightarrow> ledgerEntries db' = ledgerEntries db \<and> gatewayTxns db' = gatewayTxns db
     \<and> gatewayRefunds db' = gatewayRefunds db \<and> payouts db' = payouts db"

lemma same_gateway_more: "billing_db.more db' = billing_db.more db \<Longrightarrow> same_gateway db db'"
  by (cases db; cases db'; simp add: same_gateway_def)

lemma gateway_ok_later:
  "gateway_ok db \<Longrightarrow> same_gateway db db' \<Longrightarrow> nextId db \<le> nextId db' \<Longrightarrow> gateway_ok db'"
  by (auto simp: gateway_ok_def same_gateway_def intro: journal_ok_mono txns_ok_mono refunds_ok_mono payouts_ok_mono)

lemma balance_later: "same_gateway db db' \<Longrightarrow> getTenantBalance t db' = getTenantBalance t db"
  by (simp add: same_gateway_def getTenantBalance_def Let_def)

lemma collection_keeps_books:
  assumes "collect_if_platform r inp db = Inr db'"
  shows "invoices db' = invoices db \<and> payments db' = payments db \<and> receipts db' = receipts db \<and> wallets db' = wallets db
    \<and> walletTxns db' = walletTxns db \<and> nextId db \<le> nextId db'"
proof -
  have entry: "invoices d' = invoices d \<and> payments d' = payments d \<and> receipts d' = receipts d \<and> wallets d' = wallets d
      \<and> walletTxns d' = walletTxns d \<and> nextId d' = nextId d"
    if "appendLedgerEntry e d = Inr (wrote, d')" for e wrote and d d' :: "'a gateway_db_scheme"
    using append_db(1) [OF that] by simp
  show ?thesis
    using assms unfolding collect_if_platform_def recordPlatformCollection_def nextTransactionNumber_def insert_gateway_txn_def Let_def
    by (auto dest!: entry split: if_splits option.splits sum.splits)
qed

lemma collection_txns:
  assumes "collect_if_platform r inp db = Inr db'"
  shows "\<forall>g \<in> set (gatewayTxns db'). g \<in> set (gatewayTxns db) \<or> g_paymentId g = ci_paymentId inp"
proof -
  have entry: "gatewayTxns d' = gatewayTxns d" if "appendLedgerEntry e d = Inr (wrote, d')" for e wrote and d d' :: "'a gateway_db_scheme"
    using append_db(1) [OF that] by simp
  show ?thesis
    using assms unfolding collect_if_platform_def recordPlatformCollection_def nextTransactionNumber_def insert_gateway_txn_def Let_def
    by (auto simp: new_gateway_txn_def dest!: entry split: if_splits option.splits sum.splits)
qed

lemma recorded_total_cong:
  "invoices db' = invoices db \<Longrightarrow> payments db' = payments db \<Longrightarrow> wallets db' = wallets db \<Longrightarrow> recorded_total db' = recorded_total db"
  by (simp add: recorded_total_def wallets_total_def)

lemma invoice_records:
  assumes ok: "books_ok db" "wallet_ok db" and run: "recordPaymentForInvoiceCore t inp db = Inr (out, db')"
    and key: "in_idempotencyKey inp \<notin> p_idempotencyKey ` set (payments db)" and m: "in_method inp \<noteq> WALLET"
  shows "books_ok db' \<and> wallet_ok db' \<and> recorded_total db' = recorded_total db + in_amountMinor inp \<and> \<not> res_wasAlreadyProcessed out"
proof -
  have new: "\<not> res_wasAlreadyProcessed out"
    using run find_none_image [OF key]
    by (auto simp: recordPaymentForInvoiceCore_def post_payment_def Let_def split: if_splits option.splits sum.splits)
  obtain bill where b: "find_invoice_in t (in_invoiceId inp) db = Some bill" "payments db' = payments db @ [res_payment out]"
      "p_customerId (res_payment out) = Some (i_customerId bill)"
      "walletBalance db' = (walletBalance db)(i_customerId bill := walletBalance db (i_customerId bill)
          + (in_amountMinor inp - p_amountMinor (res_payment out)))"
    and inv: "\<exists>st paid. invoices db' = update_where (\<lambda>i. i_id i = i_id bill)
              (\<lambda>i. i\<lparr>i_amountPaidMinor := i_amountPaidMinor bill + p_amountMinor (res_payment out), i_status := st, i_paidAt := paid\<rparr>) (invoices db)"
    and ok': "books_ok db'" "wallet_ok db'"
    using record_spec [OF ok run new] m by (auto simp: Let_def)
  have mem: "bill \<in> set (invoices db)" and d: "distinct (map i_id (invoices db))"
    using find_invoice_inD [OF b(1)] ok(1) by (simp_all add: books_ok_def invoices_ok_def)
  from inv sum_list_update_where [OF d mem, of i_amountPaidMinor]
  have "sum_list (map i_amountPaidMinor (invoices db')) = sum_list (map i_amountPaidMinor (invoices db)) + p_amountMinor (res_payment out)"
    by fastforce
  moreover have "guests_total (payments db') = guests_total (payments db)" using b(2,3) by (simp add: guests_total_def)
  moreover note wallets_total_step [OF ok(2) ok'(2) b(4)]
  ultimately show ?thesis using ok' new by (simp add: recorded_total_def)
qed

lemma topup_records:
  assumes ok: "books_ok db" "wallet_ok db" and run: "topUpWalletCore t inp db = Inr (out, db')"
    and key: "tu_idempotencyKey inp \<notin> p_idempotencyKey ` set (payments db)"
  shows "books_ok db' \<and> wallet_ok db' \<and> recorded_total db' = recorded_total db + tu_amountMinor inp \<and> \<not> res_wasAlreadyProcessed out"
proof -
  have new: "\<not> res_wasAlreadyProcessed out" "p_customerId (res_payment out) \<noteq> None"
    using run find_none_image [OF key] by (auto simp: topUpWalletCore_def Let_def split: if_splits option.splits sum.splits)
  note s = topUp_new [OF ok run new(1)]
  have "guests_total (payments db') = guests_total (payments db)" using s new(2) by (auto simp: guests_total_def)
  moreover have "wallets_total db' = wallets_total db + tu_amountMinor inp"
    by (rule wallets_total_step [OF ok(2), of _ "tu_customerId inp"]) (use s in simp_all)
  ultimately show ?thesis using s new(1) by (simp add: recorded_total_def)
qed

lemma pay_records:
  assumes ok: "books_ok db" "wallet_ok db" and run: "pay_invoice_or_wallet r receipt db = Inr (out, db')"
    and key: "receipt \<notin> p_idempotencyKey ` set (payments db)"
  shows "books_ok db' \<and> wallet_ok db' \<and> recorded_total db' = recorded_total db + sq_amountMinor r \<and> \<not> res_wasAlreadyProcessed out"
proof (cases "invoice_still_payable r db")
  case None
  with run topup_records [OF ok] key show ?thesis by (fastforce simp: pay_invoice_or_wallet_def)
next
  case (Some i)
  with run invoice_records [OF ok] key show ?thesis by (fastforce simp: pay_invoice_or_wallet_def)
qed

lemma guest_row_records:
  assumes ok: "books_ok db" "wallet_ok db" and a: "0 \<le> p_amountMinor p" and key: "p_idempotencyKey p \<notin> p_idempotencyKey ` set (payments db)"
    and p: "p_id p = nextId db" "p_customerId p = None" "p_invoiceId p = None" "p_status p = P_COMPLETED"
    and db': "db' = db\<lparr>nextId := nextId db + 1, payments := payments db @ [p]\<rparr>"
  shows "books_ok db' \<and> wallet_ok db' \<and> recorded_total db' = recorded_total db + p_amountMinor p
    \<and> billing_db.more db' = billing_db.more db \<and> nextId db < nextId db'"
proof -
  have tot: "applied_total i (payments db') = applied_total i (payments db)" for i
    using p by (simp add: db' applied_total_append pays_for_def)
  have b: "invoices_ok db" "numbers_dense r_tenantId r_receiptNumber (numbered ''RCT-'' 7) (receipts db)"
    "payments_ok (nextId db) (payments db) (receipts db)" "paid_ok (invoices db) (payments db)"
    using ok(1) by (simp_all add: books_ok_def)
  have "invoices_ok db'" by (rule invoices_ok_cong [OF b(1)]) (simp_all add: db')
  moreover have "payments_ok (nextId db') (payments db') (receipts db')"
    using payments_ok_mono [OF b(3), of "nextId db + 1"] b(3) p a key by (auto simp: payments_ok_def db')
  moreover have "paid_ok (invoices db') (payments db')"
  proof -
    have "invoices db' = invoices db" by (simp add: db')
    then show ?thesis using b(4) unfolding paid_ok_def tot by (rule ssubst)
  qed
  moreover have "wallet_ok db'" by (rule wallet_ok_cong [OF ok(2)]) (simp_all add: db')
  ultimately show ?thesis using b(2) p by (simp add: books_ok_def db' recorded_total_def wallets_total_def guests_total_def)
qed

lemma guest_records:
  assumes ok: "books_ok db" "wallet_ok db" and run: "guest_payment t a receipt db = Inr (p, db')" and a: "0 \<le> a"
  shows "books_ok db' \<and> wallet_ok db' \<and> recorded_total db' = recorded_total db + a \<and> p_id p = nextId db
    \<and> billing_db.more db' = billing_db.more db \<and> nextId db < nextId db'"
proof -
  have "receipt \<notin> p_idempotencyKey ` set (payments db)" "db' = db\<lparr>nextId := nextId db + 1, payments := payments db @ [p]\<rparr>"
    and p: "p_id p = nextId db" "p_customerId p = None" "p_invoiceId p = None" "p_amountMinor p = a" "p_status p = P_COMPLETED"
      "p_idempotencyKey p = receipt"
    using run by (auto simp: guest_payment_def Let_def split: if_splits)
  then show ?thesis using guest_row_records [OF ok, of p db'] a by simp
qed

text \<open>The gateway's transactions are about payments the database has numbered.\<close>

definition payments_known :: "'x gateway_db_scheme \<Rightarrow> bool" where
  "payments_known db \<longleftrightarrow> (\<forall>g \<in> set (gatewayTxns db). g_paymentId g < nextId db)"

lemma collect_records:
  fixes db :: "'x gateway_db_scheme"
  assumes ok: "gateway_ok db" and new: "ci_paymentId inp \<notin> g_paymentId ` set (gatewayTxns db)"
    and run: "collect_if_platform r inp db = Inr db'"
  shows "gateway_ok db' \<and> collectedMinor (getTenantBalance (ci_tenantId inp) db') =
    collectedMinor (getTenantBalance (ci_tenantId inp) db) + (if sq_collectedBy r = PLATFORM then ci_grossMinor inp else 0)"
proof (cases "sq_collectedBy r = PLATFORM")
  case False
  then show ?thesis using ok run by (simp add: collect_if_platform_def)
next
  case True
  then obtain g wrote where c: "recordPlatformCollection inp db = Inr ((g, wrote), db')"
    using run by (auto simp: collect_if_platform_def split: sum.splits)
  have "wrote" using c find_none_image [OF new]
    by (auto simp: recordPlatformCollection_def Let_def split: sum.splits prod.splits if_splits)
  with c have c: "recordPlatformCollection inp db = Inr ((g, True), db')" by simp
  show ?thesis using collection_keeps_gateway_ok [OF ok c] collection_balance(1) [OF ok c] True by simp
qed

definition delivery_records :: "stk_request \<Rightarrow> 'x stk_db_scheme \<Rightarrow> 'x stk_db_scheme \<Rightarrow> bool" where
  "delivery_records r db db' \<longleftrightarrow> books_ok db' \<and> wallet_ok db' \<and> gateway_ok db' \<and> payments_known db'
     \<and> recorded_total db' = recorded_total db + sq_amountMinor r
     \<and> collectedMinor (getTenantBalance (sq_tenantId r) db') = collectedMinor (getTenantBalance (sq_tenantId r) db)
         + (if sq_collectedBy r = PLATFORM then sq_amountMinor r else 0)"

lemma delivery_tail:
  fixes db d1 d2 d3 :: "'x stk_db_scheme"
  assumes gw: "gateway_ok db" "payments_known db"
    and d1: "books_ok d1" "wallet_ok d1" "recorded_total d1 = recorded_total db + sq_amountMinor r"
      "same_gateway db d1" "nextId db \<le> nextId d1"
    and c: "collect_if_platform r inp d1 = Inr d2" "nextId db \<le> ci_paymentId inp" "ci_grossMinor inp = sq_amountMinor r"
      "ci_tenantId inp = sq_tenantId r" "ci_paymentId inp < nextId d1"
    and u: "update_stk r f d2 = Inr (r', d3)"
  shows "delivery_records r db d3"
proof -
  have new: "ci_paymentId inp \<notin> g_paymentId ` set (gatewayTxns d1)"
    using gw(2) c(2) d1(4) by (auto simp: payments_known_def same_gateway_def)
  note k = collection_keeps_books [OF c(1)] and col = collect_records [OF gateway_ok_later [OF gw(1) d1(4,5)] new c(1)]
  obtain rows where d3: "d3 = d2\<lparr>stkRequests := rows\<rparr>" using u by (auto simp: update_stk_def Let_def split: if_splits)
  have "books_ok d3" by (rule books_ok_cong [OF d1(1)]) (use k d3 in simp_all)
  moreover have "wallet_ok d3" by (rule wallet_ok_cong [OF d1(2)]) (use k d3 in simp_all)
  moreover have "recorded_total d3 = recorded_total d1" by (rule recorded_total_cong) (use k d3 in simp_all)
  moreover have "same_gateway d2 d3" "nextId d2 \<le> nextId d3" by (simp_all add: d3 same_gateway_def)
  moreover note gateway_ok_later [OF conjunct1 [OF col] this] balance_later [OF this(1)]
  moreover have "payments_known d3"
    using collection_txns [OF c(1)] gw(2) d1(4,5) c(2,5) k by (fastforce simp: payments_known_def same_gateway_def d3)
  ultimately show ?thesis
    using col c(3,4) d1(3) balance_later [OF d1(4)] by (simp add: delivery_records_def)
qed

lemma delivery_tx:
  fixes db db' :: "'x stk_db_scheme"
  assumes ok: "books_ok db" "wallet_ok db" and gw: "gateway_ok db" "payments_known db"
    and r: "find_stk c db = Some r" "isStkRequestOpen r \<or> paidAfterAll r res" "rs_resultCode res = 0" "0 \<le> sq_amountMinor r"
    and key: "receipt_for res (sq_checkoutRequestId r) \<notin> p_idempotencyKey ` set (payments db)"
    and tx: "complete_stk_tx rawToken t c res db = Inr ((r', issued), db')"
  shows "sq_status r' = M_COMPLETED \<and> delivery_records r db db'"
proof (cases "sq_hotspotPackageId r")
  case (Some packageId)
  then have h: "complete_hotspot rawToken r packageId res db = Inr ((r', issued), db')"
    using tx r by (auto simp: complete_stk_tx_def split: if_splits)
  let ?f = "completed_request res (receipt_for res (sq_checkoutRequestId r))"
  obtain pkg v d1 p d2 d3 desc where h1: "issue_voucher (sq_tenantId r) pkg (randomVoucherCode rawToken) db = Inr (v, d1)"
    and h2: "guest_payment (sq_tenantId r) (sq_amountMinor r) (receipt_for res (sq_checkoutRequestId r)) d1 = Inr (p, d2)"
    and h3: "collect_if_platform r desc d2 = Inr d3" "ci_paymentId desc = p_id p" "ci_grossMinor desc = p_amountMinor p" "ci_tenantId desc = sq_tenantId r"
    and h4: "update_stk r (?f (p_id p) (Some (randomVoucherCode rawToken))) d3 = Inr (r', db')"
    using h by (fastforce simp: complete_hotspot_def Let_def split: option.splits sum.splits)
  have d1: "invoices d1 = invoices db" "payments d1 = payments db" "receipts d1 = receipts db" "wallets d1 = wallets db"
    "walletTxns d1 = walletTxns db" "nextId db \<le> nextId d1"
    using h1 by (auto simp: issue_voucher_def Let_def split: if_splits)
  have m: "same_gateway db d1" using h1 by (auto simp: issue_voucher_def Let_def same_gateway_def split: if_splits)
  have b1: "books_ok d1" by (rule books_ok_cong [OF ok(1)]) (use d1 in simp_all)
  have w1: "wallet_ok d1" by (rule wallet_ok_cong [OF ok(2)]) (use d1 in simp_all)
  have t1: "recorded_total d1 = recorded_total db" by (rule recorded_total_cong) (use d1 in simp_all)
  note gp = guest_records [OF b1 w1 h2 r(4)]
  have amt: "p_amountMinor p = sq_amountMinor r" using h2 by (auto simp: guest_payment_def Let_def split: if_splits)
  have "same_gateway db d2" using m same_gateway_more [of d2 d1] gp by (simp add: same_gateway_def)
  then have "delivery_records r db db'"
    by (intro delivery_tail [OF gw _ _ _ _ _ h3(1) _ _ _ _ h4]) (use gp d1 t1 h3 amt in simp_all)
  moreover have "r' = ?f (p_id p) (Some (randomVoucherCode rawToken)) r" using h4 by (auto simp: update_stk_def Let_def split: if_splits)
  ultimately show ?thesis by (simp add: completed_request_def)
next
  case None
  then have a: "complete_account r res db = Inr ((r', issued), db')"
    using tx r by (auto simp: complete_stk_tx_def split: if_splits)
  let ?f = "completed_request res (receipt_for res (sq_checkoutRequestId r))"
  obtain paid d1 d2 desc where a1: "pay_invoice_or_wallet r (receipt_for res (sq_checkoutRequestId r)) db = Inr (paid, d1)"
    and a2: "collect_if_platform r desc d1 = Inr d2" "ci_paymentId desc = p_id (res_payment paid)" "ci_grossMinor desc = sq_amountMinor r" "ci_tenantId desc = sq_tenantId r"
    and a3: "update_stk r (?f (p_id (res_payment paid)) None) d2 = Inr (r', db')"
    using a by (fastforce simp: complete_account_def Let_def split: sum.splits)
  note p = pay_records [OF ok a1 key] and gr = pay_grows [OF a1]
  have "delivery_records r db db'"
    by (rule delivery_tail [OF gw _ _ _ _ _ a2(1) _ _ _ _ a3]) (use p gr a2 same_gateway_more [of d1 db] in simp_all)
  moreover have "r' = ?f (p_id (res_payment paid)) None r" using a3 by (auto simp: update_stk_def Let_def split: if_splits)
  ultimately show ?thesis by (simp add: completed_request_def)
qed

text \<open>
  C2. A completing result puts exactly the amount that was requested on the books, whatever the
  callback's metadata claims, on every path (an invoice payment, its overpayment into the wallet, a
  wallet top-up, a guest's voucher): the request ends COMPLETED, the money recorded grows by the
  requested amount, the platform owes the tenant that amount more exactly when the platform
  collected the push, and the books, the wallets and the gateway keep their invariants.
\<close>

theorem completing_result_records_request:
  fixes db :: "'x stk_db_scheme"
  assumes "books_ok db" "wallet_ok db" "gateway_ok db" "payments_known db"
    and r: "find_stk c db = Some r" "isStkRequestOpen r \<or> paidAfterAll r res" "rs_resultCode res = 0" "0 \<le> sq_amountMinor r"
    and "receipt_for res (sq_checkoutRequestId r) \<notin> p_idempotencyKey ` set (payments db)"
    and run: "completeStkRequest rawToken t c res db = Inr ((r', issued), db')"
  shows "sq_status r' = M_COMPLETED \<and> books_ok db' \<and> wallet_ok db' \<and> gateway_ok db' \<and> payments_known db'
    \<and> recorded_total db' = recorded_total db + sq_amountMinor r
    \<and> collectedMinor (getTenantBalance (sq_tenantId r) db') = collectedMinor (getTenantBalance (sq_tenantId r) db)
        + (if sq_collectedBy r = PLATFORM then sq_amountMinor r else 0)"
proof -
  obtain db1 where tx: "complete_stk_tx rawToken t c res db = Inr ((r', issued), db1)"
    and db': "db' = (if sq_status r' = M_COMPLETED then snd (restoreServiceAfterPayment t (sq_customerId r') db1) else db1)"
    using run by (auto simp: completeStkRequest_def split: sum.splits)
  have d: "sq_status r' = M_COMPLETED" "delivery_records r db db1" using delivery_tx [OF assms(1-9) tx] by blast+
  obtain n db2 where rs: "restoreServiceAfterPayment t (sq_customerId r') db1 = (n, db2)" by fastforce
  note f = restore_frame [OF rs]
  have g: "same_gateway db1 db2" "nextId db1 \<le> nextId db2" using same_gateway_more [OF f(7)] f(6) by simp_all
  have "books_ok db2" by (rule books_ok_cong [of db1]) (use d f in \<open>simp_all add: delivery_records_def\<close>)
  moreover have "wallet_ok db2" by (rule wallet_ok_cong [of db1]) (use d f in \<open>simp_all add: delivery_records_def\<close>)
  moreover have "recorded_total db2 = recorded_total db1" by (rule recorded_total_cong) (use f in simp_all)
  moreover have "gateway_ok db2" by (rule gateway_ok_later [OF _ g]) (use d in \<open>simp add: delivery_records_def\<close>)
  moreover have "payments_known db2" using d g by (simp add: delivery_records_def payments_known_def same_gateway_def f(6))
  moreover have "db' = db2" using db' d rs by simp
  ultimately show ?thesis using d balance_later [OF g(1)] by (simp add: delivery_records_def)
qed

text \<open>A guest's push for the example package, collected by the platform, and Safaricom's answer.\<close>

definition sample_push :: stk_request where
  "sample_push = \<lparr>sq_id = 11, sq_tenantId = 1, sq_customerId = None, sq_invoiceId = None, sq_hotspotPackageId = Some 5,
     sq_hotspotVoucherCode = None, sq_phone = ''254700000001'', sq_amountMinor = 1000, sq_checkoutRequestId = ''ws_CO_1'',
     sq_status = M_PENDING, sq_resultCode = None, sq_resultDesc = None, sq_mpesaReceiptNumber = None, sq_paymentId = None,
     sq_collectedBy = PLATFORM, sq_paymentReferenceId = None, sq_rawCallback = None\<rparr>"

definition push_db :: stk_db where
  "push_db = hotspot_db.extend example_hotspot \<lparr>stkRequests = [sample_push], donations = []\<rparr>"

definition sample_answer :: stk_result where
  "sample_answer = \<lparr>rs_resultCode = 0, rs_resultDesc = ''ok'', rs_metadata = Some \<lparr>md_amountMinor = Some 99900,
     md_mpesaReceiptNumber = Some ''QGR7'', md_phone = None\<rparr>, rs_raw = ''{}''\<rparr>"

lemma push_db_fields [simp]:
  "clock push_db = 4000000" "nextId push_db = 20" "hotspotPackages push_db = [example_package]" "customers push_db = []" "tenants push_db = []"
  "vouchers push_db = [example_voucher]" "payments push_db = []" "invoices push_db = []" "receipts push_db = []" "wallets push_db = []"
  "walletTxns push_db = []" "gatewayTxns push_db = []" "ledgerEntries push_db = []" "gatewayRefunds push_db = []" "payouts push_db = []"
  "stkRequests push_db = [sample_push]" "gsettings push_db = default_settings\<lparr>feePercentBps := 200\<rparr>"
  by (simp_all add: push_db_def example_hotspot_def empty_hotspot_def hotspot_db.defs gateway_db.defs billing_db.defs empty_db_def empty_gateway_def)

lemma push_db_ok: "books_ok push_db" "wallet_ok push_db" "gateway_ok push_db" "payments_known push_db"
proof -
  show "payments_known push_db" "wallet_ok push_db" by (simp_all add: payments_known_def wallet_ok_def)
  show "books_ok push_db" by (simp add: books_ok_def invoices_ok_def payments_ok_def paid_ok_def numbers_dense_def count_where_def)
  show "gateway_ok push_db"
    by (simp add: gateway_ok_def journal_ok_def txns_ok_def refunds_ok_def payouts_ok_def
        linked_def collected_sums_def refund_sums_def payout_sums_def covered_def sum_payouts_def txn_sum_def refund_sum_def)
qed

lemma first_collection:
  fixes db :: "'x gateway_db_scheme"
  assumes "gatewayTxns db = []" "ledgerEntries db = []" "gsettings db = default_settings\<lparr>feePercentBps := 200\<rparr>" "ci_grossMinor inp = 1000" "tenants db = []"
  shows "\<exists>g db'. recordPlatformCollection inp db = Inr ((g, True), db')"
proof -
  have "calculateFee 1000 \<lparr>percentBps = 200, fixedMinor = 0\<rparr> = Inr \<lparr>fb_grossMinor = 1000, fb_feeMinor = 20,
      fb_netMinor = 980, fb_percentBps = 200, fb_fixedMinor = 0\<rparr>"
    by (simp add: calculateFee_def assertWholeNonNegative_def is_safe_integer_def max_safe_integer_def)
  then show ?thesis
    using assms
    by (simp add: recordPlatformCollection_def getEffectiveFeeRule_def nextTransactionNumber_def insert_gateway_txn_def
        appendLedgerEntry_def new_gateway_txn_def getPlatformEnvironment_def
        collection_entry_def collection_fee_entry_def entry_key_def is_safe_integer_def
        max_safe_integer_def default_settings_def Let_def)
qed

lemma sample_push_completes:
  "\<exists>r issued db'. completeStkRequest ''abcdefghijk'' 1 ''ws_CO_1'' sample_answer push_db = Inr ((r, issued), db') \<and> sq_status r = M_COMPLETED"
proof -
  have f: "find_stk ''ws_CO_1'' push_db = Some sample_push" by (simp add: find_stk_def sample_push_def)
  have rc: "receipt_for sample_answer ''ws_CO_1'' = ''QGR7''" by (simp add: receipt_for_def real_receipt_def sample_answer_def)
  have code: "find_voucher 1 ''BCDEFGHJ'' push_db = None" by (simp add: find_voucher_def example_voucher_def)
  obtain v d1 where i: "issue_voucher 1 example_package ''BCDEFGHJ'' push_db = Inr (v, d1)"
    and d1: "payments d1 = []" "gatewayTxns d1 = []" "ledgerEntries d1 = []" "gsettings d1 = default_settings\<lparr>feePercentBps := 200\<rparr>"
      "stkRequests d1 = [sample_push]" "tenants d1 = []"
    using code by (simp add: issue_voucher_def Let_def)
  obtain p d2 where g: "guest_payment 1 1000 ''QGR7'' d1 = Inr (p, d2)" and p: "p_amountMinor p = 1000"
    and d2: "gatewayTxns d2 = []" "ledgerEntries d2 = []" "gsettings d2 = default_settings\<lparr>feePercentBps := 200\<rparr>" "stkRequests d2 = [sample_push]" "tenants d2 = []"
    using d1 by (simp add: guest_payment_def Let_def)
  define inp where "inp = \<lparr>ci_tenantId = 1, ci_paymentId = p_id p, ci_grossMinor = p_amountMinor p, ci_currency = p_currency p,
      ci_channel = MPESA_STK, ci_providerReference = ''QGR7'', ci_providerRequestId = Some ''ws_CO_1'',
      ci_payerPhone = Some ''254700000001'', ci_customerId = None, ci_invoiceId = None, ci_paymentReferenceId = None,
      ci_description = ''Hotspot voucher sale''\<rparr>"
  obtain x d3 where c: "recordPlatformCollection inp d2 = Inr (x, d3)"
    using first_collection [OF d2(1-3), of inp] p d2(5) by (auto simp: inp_def)
  have d3: "stkRequests d3 = [sample_push]" using stk_of_more(2) [OF collection_more [OF c]] d2(4) by simp
  have k: "collect_if_platform sample_push inp d2 = Inr d3" using c by (simp add: collect_if_platform_def sample_push_def)
  have "complete_stk_tx ''abcdefghijk'' 1 ''ws_CO_1'' sample_answer push_db =
      complete_hotspot ''abcdefghijk'' sample_push 5 sample_answer push_db"
    by (simp add: complete_stk_tx_def f) (simp add: sample_push_def sample_answer_def isStkRequestOpen_def)
  moreover have "find_hotspot_package 5 push_db = Some example_package"
    by (simp add: find_hotspot_package_def example_package_def)
  moreover have "\<exists>r d4. update_stk sample_push (completed_request sample_answer ''QGR7'' (p_id p) (Some ''BCDEFGHJ'')) d3 = Inr (r, d4)
      \<and> sq_status r = M_COMPLETED"
    using d3 by (simp add: update_stk_def Let_def completed_request_def)
  ultimately show ?thesis
    using i g k rc unfolding inp_def
    by (auto simp: completeStkRequest_def complete_hotspot_def Let_def example_draw sample_push_def split: sum.splits)
qed

theorem completing_result_records_request_witness:
  "\<exists>r issued db'. completeStkRequest ''abcdefghijk'' 1 ''ws_CO_1'' sample_answer push_db = Inr ((r, issued), db')
     \<and> recorded_total db' = 1000 \<and> collectedMinor (getTenantBalance 1 db') = 1000"
proof -
  obtain r issued db' where run: "completeStkRequest ''abcdefghijk'' 1 ''ws_CO_1'' sample_answer push_db = Inr ((r, issued), db')"
    using sample_push_completes by blast
  have f: "find_stk ''ws_CO_1'' push_db = Some sample_push" by (simp add: find_stk_def sample_push_def)
  have h: "isStkRequestOpen sample_push \<or> paidAfterAll sample_push sample_answer" "rs_resultCode sample_answer = 0"
    "0 \<le> sq_amountMinor sample_push"
    "receipt_for sample_answer (sq_checkoutRequestId sample_push) \<notin> p_idempotencyKey ` set (payments push_db)"
    by (simp_all add: isStkRequestOpen_def sample_push_def sample_answer_def)
  have z: "recorded_total push_db = 0" "collectedMinor (getTenantBalance 1 push_db) = 0"
    by (simp_all add: recorded_total_def wallets_total_def guests_total_def getTenantBalance_def Let_def)
  from completing_result_records_request [OF push_db_ok f h run] z run show ?thesis
    by (auto simp: sample_push_def)
qed

theorem push_request_settles_once_witness:
  "\<exists>r issued db'. completeStkRequest ''abcdefghijk'' 1 ''ws_CO_1'' sample_answer push_db = Inr ((r, issued), db')
     \<and> money_of (snd (deliveries 1 ''ws_CO_1'' [(''lmnopqrstuv'', sample_answer), (''x'', sample_answer\<lparr>rs_resultCode := 1\<rparr>)] db')) = money_of db'"
proof -
  obtain r issued db' where run: "completeStkRequest ''abcdefghijk'' 1 ''ws_CO_1'' sample_answer push_db = Inr ((r, issued), db')"
    "sq_status r = M_COMPLETED"
    using sample_push_completes by blast
  from push_request_settles_once [OF run] run(1) show ?thesis by blast
qed

section \<open>A payment that is turned away\<close>

text \<open>
  A push whose customer was deleted before the callback, with no invoice left to pay: the result is
  refused and nothing is recorded, although Safaricom has taken the money.
\<close>

lemma deleted_customers_money_is_refused:
  assumes r: "find_stk c db = Some r" "sq_tenantId r = t" "isStkRequestOpen r" "rs_resultCode res = 0" "sq_hotspotPackageId r = None"
    and pay: "invoice_still_payable r db = None" "sq_customerId r = Some cust" "0 < sq_amountMinor r"
    and key: "receipt_for res (sq_checkoutRequestId r) \<notin> p_idempotencyKey ` set (payments db)"
    and gone: "\<forall>x \<in> set (customers db). c_id x = cust \<longrightarrow> c_deletedAt x \<noteq> None"
  shows "completeStkRequest rawToken t c res db = Inl (NotFoundError ''Customer'')"
proof -
  have "List.find (\<lambda>x. c_id x = cust \<and> c_tenantId x = t \<and> c_deletedAt x = None) (customers db) = None"
    using gone by (auto simp: find_None_iff)
  then have "pay_invoice_or_wallet r (receipt_for res (sq_checkoutRequestId r)) db = Inl (NotFoundError ''Customer'')"
    using pay r(2) find_none_image [OF key] by (simp add: pay_invoice_or_wallet_def topUpWalletCore_def or_default_def)
  then show ?thesis using r pay by (simp add: completeStkRequest_def complete_stk_tx_def complete_account_def Let_def)
qed

text \<open>
  A payment that arrives on a request already marked failed is recorded, yet the outcome calls the
  delivery a duplicate.
\<close>

lemma late_payment_is_called_duplicate:
  assumes "find_stk c db = Some r" "c \<noteq> []" "\<not> isStkRequestOpen r"
    and "handleStkCallback rawToken (Some cb) db = Inr (out, db')" "cb_checkoutRequestId cb = Some c" "cb_resultCode cb = Some 0"
  shows "co_duplicate out = Some True"
  using assms by (auto simp: handleStkCallback_def Let_def split: sum.splits)

end
