(* ===== verification/PaybillPayments.thy ===== *)
theory PaybillPayments imports Complex_Main MpesaCallbacks begin

text \<open>
  packages/payments/src/mpesa/c2b.service.ts and gateway/payment-reference.service.ts: payments a
  customer makes to a paybill. Safaricom's confirmation names an account: an invoice or customer
  number on a tenant's own paybill, a payment reference on the platform's. The shortcodes of the
  M-Pesa configurations are parameters.
\<close>

section \<open>Tables\<close>

datatype reference_purpose = CUSTOMER_ACCOUNT | INVOICE_REFERENCE

record payment_reference =
  rf_id :: id
  rf_reference :: string
  rf_tenantId :: id
  rf_customerId :: "id option"
  rf_invoiceId :: "id option"
  rf_purpose :: reference_purpose

record c2b_txn =
  ct_id :: id
  ct_tenantId :: "id option"
  ct_transactionId :: string
  ct_shortcode :: string
  ct_amountMinor :: minor
  ct_msisdn :: string
  ct_billRefNumber :: "string option"
  ct_transactionTime :: time
  ct_matchedCustomerId :: "id option"
  ct_paymentId :: "id option"
  ct_rawPayload :: string
  ct_reconciled :: bool
  ct_collectedBy :: collection_mode
  ct_assignedByUserId :: "id option"

record paybill_db = stk_db +
  c2bTransactions :: "c2b_txn list"
  paymentReferences :: "payment_reference list"

section \<open>Payment references\<close>

definition reference_alphabet :: string where
  "reference_alphabet = ''ABCDEFGHJKMNPQRSTUVWXYZ23456789''"

definition generateReference :: "nat list \<Rightarrow> string" where
  "generateReference draws = ''MH'' @ map (\<lambda>n. reference_alphabet ! n) draws"

definition clean_reference :: "string \<Rightarrow> string" where
  "clean_reference s = filter (\<lambda>c. \<not> (is_space c \<or> c = CHR ''-'')) (map to_upper s)"

definition looksLikeReference :: "string \<Rightarrow> bool" where
  "looksLikeReference s = (let c = clean_reference s
     in length c = 10 \<and> take 2 c = ''MH'' \<and> list_all (\<lambda>x. x \<in> set reference_alphabet) (drop 2 c))"

text \<open>The reference and the invoice are unique columns; \<open>draws\<close> holds the random numbers of each attempt.\<close>

fun createWithRetry :: "id \<Rightarrow> id option \<Rightarrow> id option \<Rightarrow> reference_purpose \<Rightarrow> nat list list \<Rightarrow> 'x paybill_db_scheme \<Rightarrow>
    (payment_reference \<times> 'x paybill_db_scheme) result" where
  "createWithRetry tenantId customerId invoiceId purpose [] db = Inl (UnexpectedError ''Could not allocate a unique payment reference'')"
| "createWithRetry tenantId customerId invoiceId purpose (d # ds) db =
     (let row = \<lparr>rf_id = nextId db, rf_reference = generateReference d, rf_tenantId = tenantId, rf_customerId = customerId,
            rf_invoiceId = invoiceId, rf_purpose = purpose\<rparr>
      in if \<exists>r \<in> set (paymentReferences db). rf_reference r = rf_reference row \<or> (invoiceId \<noteq> None \<and> rf_invoiceId r = invoiceId)
         then (case (case invoiceId of
                       Some i \<Rightarrow> List.find (\<lambda>r. rf_invoiceId r = Some i) (paymentReferences db)
                     | None \<Rightarrow> List.find (\<lambda>r. rf_customerId r = customerId \<and> rf_purpose r = purpose) (paymentReferences db)) of
                 Some existing \<Rightarrow> Inr (existing, db)
               | None \<Rightarrow> createWithRetry tenantId customerId invoiceId purpose ds db)
         else Inr (row, db\<lparr>nextId := nextId db + 1, paymentReferences := paymentReferences db @ [row]\<rparr>))"

definition getOrCreateCustomerReference ::
  "nat list list \<Rightarrow> id \<Rightarrow> id \<Rightarrow> 'x paybill_db_scheme \<Rightarrow> (payment_reference \<times> 'x paybill_db_scheme) result" where
  "getOrCreateCustomerReference draws tenantId customerId db =
     (if \<not> list_ex (\<lambda>c. c_id c = customerId \<and> c_tenantId c = tenantId) (customers db) then Inl (NotFoundError ''Customer'')
      else case List.find (\<lambda>r. rf_customerId r = Some customerId \<and> rf_purpose r = CUSTOMER_ACCOUNT) (paymentReferences db) of
          Some existing \<Rightarrow> Inr (existing, db)
        | None \<Rightarrow> createWithRetry tenantId (Some customerId) None CUSTOMER_ACCOUNT (take 5 draws) db)"

definition getOrCreateInvoiceReference ::
  "nat list list \<Rightarrow> id \<Rightarrow> id \<Rightarrow> 'x paybill_db_scheme \<Rightarrow> (payment_reference \<times> 'x paybill_db_scheme) result" where
  "getOrCreateInvoiceReference draws tenantId invoiceId db =
     (case find_invoice_in tenantId invoiceId db of None \<Rightarrow> Inl (NotFoundError ''Invoice'')
      | Some i \<Rightarrow>
          (case List.find (\<lambda>r. rf_invoiceId r = Some invoiceId) (paymentReferences db) of
             Some existing \<Rightarrow> Inr (existing, db)
           | None \<Rightarrow> createWithRetry tenantId (Some (i_customerId i)) (Some invoiceId) INVOICE_REFERENCE (take 5 draws) db))"

definition resolveReference :: "string \<Rightarrow> 'x paybill_db_scheme \<Rightarrow> payment_reference option" where
  "resolveReference s db =
     (let reference = clean_reference s
      in if \<not> looksLikeReference reference then None
         else List.find (\<lambda>r. rf_reference r = reference) (paymentReferences db))"

section \<open>The confirmation\<close>

text \<open>What \<open>Number\<close> makes of the amount: a number, or NaN or an infinity.\<close>

datatype amount_value = Finite rat | Not_finite

record c2b_payload =
  cp_TransID :: "string option"
  cp_TransTime :: "string option"
  cp_TransAmount :: "amount_value option"
  cp_BusinessShortCode :: "string option"
  cp_BillRefNumber :: "string option"
  cp_MSISDN :: "string option"

record c2b_answer =
  ca_ResultCode :: string
  ca_ResultDesc :: string

definition handleC2BValidation :: "id option \<Rightarrow> string \<Rightarrow> c2b_answer" where
  "handleC2BValidation tenantId rawPayload = \<lparr>ca_ResultCode = ''0'', ca_ResultDesc = ''Accepted''\<rparr>"

text \<open>Days from 1970-01-01 to a date of the Gregorian calendar; days beyond the month's end run on.\<close>

definition civil_days :: "int \<Rightarrow> int \<Rightarrow> int \<Rightarrow> int" where
  "civil_days y m d =
     (let y' = (if m \<le> 2 then y - 1 else y); era = y' div 400; yoe = y' - era * 400;
          doy = (153 * (if m > 2 then m - 3 else m + 9) + 2) div 5 + d - 1;
          doe = yoe * 365 + yoe div 4 - yoe div 100 + doy
      in era * 146097 + doe - 719468)"

definition number_at :: "nat \<Rightarrow> nat \<Rightarrow> string \<Rightarrow> int" where
  "number_at k n s = fold (\<lambda>c a. 10 * a + (of_char c - 48)) (take n (drop k s)) 0"

text \<open>\<open>None\<close> is an invalid date: a field out of range.\<close>

definition parseTransTime :: "time \<Rightarrow> string option \<Rightarrow> time option" where
  "parseTransTime now transTime =
     (case transTime of None \<Rightarrow> Some now
      | Some s \<Rightarrow>
          if \<not> (length s = 14 \<and> list_all is_digit s) then Some now
          else let y = number_at 0 4 s; mo = number_at 4 2 s; d = number_at 6 2 s;
                   h = number_at 8 2 s; mi = number_at 10 2 s; sec = number_at 12 2 s
               in if 1 \<le> mo \<and> mo \<le> 12 \<and> 1 \<le> d \<and> d \<le> 31 \<and> (h \<le> 23 \<and> mi \<le> 59 \<and> sec \<le> 59 \<or> h = 24 \<and> mi = 0 \<and> sec = 0)
                  then Some (((civil_days y mo d * 24 + h - 3) * 60 + mi) * 60000 + sec * 1000)
                  else None)"

record parsed_c2b =
  pc_transId :: string
  pc_shortcode :: string
  pc_amountMinor :: minor
  pc_billRef :: "string option"
  pc_msisdn :: string
  pc_transactionTime :: "time option"

definition present :: "string option \<Rightarrow> bool" where
  "present s \<longleftrightarrow> s \<noteq> None \<and> s \<noteq> Some []"

definition parseC2B :: "time \<Rightarrow> c2b_payload \<Rightarrow> parsed_c2b result" where
  "parseC2B now p =
     (case cp_TransAmount p of
        None \<Rightarrow> Inl (ValidationError ''Malformed C2B confirmation payload'')
      | Some amount \<Rightarrow>
          if \<not> present (cp_TransID p) \<or> \<not> present (cp_BusinessShortCode p)
          then Inl (ValidationError ''Malformed C2B confirmation payload'')
          else (case amount of
                  Not_finite \<Rightarrow> Inl (ValidationError ''Malformed C2B amount'')
                | Finite a \<Rightarrow>
                    if a \<le> 0 then Inl (ValidationError ''Malformed C2B amount'')
                    else Inr \<lparr>pc_transId = the (cp_TransID p), pc_shortcode = the (cp_BusinessShortCode p),
                           pc_amountMinor = \<lfloor>a * 100 + 1 / 2\<rfloor>, pc_billRef = trim_or_null (cp_BillRefNumber p),
                           pc_msisdn = or_default [] (cp_MSISDN p), pc_transactionTime = parseTransTime now (cp_TransTime p)\<rparr>))"

section \<open>Matching a payment\<close>

definition payable_status :: "invoice_status \<Rightarrow> bool" where
  "payable_status s \<longleftrightarrow> s = I_PENDING \<or> s = I_PARTIALLY_PAID \<or> s = I_OVERDUE"

record c2b_match =
  cm_customerId :: "id option"
  cm_paymentId :: "id option"
  cm_invoiceId :: "id option"

definition payable_invoice :: "id \<Rightarrow> parsed_c2b \<Rightarrow> id option \<Rightarrow> id option \<Rightarrow> 'x billing_db_scheme \<Rightarrow> invoice option" where
  "payable_invoice tenantId c2b invoiceId customerId db =
     (case invoiceId of
        Some i \<Rightarrow> List.find (\<lambda>x. i_id x = i \<and> i_tenantId x = tenantId \<and> payable_status (i_status x)) (invoices db)
      | None \<Rightarrow>
          (case (customerId, pc_billRef c2b) of
             (None, Some ref) \<Rightarrow> List.find (\<lambda>x. i_tenantId x = tenantId \<and> i_invoiceNumber x = ref \<and> payable_status (i_status x)) (invoices db)
           | _ \<Rightarrow> None))"

definition paying_customer :: "id \<Rightarrow> parsed_c2b \<Rightarrow> id option \<Rightarrow> id option \<Rightarrow> 'x billing_db_scheme \<Rightarrow> customer option" where
  "paying_customer tenantId c2b invoiceId customerId db =
     (let fallback = (case customerId of Some c \<Rightarrow> Some c
            | None \<Rightarrow> (case invoiceId of None \<Rightarrow> None | Some i \<Rightarrow> map_option i_customerId (find_invoice_in tenantId i db)))
      in case fallback of
           Some c \<Rightarrow> List.find (\<lambda>x. c_id x = c \<and> c_tenantId x = tenantId \<and> c_deletedAt x = None) (customers db)
         | None \<Rightarrow>
             (case pc_billRef c2b of
                Some ref \<Rightarrow> List.find (\<lambda>x. c_tenantId x = tenantId \<and> c_customerNumber x = ref \<and> c_deletedAt x = None) (customers db)
              | None \<Rightarrow> None))"

definition applyC2BToTenant :: "id \<Rightarrow> parsed_c2b \<Rightarrow> id option \<Rightarrow> id option \<Rightarrow> 'x billing_db_scheme \<Rightarrow> (c2b_match \<times> 'x billing_db_scheme) result" where
  "applyC2BToTenant tenantId c2b invoiceId customerId db =
     (case payable_invoice tenantId c2b invoiceId customerId db of
        Some invoice \<Rightarrow>
          (case recordPaymentForInvoiceCore tenantId
              \<lparr>in_invoiceId = i_id invoice, in_method = MPESA, in_amountMinor = pc_amountMinor c2b, in_reference = Some (pc_transId c2b),
               in_recordedByUserId = None, in_idempotencyKey = pc_transId c2b, in_allowOverpayment = True\<rparr> db of
             Inl e \<Rightarrow> Inl e
           | Inr (out, db1) \<Rightarrow>
               Inr (\<lparr>cm_customerId = Some (i_customerId invoice), cm_paymentId = Some (p_id (res_payment out)), cm_invoiceId = Some (i_id invoice)\<rparr>, db1))
      | None \<Rightarrow>
          (case paying_customer tenantId c2b invoiceId customerId db of
             Some customer \<Rightarrow>
               (case topUpWalletCore tenantId
                   \<lparr>tu_customerId = c_id customer, tu_amountMinor = pc_amountMinor c2b, tu_method = MPESA, tu_currency = None,
                    tu_reference = Some (pc_transId c2b), tu_recordedByUserId = None, tu_idempotencyKey = pc_transId c2b\<rparr> db of
                  Inl e \<Rightarrow> Inl e
                | Inr (out, db1) \<Rightarrow>
                    Inr (\<lparr>cm_customerId = Some (c_id customer), cm_paymentId = Some (p_id (res_payment out)), cm_invoiceId = None\<rparr>, db1))
           | None \<Rightarrow> Inr (\<lparr>cm_customerId = None, cm_paymentId = None, cm_invoiceId = None\<rparr>, db)))"

section \<open>Storing it\<close>

text \<open>The transaction and its payment are unique columns, and the time must be a date.\<close>

definition insert_c2b :: "id option \<Rightarrow> parsed_c2b \<Rightarrow> string \<Rightarrow> c2b_match \<Rightarrow> collection_mode \<Rightarrow> 'x paybill_db_scheme \<Rightarrow>
    (c2b_txn \<times> 'x paybill_db_scheme) result" where
  "insert_c2b tenantId c2b raw matched collectedBy db =
     (case pc_transactionTime c2b of None \<Rightarrow> Inl (UnexpectedError ''Invalid value for argument `transactionTime`'')
      | Some paidAt \<Rightarrow>
          let row = \<lparr>ct_id = nextId db, ct_tenantId = tenantId, ct_transactionId = pc_transId c2b, ct_shortcode = pc_shortcode c2b,
                ct_amountMinor = pc_amountMinor c2b, ct_msisdn = pc_msisdn c2b, ct_billRefNumber = pc_billRef c2b, ct_transactionTime = paidAt,
                ct_matchedCustomerId = cm_customerId matched, ct_paymentId = cm_paymentId matched, ct_rawPayload = raw,
                ct_reconciled = (cm_paymentId matched \<noteq> None), ct_collectedBy = collectedBy, ct_assignedByUserId = None\<rparr>
          in if \<exists>r \<in> set (c2bTransactions db). ct_transactionId r = ct_transactionId row
                 \<or> (ct_paymentId row \<noteq> None \<and> ct_paymentId r = ct_paymentId row)
             then Inl UniqueViolation
             else Inr (row, db\<lparr>nextId := nextId db + 1, c2bTransactions := c2bTransactions db @ [row]\<rparr>))"

definition find_c2b :: "string \<Rightarrow> 'x paybill_db_scheme \<Rightarrow> c2b_txn option" where
  "find_c2b transId db = List.find (\<lambda>r. ct_transactionId r = transId) (c2bTransactions db)"

definition restore_matched :: "c2b_txn \<Rightarrow> 'x paybill_db_scheme \<Rightarrow> 'x paybill_db_scheme" where
  "restore_matched row db = (case ct_tenantId row of None \<Rightarrow> db | Some t \<Rightarrow> snd (restoreServiceAfterPayment t (ct_matchedCustomerId row) db))"

text \<open>The outcome is the row and whether it was there before.\<close>

definition handleC2BConfirmation ::
  "(id \<Rightarrow> string result) \<Rightarrow> id \<Rightarrow> c2b_payload \<Rightarrow> string \<Rightarrow> 'x paybill_db_scheme \<Rightarrow> ((c2b_txn \<times> bool) \<times> 'x paybill_db_scheme) result" where
  "handleC2BConfirmation shortcodeOf tenantId payload raw db =
     (case parseC2B (clock db) payload of Inl e \<Rightarrow> Inl e
      | Inr c2b \<Rightarrow>
          (case find_c2b (pc_transId c2b) db of Some row \<Rightarrow> Inr ((row, True), db)
           | None \<Rightarrow>
               (case shortcodeOf tenantId of Inl e \<Rightarrow> Inl e
                | Inr shortcode \<Rightarrow>
                    if pc_shortcode c2b \<noteq> shortcode
                    then Inl (ValidationError (''BusinessShortCode does not match this tenant'' @ [CHR 0x27] @ ''s configured paybill''))
                    else (case applyC2BToTenant tenantId c2b None None db of Inl e \<Rightarrow> Inl e
                          | Inr (matched, db1) \<Rightarrow>
                              (case insert_c2b (Some tenantId) c2b raw matched OWN db1 of Inl e \<Rightarrow> Inl e
                               | Inr (row, db2) \<Rightarrow> Inr ((row, False), restore_matched row db2))))))"

definition paybill_collection :: "id \<Rightarrow> id \<Rightarrow> parsed_c2b \<Rightarrow> c2b_match \<Rightarrow> id option \<Rightarrow> string \<Rightarrow> collection_input" where
  "paybill_collection tenantId paymentId c2b matched fromReference description =
     \<lparr>ci_tenantId = tenantId, ci_paymentId = paymentId, ci_grossMinor = pc_amountMinor c2b, ci_currency = ''KES'', ci_channel = MPESA_C2B,
      ci_providerReference = pc_transId c2b, ci_providerRequestId = None,
      ci_payerPhone = (if pc_msisdn c2b = [] then None else Some (pc_msisdn c2b)), ci_customerId = cm_customerId matched,
      ci_invoiceId = cm_invoiceId matched, ci_paymentReferenceId = fromReference, ci_description = description\<rparr>"

definition find_reference :: "parsed_c2b \<Rightarrow> 'x paybill_db_scheme \<Rightarrow> payment_reference option" where
  "find_reference c2b db =
     (case pc_billRef c2b of None \<Rightarrow> None
      | Some ref \<Rightarrow> if looksLikeReference ref then List.find (\<lambda>r. rf_reference r = clean_reference ref) (paymentReferences db) else None)"

definition tenant_gone :: "id \<Rightarrow> 'x billing_db_scheme \<Rightarrow> bool" where
  "tenant_gone t db \<longleftrightarrow> list_ex (\<lambda>x. t_id x = t \<and> t_deletedAt x \<noteq> None) (tenants db)"

definition no_match :: c2b_match where
  "no_match = \<lparr>cm_customerId = None, cm_paymentId = None, cm_invoiceId = None\<rparr>"

definition collect_matched :: "id \<Rightarrow> parsed_c2b \<Rightarrow> c2b_match \<Rightarrow> id option \<Rightarrow> string \<Rightarrow> 'x gateway_db_scheme \<Rightarrow> 'x gateway_db_scheme result" where
  "collect_matched tenantId c2b matched fromReference description db =
     (case cm_paymentId matched of None \<Rightarrow> Inr db
      | Some p \<Rightarrow>
          (case recordPlatformCollection (paybill_collection tenantId p c2b matched fromReference description) db of
             Inl e \<Rightarrow> Inl e | Inr (_, db') \<Rightarrow> Inr db'))"

definition platform_c2b_tx :: "parsed_c2b \<Rightarrow> string \<Rightarrow> 'x paybill_db_scheme \<Rightarrow> (c2b_txn \<times> 'x paybill_db_scheme) result" where
  "platform_c2b_tx c2b raw db =
     (case find_reference c2b db of
        None \<Rightarrow> insert_c2b None c2b raw no_match PLATFORM db
      | Some ref \<Rightarrow>
          if tenant_gone (rf_tenantId ref) db then insert_c2b None c2b raw no_match PLATFORM db
          else (case applyC2BToTenant (rf_tenantId ref) c2b (rf_invoiceId ref) (rf_customerId ref) db of Inl e \<Rightarrow> Inl e
                | Inr (matched, db1) \<Rightarrow>
                    (case collect_matched (rf_tenantId ref) c2b matched (Some (rf_id ref))
                        (if cm_invoiceId matched \<noteq> None then ''Paybill invoice payment'' else ''Paybill account top-up'') db1 of
                       Inl e \<Rightarrow> Inl e
                     | Inr db2 \<Rightarrow> insert_c2b (Some (rf_tenantId ref)) c2b raw matched PLATFORM db2)))"

definition handlePlatformC2BConfirmation ::
  "string result \<Rightarrow> c2b_payload \<Rightarrow> string \<Rightarrow> 'x paybill_db_scheme \<Rightarrow> ((c2b_txn \<times> bool) \<times> 'x paybill_db_scheme) result" where
  "handlePlatformC2BConfirmation platformShortcode payload raw db =
     (case parseC2B (clock db) payload of Inl e \<Rightarrow> Inl e
      | Inr c2b \<Rightarrow>
          (case find_c2b (pc_transId c2b) db of Some row \<Rightarrow> Inr ((row, True), db)
           | None \<Rightarrow>
               (case platformShortcode of Inl e \<Rightarrow> Inl e
                | Inr shortcode \<Rightarrow>
                    if pc_shortcode c2b \<noteq> shortcode
                    then Inl (ValidationError ''BusinessShortCode does not match the platform paybill'')
                    else (case platform_c2b_tx c2b raw db of Inl e \<Rightarrow> Inl e
                          | Inr (row, db2) \<Rightarrow> Inr ((row, False), restore_matched row db2)))))"

section \<open>Matching by hand\<close>

definition toParsed :: "c2b_txn \<Rightarrow> parsed_c2b" where
  "toParsed t = \<lparr>pc_transId = ct_transactionId t, pc_shortcode = ct_shortcode t, pc_amountMinor = ct_amountMinor t,
     pc_billRef = ct_billRefNumber t, pc_msisdn = ct_msisdn t, pc_transactionTime = Some (ct_transactionTime t)\<rparr>"

definition update_c2b :: "id \<Rightarrow> (c2b_txn \<Rightarrow> c2b_txn) \<Rightarrow> 'x paybill_db_scheme \<Rightarrow> (c2b_txn \<times> 'x paybill_db_scheme) result" where
  "update_c2b i f db =
     (case List.find (\<lambda>r. ct_id r = i) (c2bTransactions db) of None \<Rightarrow> Inl RecordNotFound
      | Some r \<Rightarrow>
          if \<exists>x \<in> set (c2bTransactions db). ct_id x \<noteq> i \<and> ct_paymentId (f r) \<noteq> None \<and> ct_paymentId x = ct_paymentId (f r)
          then Inl UniqueViolation
          else Inr (f r, db\<lparr>c2bTransactions := update_where (\<lambda>x. ct_id x = i) f (c2bTransactions db)\<rparr>))"

definition reconciled_with :: "c2b_match \<Rightarrow> c2b_txn \<Rightarrow> c2b_txn" where
  "reconciled_with matched r = r\<lparr>ct_matchedCustomerId := cm_customerId matched, ct_paymentId := cm_paymentId matched, ct_reconciled := True\<rparr>"

definition manuallyReconcileC2BTransaction ::
  "id \<Rightarrow> string \<Rightarrow> id option \<Rightarrow> id option \<Rightarrow> 'x paybill_db_scheme \<Rightarrow> (c2b_txn \<times> 'x paybill_db_scheme) result" where
  "manuallyReconcileC2BTransaction tenantId transactionId invoiceId customerId db =
     (case List.find (\<lambda>r. ct_tenantId r = Some tenantId \<and> ct_transactionId r = transactionId) (c2bTransactions db) of
        None \<Rightarrow> Inl (ValidationError ''Unknown C2B transaction'')
      | Some t \<Rightarrow>
          if ct_reconciled t then Inl (ValidationError ''Transaction is already reconciled'')
          else if invoiceId = None \<and> customerId = None
          then Inl (ValidationError ''Provide either invoiceId or customerId to reconcile against'')
          else (case applyC2BToTenant tenantId (toParsed t) invoiceId customerId db of Inl e \<Rightarrow> Inl e
                | Inr (matched, db1) \<Rightarrow>
                    if cm_paymentId matched = None then Inl (NotFoundError (if invoiceId \<noteq> None then ''Invoice'' else ''Customer''))
                    else (case (if ct_collectedBy t = PLATFORM
                                then collect_matched tenantId (toParsed t) matched None ''Paybill payment (matched manually)'' db1 else Inr db1) of
                            Inl e \<Rightarrow> Inl e
                          | Inr db2 \<Rightarrow> update_c2b (ct_id t) (reconciled_with matched) db2)))"

definition assignPlatformC2BTransaction ::
  "string \<Rightarrow> id \<Rightarrow> id \<Rightarrow> id option \<Rightarrow> id \<Rightarrow> 'x paybill_db_scheme \<Rightarrow> (c2b_txn \<times> 'x paybill_db_scheme) result" where
  "assignPlatformC2BTransaction transactionId tenantId customerId invoiceId userId db =
     (case find_c2b transactionId db of None \<Rightarrow> Inl (NotFoundError ''Platform paybill payment'')
      | Some t \<Rightarrow>
          if ct_collectedBy t \<noteq> PLATFORM then Inl (NotFoundError ''Platform paybill payment'')
          else if ct_reconciled t then Inl (ConflictError ''This payment has already been assigned.'')
          else (case applyC2BToTenant tenantId (toParsed t) invoiceId (Some customerId) db of Inl e \<Rightarrow> Inl e
                | Inr (matched, db1) \<Rightarrow>
                    if cm_paymentId matched = None then Inl (NotFoundError ''Customer'')
                    else (case collect_matched tenantId (toParsed t) matched None ''Paybill payment (assigned by administrator)'' db1 of
                            Inl e \<Rightarrow> Inl e
                          | Inr db2 \<Rightarrow> update_c2b (ct_id t) (\<lambda>r. (reconciled_with matched r)\<lparr>ct_tenantId := Some tenantId, ct_assignedByUserId := Some userId\<rparr>) db2)))"

section \<open>Every payment is on the books once\<close>

definition payment_keys :: "'x billing_db_scheme \<Rightarrow> string set" where
  "payment_keys db = p_idempotencyKey ` set (payments db)"

lemma payment_keys_cong: "payments db' = payments db \<Longrightarrow> payment_keys db' = payment_keys db"
  by (simp add: payment_keys_def)

text \<open>What matching a payment does: nothing, or a new payment of its amount under its number.\<close>

definition pays :: "parsed_c2b \<Rightarrow> c2b_match \<Rightarrow> 'x billing_db_scheme \<Rightarrow> 'x billing_db_scheme \<Rightarrow> bool" where
  "pays c2b matched db db' \<longleftrightarrow> books_ok db' \<and> wallet_ok db' \<and> billing_db.more db' = billing_db.more db \<and> nextId db \<le> nextId db'
     \<and> (case cm_paymentId matched of
          None \<Rightarrow> db' = db
        | Some p \<Rightarrow> nextId db \<le> p \<and> p < nextId db' \<and> recorded_total db' = recorded_total db + pc_amountMinor c2b
            \<and> payment_keys db' = insert (pc_transId c2b) (payment_keys db))"

lemma recorded_key:
  assumes "recordPaymentForInvoiceCore t inp db = Inr (out, db')" and "\<not> res_wasAlreadyProcessed out"
  shows "p_idempotencyKey (res_payment out) = in_idempotencyKey inp"
proof -
  have "p_idempotencyKey (res_payment out) = in_idempotencyKey inp" if "post_payment t inp b a e d = Inr (out, d')" for b a e d d'
    using that by (auto simp: post_payment_def Let_def split: if_splits sum.splits)
  then show ?thesis
    using assms by (auto simp: recordPaymentForInvoiceCore_def Let_def split: if_splits option.splits sum.splits)
qed

lemma topped_up_key:
  assumes "topUpWalletCore t inp db = Inr (out, db')" and "\<not> res_wasAlreadyProcessed out"
  shows "p_idempotencyKey (res_payment out) = tu_idempotencyKey inp"
  using assms by (auto simp: topUpWalletCore_def Let_def split: if_splits option.splits sum.splits)

lemma invoice_key:
  assumes "books_ok db" "wallet_ok db" and "recordPaymentForInvoiceCore t inp db = Inr (out, db')" and "\<not> res_wasAlreadyProcessed out"
  shows "payment_keys db' = insert (in_idempotencyKey inp) (payment_keys db)"
  using record_spec [OF assms] recorded_key [OF assms(3,4)] by (auto simp: payment_keys_def Let_def)

lemma topup_key:
  assumes "books_ok db" "wallet_ok db" and "topUpWalletCore t inp db = Inr (out, db')" and "\<not> res_wasAlreadyProcessed out"
  shows "payment_keys db' = insert (tu_idempotencyKey inp) (payment_keys db)"
  using topUp_new [OF assms] topped_up_key [OF assms(3,4)] by (simp add: payment_keys_def)

lemma apply_pays:
  assumes ok: "books_ok db" "wallet_ok db" and key: "pc_transId c2b \<notin> payment_keys db"
    and run: "applyC2BToTenant t c2b i c db = Inr (matched, db')"
  shows "pays c2b matched db db'"
proof -
  note key = key [unfolded payment_keys_def]
  show ?thesis
  proof (cases "payable_invoice t c2b i c db")
    case (Some bill)
    let ?inp = "\<lparr>in_invoiceId = i_id bill, in_method = MPESA, in_amountMinor = pc_amountMinor c2b, in_reference = Some (pc_transId c2b),
               in_recordedByUserId = None, in_idempotencyKey = pc_transId c2b, in_allowOverpayment = True\<rparr>"
    obtain out where r: "recordPaymentForInvoiceCore t ?inp db = Inr (out, db')" "cm_paymentId matched = Some (p_id (res_payment out))"
      using run Some by (auto simp: applyC2BToTenant_def split: sum.splits)
    have "books_ok db' \<and> wallet_ok db' \<and> recorded_total db' = recorded_total db + pc_amountMinor c2b \<and> \<not> res_wasAlreadyProcessed out"
      using invoice_records [OF ok r(1)] key by simp
    with recordPayment_grows [OF r(1)] invoice_key [OF ok r(1)] r(2) show ?thesis by (simp add: pays_def)
  next
    case None
    show ?thesis
    proof (cases "paying_customer t c2b i c db")
      case none: None
      then show ?thesis using run None ok by (auto simp: applyC2BToTenant_def pays_def)
    next
      case (Some cust)
      let ?inp = "\<lparr>tu_customerId = c_id cust, tu_amountMinor = pc_amountMinor c2b, tu_method = MPESA, tu_currency = None,
                    tu_reference = Some (pc_transId c2b), tu_recordedByUserId = None, tu_idempotencyKey = pc_transId c2b\<rparr>"
      obtain out where r: "topUpWalletCore t ?inp db = Inr (out, db')" "cm_paymentId matched = Some (p_id (res_payment out))"
        using run None Some by (auto simp: applyC2BToTenant_def split: sum.splits)
      have "books_ok db' \<and> wallet_ok db' \<and> recorded_total db' = recorded_total db + pc_amountMinor c2b \<and> \<not> res_wasAlreadyProcessed out"
        using topup_records [OF ok r(1)] key by simp
      with topUp_grows [OF r(1)] topup_key [OF ok r(1)] r(2) show ?thesis by (simp add: pays_def)
    qed
  qed
qed

lemma paybill_of_more:
  fixes db db' :: "'x paybill_db_scheme"
  shows "billing_db.more db' = billing_db.more db \<Longrightarrow> c2bTransactions db' = c2bTransactions db"
    and "gateway_db.more db' = gateway_db.more db \<Longrightarrow> c2bTransactions db' = c2bTransactions db"
  by (cases db; cases db'; simp)+

text \<open>The paybill rows that are on the books, and those of them the platform collected for a tenant.\<close>

definition reconciled_total :: "c2b_txn list \<Rightarrow> minor" where
  "reconciled_total rows = sum_where ct_reconciled ct_amountMinor rows"

definition platform_row :: "id \<Rightarrow> c2b_txn \<Rightarrow> bool" where
  "platform_row t r \<longleftrightarrow> ct_reconciled r \<and> ct_collectedBy r = PLATFORM \<and> ct_tenantId r = Some t"

definition platform_total :: "id \<Rightarrow> c2b_txn list \<Rightarrow> minor" where
  "platform_total t rows = sum_where (platform_row t) ct_amountMinor rows"

text \<open>\<open>I\<close> are the numbers of paybill payments: no payment has one of them but that of its row.\<close>

definition rows_ok :: "string set \<Rightarrow> 'x paybill_db_scheme \<Rightarrow> bool" where
  "rows_ok I db \<longleftrightarrow> distinct (map ct_id (c2bTransactions db)) \<and> distinct (map ct_transactionId (c2bTransactions db))
     \<and> (\<forall>r \<in> set (c2bTransactions db). ct_id r < nextId db \<and> ct_transactionId r \<in> I)
     \<and> (\<forall>k \<in> payment_keys db \<inter> I. \<exists>r \<in> set (c2bTransactions db). ct_transactionId r = k \<and> ct_reconciled r)"

definition paybill_ok :: "string set \<Rightarrow> 'x paybill_db_scheme \<Rightarrow> bool" where
  "paybill_ok I db \<longleftrightarrow> books_ok db \<and> wallet_ok db \<and> gateway_ok db \<and> payments_known db \<and> rows_ok I db"

text \<open>What is on the books beyond the paybill rows, and what the platform owes beyond them, is as it was.\<close>

definition accounted :: "string set \<Rightarrow> 'x paybill_db_scheme \<Rightarrow> 'x paybill_db_scheme \<Rightarrow> bool" where
  "accounted I db db' \<longleftrightarrow> paybill_ok I db'
     \<and> recorded_total db' - reconciled_total (c2bTransactions db') = recorded_total db - reconciled_total (c2bTransactions db)
     \<and> (\<forall>t. collectedMinor (getTenantBalance t db') - platform_total t (c2bTransactions db')
           = collectedMinor (getTenantBalance t db) - platform_total t (c2bTransactions db))"

text \<open>After matching, and crediting the platform's ledger when it collected the money.\<close>

definition credited :: "bool \<Rightarrow> id \<Rightarrow> parsed_c2b \<Rightarrow> c2b_match \<Rightarrow> 'x paybill_db_scheme \<Rightarrow> 'x paybill_db_scheme \<Rightarrow> bool" where
  "credited platform t c2b matched db db' \<longleftrightarrow> books_ok db' \<and> wallet_ok db' \<and> gateway_ok db' \<and> payments_known db'
     \<and> nextId db \<le> nextId db' \<and> c2bTransactions db' = c2bTransactions db
     \<and> recorded_total db' = recorded_total db + (if cm_paymentId matched = None then 0 else pc_amountMinor c2b)
     \<and> payment_keys db' = (if cm_paymentId matched = None then payment_keys db else insert (pc_transId c2b) (payment_keys db))
     \<and> (\<forall>u. collectedMinor (getTenantBalance u db') = collectedMinor (getTenantBalance u db)
          + (if platform \<and> cm_paymentId matched \<noteq> None \<and> u = t then pc_amountMinor c2b else 0))"

lemma own_credited:
  fixes db db1 :: "'x paybill_db_scheme"
  assumes "paybill_ok I db" and "pays c2b matched db db1"
  shows "credited False t c2b matched db db1"
proof -
  have more: "billing_db.more db1 = billing_db.more db" "nextId db \<le> nextId db1" using assms(2) by (simp_all add: pays_def)
  note same = same_gateway_more [OF more(1)]
  have "gateway_ok db1" by (rule gateway_ok_later [OF _ same more(2)]) (use assms(1) in \<open>simp add: paybill_ok_def\<close>)
  moreover have "payments_known db1" using assms(1) same more(2) by (auto simp: paybill_ok_def payments_known_def same_gateway_def)
  ultimately show ?thesis
    using assms(2) more balance_later [OF same] paybill_of_more(1) [OF more(1)]
    by (auto simp: credited_def pays_def split: option.splits)
qed

lemma platform_credited:
  fixes db db1 db2 :: "'x paybill_db_scheme"
  assumes ok: "paybill_ok I db" and p: "pays c2b matched db db1" and c: "collect_matched t c2b matched ref desc db1 = Inr db2"
  shows "credited True t c2b matched db db2"
proof (cases "cm_paymentId matched")
  case None
  then have "db2 = db1" using c by (simp add: collect_matched_def)
  then show ?thesis using own_credited [OF ok p, of t] None by (simp add: credited_def)
next
  case (Some pid)
  define inp where "inp = paybill_collection t pid c2b matched ref desc"
  have inp: "ci_tenantId inp = t" "ci_paymentId inp = pid" "ci_grossMinor inp = pc_amountMinor c2b" by (simp_all add: inp_def paybill_collection_def)
  obtain g wrote where r: "recordPlatformCollection inp db1 = Inr ((g, wrote), db2)"
    using c Some by (auto simp: collect_matched_def inp_def split: sum.splits)
  have own: "credited False t c2b matched db db1" by (rule own_credited [OF ok p])
  have pid: "nextId db \<le> pid" "pid < nextId db1" using p Some by (simp_all add: pays_def)
  have same: "same_gateway db db1" using p same_gateway_more by (auto simp: pays_def)
  have new: "ci_paymentId inp \<notin> g_paymentId ` set (gatewayTxns db1)"
    using ok same pid(1) inp(2) by (auto simp: paybill_ok_def payments_known_def same_gateway_def)
  have "wrote" using r find_none_image [OF new]
    by (auto simp: recordPlatformCollection_def Let_def split: sum.splits prod.splits if_splits)
  with r have r: "recordPlatformCollection inp db1 = Inr ((g, True), db2)" by simp
  have step: "collect_if_platform sample_push inp db1 = Inr db2" using r by (simp add: collect_if_platform_def sample_push_def)
  note keep = collection_keeps_books [OF step]
  have g1: "gateway_ok db1" using own by (simp add: credited_def)
  have "books_ok db2" by (rule books_ok_cong [of db1]) (use own keep in \<open>simp_all add: credited_def\<close>)
  moreover have "wallet_ok db2" by (rule wallet_ok_cong [of db1]) (use own keep in \<open>simp_all add: credited_def\<close>)
  moreover have "recorded_total db2 = recorded_total db1" by (rule recorded_total_cong) (use keep in simp_all)
  moreover have "payment_keys db2 = payment_keys db1" by (rule payment_keys_cong) (use keep in simp)
  moreover have "gateway_ok db2" by (rule collection_keeps_gateway_ok [OF g1 r])
  moreover have "payments_known db2"
    using collection_txns [OF step] own pid inp keep by (fastforce simp: payments_known_def credited_def)
  moreover have "c2bTransactions db2 = c2bTransactions db1" by (rule paybill_of_more(2) [OF collection_more [OF r]])
  ultimately show ?thesis
    using own collection_balance(1) [OF g1 r] inp keep Some by (auto simp: credited_def)
qed

lemma new_number:
  assumes "rows_ok I db" and "k \<in> I" and "find_c2b k db = None"
  shows "k \<notin> payment_keys db"
  using assms by (auto simp: rows_ok_def find_c2b_def find_None_iff)

lemma open_row_number:
  assumes ok: "rows_ok I db" and r: "r \<in> set (c2bTransactions db)" "\<not> ct_reconciled r"
  shows "ct_transactionId r \<notin> payment_keys db"
proof
  assume "ct_transactionId r \<in> payment_keys db"
  then obtain s where s: "s \<in> set (c2bTransactions db)" "ct_transactionId s = ct_transactionId r" "ct_reconciled s"
    using ok r(1) by (auto simp: rows_ok_def)
  have "s = r" by (rule key_eq_rows [OF _ s(1) r(1) s(2)]) (use ok in \<open>simp add: rows_ok_def\<close>)
  with s(3) r(2) show False by simp
qed

lemma insert_accounted:
  fixes db db2 :: "'x paybill_db_scheme"
  assumes ok: "paybill_ok I db" and c: "credited pf t c2b matched db db2" and i: "insert_c2b tid c2b raw matched mode db2 = Inr (row, db3)"
    and new: "find_c2b (pc_transId c2b) db = None" "pc_transId c2b \<in> I"
    and side: "cm_paymentId matched \<noteq> None \<Longrightarrow> (if pf then mode = PLATFORM \<and> tid = Some t else mode = OWN)"
  shows "accounted I db db3"
proof -
  have row: "ct_id row = nextId db2" "ct_transactionId row = pc_transId c2b" "ct_amountMinor row = pc_amountMinor c2b"
    "ct_reconciled row \<longleftrightarrow> cm_paymentId matched \<noteq> None" "ct_collectedBy row = mode" "ct_tenantId row = tid"
    and db3: "db3 = db2\<lparr>nextId := nextId db2 + 1, c2bTransactions := c2bTransactions db2 @ [row]\<rparr>"
    using i by (auto simp: insert_c2b_def Let_def split: option.splits if_splits)
  have ok2: "books_ok db2" "wallet_ok db2" "gateway_ok db2" "payments_known db2" "nextId db \<le> nextId db2" "c2bTransactions db2 = c2bTransactions db"
    using c by (simp_all add: credited_def)
  have same: "same_gateway db2 db3" "nextId db2 \<le> nextId db3" by (simp_all add: db3 same_gateway_def)
  have "books_ok db3" by (rule books_ok_cong [OF ok2(1)]) (simp_all add: db3)
  moreover have "wallet_ok db3" by (rule wallet_ok_cong [OF ok2(2)]) (simp_all add: db3)
  moreover have "gateway_ok db3" by (rule gateway_ok_later [OF ok2(3) same])
  moreover have "payments_known db3" using ok2(4) by (auto simp: payments_known_def db3)
  moreover have "rows_ok I db3"
  proof -
    have r: "rows_ok I db" using ok by (simp add: paybill_ok_def)
    have fresh: "pc_transId c2b \<notin> ct_transactionId ` set (c2bTransactions db)" "nextId db2 \<notin> ct_id ` set (c2bTransactions db)"
      using new(1) r ok2(5) by (auto simp: find_c2b_def find_None_iff rows_ok_def)
    have k3: "payment_keys db3 = payment_keys db2" by (rule payment_keys_cong) (simp add: db3)
    show ?thesis
      using r fresh new(2) row c ok2(5,6) unfolding rows_ok_def k3
      by (auto simp: db3 credited_def less_Suc_eq split: if_splits)
  qed
  moreover have "recorded_total db3 = recorded_total db2" by (rule recorded_total_cong) (simp_all add: db3)
  moreover have "reconciled_total (c2bTransactions db3) = reconciled_total (c2bTransactions db)
      + (if cm_paymentId matched = None then 0 else pc_amountMinor c2b)"
    using row by (simp add: reconciled_total_def db3 ok2(6))
  moreover have "platform_total u (c2bTransactions db3) = platform_total u (c2bTransactions db)
      + (if pf \<and> cm_paymentId matched \<noteq> None \<and> u = t then pc_amountMinor c2b else 0)" for u
    using row side by (auto simp: platform_total_def platform_row_def db3 ok2(6) split: if_splits)
  ultimately show ?thesis
    using c balance_later [OF same(1)] by (simp add: accounted_def paybill_ok_def credited_def)
qed

lemma update_accounted:
  fixes db db2 :: "'x paybill_db_scheme"
  assumes ok: "paybill_ok I db" and r: "r \<in> set (c2bTransactions db)" "\<not> ct_reconciled r"
    and c: "credited pf t (toParsed r) matched db db2" "cm_paymentId matched \<noteq> None"
    and u: "update_c2b (ct_id r) f db2 = Inr (row, db3)"
    and f: "\<And>x. ct_id (f x) = ct_id x \<and> ct_transactionId (f x) = ct_transactionId x \<and> ct_amountMinor (f x) = ct_amountMinor x
        \<and> ct_collectedBy (f x) = ct_collectedBy x \<and> ct_reconciled (f x)"
    and side: "if pf then ct_collectedBy r = PLATFORM \<and> ct_tenantId (f r) = Some t else ct_collectedBy r = OWN"
  shows "accounted I db db3"
proof -
  have db3: "db3 = db2\<lparr>c2bTransactions := update_where (\<lambda>x. ct_id x = ct_id r) f (c2bTransactions db2)\<rparr>"
    using u by (auto simp: update_c2b_def split: option.splits if_splits)
  have ok2: "books_ok db2" "wallet_ok db2" "gateway_ok db2" "payments_known db2" "nextId db \<le> nextId db2" "c2bTransactions db2 = c2bTransactions db"
    using c by (simp_all add: credited_def)
  have rows: "rows_ok I db" using ok by (simp add: paybill_ok_def)
  then have ids: "distinct (map ct_id (c2bTransactions db))" by (simp add: rows_ok_def)
  have same: "same_gateway db2 db3" "nextId db2 \<le> nextId db3" by (simp_all add: db3 same_gateway_def)
  have "books_ok db3" by (rule books_ok_cong [OF ok2(1)]) (simp_all add: db3)
  moreover have "wallet_ok db3" by (rule wallet_ok_cong [OF ok2(2)]) (simp_all add: db3)
  moreover have "gateway_ok db3" by (rule gateway_ok_later [OF ok2(3) same])
  moreover have "payments_known db3" using ok2(4) by (auto simp: payments_known_def db3)
  moreover have "rows_ok I db3"
  proof -
    have m: "map ct_id (c2bTransactions db3) = map ct_id (c2bTransactions db)"
      "map ct_transactionId (c2bTransactions db3) = map ct_transactionId (c2bTransactions db)"
      unfolding db3 by (simp_all add: ok2(6)) (rule map_update_where, use f in blast)+
    have k3: "payment_keys db3 = insert (ct_transactionId r) (payment_keys db)"
      using payment_keys_cong [of db3 db2] c by (simp add: credited_def db3 toParsed_def)
    have mem: "f r \<in> set (c2bTransactions db3)" using r(1) by (auto simp: db3 ok2(6) set_update_where)
    have kept: "\<exists>s' \<in> set (c2bTransactions db3). ct_transactionId s' = ct_transactionId s \<and> ct_reconciled s'"
      if "s \<in> set (c2bTransactions db)" "ct_reconciled s" for s
    proof (cases "ct_id s = ct_id r")
      case True
      then have "f s \<in> set (c2bTransactions db3)" using that(1) by (auto simp: db3 ok2(6) set_update_where)
      with f [of s] show ?thesis by blast
    next
      case False
      then have "s \<in> set (c2bTransactions db3)" using that(1) by (auto simp: db3 ok2(6) set_update_where)
      with that(2) show ?thesis by blast
    qed
    have "\<forall>s \<in> set (c2bTransactions db3). ct_id s < nextId db3 \<and> ct_transactionId s \<in> I"
      using rows f ok2(5) by (fastforce simp: rows_ok_def db3 ok2(6) set_update_where)
    moreover have "\<exists>s \<in> set (c2bTransactions db3). ct_transactionId s = k \<and> ct_reconciled s" if "k \<in> payment_keys db3 \<inter> I" for k
    proof (cases "k = ct_transactionId r")
      case True
      then show ?thesis using mem f [of r] by blast
    next
      case False
      then have "k \<in> payment_keys db \<inter> I" using that k3 by blast
      then obtain s where s: "s \<in> set (c2bTransactions db)" "ct_transactionId s = k" "ct_reconciled s" using rows by (auto simp: rows_ok_def)
      with kept [OF s(1,3)] show ?thesis by simp
    qed
    ultimately show ?thesis using rows by (simp add: rows_ok_def m)
  qed
  moreover have "recorded_total db3 = recorded_total db2" by (rule recorded_total_cong) (simp_all add: db3)
  moreover have "reconciled_total (c2bTransactions db3) = reconciled_total (c2bTransactions db) + ct_amountMinor r"
    using sum_where_update [OF ids r(1) refl, of ct_reconciled ct_amountMinor f] r(2) f [of r] by (simp add: reconciled_total_def db3 ok2(6))
  moreover have "platform_total u (c2bTransactions db3) = platform_total u (c2bTransactions db) + (if pf \<and> u = t then ct_amountMinor r else 0)" for u
    using sum_where_update [OF ids r(1) refl, of "platform_row u" ct_amountMinor f] r(2) f [of r] side
    by (auto simp: platform_total_def platform_row_def db3 ok2(6) split: if_splits)
  ultimately show ?thesis
    using c balance_later [OF same(1)] by (simp add: accounted_def paybill_ok_def credited_def toParsed_def)
qed

lemma restore_accounted:
  assumes "accounted I db db1"
  shows "accounted I db (restore_matched row db1)"
proof (cases "ct_tenantId row")
  case None
  then show ?thesis using assms by (simp add: restore_matched_def)
next
  case (Some t)
  obtain n db2 where rs: "restoreServiceAfterPayment t (ct_matchedCustomerId row) db1 = (n, db2)" by fastforce
  note f = restore_frame [OF rs]
  have g: "same_gateway db1 db2" "nextId db1 \<le> nextId db2" using same_gateway_more [OF f(7)] f(6) by simp_all
  have ok: "paybill_ok I db1" using assms by (simp add: accounted_def)
  have "books_ok db2" by (rule books_ok_cong [of db1]) (use ok f in \<open>simp_all add: paybill_ok_def\<close>)
  moreover have "wallet_ok db2" by (rule wallet_ok_cong [of db1]) (use ok f in \<open>simp_all add: paybill_ok_def\<close>)
  moreover have "gateway_ok db2" by (rule gateway_ok_later [OF _ g]) (use ok in \<open>simp add: paybill_ok_def\<close>)
  moreover have "payments_known db2" using ok g f(6) by (simp add: paybill_ok_def payments_known_def same_gateway_def)
  moreover have rows: "c2bTransactions db2 = c2bTransactions db1" by (rule paybill_of_more(1) [OF f(7)])
  moreover have "rows_ok I db2" using ok rows f(6) payment_keys_cong [OF f(2)] by (simp add: paybill_ok_def rows_ok_def)
  moreover have "recorded_total db2 = recorded_total db1" by (rule recorded_total_cong) (use f in simp_all)
  ultimately show ?thesis
    using assms balance_later [OF g(1)] rs Some by (simp add: accounted_def paybill_ok_def restore_matched_def)
qed

lemma parsed_number: "parseC2B now p = Inr c2b \<Longrightarrow> cp_TransID p = Some (pc_transId c2b)"
  by (auto simp: parseC2B_def present_def split: option.splits amount_value.splits if_splits)

lemma own_accounted:
  fixes db :: "'x paybill_db_scheme"
  assumes ok: "paybill_ok I db" and i: "cp_TransID payload \<in> Some ` I"
    and run: "handleC2BConfirmation shortcodeOf t payload raw db = Inr ((row, dup), db')"
  shows "accounted I db db'"
proof -
  obtain c2b where p: "parseC2B (clock db) payload = Inr c2b" using run by (auto simp: handleC2BConfirmation_def split: sum.splits)
  have num: "pc_transId c2b \<in> I" using parsed_number [OF p] i by auto
  show ?thesis
  proof (cases "find_c2b (pc_transId c2b) db")
    case (Some old)
    then show ?thesis using run p ok by (simp add: handleC2BConfirmation_def accounted_def)
  next
    case None
    obtain matched db1 db2 where r: "applyC2BToTenant t c2b None None db = Inr (matched, db1)"
      "insert_c2b (Some t) c2b raw matched OWN db1 = Inr (row, db2)" "db' = restore_matched row db2"
      using run p None by (auto simp: handleC2BConfirmation_def split: sum.splits if_splits)
    have key: "pc_transId c2b \<notin> payment_keys db" by (rule new_number [OF _ num None]) (use ok in \<open>simp add: paybill_ok_def\<close>)
    have "pays c2b matched db db1" by (rule apply_pays [OF _ _ key r(1)]) (use ok in \<open>simp_all add: paybill_ok_def\<close>)
    from insert_accounted [OF ok own_credited [OF ok this] r(2) None num]
    show ?thesis unfolding r(3) by (intro restore_accounted) simp
  qed
qed

lemma platform_tx_cases:
  assumes "platform_c2b_tx c2b raw db = Inr (row, db2)"
  shows "insert_c2b None c2b raw no_match PLATFORM db = Inr (row, db2)
    \<or> (\<exists>(ref :: payment_reference) matched db1 desc db3. applyC2BToTenant (rf_tenantId ref) c2b (rf_invoiceId ref) (rf_customerId ref) db = Inr (matched, db1)
        \<and> collect_matched (rf_tenantId ref) c2b matched (Some (rf_id ref)) desc db1 = Inr db3
        \<and> insert_c2b (Some (rf_tenantId ref)) c2b raw matched PLATFORM db3 = Inr (row, db2))"
proof (cases "find_reference c2b db")
  case None
  then show ?thesis using assms by (simp add: platform_c2b_tx_def)
next
  case (Some ref)
  show ?thesis
  proof (cases "tenant_gone (rf_tenantId ref) db")
    case True
    then show ?thesis using assms Some by (simp add: platform_c2b_tx_def)
  next
    case False
    obtain matched db1 desc db3 where "applyC2BToTenant (rf_tenantId ref) c2b (rf_invoiceId ref) (rf_customerId ref) db = Inr (matched, db1)"
      "collect_matched (rf_tenantId ref) c2b matched (Some (rf_id ref)) desc db1 = Inr db3"
      "insert_c2b (Some (rf_tenantId ref)) c2b raw matched PLATFORM db3 = Inr (row, db2)"
      using assms Some False by (cases "applyC2BToTenant (rf_tenantId ref) c2b (rf_invoiceId ref) (rf_customerId ref) db")
        (auto simp: platform_c2b_tx_def split: sum.splits)
    then show ?thesis by blast
  qed
qed

lemma platform_accounted:
  fixes db :: "'x paybill_db_scheme"
  assumes ok: "paybill_ok I db" and i: "cp_TransID payload \<in> Some ` I"
    and run: "handlePlatformC2BConfirmation shortcode payload raw db = Inr ((row, dup), db')"
  shows "accounted I db db'"
proof -
  obtain c2b where p: "parseC2B (clock db) payload = Inr c2b" using run by (auto simp: handlePlatformC2BConfirmation_def split: sum.splits)
  have num: "pc_transId c2b \<in> I" using parsed_number [OF p] i by auto
  show ?thesis
  proof (cases "find_c2b (pc_transId c2b) db")
    case (Some old)
    then show ?thesis using run p ok by (simp add: handlePlatformC2BConfirmation_def accounted_def)
  next
    case None
    have books: "books_ok db" "wallet_ok db" and key: "pc_transId c2b \<notin> payment_keys db"
      using ok new_number [OF _ num None] by (simp_all add: paybill_ok_def)
    obtain db2 where tx: "platform_c2b_tx c2b raw db = Inr (row, db2)" "db' = restore_matched row db2"
      using run p None by (auto simp: handlePlatformC2BConfirmation_def split: sum.splits if_splits)
    have "accounted I db db2"
      using platform_tx_cases [OF tx(1)]
    proof (elim disjE exE conjE)
      assume i: "insert_c2b None c2b raw no_match PLATFORM db = Inr (row, db2)"
      have "pays c2b no_match db db" using books by (simp add: pays_def no_match_def)
      from insert_accounted [OF ok own_credited [OF ok this] i None num] show ?thesis by (simp add: no_match_def)
    next
      fix ref matched db1 desc db3
      assume r: "applyC2BToTenant (rf_tenantId ref) c2b (rf_invoiceId ref) (rf_customerId ref) db = Inr (matched, db1)"
        "collect_matched (rf_tenantId ref) c2b matched (Some (rf_id ref)) desc db1 = Inr db3"
        "insert_c2b (Some (rf_tenantId ref)) c2b raw matched PLATFORM db3 = Inr (row, db2)"
      have "credited True (rf_tenantId ref) c2b matched db db3"
        by (rule platform_credited [OF ok apply_pays [OF books key r(1)] r(2)])
      from insert_accounted [OF ok this r(3) None num] show ?thesis by simp
    qed
    then show ?thesis unfolding tx(2) by (rule restore_accounted)
  qed
qed

lemma by_hand_accounted:
  fixes db :: "'x paybill_db_scheme"
  assumes ok: "paybill_ok I db" and run: "manuallyReconcileC2BTransaction t k i c db = Inr (row, db')"
  shows "accounted I db db'"
proof -
  obtain r matched db1 db2 where f: "List.find (\<lambda>r. ct_tenantId r = Some t \<and> ct_transactionId r = k) (c2bTransactions db) = Some r"
    "\<not> ct_reconciled r" "applyC2BToTenant t (toParsed r) i c db = Inr (matched, db1)" "cm_paymentId matched \<noteq> None"
    "(if ct_collectedBy r = PLATFORM then collect_matched t (toParsed r) matched None ''Paybill payment (matched manually)'' db1 else Inr db1) = Inr db2"
    "update_c2b (ct_id r) (reconciled_with matched) db2 = Inr (row, db')"
    using run by (auto simp: manuallyReconcileC2BTransaction_def split: option.splits if_splits sum.splits)
  have r: "r \<in> set (c2bTransactions db)" "ct_tenantId r = Some t" using find_SomeD [OF f(1)] by simp_all
  have rows: "rows_ok I db" and books: "books_ok db" "wallet_ok db" using ok by (simp_all add: paybill_ok_def)
  have key: "pc_transId (toParsed r) \<notin> payment_keys db" using open_row_number [OF rows r(1) f(2)] by (simp add: toParsed_def)
  note pays = apply_pays [OF books key f(3)]
  have cr: "credited (ct_collectedBy r = PLATFORM) t (toParsed r) matched db db2"
    using f(5) platform_credited [OF ok pays] own_credited [OF ok pays, of t] by (simp split: if_splits)
  show ?thesis
    by (rule update_accounted [OF ok r(1) f(2) cr f(4) f(6)]) (use r(2) in \<open>cases "ct_collectedBy r"; simp add: reconciled_with_def\<close>)+
qed

lemma assign_accounted:
  fixes db :: "'x paybill_db_scheme"
  assumes ok: "paybill_ok I db" and run: "assignPlatformC2BTransaction k t c i u db = Inr (row, db')"
  shows "accounted I db db'"
proof -
  obtain r matched db1 db2 where f: "find_c2b k db = Some r" "ct_collectedBy r = PLATFORM"
    "\<not> ct_reconciled r" "applyC2BToTenant t (toParsed r) i (Some c) db = Inr (matched, db1)" "cm_paymentId matched \<noteq> None"
    "collect_matched t (toParsed r) matched None ''Paybill payment (assigned by administrator)'' db1 = Inr db2"
    "update_c2b (ct_id r) (\<lambda>r. (reconciled_with matched r)\<lparr>ct_tenantId := Some t, ct_assignedByUserId := Some u\<rparr>) db2 = Inr (row, db')"
    using run by (auto simp: assignPlatformC2BTransaction_def split: option.splits if_splits sum.splits)
  have r: "r \<in> set (c2bTransactions db)" using f(1) by (auto simp: find_c2b_def dest: find_SomeD)
  have rows: "rows_ok I db" and books: "books_ok db" "wallet_ok db" using ok by (simp_all add: paybill_ok_def)
  have key: "pc_transId (toParsed r) \<notin> payment_keys db" using open_row_number [OF rows r f(3)] by (simp add: toParsed_def)
  have cr: "credited True t (toParsed r) matched db db2" by (rule platform_credited [OF ok apply_pays [OF books key f(4)] f(6)])
  show ?thesis
    by (rule update_accounted [OF ok r f(3) cr f(5) f(7)]) (simp_all add: reconciled_with_def f(2))
qed

text \<open>A run of calls; a refused one changes nothing.\<close>

datatype paybill_call =
    Own_paybill id c2b_payload string
  | Platform_paybill c2b_payload string
  | Match_by_hand id string "id option" "id option"
  | Assign string id id "id option" id

definition after :: "'d \<Rightarrow> ('a \<times> 'd) result \<Rightarrow> 'd" where
  "after db r = (case r of Inl e \<Rightarrow> db | Inr (_, db') \<Rightarrow> db')"

fun run_paybill :: "(id \<Rightarrow> string result) \<Rightarrow> string result \<Rightarrow> paybill_call list \<Rightarrow> 'x paybill_db_scheme \<Rightarrow> 'x paybill_db_scheme" where
  "run_paybill shortcodeOf platform [] db = db"
| "run_paybill shortcodeOf platform (call # later) db = run_paybill shortcodeOf platform later (case call of
      Own_paybill t payload raw \<Rightarrow> after db (handleC2BConfirmation shortcodeOf t payload raw db)
    | Platform_paybill payload raw \<Rightarrow> after db (handlePlatformC2BConfirmation platform payload raw db)
    | Match_by_hand t k i c \<Rightarrow> after db (manuallyReconcileC2BTransaction t k i c db)
    | Assign k t c i u \<Rightarrow> after db (assignPlatformC2BTransaction k t c i u db))"

definition confirms_from :: "string set \<Rightarrow> paybill_call \<Rightarrow> bool" where
  "confirms_from I call \<longleftrightarrow> (case call of Own_paybill t p raw \<Rightarrow> cp_TransID p \<in> Some ` I | Platform_paybill p raw \<Rightarrow> cp_TransID p \<in> Some ` I | _ \<Rightarrow> True)"

lemma after_accounted:
  assumes "paybill_ok I db" and "\<And>x db'. r = Inr (x, db') \<Longrightarrow> accounted I db db'"
  shows "accounted I db (after db r)"
  using assms by (cases r) (auto simp: after_def accounted_def)

lemma accounted_trans: "accounted I a b \<Longrightarrow> accounted I b c \<Longrightarrow> accounted I a c"
  by (simp add: accounted_def)

lemma run_paybill_accounted:
  assumes "paybill_ok I db" and "list_all (confirms_from I) calls"
  shows "accounted I db (run_paybill shortcodeOf platform calls db)"
  using assms
proof (induction calls arbitrary: db)
  case Nil
  then show ?case by (simp add: accounted_def)
next
  case (Cons call later)
  let ?db1 = "case call of
      Own_paybill t payload raw \<Rightarrow> after db (handleC2BConfirmation shortcodeOf t payload raw db)
    | Platform_paybill payload raw \<Rightarrow> after db (handlePlatformC2BConfirmation platform payload raw db)
    | Match_by_hand t k i c \<Rightarrow> after db (manuallyReconcileC2BTransaction t k i c db)
    | Assign k t c i u \<Rightarrow> after db (assignPlatformC2BTransaction k t c i u db)"
  have one: "accounted I db ?db1"
    using Cons.prems
    by (cases call) (auto simp: confirms_from_def intro!: after_accounted dest: own_accounted platform_accounted by_hand_accounted assign_accounted)
  have "accounted I ?db1 (run_paybill shortcodeOf platform later ?db1)"
    by (rule Cons.IH) (use one Cons.prems in \<open>simp_all add: accounted_def\<close>)
  from accounted_trans [OF one this] show ?case by simp
qed

text \<open>
  C4. Paybill money is on the books exactly once: whatever confirmations Safaricom sends to tenants'
  paybills and the platform's, in whatever order and however often, mixed with matching by staff and
  by administrators, the money recorded grows by exactly the amounts of the rows that became
  reconciled, what the platform owes a tenant by exactly those of them it collected for that tenant,
  no transaction has two rows, and the books, the wallets and the gateway keep their invariants.
\<close>

theorem paybill_money_recorded_once:
  fixes db :: "'x paybill_db_scheme" and shortcodeOf platform
  assumes "paybill_ok I db" and "list_all (confirms_from I) calls"
  defines "db' \<equiv> run_paybill shortcodeOf platform calls db"
  shows "recorded_total db' = recorded_total db + reconciled_total (c2bTransactions db') - reconciled_total (c2bTransactions db)
    \<and> collectedMinor (getTenantBalance t db') = collectedMinor (getTenantBalance t db)
        + platform_total t (c2bTransactions db') - platform_total t (c2bTransactions db)
    \<and> distinct (map ct_transactionId (c2bTransactions db')) \<and> books_ok db' \<and> wallet_ok db' \<and> gateway_ok db'"
  using run_paybill_accounted [OF assms(1,2), of shortcodeOf platform]
  unfolding accounted_def paybill_ok_def rows_ok_def db'_def by (auto simp: algebra_simps)

section \<open>An example\<close>

definition sample_paybill :: paybill_db where
  "sample_paybill = stk_db.extend push_db \<lparr>c2bTransactions = [], paymentReferences = [\<lparr>rf_id = 12, rf_reference = ''MHABCDEFGH'',
     rf_tenantId = 1, rf_customerId = Some 3, rf_invoiceId = None, rf_purpose = CUSTOMER_ACCOUNT\<rparr>]\<rparr>"

definition sample_confirmation :: c2b_payload where
  "sample_confirmation = \<lparr>cp_TransID = Some ''QX1'', cp_TransTime = Some ''20191122063845'', cp_TransAmount = Some (Finite 10),
     cp_BusinessShortCode = Some ''600000'', cp_BillRefNumber = Some ''mh-abcd efgh'', cp_MSISDN = Some ''254700000001''\<rparr>"

lemma sample_paybill_fields [simp]:
  "nextId sample_paybill = 20" "payments sample_paybill = []" "invoices sample_paybill = []" "receipts sample_paybill = []"
  "wallets sample_paybill = []" "walletTxns sample_paybill = []" "gatewayTxns sample_paybill = []" "ledgerEntries sample_paybill = []"
  "gatewayRefunds sample_paybill = []" "payouts sample_paybill = []" "c2bTransactions sample_paybill = []"
  by (simp_all add: sample_paybill_def push_db_def example_hotspot_def empty_hotspot_def stk_db.defs hotspot_db.defs gateway_db.defs billing_db.defs
      empty_db_def empty_gateway_def)

lemma sample_paybill_ok: "paybill_ok {''QX1''} sample_paybill"
proof -
  have "books_ok sample_paybill" by (simp add: books_ok_def invoices_ok_def payments_ok_def paid_ok_def numbers_dense_def count_where_def)
  moreover have "gateway_ok sample_paybill"
    by (simp add: gateway_ok_def journal_ok_def txns_ok_def refunds_ok_def payouts_ok_def
        linked_def collected_sums_def refund_sums_def payout_sums_def covered_def sum_payouts_def txn_sum_def refund_sum_def)
  ultimately show ?thesis by (simp add: paybill_ok_def rows_ok_def payments_known_def wallet_ok_def payment_keys_def)
qed

theorem paybill_money_recorded_once_witness:
  "recorded_total (run_paybill (\<lambda>t. Inr ''600000'') (Inr ''600000'') [Platform_paybill sample_confirmation ''{}'',
      Platform_paybill sample_confirmation ''{}'', Assign ''QX1'' 1 3 None 5] sample_paybill) =
    reconciled_total (c2bTransactions (run_paybill (\<lambda>t. Inr ''600000'') (Inr ''600000'') [Platform_paybill sample_confirmation ''{}'',
      Platform_paybill sample_confirmation ''{}'', Assign ''QX1'' 1 3 None 5] sample_paybill))"
proof -
  let ?calls = "[Platform_paybill sample_confirmation ''{}'', Platform_paybill sample_confirmation ''{}'', Assign ''QX1'' 1 3 None 5]"
  have "list_all (confirms_from {''QX1''}) ?calls" by (simp add: confirms_from_def sample_confirmation_def)
  moreover have "recorded_total sample_paybill = 0" "reconciled_total (c2bTransactions sample_paybill) = 0"
    by (simp_all add: recorded_total_def wallets_total_def guests_total_def reconciled_total_def)
  ultimately show ?thesis
    using paybill_money_recorded_once [OF sample_paybill_ok, of ?calls "\<lambda>t. Inr ''600000''" "Inr ''600000''" 1] by (simp del: run_paybill.simps)
qed

lemma sample_time: "parseTransTime 0 (Some ''20191122063845'') = Some 1574393925000"
  by code_simp

end
