(* ===== verification/CardPayments.thy ===== *)
theory CardPayments
  imports PaybillPayments
begin

text \<open>
  packages/payments/src/paystack and src/pesapal: payments by card. A transaction is started with
  the provider, and completed by a signed webhook (Paystack), by a notification whose truth is asked
  of the provider (Pesapal), or by a query. Both providers share one table. The providers' HTTP
  clients, with the stored and decrypted credentials, are the environment \<open>card_env\<close>; a token drawn at
  random and the JSON reading of a body are arguments.
\<close>

section \<open>Tables\<close>

datatype card_status = CD_PENDING | CD_COMPLETED | CD_FAILED | CD_ABANDONED

record card_txn =
  cd_id :: id
  cd_tenantId :: id
  cd_customerId :: "id option"
  cd_invoiceId :: "id option"
  cd_hotspotPackageId :: "id option"
  cd_hotspotVoucherCode :: "string option"
  cd_hotspotLinkLoginOnly :: "string option"
  cd_hotspotEmail :: "string option"
  cd_hotspotPhone :: "string option"
  cd_initiatedByUserId :: "id option"
  cd_reference :: string
  cd_amountMinor :: minor
  cd_currency :: string
  cd_status :: card_status
  cd_authorizationUrl :: "string option"
  cd_gatewayResponse :: "string option"
  cd_paymentId :: "id option"
  cd_rawWebhook :: "string option"

record card_db = hotspot_db +
  cardTxns :: "card_txn list"

definition find_card :: "string \<Rightarrow> 'x card_db_scheme \<Rightarrow> card_txn option" where
  "find_card ref db = List.find (\<lambda>r. cd_reference r = ref) (cardTxns db)"

definition insert_card :: "card_txn \<Rightarrow> 'x card_db_scheme \<Rightarrow> (card_txn \<times> 'x card_db_scheme) result" where
  "insert_card row db =
     (if find_card (cd_reference row) db \<noteq> None then Inl UniqueViolation
      else let r = row\<lparr>cd_id := nextId db\<rparr> in Inr (r, db\<lparr>nextId := nextId db + 1, cardTxns := cardTxns db @ [r]\<rparr>))"

definition update_card :: "card_txn \<Rightarrow> (card_txn \<Rightarrow> card_txn) \<Rightarrow> 'x card_db_scheme \<Rightarrow> (card_txn \<times> 'x card_db_scheme) result" where
  "update_card r f db =
     (if \<exists>x \<in> set (cardTxns db). cd_id x \<noteq> cd_id r \<and> cd_paymentId (f r) \<noteq> None \<and> cd_paymentId x = cd_paymentId (f r)
      then Inl UniqueViolation
      else Inr (f r, db\<lparr>cardTxns := update_where (\<lambda>x. cd_id x = cd_id r) f (cardTxns db)\<rparr>))"

section \<open>The providers\<close>

text \<open>An answer, the provider's own error with its message, or any other error.\<close>

datatype 'a api_answer = Answer 'a | ApiError string | Failure app_error

record paystack_result =
  pk_status :: string
  pk_amountMinor :: minor
  pk_gatewayResponse :: string
  pk_raw :: string

record pesapal_status =
  pp_paymentMethod :: string
  pp_amountMinor :: minor
  pp_confirmationCode :: string
  pp_description :: string
  pp_statusCode :: int
  pp_merchantReference :: string
  pp_body :: string

record paystack_client =
  pk_secretKey :: string
  pk_initialize :: "string \<Rightarrow> minor \<Rightarrow> string \<Rightarrow> string \<Rightarrow> (string \<times> string) api_answer"
  pk_verify :: "string \<Rightarrow> paystack_result api_answer"

record pesapal_client =
  pp_submit :: "string \<Rightarrow> minor \<Rightarrow> string \<Rightarrow> string \<Rightarrow> (string \<times> string) api_answer"
  pp_getStatus :: "string \<Rightarrow> pesapal_status api_answer"

record paystack_event =
  ev_event :: string
  ev_reference :: string
  ev_status :: string
  ev_amount :: minor
  ev_gatewayResponse :: string

record card_env =
  ce_paystack :: "id \<Rightarrow> paystack_client result"
  ce_pesapal :: "id \<Rightarrow> pesapal_client result"
  ce_hmac512 :: "string \<Rightarrow> string \<Rightarrow> string"
  ce_sha256 :: "string \<Rightarrow> string"
  ce_parse :: "string \<Rightarrow> paystack_event option"
  ce_idText :: "id \<Rightarrow> string"

section \<open>Starting a transaction\<close>

record start_input =
  si_customerId :: id
  si_invoiceId :: "id option"
  si_amountMinor :: minor
  si_currency :: "string option"
  si_initiatedByUserId :: id

record hotspot_start_input =
  hi_hotspotPackageId :: id
  hi_email :: string
  hi_phone :: "string option"
  hi_linkLoginOnly :: "string option"

definition new_card :: "id \<Rightarrow> string \<Rightarrow> minor \<Rightarrow> string \<Rightarrow> string \<Rightarrow> card_txn" where
  "new_card tenantId reference amountMinor currency url =
     \<lparr>cd_id = 0, cd_tenantId = tenantId, cd_customerId = None, cd_invoiceId = None, cd_hotspotPackageId = None,
      cd_hotspotVoucherCode = None, cd_hotspotLinkLoginOnly = None, cd_hotspotEmail = None, cd_hotspotPhone = None,
      cd_initiatedByUserId = None, cd_reference = reference, cd_amountMinor = amountMinor, cd_currency = currency,
      cd_status = CD_PENDING, cd_authorizationUrl = Some url, cd_gatewayResponse = None, cd_paymentId = None, cd_rawWebhook = None\<rparr>"

text \<open>The customer and the e-mail to charge, once the invoice named is one that can be paid by them.\<close>

definition payer_of :: "string \<Rightarrow> id \<Rightarrow> start_input \<Rightarrow> 'x billing_db_scheme \<Rightarrow> (customer \<times> string) result" where
  "payer_of noEmail tenantId inp db =
     (if si_amountMinor inp \<le> 0 then Inl (ValidationError ''Amount must be positive'')
      else case List.find (\<lambda>c. c_id c = si_customerId inp \<and> c_tenantId c = tenantId \<and> c_deletedAt c = None) (customers db) of
        None \<Rightarrow> Inl (NotFoundError ''Customer'')
      | Some customer \<Rightarrow>
          (case c_email customer of
             None \<Rightarrow> Inl (ValidationError noEmail)
           | Some email \<Rightarrow>
               if email = [] then Inl (ValidationError noEmail)
               else (case si_invoiceId inp of None \<Rightarrow> Inr (customer, email)
                 | Some i \<Rightarrow>
                     (case find_invoice_in tenantId i db of
                        None \<Rightarrow> Inl (NotFoundError ''Invoice'')
                      | Some invoice \<Rightarrow>
                          if i_customerId invoice \<noteq> c_id customer then Inl (ConflictError ''Invoice does not belong to this customer'')
                          else if i_status invoice = I_PAID then Inl (ConflictError ''Invoice is already fully paid'')
                          else Inr (customer, email)))))"

definition reference_with :: "string \<Rightarrow> nat \<Rightarrow> card_env \<Rightarrow> id \<Rightarrow> string \<Rightarrow> string" where
  "reference_with prefix n env tenantId token = prefix @ take n (ce_idText env tenantId) @ ''-'' @ filter is_alnum token"

text \<open>What the provider made of the start: its own error is a conflict for the caller.\<close>

definition started :: "'a api_answer \<Rightarrow> 'a result" where
  "started answer = (case answer of Answer a \<Rightarrow> Inr a | ApiError message \<Rightarrow> Inl (ConflictError message) | Failure e \<Rightarrow> Inl e)"

definition initiatePaystackTransactionForCustomer ::
  "card_env \<Rightarrow> string \<Rightarrow> id \<Rightarrow> start_input \<Rightarrow> 'x card_db_scheme \<Rightarrow> ((card_txn \<times> string) \<times> 'x card_db_scheme) result" where
  "initiatePaystackTransactionForCustomer env token tenantId inp db =
     (case payer_of (''This customer has no email on file '' @ em_dash @ '' Paystack requires one to initialize a transaction'') tenantId inp db of
        Inl e \<Rightarrow> Inl e
      | Inr (customer, email) \<Rightarrow>
          (case ce_paystack env tenantId of Inl e \<Rightarrow> Inl e
           | Inr client \<Rightarrow>
               let currency = or_default ''KES'' (si_currency inp); reference = reference_with '''' 8 env tenantId token
               in (case started (pk_initialize client email (si_amountMinor inp) currency reference) of Inl e \<Rightarrow> Inl e
                   | Inr (given, url) \<Rightarrow>
                       (case insert_card ((new_card tenantId given (si_amountMinor inp) currency url)
                               \<lparr>cd_customerId := Some (c_id customer), cd_invoiceId := si_invoiceId inp,
                                cd_initiatedByUserId := Some (si_initiatedByUserId inp)\<rparr>) db of
                          Inl e \<Rightarrow> Inl e | Inr (r, db') \<Rightarrow> Inr ((r, url), db')))))"

definition initiatePaystackHotspotPurchase ::
  "card_env \<Rightarrow> string \<Rightarrow> id \<Rightarrow> hotspot_start_input \<Rightarrow> 'x card_db_scheme \<Rightarrow> ((card_txn \<times> string) \<times> 'x card_db_scheme) result" where
  "initiatePaystackHotspotPurchase env token tenantId inp db =
     (case List.find (\<lambda>p. hp_id p = hi_hotspotPackageId inp \<and> hp_tenantId p = tenantId \<and> hp_isActive p) (hotspotPackages db) of
        None \<Rightarrow> Inl (NotFoundError ''HotspotPackage'')
      | Some pkg \<Rightarrow>
          (case ce_paystack env tenantId of Inl e \<Rightarrow> Inl e
           | Inr client \<Rightarrow>
               let currency = (if hp_currency pkg = [] then ''KES'' else hp_currency pkg); reference = reference_with ''HS-'' 6 env tenantId token
               in (case started (pk_initialize client (trim (hi_email inp)) (hp_priceMinor pkg) currency reference) of Inl e \<Rightarrow> Inl e
                   | Inr (given, url) \<Rightarrow>
                       (case insert_card ((new_card tenantId given (hp_priceMinor pkg) currency url)
                               \<lparr>cd_hotspotPackageId := Some (hp_id pkg), cd_hotspotLinkLoginOnly := hi_linkLoginOnly inp,
                                cd_hotspotEmail := Some (trim (hi_email inp)), cd_hotspotPhone := map_option trim (hi_phone inp)\<rparr>) db of
                          Inl e \<Rightarrow> Inl e | Inr (r, db') \<Rightarrow> Inr ((r, url), db')))))"

text \<open>With the tracking number the provider gave.\<close>

definition initiatePesapalTransactionForCustomer ::
  "card_env \<Rightarrow> string \<Rightarrow> id \<Rightarrow> start_input \<Rightarrow> 'x card_db_scheme \<Rightarrow> ((card_txn \<times> string \<times> string) \<times> 'x card_db_scheme) result" where
  "initiatePesapalTransactionForCustomer env token tenantId inp db =
     (case payer_of ''Customer must have an email address on file to pay via Pesapal'' tenantId inp db of
        Inl e \<Rightarrow> Inl e
      | Inr (customer, email) \<Rightarrow>
          (case ce_pesapal env tenantId of Inl e \<Rightarrow> Inl e
           | Inr client \<Rightarrow>
               let currency = or_default ''KES'' (si_currency inp); reference = reference_with ''PESA-'' 6 env tenantId token
               in (case started (pp_submit client email (si_amountMinor inp) currency reference) of Inl e \<Rightarrow> Inl e
                   | Inr (trackingId, url) \<Rightarrow>
                       (case insert_card ((new_card tenantId reference (si_amountMinor inp) currency url)
                               \<lparr>cd_customerId := Some (c_id customer), cd_invoiceId := si_invoiceId inp,
                                cd_initiatedByUserId := Some (si_initiatedByUserId inp)\<rparr>) db of
                          Inl e \<Rightarrow> Inl e | Inr (r, db') \<Rightarrow> Inr ((r, url, trackingId), db')))))"

definition initiatePesapalHotspotPurchase ::
  "card_env \<Rightarrow> string \<Rightarrow> id \<Rightarrow> hotspot_start_input \<Rightarrow> 'x card_db_scheme \<Rightarrow> ((card_txn \<times> string \<times> string) \<times> 'x card_db_scheme) result" where
  "initiatePesapalHotspotPurchase env token tenantId inp db =
     (case List.find (\<lambda>p. hp_id p = hi_hotspotPackageId inp \<and> hp_tenantId p = tenantId \<and> hp_isActive p) (hotspotPackages db) of
        None \<Rightarrow> Inl (NotFoundError ''Hotspot package'')
      | Some pkg \<Rightarrow>
          (case ce_pesapal env tenantId of Inl e \<Rightarrow> Inl e
           | Inr client \<Rightarrow>
               if tenantId \<notin> t_id ` set (tenants db) then Inl RecordNotFound
               else let reference = reference_with ''PESA-HP-'' 6 env tenantId token
               in (case started (pp_submit client (trim (hi_email inp)) (hp_priceMinor pkg) ''KES'' reference) of Inl e \<Rightarrow> Inl e
                   | Inr (trackingId, url) \<Rightarrow>
                       (case insert_card ((new_card tenantId reference (hp_priceMinor pkg) ''KES'' url)\<lparr>cd_hotspotPackageId := Some (hp_id pkg)\<rparr>) db of
                          Inl e \<Rightarrow> Inl e | Inr (r, db') \<Rightarrow> Inr ((r, url, trackingId), db')))))"

section \<open>Completing a transaction\<close>

definition guest_card_payment ::
  "id \<Rightarrow> minor \<Rightarrow> string \<Rightarrow> string \<Rightarrow> 'x billing_db_scheme \<Rightarrow> (payment \<times> 'x billing_db_scheme) result" where
  "guest_card_payment tenantId amountMinor currency reference db =
     (if reference \<in> p_idempotencyKey ` set (payments db) then Inl UniqueViolation
      else let p = \<lparr>p_id = nextId db, p_tenantId = tenantId, p_customerId = None, p_invoiceId = None, p_method = PAYSTACK,
             p_status = P_COMPLETED, p_amountMinor = amountMinor, p_currency = currency, p_reference = Some reference,
             p_idempotencyKey = reference, p_recordedByUserId = None, p_reversedAt = None, p_reversalReason = None,
             p_createdAt = clock db\<rparr>
           in Inr (p, db\<lparr>nextId := nextId db + 1, payments := payments db @ [p]\<rparr>))"

text \<open>A guest's voucher, with its RADIUS rows, and the payment for it. The rows are those of an M-Pesa purchase.\<close>

definition card_guest_sale ::
  "string \<Rightarrow> id \<Rightarrow> card_txn \<Rightarrow> id \<Rightarrow> 'x hotspot_db_scheme \<Rightarrow> ((id option \<times> string option) \<times> 'x hotspot_db_scheme) result" where
  "card_guest_sale rawToken tenantId r packageId db =
     (case find_hotspot_package packageId db of None \<Rightarrow> Inl RecordNotFound
      | Some pkg \<Rightarrow>
          (case issue_voucher tenantId pkg (randomVoucherCode rawToken) db of Inl e \<Rightarrow> Inl e
           | Inr (v, db1) \<Rightarrow>
               (case guest_card_payment tenantId (cd_amountMinor r) (cd_currency r) (cd_reference r) db1 of Inl e \<Rightarrow> Inl e
                | Inr (p, db2) \<Rightarrow> Inr ((Some (p_id p), Some (v_code v)), db2))))"

text \<open>An invoice payment or a top-up of the amount that was asked for; \<open>shown\<close> is the reference it carries.\<close>

definition card_account_payment ::
  "string \<Rightarrow> id \<Rightarrow> card_txn \<Rightarrow> id \<Rightarrow> 'x billing_db_scheme \<Rightarrow> ((id option \<times> string option) \<times> 'x billing_db_scheme) result" where
  "card_account_payment shown tenantId r customerId db =
     (case (case cd_invoiceId r of
              Some i \<Rightarrow> recordPaymentForInvoiceCore tenantId
                \<lparr>in_invoiceId = i, in_method = PAYSTACK, in_amountMinor = cd_amountMinor r, in_reference = Some shown,
                 in_recordedByUserId = None, in_idempotencyKey = cd_reference r, in_allowOverpayment = True\<rparr> db
            | None \<Rightarrow> topUpWalletCore tenantId
                \<lparr>tu_customerId = customerId, tu_amountMinor = cd_amountMinor r, tu_method = PAYSTACK, tu_currency = None,
                 tu_reference = Some shown, tu_recordedByUserId = None, tu_idempotencyKey = cd_reference r\<rparr> db) of
        Inl e \<Rightarrow> Inl e
      | Inr (paid, db1) \<Rightarrow> Inr ((Some (p_id (res_payment paid)), None), db1))"

definition settle_card ::
  "string \<Rightarrow> string \<Rightarrow> id \<Rightarrow> card_txn \<Rightarrow> 'x hotspot_db_scheme \<Rightarrow> ((id option \<times> string option) \<times> 'x hotspot_db_scheme) result" where
  "settle_card rawToken shown tenantId r db =
     (case cd_hotspotPackageId r of
        Some packageId \<Rightarrow> card_guest_sale rawToken tenantId r packageId db
      | None \<Rightarrow> (case cd_customerId r of
          Some customerId \<Rightarrow> card_account_payment shown tenantId r customerId db
        | None \<Rightarrow> Inr ((None, None), db)))"

definition completed_card :: "string \<Rightarrow> string \<Rightarrow> id option \<Rightarrow> string option \<Rightarrow> card_txn \<Rightarrow> card_txn" where
  "completed_card response raw paymentId voucherCode r =
     r\<lparr>cd_status := CD_COMPLETED, cd_gatewayResponse := Some response, cd_paymentId := paymentId,
       cd_hotspotVoucherCode := voucherCode, cd_rawWebhook := Some raw\<rparr>"

definition closed_card :: "card_status \<Rightarrow> string \<Rightarrow> string \<Rightarrow> card_txn \<Rightarrow> card_txn" where
  "closed_card status response raw r = r\<lparr>cd_status := status, cd_gatewayResponse := Some response, cd_rawWebhook := Some raw\<rparr>"

definition complete_card_success ::
  "string \<Rightarrow> string \<Rightarrow> string \<Rightarrow> string \<Rightarrow> id \<Rightarrow> card_txn \<Rightarrow> 'x card_db_scheme \<Rightarrow> (card_txn \<times> 'x card_db_scheme) result" where
  "complete_card_success rawToken shown response raw tenantId r db =
     (case settle_card rawToken shown tenantId r db of Inl e \<Rightarrow> Inl e
      | Inr ((paymentId, voucherCode), db1) \<Rightarrow> update_card r (completed_card response raw paymentId voucherCode) db1)"

text \<open>After the commit, the services of a customer who paid are restored.\<close>

definition restore_completed :: "id \<Rightarrow> card_txn \<Rightarrow> 'x billing_db_scheme \<Rightarrow> 'x billing_db_scheme" where
  "restore_completed tenantId r db =
     (if cd_status r = CD_COMPLETED then snd (restoreServiceAfterPayment tenantId (cd_customerId r) db) else db)"

definition paystack_tx ::
  "string \<Rightarrow> id \<Rightarrow> string \<Rightarrow> paystack_result \<Rightarrow> 'x card_db_scheme \<Rightarrow> (card_txn \<times> 'x card_db_scheme) result" where
  "paystack_tx rawToken tenantId reference res db =
     (case find_card reference db of None \<Rightarrow> Inl (NotFoundError ''Paystack transaction'')
      | Some r \<Rightarrow>
          if cd_tenantId r \<noteq> tenantId then Inl (NotFoundError ''Paystack transaction'')
          else if cd_status r \<noteq> CD_PENDING then Inr (r, db)
          else if pk_status res = ''success''
          then complete_card_success rawToken reference (pk_gatewayResponse res) (pk_raw res) tenantId r db
          else update_card r (closed_card (if pk_status res = ''abandoned'' then CD_ABANDONED else CD_FAILED) (pk_gatewayResponse res) (pk_raw res)) db)"

definition completePaystackTransaction ::
  "string \<Rightarrow> id \<Rightarrow> string \<Rightarrow> paystack_result \<Rightarrow> 'x card_db_scheme \<Rightarrow> (card_txn \<times> 'x card_db_scheme) result" where
  "completePaystackTransaction rawToken tenantId reference res db =
     (case paystack_tx rawToken tenantId reference res db of Inl e \<Rightarrow> Inl e
      | Inr (r, db1) \<Rightarrow> Inr (r, restore_completed tenantId r db1))"

datatype pesapal_outcome = PESA_COMPLETED | PESA_FAILED | PESA_PENDING

record pesapal_result =
  pr_status :: pesapal_outcome
  pr_amountMinor :: minor
  pr_confirmationCode :: string
  pr_gatewayResponse :: string
  pr_raw :: string

definition pesapal_tx ::
  "string \<Rightarrow> id \<Rightarrow> string \<Rightarrow> pesapal_result \<Rightarrow> 'x card_db_scheme \<Rightarrow> (card_txn option \<times> 'x card_db_scheme) result" where
  "pesapal_tx rawToken tenantId reference res db =
     (let kept = (\<lambda>out. case out of Inl e \<Rightarrow> Inl e | Inr (r, db') \<Rightarrow> Inr (Some r, db'))
      in case find_card reference db of None \<Rightarrow> Inr (None, db)
         | Some r \<Rightarrow>
             if cd_tenantId r \<noteq> tenantId then Inr (None, db)
             else if cd_status r \<noteq> CD_PENDING then Inr (Some r, db)
             else (case pr_status res of
                 PESA_COMPLETED \<Rightarrow> kept (complete_card_success rawToken (if pr_confirmationCode res = [] then reference else pr_confirmationCode res)
                   (pr_gatewayResponse res) (pr_raw res) tenantId r db)
               | PESA_FAILED \<Rightarrow> kept (update_card r (closed_card CD_FAILED (pr_gatewayResponse res) (pr_raw res)) db)
               | PESA_PENDING \<Rightarrow> Inr (Some r, db)))"

definition completePesapalTransaction ::
  "string \<Rightarrow> id \<Rightarrow> string \<Rightarrow> pesapal_result \<Rightarrow> 'x card_db_scheme \<Rightarrow> (card_txn option \<times> 'x card_db_scheme) result" where
  "completePesapalTransaction rawToken tenantId reference res db =
     (case pesapal_tx rawToken tenantId reference res db of Inl e \<Rightarrow> Inl e
      | Inr (None, db1) \<Rightarrow> Inr (None, db1)
      | Inr (Some r, db1) \<Rightarrow> Inr (Some r, restore_completed tenantId r db1))"

section \<open>Webhooks, notifications and queries\<close>

definition timingSafeStringEqual :: "(string \<Rightarrow> string) \<Rightarrow> string \<Rightarrow> string \<Rightarrow> bool" where
  "timingSafeStringEqual sha a b \<longleftrightarrow> sha a = sha b"

definition isValidPaystackSignature :: "card_env \<Rightarrow> string \<Rightarrow> string option \<Rightarrow> string \<Rightarrow> bool" where
  "isValidPaystackSignature env rawBody signature secretKey =
     (case signature of None \<Rightarrow> False
      | Some s \<Rightarrow> s \<noteq> [] \<and> timingSafeStringEqual (ce_sha256 env) (ce_hmac512 env secretKey rawBody) s)"

text \<open>Whether the event was handled, and its reference.\<close>

definition handlePaystackWebhook ::
  "string \<Rightarrow> string \<Rightarrow> id \<Rightarrow> paystack_event \<Rightarrow> 'x card_db_scheme \<Rightarrow> ((bool \<times> string option) \<times> 'x card_db_scheme) result" where
  "handlePaystackWebhook rawToken rawBody tenantId ev db =
     (if ev_event ev \<noteq> ''charge.success'' \<and> \<not> starts_with ''charge.'' (ev_event ev) then Inr ((False, None), db)
      else case find_card (ev_reference ev) db of None \<Rightarrow> Inr ((False, Some (ev_reference ev)), db)
        | Some existing \<Rightarrow>
            if cd_tenantId existing \<noteq> tenantId then Inr ((False, Some (ev_reference ev)), db)
            else (case completePaystackTransaction rawToken tenantId (ev_reference ev)
                     \<lparr>pk_status = ev_status ev, pk_amountMinor = ev_amount ev, pk_gatewayResponse = ev_gatewayResponse ev, pk_raw = rawBody\<rparr> db of
                    Inl e \<Rightarrow> Inl e
                  | Inr (_, db') \<Rightarrow> Inr ((True, Some (ev_reference ev)), db')))"

text \<open>The route: the status answered. The messages to the buyer are left out.\<close>

definition paystackWebhookRoute ::
  "card_env \<Rightarrow> string \<Rightarrow> string \<Rightarrow> string option \<Rightarrow> 'x card_db_scheme \<Rightarrow> (nat \<times> 'x card_db_scheme) result" where
  "paystackWebhookRoute env rawToken rawBody signature db =
     (case ce_parse env rawBody of None \<Rightarrow> Inr (200, db)
      | Some ev \<Rightarrow>
          (case (if ev_reference ev = [] then None else find_card (ev_reference ev) db) of None \<Rightarrow> Inr (200, db)
           | Some r \<Rightarrow>
               (case ce_paystack env (cd_tenantId r) of Inl e \<Rightarrow> Inl e
                | Inr client \<Rightarrow>
                    if rawBody = [] \<or> \<not> isValidPaystackSignature env rawBody signature (pk_secretKey client) then Inr (401, db)
                    else (case handlePaystackWebhook rawToken rawBody (cd_tenantId r) ev db of Inl e \<Rightarrow> Inl e
                          | Inr (_, db') \<Rightarrow> Inr (200, db')))))"

definition verifyAndReconcilePaystackTransaction ::
  "card_env \<Rightarrow> string \<Rightarrow> id \<Rightarrow> string \<Rightarrow> 'x card_db_scheme \<Rightarrow> (card_txn \<times> 'x card_db_scheme) result" where
  "verifyAndReconcilePaystackTransaction env rawToken tenantId reference db =
     (case List.find (\<lambda>r. cd_tenantId r = tenantId \<and> cd_reference r = reference) (cardTxns db) of
        None \<Rightarrow> Inl (NotFoundError ''Paystack transaction'')
      | Some r \<Rightarrow>
          if cd_status r \<noteq> CD_PENDING then Inr (r, db)
          else (case ce_paystack env tenantId of Inl e \<Rightarrow> Inl e
                | Inr client \<Rightarrow>
                    (case pk_verify client reference of
                       ApiError _ \<Rightarrow> Inr (r, db)
                     | Failure e \<Rightarrow> Inl e
                     | Answer res \<Rightarrow> completePaystackTransaction rawToken tenantId reference res db)))"

definition pesapal_completed :: "pesapal_status \<Rightarrow> bool" where
  "pesapal_completed st \<longleftrightarrow> map to_upper (pp_description st) = ''COMPLETED'' \<or> pp_statusCode st = 1"

definition pesapal_failed :: "pesapal_status \<Rightarrow> bool" where
  "pesapal_failed st \<longleftrightarrow> map to_upper (pp_description st) = ''FAILED'' \<or> map to_upper (pp_description st) = ''INVALID'' \<or> pp_statusCode st = 2"

definition pesapal_reading :: "pesapal_status \<Rightarrow> pesapal_result" where
  "pesapal_reading st = \<lparr>pr_status = (if pesapal_completed st then PESA_COMPLETED else if pesapal_failed st then PESA_FAILED else PESA_PENDING),
     pr_amountMinor = pp_amountMinor st, pr_confirmationCode = pp_confirmationCode st,
     pr_gatewayResponse = pp_paymentMethod st @ '' - '' @ pp_description st, pr_raw = pp_body st\<rparr>"

text \<open>The status is asked for the tracking number; the transaction is the one of the merchant reference.\<close>

definition handlePesapalIpn ::
  "card_env \<Rightarrow> string \<Rightarrow> id \<Rightarrow> string \<Rightarrow> string \<Rightarrow> 'x card_db_scheme \<Rightarrow> (pesapal_outcome \<times> 'x card_db_scheme) result" where
  "handlePesapalIpn env rawToken tenantId orderTrackingId reference db =
     (case ce_pesapal env tenantId of Inl e \<Rightarrow> Inl e
      | Inr client \<Rightarrow>
          (case pp_getStatus client orderTrackingId of
             ApiError message \<Rightarrow> Inl (UnexpectedError message)
           | Failure e \<Rightarrow> Inl e
           | Answer st \<Rightarrow>
               (case completePesapalTransaction rawToken tenantId reference (pesapal_reading st) db of Inl e \<Rightarrow> Inl e
                | Inr (_, db') \<Rightarrow> Inr (pr_status (pesapal_reading st), db'))))"

definition pesapalIpnRoute ::
  "card_env \<Rightarrow> string \<Rightarrow> string \<Rightarrow> string \<Rightarrow> id option \<Rightarrow> 'x card_db_scheme \<Rightarrow> 'x card_db_scheme result" where
  "pesapalIpnRoute env rawToken orderTrackingId reference tenantIdQuery db =
     (if orderTrackingId = [] \<or> reference = [] then Inl (ValidationError ''Required'')
      else case (case find_card reference db of Some r \<Rightarrow> Some (cd_tenantId r) | None \<Rightarrow> tenantIdQuery) of
        None \<Rightarrow> Inr db
      | Some tenantId \<Rightarrow>
          (case handlePesapalIpn env rawToken tenantId orderTrackingId reference db of Inl e \<Rightarrow> Inl e | Inr (_, db') \<Rightarrow> Inr db'))"

definition verifyAndReconcilePesapalTransaction ::
  "card_env \<Rightarrow> string \<Rightarrow> id \<Rightarrow> string \<Rightarrow> string option \<Rightarrow> 'x card_db_scheme \<Rightarrow> (card_txn \<times> 'x card_db_scheme) result" where
  "verifyAndReconcilePesapalTransaction env rawToken tenantId reference orderTrackingId db =
     (case find_card reference db of None \<Rightarrow> Inl (NotFoundError ''Pesapal transaction'')
      | Some r \<Rightarrow>
          if cd_tenantId r \<noteq> tenantId then Inl (NotFoundError ''Pesapal transaction'')
          else if cd_status r \<noteq> CD_PENDING then Inr (r, db)
          else (case ce_pesapal env tenantId of Inl e \<Rightarrow> Inl e
                | Inr client \<Rightarrow>
                    (case pp_getStatus client (case orderTrackingId of None \<Rightarrow> reference | Some k \<Rightarrow> if k = [] then reference else k) of
                       Answer st \<Rightarrow>
                         if pesapal_completed st \<or> pesapal_failed st
                         then (case completePesapalTransaction rawToken tenantId reference (pesapal_reading st) db of Inl e \<Rightarrow> Inl e
                               | Inr (_, db') \<Rightarrow> Inr (or_default r (find_card reference db'), db'))
                         else Inr (r, db)
                     | _ \<Rightarrow> Inr (r, db))))"

section \<open>What is on the books\<close>

definition is_sale :: "card_txn \<Rightarrow> bool" where
  "is_sale r \<longleftrightarrow> cd_hotspotPackageId r \<noteq> None \<or> cd_customerId r \<noteq> None"

definition card_total :: "'x card_db_scheme \<Rightarrow> minor" where
  "card_total db = sum_where (\<lambda>r. cd_status r = CD_COMPLETED \<and> is_sale r) cd_amountMinor (cardTxns db)"

text \<open>\<open>I\<close> are the references of card transactions: no payment has one of them but that of its row, once it is not open.\<close>

definition cards_ok :: "string set \<Rightarrow> 'x card_db_scheme \<Rightarrow> bool" where
  "cards_ok I db \<longleftrightarrow> distinct (map cd_id (cardTxns db)) \<and> distinct (map cd_reference (cardTxns db))
     \<and> (\<forall>r \<in> set (cardTxns db). cd_id r < nextId db \<and> cd_reference r \<in> I \<and> 0 \<le> cd_amountMinor r)
     \<and> (\<forall>p \<in> set (hotspotPackages db). 0 \<le> hp_priceMinor p)
     \<and> (\<forall>k \<in> payment_keys db \<inter> I. \<exists>r \<in> set (cardTxns db). cd_reference r = k \<and> cd_status r \<noteq> CD_PENDING)"

definition card_ok :: "string set \<Rightarrow> 'x card_db_scheme \<Rightarrow> bool" where
  "card_ok I db \<longleftrightarrow> books_ok db \<and> wallet_ok db \<and> cards_ok I db"

text \<open>The invariant holds, a decided transaction stays as it is, and the books moved by what was completed.\<close>

definition card_accounted :: "string set \<Rightarrow> 'x card_db_scheme \<Rightarrow> 'x card_db_scheme \<Rightarrow> bool" where
  "card_accounted I db db' \<longleftrightarrow> card_ok I db'
     \<and> (\<forall>r \<in> set (cardTxns db). cd_status r \<noteq> CD_PENDING \<longrightarrow> r \<in> set (cardTxns db'))
     \<and> recorded_total db' - card_total db' = recorded_total db - card_total db"

lemma card_accounted_refl: "card_ok I db \<Longrightarrow> card_accounted I db db"
  by (simp add: card_accounted_def)

lemma card_accounted_trans: "card_accounted I db d1 \<Longrightarrow> card_accounted I d1 d2 \<Longrightarrow> card_accounted I db d2"
  by (auto simp: card_accounted_def)

lemma card_of_more:
  fixes db db' :: "'x card_db_scheme"
  shows "billing_db.more db' = billing_db.more db \<Longrightarrow> cardTxns db' = cardTxns db \<and> hotspotPackages db' = hotspotPackages db"
  by (cases db; cases db'; simp)

lemma guest_card_records:
  assumes ok: "books_ok db" "wallet_ok db" and run: "guest_card_payment t a cur reference db = Inr (p, db')" and a: "0 \<le> a"
  shows "books_ok db' \<and> wallet_ok db' \<and> recorded_total db' = recorded_total db + a \<and> nextId db < nextId db'
    \<and> billing_db.more db' = billing_db.more db \<and> payment_keys db' = insert reference (payment_keys db)"
proof -
  have db': "reference \<notin> p_idempotencyKey ` set (payments db)" "db' = db\<lparr>nextId := nextId db + 1, payments := payments db @ [p]\<rparr>"
    and p: "p_id p = nextId db" "p_customerId p = None" "p_invoiceId p = None" "p_amountMinor p = a" "p_status p = P_COMPLETED"
      "p_idempotencyKey p = reference"
    using run by (auto simp: guest_card_payment_def Let_def split: if_splits)
  then show ?thesis using guest_row_records [OF ok, of p db'] a by (simp add: payment_keys_def)
qed

lemma settle_records:
  fixes db db1 :: "'x card_db_scheme"
  assumes ok: "card_ok I db" and r: "r \<in> set (cardTxns db)" "cd_status r = CD_PENDING"
    and run: "settle_card rawToken shown t r db = Inr ((pid, code), db1)"
  shows "books_ok db1 \<and> wallet_ok db1 \<and> recorded_total db1 = recorded_total db + (if is_sale r then cd_amountMinor r else 0)
    \<and> payment_keys db1 \<subseteq> insert (cd_reference r) (payment_keys db) \<and> cardTxns db1 = cardTxns db
    \<and> hotspotPackages db1 = hotspotPackages db \<and> nextId db \<le> nextId db1"
proof -
  have b: "books_ok db" "wallet_ok db" and c: "cards_ok I db" using ok by (simp_all add: card_ok_def)
  have key: "cd_reference r \<notin> payment_keys db"
  proof
    assume "cd_reference r \<in> payment_keys db"
    then obtain s where s: "s \<in> set (cardTxns db)" "cd_reference s = cd_reference r" "cd_status s \<noteq> CD_PENDING"
      using c r(1) unfolding cards_ok_def by blast
    have "s = r" by (rule key_eq_rows [OF _ s(1) r(1) s(2)]) (use c in \<open>simp add: cards_ok_def\<close>)
    with s(3) r(2) show False by simp
  qed
  have a: "0 \<le> cd_amountMinor r" using c r(1) by (simp add: cards_ok_def)
  consider (guest) packageId where "cd_hotspotPackageId r = Some packageId"
    | (account) customerId where "cd_hotspotPackageId r = None" "cd_customerId r = Some customerId"
    | (none) "cd_hotspotPackageId r = None" "cd_customerId r = None" by fastforce
  then show ?thesis
  proof cases
    case none
    then show ?thesis using run b by (auto simp: settle_card_def is_sale_def)
  next
    case guest
    then obtain pkg v d1 p where h1: "issue_voucher t pkg (randomVoucherCode rawToken) db = Inr (v, d1)"
      and h2: "guest_card_payment t (cd_amountMinor r) (cd_currency r) (cd_reference r) d1 = Inr (p, db1)"
      using run by (auto simp: settle_card_def card_guest_sale_def split: option.splits sum.splits)
    have d1: "invoices d1 = invoices db" "payments d1 = payments db" "receipts d1 = receipts db" "wallets d1 = wallets db"
      "walletTxns d1 = walletTxns db" "nextId db \<le> nextId d1" "cardTxns d1 = cardTxns db" "hotspotPackages d1 = hotspotPackages db"
      using h1 by (auto simp: issue_voucher_def Let_def split: if_splits)
    have b1: "books_ok d1" by (rule books_ok_cong [OF b(1)]) (use d1 in simp_all)
    have w1: "wallet_ok d1" by (rule wallet_ok_cong [OF b(2)]) (use d1 in simp_all)
    have t1: "recorded_total d1 = recorded_total db" by (rule recorded_total_cong) (use d1 in simp_all)
    note g = guest_card_records [OF b1 w1 h2 a]
    have "payment_keys d1 = payment_keys db" by (rule payment_keys_cong) (use d1 in simp)
    then show ?thesis using g t1 d1 guest card_of_more [of db1 d1] by (auto simp: is_sale_def)
  next
    case account
    then obtain paid where p: "(case cd_invoiceId r of
              Some i \<Rightarrow> recordPaymentForInvoiceCore t
                \<lparr>in_invoiceId = i, in_method = PAYSTACK, in_amountMinor = cd_amountMinor r, in_reference = Some shown,
                 in_recordedByUserId = None, in_idempotencyKey = cd_reference r, in_allowOverpayment = True\<rparr> db
            | None \<Rightarrow> topUpWalletCore t
                \<lparr>tu_customerId = customerId, tu_amountMinor = cd_amountMinor r, tu_method = PAYSTACK, tu_currency = None,
                 tu_reference = Some shown, tu_recordedByUserId = None, tu_idempotencyKey = cd_reference r\<rparr> db) = Inr (paid, db1)"
      using run by (auto simp: settle_card_def card_account_payment_def split: sum.splits)
    have "books_ok db1 \<and> wallet_ok db1 \<and> recorded_total db1 = recorded_total db + cd_amountMinor r
        \<and> payment_keys db1 = insert (cd_reference r) (payment_keys db) \<and> billing_db.more db1 = billing_db.more db \<and> nextId db \<le> nextId db1"
    proof (cases "cd_invoiceId r")
      case (Some i)
      with p have q: "recordPaymentForInvoiceCore t
                \<lparr>in_invoiceId = i, in_method = PAYSTACK, in_amountMinor = cd_amountMinor r, in_reference = Some shown,
                 in_recordedByUserId = None, in_idempotencyKey = cd_reference r, in_allowOverpayment = True\<rparr> db = Inr (paid, db1)" by simp
      from invoice_records [OF b q] invoice_key [OF b q] recordPayment_grows [OF q] key show ?thesis by (simp add: payment_keys_def)
    next
      case None
      with p have q: "topUpWalletCore t
                \<lparr>tu_customerId = customerId, tu_amountMinor = cd_amountMinor r, tu_method = PAYSTACK, tu_currency = None,
                 tu_reference = Some shown, tu_recordedByUserId = None, tu_idempotencyKey = cd_reference r\<rparr> db = Inr (paid, db1)" by simp
      from topup_records [OF b q] topup_key [OF b q] topUp_grows [OF q] key show ?thesis by (simp add: payment_keys_def)
    qed
    then show ?thesis using card_of_more [of db1 db] account by (auto simp: is_sale_def)
  qed
qed

lemma update_card_accounted:
  fixes db d1 d2 :: "'x card_db_scheme"
  assumes ok: "card_ok I db" and r: "r \<in> set (cardTxns db)" "cd_status r = CD_PENDING"
    and d1: "books_ok d1" "wallet_ok d1" "payment_keys d1 \<subseteq> insert (cd_reference r) (payment_keys db)"
      "cardTxns d1 = cardTxns db" "hotspotPackages d1 = hotspotPackages db" "nextId db \<le> nextId d1"
    and tot: "recorded_total d1 = recorded_total db + (if cd_status (f r) = CD_COMPLETED \<and> is_sale r then cd_amountMinor r else 0)"
    and u: "update_card r f d1 = Inr (r', d2)"
    and f: "\<And>x. cd_id (f x) = cd_id x \<and> cd_reference (f x) = cd_reference x \<and> cd_amountMinor (f x) = cd_amountMinor x
        \<and> is_sale (f x) = is_sale x \<and> cd_status (f x) \<noteq> CD_PENDING"
  shows "card_accounted I db d2"
proof -
  have d2: "d2 = d1\<lparr>cardTxns := update_where (\<lambda>x. cd_id x = cd_id r) f (cardTxns d1)\<rparr>"
    using u by (auto simp: update_card_def split: if_splits)
  have rows: "cards_ok I db" using ok by (simp add: card_ok_def)
  then have ids: "distinct (map cd_id (cardTxns db))" by (simp add: cards_ok_def)
  have same: "cd_id x = cd_id r \<longleftrightarrow> x = r" if "x \<in> set (cardTxns db)" for x
    using key_eq_rows [OF ids that r(1)] by blast
  have set2: "set (cardTxns d2) = insert (f r) (set (cardTxns db) - {r})"
    using r(1) same by (auto simp: d2 d1(4) set_update_where)
  have b2: "books_ok d2" by (rule books_ok_cong [OF d1(1)]) (simp_all add: d2)
  have w2: "wallet_ok d2" by (rule wallet_ok_cong [OF d1(2)]) (simp_all add: d2)
  have t2: "recorded_total d2 = recorded_total d1" by (rule recorded_total_cong) (simp_all add: d2)
  have k2: "payment_keys d2 = payment_keys d1" by (rule payment_keys_cong) (simp add: d2)
  have keep: "map cd_id (cardTxns d2) = map cd_id (cardTxns db)" "map cd_reference (cardTxns d2) = map cd_reference (cardTxns db)"
    unfolding d2 by (simp_all add: d1(4)) (rule map_update_where, use f in blast)+
  have "\<exists>s \<in> set (cardTxns d2). cd_reference s = k \<and> cd_status s \<noteq> CD_PENDING" if k: "k \<in> payment_keys d2 \<inter> I" for k
  proof (cases "k = cd_reference r")
    case True
    then show ?thesis using f [of r] set2 by auto
  next
    case False
    then have "k \<in> payment_keys db \<inter> I" using k d1(3) k2 by auto
    then obtain s where s: "s \<in> set (cardTxns db)" "cd_reference s = k" "cd_status s \<noteq> CD_PENDING" using rows unfolding cards_ok_def by blast
    then show ?thesis using r(2) set2 by auto
  qed
  moreover have "\<forall>s \<in> set (cardTxns d2). cd_id s < nextId d2 \<and> cd_reference s \<in> I \<and> 0 \<le> cd_amountMinor s"
    unfolding set2 using rows f [of r] r(1) d1(6) by (fastforce simp: cards_ok_def d2)
  ultimately have c2: "cards_ok I d2" using rows keep by (simp add: cards_ok_def d2 d1(5))
  have "card_total d2 = card_total db + (if cd_status (f r) = CD_COMPLETED \<and> is_sale r then cd_amountMinor r else 0)"
    unfolding card_total_def using sum_where_update [OF ids r(1) refl, of "\<lambda>r. cd_status r = CD_COMPLETED \<and> is_sale r" cd_amountMinor f]
    by (simp add: d2 d1(4) r(2) f)
  then show ?thesis using b2 w2 c2 t2 tot r(2) by (auto simp: card_accounted_def card_ok_def set2)
qed

lemma restore_card_accounted:
  assumes "card_accounted I db d1"
  shows "card_accounted I db (restore_completed t r d1)"
proof (cases "cd_status r = CD_COMPLETED")
  case False
  then show ?thesis using assms by (simp add: restore_completed_def)
next
  case True
  obtain n d2 where rs: "restoreServiceAfterPayment t (cd_customerId r) d1 = (n, d2)" by fastforce
  note f = restore_frame [OF rs]
  have ok: "books_ok d1" "wallet_ok d1" "cards_ok I d1" using assms by (simp_all add: card_accounted_def card_ok_def)
  note m = card_of_more [OF f(7)]
  have "books_ok d2" by (rule books_ok_cong [OF ok(1)]) (use f in simp_all)
  moreover have "wallet_ok d2" by (rule wallet_ok_cong [OF ok(2)]) (use f in simp_all)
  moreover have "cards_ok I d2" using ok(3) m f(6) payment_keys_cong [OF f(2)] by (simp add: cards_ok_def)
  moreover have "recorded_total d2 = recorded_total d1" by (rule recorded_total_cong) (use f in simp_all)
  ultimately show ?thesis using assms m True rs by (simp add: card_accounted_def card_ok_def restore_completed_def card_total_def)
qed

lemma success_accounted:
  fixes db :: "'x card_db_scheme"
  assumes ok: "card_ok I db" and r: "r \<in> set (cardTxns db)" "cd_status r = CD_PENDING"
    and run: "complete_card_success rawToken shown response raw t r db = Inr (r', db')"
  shows "card_accounted I db db'"
proof -
  obtain pid code d1 where s: "settle_card rawToken shown t r db = Inr ((pid, code), d1)"
    and u: "update_card r (completed_card response raw pid code) d1 = Inr (r', db')"
    using run by (auto simp: complete_card_success_def split: sum.splits)
  note k = settle_records [OF ok r s]
  show ?thesis by (rule update_card_accounted [OF ok r _ _ _ _ _ _ _ u]) (use k in \<open>simp_all add: completed_card_def is_sale_def\<close>)
qed

lemma closing_accounted:
  fixes db :: "'x card_db_scheme"
  assumes ok: "card_ok I db" and r: "r \<in> set (cardTxns db)" "cd_status r = CD_PENDING"
    and st: "st \<noteq> CD_PENDING" "st \<noteq> CD_COMPLETED" and u: "update_card r (closed_card st response raw) db = Inr (r', db')"
  shows "card_accounted I db db'"
  by (rule update_card_accounted [OF ok r _ _ _ _ _ _ _ u]) (use ok st in \<open>auto simp: card_ok_def closed_card_def is_sale_def\<close>)

lemma find_cardD: "find_card ref db = Some r \<Longrightarrow> r \<in> set (cardTxns db) \<and> cd_reference r = ref"
  by (auto simp: find_card_def dest: find_SomeD)

lemma paystack_accounted:
  assumes ok: "card_ok I db" and run: "completePaystackTransaction rawToken t ref res db = Inr (r', db')"
  shows "card_accounted I db db'"
proof -
  obtain d1 where tx: "paystack_tx rawToken t ref res db = Inr (r', d1)" and db': "db' = restore_completed t r' d1"
    using run by (auto simp: completePaystackTransaction_def split: sum.splits)
  obtain r where r: "r \<in> set (cardTxns db)" "find_card ref db = Some r"
    using tx by (auto simp: paystack_tx_def dest: find_cardD split: option.splits)
  have "card_accounted I db d1"
  proof (cases "cd_status r = CD_PENDING")
    case False
    then show ?thesis using tx r(2) card_accounted_refl [OF ok] by (auto simp: paystack_tx_def split: if_splits)
  next
    case True
    then show ?thesis
      using tx r(2) success_accounted [OF ok r(1) True] closing_accounted [OF ok r(1) True, of CD_ABANDONED] closing_accounted [OF ok r(1) True, of CD_FAILED]
      by (auto simp: paystack_tx_def split: if_splits)
  qed
  then show ?thesis unfolding db' by (rule restore_card_accounted)
qed

lemma pesapal_accounted:
  assumes ok: "card_ok I db" and run: "completePesapalTransaction rawToken t ref res db = Inr (out, db')"
  shows "card_accounted I db db'"
proof -
  obtain d1 where tx: "pesapal_tx rawToken t ref res db = Inr (out, d1)"
    and db': "db' = (case out of None \<Rightarrow> d1 | Some r' \<Rightarrow> restore_completed t r' d1)"
    using run by (auto simp: completePesapalTransaction_def split: sum.splits option.splits)
  have "card_accounted I db d1"
  proof (cases "find_card ref db")
    case None
    then show ?thesis using tx card_accounted_refl [OF ok] by (simp add: pesapal_tx_def Let_def)
  next
    case (Some r)
    then have r: "r \<in> set (cardTxns db)" by (auto dest: find_cardD)
    show ?thesis
    proof (cases "cd_status r = CD_PENDING")
      case False
      then show ?thesis using tx Some card_accounted_refl [OF ok] by (auto simp: pesapal_tx_def Let_def split: if_splits)
    next
      case True
      then show ?thesis
        using tx Some success_accounted [OF ok r True] closing_accounted [OF ok r True, of CD_FAILED] card_accounted_refl [OF ok]
        by (auto simp: pesapal_tx_def Let_def split: if_splits pesapal_outcome.splits sum.splits)
    qed
  qed
  then show ?thesis unfolding db' by (cases out) (simp_all add: restore_card_accounted)
qed

section \<open>Runs\<close>

text \<open>One call of any operation, by a buyer's browser, staff or a provider; an error rolls back.\<close>

datatype card_op =
    StartPaystack string id start_input
  | StartPaystackHotspot string id hotspot_start_input
  | StartPesapal string id start_input
  | StartPesapalHotspot string id hotspot_start_input
  | PaystackWebhook string string "string option"
  | CheckPaystack string id string
  | PesapalIpn string string string "id option"
  | CheckPesapal string id string "string option"

definition kept_or :: "'d \<Rightarrow> ('a \<times> 'd) result \<Rightarrow> 'd" where
  "kept_or db out = (case out of Inl e \<Rightarrow> db | Inr (_, db') \<Rightarrow> db')"

fun card_step :: "card_env \<Rightarrow> card_op \<Rightarrow> 'x card_db_scheme \<Rightarrow> 'x card_db_scheme" where
  "card_step env (StartPaystack token t inp) db = kept_or db (initiatePaystackTransactionForCustomer env token t inp db)"
| "card_step env (StartPaystackHotspot token t inp) db = kept_or db (initiatePaystackHotspotPurchase env token t inp db)"
| "card_step env (StartPesapal token t inp) db = kept_or db (initiatePesapalTransactionForCustomer env token t inp db)"
| "card_step env (StartPesapalHotspot token t inp) db = kept_or db (initiatePesapalHotspotPurchase env token t inp db)"
| "card_step env (PaystackWebhook rawToken body signature) db = kept_or db (paystackWebhookRoute env rawToken body signature db)"
| "card_step env (CheckPaystack rawToken t ref) db = kept_or db (verifyAndReconcilePaystackTransaction env rawToken t ref db)"
| "card_step env (PesapalIpn rawToken tracking ref tq) db =
     (case pesapalIpnRoute env rawToken tracking ref tq db of Inl e \<Rightarrow> db | Inr db' \<Rightarrow> db')"
| "card_step env (CheckPesapal rawToken t ref tracking) db = kept_or db (verifyAndReconcilePesapalTransaction env rawToken t ref tracking db)"

fun run_cards :: "card_env \<Rightarrow> card_op list \<Rightarrow> 'x card_db_scheme \<Rightarrow> 'x card_db_scheme" where
  "run_cards env [] db = db"
| "run_cards env (op # ops) db = run_cards env ops (card_step env op db)"

text \<open>The references the transactions of a run get, from the provider or from their tokens, are card references.\<close>

fun refers_in :: "string set \<Rightarrow> card_env \<Rightarrow> card_op \<Rightarrow> bool" where
  "refers_in I env (StartPaystack token t inp) \<longleftrightarrow> (\<forall>client email a cur ref given url.
     ce_paystack env t = Inr client \<and> pk_initialize client email a cur ref = Answer (given, url) \<longrightarrow> given \<in> I)"
| "refers_in I env (StartPaystackHotspot token t inp) \<longleftrightarrow> (\<forall>client email a cur ref given url.
     ce_paystack env t = Inr client \<and> pk_initialize client email a cur ref = Answer (given, url) \<longrightarrow> given \<in> I)"
| "refers_in I env (StartPesapal token t inp) \<longleftrightarrow> reference_with ''PESA-'' 6 env t token \<in> I"
| "refers_in I env (StartPesapalHotspot token t inp) \<longleftrightarrow> reference_with ''PESA-HP-'' 6 env t token \<in> I"
| "refers_in I env _ \<longleftrightarrow> True"

lemma insert_card_accounted:
  fixes db :: "'x card_db_scheme"
  assumes ok: "card_ok I db" and run: "insert_card row db = Inr (r, db')"
    and row: "cd_status row = CD_PENDING" "cd_reference row \<in> I" "0 \<le> cd_amountMinor row"
  shows "card_accounted I db db'"
proof -
  have new: "find_card (cd_reference row) db = None" and r: "r = row\<lparr>cd_id := nextId db\<rparr>"
    and db': "db' = db\<lparr>nextId := nextId db + 1, cardTxns := cardTxns db @ [r]\<rparr>"
    using run by (auto simp: insert_card_def Let_def split: if_splits)
  have b: "books_ok db" "wallet_ok db" "cards_ok I db" using ok by (simp_all add: card_ok_def)
  have fresh: "cd_reference row \<notin> cd_reference ` set (cardTxns db)" "nextId db \<notin> cd_id ` set (cardTxns db)"
    using new b(3) by (auto simp: find_card_def find_None_iff cards_ok_def)
  have "books_ok db'" by (rule books_ok_cong [OF b(1)]) (simp_all add: db')
  moreover have "wallet_ok db'" by (rule wallet_ok_cong [OF b(2)]) (simp_all add: db')
  moreover have "recorded_total db' = recorded_total db" by (rule recorded_total_cong) (simp_all add: db')
  moreover have "payment_keys db' = payment_keys db" by (rule payment_keys_cong) (simp add: db')
  moreover have "\<forall>x \<in> set (cardTxns db'). cd_id x < nextId db' \<and> cd_reference x \<in> I \<and> 0 \<le> cd_amountMinor x"
    using b(3) row by (auto simp: cards_ok_def db' r less_Suc_eq)
  moreover have "card_total db' = card_total db" using row(1) by (simp add: card_total_def db' r)
  ultimately show ?thesis
    using b(3) fresh by (auto simp: card_accounted_def card_ok_def cards_ok_def db' r)
qed

lemma payer_positive: "payer_of msg t inp db = Inr out \<Longrightarrow> 0 < si_amountMinor inp"
  by (auto simp: payer_of_def split: if_splits)

lemma package_price: "card_ok I db \<Longrightarrow> List.find (\<lambda>p. hp_id p = i \<and> q p) (hotspotPackages db) = Some pkg \<Longrightarrow> 0 \<le> hp_priceMinor pkg"
  by (auto simp: card_ok_def cards_ok_def dest!: find_SomeD)

lemma started_Inr: "started a = Inr x \<longleftrightarrow> a = Answer x"
  by (cases a) (simp_all add: started_def)

lemma start_accounted:
  assumes ok: "card_ok I db" and I: "refers_in I env op"
    and op: "op \<in> {StartPaystack token t inp, StartPaystackHotspot token t hin, StartPesapal token t inp, StartPesapalHotspot token t hin}"
  shows "card_accounted I db (card_step env op db)"
proof -
  note ins = insert_card_accounted [OF ok] and same = card_accounted_refl [OF ok]
  have new: "cd_status (new_card u ref a cur url) = CD_PENDING" "cd_reference (new_card u ref a cur url) = ref"
    "cd_amountMinor (new_card u ref a cur url) = a" for u ref a cur url by (simp_all add: new_card_def)
  consider "op = StartPaystack token t inp" | "op = StartPaystackHotspot token t hin"
    | "op = StartPesapal token t inp" | "op = StartPesapalHotspot token t hin" using op by blast
  then show ?thesis
  proof cases
    case 1
    then show ?thesis using I same
      by (auto simp: kept_or_def initiatePaystackTransactionForCustomer_def Let_def started_Inr new
          intro!: ins dest: payer_positive split: sum.splits prod.splits) blast+
  next
    case 2
    then show ?thesis using I same
      by (auto simp: kept_or_def initiatePaystackHotspotPurchase_def Let_def started_Inr new
          intro!: ins dest: package_price [OF ok] split: sum.splits prod.splits option.splits) blast+
  next
    case 3
    then show ?thesis using I same
      by (auto simp: kept_or_def initiatePesapalTransactionForCustomer_def Let_def started_Inr new
          intro!: ins dest: payer_positive split: sum.splits prod.splits)
  next
    case 4
    then show ?thesis using I same
      by (auto simp: kept_or_def initiatePesapalHotspotPurchase_def Let_def started_Inr new
          intro!: ins dest: package_price [OF ok] split: sum.splits prod.splits option.splits)
  qed
qed

lemma ipn_accounted:
  assumes ok: "card_ok I db" and run: "handlePesapalIpn env rawToken t tracking ref db = Inr (st, db')"
  shows "card_accounted I db db'"
  using run pesapal_accounted [OF ok] by (auto simp: handlePesapalIpn_def split: sum.splits api_answer.splits)

lemma card_step_accounted:
  assumes ok: "card_ok I db" and I: "refers_in I env op"
  shows "card_accounted I db (card_step env op db)"
proof -
  note same = card_accounted_refl [OF ok] and pk = paystack_accounted [OF ok] and pp = pesapal_accounted [OF ok]
  show ?thesis
  proof (cases op)
    case (PaystackWebhook rawToken body signature)
    then show ?thesis using same pk
      by (auto simp: kept_or_def paystackWebhookRoute_def handlePaystackWebhook_def split: sum.splits option.splits if_splits)
  next
    case (CheckPaystack rawToken t ref)
    then show ?thesis using same pk
      by (auto simp: kept_or_def verifyAndReconcilePaystackTransaction_def split: sum.splits option.splits api_answer.splits)
  next
    case (PesapalIpn rawToken tracking ref tq)
    then show ?thesis using same ipn_accounted [OF ok]
      by (auto simp: pesapalIpnRoute_def split: sum.splits option.splits)
  next
    case (CheckPesapal rawToken t ref tracking)
    then show ?thesis using same pp
      by (auto simp: kept_or_def verifyAndReconcilePesapalTransaction_def split: sum.splits option.splits api_answer.splits)
  qed (use start_accounted [OF ok I] in blast)+
qed

text \<open>
  C5. Card money is recorded once. Over any run of starts, signed and unsigned webhooks,
  notifications and queries, in any order and repeated at will, the money on the books grows by
  exactly the requested amounts of the transactions that became completed, whatever amounts the
  providers report; a transaction that was decided stays as it is; and the books, the wallets and
  the table of transactions keep their invariants.
\<close>

theorem card_money_recorded_once:
  fixes db :: "'x card_db_scheme"
  assumes "card_ok I db" and "list_all (refers_in I env) ops"
  shows "card_ok I (run_cards env ops db)
    \<and> recorded_total (run_cards env ops db) - card_total (run_cards env ops db) = recorded_total db - card_total db
    \<and> {r \<in> set (cardTxns db). cd_status r \<noteq> CD_PENDING} \<subseteq> set (cardTxns (run_cards env ops db))"
proof -
  have "card_accounted I db (run_cards env ops db)"
    using assms
  proof (induction ops arbitrary: db)
    case Nil
    then show ?case by (simp add: card_accounted_refl)
  next
    case (Cons op ops)
    have step: "card_accounted I db (card_step env op db)" by (rule card_step_accounted) (use Cons.prems in simp_all)
    then have "card_accounted I (card_step env op db) (run_cards env ops (card_step env op db))"
      by (intro Cons.IH) (use Cons.prems in \<open>simp_all add: card_accounted_def\<close>)
    with step show ?case by (auto intro: card_accounted_trans)
  qed
  then show ?thesis by (auto simp: card_accounted_def)
qed

text \<open>A guest's purchase, and a provider that confirms it with a larger amount.\<close>

definition sample_card :: card_txn where
  "sample_card = (new_card 1 ''HS-1-aZ'' 1000 ''KES'' ''https://pay'')\<lparr>cd_id := 12, cd_hotspotPackageId := Some 5\<rparr>"

definition sample_card_env :: card_env where
  "sample_card_env = \<lparr>ce_paystack = (\<lambda>t. Inr \<lparr>pk_secretKey = ''sk'', pk_initialize = (\<lambda>email a cur ref. Answer (ref, ''https://pay'')),
      pk_verify = (\<lambda>ref. Answer \<lparr>pk_status = ''success'', pk_amountMinor = 99900, pk_gatewayResponse = ''Approved'', pk_raw = ''{}''\<rparr>)\<rparr>),
     ce_pesapal = (\<lambda>t. Inl (NotFoundError ''Pesapal configuration'')), ce_hmac512 = (\<lambda>k b. k @ b), ce_sha256 = (\<lambda>s. s),
     ce_parse = (\<lambda>b. None), ce_idText = (\<lambda>t. nat_to_string t)\<rparr>"

definition sample_card_db :: card_db where
  "sample_card_db = hotspot_db.extend example_hotspot \<lparr>cardTxns = [sample_card]\<rparr>"

lemma sample_card_db_fields [simp]:
  "clock sample_card_db = 4000000" "nextId sample_card_db = 20" "hotspotPackages sample_card_db = [example_package]"
  "vouchers sample_card_db = [example_voucher]" "payments sample_card_db = []" "invoices sample_card_db = []" "receipts sample_card_db = []"
  "wallets sample_card_db = []" "walletTxns sample_card_db = []" "cardTxns sample_card_db = [sample_card]"
  by (simp_all add: sample_card_db_def example_hotspot_def empty_hotspot_def hotspot_db.defs gateway_db.defs billing_db.defs empty_db_def empty_gateway_def)

lemma sample_card_ok: "card_ok {''HS-1-aZ''} sample_card_db"
  by (simp add: card_ok_def cards_ok_def books_ok_def wallet_ok_def invoices_ok_def payments_ok_def paid_ok_def numbers_dense_def
      count_where_def sample_card_def new_card_def example_package_def payment_keys_def)

lemma sample_card_completes:
  "\<exists>pid code. cardTxns (card_step sample_card_env (CheckPaystack ''abcdefghijk'' 1 ''HS-1-aZ'') sample_card_db)
     = [completed_card ''Approved'' ''{}'' pid code sample_card]"
proof -
  have code: "find_voucher 1 ''BCDEFGHJ'' sample_card_db = None" by (simp add: find_voucher_def example_voucher_def)
  obtain v d1 where i: "issue_voucher 1 example_package ''BCDEFGHJ'' sample_card_db = Inr (v, d1)"
    and d1: "payments d1 = []" "cardTxns d1 = [sample_card]"
    using code by (simp add: issue_voucher_def Let_def)
  obtain p d2 where g: "guest_card_payment 1 1000 ''KES'' ''HS-1-aZ'' d1 = Inr (p, d2)" and d2: "cardTxns d2 = [sample_card]"
    using d1 by (simp add: guest_card_payment_def Let_def)
  have pkg: "find_hotspot_package 5 sample_card_db = Some example_package"
    by (simp add: find_hotspot_package_def example_package_def)
  have f: "find_card ''HS-1-aZ'' sample_card_db = Some sample_card" by (simp add: find_card_def sample_card_def new_card_def)
  have s: "settle_card ''abcdefghijk'' ''HS-1-aZ'' 1 sample_card sample_card_db = Inr ((Some (p_id p), Some (v_code v)), d2)"
    using pkg i g by (simp add: settle_card_def card_guest_sale_def example_draw sample_card_def new_card_def)
  obtain d3 where u: "update_card sample_card (completed_card ''Approved'' ''{}'' (Some (p_id p)) (Some (v_code v))) d2
      = Inr (completed_card ''Approved'' ''{}'' (Some (p_id p)) (Some (v_code v)) sample_card, d3)"
    and d3: "cardTxns d3 = [completed_card ''Approved'' ''{}'' (Some (p_id p)) (Some (v_code v)) sample_card]"
    using d2 by (simp add: update_card_def)
  obtain n d4 where rs: "restoreServiceAfterPayment 1 None d3 = (n, d4)" by fastforce
  have d4: "cardTxns d4 = cardTxns d3" using card_of_more restore_frame(7) [OF rs] by blast
  have "card_step sample_card_env (CheckPaystack ''abcdefghijk'' 1 ''HS-1-aZ'') sample_card_db = d4"
    using f s u rs
    by (simp add: kept_or_def verifyAndReconcilePaystackTransaction_def completePaystackTransaction_def paystack_tx_def complete_card_success_def
        restore_completed_def sample_card_env_def) (simp add: sample_card_def new_card_def completed_card_def)
  then show ?thesis using d3 d4 by (metis (no_types))
qed

theorem card_money_recorded_once_witness:
  "recorded_total (run_cards sample_card_env [CheckPaystack ''abcdefghijk'' 1 ''HS-1-aZ''] sample_card_db) = 1000"
proof -
  let ?ops = "[CheckPaystack ''abcdefghijk'' 1 ''HS-1-aZ'']"
  obtain pid code where c: "cardTxns (run_cards sample_card_env ?ops sample_card_db) = [completed_card ''Approved'' ''{}'' pid code sample_card]"
    using sample_card_completes by auto
  then have "card_total (run_cards sample_card_env ?ops sample_card_db) = 1000"
    by (simp only: card_total_def) (simp add: completed_card_def is_sale_def sample_card_def new_card_def)
  moreover have "recorded_total sample_card_db = 0" "card_total sample_card_db = 0"
    by (simp_all add: recorded_total_def wallets_total_def guests_total_def card_total_def sample_card_def new_card_def)
  moreover have "list_all (refers_in {''HS-1-aZ''} sample_card_env) ?ops" by simp
  ultimately show ?thesis using card_money_recorded_once [OF sample_card_ok] by fastforce
qed

section \<open>Signatures\<close>

text \<open>
  A webhook changes nothing unless it carries the signature of its own body under the secret key of
  the tenant whose transaction it names, up to a collision of the digest that compares them.
\<close>

lemma unsigned_webhook_changes_nothing:
  assumes "paystackWebhookRoute env rawToken body signature db = Inr (status, db')" and "db' \<noteq> db"
  shows "\<exists>ev r client s. ce_parse env body = Some ev \<and> find_card (ev_reference ev) db = Some r
    \<and> ce_paystack env (cd_tenantId r) = Inr client \<and> signature = Some s
    \<and> ce_sha256 env (ce_hmac512 env (pk_secretKey client) body) = ce_sha256 env s"
  using assms
  by (auto simp: paystackWebhookRoute_def isValidPaystackSignature_def timingSafeStringEqual_def
      split: option.splits sum.splits if_splits)

text \<open>
  A Pesapal notification names a tracking number and a transaction; the status of the first completes
  the second. Whichever order the tracking number belongs to (\<open>pp_merchantReference\<close>, which nothing
  reads) and however little was paid for it, the open transaction named is settled in full.
\<close>

lemma any_paid_order_completes:
  assumes "find_card ref db = Some r" "cd_status r = CD_PENDING" "ref \<noteq> []" "tracking \<noteq> []"
    and "ce_pesapal env (cd_tenantId r) = Inr client" "pp_getStatus client tracking = Answer st" "pesapal_completed st"
    and "complete_card_success rawToken (if pp_confirmationCode st = [] then ref else pp_confirmationCode st)
           (pp_paymentMethod st @ '' - '' @ pp_description st) (pp_body st) (cd_tenantId r) r db = Inr (r', d1)"
  shows "pesapalIpnRoute env rawToken tracking ref tq db = Inr (restore_completed (cd_tenantId r) r' d1)"
  using assms by (cases "pp_confirmationCode st = []")
    (simp_all add: pesapalIpnRoute_def handlePesapalIpn_def completePesapalTransaction_def pesapal_tx_def pesapal_reading_def Let_def)

end
