(* ===== verification/Agents.thy ===== *)
theory Agents
  imports PaybillPayments
begin

text \<open>
  packages/billing/src/agent.service.ts, and the route that takes an agent's collections
  (apps/api/src/routes/agents.ts): shops that sell vouchers from a stock and take customers' bill
  payments in cash for a commission. The column agentId of a voucher is kept as the table
  \<open>voucherAgents\<close>. Two requests at once are a list of what others commit between a look and a write.
\<close>

section \<open>Tables\<close>

datatype agent_status = AG_ACTIVE | AG_SUSPENDED
datatype sale_kind = SALE_VOUCHER | SALE_COLLECTION

record agent =
  ag_id :: id
  ag_tenantId :: id
  ag_userId :: "id option"
  ag_name :: string
  ag_voucherCommissionPercent :: int
  ag_collectionCommissionPercent :: int
  ag_status :: agent_status

record agent_sale =
  as_id :: id
  as_tenantId :: id
  as_agentId :: id
  as_kind :: sale_kind
  as_voucherId :: "id option"
  as_paymentId :: "id option"
  as_customerId :: "id option"
  as_description :: string
  as_amountMinor :: minor
  as_commissionMinor :: minor
  as_buyerPhone :: "string option"
  as_createdAt :: time

record agent_remittance =
  ar_id :: id
  ar_tenantId :: id
  ar_agentId :: id
  ar_amountMinor :: minor
  ar_method :: string
  ar_reference :: "string option"
  ar_note :: "string option"
  ar_recordedByUserId :: id
  ar_createdAt :: time

record agent_db = hotspot_db +
  agents :: "agent list"
  agentSales :: "agent_sale list"
  agentRemittances :: "agent_remittance list"
  voucherAgents :: "(id \<times> id) list"

definition commissionMinor :: "minor \<Rightarrow> int \<Rightarrow> minor" where
  "commissionMinor amountMinor percent = (amountMinor * percent) div 100"

definition find_agent :: "id \<Rightarrow> id \<Rightarrow> 'x agent_db_scheme \<Rightarrow> agent option" where
  "find_agent tenantId agentId db = List.find (\<lambda>a. ag_id a = agentId \<and> ag_tenantId a = tenantId) (agents db)"

definition getActiveAgentOrThrow :: "id \<Rightarrow> id \<Rightarrow> 'x agent_db_scheme \<Rightarrow> agent result" where
  "getActiveAgentOrThrow tenantId agentId db =
     (case find_agent tenantId agentId db of None \<Rightarrow> Inl (NotFoundError ''Agent'')
      | Some a \<Rightarrow> if ag_status a \<noteq> AG_ACTIVE then Inl (ForbiddenError ''This agent account is suspended'') else Inr a)"

section \<open>The stock of vouchers\<close>

text \<open>A voucher that was made before an error stays, outside the stock.\<close>

definition issueAgentVouchers ::
  "string list list \<Rightarrow> id \<Rightarrow> id \<Rightarrow> id \<Rightarrow> int \<Rightarrow> id option \<Rightarrow> 'x agent_db_scheme \<Rightarrow> nat result \<times> 'x agent_db_scheme" where
  "issueAgentVouchers draws tenantId agentId hotspotPackageId count userId db =
     (case getActiveAgentOrThrow tenantId agentId db of Inl e \<Rightarrow> (Inl e, db)
      | Inr _ \<Rightarrow>
          if count < 1 \<or> count > 500 then (Inl (ValidationError ''Give between 1 and 500 vouchers at a time''), db)
          else (case generateVouchers draws
                   \<lparr>gi_tenantId = tenantId, gi_createdByUserId = None, gi_count = count, gi_hotspotPackageId = Some hotspotPackageId, gi_packageId = None, gi_durationMinutes = None,
                    gi_dataCapMb = None, gi_downloadKbps = None, gi_uploadKbps = None, gi_simultaneousUse = None,
                    gi_blockTethering = None, gi_appPolicy = None\<rparr> db of
                  (Inl e, db1) \<Rightarrow> (Inl e, db1)
                | (Inr made, db1) \<Rightarrow>
                    let ids = map v_id made
                    in (Inr (length made), db1\<lparr>
                          vouchers := update_where (\<lambda>v. v_id v \<in> set ids) (\<lambda>v. v\<lparr>v_createdByUserId := userId\<rparr>) (vouchers db1),
                          voucherAgents := filter (\<lambda>(v, a). v \<notin> set ids) (voucherAgents db1) @ map (\<lambda>i. (i, agentId)) ids\<rparr>)))"

definition in_stock :: "id \<Rightarrow> 'x agent_db_scheme \<Rightarrow> voucher \<Rightarrow> bool" where
  "in_stock agentId db v \<longleftrightarrow> (v_id v, agentId) \<in> set (voucherAgents db) \<and> v_status v = V_UNUSED
     \<and> \<not> list_ex (\<lambda>s. as_voucherId s = Some (v_id v)) (agentSales db)"

text \<open>Per package that exists, cheapest first.\<close>

definition agentStock :: "id \<Rightarrow> 'x agent_db_scheme \<Rightarrow> (hotspot_package \<times> nat) list" where
  "agentStock agentId db =
     filter (\<lambda>(p, n). n > 0)
       (map (\<lambda>p. (p, count_where (\<lambda>v. in_stock agentId db v \<and> v_hotspotPackageId v = Some (hp_id p)) (vouchers db)))
         (sort_key hp_priceMinor (hotspotPackages db)))"

definition insert_sale :: "agent_sale \<Rightarrow> 'x agent_db_scheme \<Rightarrow> (agent_sale \<times> 'x agent_db_scheme) result" where
  "insert_sale row db =
     (if list_ex (\<lambda>s. (as_voucherId row \<noteq> None \<and> as_voucherId s = as_voucherId row)
                    \<or> (as_paymentId row \<noteq> None \<and> as_paymentId s = as_paymentId row)) (agentSales db)
      then Inl UniqueViolation
      else let s = row\<lparr>as_id := nextId db, as_createdAt := clock db\<rparr>
           in Inr (s, db\<lparr>nextId := nextId db + 1, agentSales := agentSales db @ [s]\<rparr>))"

definition voucher_sale :: "agent \<Rightarrow> hotspot_package \<Rightarrow> voucher \<Rightarrow> string option \<Rightarrow> agent_sale" where
  "voucher_sale a pkg v buyerPhone =
     \<lparr>as_id = 0, as_tenantId = ag_tenantId a, as_agentId = ag_id a, as_kind = SALE_VOUCHER, as_voucherId = Some (v_id v),
      as_paymentId = None, as_customerId = None, as_description = ''Voucher '' @ hp_name pkg, as_amountMinor = hp_priceMinor pkg,
      as_commissionMinor = commissionMinor (hp_priceMinor pkg) (ag_voucherCommissionPercent a), as_buyerPhone = buyerPhone, as_createdAt = 0\<rparr>"

text \<open>\<open>others\<close>: what other requests commit between the look at the stock and the sale, per attempt.\<close>

fun sell_attempts ::
  "nat \<Rightarrow> ('x agent_db_scheme \<Rightarrow> 'x agent_db_scheme) list \<Rightarrow> agent \<Rightarrow> hotspot_package \<Rightarrow> string option \<Rightarrow> 'x agent_db_scheme \<Rightarrow>
     (agent_sale \<times> string) result \<times> 'x agent_db_scheme" where
  "sell_attempts 0 others a pkg buyerPhone db = (Inl (ConflictError ''Too many sales at once. Please try again.''), db)"
| "sell_attempts (Suc left) others a pkg buyerPhone db =
     (case List.find (\<lambda>v. in_stock (ag_id a) db v \<and> v_hotspotPackageId v = Some (hp_id pkg)) (vouchers db) of
        None \<Rightarrow> (Inl (ConflictError (''No '' @ hp_name pkg @ '' vouchers left in stock'')), db)
      | Some v \<Rightarrow>
          let db1 = (case others of [] \<Rightarrow> db | f # _ \<Rightarrow> f db)
          in case insert_sale (voucher_sale a pkg v buyerPhone) db1 of
               Inr (s, db2) \<Rightarrow> (Inr (s, v_code v), db2)
             | Inl e \<Rightarrow> if e = UniqueViolation then sell_attempts left (tl others) a pkg buyerPhone db1 else (Inl e, db1))"

definition sellAgentVoucher ::
  "('x agent_db_scheme \<Rightarrow> 'x agent_db_scheme) list \<Rightarrow> id \<Rightarrow> id \<Rightarrow> id \<Rightarrow> string option \<Rightarrow> 'x agent_db_scheme \<Rightarrow>
     (agent_sale \<times> string) result \<times> 'x agent_db_scheme" where
  "sellAgentVoucher others tenantId agentId hotspotPackageId buyerPhone db =
     (case getActiveAgentOrThrow tenantId agentId db of Inl e \<Rightarrow> (Inl e, db)
      | Inr a \<Rightarrow>
          (case List.find (\<lambda>p. hp_id p = hotspotPackageId \<and> hp_tenantId p = tenantId) (hotspotPackages db) of
             None \<Rightarrow> (Inl (NotFoundError ''Hotspot package''), db)
           | Some pkg \<Rightarrow> sell_attempts 5 others a pkg buyerPhone db))"

section \<open>Collections\<close>

definition is_open :: "invoice \<Rightarrow> bool" where
  "is_open i \<longleftrightarrow> i_status i = I_PENDING \<or> i_status i = I_PARTIALLY_PAID \<or> i_status i = I_OVERDUE"

definition first_word :: "string \<Rightarrow> string" where
  "first_word s = takeWhile (\<lambda>c. \<not> is_space c) s"

record agent_customer =
  ac_id :: id
  ac_name :: string
  ac_customerNumber :: string
  ac_owedMinor :: minor

definition findCustomerForAgent :: "id \<Rightarrow> string \<Rightarrow> 'x billing_db_scheme \<Rightarrow> agent_customer result" where
  "findCustomerForAgent tenantId accountNumber db =
     (case List.find (\<lambda>c. c_tenantId c = tenantId \<and> c_deletedAt c = None
          \<and> map to_lower (c_customerNumber c) = map to_lower (trim accountNumber)) (customers db) of
        None \<Rightarrow> Inl (NotFoundError ''Customer with that account number'')
      | Some c \<Rightarrow>
          let bills = filter (\<lambda>i. i_customerId i = c_id c \<and> is_open i) (invoices db)
          in Inr \<lparr>ac_id = c_id c, ac_name = first_word (c_fullName c), ac_customerNumber = c_customerNumber c,
                  ac_owedMinor = sum_list (map i_totalMinor bills) - sum_list (map i_amountPaidMinor bills)\<rparr>)"

definition agent_key :: "string \<Rightarrow> string" where
  "agent_key requestId = ''agent:'' @ requestId @ '':''"

definition open_bills :: "id \<Rightarrow> id \<Rightarrow> 'x billing_db_scheme \<Rightarrow> invoice list" where
  "open_bills tenantId customerId db =
     sort_key i_dueDate (filter (\<lambda>i. i_customerId i = customerId \<and> i_tenantId i = tenantId \<and> is_open i) (invoices db))"

text \<open>What is left over, and the payments made, latest first.\<close>

fun pay_bills ::
  "id \<Rightarrow> string \<Rightarrow> id \<Rightarrow> string \<Rightarrow> invoice list \<Rightarrow> minor \<Rightarrow> id list \<Rightarrow> 'x billing_db_scheme \<Rightarrow> ((minor \<times> id list) \<times> 'x billing_db_scheme) result" where
  "pay_bills tenantId reference userId requestId [] left paid db = Inr ((left, paid), db)"
| "pay_bills tenantId reference userId requestId (bill # later) left paid db =
     (if left \<le> 0 then Inr ((left, paid), db)
      else let due = i_totalMinor bill - i_amountPaidMinor bill
      in if due \<le> 0 then pay_bills tenantId reference userId requestId later left paid db
         else let part = min due left
         in case recordPaymentForInvoiceCore tenantId
               \<lparr>in_invoiceId = i_id bill, in_method = CASH, in_amountMinor = part, in_reference = Some reference,
                in_recordedByUserId = Some userId, in_idempotencyKey = agent_key requestId @ nat_to_string (i_id bill),
                in_allowOverpayment = False\<rparr> db of
              Inl e \<Rightarrow> Inl e
            | Inr (out, db1) \<Rightarrow>
                pay_bills tenantId reference userId requestId later (left - part) (p_id (res_payment out) # paid) db1)"

definition keep_rest ::
  "id \<Rightarrow> string \<Rightarrow> id \<Rightarrow> string \<Rightarrow> id \<Rightarrow> minor \<Rightarrow> id list \<Rightarrow> 'x billing_db_scheme \<Rightarrow> (id list \<times> 'x billing_db_scheme) result" where
  "keep_rest tenantId reference userId requestId customerId left paid db =
     (if left \<le> 0 then Inr (paid, db)
      else case topUpWalletCore tenantId
             \<lparr>tu_customerId = customerId, tu_amountMinor = left, tu_method = CASH, tu_currency = None, tu_reference = Some reference,
              tu_recordedByUserId = Some userId, tu_idempotencyKey = agent_key requestId @ ''wallet''\<rparr> db of
           Inl e \<Rightarrow> Inl e
         | Inr (out, db1) \<Rightarrow> Inr (p_id (res_payment out) # paid, db1))"

definition collection_sale :: "agent \<Rightarrow> customer \<Rightarrow> minor \<Rightarrow> id list \<Rightarrow> agent_sale" where
  "collection_sale a customer amountMinor paid =
     \<lparr>as_id = 0, as_tenantId = ag_tenantId a, as_agentId = ag_id a, as_kind = SALE_COLLECTION, as_voucherId = None,
      as_paymentId = (if paid = [] then None else Some (last paid)), as_customerId = Some (c_id customer),
      as_description = ''Payment for '' @ c_customerNumber customer, as_amountMinor = amountMinor,
      as_commissionMinor = commissionMinor amountMinor (ag_collectionCommissionPercent a), as_buyerPhone = None, as_createdAt = 0\<rparr>"

definition collectAgentPayment ::
  "id \<Rightarrow> id \<Rightarrow> id \<Rightarrow> id \<Rightarrow> minor \<Rightarrow> string \<Rightarrow> 'x agent_db_scheme \<Rightarrow> (agent_sale \<times> 'x agent_db_scheme) result" where
  "collectAgentPayment tenantId agentId userId customerId amountMinor requestId db =
     (case getActiveAgentOrThrow tenantId agentId db of Inl e \<Rightarrow> Inl e
      | Inr a \<Rightarrow>
          if amountMinor \<le> 0 then Inl (ValidationError ''Enter the amount received'')
          else case List.find (\<lambda>c. c_id c = customerId \<and> c_tenantId c = tenantId \<and> c_deletedAt c = None) (customers db) of
            None \<Rightarrow> Inl (NotFoundError ''Customer'')
          | Some customer \<Rightarrow>
              (case pay_bills tenantId (''Agent '' @ ag_name a) userId requestId (open_bills tenantId customerId db) amountMinor [] db of
                 Inl e \<Rightarrow> Inl e
               | Inr ((left, paid), db1) \<Rightarrow>
                   (case keep_rest tenantId (''Agent '' @ ag_name a) userId requestId customerId left paid db1 of Inl e \<Rightarrow> Inl e
                    | Inr (paid', db2) \<Rightarrow> insert_sale (collection_sale a customer amountMinor paid') db2)))"

text \<open>The route: a request that recorded something before is refused.\<close>

definition already_collected :: "string \<Rightarrow> 'x billing_db_scheme \<Rightarrow> bool" where
  "already_collected requestId db \<longleftrightarrow> list_ex (\<lambda>p. starts_with (agent_key requestId) (p_idempotencyKey p)) (payments db)"

definition agentCollectionRoute ::
  "id \<Rightarrow> id \<Rightarrow> id \<Rightarrow> minor \<Rightarrow> string \<Rightarrow> 'x agent_db_scheme \<Rightarrow> (agent_sale \<times> 'x agent_db_scheme) result" where
  "agentCollectionRoute tenantId userId customerId amountMinor requestId db =
     (case List.find (\<lambda>a. ag_tenantId a = tenantId \<and> ag_userId a = Some userId) (agents db) of
        None \<Rightarrow> Inl (NotFoundError ''Agent account'')
      | Some a \<Rightarrow>
          if ag_status a \<noteq> AG_ACTIVE then Inl (ForbiddenError ''Your agent account is suspended. Contact the ISP.'')
          else if amountMinor < 100 \<or> amountMinor > 10000000 then Inl (ValidationError ''amountMinor'')
          else if already_collected requestId db then Inl (ConflictError ''This payment was already recorded'')
          else collectAgentPayment (ag_tenantId a) (ag_id a) userId customerId amountMinor requestId db)"

section \<open>What an agent owes\<close>

definition recordAgentRemittance ::
  "id \<Rightarrow> id \<Rightarrow> minor \<Rightarrow> string \<Rightarrow> string option \<Rightarrow> string option \<Rightarrow> id \<Rightarrow> 'x agent_db_scheme \<Rightarrow> (agent_remittance \<times> 'x agent_db_scheme) result" where
  "recordAgentRemittance tenantId agentId amountMinor paidBy reference note userId db =
     (case find_agent tenantId agentId db of None \<Rightarrow> Inl (NotFoundError ''Agent'')
      | Some a \<Rightarrow>
          if amountMinor \<le> 0 then Inl (ValidationError ''Enter the amount handed over'')
          else let r = \<lparr>ar_id = nextId db, ar_tenantId = tenantId, ar_agentId = agentId, ar_amountMinor = amountMinor, ar_method = paidBy,
                 ar_reference = reference, ar_note = note, ar_recordedByUserId = userId, ar_createdAt = clock db\<rparr>
               in Inr (r, db\<lparr>nextId := nextId db + 1, agentRemittances := agentRemittances db @ [r]\<rparr>))"

definition before :: "time option \<Rightarrow> time \<Rightarrow> bool" where
  "before limit t \<longleftrightarrow> (case limit of None \<Rightarrow> True | Some l \<Rightarrow> t < l)"

definition balanceBefore :: "id \<Rightarrow> time option \<Rightarrow> 'x agent_db_scheme \<Rightarrow> minor" where
  "balanceBefore agentId limit db =
     sum_where (\<lambda>s. as_agentId s = agentId \<and> before limit (as_createdAt s)) as_amountMinor (agentSales db)
     - sum_where (\<lambda>s. as_agentId s = agentId \<and> before limit (as_createdAt s)) as_commissionMinor (agentSales db)
     - sum_where (\<lambda>r. ar_agentId r = agentId \<and> before limit (ar_createdAt r)) ar_amountMinor (agentRemittances db)"

definition agentBalance :: "id \<Rightarrow> 'x agent_db_scheme \<Rightarrow> minor" where
  "agentBalance agentId db = balanceBefore agentId None db"

text \<open>\<open>Date.UTC(year, month, 1)\<close>: the month counts from 0 and runs on into the next year.\<close>

definition utc_month :: "int \<Rightarrow> int \<Rightarrow> time" where
  "utc_month year month = civil_days (year + month div 12) (month mod 12 + 1) 1 * 86400000"

record sales_total =
  sl_count :: nat
  sl_amountMinor :: minor
  sl_commissionMinor :: minor

record agent_statement =
  st_openingBalanceMinor :: minor
  st_vouchers :: sales_total
  st_collections :: sales_total
  st_takenMinor :: minor
  st_commissionMinor :: minor
  st_dueMinor :: minor
  st_handedOverMinor :: minor
  st_closingBalanceMinor :: minor
  st_sales :: "agent_sale list"
  st_remittances :: "agent_remittance list"

definition total_of :: "agent_sale list \<Rightarrow> sales_total" where
  "total_of ss = \<lparr>sl_count = length ss, sl_amountMinor = sum_list (map as_amountMinor ss), sl_commissionMinor = sum_list (map as_commissionMinor ss)\<rparr>"

definition agentStatement :: "id \<Rightarrow> int \<Rightarrow> int \<Rightarrow> 'x agent_db_scheme \<Rightarrow> agent_statement" where
  "agentStatement agentId year month db =
     (let start = utc_month year (month - 1); to = utc_month year month;
          opening = balanceBefore agentId (Some start) db;
          sales = filter (\<lambda>s. as_agentId s = agentId \<and> start \<le> as_createdAt s \<and> as_createdAt s < to) (agentSales db);
          remittances = filter (\<lambda>r. ar_agentId r = agentId \<and> start \<le> ar_createdAt r \<and> ar_createdAt r < to) (agentRemittances db);
          taken = sl_amountMinor (total_of sales); commission = sl_commissionMinor (total_of sales);
          handedOver = sum_list (map ar_amountMinor remittances)
      in \<lparr>st_openingBalanceMinor = opening, st_vouchers = total_of (filter (\<lambda>s. as_kind s = SALE_VOUCHER) sales),
          st_collections = total_of (filter (\<lambda>s. as_kind s = SALE_COLLECTION) sales), st_takenMinor = taken, st_commissionMinor = commission,
          st_dueMinor = taken - commission, st_handedOverMinor = handedOver,
          st_closingBalanceMinor = opening + taken - commission - handedOver,
          st_sales = sort_key as_createdAt sales, st_remittances = sort_key ar_createdAt remittances\<rparr>)"

section \<open>A collection is on the books\<close>

lemma topup_succeeds:
  assumes ok: "books_ok db" "wallet_ok db" and pos: "0 < tu_amountMinor inp"
    and key: "tu_idempotencyKey inp \<notin> payment_keys db"
    and cust: "List.find (\<lambda>c. c_id c = tu_customerId inp \<and> c_tenantId c = t \<and> c_deletedAt c = None) (customers db) = Some cust"
  shows "\<exists>out db'. topUpWalletCore t inp db = Inr (out, db') \<and> \<not> res_wasAlreadyProcessed out"
proof -
  have k: "List.find (\<lambda>p. p_idempotencyKey p = tu_idempotencyKey inp) (payments db) = None"
    using key by (intro find_none_image) (simp add: payment_keys_def)
  define pay where "pay = \<lparr>p_id = nextId db, p_tenantId = t, p_customerId = Some (c_id cust),
      p_invoiceId = None, p_method = tu_method inp, p_status = P_COMPLETED, p_amountMinor = tu_amountMinor inp,
      p_currency = (case tu_currency inp of Some c \<Rightarrow> c | None \<Rightarrow> ''KES''),
      p_reference = tu_reference inp, p_idempotencyKey = tu_idempotencyKey inp,
      p_recordedByUserId = tu_recordedByUserId inp, p_reversedAt = None,
      p_reversalReason = None, p_createdAt = clock db\<rparr>"
  define db1 where "db1 = db\<lparr>payments := payments db @ [pay], nextId := nextId db + 1\<rparr>"
  have w: "wallet_ok db1" by (rule wallet_ok_cong [OF ok(2)]) (simp_all add: db1_def)
  obtain x db2 where c: "creditWallet (c_id cust) (tu_amountMinor inp) ''Wallet top-up'' (payment_ref (nextId db)) db1 = Inr (x, db2)"
    using creditWallet_ok [OF w pos] by blast
  note fr = creditWallet_frame [OF c]
  obtain rc db3 where "createReceipt t (nextId db) db2 = Inr (rc, db3)"
    using createReceipt_eq [of db2 "nextId db" t] receipt_free [OF ok(1)] ok(1) fr by (simp add: db1_def Let_def books_ok_def)
  then show ?thesis using pos k cust c by (simp add: topUpWalletCore_def Let_def db1_def pay_def)
qed

lemma agent_keys_differ:
  "agent_key q @ nat_to_string i \<noteq> agent_key q @ ''wallet''" "agent_key q @ nat_to_string i = agent_key q @ nat_to_string j \<longleftrightarrow> i = j"
proof -
  have "is_digit c" if "c \<in> set (nat_to_string i)" for c using nat_to_string_digits [OF that] .
  moreover have "\<not> is_digit CHR ''w''" by (simp add: is_digit_def)
  ultimately have "nat_to_string i \<noteq> ''wallet''" by (metis list.set_intros(1))
  then show "agent_key q @ nat_to_string i \<noteq> agent_key q @ ''wallet''" by simp
  show "agent_key q @ nat_to_string i = agent_key q @ nat_to_string j \<longleftrightarrow> i = j" using nat_to_string_inj by auto
qed

lemma createReceipt_frame:
  "createReceipt t pid db = Inr (r, db') \<Longrightarrow> customers db' = customers db \<and> clock db' = clock db"
  unfolding createReceipt_def withRetryOnNumberCollision_def
  by (drule retry_loop_Inr) (auto simp: insert_receipt_def Let_def split: if_splits)

lemma post_payment_frame:
  assumes "post_payment t inp b a e db = Inr (out, db')"
  shows "customers db' = customers db \<and> clock db' = clock db"
proof -
  have credit: "customers d' = customers d \<and> clock d' = clock d"
    if "creditWallet c m why ref d = Inr (w, d')" for c m why ref w and d d' :: "'a billing_db_scheme"
    using creditWallet_frame [OF that] by simp
  show ?thesis
    using assms unfolding post_payment_def Let_def
    by (auto simp: reactivate_paid_up_frame dest!: createReceipt_frame credit split: if_splits sum.splits)
qed

lemma recordPayment_frame:
  assumes "recordPaymentForInvoiceCore t inp db = Inr (out, db')"
  shows "customers db' = customers db" "clock db' = clock db"
proof -
  have debit: "customers d' = customers d \<and> clock d' = clock d"
    if "debitWallet c m why ref d = Inr (w, d')" for c m why ref w and d d' :: "'a billing_db_scheme"
    using debitWallet_frame [OF that] by simp
  have "customers db' = customers db \<and> clock db' = clock db"
    using assms unfolding recordPaymentForInvoiceCore_def Let_def
    by (auto dest!: post_payment_frame debit split: if_splits option.splits sum.splits)
  then show "customers db' = customers db" "clock db' = clock db" by simp_all
qed

lemma topUp_customers: "topUpWalletCore t inp db = Inr (out, db') \<Longrightarrow> customers db' = customers db"
proof -
  have credit: "customers d' = customers d" if "creditWallet c m why ref d = Inr (w, d')" for c m why ref w and d d' :: "'a billing_db_scheme"
    using creditWallet_frame [OF that] by simp
  show "topUpWalletCore t inp db = Inr (out, db') \<Longrightarrow> customers db' = customers db"
    unfolding topUpWalletCore_def Let_def
    by (auto dest!: createReceipt_frame credit split: if_splits option.splits sum.splits)
qed

text \<open>An open bill as the list of bills was read.\<close>

definition payable_as :: "id \<Rightarrow> invoice \<Rightarrow> 'x billing_db_scheme \<Rightarrow> bool" where
  "payable_as t i db \<longleftrightarrow> find_invoice_in t (i_id i) db = Some i \<and> is_open i"

lemma record_bill:
  fixes ref :: "string option" and u :: "id option"
  assumes ok: "books_ok db" "wallet_ok db" and bill: "payable_as t bill db" and part: "0 < part" "part \<le> i_totalMinor bill - i_amountPaidMinor bill"
    and key: "k \<notin> payment_keys db"
  defines "inp \<equiv> \<lparr>in_invoiceId = i_id bill, in_method = CASH, in_amountMinor = part, in_reference = ref, in_recordedByUserId = u,
      in_idempotencyKey = k, in_allowOverpayment = False\<rparr>"
  obtains out db1 where "recordPaymentForInvoiceCore t inp db = Inr (out, db1)" "books_ok db1" "wallet_ok db1"
    "recorded_total db1 = recorded_total db + part" "payment_keys db1 = insert k (payment_keys db)" "customers db1 = customers db"
    "billing_db.more db1 = billing_db.more db" "nextId db \<le> p_id (res_payment out)" "p_id (res_payment out) < nextId db1"
    "\<And>i. i_id i \<noteq> i_id bill \<Longrightarrow> payable_as t i db \<Longrightarrow> payable_as t i db1"
    "clock db1 = clock db"
proof -
  have st: "i_status bill \<notin> {I_VOID, I_CANCELLED, I_PAID}" and f: "find_invoice_in t (i_id bill) db = Some bill"
    using bill by (auto simp: payable_as_def is_open_def)
  have key': "in_idempotencyKey inp \<notin> p_idempotencyKey ` set (payments db)" using key by (simp add: inp_def payment_keys_def)
  obtain out db1 where run: "recordPaymentForInvoiceCore t inp db = Inr (out, db1)" "\<not> res_wasAlreadyProcessed out"
    using record_succeeds [OF ok _ key', of t bill] part f st by (auto simp: inp_def)
  note rec = invoice_records [OF ok run(1) key'] and grow = recordPayment_grows [OF run(1)] and keys = invoice_key [OF ok run]
  obtain paid st' am where inv: "invoices db1 = update_where (\<lambda>i. i_id i = i_id bill)
      (\<lambda>i. i\<lparr>i_amountPaidMinor := am, i_status := st', i_paidAt := paid\<rparr>) (invoices db)"
    using record_spec [OF ok run] f by (auto simp: inp_def Let_def)
  have other: "payable_as t i db1" if "i_id i \<noteq> i_id bill" "payable_as t i db" for i
  proof -
    have "List.find (\<lambda>x. i_id x = i_id i \<and> i_tenantId x = t) (update_where (\<lambda>x. i_id x = i_id bill) g xs)
        = List.find (\<lambda>x. i_id x = i_id i \<and> i_tenantId x = t) xs" if "\<And>x. i_id (g x) = i_id x" for g and xs :: "invoice list"
      using \<open>i_id i \<noteq> i_id bill\<close> that by (induction xs) auto
    then show ?thesis using that(2) by (simp add: payable_as_def find_invoice_in_def inv)
  qed
  have cust: "customers db1 = customers db" "clock db1 = clock db"
    using recordPayment_frame [OF run(1)] by simp_all
  show ?thesis
    by (rule that [OF run(1)]) (use rec grow keys run(2) cust other in \<open>auto simp: inp_def\<close>)
qed

definition owing_on :: "invoice list \<Rightarrow> minor" where
  "owing_on bills = sum_list (map (\<lambda>b. max 0 (i_totalMinor b - i_amountPaidMinor b)) bills)"

text \<open>What paying the bills does: the amount, less what is left over, is on the books, under keys of the request.\<close>

definition bills_paid :: "string \<Rightarrow> invoice list \<Rightarrow> minor \<Rightarrow> minor \<Rightarrow> id list \<Rightarrow> 'x billing_db_scheme \<Rightarrow> 'x billing_db_scheme \<Rightarrow> bool" where
  "bills_paid q bills left left' paid db db' \<longleftrightarrow> books_ok db' \<and> wallet_ok db' \<and> left' = max 0 (left - owing_on bills)
     \<and> recorded_total db' = recorded_total db + (left - left')
     \<and> payment_keys db \<subseteq> payment_keys db' \<and> payment_keys db' \<subseteq> payment_keys db \<union> (\<lambda>b. agent_key q @ nat_to_string (i_id b)) ` set bills
     \<and> (paid = [] \<longrightarrow> left' = left) \<and> (paid \<noteq> [] \<longrightarrow> (\<exists>b \<in> set bills. agent_key q @ nat_to_string (i_id b) \<in> payment_keys db'))
     \<and> customers db' = customers db \<and> clock db' = clock db \<and> billing_db.more db' = billing_db.more db \<and> nextId db \<le> nextId db'
     \<and> (\<forall>p \<in> set paid. nextId db \<le> p \<and> p < nextId db')"

lemma owing_nonneg: "0 \<le> owing_on bills"
  by (induction bills) (simp_all add: owing_on_def)

lemma pay_bills_records:
  fixes db :: "'x billing_db_scheme"
  assumes "books_ok db" "wallet_ok db" "0 \<le> left" "distinct (map i_id bills)"
    and "\<forall>b \<in> set bills. payable_as t b db \<and> agent_key q @ nat_to_string (i_id b) \<notin> payment_keys db"
  shows "\<exists>left' paid db'. pay_bills t ref u q bills left acc db = Inr ((left', paid @ acc), db') \<and> bills_paid q bills left left' paid db db'"
  using assms
proof (induction bills arbitrary: db left acc)
  case Nil
  then show ?case by (intro exI [of _ left] exI [of _ "[]"] exI [of _ db]) (simp add: bills_paid_def owing_on_def)
next
  case (Cons b bills)
  let ?due = "i_totalMinor b - i_amountPaidMinor b"
  note prems = Cons.prems
  show ?case
  proof (cases "left \<le> 0")
    case True
    with prems(3) have "left = 0" by simp
    moreover have "max 0 (0 - owing_on (b # bills)) = 0" using owing_nonneg [of "b # bills"] by simp
    ultimately show ?thesis using prems
      by (intro exI [of _ 0] exI [of _ "[]"] exI [of _ db]) (auto simp: bills_paid_def)
  next
    case pos: False
    show ?thesis
    proof (cases "?due \<le> 0")
      case True
      then have o: "owing_on (b # bills) = owing_on bills" by (simp add: owing_on_def)
      obtain left' paid db' where "pay_bills t ref u q bills left acc db = Inr ((left', paid @ acc), db')"
        and bp: "bills_paid q bills left left' paid db db'"
        using Cons.IH [OF prems(1-3), where acc = acc] prems(4,5) by force
      then have "pay_bills t ref u q (b # bills) left acc db = Inr ((left', paid @ acc), db')" using pos True by simp
      moreover have "bills_paid q (b # bills) left left' paid db db'" using bp unfolding bills_paid_def o by auto
      ultimately show ?thesis by blast
    next
      case False
      let ?part = "min ?due left"
      have part: "0 < ?part" "?part \<le> ?due" using pos False by simp_all
      let ?k = "agent_key q @ nat_to_string (i_id b)"
      have b: "payable_as t b db" "?k \<notin> payment_keys db" using prems(5) by simp_all
      obtain out db1 where r: "recordPaymentForInvoiceCore t \<lparr>in_invoiceId = i_id b, in_method = CASH, in_amountMinor = ?part,
           in_reference = Some ref, in_recordedByUserId = Some u, in_idempotencyKey = ?k, in_allowOverpayment = False\<rparr> db = Inr (out, db1)"
        and d1: "books_ok db1" "wallet_ok db1" "recorded_total db1 = recorded_total db + ?part" "payment_keys db1 = insert ?k (payment_keys db)"
          "customers db1 = customers db" "billing_db.more db1 = billing_db.more db" "nextId db \<le> p_id (res_payment out)"
          "p_id (res_payment out) < nextId db1" "clock db1 = clock db"
        and others: "\<And>i. i_id i \<noteq> i_id b \<Longrightarrow> payable_as t i db \<Longrightarrow> payable_as t i db1"
        by (rule record_bill [OF prems(1,2) b(1) part b(2), of "Some ref" "Some u"]) (rule that)
      have rest: "\<forall>x \<in> set bills. payable_as t x db1 \<and> agent_key q @ nat_to_string (i_id x) \<notin> payment_keys db1"
      proof
        fix x assume x: "x \<in> set bills"
        then have "i_id x \<noteq> i_id b" using prems(4) by (auto simp: image_iff)
        then show "payable_as t x db1 \<and> agent_key q @ nat_to_string (i_id x) \<notin> payment_keys db1"
          using others x prems(5) d1(4) agent_keys_differ(2) [of q "i_id x" "i_id b"] by auto
      qed
      obtain left' paid db' where p: "pay_bills t ref u q bills (left - ?part) (p_id (res_payment out) # acc) db1
            = Inr ((left', paid @ p_id (res_payment out) # acc), db')"
        and bp: "bills_paid q bills (left - ?part) left' paid db1 db'"
        using Cons.IH [OF d1(1,2) _ _ rest, where left = "left - ?part" and acc = "p_id (res_payment out) # acc"] prems(4) by force
      have "pay_bills t ref u q (b # bills) left acc db = Inr ((left', (paid @ [p_id (res_payment out)]) @ acc), db')"
        using pos False r p by (simp add: Let_def)
      moreover have "bills_paid q (b # bills) left left' (paid @ [p_id (res_payment out)]) db db'"
      proof -
        have "owing_on (b # bills) = ?due + owing_on bills" using False by (simp add: owing_on_def)
        then have "max 0 (left - ?part - owing_on bills) = max 0 (left - owing_on (b # bills))"
          using owing_nonneg [of bills] by linarith
        then show ?thesis using bp d1 unfolding bills_paid_def by auto
      qed
      ultimately show ?thesis by blast
    qed
  qed
qed

lemma keep_rest_records:
  fixes db :: "'x billing_db_scheme"
  assumes ok: "books_ok db" "wallet_ok db" "0 \<le> left" and key: "agent_key q @ ''wallet'' \<notin> payment_keys db"
    and cust: "List.find (\<lambda>c. c_id c = customerId \<and> c_tenantId c = t \<and> c_deletedAt c = None) (customers db) = Some customer"
  shows "\<exists>paid db'. keep_rest t ref u q customerId left acc db = Inr (paid @ acc, db') \<and> books_ok db' \<and> wallet_ok db'
    \<and> recorded_total db' = recorded_total db + left \<and> billing_db.more db' = billing_db.more db \<and> nextId db \<le> nextId db'
    \<and> (\<forall>p \<in> set paid. nextId db \<le> p \<and> p < nextId db') \<and> (paid = [] \<longleftrightarrow> left = 0)
    \<and> payment_keys db' = (if left = 0 then payment_keys db else insert (agent_key q @ ''wallet'') (payment_keys db))"
proof (cases "left \<le> 0")
  case True
  then show ?thesis using ok by (simp add: keep_rest_def)
next
  case False
  let ?inp = "\<lparr>tu_customerId = customerId, tu_amountMinor = left, tu_method = CASH, tu_currency = None, tu_reference = Some ref,
              tu_recordedByUserId = Some u, tu_idempotencyKey = agent_key q @ ''wallet''\<rparr>"
  obtain out db' where r: "topUpWalletCore t ?inp db = Inr (out, db')" and n: "\<not> res_wasAlreadyProcessed out"
    using topup_succeeds [OF ok(1,2), of ?inp t customer] False key cust by auto
  from topup_records [OF ok(1,2) r] topUp_grows [OF r] topup_key [OF ok(1,2) r n] n False r key show ?thesis
    by (intro exI [of _ "[p_id (res_payment out)]"] exI [of _ db']) (auto simp: keep_rest_def payment_keys_def)
qed

lemma already_collected_iff: "already_collected q db \<longleftrightarrow> (\<exists>x. agent_key q @ x \<in> payment_keys db)"
proof -
  have "starts_with p k \<longleftrightarrow> (\<exists>x. k = p @ x)" for p k :: string
    unfolding starts_with_def by (metis append_eq_conv_conj append_take_drop_id)
  then show ?thesis by (simp add: already_collected_def list_ex_iff payment_keys_def image_iff) metis
qed

definition agents_ok :: "'x agent_db_scheme \<Rightarrow> bool" where
  "agents_ok db \<longleftrightarrow> distinct (map ag_id (agents db)) \<and> distinct (map as_id (agentSales db))
     \<and> (\<forall>s \<in> set (agentSales db). as_id s < nextId db \<and> (as_paymentId s \<noteq> None \<longrightarrow> the (as_paymentId s) < nextId db))
     \<and> distinct (map as_voucherId (filter (\<lambda>s. as_voucherId s \<noteq> None) (agentSales db)))"

lemma agent_of_more:
  fixes db db' :: "'x agent_db_scheme"
  shows "billing_db.more db' = billing_db.more db \<Longrightarrow> agentSales db' = agentSales db \<and> agentRemittances db' = agentRemittances db
    \<and> agents db' = agents db \<and> voucherAgents db' = voucherAgents db \<and> vouchers db' = vouchers db"
  by (cases db; cases db'; simp)

lemma insert_sale_ok:
  assumes ok: "agents_ok db" and run: "insert_sale row db = Inr (s, db')" and p: "as_paymentId row \<noteq> None \<Longrightarrow> the (as_paymentId row) < nextId db"
  shows "agents_ok db'"
proof -
  have s: "s = row\<lparr>as_id := nextId db, as_createdAt := clock db\<rparr>" "db' = db\<lparr>nextId := nextId db + 1, agentSales := agentSales db @ [s]\<rparr>"
    and new: "as_voucherId row \<noteq> None \<Longrightarrow> as_voucherId row \<notin> as_voucherId ` set (agentSales db)"
    using run by (auto simp: insert_sale_def Let_def list_ex_iff split: if_splits)
  have "nextId db \<notin> as_id ` set (agentSales db)" using ok by (auto simp: agents_ok_def)
  then show ?thesis using ok new p unfolding agents_ok_def s by (auto simp: less_Suc_eq)
qed

lemma sale_balance:
  assumes "insert_sale row db = Inr (s, db')"
  shows "agentBalance a db' = agentBalance a db + (if as_agentId row = a then as_amountMinor row - as_commissionMinor row else 0)"
  using assms by (auto simp: insert_sale_def Let_def agentBalance_def balanceBefore_def before_def split: if_splits)

lemma open_bills_payable:
  assumes "books_ok db"
  shows "distinct (map i_id (open_bills t c db)) \<and> (\<forall>b \<in> set (open_bills t c db). payable_as t b db)"
proof -
  have d: "distinct (map i_id (invoices db))" using assms by (simp add: books_ok_def invoices_ok_def)
  have "distinct (invoices db)" "inj_on i_id (set (invoices db))" using d by (simp_all add: distinct_map)
  then have "distinct (map i_id (open_bills t c db))"
    by (auto simp: open_bills_def distinct_map intro: inj_on_subset)
  moreover have "payable_as t b db" if b: "b \<in> set (open_bills t c db)" for b
  proof -
    have m: "b \<in> set (invoices db)" "i_tenantId b = t" "is_open b" using b by (auto simp: open_bills_def)
    show ?thesis
      using find_key_and [OF d m(1), of "\<lambda>i. i_tenantId i = t"] m by (simp add: payable_as_def find_invoice_in_def)
  qed
  ultimately show ?thesis by blast
qed

lemma collect_records_once:
  fixes db :: "'x agent_db_scheme"
  assumes ok: "books_ok db" "wallet_ok db" "agents_ok db" and a: "getActiveAgentOrThrow t agentId db = Inr a" and pos: "0 < amount"
    and cust: "List.find (\<lambda>c. c_id c = customerId \<and> c_tenantId c = t \<and> c_deletedAt c = None) (customers db) = Some customer"
    and keys: "\<forall>b \<in> set (open_bills t customerId db). agent_key q @ nat_to_string (i_id b) \<notin> payment_keys db"
      "agent_key q @ ''wallet'' \<notin> payment_keys db"
  shows "\<exists>sale db'. collectAgentPayment t agentId u customerId amount q db = Inr (sale, db') \<and> books_ok db' \<and> wallet_ok db' \<and> agents_ok db'
    \<and> recorded_total db' = recorded_total db + amount
    \<and> agentBalance agentId db' = agentBalance agentId db + (amount - (amount * ag_collectionCommissionPercent a) div 100)
    \<and> already_collected q db' \<and> agents db' = agents db \<and> customers db' = customers db"
proof -
  let ?ref = "''Agent '' @ ag_name a"
  let ?bills = "open_bills t customerId db"
  note bills = open_bills_payable [OF ok(1), of t customerId]
  obtain left paid db1 where p: "pay_bills t ?ref u q ?bills amount [] db = Inr ((left, paid @ []), db1)"
    and bp: "bills_paid q ?bills amount left paid db db1"
    using pay_bills_records [OF ok(1,2) _ conjunct1 [OF bills], where left = amount and q = q and t = t and ref = ?ref and u = u and acc = "[]"]
      pos bills keys(1) by fastforce
  have left: "0 \<le> left" using bp by (simp add: bills_paid_def)
  have wkey: "agent_key q @ ''wallet'' \<notin> payment_keys db1"
    using bp keys(2) agent_keys_differ(1) [of q] unfolding bills_paid_def by fastforce
  have cust1: "List.find (\<lambda>c. c_id c = customerId \<and> c_tenantId c = t \<and> c_deletedAt c = None) (customers db1) = Some customer"
    using cust bp by (simp add: bills_paid_def)
  obtain paid2 db2 where k: "keep_rest t ?ref u q customerId left paid db1 = Inr (paid2 @ paid, db2)"
    and d2: "books_ok db2" "wallet_ok db2" "recorded_total db2 = recorded_total db1 + left" "billing_db.more db2 = billing_db.more db1"
      "nextId db1 \<le> nextId db2" "\<forall>p \<in> set paid2. nextId db1 \<le> p \<and> p < nextId db2" "paid2 = [] \<longleftrightarrow> left = 0"
      "payment_keys db2 = (if left = 0 then payment_keys db1 else insert (agent_key q @ ''wallet'') (payment_keys db1))"
    using keep_rest_records [OF _ _ left wkey cust1, where ref = ?ref and u = u and acc = paid] bp by (auto simp: bills_paid_def)
  let ?row = "collection_sale a customer amount (paid2 @ paid)"
  have ids: "\<forall>p \<in> set (paid2 @ paid). nextId db \<le> p \<and> p < nextId db2" using d2(5,6) bp by (auto simp: bills_paid_def)
  have ne: "paid2 @ paid \<noteq> []" using bp d2(7) pos by (auto simp: bills_paid_def)
  have more: "agentSales db2 = agentSales db" "agentRemittances db2 = agentRemittances db" "agents db2 = agents db"
    using agent_of_more [of db2 db] d2(4) bp by (simp_all add: bills_paid_def)
  have row: "as_paymentId ?row = Some (last (paid2 @ paid))" "as_voucherId ?row = None" "as_agentId ?row = ag_id a"
    "as_amountMinor ?row = amount" "as_commissionMinor ?row = (amount * ag_collectionCommissionPercent a) div 100"
    using ne by (simp_all add: collection_sale_def commissionMinor_def)
  have lastp: "nextId db \<le> last (paid2 @ paid)" "last (paid2 @ paid) < nextId db2" using ids last_in_set [OF ne] by blast+
  have fresh: "as_paymentId s \<noteq> as_paymentId ?row" if "s \<in> set (agentSales db2)" for s
    using that ok(3) lastp(1) unfolding row more agents_ok_def by fastforce
  obtain sale db3 where i: "insert_sale ?row db2 = Inr (sale, db3)"
    using fresh row(2) by (auto simp: insert_sale_def Let_def list_ex_iff)
  have db3: "db3 = db2\<lparr>nextId := nextId db2 + 1, agentSales := agentSales db2 @ [sale]\<rparr>"
    using i by (auto simp: insert_sale_def Let_def split: if_splits)
  have n: "nextId db \<le> nextId db2" using d2(5) bp by (simp add: bills_paid_def)
  have "agents_ok db2" using ok(3) n by (fastforce simp: agents_ok_def more)
  then have "agents_ok db3" by (rule insert_sale_ok [OF _ i]) (use row(1) lastp(2) in simp)
  moreover have "books_ok db3" by (rule books_ok_cong [OF d2(1)]) (simp_all add: db3)
  moreover have "wallet_ok db3" by (rule wallet_ok_cong [OF d2(2)]) (simp_all add: db3)
  moreover have "recorded_total db3 = recorded_total db + amount"
  proof -
    have "recorded_total db3 = recorded_total db2" by (rule recorded_total_cong) (simp_all add: db3)
    then show ?thesis using d2(3) bp by (simp add: bills_paid_def)
  qed
  moreover have "agentBalance agentId db3 = agentBalance agentId db + (amount - (amount * ag_collectionCommissionPercent a) div 100)"
  proof -
    have "ag_id a = agentId" using a by (auto simp: getActiveAgentOrThrow_def find_agent_def dest!: find_SomeD split: option.splits if_splits)
    moreover have "agentBalance agentId db2 = agentBalance agentId db" by (simp add: agentBalance_def balanceBefore_def more)
    ultimately show ?thesis using sale_balance [OF i, of agentId] row by simp
  qed
  moreover have "already_collected q db3"
  proof -
    have "\<exists>x. agent_key q @ x \<in> payment_keys db2"
    proof (cases "left = 0")
      case True
      then have "paid \<noteq> []" using ne d2(7) by simp
      then show ?thesis using bp d2(8) True unfolding bills_paid_def by auto
    next
      case False
      then show ?thesis using d2(8) by auto
    qed
    moreover have "payment_keys db3 = payment_keys db2" by (rule payment_keys_cong) (simp add: db3)
    ultimately show ?thesis by (simp add: already_collected_iff)
  qed
  moreover have "customers db3 = customers db" using d2(1) bp k
    by (auto simp: keep_rest_def bills_paid_def db3 split: if_splits sum.splits dest!: topUp_customers)
  ultimately show ?thesis using a pos cust p k i more by (simp add: collectAgentPayment_def db3)
qed

text \<open>
  C6. An agent's collection counts once. An active agent who takes an amount within the limits from a
  customer of the tenant, under a request not seen before, always succeeds; the whole amount is on
  the customer's books (on the open bills by due date, the rest in the wallet), the agent owes the
  amount less the commission rounded down, and the same request sent again is refused.
\<close>

theorem agent_collection_counts_once:
  fixes db :: "'x agent_db_scheme"
  assumes "books_ok db" "wallet_ok db" "agents_ok db"
    and a: "List.find (\<lambda>a. ag_tenantId a = t \<and> ag_userId a = Some u) (agents db) = Some a" "ag_status a = AG_ACTIVE"
    and amount: "100 \<le> amount" "amount \<le> 10000000" and new: "\<not> already_collected q db"
    and cust: "List.find (\<lambda>c. c_id c = customerId \<and> c_tenantId c = t \<and> c_deletedAt c = None) (customers db) = Some customer"
  shows "\<exists>sale db'. agentCollectionRoute t u customerId amount q db = Inr (sale, db') \<and> books_ok db' \<and> wallet_ok db' \<and> agents_ok db'
    \<and> recorded_total db' = recorded_total db + amount
    \<and> agentBalance (ag_id a) db' = agentBalance (ag_id a) db + (amount - (amount * ag_collectionCommissionPercent a) div 100)
    \<and> agentCollectionRoute t u customerId amount q db' = Inl (ConflictError ''This payment was already recorded'')"
proof -
  have key: "agent_key q @ x \<notin> payment_keys db" for x
    using new by (simp add: already_collected_iff)
  have m: "a \<in> set (agents db)" "ag_tenantId a = t" using find_SomeD [OF a(1)] by simp_all
  have "List.find (\<lambda>x. ag_id x = ag_id a \<and> ag_tenantId x = t) (agents db) = Some a"
    using find_key_and [of ag_id "agents db" a "\<lambda>x. ag_tenantId x = t"] m assms(3) by (simp add: agents_ok_def)
  then have act: "getActiveAgentOrThrow t (ag_id a) db = Inr a" using a(2) by (simp add: getActiveAgentOrThrow_def find_agent_def)
  obtain sale db' where c: "collectAgentPayment t (ag_id a) u customerId amount q db = Inr (sale, db')"
    and d: "books_ok db' \<and> wallet_ok db' \<and> agents_ok db' \<and> recorded_total db' = recorded_total db + amount
      \<and> agentBalance (ag_id a) db' = agentBalance (ag_id a) db + (amount - (amount * ag_collectionCommissionPercent a) div 100)
      \<and> already_collected q db' \<and> agents db' = agents db"
    using collect_records_once [OF assms(1-3) act _ cust, of amount q u] amount(1) key by auto
  then show ?thesis using a amount new m(2) by (simp add: agentCollectionRoute_def)
qed

text \<open>An agent takes 3,000.00 for a bill of 2,500.00.\<close>

definition sample_agent :: agent where
  "sample_agent = \<lparr>ag_id = 21, ag_tenantId = 7, ag_userId = Some 4, ag_name = ''Duka'', ag_voucherCommissionPercent = 10,
     ag_collectionCommissionPercent = 2, ag_status = AG_ACTIVE\<rparr>"

definition sample_payer :: customer where
  "sample_payer = \<lparr>c_id = 3, c_tenantId = 7, c_customerNumber = ''CUS-0000001'', c_fullName = ''Ann Other'', c_email = None,
     c_phone = ''254700000001'', c_idNumber = None, c_address = None, c_connectionType = None, c_branchId = None, c_userId = None,
     c_status = C_ACTIVE, c_notes = None, c_deletedAt = None, c_referralCode = None, c_referredById = None, c_referralRewardedAt = None\<rparr>"

definition sample_agent_db :: agent_db where
  "sample_agent_db = (hotspot_db.extend example_hotspot
     \<lparr>agents = [sample_agent], agentSales = [], agentRemittances = [], voucherAgents = []\<rparr>)
       \<lparr>clock := 500, nextId := 100, invoices := [sample_invoice], customers := [sample_payer]\<rparr>"

lemma sample_agent_db_fields [simp]:
  "nextId sample_agent_db = 100" "agents sample_agent_db = [sample_agent]" "agentSales sample_agent_db = []" "agentRemittances sample_agent_db = []"
  "customers sample_agent_db = [sample_payer]" "payments sample_agent_db = []" "invoices sample_agent_db = [sample_invoice]"
  "receipts sample_agent_db = []" "wallets sample_agent_db = []" "walletTxns sample_agent_db = []"
  by (simp_all add: sample_agent_db_def example_hotspot_def empty_hotspot_def hotspot_db.defs gateway_db.defs billing_db.defs empty_db_def empty_gateway_def)

theorem agent_collection_counts_once_witness:
  "\<exists>sale db'. agentCollectionRoute 7 4 3 300000 ''r-1'' sample_agent_db = Inr (sale, db')
     \<and> recorded_total db' = 300000 \<and> agentBalance 21 db' = 294000
     \<and> agentCollectionRoute 7 4 3 300000 ''r-1'' db' = Inl (ConflictError ''This payment was already recorded'')"
proof -
  have b: "books_ok sample_agent_db"
    by (rule books_ok_cong [OF sample_books_ok(1)]) (simp_all add: sample_db_def empty_db_def)
  have w: "wallet_ok sample_agent_db" "agents_ok sample_agent_db" "\<not> already_collected ''r-1'' sample_agent_db"
    by (simp_all add: wallet_ok_def agents_ok_def already_collected_def)
  have f: "List.find (\<lambda>a. ag_tenantId a = 7 \<and> ag_userId a = Some 4) (agents sample_agent_db) = Some sample_agent" "ag_status sample_agent = AG_ACTIVE"
    "List.find (\<lambda>c. c_id c = 3 \<and> c_tenantId c = 7 \<and> c_deletedAt c = None) (customers sample_agent_db) = Some sample_payer"
    by (simp_all add: sample_agent_def sample_payer_def)
  have z: "recorded_total sample_agent_db = 0" "agentBalance 21 sample_agent_db = 0" "ag_id sample_agent = 21" "ag_collectionCommissionPercent sample_agent = 2"
    by (simp_all add: recorded_total_def wallets_total_def guests_total_def agentBalance_def balanceBefore_def sample_agent_def sample_invoice_def)
  show ?thesis
    using agent_collection_counts_once [OF b w(1,2) f(1,2) _ _ w(3) f(3), of 300000] z by auto
qed

text \<open>
  Two requests with the same number that both pass the check before either commits: when the first
  was absorbed by the customer's bills, the second puts the whole amount into the wallet as well.
\<close>

lemma double_tap_collects_twice:
  fixes db :: "'x agent_db_scheme"
  assumes "books_ok db" "wallet_ok db" "agents_ok db" "getActiveAgentOrThrow t agentId db = Inr a" "0 < amount"
    and "List.find (\<lambda>c. c_id c = customerId \<and> c_tenantId c = t \<and> c_deletedAt c = None) (customers db) = Some customer"
    and "already_collected q db" "open_bills t customerId db = []" "agent_key q @ ''wallet'' \<notin> payment_keys db"
  shows "\<exists>sale db'. collectAgentPayment t agentId u customerId amount q db = Inr (sale, db') \<and> recorded_total db' = recorded_total db + amount"
  using collect_records_once [OF assms(1-6) _ assms(9), where u = u] assms(8) by auto

section \<open>Statements\<close>

lemma leap_days:
  fixes y :: int
  shows "97 * (y div 400) + ((y - y div 400 * 400) div 4 - (y - y div 400 * 400) div 100) = y div 4 - y div 100 + y div 400"
proof -
  define e r where "e = y div 400" and "r = y - e * 400"
  have "y div 4 = r div 4 + 100 * e" "y div 100 = r div 100 + 4 * e"
    using div_mult_self2 [of 4 r "100 * e"] div_mult_self2 [of 100 r "4 * e"] by (simp_all add: r_def)
  then show ?thesis by (simp add: e_def [symmetric] r_def [symmetric])
qed

definition leaps :: "int \<Rightarrow> int" where
  "leaps y = y div 4 - y div 100 + y div 400"

lemma leaps_step: "leaps (y - 1) < 28 + leaps y"
proof -
  have "(y - 1) div 4 \<le> y div 4" "(y - 1) div 400 \<le> y div 400" by (simp_all add: zdiv_mono1)
  moreover have "y div 100 \<le> (y - 1 + 1 * 100) div 100" by (rule zdiv_mono1) simp_all
  then have "y div 100 \<le> (y - 1) div 100 + 1" by (simp only: div_mult_self1)
  moreover have "a \<le> a' \<Longrightarrow> c \<le> c' \<Longrightarrow> b' \<le> b + 1 \<Longrightarrow> a - b + c < 28 + (a' - b' + c')" for a a' b b' c c' :: int
    by simp
  ultimately show ?thesis unfolding leaps_def by metis
qed

lemma civil_days_eq:
  "civil_days y m d = (let y' = (if m \<le> 2 then y - 1 else y)
     in 365 * y' + leaps y' + ((153 * (if m > 2 then m - 3 else m + 9) + 2) div 5 + d - 1) - 719468)"
proof -
  have "e * 146097 + ((z - e * 400) * 365 + a - b + k) - 719468 = 365 * z + (97 * e + (a - b)) + k - 719468" for e z a b k :: int
    by (simp add: algebra_simps)
  then show ?thesis unfolding civil_days_def Let_def leaps_def leap_days [symmetric] by metis
qed

lemma civil_days_month:
  assumes "0 \<le> month" "month < 12"
  shows "civil_days y (month + 1) 1 < (if month = 11 then civil_days (y + 1) 1 1 else civil_days y (month + 2) 1)"
proof -
  have "month = 0 \<or> month = 1 \<or> month = 2 \<or> month = 3 \<or> month = 4 \<or> month = 5 \<or> month = 6 \<or> month = 7 \<or> month = 8
      \<or> month = 9 \<or> month = 10 \<or> month = 11" using assms by presburger
  with leaps_step [of y] show ?thesis
    by (elim disjE) (simp_all add: civil_days_eq Let_def)
qed

lemma months_follow: "utc_month year (month - 1) < utc_month year month"
proof -
  define m where "m = (month - 1) mod 12"
  define y where "y = year + (month - 1) div 12"
  have m: "0 \<le> m" "m < 12" by (simp_all add: m_def)
  define k where "k = (month - 1) div 12"
  have "month - 1 = 12 * k + m" by (simp add: k_def m_def)
  then have eq: "month = 12 * (if m = 11 then k + 1 else k) + (if m = 11 then 0 else m + 1)" by simp
  have r: "0 \<le> (if m = 11 then 0 else m + 1)" "(if m = 11 then 0 else m + 1) < 12" using m by auto
  have "month div 12 = (if m = 11 then k + 1 else k)" "month mod 12 = (if m = 11 then 0 else m + 1)"
    by (rule int_div_pos_eq [OF eq r], rule int_mod_pos_eq [OF eq r])
  then have "year + month div 12 = (if m = 11 then y + 1 else y)" "month mod 12 = (if m = 11 then 0 else m + 1)"
    by (simp_all add: k_def y_def)
  then have "utc_month year month = (if m = 11 then civil_days (y + 1) 1 1 else civil_days y (m + 2) 1) * 86400000"
    by (simp add: utc_month_def add_ac)
  moreover have "utc_month year (month - 1) = civil_days y (m + 1) 1 * 86400000" by (simp add: utc_month_def m_def y_def)
  ultimately show ?thesis using civil_days_month [OF m, of y] by simp
qed

lemma sum_before:
  fixes to start :: time
  assumes "start \<le> to"
  shows "sum_where (\<lambda>r. k r = a \<and> before (Some to) (w r)) v t =
    sum_where (\<lambda>r. k r = a \<and> before (Some start) (w r)) v t
    + sum_list (map v (filter (\<lambda>r. k r = a \<and> start \<le> w r \<and> w r < to) t))"
  using assms by (induction t) (auto simp: before_def)

lemma sum_kinds:
  "sum_list (map v (filter (\<lambda>s. as_kind s = SALE_VOUCHER) ss)) + sum_list (map v (filter (\<lambda>s. as_kind s = SALE_COLLECTION) ss))
    = sum_list (map (v :: agent_sale \<Rightarrow> int) ss)"
proof -
  have kind: "(as_kind s = SALE_COLLECTION) = (as_kind s \<noteq> SALE_VOUCHER)" for s by (cases "as_kind s") simp_all
  show ?thesis unfolding kind by (induction ss) simp_all
qed

lemma sum_later:
  fixes to :: time
  shows "sum_where (\<lambda>r. k r = a \<and> before None (w r)) v t =
    sum_where (\<lambda>r. k r = a \<and> before (Some to) (w r)) v t + sum_where (\<lambda>r. k r = a \<and> to \<le> w r) v t"
  by (induction t) (auto simp: before_def)

lemma closing_balance: "st_closingBalanceMinor (agentStatement a year month db) = balanceBefore a (Some (utc_month year month)) db"
  by (simp add: agentStatement_def Let_def balanceBefore_def total_of_def sum_before [OF less_imp_le [OF months_follow [of year month]]])

text \<open>
  C9. Monthly statements fit together. The closing balance of a month is the opening balance of the
  next, over the year's end too; vouchers and collections make up what was taken; and what the agent
  owes now is the closing balance of any month with what was sold and handed over since.
\<close>

theorem statements_fit_together:
  "st_openingBalanceMinor (agentStatement a year (month + 1) db) = st_closingBalanceMinor (agentStatement a year month db)
   \<and> st_openingBalanceMinor (agentStatement a (year + 1) 1 db) = st_closingBalanceMinor (agentStatement a year 12 db)
   \<and> sl_amountMinor (st_vouchers (agentStatement a year month db)) + sl_amountMinor (st_collections (agentStatement a year month db))
       = st_takenMinor (agentStatement a year month db)
   \<and> agentBalance a db = st_closingBalanceMinor (agentStatement a year month db)
       + sum_where (\<lambda>s. as_agentId s = a \<and> utc_month year month \<le> as_createdAt s) as_amountMinor (agentSales db)
       - sum_where (\<lambda>s. as_agentId s = a \<and> utc_month year month \<le> as_createdAt s) as_commissionMinor (agentSales db)
       - sum_where (\<lambda>r. ar_agentId r = a \<and> utc_month year month \<le> ar_createdAt r) ar_amountMinor (agentRemittances db)"
proof (intro conjI)
  have "utc_month (year + 1) 0 = utc_month year 12" by (simp add: utc_month_def)
  then show "st_openingBalanceMinor (agentStatement a (year + 1) 1 db) = st_closingBalanceMinor (agentStatement a year 12 db)"
    unfolding closing_balance by (simp add: agentStatement_def Let_def)
  show "st_openingBalanceMinor (agentStatement a year (month + 1) db) = st_closingBalanceMinor (agentStatement a year month db)"
    unfolding closing_balance by (simp add: agentStatement_def Let_def)
  show "sl_amountMinor (st_vouchers (agentStatement a year month db)) + sl_amountMinor (st_collections (agentStatement a year month db))
       = st_takenMinor (agentStatement a year month db)"
    by (simp add: agentStatement_def Let_def total_of_def sum_kinds del: filter_filter)
  show "agentBalance a db = st_closingBalanceMinor (agentStatement a year month db)
       + sum_where (\<lambda>s. as_agentId s = a \<and> utc_month year month \<le> as_createdAt s) as_amountMinor (agentSales db)
       - sum_where (\<lambda>s. as_agentId s = a \<and> utc_month year month \<le> as_createdAt s) as_commissionMinor (agentSales db)
       - sum_where (\<lambda>r. ar_agentId r = a \<and> utc_month year month \<le> ar_createdAt r) ar_amountMinor (agentRemittances db)"
    unfolding closing_balance agentBalance_def
    by (simp add: balanceBefore_def sum_later [where k = as_agentId and to = "utc_month year month"] sum_later [where k = ar_agentId and to = "utc_month year month"])
qed

section \<open>Selling from the stock\<close>

text \<open>
  A voucher is sold once, whatever other requests do meanwhile: a sale is of a voucher that was in the
  agent's stock when the attempt looked, at the package's price and the agent's commission, and no
  other sale has that voucher.
\<close>

lemma sell_attempts_once:
  fixes db :: "'x agent_db_scheme"
  assumes "agents_ok db" and "list_all (\<lambda>f. \<forall>d :: 'x agent_db_scheme. agents_ok d \<longrightarrow> agents_ok (f d)) others"
    and "sell_attempts n others a pkg phone db = (Inr (s, code), db')"
  shows "agents_ok db' \<and> s \<in> set (agentSales db') \<and> as_voucherId s \<noteq> None \<and> as_agentId s = ag_id a \<and> as_amountMinor s = hp_priceMinor pkg
    \<and> as_commissionMinor s = commissionMinor (hp_priceMinor pkg) (ag_voucherCommissionPercent a)
    \<and> {x \<in> set (agentSales db'). as_voucherId x = as_voucherId s} = {s}"
  using assms
proof (induction n arbitrary: others db)
  case 0
  then show ?case by simp
next
  case (Suc n)
  obtain v where v: "List.find (\<lambda>v. in_stock (ag_id a) db v \<and> v_hotspotPackageId v = Some (hp_id pkg)) (vouchers db) = Some v"
    using Suc.prems(3) by (auto split: option.splits)
  define db1 where "db1 = (case others of [] \<Rightarrow> db | f # _ \<Rightarrow> f db)"
  have ok1: "agents_ok db1" using Suc.prems(1,2) by (auto simp: db1_def split: list.splits)
  show ?case
  proof (cases "insert_sale (voucher_sale a pkg v phone) db1")
    case (Inl e)
    then have "sell_attempts n (tl others) a pkg phone db1 = (Inr (s, code), db')"
      using Suc.prems(3) v by (auto simp: Let_def db1_def [symmetric] split: if_splits)
    moreover have "list_all (\<lambda>f. \<forall>d :: 'x agent_db_scheme. agents_ok d \<longrightarrow> agents_ok (f d)) (tl others)"
      using Suc.prems(2) by (cases others) simp_all
    ultimately show ?thesis using Suc.IH [OF ok1] by blast
  next
    case (Inr out)
    then have r: "insert_sale (voucher_sale a pkg v phone) db1 = Inr (s, db')"
      using Suc.prems(3) v by (auto simp: Let_def db1_def [symmetric] split: prod.splits)
    have "agents_ok db'" by (rule insert_sale_ok [OF ok1 r]) (simp add: voucher_sale_def)
    then show ?thesis using r
      by (auto simp: insert_sale_def Let_def list_ex_iff voucher_sale_def split: if_splits)
  qed
qed

end
