(* ===== verification/Totp.thy ===== *)
theory Totp imports RadiusPackets Destinations begin

unbundle bit_operations_syntax

text \<open>
  packages/auth/src/totp.ts: authenticator codes (RFC 6238) and the base32 text of their secrets.
  JavaScript's bit operators work on 32 bits, so the accumulator \<open>value\<close> of the two base32
  loops is a \<open>32 word\<close>, which overflows after four bytes. HMAC-SHA1 is the parameter
  \<open>hmac\<close>; four bytes of its twenty are read, from an offset below sixteen.
\<close>

section \<open>Base32\<close>

definition base32_alphabet :: string where
  "base32_alphabet = ''ABCDEFGHIJKLMNOPQRSTUVWXYZ234567''"

text \<open>The inner loop of \<open>base32Encode\<close>: while at least five bits wait, write a character.\<close>

fun encode_bits :: "nat \<Rightarrow> 32 word \<Rightarrow> string \<times> nat" where
  "encode_bits bits val =
     (if bits \<ge> 5
      then (let (out, rest) = encode_bits (bits - 5) val
            in (base32_alphabet ! unat (drop_bit (bits - 5) val AND 31) # out, rest))
      else ([], bits))"

declare encode_bits.simps [simp del]

fun encode_loop :: "byte list \<Rightarrow> nat \<Rightarrow> 32 word \<Rightarrow> string" where
  "encode_loop [] bits val = (if bits > 0 then [base32_alphabet ! unat (push_bit (5 - bits) val AND 31)] else [])"
| "encode_loop (b # bs) bits val =
     (let val' = push_bit 8 val OR ucast b; (out, rest) = encode_bits (bits + 8) val'
      in out @ encode_loop bs rest val')"

definition base32Encode :: "byte list \<Rightarrow> string" where
  "base32Encode buf = encode_loop buf 0 0"

definition index_of :: "char \<Rightarrow> string \<Rightarrow> nat option" where
  "index_of c s = List.find (\<lambda>i. s ! i = c) [0..<length s]"

fun decode_loop :: "string \<Rightarrow> nat \<Rightarrow> 32 word \<Rightarrow> byte list result" where
  "decode_loop [] bits val = Inr []"
| "decode_loop (c # cs) bits val =
     (case index_of c base32_alphabet of
        None \<Rightarrow> Inl (UnexpectedError ''Invalid base32'')
      | Some idx \<Rightarrow>
          let val' = push_bit 5 val OR of_nat idx
          in if bits + 5 \<ge> 8
             then (case decode_loop cs (bits + 5 - 8) val' of Inl e \<Rightarrow> Inl e
                   | Inr out \<Rightarrow> Inr (ucast (drop_bit (bits + 5 - 8) val' AND 255) # out))
             else decode_loop cs (bits + 5) val')"

definition base32_noise :: "char \<Rightarrow> bool" where
  "base32_noise c \<longleftrightarrow> is_space c \<or> c = CHR ''='' \<or> c = CHR ''-''"

definition base32Decode :: "string \<Rightarrow> byte list result" where
  "base32Decode s = decode_loop (filter (\<lambda>c. \<not> base32_noise c) (map to_upper s)) 0 0"

text \<open>The secret of twenty random bytes.\<close>

definition generateTotpSecret :: "byte list \<Rightarrow> string" where
  "generateTotpSecret random20 = base32Encode random20"

section \<open>Codes\<close>

definition hotp :: "keyed_hash \<Rightarrow> byte list \<Rightarrow> int \<Rightarrow> nat \<Rightarrow> string result" where
  "hotp hmac key counter digits =
     (if counter < 0 \<or> counter \<ge> 2 ^ 64 then Inl (RangeError ''The value of \"value\" is out of range.'')
      else let mac = hmac key (rev (map (\<lambda>i. word_of_int (counter div 2 ^ (8 * i))) [0..<8]));
               offset = unat (mac ! (length mac - 1) AND 15);
               code = (readUInt32BE (drop offset mac) mod 2 ^ 31) mod 10 ^ digits
           in Inr (pad_start digits (CHR ''0'') (nat_to_string code)))"

definition time_step :: "time \<Rightarrow> int" where
  "time_step at = at div 30000"

definition totpAt :: "keyed_hash \<Rightarrow> string \<Rightarrow> time \<Rightarrow> string result" where
  "totpAt hmac secretBase32 at =
     (case base32Decode secretBase32 of Inl e \<Rightarrow> Inl e | Inr key \<Rightarrow> hotp hmac key (time_step at) 6)"

fun check_steps :: "keyed_hash \<Rightarrow> byte list \<Rightarrow> string \<Rightarrow> int list \<Rightarrow> bool result" where
  "check_steps hmac key code [] = Inr False"
| "check_steps hmac key code (s # ss) =
     (case hotp hmac key s 6 of Inl e \<Rightarrow> Inl e
      | Inr expected \<Rightarrow> (case check_steps hmac key code ss of Inl e \<Rightarrow> Inl e | Inr ok \<Rightarrow> Inr (expected = code \<or> ok)))"

definition six_digits :: "string \<Rightarrow> bool" where
  "six_digits s \<longleftrightarrow> length s = 6 \<and> list_all is_digit s"

definition verifyTotp :: "keyed_hash \<Rightarrow> string \<Rightarrow> string \<Rightarrow> time \<Rightarrow> bool result" where
  "verifyTotp hmac secretBase32 code now =
     (let clean = filter (\<lambda>c. \<not> is_space c) code
      in if \<not> six_digits clean then Inr False
         else case base32Decode secretBase32 of Inl e \<Rightarrow> Inl e
           | Inr key \<Rightarrow> check_steps hmac key clean [time_step now - 1, time_step now, time_step now + 1])"

section \<open>Recovery codes and texts\<close>

definition recovery_alphabet :: string where
  "recovery_alphabet = ''abcdefghjkmnpqrstuvwxyz23456789''"

definition recovery_code :: "byte list \<Rightarrow> string" where
  "recovery_code random8 =
     (let s = map (\<lambda>b. recovery_alphabet ! (unat b mod length recovery_alphabet)) random8
      in take 4 s @ ''-'' @ drop 4 s)"

definition generateRecoveryCodes :: "byte list list \<Rightarrow> string list" where
  "generateRecoveryCodes draws = map recovery_code draws"

text \<open>\<open>sha\<close> is SHA-256 to a hexadecimal text.\<close>

definition hashRecoveryCode :: "(string \<Rightarrow> string) \<Rightarrow> string \<Rightarrow> string" where
  "hashRecoveryCode sha code = sha (filter is_alnum (map to_lower (trim code)))"

definition generateSmsCode :: "byte list \<Rightarrow> string" where
  "generateSmsCode random4 = pad_start 6 (CHR ''0'') (nat_to_string (readUInt32BE random4 mod 1000000))"

section \<open>Base32 as a stream of bits\<close>

text \<open>The last \<open>n\<close> bits of a word, the highest first: what the accumulator still holds.\<close>

definition low_bits :: "nat \<Rightarrow> 'a::len word \<Rightarrow> bool list" where
  "low_bits n w = rev (map (bit w) [0..<n])"

definition byte_bits :: "byte list \<Rightarrow> bool list" where
  "byte_bits bs = concat (map (low_bits 8) bs)"

definition digit_bits :: "char \<Rightarrow> bool list" where
  "digit_bits c = (case index_of c base32_alphabet of None \<Rightarrow> [] | Some i \<Rightarrow> low_bits 5 (of_nat i :: 32 word))"

lemma length_low_bits [simp]: "length (low_bits n w) = n"
  by (simp add: low_bits_def)

lemma low_bits_nth: "i < n \<Longrightarrow> low_bits n w ! i = bit w (n - 1 - i)"
  by (simp add: low_bits_def rev_nth)

lemma low_bits_push_byte: "n \<le> 24 \<Longrightarrow> low_bits (n + 8) (push_bit 8 (w :: 32 word) OR ucast (b :: byte)) = low_bits n w @ low_bits 8 b"
  by (rule nth_equalityI) (auto simp: low_bits_nth nth_append bit_simps dest: bit_imp_le_length)

lemma low_bits_split: "low_bits (m + k) w = low_bits m (drop_bit k w) @ low_bits k w"
  by (rule nth_equalityI) (auto simp: low_bits_nth nth_append bit_simps add.commute)

lemma and_31: "w AND 31 = take_bit 5 (w :: 32 word)"
  by (simp add: take_bit_eq_mask mask_eq_exp_minus_1)

lemma and_255: "w AND 255 = take_bit 8 (w :: 32 word)"
  by (simp add: take_bit_eq_mask mask_eq_exp_minus_1)

lemma low_bits_mask: "low_bits 5 (w AND 31 :: 32 word) = low_bits 5 w"
  unfolding and_31 by (rule nth_equalityI) (auto simp: low_bits_nth bit_simps)

lemma low_bits_byte: "low_bits 8 (ucast (w AND 255 :: 32 word) :: byte) = low_bits 8 w"
  unfolding and_255 by (rule nth_equalityI) (auto simp: low_bits_nth bit_simps)

lemma low_bits_inj:
  fixes v w :: byte
  assumes "low_bits 8 v = low_bits 8 w"
  shows "v = w"
proof (rule bit_word_eqI)
  fix n assume n: "n < LENGTH(8)"
  have "low_bits 8 v ! (7 - n) = low_bits 8 w ! (7 - n)" using assms by simp
  then show "bit v n = bit w n" using n by (simp add: low_bits_nth)
qed

lemma alphabet_length: "length base32_alphabet = 32" by (simp add: base32_alphabet_def)

lemma index_of_alphabet: "i < 32 \<Longrightarrow> index_of (base32_alphabet ! i) base32_alphabet = Some i"
proof -
  have "list_all (\<lambda>i. index_of (base32_alphabet ! i) base32_alphabet = Some i) [0..<32]" by code_simp
  then show "i < 32 \<Longrightarrow> index_of (base32_alphabet ! i) base32_alphabet = Some i" by (simp add: list_all_iff)
qed

lemma base32_digit_of:
  fixes w :: "32 word"
  shows "index_of (base32_alphabet ! unat (w AND 31)) base32_alphabet = Some (unat (w AND 31))"
    "digit_bits (base32_alphabet ! unat (w AND 31)) = low_bits 5 w"
    "base32_alphabet ! unat (w AND 31) \<in> set base32_alphabet"
proof -
  have "w AND 31 < 32"
    using word_and_le1 [of w 31] by unat_arith
  then have lt: "unat (w AND 31) < 32" by unat_arith
  show "index_of (base32_alphabet ! unat (w AND 31)) base32_alphabet = Some (unat (w AND 31))"
    by (rule index_of_alphabet [OF lt])
  then show "digit_bits (base32_alphabet ! unat (w AND 31)) = low_bits 5 w"
    by (simp add: digit_bits_def low_bits_mask)
  show "base32_alphabet ! unat (w AND 31) \<in> set base32_alphabet"
    using lt by (simp add: alphabet_length)
qed

section \<open>Encoding and decoding\<close>

definition digits_bits :: "string \<Rightarrow> bool list" where
  "digits_bits s = concat (map digit_bits s)"

lemma encode_bits_spec:
  "encode_bits bits val = (out, rest) \<Longrightarrow> rest < 5 \<and> set out \<subseteq> set base32_alphabet
     \<and> low_bits bits val = digits_bits out @ low_bits rest val"
proof (induction bits val arbitrary: out rest rule: encode_bits.induct)
  case (1 bits val)
  show ?case
  proof (cases "bits \<ge> 5")
    case False
    then show ?thesis using "1.prems" by (simp add: encode_bits.simps [of bits val] digits_bits_def)
  next
    case True
    obtain out' rest' where r: "encode_bits (bits - 5) val = (out', rest')" by fastforce
    then have o: "out = base32_alphabet ! unat (drop_bit (bits - 5) val AND 31) # out'" "rest = rest'"
      using "1.prems" True by (simp_all add: encode_bits.simps [of bits val])
    have "low_bits bits val = low_bits 5 (drop_bit (bits - 5) val) @ low_bits (bits - 5) val"
      using low_bits_split [of 5 "bits - 5" val] True by simp
    then show ?thesis
      using "1.IH" [OF True r] o base32_digit_of(2,3) [of "drop_bit (bits - 5) val"] by (simp add: digits_bits_def)
  qed
qed

lemma encode_loop_spec:
  "bits < 5 \<Longrightarrow> \<exists>zeros. length zeros < 5 \<and> set (encode_loop bs bits val) \<subseteq> set base32_alphabet
     \<and> digits_bits (encode_loop bs bits val) = low_bits bits val @ byte_bits bs @ zeros"
proof (induction bs arbitrary: bits val)
  case Nil
  show ?case
  proof (cases "bits = 0")
    case True
    then show ?thesis by (simp add: digits_bits_def byte_bits_def low_bits_def)
  next
    case False
    have "low_bits 5 (push_bit (5 - bits) val) = low_bits bits val @ low_bits (5 - bits) (push_bit (5 - bits) val)"
    proof -
      have "low_bits bits (drop_bit (5 - bits) (push_bit (5 - bits) val)) = low_bits bits val"
        using Nil by (intro nth_equalityI) (auto simp: low_bits_nth bit_simps)
      then show ?thesis using low_bits_split [of bits "5 - bits" "push_bit (5 - bits) val"] Nil by simp
    qed
    then show ?thesis
      using False Nil base32_digit_of(2,3) [of "push_bit (5 - bits) val"]
      by (intro exI [of _ "low_bits (5 - bits) (push_bit (5 - bits) val)"]) (simp add: digits_bits_def byte_bits_def)
  qed
next
  case (Cons b bs)
  let ?val = "push_bit 8 val OR ucast b :: 32 word"
  obtain out rest where e: "encode_bits (bits + 8) ?val = (out, rest)" by fastforce
  note sp = encode_bits_spec [OF e]
  obtain zeros where z: "length zeros < 5" "set (encode_loop bs rest ?val) \<subseteq> set base32_alphabet"
    "digits_bits (encode_loop bs rest ?val) = low_bits rest ?val @ byte_bits bs @ zeros"
    using Cons.IH [of rest ?val] sp by auto
  have "low_bits (bits + 8) ?val = low_bits bits val @ low_bits 8 b"
    by (rule low_bits_push_byte) (use Cons.prems in simp)
  then have "digits_bits out @ low_bits rest ?val = low_bits bits val @ low_bits 8 b" using sp by simp
  then have "digits_bits (encode_loop (b # bs) bits val) = low_bits bits val @ byte_bits (b # bs) @ zeros"
    using e z(3) by (simp add: digits_bits_def byte_bits_def flip: append_assoc)
  then show ?case using z sp e by (intro exI [of _ zeros]) simp
qed

lemma low_bits_push_digit: "n \<le> 27 \<Longrightarrow> i < 32 \<Longrightarrow>
    low_bits (n + 5) (push_bit 5 (w :: 32 word) OR of_nat i) = low_bits n w @ low_bits 5 (of_nat i :: 32 word)"
proof (rule nth_equalityI)
  have small: "\<not> bit i k" if "i < 32" "5 \<le> k" for k
  proof -
    have "(2::nat) ^ 5 \<le> 2 ^ k" by (rule power_increasing) (use that in simp_all)
    then have "i < 2 ^ k" using that by simp
    then show "\<not> bit i k" by (simp add: bit_iff_odd)
  qed
  fix k
  assume "n \<le> 27" "i < 32" "k < length (low_bits (n + 5) (push_bit 5 w OR of_nat i))"
  then show "low_bits (n + 5) (push_bit 5 w OR of_nat i) ! k = (low_bits n w @ low_bits 5 (of_nat i :: 32 word)) ! k"
    by (auto simp: low_bits_nth nth_append bit_simps small)
qed simp

lemma decode_loop_spec:
  assumes "bits < 8" and "set s \<subseteq> set base32_alphabet"
  shows "\<exists>out rest. decode_loop s bits val = Inr out \<and> length rest < 8 \<and> byte_bits out @ rest = low_bits bits val @ digits_bits s"
  using assms
proof (induction s arbitrary: bits val)
  case Nil
  then show ?case by (intro exI [of _ "[]"] exI [of _ "low_bits bits val"]) (simp add: byte_bits_def digits_bits_def)
next
  case (Cons c cs)
  obtain i where i: "i < 32" "c = base32_alphabet ! i"
    using Cons.prems(2) by (metis alphabet_length in_set_conv_nth list.set_intros(1) subsetD)
  then have ix: "index_of c base32_alphabet = Some i" by (simp add: index_of_alphabet)
  let ?val = "push_bit 5 val OR of_nat i :: 32 word"
  have push: "low_bits (bits + 5) ?val = low_bits bits val @ digit_bits c"
    using low_bits_push_digit [of bits i val] Cons.prems(1) i ix by (simp add: digit_bits_def)
  show ?case
  proof (cases "bits + 5 \<ge> 8")
    case True
    let ?n = "bits + 5 - 8"
    obtain out rest where r: "decode_loop cs ?n ?val = Inr out" "length rest < 8"
      "byte_bits out @ rest = low_bits ?n ?val @ digits_bits cs"
    proof -
      have "?n < 8" "set cs \<subseteq> set base32_alphabet" using Cons.prems by simp_all
      from Cons.IH [OF this, of ?val] show thesis using that by blast
    qed
    have "low_bits (bits + 5) ?val = low_bits 8 (drop_bit ?n ?val) @ low_bits ?n ?val"
      using low_bits_split [of 8 ?n ?val] True by (metis le_add_diff_inverse)
    then have "byte_bits (ucast (drop_bit ?n ?val AND 255) # out) @ rest = low_bits bits val @ digits_bits (c # cs)"
      using push r(3) by (simp add: byte_bits_def digits_bits_def low_bits_byte)
    then show ?thesis using r True ix by (auto simp: Let_def)
  next
    case False
    obtain out rest where r: "decode_loop cs (bits + 5) ?val = Inr out" "length rest < 8"
      "byte_bits out @ rest = low_bits (bits + 5) ?val @ digits_bits cs"
      using Cons.IH [of "bits + 5" ?val] Cons.prems False by auto
    then show ?thesis using False ix push by (auto simp: Let_def digits_bits_def)
  qed
qed

lemma byte_bits_inj: "byte_bits as = byte_bits bs \<Longrightarrow> as = bs"
proof (induction as arbitrary: bs)
  case Nil
  then show ?case by (cases bs) (simp_all add: byte_bits_def low_bits_def)
next
  case (Cons a as)
  then obtain b bs' where bs: "bs = b # bs'" by (cases bs) (auto simp: byte_bits_def low_bits_def)
  with Cons.prems have "low_bits 8 a @ byte_bits as = low_bits 8 b @ byte_bits bs'" by (simp add: byte_bits_def)
  then have "low_bits 8 a = low_bits 8 b \<and> byte_bits as = byte_bits bs'" by (subst (asm) append_eq_append_conv) simp_all
  then show ?case using Cons.IH bs low_bits_inj by blast
qed

lemma byte_bits_length: "length (byte_bits bs) = 8 * length bs"
  by (induction bs) (simp_all add: byte_bits_def)

lemma decode_encode: "decode_loop (base32Encode bs) 0 0 = Inr bs"
proof -
  obtain zeros where z: "length zeros < 5" "set (base32Encode bs) \<subseteq> set base32_alphabet"
    "digits_bits (base32Encode bs) = byte_bits bs @ zeros"
    using encode_loop_spec [of 0 bs 0] by (auto simp: base32Encode_def low_bits_def)
  obtain out rest where r: "decode_loop (base32Encode bs) 0 0 = Inr out" "length rest < 8"
    "byte_bits out @ rest = byte_bits bs @ zeros"
    using decode_loop_spec [OF _ z(2), of 0 0] z(3) by (auto simp: low_bits_def)
  have "8 * length out + length rest = 8 * length bs + length zeros"
    using arg_cong [OF r(3), of length] by (simp add: byte_bits_length)
  then have "length out = length bs" using r(2) z(1) by presburger
  then have "byte_bits out = byte_bits bs" using r(3) by (simp add: byte_bits_length append_eq_append_conv)
  then show ?thesis using byte_bits_inj r(1) by blast
qed

lemma alphabet_clean: "c \<in> set base32_alphabet \<Longrightarrow> \<not> base32_noise c \<and> to_upper c = c"
proof -
  have "list_all (\<lambda>c. \<not> base32_noise c \<and> to_upper c = c) base32_alphabet" by code_simp
  then show "c \<in> set base32_alphabet \<Longrightarrow> \<not> base32_noise c \<and> to_upper c = c" by (simp add: list_all_iff)
qed

lemma base32Encode_letters: "set (base32Encode bs) \<subseteq> set base32_alphabet"
  using encode_loop_spec [of 0 bs 0] by (auto simp: base32Encode_def)

lemma base32Decode_encode: "base32Decode (base32Encode bs) = Inr bs"
proof -
  have "map to_upper (base32Encode bs) = base32Encode bs"
    using base32Encode_letters [of bs] alphabet_clean by (intro map_idI) blast
  moreover have "filter (\<lambda>c. \<not> base32_noise c) (base32Encode bs) = base32Encode bs"
    using base32Encode_letters [of bs] alphabet_clean by (auto simp: filter_id_conv)
  ultimately show ?thesis by (simp add: base32Decode_def decode_encode)
qed

text \<open>
  The text of a secret is decoded to the secret: for any bytes, although the 32-bit accumulators
  of both loops overflow, and also when the text was typed in lower case, grouped by spaces or
  dashes, or padded.
\<close>

theorem base32_round_trip:
  "base32Decode (base32Encode bs) = Inr bs
   \<and> (filter (\<lambda>c. \<not> base32_noise c) (map to_upper text) = base32Encode bs \<longrightarrow> base32Decode text = Inr bs)"
  using base32Decode_encode by (simp add: base32Decode_def decode_encode)

theorem base32_round_trip_witness:
  "base32Decode ''jbsw y3dp-fqqf o33s nrsc c==='' = Inr [0x48, 0x65, 0x6c, 0x6c, 0x6f, 0x2c, 0x20, 0x57, 0x6f, 0x72, 0x6c, 0x64, 0x21]"
proof -
  have "filter (\<lambda>c. \<not> base32_noise c) (map to_upper ''jbsw y3dp-fqqf o33s nrsc c==='') =
      base32Encode [0x48, 0x65, 0x6c, 0x6c, 0x6f, 0x2c, 0x20, 0x57, 0x6f, 0x72, 0x6c, 0x64, 0x21]"
    by code_simp
  then show ?thesis using base32_round_trip by blast
qed

section \<open>Which codes are accepted\<close>

lemma nat_to_string_length: "n < 10 ^ k \<Longrightarrow> 0 < k \<Longrightarrow> length (nat_to_string n) \<le> k"
proof (induction k arbitrary: n)
  case 0
  then show ?case by simp
next
  case (Suc k)
  show ?case
  proof (cases "n < 10")
    case True
    then show ?thesis by (simp add: nat_to_string.simps [of n])
  next
    case False
    then have "n div 10 < 10 ^ k" "0 < k" using Suc.prems by (auto simp: less_mult_imp_div_less mult.commute intro: Suc_leI gr0I)
    then show ?thesis using Suc.IH [of "n div 10"] False by (simp add: nat_to_string.simps [of n])
  qed
qed

lemma hotp_digits: "hotp hmac key s 6 = Inr code \<Longrightarrow> six_digits code"
proof -
  assume h: "hotp hmac key s 6 = Inr code"
  define n where "n = (readUInt32BE (drop (unat (hmac key (rev (map (\<lambda>i. word_of_int (s div 2 ^ (8 * i))) [0..<8]))
      ! (length (hmac key (rev (map (\<lambda>i. word_of_int (s div 2 ^ (8 * i))) [0..<8]))) - 1) AND 15))
      (hmac key (rev (map (\<lambda>i. word_of_int (s div 2 ^ (8 * i))) [0..<8])))) mod 2 ^ 31) mod (10 ^ 6 :: nat)"
  have c: "code = pad_start 6 (CHR ''0'') (nat_to_string n)"
    using h by (simp add: hotp_def Let_def n_def split: if_splits)
  have zero: "is_digit (CHR ''0'')" by code_simp
  have "n < 10 ^ 6" by (simp add: n_def)
  then have "length (nat_to_string n) \<le> 6" by (rule nat_to_string_length) simp
  then show ?thesis
    using nat_to_string_digits [of _ n] zero by (auto simp: six_digits_def c pad_start_def list_all_iff)
qed

lemma digits_not_space: "six_digits code \<Longrightarrow> filter (\<lambda>c. \<not> is_space c) code = code"
proof -
  have spaces: "\<not> is_digit (CHR '' '')" "\<not> is_digit (CHR 0x09)" "\<not> is_digit (CHR 0x0A)" "\<not> is_digit (CHR 0x0B)"
    "\<not> is_digit (CHR 0x0C)" "\<not> is_digit (CHR 0x0D)" by code_simp+
  have "\<not> is_space c" if "is_digit c" for c
    using that spaces unfolding is_space_def by metis
  then show "six_digits code \<Longrightarrow> filter (\<lambda>c. \<not> is_space c) code = code"
    by (auto simp: six_digits_def list_all_iff filter_id_conv)
qed

lemma check_steps_iff:
  "(\<And>s. s \<in> set ss \<Longrightarrow> 0 \<le> s \<and> s < 2 ^ 64) \<Longrightarrow> check_steps hmac key code ss = Inr (\<exists>s \<in> set ss. hotp hmac key s 6 = Inr code)"
proof (induction ss)
  case Nil
  then show ?case by simp
next
  case (Cons s ss)
  then have "0 \<le> s" "s < 2 ^ 64" by auto
  then obtain e where "hotp hmac key s 6 = Inr e" by (auto simp: hotp_def Let_def)
  then show ?case using Cons by auto
qed

lemma totpAt_step: "totpAt hmac (base32Encode key) (now + 30000 * k) = hotp hmac key (time_step now + k) 6"
  by (simp add: totpAt_def base32Decode_encode time_step_def add.commute)

text \<open>
  Exactly the codes of the moment and of thirty seconds before and after it are accepted, typed
  with or without spaces; so a code is accepted at any moment at most thirty seconds away from the
  one an authenticator with a shifted clock made it for.
\<close>

theorem verifyTotp_window:
  assumes "30000 \<le> now" and "now < 2 ^ 64"
  shows "verifyTotp hmac (base32Encode key) code now =
      Inr (\<exists>k \<in> {-1, 0, 1}. totpAt hmac (base32Encode key) (now + 30000 * k) = Inr (filter (\<lambda>c. \<not> is_space c) code))
    \<and> (\<bar>at - now\<bar> \<le> 30000 \<longrightarrow> totpAt hmac (base32Encode key) at = Inr c \<longrightarrow>
      verifyTotp hmac (base32Encode key) c now = Inr True)"
proof -
  have "30000 * (now div 30000) \<le> now" "now < 30000 * (now div 30000) + 30000" by presburger+
  then have "1 \<le> time_step now" "time_step now + 1 < 2 ^ 64" using assms unfolding time_step_def by linarith+
  then have steps: "0 \<le> s \<and> s < 2 ^ 64" if "s \<in> set [time_step now - 1, time_step now, time_step now + 1]" for s
    using that by auto
  have iff: "verifyTotp hmac (base32Encode key) code now =
      Inr (\<exists>k \<in> {-1, 0, 1}. totpAt hmac (base32Encode key) (now + 30000 * k) = Inr (filter (\<lambda>c. \<not> is_space c) code))" for code
  proof (cases "six_digits (filter (\<lambda>c. \<not> is_space c) code)")
    case False
    then have "totpAt hmac (base32Encode key) (now + 30000 * k) \<noteq> Inr (filter (\<lambda>c. \<not> is_space c) code)" for k
      using hotp_digits unfolding totpAt_step by blast
    with False show ?thesis by (simp add: verifyTotp_def Let_def)
  next
    case True
    have "check_steps hmac key (filter (\<lambda>c. \<not> is_space c) code) [time_step now - 1, time_step now, time_step now + 1] =
        Inr (\<exists>s \<in> {time_step now - 1, time_step now, time_step now + 1}. hotp hmac key s 6 = Inr (filter (\<lambda>c. \<not> is_space c) code))"
      using check_steps_iff [of "[time_step now - 1, time_step now, time_step now + 1]" hmac key] steps by simp
    with True show ?thesis
      unfolding totpAt_step by (simp add: verifyTotp_def Let_def base32Decode_encode del: check_steps.simps)
  qed
  have "verifyTotp hmac (base32Encode key) c now = Inr True"
    if near: "\<bar>at - now\<bar> \<le> 30000" and c: "totpAt hmac (base32Encode key) at = Inr c"
  proof -
    have "30000 * time_step at \<le> at" "at < 30000 * time_step at + 30000" "30000 * time_step now \<le> now"
      "now < 30000 * time_step now + 30000" unfolding time_step_def by presburger+
    then have "time_step at < time_step now + 2" "time_step now < time_step at + 2" using near by linarith+
    then have k: "time_step at - time_step now \<in> {-1, 0, 1}" "time_step at = time_step now + (time_step at - time_step now)" by auto
    define k where "k = time_step at - time_step now"
    have k: "k \<in> {-1, 0, 1}" "time_step at = time_step now + k" using k by (simp_all add: k_def)
    have "hotp hmac key (time_step at) 6 = Inr c" using c by (simp add: totpAt_def base32Decode_encode)
    then have "totpAt hmac (base32Encode key) (now + 30000 * k) = Inr c" "six_digits c"
      using k(2) hotp_digits unfolding totpAt_step by metis+
    then show ?thesis using iff [of c] k(1) digits_not_space by auto
  qed
  with iff show ?thesis by blast
qed

definition sample_hmac :: keyed_hash where
  "sample_hmac key m = map (\<lambda>i. of_nat i * (hd key + last m)) [0..<20]"

theorem verifyTotp_window_witness:
  "\<exists>c. totpAt sample_hmac (base32Encode [7, 8, 9]) 1700000000000 = Inr c
     \<and> verifyTotp sample_hmac (base32Encode [7, 8, 9]) c 1700000029000 = Inr True"
proof -
  obtain c where c: "totpAt sample_hmac (base32Encode [7, 8, 9]) 1700000000000 = Inr c"
    by (simp add: totpAt_def base32Decode_encode hotp_def time_step_def Let_def)
  have "(30000 :: int) \<le> 1700000029000" "(1700000029000 :: int) < 2 ^ 64" "\<bar>1700000000000 - 1700000029000\<bar> \<le> (30000 :: int)"
    by simp_all
  with verifyTotp_window [of 1700000029000 sample_hmac "[7, 8, 9]" c 1700000000000 c] c show ?thesis by blast
qed

end
