(* ===== verification/SignIn.thy ===== *)
theory SignIn imports Destinations begin

text \<open>
  The packages/auth library (session.ts, login.ts, registration.ts, rbac.ts, tokens.ts), the
  request guards of apps/api/src/plugins (authenticate.ts, authorize.ts, tenant.ts,
  require-feature.ts) and the clean-up job of the worker. The hash functions, the password hash and
  the signature of access tokens are parameters; random tokens are arguments.
\<close>

section \<open>Tables\<close>

datatype user_status = U_ACTIVE | U_SUSPENDED | U_LOCKED | U_PENDING_VERIFICATION
datatype mfa_method = TOTP | SMS
datatype tenant_state = TS_ACTIVE | TS_SUSPENDED | TS_CANCELLED | TS_PENDING_APPROVAL

record user_account =
  ua_id :: id
  ua_tenantId :: "id option"
  ua_email :: string
  ua_phone :: "string option"
  ua_passwordHash :: string
  ua_status :: user_status
  ua_emailVerifiedAt :: "time option"
  ua_failedLoginCount :: nat
  ua_lockedUntil :: "time option"
  ua_lastLoginAt :: "time option"
  ua_mfaMethod :: "mfa_method option"
  ua_mfaRecoveryCodes :: "string list"
  ua_totpSecretEncrypted :: "string option"
  ua_totpEnabledAt :: "time option"
  ua_deletedAt :: "time option"

record user_session =
  se_id :: id
  se_userId :: id
  se_tenantId :: "id option"
  se_refreshTokenHash :: string
  se_userAgent :: "string option"
  se_ipAddress :: "string option"
  se_expiresAt :: time
  se_revokedAt :: "time option"
  se_revokedReason :: "string option"
  se_lastUsedAt :: time
  se_previousSessionId :: "id option"

record login_attempt =
  la_userId :: "id option"
  la_email :: string
  la_tenantId :: "id option"
  la_ipAddress :: string
  la_userAgent :: "string option"
  la_success :: bool
  la_failureReason :: "string option"
  la_createdAt :: time

record link_token =
  lt_id :: id
  lt_userId :: id
  lt_tokenHash :: string
  lt_expiresAt :: time
  lt_usedAt :: "time option"

record auth_role =
  ro_id :: id
  ro_tenantId :: "id option"
  ro_name :: string
  ro_permissions :: "string list"

record user_role =
  ur_userId :: id
  ur_tenantId :: "id option"
  ur_roleId :: id

record api_key =
  ak_id :: id
  ak_tenantId :: "id option"
  ak_keyHash :: string
  ak_scopes :: "string list"
  ak_createdByUserId :: "id option"
  ak_revokedAt :: "time option"
  ak_lastUsedAt :: "time option"

record tenant_account =
  ta_id :: id
  ta_slug :: string
  ta_name :: string
  ta_status :: tenant_state
  ta_deletedAt :: "time option"
  ta_trialEndsAt :: "time option"
  ta_disabledFeatures :: "string list"
  ta_planFeatures :: "string list option"
  ta_subscriptionActive :: bool
  ta_requireStaffMfa :: bool

record auth_db =
  au_now :: time
  au_nextId :: id
  users :: "user_account list"
  sessions :: "user_session list"
  loginAttempts :: "login_attempt list"
  verificationTokens :: "link_token list"
  resetTokens :: "link_token list"
  roles :: "auth_role list"
  userRoles :: "user_role list"
  apiKeys :: "api_key list"
  tenantAccounts :: "tenant_account list"

section \<open>Permissions\<close>

text \<open>The members of a list in the order a JavaScript \<open>Set\<close> keeps them.\<close>

definition in_set_order :: "'a list \<Rightarrow> 'a list" where
  "in_set_order xs = rev (remdups (rev xs))"

definition getEffectivePermissions :: "id \<Rightarrow> id option \<Rightarrow> 'x auth_db_scheme \<Rightarrow> string list" where
  "getEffectivePermissions userId tenantId db =
     in_set_order (concat (map (\<lambda>ur. concat (map ro_permissions (filter (\<lambda>r. ro_id r = ur_roleId ur) (roles db))))
       (filter (\<lambda>ur. ur_userId ur = userId \<and> ur_tenantId ur = tenantId) (userRoles db))))"

definition hasPermission :: "id \<Rightarrow> id option \<Rightarrow> string \<Rightarrow> 'x auth_db_scheme \<Rightarrow> bool" where
  "hasPermission userId tenantId permission db \<longleftrightarrow> permission \<in> set (getEffectivePermissions userId tenantId db)"

definition assertNoPrivilegeEscalation :: "string set \<Rightarrow> string list \<Rightarrow> unit result" where
  "assertNoPrivilegeEscalation grantorPermissions requested =
     (let notHeld = filter (\<lambda>k. k \<notin> grantorPermissions) requested
      in if notHeld \<noteq> [] then Inl (ForbiddenError (''Cannot grant permissions you do not hold: '' @ join_with '', '' notHeld))
         else Inr ())"

section \<open>Sessions\<close>

definition access_token_ttl_seconds :: int where
  "access_token_ttl_seconds = 15 * 60"

definition refresh_token_ttl_ms :: int where
  "refresh_token_ttl_ms = 30 * 24 * 60 * 60 * 1000"

record access_claims =
  ac_sub :: id
  ac_tenantId :: "id option"
  ac_sessionId :: id
  ac_roles :: "string list"
  ac_expiresAt :: int

record device_context =
  dc_userAgent :: "string option"
  dc_ipAddress :: "string option"

text \<open>What is issued: the claims of the access token, the refresh token and the session.\<close>

record issued_tokens =
  it_claims :: access_claims
  it_refreshToken :: string
  it_session :: user_session

definition issueTokensForSession :: "id \<Rightarrow> id option \<Rightarrow> user_session \<Rightarrow> string \<Rightarrow> 'x auth_db_scheme \<Rightarrow> issued_tokens" where
  "issueTokensForSession userId tenantId session refreshToken db =
     \<lparr>it_claims = \<lparr>ac_sub = userId, ac_tenantId = tenantId, ac_sessionId = se_id session,
         ac_roles = getEffectivePermissions userId tenantId db, ac_expiresAt = au_now db div 1000 + access_token_ttl_seconds\<rparr>,
       it_refreshToken = refreshToken, it_session = session\<rparr>"

definition new_session :: "id \<Rightarrow> id option \<Rightarrow> string \<Rightarrow> string option \<Rightarrow> string option \<Rightarrow> id option \<Rightarrow> 'x auth_db_scheme \<Rightarrow> user_session" where
  "new_session userId tenantId tokenHash userAgent ipAddress previous db =
     \<lparr>se_id = au_nextId db, se_userId = userId, se_tenantId = tenantId, se_refreshTokenHash = tokenHash,
      se_userAgent = userAgent, se_ipAddress = ipAddress, se_expiresAt = au_now db + refresh_token_ttl_ms,
      se_revokedAt = None, se_revokedReason = None, se_lastUsedAt = au_now db, se_previousSessionId = previous\<rparr>"

text \<open>The token's hash and the previous session are unique columns.\<close>

definition insert_session :: "user_session \<Rightarrow> 'x auth_db_scheme \<Rightarrow> 'x auth_db_scheme result" where
  "insert_session s db =
     (if \<exists>x \<in> set (sessions db). se_refreshTokenHash x = se_refreshTokenHash s
           \<or> (se_previousSessionId s \<noteq> None \<and> se_previousSessionId x = se_previousSessionId s)
      then Inl UniqueViolation
      else Inr (db\<lparr>au_nextId := au_nextId db + 1, sessions := sessions db @ [s]\<rparr>))"

definition createSession ::
  "(string \<Rightarrow> string) \<Rightarrow> string \<Rightarrow> id \<Rightarrow> id option \<Rightarrow> device_context \<Rightarrow> 'x auth_db_scheme \<Rightarrow> (issued_tokens \<times> 'x auth_db_scheme) result" where
  "createSession hmac newToken userId tenantId device db =
     (let s = new_session userId tenantId (hmac newToken) (dc_userAgent device) (dc_ipAddress device) None db
      in case insert_session s db of Inl e \<Rightarrow> Inl e
         | Inr db1 \<Rightarrow> Inr (issueTokensForSession userId tenantId s newToken db1, db1))"

definition revoke_where :: "(user_session \<Rightarrow> bool) \<Rightarrow> string option \<Rightarrow> 'x auth_db_scheme \<Rightarrow> 'x auth_db_scheme" where
  "revoke_where p reason db = db\<lparr>sessions := update_where (\<lambda>s. p s \<and> se_revokedAt s = None)
     (\<lambda>s. s\<lparr>se_revokedAt := Some (au_now db), se_revokedReason := reason\<rparr>) (sessions db)\<rparr>"

definition find_by_token :: "string \<Rightarrow> 'x auth_db_scheme \<Rightarrow> user_session option" where
  "find_by_token tokenHash db = List.find (\<lambda>s. se_refreshTokenHash s = tokenHash) (sessions db)"

definition rotate ::
  "(string \<Rightarrow> string) \<Rightarrow> string \<Rightarrow> user_session \<Rightarrow> device_context \<Rightarrow> 'x auth_db_scheme \<Rightarrow> (issued_tokens \<times> 'x auth_db_scheme) result" where
  "rotate hmac newToken old device db =
     (let db1 = db\<lparr>sessions := update_where (\<lambda>s. se_id s = se_id old)
                  (\<lambda>s. s\<lparr>se_revokedAt := Some (au_now db), se_revokedReason := Some ''rotated''\<rparr>) (sessions db)\<rparr>;
          s = new_session (se_userId old) (se_tenantId old) (hmac newToken)
                (case dc_userAgent device of Some a \<Rightarrow> Some a | None \<Rightarrow> se_userAgent old)
                (case dc_ipAddress device of Some a \<Rightarrow> Some a | None \<Rightarrow> se_ipAddress old) (Some (se_id old)) db
      in case insert_session s db1 of Inl e \<Rightarrow> Inl e
         | Inr db2 \<Rightarrow> Inr (issueTokensForSession (se_userId old) (se_tenantId old) s newToken db2, db2))"

definition refreshSession ::
  "(string \<Rightarrow> string) \<Rightarrow> string \<Rightarrow> string \<Rightarrow> device_context \<Rightarrow> 'x auth_db_scheme \<Rightarrow> issued_tokens result \<times> 'x auth_db_scheme" where
  "refreshSession hmac newToken refreshToken device db =
     (case find_by_token (hmac refreshToken) db of
        None \<Rightarrow> (Inl (UnauthorizedError ''Invalid refresh token''), db)
      | Some existing \<Rightarrow>
          if se_revokedAt existing \<noteq> None
          then (Inl (UnauthorizedError (''Refresh token reuse detected '' @ em_dash @ '' all sessions for this account have been revoked'')),
                revoke_where (\<lambda>s. se_userId s = se_userId existing) (Some ''refresh_token_reuse_detected'') db)
          else if se_expiresAt existing < au_now db then (Inl (UnauthorizedError ''Refresh token has expired''), db)
          else (case rotate hmac newToken existing device db of Inl e \<Rightarrow> (Inl e, db) | Inr (issued, db1) \<Rightarrow> (Inr issued, db1)))"

definition revokeSession :: "id \<Rightarrow> string \<Rightarrow> 'x auth_db_scheme \<Rightarrow> 'x auth_db_scheme" where
  "revokeSession sessionId reason db = revoke_where (\<lambda>s. se_id s = sessionId) (Some reason) db"

definition revokeAllSessionsForUser :: "id \<Rightarrow> string \<Rightarrow> 'x auth_db_scheme \<Rightarrow> nat \<times> 'x auth_db_scheme" where
  "revokeAllSessionsForUser userId reason db =
     (count_where (\<lambda>s. se_userId s = userId \<and> se_revokedAt s = None) (sessions db),
      revoke_where (\<lambda>s. se_userId s = userId) (Some reason) db)"

definition listActiveSessionsForUser :: "id \<Rightarrow> 'x auth_db_scheme \<Rightarrow> user_session list" where
  "listActiveSessionsForUser userId db =
     sort_key (\<lambda>s. - se_lastUsedAt s)
       (filter (\<lambda>s. se_userId s = userId \<and> se_revokedAt s = None \<and> au_now db < se_expiresAt s) (sessions db))"

definition touchSession :: "id \<Rightarrow> 'x auth_db_scheme \<Rightarrow> 'x auth_db_scheme" where
  "touchSession sessionId db =
     db\<lparr>sessions := update_where (\<lambda>s. se_id s = sessionId) (\<lambda>s. s\<lparr>se_lastUsedAt := au_now db\<rparr>) (sessions db)\<rparr>"

section \<open>Signing in with a password\<close>

definition max_failed_attempts :: nat where
  "max_failed_attempts = 5"

definition lockout_duration_ms :: int where
  "lockout_duration_ms = 15 * 60 * 1000"

text \<open>\<open>email.trim().toLowerCase()\<close>\<close>

definition normal_email :: "string \<Rightarrow> string" where
  "normal_email email = map to_lower (trim email)"

definition find_user :: "id option \<Rightarrow> string \<Rightarrow> 'x auth_db_scheme \<Rightarrow> user_account option" where
  "find_user tenantId email db = List.find (\<lambda>u. ua_tenantId u = tenantId \<and> ua_email u = email) (users db)"

definition update_user :: "id \<Rightarrow> (user_account \<Rightarrow> user_account) \<Rightarrow> 'x auth_db_scheme \<Rightarrow> 'x auth_db_scheme" where
  "update_user i f db = db\<lparr>users := update_where (\<lambda>u. ua_id u = i) f (users db)\<rparr>"

definition record_attempt ::
  "id option \<Rightarrow> string \<Rightarrow> id option \<Rightarrow> device_context \<Rightarrow> bool \<Rightarrow> string option \<Rightarrow> 'x auth_db_scheme \<Rightarrow> 'x auth_db_scheme" where
  "record_attempt userId email tenantId device success reason db =
     db\<lparr>loginAttempts := loginAttempts db @
       [\<lparr>la_userId = userId, la_email = email, la_tenantId = tenantId,
         la_ipAddress = (case dc_ipAddress device of Some a \<Rightarrow> a | None \<Rightarrow> ''unknown''), la_userAgent = dc_userAgent device,
         la_success = success, la_failureReason = reason, la_createdAt = au_now db\<rparr>]\<rparr>"

record login_params =
  lp_tenantId :: "id option"
  lp_email :: string
  lp_password :: string
  lp_device :: device_context

definition failed_login :: "time \<Rightarrow> nat \<Rightarrow> user_account \<Rightarrow> user_account" where
  "failed_login now failedLoginCount u =
     (let shouldLock = failedLoginCount \<ge> max_failed_attempts
      in u\<lparr>ua_failedLoginCount := (if shouldLock then 0 else failedLoginCount),
           ua_lockedUntil := (if shouldLock then Some (now + lockout_duration_ms) else None)\<rparr>)"

definition verifyLoginCredentials ::
  "(string \<Rightarrow> string \<Rightarrow> bool) \<Rightarrow> login_params \<Rightarrow> 'x auth_db_scheme \<Rightarrow> user_account result \<times> 'x auth_db_scheme" where
  "verifyLoginCredentials verifyPassword params db =
     (let email = normal_email (lp_email params);
          found = find_user (lp_tenantId params) email db;
          attempt = (\<lambda>ok why. record_attempt (map_option ua_id found) email (lp_tenantId params) (lp_device params) ok why);
          refused = Inl (UnauthorizedError ''Invalid email or password'')
      in case found of
           None \<Rightarrow> (refused, attempt False (Some ''user_not_found'') db)
         | Some u \<Rightarrow>
             if ua_status u = U_SUSPENDED then (refused, attempt False (Some ''account_suspended'') db)
             else if ua_status u = U_PENDING_VERIFICATION then (refused, attempt False (Some ''pending_verification'') db)
             else if (case ua_lockedUntil u of None \<Rightarrow> False | Some t \<Rightarrow> t > au_now db)
             then (refused, attempt False (Some ''account_locked'') db)
             else if \<not> verifyPassword (ua_passwordHash u) (lp_password params)
             then (refused, attempt False (Some ''bad_password'')
                     (update_user (ua_id u) (failed_login (au_now db) (ua_failedLoginCount u + 1)) db))
             else (Inr u, attempt True None
                     (update_user (ua_id u) (\<lambda>u. u\<lparr>ua_failedLoginCount := 0, ua_lockedUntil := None, ua_lastLoginAt := Some (au_now db)\<rparr>) db)))"

definition attemptLogin ::
  "(string \<Rightarrow> string) \<Rightarrow> (string \<Rightarrow> string \<Rightarrow> bool) \<Rightarrow> string \<Rightarrow> login_params \<Rightarrow> 'x auth_db_scheme \<Rightarrow>
     (issued_tokens \<times> user_account) result \<times> 'x auth_db_scheme" where
  "attemptLogin hmac verifyPassword newToken params db =
     (case verifyLoginCredentials verifyPassword params db of
        (Inl e, db1) \<Rightarrow> (Inl e, db1)
      | (Inr u, db1) \<Rightarrow>
          (case createSession hmac newToken (ua_id u) (ua_tenantId u) (lp_device params) db1 of
             Inl e \<Rightarrow> (Inl e, db1)
           | Inr (issued, db2) \<Rightarrow> (Inr (issued, u), db2)))"

text \<open>An undefined user agent does not restrict the search.\<close>

definition isSuspiciousLogin :: "id \<Rightarrow> device_context \<Rightarrow> 'x auth_db_scheme \<Rightarrow> bool" where
  "isSuspiciousLogin userId device db =
     (case dc_ipAddress device of None \<Rightarrow> False
      | Some ip \<Rightarrow> ip \<noteq> [] \<and> \<not> list_ex (\<lambda>a. la_userId a = Some userId \<and> la_success a \<and> la_ipAddress a = ip
            \<and> (case dc_userAgent device of None \<Rightarrow> True | Some ua \<Rightarrow> la_userAgent a = Some ua)) (loginAttempts db))"

section \<open>Accounts, verification links and password resets\<close>

definition password_min_length :: nat where
  "password_min_length = 10"

definition is_letter :: "char \<Rightarrow> bool" where
  "is_letter c \<longleftrightarrow> is_alnum c \<and> \<not> is_digit c"

definition isPasswordStrongEnough :: "string \<Rightarrow> bool" where
  "isPasswordStrongEnough s \<longleftrightarrow> length s \<ge> password_min_length \<and> list_ex is_letter s
     \<and> list_ex (\<lambda>c. is_digit c \<or> \<not> (is_alnum c \<or> c = CHR ''_'')) s"

record register_params =
  rp_tenantId :: "id option"
  rp_email :: string
  rp_password :: string
  rp_phone :: "string option"
  rp_device :: device_context

definition email_verification_ttl_ms :: int where
  "email_verification_ttl_ms = 24 * 60 * 60 * 1000"

definition password_reset_ttl_ms :: int where
  "password_reset_ttl_ms = 60 * 60 * 1000"

definition new_user :: "id option \<Rightarrow> string \<Rightarrow> string option \<Rightarrow> string \<Rightarrow> user_status \<Rightarrow> time option \<Rightarrow> id \<Rightarrow> user_account" where
  "new_user tenantId email phone passwordHash status verifiedAt i =
     \<lparr>ua_id = i, ua_tenantId = tenantId, ua_email = email, ua_phone = phone, ua_passwordHash = passwordHash, ua_status = status,
      ua_emailVerifiedAt = verifiedAt, ua_failedLoginCount = 0, ua_lockedUntil = None, ua_lastLoginAt = None, ua_mfaMethod = None,
      ua_mfaRecoveryCodes = [], ua_totpSecretEncrypted = None, ua_totpEnabledAt = None, ua_deletedAt = None\<rparr>"

definition weak_password :: app_error where
  "weak_password = ValidationError ''Password must be at least 10 characters and include a letter plus a digit or symbol''"

definition registerUser ::
  "(string \<Rightarrow> string) \<Rightarrow> (string \<Rightarrow> string) \<Rightarrow> (string \<Rightarrow> string) \<Rightarrow> bool \<Rightarrow> string \<Rightarrow> register_params \<Rightarrow> 'x auth_db_scheme \<Rightarrow>
     (user_account \<times> string option \<times> issued_tokens option) result \<times> 'x auth_db_scheme" where
  "registerUser hmac sha hashPassword emailTransportConfigured newToken params db =
     (let email = normal_email (rp_email params)
      in if \<not> isPasswordStrongEnough (rp_password params) then (Inl weak_password, db)
         else if find_user (rp_tenantId params) email db \<noteq> None
         then (Inl (ConflictError ''An account with this email already exists''), db)
         else if \<not> emailTransportConfigured
         then (let u = new_user (rp_tenantId params) email (rp_phone params) (hashPassword (rp_password params)) U_ACTIVE (Some (au_now db)) (au_nextId db);
                   db1 = db\<lparr>au_nextId := au_nextId db + 1, users := users db @ [u]\<rparr>
               in case createSession hmac newToken (ua_id u) (ua_tenantId u) (rp_device params) db1 of
                    Inl e \<Rightarrow> (Inl e, db1)
                  | Inr (issued, db2) \<Rightarrow> (Inr (u, None, Some issued), db2))
         else (let u = new_user (rp_tenantId params) email (rp_phone params) (hashPassword (rp_password params)) U_PENDING_VERIFICATION None (au_nextId db);
                   t = \<lparr>lt_id = au_nextId db + 1, lt_userId = ua_id u, lt_tokenHash = sha newToken,
                        lt_expiresAt = au_now db + email_verification_ttl_ms, lt_usedAt = None\<rparr>
               in if sha newToken \<in> lt_tokenHash ` set (verificationTokens db) then (Inl UniqueViolation, db)
                  else (Inr (u, Some newToken, None),
                        db\<lparr>au_nextId := au_nextId db + 2, users := users db @ [u], verificationTokens := verificationTokens db @ [t]\<rparr>)))"

text \<open>A link is usable when it is known, unused and not expired.\<close>

definition usable_link :: "time \<Rightarrow> string \<Rightarrow> link_token list \<Rightarrow> link_token option" where
  "usable_link now tokenHash ts =
     (case List.find (\<lambda>t. lt_tokenHash t = tokenHash) ts of None \<Rightarrow> None
      | Some t \<Rightarrow> if lt_usedAt t \<noteq> None \<or> lt_expiresAt t < now then None else Some t)"

definition use_link :: "id \<Rightarrow> time \<Rightarrow> link_token list \<Rightarrow> link_token list" where
  "use_link i now = update_where (\<lambda>t. lt_id t = i) (\<lambda>t. t\<lparr>lt_usedAt := Some now\<rparr>)"

definition verifyEmailToken :: "(string \<Rightarrow> string) \<Rightarrow> string \<Rightarrow> 'x auth_db_scheme \<Rightarrow> (user_account \<times> 'x auth_db_scheme) result" where
  "verifyEmailToken sha rawToken db =
     (case usable_link (au_now db) (sha rawToken) (verificationTokens db) of
        None \<Rightarrow> Inl (ValidationError ''This verification link is invalid or has expired'')
      | Some t \<Rightarrow>
          (case List.find (\<lambda>u. ua_id u = lt_userId t) (users db) of None \<Rightarrow> Inl RecordNotFound
           | Some u \<Rightarrow>
               let f = (\<lambda>u. u\<lparr>ua_emailVerifiedAt := Some (au_now db), ua_status := U_ACTIVE\<rparr>)
               in Inr (f u, update_user (ua_id u) f (db\<lparr>verificationTokens := use_link (lt_id t) (au_now db) (verificationTokens db)\<rparr>))))"

text \<open>A fresh link replaces the unused ones of the user.\<close>

definition replace_links :: "id \<Rightarrow> string \<Rightarrow> time \<Rightarrow> time \<Rightarrow> id \<Rightarrow> link_token list \<Rightarrow> link_token list" where
  "replace_links userId tokenHash now expiresAt i ts =
     update_where (\<lambda>t. lt_userId t = userId \<and> lt_usedAt t = None) (\<lambda>t. t\<lparr>lt_usedAt := Some now\<rparr>) ts
     @ [\<lparr>lt_id = i, lt_userId = userId, lt_tokenHash = tokenHash, lt_expiresAt = expiresAt, lt_usedAt = None\<rparr>]"

definition resendVerificationEmail ::
  "(string \<Rightarrow> string) \<Rightarrow> string \<Rightarrow> id option \<Rightarrow> string \<Rightarrow> 'x auth_db_scheme \<Rightarrow> ((user_account \<times> string) option \<times> 'x auth_db_scheme) result" where
  "resendVerificationEmail sha newToken tenantId email db =
     (case find_user tenantId (normal_email email) db of None \<Rightarrow> Inr (None, db)
      | Some u \<Rightarrow>
          if ua_emailVerifiedAt u \<noteq> None then Inr (None, db)
          else if sha newToken \<in> lt_tokenHash ` set (verificationTokens db) then Inl UniqueViolation
          else Inr (Some (u, newToken), db\<lparr>au_nextId := au_nextId db + 1, verificationTokens :=
                 replace_links (ua_id u) (sha newToken) (au_now db) (au_now db + email_verification_ttl_ms) (au_nextId db) (verificationTokens db)\<rparr>))"

definition requestPasswordReset ::
  "(string \<Rightarrow> string) \<Rightarrow> string \<Rightarrow> id option \<Rightarrow> string \<Rightarrow> 'x auth_db_scheme \<Rightarrow> ((user_account \<times> string) option \<times> 'x auth_db_scheme) result" where
  "requestPasswordReset sha newToken tenantId email db =
     (case find_user tenantId (normal_email email) db of None \<Rightarrow> Inr (None, db)
      | Some u \<Rightarrow>
          if sha newToken \<in> lt_tokenHash ` set (resetTokens db) then Inl UniqueViolation
          else Inr (Some (u, newToken), db\<lparr>au_nextId := au_nextId db + 1, resetTokens :=
                 replace_links (ua_id u) (sha newToken) (au_now db) (au_now db + password_reset_ttl_ms) (au_nextId db) (resetTokens db)\<rparr>))"

definition resetPassword ::
  "(string \<Rightarrow> string) \<Rightarrow> (string \<Rightarrow> string) \<Rightarrow> string \<Rightarrow> string \<Rightarrow> 'x auth_db_scheme \<Rightarrow> (user_account \<times> 'x auth_db_scheme) result" where
  "resetPassword sha hashPassword rawToken newPassword db =
     (if \<not> isPasswordStrongEnough newPassword then Inl weak_password
      else case usable_link (au_now db) (sha rawToken) (resetTokens db) of
        None \<Rightarrow> Inl (ValidationError ''This password reset link is invalid or has expired'')
      | Some t \<Rightarrow>
          (case List.find (\<lambda>u. ua_id u = lt_userId t) (users db) of None \<Rightarrow> Inl RecordNotFound
           | Some u \<Rightarrow>
               let f = (\<lambda>u. u\<lparr>ua_passwordHash := hashPassword newPassword, ua_failedLoginCount := 0, ua_lockedUntil := None\<rparr>)
               in Inr (f u, revoke_where (\<lambda>s. se_userId s = lt_userId t) (Some ''password_reset'')
                      (update_user (ua_id u) f (db\<lparr>resetTokens := use_link (lt_id t) (au_now db) (resetTokens db)\<rparr>)))))"

section \<open>The worker's clean-up\<close>

record cleanup_summary =
  cs_verificationTokens :: nat
  cs_resetTokens :: nat
  cs_sessions :: nat
  cs_loginAttempts :: nat

definition stale_link :: "time \<Rightarrow> link_token \<Rightarrow> bool" where
  "stale_link now t \<longleftrightarrow> lt_expiresAt t < now \<or> lt_usedAt t \<noteq> None"

definition day_in_ms :: int where
  "day_in_ms = 24 * 60 * 60 * 1000"

definition old_revoked :: "time \<Rightarrow> user_session \<Rightarrow> bool" where
  "old_revoked now s \<longleftrightarrow> (case se_revokedAt s of None \<Rightarrow> False | Some t \<Rightarrow> t < now - 90 * day_in_ms)"

definition old_attempt :: "time \<Rightarrow> login_attempt \<Rightarrow> bool" where
  "old_attempt now a \<longleftrightarrow> la_createdAt a < now - 180 * day_in_ms"

text \<open>A session whose predecessor is deleted loses the reference to it.\<close>

definition handleCleanupExpiredTokens :: "'x auth_db_scheme \<Rightarrow> cleanup_summary \<times> 'x auth_db_scheme" where
  "handleCleanupExpiredTokens db =
     (let now = au_now db; gone = se_id ` set (filter (old_revoked now) (sessions db))
      in (\<lparr>cs_verificationTokens = count_where (stale_link now) (verificationTokens db),
           cs_resetTokens = count_where (stale_link now) (resetTokens db),
           cs_sessions = count_where (old_revoked now) (sessions db),
           cs_loginAttempts = count_where (old_attempt now) (loginAttempts db)\<rparr>,
          db\<lparr>verificationTokens := filter (\<lambda>t. \<not> stale_link now t) (verificationTokens db),
             resetTokens := filter (\<lambda>t. \<not> stale_link now t) (resetTokens db),
             sessions := map (\<lambda>s. if (case se_previousSessionId s of None \<Rightarrow> False | Some p \<Rightarrow> p \<in> gone)
                               then s\<lparr>se_previousSessionId := None\<rparr> else s)
                           (filter (\<lambda>s. \<not> old_revoked now s) (sessions db)),
             loginAttempts := filter (\<lambda>a. \<not> old_attempt now a) (loginAttempts db)\<rparr>))"

section \<open>Guards of a request\<close>

record request_user =
  rq_id :: id
  rq_userTenantId :: "id option"
  rq_sessionId :: "id option"
  rq_apiKeyScopes :: "string list option"

definition authenticateApiKey :: "(string \<Rightarrow> string) \<Rightarrow> string \<Rightarrow> 'x auth_db_scheme \<Rightarrow> request_user result \<times> 'x auth_db_scheme" where
  "authenticateApiKey sha token db =
     (let refused = (Inl (UnauthorizedError ''Invalid or revoked API token''), db)
      in case List.find (\<lambda>k. ak_keyHash k = sha token) (apiKeys db) of None \<Rightarrow> refused
         | Some k \<Rightarrow>
             (case (ak_revokedAt k, ak_createdByUserId k) of
                (None, Some creator) \<Rightarrow>
                  (Inr \<lparr>rq_id = creator, rq_userTenantId = ak_tenantId k, rq_sessionId = None,
                        rq_apiKeyScopes = (if ak_scopes k = [] then None else Some (ak_scopes k))\<rparr>,
                   db\<lparr>apiKeys := update_where (\<lambda>x. ak_id x = ak_id k) (\<lambda>x. x\<lparr>ak_lastUsedAt := Some (au_now db)\<rparr>) (apiKeys db)\<rparr>)
              | _ \<Rightarrow> refused))"

text \<open>\<open>verifyJwt\<close> returns the claims of a token whose signature and expiry are good.\<close>

definition authenticateRequest ::
  "(string \<Rightarrow> string) \<Rightarrow> (time \<Rightarrow> string \<Rightarrow> access_claims option) \<Rightarrow> string option \<Rightarrow> 'x auth_db_scheme \<Rightarrow> request_user result \<times> 'x auth_db_scheme" where
  "authenticateRequest sha verifyJwt header db =
     (case header of None \<Rightarrow> (Inl (UnauthorizedError ''Missing bearer token''), db)
      | Some h \<Rightarrow>
          if \<not> starts_with ''Bearer '' h then (Inl (UnauthorizedError ''Missing bearer token''), db)
          else let token = drop 7 h
            in if starts_with ''mkg_'' token then authenticateApiKey sha token db
               else case verifyJwt (au_now db) token of
                 None \<Rightarrow> (Inl (UnauthorizedError ''Invalid or expired access token''), db)
               | Some claims \<Rightarrow>
                   (case List.find (\<lambda>s. se_id s = ac_sessionId claims) (sessions db) of
                      None \<Rightarrow> (Inl (UnauthorizedError ''Session has been revoked or expired''), db)
                    | Some s \<Rightarrow>
                        if se_revokedAt s \<noteq> None \<or> se_expiresAt s < au_now db
                        then (Inl (UnauthorizedError ''Session has been revoked or expired''), db)
                        else (Inr \<lparr>rq_id = ac_sub claims, rq_userTenantId = ac_tenantId claims, rq_sessionId = Some (ac_sessionId claims),
                                   rq_apiKeyScopes = None\<rparr>, touchSession (se_id s) db)))"

text \<open>\<open>permissions\<close> is what the cache answers, or the database's answer.\<close>

definition requirePermission :: "string \<Rightarrow> request_user option \<Rightarrow> string list \<Rightarrow> unit result" where
  "requirePermission permission user permissions =
     (case user of None \<Rightarrow> Inl (UnauthorizedError ''Authentication is required'')
      | Some u \<Rightarrow>
          if permission \<notin> set permissions then Inl (ForbiddenError (''Missing required permission: '' @ permission))
          else if (case rq_apiKeyScopes u of None \<Rightarrow> False | Some scopes \<Rightarrow> permission \<notin> set scopes)
          then Inl (ForbiddenError (''API token is not scoped for: '' @ permission))
          else Inr ())"

definition trial_exempt_prefixes :: "string list" where
  "trial_exempt_prefixes = [''/api/v1/auth'', ''/api/v1/billing'', ''/api/v1/tenant-billing'', ''/api/v1/subscriptions'', ''/api/v1/plans'',
     ''/api/v1/announcements'', ''/api/v1/notifications'', ''/api/v1/settings/account'', ''/api/v1/tenants/me'', ''/api/v1/tenants/subscription'']"

definition isTrialExemptPath :: "string \<Rightarrow> bool" where
  "isTrialExemptPath url =
     (let path = takeWhile (\<lambda>c. c \<noteq> CHR ''?'') url
      in list_ex (\<lambda>p. path = p \<or> starts_with (p @ ''/'') path) trial_exempt_prefixes)"

record tenant_ctx =
  tc_id :: id
  tc_disabledFeatures :: "string list"
  tc_planFeatures :: "string list option"
  tc_isTrialExpired :: bool

definition trial_expired :: "time \<Rightarrow> tenant_account \<Rightarrow> bool" where
  "trial_expired now t \<longleftrightarrow> (case ta_trialEndsAt t of None \<Rightarrow> False | Some e \<Rightarrow> e \<le> now) \<and> \<not> ta_subscriptionActive t"

definition resolveTenant :: "request_user option \<Rightarrow> string \<Rightarrow> 'x auth_db_scheme \<Rightarrow> tenant_ctx option result" where
  "resolveTenant user url db =
     (case user of None \<Rightarrow> Inl (UnauthorizedError ''Authentication is required before tenant resolution'')
      | Some u \<Rightarrow>
          (case rq_userTenantId u of None \<Rightarrow> Inr None
           | Some tid \<Rightarrow>
               (case List.find (\<lambda>t. ta_id t = tid) (tenantAccounts db) of
                  None \<Rightarrow> Inl (UnauthorizedError ''Tenant account no longer exists'')
                | Some t \<Rightarrow>
                    if ta_deletedAt t \<noteq> None then Inl (UnauthorizedError ''Tenant account no longer exists'')
                    else if ta_status t = TS_SUSPENDED then Inl (TenantSuspendedError ''This tenant account is suspended'')
                    else if ta_status t = TS_CANCELLED then Inl (UnauthorizedError ''This tenant account has been cancelled'')
                    else if ta_status t = TS_PENDING_APPROVAL then Inl (TenantPendingApprovalError ''Your registration is pending approval. You will be notified once your account is approved by the platform administrator.'')
                    else if trial_expired (au_now db) t \<and> \<not> isTrialExemptPath url
                    then Inl (TenantTrialExpiredError ''Your free trial has ended. Please subscribe to a plan under Settings > Billing to continue using tenant features.'')
                    else Inr (Some \<lparr>tc_id = ta_id t, tc_disabledFeatures = ta_disabledFeatures t, tc_planFeatures = ta_planFeatures t,
                                    tc_isTrialExpired = trial_expired (au_now db) t\<rparr>))))"

definition requireFeature :: "(string \<Rightarrow> string) \<Rightarrow> string \<Rightarrow> tenant_ctx option \<Rightarrow> unit result" where
  "requireFeature label feature ctx =
     (case ctx of None \<Rightarrow> Inr ()
      | Some c \<Rightarrow>
          if feature \<in> set (tc_disabledFeatures c)
          then Inl (ConflictError (label feature @ '' is not enabled for your account '' @ em_dash @ '' contact your platform administrator.''))
          else if (case tc_planFeatures c of None \<Rightarrow> False | Some fs \<Rightarrow> feature \<notin> set fs)
          then Inl (ConflictError (label feature @ '' is not included in your current plan '' @ em_dash @ '' upgrade to enable it.''))
          else Inr ())"

section \<open>The life of a session\<close>

text \<open>
  Every operation that touches sessions, and the passing of time. \<open>drawn\<close> says which random
  tokens the generator may draw.
\<close>

inductive auth_step :: "(string \<Rightarrow> string) \<Rightarrow> (string \<Rightarrow> bool) \<Rightarrow> 'x auth_db_scheme \<Rightarrow> 'x auth_db_scheme \<Rightarrow> bool"
  for hmac :: "string \<Rightarrow> string" and drawn :: "string \<Rightarrow> bool" where
  Create: "drawn tok \<Longrightarrow> createSession hmac tok u t device db = Inr (issued, db') \<Longrightarrow> auth_step hmac drawn db db'"
| Refresh: "drawn tok \<Longrightarrow> refreshSession hmac tok presented device db = (res, db') \<Longrightarrow> auth_step hmac drawn db db'"
| Login: "drawn tok \<Longrightarrow> attemptLogin hmac verifyPassword tok params db = (logged, db') \<Longrightarrow> auth_step hmac drawn db db'"
| Check: "verifyLoginCredentials verifyPassword params db = (checked, db') \<Longrightarrow> auth_step hmac drawn db db'"
| Register: "drawn tok \<Longrightarrow> registerUser hmac sha hashPassword mail tok regs db = (registered, db') \<Longrightarrow> auth_step hmac drawn db db'"
| Revoke: "auth_step hmac drawn db (revokeSession i reason db)"
| Revoke_all: "auth_step hmac drawn db (snd (revokeAllSessionsForUser u reason db))"
| Touch: "auth_step hmac drawn db (touchSession i db)"
| Verify_link: "verifyEmailToken sha raw db = Inr (u2, db') \<Longrightarrow> auth_step hmac drawn db db'"
| Ask_reset: "requestPasswordReset sha raw t mail2 db = Inr (asked, db') \<Longrightarrow> auth_step hmac drawn db db'"
| Reset: "resetPassword sha hashPassword raw pw db = Inr (u3, db') \<Longrightarrow> auth_step hmac drawn db db'"
| Clean: "auth_step hmac drawn db (snd (handleCleanupExpiredTokens db))"
| Authenticate: "authenticateRequest sha verifyJwt header db = (user, db') \<Longrightarrow> auth_step hmac drawn db db'"
| Time: "au_now db \<le> now \<Longrightarrow> auth_step hmac drawn db (db\<lparr>au_now := now\<rparr>)"

inductive auth_steps :: "(string \<Rightarrow> string) \<Rightarrow> (string \<Rightarrow> bool) \<Rightarrow> 'x auth_db_scheme \<Rightarrow> 'x auth_db_scheme \<Rightarrow> bool"
  for hmac :: "string \<Rightarrow> string" and drawn :: "string \<Rightarrow> bool" where
  Done: "auth_steps hmac drawn db db"
| More: "auth_step hmac drawn db db1 \<Longrightarrow> auth_steps hmac drawn db1 db2 \<Longrightarrow> auth_steps hmac drawn db db2"

text \<open>Sessions are only added, with the hash of a drawn token, kept, and never taken back from being revoked.\<close>

definition evolves :: "(string \<Rightarrow> string) \<Rightarrow> (string \<Rightarrow> bool) \<Rightarrow> user_session list \<Rightarrow> user_session list \<Rightarrow> bool" where
  "evolves hmac drawn ss ss' \<longleftrightarrow> (\<forall>s' \<in> set ss'. (\<exists>tok. drawn tok \<and> se_refreshTokenHash s' = hmac tok) \<or>
     (\<exists>s \<in> set ss. se_id s' = se_id s \<and> se_refreshTokenHash s' = se_refreshTokenHash s \<and> se_userId s' = se_userId s
        \<and> (se_revokedAt s \<noteq> None \<longrightarrow> se_revokedAt s' \<noteq> None)))"

lemma evolves_refl: "evolves hmac drawn ss ss"
  by (auto simp: evolves_def)

lemma evolves_same: "ss' = ss \<Longrightarrow> evolves hmac drawn ss ss'"
  by (simp add: evolves_refl)

lemma evolves_trans:
  assumes "evolves hmac drawn a b" and "evolves hmac drawn b c"
  shows "evolves hmac drawn a c"
  unfolding evolves_def
proof
  fix s' assume "s' \<in> set c"
  then consider (new) "\<exists>tok. drawn tok \<and> se_refreshTokenHash s' = hmac tok"
    | (old) s where "s \<in> set b" "se_id s' = se_id s" "se_refreshTokenHash s' = se_refreshTokenHash s" "se_userId s' = se_userId s"
        "se_revokedAt s \<noteq> None \<longrightarrow> se_revokedAt s' \<noteq> None"
    using assms(2) unfolding evolves_def by blast
  then show "(\<exists>tok. drawn tok \<and> se_refreshTokenHash s' = hmac tok) \<or>
     (\<exists>s \<in> set a. se_id s' = se_id s \<and> se_refreshTokenHash s' = se_refreshTokenHash s \<and> se_userId s' = se_userId s
        \<and> (se_revokedAt s \<noteq> None \<longrightarrow> se_revokedAt s' \<noteq> None))"
  proof cases
    case new
    then show ?thesis ..
  next
    case old
    then show ?thesis using assms(1) by (fastforce simp: evolves_def)
  qed
qed

lemma evolves_update:
  "(\<And>s. se_id (f s) = se_id s \<and> se_refreshTokenHash (f s) = se_refreshTokenHash s \<and> se_userId (f s) = se_userId s
      \<and> (se_revokedAt s \<noteq> None \<longrightarrow> se_revokedAt (f s) \<noteq> None)) \<Longrightarrow> evolves hmac drawn ss (update_where p f ss)"
  by (fastforce simp: evolves_def set_update_where)

lemma evolves_revoke: "evolves hmac drawn (sessions db) (sessions (revoke_where p reason db))"
  unfolding revoke_where_def by (simp add: evolves_update)

lemma evolves_insert:
  assumes "insert_session s db = Inr db'" and "drawn tok" "se_refreshTokenHash s = hmac tok"
  shows "evolves hmac drawn (sessions db) (sessions db')"
proof -
  have "sessions db' = sessions db @ [s]" using assms(1) by (auto simp: insert_session_def split: if_splits)
  then show ?thesis using assms(2,3) unfolding evolves_def by auto
qed

lemma createSession_evolves:
  assumes "createSession hmac tok u t device db = Inr (issued, db')" and "drawn tok"
  shows "evolves hmac drawn (sessions db) (sessions db')"
proof -
  obtain db1 where i: "insert_session (new_session u t (hmac tok) (dc_userAgent device) (dc_ipAddress device) None db) db = Inr db1"
    using assms(1) by (auto simp: createSession_def Let_def split: sum.splits)
  then have "db' = db1" using assms(1) by (simp add: createSession_def Let_def)
  then show ?thesis using evolves_insert [OF i, of drawn tok hmac] assms(2) by (simp add: new_session_def)
qed

lemma rotate_evolves:
  assumes "rotate hmac tok old device db = Inr (issued, db')" and "drawn tok"
  shows "evolves hmac drawn (sessions db) (sessions db')"
proof -
  define db1 where "db1 = db\<lparr>sessions := update_where (\<lambda>s. se_id s = se_id old)
      (\<lambda>s. s\<lparr>se_revokedAt := Some (au_now db), se_revokedReason := Some ''rotated''\<rparr>) (sessions db)\<rparr>"
  obtain s where i: "insert_session s db1 = Inr db'" and h: "se_refreshTokenHash s = hmac tok"
    using assms(1) by (auto simp: rotate_def Let_def db1_def new_session_def split: sum.splits)
  have "evolves hmac drawn (sessions db) (sessions db1)" by (simp add: db1_def evolves_update)
  moreover have "evolves hmac drawn (sessions db1) (sessions db')" by (rule evolves_insert [OF i, of drawn tok hmac]) (use assms(2) h in simp_all)
  ultimately show ?thesis by (rule evolves_trans)
qed

lemma verify_sessions: "verifyLoginCredentials verifyPassword params db = (res, db') \<Longrightarrow> sessions db' = sessions db"
  by (auto simp: verifyLoginCredentials_def Let_def record_attempt_def update_user_def split: option.splits if_splits)

lemma step_evolves:
  assumes "auth_step hmac drawn db db'"
  shows "evolves hmac drawn (sessions db) (sessions db')"
  using assms
proof cases
  case (Create tok u t device issued)
  then show ?thesis using createSession_evolves by blast
next
  case (Refresh tok presented device res)
  then show ?thesis
    by (auto simp: refreshSession_def evolves_refl evolves_revoke dest: rotate_evolves split: option.splits if_splits sum.splits)
next
  case (Login tok verifyPassword params logged)
  obtain checked db1 where v: "verifyLoginCredentials verifyPassword params db = (checked, db1)" by fastforce
  show ?thesis
  proof (cases checked)
    case (Inl e)
    then show ?thesis using Login v verify_sessions [OF v] by (simp add: attemptLogin_def evolves_refl)
  next
    case (Inr u)
    then show ?thesis
      using Login v verify_sessions [OF v]
      by (auto simp: attemptLogin_def evolves_refl dest: createSession_evolves split: sum.splits)
  qed
next
  case (Check verifyPassword params checked)
  then show ?thesis using verify_sessions by (metis evolves_refl)
next
  case (Register tok sha hashPassword mail regs registered)
  define db1 where "db1 u = db\<lparr>au_nextId := au_nextId db + 1, users := users db @ [u]\<rparr>" for u
  have "evolves hmac drawn (sessions db) (sessions d)" if "createSession hmac tok i t device (db1 u) = Inr (iss, d)" for i t device u iss d
    using createSession_evolves [OF that] Register(1) by (simp add: db1_def)
  then show ?thesis
    using Register(2) by (auto simp: registerUser_def Let_def db1_def evolves_refl split: if_splits sum.splits)
next
  case (Revoke i reason)
  then show ?thesis by (simp add: revokeSession_def evolves_revoke)
next
  case (Revoke_all u reason)
  then show ?thesis by (simp add: revokeAllSessionsForUser_def evolves_revoke)
next
  case (Touch i)
  then show ?thesis by (simp add: touchSession_def evolves_update)
next
  case (Verify_link sha raw u2)
  then show ?thesis
    by (auto simp: verifyEmailToken_def Let_def update_user_def intro!: evolves_same split: option.splits)
next
  case (Ask_reset sha raw t mail2 asked)
  then show ?thesis by (auto simp: requestPasswordReset_def intro!: evolves_same split: option.splits if_splits)
next
  case (Reset sha hashPassword raw pw u3)
  then show ?thesis
    by (auto simp: resetPassword_def Let_def revoke_where_def update_user_def intro!: evolves_update split: option.splits if_splits)
next
  case Clean
  then show ?thesis by (auto simp: handleCleanupExpiredTokens_def Let_def evolves_def)
next
  case (Authenticate sha verifyJwt header user)
  then show ?thesis
    by (auto simp: authenticateRequest_def authenticateApiKey_def touchSession_def Let_def evolves_refl evolves_update
        split: option.splits if_splits)
next
  case (Time now)
  then show ?thesis by (simp add: evolves_refl)
qed

lemma steps_evolve:
  assumes "auth_steps hmac drawn db db'"
  shows "evolves hmac drawn (sessions db) (sessions db')"
  using assms by induction (blast intro: evolves_refl evolves_trans step_evolves)+

lemma rotated_row:
  assumes "refreshSession hmac tok presented device db = (Inr issued, db')" and "distinct (map se_refreshTokenHash (sessions db))"
  shows "\<exists>old. find_by_token (hmac presented) db = Some old \<and> se_userId (it_session issued) = se_userId old
     \<and> se_previousSessionId (it_session issued) = Some (se_id old) \<and> hmac tok \<noteq> hmac presented
     \<and> (\<forall>s \<in> set (sessions db'). se_refreshTokenHash s = hmac presented \<longrightarrow> se_userId s = se_userId old \<and> se_revokedAt s \<noteq> None)"
proof -
  obtain old where old: "find_by_token (hmac presented) db = Some old" "rotate hmac tok old device db = Inr (issued, db')"
    using assms(1) by (auto simp: refreshSession_def split: option.splits if_splits sum.splits)
  define db1 where "db1 = db\<lparr>sessions := update_where (\<lambda>s. se_id s = se_id old)
      (\<lambda>s. s\<lparr>se_revokedAt := Some (au_now db), se_revokedReason := Some ''rotated''\<rparr>) (sessions db)\<rparr>"
  obtain s where i: "insert_session s db1 = Inr db'"
    and s: "se_refreshTokenHash s = hmac tok" "se_userId s = se_userId old" "se_previousSessionId s = Some (se_id old)" "it_session issued = s"
    using old(2) by (auto simp: rotate_def Let_def db1_def new_session_def issueTokensForSession_def split: sum.splits)
  have mem: "old \<in> set (sessions db)" "se_refreshTokenHash old = hmac presented"
    using old(1) by (auto simp: find_by_token_def dest: find_SomeD)
  have new: "\<forall>x \<in> set (sessions db1). se_refreshTokenHash x \<noteq> hmac tok" and db': "sessions db' = sessions db1 @ [s]"
    using i s by (auto simp: insert_session_def split: if_splits)
  have "old\<lparr>se_revokedAt := Some (au_now db), se_revokedReason := Some ''rotated''\<rparr> \<in> set (sessions db1)"
    using mem(1) by (force simp: db1_def set_update_where)
  then have ne: "hmac tok \<noteq> hmac presented" using new mem(2) by force
  have "x = old" if "x \<in> set (sessions db)" "se_refreshTokenHash x = hmac presented" for x
    using key_eq_rows [OF assms(2) that(1) mem(1)] that(2) mem(2) by simp
  then have "\<forall>x \<in> set (sessions db1). se_refreshTokenHash x = hmac presented \<longrightarrow> se_userId x = se_userId old \<and> se_revokedAt x \<noteq> None"
    by (auto simp: db1_def set_update_where)
  then show ?thesis using old(1) s ne db' by auto
qed

text \<open>
  C36. A refresh token works once, and its replay ends every session of its user. After a token was
  exchanged, whatever happens next (sign-ins, refreshes, log-outs, resets, clean-ups, time), as
  long as no drawn token repeats its hash, presenting it again issues nothing; and as long as its
  row is kept, every session of the user is revoked afterwards, also the one the first exchange
  issued.
\<close>

theorem refresh_token_works_once:
  assumes "distinct (map se_refreshTokenHash (sessions db))"
    and "refreshSession hmac tok presented device db = (Inr issued, db1)"
    and "auth_steps hmac (\<lambda>tok. hmac tok \<noteq> hmac presented) db1 db2"
    and "refreshSession hmac tok2 presented device2 db2 = (res, db3)"
  shows "(\<exists>why. res = Inl (UnauthorizedError why))
    \<and> (find_by_token (hmac presented) db2 \<noteq> None \<longrightarrow>
        (\<forall>s \<in> set (sessions db3). se_userId s = se_userId (it_session issued) \<longrightarrow> se_revokedAt s \<noteq> None))"
proof -
  obtain old :: user_session where old: "se_userId (it_session issued) = se_userId old"
    "\<forall>s \<in> set (sessions db1). se_refreshTokenHash s = hmac presented \<longrightarrow> se_userId s = se_userId old \<and> se_revokedAt s \<noteq> None"
    using rotated_row [OF assms(2,1)] by (elim exE conjE) (rule that, assumption+)
  have later: "se_userId s = se_userId old \<and> se_revokedAt s \<noteq> None"
    if "s \<in> set (sessions db2)" "se_refreshTokenHash s = hmac presented" for s
    using steps_evolve [OF assms(3)] old(2) that unfolding evolves_def by metis
  show ?thesis
  proof (cases "find_by_token (hmac presented) db2")
    case None
    then show ?thesis using assms(4) by (auto simp: refreshSession_def)
  next
    case (Some s)
    then have "se_userId s = se_userId old" "se_revokedAt s \<noteq> None"
      using later [of s] by (auto simp: find_by_token_def dest: find_SomeD)
    then show ?thesis
      using assms(4) Some old(1) by (auto simp: refreshSession_def revoke_where_def set_update_where)
  qed
qed

section \<open>An example\<close>

definition sample_person :: user_account where
  "sample_person = new_user (Some 1) ''ann@isp.example'' None ''h:correct horse 1'' U_ACTIVE (Some 0) 5"

definition sample_session :: user_session where
  "sample_session = \<lparr>se_id = 8, se_userId = 5, se_tenantId = Some 1, se_refreshTokenHash = ''h:first'', se_userAgent = None,
     se_ipAddress = None, se_expiresAt = 9000000000, se_revokedAt = None, se_revokedReason = None, se_lastUsedAt = 0, se_previousSessionId = None\<rparr>"

definition sample_auth :: auth_db where
  "sample_auth = \<lparr>au_now = 1000000, au_nextId = 20, users = [sample_person], sessions = [sample_session], loginAttempts = [],
     verificationTokens = [], resetTokens = [], roles = [], userRoles = [], apiKeys = [],
     tenantAccounts = [\<lparr>ta_id = 1, ta_slug = ''isp'', ta_name = ''Coast Net'', ta_status = TS_ACTIVE, ta_deletedAt = None, ta_trialEndsAt = None,
       ta_disabledFeatures = [], ta_planFeatures = None, ta_subscriptionActive = True, ta_requireStaffMfa = False\<rparr>]\<rparr>"

abbreviation sample_hash :: "string \<Rightarrow> string" where
  "sample_hash \<equiv> (\<lambda>s. ''h:'' @ s)"

abbreviation no_device :: device_context where
  "no_device \<equiv> \<lparr>dc_userAgent = None, dc_ipAddress = None\<rparr>"

theorem refresh_token_works_once_witness:
  "\<exists>issued db1 res db3. refreshSession sample_hash ''second'' ''first'' no_device sample_auth = (Inr issued, db1)
     \<and> refreshSession sample_hash ''third'' ''first'' no_device (touchSession 20 db1) = (res, db3)
     \<and> list_all (\<lambda>s. se_revokedAt s \<noteq> None) (filter (\<lambda>s. se_userId s = 5) (sessions db3))"
proof -
  have d: "distinct (map se_refreshTokenHash (sessions sample_auth))" by (simp add: sample_auth_def)
  obtain issued db1 where r: "refreshSession sample_hash ''second'' ''first'' no_device sample_auth = (Inr issued, db1)"
    "find_by_token ''h:first'' (touchSession 20 db1) \<noteq> None"
    "se_userId (it_session issued) = 5"
    by (simp add: refreshSession_def find_by_token_def rotate_def insert_session_def new_session_def issueTokensForSession_def
        touchSession_def sample_auth_def sample_session_def Let_def)
  have steps: "auth_steps sample_hash (\<lambda>tok. sample_hash tok \<noteq> sample_hash ''first'') db1 (touchSession 20 db1)"
    by (rule More [OF Touch Done])
  obtain res db3 where again: "refreshSession sample_hash ''third'' ''first'' no_device (touchSession 20 db1) = (res, db3)" by fastforce
  from refresh_token_works_once [OF d r(1) steps again] r again show ?thesis by (auto simp: list_all_iff)
qed

section \<open>Guessing a password\<close>

text \<open>A run of sign-ins, each at its time, with the attempts they record.\<close>

fun sign_ins :: "(string \<Rightarrow> string \<Rightarrow> bool) \<Rightarrow> (time \<times> login_params) list \<Rightarrow> 'x auth_db_scheme \<Rightarrow> 'x auth_db_scheme" where
  "sign_ins verifyPassword [] db = db"
| "sign_ins verifyPassword ((at, params) # later) db =
     sign_ins verifyPassword later (snd (verifyLoginCredentials verifyPassword params (db\<lparr>au_now := at\<rparr>)))"

definition tested :: "id \<Rightarrow> login_attempt list \<Rightarrow> nat" where
  "tested uid as = count_where (\<lambda>a. la_userId a = Some uid \<and> la_failureReason a = Some ''bad_password'') as"

definition find_uid :: "id \<Rightarrow> 'x auth_db_scheme \<Rightarrow> user_account option" where
  "find_uid i db = List.find (\<lambda>u. ua_id u = i) (users db)"

text \<open>How many more passwords can be tested before the end of the window.\<close>

definition guesses_left :: "time \<Rightarrow> user_account \<Rightarrow> nat" where
  "guesses_left until u = (if (case ua_lockedUntil u of None \<Rightarrow> False | Some t \<Rightarrow> until < t) then 0 else max_failed_attempts - ua_failedLoginCount u)"

lemma tested_append: "tested uid (as @ bs) = tested uid as + tested uid bs"
  by (simp add: tested_def count_where_def)

lemma one_guess:
  fixes db :: "'x auth_db_scheme"
  assumes ids: "distinct (map ua_id (users db))" and u: "find_uid uid db = Some u" "ua_failedLoginCount u < max_failed_attempts"
    and wrong: "\<not> verifyPassword (ua_passwordHash u) (lp_password params)"
    and win: "au_now db \<le> until" "until < au_now db + lockout_duration_ms"
    and run: "verifyLoginCredentials verifyPassword params db = (res, db')"
  shows "\<exists>u'. distinct (map ua_id (users db')) \<and> find_uid uid db' = Some u' \<and> ua_failedLoginCount u' < max_failed_attempts
     \<and> ua_passwordHash u' = ua_passwordHash u
     \<and> tested uid (loginAttempts db') + guesses_left until u' \<le> tested uid (loginAttempts db) + guesses_left until u"
proof -
  let ?email = "normal_email (lp_email params)"
  have mem: "u \<in> set (users db)" "ua_id u = uid" using u(1) by (auto simp: find_uid_def dest: find_SomeD)
  have keep: "distinct (map ua_id (users (update_user i f db))) \<and> find_uid uid (update_user i f db) = (if i = uid then Some (f u) else Some u)"
    if "\<And>x. ua_id (f x) = ua_id x" for i f
  proof -
    have "map ua_id (update_where (\<lambda>x. ua_id x = i) f (users db)) = map ua_id (users db)" by (rule map_update_where) (simp add: that)
    moreover have "List.find (\<lambda>x. ua_id x = uid) (update_where (\<lambda>x. ua_id x = i) f (users db)) = (if i = uid then Some (f u) else Some u)"
      using u(1) find_update_where_same [of ua_id f uid "users db"] find_update_where_other [of ua_id f uid i "users db"] that
      by (auto simp: find_uid_def)
    ultimately show ?thesis using ids by (simp add: update_user_def find_uid_def)
  qed
  have att: "users (record_attempt i e t d ok why x) = users x" "loginAttempts (record_attempt i e t d ok why x) = loginAttempts x @
      [\<lparr>la_userId = i, la_email = e, la_tenantId = t, la_ipAddress = (case dc_ipAddress d of Some a \<Rightarrow> a | None \<Rightarrow> ''unknown''),
        la_userAgent = dc_userAgent d, la_success = ok, la_failureReason = why, la_createdAt = au_now x\<rparr>]"
    "find_uid uid (record_attempt i e t d ok why x) = find_uid uid x" for i e t d ok why and x :: "'x auth_db_scheme"
    by (simp_all add: record_attempt_def find_uid_def)
  have upd: "loginAttempts (update_user i f x) = loginAttempts x" "au_now (update_user i f x) = au_now x" for i f and x :: "'x auth_db_scheme"
    by (simp_all add: update_user_def)
  show ?thesis
  proof (cases "find_user (lp_tenantId params) ?email db")
    case None
    then show ?thesis using run ids u by (auto simp: verifyLoginCredentials_def Let_def att tested_append) (simp add: tested_def count_where_def)
  next
    case (Some v)
    have vm: "v \<in> set (users db)" using Some by (auto simp: find_user_def dest: find_SomeD)
    have same: "v = u" if "ua_id v = uid" using key_eq_rows [OF ids vm mem(1)] that mem(2) by simp
    define f where "f = failed_login (au_now db) (ua_failedLoginCount v + 1)"
    have f: "ua_id (f x) = ua_id x" "ua_passwordHash (f x) = ua_passwordHash x" for x by (simp_all add: f_def failed_login_def Let_def)
    define locked where "locked \<longleftrightarrow> (case ua_lockedUntil v of None \<Rightarrow> False | Some t \<Rightarrow> t > au_now db)"
    note run' = run [unfolded verifyLoginCredentials_def Let_def Some option.case option.map, folded locked_def]
    have noted: ?thesis if "db' = record_attempt (Some (ua_id v)) ?email (lp_tenantId params) (lp_device params) False (Some why) db"
      "why \<noteq> ''bad_password''" for why
      using that ids u by (simp add: att tested_append) (simp add: tested_def count_where_def)
    consider (off) "ua_status v = U_SUSPENDED \<or> ua_status v = U_PENDING_VERIFICATION \<or> locked"
      | (bad) "db' = record_attempt (Some (ua_id v)) ?email (lp_tenantId params) (lp_device params) False (Some ''bad_password'') (update_user (ua_id v) f db)"
          "\<not> locked"
      | (good) "verifyPassword (ua_passwordHash v) (lp_password params)"
          "db' = record_attempt (Some (ua_id v)) ?email (lp_tenantId params) (lp_device params) True None
             (update_user (ua_id v) (\<lambda>u. u\<lparr>ua_failedLoginCount := 0, ua_lockedUntil := None, ua_lastLoginAt := Some (au_now db)\<rparr>) db)"
      using run' by (auto simp: f_def split: if_splits)
    then show ?thesis
    proof cases
      case off
      define row where "row why = record_attempt (Some (ua_id v)) ?email (lp_tenantId params) (lp_device params) False (Some why) db" for why
      have "db' = row ''account_suspended'' \<or> db' = row ''pending_verification'' \<or> db' = row ''account_locked''"
        using run' off unfolding row_def by (cases "ua_status v = U_SUSPENDED"; cases "ua_status v = U_PENDING_VERIFICATION") auto
      then show ?thesis unfolding row_def by (elim disjE) (erule noted, simp)+
    next
      case good
      then have "ua_id v \<noteq> uid" using same wrong by blast
      with good u keep [of "\<lambda>u. u\<lparr>ua_failedLoginCount := 0, ua_lockedUntil := None, ua_lastLoginAt := Some (au_now db)\<rparr>" "ua_id v"]
      show ?thesis by (simp add: att upd tested_append) (simp add: tested_def count_where_def)
    next
      case bad
      note k = keep [of f "ua_id v", OF f(1)]
      show ?thesis
      proof (cases "ua_id v = uid")
        case False
        with bad u k show ?thesis by (simp add: att upd tested_append) (simp add: tested_def count_where_def)
      next
        case True
        then have v: "v = u" by (rule same)
        have left: "ua_failedLoginCount (f u) < max_failed_attempts" "Suc (guesses_left until (f u)) \<le> guesses_left until u"
          using u(2) win bad(2) unfolding v by (auto simp: f_def v failed_login_def Let_def guesses_left_def max_failed_attempts_def locked_def split: option.splits)
        show ?thesis
          using bad(1) k True left f(2) by (simp add: att upd tested_append) (simp add: tested_def count_where_def)
      qed
    qed
  qed
qed

lemma sign_ins_tested:
  fixes db :: "'x auth_db_scheme"
  assumes "distinct (map ua_id (users db))" and "find_uid uid db = Some u" "ua_failedLoginCount u < max_failed_attempts"
    and "\<forall>(at, params) \<in> set guesses. \<not> verifyPassword (ua_passwordHash u) (lp_password params) \<and> first \<le> at \<and> at \<le> until"
    and "until < first + lockout_duration_ms"
  shows "tested uid (loginAttempts (sign_ins verifyPassword guesses db)) \<le> tested uid (loginAttempts db) + guesses_left until u"
  using assms(1-4)
proof (induction guesses arbitrary: db u)
  case Nil
  then show ?case by simp
next
  case (Cons g guesses)
  obtain at params where g: "g = (at, params)" by fastforce
  let ?db = "db\<lparr>au_now := at\<rparr>"
  obtain res db' where run: "verifyLoginCredentials verifyPassword params ?db = (res, db')" by fastforce
  have h: "\<not> verifyPassword (ua_passwordHash u) (lp_password params)" "first \<le> at" "at \<le> until" using Cons.prems(4) g by auto
  obtain u' where u': "distinct (map ua_id (users db'))" "find_uid uid db' = Some u'" "ua_failedLoginCount u' < max_failed_attempts"
    "ua_passwordHash u' = ua_passwordHash u"
    "tested uid (loginAttempts db') + guesses_left until u' \<le> tested uid (loginAttempts db) + guesses_left until u"
  proof -
    have "find_uid uid ?db = Some u" "distinct (map ua_id (users ?db))" using Cons.prems(1,2) by (simp_all add: find_uid_def)
    moreover have "au_now ?db \<le> until" "until < au_now ?db + lockout_duration_ms" using h assms(5) by simp_all
    ultimately show thesis using one_guess [OF _ _ Cons.prems(3) h(1) _ _ run] that by (auto simp del: distinct_map)
  qed
  have "tested uid (loginAttempts (sign_ins verifyPassword guesses db')) \<le> tested uid (loginAttempts db') + guesses_left until u'"
    by (rule Cons.IH [OF u'(1-3)]) (use Cons.prems(4) u'(4) in auto)
  then show ?case using u'(5) run by (simp add: g)
qed


definition wrong_guess :: login_params where
  "wrong_guess = \<lparr>lp_tenantId = Some 1, lp_email = '' Ann@ISP.example'', lp_password = ''hunter2'', lp_device = no_device\<rparr>"


section \<open>After a password reset\<close>

lemma reset_ends_sessions:
  assumes "distinct (map se_id (sessions db))" and "resetPassword sha hashPassword raw pw db = Inr (u, db')"
  shows "\<forall>s \<in> set (sessions db'). se_userId s = ua_id u \<longrightarrow> se_revokedAt s \<noteq> None"
    and "resetPassword sha hashPassword raw pw2 db' = Inl (if isPasswordStrongEnough pw2
      then ValidationError ''This password reset link is invalid or has expired'' else weak_password)"
proof -
  obtain t v where t: "usable_link (au_now db) (sha raw) (resetTokens db) = Some t" "List.find (\<lambda>u. ua_id u = lt_userId t) (users db) = Some v"
    and r: "ua_id u = lt_userId t" "sessions db' = update_where (\<lambda>s. se_userId s = lt_userId t \<and> se_revokedAt s = None)
        (\<lambda>s. s\<lparr>se_revokedAt := Some (au_now db), se_revokedReason := Some ''password_reset''\<rparr>) (sessions db)"
      "resetTokens db' = use_link (lt_id t) (au_now db) (resetTokens db)" "au_now db' = au_now db"
    using assms(2) find_SomeD by (fastforce simp: resetPassword_def Let_def revoke_where_def update_user_def split: if_splits option.splits)
  show "\<forall>s \<in> set (sessions db'). se_userId s = ua_id u \<longrightarrow> se_revokedAt s \<noteq> None"
    by (auto simp: r set_update_where)
  have "List.find (\<lambda>t. lt_tokenHash t = sha raw) (resetTokens db) = Some t"
    using t(1) by (auto simp: usable_link_def split: option.splits if_splits)
  then have "List.find (\<lambda>t. lt_tokenHash t = sha raw) (resetTokens db') = Some (t\<lparr>lt_usedAt := Some (au_now db)\<rparr>)"
    unfolding r(3) use_link_def by (rule find_after_update) simp_all
  then have "usable_link (au_now db') (sha raw) (resetTokens db') = None" by (simp add: usable_link_def)
  then show "resetPassword sha hashPassword raw pw2 db' = Inl (if isPasswordStrongEnough pw2
      then ValidationError ''This password reset link is invalid or has expired'' else weak_password)"
    by (simp add: resetPassword_def)
qed

end
