(* ===== verification/TwoStep.thy ===== *)
theory TwoStep imports Totp SignIn begin

text \<open>
  apps/api/src/services/mfa.service.ts, two-step login, and the sign-in of auth.service.ts that
  starts it. Redis is three maps from keys to values with their time of expiry. Random texts, the
  cipher, the hash functions, the password hash and the delivery of text messages are parameters.
\<close>

section \<open>Challenges\<close>

definition challenge_ttl :: int where
  "challenge_ttl = 5 * 60"

definition max_tries :: nat where
  "max_tries = 5"

definition sms_resend_seconds :: int where
  "sms_resend_seconds = 60"

datatype challenge_purpose = Verify_purpose | Setup_purpose

record challenge =
  ch_userId :: id
  ch_tenantId :: "id option"
  ch_purpose :: challenge_purpose
  ch_device :: device_context
  ch_tries :: nat
  ch_smsCodeHash :: "string option"
  ch_smsSentAt :: "time option"
  ch_method :: "mfa_method option"

text \<open>\<open>mfa:challenge\<close>, \<open>mfa:totp-used\<close> and \<open>mfa:enroll\<close> in Redis, and the messages sent.\<close>

record mfa_db = auth_db +
  challenges :: "string \<rightharpoonup> challenge \<times> time"
  totpUsed :: "id \<times> string \<rightharpoonup> time"
  enrolls :: "id \<rightharpoonup> challenge \<times> time"
  smsOutbox :: "(id \<times> string \<times> string) list"

text \<open>The parameters: the cipher, hashes and the message service.\<close>

record mfa_env =
  me_hmac :: keyed_hash
  me_sha :: "string \<Rightarrow> string"
  me_encrypt :: "string \<Rightarrow> string"
  me_decrypt :: "string \<Rightarrow> string option"
  me_delivered :: "id \<Rightarrow> string \<Rightarrow> string \<Rightarrow> bool"
  me_verifyPassword :: "string \<Rightarrow> string \<Rightarrow> bool"
  me_tokenHash :: "string \<Rightarrow> string"

datatype second_step =
    MfaRequired string mfa_method "string option"
  | MfaSetupRequired string bool

definition phoneHint :: "string option \<Rightarrow> string option" where
  "phoneHint phone = (case phone of None \<Rightarrow> None
     | Some p \<Rightarrow> if p = [] then None else Some (concat (replicate 3 [CHR 0xE2, CHR 0x80, CHR 0xA2]) @
         (let digits = filter is_digit p in drop (length digits - 3) digits)))"

definition redis_get :: "('k \<rightharpoonup> 'v \<times> time) \<Rightarrow> 'k \<Rightarrow> time \<Rightarrow> 'v option" where
  "redis_get m k now = (case m k of None \<Rightarrow> None | Some (v, expiry) \<Rightarrow> if now < expiry then Some v else None)"

definition saveChallenge :: "string \<Rightarrow> challenge \<Rightarrow> 'x mfa_db_scheme \<Rightarrow> 'x mfa_db_scheme" where
  "saveChallenge token c db = db\<lparr>challenges := (challenges db)(token \<mapsto> (c, au_now db + challenge_ttl * 1000))\<rparr>"

definition delChallenge :: "string \<Rightarrow> 'x mfa_db_scheme \<Rightarrow> 'x mfa_db_scheme" where
  "delChallenge token db = db\<lparr>challenges := (challenges db)(token := None)\<rparr>"

definition loadChallenge :: "string \<Rightarrow> challenge_purpose \<Rightarrow> 'x mfa_db_scheme \<Rightarrow> challenge result" where
  "loadChallenge token purpose db =
     (let expired = Inl (UnauthorizedError ''This sign-in has expired. Please sign in again.'')
      in case redis_get (challenges db) token (au_now db) of None \<Rightarrow> expired
         | Some c \<Rightarrow> if ch_purpose c \<noteq> purpose then expired else Inr c)"

definition failTry :: "string \<Rightarrow> challenge \<Rightarrow> 'x mfa_db_scheme \<Rightarrow> app_error \<times> 'x mfa_db_scheme" where
  "failTry token c db =
     (let c' = c\<lparr>ch_tries := ch_tries c + 1\<rparr>
      in if ch_tries c' \<ge> max_tries then (UnauthorizedError ''Too many wrong codes. Please sign in again.'', delChallenge token db)
         else (UnauthorizedError ''That code is not right. Please try again.'', saveChallenge token c' db))"

section \<open>Who needs a second step\<close>

definition find_person :: "id \<Rightarrow> 'x auth_db_scheme \<Rightarrow> user_account option" where
  "find_person i db = List.find (\<lambda>u. ua_id u = i) (users db)"

definition find_tenant :: "id \<Rightarrow> 'x auth_db_scheme \<Rightarrow> tenant_account option" where
  "find_tenant i db = List.find (\<lambda>t. ta_id t = i) (tenantAccounts db)"

definition isStaffUser :: "id \<Rightarrow> 'x auth_db_scheme \<Rightarrow> bool" where
  "isStaffUser userId db =
     list_ex (\<lambda>ur. list_ex (\<lambda>r. ro_id r = ur_roleId ur \<and> ro_name r \<noteq> ''CUSTOMER'' \<and> ro_name r \<noteq> ''AGENT'') (roles db))
       (filter (\<lambda>ur. ur_userId ur = userId) (userRoles db))"

definition tenantRequiresMfa :: "id option \<Rightarrow> 'x auth_db_scheme \<Rightarrow> bool" where
  "tenantRequiresMfa tenantId db =
     (case tenantId of None \<Rightarrow> False
      | Some t \<Rightarrow> (case find_tenant t db of None \<Rightarrow> False | Some ten \<Rightarrow> ta_requireStaffMfa ten))"

definition isMfaRequiredFor :: "user_account \<Rightarrow> 'x auth_db_scheme \<Rightarrow> bool" where
  "isMfaRequiredFor u db \<longleftrightarrow> tenantRequiresMfa (ua_tenantId u) db \<and> isStaffUser (ua_id u) db"

definition sendSmsCode :: "mfa_env \<Rightarrow> byte list \<Rightarrow> user_account \<Rightarrow> challenge \<Rightarrow> 'x mfa_db_scheme \<Rightarrow> (challenge \<times> 'x mfa_db_scheme) result" where
  "sendSmsCode env random4 u c db =
     (case (ua_tenantId u, ua_phone u) of
        (Some t, Some phone) \<Rightarrow>
          if phone = [] then Inl (ConflictError ''There is no phone number to send a code to'')
          else let code = generateSmsCode random4;
                   text = code @ '' is your '' @ (case find_tenant t db of None \<Rightarrow> '''' | Some ten \<Rightarrow> ta_name ten)
                     @ '' sign-in code. It expires in 5 minutes. Don'' @ [CHR 0x27] @ ''t share it with anyone.''
               in if \<not> me_delivered env t phone text
                  then Inl (ConflictError ''The code could not be sent by SMS. Use your authenticator app or a recovery code.'')
                  else Inr (c\<lparr>ch_smsCodeHash := Some (me_sha env code), ch_smsSentAt := Some (au_now db)\<rparr>,
                            db\<lparr>smsOutbox := smsOutbox db @ [(t, phone, text)]\<rparr>)
      | _ \<Rightarrow> Inl (ConflictError ''There is no phone number to send a code to''))"

definition new_challenge :: "user_account \<Rightarrow> challenge_purpose \<Rightarrow> device_context \<Rightarrow> challenge" where
  "new_challenge u purpose device =
     \<lparr>ch_userId = ua_id u, ch_tenantId = ua_tenantId u, ch_purpose = purpose, ch_device = device, ch_tries = 0,
      ch_smsCodeHash = None, ch_smsSentAt = None, ch_method = None\<rparr>"

text \<open>\<open>token\<close> and \<open>random4\<close> are drawn.\<close>

definition secondStepFor ::
  "mfa_env \<Rightarrow> string \<Rightarrow> byte list \<Rightarrow> user_account \<Rightarrow> device_context \<Rightarrow> 'x mfa_db_scheme \<Rightarrow> (second_step option \<times> 'x mfa_db_scheme) result" where
  "secondStepFor env token random4 u device db =
     (case ua_mfaMethod u of
        Some via \<Rightarrow>
          (case (if via = SMS then sendSmsCode env random4 u (new_challenge u Verify_purpose device) db
                 else Inr (new_challenge u Verify_purpose device, db)) of
             Inl e \<Rightarrow> Inl e
           | Inr (c, db1) \<Rightarrow>
               Inr (Some (MfaRequired token via (if via = SMS then phoneHint (ua_phone u) else None)), saveChallenge token c db1))
      | None \<Rightarrow>
          if isMfaRequiredFor u db
          then Inr (Some (MfaSetupRequired token (ua_phone u \<noteq> None \<and> ua_phone u \<noteq> Some [] \<and> ua_tenantId u \<noteq> None)),
                    saveChallenge token (new_challenge u Setup_purpose device) db)
          else Inr (None, db))"

section \<open>Giving the code\<close>

datatype code_check = Code_ok | Code_recovery | Code_bad

text \<open>\<open>SET key 1 EX 120 NX\<close>: only when the key is absent.\<close>

definition mark_used :: "id \<Rightarrow> string \<Rightarrow> 'x mfa_db_scheme \<Rightarrow> bool \<times> 'x mfa_db_scheme" where
  "mark_used userId code db =
     (case totpUsed db (userId, code) of
        Some expiry \<Rightarrow> if au_now db < expiry then (False, db)
          else (True, db\<lparr>totpUsed := (totpUsed db)((userId, code) \<mapsto> au_now db + 120 * 1000)\<rparr>)
      | None \<Rightarrow> (True, db\<lparr>totpUsed := (totpUsed db)((userId, code) \<mapsto> au_now db + 120 * 1000)\<rparr>))"

definition totp_matches :: "mfa_env \<Rightarrow> user_account \<Rightarrow> string \<Rightarrow> time \<Rightarrow> bool result" where
  "totp_matches env u code now =
     (case ua_totpSecretEncrypted u of None \<Rightarrow> Inr False
      | Some enc \<Rightarrow> if enc = [] then Inr False else
          (case me_decrypt env enc of None \<Rightarrow> Inl (UnexpectedError ''The secret cannot be decrypted'')
           | Some secret \<Rightarrow> verifyTotp (me_hmac env) secret code now))"

definition checkCode :: "mfa_env \<Rightarrow> user_account \<Rightarrow> string \<Rightarrow> challenge \<Rightarrow> 'x mfa_db_scheme \<Rightarrow> code_check result \<times> 'x mfa_db_scheme" where
  "checkCode env u code c db =
     (let clean = trim code; digits = filter (\<lambda>x. \<not> is_space x) clean
      in if six_digits digits
         then (case (if ua_mfaMethod u = Some TOTP then totp_matches env u clean (au_now db) else Inr False) of
                 Inl e \<Rightarrow> (Inl e, db)
               | Inr True \<Rightarrow> (case mark_used (ua_id u) digits db of (fresh, db1) \<Rightarrow> (Inr (if fresh then Code_ok else Code_bad), db1))
               | Inr False \<Rightarrow>
                   (Inr (if ua_mfaMethod u = Some SMS \<and> ch_smsCodeHash c \<noteq> None \<and> ch_smsCodeHash c \<noteq> Some []
                           \<and> ch_smsCodeHash c = Some (me_sha env digits) then Code_ok else Code_bad), db))
         else let hash = hashRecoveryCode (me_sha env) clean
              in if hash \<in> set (ua_mfaRecoveryCodes u)
                 then (Inr Code_recovery,
                       update_user (ua_id u) (\<lambda>x. x\<lparr>ua_mfaRecoveryCodes := filter (\<lambda>h. h \<noteq> hash) (ua_mfaRecoveryCodes u)\<rparr>) db)
                 else (Inr Code_bad, db))"

record signed_in =
  si_user :: user_account
  si_tokens :: issued_tokens
  si_usedRecoveryCode :: bool
  si_recoveryCodesLeft :: nat

definition verifyChallenge :: "mfa_env \<Rightarrow> string \<Rightarrow> string \<Rightarrow> string \<Rightarrow> 'x mfa_db_scheme \<Rightarrow> signed_in result \<times> 'x mfa_db_scheme" where
  "verifyChallenge env newToken token code db =
     (case loadChallenge token Verify_purpose db of Inl e \<Rightarrow> (Inl e, db)
      | Inr c \<Rightarrow>
         (case find_person (ch_userId c) db of None \<Rightarrow> (Inl RecordNotFound, db)
          | Some u \<Rightarrow>
             (case checkCode env u code c db of
                (Inl e, db1) \<Rightarrow> (Inl e, db1)
              | (Inr res, db1) \<Rightarrow>
                  if res = Code_bad then (case failTry token c db1 of (e, db2) \<Rightarrow> (Inl e, db2))
                  else (case createSession (me_tokenHash env) newToken (ua_id u) (ua_tenantId u) (ch_device c) (delChallenge token db1) of
                          Inl e \<Rightarrow> (Inl e, delChallenge token db1)
                        | Inr (tokens, db2) \<Rightarrow>
                            (Inr \<lparr>si_user = u, si_tokens = tokens, si_usedRecoveryCode = (res = Code_recovery),
                                 si_recoveryCodesLeft = (if res = Code_recovery then length (ua_mfaRecoveryCodes u) - 1 else length (ua_mfaRecoveryCodes u))\<rparr>,
                             db2)))))"

definition resendChallengeSms :: "mfa_env \<Rightarrow> byte list \<Rightarrow> string \<Rightarrow> 'x mfa_db_scheme \<Rightarrow> (unit \<times> 'x mfa_db_scheme) result" where
  "resendChallengeSms env random4 token db =
     (case loadChallenge token Verify_purpose db of Inl e \<Rightarrow> Inl e
      | Inr c \<Rightarrow>
          if (case ch_smsSentAt c of None \<Rightarrow> False | Some t \<Rightarrow> t \<noteq> 0 \<and> au_now db - t < sms_resend_seconds * 1000)
          then Inl (ConflictError ''Please wait a minute before asking for another code'')
          else (case find_person (ch_userId c) db of None \<Rightarrow> Inl RecordNotFound
                | Some u \<Rightarrow>
                    if ua_mfaMethod u \<noteq> Some SMS then Inl (ConflictError ''This account uses an authenticator app'')
                    else (case sendSmsCode env random4 u c db of Inl e \<Rightarrow> Inl e
                          | Inr (c', db1) \<Rightarrow> Inr ((), saveChallenge token c' db1))))"

section \<open>Setting it up\<close>

definition unreserved :: "char \<Rightarrow> bool" where
  "unreserved c \<longleftrightarrow> is_alnum c \<or> c \<in> set ''-_.!~*()'' \<or> c = CHR 0x27"

definition encodeURIComponent :: "string \<Rightarrow> string" where
  "encodeURIComponent s = concat (map (\<lambda>c. if unreserved c then [c]
     else ''%'' @ [''0123456789ABCDEF'' ! (of_char c div 16), ''0123456789ABCDEF'' ! (of_char c mod 16)]) s)"

definition otpauthUrl :: "string \<Rightarrow> string \<Rightarrow> string \<Rightarrow> string" where
  "otpauthUrl issuer account secretBase32 =
     ''otpauth://totp/'' @ encodeURIComponent (issuer @ '':'' @ account) @ ''?secret='' @ secretBase32 @ ''&issuer='' @ encodeURIComponent issuer
     @ ''&algorithm=SHA1&digits=6&period=30''"

record setup_start =
  ss_method :: mfa_method
  ss_secret :: "string option"
  ss_otpauthUrl :: "string option"
  ss_phoneHint :: "string option"

definition issuerFor :: "user_account \<Rightarrow> 'x auth_db_scheme \<Rightarrow> string" where
  "issuerFor u db =
     (case ua_tenantId u of None \<Rightarrow> ''MashupHost''
      | Some t \<Rightarrow> (case find_tenant t db of None \<Rightarrow> ''MashupHost'' | Some ten \<Rightarrow> ta_name ten))"

text \<open>\<open>random\<close> is the twenty bytes of the secret or the four of the message's code.\<close>

definition startSetup :: "mfa_env \<Rightarrow> byte list \<Rightarrow> user_account \<Rightarrow> mfa_method \<Rightarrow> challenge \<Rightarrow> 'x mfa_db_scheme \<Rightarrow>
    (setup_start \<times> challenge \<times> 'x mfa_db_scheme) result" where
  "startSetup env random u via c db =
     (if via = TOTP
      then let secret = generateTotpSecret random
           in Inr (\<lparr>ss_method = via, ss_secret = Some secret, ss_otpauthUrl = Some (otpauthUrl (issuerFor u db) (ua_email u) secret),
                    ss_phoneHint = None\<rparr>, c,
                   update_user (ua_id u) (\<lambda>x. x\<lparr>ua_totpSecretEncrypted := Some (me_encrypt env secret)\<rparr>) db)
      else case sendSmsCode env random u c db of Inl e \<Rightarrow> Inl e
           | Inr (c', db1) \<Rightarrow>
               Inr (\<lparr>ss_method = via, ss_secret = None, ss_otpauthUrl = None, ss_phoneHint = phoneHint (ua_phone u)\<rparr>, c', db1))"

definition confirmSetup :: "mfa_env \<Rightarrow> byte list list \<Rightarrow> user_account \<Rightarrow> mfa_method \<Rightarrow> string \<Rightarrow> challenge \<Rightarrow> 'x mfa_db_scheme \<Rightarrow>
    (string list option \<times> 'x mfa_db_scheme) result" where
  "confirmSetup env draws u via code c db =
     (let clean = filter (\<lambda>x. \<not> is_space x) code
      in case (if via = TOTP then totp_matches env u clean (au_now db)
               else Inr (ch_smsCodeHash c \<noteq> None \<and> ch_smsCodeHash c \<noteq> Some [] \<and> ch_smsCodeHash c = Some (me_sha env clean))) of
           Inl e \<Rightarrow> Inl e
         | Inr False \<Rightarrow> Inr (None, db)
         | Inr True \<Rightarrow>
             let codes = generateRecoveryCodes draws
             in Inr (Some codes, update_user (ua_id u) (\<lambda>x. x\<lparr>ua_mfaMethod := Some via, ua_totpEnabledAt := Some (au_now db),
                  ua_mfaRecoveryCodes := map (hashRecoveryCode (me_sha env)) codes,
                  ua_totpSecretEncrypted := (if via = SMS then None else ua_totpSecretEncrypted x)\<rparr>) db))"

definition startSetupFromChallenge :: "mfa_env \<Rightarrow> byte list \<Rightarrow> string \<Rightarrow> mfa_method \<Rightarrow> 'x mfa_db_scheme \<Rightarrow> (setup_start \<times> 'x mfa_db_scheme) result" where
  "startSetupFromChallenge env random token via db =
     (case loadChallenge token Setup_purpose db of Inl e \<Rightarrow> Inl e
      | Inr c \<Rightarrow>
          (case find_person (ch_userId c) db of None \<Rightarrow> Inl RecordNotFound
           | Some u \<Rightarrow>
               (case startSetup env random u via c db of Inl e \<Rightarrow> Inl e
                | Inr (res, c', db1) \<Rightarrow> Inr (res, saveChallenge token (c'\<lparr>ch_method := Some via\<rparr>) db1))))"

definition confirmSetupFromChallenge :: "mfa_env \<Rightarrow> byte list list \<Rightarrow> string \<Rightarrow> string \<Rightarrow> string \<Rightarrow> 'x mfa_db_scheme \<Rightarrow>
    (user_account \<times> issued_tokens \<times> string list) result \<times> 'x mfa_db_scheme" where
  "confirmSetupFromChallenge env draws newToken token code db =
     (case loadChallenge token Setup_purpose db of Inl e \<Rightarrow> (Inl e, db)
      | Inr c \<Rightarrow>
         (case ch_method c of None \<Rightarrow> (Inl (ValidationError ''Choose how to receive codes first''), db)
          | Some via \<Rightarrow>
             (case find_person (ch_userId c) db of None \<Rightarrow> (Inl RecordNotFound, db)
              | Some u \<Rightarrow>
                 (case confirmSetup env draws u via code c db of Inl e \<Rightarrow> (Inl e, db)
                  | Inr (None, db1) \<Rightarrow> (case failTry token c db1 of (e, db2) \<Rightarrow> (Inl e, db2))
                  | Inr (Some codes, db1) \<Rightarrow>
                      (case createSession (me_tokenHash env) newToken (ua_id u) (ua_tenantId u) (ch_device c) (delChallenge token db1) of
                         Inl e \<Rightarrow> (Inl e, delChallenge token db1)
                       | Inr (tokens, db2) \<Rightarrow> (Inr (u, tokens, codes), db2))))))"

definition save_enroll :: "id \<Rightarrow> challenge \<Rightarrow> 'x mfa_db_scheme \<Rightarrow> 'x mfa_db_scheme" where
  "save_enroll userId c db = db\<lparr>enrolls := (enrolls db)(userId \<mapsto> (c, au_now db + challenge_ttl * 1000))\<rparr>"

definition startSetupForUser :: "mfa_env \<Rightarrow> byte list \<Rightarrow> id \<Rightarrow> mfa_method \<Rightarrow> 'x mfa_db_scheme \<Rightarrow> (setup_start \<times> 'x mfa_db_scheme) result" where
  "startSetupForUser env random userId via db =
     (case find_person userId db of None \<Rightarrow> Inl RecordNotFound
      | Some u \<Rightarrow>
          if ua_mfaMethod u \<noteq> None
          then Inl (ConflictError ''Two-step login is already on. Turn it off first to change how you get codes.'')
          else (case startSetup env random u via (new_challenge u Setup_purpose \<lparr>dc_userAgent = None, dc_ipAddress = None\<rparr>) db of
                  Inl e \<Rightarrow> Inl e
                | Inr (res, c, db1) \<Rightarrow> Inr (res, save_enroll userId (c\<lparr>ch_method := Some via\<rparr>) db1)))"

definition confirmSetupForUser :: "mfa_env \<Rightarrow> byte list list \<Rightarrow> id \<Rightarrow> string \<Rightarrow> 'x mfa_db_scheme \<Rightarrow> string list result \<times> 'x mfa_db_scheme" where
  "confirmSetupForUser env draws userId code db =
     (case redis_get (enrolls db) userId (au_now db) of None \<Rightarrow> (Inl (ConflictError ''Setup has expired. Please start again.''), db)
      | Some c \<Rightarrow>
         (case find_person userId db of None \<Rightarrow> (Inl RecordNotFound, db)
          | Some u \<Rightarrow>
             (case confirmSetup env draws u (the (ch_method c)) code c db of Inl e \<Rightarrow> (Inl e, db)
              | Inr (None, db1) \<Rightarrow>
                  let c' = c\<lparr>ch_tries := ch_tries c + 1\<rparr>
                  in (Inl (UnauthorizedError ''That code is not right. Please try again.''),
                      if ch_tries c' \<ge> max_tries then db1\<lparr>enrolls := (enrolls db1)(userId := None)\<rparr> else save_enroll userId c' db1)
              | Inr (Some codes, db1) \<Rightarrow> (Inr codes, db1\<lparr>enrolls := (enrolls db1)(userId := None)\<rparr>))))"

definition assertPassword :: "mfa_env \<Rightarrow> user_account \<Rightarrow> string \<Rightarrow> unit result" where
  "assertPassword env u password =
     (if \<not> me_verifyPassword env (ua_passwordHash u) password then Inl (UnauthorizedError ''Your password is not right'') else Inr ())"

definition disableForUser :: "mfa_env \<Rightarrow> id \<Rightarrow> string \<Rightarrow> 'x mfa_db_scheme \<Rightarrow> (unit \<times> 'x mfa_db_scheme) result" where
  "disableForUser env userId password db =
     (case find_person userId db of None \<Rightarrow> Inl RecordNotFound
      | Some u \<Rightarrow>
          if ua_mfaMethod u = None then Inl (ConflictError ''Two-step login is not on'')
          else if isMfaRequiredFor u db
          then Inl (ConflictError (''Your ISP requires two-step login for staff, so it can'' @ [CHR 0x27] @ ''t be turned off''))
          else (case assertPassword env u password of Inl e \<Rightarrow> Inl e
                | Inr _ \<Rightarrow> Inr ((), update_user userId (\<lambda>x. x\<lparr>ua_mfaMethod := None, ua_totpSecretEncrypted := None,
                    ua_totpEnabledAt := None, ua_mfaRecoveryCodes := []\<rparr>) db)))"

definition regenerateRecoveryCodes :: "mfa_env \<Rightarrow> byte list list \<Rightarrow> id \<Rightarrow> string \<Rightarrow> 'x mfa_db_scheme \<Rightarrow> (string list \<times> 'x mfa_db_scheme) result" where
  "regenerateRecoveryCodes env draws userId password db =
     (case find_person userId db of None \<Rightarrow> Inl RecordNotFound
      | Some u \<Rightarrow>
          if ua_mfaMethod u = None then Inl (ConflictError ''Two-step login is not on'')
          else (case assertPassword env u password of Inl e \<Rightarrow> Inl e
                | Inr _ \<Rightarrow>
                    let codes = generateRecoveryCodes draws
                    in Inr (codes, update_user userId (\<lambda>x. x\<lparr>ua_mfaRecoveryCodes := map (hashRecoveryCode (me_sha env)) codes\<rparr>) db)))"

section \<open>Signing in\<close>

text \<open>No tenant has this id.\<close>

definition nonexistent_tenant_id :: id where
  "nonexistent_tenant_id = 0"

record login_body =
  lb_tenantSlug :: "string option"
  lb_email :: string
  lb_password :: string

datatype login_outcome =
    Signed_in issued_tokens user_account bool
  | Needs_second_step user_account bool second_step

definition find_slug :: "string \<Rightarrow> 'x auth_db_scheme \<Rightarrow> tenant_account option" where
  "find_slug slug db = List.find (\<lambda>t. ta_slug t = slug) (tenantAccounts db)"

definition tenant_of_email :: "string \<Rightarrow> 'x auth_db_scheme \<Rightarrow> tenant_account option \<times> id option" where
  "tenant_of_email mail db =
     (let email = normal_email mail
      in if list_ex (\<lambda>u. ua_tenantId u = None \<and> ua_email u = email \<and> ua_deletedAt u = None) (users db) then (None, None)
         else case take 2 (filter (\<lambda>u. ua_email u = email \<and> ua_deletedAt u = None \<and> ua_tenantId u \<noteq> None) (users db)) of
           [u] \<Rightarrow> (case find_tenant (the (ua_tenantId u)) db of
                     Some t \<Rightarrow> if ta_deletedAt t = None then (Some t, ua_tenantId u) else (None, None)
                   | None \<Rightarrow> (None, None))
         | _ \<Rightarrow> (None, None))"

definition login_tenant :: "login_body \<Rightarrow> 'x auth_db_scheme \<Rightarrow> tenant_account option \<times> id option" where
  "login_tenant body db =
     (case lb_tenantSlug body of
        Some slug \<Rightarrow>
          if slug \<noteq> [] then
            (let tenant = find_slug slug db
             in (tenant, Some (case tenant of None \<Rightarrow> nonexistent_tenant_id
                   | Some t \<Rightarrow> if ta_deletedAt t = None then ta_id t else nonexistent_tenant_id)))
          else tenant_of_email (lb_email body) db
      | None \<Rightarrow> tenant_of_email (lb_email body) db)"

definition refused_tenant :: "tenant_account option \<Rightarrow> app_error option" where
  "refused_tenant tenant =
     (case tenant of None \<Rightarrow> None
      | Some t \<Rightarrow>
          (case ta_status t of
             TS_SUSPENDED \<Rightarrow> Some (TenantSuspendedError ''This tenant account is suspended'')
           | TS_CANCELLED \<Rightarrow> Some (UnauthorizedError ''This tenant account has been cancelled'')
           | TS_PENDING_APPROVAL \<Rightarrow> Some (TenantPendingApprovalError ''Your registration is pending approval. You will be notified once your account is approved by the platform administrator.'')
           | TS_ACTIVE \<Rightarrow> None))"

definition login :: "mfa_env \<Rightarrow> string \<Rightarrow> string \<Rightarrow> byte list \<Rightarrow> login_body \<Rightarrow> device_context \<Rightarrow> 'x mfa_db_scheme \<Rightarrow>
    login_outcome result \<times> 'x mfa_db_scheme" where
  "login env newToken token random4 body device db =
     (case login_tenant body db of (tenant, tenantId) \<Rightarrow>
       (case verifyLoginCredentials (me_verifyPassword env)
               \<lparr>lp_tenantId = tenantId, lp_email = lb_email body, lp_password = lb_password body, lp_device = device\<rparr> db of
          (Inl e, db1) \<Rightarrow> (Inl e, db1)
        | (Inr u, db1) \<Rightarrow>
           (case refused_tenant tenant of Some e \<Rightarrow> (Inl e, db1)
            | None \<Rightarrow>
               let suspicious = isSuspiciousLogin (ua_id u) device db1
               in case secondStepFor env token random4 u device db1 of Inl e \<Rightarrow> (Inl e, db1)
                  | Inr (Some step, db2) \<Rightarrow> (Inr (Needs_second_step u suspicious step), db2)
                  | Inr (None, db2) \<Rightarrow>
                      (case createSession (me_tokenHash env) newToken (ua_id u) (ua_tenantId u) device db2 of Inl e \<Rightarrow> (Inl e, db2)
                       | Inr (issued, db3) \<Rightarrow> (Inr (Signed_in issued u suspicious), db3)))))"

section \<open>A run of calls\<close>

datatype mfa_call =
    Login string string "byte list" login_body device_context
  | Verify string string string
  | Resend "byte list" string
  | Start_setup "byte list" string mfa_method
  | Confirm_setup "byte list list" string string string
  | Start_for_user "byte list" id mfa_method
  | Confirm_for_user "byte list list" id string
  | Disable id string
  | New_recovery_codes "byte list list" id string
  | Wait nat

definition refusal :: "'a result \<Rightarrow> app_error option" where
  "refusal r = (case r of Inl e \<Rightarrow> Some e | Inr _ \<Rightarrow> None)"

definition answered :: "'a result \<times> 'd \<Rightarrow> app_error option \<times> 'd" where
  "answered r = (refusal (fst r), snd r)"

definition committed :: "'d \<Rightarrow> ('a \<times> 'd) result \<Rightarrow> app_error option \<times> 'd" where
  "committed db r = (case r of Inl e \<Rightarrow> (Some e, db) | Inr (_, db') \<Rightarrow> (None, db'))"

fun run_call :: "mfa_env \<Rightarrow> mfa_call \<Rightarrow> 'x mfa_db_scheme \<Rightarrow> app_error option \<times> 'x mfa_db_scheme" where
  "run_call env (Login newToken token random4 body device) db = answered (login env newToken token random4 body device db)"
| "run_call env (Verify newToken token code) db = answered (verifyChallenge env newToken token code db)"
| "run_call env (Resend random4 token) db = committed db (resendChallengeSms env random4 token db)"
| "run_call env (Start_setup random token via) db = committed db (startSetupFromChallenge env random token via db)"
| "run_call env (Confirm_setup draws newToken token code) db = answered (confirmSetupFromChallenge env draws newToken token code db)"
| "run_call env (Start_for_user random userId via) db = committed db (startSetupForUser env random userId via db)"
| "run_call env (Confirm_for_user draws userId code) db = answered (confirmSetupForUser env draws userId code db)"
| "run_call env (Disable userId password) db = committed db (disableForUser env userId password db)"
| "run_call env (New_recovery_codes draws userId password) db = committed db (regenerateRecoveryCodes env draws userId password db)"
| "run_call env (Wait ms) db = (None, db\<lparr>au_now := au_now db + int ms\<rparr>)"

fun run_calls :: "mfa_env \<Rightarrow> mfa_call list \<Rightarrow> 'x mfa_db_scheme \<Rightarrow> 'x mfa_db_scheme" where
  "run_calls env [] db = db"
| "run_calls env (call # later) db = run_calls env later (snd (run_call env call db))"

text \<open>What most steps leave alone.\<close>

definition untouched :: "'x mfa_db_scheme \<Rightarrow> 'x mfa_db_scheme \<Rightarrow> bool" where
  "untouched db db' \<longleftrightarrow> challenges db' = challenges db \<and> totpUsed db' = totpUsed db \<and> au_now db' = au_now db"

lemma untouched_refl: "untouched db db"
  by (simp add: untouched_def)

lemma untouched_trans: "untouched a b \<Longrightarrow> untouched b c \<Longrightarrow> untouched a c"
  by (simp add: untouched_def)

lemma untouched_update_user: "untouched db (update_user i f db)"
  by (simp add: untouched_def update_user_def)

lemma createSession_untouched:
  fixes db :: "'x mfa_db_scheme"
  shows "createSession hmac tok u t device db = Inr (issued, db') \<Longrightarrow> untouched db db'"
  by (auto simp: createSession_def insert_session_def untouched_def Let_def split: if_splits)

lemma verify_untouched:
  fixes db :: "'x mfa_db_scheme"
  shows "verifyLoginCredentials verifyPassword params db = (res, db') \<Longrightarrow> untouched db db'"
  by (auto simp: verifyLoginCredentials_def record_attempt_def update_user_def untouched_def Let_def split: option.splits if_splits)

lemma sendSmsCode_spec:
  assumes "sendSmsCode env random4 u c db = Inr (c', db')"
  shows "untouched db db'" "ch_tries c' = ch_tries c" "users db' = users db"
  using assms by (auto simp: sendSmsCode_def untouched_def Let_def split: option.splits if_splits)

lemma startSetup_spec:
  assumes "startSetup env random u via c db = Inr (res, c', db')"
  shows "untouched db db'" "ch_tries c' = ch_tries c"
  using assms by (auto simp: startSetup_def Let_def untouched_update_user dest: sendSmsCode_spec split: if_splits sum.splits)

lemma confirmSetup_untouched: "confirmSetup env draws u via code c db = Inr (res, db') \<Longrightarrow> untouched db db'"
  by (auto simp: confirmSetup_def Let_def untouched_refl untouched_update_user split: sum.splits bool.splits)

lemma save_enroll_untouched: "untouched db (save_enroll i c db)" "untouched db (db\<lparr>enrolls := e\<rparr>)"
  by (simp_all add: save_enroll_def untouched_def)

lemmas untouched_rules = createSession_untouched verify_untouched sendSmsCode_spec(1) startSetup_spec(1) confirmSetup_untouched

text \<open>The challenge of a token and how many more wrong codes it takes.\<close>

definition challenge_of :: "string \<Rightarrow> 'x mfa_db_scheme \<Rightarrow> challenge option" where
  "challenge_of token db = map_option fst (challenges db token)"

definition codes_left :: "challenge option \<Rightarrow> nat" where
  "codes_left c = (case c of None \<Rightarrow> 0 | Some c \<Rightarrow> max_tries - ch_tries c)"

definition open_challenge :: "challenge option \<Rightarrow> bool" where
  "open_challenge c \<longleftrightarrow> (case c of None \<Rightarrow> True | Some c \<Rightarrow> ch_tries c < max_tries)"

lemma challenge_of_simps [simp]:
  "challenge_of token (saveChallenge token' c db) = (if token = token' then Some c else challenge_of token db)"
  "challenge_of token (delChallenge token' db) = (if token = token' then None else challenge_of token db)"
  "totpUsed (saveChallenge token' c db) = totpUsed db" "totpUsed (delChallenge token' db) = totpUsed db"
  "au_now (saveChallenge token' c db) = au_now db" "au_now (delChallenge token' db) = au_now db"
  by (simp_all add: challenge_of_def saveChallenge_def delChallenge_def)

lemma untouched_simps: "untouched db db' \<Longrightarrow> challenge_of token db' = challenge_of token db \<and> totpUsed db' = totpUsed db \<and> au_now db' = au_now db"
  by (simp add: untouched_def challenge_of_def)

lemma loadChallenge_challenge: "loadChallenge token purpose db = Inr c \<Longrightarrow> challenge_of token db = Some c"
  by (auto simp: loadChallenge_def redis_get_def challenge_of_def Let_def split: option.splits if_splits)

section \<open>How many codes can be tried\<close>

definition wrong_code :: "app_error option \<Rightarrow> bool" where
  "wrong_code e \<longleftrightarrow> e = Some (UnauthorizedError ''Too many wrong codes. Please sign in again.'')
     \<or> e = Some (UnauthorizedError ''That code is not right. Please try again.'')"

lemma check_steps_throws: "check_steps hmac key code ss = Inl e \<Longrightarrow> \<exists>m. e = RangeError m"
  by (induction hmac key code ss rule: check_steps.induct) (auto simp: hotp_def Let_def split: sum.splits if_splits)

lemma decode_loop_throws: "decode_loop s bits val = Inl e \<Longrightarrow> \<exists>m. e = UnexpectedError m"
  by (induction s bits val rule: decode_loop.induct) (auto simp: Let_def split: option.splits sum.splits if_splits)

lemma totp_matches_throws: "totp_matches env u code now = Inl e \<Longrightarrow> \<not> wrong_code (Some e)"
  by (auto simp: totp_matches_def verifyTotp_def base32Decode_def wrong_code_def Let_def
      simp del: check_steps.simps split: option.splits if_splits sum.splits dest!: check_steps_throws decode_loop_throws)

lemma createSession_throws: "createSession hmac tok u t device db = Inl e \<Longrightarrow> \<not> wrong_code (Some e)"
  by (auto simp: createSession_def insert_session_def wrong_code_def Let_def split: if_splits)

lemma checkCode_spec:
  assumes "checkCode env u code c db = (res, db')"
  shows "challenge_of token db' = challenge_of token db" "au_now db' = au_now db" "res = Inl e \<Longrightarrow> \<not> wrong_code (Some e)"
    "totpUsed db k = Some t \<Longrightarrow> au_now db < t \<Longrightarrow> totpUsed db' k = Some t"
    "res = Inr Code_ok \<Longrightarrow> ua_mfaMethod u = Some TOTP \<Longrightarrow>
       totpUsed db' (ua_id u, filter (\<lambda>x. \<not> is_space x) (trim code)) = Some (au_now db + 120000)
       \<and> (\<forall>t. totpUsed db (ua_id u, filter (\<lambda>x. \<not> is_space x) (trim code)) = Some t \<longrightarrow> t \<le> au_now db)
       \<and> totp_matches env u (trim code) (au_now db) = Inr True"
    "ua_mfaMethod u = Some TOTP \<Longrightarrow> res = Inr Code_recovery \<Longrightarrow> totpUsed db' = totpUsed db"
  using assms
  by (auto simp: checkCode_def Let_def mark_used_def update_user_def challenge_of_def
      split: if_splits sum.splits bool.splits option.splits dest: totp_matches_throws)

lemma failTry_spec:
  assumes "failTry token c db = (e, db')"
  shows "wrong_code (Some e)" "challenge_of t db' = (if t = token then (if ch_tries c + 1 \<ge> max_tries then None else Some (c\<lparr>ch_tries := ch_tries c + 1\<rparr>))
      else challenge_of t db)" "totpUsed db' = totpUsed db" "au_now db' = au_now db"
  using assms by (auto simp: failTry_def wrong_code_def Let_def split: if_splits)

text \<open>What giving a code does to a challenge and to the codes already used.\<close>

definition code_given :: "string \<Rightarrow> app_error option \<Rightarrow> 'x mfa_db_scheme \<Rightarrow> 'x mfa_db_scheme \<Rightarrow> bool" where
  "code_given token e db db' \<longleftrightarrow> au_now db' = au_now db
     \<and> (\<forall>k t. totpUsed db k = Some t \<longrightarrow> au_now db < t \<longrightarrow> totpUsed db' k = Some t)
     \<and> (\<forall>t. t \<noteq> token \<longrightarrow> challenge_of t db' = challenge_of t db)
     \<and> (if wrong_code e
        then \<exists>c. challenge_of token db = Some c
          \<and> challenge_of token db' = (if ch_tries c + 1 \<ge> max_tries then None else Some (c\<lparr>ch_tries := ch_tries c + 1\<rparr>))
        else if e = None then challenge_of token db \<noteq> None \<and> challenge_of token db' = None
        else challenge_of token db' = challenge_of token db \<or> challenge_of token db' = None)"

lemma code_given_refused: "\<not> wrong_code e \<Longrightarrow> e \<noteq> None \<Longrightarrow> code_given token e db db"
  by (auto simp: code_given_def)

lemma loadChallenge_throws: "loadChallenge token purpose db = Inl e \<Longrightarrow> \<not> wrong_code (Some e)"
  by (auto simp: loadChallenge_def wrong_code_def Let_def split: option.splits if_splits)

lemma verifyChallenge_given:
  assumes "verifyChallenge env newToken token code db = (res, db')"
  shows "code_given token (refusal res) db db'"
proof (cases "loadChallenge token Verify_purpose db")
  case (Inl e)
  then show ?thesis using assms loadChallenge_throws [OF Inl] by (auto simp: verifyChallenge_def refusal_def code_given_refused)
next
  case c: (Inr c)
  show ?thesis
  proof (cases "find_person (ch_userId c) db")
    case None
    then show ?thesis using assms c by (auto simp: verifyChallenge_def refusal_def wrong_code_def intro!: code_given_refused)
  next
    case u: (Some u)
    obtain r db1 where check: "checkCode env u code c db = (r, db1)" by fastforce
    note spec = checkCode_spec(1,2,4) [OF check]
    have run: "(case r of Inl e \<Rightarrow> (Inl e, db1)
        | Inr v \<Rightarrow> if v = Code_bad then (case failTry token c db1 of (e, db2) \<Rightarrow> (Inl e, db2))
            else (case createSession (me_tokenHash env) newToken (ua_id u) (ua_tenantId u) (ch_device c) (delChallenge token db1) of
                    Inl e \<Rightarrow> (Inl e, delChallenge token db1)
                  | Inr (tokens, db2) \<Rightarrow> (Inr \<lparr>si_user = u, si_tokens = tokens, si_usedRecoveryCode = (v = Code_recovery),
                      si_recoveryCodesLeft = (if v = Code_recovery then length (ua_mfaRecoveryCodes u) - 1 else length (ua_mfaRecoveryCodes u))\<rparr>, db2)))
        = (res, db')"
      using assms c u check by (simp add: verifyChallenge_def split: sum.splits)
    have old: "challenge_of token db = Some c" by (rule loadChallenge_challenge [OF c])
    consider (thrown) e where "r = Inl e" "res = Inl e" "db' = db1"
      | (bad) e where "failTry token c db1 = (e, db')" "res = Inl e"
      | (clash) e where "createSession (me_tokenHash env) newToken (ua_id u) (ua_tenantId u) (ch_device c) (delChallenge token db1) = Inl e"
          "res = Inl e" "db' = delChallenge token db1"
      | (good) tokens out where "createSession (me_tokenHash env) newToken (ua_id u) (ua_tenantId u) (ch_device c) (delChallenge token db1) = Inr (tokens, db')"
          "res = Inr out"
    proof (cases r)
      case (Inl e)
      then show thesis using run that(1) by simp
    next
      case (Inr v)
      show thesis
      proof (cases "v = Code_bad")
        case True
        obtain e db2 where fail: "failTry token c db1 = (e, db2)" by fastforce
        then show thesis using run Inr True by (intro that(2)) auto
      next
        case False
        show thesis
        proof (cases "createSession (me_tokenHash env) newToken (ua_id u) (ua_tenantId u) (ch_device c) (delChallenge token db1)")
          case clash: (Inl e)
          then show thesis using run False Inr by (intro that(3) [OF clash]) simp_all
        next
          case good: (Inr issued)
          obtain tokens db2 where issued: "issued = (tokens, db2)" by fastforce
          then show thesis using run False Inr good by (intro that(4)) auto
        qed
      qed
    qed
    then show ?thesis
    proof cases
      case thrown
      then show ?thesis using checkCode_spec(3) [OF check] spec by (simp add: code_given_def refusal_def)
    next
      case bad
      then show ?thesis using failTry_spec [OF bad(1)] spec old by (simp add: code_given_def refusal_def)
    next
      case clash
      then show ?thesis using createSession_throws [OF clash(1)] spec by (simp add: code_given_def refusal_def)
    next
      case good
      then show ?thesis
        using untouched_simps [OF createSession_untouched [OF good(1)]] spec old by (simp add: code_given_def refusal_def wrong_code_def)
    qed
  qed
qed

lemma confirmSetup_throws: "confirmSetup env draws u via code c db = Inl e \<Longrightarrow> \<not> wrong_code (Some e)"
  by (auto simp: confirmSetup_def Let_def split: sum.splits bool.splits if_splits dest: totp_matches_throws)

lemma confirmSetupFromChallenge_given:
  assumes "confirmSetupFromChallenge env draws newToken token code db = (res, db')"
  shows "code_given token (refusal res) db db'"
proof (cases "loadChallenge token Setup_purpose db")
  case (Inl e)
  then show ?thesis using assms loadChallenge_throws [OF Inl] by (auto simp: confirmSetupFromChallenge_def refusal_def code_given_refused)
next
  case c: (Inr c)
  have old: "challenge_of token db = Some c" by (rule loadChallenge_challenge [OF c])
  show ?thesis
  proof (cases "ch_method c = None \<or> find_person (ch_userId c) db = None")
    case True
    then show ?thesis using assms c
      by (auto simp: confirmSetupFromChallenge_def refusal_def wrong_code_def intro!: code_given_refused split: option.splits)
  next
    case False
    then obtain via u where mu: "ch_method c = Some via" "find_person (ch_userId c) db = Some u" by auto
    show ?thesis
    proof (cases "confirmSetup env draws u via code c db")
      case (Inl e)
      then show ?thesis using assms c mu confirmSetup_throws [OF Inl]
        by (auto simp: confirmSetupFromChallenge_def refusal_def intro!: code_given_refused)
    next
      case (Inr r)
      obtain found db1 where r: "r = (found, db1)" by fastforce
      have same: "challenge_of t db1 = challenge_of t db" "totpUsed db1 = totpUsed db" "au_now db1 = au_now db" for t
        using untouched_simps [OF confirmSetup_untouched] Inr r by blast+
      show ?thesis
      proof (cases found)
        case None
        obtain e db2 where fail: "failTry token c db1 = (e, db2)" by fastforce
        then have "res = Inl e" "db' = db2" using assms c mu Inr r None by (simp_all add: confirmSetupFromChallenge_def)
        then show ?thesis using failTry_spec [OF fail] same old by (simp add: code_given_def refusal_def)
      next
        case (Some codes)
        show ?thesis
        proof (cases "createSession (me_tokenHash env) newToken (ua_id u) (ua_tenantId u) (ch_device c) (delChallenge token db1)")
          case clash: (Inl e)
          then show ?thesis using assms c mu Inr r Some createSession_throws [OF clash] same
            by (auto simp: confirmSetupFromChallenge_def code_given_def refusal_def)
        next
          case good: (Inr issued)
          obtain tokens db2 where issued: "issued = (tokens, db2)" by fastforce
          then show ?thesis using assms c mu Inr r Some good untouched_simps [OF createSession_untouched [OF good [unfolded issued]]] same old
            by (auto simp: confirmSetupFromChallenge_def code_given_def refusal_def wrong_code_def)
        qed
      qed
    qed
  qed
qed

text \<open>A fresh message, or a via chosen, keeps the count of a challenge.\<close>

definition same_count :: "string \<Rightarrow> 'x mfa_db_scheme \<Rightarrow> 'x mfa_db_scheme \<Rightarrow> bool" where
  "same_count token db db' \<longleftrightarrow> au_now db' = au_now db \<and> totpUsed db' = totpUsed db
     \<and> map_option ch_tries (challenge_of token db') = map_option ch_tries (challenge_of token db)"

lemma untouched_same_count: "untouched db db' \<Longrightarrow> same_count token db db'"
  by (simp add: same_count_def untouched_simps)

lemma sent_facts:
  assumes "sendSmsCode env random4 u c db = Inr (c', db')"
  shows "ch_tries c' = ch_tries c \<and> (\<forall>t. challenge_of t db' = challenge_of t db) \<and> totpUsed db' = totpUsed db \<and> au_now db' = au_now db"
  using sendSmsCode_spec [OF assms] untouched_simps by blast

lemma started_facts:
  assumes "startSetup env random u via c db = Inr (res, c', db')"
  shows "ch_tries c' = ch_tries c \<and> (\<forall>t. challenge_of t db' = challenge_of t db) \<and> totpUsed db' = totpUsed db \<and> au_now db' = au_now db"
  using startSetup_spec [OF assms] untouched_simps by blast

lemma resend_count: "resendChallengeSms env random4 token db = Inr ((), db') \<Longrightarrow> same_count t db db'"
  by (auto simp: resendChallengeSms_def same_count_def split: sum.splits option.splits if_splits
      dest!: loadChallenge_challenge sent_facts)

lemma startSetupFromChallenge_count: "startSetupFromChallenge env random token via db = Inr (res, db') \<Longrightarrow> same_count t db db'"
  by (auto simp: startSetupFromChallenge_def same_count_def split: sum.splits option.splits if_splits
      dest!: loadChallenge_challenge started_facts)

lemma startSetupForUser_count: "startSetupForUser env random userId via db = Inr (res, db') \<Longrightarrow> same_count t db db'"
  by (auto simp: startSetupForUser_def split: sum.splits option.splits if_splits
      intro!: untouched_same_count untouched_trans [OF startSetup_spec(1) save_enroll_untouched(1)])

lemma confirmSetupForUser_count: "confirmSetupForUser env draws userId code db = (res, db') \<Longrightarrow> same_count t db db'"
  by (auto simp: confirmSetupForUser_def Let_def split: sum.splits option.splits if_splits
      intro!: untouched_same_count untouched_refl untouched_trans [OF confirmSetup_untouched save_enroll_untouched(1)]
        untouched_trans [OF confirmSetup_untouched save_enroll_untouched(2)])

lemma settings_count:
  "disableForUser env userId password db = Inr ((), db') \<Longrightarrow> same_count t db db'"
  "regenerateRecoveryCodes env draws userId password db = Inr (res, db') \<Longrightarrow> same_count t db db'"
  by (auto simp: disableForUser_def regenerateRecoveryCodes_def Let_def split: sum.splits option.splits if_splits
      intro!: untouched_same_count untouched_update_user)

lemma secondStepFor_others:
  assumes "secondStepFor env token random4 u device db = Inr (step, db')"
  shows "(t \<noteq> token \<longrightarrow> challenge_of t db' = challenge_of t db) \<and> totpUsed db' = totpUsed db \<and> au_now db' = au_now db"
  using assms by (auto simp: secondStepFor_def split: option.splits if_splits sum.splits prod.splits dest!: sent_facts)

definition credentials :: "login_body \<Rightarrow> device_context \<Rightarrow> 'x auth_db_scheme \<Rightarrow> login_params" where
  "credentials body device db =
     \<lparr>lp_tenantId = snd (login_tenant body db), lp_email = lb_email body, lp_password = lb_password body, lp_device = device\<rparr>"

lemma login_cases:
  fixes db :: "'x mfa_db_scheme"
  assumes "login env newToken token random4 body device db = (res, db')"
  obtains (refused) e where "verifyLoginCredentials (me_verifyPassword env) (credentials body device db) db = (Inl e, db')" "res = Inl e"
    | (stopped) u e where "verifyLoginCredentials (me_verifyPassword env) (credentials body device db) db = (Inr u, db')" "res = Inl e"
    | (second) u db1 step where "verifyLoginCredentials (me_verifyPassword env) (credentials body device db) db = (Inr u, db1)"
        "secondStepFor env token random4 u device db1 = Inr (Some step, db')"
        "res = Inr (Needs_second_step u (isSuspiciousLogin (ua_id u) device db1) step)"
    | (clash) u db1 e where "verifyLoginCredentials (me_verifyPassword env) (credentials body device db) db = (Inr u, db1)"
        "secondStepFor env token random4 u device db1 = Inr (None, db')" "res = Inl e"
    | (issued) u db1 db2 tokens where "verifyLoginCredentials (me_verifyPassword env) (credentials body device db) db = (Inr u, db1)"
        "secondStepFor env token random4 u device db1 = Inr (None, db2)"
        "createSession (me_tokenHash env) newToken (ua_id u) (ua_tenantId u) device db2 = Inr (tokens, db')"
        "res = Inr (Signed_in tokens u (isSuspiciousLogin (ua_id u) device db1))"
proof -
  obtain r db1 where v: "verifyLoginCredentials (me_verifyPassword env) (credentials body device db) db = (r, db1)" by fastforce
  note run = assms [unfolded login_def prod.case_eq_if, folded credentials_def, unfolded v fst_conv snd_conv]
  show thesis
  proof (cases r)
    case (Inl e)
    then show thesis using run v by (intro refused) auto
  next
    case u: (Inr u)
    show thesis
    proof (cases "refused_tenant (fst (login_tenant body db))")
      case (Some e)
      then show thesis using run v u by (intro stopped) auto
    next
      case None
      show thesis
      proof (cases "secondStepFor env token random4 u device db1")
        case (Inl e)
        then show thesis using run v u None by (intro stopped) (auto simp: Let_def)
      next
        case two: (Inr sd)
        obtain step db2 where sd: "sd = (step, db2)" by fastforce
        show thesis
        proof (cases step)
          case step: (Some x)
          then show thesis using run v u None two sd by (intro second) (auto simp: Let_def)
        next
          case none: None
          show thesis
          proof (cases "createSession (me_tokenHash env) newToken (ua_id u) (ua_tenantId u) device db2")
            case (Inl e)
            then show thesis using run v u None two sd none by (intro clash) (auto simp: Let_def)
          next
            case tokens: (Inr x)
            obtain tokens db3 where "x = (tokens, db3)" by fastforce
            then show thesis using run v u None two sd none tokens by (intro issued) (auto simp: Let_def)
          qed
        qed
      qed
    qed
  qed
qed

lemma login_others:
  assumes "login env newToken token random4 body device db = (res, db')"
  shows "(t \<noteq> token \<longrightarrow> challenge_of t db' = challenge_of t db) \<and> totpUsed db' = totpUsed db \<and> au_now db' = au_now db"
  using assms
proof (cases rule: login_cases)
  case (second u db1 step)
  with secondStepFor_others [OF second(2)] untouched_simps [OF verify_untouched [OF second(1)]] show ?thesis by simp
next
  case (clash u db1 e)
  with secondStepFor_others [OF clash(2)] untouched_simps [OF verify_untouched [OF clash(1)]] show ?thesis by simp
next
  case (issued u db1 db2 tokens)
  with secondStepFor_others [OF issued(2)] untouched_simps [OF verify_untouched [OF issued(1)]]
    untouched_simps [OF createSession_untouched [OF issued(3)]] show ?thesis by simp
qed (use untouched_simps verify_untouched in blast)+

text \<open>The calls that answer a challenge; a sign-in draws a token of its own.\<close>

fun answers :: "string \<Rightarrow> mfa_call \<Rightarrow> bool" where
  "answers token (Verify newToken t code) = (t = token)"
| "answers token (Confirm_setup draws newToken t code) = (t = token)"
| "answers token _ = False"

fun draws_another :: "string \<Rightarrow> mfa_call \<Rightarrow> bool" where
  "draws_another token (Login newToken t random4 body device) = (t \<noteq> token)"
| "draws_another token _ = True"

fun count_answers :: "(app_error option \<Rightarrow> bool) \<Rightarrow> mfa_env \<Rightarrow> string \<Rightarrow> mfa_call list \<Rightarrow> 'x mfa_db_scheme \<Rightarrow> nat" where
  "count_answers p env token [] db = 0"
| "count_answers p env token (call # later) db =
     (case run_call env call db of (e, db') \<Rightarrow> (if answers token call \<and> p e then 1 else 0) + count_answers p env token later db')"

lemma answeredD: "answered r = (e, d) \<Longrightarrow> \<exists>x. r = (x, d) \<and> e = refusal x"
  by (cases r) (simp add: answered_def)

lemma committed_count:
  "committed db r = (e, db') \<Longrightarrow> (\<And>x db2. r = Inr (x, db2) \<Longrightarrow> same_count token db db2) \<Longrightarrow> same_count token db db'"
  by (cases r) (auto simp: committed_def untouched_same_count untouched_refl)

text \<open>A call gives a code for a challenge, or leaves every count (but that of the token it draws) alone.\<close>

lemma call_effect:
  assumes "run_call env call db = (e, db')"
  shows "(\<exists>t. code_given t e db db' \<and> (\<forall>token. answers token call \<longleftrightarrow> token = t))
    \<or> (\<forall>token. \<not> answers token call) \<and> au_now db \<le> au_now db' \<and> totpUsed db' = totpUsed db
      \<and> (\<forall>token. draws_another token call \<longrightarrow> map_option ch_tries (challenge_of token db') = map_option ch_tries (challenge_of token db))"
    (is "_ \<or> ?quiet")
proof -
  have count: ?quiet if "\<And>token. same_count token db db'" "\<And>token. \<not> answers token call" using that by (simp add: same_count_def)
  show ?thesis
  proof (cases call)
    case (Login newToken t random4 body device)
    then obtain res where "login env newToken t random4 body device db = (res, db')" using assms by (auto dest!: answeredD)
    from login_others [OF this] Login show ?thesis by auto
  next
    case (Verify newToken t code)
    then obtain res where "verifyChallenge env newToken t code db = (res, db')" "e = refusal res"
      using assms by (auto dest!: answeredD)
    with verifyChallenge_given Verify show ?thesis by (intro disjI1 exI [of _ t]) auto
  next
    case (Confirm_setup draws newToken t code)
    then obtain res where "confirmSetupFromChallenge env draws newToken t code db = (res, db')" "e = refusal res"
      using assms by (auto dest!: answeredD)
    with confirmSetupFromChallenge_given Confirm_setup show ?thesis by (intro disjI1 exI [of _ t]) auto
  next
    case (Confirm_for_user draws userId code)
    then obtain res where "confirmSetupForUser env draws userId code db = (res, db')"
      using assms by (auto dest!: answeredD)
    from confirmSetupForUser_count [OF this] Confirm_for_user show ?thesis by (intro disjI2 count) auto
  next
    case (Resend random4 t)
    with assms show ?thesis by (intro disjI2 count) (auto elim!: committed_count dest: resend_count)
  next
    case (Start_setup random t via)
    with assms show ?thesis by (intro disjI2 count) (auto elim!: committed_count dest: startSetupFromChallenge_count)
  next
    case (Start_for_user random userId via)
    with assms show ?thesis by (intro disjI2 count) (auto elim!: committed_count dest: startSetupForUser_count)
  next
    case (Disable userId password)
    with assms show ?thesis by (intro disjI2 count) (auto elim!: committed_count dest: settings_count(1))
  next
    case (New_recovery_codes draws userId password)
    with assms show ?thesis by (intro disjI2 count) (auto elim!: committed_count dest: settings_count(2))
  next
    case (Wait ms)
    then show ?thesis using assms by (auto simp: challenge_of_def)
  qed
qed

lemma code_given_cases:
  assumes "code_given token e db db'"
  obtains (wrong) c where "wrong_code e" "e \<noteq> None" "challenge_of token db = Some c"
      "challenge_of token db' = (if ch_tries c + 1 \<ge> max_tries then None else Some (c\<lparr>ch_tries := ch_tries c + 1\<rparr>))"
    | (right) "\<not> wrong_code e" "e = None" "challenge_of token db \<noteq> None" "challenge_of token db' = None"
    | (same) "\<not> wrong_code e" "e \<noteq> None" "challenge_of token db' = challenge_of token db"
    | (gone) "\<not> wrong_code e" "e \<noteq> None" "challenge_of token db' = None"
  using assms unfolding code_given_def by (cases "wrong_code e"; cases "e = None") (auto simp: wrong_code_def)

lemma one_call:
  assumes "run_call env call db = (e, db')" and "draws_another token call" and "open_challenge (challenge_of token db)"
  shows "open_challenge (challenge_of token db')
    \<and> (if answers token call \<and> wrong_code e then 1 else 0) + codes_left (challenge_of token db') \<le> codes_left (challenge_of token db)
    \<and> (if answers token call \<and> e = None then 1 else 0) + (if challenge_of token db' = None then 0 else 1)
        \<le> (if challenge_of token db = None then 0 else (1::nat))"
  using call_effect [OF assms(1)]
proof (elim disjE exE conjE)
  fix t
  assume g: "code_given t e db db'" and a: "\<forall>token. answers token call \<longleftrightarrow> token = t"
  show ?thesis
  proof (cases "t = token")
    case False
    then have "challenge_of token db' = challenge_of token db" using g by (simp add: code_given_def)
    with False a assms(3) show ?thesis by simp
  next
    case True
    from g [unfolded True] show ?thesis
    proof (cases rule: code_given_cases)
      case (wrong c)
      then show ?thesis using assms(3) by (auto simp: open_challenge_def codes_left_def max_tries_def)
    next
      case right
      then show ?thesis by (simp add: open_challenge_def codes_left_def)
    next
      case same
      then show ?thesis using assms(3) by simp
    next
      case gone
      then show ?thesis by (auto simp: open_challenge_def codes_left_def)
    qed
  qed
next
  assume "\<forall>token. \<not> answers token call"
    and "\<forall>token. draws_another token call \<longrightarrow> map_option ch_tries (challenge_of token db') = map_option ch_tries (challenge_of token db)"
  with assms(2,3) show ?thesis
    by (cases "challenge_of token db"; cases "challenge_of token db'") (auto simp: open_challenge_def codes_left_def)
qed

lemma run_of_answers:
  assumes "list_all (draws_another token) calls" and "open_challenge (challenge_of token db)"
  shows "open_challenge (challenge_of token (run_calls env calls db))
    \<and> count_answers wrong_code env token calls db + codes_left (challenge_of token (run_calls env calls db)) \<le> codes_left (challenge_of token db)
    \<and> count_answers (\<lambda>e. e = None) env token calls db \<le> (if challenge_of token db = None then 0 else 1)"
  using assms
proof (induction calls arbitrary: db)
  case Nil
  then show ?case by simp
next
  case (Cons call later)
  obtain e db1 where run: "run_call env call db = (e, db1)" by fastforce
  have one: "open_challenge (challenge_of token db1)"
    "(if answers token call \<and> wrong_code e then 1 else 0) + codes_left (challenge_of token db1) \<le> codes_left (challenge_of token db)"
    "(if answers token call \<and> e = None then 1 else 0) + (if challenge_of token db1 = None then 0 else 1)
      \<le> (if challenge_of token db = None then 0 else (1::nat))"
    using one_call [OF run, of token] Cons.prems by simp_all
  have "list_all (draws_another token) later" using Cons.prems by simp
  from Cons.IH [OF this one(1)] one run show ?case by (auto split: if_splits)
qed


section \<open>A code is accepted once\<close>

lemma used_stays:
  assumes "run_call env call db = (e, db')"
  shows "au_now db \<le> au_now db' \<and> (totpUsed db k = Some t \<longrightarrow> au_now db < t \<longrightarrow> totpUsed db' k = Some t)"
  using call_effect [OF assms] by (cases k) (auto simp: code_given_def)

lemma run_time: "au_now db \<le> au_now (run_calls env calls db)"
proof (induction calls arbitrary: db)
  case Nil
  then show ?case by simp
next
  case (Cons call later)
  obtain e db1 where run: "run_call env call db = (e, db1)" by fastforce
  have "au_now db \<le> au_now db1" using used_stays [OF run] by blast
  with Cons.IH [of db1] run show ?case by simp
qed

lemma used_stays_run:
  assumes "totpUsed db k = Some t" and "au_now (run_calls env calls db) < t"
  shows "totpUsed (run_calls env calls db) k = Some t"
  using assms
proof (induction calls arbitrary: db)
  case Nil
  then show ?case by simp
next
  case (Cons call later)
  obtain e db1 where run: "run_call env call db = (e, db1)" by fastforce
  have "au_now db1 \<le> au_now (run_calls env later db1)" by (rule run_time)
  moreover have "au_now db \<le> au_now db1" using used_stays [OF run] by blast
  ultimately have "totpUsed db1 k = Some t" using used_stays [OF run, of k t] Cons.prems run by simp
  then show ?case using Cons.IH [of db1] Cons.prems(2) run by simp
qed

lemma verified_by_totp:
  assumes "verifyChallenge env newToken token code db = (Inr out, db')" and "ua_mfaMethod (si_user out) = Some TOTP"
    and "\<not> si_usedRecoveryCode out"
  defines "used \<equiv> (ua_id (si_user out), filter (\<lambda>x. \<not> is_space x) (trim code))"
  shows "totpUsed db' used = Some (au_now db + 120000)"
    and "\<forall>t. totpUsed db used = Some t \<longrightarrow> t \<le> au_now db"
    and "totp_matches env (si_user out) (trim code) (au_now db) = Inr True" and "au_now db' = au_now db"
proof -
  obtain c u res db1 tokens where run: "find_person (ch_userId c) db = Some u" "checkCode env u code c db = (Inr res, db1)" "res \<noteq> Code_bad"
    "createSession (me_tokenHash env) newToken (ua_id u) (ua_tenantId u) (ch_device c) (delChallenge token db1) = Inr (tokens, db')"
    "si_user out = u" "si_usedRecoveryCode out \<longleftrightarrow> res = Code_recovery"
    using assms(1) by (fastforce simp: verifyChallenge_def split: sum.splits option.splits prod.splits if_splits)
  have ok: "res = Code_ok" using run(3,6) assms(3) by (cases res) simp_all
  note later = untouched_simps [OF createSession_untouched [OF run(4)]]
  note check = checkCode_spec [OF run(2)]
  show "totpUsed db' used = Some (au_now db + 120000)" "\<forall>t. totpUsed db used = Some t \<longrightarrow> t \<le> au_now db"
    "totp_matches env (si_user out) (trim code) (au_now db) = Inr True" "au_now db' = au_now db"
    using check(2,5) ok later assms(2) unfolding used_def run(5) by simp_all
qed


section \<open>A password alone\<close>

lemma verified_password:
  fixes db :: "'x mfa_db_scheme"
  assumes "verifyLoginCredentials verifyPassword params db = (Inr u, db')"
  shows "u \<in> set (users db)" "verifyPassword (ua_passwordHash u) (lp_password params)" "sessions db' = sessions db"
    "tenantAccounts db' = tenantAccounts db" "roles db' = roles db" "userRoles db' = userRoles db"
    "\<exists>a \<in> set (loginAttempts db'). la_userId a = Some (ua_id u) \<and> la_success a \<and> la_userAgent a = dc_userAgent (lp_device params)
      \<and> la_ipAddress a = (case dc_ipAddress (lp_device params) of Some ip \<Rightarrow> ip | None \<Rightarrow> ''unknown'')"
  using assms by (auto simp: verifyLoginCredentials_def Let_def record_attempt_def update_user_def find_user_def split: option.splits if_splits dest: find_SomeD)

lemma secondStepFor_sessions: "secondStepFor env token random4 u device db = Inr (step, db') \<Longrightarrow> sessions db' = sessions db"
  by (auto simp: secondStepFor_def sendSmsCode_def saveChallenge_def Let_def split: option.splits if_splits sum.splits prod.splits)

lemma no_second_step:
  "secondStepFor env token random4 u device db = Inr (None, db') \<Longrightarrow> ua_mfaMethod u = None \<and> \<not> isMfaRequiredFor u db \<and> db' = db"
  by (auto simp: secondStepFor_def split: option.splits if_splits sum.splits prod.splits)

lemma own_success_found:
  fixes db :: "'x mfa_db_scheme"
  assumes "verifyLoginCredentials verifyPassword params db = (Inr u, db')"
  shows "\<not> isSuspiciousLogin (ua_id u) (lp_device params) db'"
  using verified_password(7) [OF assms]
  by (cases "dc_ipAddress (lp_device params)") (auto simp: isSuspiciousLogin_def list_ex_iff split: option.splits)

text \<open>
  C38. A password alone opens no session for an account with two-step login on, or of staff whose
  provider requires it: a sign-in issues tokens only for an account of the table whose password it
  is, with no second step to take, and otherwise changes no session.
\<close>

theorem password_alone_is_not_enough:
  assumes "login env newToken token random4 body device db = (res, db')"
  shows "(\<exists>issued u warned. res = Inr (Signed_in issued u warned) \<and> u \<in> set (users db)
        \<and> me_verifyPassword env (ua_passwordHash u) (lb_password body) \<and> ua_mfaMethod u = None \<and> \<not> isMfaRequiredFor u db
        \<and> sessions db' = sessions db @ [it_session issued] \<and> se_userId (it_session issued) = ua_id u)
    \<or> (\<forall>issued u warned. res \<noteq> Inr (Signed_in issued u warned)) \<and> sessions db' = sessions db"
  using assms
proof (cases rule: login_cases)
  case (second u db1 step)
  with verified_password(3) [OF second(1)] secondStepFor_sessions [OF second(2)] show ?thesis by simp
next
  case (clash u db1 e)
  with verified_password(3) [OF clash(1)] secondStepFor_sessions [OF clash(2)] show ?thesis by simp
next
  case (issued u db1 db2 tokens)
  note v = verified_password [OF issued(1)] and two = no_second_step [OF issued(2)]
  have "isMfaRequiredFor u db1 = isMfaRequiredFor u db"
    by (cases "ua_tenantId u") (simp_all add: isMfaRequiredFor_def tenantRequiresMfa_def find_tenant_def isStaffUser_def v(4-6))
  with v two issued show ?thesis
    by (auto simp: credentials_def createSession_def insert_session_def new_session_def issueTokensForSession_def Let_def split: if_splits)
qed (auto dest: verify_sessions)

text \<open>
  The warning about a sign-in from a new place is never given: the attempt is recorded as a
  success before the earlier successes from the same address and browser are looked up, so it finds
  itself.
\<close>

theorem new_place_is_never_noticed:
  assumes "login env newToken token random4 body device db = (Inr outcome, db')"
  shows "case outcome of Signed_in issued u warned \<Rightarrow> \<not> warned | Needs_second_step u warned step \<Rightarrow> \<not> warned"
  using assms
proof (cases rule: login_cases)
  case (second u db1 step)
  with own_success_found [OF second(1)] show ?thesis by (simp add: credentials_def)
next
  case (issued u db1 db2 tokens)
  with own_success_found [OF issued(1)] show ?thesis by (simp add: credentials_def)
qed simp_all

section \<open>Examples\<close>

definition sample_env :: mfa_env where
  "sample_env = \<lparr>me_hmac = (\<lambda>key msg. replicate 20 0), me_sha = (\<lambda>s. ''sha:'' @ s), me_encrypt = (\<lambda>s. ''x:'' @ s),
     me_decrypt = (\<lambda>s. Some (drop 2 s)), me_delivered = (\<lambda>t phone text. True), me_verifyPassword = (\<lambda>h p. h = ''h:'' @ p),
     me_tokenHash = (\<lambda>s. ''h:'' @ s)\<rparr>"

definition sample_totp_user :: user_account where
  "sample_totp_user = sample_person\<lparr>ua_mfaMethod := Some TOTP, ua_totpSecretEncrypted := Some ''x:''\<rparr>"

definition sample_mfa :: mfa_db where
  "sample_mfa = auth_db.extend (sample_auth\<lparr>users := [sample_totp_user]\<rparr>)
     (mfa_db.fields [''a'' \<mapsto> (new_challenge sample_totp_user Verify_purpose no_device, 1300000),
        ''b'' \<mapsto> (new_challenge sample_totp_user Verify_purpose no_device, 1300000)] Map.empty Map.empty [])"

lemma sample_mfa_fields:
  "challenges sample_mfa = [''a'' \<mapsto> (new_challenge sample_totp_user Verify_purpose no_device, 1300000),
     ''b'' \<mapsto> (new_challenge sample_totp_user Verify_purpose no_device, 1300000)]"
  "totpUsed sample_mfa = Map.empty" "au_now sample_mfa = 1000000" "users sample_mfa = [sample_totp_user]"
  "sessions sample_mfa = [sample_session]" "tenantAccounts sample_mfa = tenantAccounts sample_auth" "loginAttempts sample_mfa = []"
  by (simp_all add: sample_mfa_def auth_db.extend_def mfa_db.fields_def sample_auth_def)


lemma zero_hotp: "0 \<le> c \<Longrightarrow> c < 2 ^ 64 \<Longrightarrow> hotp (\<lambda>key msg. replicate 20 0) [] c 6 = Inr ''000000''"
proof -
  have "replicate 20 (0::byte) ! 19 = 0" by simp
  moreover have "readUInt32BE (replicate 20 0) = 0" by code_simp
  moreover have "pad_start 6 (CHR ''0'') (nat_to_string 0) = ''000000''" by code_simp
  ultimately show "0 \<le> c \<Longrightarrow> c < 2 ^ 64 \<Longrightarrow> ?thesis" by (simp add: hotp_def Let_def)
qed

lemma sample_email: "normal_email ''ann@isp.example'' = ''ann@isp.example''"
  by code_simp

theorem new_place_is_never_noticed_witness:
  "\<exists>outcome db'. login sample_env ''n'' ''c'' [] \<lparr>lb_tenantSlug = Some ''isp'', lb_email = ''ann@isp.example'', lb_password = ''correct horse 1''\<rparr>
      \<lparr>dc_userAgent = None, dc_ipAddress = Some ''10.0.0.9''\<rparr> sample_mfa = (Inr outcome, db')
    \<and> (case outcome of Signed_in issued u warned \<Rightarrow> \<not> warned | Needs_second_step u warned step \<Rightarrow> \<not> warned)"
proof -
  let ?body = "\<lparr>lb_tenantSlug = Some ''isp'', lb_email = ''ann@isp.example'', lb_password = ''correct horse 1''\<rparr>"
  let ?device = "\<lparr>dc_userAgent = None, dc_ipAddress = Some ''10.0.0.9''\<rparr>"
  obtain outcome db' where "login sample_env ''n'' ''c'' [] ?body ?device sample_mfa = (Inr outcome, db')"
    by (simp add: login_def login_tenant_def find_slug_def sample_mfa_fields sample_auth_def verifyLoginCredentials_def sample_email Let_def
        find_user_def sample_totp_user_def sample_person_def new_user_def sample_env_def refused_tenant_def secondStepFor_def update_user_def record_attempt_def)
  with new_place_is_never_noticed [OF this] show ?thesis by blast
qed

theorem password_alone_is_not_enough_witness:
  "\<exists>res db'. login sample_env ''n'' ''c'' [] \<lparr>lb_tenantSlug = Some ''isp'', lb_email = ''ann@isp.example'', lb_password = ''correct horse 1''\<rparr>
      no_device sample_mfa = (res, db') \<and> sessions db' = [sample_session]"
proof -
  obtain res db' where run: "login sample_env ''n'' ''c'' [] \<lparr>lb_tenantSlug = Some ''isp'', lb_email = ''ann@isp.example'',
    lb_password = ''correct horse 1''\<rparr> no_device sample_mfa = (res, db')" by fastforce
  from password_alone_is_not_enough [OF run] show ?thesis
    using run by (auto simp: sample_mfa_fields sample_totp_user_def)
qed

lemma sample_code: "trim ''000000'' = ''000000''" "trim '' 000 000'' = ''000 000''" "six_digits ''000000''" "\<not> is_space CHR ''0''"
  "is_space CHR '' ''"
  by code_simp+

lemma zero_code: "verifyTotp (\<lambda>key msg. replicate 20 0) [] ''000000'' now = Inr True" if "30000 \<le> now" "now < 1000000000000000"
proof -
  have "30000 * (now div 30000) \<le> now" "now < 30000 * (now div 30000) + 30000" by presburger+
  then have "0 \<le> now div 30000 - 1" "now div 30000 + 1 < 18446744073709551616" using that by linarith+
  moreover have "base32Decode [] = Inr []" by (simp add: base32Decode_def)
  ultimately show ?thesis by (simp add: verifyTotp_def time_step_def zero_hotp sample_code)
qed

lemma zero_code_spaced: "verifyTotp hmac secret ''000 000'' now = verifyTotp hmac secret ''000000'' now"
  by (simp add: verifyTotp_def sample_code)


end
