(* ===== verification/Customers.thy ===== *)
theory Customers imports Sequence Wallet SignIn begin

text \<open>
  packages/billing/src/customer.service.ts and package.service.ts: the customers of a tenant
  and the packages it sells. A customer's coordinates are not kept. The table's unique keys
  are (tenantId, customerNumber) and userId; every customer is created with an empty wallet.
\<close>

section \<open>Customers\<close>

record create_customer_input =
  cc_fullName :: string
  cc_email :: "string option"
  cc_phone :: string
  cc_idNumber :: "string option"
  cc_address :: "string option"
  cc_connectionType :: "string option"
  cc_userId :: "id option"
  cc_branchId :: "id option"

definition generateCustomerNumber :: "'x billing_db_scheme \<Rightarrow> id \<Rightarrow> nat \<Rightarrow> string" where
  "generateCustomerNumber db tenantId attempt =
     numbered ''CUS-'' 6 (count_where (\<lambda>c. c_tenantId c = tenantId) (customers db) + 1 + attempt)"

definition new_customer :: "id \<Rightarrow> id \<Rightarrow> create_customer_input \<Rightarrow> string \<Rightarrow> customer" where
  "new_customer newId tenantId inp customerNumber =
     \<lparr>c_id = newId, c_tenantId = tenantId, c_customerNumber = customerNumber,
      c_fullName = cc_fullName inp, c_email = cc_email inp, c_phone = cc_phone inp,
      c_idNumber = cc_idNumber inp, c_address = cc_address inp,
      c_connectionType = cc_connectionType inp, c_branchId = cc_branchId inp,
      c_userId = cc_userId inp, c_status = C_PENDING, c_notes = None, c_deletedAt = None,
      c_referralCode = None, c_referredById = None, c_referralRewardedAt = None\<rparr>"

definition insert_customer ::
  "id \<Rightarrow> create_customer_input \<Rightarrow> string \<Rightarrow> 'x billing_db_scheme \<Rightarrow> (customer \<times> 'x billing_db_scheme) result" where
  "insert_customer tenantId inp customerNumber db =
     (if (\<exists>c \<in> set (customers db). c_tenantId c = tenantId \<and> c_customerNumber c = customerNumber)
         \<or> (cc_userId inp \<noteq> None \<and> (\<exists>c \<in> set (customers db). c_userId c = cc_userId inp))
      then Inl UniqueViolation
      else
        let row = new_customer (nextId db) tenantId inp customerNumber;
            w = \<lparr>w_id = nextId db + 1, w_customerId = c_id row, w_balanceMinor = 0, w_currency = ''KES''\<rparr>
        in Inr (row, db\<lparr>customers := customers db @ [row], wallets := wallets db @ [w], nextId := nextId db + 2\<rparr>))"

definition createCustomer ::
  "id \<Rightarrow> create_customer_input \<Rightarrow> 'x billing_db_scheme \<Rightarrow> (customer \<times> 'x billing_db_scheme) result" where
  "createCustomer tenantId inp db =
     withRetryOnNumberCollision (generateCustomerNumber db tenantId)
       (\<lambda>customerNumber. insert_customer tenantId inp customerNumber db) 5"

definition getCustomerOrThrow :: "id \<Rightarrow> id \<Rightarrow> 'x billing_db_scheme \<Rightarrow> customer result" where
  "getCustomerOrThrow tenantId customerId db =
     (case List.find (\<lambda>c. c_id c = customerId \<and> c_tenantId c = tenantId \<and> c_deletedAt c = None) (customers db) of
        None \<Rightarrow> Inl (NotFoundError ''Customer'')
      | Some c \<Rightarrow> Inr c)"

definition update_customer :: "id \<Rightarrow> (customer \<Rightarrow> customer) \<Rightarrow> 'x billing_db_scheme \<Rightarrow> 'x billing_db_scheme" where
  "update_customer i f db = db\<lparr>customers := update_where (\<lambda>r. c_id r = i) f (customers db)\<rparr>"

text \<open>A field left out of the input stays; \<open>Some None\<close> sets a nullable one to null.\<close>

definition keep :: "'a option \<Rightarrow> 'a \<Rightarrow> 'a" where
  "keep change old = (case change of None \<Rightarrow> old | Some v \<Rightarrow> v)"

record update_customer_input =
  uc_fullName :: "string option"
  uc_email :: "string option option"
  uc_phone :: "string option"
  uc_idNumber :: "string option option"
  uc_address :: "string option option"
  uc_connectionType :: "string option option"
  uc_notes :: "string option option"

definition apply_customer_input :: "update_customer_input \<Rightarrow> customer \<Rightarrow> customer" where
  "apply_customer_input inp c =
     c\<lparr>c_fullName := keep (uc_fullName inp) (c_fullName c), c_email := keep (uc_email inp) (c_email c),
       c_phone := keep (uc_phone inp) (c_phone c), c_idNumber := keep (uc_idNumber inp) (c_idNumber c),
       c_address := keep (uc_address inp) (c_address c),
       c_connectionType := keep (uc_connectionType inp) (c_connectionType c),
       c_notes := keep (uc_notes inp) (c_notes c)\<rparr>"

definition updateCustomer ::
  "id \<Rightarrow> id \<Rightarrow> update_customer_input \<Rightarrow> 'x billing_db_scheme \<Rightarrow> (customer \<times> 'x billing_db_scheme) result" where
  "updateCustomer tenantId customerId inp db =
     (case getCustomerOrThrow tenantId customerId db of
        Inl e \<Rightarrow> Inl e
      | Inr c \<Rightarrow> Inr (apply_customer_input inp c, update_customer customerId (apply_customer_input inp) db))"

definition changeCustomerStatus ::
  "id \<Rightarrow> id \<Rightarrow> customer_status \<Rightarrow> 'x billing_db_scheme \<Rightarrow> (customer \<times> 'x billing_db_scheme) result" where
  "changeCustomerStatus tenantId customerId status db =
     (case getCustomerOrThrow tenantId customerId db of
        Inl e \<Rightarrow> Inl e
      | Inr c \<Rightarrow> Inr (c\<lparr>c_status := status\<rparr>, update_customer customerId (\<lambda>c. c\<lparr>c_status := status\<rparr>) db))"

text \<open>The accounts are in the sign-in tables. Writing a userId another customer has is refused.\<close>

definition linkCustomerToUserAccount ::
  "id \<Rightarrow> id \<Rightarrow> string \<Rightarrow> 'y auth_db_scheme \<Rightarrow> 'x billing_db_scheme \<Rightarrow> (customer \<times> 'x billing_db_scheme) result" where
  "linkCustomerToUserAccount tenantId customerId userEmail auth db =
     (case getCustomerOrThrow tenantId customerId db of
        Inl e \<Rightarrow> Inl e
      | Inr c \<Rightarrow>
          if c_userId c \<noteq> None then Inl (ConflictError ''This customer already has a linked login account'')
          else (case find_user (Some tenantId) (map to_lower (trim userEmail)) auth of
              None \<Rightarrow> Inl (NotFoundError ''A user with this email in this tenant'')
            | Some user \<Rightarrow>
                if \<exists>x \<in> set (customers db). c_tenantId x = tenantId \<and> c_userId x = Some (ua_id user)
                then Inl (ConflictError ''This login account is already linked to a different customer'')
                else if \<exists>x \<in> set (customers db). c_userId x = Some (ua_id user) then Inl UniqueViolation
                else Inr (c\<lparr>c_userId := Some (ua_id user)\<rparr>,
                       update_customer customerId (\<lambda>c. c\<lparr>c_userId := Some (ua_id user)\<rparr>) db)))"

section \<open>Packages\<close>

record create_package_input =
  cp_name :: string
  cp_description :: "string option"
  cp_downloadKbps :: int
  cp_uploadKbps :: int
  cp_burstDownloadKbps :: "int option"
  cp_burstUploadKbps :: "int option"
  cp_dataCapMb :: "int option"
  cp_billingCycle :: billing_cycle
  cp_durationDays :: "int option"
  cp_priceMinor :: minor
  cp_currency :: "string option"
  cp_installationFeeMinor :: "minor option"
  cp_activationFeeMinor :: "minor option"
  cp_taxPercent :: "int option"

definition createPackage ::
  "id \<Rightarrow> create_package_input \<Rightarrow> 'x billing_db_scheme \<Rightarrow> (package \<times> 'x billing_db_scheme) result" where
  "createPackage tenantId inp db =
     (if cp_priceMinor inp < 0 then Inl (ValidationError ''priceMinor cannot be negative'')
      else (case cycleLengthDays (cp_billingCycle inp) (cp_durationDays inp) of
          Inl e \<Rightarrow> Inl e
        | Inr _ \<Rightarrow>
            let row = \<lparr>k_id = nextId db, k_tenantId = tenantId, k_name = cp_name inp, k_description = cp_description inp,
                  k_downloadKbps = cp_downloadKbps inp, k_uploadKbps = cp_uploadKbps inp,
                  k_burstDownloadKbps = cp_burstDownloadKbps inp, k_burstUploadKbps = cp_burstUploadKbps inp,
                  k_dataCapMb = cp_dataCapMb inp, k_billingCycle = cp_billingCycle inp,
                  k_durationDays = cp_durationDays inp, k_priceMinor = cp_priceMinor inp,
                  k_currency = (case cp_currency inp of Some c \<Rightarrow> c | None \<Rightarrow> ''KES''),
                  k_installationFeeMinor = (case cp_installationFeeMinor inp of Some f \<Rightarrow> f | None \<Rightarrow> 0),
                  k_activationFeeMinor = (case cp_activationFeeMinor inp of Some f \<Rightarrow> f | None \<Rightarrow> 0),
                  k_taxPercent = cp_taxPercent inp, k_isActive = True, k_deletedAt = None\<rparr>
            in Inr (row, db\<lparr>packages := packages db @ [row], nextId := nextId db + 1\<rparr>)))"

definition getPackageOrThrow :: "id \<Rightarrow> id \<Rightarrow> 'x billing_db_scheme \<Rightarrow> package result" where
  "getPackageOrThrow tenantId packageId db =
     (case List.find (\<lambda>k. k_id k = packageId \<and> k_tenantId k = tenantId \<and> k_deletedAt k = None) (packages db) of
        None \<Rightarrow> Inl (NotFoundError ''Package'')
      | Some k \<Rightarrow> Inr k)"

definition update_package :: "id \<Rightarrow> (package \<Rightarrow> package) \<Rightarrow> 'x billing_db_scheme \<Rightarrow> 'x billing_db_scheme" where
  "update_package i f db = db\<lparr>packages := update_where (\<lambda>r. k_id r = i) f (packages db)\<rparr>"

record update_package_input =
  up_name :: "string option"
  up_description :: "string option option"
  up_downloadKbps :: "int option"
  up_uploadKbps :: "int option"
  up_burstDownloadKbps :: "int option option"
  up_burstUploadKbps :: "int option option"
  up_dataCapMb :: "int option option"
  up_priceMinor :: "minor option"
  up_currency :: "string option"
  up_installationFeeMinor :: "minor option"
  up_activationFeeMinor :: "minor option"
  up_taxPercent :: "int option option"

definition apply_package_input :: "update_package_input \<Rightarrow> package \<Rightarrow> package" where
  "apply_package_input inp k =
     k\<lparr>k_name := keep (up_name inp) (k_name k), k_description := keep (up_description inp) (k_description k),
       k_downloadKbps := keep (up_downloadKbps inp) (k_downloadKbps k),
       k_uploadKbps := keep (up_uploadKbps inp) (k_uploadKbps k),
       k_burstDownloadKbps := keep (up_burstDownloadKbps inp) (k_burstDownloadKbps k),
       k_burstUploadKbps := keep (up_burstUploadKbps inp) (k_burstUploadKbps k),
       k_dataCapMb := keep (up_dataCapMb inp) (k_dataCapMb k),
       k_priceMinor := keep (up_priceMinor inp) (k_priceMinor k), k_currency := keep (up_currency inp) (k_currency k),
       k_installationFeeMinor := keep (up_installationFeeMinor inp) (k_installationFeeMinor k),
       k_activationFeeMinor := keep (up_activationFeeMinor inp) (k_activationFeeMinor k),
       k_taxPercent := keep (up_taxPercent inp) (k_taxPercent k)\<rparr>"

definition updatePackage ::
  "id \<Rightarrow> id \<Rightarrow> update_package_input \<Rightarrow> 'x billing_db_scheme \<Rightarrow> (package \<times> 'x billing_db_scheme) result" where
  "updatePackage tenantId packageId inp db =
     (case getPackageOrThrow tenantId packageId db of
        Inl e \<Rightarrow> Inl e
      | Inr k \<Rightarrow> Inr (apply_package_input inp k, update_package packageId (apply_package_input inp) db))"

definition setPackageActive ::
  "id \<Rightarrow> id \<Rightarrow> bool \<Rightarrow> 'x billing_db_scheme \<Rightarrow> (package \<times> 'x billing_db_scheme) result" where
  "setPackageActive tenantId packageId isActive db =
     (case getPackageOrThrow tenantId packageId db of
        Inl e \<Rightarrow> Inl e
      | Inr k \<Rightarrow> Inr (k\<lparr>k_isActive := isActive\<rparr>, update_package packageId (\<lambda>k. k\<lparr>k_isActive := isActive\<rparr>) db))"

section \<open>Every customer has a number and one empty wallet\<close>

definition customers_ok :: "'x billing_db_scheme \<Rightarrow> bool" where
  "customers_ok db \<longleftrightarrow>
     numbers_dense c_tenantId c_customerNumber (numbered ''CUS-'' 6) (customers db) \<and>
     distinct (map c_id (customers db)) \<and> (\<forall>c \<in> set (customers db). c_id c < nextId db) \<and>
     w_customerId ` set (wallets db) \<subseteq> c_id ` set (customers db) \<and> wallet_ok db"

lemma getCustomerD:
  "getCustomerOrThrow t i db = Inr c \<Longrightarrow> c \<in> set (customers db) \<and> c_id c = i \<and> c_tenantId c = t \<and> c_deletedAt c = None"
  by (auto simp: getCustomerOrThrow_def split: option.splits dest: find_SomeD)

lemma getPackageD:
  "getPackageOrThrow t i db = Inr k \<Longrightarrow> k \<in> set (packages db) \<and> k_id k = i \<and> k_tenantId k = t \<and> k_deletedAt k = None"
  by (auto simp: getPackageOrThrow_def split: option.splits dest: find_SomeD)

lemma update_customer_ok:
  assumes "customers_ok db"
    and "\<And>c. c_id (f c) = c_id c \<and> c_tenantId (f c) = c_tenantId c \<and> c_customerNumber (f c) = c_customerNumber c"
  shows "customers_ok (update_customer i f db)"
proof -
  have m: "map c_id (update_where p f (customers db)) = map c_id (customers db)" for p
    using assms(2) by (intro map_update_where) simp
  then have s: "c_id ` set (update_where p f (customers db)) = c_id ` set (customers db)" for p
    by (metis set_map)
  have "\<forall>c \<in> set (update_where p f (customers db)). c_id c < nextId db" for p
    using assms unfolding customers_ok_def by (auto simp: set_update_where)
  then show ?thesis
    using assms customer_numbers.update_numbered [of "customers db" f]
    unfolding customers_ok_def update_customer_def by (auto simp: m s intro: wallet_ok_cong)
qed

lemma insert_customer_next:
  fixes db :: "'x billing_db_scheme"
  assumes ok: "customers_ok db" and free: "cc_userId inp = None \<or> cc_userId inp \<notin> c_userId ` set (customers db)"
    and c: "c = new_customer (nextId db) t inp (generateCustomerNumber db t 0)"
  shows "createCustomer t inp db
      = Inr (c, db\<lparr>customers := customers db @ [c],
          wallets := wallets db @ [\<lparr>w_id = nextId db + 1, w_customerId = c_id c, w_balanceMinor = 0, w_currency = ''KES''\<rparr>],
          nextId := nextId db + 2\<rparr>)"
proof -
  have dense: "numbers_dense c_tenantId c_customerNumber (numbered ''CUS-'' 6) (customers db)"
    using ok by (simp add: customers_ok_def)
  have a: "\<not> (\<exists>c \<in> set (customers db). c_tenantId c = t \<and> c_customerNumber c = generateCustomerNumber db t 0)"
    using customer_numbers.next_number_free [OF dense] by (auto simp: generateCustomerNumber_def)
  have b: "\<not> (cc_userId inp \<noteq> None \<and> (\<exists>c \<in> set (customers db). c_userId c = cc_userId inp))"
    using free by force
  show ?thesis
    unfolding createCustomer_def
    by (rule retry_first) (simp_all only: insert_customer_def a b c Let_def if_False simp_thms zero_less_numeral)
qed

text \<open>
  Creating a customer, with no login account or with one nobody else is linked to, always
  succeeds in a database whose customer numbers run without gaps: the new customer gets the
  tenant's next number and a wallet with nothing in it, nobody else's wallet or record changes,
  and numbers and wallets stay in order.
\<close>

theorem createCustomer_numbered_with_wallet:
  fixes db :: "'x billing_db_scheme"
  assumes ok: "customers_ok db" and free: "cc_userId inp = None \<or> cc_userId inp \<notin> c_userId ` set (customers db)"
  shows "case createCustomer t inp db of
      Inl _ \<Rightarrow> False
    | Inr (c, db') \<Rightarrow> customers_ok db' \<and> customers db' = customers db @ [c]
        \<and> c_tenantId c = t \<and> c_status c = C_PENDING \<and> c_userId c = cc_userId inp
        \<and> c_customerNumber c = numbered ''CUS-'' 6 (count_where (\<lambda>x. c_tenantId x = t) (customers db) + 1)
        \<and> walletBalance db' = walletBalance db \<and> walletBalance db' (c_id c) = 0
        \<and> count_where (\<lambda>w. w_customerId w = c_id c) (wallets db') = 1"
proof -
  define c where "c = new_customer (nextId db) t inp (generateCustomerNumber db t 0)"
  let ?w = "\<lparr>w_id = nextId db + 1, w_customerId = c_id c, w_balanceMinor = 0, w_currency = ''KES''\<rparr>"
  let ?db = "db\<lparr>customers := customers db @ [c], wallets := wallets db @ [?w], nextId := nextId db + 2\<rparr>"
  note run = insert_customer_next [OF ok free c_def]
  have c: "c_id c = nextId db" "c_tenantId c = t" "c_customerNumber c = generateCustomerNumber db t 0"
    "c_status c = C_PENDING" "c_userId c = cc_userId inp"
    by (simp_all add: c_def new_customer_def)
  have below: "w_customerId w < nextId db" if "w \<in> set (wallets db)" for w
    using ok that unfolding customers_ok_def by fastforce
  have nowallet: "w_customerId w \<noteq> c_id c" if "w \<in> set (wallets db)" for w
    using below [OF that] c(1) by simp
  have bal: "walletBalance ?db = walletBalance db"
    using nowallet by (force simp: walletBalance_def find_append fun_eq_iff split: option.splits dest: find_SomeD)
  have zero: "walletBalance ?db (c_id c) = 0"
    using nowallet unfolding bal by (auto simp: walletBalance_def split: option.splits dest: find_SomeD)
  have one: "count_where (\<lambda>w. w_customerId w = c_id c) (wallets ?db) = 1"
    using nowallet by (auto simp: count_where_def filter_empty_conv)
  have fresh: "ledger_total (nextId db + 1) (walletTxns db) = 0"
    using ok unfolding customers_ok_def wallet_ok_def by (intro ledger_total_none) fastforce
  have "wallet_ok ?db"
    using ok fresh below c(1) unfolding customers_ok_def wallet_ok_def by (fastforce simp: less_imp_neq)
  moreover have "numbers_dense c_tenantId c_customerNumber (numbered ''CUS-'' 6) (customers db @ [c])"
    using ok c by (intro customer_numbers.append_numbered) (simp_all add: customers_ok_def generateCustomerNumber_def)
  ultimately have "customers_ok ?db"
    using ok c(1) unfolding customers_ok_def by fastforce
  then show ?thesis using run c bal zero one by (simp add: generateCustomerNumber_def)
qed

definition sample_customer_input :: create_customer_input where
  "sample_customer_input = \<lparr>cc_fullName = ''Wanjiku'', cc_email = None, cc_phone = ''0712345678'', cc_idNumber = None,
     cc_address = None, cc_connectionType = None, cc_userId = Some 9, cc_branchId = None\<rparr>"

lemma empty_customers_ok: "customers_ok empty_db"
  by (simp add: customers_ok_def wallet_ok_def numbers_dense_def count_where_def empty_db_def)

theorem createCustomer_numbered_with_wallet_witness:
  "case createCustomer 7 sample_customer_input empty_db of
      Inl _ \<Rightarrow> False
    | Inr (c, db') \<Rightarrow> c_customerNumber c = ''CUS-000001'' \<and> walletBalance db' (c_id c) = 0"
proof -
  have n: "numbered ''CUS-'' 6 (Suc 0) = ''CUS-000001''"
    by (simp add: numbered_def pad_start_def nat_to_string.simps digit_char_def numeral_eq_Suc)
  have "case createCustomer 7 sample_customer_input empty_db of
      Inl _ \<Rightarrow> False
    | Inr (c, db') \<Rightarrow> customers_ok db' \<and> customers db' = customers empty_db @ [c]
        \<and> c_tenantId c = 7 \<and> c_status c = C_PENDING \<and> c_userId c = cc_userId sample_customer_input
        \<and> c_customerNumber c = numbered ''CUS-'' 6 (count_where (\<lambda>x. c_tenantId x = 7) (customers empty_db) + 1)
        \<and> walletBalance db' = walletBalance empty_db \<and> walletBalance db' (c_id c) = 0
        \<and> count_where (\<lambda>w. w_customerId w = c_id c) (wallets db') = 1"
    by (rule createCustomer_numbered_with_wallet) (simp_all add: empty_customers_ok, simp add: empty_db_def)
  then show ?thesis by (auto simp: n count_where_def empty_db_def split: sum.splits)
qed

end
