(* ===== verification/Subscriptions.thy ===== *)
theory Subscriptions imports Complex_Main BillingCycle Customers begin

text \<open>
  packages/billing/src/subscription.service.ts and pause.service.ts: the life of a subscription
  from sale to cancellation, and pausing it. \<open>queueNetworkChange\<close> swallows every failure of
  queueing, so here it only appends to the outbox; the provisioning engine that takes the work
  from there is in Provisioning. A tenant's pause preferences are an argument.
\<close>

section \<open>Subscribing, changing, cancelling\<close>

definition queueNetworkChange :: "id \<Rightarrow> id \<Rightarrow> network_op \<Rightarrow> 'x billing_db_scheme \<Rightarrow> 'x billing_db_scheme" where
  "queueNetworkChange tenantId customerServiceId operation db =
     db\<lparr>outbox := outbox db @ [NetworkChange tenantId customerServiceId operation]\<rparr>"

record subscribe_input =
  si_customerId :: id
  si_packageId :: id
  si_startDate :: "time option"
  si_priceOverrideMinor :: "minor option"
  si_autoRenew :: "bool option"

record subscribe_result =
  sr_subscription :: service
  sr_invoiceId :: id
  sr_radiusUsername :: string
  sr_radiusPassword :: string

definition new_subscription :: "id \<Rightarrow> id \<Rightarrow> subscribe_input \<Rightarrow> customer \<Rightarrow> package \<Rightarrow> time \<Rightarrow> time \<Rightarrow> service" where
  "new_subscription newId tenantId inp customer pkg startDate nextBillingAt =
     \<lparr>s_id = newId, s_tenantId = tenantId, s_customerId = c_id customer,
      s_packageId = k_id pkg, s_status = S_ACTIVE, s_priceOverrideMinor = si_priceOverrideMinor inp,
      s_startDate = startDate, s_nextBillingAt = nextBillingAt,
      s_autoRenew = (case si_autoRenew inp of Some b \<Rightarrow> b | None \<Rightarrow> True),
      s_cancelledAt = None, s_pausedUntil = None, s_provisioningStatus = PS_PENDING\<rparr>"

text \<open>The body of the transaction. The password drawn and its encryption are arguments.\<close>

definition subscribe_tx ::
  "(string \<Rightarrow> string) \<Rightarrow> string \<Rightarrow> id \<Rightarrow> subscribe_input \<Rightarrow> customer \<Rightarrow> package \<Rightarrow> tenant \<Rightarrow> time \<Rightarrow> time \<Rightarrow>
     'x billing_db_scheme \<Rightarrow> (subscribe_result \<times> 'x billing_db_scheme) result" where
  "subscribe_tx encryptAtRest password tenantId inp customer pkg ten startDate nextBillingAt db =
     (let subscription = new_subscription (nextId db) tenantId inp customer pkg startDate nextBillingAt;
          db1 = db\<lparr>services := services db @ [subscription], nextId := nextId db + 1\<rparr>
      in case createFirstInvoiceForSubscription subscription pkg db1 of
           Inl e \<Rightarrow> Inl e
         | Inr (bill, db2) \<Rightarrow>
             (case provisionRadiusUser encryptAtRest password
                \<lparr>pr_tenantId = tenantId, pr_tenantSlug = t_slug ten, pr_customerId = c_id customer,
                 pr_customerServiceId = s_id subscription, pr_customerNumber = c_customerNumber customer,
                 pr_downloadKbps = k_downloadKbps pkg, pr_uploadKbps = k_uploadKbps pkg, pr_connectionType = None\<rparr> db2 of
                Inl e \<Rightarrow> Inl e
              | Inr ((_, plaintextPassword), db3) \<Rightarrow>
                  Inr (\<lparr>sr_subscription = subscription, sr_invoiceId = i_id bill,
                        sr_radiusUsername = buildRadiusUsername (t_slug ten) (c_customerNumber customer),
                        sr_radiusPassword = plaintextPassword\<rparr>, db3)))"

definition subscribeCustomerToPackage ::
  "(string \<Rightarrow> string) \<Rightarrow> string \<Rightarrow> id \<Rightarrow> subscribe_input \<Rightarrow> 'x billing_db_scheme \<Rightarrow>
     subscribe_result result \<times> 'x billing_db_scheme" where
  "subscribeCustomerToPackage encryptAtRest password tenantId inp db =
     (case getCustomerOrThrow tenantId (si_customerId inp) db of
        Inl e \<Rightarrow> (Inl e, db)
      | Inr customer \<Rightarrow>
     (case getPackageOrThrow tenantId (si_packageId inp) db of
        Inl e \<Rightarrow> (Inl e, db)
      | Inr pkg \<Rightarrow>
     (case List.find (\<lambda>t. t_id t = tenantId) (tenants db) of
        None \<Rightarrow> (Inl RecordNotFound, db)
      | Some ten \<Rightarrow>
          if \<not> k_isActive pkg then (Inl (ConflictError ''Cannot subscribe a customer to an inactive package''), db)
          else
            let startDate = (case si_startDate inp of Some d \<Rightarrow> d | None \<Rightarrow> clock db)
            in case cycleLengthDays (k_billingCycle pkg) (k_durationDays pkg) of
                 Inl e \<Rightarrow> (Inl e, db)
               | Inr cycleDays \<Rightarrow>
                   (case subscribe_tx encryptAtRest password tenantId inp customer pkg ten startDate
                      (addDays startDate cycleDays) db of
                      Inl e \<Rightarrow> (Inl e, db)
                    | Inr (created, db') \<Rightarrow>
                        (Inr created, queueNetworkChange tenantId (s_id (sr_subscription created)) PROVISION db')))))"

definition getSubscriptionOrThrow :: "id \<Rightarrow> id \<Rightarrow> 'x billing_db_scheme \<Rightarrow> service result" where
  "getSubscriptionOrThrow tenantId subscriptionId db =
     (case List.find (\<lambda>s. s_id s = subscriptionId \<and> s_tenantId s = tenantId) (services db) of
        None \<Rightarrow> Inl (NotFoundError ''Subscription'')
      | Some s \<Rightarrow> Inr s)"

definition changeSubscriptionPackage ::
  "id \<Rightarrow> id \<Rightarrow> id \<Rightarrow> 'x billing_db_scheme \<Rightarrow> service result \<times> 'x billing_db_scheme" where
  "changeSubscriptionPackage tenantId subscriptionId newPackageId db =
     (case getSubscriptionOrThrow tenantId subscriptionId db of
        Inl e \<Rightarrow> (Inl e, db)
      | Inr subscription \<Rightarrow>
          if s_status subscription = S_CANCELLED
          then (Inl (ConflictError ''A cancelled subscription cannot change package''), db)
          else if s_packageId subscription = newPackageId
          then (Inl (ConflictError ''This subscription is already on that package''), db)
          else (case getPackageOrThrow tenantId newPackageId db of
              Inl e \<Rightarrow> (Inl e, db)
            | Inr pkg \<Rightarrow>
                if \<not> k_isActive pkg
                then (Inl (ConflictError ''Cannot move a subscription onto an inactive package''), db)
                else
                  let db1 = update_service subscriptionId (\<lambda>s. s\<lparr>s_packageId := newPackageId\<rparr>) db;
                      db2 = update_service subscriptionId (\<lambda>s. s\<lparr>s_provisioningStatus := PS_PENDING\<rparr>) db1
                  in (Inr (subscription\<lparr>s_packageId := newPackageId\<rparr>),
                      queueNetworkChange tenantId subscriptionId PROVISION db2)))"

definition cancelSubscription :: "id \<Rightarrow> id \<Rightarrow> 'x billing_db_scheme \<Rightarrow> service result \<times> 'x billing_db_scheme" where
  "cancelSubscription tenantId subscriptionId db =
     (case getSubscriptionOrThrow tenantId subscriptionId db of
        Inl e \<Rightarrow> (Inl e, db)
      | Inr subscription \<Rightarrow>
          if s_status subscription = S_CANCELLED then (Inl (ConflictError ''Subscription is already cancelled''), db)
          else
            let cancel = (\<lambda>s. s\<lparr>s_status := S_CANCELLED, s_autoRenew := False, s_cancelledAt := Some (clock db)\<rparr>)
            in (Inr (cancel subscription),
                queueNetworkChange tenantId subscriptionId DEPROVISION (update_service subscriptionId cancel db)))"

text \<open>A missing network account (a 404) is passed over; any other failure is thrown.\<close>

definition is_404 :: "app_error \<Rightarrow> bool" where
  "is_404 err \<longleftrightarrow> isAppError err \<and> (case app_error_code err of Some (_, status) \<Rightarrow> status = 404 | None \<Rightarrow> False)"

definition tolerate_404 ::
  "(radius_user \<times> 'x billing_db_scheme) result \<Rightarrow> 'x billing_db_scheme \<Rightarrow> unit result \<times> 'x billing_db_scheme" where
  "tolerate_404 r db =
     (case r of Inr (_, db') \<Rightarrow> (Inr (), db') | Inl err \<Rightarrow> (if is_404 err then (Inr (), db) else (Inl err, db)))"

definition suspendSubscription :: "id \<Rightarrow> id \<Rightarrow> 'x billing_db_scheme \<Rightarrow> service result \<times> 'x billing_db_scheme" where
  "suspendSubscription tenantId subscriptionId db =
     (case getSubscriptionOrThrow tenantId subscriptionId db of
        Inl e \<Rightarrow> (Inl e, db)
      | Inr subscription \<Rightarrow>
          if s_status subscription \<noteq> S_ACTIVE then (Inl (ConflictError ''Only an ACTIVE subscription can be suspended''), db)
          else
            let db1 = update_service subscriptionId (\<lambda>s. s\<lparr>s_status := S_SUSPENDED\<rparr>) db
            in case tolerate_404 (suspendRadiusUser tenantId subscriptionId db1) db1 of
                 (Inl e, db2) \<Rightarrow> (Inl e, db2)
               | (Inr _, db2) \<Rightarrow> (Inr (subscription\<lparr>s_status := S_SUSPENDED\<rparr>),
                   queueNetworkChange tenantId subscriptionId SUSPEND db2))"

definition reactivateSubscription :: "id \<Rightarrow> id \<Rightarrow> 'x billing_db_scheme \<Rightarrow> service result \<times> 'x billing_db_scheme" where
  "reactivateSubscription tenantId subscriptionId db =
     (case getSubscriptionOrThrow tenantId subscriptionId db of
        Inl e \<Rightarrow> (Inl e, db)
      | Inr subscription \<Rightarrow>
          if s_status subscription \<noteq> S_SUSPENDED then (Inl (ConflictError ''Only a SUSPENDED subscription can be reactivated''), db)
          else
            let db1 = update_service subscriptionId (\<lambda>s. s\<lparr>s_status := S_ACTIVE\<rparr>) db
            in case tolerate_404 (reactivateRadiusUser tenantId subscriptionId db1) db1 of
                 (Inl e, db2) \<Rightarrow> (Inl e, db2)
               | (Inr _, db2) \<Rightarrow> (Inr (subscription\<lparr>s_status := S_ACTIVE\<rparr>),
                   queueNetworkChange tenantId subscriptionId RESTORE db2))"

section \<open>Pauses\<close>

record pause_preferences =
  pp_enabled :: bool
  pp_minDays :: int
  pp_maxDaysPerYear :: int

record pause_allowance =
  pa_enabled :: bool
  pa_minDays :: int
  pa_maxDaysPerYear :: int
  pa_usedDays :: int
  pa_remainingDays :: int

definition unusedPauseDays :: "int \<Rightarrow> time \<Rightarrow> time \<Rightarrow> int" where
  "unusedPauseDays plannedDays startsAt now =
     (let spent = max 0 ((now - startsAt) div day_ms) in max 0 (plannedDays - spent))"

definition getPauseAllowance :: "pause_preferences \<Rightarrow> id \<Rightarrow> 'x billing_db_scheme \<Rightarrow> pause_allowance" where
  "getPauseAllowance prefs customerServiceId db =
     (let usedDays = sum_where (\<lambda>p. sp_customerServiceId p = customerServiceId \<and> clock db - 365 * day_ms \<le> sp_startsAt p)
            sp_days (pauses db)
      in \<lparr>pa_enabled = pp_enabled prefs, pa_minDays = pp_minDays prefs, pa_maxDaysPerYear = pp_maxDaysPerYear prefs,
          pa_usedDays = usedDays, pa_remainingDays = max 0 (pp_maxDaysPerYear prefs - usedDays)\<rparr>)"

datatype pause_requester = by_customer | by_staff

definition requester_text :: "pause_requester \<Rightarrow> string" where
  "requester_text r = (case r of by_customer \<Rightarrow> ''customer'' | by_staff \<Rightarrow> ''staff'')"

definition overdue_count :: "id \<Rightarrow> id \<Rightarrow> 'x billing_db_scheme \<Rightarrow> nat" where
  "overdue_count tenantId customerId db =
     count_where (\<lambda>i. i_tenantId i = tenantId \<and> i_customerId i = customerId \<and> i_status i = I_OVERDUE) (invoices db)"

text \<open>\<open>days\<close> is any number, of which only an integer is accepted.\<close>

definition pause_checks ::
  "pause_allowance \<Rightarrow> rat \<Rightarrow> pause_requester \<Rightarrow> service \<Rightarrow> nat \<Rightarrow> app_error option" where
  "pause_checks allowance days requestedBy s overdue =
     (if \<not> pa_enabled allowance \<and> requestedBy = by_customer
      then Some (ConflictError ''Your provider does not offer pausing'')
      else if days \<noteq> of_int \<lfloor>days\<rfloor> \<or> days < of_int (pa_minDays allowance)
      then Some (ValidationError (''A pause is at least '' @ int_to_string (pa_minDays allowance) @ '' days''))
      else if requestedBy = by_customer \<and> days > of_int (pa_remainingDays allowance)
      then Some (ValidationError (''You can pause for up to '' @ int_to_string (pa_remainingDays allowance) @ '' more days this year''))
      else if overdue > 0 then Some (ConflictError ''Pay the overdue bill before pausing'')
      else None)"

definition pauseSubscription ::
  "pause_preferences \<Rightarrow> id \<Rightarrow> id \<Rightarrow> rat \<Rightarrow> pause_requester \<Rightarrow> 'x billing_db_scheme \<Rightarrow> service result \<times> 'x billing_db_scheme" where
  "pauseSubscription prefs tenantId customerServiceId days requestedBy db =
     (case List.find (\<lambda>s. s_id s = customerServiceId \<and> s_tenantId s = tenantId) (services db) of
        None \<Rightarrow> (Inl (NotFoundError ''Subscription''), db)
      | Some s \<Rightarrow>
          if s_status s \<noteq> S_ACTIVE then (Inl (ConflictError ''Only an active plan can be paused''), db)
          else (case pause_checks (getPauseAllowance prefs customerServiceId db) days requestedBy s
                       (overdue_count tenantId (s_customerId s) db) of
              Some e \<Rightarrow> (Inl e, db)
            | None \<Rightarrow>
                (case suspendSubscription tenantId customerServiceId db of
                   (Inl e, db1) \<Rightarrow>
                     (Inl e, db1\<lparr>services := update_where
                        (\<lambda>x. s_id x = customerServiceId \<and> s_status x = S_SUSPENDED \<and> s_pausedUntil x = None)
                        (\<lambda>x. x\<lparr>s_status := S_ACTIVE\<rparr>) (services db1)\<rparr>)
                 | (Inr suspended, db1) \<Rightarrow>
                     let n = \<lfloor>days\<rfloor>;
                         endsAt = clock db + n * day_ms;
                         move = (\<lambda>x. x\<lparr>s_pausedUntil := Some endsAt, s_nextBillingAt := s_nextBillingAt s + n * day_ms\<rparr>);
                         row = \<lparr>sp_id = nextId db1, sp_tenantId = tenantId, sp_customerServiceId = customerServiceId,
                           sp_startsAt = clock db, sp_endsAt = endsAt, sp_days = n,
                           sp_requestedBy = requester_text requestedBy, sp_resumedAt = None\<rparr>
                     in (Inr (move suspended),
                         (update_service customerServiceId move db1)
                           \<lparr>pauses := pauses db1 @ [row], nextId := nextId db1 + 1\<rparr>))))"

text \<open>The open pause that started last.\<close>

definition open_pause :: "id \<Rightarrow> 'x billing_db_scheme \<Rightarrow> service_pause option" where
  "open_pause customerServiceId db =
     (case sort_key (\<lambda>p. - sp_startsAt p)
        (filter (\<lambda>p. sp_customerServiceId p = customerServiceId \<and> sp_resumedAt p = None) (pauses db)) of
        [] \<Rightarrow> None | p # _ \<Rightarrow> Some p)"

definition resumeSubscription :: "id \<Rightarrow> id \<Rightarrow> 'x billing_db_scheme \<Rightarrow> service result \<times> 'x billing_db_scheme" where
  "resumeSubscription tenantId customerServiceId db =
     (case List.find (\<lambda>s. s_id s = customerServiceId \<and> s_tenantId s = tenantId) (services db) of
        None \<Rightarrow> (Inl (NotFoundError ''Subscription''), db)
      | Some s \<Rightarrow>
          (case s_pausedUntil s of
             None \<Rightarrow> (Inl (ConflictError ''This plan is not paused''), db)
           | Some pausedUntil \<Rightarrow>
               let now = clock db;
                   pause = open_pause customerServiceId db;
                   unusedDays = (case pause of
                       Some p \<Rightarrow> unusedPauseDays (sp_days p) (sp_startsAt p) now
                     | None \<Rightarrow> max 0 ((pausedUntil - now) div day_ms));
                   db1 = update_service customerServiceId
                     (\<lambda>x. x\<lparr>s_pausedUntil := None, s_nextBillingAt := s_nextBillingAt s - unusedDays * day_ms\<rparr>) db;
                   db2 = (case pause of
                       None \<Rightarrow> db1
                     | Some p \<Rightarrow> db1\<lparr>pauses := update_where (\<lambda>x. sp_id x = sp_id p)
                         (\<lambda>x. x\<lparr>sp_resumedAt := Some now, sp_days := max 0 (sp_days p - unusedDays)\<rparr>) (pauses db1)\<rparr>)
               in if s_status s = S_SUSPENDED \<and> overdue_count tenantId (s_customerId s) db2 = 0
                  then reactivateSubscription tenantId customerServiceId db2
                  else (case find_service customerServiceId db2 of
                      None \<Rightarrow> (Inl RecordNotFound, db2)
                    | Some row \<Rightarrow> (Inr row, db2))))"

record resume_result =
  rs_resumed :: nat
  rs_failed :: nat

fun resume_all :: "(id \<times> id) list \<Rightarrow> nat \<Rightarrow> nat \<Rightarrow> 'x billing_db_scheme \<Rightarrow> resume_result \<times> 'x billing_db_scheme" where
  "resume_all [] resumed failed db = (\<lparr>rs_resumed = resumed, rs_failed = failed\<rparr>, db)"
| "resume_all ((tenantId, i) # due) resumed failed db =
     (case resumeSubscription tenantId i db of
        (Inr _, db') \<Rightarrow> resume_all due (resumed + 1) failed db'
      | (Inl _, db') \<Rightarrow> resume_all due resumed (failed + 1) db')"

definition resumeDuePauses :: "'x billing_db_scheme \<Rightarrow> resume_result \<times> 'x billing_db_scheme" where
  "resumeDuePauses db =
     (let due = filter (\<lambda>s. case s_pausedUntil s of Some t \<Rightarrow> t \<le> clock db | None \<Rightarrow> False) (services db)
      in resume_all (map (\<lambda>s. (s_tenantId s, s_id s)) due) 0 0 db)"

section \<open>What the steps change\<close>

lemma queueNetworkChange_frame [simp, frame_simps]:
  "clock (queueNetworkChange t i c db) = clock db" "nextId (queueNetworkChange t i c db) = nextId db"
  "tenants (queueNetworkChange t i c db) = tenants db" "customers (queueNetworkChange t i c db) = customers db"
  "packages (queueNetworkChange t i c db) = packages db" "services (queueNetworkChange t i c db) = services db"
  "invoices (queueNetworkChange t i c db) = invoices db" "wallets (queueNetworkChange t i c db) = wallets db"
  "walletTxns (queueNetworkChange t i c db) = walletTxns db" "payments (queueNetworkChange t i c db) = payments db"
  "receipts (queueNetworkChange t i c db) = receipts db" "pauses (queueNetworkChange t i c db) = pauses db"
  "radiusUsers (queueNetworkChange t i c db) = radiusUsers db" "radChecks (queueNetworkChange t i c db) = radChecks db"
  "radReplies (queueNetworkChange t i c db) = radReplies db"
  "outbox (queueNetworkChange t i c db) = outbox db @ [NetworkChange t i c]"
  by (simp_all add: queueNetworkChange_def)

lemma retry_loop_from: "retry_loop cand cr a n e = Inr x \<Longrightarrow> \<exists>c. cr c = Inr x"
  by (induction n arbitrary: a e) (auto split: sum.splits if_splits)

lemma createInvoice_shape:
  assumes "createInvoice t c sid items tax due cur db = Inr (bill, db')"
  shows "db' = db\<lparr>invoices := invoices db @ [bill], nextId := nextId db + 1\<rparr> \<and> i_tenantId bill = t \<and> i_customerId bill = c
    \<and> i_customerServiceId bill = sid \<and> i_dueDate bill = due \<and> i_status bill = I_PENDING \<and> i_items bill = items"
  using assms unfolding createInvoice_def withRetryOnNumberCollision_def Let_def
  by (auto dest!: retry_loop_from simp: insert_invoice_def Let_def split: if_splits)

lemma provisionRadiusUser_shape:
  assumes "provisionRadiusUser enc pw inp db = Inr ((u, pw'), db')"
  shows "radiusUsers db' = radiusUsers db @ [u] \<and> services db' = services db \<and> invoices db' = invoices db
    \<and> customers db' = customers db \<and> packages db' = packages db \<and> pauses db' = pauses db \<and> clock db' = clock db
    \<and> wallets db' = wallets db \<and> walletTxns db' = walletTxns db \<and> tenants db' = tenants db
    \<and> outbox db' = outbox db \<and> nextId db' = nextId db + 1 \<and> pw' = pw
    \<and> ru_customerServiceId u = pr_customerServiceId inp \<and> ru_tenantId u = pr_tenantId inp
    \<and> ru_customerId u = pr_customerId inp \<and> ru_status u = R_ACTIVE
    \<and> ru_username u = buildRadiusUsername (pr_tenantSlug inp) (pr_customerNumber inp)"
  using assms by (auto simp: provisionRadiusUser_def Let_def split: if_splits)

text \<open>A successful sale, taken apart.\<close>

lemma subscribe_txE:
  fixes db :: "'x billing_db_scheme"
  assumes r: "subscribe_tx enc pw t inp customer pkg ten start due db = Inr (r, db')"
  obtains bill u and db2 :: "'x billing_db_scheme" where
    "sr_subscription r = new_subscription (nextId db) t inp customer pkg start due"
    "createFirstInvoiceForSubscription (sr_subscription r) pkg
       (db\<lparr>services := services db @ [sr_subscription r], nextId := nextId db + 1\<rparr>) = Inr (bill, db2)"
    "provisionRadiusUser enc pw
       \<lparr>pr_tenantId = t, pr_tenantSlug = t_slug ten, pr_customerId = c_id customer,
        pr_customerServiceId = s_id (sr_subscription r), pr_customerNumber = c_customerNumber customer,
        pr_downloadKbps = k_downloadKbps pkg, pr_uploadKbps = k_uploadKbps pkg, pr_connectionType = None\<rparr> db2
       = Inr ((u, pw), db')"
    "sr_invoiceId r = i_id bill" "sr_radiusPassword r = pw"
    "sr_radiusUsername r = buildRadiusUsername (t_slug ten) (c_customerNumber customer)"
proof -
  let ?s = "new_subscription (nextId db) t inp customer pkg start due"
  let ?db1 = "db\<lparr>services := services db @ [?s], nextId := nextId db + 1\<rparr>"
  let ?pi = "\<lparr>pr_tenantId = t, pr_tenantSlug = t_slug ten, pr_customerId = c_id customer,
        pr_customerServiceId = s_id ?s, pr_customerNumber = c_customerNumber customer,
        pr_downloadKbps = k_downloadKbps pkg, pr_uploadKbps = k_uploadKbps pkg, pr_connectionType = None\<rparr>"
  obtain bill and db2 :: "'x billing_db_scheme" where 1: "createFirstInvoiceForSubscription ?s pkg ?db1 = Inr (bill, db2)"
    using r by (auto simp: subscribe_tx_def Let_def split: sum.splits)
  obtain u pw' where 2: "provisionRadiusUser enc pw ?pi db2 = Inr ((u, pw'), db')"
    using r 1 by (auto simp: subscribe_tx_def Let_def split: sum.splits)
  have "pw' = pw" using provisionRadiusUser_shape [OF 2] by blast
  show thesis
    using r 1 2 \<open>pw' = pw\<close> by (intro that [of bill db2 u]) (auto simp: subscribe_tx_def Let_def)
qed

section \<open>A subscription and its network account agree\<close>

text \<open>
  Accounts belong to one subscription each, of the same tenant; an active subscription's account
  is active, a suspended one's is suspended, and the RADIUS rows agree with the accounts.
\<close>

definition agrees :: "service \<Rightarrow> radius_user \<Rightarrow> bool" where
  "agrees s u \<longleftrightarrow> ru_tenantId u = s_tenantId s
     \<and> (s_status s = S_ACTIVE \<longrightarrow> ru_status u = R_ACTIVE) \<and> (s_status s = S_SUSPENDED \<longrightarrow> ru_status u = R_SUSPENDED)"

definition access_ok :: "'x billing_db_scheme \<Rightarrow> bool" where
  "access_ok db \<longleftrightarrow> services_ok db \<and> radius_in_sync db
     \<and> (\<forall>s \<in> set (services db). s_id s < nextId db)
     \<and> distinct (map ru_customerServiceId (radiusUsers db))
     \<and> (\<forall>u \<in> set (radiusUsers db). ru_customerServiceId u < nextId db)
     \<and> (\<forall>s \<in> set (services db). \<forall>u \<in> set (radiusUsers db). ru_customerServiceId u = s_id s \<longrightarrow> agrees s u)"

lemma access_okD:
  assumes "access_ok db"
  shows "services_ok db" "radius_in_sync db" "distinct (map ru_customerServiceId (radiusUsers db))"
    "s \<in> set (services db) \<Longrightarrow> s_id s < nextId db" "u \<in> set (radiusUsers db) \<Longrightarrow> ru_customerServiceId u < nextId db"
    "s \<in> set (services db) \<Longrightarrow> u \<in> set (radiusUsers db) \<Longrightarrow> ru_customerServiceId u = s_id s \<Longrightarrow> agrees s u"
  using assms unfolding access_ok_def by blast+

text \<open>The network account's side of cutting or restoring access, when failures are passed over.\<close>

definition radius_after :: "radius_action \<Rightarrow> id \<Rightarrow> id \<Rightarrow> 'x billing_db_scheme \<Rightarrow> 'x billing_db_scheme" where
  "radius_after a t i db =
     (case (if a = suspend_access then suspendRadiusUser t i db else reactivateRadiusUser t i db) of
        Inl _ \<Rightarrow> db | Inr (_, d) \<Rightarrow> d)"

abbreviation service_target :: "radius_action \<Rightarrow> service_status" where
  "service_target a \<equiv> (if a = suspend_access then S_SUSPENDED else S_ACTIVE)"

abbreviation radius_target :: "radius_action \<Rightarrow> radius_status" where
  "radius_target a \<equiv> (if a = suspend_access then R_SUSPENDED else R_ACTIVE)"

lemma radius_after_frame [simp, frame_simps]:
  "clock (radius_after a t i db) = clock db" "nextId (radius_after a t i db) = nextId db"
  "tenants (radius_after a t i db) = tenants db" "customers (radius_after a t i db) = customers db"
  "packages (radius_after a t i db) = packages db" "services (radius_after a t i db) = services db"
  "invoices (radius_after a t i db) = invoices db" "wallets (radius_after a t i db) = wallets db"
  "walletTxns (radius_after a t i db) = walletTxns db" "pauses (radius_after a t i db) = pauses db"
  "payments (radius_after a t i db) = payments db"
  by (simp_all add: radius_after_def suspendRadiusUser_frame reactivateRadiusUser_frame split: sum.splits prod.splits)

lemma bestEffort_eq:
  "bestEffortRadiusSync t i a db = queueNetworkChange t i (if a = suspend_access then SUSPEND else RESTORE) (radius_after a t i db)"
  by (simp add: bestEffortRadiusSync_def radius_after_def queueNetworkChange_def Let_def)

lemma getRadiusUser_error:
  "getRadiusUserByCustomerServiceOrThrow t i db = Inl e \<Longrightarrow> is_404 e"
  by (auto simp: getRadiusUserByCustomerServiceOrThrow_def is_404_def split: option.splits)

lemma tolerate_404_eq:
  "tolerate_404 (suspendRadiusUser t i db) db = (Inr (), radius_after suspend_access t i db)"
  "tolerate_404 (reactivateRadiusUser t i db) db = (Inr (), radius_after reactivate_access t i db)"
  by (cases "getRadiusUserByCustomerServiceOrThrow t i db";
      simp add: tolerate_404_def radius_after_def suspendRadiusUser_def reactivateRadiusUser_def Let_def getRadiusUser_error)+

lemma radius_after_sync: "radius_in_sync db \<Longrightarrow> radius_in_sync (radius_after a t i db)"
  unfolding radius_after_def
  by (cases "if a = suspend_access then suspendRadiusUser t i db else reactivateRadiusUser t i db")
    (auto split: if_splits dest: suspendRadiusUser_sync reactivateRadiusUser_sync)

lemma radius_after_users:
  assumes ids: "distinct (map ru_id (radiusUsers db))" and one: "distinct (map ru_customerServiceId (radiusUsers db))"
  shows "radiusUsers (radius_after a t i db) =
    update_where (\<lambda>u. ru_tenantId u = t \<and> ru_customerServiceId u = i) (\<lambda>u. u\<lparr>ru_status := radius_target a\<rparr>) (radiusUsers db)"
proof (cases "List.find (\<lambda>u. ru_tenantId u = t \<and> ru_customerServiceId u = i) (radiusUsers db)")
  case None
  then have "update_where (\<lambda>u. ru_tenantId u = t \<and> ru_customerServiceId u = i) (\<lambda>u. u\<lparr>ru_status := radius_target a\<rparr>) (radiusUsers db)
      = radiusUsers db" by (intro update_where_none) (auto dest: find_NoneD)
  with None show ?thesis
    by (simp add: radius_after_def suspendRadiusUser_def reactivateRadiusUser_def getRadiusUserByCustomerServiceOrThrow_def)
next
  case (Some u)
  from find_SomeD [OF Some] have u: "u \<in> set (radiusUsers db)" "ru_tenantId u = t" "ru_customerServiceId u = i" by auto
  have same: "ru_id x = ru_id u \<longleftrightarrow> ru_tenantId x = t \<and> ru_customerServiceId x = i" if "x \<in> set (radiusUsers db)" for x
    using key_eq_rows [OF ids that u(1)] key_eq_rows [OF one that u(1)] u by auto
  have upd: "update_where (\<lambda>x. ru_tenantId x = t \<and> ru_customerServiceId x = i) f (radiusUsers db) =
      update_where (\<lambda>x. ru_id x = ru_id u) f (radiusUsers db)" for f
    using same by (intro update_where_cong) auto
  have idle: "update_where (\<lambda>x. ru_id x = ru_id u) (\<lambda>x. x\<lparr>ru_status := ru_status u\<rparr>) (radiusUsers db) = radiusUsers db"
    unfolding update_where_def by (intro map_idI) (use key_eq_rows [OF ids _ u(1)] in fastforce)
  have g: "getRadiusUserByCustomerServiceOrThrow t i db = Inr u"
    using Some by (simp add: getRadiusUserByCustomerServiceOrThrow_def)
  show ?thesis
    unfolding upd using g idle
    by (auto simp: radius_after_def suspendRadiusUser_def reactivateRadiusUser_def set_radius_status_def Let_def)
qed

text \<open>Setting a subscription's status together with its account, whatever else of the row changes.\<close>

lemma access_ok_set:
  assumes ok: "access_ok db"
    and f: "\<And>x. s_id (f x) = s_id x \<and> s_tenantId (f x) = s_tenantId x \<and> s_status (f x) = service_target a"
    and t: "\<And>x. x \<in> set (services db) \<Longrightarrow> s_id x = i \<Longrightarrow> s_tenantId x = t"
    and db': "services db' = update_where (\<lambda>x. s_id x = i) f (services db)"
      "radiusUsers db' = radiusUsers (radius_after a t i db)" "radius_in_sync db'" "nextId db' = nextId db"
  shows "access_ok db'"
proof -
  have m: "map s_id (services db') = map s_id (services db)" unfolding db' using f by (intro map_update_where) simp
  have users: "radiusUsers db' = update_where (\<lambda>u. ru_tenantId u = t \<and> ru_customerServiceId u = i)
      (\<lambda>u. u\<lparr>ru_status := radius_target a\<rparr>) (radiusUsers db)"
    unfolding db' using ok by (intro radius_after_users) (simp_all add: access_ok_def radius_in_sync_def)
  then have m': "map ru_customerServiceId (radiusUsers db') = map ru_customerServiceId (radiusUsers db)"
    by (simp add: map_update_where)
  have "agrees s u" if s: "s \<in> set (services db')" and u: "u \<in> set (radiusUsers db')" and e: "ru_customerServiceId u = s_id s" for s u
  proof -
    from s obtain s0 where s0: "s0 \<in> set (services db)" "s = (if s_id s0 = i then f s0 else s0)"
      unfolding db' update_where_def by auto
    from u obtain u0 where u0: "u0 \<in> set (radiusUsers db)"
      "u = (if ru_tenantId u0 = t \<and> ru_customerServiceId u0 = i then u0\<lparr>ru_status := radius_target a\<rparr> else u0)"
      unfolding users update_where_def by auto
    have ids: "s_id s = s_id s0" "ru_customerServiceId u = ru_customerServiceId u0" using s0 u0 f by auto
    then have old: "agrees s0 u0" using ok s0 u0 e by (simp add: access_ok_def)
    show ?thesis
      using old s0 u0 e ids f [of s0] t [OF s0(1)] by (auto simp: agrees_def split: if_splits)
  qed
  moreover have "\<forall>s \<in> set (services db'). s_id s < nextId db'" "\<forall>u \<in> set (radiusUsers db'). ru_customerServiceId u < nextId db'"
    using ok f by (auto simp: access_ok_def db'(1,4) users set_update_where)
  ultimately show ?thesis
    using ok m m' db'(3) by (simp add: access_ok_def services_ok_def)
qed

text \<open>Changes of the subscriptions that leave the accounts alone.\<close>

lemma access_ok_same:
  assumes ok: "access_ok db"
    and f: "\<And>x. s_id (f x) = s_id x \<and> s_tenantId (f x) = s_tenantId x
      \<and> (s_status (f x) = s_status x \<or> s_status (f x) = S_CANCELLED)"
    and db': "services db' = update_where p f (services db)" "radiusUsers db' = radiusUsers db"
      "radChecks db' = radChecks db" "nextId db \<le> nextId db'"
  shows "access_ok db'"
proof -
  have m: "map s_id (services db') = map s_id (services db)" unfolding db' using f by (intro map_update_where) simp
  have rows: "\<exists>s0 \<in> set (services db). s_id s0 = s_id s \<and> s_tenantId s0 = s_tenantId s \<and> (s_status s = s_status s0 \<or> s_status s = S_CANCELLED)"
    if "s \<in> set (services db')" for s
    using that f unfolding db' update_where_def by (force split: if_splits)
  have agr: "agrees s u" if s: "s \<in> set (services db')" and u: "u \<in> set (radiusUsers db)" and e: "ru_customerServiceId u = s_id s" for s u
  proof -
    from rows [OF s] obtain s0 where s0: "s0 \<in> set (services db)" "s_id s0 = s_id s" "s_tenantId s0 = s_tenantId s"
      "s_status s = s_status s0 \<or> s_status s = S_CANCELLED" by blast
    show ?thesis using access_okD(6) [OF ok s0(1) u] s0 e by (auto simp: agrees_def)
  qed
  have below: "s_id s < nextId db'" if "s \<in> set (services db')" for s
    using rows [OF that] access_okD(4) [OF ok] db'(4) by fastforce
  have sync: "radius_in_sync db'"
    by (rule radius_in_sync_cong [OF access_okD(2) [OF ok] db'(2,3,4)])
  have below': "ru_customerServiceId u < nextId db'" if "u \<in> set (radiusUsers db)" for u
    using access_okD(5) [OF ok that] db'(4) by simp
  have "services_ok db'" using access_okD(1) [OF ok] m by (simp add: services_ok_def)
  then show ?thesis
    unfolding access_ok_def db'(2) using agr below sync below' access_okD(3) [OF ok] by blast
qed

lemma access_ok_cong:
  "access_ok db \<Longrightarrow> services db' = services db \<Longrightarrow> radiusUsers db' = radiusUsers db \<Longrightarrow> radChecks db' = radChecks db \<Longrightarrow>
     nextId db \<le> nextId db' \<Longrightarrow> access_ok db'"
  by (rule access_ok_same [of db "\<lambda>x. x" db' "\<lambda>_. False"]) (simp_all add: update_where_def)

lemma access_ok_add:
  assumes ok: "access_ok db" and s: "s_id s = nextId db" and u: "ru_customerServiceId u = s_id s" "agrees s u"
    and db': "services db' = services db @ [s]" "radiusUsers db' = radiusUsers db @ [u]" "radius_in_sync db'" "nextId db < nextId db'"
  shows "access_ok db'"
proof -
  note old = access_okD [OF ok]
  have a: "s_id x \<noteq> nextId db" if "x \<in> set (services db)" for x using old(4) [OF that] by simp
  have b: "ru_customerServiceId x \<noteq> nextId db" if "x \<in> set (radiusUsers db)" for x using old(5) [OF that] by simp
  have "services_ok db'" "distinct (map ru_customerServiceId (radiusUsers db'))"
    using old(1,3) s u a b by (simp_all add: services_ok_def db') (metis imageE)+
  moreover have "s_id x < nextId db'" if "x \<in> set (services db')" for x
    using that old(4) [of x] s db'(4) by (auto simp: db'(1))
  moreover have "ru_customerServiceId x < nextId db'" if "x \<in> set (radiusUsers db')" for x
    using that old(5) [of x] s u db'(4) by (auto simp: db'(2))
  moreover have "agrees x y" if "x \<in> set (services db')" "y \<in> set (radiusUsers db')" "ru_customerServiceId y = s_id x" for x y
    using that old(6) [of x y] a [of x] b [of y] s u by (auto simp: db')
  ultimately show ?thesis
    unfolding access_ok_def using db'(3) by blast
qed

lemma subscribe_tx_access:
  assumes ok: "access_ok db" and r: "subscribe_tx enc pw t inp customer pkg ten start due db = Inr (r, db')"
  shows "access_ok db'"
proof -
  obtain bill u db2 where s: "sr_subscription r = new_subscription (nextId db) t inp customer pkg start due"
    and i: "createFirstInvoiceForSubscription (sr_subscription r) pkg
       (db\<lparr>services := services db @ [sr_subscription r], nextId := nextId db + 1\<rparr>) = Inr (bill, db2)"
    and p: "provisionRadiusUser enc pw
       \<lparr>pr_tenantId = t, pr_tenantSlug = t_slug ten, pr_customerId = c_id customer,
        pr_customerServiceId = s_id (sr_subscription r), pr_customerNumber = c_customerNumber customer,
        pr_downloadKbps = k_downloadKbps pkg, pr_uploadKbps = k_uploadKbps pkg, pr_connectionType = None\<rparr> db2
       = Inr ((u, pw), db')"
    by (rule subscribe_txE [OF r])
  have db2: "services db2 = services db @ [sr_subscription r]" "radiusUsers db2 = radiusUsers db"
    "radChecks db2 = radChecks db" "nextId db2 = nextId db + 2"
    using i by (auto simp: createFirstInvoiceForSubscription_def split: sum.splits dest!: createInvoice_shape)
  have "radius_in_sync db2"
    by (rule radius_in_sync_cong [OF access_okD(2) [OF ok] db2(2,3)]) (simp add: db2)
  from provisionRadiusUser_sync [OF this p] have sync: "radius_in_sync db'" by blast
  from provisionRadiusUser_shape [OF p] show ?thesis
    by (intro access_ok_add [OF ok, of "sr_subscription r" u db'])
      (auto simp: s new_subscription_def agrees_def db2 sync)
qed

lemma queueNetworkChange_access [simp]: "access_ok (queueNetworkChange t i c db) \<longleftrightarrow> access_ok db"
  unfolding access_ok_def services_ok_def radius_in_sync_def by simp

lemma subscribe_access:
  assumes "access_ok db"
  shows "access_ok (snd (subscribeCustomerToPackage enc pw t inp db))"
  using assms subscribe_tx_access [OF assms]
  by (auto simp: subscribeCustomerToPackage_def Let_def split: sum.splits option.splits)

lemma update_service_access:
  assumes "access_ok db" and "\<And>x. s_id (f x) = s_id x \<and> s_tenantId (f x) = s_tenantId x
      \<and> (s_status (f x) = s_status x \<or> s_status (f x) = S_CANCELLED)"
  shows "access_ok (update_service i f db)"
  by (rule access_ok_same [OF assms, where p = "\<lambda>x. s_id x = i"]) simp_all

lemma changePackage_access: "access_ok db \<Longrightarrow> access_ok (snd (changeSubscriptionPackage t i k db))"
  by (auto simp: changeSubscriptionPackage_def Let_def intro!: update_service_access split: sum.splits)

lemma cancel_access: "access_ok db \<Longrightarrow> access_ok (snd (cancelSubscription t i db))"
  by (auto simp: cancelSubscription_def Let_def intro!: update_service_access split: sum.splits)

text \<open>Cutting or restoring one subscription and its account.\<close>

definition switch :: "radius_action \<Rightarrow> id \<Rightarrow> id \<Rightarrow> 'x billing_db_scheme \<Rightarrow> 'x billing_db_scheme" where
  "switch a t i db =
     queueNetworkChange t i (if a = suspend_access then SUSPEND else RESTORE)
       (radius_after a t i (update_service i (\<lambda>s. s\<lparr>s_status := service_target a\<rparr>) db))"

lemma switch_frame [simp, frame_simps]:
  "clock (switch a t i db) = clock db" "nextId (switch a t i db) = nextId db" "customers (switch a t i db) = customers db"
  "packages (switch a t i db) = packages db" "invoices (switch a t i db) = invoices db" "pauses (switch a t i db) = pauses db"
  "services (switch a t i db) = update_where (\<lambda>s. s_id s = i) (\<lambda>s. s\<lparr>s_status := service_target a\<rparr>) (services db)"
  by (simp_all add: switch_def)

lemma suspendSubscription_eq:
  "suspendSubscription t i db =
     (case getSubscriptionOrThrow t i db of
        Inl e \<Rightarrow> (Inl e, db)
      | Inr s \<Rightarrow> if s_status s \<noteq> S_ACTIVE then (Inl (ConflictError ''Only an ACTIVE subscription can be suspended''), db)
          else (Inr (s\<lparr>s_status := S_SUSPENDED\<rparr>), switch suspend_access t i db))"
  by (simp add: suspendSubscription_def tolerate_404_eq switch_def Let_def split: sum.splits)

lemma reactivateSubscription_eq:
  "reactivateSubscription t i db =
     (case getSubscriptionOrThrow t i db of
        Inl e \<Rightarrow> (Inl e, db)
      | Inr s \<Rightarrow> if s_status s \<noteq> S_SUSPENDED then (Inl (ConflictError ''Only a SUSPENDED subscription can be reactivated''), db)
          else (Inr (s\<lparr>s_status := S_ACTIVE\<rparr>), switch reactivate_access t i db))"
  by (simp add: reactivateSubscription_def tolerate_404_eq switch_def Let_def split: sum.splits)

lemma getSubscriptionD:
  "getSubscriptionOrThrow t i db = Inr s \<Longrightarrow> s \<in> set (services db) \<and> s_id s = i \<and> s_tenantId s = t"
  by (auto simp: getSubscriptionOrThrow_def split: option.splits dest: find_SomeD)

lemma radius_after_update_service:
  "radiusUsers (radius_after a t i (update_service j f db)) = radiusUsers (radius_after a t i db)"
  "radChecks (radius_after a t i (update_service j f db)) = radChecks (radius_after a t i db)"
  by (auto simp: radius_after_def suspendRadiusUser_def reactivateRadiusUser_def getRadiusUserByCustomerServiceOrThrow_def Let_def
      split: option.splits sum.splits prod.splits)

lemma switch_access:
  assumes ok: "access_ok db" and s: "s \<in> set (services db)" "s_id s = i" "s_tenantId s = t"
  shows "access_ok (switch a t i db)"
proof (rule access_ok_set [OF ok, where f = "\<lambda>s. s\<lparr>s_status := service_target a\<rparr>" and a = a and i = i and t = t])
  show "s_tenantId x = t" if "x \<in> set (services db)" "s_id x = i" for x
    using services_key [OF access_okD(1) [OF ok] that(1) s(1)] that s by simp
  have "radius_in_sync (radius_after a t i db)" by (rule radius_after_sync [OF access_okD(2) [OF ok]])
  then show "radius_in_sync (switch a t i db)"
    by (rule radius_in_sync_cong) (simp_all add: switch_def radius_after_update_service)
qed (simp_all add: switch_def radius_after_update_service)

lemma suspendSubscription_access: "access_ok db \<Longrightarrow> access_ok (snd (suspendSubscription t i db))"
  by (auto simp: suspendSubscription_eq split: sum.splits dest!: getSubscriptionD intro: switch_access)

lemma reactivateSubscription_access: "access_ok db \<Longrightarrow> access_ok (snd (reactivateSubscription t i db))"
  by (auto simp: reactivateSubscription_eq split: sum.splits dest!: getSubscriptionD intro: switch_access)

lemma getSubscription_find:
  "List.find (\<lambda>s. s_id s = i \<and> s_tenantId s = t) (services db) = Some s \<longleftrightarrow> getSubscriptionOrThrow t i db = Inr s"
  by (auto simp: getSubscriptionOrThrow_def split: option.splits)

abbreviation paused_row :: "time \<Rightarrow> int \<Rightarrow> time \<Rightarrow> service \<Rightarrow> service" where
  "paused_row now n due s \<equiv> s\<lparr>s_pausedUntil := Some (now + n * day_ms), s_nextBillingAt := due + n * day_ms\<rparr>"

text \<open>A pause either changes nothing or does all of it.\<close>

lemma pauseSubscription_cases:
  fixes db :: "'x billing_db_scheme"
  obtains e where "pauseSubscription prefs t i days who db = (Inl e, db)"
  | s where "getSubscriptionOrThrow t i db = Inr s" "s_status s = S_ACTIVE"
      "pause_checks (getPauseAllowance prefs i db) days who s (overdue_count t (s_customerId s) db) = None"
      "pauseSubscription prefs t i days who db =
        (Inr (paused_row (clock db) \<lfloor>days\<rfloor> (s_nextBillingAt s) (s\<lparr>s_status := S_SUSPENDED\<rparr>)),
         (update_service i (paused_row (clock db) \<lfloor>days\<rfloor> (s_nextBillingAt s)) (switch suspend_access t i db))
           \<lparr>pauses := pauses db @ [\<lparr>sp_id = nextId db, sp_tenantId = t, sp_customerServiceId = i,
              sp_startsAt = clock db, sp_endsAt = clock db + \<lfloor>days\<rfloor> * day_ms, sp_days = \<lfloor>days\<rfloor>,
              sp_requestedBy = requester_text who, sp_resumedAt = None\<rparr>], nextId := nextId db + 1\<rparr>)"
proof (cases "getSubscriptionOrThrow t i db")
  case (Inl e)
  then have "List.find (\<lambda>s. s_id s = i \<and> s_tenantId s = t) (services db) = None"
    by (auto simp: getSubscriptionOrThrow_def split: option.splits)
  then show thesis by (intro that(1)) (simp add: pauseSubscription_def)
next
  case (Inr s)
  then have f: "List.find (\<lambda>s. s_id s = i \<and> s_tenantId s = t) (services db) = Some s"
    by (simp add: getSubscription_find)
  show thesis
  proof (cases "s_status s = S_ACTIVE")
    case False
    then show thesis by (intro that(1)) (simp add: pauseSubscription_def f)
  next
    case act: True
    show thesis
    proof (cases "pause_checks (getPauseAllowance prefs i db) days who s (overdue_count t (s_customerId s) db)")
      case (Some e)
      then show thesis by (intro that(1)) (simp add: pauseSubscription_def f act)
    next
      case None
      then show thesis
        by (intro that(2) [OF Inr act None]) (simp add: pauseSubscription_def f act suspendSubscription_eq Inr Let_def)
    qed
  qed
qed

lemma pause_access:
  assumes ok: "access_ok db"
  shows "access_ok (snd (pauseSubscription prefs t i days who db))"
proof (cases rule: pauseSubscription_cases [of prefs t i days who db])
  case (1 e)
  then show ?thesis using ok by simp
next
  case (2 s)
  have "access_ok (switch suspend_access t i db)"
    using getSubscriptionD [OF 2(1)] by (intro switch_access [OF ok]) auto
  then have "access_ok (update_service i (paused_row (clock db) \<lfloor>days\<rfloor> (s_nextBillingAt s)) (switch suspend_access t i db))"
    by (rule update_service_access) simp
  then show ?thesis unfolding 2(4) snd_conv by (rule access_ok_cong) simp_all
qed

text \<open>Ending a pause: the row moved back, the pause closed, and the connection restored when nothing is overdue.\<close>

definition unused_of :: "id \<Rightarrow> time \<Rightarrow> 'x billing_db_scheme \<Rightarrow> int" where
  "unused_of i pausedUntil db =
     (case open_pause i db of
        Some p \<Rightarrow> unusedPauseDays (sp_days p) (sp_startsAt p) (clock db)
      | None \<Rightarrow> max 0 ((pausedUntil - clock db) div day_ms))"

definition pause_ended :: "id \<Rightarrow> service \<Rightarrow> time \<Rightarrow> 'x billing_db_scheme \<Rightarrow> 'x billing_db_scheme" where
  "pause_ended i s pausedUntil db =
     (let db1 = update_service i
            (\<lambda>x. x\<lparr>s_pausedUntil := None, s_nextBillingAt := s_nextBillingAt s - unused_of i pausedUntil db * day_ms\<rparr>) db
      in case open_pause i db of
           None \<Rightarrow> db1
         | Some p \<Rightarrow> db1\<lparr>pauses := update_where (\<lambda>x. sp_id x = sp_id p)
             (\<lambda>x. x\<lparr>sp_resumedAt := Some (clock db), sp_days := max 0 (sp_days p - unused_of i pausedUntil db)\<rparr>) (pauses db)\<rparr>)"

lemma pause_ended_frame [simp]:
  "clock (pause_ended i s u db) = clock db" "nextId (pause_ended i s u db) = nextId db"
  "invoices (pause_ended i s u db) = invoices db" "customers (pause_ended i s u db) = customers db"
  "packages (pause_ended i s u db) = packages db"
  "radiusUsers (pause_ended i s u db) = radiusUsers db" "radChecks (pause_ended i s u db) = radChecks db"
  "services (pause_ended i s u db) = update_where (\<lambda>x. s_id x = i)
     (\<lambda>x. x\<lparr>s_pausedUntil := None, s_nextBillingAt := s_nextBillingAt s - unused_of i u db * day_ms\<rparr>) (services db)"
  by (simp_all add: pause_ended_def Let_def split: option.splits)

lemma resumeSubscription_eq:
  "resumeSubscription t i db =
     (case getSubscriptionOrThrow t i db of
        Inl e \<Rightarrow> (Inl (NotFoundError ''Subscription''), db)
      | Inr s \<Rightarrow>
          (case s_pausedUntil s of
             None \<Rightarrow> (Inl (ConflictError ''This plan is not paused''), db)
           | Some pausedUntil \<Rightarrow>
               let db2 = pause_ended i s pausedUntil db
               in if s_status s = S_SUSPENDED \<and> overdue_count t (s_customerId s) db = 0
                  then reactivateSubscription t i db2
                  else (case find_service i db2 of None \<Rightarrow> (Inl RecordNotFound, db2) | Some row \<Rightarrow> (Inr row, db2))))"
  by (simp add: resumeSubscription_def getSubscriptionOrThrow_def pause_ended_def unused_of_def overdue_count_def Let_def
      split: option.splits)

lemma pause_ended_access:
  assumes "access_ok db"
  shows "access_ok (pause_ended i s u db)"
  by (rule access_ok_same [OF assms, where p = "\<lambda>x. s_id x = i"
        and f = "\<lambda>x. x\<lparr>s_pausedUntil := None, s_nextBillingAt := s_nextBillingAt s - unused_of i u db * day_ms\<rparr>"]) simp_all

lemma resume_access: "access_ok db \<Longrightarrow> access_ok (snd (resumeSubscription t i db))"
  by (auto simp: resumeSubscription_eq Let_def split: sum.splits option.splits
      intro: pause_ended_access reactivateSubscription_access)

lemma resume_all_access: "access_ok db \<Longrightarrow> access_ok (snd (resume_all due a b db))"
proof (induction due a b db rule: resume_all.induct)
  case (2 t i due a b db)
  then show ?case using resume_access [OF 2(3), of t i] by (auto split: prod.splits sum.splits)
qed simp

lemma resumeDuePauses_access: "access_ok db \<Longrightarrow> access_ok (snd (resumeDuePauses db))"
  by (simp add: resumeDuePauses_def Let_def resume_all_access)

section \<open>What a pause costs and gives\<close>

lemma unusedPauseDays_bounds: "0 \<le> unusedPauseDays n a b" "0 \<le> n \<Longrightarrow> unusedPauseDays n a b \<le> n"
  by (simp_all add: unusedPauseDays_def Let_def)

lemma pause_checks_None:
  assumes "pause_checks al days who s k = None"
  shows "days = of_int \<lfloor>days\<rfloor> \<and> pa_minDays al \<le> \<lfloor>days\<rfloor> \<and> (who = by_customer \<longrightarrow> pa_enabled al \<and> \<lfloor>days\<rfloor> \<le> pa_remainingDays al) \<and> k = 0"
  using assms by (auto simp: pause_checks_def not_less le_floor_iff split: if_splits)

text \<open>
  C13. A pause costs the customer nothing and gives nothing away. If a plan is paused for some days
  and resumed later, early or late, with the subscriptions and pauses untouched in between, then
  resuming succeeds, the next bill has moved out by exactly the whole days spent paused and by no
  more than the days asked for, the pause is closed with that many days on the year's account, the
  plan is on again unless a bill fell overdue meanwhile, and no other subscription changed.
\<close>

theorem pause_moves_billing_by_days_paused:
  fixes db db1 db2 db3 :: "'x billing_db_scheme"
  assumes ok: "services_ok db" and s: "s \<in> set (services db)" "s_id s = i"
    and min: "1 \<le> pp_minDays prefs"
    and closed: "list_all (\<lambda>p. sp_customerServiceId p \<noteq> i \<or> sp_resumedAt p \<noteq> None) (pauses db)"
    and ids: "list_all (\<lambda>p. sp_id p < nextId db) (pauses db)"
    and p: "pauseSubscription prefs t i days who db = (Inr x, db1)"
    and later: "services db2 = services db1" "pauses db2 = pauses db1" "clock db \<le> clock db2"
    and r: "resumeSubscription t i db2 = (res, db3)"
  shows "let used = min \<lfloor>days\<rfloor> ((clock db2 - clock db) div day_ms) in
    is_ok res \<and>
    services db3 = update_where (\<lambda>y. s_id y = i)
      (\<lambda>_. s\<lparr>s_nextBillingAt := s_nextBillingAt s + used * day_ms, s_pausedUntil := None,
             s_status := (if overdue_count t (s_customerId s) db2 = 0 then S_ACTIVE else S_SUSPENDED)\<rparr>) (services db) \<and>
    map sp_days (filter (\<lambda>q. sp_id q = nextId db) (pauses db3)) = [used] \<and>
    list_all (\<lambda>q. sp_customerServiceId q \<noteq> i \<or> sp_resumedAt q \<noteq> None) (pauses db3)"
proof -
  let ?n = "\<lfloor>days\<rfloor>"
  let ?new = "\<lparr>sp_id = nextId db, sp_tenantId = t, sp_customerServiceId = i, sp_startsAt = clock db,
      sp_endsAt = clock db + ?n * day_ms, sp_days = ?n, sp_requestedBy = requester_text who, sp_resumedAt = None\<rparr>"
  let ?sp = "paused_row (clock db) ?n (s_nextBillingAt s) (s\<lparr>s_status := S_SUSPENDED\<rparr>)"
  define used where "used = min ?n ((clock db2 - clock db) div day_ms)"
  have only: "y = s" if "y \<in> set (services db)" "s_id y = i" for y
    using services_key [OF ok that(1) s(1)] that s(2) by simp
  have st: "s_tenantId s = t" "1 \<le> ?n" "services db1 = update_where (\<lambda>y. s_id y = i) (\<lambda>_. ?sp) (services db)"
    "pauses db1 = pauses db @ [?new]"
  proof -
    have *: "s_tenantId s = t \<and> 1 \<le> ?n \<and> services db1 = update_where (\<lambda>y. s_id y = i) (\<lambda>_. ?sp) (services db)
        \<and> pauses db1 = pauses db @ [?new]"
    proof (cases rule: pauseSubscription_cases [of prefs t i days who db])
      case (1 e)
      then show ?thesis using p by simp
    next
      case (2 s')
      from getSubscriptionD [OF 2(1)] only have "s' = s" "s_tenantId s = t" by auto
      have "services db1 = update_where (\<lambda>y. s_id y = i) (\<lambda>_. ?sp) (services db)"
        using p 2(4) only unfolding \<open>s' = s\<close> by (auto simp: update_where_def)
      then show ?thesis
        using pause_checks_None [OF 2(3)] min p 2(4) \<open>s_tenantId s = t\<close> by (auto simp: getPauseAllowance_def Let_def)
    qed
    then show "s_tenantId s = t" "1 \<le> ?n" "services db1 = update_where (\<lambda>y. s_id y = i) (\<lambda>_. ?sp) (services db)"
      "pauses db1 = pauses db @ [?new]" by blast+
  qed
  have sv2: "services db2 = update_where (\<lambda>y. s_id y = i) (\<lambda>_. ?sp) (services db)" using later st by simp
  have ok2: "distinct (map s_id (services db2))"
    unfolding sv2 using ok s(2) only by (simp add: services_ok_def update_where_def o_def if_distrib cong: if_cong)
  have mem: "?sp \<in> set (services db2)" unfolding sv2 update_where_def using s by auto
  have g: "getSubscriptionOrThrow t i db2 = Inr ?sp"
    using find_key_and [OF ok2 mem, of "\<lambda>y. s_tenantId y = t"] s(2) st(1) by (simp add: getSubscriptionOrThrow_def)
  have op: "open_pause i db2 = Some ?new"
  proof -
    have "filter (\<lambda>p. sp_customerServiceId p = i \<and> sp_resumedAt p = None) (pauses db2) = [?new]"
      using closed later(2) st(4) by (auto simp: filter_empty_conv list_all_iff)
    then show ?thesis by (simp add: open_pause_def)
  qed
  have un: "unused_of i u db2 = ?n - used" for u
  proof -
    have "0 \<le> (clock db2 - clock db) div day_ms" using later(3) by (simp add: day_ms_def pos_imp_zdiv_nonneg_iff)
    then show ?thesis by (simp add: unused_of_def op unusedPauseDays_def Let_def used_def)
  qed
  let ?ended = "\<lambda>st. s\<lparr>s_nextBillingAt := s_nextBillingAt s + used * day_ms, s_pausedUntil := None, s_status := st\<rparr>"
  let ?e = "pause_ended i ?sp (clock db + ?n * day_ms) db2"
  have se: "services ?e = update_where (\<lambda>y. s_id y = i) (\<lambda>_. ?ended S_SUSPENDED) (services db)"
    using only s(2) by (auto simp: sv2 un update_where_def algebra_simps)
  have pe: "pauses ?e = pauses db @ [?new\<lparr>sp_resumedAt := Some (clock db2), sp_days := max 0 used\<rparr>]"
  proof -
    have "update_where (\<lambda>q. sp_id q = nextId db) f (pauses db) = pauses db" for f
      using ids by (intro update_where_none) (auto simp: list_all_iff)
    then show ?thesis
      by (simp add: pause_ended_def Let_def op un later(2) st(4))
  qed
  have u0: "0 \<le> used" using st(2) later(3) by (simp add: used_def day_ms_def pos_imp_zdiv_nonneg_iff)
  have oke: "distinct (map s_id (services ?e))"
    unfolding se using ok s(2) only by (simp add: services_ok_def update_where_def o_def if_distrib cong: if_cong)
  have meme: "?ended S_SUSPENDED \<in> set (services ?e)" unfolding se update_where_def using s by auto
  have ge: "getSubscriptionOrThrow t i ?e = Inr (?ended S_SUSPENDED)"
    using find_key_and [OF oke meme, of "\<lambda>y. s_tenantId y = t"] s(2) st(1) by (simp add: getSubscriptionOrThrow_def)
  have fe: "find_service i ?e = Some (?ended S_SUSPENDED)"
    using find_key_unique [OF oke meme] s(2) by (simp add: find_service_def)
  have fin: "is_ok res \<and> pauses db3 = pauses ?e \<and> services db3 = update_where (\<lambda>y. s_id y = i)
      (\<lambda>_. ?ended (if overdue_count t (s_customerId s) db2 = 0 then S_ACTIVE else S_SUSPENDED)) (services db)"
  proof (cases "overdue_count t (s_customerId s) db2 = 0")
    case True
    then have "res = Inr ((?ended S_SUSPENDED)\<lparr>s_status := S_ACTIVE\<rparr>)" "db3 = switch reactivate_access t i ?e"
      using r by (simp_all add: resumeSubscription_eq g Let_def reactivateSubscription_eq ge)
    moreover have "services (switch reactivate_access t i ?e) = update_where (\<lambda>y. s_id y = i) (\<lambda>_. ?ended S_ACTIVE) (services db)"
      using s(2) unfolding switch_frame se by (auto simp: update_where_def)
    ultimately show ?thesis using True by simp
  next
    case False
    then have "res = Inr (?ended S_SUSPENDED)" "db3 = ?e"
      using r by (simp_all add: resumeSubscription_eq g Let_def fe)
    then show ?thesis using False se by simp
  qed
  have "filter (\<lambda>q. sp_id q = nextId db) (pauses db) = []"
    using ids by (auto simp: list_all_iff filter_empty_conv)
  then show ?thesis
    using fin closed u0 unfolding pe Let_def used_def [symmetric] by simp
qed

definition sample_account :: radius_user where
  "sample_account = \<lparr>ru_id = 80, ru_tenantId = 7, ru_customerId = 3, ru_customerServiceId = 60,
     ru_username = ''acme-cus-000001'', ru_passwordEncrypted = ''x'', ru_status = R_ACTIVE, ru_connectionType = ''PPPOE'',
     ru_downloadKbps = 10000, ru_uploadKbps = 5000\<rparr>"

definition running_db :: billing_db where
  "running_db = empty_db\<lparr>nextId := 100, services := [sample_service], radiusUsers := [sample_account],
     radChecks := [\<lparr>rr_username = ''acme-cus-000001'', rr_attribute = ''Cleartext-Password'', rr_op = '':='', rr_value = ''pw''\<rparr>]\<rparr>"

lemma running_db_ok: "access_ok running_db"
  by (simp add: access_ok_def services_ok_def radius_in_sync_def rejected_def agrees_def running_db_def empty_db_def
      sample_account_def sample_service_def)

definition default_pauses :: pause_preferences where
  "default_pauses = \<lparr>pp_enabled = True, pp_minDays = 3, pp_maxDaysPerYear = 30\<rparr>"

lemma running_db_pause: "is_ok (fst (pauseSubscription default_pauses 7 60 10 by_customer running_db))"
  by (cases rule: pauseSubscription_cases [of default_pauses 7 60 10 by_customer running_db])
    (simp_all add: pauseSubscription_def pause_checks_def getPauseAllowance_def suspendSubscription_eq getSubscriptionOrThrow_def
      overdue_count_def count_where_def default_pauses_def Let_def running_db_def empty_db_def sample_service_def)

theorem pause_moves_billing_by_days_paused_witness:
  "map s_nextBillingAt (services (snd (resumeSubscription 7 60
      ((snd (pauseSubscription default_pauses 7 60 10 by_customer running_db))\<lparr>clock := 4 * day_ms + 5\<rparr>)))) = [100 + 4 * day_ms]"
proof -
  obtain x db1 where p: "pauseSubscription default_pauses 7 60 10 by_customer running_db = (Inr x, db1)"
    using running_db_pause by (cases "pauseSubscription default_pauses 7 60 10 by_customer running_db") (auto elim!: is_ok.elims)
  obtain res db3 where r: "resumeSubscription 7 60 (db1\<lparr>clock := 4 * day_ms + 5\<rparr>) = (res, db3)" by fastforce
  have "services_ok running_db" "sample_service \<in> set (services running_db)" "s_id sample_service = 60"
    "1 \<le> pp_minDays default_pauses" "list_all (\<lambda>p. sp_customerServiceId p \<noteq> 60 \<or> sp_resumedAt p \<noteq> None) (pauses running_db)"
    "list_all (\<lambda>p. sp_id p < nextId running_db) (pauses running_db)"
    by (simp_all add: services_ok_def running_db_def empty_db_def sample_service_def default_pauses_def)
  from pause_moves_billing_by_days_paused [OF this p _ _ _ r]
  show ?thesis
    unfolding p snd_conv r by (simp add: Let_def running_db_def empty_db_def sample_service_def day_ms_def)
qed

text \<open>
  The yearly allowance holds. A pause a customer takes is a whole number of days, at least the
  provider's minimum, on a provider that offers pausing, with no overdue bill; and the days taken
  in the last 365 days, the new ones included, stay within the provider's yearly maximum.
\<close>

theorem customer_pauses_stay_within_allowance:
  assumes "1 \<le> pp_minDays prefs"
    and p: "pauseSubscription prefs t i days by_customer db = (Inr x, db')"
  shows "pp_enabled prefs \<and> days = of_int \<lfloor>days\<rfloor> \<and> pp_minDays prefs \<le> \<lfloor>days\<rfloor>
    \<and> overdue_count t (s_customerId x) db = 0
    \<and> pa_usedDays (getPauseAllowance prefs i db') = pa_usedDays (getPauseAllowance prefs i db) + \<lfloor>days\<rfloor>
    \<and> pa_usedDays (getPauseAllowance prefs i db') \<le> pp_maxDaysPerYear prefs"
proof (cases rule: pauseSubscription_cases [of prefs t i days by_customer db])
  case (1 e)
  then show ?thesis using p by simp
next
  case (2 s)
  have used: "pa_usedDays (getPauseAllowance prefs i db') = pa_usedDays (getPauseAllowance prefs i db) + \<lfloor>days\<rfloor>"
    using p 2(4) by (auto simp: getPauseAllowance_def Let_def sum_where_def day_ms_def)
  show ?thesis
    using pause_checks_None [OF 2(3)] assms(1) used p 2(4) by (auto simp: getPauseAllowance_def Let_def max_def split: if_splits)
qed

theorem customer_pauses_stay_within_allowance_witness:
  "pa_usedDays (getPauseAllowance default_pauses 60 (snd (pauseSubscription default_pauses 7 60 10 by_customer running_db))) = 10"
proof -
  obtain x db1 where p: "pauseSubscription default_pauses 7 60 10 by_customer running_db = (Inr x, db1)"
    using running_db_pause by (cases "pauseSubscription default_pauses 7 60 10 by_customer running_db") (auto elim!: is_ok.elims)
  have "1 \<le> pp_minDays default_pauses" by (simp add: default_pauses_def)
  note step = customer_pauses_stay_within_allowance [OF this p]
  have "pa_usedDays (getPauseAllowance default_pauses 60 running_db) = 0"
    by (simp add: getPauseAllowance_def Let_def running_db_def empty_db_def)
  with step show ?thesis unfolding p snd_conv by simp
qed

section \<open>A sale happens whole or not at all\<close>


definition selling_db :: billing_db where
  "selling_db = empty_db\<lparr>nextId := 100, packages := [sample_package],
     tenants := [\<lparr>t_id = 7, t_name = ''Acme'', t_slug = ''acme'', t_currency = ''KES'', t_deletedAt = None,
       t_collectsOnPlatform = False, t_payoutShortcode = None, t_payoutShortcodeType = ''TILL'',
       t_feePercentBpsOverride = None, t_feeFixedMinorOverride = None\<rparr>],
     customers := [new_customer 3 7 sample_customer_input ''CUS-000001'']\<rparr>"

definition sample_sale :: subscribe_input where
  "sample_sale = \<lparr>si_customerId = 3, si_packageId = 50, si_startDate = None, si_priceOverrideMinor = None, si_autoRenew = None\<rparr>"

lemma selling_db_ok: "access_ok selling_db"
  by (simp add: access_ok_def services_ok_def radius_in_sync_def rejected_def selling_db_def empty_db_def)

text \<open>A sale goes through when invoice numbers are in order and the account's name is free.\<close>

lemma subscribe_tx_succeeds:
  fixes db :: "'x billing_db_scheme"
  assumes inv: "invoices_ok db" and cyc: "cycleLengthDays (k_billingCycle pkg) (k_durationDays pkg) = Inr n"
    and free: "buildRadiusUsername (t_slug ten) (c_customerNumber customer) \<notin> ru_username ` set (radiusUsers db)"
  shows "is_ok (subscribe_tx enc pw t inp customer pkg ten start due db)"
proof -
  let ?s = "new_subscription (nextId db) t inp customer pkg start due"
  let ?db1 = "db\<lparr>services := services db @ [?s], nextId := nextId db + 1\<rparr>"
  have "invoices_ok ?db1" by (rule invoices_ok_cong [OF inv]) simp_all
  then obtain bill where "createInvoice (s_tenantId ?s) (s_customerId ?s) (Some (s_id ?s)) (first_invoice_items ?s pkg n)
      (k_taxPercent pkg) (s_nextBillingAt ?s) (k_currency pkg) ?db1
      = Inr (bill, ?db1\<lparr>invoices := invoices ?db1 @ [bill], nextId := nextId ?db1 + 1\<rparr>)"
    by (rule createInvoice_ok)
  moreover have "\<not> (\<exists>u \<in> set (radiusUsers db). ru_username u = buildRadiusUsername (t_slug ten) (c_customerNumber customer))"
    using free by force
  ultimately show ?thesis
    by (simp add: subscribe_tx_def Let_def createFirstInvoiceForSubscription_def cyc provisionRadiusUser_def)
qed


section \<open>What cancelling and reactivating leave\<close>

text \<open>
  Cancelling leaves the network account and its RADIUS rows as they were: an account that was
  accepted before is accepted after.
\<close>

lemma cancel_leaves_account:
  assumes "cancelSubscription t i db = (Inr s, db')"
  shows "s_status s = S_CANCELLED \<and> radiusUsers db' = radiusUsers db \<and> radChecks db' = radChecks db
    \<and> (\<forall>u. rejected u (radChecks db') \<longleftrightarrow> rejected u (radChecks db))"
  using assms by (auto simp: cancelSubscription_def Let_def split: sum.splits if_splits)

text \<open>
  Reactivating a paused plan by hand switches it on, and leaves the pause open and the next bill
  where the pause moved it.
\<close>

lemma reactivate_leaves_pause:
  assumes "reactivateSubscription t i db = (Inr s, db')" and "getSubscriptionOrThrow t i db = Inr s0"
  shows "s_status s = S_ACTIVE \<and> s_pausedUntil s = s_pausedUntil s0 \<and> s_nextBillingAt s = s_nextBillingAt s0
    \<and> pauses db' = pauses db"
  using assms by (auto simp: reactivateSubscription_eq split: if_splits)

end
