(* ===== verification/BillingRuns.thy ===== *)
theory BillingRuns imports Subscriptions begin

text \<open>
  The billing operations together: the sweeps of billing-cycle.service.ts as steps on the same
  tables as the sales, pauses and edits, \<open>billing_op\<close> for a request or sweep, and what holds after
  any sequence of them: subscriptions agree with the network accounts, and tenants do not mix.
\<close>

section \<open>The sweeps\<close>

lemma renew_one_shape:
  assumes "renew_one sid db = Inr db'"
  shows "db' = db \<or> (\<exists>s n bill. find_service sid db = Some s \<and>
      services db' = update_where (\<lambda>x. s_id x = s_id s) (\<lambda>x. x\<lparr>s_nextBillingAt := addDays (s_nextBillingAt s) n\<rparr>) (services db)
      \<and> invoices db' = invoices db @ [bill] \<and> i_tenantId bill = s_tenantId s \<and> i_customerId bill = s_customerId s
      \<and> i_customerServiceId bill = Some (s_id s)
      \<and> radiusUsers db' = radiusUsers db \<and> radChecks db' = radChecks db \<and> nextId db \<le> nextId db'
      \<and> customers db' = customers db \<and> packages db' = packages db)"
proof (cases "db' = db")
  case False
  then obtain s pkg n bill db1 where "find_service sid db = Some s"
    and inv: "createRenewalInvoice s pkg (s_nextBillingAt s) db = Inr (bill, db1)"
    and db': "db' = update_service (s_id s) (\<lambda>x. x\<lparr>s_nextBillingAt := addDays (s_nextBillingAt s) n\<rparr>) db1"
    using assms by (auto simp: renew_one_def split: option.splits sum.splits if_splits)
  moreover from inv have "db1 = db\<lparr>invoices := invoices db @ [bill], nextId := nextId db + 1\<rparr>"
    "i_tenantId bill = s_tenantId s" "i_customerId bill = s_customerId s" "i_customerServiceId bill = Some (s_id s)"
    by (auto simp: createRenewalInvoice_def dest!: createInvoice_shape)
  ultimately show ?thesis by auto
qed simp

lemma renew_one_access:
  assumes ok: "access_ok db" and r: "renew_one sid db = Inr db'"
  shows "access_ok db'"
  using renew_one_shape [OF r]
proof (elim disjE exE conjE)
  fix s n bill
  assume "services db' = update_where (\<lambda>x. s_id x = s_id s) (\<lambda>x. x\<lparr>s_nextBillingAt := addDays (s_nextBillingAt s) n\<rparr>) (services db)"
    "radiusUsers db' = radiusUsers db" "radChecks db' = radChecks db" "nextId db \<le> nextId db'"
  then show ?thesis
    by (rule access_ok_same [OF ok, rotated]) simp
qed (use ok in simp)

lemma renew_all_access: "access_ok db \<Longrightarrow> access_ok (snd (renew_all ids a b db))"
  by (induction ids a b db rule: renew_all.induct) (auto dest: renew_one_access split: sum.splits)

lemma generateDue_access: "access_ok db \<Longrightarrow> access_ok (snd (generateDueRenewalInvoices db))"
  using renew_all_access [of db "map s_id (filter (is_due (clock db)) (services db))" 0 0]
  by (auto simp: generateDueRenewalInvoices_def Let_def split: prod.splits)

text \<open>The sweeps cut and restore with the same step as the manual operations.\<close>

lemma reactivate_one_eq: "reactivate_one sub db = switch reactivate_access (s_tenantId sub) (s_id sub) db"
  by (simp add: reactivate_one_def bestEffort_eq switch_def)

lemma suspend_step_eq:
  assumes "services_ok db"
  shows "suspend_step sid (a, db) =
    (case find_service sid db of
       None \<Rightarrow> (a, db)
     | Some sub \<Rightarrow> if s_status sub \<noteq> S_ACTIVE then (a, db)
         else (a + count_where (\<lambda>s. s_id s = sid \<and> s_status s = S_ACTIVE) (services db), switch suspend_access (s_tenantId sub) sid db))"
proof (cases "find_service sid db")
  case (Some sub)
  then have sub: "sub \<in> set (services db)" "s_id sub = sid" by (auto dest: find_serviceD)
  show ?thesis
  proof (cases "s_status sub = S_ACTIVE")
    case True
    have "count_where (\<lambda>s. s_id s = sid \<and> s_status s = S_ACTIVE) (services db) \<noteq> 0"
      unfolding count_where_eq_0 using sub True by blast
    moreover have "update_where (\<lambda>s. s_id s = sid \<and> s_status s = S_ACTIVE) f (services db) = update_where (\<lambda>s. s_id s = sid) f (services db)" for f
      using services_key [OF assms _ sub(1)] sub(2) True by (intro update_where_cong) auto
    ultimately show ?thesis
      using Some True by (simp add: suspend_step_def Let_def bestEffort_eq switch_def update_service_def)
  qed (use Some in \<open>simp add: suspend_step_def\<close>)
qed (simp add: suspend_step_def)

lemma suspend_step_access:
  assumes ok: "access_ok db"
  shows "access_ok (snd (suspend_step sid (a, db)))"
  unfolding suspend_step_eq [OF access_okD(1) [OF ok]]
  using ok switch_access [OF ok] by (auto split: option.splits dest!: find_serviceD)

lemma fold_suspend_access: "access_ok (snd st) \<Longrightarrow> access_ok (snd (fold suspend_step ids st))"
proof (induction ids arbitrary: st)
  case (Cons i ids)
  then show ?case using suspend_step_access [of "snd st" i "fst st"] by simp
qed simp

lemma suspendOverdue_access: "access_ok db \<Longrightarrow> access_ok (snd (suspendOverdueSubscriptions g db))"
  using fold_suspend_access [of "(0, db)"]
  by (auto simp: suspendOverdueSubscriptions_def Let_def split: prod.splits) (metis snd_conv)

text \<open>The subscriptions of a list are still there, with their tenants, whatever else changed.\<close>

definition still_there :: "service list \<Rightarrow> 'x billing_db_scheme \<Rightarrow> bool" where
  "still_there subs db \<longleftrightarrow> (\<forall>x \<in> set subs. \<exists>s \<in> set (services db). s_id s = s_id x \<and> s_tenantId s = s_tenantId x)"

lemma still_there_switch: "still_there subs db \<Longrightarrow> still_there subs (switch a t i db)"
  unfolding still_there_def
proof
  fix x
  assume "\<forall>x \<in> set subs. \<exists>s \<in> set (services db). s_id s = s_id x \<and> s_tenantId s = s_tenantId x" and "x \<in> set subs"
  then obtain s where s: "s \<in> set (services db)" "s_id s = s_id x" "s_tenantId s = s_tenantId x" by blast
  then have "(if s_id s = i then s\<lparr>s_status := service_target a\<rparr> else s) \<in> set (services (switch a t i db))"
    by (auto simp: update_where_def)
  then show "\<exists>s \<in> set (services (switch a t i db)). s_id s = s_id x \<and> s_tenantId s = s_tenantId x"
    by (rule bexI [rotated]) (use s in simp)
qed

lemma reactivate_one_access:
  assumes "access_ok db" and "still_there (sub # subs) db"
  shows "access_ok (reactivate_one sub db) \<and> still_there subs (reactivate_one sub db)"
proof -
  obtain s where s: "s \<in> set (services db)" "s_id s = s_id sub" "s_tenantId s = s_tenantId sub"
    using assms(2) by (auto simp: still_there_def)
  have "still_there subs db" using assms(2) by (simp add: still_there_def)
  then show ?thesis
    unfolding reactivate_one_eq using switch_access [OF assms(1) s] still_there_switch by blast
qed

lemma fold_reactivate_one_access: "access_ok db \<Longrightarrow> still_there subs db \<Longrightarrow> access_ok (fold reactivate_one subs db)"
  by (induction subs arbitrary: db) (simp_all add: reactivate_one_access)

lemma fold_reactivate_access:
  "access_ok (snd st) \<Longrightarrow> still_there subs (snd st) \<Longrightarrow> access_ok (snd (fold reactivate_step subs st))"
proof (induction subs arbitrary: st)
  case (Cons sub subs)
  obtain a db where st: "st = (a, db)" by (cases st)
  have "still_there subs db" using Cons.prems(2) by (simp add: still_there_def st)
  then show ?case
    using Cons.IH [of "(a, db)"] Cons.IH [of "(a + 1, reactivate_one sub db)"] Cons.prems reactivate_one_access [of db sub subs]
    by (simp add: st reactivate_step_def)
qed simp

lemma still_there_filter: "still_there (filter p (services db)) db"
  by (auto simp: still_there_def)

lemma restore_access:
  assumes "access_ok db"
  shows "access_ok (snd (restoreServiceAfterPayment t c db))"
  using fold_reactivate_one_access [OF assms still_there_filter] assms
  by (auto simp: restoreServiceAfterPayment_def reactivateCustomerIfCleared_def Let_def split: option.splits)

lemma reactivateCleared_access:
  assumes "access_ok db"
  shows "access_ok (snd (reactivateClearedSubscriptions db))"
proof -
  have "access_ok (snd (fold reactivate_step (filter (may_reactivate (clock db)) (services db)) (0, db)))"
    using assms by (intro fold_reactivate_access) (simp_all add: still_there_filter)
  then show ?thesis by (auto simp: reactivateClearedSubscriptions_def Let_def split: prod.splits)
qed

section \<open>Runs of the billing operations\<close>

datatype billing_op =
    Add_customer id create_customer_input
  | Edit_customer id id update_customer_input
  | Set_customer_status id id customer_status
  | Link_login id id string auth_db
  | Add_package id create_package_input
  | Edit_package id id update_package_input
  | Set_package_active id id bool
  | Sell "string \<Rightarrow> string" string id subscribe_input
  | Change_package id id id
  | Cancel_plan id id
  | Suspend_plan id id
  | Reactivate_plan id id
  | Pause_plan pause_preferences id id rat pause_requester
  | Resume_plan id id
  | Resume_due
  | Renew_due
  | Mark_overdue
  | Suspend_overdue int
  | Reactivate_cleared
  | Restore_after_payment id "id option"
  | Time_passes nat

fun committed :: "('a \<times> 'x billing_db_scheme) result \<Rightarrow> 'x billing_db_scheme \<Rightarrow> 'x billing_db_scheme" where
  "committed (Inr (_, db')) db = db'"
| "committed (Inl _) db = db"

fun perform :: "billing_op \<Rightarrow> 'x billing_db_scheme \<Rightarrow> 'x billing_db_scheme" where
  "perform (Add_customer t inp) db = committed (createCustomer t inp db) db"
| "perform (Edit_customer t i inp) db = committed (updateCustomer t i inp db) db"
| "perform (Set_customer_status t i st) db = committed (changeCustomerStatus t i st db) db"
| "perform (Link_login t i email auth) db = committed (linkCustomerToUserAccount t i email auth db) db"
| "perform (Add_package t inp) db = committed (createPackage t inp db) db"
| "perform (Edit_package t i inp) db = committed (updatePackage t i inp db) db"
| "perform (Set_package_active t i b) db = committed (setPackageActive t i b db) db"
| "perform (Sell enc pw t inp) db = snd (subscribeCustomerToPackage enc pw t inp db)"
| "perform (Change_package t i k) db = snd (changeSubscriptionPackage t i k db)"
| "perform (Cancel_plan t i) db = snd (cancelSubscription t i db)"
| "perform (Suspend_plan t i) db = snd (suspendSubscription t i db)"
| "perform (Reactivate_plan t i) db = snd (reactivateSubscription t i db)"
| "perform (Pause_plan prefs t i days who) db = snd (pauseSubscription prefs t i days who db)"
| "perform (Resume_plan t i) db = snd (resumeSubscription t i db)"
| "perform Resume_due db = snd (resumeDuePauses db)"
| "perform Renew_due db = snd (generateDueRenewalInvoices db)"
| "perform Mark_overdue db = snd (markOverdueInvoices db)"
| "perform (Suspend_overdue grace) db = snd (suspendOverdueSubscriptions grace db)"
| "perform Reactivate_cleared db = snd (reactivateClearedSubscriptions db)"
| "perform (Restore_after_payment t c) db = snd (restoreServiceAfterPayment t c db)"
| "perform (Time_passes n) db = db\<lparr>clock := clock db + int n\<rparr>"

definition run_ops :: "billing_op list \<Rightarrow> 'x billing_db_scheme \<Rightarrow> 'x billing_db_scheme" where
  "run_ops ops db = fold perform ops db"

text \<open>The operations on customers and packages touch no subscription, account or invoice.\<close>

lemma createCustomer_shape:
  assumes "createCustomer t inp db = Inr (c, db')"
  shows "c_id c = nextId db \<and> c_tenantId c = t \<and> customers db' = customers db @ [c] \<and> nextId db' = nextId db + 2
    \<and> services db' = services db \<and> radiusUsers db' = radiusUsers db \<and> radChecks db' = radChecks db
    \<and> packages db' = packages db \<and> invoices db' = invoices db"
proof -
  obtain n where "insert_customer t inp n db = Inr (c, db')"
    using assms unfolding createCustomer_def withRetryOnNumberCollision_def by (auto dest: retry_loop_from)
  then show ?thesis by (auto simp: insert_customer_def new_customer_def Let_def split: if_splits)
qed

lemma updateCustomer_shape:
  "updateCustomer t i up db = Inr (c, db') \<Longrightarrow> db' = update_customer i (apply_customer_input up) db"
  by (auto simp: updateCustomer_def split: sum.splits)

lemma changeCustomerStatus_shape:
  "changeCustomerStatus t i st db = Inr (c, db') \<Longrightarrow> db' = update_customer i (\<lambda>c. c\<lparr>c_status := st\<rparr>) db"
  by (auto simp: changeCustomerStatus_def split: sum.splits)

lemma linkCustomer_shape:
  "linkCustomerToUserAccount t i email auth db = Inr (c, db') \<Longrightarrow> \<exists>u. db' = update_customer i (\<lambda>c. c\<lparr>c_userId := Some u\<rparr>) db"
  by (auto simp: linkCustomerToUserAccount_def split: sum.splits option.splits if_splits)

lemmas customer_ops_shape = updateCustomer_shape changeCustomerStatus_shape linkCustomer_shape

lemma package_ops_shape:
  "createPackage t pin db = Inr (k, db') \<Longrightarrow> k_id k = nextId db \<and> k_tenantId k = t
     \<and> db' = db\<lparr>packages := packages db @ [k], nextId := nextId db + 1\<rparr>"
  "updatePackage t i pup db = Inr (k, db') \<Longrightarrow> db' = update_package i (apply_package_input pup) db"
  "setPackageActive t i b db = Inr (k, db') \<Longrightarrow> db' = update_package i (\<lambda>k. k\<lparr>k_isActive := b\<rparr>) db"
  by (auto simp: createPackage_def updatePackage_def setPackageActive_def Let_def split: sum.splits if_splits)

lemma update_customer_access [simp]: "access_ok (update_customer i f db) \<longleftrightarrow> access_ok db"
  unfolding access_ok_def services_ok_def radius_in_sync_def update_customer_def by simp

lemma update_package_access [simp]: "access_ok (update_package i f' db) \<longleftrightarrow> access_ok db"
  unfolding access_ok_def services_ok_def radius_in_sync_def update_package_def by simp

lemma createCustomer_access:
  assumes "access_ok db" and "createCustomer t inp db = Inr (c, db')"
  shows "access_ok db'"
  using createCustomer_shape [OF assms(2)] by (intro access_ok_cong [OF assms(1)]) auto

lemma perform_access:
  assumes ok: "access_ok db"
  shows "access_ok (perform op db)"
proof (cases op)
  case (Add_customer t inp)
  then show ?thesis using ok createCustomer_access [OF ok] by (cases "createCustomer t inp db") auto
next
  case (Add_package t inp)
  have "access_ok db'" if "createPackage t inp db = Inr (k, db')" for k db'
    using package_ops_shape(1) [OF that] by (intro access_ok_cong [OF ok]) auto
  then show ?thesis using ok Add_package by (cases "createPackage t inp db") auto
next
  case (Edit_customer t i inp)
  then show ?thesis using ok by (cases "updateCustomer t i inp db") (auto dest!: customer_ops_shape(1))
next
  case (Set_customer_status t i st)
  then show ?thesis using ok by (cases "changeCustomerStatus t i st db") (auto dest!: customer_ops_shape(2))
next
  case (Link_login t i email auth)
  then show ?thesis using ok by (cases "linkCustomerToUserAccount t i email auth db") (auto dest!: customer_ops_shape(3))
next
  case (Edit_package t i inp)
  then show ?thesis using ok by (cases "updatePackage t i inp db") (auto dest!: package_ops_shape(2))
next
  case (Set_package_active t i b)
  then show ?thesis using ok by (cases "setPackageActive t i b db") (auto dest!: package_ops_shape(3))
next
  case Mark_overdue
  show ?thesis unfolding Mark_overdue
    by (rule access_ok_cong [OF ok]) (simp_all add: markOverdueInvoices_def Let_def)
next
  case (Time_passes n)
  show ?thesis unfolding Time_passes by (rule access_ok_cong [OF ok]) simp_all
qed (use ok in \<open>simp_all add: subscribe_access changePackage_access cancel_access suspendSubscription_access
    reactivateSubscription_access pause_access resume_access resumeDuePauses_access generateDue_access
    suspendOverdue_access reactivateCleared_access restore_access\<close>)



section \<open>Rows stay within their tenant\<close>

definition customer_keys :: "'x billing_db_scheme \<Rightarrow> (id \<times> id) set" where
  "customer_keys db = (\<lambda>c. (c_id c, c_tenantId c)) ` set (customers db)"

definition package_keys :: "'x billing_db_scheme \<Rightarrow> (id \<times> id) set" where
  "package_keys db = (\<lambda>k. (k_id k, k_tenantId k)) ` set (packages db)"

definition service_keys :: "'x billing_db_scheme \<Rightarrow> (id \<times> id \<times> id) set" where
  "service_keys db = (\<lambda>s. (s_id s, s_tenantId s, s_customerId s)) ` set (services db)"

text \<open>
  Every subscription is of a customer and a package of its own tenant, and every account and
  every invoice of a subscription has that subscription's tenant and customer.
\<close>

definition rows_typed :: "'x billing_db_scheme \<Rightarrow> bool" where
  "rows_typed db \<longleftrightarrow>
     (\<forall>s \<in> set (services db). (s_customerId s, s_tenantId s) \<in> customer_keys db \<and> (s_packageId s, s_tenantId s) \<in> package_keys db)
     \<and> (\<forall>u \<in> set (radiusUsers db). (ru_customerServiceId u, ru_tenantId u, ru_customerId u) \<in> service_keys db)
     \<and> (\<forall>i \<in> set (invoices db). \<forall>s \<in> set_option (i_customerServiceId i). (s, i_tenantId i, i_customerId i) \<in> service_keys db)"

lemma keys_update:
  "(\<And>s. s_id (f s) = s_id s \<and> s_tenantId (f s) = s_tenantId s \<and> s_customerId (f s) = s_customerId s) \<Longrightarrow>
     (\<lambda>s. (s_id s, s_tenantId s, s_customerId s)) ` set (update_where p f t) = (\<lambda>s. (s_id s, s_tenantId s, s_customerId s)) ` set t"
  using map_update_where [where k = "\<lambda>s. (s_id s, s_tenantId s, s_customerId s)" and f = f] by (simp flip: set_map)

text \<open>Changes of subscriptions that keep whose they are; \<open>fresh\<close> is where a package may be new.\<close>

lemma rows_typed_step:
  assumes ok: "rows_typed db"
    and c: "customer_keys db \<subseteq> customer_keys db'" and k: "package_keys db \<subseteq> package_keys db'"
    and s: "service_keys db \<subseteq> service_keys db'"
      "\<And>x. x \<in> set (services db') \<Longrightarrow> (\<exists>y \<in> set (services db). s_customerId x = s_customerId y \<and> s_tenantId x = s_tenantId y
          \<and> s_packageId x = s_packageId y)
        \<or> ((s_customerId x, s_tenantId x) \<in> customer_keys db' \<and> (s_packageId x, s_tenantId x) \<in> package_keys db')"
    and u: "\<And>x. x \<in> set (radiusUsers db') \<Longrightarrow> (\<exists>y \<in> set (radiusUsers db). ru_customerServiceId x = ru_customerServiceId y
          \<and> ru_tenantId x = ru_tenantId y \<and> ru_customerId x = ru_customerId y)
        \<or> (ru_customerServiceId x, ru_tenantId x, ru_customerId x) \<in> service_keys db'"
    and i: "\<And>x. x \<in> set (invoices db') \<Longrightarrow> (\<exists>y \<in> set (invoices db). i_customerServiceId x = i_customerServiceId y
          \<and> i_tenantId x = i_tenantId y \<and> i_customerId x = i_customerId y)
        \<or> (\<forall>j \<in> set_option (i_customerServiceId x). (j, i_tenantId x, i_customerId x) \<in> service_keys db')"
  shows "rows_typed db'"
  unfolding rows_typed_def
proof (intro conjI ballI)
  fix x assume x: "x \<in> set (services db')"
  show "(s_customerId x, s_tenantId x) \<in> customer_keys db'" "(s_packageId x, s_tenantId x) \<in> package_keys db'"
    using s(2) [OF x] ok c k unfolding rows_typed_def by (metis subsetD)+
next
  fix x assume x: "x \<in> set (radiusUsers db')"
  show "(ru_customerServiceId x, ru_tenantId x, ru_customerId x) \<in> service_keys db'"
    using u [OF x] ok s(1) unfolding rows_typed_def by (metis subsetD)
next
  fix x j assume x: "x \<in> set (invoices db')" and j: "j \<in> set_option (i_customerServiceId x)"
  show "(j, i_tenantId x, i_customerId x) \<in> service_keys db'"
    using i [OF x] j ok s(1) unfolding rows_typed_def by (metis subsetD)
qed

lemma rows_typed_update:
  assumes ok: "rows_typed db"
    and f: "\<And>x. s_id (f x) = s_id x \<and> s_tenantId (f x) = s_tenantId x \<and> s_customerId (f x) = s_customerId x \<and> s_packageId (f x) = s_packageId x"
    and db': "services db' = update_where p f (services db)" "customers db' = customers db" "packages db' = packages db"
      "invoices db' = invoices db"
    and u: "\<And>x. x \<in> set (radiusUsers db') \<Longrightarrow> \<exists>y \<in> set (radiusUsers db). ru_customerServiceId x = ru_customerServiceId y
          \<and> ru_tenantId x = ru_tenantId y \<and> ru_customerId x = ru_customerId y"
  shows "rows_typed db'"
proof (rule rows_typed_step [OF ok])
  show "(\<exists>y \<in> set (services db). s_customerId x = s_customerId y \<and> s_tenantId x = s_tenantId y \<and> s_packageId x = s_packageId y)
      \<or> (s_customerId x, s_tenantId x) \<in> customer_keys db' \<and> (s_packageId x, s_tenantId x) \<in> package_keys db'"
    if "x \<in> set (services db')" for x
    using that f unfolding db' update_where_def by force
qed (use f u in \<open>auto simp: customer_keys_def package_keys_def service_keys_def db' keys_update\<close>)

lemma radius_after_keys:
  assumes "x \<in> set (radiusUsers (radius_after a t i db))"
  shows "\<exists>y \<in> set (radiusUsers db). ru_customerServiceId x = ru_customerServiceId y \<and> ru_tenantId x = ru_tenantId y \<and> ru_customerId x = ru_customerId y"
proof -
  have "\<exists>u st. radiusUsers (radius_after a t i db) = radiusUsers db \<or> radiusUsers (radius_after a t i db) = set_radius_status u st (radiusUsers db)"
    by (auto simp: radius_after_def suspendRadiusUser_def reactivateRadiusUser_def Let_def split: sum.splits)
  with assms show ?thesis by (force simp: set_radius_status_def update_where_def)
qed

lemma rows_typed_cong:
  assumes "rows_typed db" and "services db' = services db" "radiusUsers db' = radiusUsers db" "invoices db' = invoices db"
    "customers db' = customers db" "packages db' = packages db"
  shows "rows_typed db'"
  using assms unfolding rows_typed_def customer_keys_def package_keys_def service_keys_def by simp

lemma switch_typed: "rows_typed db \<Longrightarrow> rows_typed (switch a t i db)"
  by (rule rows_typed_update [of db "\<lambda>s. s\<lparr>s_status := service_target a\<rparr>" _ "\<lambda>s. s_id s = i"])
    (auto simp: switch_def radius_after_update_service dest: radius_after_keys)

lemma update_service_typed:
  assumes "rows_typed db"
    and "\<And>x. s_id (f x) = s_id x \<and> s_tenantId (f x) = s_tenantId x \<and> s_customerId (f x) = s_customerId x \<and> s_packageId (f x) = s_packageId x"
  shows "rows_typed (update_service i f db)"
  by (rule rows_typed_update [OF assms, where p = "\<lambda>s. s_id s = i"]) auto

lemma queueNetworkChange_typed [simp]: "rows_typed (queueNetworkChange t i c db) \<longleftrightarrow> rows_typed db"
  unfolding rows_typed_def customer_keys_def package_keys_def service_keys_def by simp

lemma pause_typed:
  assumes ok: "rows_typed db"
  shows "rows_typed (snd (pauseSubscription prefs t i days who db))"
proof (cases rule: pauseSubscription_cases [of prefs t i days who db])
  case (1 e)
  then show ?thesis using ok by simp
next
  case (2 s)
  have "rows_typed (update_service i (paused_row (clock db) \<lfloor>days\<rfloor> (s_nextBillingAt s)) (switch suspend_access t i db))"
    by (rule update_service_typed [OF switch_typed [OF ok]]) simp
  then show ?thesis unfolding 2(4) snd_conv by (rule rows_typed_cong) simp_all
qed

lemma suspend_typed: "rows_typed db \<Longrightarrow> rows_typed (snd (suspendSubscription t i db))"
  by (auto simp: suspendSubscription_eq switch_typed split: sum.splits)

lemma reactivate_typed: "rows_typed db \<Longrightarrow> rows_typed (snd (reactivateSubscription t i db))"
  by (auto simp: reactivateSubscription_eq switch_typed split: sum.splits)

lemma pause_ended_typed:
  assumes "rows_typed db"
  shows "rows_typed (pause_ended i s u db)"
  by (rule rows_typed_update [OF assms, where p = "\<lambda>x. s_id x = i"
        and f = "\<lambda>x. x\<lparr>s_pausedUntil := None, s_nextBillingAt := s_nextBillingAt s - unused_of i u db * day_ms\<rparr>"]) auto

lemma resume_typed: "rows_typed db \<Longrightarrow> rows_typed (snd (resumeSubscription t i db))"
  by (auto simp: resumeSubscription_eq Let_def split: sum.splits option.splits intro: pause_ended_typed reactivate_typed)

lemma resume_all_typed: "rows_typed db \<Longrightarrow> rows_typed (snd (resume_all due a b db))"
proof (induction due a b db rule: resume_all.induct)
  case (2 t i due a b db)
  then show ?case using resume_typed [OF 2(3), of t i] by (auto split: prod.splits sum.splits)
qed simp

lemma fold_suspend_typed:
  "access_ok (snd st) \<Longrightarrow> rows_typed (snd st) \<Longrightarrow> rows_typed (snd (fold suspend_step ids st))"
proof (induction ids arbitrary: st)
  case (Cons i ids)
  obtain a db where st: "st = (a, db)" by (cases st)
  have "rows_typed (snd (suspend_step i (a, db)))"
    using Cons.prems suspend_step_eq [of db i a] by (auto simp: st access_okD switch_typed split: option.splits)
  then show ?case using Cons suspend_step_access [of db i a] by (simp add: st)
qed simp

lemma fold_reactivate_typed:
  "rows_typed (snd st) \<Longrightarrow> rows_typed (snd (fold reactivate_step subs st))"
  "rows_typed db \<Longrightarrow> rows_typed (fold reactivate_one subs db)"
proof (induction subs arbitrary: st db)
  case (Cons sub subs)
  { case 1
    then have "rows_typed (snd (reactivate_step sub st))"
      by (cases st) (simp add: reactivate_step_def reactivate_one_eq switch_typed)
    then show ?case using Cons.IH(1) by simp
  next
    case 2
    then show ?case using Cons.IH(2) by (simp add: reactivate_one_eq switch_typed)
  }
qed simp_all

lemma renew_one_typed:
  assumes ok: "rows_typed db" and r: "renew_one sid db = Inr db'"
  shows "rows_typed db'"
  using renew_one_shape [OF r]
proof (elim disjE exE conjE)
  fix s n bill
  assume s: "find_service sid db = Some s"
    and sv: "services db' = update_where (\<lambda>x. s_id x = s_id s) (\<lambda>x. x\<lparr>s_nextBillingAt := addDays (s_nextBillingAt s) n\<rparr>) (services db)"
    and inv: "invoices db' = invoices db @ [bill]" "i_tenantId bill = s_tenantId s" "i_customerId bill = s_customerId s"
      "i_customerServiceId bill = Some (s_id s)"
    and same: "radiusUsers db' = radiusUsers db" "customers db' = customers db" "packages db' = packages db"
  have mid: "rows_typed (db'\<lparr>invoices := invoices db\<rparr>)"
    by (rule rows_typed_update [OF ok, where p = "\<lambda>x. s_id x = s_id s"
          and f = "\<lambda>x. x\<lparr>s_nextBillingAt := addDays (s_nextBillingAt s) n\<rparr>"]) (simp_all add: sv same, blast)
  have keys: "service_keys db' = service_keys db" unfolding service_keys_def sv by (rule keys_update) simp
  have "(s_id s, i_tenantId bill, i_customerId bill) \<in> service_keys db'"
    using find_serviceD [OF s] unfolding inv keys by (force simp: service_keys_def)
  then show ?thesis
    using mid inv(1,4) unfolding rows_typed_def customer_keys_def package_keys_def service_keys_def by simp
qed (use ok in simp)

lemma renew_all_typed: "rows_typed db \<Longrightarrow> rows_typed (snd (renew_all ids a b db))"
  by (induction ids a b db rule: renew_all.induct) (auto dest: renew_one_typed split: sum.splits)

lemma subscribe_typed:
  assumes ok: "rows_typed db"
  shows "rows_typed (snd (subscribeCustomerToPackage enc pw t inp db))"
proof (cases "subscribeCustomerToPackage enc pw t inp db")
  case (Pair res db')
  show ?thesis
  proof (cases res)
    case (Inl e)
    then show ?thesis using ok Pair
      by (auto simp: subscribeCustomerToPackage_def Let_def split: sum.splits option.splits if_splits)
  next
    case (Inr sold)
    then obtain customer pkg ten start due db1 where
      c: "getCustomerOrThrow t (si_customerId inp) db = Inr customer" and k: "getPackageOrThrow t (si_packageId inp) db = Inr pkg"
      and tx: "subscribe_tx enc pw t inp customer pkg ten start due db = Inr (sold, db1)"
      and db': "db' = queueNetworkChange t (s_id (sr_subscription sold)) PROVISION db1"
      using Pair by (auto simp: subscribeCustomerToPackage_def Let_def split: sum.splits option.splits if_splits)
    obtain bill u db2 where s: "sr_subscription sold = new_subscription (nextId db) t inp customer pkg start due"
      and i: "createFirstInvoiceForSubscription (sr_subscription sold) pkg
         (db\<lparr>services := services db @ [sr_subscription sold], nextId := nextId db + 1\<rparr>) = Inr (bill, db2)"
      and p: "provisionRadiusUser enc pw
         \<lparr>pr_tenantId = t, pr_tenantSlug = t_slug ten, pr_customerId = c_id customer,
          pr_customerServiceId = s_id (sr_subscription sold), pr_customerNumber = c_customerNumber customer,
          pr_downloadKbps = k_downloadKbps pkg, pr_uploadKbps = k_uploadKbps pkg, pr_connectionType = None\<rparr> db2
         = Inr ((u, pw), db1)"
      by (rule subscribe_txE [OF tx])
    let ?s = "sr_subscription sold"
    have own: "s_tenantId ?s = t" "s_customerId ?s = c_id customer" "s_packageId ?s = k_id pkg"
      by (simp_all add: s new_subscription_def)
    have db2: "services db2 = services db @ [?s]" "radiusUsers db2 = radiusUsers db" "invoices db2 = invoices db @ [bill]"
      "customers db2 = customers db" "packages db2 = packages db"
      "i_customerServiceId bill = Some (s_id ?s)" "i_tenantId bill = s_tenantId ?s" "i_customerId bill = s_customerId ?s"
      using i by (auto simp: createFirstInvoiceForSubscription_def split: sum.splits dest!: createInvoice_shape)
    have new: "(s_id ?s, t, c_id customer) \<in> service_keys db1"
      using provisionRadiusUser_shape [OF p] own by (force simp: service_keys_def db2)
    have ck: "(c_id customer, t) \<in> customer_keys db1" "(k_id pkg, t) \<in> package_keys db1"
      using provisionRadiusUser_shape [OF p] getCustomerD [OF c] getPackageD [OF k]
      by (force simp: db2 customer_keys_def package_keys_def)+
    have "rows_typed db1"
    proof (rule rows_typed_step [OF ok])
      show "(\<exists>y \<in> set (services db). s_customerId x = s_customerId y \<and> s_tenantId x = s_tenantId y \<and> s_packageId x = s_packageId y)
          \<or> (s_customerId x, s_tenantId x) \<in> customer_keys db1 \<and> (s_packageId x, s_tenantId x) \<in> package_keys db1"
        if "x \<in> set (services db1)" for x
        using that provisionRadiusUser_shape [OF p] own ck by (auto simp: db2)
    qed (use provisionRadiusUser_shape [OF p] new own in
        \<open>auto simp: db2 customer_keys_def package_keys_def service_keys_def\<close>)
    then show ?thesis unfolding Pair db' by simp
  qed
qed

lemma changePackage_typed:
  assumes ok: "rows_typed db" and acc: "access_ok db"
  shows "rows_typed (snd (changeSubscriptionPackage t i k db))"
proof (cases "changeSubscriptionPackage t i k db")
  case (Pair res db')
  show ?thesis
  proof (cases res)
    case (Inl e)
    then show ?thesis using ok Pair by (auto simp: changeSubscriptionPackage_def Let_def split: sum.splits if_splits)
  next
    case (Inr x)
    then obtain s pkg where s: "getSubscriptionOrThrow t i db = Inr s" and k: "getPackageOrThrow t k db = Inr pkg"
      and db': "db' = queueNetworkChange t i PROVISION (update_service i (\<lambda>s. s\<lparr>s_provisioningStatus := PS_PENDING\<rparr>)
          (update_service i (\<lambda>s. s\<lparr>s_packageId := k\<rparr>) db))"
      using Pair by (auto simp: changeSubscriptionPackage_def Let_def split: sum.splits if_splits)
    note s = getSubscriptionD [OF s]
    have only: "y = s" if "y \<in> set (services db)" "s_id y = i" for y
      using services_key [OF access_okD(1) [OF acc] that(1), of s] that s by simp
    let ?db1 = "update_service i (\<lambda>s. s\<lparr>s_packageId := k\<rparr>) db"
    have keys: "service_keys ?db1 = service_keys db"
      unfolding service_keys_def update_service_frame by (rule keys_update) simp
    have "rows_typed ?db1"
    proof (rule rows_typed_step [OF ok])
      show "(\<exists>y \<in> set (services db). s_customerId x = s_customerId y \<and> s_tenantId x = s_tenantId y \<and> s_packageId x = s_packageId y)
          \<or> (s_customerId x, s_tenantId x) \<in> customer_keys ?db1 \<and> (s_packageId x, s_tenantId x) \<in> package_keys ?db1"
        if "x \<in> set (services ?db1)" for x
      proof (cases "x \<in> set (services db)")
        case False
        with that have "x = s\<lparr>s_packageId := k\<rparr>" using only by (auto simp: set_update_where)
        then show ?thesis
          using ok s getPackageD [OF k] by (auto simp: rows_typed_def customer_keys_def package_keys_def image_iff)
      qed blast
    qed (use keys in \<open>auto simp: customer_keys_def package_keys_def\<close>)
    then show ?thesis unfolding Pair db' by (simp add: update_service_typed)
  qed
qed

lemma update_customer_typed:
  assumes "rows_typed db" and "\<And>c. c_id (f c) = c_id c \<and> c_tenantId (f c) = c_tenantId c"
  shows "rows_typed (update_customer i f db)"
proof -
  have "customer_keys (update_customer i f db) = customer_keys db"
    using map_update_where [where k = "\<lambda>c. (c_id c, c_tenantId c)" and f = f] assms(2)
    by (simp add: customer_keys_def update_customer_def flip: set_map)
  then show ?thesis
    using assms(1) by (simp add: rows_typed_def package_keys_def service_keys_def) (simp add: update_customer_def)
qed

lemma update_package_typed:
  assumes "rows_typed db" and "\<And>k. k_id (f k) = k_id k \<and> k_tenantId (f k) = k_tenantId k"
  shows "rows_typed (update_package i f db)"
proof -
  have "package_keys (update_package i f db) = package_keys db"
    using map_update_where [where k = "\<lambda>k. (k_id k, k_tenantId k)" and f = f] assms(2)
    by (simp add: package_keys_def update_package_def flip: set_map)
  then show ?thesis
    using assms(1) by (simp add: rows_typed_def customer_keys_def service_keys_def) (simp add: update_package_def)
qed

lemma perform_typed:
  assumes ok: "rows_typed db" and acc: "access_ok db"
  shows "rows_typed (perform op db)"
proof (cases op)
  case (Add_customer t inp)
  have "rows_typed db'" if "createCustomer t inp db = Inr (c, db')" for c db'
    using createCustomer_shape [OF that] ok by (auto simp: rows_typed_def customer_keys_def package_keys_def service_keys_def)
  then show ?thesis using ok Add_customer by (cases "createCustomer t inp db") auto
next
  case (Add_package t inp)
  have "rows_typed db'" if "createPackage t inp db = Inr (k, db')" for k db'
    using package_ops_shape(1) [OF that] ok by (auto simp: rows_typed_def customer_keys_def package_keys_def service_keys_def)
  then show ?thesis using ok Add_package by (cases "createPackage t inp db") auto
next
  case (Edit_customer t i inp)
  then show ?thesis using ok
    by (cases "updateCustomer t i inp db") (auto simp: apply_customer_input_def intro!: update_customer_typed dest!: customer_ops_shape(1))
next
  case (Set_customer_status t i st)
  then show ?thesis using ok
    by (cases "changeCustomerStatus t i st db") (auto intro!: update_customer_typed dest!: customer_ops_shape(2))
next
  case (Link_login t i email auth)
  then show ?thesis using ok
    by (cases "linkCustomerToUserAccount t i email auth db") (auto intro!: update_customer_typed dest!: customer_ops_shape(3))
next
  case (Edit_package t i inp)
  then show ?thesis using ok
    by (cases "updatePackage t i inp db") (auto simp: apply_package_input_def intro!: update_package_typed dest!: package_ops_shape(2))
next
  case (Set_package_active t i b)
  then show ?thesis using ok
    by (cases "setPackageActive t i b db") (auto intro!: update_package_typed dest!: package_ops_shape(3))
next
  case Mark_overdue
  have "rows_typed (snd (markOverdueInvoices db))"
    using ok by (auto simp: markOverdueInvoices_def Let_def rows_typed_def customer_keys_def package_keys_def service_keys_def set_update_where)
  then show ?thesis using Mark_overdue by simp
next
  case (Time_passes n)
  show ?thesis unfolding Time_passes by (rule rows_typed_cong [OF ok]) simp_all
next
  case (Cancel_plan t i)
  then show ?thesis using ok by (auto simp: cancelSubscription_def Let_def intro!: update_service_typed split: sum.splits)
next
  case Renew_due
  then show ?thesis using renew_all_typed [OF ok, of "map s_id (filter (is_due (clock db)) (services db))" 0 0]
    by (auto simp: generateDueRenewalInvoices_def Let_def split: prod.splits)
next
  case (Suspend_overdue g)
  then show ?thesis using fold_suspend_typed [of "(0, db)"] ok acc
    by (auto simp: suspendOverdueSubscriptions_def Let_def split: prod.splits) (metis snd_conv)
next
  case Reactivate_cleared
  then show ?thesis using fold_reactivate_typed(1) [of "(0, db)" "filter (may_reactivate (clock db)) (services db)"] ok
    by (auto simp: reactivateClearedSubscriptions_def Let_def split: prod.splits)
next
  case (Restore_after_payment t c)
  then show ?thesis using ok fold_reactivate_typed(2) [OF ok]
    by (auto simp: restoreServiceAfterPayment_def reactivateCustomerIfCleared_def Let_def split: option.splits)
qed (use ok acc in \<open>simp_all add: subscribe_typed changePackage_typed suspend_typed reactivate_typed pause_typed resume_typed
    resumeDuePauses_def Let_def resume_all_typed\<close>)

text \<open>
  C15. Tenants never mix. Whatever operations run, in whatever order, every subscription is of a
  customer and a package of its own tenant, and every network account and every invoice made for
  a subscription carries that subscription's tenant and customer.
\<close>

theorem rows_stay_in_their_tenant:
  assumes "rows_typed db" and "access_ok db"
  shows "rows_typed (run_ops ops db)"
  using assms by (induction ops arbitrary: db) (simp_all add: run_ops_def perform_access perform_typed)

theorem rows_stay_in_their_tenant_witness:
  "rows_typed (run_ops [Sell (\<lambda>x. x) ''pw'' 7 sample_sale, Suspend_plan 7 100] selling_db)"
  by (rule rows_stay_in_their_tenant)
    (simp_all add: selling_db_ok, simp add: rows_typed_def selling_db_def empty_db_def)

end
