(* ===== verification/Provisioning.thy ===== *)
theory Provisioning imports Subscriptions begin

text \<open>
  packages/radius/src/provisioning.service.ts, effectiveRateFor and refreshSubscriberRate of
  rate.service.ts, and the queue pass of apps/worker/src/jobs/run-provisioning-jobs.ts: the
  engine that carries a subscription's network changes to a router. A router is reached through
  an adapter, the record \<open>device_adapter\<close> of its calls on a device state \<open>'d\<close>; which adapter a
  router gets and the decryption of stored passwords are arguments. The text messages to
  customers are left out.
\<close>

section \<open>Data\<close>

datatype job_status = J_PENDING | J_PROCESSING | J_SUCCEEDED | J_FAILED | J_CANCELLED

record package_network =
  pn_packageId :: id
  pn_routerId :: "id option"
  pn_vlanId :: "id option"
  pn_serviceType :: string
  pn_pppoeProfile :: "string option"
  pn_hotspotProfile :: "string option"

record vlan =
  vl_id :: id
  vl_vlanTag :: nat
  vl_routerId :: "id option"

record device_router =
  dr_id :: id
  dr_name :: string
  dr_host :: "string option"
  dr_apiPort :: nat

text \<open>Add-ons and what was bought of them. A purchase copies its add-on, and starts when it is paid.\<close>

datatype add_on_kind = SPEED | DATA
datatype purchase_status = AWAITING_PAYMENT | PURCHASE_ACTIVE | PURCHASE_EXPIRED | PURCHASE_CANCELLED

record add_on =
  ao_id :: id
  ao_tenantId :: id
  ao_name :: string
  ao_kind :: add_on_kind
  ao_downloadKbps :: "int option"
  ao_uploadKbps :: "int option"
  ao_dataMb :: "int option"
  ao_durationHours :: int
  ao_priceMinor :: minor
  ao_currency :: string
  ao_isActive :: bool
  ao_deletedAt :: "time option"

record add_on_purchase =
  ap_id :: id
  ap_tenantId :: id
  ap_customerId :: id
  ap_customerServiceId :: id
  ap_addOnId :: "id option"
  ap_invoiceId :: "id option"
  ap_status :: purchase_status
  ap_name :: string
  ap_kind :: add_on_kind
  ap_downloadKbps :: "int option"
  ap_uploadKbps :: "int option"
  ap_dataMb :: "int option"
  ap_durationHours :: int
  ap_priceMinor :: minor
  ap_currency :: string
  ap_requestedBy :: string
  ap_startsAt :: "time option"
  ap_endsAt :: "time option"
  ap_createdAt :: time

record provisioning_step =
  ps_step :: string
  ps_ok :: bool
  ps_detail :: string

record provisioning_plan =
  pl_customerServiceId :: id
  pl_customerId :: id
  pl_tenantId :: id
  pl_routerId :: id
  pl_routerName :: string
  pl_vlanId :: "id option"
  pl_vlanTag :: "nat option"
  pl_vlanInterfaceName :: "string option"
  pl_serviceType :: string
  pl_pppoeProfile :: "string option"
  pl_hotspotProfile :: "string option"
  pl_username :: string
  pl_downloadKbps :: int
  pl_uploadKbps :: int
  pl_rateLimit :: string

datatype job_outcome =
    Applied string string "nat option"
  | Suspended_user string
  | Restored string string
  | Deprovisioned string

record provisioning_job =
  pj_id :: id
  pj_tenantId :: id
  pj_customerId :: id
  pj_customerServiceId :: id
  pj_vlanId :: "id option"
  pj_routerId :: "id option"
  pj_operation :: network_op
  pj_status :: job_status
  pj_idempotencyKey :: string
  pj_attempts :: nat
  pj_maxAttempts :: nat
  pj_lastError :: "string option"
  pj_payload :: "string + provisioning_plan"
  pj_result :: "job_outcome option"
  pj_createdAt :: time
  pj_startedAt :: "time option"
  pj_completedAt :: "time option"

record provisioning_log =
  lg_jobId :: id
  lg_attempt :: nat
  lg_succeeded :: bool
  lg_message :: string
  lg_steps :: "provisioning_step list"

record provisioning_db = billing_db +
  packageNetworks :: "package_network list"
  vlans :: "vlan list"
  deviceRouters :: "device_router list"
  addOns :: "add_on list"
  addOnPurchases :: "add_on_purchase list"
  provisioningJobs :: "provisioning_job list"
  provisioningLogs :: "provisioning_log list"

section \<open>The intended configuration\<close>

definition is_text :: "string option \<Rightarrow> bool" where
  "is_text s \<longleftrightarrow> s \<noteq> None \<and> s \<noteq> Some ''''"

definition ProvisioningNotConfiguredError :: "string \<Rightarrow> app_error" where
  "ProvisioningNotConfiguredError msg = ConflictError msg"

text \<open>\<open>err.message\<close> of what the engine can catch.\<close>

fun error_text :: "app_error \<Rightarrow> string" where
  "error_text (NotFoundError resource) = resource @ '' was not found''"
| "error_text (ConflictError msg) = msg"
| "error_text (ValidationError msg) = msg"
| "error_text (UnexpectedError msg) = msg"
| "error_text _ = ''database error''"

definition started_by :: "time \<Rightarrow> add_on_purchase \<Rightarrow> bool" where
  "started_by now p \<longleftrightarrow> (case ap_startsAt p of None \<Rightarrow> False | Some t \<Rightarrow> t \<le> now)"

definition ends_after :: "time \<Rightarrow> add_on_purchase \<Rightarrow> bool" where
  "ends_after now p \<longleftrightarrow> (case ap_endsAt p of None \<Rightarrow> False | Some t \<Rightarrow> now < t)"

definition effectiveRateFor :: "id \<Rightarrow> rate \<Rightarrow> 'x provisioning_db_scheme \<Rightarrow> rate" where
  "effectiveRateFor customerServiceId plan db =
     pickEffectiveRate plan (map (\<lambda>b. (ap_downloadKbps b, ap_uploadKbps b))
       (filter (\<lambda>b. ap_customerServiceId b = customerServiceId \<and> ap_kind b = SPEED \<and> ap_status b = PURCHASE_ACTIVE
           \<and> started_by (clock db) b \<and> ends_after (clock db) b) (addOnPurchases db)))"

definition find_router :: "id option \<Rightarrow> 'x provisioning_db_scheme \<Rightarrow> device_router option" where
  "find_router i db = (case i of None \<Rightarrow> None | Some k \<Rightarrow> List.find (\<lambda>r. dr_id r = k) (deviceRouters db))"

definition buildProvisioningPlan :: "id \<Rightarrow> 'x provisioning_db_scheme \<Rightarrow> provisioning_plan result" where
  "buildProvisioningPlan customerServiceId db =
     (case find_service customerServiceId db of
        None \<Rightarrow> Inl (NotFoundError ''Subscription'')
      | Some s \<Rightarrow>
     (case (find_package (s_packageId s) db, List.find (\<lambda>n. pn_packageId n = s_packageId s) (packageNetworks db)) of
        (Some pkg, Some net) \<Rightarrow>
          let vlan = (case pn_vlanId net of None \<Rightarrow> None | Some v \<Rightarrow> List.find (\<lambda>x. vl_id x = v) (vlans db));
              router = (case find_router (pn_routerId net) db of
                  Some r \<Rightarrow> Some r
                | None \<Rightarrow> (case vlan of None \<Rightarrow> None | Some v \<Rightarrow> find_router (vl_routerId v) db))
          in (case router of
                None \<Rightarrow> Inl (ProvisioningNotConfiguredError
                  (''Package \"'' @ k_name pkg @ ''\" has no router assigned, and neither does its VLAN. ''
                   @ ''Set a router on the package before provisioning subscribers on it.''))
              | Some r \<Rightarrow>
                  if \<not> is_text (dr_host r)
                  then Inl (ProvisioningNotConfiguredError
                    (''Router \"'' @ dr_name r @ ''\" has never checked in, so it has no address to configure. ''
                     @ ''Run its provisioning script or set its host manually.''))
                  else (case List.find (\<lambda>u. ru_customerServiceId u = customerServiceId) (radiusUsers db) of
                      None \<Rightarrow> Inl (ProvisioningNotConfiguredError
                        (''This subscription has no network account yet. Create its RADIUS user before provisioning.''))
                    | Some u \<Rightarrow>
                        let rate = effectiveRateFor (s_id s) (Rate (k_downloadKbps pkg) (k_uploadKbps pkg)) db
                        in Inr \<lparr>pl_customerServiceId = s_id s, pl_customerId = s_customerId s, pl_tenantId = s_tenantId s,
                             pl_routerId = dr_id r, pl_routerName = dr_name r, pl_vlanId = map_option vl_id vlan,
                             pl_vlanTag = map_option vl_vlanTag vlan,
                             pl_vlanInterfaceName = map_option (\<lambda>v. ''vlan'' @ nat_to_string (vl_vlanTag v)) vlan,
                             pl_serviceType = pn_serviceType net, pl_pppoeProfile = pn_pppoeProfile net,
                             pl_hotspotProfile = pn_hotspotProfile net, pl_username = ru_username u,
                             pl_downloadKbps = downloadKbps rate, pl_uploadKbps = uploadKbps rate,
                             pl_rateLimit = int_to_string (uploadKbps rate) @ ''k/'' @ int_to_string (downloadKbps rate) @ ''k''\<rparr>))
      | _ \<Rightarrow> Inl RecordNotFound))"

section \<open>Queueing\<close>

definition op_name :: "network_op \<Rightarrow> string" where
  "op_name operation = (case operation of PROVISION \<Rightarrow> ''PROVISION'' | SUSPEND \<Rightarrow> ''SUSPEND''
     | RESTORE \<Rightarrow> ''RESTORE'' | DEPROVISION \<Rightarrow> ''DEPROVISION'')"

definition idempotencyKeyFor :: "id \<Rightarrow> network_op \<Rightarrow> string \<Rightarrow> string" where
  "idempotencyKeyFor customerServiceId operation fingerprint =
     nat_to_string customerServiceId @ '':'' @ op_name operation @ '':'' @ fingerprint"

definition fingerprint_of :: "provisioning_plan result \<Rightarrow> string" where
  "fingerprint_of plan =
     (case plan of
        Inr p \<Rightarrow> nat_to_string (pl_routerId p) @ ''|''
          @ (case pl_vlanTag p of Some t \<Rightarrow> nat_to_string t | None \<Rightarrow> ''-'') @ ''|'' @ pl_rateLimit p @ ''|''
          @ (case pl_pppoeProfile p of Some x \<Rightarrow> x | None \<Rightarrow> ''-'')
      | Inl _ \<Rightarrow> ''unconfigured'')"

definition update_job :: "id \<Rightarrow> (provisioning_job \<Rightarrow> provisioning_job) \<Rightarrow> 'x provisioning_db_scheme \<Rightarrow> 'x provisioning_db_scheme" where
  "update_job i f db = db\<lparr>provisioningJobs := update_where (\<lambda>j. pj_id j = i) f (provisioningJobs db)\<rparr>"

definition find_job :: "id \<Rightarrow> 'x provisioning_db_scheme \<Rightarrow> provisioning_job option" where
  "find_job i db = List.find (\<lambda>j. pj_id j = i) (provisioningJobs db)"

definition requeued :: "provisioning_job \<Rightarrow> provisioning_job" where
  "requeued j = j\<lparr>pj_status := J_PENDING, pj_attempts := 0, pj_lastError := None, pj_startedAt := None, pj_completedAt := None\<rparr>"

definition MAX_ATTEMPTS :: nat where
  "MAX_ATTEMPTS = 5"

definition new_job ::
  "id \<Rightarrow> id \<Rightarrow> service \<Rightarrow> network_op \<Rightarrow> string \<Rightarrow> provisioning_plan result \<Rightarrow> time \<Rightarrow> provisioning_job" where
  "new_job newId tenantId s operation key plan now =
     \<lparr>pj_id = newId, pj_tenantId = tenantId, pj_customerId = s_customerId s, pj_customerServiceId = s_id s,
      pj_vlanId = (case plan of Inr p \<Rightarrow> pl_vlanId p | Inl _ \<Rightarrow> None),
      pj_routerId = (case plan of Inr p \<Rightarrow> Some (pl_routerId p) | Inl _ \<Rightarrow> None),
      pj_operation = operation, pj_status = (case plan of Inr _ \<Rightarrow> J_PENDING | Inl _ \<Rightarrow> J_FAILED),
      pj_idempotencyKey = key, pj_attempts = 0, pj_maxAttempts = MAX_ATTEMPTS,
      pj_lastError = (case plan of Inr _ \<Rightarrow> None | Inl e \<Rightarrow> Some (error_text e)),
      pj_payload = (case plan of Inr p \<Rightarrow> Inr p | Inl e \<Rightarrow> Inl (error_text e)), pj_result = None,
      pj_createdAt = now, pj_startedAt = None,
      pj_completedAt = (case plan of Inr _ \<Rightarrow> None | Inl _ \<Rightarrow> Some now)\<rparr>"

text \<open>The job and whether it was already there.\<close>

definition enqueueProvisioningJob ::
  "id \<Rightarrow> id \<Rightarrow> network_op \<Rightarrow> 'x provisioning_db_scheme \<Rightarrow> (provisioning_job \<times> bool) result \<times> 'x provisioning_db_scheme" where
  "enqueueProvisioningJob tenantId customerServiceId operation db =
     (let plan = buildProvisioningPlan customerServiceId db
      in case find_service customerServiceId db of
           None \<Rightarrow> (Inl RecordNotFound, db)
         | Some s \<Rightarrow>
             let key = idempotencyKeyFor customerServiceId operation (fingerprint_of plan)
             in case List.find (\<lambda>j. pj_idempotencyKey j = key) (provisioningJobs db) of
                  Some existing \<Rightarrow>
                    if pj_status existing = J_PENDING \<or> pj_status existing = J_PROCESSING then (Inr (existing, True), db)
                    else (Inr (requeued existing, True), update_job (pj_id existing) requeued db)
                | None \<Rightarrow>
                    let job = new_job (nextId db) tenantId s operation key plan (clock db);
                        db1 = db\<lparr>provisioningJobs := provisioningJobs db @ [job], nextId := nextId db + 1\<rparr>
                    in case plan of
                         Inr _ \<Rightarrow> (Inr (job, False), db1)
                       | Inl e \<Rightarrow>
                           (Inr (job, False),
                            update_service customerServiceId (\<lambda>s. s\<lparr>s_provisioningStatus := PS_FAILED\<rparr>)
                              (db1\<lparr>provisioningLogs := provisioningLogs db1 @
                                 [\<lparr>lg_jobId = pj_id job, lg_attempt = 0, lg_succeeded = False, lg_message = error_text e, lg_steps = []\<rparr>]\<rparr>)))"

definition retryProvisioningJob ::
  "id \<Rightarrow> id \<Rightarrow> 'x provisioning_db_scheme \<Rightarrow> provisioning_job result \<times> 'x provisioning_db_scheme" where
  "retryProvisioningJob tenantId jobId db =
     (case List.find (\<lambda>j. pj_id j = jobId \<and> pj_tenantId j = tenantId) (provisioningJobs db) of
        None \<Rightarrow> (Inl (NotFoundError ''Provisioning job''), db)
      | Some job \<Rightarrow>
          if pj_status job = J_PENDING \<or> pj_status job = J_PROCESSING
          then (Inl (ConflictError (''This job is already queued '' @ em_dash @ '' it will run on its own.'')), db)
          else if pj_status job = J_SUCCEEDED
          then (Inl (ConflictError ''This job already succeeded. Queue a new one to re-apply configuration.''), db)
          else (Inr (requeued job), update_job jobId requeued db))"

definition listRunnableJobs :: "nat \<Rightarrow> 'x provisioning_db_scheme \<Rightarrow> provisioning_job list" where
  "listRunnableJobs limit db =
     take limit (sort_key pj_createdAt (filter (\<lambda>j. pj_status j = J_PENDING) (provisioningJobs db)))"

section \<open>The device\<close>

record device_vlan =
  dv_name :: string
  dv_vlanId :: nat
  dv_disabled :: bool

record device_user =
  du_username :: string
  du_password :: string
  du_profile :: "string option"
  du_comment :: string

text \<open>The calls of an adapter the engine makes; a device that cannot list has \<open>None\<close>.\<close>

record 'd device_adapter =
  connect :: "'d \<Rightarrow> unit result \<times> 'd"
  disconnect :: "'d \<Rightarrow> unit result \<times> 'd"
  listVlanInterfaces :: "('d \<Rightarrow> device_vlan list result \<times> 'd) option"
  listPppProfiles :: "('d \<Rightarrow> string list result \<times> 'd) option"
  createUser :: "device_user \<Rightarrow> 'd \<Rightarrow> unit result \<times> 'd"
  updateUser :: "string \<Rightarrow> string option \<Rightarrow> 'd \<Rightarrow> unit result \<times> 'd"
  disableUser :: "string \<Rightarrow> 'd \<Rightarrow> unit result \<times> 'd"
  enableUser :: "string \<Rightarrow> 'd \<Rightarrow> unit result \<times> 'd"
  disconnectUser :: "string \<Rightarrow> 'd \<Rightarrow> unit result \<times> 'd"

text \<open>A run reads and writes the database, the device and the list of steps so far.\<close>

record ('d, 'x) job_run =
  jr_db :: "'x provisioning_db_scheme"
  jr_device :: 'd
  jr_steps :: "provisioning_step list"

type_synonym ('d, 'x, 'a) run_action = "('d, 'x) job_run \<Rightarrow> 'a result \<times> ('d, 'x) job_run"

definition and_then :: "('d, 'x, 'a) run_action \<Rightarrow> ('a \<Rightarrow> ('d, 'x, 'b) run_action) \<Rightarrow> ('d, 'x, 'b) run_action" where
  "and_then act k st = (case act st of (Inl e, st') \<Rightarrow> (Inl e, st') | (Inr x, st') \<Rightarrow> k x st')"

definition on_error :: "('d, 'x, 'a) run_action \<Rightarrow> ('d, 'x, 'a) run_action \<Rightarrow> ('d, 'x, 'a) run_action" where
  "on_error act handler st = (case act st of (Inl _, st') \<Rightarrow> handler st' | (Inr x, st') \<Rightarrow> (Inr x, st'))"

definition give :: "'a \<Rightarrow> ('d, 'x, 'a) run_action" where
  "give x st = (Inr x, st)"

definition throw :: "app_error \<Rightarrow> ('d, 'x, 'a) run_action" where
  "throw e st = (Inl e, st)"

definition on_device :: "('d \<Rightarrow> 'a result \<times> 'd) \<Rightarrow> ('d, 'x, 'a) run_action" where
  "on_device call st = (let (r, d) = call (jr_device st) in (r, st\<lparr>jr_device := d\<rparr>))"

definition record_step :: "string \<Rightarrow> bool \<Rightarrow> string \<Rightarrow> ('d, 'x, unit) run_action" where
  "record_step s b detail st =
     (Inr (), st\<lparr>jr_steps := jr_steps st @ [\<lparr>ps_step = s, ps_ok = b, ps_detail = detail\<rparr>]\<rparr>)"

section \<open>Applying a job\<close>

definition verify_vlan :: "'d device_adapter \<Rightarrow> provisioning_plan \<Rightarrow> ('d, 'x, unit) run_action" where
  "verify_vlan adapter plan =
     (case (pl_vlanTag plan, pl_vlanInterfaceName plan) of
        (Some tag, Some _) \<Rightarrow>
          (case listVlanInterfaces adapter of
             None \<Rightarrow> throw (UnexpectedError
               (''This router's adapter cannot manage VLAN interfaces, but the package requires VLAN '' @ nat_to_string tag
                @ ''. Configure the VLAN on the device manually, or remove it from the package.''))
           | Some list \<Rightarrow>
               and_then (on_device list) (\<lambda>existing.
                 case List.find (\<lambda>v. dv_vlanId v = tag) existing of
                   None \<Rightarrow> throw (UnexpectedError
                     (''VLAN '' @ nat_to_string tag @ '' is not configured on router \"'' @ pl_routerName plan
                      @ ''\". Provision the VLAN on the device before putting subscribers on it.''))
                 | Some found \<Rightarrow>
                     if dv_disabled found
                     then throw (UnexpectedError
                       (''VLAN '' @ nat_to_string tag @ '' exists on \"'' @ pl_routerName plan @ ''\" but is disabled.''))
                     else record_step ''verify-vlan'' True (dv_name found @ '' (tag '' @ nat_to_string (dv_vlanId found) @ '')'')))
      | _ \<Rightarrow> give ())"

fun join_names :: "string list \<Rightarrow> string" where
  "join_names [] = ''''"
| "join_names [x] = x"
| "join_names (x # xs) = x @ '', '' @ join_names xs"

definition verify_profile :: "'d device_adapter \<Rightarrow> provisioning_plan \<Rightarrow> ('d, 'x, unit) run_action" where
  "verify_profile adapter plan =
     (case (pl_pppoeProfile plan, listPppProfiles adapter) of
        (Some wanted, Some list) \<Rightarrow>
          if wanted = '''' then give ()
          else and_then (on_device list) (\<lambda>profiles.
            if wanted \<notin> set profiles
            then throw (UnexpectedError
              (''PPPoE profile \"'' @ wanted @ ''\" does not exist on router \"'' @ pl_routerName plan @ ''\". Available: ''
               @ (if join_names profiles = '''' then ''(none)'' else join_names profiles) @ ''.''))
            else record_step ''verify-profile'' True wanted)
      | _ \<Rightarrow> give ())"

text \<open>The profile a patch or a new account carries, when the plan names one.\<close>

definition profile_patch :: "provisioning_plan \<Rightarrow> string option" where
  "profile_patch plan = (if is_text (pl_pppoeProfile plan) then pl_pppoeProfile plan else None)"

definition applyRateLimitAttribute :: "string \<Rightarrow> string \<Rightarrow> ('d, 'x, unit) run_action" where
  "applyRateLimitAttribute username rateLimit st =
     (Inr (), st\<lparr>jr_db := (jr_db st)\<lparr>radReplies :=
        delete_rows username ''Mikrotik-Rate-Limit'' (radReplies (jr_db st))
          @ [\<lparr>rr_username = username, rr_attribute = ''Mikrotik-Rate-Limit'', rr_op = ''='', rr_value = rateLimit\<rparr>]\<rparr>\<rparr>)"

definition resolveRadiusPassword :: "(string \<Rightarrow> string) \<Rightarrow> id \<Rightarrow> ('d, 'x, string) run_action" where
  "resolveRadiusPassword decryptAtRest customerServiceId st =
     (case List.find (\<lambda>u. ru_customerServiceId u = customerServiceId) (radiusUsers (jr_db st)) of
        None \<Rightarrow> (Inl RecordNotFound, st)
      | Some u \<Rightarrow> (Inr (decryptAtRest (ru_passwordEncrypted u)), st))"

definition account_for :: "provisioning_plan \<Rightarrow> string \<Rightarrow> device_user" where
  "account_for plan password =
     \<lparr>du_username = pl_username plan, du_password = password, du_profile = profile_patch plan,
      du_comment = ''mashupkgrid service '' @ nat_to_string (pl_customerServiceId plan)\<rparr>"

definition update_or_create :: "(string \<Rightarrow> string) \<Rightarrow> 'd device_adapter \<Rightarrow> provisioning_plan \<Rightarrow> ('d, 'x, unit) run_action" where
  "update_or_create decryptAtRest adapter plan =
     on_error
       (and_then (on_device (updateUser adapter (pl_username plan) (profile_patch plan))) (\<lambda>_.
        record_step ''update-user'' True (pl_username plan @ '' @ '' @ pl_rateLimit plan)))
       (and_then (resolveRadiusPassword decryptAtRest (pl_customerServiceId plan)) (\<lambda>password.
        and_then (on_device (createUser adapter (account_for plan password))) (\<lambda>_.
        record_step ''create-user'' True (pl_username plan @ '' @ '' @ pl_rateLimit plan))))"

definition applyOperation ::
  "(string \<Rightarrow> string) \<Rightarrow> 'd device_adapter \<Rightarrow> network_op \<Rightarrow> provisioning_plan \<Rightarrow> ('d, 'x, job_outcome) run_action" where
  "applyOperation decryptAtRest adapter operation plan =
     (let user = pl_username plan
      in case operation of
           PROVISION \<Rightarrow>
             and_then (verify_vlan adapter plan) (\<lambda>_.
             and_then (verify_profile adapter plan) (\<lambda>_.
             and_then (update_or_create decryptAtRest adapter plan) (\<lambda>_.
             and_then (on_device (enableUser adapter user)) (\<lambda>_.
             and_then (record_step ''enable-user'' True user) (\<lambda>_.
             and_then (applyRateLimitAttribute user (pl_rateLimit plan)) (\<lambda>_.
             and_then (record_step ''radius-rate-limit'' True (''Mikrotik-Rate-Limit = '' @ pl_rateLimit plan)) (\<lambda>_.
             give (Applied user (pl_rateLimit plan) (pl_vlanTag plan)))))))))
         | SUSPEND \<Rightarrow>
             and_then (on_device (disableUser adapter user)) (\<lambda>_.
             and_then (record_step ''disable-user'' True user) (\<lambda>_.
             and_then (on_device (disconnectUser adapter user)) (\<lambda>_.
             and_then (record_step ''disconnect-session'' True user) (\<lambda>_.
             give (Suspended_user user)))))
         | RESTORE \<Rightarrow>
             and_then (on_device (enableUser adapter user)) (\<lambda>_.
             and_then (record_step ''enable-user'' True user) (\<lambda>_.
             and_then (on_device (updateUser adapter user (profile_patch plan))) (\<lambda>_.
             and_then (applyRateLimitAttribute user (pl_rateLimit plan)) (\<lambda>_.
             and_then (record_step ''reapply-rate'' True (pl_rateLimit plan)) (\<lambda>_.
             give (Restored user (pl_rateLimit plan)))))))
         | DEPROVISION \<Rightarrow>
             and_then (on_device (disableUser adapter user)) (\<lambda>_.
             and_then (on_device (disconnectUser adapter user)) (\<lambda>_.
             and_then (record_step ''deprovision'' True (user @ '' disabled and disconnected'')) (\<lambda>_.
             give (Deprovisioned user)))))"

section \<open>Running a job\<close>

definition SERVICE_STATUS_ON_SUCCESS :: "network_op \<Rightarrow> provisioning_status" where
  "SERVICE_STATUS_ON_SUCCESS operation =
     (case operation of PROVISION \<Rightarrow> PS_ACTIVE | RESTORE \<Rightarrow> PS_ACTIVE | SUSPEND \<Rightarrow> PS_SUSPENDED | DEPROVISION \<Rightarrow> PS_DEPROVISIONED)"

definition add_log :: "provisioning_log \<Rightarrow> 'x provisioning_db_scheme \<Rightarrow> 'x provisioning_db_scheme" where
  "add_log l db = db\<lparr>provisioningLogs := provisioningLogs db @ [l]\<rparr>"

definition set_provisioning :: "id \<Rightarrow> provisioning_status \<Rightarrow> 'x provisioning_db_scheme \<Rightarrow> 'x provisioning_db_scheme" where
  "set_provisioning i st db = update_service i (\<lambda>s. s\<lparr>s_provisioningStatus := st\<rparr>) db"

definition finishSuccess ::
  "provisioning_job \<Rightarrow> nat \<Rightarrow> provisioning_step list \<Rightarrow> job_outcome \<Rightarrow> 'x provisioning_db_scheme \<Rightarrow> 'x provisioning_db_scheme" where
  "finishSuccess job attempt steps outcome db =
     set_provisioning (pj_customerServiceId job) (SERVICE_STATUS_ON_SUCCESS (pj_operation job))
       (add_log \<lparr>lg_jobId = pj_id job, lg_attempt = attempt, lg_succeeded = True,
                 lg_message = op_name (pj_operation job) @ '' completed'', lg_steps = steps\<rparr>
       (update_job (pj_id job) (\<lambda>j. j\<lparr>pj_status := J_SUCCEEDED, pj_completedAt := Some (clock db), pj_lastError := None,
          pj_result := Some outcome\<rparr>) db))"

definition finishFailure ::
  "provisioning_job \<Rightarrow> nat \<Rightarrow> provisioning_step list \<Rightarrow> string \<Rightarrow> 'x provisioning_db_scheme \<Rightarrow> 'x provisioning_db_scheme" where
  "finishFailure job attempt steps msg db =
     (let exhausted = attempt \<ge> pj_maxAttempts job
      in set_provisioning (pj_customerServiceId job) (if exhausted then PS_FAILED else PS_PROCESSING)
           (add_log \<lparr>lg_jobId = pj_id job, lg_attempt = attempt, lg_succeeded = False, lg_message = msg, lg_steps = steps\<rparr>
           (update_job (pj_id job) (\<lambda>j. j\<lparr>pj_status := (if exhausted then J_FAILED else J_PENDING), pj_lastError := Some msg,
              pj_completedAt := (if exhausted then Some (clock db) else pj_completedAt j)\<rparr>) db)))"

text \<open>
  The body of the try block: the device is reached only once a plan is resolved, and it is left
  however the calls went.
\<close>

definition use_device ::
  "(string \<Rightarrow> string) \<Rightarrow> 'd device_adapter \<Rightarrow> string \<Rightarrow> network_op \<Rightarrow> provisioning_plan \<Rightarrow> ('d, 'x, job_outcome) run_action" where
  "use_device decryptAtRest adapter address operation plan st =
     (let (r, st') = and_then (on_device (connect adapter)) (\<lambda>_.
                     and_then (record_step ''connect'' True address) (\<lambda>_.
                     applyOperation decryptAtRest adapter operation plan)) st
      in (r, st'\<lparr>jr_device := snd (disconnect adapter (jr_device st'))\<rparr>))"

definition reach_router ::
  "(string \<Rightarrow> string) \<Rightarrow> (device_router \<Rightarrow> 'd device_adapter) \<Rightarrow> network_op \<Rightarrow> provisioning_plan \<Rightarrow> ('d, 'x, job_outcome) run_action" where
  "reach_router decryptAtRest adapterFor operation plan st =
     (case List.find (\<lambda>r. dr_id r = pl_routerId plan) (deviceRouters (jr_db st)) of
        None \<Rightarrow> (Inl RecordNotFound, st)
      | Some router \<Rightarrow>
          if \<not> is_text (dr_host router) then (Inl (UnexpectedError (''Router \"'' @ dr_name router @ ''\" has no address.'')), st)
          else use_device decryptAtRest (adapterFor router) (the (dr_host router) @ '':'' @ nat_to_string (dr_apiPort router))
                 operation plan st)"

definition attempt_job ::
  "(string \<Rightarrow> string) \<Rightarrow> (device_router \<Rightarrow> 'd device_adapter) \<Rightarrow> provisioning_job \<Rightarrow> ('d, 'x, job_outcome) run_action" where
  "attempt_job decryptAtRest adapterFor job st =
     (case buildProvisioningPlan (pj_customerServiceId job) (jr_db st) of
        Inl e \<Rightarrow> (Inl e, st)
      | Inr plan \<Rightarrow>
          and_then (record_step ''resolve-plan'' True (''router='' @ pl_routerName plan @ '' vlan=''
            @ (case pl_vlanTag plan of Some t \<Rightarrow> nat_to_string t | None \<Rightarrow> ''none'')))
          (\<lambda>_. reach_router decryptAtRest adapterFor (pj_operation job) plan) st)"

definition runProvisioningJob ::
  "(string \<Rightarrow> string) \<Rightarrow> (device_router \<Rightarrow> 'd device_adapter) \<Rightarrow> id \<Rightarrow> 'x provisioning_db_scheme \<Rightarrow> 'd \<Rightarrow>
     provisioning_job result \<times> 'x provisioning_db_scheme \<times> 'd" where
  "runProvisioningJob decryptAtRest adapterFor jobId db d =
     (case find_job jobId db of
        None \<Rightarrow> (Inl RecordNotFound, db, d)
      | Some job \<Rightarrow>
          if pj_status job = J_SUCCEEDED \<or> pj_status job = J_CANCELLED then (Inr job, db, d)
          else
            let attempt = pj_attempts job + 1;
                db1 = set_provisioning (pj_customerServiceId job) PS_PROCESSING
                  (update_job (pj_id job) (\<lambda>j. j\<lparr>pj_status := J_PROCESSING, pj_startedAt := Some (clock db), pj_attempts := attempt\<rparr>) db);
                (r, st) = attempt_job decryptAtRest adapterFor job \<lparr>jr_db = db1, jr_device = d, jr_steps = []\<rparr>;
                db2 = (case r of
                    Inr outcome \<Rightarrow> finishSuccess job attempt (jr_steps st) outcome (jr_db st)
                  | Inl e \<Rightarrow> finishFailure job attempt
                      (jr_steps st @ [\<lparr>ps_step = ''failed'', ps_ok = False, ps_detail = error_text e\<rparr>]) (error_text e) (jr_db st))
            in ((case find_job (pj_id job) db2 of None \<Rightarrow> Inl RecordNotFound | Some j \<Rightarrow> Inr j), db2, jr_device st))"

section \<open>The worker's pass\<close>

record provisioning_run =
  pr_succeeded :: nat
  pr_failed :: nat

fun run_jobs ::
  "(string \<Rightarrow> string) \<Rightarrow> (device_router \<Rightarrow> 'd device_adapter) \<Rightarrow> id list \<Rightarrow> provisioning_run \<Rightarrow> 'x provisioning_db_scheme \<Rightarrow> 'd \<Rightarrow>
     provisioning_run \<times> 'x provisioning_db_scheme \<times> 'd" where
  "run_jobs decryptAtRest adapterFor [] acc db d = (acc, db, d)"
| "run_jobs decryptAtRest adapterFor (i # ids) acc db d =
     (case runProvisioningJob decryptAtRest adapterFor i db d of
        (Inr finished, db', d') \<Rightarrow>
          run_jobs decryptAtRest adapterFor ids
            (if pj_status finished = J_SUCCEEDED then acc\<lparr>pr_succeeded := pr_succeeded acc + 1\<rparr>
             else acc\<lparr>pr_failed := pr_failed acc + 1\<rparr>) db' d'
      | (Inl _, db', d') \<Rightarrow> run_jobs decryptAtRest adapterFor ids (acc\<lparr>pr_failed := pr_failed acc + 1\<rparr>) db' d')"

definition handleRunProvisioningJobs ::
  "(string \<Rightarrow> string) \<Rightarrow> (device_router \<Rightarrow> 'd device_adapter) \<Rightarrow> 'x provisioning_db_scheme \<Rightarrow> 'd \<Rightarrow>
     (nat \<times> provisioning_run) \<times> 'x provisioning_db_scheme \<times> 'd" where
  "handleRunProvisioningJobs decryptAtRest adapterFor db d =
     (let jobs = listRunnableJobs 20 db;
          (acc, db', d') = run_jobs decryptAtRest adapterFor (map pj_id jobs) \<lparr>pr_succeeded = 0, pr_failed = 0\<rparr> db d
      in ((length jobs, acc), db', d'))"

section \<open>Speed\<close>

definition refreshSubscriberRate ::
  "id \<Rightarrow> id \<Rightarrow> 'x provisioning_db_scheme \<Rightarrow> rate option \<times> 'x provisioning_db_scheme" where
  "refreshSubscriberRate tenantId customerServiceId db =
     (case List.find (\<lambda>s. s_id s = customerServiceId \<and> s_tenantId s = tenantId) (services db) of
        None \<Rightarrow> (None, db)
      | Some s \<Rightarrow>
          (case (find_package (s_packageId s) db, List.find (\<lambda>u. ru_customerServiceId u = s_id s) (radiusUsers db)) of
             (Some pkg, Some u) \<Rightarrow>
               let rate = effectiveRateFor (s_id s) (Rate (k_downloadKbps pkg) (k_uploadKbps pkg)) db;
                   row = \<lparr>rr_username = ru_username u, rr_attribute = ''Mikrotik-Rate-Limit'', rr_op = ''='', rr_value = rateLimitValue rate\<rparr>;
                   db1 = db\<lparr>radReplies := delete_rows (ru_username u) ''Mikrotik-Rate-Limit'' (radReplies db) @ [row],
                     radiusUsers := update_where (\<lambda>x. ru_id x = ru_id u)
                       (\<lambda>x. x\<lparr>ru_downloadKbps := downloadKbps rate, ru_uploadKbps := uploadKbps rate\<rparr>) (radiusUsers db)\<rparr>
               in (Some rate, if ru_status u = R_ACTIVE then db1\<lparr>outbox := outbox db1 @ [DisconnectUser tenantId (ru_id u)]\<rparr> else db1)
           | _ \<Rightarrow> (None, db)))"

section \<open>What a run can change\<close>

text \<open>The calls of a run write RADIUS replies and nothing else of the database.\<close>

definition frame :: "'x provisioning_db_scheme \<Rightarrow> provisioning_job list \<times> service list \<times> provisioning_log list \<times> time \<times> id" where
  "frame db = (provisioningJobs db, services db, provisioningLogs db, clock db, nextId db)"

definition keeps :: "('d, 'x, 'a) run_action \<Rightarrow> bool" where
  "keeps act \<longleftrightarrow> (\<forall>st. frame (jr_db (snd (act st))) = frame (jr_db st))"

lemma keeps_at: "keeps act \<Longrightarrow> frame (jr_db (snd (act st))) = frame (jr_db st)"
  by (simp add: keeps_def)

lemma keeps_and_then: "keeps act \<Longrightarrow> (\<And>x. keeps (k x)) \<Longrightarrow> keeps (and_then act k)"
  by (simp add: keeps_def and_then_def split: prod.splits sum.splits) (metis snd_conv)

lemma keeps_on_error: "keeps act \<Longrightarrow> keeps h \<Longrightarrow> keeps (on_error act h)"
  by (simp add: keeps_def on_error_def split: prod.splits sum.splits) (metis snd_conv)

lemma keeps_basic:
  "keeps (give x)" "keeps (throw e)" "keeps (on_device call)" "keeps (record_step s b t)"
  "keeps (applyRateLimitAttribute u r)" "keeps (resolveRadiusPassword dec i)"
  by (simp_all add: keeps_def give_def throw_def on_device_def record_step_def applyRateLimitAttribute_def
      resolveRadiusPassword_def frame_def Let_def split: prod.splits option.splits)

lemmas keeps_intros = keeps_and_then keeps_on_error keeps_basic

lemma keeps_parts:
  "keeps (verify_vlan adapter plan)" "keeps (verify_profile adapter plan)" "keeps (update_or_create dec adapter plan)"
  unfolding verify_vlan_def verify_profile_def update_or_create_def
  by (auto intro!: keeps_intros split: option.splits prod.splits)

lemma keeps_applyOperation: "keeps (applyOperation dec adapter operation plan)"
  unfolding applyOperation_def Let_def
  by (cases operation) (simp_all add: keeps_intros keeps_parts)

lemma keepsD: "keeps act \<Longrightarrow> act st = (r, st') \<Longrightarrow> frame (jr_db st') = frame (jr_db st)"
  unfolding keeps_def by (metis snd_conv)

lemma and_then_Inr:
  "and_then act k st = (Inr x, st') \<longleftrightarrow> (\<exists>y st1. act st = (Inr y, st1) \<and> k y st1 = (Inr x, st'))"
  by (auto simp: and_then_def split: prod.splits sum.splits)

lemma keeps_use_device: "keeps (use_device dec adapter address operation plan)"
proof -
  have "keeps (and_then (on_device (connect adapter)) (\<lambda>_. and_then (record_step ''connect'' True address)
      (\<lambda>_. applyOperation dec adapter operation plan)))"
    by (intro keeps_intros keeps_applyOperation)
  then show ?thesis by (simp add: keeps_def use_device_def case_prod_unfold Let_def)
qed

lemma keeps_reach: "keeps (reach_router dec adapterFor operation plan)"
  unfolding keeps_def by (auto simp: reach_router_def keeps_at [OF keeps_use_device] split: option.splits)

lemma keeps_attempt: "keeps (attempt_job dec adapterFor job)"
proof -
  have "keeps (and_then (record_step a b c) (\<lambda>_. reach_router dec adapterFor (pj_operation job) plan))" for a b c plan
    by (intro keeps_intros keeps_reach)
  note at = keeps_at [OF this]
  show ?thesis unfolding keeps_def by (auto simp: attempt_job_def at simp del: append.simps split: sum.splits)
qed

section \<open>Every job comes to an end\<close>

lemma find_job_update: "find_job i (update_job i f db) = map_option f (find_job i db)" if "\<And>j. pj_id (f j) = pj_id j"
  using find_update_where_same [of pj_id f i "provisioningJobs db"] that by (simp add: find_job_def update_job_def)

lemma set_provisioning_frame [simp]:
  "provisioningJobs (set_provisioning i st db) = provisioningJobs db" "clock (set_provisioning i st db) = clock db"
  "radReplies (set_provisioning i st db) = radReplies db" "provisioningLogs (set_provisioning i st db) = provisioningLogs db"
  "services (set_provisioning i st db) = update_where (\<lambda>s. s_id s = i) (\<lambda>s. s\<lparr>s_provisioningStatus := st\<rparr>) (services db)"
  by (simp_all add: set_provisioning_def update_service_def)

lemma update_job_frame [simp]:
  "services (update_job i f db) = services db" "clock (update_job i f db) = clock db" "radReplies (update_job i f db) = radReplies db"
  "provisioningLogs (update_job i f db) = provisioningLogs db"
  by (simp_all add: update_job_def)

lemma add_log_frame [simp]:
  "services (add_log l db) = services db" "clock (add_log l db) = clock db" "radReplies (add_log l db) = radReplies db"
  "provisioningJobs (add_log l db) = provisioningJobs db"
  by (simp_all add: add_log_def)

lemma find_job_cong: "provisioningJobs db' = provisioningJobs db \<Longrightarrow> find_job i db' = find_job i db"
  by (simp add: find_job_def)

text \<open>One run of a job that is not finished, as a whole.\<close>

lemma runProvisioningJob_outcome:
  fixes db :: "'x provisioning_db_scheme"
  assumes j: "find_job jid db = Some job" and open_job: "pj_status job \<noteq> J_SUCCEEDED" "pj_status job \<noteq> J_CANCELLED"
    and r: "runProvisioningJob dec adapterFor jid db d = (res, db', d')"
  obtains (confirmed) outcome st fin where
      "attempt_job dec adapterFor job \<lparr>jr_db = set_provisioning (pj_customerServiceId job) PS_PROCESSING
          (update_job (pj_id job) (\<lambda>j. j\<lparr>pj_status := J_PROCESSING, pj_startedAt := Some (clock db), pj_attempts := pj_attempts job + 1\<rparr>) db),
          jr_device = d, jr_steps = []\<rparr> = (Inr outcome, st)"
      "res = Inr fin" "find_job jid db' = Some fin" "pj_status fin = J_SUCCEEDED" "pj_attempts fin = pj_attempts job + 1"
      "pj_maxAttempts fin = pj_maxAttempts job" "pj_operation fin = pj_operation job"
      "radReplies db' = radReplies (jr_db st)"
      "services db' = update_where (\<lambda>s. s_id s = pj_customerServiceId job)
         (\<lambda>s. s\<lparr>s_provisioningStatus := SERVICE_STATUS_ON_SUCCESS (pj_operation job)\<rparr>) (services db)"
  | (failed) e st fin where
      "attempt_job dec adapterFor job \<lparr>jr_db = set_provisioning (pj_customerServiceId job) PS_PROCESSING
          (update_job (pj_id job) (\<lambda>j. j\<lparr>pj_status := J_PROCESSING, pj_startedAt := Some (clock db), pj_attempts := pj_attempts job + 1\<rparr>) db),
          jr_device = d, jr_steps = []\<rparr> = (Inl e, st)"
      "res = Inr fin" "find_job jid db' = Some fin"
      "pj_status fin = (if pj_maxAttempts job \<le> pj_attempts job + 1 then J_FAILED else J_PENDING)"
      "pj_attempts fin = pj_attempts job + 1" "pj_lastError fin = Some (error_text e)"
      "pj_maxAttempts fin = pj_maxAttempts job" "pj_operation fin = pj_operation job"
      "services db' = update_where (\<lambda>s. s_id s = pj_customerServiceId job)
         (\<lambda>s. s\<lparr>s_provisioningStatus := (if pj_maxAttempts job \<le> pj_attempts job + 1 then PS_FAILED else PS_PROCESSING)\<rparr>) (services db)"
proof -
  have id: "pj_id job = jid" using j by (auto simp: find_job_def dest: find_SomeD)
  let ?db1 = "set_provisioning (pj_customerServiceId job) PS_PROCESSING
          (update_job (pj_id job) (\<lambda>j. j\<lparr>pj_status := J_PROCESSING, pj_startedAt := Some (clock db), pj_attempts := pj_attempts job + 1\<rparr>) db)"
  obtain r st where att: "attempt_job dec adapterFor job \<lparr>jr_db = ?db1, jr_device = d, jr_steps = []\<rparr> = (r, st)" by fastforce
  from keepsD [OF keeps_attempt att]
  have same: "provisioningJobs (jr_db st) = provisioningJobs ?db1" "services (jr_db st) = services ?db1" "clock (jr_db st) = clock db"
    by (simp_all add: frame_def)
  have f1: "find_job jid (jr_db st) = Some (job\<lparr>pj_status := J_PROCESSING, pj_startedAt := Some (clock db), pj_attempts := pj_attempts job + 1\<rparr>)"
    using j unfolding find_job_cong [OF same(1)] find_job_cong [OF set_provisioning_frame(1)] id
    by (subst find_job_update) simp_all
  have twice: "update_where (\<lambda>s. s_id s = i) (\<lambda>s. s\<lparr>s_provisioningStatus := b\<rparr>)
      (update_where (\<lambda>s. s_id s = i) (\<lambda>s. s\<lparr>s_provisioningStatus := a\<rparr>) t) = update_where (\<lambda>s. s_id s = i) (\<lambda>s. s\<lparr>s_provisioningStatus := b\<rparr>) t"
    for i a b and t :: "service list" by (auto simp: update_where_def)
  note run = r [unfolded runProvisioningJob_def j option.case Let_def]
  show thesis
  proof (cases r)
    case (Inr outcome)
    show thesis
      by (rule confirmed [OF att [unfolded Inr], where fin = "job\<lparr>pj_startedAt := Some (clock db),
          pj_attempts := pj_attempts job + 1, pj_status := J_SUCCEEDED, pj_completedAt := Some (clock db), pj_lastError := None,
          pj_result := Some outcome\<rparr>"])
        (use run open_job att Inr same f1 id twice in
          \<open>auto simp: finishSuccess_def find_job_cong [OF set_provisioning_frame(1)] find_job_cong [OF add_log_frame(4)] find_job_update\<close>)
  next
    case (Inl e)
    show thesis
      by (rule failed [OF att [unfolded Inl], where fin = "job\<lparr>pj_startedAt := Some (clock db),
          pj_attempts := pj_attempts job + 1, pj_status := (if pj_maxAttempts job \<le> pj_attempts job + 1 then J_FAILED else J_PENDING),
          pj_lastError := Some (error_text e),
          pj_completedAt := (if pj_maxAttempts job \<le> pj_attempts job + 1 then Some (clock db) else pj_completedAt job)\<rparr>"])
        (use run open_job att Inl same f1 id twice in
          \<open>auto simp: finishFailure_def Let_def find_job_cong [OF set_provisioning_frame(1)] find_job_cong [OF add_log_frame(4)] find_job_update\<close>)
  qed
qed

text \<open>
  The worker's rounds on one job: each has its own time, its own routers' behaviour and its own
  state of the devices, and runs the job when it is waiting.
\<close>

fun rounds ::
  "(string \<Rightarrow> string) \<Rightarrow> id \<Rightarrow> (time \<times> (device_router \<Rightarrow> 'd device_adapter) \<times> 'd) list \<Rightarrow> 'x provisioning_db_scheme \<Rightarrow> 'x provisioning_db_scheme" where
  "rounds dec jid [] db = db"
| "rounds dec jid ((now, adapterFor, d) # rs) db =
     (case find_job jid db of
        None \<Rightarrow> db
      | Some job \<Rightarrow>
          if pj_status job = J_PENDING
          then (case runProvisioningJob dec adapterFor jid (db\<lparr>clock := now\<rparr>) d of (_, db', _) \<Rightarrow> rounds dec jid rs db')
          else rounds dec jid rs db)"

lemma run_pending:
  assumes j: "find_job jid db = Some job" and p: "pj_status job = J_PENDING"
    and r: "runProvisioningJob dec adapterFor jid db d = (res, db', d')"
  shows "\<exists>fin. res = Inr fin \<and> find_job jid db' = Some fin \<and> pj_attempts fin = pj_attempts job + 1
    \<and> pj_maxAttempts fin = pj_maxAttempts job
    \<and> (pj_status fin = J_SUCCEEDED \<or> pj_status fin = (if pj_maxAttempts job \<le> pj_attempts job + 1 then J_FAILED else J_PENDING))"
  by (rule runProvisioningJob_outcome [OF j _ _ r]) (auto simp: p)

lemma find_job_clock: "find_job i (db\<lparr>clock := c\<rparr>) = find_job i db"
  by (simp add: find_job_def)

lemma rounds_settled:
  "find_job jid db = Some job \<Longrightarrow> pj_status job \<noteq> J_PENDING \<Longrightarrow> rounds dec jid rs db = db"
  by (induction rs) (auto simp: case_prod_unfold)

lemma rounds_end:
  fixes db :: "'x provisioning_db_scheme"
  shows "find_job jid db = Some job \<Longrightarrow> pj_status job = J_PENDING \<Longrightarrow> pj_attempts job < pj_maxAttempts job \<Longrightarrow>
     pj_maxAttempts job \<le> pj_attempts job + length rs \<Longrightarrow>
     \<exists>fin. find_job jid (rounds dec jid rs db) = Some fin \<and> (pj_status fin = J_SUCCEEDED \<or> pj_status fin = J_FAILED)
       \<and> pj_attempts fin \<le> pj_maxAttempts job \<and> (pj_status fin = J_FAILED \<longrightarrow> pj_attempts fin = pj_maxAttempts job)"
proof (induction rs arbitrary: db job)
  case Nil
  then show ?case by simp
next
  case (Cons r rs)
  obtain now adapterFor d where r: "r = (now, adapterFor, d)" by (cases r)
  obtain res db' d' where run: "runProvisioningJob dec adapterFor jid (db\<lparr>clock := now\<rparr>) d = (res, db', d')"
    using prod_cases3 by blast
  have step: "rounds dec jid (r # rs) db = rounds dec jid rs db'" using Cons.prems(1,2) by (simp add: r run)
  from run_pending [OF _ Cons.prems(2) run] Cons.prems(1)
  obtain fin where fin: "find_job jid db' = Some fin" "pj_attempts fin = pj_attempts job + 1" "pj_maxAttempts fin = pj_maxAttempts job"
    "pj_status fin = J_SUCCEEDED \<or> pj_status fin = (if pj_maxAttempts job \<le> pj_attempts job + 1 then J_FAILED else J_PENDING)"
    by (auto simp: find_job_clock)
  show ?case
  proof (cases "pj_status fin = J_PENDING")
    case True
    then have "pj_attempts fin < pj_maxAttempts fin" using fin by (auto split: if_splits)
    from Cons.IH [OF fin(1) True this] show ?thesis unfolding step using Cons.prems(4) fin by simp
  next
    case False
    then show ?thesis
      unfolding step rounds_settled [OF fin(1) False] using fin Cons.prems(3) by (auto split: if_splits)
  qed
qed

text \<open>
  C14. Provisioning always comes to an end. However the routers behave, changing from one round of
  the worker to the next, a job just queued is succeeded or failed for good after at most as many
  rounds as it has attempts, it is never attempted more often than that, and it fails for good
  only after all its attempts.
\<close>

theorem provisioning_job_ends:
  fixes db :: "'x provisioning_db_scheme"
  assumes "find_job jid db = Some job" and "pj_status job = J_PENDING" and "pj_attempts job = 0"
    and "0 < pj_maxAttempts job" and "pj_maxAttempts job \<le> length rs"
  shows "case find_job jid (rounds dec jid rs db) of
      None \<Rightarrow> False
    | Some fin \<Rightarrow> (pj_status fin = J_SUCCEEDED \<or> pj_status fin = J_FAILED) \<and> pj_attempts fin \<le> pj_maxAttempts job
        \<and> (pj_status fin = J_FAILED \<longrightarrow> pj_attempts fin = pj_maxAttempts job)"
  using rounds_end [OF assms(1,2), of rs dec] assms(3-5) by auto

definition dead_adapter :: "unit device_adapter" where
  "dead_adapter = \<lparr>connect = (\<lambda>d. (Inl (UnexpectedError ''timeout''), d)), disconnect = (\<lambda>d. (Inr (), d)),
     listVlanInterfaces = None, listPppProfiles = None, createUser = (\<lambda>_ d. (Inr (), d)), updateUser = (\<lambda>_ _ d. (Inr (), d)),
     disableUser = (\<lambda>_ d. (Inr (), d)), enableUser = (\<lambda>_ d. (Inr (), d)), disconnectUser = (\<lambda>_ d. (Inr (), d))\<rparr>"

definition live_adapter :: "unit device_adapter" where
  "live_adapter = dead_adapter\<lparr>connect := (\<lambda>d. (Inr (), d))\<rparr>"

definition routed_db :: provisioning_db where
  "routed_db = billing_db.extend (running_db\<lparr>packages := [sample_package]\<rparr>)
     \<lparr>packageNetworks = [\<lparr>pn_packageId = 50, pn_routerId = Some 90, pn_vlanId = None, pn_serviceType = ''PPPOE'',
        pn_pppoeProfile = None, pn_hotspotProfile = None\<rparr>],
      vlans = [], deviceRouters = [\<lparr>dr_id = 90, dr_name = ''core'', dr_host = Some ''10.0.0.1'', dr_apiPort = 8728\<rparr>],
      addOns = [], addOnPurchases = [],
      provisioningJobs = [\<lparr>pj_id = 95, pj_tenantId = 7, pj_customerId = 3, pj_customerServiceId = 60, pj_vlanId = None,
        pj_routerId = Some 90, pj_operation = PROVISION, pj_status = J_PENDING, pj_idempotencyKey = ''60:PROVISION:x'',
        pj_attempts = 0, pj_maxAttempts = 5, pj_lastError = None, pj_payload = Inl ''x'', pj_result = None,
        pj_createdAt = 0, pj_startedAt = None, pj_completedAt = None\<rparr>],
      provisioningLogs = []\<rparr>"

theorem provisioning_job_ends_witness:
  "case find_job 95 (rounds (\<lambda>x. x) 95 (replicate 5 (1, (\<lambda>_. dead_adapter), ())) routed_db) of
      None \<Rightarrow> False
    | Some fin \<Rightarrow> pj_status fin = J_SUCCEEDED \<or> pj_status fin = J_FAILED"
proof -
  obtain job where j: "find_job 95 routed_db = Some job" "pj_status job = J_PENDING" "pj_attempts job = 0" "pj_maxAttempts job = 5"
    by (simp add: find_job_def routed_db_def billing_db.extend_def)
  from provisioning_job_ends [OF j(1-3), of "replicate 5 (1, (\<lambda>_. dead_adapter), ())" "\<lambda>x. x"] j(4)
  show ?thesis by (auto split: option.splits)
qed

section \<open>On the network only when the device says so\<close>

lemma buildProvisioningPlan_cong:
  assumes "find_service i db' = map_option f (find_service i db)"
    and "\<And>s. s_id (f s) = s_id s \<and> s_packageId (f s) = s_packageId s \<and> s_customerId (f s) = s_customerId s \<and> s_tenantId (f s) = s_tenantId s"
    and "packages db' = packages db" "packageNetworks db' = packageNetworks db" "vlans db' = vlans db"
      "deviceRouters db' = deviceRouters db" "radiusUsers db' = radiusUsers db" "addOnPurchases db' = addOnPurchases db" "clock db' = clock db"
  shows "buildProvisioningPlan i db' = buildProvisioningPlan i db"
proof -
  have "find_router r db' = find_router r db" "effectiveRateFor i' rate db' = effectiveRateFor i' rate db"
    "find_package k db' = find_package k db" for r i' rate k
    using assms(3-9) by (simp_all add: find_router_def effectiveRateFor_def find_package_def split: option.splits)
  note same = this assms(4,5,7)
  show ?thesis
  proof (cases "find_service i db")
    case (Some a)
    have e: "s_id (f a) = s_id a" "s_packageId (f a) = s_packageId a" "s_customerId (f a) = s_customerId a"
      "s_tenantId (f a) = s_tenantId a" using assms(2) by blast+
    show ?thesis unfolding buildProvisioningPlan_def assms(1) same Some option.map option.case e by (rule refl)
  qed (simp add: buildProvisioningPlan_def assms(1))
qed

lemma buildProvisioningPlan_started:
  "buildProvisioningPlan i (set_provisioning k st (update_job jid g db)) = buildProvisioningPlan i db"
proof (rule buildProvisioningPlan_cong [where f = "\<lambda>s. if s_id s = k then s\<lparr>s_provisioningStatus := st\<rparr> else s"])
  show "find_service i (set_provisioning k st (update_job jid g db)) =
      map_option (\<lambda>s. if s_id s = k then s\<lparr>s_provisioningStatus := st\<rparr> else s) (find_service i db)"
  proof (cases "i = k")
    case True
    have "find_service k (set_provisioning k st (update_job jid g db)) = map_option (\<lambda>s. s\<lparr>s_provisioningStatus := st\<rparr>) (find_service k db)"
      using find_update_where_same [of s_id "\<lambda>s. s\<lparr>s_provisioningStatus := st\<rparr>" k "services db"] by (simp add: find_service_def)
    then show ?thesis unfolding True by (cases "find_service k db") (auto dest: find_serviceD)
  next
    case False
    have "find_service i (set_provisioning k st (update_job jid g db)) = find_service i db"
      using find_update_where_other [of s_id "\<lambda>s. s\<lparr>s_provisioningStatus := st\<rparr>" i k "services db"] False by (simp add: find_service_def)
    then show ?thesis using False by (cases "find_service i db") (auto dest: find_serviceD)
  qed
qed (simp_all add: set_provisioning_def update_service_def update_job_def)

text \<open>What the device must have answered before a subscriber counts as provisioned.\<close>

definition device_confirmed :: "'d device_adapter \<Rightarrow> provisioning_plan \<Rightarrow> bool" where
  "device_confirmed adapter plan \<longleftrightarrow>
     (\<exists>d d'. connect adapter d = (Inr (), d')) \<and>
     (\<forall>tag \<in> set_option (pl_vlanTag plan). \<exists>list d found d' v. listVlanInterfaces adapter = Some list \<and> list d = (Inr found, d')
         \<and> v \<in> set found \<and> dv_vlanId v = tag \<and> \<not> dv_disabled v) \<and>
     (\<forall>wanted \<in> set_option (profile_patch plan). \<forall>list \<in> set_option (listPppProfiles adapter).
         \<exists>d names d'. list d = (Inr names, d') \<and> wanted \<in> set names) \<and>
     ((\<exists>d d'. updateUser adapter (pl_username plan) (profile_patch plan) d = (Inr (), d'))
      \<or> (\<exists>u d d'. du_username u = pl_username plan \<and> du_profile u = profile_patch plan \<and> createUser adapter u d = (Inr (), d'))) \<and>
     (\<exists>d d'. enableUser adapter (pl_username plan) d = (Inr (), d'))"

lemma on_device_Inr:
  "on_device call st = (Inr x, st') \<Longrightarrow> \<exists>d'. call (jr_device st) = (Inr x, d') \<and> st' = st\<lparr>jr_device := d'\<rparr>"
  by (auto simp: on_device_def Let_def split: prod.splits)

lemma record_step_Inr: "record_step a b c st = (Inr x, st') \<Longrightarrow> jr_db st' = jr_db st"
  by (auto simp: record_step_def)

lemma verify_vlan_Inr:
  assumes "verify_vlan adapter plan st = (Inr (), st')" and "pl_vlanTag plan = Some tag" and "pl_vlanInterfaceName plan \<noteq> None"
  shows "\<exists>list d found d' v. listVlanInterfaces adapter = Some list \<and> list d = (Inr found, d')
         \<and> v \<in> set found \<and> dv_vlanId v = tag \<and> \<not> dv_disabled v"
proof -
  obtain list where l: "listVlanInterfaces adapter = Some list"
    using assms by (cases "listVlanInterfaces adapter") (auto simp: verify_vlan_def throw_def)
  obtain found d' v where "list (jr_device st) = (Inr found, d')" "List.find (\<lambda>v. dv_vlanId v = tag) found = Some v" "\<not> dv_disabled v"
    using assms l by (auto simp: verify_vlan_def and_then_Inr throw_def dest!: on_device_Inr split: option.splits if_splits)
  then show ?thesis using l by (blast dest: find_SomeD)
qed

lemma verify_profile_Inr:
  assumes "verify_profile adapter plan st = (Inr (), st')" and "profile_patch plan = Some wanted" and "listPppProfiles adapter = Some list"
  shows "\<exists>d names d'. list d = (Inr names, d') \<and> wanted \<in> set names"
proof -
  have "pl_pppoeProfile plan = Some wanted" "wanted \<noteq> ''''" using assms(2) by (auto simp: profile_patch_def is_text_def split: if_splits)
  then show ?thesis
    using assms by (auto simp: verify_profile_def and_then_Inr throw_def dest!: on_device_Inr split: if_splits)
qed

lemma update_or_create_Inr:
  fixes st st' :: "('d, 'x) job_run"
  assumes "update_or_create dec adapter plan st = (Inr (), st')"
  shows "(\<exists>d d'. updateUser adapter (pl_username plan) (profile_patch plan) d = (Inr (), d'))
      \<or> (\<exists>u d d'. du_username u = pl_username plan \<and> du_profile u = profile_patch plan \<and> createUser adapter u d = (Inr (), d'))"
proof -
  obtain r st1 where first: "and_then (on_device (updateUser adapter (pl_username plan) (profile_patch plan)))
      (\<lambda>_. record_step ''update-user'' True (pl_username plan @ '' @ '' @ pl_rateLimit plan)) st = (r, st1)" by fastforce
  show ?thesis
  proof (cases r)
    case (Inr x)
    then show ?thesis using first by (auto simp: and_then_Inr dest!: on_device_Inr)
  next
    case (Inl e)
    then obtain password and st2 st3 :: "('d, 'x) job_run" where "on_device (createUser adapter (account_for plan password)) st2 = (Inr (), st3)"
      using assms first by (auto simp: update_or_create_def on_error_def and_then_Inr simp del: append.simps)
    from on_device_Inr [OF this] have "\<exists>d d'. createUser adapter (account_for plan password) d = (Inr (), d')" by blast
    moreover have "du_username (account_for plan password) = pl_username plan" "du_profile (account_for plan password) = profile_patch plan"
      by (simp_all add: account_for_def)
    ultimately show ?thesis by blast
  qed
qed

lemma plan_vlan_name:
  "buildProvisioningPlan i db = Inr plan \<Longrightarrow> pl_vlanTag plan = Some tag \<Longrightarrow> pl_vlanInterfaceName plan \<noteq> None"
  by (auto simp: buildProvisioningPlan_def Let_def split: option.splits if_splits)

text \<open>The speed row after a run: one row, with the plan's speed.\<close>

definition speed_rows :: "string \<Rightarrow> rad_row list \<Rightarrow> string list" where
  "speed_rows username rows = map rr_value (filter (\<lambda>r. rr_username r = username \<and> rr_attribute r = ''Mikrotik-Rate-Limit'') rows)"

lemma speed_rows_set:
  "speed_rows u (delete_rows u ''Mikrotik-Rate-Limit'' rows
     @ [\<lparr>rr_username = u, rr_attribute = ''Mikrotik-Rate-Limit'', rr_op = ''='', rr_value = v\<rparr>]) = [v]"
proof -
  have "filter (\<lambda>r. rr_username r = u \<and> rr_attribute r = ''Mikrotik-Rate-Limit'') (delete_rows u ''Mikrotik-Rate-Limit'' rows) = []"
    by (auto simp: delete_rows_def filter_empty_conv)
  then show ?thesis by (simp add: speed_rows_def)
qed

lemma applyOperation_provision:
  fixes st st' :: "('d, 'x) job_run"
  assumes "applyOperation dec adapter PROVISION plan st = (Inr outcome, st')" and "pl_vlanTag plan \<noteq> None \<longrightarrow> pl_vlanInterfaceName plan \<noteq> None"
    and c: "connect adapter d0 = (Inr (), d1)"
  shows "device_confirmed adapter plan \<and> speed_rows (pl_username plan) (radReplies (jr_db st')) = [pl_rateLimit plan]"
proof -
  obtain st1 st2 st3 st4 st5 st6 :: "('d, 'x) job_run" where
    1: "verify_vlan adapter plan st = (Inr (), st1)" and 2: "verify_profile adapter plan st1 = (Inr (), st2)"
    and 3: "update_or_create dec adapter plan st2 = (Inr (), st3)"
    and 4: "on_device (enableUser adapter (pl_username plan)) st3 = (Inr (), st4)"
    and 5: "jr_db st5 = jr_db st4" and 6: "applyRateLimitAttribute (pl_username plan) (pl_rateLimit plan) st5 = (Inr (), st6)"
    and 7: "jr_db st' = jr_db st6"
    using assms(1) by (auto simp: applyOperation_def Let_def and_then_Inr give_def simp del: append.simps dest!: record_step_Inr)
  have "\<exists>list d found d' v. listVlanInterfaces adapter = Some list \<and> list d = (Inr found, d') \<and> v \<in> set found
      \<and> dv_vlanId v = tag \<and> \<not> dv_disabled v" if "tag \<in> set_option (pl_vlanTag plan)" for tag
    using verify_vlan_Inr [OF 1, of tag] that assms(2) by auto
  moreover have "\<exists>d names d'. list d = (Inr names, d') \<and> wanted \<in> set names"
    if "wanted \<in> set_option (profile_patch plan)" "list \<in> set_option (listPppProfiles adapter)" for wanted list
    using verify_profile_Inr [OF 2] that by auto
  moreover have "\<exists>d d'. enableUser adapter (pl_username plan) d = (Inr (), d')" using on_device_Inr [OF 4] by blast
  ultimately have "device_confirmed adapter plan"
    unfolding device_confirmed_def using c update_or_create_Inr [OF 3] by blast
  moreover have "speed_rows (pl_username plan) (radReplies (jr_db st')) = [pl_rateLimit plan]"
    using 6 by (auto simp: 7 applyRateLimitAttribute_def speed_rows_set)
  ultimately show ?thesis by simp
qed

lemma attempt_job_provision:
  fixes st st' :: "('d, 'x) job_run"
  assumes a: "attempt_job dec adapterFor job st = (Inr outcome, st')" and op: "pj_operation job = PROVISION"
  shows "\<exists>plan router. buildProvisioningPlan (pj_customerServiceId job) (jr_db st) = Inr plan \<and> dr_id router = pl_routerId plan
    \<and> router \<in> set (deviceRouters (jr_db st)) \<and> device_confirmed (adapterFor router) plan
    \<and> speed_rows (pl_username plan) (radReplies (jr_db st')) = [pl_rateLimit plan]"
proof -
  obtain plan where plan: "buildProvisioningPlan (pj_customerServiceId job) (jr_db st) = Inr plan"
    using a by (cases "buildProvisioningPlan (pj_customerServiceId job) (jr_db st)") (auto simp: attempt_job_def)
  obtain st1 :: "('d, 'x) job_run" where st1: "jr_db st1 = jr_db st" and reach: "reach_router dec adapterFor PROVISION plan st1 = (Inr outcome, st')"
    using a op plan by (auto simp: attempt_job_def and_then_Inr simp del: append.simps dest!: record_step_Inr)
  obtain router address where router: "List.find (\<lambda>r. dr_id r = pl_routerId plan) (deviceRouters (jr_db st)) = Some router"
    and dev: "use_device dec (adapterFor router) address PROVISION plan st1 = (Inr outcome, st')"
    using reach st1 by (auto simp: reach_router_def split: option.splits if_splits)
  obtain st2 st3 st4 :: "('d, 'x) job_run" where c: "on_device (connect (adapterFor router)) st1 = (Inr (), st2)"
    and app: "applyOperation dec (adapterFor router) PROVISION plan st3 = (Inr outcome, st4)" and db: "jr_db st' = jr_db st4"
    using dev by (auto simp: use_device_def Let_def and_then_Inr split: prod.splits simp del: append.simps)
  from on_device_Inr [OF c] obtain d1 where "connect (adapterFor router) (jr_device st1) = (Inr (), d1)" by blast
  from applyOperation_provision [OF app _ this] plan_vlan_name [OF plan]
  show ?thesis using plan find_SomeD [OF router] db by auto
qed

text \<open>
  C11. A subscriber counts as provisioned only when a router has confirmed it. When a provisioning job
  succeeds, the plan's router was reached, the plan's VLAN was among those the router reported
  and enabled, its profile was among those it listed, it accepted updating or creating the account
  and then enabling it, and RADIUS holds exactly one speed row for the account, the plan's. In every
  other case the subscription is not marked active and the router's answer is on the job.
\<close>

theorem provisioned_only_when_confirmed:
  fixes db :: "'x provisioning_db_scheme"
  assumes j: "find_job jid db = Some job" and op: "pj_operation job = PROVISION"
    and open_job: "pj_status job = J_PENDING \<or> pj_status job = J_PROCESSING \<or> pj_status job = J_FAILED"
    and r: "runProvisioningJob dec adapterFor jid db d = (Inr fin, db', d')"
  shows "if pj_status fin = J_SUCCEEDED
    then (\<forall>s \<in> set (services db'). s_id s = pj_customerServiceId job \<longrightarrow> s_provisioningStatus s = PS_ACTIVE)
      \<and> (\<exists>plan router. buildProvisioningPlan (pj_customerServiceId job) db = Inr plan \<and> dr_id router = pl_routerId plan
          \<and> router \<in> set (deviceRouters db) \<and> device_confirmed (adapterFor router) plan
          \<and> speed_rows (pl_username plan) (radReplies db') = [pl_rateLimit plan])
    else (pj_status fin = J_PENDING \<or> pj_status fin = J_FAILED) \<and> pj_lastError fin \<noteq> None
      \<and> (\<forall>s \<in> set (services db'). s_id s = pj_customerServiceId job \<longrightarrow>
           s_provisioningStatus s = (if pj_status fin = J_FAILED then PS_FAILED else PS_PROCESSING))"
proof -
  have "pj_status job \<noteq> J_SUCCEEDED" "pj_status job \<noteq> J_CANCELLED" using open_job by auto
  then show ?thesis
  proof (cases rule: runProvisioningJob_outcome [OF j _ _ r])
    case (3 outcome st fin')
    from attempt_job_provision [OF 3(1) op]
    have "\<exists>plan router. buildProvisioningPlan (pj_customerServiceId job) db = Inr plan \<and> dr_id router = pl_routerId plan
          \<and> router \<in> set (deviceRouters db) \<and> device_confirmed (adapterFor router) plan
          \<and> speed_rows (pl_username plan) (radReplies db') = [pl_rateLimit plan]"
      by (simp add: buildProvisioningPlan_started 3(8)) (simp add: set_provisioning_def update_service_def update_job_def)
    then show ?thesis using 3(2,4,9) op by (auto simp: set_update_where SERVICE_STATUS_ON_SUCCESS_def)
  next
    case (4 e st fin')
    then show ?thesis by (auto simp: set_update_where)
  qed
qed

theorem provisioned_only_when_confirmed_witness:
  "case runProvisioningJob (\<lambda>x. x) (\<lambda>_. live_adapter) 95 routed_db () of
      (Inr fin, db', _) \<Rightarrow> (if pj_status fin = J_SUCCEEDED then map s_provisioningStatus (services db') = [PS_ACTIVE]
         else pj_lastError fin \<noteq> None)
    | _ \<Rightarrow> False"
proof -
  obtain job where j: "find_job 95 routed_db = Some job" "pj_status job = J_PENDING" "pj_operation job = PROVISION"
    "pj_customerServiceId job = 60"
    by (simp add: find_job_def routed_db_def billing_db.extend_def)
  obtain res db' d' where r: "runProvisioningJob (\<lambda>x. x) (\<lambda>_. live_adapter) 95 routed_db () = (res, db', d')"
    using prod_cases3 by blast
  obtain fin where fin: "res = Inr fin" using run_pending [OF j(1,2) r] by blast
  have ids: "map s_id (services db') = [60]"
  proof -
    have "map s_id (services routed_db) = [60]"
      by (simp add: routed_db_def billing_db.extend_def running_db_def empty_db_def sample_service_def)
    moreover have "pj_status job \<noteq> J_SUCCEEDED" "pj_status job \<noteq> J_CANCELLED" using j(2) by simp_all
    ultimately show ?thesis
      by (cases rule: runProvisioningJob_outcome [OF j(1) _ _ r]) (simp_all add: map_update_where)
  qed
  from provisioned_only_when_confirmed [OF j(1,3) _ r [unfolded fin]] j(2,4) ids
  show ?thesis unfolding r fin by (auto simp: map_eq_Cons_conv split: if_splits)
qed

section \<open>The queue\<close>

definition queue_ok :: "'x provisioning_db_scheme \<Rightarrow> bool" where
  "queue_ok db \<longleftrightarrow> distinct (map pj_idempotencyKey (provisioningJobs db)) \<and> distinct (map pj_id (provisioningJobs db))
     \<and> (\<forall>j \<in> set (provisioningJobs db). pj_id j < nextId db)"

lemma requeued_simps [simp]: "pj_id (requeued j) = pj_id j" "pj_idempotencyKey (requeued j) = pj_idempotencyKey j"
  "pj_status (requeued j) = J_PENDING" "pj_createdAt (requeued j) = pj_createdAt j" "pj_tenantId (requeued j) = pj_tenantId j"
  by (simp_all add: requeued_def)

lemma queue_ok_requeue: "queue_ok db \<Longrightarrow> queue_ok (update_job i requeued db)"
  by (auto simp: queue_ok_def update_job_def map_update_where set_update_where)

lemma buildProvisioningPlan_jobs [simp]:
  "buildProvisioningPlan i (update_job k f db) = buildProvisioningPlan i db"
  "buildProvisioningPlan i (db\<lparr>provisioningJobs := js, nextId := n\<rparr>) = buildProvisioningPlan i db"
  by (rule buildProvisioningPlan_cong [where f = "\<lambda>s. s"]; simp add: update_job_def find_service_def option.map_ident)+

text \<open>
  Work for the router is queued once. Asking for a change that is already waiting, because a
  payment was confirmed twice or a button pressed twice, adds no job and changes nothing; the queue
  never holds two jobs for the same change of the same subscription and configuration.
\<close>

theorem queueing_again_adds_nothing:
  assumes ok: "queue_ok db" and q: "enqueueProvisioningJob t i op db = (Inr (job, dup), db1)" and p: "pj_status job = J_PENDING"
  shows "enqueueProvisioningJob t i op db1 = (Inr (job, True), db1) \<and> queue_ok db1
    \<and> length (provisioningJobs db1) = length (provisioningJobs db) + (if dup then 0 else 1)
    \<and> filter (\<lambda>j. pj_idempotencyKey j = pj_idempotencyKey job) (provisioningJobs db1) = [job]"
proof -
  obtain s where s: "find_service i db = Some s"
    using q by (cases "find_service i db") (auto simp: enqueueProvisioningJob_def Let_def)
  let ?plan = "buildProvisioningPlan i db"
  define key where "key = idempotencyKeyFor i op (fingerprint_of ?plan)"
  have s': "find_service i db1 = Some s" if "services db1 = services db" using s that by (simp add: find_service_def)
  have alone: "filter (\<lambda>j. pj_idempotencyKey j = pj_idempotencyKey job) js = [job]"
    if "distinct (map pj_idempotencyKey js)" "job \<in> set js" for js
    using that by (induction js) (auto simp: filter_empty_conv image_iff)
  have again: "enqueueProvisioningJob t i op db1 = (Inr (job, True), db1)"
    if "buildProvisioningPlan i db1 = ?plan" "services db1 = services db"
      "List.find (\<lambda>j. pj_idempotencyKey j = key) (provisioningJobs db1) = Some job"
    using that p by (simp add: enqueueProvisioningJob_def Let_def s' key_def)
  show ?thesis
  proof (cases "List.find (\<lambda>j. pj_idempotencyKey j = key) (provisioningJobs db)")
    case (Some e)
    note e = find_SomeD [OF Some]
    show ?thesis
    proof (cases "pj_status e = J_PENDING \<or> pj_status e = J_PROCESSING")
      case True
      then have "job = e" "dup = True" "db1 = db"
        using q Some by (auto simp: enqueueProvisioningJob_def Let_def s key_def)
      then show ?thesis using again Some ok e alone [of "provisioningJobs db"] by (simp add: queue_ok_def)
    next
      case False
      then have r: "job = requeued e" "dup = True" "db1 = update_job (pj_id e) requeued db"
        using q Some by (auto simp: enqueueProvisioningJob_def Let_def s key_def)
      have mem: "job \<in> set (provisioningJobs db1)" using e by (auto simp: r update_job_def set_update_where)
      have ok1: "queue_ok db1" unfolding r by (rule queue_ok_requeue [OF ok])
      have "List.find (\<lambda>j. pj_idempotencyKey j = pj_idempotencyKey job) (provisioningJobs db1) = Some job"
        using ok1 mem by (intro find_key_unique) (simp_all add: queue_ok_def)
      then have f: "List.find (\<lambda>j. pj_idempotencyKey j = key) (provisioningJobs db1) = Some job"
        using e by (simp add: r)
      have "buildProvisioningPlan i db1 = ?plan" "services db1 = services db" by (simp_all add: r)
      from again [OF this f] show ?thesis
        using ok1 mem alone [of "provisioningJobs db1"] by (simp add: queue_ok_def r update_job_def update_where_def)
    qed
  next
    case None
    let ?job = "new_job (nextId db) t s op key ?plan (clock db)"
    obtain pl where pl: "?plan = Inr pl"
      using q p None by (cases ?plan) (auto simp: enqueueProvisioningJob_def Let_def s key_def new_job_def)
    then have r: "job = ?job" "dup = False" "db1 = db\<lparr>provisioningJobs := provisioningJobs db @ [job], nextId := nextId db + 1\<rparr>"
      using q None by (auto simp: enqueueProvisioningJob_def Let_def s key_def)
    have k: "pj_idempotencyKey job = key" "pj_id job = nextId db" by (simp_all add: r(1) new_job_def)
    have fresh: "pj_idempotencyKey j \<noteq> key" if "j \<in> set (provisioningJobs db)" for j using find_NoneD [OF None that] by simp
    have "queue_ok db1" using ok fresh k by (fastforce simp: queue_ok_def r(3))
    moreover have f: "List.find (\<lambda>j. pj_idempotencyKey j = key) (provisioningJobs db1) = Some job"
      using None k by (simp add: r(3) find_append)
    moreover have "buildProvisioningPlan i db1 = ?plan" "services db1 = services db" unfolding r(3) by simp_all
    ultimately show ?thesis
      using again alone [of "provisioningJobs db1"] by (simp add: queue_ok_def) (simp add: r(2,3))
  qed
qed

theorem queueing_again_adds_nothing_witness:
  "let (r, db1) = enqueueProvisioningJob 7 60 SUSPEND routed_db; (r', db2) = enqueueProvisioningJob 7 60 SUSPEND db1
   in length (provisioningJobs db1) = 2 \<and> db2 = db1"
proof -
  have s: "find_service 60 routed_db = Some sample_service"
    by (simp add: find_service_def routed_db_def billing_db.extend_def running_db_def sample_service_def)
  have ok: "queue_ok routed_db" by (simp add: queue_ok_def routed_db_def billing_db.extend_def running_db_def)
  have other: "List.find (\<lambda>j. pj_idempotencyKey j = idempotencyKeyFor 60 SUSPEND fp) (provisioningJobs routed_db) = None" for fp
    by (simp add: routed_db_def billing_db.extend_def idempotencyKeyFor_def op_name_def nat_to_string.simps digit_char_def)
  have tables: "find_package (s_packageId sample_service) routed_db = Some sample_package"
    "List.find (\<lambda>n. pn_packageId n = s_packageId sample_service) (packageNetworks routed_db) = Some \<lparr>pn_packageId = 50,
        pn_routerId = Some 90, pn_vlanId = None, pn_serviceType = ''PPPOE'', pn_pppoeProfile = None, pn_hotspotProfile = None\<rparr>"
    "find_router (Some 90) routed_db = Some \<lparr>dr_id = 90, dr_name = ''core'', dr_host = Some ''10.0.0.1'', dr_apiPort = 8728\<rparr>"
    "List.find (\<lambda>u. ru_customerServiceId u = 60) (radiusUsers routed_db) = Some sample_account"
    by (simp_all add: find_package_def find_router_def routed_db_def billing_db.extend_def running_db_def sample_service_def
        sample_package_def sample_account_def)
  obtain pl where pl: "buildProvisioningPlan 60 routed_db = Inr pl"
    by (simp add: buildProvisioningPlan_def s Let_def tables is_text_def)
  obtain job db1 where q: "enqueueProvisioningJob 7 60 SUSPEND routed_db = (Inr (job, False), db1)" "pj_status job = J_PENDING"
    by (simp add: enqueueProvisioningJob_def Let_def s other pl new_job_def)
  have "length (provisioningJobs routed_db) = 1" by (simp add: routed_db_def billing_db.extend_def)
  with queueing_again_adds_nothing [OF ok q] show ?thesis by (simp add: q)
qed

text \<open>
  A job requeued by a later change keeps its place: jobs run in the order they were first created,
  so a suspension queued after a restoration that is still waiting runs before it.
\<close>

lemma requeued_suspension_runs_first:
  assumes jobs: "provisioningJobs db = [a, b]" and b: "pj_status b = J_PENDING" "pj_operation b = RESTORE"
    and a: "pj_status a = J_SUCCEEDED" "pj_operation a = SUSPEND" "pj_id a \<noteq> pj_id b" "pj_createdAt a < pj_createdAt b"
      "pj_idempotencyKey a = idempotencyKeyFor i SUSPEND (fingerprint_of (buildProvisioningPlan i db))"
    and s: "find_service i db = Some s"
  shows "map pj_operation (listRunnableJobs 20 (snd (enqueueProvisioningJob t i SUSPEND db))) = [SUSPEND, RESTORE]"
proof -
  have "provisioningJobs (snd (enqueueProvisioningJob t i SUSPEND db)) = [requeued a, b]"
    using a jobs s by (simp add: enqueueProvisioningJob_def Let_def update_job_def)
  moreover have "pj_operation (requeued a) = SUSPEND" using a(2) by (simp add: requeued_def)
  ultimately show ?thesis using a b by (simp add: listRunnableJobs_def)
qed

text \<open>
  A job a stopped worker left in processing is never run again: the worker does not list it, it
  cannot be retried, and asking for the change again returns it as it is.
\<close>

lemma processing_job_is_stuck:
  assumes ok: "queue_ok db" and j: "job \<in> set (provisioningJobs db)" "pj_status job = J_PROCESSING" "pj_tenantId job = t"
  shows "pj_id job \<notin> pj_id ` set (listRunnableJobs n db) \<and> (\<exists>e. retryProvisioningJob t (pj_id job) db = (Inl e, db))
    \<and> (pj_idempotencyKey job = idempotencyKeyFor i op (fingerprint_of (buildProvisioningPlan i db)) \<longrightarrow>
        snd (enqueueProvisioningJob t' i op db) = db)"
proof -
  have ids: "distinct (map pj_id (provisioningJobs db))" and keys: "distinct (map pj_idempotencyKey (provisioningJobs db))"
    using ok by (simp_all add: queue_ok_def)
  have "x = job" "pj_status x = J_PENDING" if "x \<in> set (listRunnableJobs n db)" "pj_id x = pj_id job" for x
    using in_set_takeD [OF that(1) [unfolded listRunnableJobs_def]] key_eq_rows [OF ids _ j(1) that(2)] by simp_all
  then have "pj_id job \<notin> pj_id ` set (listRunnableJobs n db)" using j(2) by (metis imageE job_status.distinct(1))
  moreover have "List.find (\<lambda>x. pj_id x = pj_id job \<and> pj_tenantId x = t) (provisioningJobs db) = Some job"
    by (rule find_key_and [OF ids j(1), where q = "\<lambda>x. pj_tenantId x = t"]) (rule j(3))
  then have "\<exists>e. retryProvisioningJob t (pj_id job) db = (Inl e, db)" using j(2) by (simp add: retryProvisioningJob_def)
  moreover have "List.find (\<lambda>x. pj_idempotencyKey x = pj_idempotencyKey job) (provisioningJobs db) = Some job"
    by (rule find_key_unique [OF keys j(1)])
  then have "snd (enqueueProvisioningJob t' i op db) = db"
    if "pj_idempotencyKey job = idempotencyKeyFor i op (fingerprint_of (buildProvisioningPlan i db))"
    using j(2) that by (simp add: enqueueProvisioningJob_def Let_def split: option.splits)
  ultimately show ?thesis by blast
qed

end
