(* ===== verification/AddOns.thy ===== *)
theory AddOns
  imports Provisioning Subscriptions
begin

text \<open>
  packages/billing/src/addon.service.ts: prepaid speed boosts and extra data for a plan, from the
  catalogue to the end of their hours. A purchase starts when its invoice is paid.
\<close>

section \<open>The catalogue\<close>

definition HOUR :: time where
  "HOUR = 3600000"

definition ABANDON_AFTER_MS :: time where
  "ABANDON_AFTER_MS = 2 * HOUR"

record add_on_input =
  ai_name :: string
  ai_kind :: add_on_kind
  ai_downloadKbps :: "int option"
  ai_uploadKbps :: "int option"
  ai_dataMb :: "int option"
  ai_durationHours :: int
  ai_priceMinor :: minor
  ai_isActive :: "bool option"

definition truthy :: "int option \<Rightarrow> bool" where
  "truthy x \<longleftrightarrow> x \<noteq> None \<and> x \<noteq> Some 0"

definition validateAddOn :: "add_on_kind \<Rightarrow> int option \<Rightarrow> int option \<Rightarrow> int option \<Rightarrow> unit result" where
  "validateAddOn kind download upload dataMb =
     (if kind = SPEED \<and> (\<not> truthy download \<or> \<not> truthy upload) then Inl (ValidationError ''A speed boost needs a download and upload speed'')
      else if kind = DATA \<and> \<not> truthy dataMb then Inl (ValidationError ''A data add-on needs an amount of data'')
      else Inr ())"

definition only_if :: "bool \<Rightarrow> 'a option \<Rightarrow> 'a option" where
  "only_if b x = (if b then x else None)"

definition listAddOns :: "id \<Rightarrow> bool \<Rightarrow> 'x provisioning_db_scheme \<Rightarrow> add_on list" where
  "listAddOns tenantId onlyActive db =
     (let rows = sort_key ao_priceMinor
            (filter (\<lambda>a. ao_tenantId a = tenantId \<and> ao_deletedAt a = None \<and> (onlyActive \<longrightarrow> ao_isActive a)) (addOns db))
      in filter (\<lambda>a. ao_kind a = SPEED) rows @ filter (\<lambda>a. ao_kind a = DATA) rows)"

definition new_add_on :: "id \<Rightarrow> id \<Rightarrow> add_on_input \<Rightarrow> string \<Rightarrow> add_on" where
  "new_add_on newId tenantId inp currency =
     \<lparr>ao_id = newId, ao_tenantId = tenantId, ao_name = ai_name inp, ao_kind = ai_kind inp,
      ao_downloadKbps = only_if (ai_kind inp = SPEED) (ai_downloadKbps inp), ao_uploadKbps = only_if (ai_kind inp = SPEED) (ai_uploadKbps inp),
      ao_dataMb = only_if (ai_kind inp = DATA) (ai_dataMb inp), ao_durationHours = ai_durationHours inp, ao_priceMinor = ai_priceMinor inp,
      ao_currency = currency, ao_isActive = (case ai_isActive inp of None \<Rightarrow> True | Some b \<Rightarrow> b), ao_deletedAt = None\<rparr>"

definition createAddOn :: "id \<Rightarrow> add_on_input \<Rightarrow> 'x provisioning_db_scheme \<Rightarrow> (add_on \<times> 'x provisioning_db_scheme) result" where
  "createAddOn tenantId inp db =
     (case validateAddOn (ai_kind inp) (ai_downloadKbps inp) (ai_uploadKbps inp) (ai_dataMb inp) of Inl e \<Rightarrow> Inl e
      | Inr _ \<Rightarrow>
          (case List.find (\<lambda>t. t_id t = tenantId) (tenants db) of None \<Rightarrow> Inl RecordNotFound
           | Some ten \<Rightarrow>
               let a = new_add_on (nextId db) tenantId inp (t_currency ten)
               in Inr (a, db\<lparr>nextId := nextId db + 1, addOns := addOns db @ [a]\<rparr>)))"

text \<open>A field that is left out is \<open>None\<close>; a speed or an amount of data may also be set to null.\<close>

record add_on_changes =
  ch_name :: "string option"
  ch_kind :: "add_on_kind option"
  ch_downloadKbps :: "int option option"
  ch_uploadKbps :: "int option option"
  ch_dataMb :: "int option option"
  ch_durationHours :: "int option"
  ch_priceMinor :: "minor option"
  ch_isActive :: "bool option"

definition changed :: "'a \<Rightarrow> 'a option \<Rightarrow> 'a" where
  "changed old new = (case new of None \<Rightarrow> old | Some x \<Rightarrow> x)"

definition find_add_on :: "id \<Rightarrow> id \<Rightarrow> 'x provisioning_db_scheme \<Rightarrow> add_on option" where
  "find_add_on tenantId i db = List.find (\<lambda>a. ao_id a = i \<and> ao_tenantId a = tenantId \<and> ao_deletedAt a = None) (addOns db)"

text \<open>The kind decides which of the fields are kept, but is itself not written.\<close>

definition updateAddOn :: "id \<Rightarrow> id \<Rightarrow> add_on_changes \<Rightarrow> 'x provisioning_db_scheme \<Rightarrow> (add_on \<times> 'x provisioning_db_scheme) result" where
  "updateAddOn tenantId i ch db =
     (case find_add_on tenantId i db of None \<Rightarrow> Inl (NotFoundError ''Add-on'')
      | Some old \<Rightarrow>
          let kind = changed (ao_kind old) (ch_kind ch); download = changed (ao_downloadKbps old) (ch_downloadKbps ch);
              upload = changed (ao_uploadKbps old) (ch_uploadKbps ch); mb = changed (ao_dataMb old) (ch_dataMb ch)
          in (case validateAddOn kind download upload mb of Inl e \<Rightarrow> Inl e
              | Inr _ \<Rightarrow>
                  let f = (\<lambda>a. a\<lparr>ao_name := changed (ao_name old) (ch_name ch), ao_downloadKbps := only_if (kind = SPEED) download,
                        ao_uploadKbps := only_if (kind = SPEED) upload, ao_dataMb := only_if (kind = DATA) mb,
                        ao_durationHours := changed (ao_durationHours old) (ch_durationHours ch),
                        ao_priceMinor := changed (ao_priceMinor old) (ch_priceMinor ch), ao_isActive := changed (ao_isActive old) (ch_isActive ch)\<rparr>)
                  in Inr (f old, db\<lparr>addOns := update_where (\<lambda>a. ao_id a = i) f (addOns db)\<rparr>)))"

definition deleteAddOn :: "id \<Rightarrow> id \<Rightarrow> 'x provisioning_db_scheme \<Rightarrow> 'x provisioning_db_scheme result" where
  "deleteAddOn tenantId i db =
     (if count_where (\<lambda>a. ao_id a = i \<and> ao_tenantId a = tenantId \<and> ao_deletedAt a = None) (addOns db) = 0 then Inl (NotFoundError ''Add-on'')
      else Inr (db\<lparr>addOns := update_where (\<lambda>a. ao_id a = i \<and> ao_tenantId a = tenantId \<and> ao_deletedAt a = None)
             (\<lambda>a. a\<lparr>ao_deletedAt := Some (clock db), ao_isActive := False\<rparr>) (addOns db)\<rparr>))"

section \<open>Buying\<close>

definition invoice_status_of :: "'x provisioning_db_scheme \<Rightarrow> add_on_purchase \<Rightarrow> invoice_status option" where
  "invoice_status_of db p = (case ap_invoiceId p of None \<Rightarrow> None | Some i \<Rightarrow> map_option i_status (find_invoice i db))"

definition new_purchase :: "id \<Rightarrow> service \<Rightarrow> add_on \<Rightarrow> id option \<Rightarrow> minor \<Rightarrow> string \<Rightarrow> time \<Rightarrow> add_on_purchase" where
  "new_purchase newId s a invoiceId priceMinor requestedBy now =
     \<lparr>ap_id = newId, ap_tenantId = s_tenantId s, ap_customerId = s_customerId s, ap_customerServiceId = s_id s,
      ap_addOnId = Some (ao_id a), ap_invoiceId = invoiceId, ap_status = AWAITING_PAYMENT, ap_name = ao_name a, ap_kind = ao_kind a,
      ap_downloadKbps = ao_downloadKbps a, ap_uploadKbps = ao_uploadKbps a, ap_dataMb = ao_dataMb a, ap_durationHours = ao_durationHours a,
      ap_priceMinor = priceMinor, ap_currency = ao_currency a, ap_requestedBy = requestedBy, ap_startsAt = None, ap_endsAt = None, ap_createdAt = now\<rparr>"

text \<open>The plan and the add-on, when the one can take the other; \<open>how\<close> is the verb of the message.\<close>

definition plan_and_add_on ::
  "string \<Rightarrow> bool \<Rightarrow> id \<Rightarrow> id \<Rightarrow> id \<Rightarrow> 'x provisioning_db_scheme \<Rightarrow> (service \<times> add_on) result" where
  "plan_and_add_on how onlyActive tenantId customerServiceId addOnId db =
     (case List.find (\<lambda>s. s_id s = customerServiceId \<and> s_tenantId s = tenantId) (services db) of
        None \<Rightarrow> Inl (NotFoundError ''Subscription'')
      | Some s \<Rightarrow>
          (case List.find (\<lambda>a. ao_id a = addOnId \<and> ao_tenantId a = tenantId \<and> ao_deletedAt a = None \<and> (onlyActive \<longrightarrow> ao_isActive a)) (addOns db) of
             None \<Rightarrow> Inl (NotFoundError ''Add-on'')
           | Some a \<Rightarrow>
               if s_status s \<noteq> S_ACTIVE then Inl (ConflictError (''Add-ons can only be '' @ how @ '' an active plan''))
               else if \<not> list_ex (\<lambda>u. ru_customerServiceId u = s_id s) (radiusUsers db)
               then Inl (ConflictError ''This plan has no internet login to apply an add-on to'')
               else Inr (s, a)))"

definition buyAddOn ::
  "id \<Rightarrow> id \<Rightarrow> id \<Rightarrow> string \<Rightarrow> 'x provisioning_db_scheme \<Rightarrow> ((add_on_purchase \<times> invoice) \<times> 'x provisioning_db_scheme) result" where
  "buyAddOn tenantId customerServiceId addOnId requestedBy db =
     (case plan_and_add_on ''bought for'' True tenantId customerServiceId addOnId db of Inl e \<Rightarrow> Inl e
      | Inr (s, a) \<Rightarrow>
          (case List.find (\<lambda>p. ap_customerServiceId p = customerServiceId \<and> ap_addOnId p = Some addOnId \<and> ap_status p = AWAITING_PAYMENT
                  \<and> invoice_status_of db p = Some I_PENDING) (addOnPurchases db) of
             Some waiting \<Rightarrow>
               (case (case ap_invoiceId waiting of None \<Rightarrow> None | Some i \<Rightarrow> find_invoice i db) of
                  Some invoice \<Rightarrow> Inr ((waiting, invoice), db) | None \<Rightarrow> Inl RecordNotFound)
           | None \<Rightarrow>
               (case find_package (s_packageId s) db of None \<Rightarrow> Inl RecordNotFound
                | Some pkg \<Rightarrow>
                    (case createAddOnInvoice tenantId (s_customerId s) customerServiceId
                            (''Add-on: '' @ ao_name a @ '' ('' @ int_to_string (ao_durationHours a) @ '' hours)'')
                            (ao_priceMinor a) (ao_currency a) (k_taxPercent pkg) db of Inl e \<Rightarrow> Inl e
                     | Inr (invoice, db1) \<Rightarrow>
                         let p = new_purchase (nextId db1) s a (Some (i_id invoice)) (ao_priceMinor a) requestedBy (clock db)
                         in Inr ((p, invoice), db1\<lparr>nextId := nextId db1 + 1, addOnPurchases := addOnPurchases db1 @ [p]\<rparr>)))))"

section \<open>Starting and ending\<close>

definition addOnEndsAt :: "time \<Rightarrow> int \<Rightarrow> time option \<Rightarrow> time" where
  "addOnEndsAt now durationHours runningEndsAt =
     (case runningEndsAt of
        Some e \<Rightarrow> (if e > now then e else now) + durationHours * HOUR
      | None \<Rightarrow> now + durationHours * HOUR)"

text \<open>The one that ends last; of several, the first row.\<close>

definition running_add_on :: "add_on_purchase \<Rightarrow> 'x provisioning_db_scheme \<Rightarrow> add_on_purchase option" where
  "running_add_on purchase db =
     (if ap_addOnId purchase = None then None
      else List.find (\<lambda>_. True) (sort_key (\<lambda>p. - the (ap_endsAt p))
             (filter (\<lambda>p. ap_customerServiceId p = ap_customerServiceId purchase \<and> ap_addOnId p = ap_addOnId purchase
                \<and> ap_status p = PURCHASE_ACTIVE \<and> ends_after (clock db) p) (addOnPurchases db))))"

definition update_purchases :: "(add_on_purchase \<Rightarrow> bool) \<Rightarrow> (add_on_purchase \<Rightarrow> add_on_purchase) \<Rightarrow> 'x provisioning_db_scheme \<Rightarrow> 'x provisioning_db_scheme" where
  "update_purchases q f db = db\<lparr>addOnPurchases := update_where q f (addOnPurchases db)\<rparr>"

definition activate :: "add_on_purchase \<Rightarrow> 'x provisioning_db_scheme \<Rightarrow> add_on_purchase option \<times> 'x provisioning_db_scheme" where
  "activate purchase db =
     (let running = running_add_on purchase db;
          endsAt = addOnEndsAt (clock db) (ap_durationHours purchase) (case running of None \<Rightarrow> None | Some r \<Rightarrow> ap_endsAt r);
          claim = (\<lambda>p. ap_id p = ap_id purchase \<and> ap_status p = AWAITING_PAYMENT)
      in if count_where claim (addOnPurchases db) = 0 then (None, db)
         else let db1 = update_purchases claim (\<lambda>p. p\<lparr>ap_status := PURCHASE_ACTIVE, ap_startsAt := Some (clock db), ap_endsAt := Some endsAt\<rparr>) db;
                  db2 = (case running of None \<Rightarrow> db1 | Some r \<Rightarrow> update_purchases (\<lambda>p. ap_id p = ap_id r) (\<lambda>p. p\<lparr>ap_endsAt := Some endsAt\<rparr>) db1);
                  db3 = (if ap_kind purchase = SPEED then snd (refreshSubscriberRate (ap_tenantId purchase) (ap_customerServiceId purchase) db2) else db2)
              in (List.find (\<lambda>p. ap_id p = ap_id purchase) (addOnPurchases db3), db3))"

fun activate_all :: "add_on_purchase list \<Rightarrow> 'x provisioning_db_scheme \<Rightarrow> add_on_purchase list \<times> 'x provisioning_db_scheme" where
  "activate_all [] db = ([], db)"
| "activate_all (p # ps) db =
     (case activate p db of
        (a, db1) \<Rightarrow> (case activate_all ps db1 of (later, db2) \<Rightarrow> ((case a of None \<Rightarrow> later | Some x \<Rightarrow> x # later), db2)))"

definition activatePaidAddOns ::
  "id option \<Rightarrow> id option \<Rightarrow> 'x provisioning_db_scheme \<Rightarrow> add_on_purchase list \<times> 'x provisioning_db_scheme" where
  "activatePaidAddOns tenantId customerId db =
     activate_all (filter (\<lambda>p. (tenantId \<noteq> None \<longrightarrow> tenantId = Some (ap_tenantId p)) \<and> (customerId \<noteq> None \<longrightarrow> customerId = Some (ap_customerId p))
        \<and> ap_status p = AWAITING_PAYMENT \<and> invoice_status_of db p = Some I_PAID) (addOnPurchases db)) db"

definition ended_by :: "time \<Rightarrow> add_on_purchase \<Rightarrow> bool" where
  "ended_by now p \<longleftrightarrow> ap_status p = PURCHASE_ACTIVE \<and> (case ap_endsAt p of None \<Rightarrow> False | Some t \<Rightarrow> t \<le> now)"

text \<open>The plans whose boost ended, each once: a \<open>Map\<close> keeps the place of the first and the value of the last.\<close>

definition boosted_plans :: "add_on_purchase list \<Rightarrow> (id \<times> id) list" where
  "boosted_plans due =
     (let speed = filter (\<lambda>p. ap_kind p = SPEED) due
      in map (\<lambda>s. (ap_tenantId (last (filter (\<lambda>p. ap_customerServiceId p = s) speed)), s))
           (rev (remdups (rev (map ap_customerServiceId speed)))))"

definition expireAddOns :: "time \<Rightarrow> 'x provisioning_db_scheme \<Rightarrow> add_on_purchase list \<times> 'x provisioning_db_scheme" where
  "expireAddOns now db =
     (let due = filter (ended_by now) (addOnPurchases db);
          db1 = fold (\<lambda>p. update_purchases (\<lambda>x. ap_id x = ap_id p) (\<lambda>x. x\<lparr>ap_status := PURCHASE_EXPIRED\<rparr>)) due db
      in (due, fold (\<lambda>(t, s) d. snd (refreshSubscriberRate t s d)) (boosted_plans due) db1))"

definition cancel_purchase :: "add_on_purchase \<Rightarrow> 'x provisioning_db_scheme \<Rightarrow> 'x provisioning_db_scheme" where
  "cancel_purchase p db =
     (let db1 = update_purchases (\<lambda>x. ap_id x = ap_id p) (\<lambda>x. x\<lparr>ap_status := PURCHASE_CANCELLED\<rparr>) db
      in case ap_invoiceId p of None \<Rightarrow> db1 | Some i \<Rightarrow> update_invoice i (\<lambda>x. x\<lparr>i_status := I_CANCELLED\<rparr>) db1)"

text \<open>The invoice of a purchase as it was read with it, unless its row is gone.\<close>

definition invoice_of :: "'x provisioning_db_scheme \<Rightarrow> add_on_purchase \<Rightarrow> invoice option" where
  "invoice_of db p = (case ap_invoiceId p of None \<Rightarrow> None | Some i \<Rightarrow> find_invoice i db)"

definition abandoned :: "time \<Rightarrow> 'x provisioning_db_scheme \<Rightarrow> add_on_purchase \<Rightarrow> bool" where
  "abandoned now db p \<longleftrightarrow> ap_status p = AWAITING_PAYMENT \<and> ap_createdAt p < now - ABANDON_AFTER_MS
     \<and> (case invoice_of db p of None \<Rightarrow> True
        | Some i \<Rightarrow> \<not> (i_amountPaidMinor i > 0 \<or> (i_status i \<noteq> I_PENDING \<and> i_status i \<noteq> I_OVERDUE)))"

definition cancelAbandonedAddOns :: "time \<Rightarrow> 'x provisioning_db_scheme \<Rightarrow> nat \<times> 'x provisioning_db_scheme" where
  "cancelAbandonedAddOns now db =
     (let stale = filter (abandoned now db) (addOnPurchases db)
      in (length stale, fold cancel_purchase stale db))"

definition sweepAddOns :: "'x provisioning_db_scheme \<Rightarrow> (nat \<times> nat \<times> nat) \<times> 'x provisioning_db_scheme" where
  "sweepAddOns db =
     (case activatePaidAddOns None None db of (started, db1) \<Rightarrow>
        (case expireAddOns (clock db1) db1 of (due, db2) \<Rightarrow>
           (case cancelAbandonedAddOns (clock db2) db2 of (cancelled, db3) \<Rightarrow> ((length started, length due, cancelled), db3))))"

definition activeDataBonusMb :: "id list \<Rightarrow> time \<Rightarrow> 'x provisioning_db_scheme \<Rightarrow> (id \<times> int) list" where
  "activeDataBonusMb customerServiceIds now db =
     (let rows = filter (\<lambda>p. ap_customerServiceId p \<in> set customerServiceIds \<and> ap_kind p = DATA \<and> ap_status p = PURCHASE_ACTIVE
            \<and> started_by now p \<and> ends_after now p) (addOnPurchases db)
      in map (\<lambda>s. (s, sum_where (\<lambda>p. ap_customerServiceId p = s) (\<lambda>p. case ap_dataMb p of None \<Rightarrow> 0 | Some mb \<Rightarrow> mb) rows))
           (remdups (map ap_customerServiceId rows)))"

definition listPurchasesForCustomer :: "id \<Rightarrow> nat \<Rightarrow> 'x provisioning_db_scheme \<Rightarrow> add_on_purchase list" where
  "listPurchasesForCustomer customerId n db =
     take n (sort_key (\<lambda>p. - ap_createdAt p) (filter (\<lambda>p. ap_customerId p = customerId \<and> ap_status p \<noteq> PURCHASE_CANCELLED) (addOnPurchases db)))"

definition listRecentPurchases :: "id \<Rightarrow> nat \<Rightarrow> 'x provisioning_db_scheme \<Rightarrow> (add_on_purchase \<times> (id \<times> string \<times> string) option) list" where
  "listRecentPurchases tenantId n db =
     map (\<lambda>p. (p, map_option (\<lambda>c. (c_id c, c_fullName c, c_customerNumber c)) (List.find (\<lambda>c. c_id c = ap_customerId p) (customers db))))
       (take n (sort_key (\<lambda>p. - ap_createdAt p) (filter (\<lambda>p. ap_tenantId p = tenantId \<and> ap_status p \<noteq> PURCHASE_CANCELLED) (addOnPurchases db))))"

definition grantAddOn :: "id \<Rightarrow> id \<Rightarrow> id \<Rightarrow> 'x provisioning_db_scheme \<Rightarrow> (add_on_purchase \<times> 'x provisioning_db_scheme) result" where
  "grantAddOn tenantId customerServiceId addOnId db =
     (case plan_and_add_on ''given to'' False tenantId customerServiceId addOnId db of Inl e \<Rightarrow> Inl e
      | Inr (s, a) \<Rightarrow>
          let p = new_purchase (nextId db) s a None 0 ''staff'' (clock db);
              db1 = db\<lparr>nextId := nextId db + 1, addOnPurchases := addOnPurchases db @ [p]\<rparr>
          in (case activate p db1 of (started, db2) \<Rightarrow> Inr (changed p started, db2)))"

definition cancelUnstartedPurchase :: "id \<Rightarrow> 'x provisioning_db_scheme \<Rightarrow> 'x provisioning_db_scheme" where
  "cancelUnstartedPurchase purchaseId db =
     (case List.find (\<lambda>p. ap_id p = purchaseId) (addOnPurchases db) of None \<Rightarrow> db
      | Some p \<Rightarrow>
          if ap_status p \<noteq> AWAITING_PAYMENT
            \<or> (case invoice_of db p of None \<Rightarrow> False | Some i \<Rightarrow> i_amountPaidMinor i > 0 \<or> i_status i \<noteq> I_PENDING)
          then db else cancel_purchase p db)"

section \<open>What a boost or its end touches\<close>

lemma refresh_frame:
  assumes "refreshSubscriberRate t s db = (r, db')"
  shows "addOnPurchases db' = addOnPurchases db" "addOns db' = addOns db" "invoices db' = invoices db" "payments db' = payments db"
    "clock db' = clock db" "nextId db' = nextId db" "services db' = services db"
  using assms by (auto simp: refreshSubscriberRate_def Let_def split: option.splits if_splits)

lemma snd_refresh_frame [simp]:
  "addOnPurchases (snd (refreshSubscriberRate t s db)) = addOnPurchases db" "invoices (snd (refreshSubscriberRate t s db)) = invoices db"
  "clock (snd (refreshSubscriberRate t s db)) = clock db" "nextId (snd (refreshSubscriberRate t s db)) = nextId db"
  using refresh_frame [of t s db "fst (refreshSubscriberRate t s db)" "snd (refreshSubscriberRate t s db)"] by simp_all

lemma update_purchases_frame [simp]:
  "addOnPurchases (update_purchases q f db) = update_where q f (addOnPurchases db)" "invoices (update_purchases q f db) = invoices db"
  "clock (update_purchases q f db) = clock db" "nextId (update_purchases q f db) = nextId db"
  by (simp_all add: update_purchases_def)

lemma latest_row:
  fixes k :: "'r \<Rightarrow> int"
  assumes "List.find (\<lambda>_. True) (sort_key k xs) = Some r"
  shows "r \<in> set xs \<and> (\<forall>x \<in> set xs. k r \<le> k x)"
proof -
  obtain ys where ys: "sort_key k xs = r # ys" using assms by (cases "sort_key k xs") auto
  have "sorted (map k (r # ys))" using sorted_sort_key [of k xs] unfolding ys by simp
  moreover have "set xs = set (r # ys)" using set_sort [of k xs] unfolding ys by simp
  ultimately show ?thesis by auto
qed

lemma no_row: "List.find (\<lambda>_. True) (sort_key k xs) = None \<longleftrightarrow> xs = []"
proof -
  have "List.find (\<lambda>_. True) ys = None \<longleftrightarrow> ys = []" for ys :: "'a list" by (cases ys) simp_all
  then show ?thesis by (simp add: length_0_conv [symmetric] del: length_0_conv)
qed

text \<open>The purchases of the same add-on that run now for the same plan.\<close>

definition running_now :: "add_on_purchase \<Rightarrow> 'x provisioning_db_scheme \<Rightarrow> add_on_purchase set" where
  "running_now purchase db = {p \<in> set (addOnPurchases db). ap_addOnId purchase \<noteq> None \<and> ap_customerServiceId p = ap_customerServiceId purchase
     \<and> ap_addOnId p = ap_addOnId purchase \<and> ap_status p = PURCHASE_ACTIVE \<and> ends_after (clock db) p}"

lemma running_spec:
  "case running_add_on purchase db of
     None \<Rightarrow> running_now purchase db = {}
   | Some r \<Rightarrow> r \<in> running_now purchase db \<and> (\<forall>x \<in> running_now purchase db. the (ap_endsAt x) \<le> the (ap_endsAt r))"
proof (cases "ap_addOnId purchase")
  case None
  then show ?thesis by (simp add: running_add_on_def running_now_def)
next
  case (Some a)
  let ?xs = "filter (\<lambda>p. ap_customerServiceId p = ap_customerServiceId purchase \<and> ap_addOnId p = ap_addOnId purchase
                \<and> ap_status p = PURCHASE_ACTIVE \<and> ends_after (clock db) p) (addOnPurchases db)"
  have s: "running_now purchase db = set ?xs" using Some by (auto simp: running_now_def)
  have r: "running_add_on purchase db = List.find (\<lambda>_. True) (sort_key (\<lambda>p. - the (ap_endsAt p)) ?xs)"
    using Some by (simp add: running_add_on_def)
  show ?thesis
  proof (cases "running_add_on purchase db")
    case None
    then have "?xs = []" using no_row [of "\<lambda>p. - the (ap_endsAt p)" ?xs] r by simp
    then show ?thesis unfolding s None option.case by (simp only: list.set(1))
  next
    case (Some x)
    from latest_row [OF Some [unfolded r]] show ?thesis unfolding s Some by auto
  qed
qed

text \<open>
  C7. Hours bought are hours delivered. Starting a purchase that waits for its payment makes it active
  from now until its hours after the end of the same add-on already running (after now, when there is
  none); the running one that ends last is extended to the same moment, no other purchase changes;
  and starting it again does nothing.
\<close>

theorem bought_hours_are_delivered:
  fixes db :: "'x provisioning_db_scheme"
  assumes d: "distinct (map ap_id (addOnPurchases db))" and p: "p \<in> set (addOnPurchases db)" "ap_status p = AWAITING_PAYMENT"
  defines "from_end \<equiv> (if running_now p db = {} then clock db else Max ((\<lambda>x. the (ap_endsAt x)) ` running_now p db))"
  defines "row \<equiv> p\<lparr>ap_status := PURCHASE_ACTIVE, ap_startsAt := Some (clock db), ap_endsAt := Some (from_end + ap_durationHours p * HOUR)\<rparr>"
  shows "fst (activate p db) = Some row \<and> row \<in> set (addOnPurchases (snd (activate p db)))
    \<and> (\<exists>r. {x \<in> set (addOnPurchases db). x \<noteq> p \<and> Some x \<noteq> r} \<subseteq> set (addOnPurchases (snd (activate p db)))
         \<and> (case r of None \<Rightarrow> running_now p db = {}
            | Some x \<Rightarrow> x \<in> running_now p db \<and> x\<lparr>ap_endsAt := ap_endsAt row\<rparr> \<in> set (addOnPurchases (snd (activate p db)))))
    \<and> activate p (snd (activate p db)) = (None, snd (activate p db))"
proof -
  let ?claim = "\<lambda>x. ap_id x = ap_id p \<and> ap_status x = AWAITING_PAYMENT"
  have same: "x = p" if "x \<in> set (addOnPurchases db)" "ap_id x = ap_id p" for x by (rule key_eq_rows [OF d that(1) p(1) that(2)])
  have c: "count_where ?claim (addOnPurchases db) \<noteq> 0" using p by (auto simp: count_where_def filter_empty_conv)
  define e where "e = addOnEndsAt (clock db) (ap_durationHours p) (case running_add_on p db of None \<Rightarrow> None | Some r \<Rightarrow> ap_endsAt r)"
  have fin: "finite (running_now p db)" by (rule finite_subset [of _ "set (addOnPurchases db)"]) (auto simp: running_now_def)
  have e: "e = from_end + ap_durationHours p * HOUR"
  proof (cases "running_add_on p db")
    case None
    then show ?thesis using running_spec [of p db] by (simp add: e_def from_end_def addOnEndsAt_def)
  next
    case (Some r)
    then have r: "r \<in> running_now p db" "\<forall>x \<in> running_now p db. the (ap_endsAt x) \<le> the (ap_endsAt r)"
      using running_spec [of p db] by simp_all
    have "Max ((\<lambda>x. the (ap_endsAt x)) ` running_now p db) = the (ap_endsAt r)"
      by (rule Max_eqI) (use r fin in auto)
    moreover obtain t where "ap_endsAt r = Some t" "clock db < t"
      using r(1) by (auto simp: running_now_def ends_after_def split: option.splits)
    ultimately show ?thesis using r(1) Some by (auto simp: e_def from_end_def addOnEndsAt_def)
  qed
  let ?rows1 = "update_where ?claim (\<lambda>p. p\<lparr>ap_status := PURCHASE_ACTIVE, ap_startsAt := Some (clock db), ap_endsAt := Some e\<rparr>) (addOnPurchases db)"
  let ?rows2 = "case running_add_on p db of None \<Rightarrow> ?rows1 | Some r \<Rightarrow> update_where (\<lambda>x. ap_id x = ap_id r) (\<lambda>x. x\<lparr>ap_endsAt := Some e\<rparr>) ?rows1"
  have out: "fst (activate p db) = List.find (\<lambda>x. ap_id x = ap_id p) ?rows2" and rows: "addOnPurchases (snd (activate p db)) = ?rows2"
    using c by (cases "running_add_on p db"; simp add: activate_def Let_def e_def)+
  have set1: "set ?rows1 = insert row (set (addOnPurchases db) - {p})"
    using p same by (auto simp: set_update_where row_def e)
  have upd: "set (update_where q f ?rows1) = f ` {x \<in> insert row (set (addOnPurchases db) - {p}). q x}
      \<union> {x \<in> insert row (set (addOnPurchases db) - {p}). \<not> q x}" for q f
    by (subst set_update_where, simp only: set1)
  have ids: "map ap_id ?rows1 = map ap_id (addOnPurchases db)" by (rule map_update_where) simp
  have idrow: "ap_id row = ap_id p" "ap_endsAt row = Some e" "ap_status row = PURCHASE_ACTIVE" by (simp_all add: row_def e)
  have ids2: "map ap_id ?rows2 = map ap_id (addOnPurchases db)"
    using ids by (cases "running_add_on p db") (simp_all add: map_update_where)
  have rowin: "row \<in> set ?rows2"
  proof (cases "running_add_on p db")
    case (Some r)
    then have "ap_status r = PURCHASE_ACTIVE" "r \<in> set (addOnPurchases db)" using running_spec [of p db] by (auto simp: running_now_def)
    then have "ap_id r \<noteq> ap_id row" using same [of r] p(2) idrow(1) by fastforce
    then show ?thesis unfolding Some option.case upd by auto
  qed (simp add: set1)
  have "List.find (\<lambda>x. ap_id x = ap_id row) ?rows2 = Some row"
    by (rule find_key_unique [OF _ rowin]) (use ids2 d in simp)
  then have 1: "fst (activate p db) = Some row" using out idrow(1) by simp
  have 2: "count_where ?claim ?rows2 = 0"
  proof -
    have dd: "distinct (map ap_id ?rows2)" unfolding ids2 by (rule d)
    have "x = row" if "x \<in> set ?rows2" "ap_id x = ap_id p" for x
      by (rule key_eq_rows [OF dd that(1) rowin]) (simp only: that(2) idrow(1))
    then show ?thesis using idrow(3) by (auto simp: count_where_def filter_empty_conv)
  qed
  have 3: "\<exists>r. {x \<in> set (addOnPurchases db). x \<noteq> p \<and> Some x \<noteq> r} \<subseteq> set ?rows2
         \<and> (case r of None \<Rightarrow> running_now p db = {} | Some x \<Rightarrow> x \<in> running_now p db \<and> x\<lparr>ap_endsAt := ap_endsAt row\<rparr> \<in> set ?rows2)"
  proof (cases "running_add_on p db")
    case None
    then show ?thesis using running_spec [of p db] set1 by (intro exI [of _ None]) auto
  next
    case (Some r)
    then have r: "r \<in> running_now p db" using running_spec [of p db] by simp
    then have r': "r \<in> set (addOnPurchases db)" "r \<noteq> p" using p(2) by (auto simp: running_now_def)
    have other: "ap_id x \<noteq> ap_id r" if "x \<in> set (addOnPurchases db)" "x \<noteq> r" for x
      using key_eq_rows [OF d that(1) r'(1)] that(2) by blast
    have "set ?rows2 = (\<lambda>x. x\<lparr>ap_endsAt := Some e\<rparr>) ` {x \<in> insert row (set (addOnPurchases db) - {p}). ap_id x = ap_id r}
        \<union> {x \<in> insert row (set (addOnPurchases db) - {p}). ap_id x \<noteq> ap_id r}"
      unfolding Some option.case by (rule upd)
    then show ?thesis using r r' other idrow(2) by (intro exI [of _ "Some r"]) auto
  qed
  have 4: "activate p (snd (activate p db)) = (None, snd (activate p db))"
    using 2 rows by (simp add: activate_def [of p "snd (activate p db)"] Let_def)
  show ?thesis using 1 rowin 3 4 unfolding rows by blast
qed

text \<open>A boost of three hours bought while one that ends at 5,000 runs, its invoice paid.\<close>

definition sample_purchase :: add_on_purchase where
  "sample_purchase = \<lparr>ap_id = 71, ap_tenantId = 7, ap_customerId = 3, ap_customerServiceId = 60, ap_addOnId = Some 8,
     ap_invoiceId = None, ap_status = AWAITING_PAYMENT, ap_name = ''Turbo'', ap_kind = DATA, ap_downloadKbps = None, ap_uploadKbps = None,
     ap_dataMb = Some 500, ap_durationHours = 3, ap_priceMinor = 100, ap_currency = ''KES'', ap_requestedBy = ''3'', ap_startsAt = None,
     ap_endsAt = None, ap_createdAt = 0\<rparr>"

definition boosted_db :: provisioning_db where
  "boosted_db = routed_db\<lparr>clock := 1000, invoices := [],
     addOnPurchases := [sample_purchase\<lparr>ap_id := 70, ap_status := PURCHASE_ACTIVE, ap_endsAt := Some 5000\<rparr>, sample_purchase]\<rparr>"

theorem bought_hours_are_delivered_witness:
  "map (\<lambda>p. (ap_id p, ap_endsAt p)) (addOnPurchases (snd (activate sample_purchase boosted_db))) = [(70, Some 10805000), (71, Some 10805000)]
   \<and> fst (activate sample_purchase boosted_db)
      = Some (sample_purchase\<lparr>ap_status := PURCHASE_ACTIVE, ap_startsAt := Some 1000, ap_endsAt := Some 10805000\<rparr>)"
proof
  have d: "distinct (map ap_id (addOnPurchases boosted_db))" "sample_purchase \<in> set (addOnPurchases boosted_db)"
    "ap_status sample_purchase = AWAITING_PAYMENT" by (simp_all add: boosted_db_def sample_purchase_def)
  have r: "running_now sample_purchase boosted_db = {sample_purchase\<lparr>ap_id := 70, ap_status := PURCHASE_ACTIVE, ap_endsAt := Some 5000\<rparr>}"
    by (auto simp: running_now_def boosted_db_def sample_purchase_def ends_after_def)
  have c: "clock boosted_db = 1000" "ap_durationHours sample_purchase = 3" by (simp_all add: boosted_db_def sample_purchase_def)
  from bought_hours_are_delivered [OF d, unfolded r] c
  show "fst (activate sample_purchase boosted_db)
      = Some (sample_purchase\<lparr>ap_status := PURCHASE_ACTIVE, ap_startsAt := Some 1000, ap_endsAt := Some 10805000\<rparr>)"
    by (simp add: HOUR_def)
  show "map (\<lambda>p. (ap_id p, ap_endsAt p)) (addOnPurchases (snd (activate sample_purchase boosted_db))) = [(70, Some 10805000), (71, Some 10805000)]"
    by (simp add: activate_def running_add_on_def boosted_db_def sample_purchase_def Let_def count_where_def addOnEndsAt_def HOUR_def ends_after_def)
qed

section \<open>The sweep\<close>

definition live :: "'x provisioning_db_scheme \<Rightarrow> id set" where
  "live db = ap_id ` {x \<in> set (addOnPurchases db). ap_status x = PURCHASE_ACTIVE \<and> ends_after (clock db) x}"

definition waiting :: "'x provisioning_db_scheme \<Rightarrow> add_on_purchase set" where
  "waiting db = {x \<in> set (addOnPurchases db). ap_status x = AWAITING_PAYMENT}"

lemma activate_frame [simp]:
  "invoices (snd (activate p db)) = invoices db" "clock (snd (activate p db)) = clock db"
  "map ap_id (addOnPurchases (snd (activate p db))) = map ap_id (addOnPurchases db)"
  by (simp_all add: activate_def Let_def map_update_where split: option.splits)

lemma activate_rows:
  assumes d: "distinct (map ap_id (addOnPurchases db))"
  shows "waiting (snd (activate p db)) = {x \<in> waiting db. ap_id x \<noteq> ap_id p}"
    and "0 \<le> ap_durationHours p \<Longrightarrow> live db \<subseteq> live (snd (activate p db))"
    and "p \<in> waiting db \<Longrightarrow> 0 < ap_durationHours p \<Longrightarrow> ap_id p \<in> live (snd (activate p db))"
proof -
  let ?claim = "\<lambda>x. ap_id x = ap_id p \<and> ap_status x = AWAITING_PAYMENT"
  define e where "e = addOnEndsAt (clock db) (ap_durationHours p) (case running_add_on p db of None \<Rightarrow> None | Some r \<Rightarrow> ap_endsAt r)"
  let ?claimed = "\<lambda>p. p\<lparr>ap_status := PURCHASE_ACTIVE, ap_startsAt := Some (clock db), ap_endsAt := Some e\<rparr>"
  let ?rows1 = "update_where ?claim ?claimed (addOnPurchases db)"
  let ?rows2 = "case running_add_on p db of None \<Rightarrow> ?rows1 | Some r \<Rightarrow> update_where (\<lambda>x. ap_id x = ap_id r) (\<lambda>x. x\<lparr>ap_endsAt := Some e\<rparr>) ?rows1"
  have none: "waiting (snd (activate p db)) = {x \<in> waiting db. ap_id x \<noteq> ap_id p} \<and> live db \<subseteq> live (snd (activate p db)) \<and> p \<notin> waiting db"
    if c: "count_where ?claim (addOnPurchases db) = 0"
  proof -
    have "x \<in> set (addOnPurchases db) \<Longrightarrow> \<not> ?claim x" for x using c by (auto simp: count_where_def filter_empty_conv)
    moreover have "snd (activate p db) = db" using c by (simp add: activate_def Let_def)
    ultimately show ?thesis by (auto simp: waiting_def)
  qed
  have some: "waiting (snd (activate p db)) = {x \<in> waiting db. ap_id x \<noteq> ap_id p}
      \<and> (0 \<le> ap_durationHours p \<longrightarrow> live db \<subseteq> live (snd (activate p db)))
      \<and> (p \<in> waiting db \<and> 0 < ap_durationHours p \<longrightarrow> ap_id p \<in> live (snd (activate p db)))"
    if c: "count_where ?claim (addOnPurchases db) \<noteq> 0"
  proof -
    have rows: "addOnPurchases (snd (activate p db)) = ?rows2"
      using c by (cases "running_add_on p db"; simp add: activate_def Let_def e_def)+
    have later: "0 < ap_durationHours p \<Longrightarrow> clock db < e" by (auto simp: e_def addOnEndsAt_def HOUR_def split: option.splits)
    show ?thesis
    proof (cases "running_add_on p db")
      case None
      then have r: "addOnPurchases (snd (activate p db)) = ?rows1" using rows by simp
      show ?thesis unfolding waiting_def live_def r
        by (auto simp: set_update_where image_iff ends_after_def later)
    next
      case (Some r)
      then have run: "r \<in> set (addOnPurchases db)" "ap_status r = PURCHASE_ACTIVE" "ends_after (clock db) r"
        using running_spec [of p db] by (auto simp: running_now_def)
      have same: "x = r" if "x \<in> set (addOnPurchases db)" "ap_id x = ap_id r" for x by (rule key_eq_rows [OF d that(1) run(1) that(2)])
      have later0: "0 \<le> ap_durationHours p \<Longrightarrow> clock db < e"
        using run(3) by (auto simp: e_def Some addOnEndsAt_def HOUR_def ends_after_def split: option.splits)
      let ?ext = "\<lambda>x. x\<lparr>ap_endsAt := Some e\<rparr>"
      have r2: "addOnPurchases (snd (activate p db)) = update_where (\<lambda>x. ap_id x = ap_id r) ?ext ?rows1" using rows Some by simp
      have w: "x \<in> waiting db \<and> ap_id x \<noteq> ap_id p" if "x \<in> waiting (snd (activate p db))" for x
      proof -
        have x: "x \<in> set (update_where (\<lambda>x. ap_id x = ap_id r) ?ext ?rows1)" "ap_status x = AWAITING_PAYMENT"
          using that unfolding waiting_def r2 by auto
        then consider y where "y \<in> set ?rows1" "ap_id y = ap_id r" "x = ?ext y" | "x \<in> set ?rows1" "ap_id x \<noteq> ap_id r"
          by (subst (asm) set_update_where) auto
        then show ?thesis
        proof cases
          case 1
          then have "ap_status y = AWAITING_PAYMENT" using x(2) by simp
          then have "y \<in> set (addOnPurchases db)" using 1(1) by (auto simp: set_update_where)
          then show ?thesis using same [of y] 1(2) run(2) \<open>ap_status y = AWAITING_PAYMENT\<close> by simp
        next
          case 2
          then show ?thesis using x(2) by (auto simp: set_update_where waiting_def)
        qed
      qed
      have put: "(if ap_id y = ap_id r then ?ext y else y) \<in> set (addOnPurchases (snd (activate p db)))" if "y \<in> set ?rows1" for y
        unfolding r2 by (subst set_update_where) (use that in auto)
      have l: "ap_id x \<in> live (snd (activate p db))"
        if "x \<in> set (addOnPurchases db)" "ap_status x = PURCHASE_ACTIVE" "ends_after (clock db) x" "0 \<le> ap_durationHours p" for x
      proof -
        have "x \<in> set ?rows1" using that(1,2) by (auto simp: set_update_where)
        from put [OF this] that later0 show ?thesis
          by (auto simp: live_def ends_after_def image_iff split: if_splits intro: bexI)
      qed
      have n: "ap_id p \<in> live (snd (activate p db))" if "p \<in> waiting db" "0 < ap_durationHours p"
      proof -
        have "?claimed p \<in> set ?rows1" using that(1) by (auto simp: set_update_where waiting_def)
        from put [OF this] later [OF that(2)] show ?thesis
          by (auto simp: live_def ends_after_def image_iff split: if_splits intro: bexI)
      qed
      have k: "x \<in> waiting (snd (activate p db))" if "x \<in> waiting db" "ap_id x \<noteq> ap_id p" for x
      proof -
        have x: "x \<in> set (addOnPurchases db)" "ap_status x = AWAITING_PAYMENT" using that(1) by (simp_all add: waiting_def)
        then have "x \<in> set ?rows1" "ap_id x \<noteq> ap_id r" using that(2) same [of x] run(2) by (auto simp: set_update_where)
        from put [OF this(1)] this(2) x(2) show ?thesis by (simp add: waiting_def)
      qed
      show ?thesis using w k l n by (auto simp: live_def)
    qed
  qed
  show "waiting (snd (activate p db)) = {x \<in> waiting db. ap_id x \<noteq> ap_id p}" using none some by blast
  show "0 \<le> ap_durationHours p \<Longrightarrow> live db \<subseteq> live (snd (activate p db))" using none some by blast
  show "p \<in> waiting db \<Longrightarrow> 0 < ap_durationHours p \<Longrightarrow> ap_id p \<in> live (snd (activate p db))" using none some by blast
qed

lemma activate_all_rows:
  assumes "distinct (map ap_id (addOnPurchases db))" and "distinct (map ap_id ps)"
  shows "invoices (snd (activate_all ps db)) = invoices db \<and> clock (snd (activate_all ps db)) = clock db
    \<and> map ap_id (addOnPurchases (snd (activate_all ps db))) = map ap_id (addOnPurchases db)
    \<and> waiting (snd (activate_all ps db)) = {x \<in> waiting db. ap_id x \<notin> ap_id ` set ps}
    \<and> ((\<forall>p \<in> set ps. 0 < ap_durationHours p) \<longrightarrow> live db \<subseteq> live (snd (activate_all ps db))
         \<and> ap_id ` (set ps \<inter> waiting db) \<subseteq> live (snd (activate_all ps db)))"
  using assms
proof (induction ps arbitrary: db)
  case Nil
  then show ?case by simp
next
  case (Cons p ps)
  have s: "snd (activate_all (p # ps) db) = snd (activate_all ps (snd (activate p db)))" by (simp split: prod.splits)
  have d1: "distinct (map ap_id (addOnPurchases (snd (activate p db))))" using Cons.prems(1) by simp
  have d2: "distinct (map ap_id ps)" "ap_id p \<notin> ap_id ` set ps" using Cons.prems(2) by simp_all
  note one = activate_rows [OF Cons.prems(1), of p] and rest = Cons.IH [OF d1 d2(1)]
  have l: "ap_id ` (set (p # ps) \<inter> waiting db) \<subseteq> live (snd (activate_all (p # ps) db))"
    if h: "\<forall>x \<in> set (p # ps). 0 < ap_durationHours x"
  proof
    fix k assume "k \<in> ap_id ` (set (p # ps) \<inter> waiting db)"
    then obtain x where x: "k = ap_id x" "x \<in> set (p # ps)" "x \<in> waiting db" by auto
    have live: "live (snd (activate p db)) \<subseteq> live (snd (activate_all ps (snd (activate p db))))" using rest h by simp
    show "k \<in> live (snd (activate_all (p # ps) db))"
    proof (cases "ap_id x = ap_id p")
      case True
      then have "x = p" using x(2) d2(2) by (auto simp: image_iff)
      then show ?thesis using one(3) x h live unfolding s by auto
    next
      case False
      then have "x \<in> set ps \<inter> waiting (snd (activate p db))" using x one(1) by auto
      then show ?thesis using rest h x(1) unfolding s by auto
    qed
  qed
  have w: "waiting (snd (activate_all (p # ps) db)) = {x \<in> waiting db. ap_id x \<notin> ap_id ` set (p # ps)}"
    using rest one(1) unfolding s by auto
  have m: "live db \<subseteq> live (snd (activate_all (p # ps) db))" if h: "\<forall>x \<in> set (p # ps). 0 < ap_durationHours x"
  proof -
    have "live db \<subseteq> live (snd (activate p db))" using one(2) h by simp
    also have "\<dots> \<subseteq> live (snd (activate_all ps (snd (activate p db))))" using rest h by simp
    finally show ?thesis unfolding s .
  qed
  have f: "invoices (snd (activate_all (p # ps) db)) = invoices db \<and> clock (snd (activate_all (p # ps) db)) = clock db
    \<and> map ap_id (addOnPurchases (snd (activate_all (p # ps) db))) = map ap_id (addOnPurchases db)"
    using rest unfolding s by simp
  show ?case using f w m l by blast
qed

text \<open>Cancelling and expiring are one update of the rows named.\<close>

lemma update_where_twice:
  assumes "\<And>r. k (f r) = k r" "\<And>r. f (f r) = f r"
  shows "update_where (\<lambda>x. k x \<in> A) f (update_where (\<lambda>x. k x = i) f t) = update_where (\<lambda>x. k x \<in> insert i A) f t"
  using assms by (induction t) auto

lemma expire_rows:
  "addOnPurchases (fold (\<lambda>p. update_purchases (\<lambda>x. ap_id x = ap_id p) (\<lambda>x. x\<lparr>ap_status := PURCHASE_EXPIRED\<rparr>)) due db)
    = update_where (\<lambda>x. ap_id x \<in> ap_id ` set due) (\<lambda>x. x\<lparr>ap_status := PURCHASE_EXPIRED\<rparr>) (addOnPurchases db)
   \<and> invoices (fold (\<lambda>p. update_purchases (\<lambda>x. ap_id x = ap_id p) (\<lambda>x. x\<lparr>ap_status := PURCHASE_EXPIRED\<rparr>)) due db) = invoices db
   \<and> clock (fold (\<lambda>p. update_purchases (\<lambda>x. ap_id x = ap_id p) (\<lambda>x. x\<lparr>ap_status := PURCHASE_EXPIRED\<rparr>)) due db) = clock db"
proof (induction due arbitrary: db)
  case Nil
  then show ?case by (simp add: update_where_none)
next
  case (Cons p due)
  then show ?case
    using update_where_twice [of ap_id "\<lambda>x. x\<lparr>ap_status := PURCHASE_EXPIRED\<rparr>" "ap_id ` set due" "ap_id p"] by simp
qed

lemma refresh_all_frame:
  "addOnPurchases (fold (\<lambda>(t, s) d. snd (refreshSubscriberRate t s d)) xs db) = addOnPurchases db
   \<and> invoices (fold (\<lambda>(t, s) d. snd (refreshSubscriberRate t s d)) xs db) = invoices db
   \<and> clock (fold (\<lambda>(t, s) d. snd (refreshSubscriberRate t s d)) xs db) = clock db"
  by (induction xs arbitrary: db) auto

lemma cancel_rows:
  "addOnPurchases (fold cancel_purchase stale db)
    = update_where (\<lambda>x. ap_id x \<in> ap_id ` set stale) (\<lambda>x. x\<lparr>ap_status := PURCHASE_CANCELLED\<rparr>) (addOnPurchases db)
   \<and> invoices (fold cancel_purchase stale db)
    = update_where (\<lambda>x. Some (i_id x) \<in> ap_invoiceId ` set stale) (\<lambda>x. x\<lparr>i_status := I_CANCELLED\<rparr>) (invoices db)
   \<and> clock (fold cancel_purchase stale db) = clock db"
proof (induction stale arbitrary: db)
  case Nil
  then show ?case by (simp add: update_where_none)
next
  case (Cons p stale)
  have inv: "update_where (\<lambda>x. Some (i_id x) \<in> ap_invoiceId ` set stale) (\<lambda>x. x\<lparr>i_status := I_CANCELLED\<rparr>) (invoices (cancel_purchase p db))
      = update_where (\<lambda>x. Some (i_id x) \<in> ap_invoiceId ` set (p # stale)) (\<lambda>x. x\<lparr>i_status := I_CANCELLED\<rparr>) (invoices db)"
  proof (cases "ap_invoiceId p")
    case None
    then show ?thesis by (simp add: cancel_purchase_def)
  next
    case (Some i)
    have "(\<lambda>x. i_id x = i) = (\<lambda>x. Some (i_id x) = Some i)" by simp
    then show ?thesis
      using update_where_twice [of "\<lambda>x. Some (i_id x)" "\<lambda>x. x\<lparr>i_status := I_CANCELLED\<rparr>" "ap_invoiceId ` set stale" "Some i" "invoices db"]
      by (simp add: cancel_purchase_def update_invoice_def Some)
  qed
  have ap: "addOnPurchases (cancel_purchase p db) = update_where (\<lambda>x. ap_id x = ap_id p) (\<lambda>x. x\<lparr>ap_status := PURCHASE_CANCELLED\<rparr>) (addOnPurchases db)"
    "clock (cancel_purchase p db) = clock db"
    by (simp_all add: cancel_purchase_def update_invoice_def Let_def split: option.splits)
  show ?case
    using Cons.IH [of "cancel_purchase p db"] inv ap
      update_where_twice [of ap_id "\<lambda>x. x\<lparr>ap_status := PURCHASE_CANCELLED\<rparr>" "ap_id ` set stale" "ap_id p" "addOnPurchases db"] by simp
qed

lemma set_update_keys:
  assumes "\<And>r. k (f r) = k r"
  shows "x \<in> set (update_where (\<lambda>r. k r \<in> A) f t) \<longleftrightarrow> (\<exists>y \<in> set t. x = (if k y \<in> A then f y else y))"
  by (auto simp: update_where_def)

lemma expire_step:
  assumes d: "distinct (map ap_id (addOnPurchases db))" and e: "expireAddOns (clock db) db = (due, db2)"
  shows "waiting db2 = waiting db" and "live db \<subseteq> live db2" and "\<And>x. x \<in> set (addOnPurchases db2) \<Longrightarrow> \<not> ended_by (clock db2) x"
    and "invoices db2 = invoices db" and "clock db2 = clock db" and "map ap_id (addOnPurchases db2) = map ap_id (addOnPurchases db)"
proof -
  let ?gone = "\<lambda>x. x\<lparr>ap_status := PURCHASE_EXPIRED\<rparr>"
  have due: "set due = {x \<in> set (addOnPurchases db). ended_by (clock db) x}"
    and rows: "addOnPurchases db2 = update_where (\<lambda>x. ap_id x \<in> ap_id ` set due) ?gone (addOnPurchases db)"
    and rest: "invoices db2 = invoices db" "clock db2 = clock db"
    using e by (auto simp: expireAddOns_def Let_def refresh_all_frame expire_rows)
  have hit: "ap_id x \<in> ap_id ` set due \<longleftrightarrow> ended_by (clock db) x" if "x \<in> set (addOnPurchases db)" for x
    using key_eq_rows [OF d] that due by (auto simp: image_iff)
  have mem: "x \<in> set (addOnPurchases db2) \<longleftrightarrow> (\<exists>y \<in> set (addOnPurchases db). x = (if ended_by (clock db) y then ?gone y else y))" for x
    unfolding rows by (subst set_update_keys) (use hit in auto)
  have kept: "x \<in> set (addOnPurchases db2)" if "x \<in> set (addOnPurchases db)" "\<not> ended_by (clock db) x" for x
    unfolding mem by (rule bexI [of _ x]) (use that in simp_all)
  show "waiting db2 = waiting db"
  proof
    show "waiting db2 \<subseteq> waiting db" by (auto simp: waiting_def mem split: if_splits)
    show "waiting db \<subseteq> waiting db2" using kept by (auto simp: waiting_def ended_by_def)
  qed
  show "live db \<subseteq> live db2"
  proof
    fix k assume "k \<in> live db"
    then obtain x where x: "k = ap_id x" "x \<in> set (addOnPurchases db)" "ap_status x = PURCHASE_ACTIVE" "ends_after (clock db) x" by (auto simp: live_def)
    then have "\<not> ended_by (clock db) x" by (auto simp: ended_by_def ends_after_def split: option.splits)
    then have "x \<in> set (addOnPurchases db2)" using x(2) mem by auto
    then show "k \<in> live db2" using x rest(2) by (auto simp: live_def)
  qed
  show "\<And>x. x \<in> set (addOnPurchases db2) \<Longrightarrow> \<not> ended_by (clock db2) x"
  proof -
    fix x assume "x \<in> set (addOnPurchases db2)"
    then obtain y where y: "x = (if ended_by (clock db) y then ?gone y else y)" unfolding mem by blast
    show "\<not> ended_by (clock db2) x"
    proof (cases "ended_by (clock db) y")
      case True
      then have "ap_status x = PURCHASE_EXPIRED" using y by simp
      then show ?thesis by (simp add: ended_by_def)
    qed (use y rest(2) in simp)
  qed
  show "invoices db2 = invoices db" "clock db2 = clock db" by (rule rest)+
  show "map ap_id (addOnPurchases db2) = map ap_id (addOnPurchases db)" unfolding rows by (rule map_update_where) simp
qed

lemma find_invoice_mem: "find_invoice i db = Some x \<Longrightarrow> x \<in> set (invoices db) \<and> i_id x = i"
  by (auto simp: find_invoice_def find_Some_iff)

lemma cancel_step:
  assumes d: "distinct (map ap_id (addOnPurchases db))" and i: "distinct (map i_id (invoices db))"
    and e: "cancelAbandonedAddOns (clock db) db = (n, db3)"
  shows "waiting db3 \<subseteq> waiting db" and "live db \<subseteq> live db3"
    and "\<And>x. x \<in> set (addOnPurchases db) \<Longrightarrow> ap_status x = PURCHASE_ACTIVE \<or> \<not> abandoned (clock db) db x \<Longrightarrow> x \<in> set (addOnPurchases db3)"
    and "\<And>x. x \<in> set (addOnPurchases db3) \<Longrightarrow> ap_status x = PURCHASE_ACTIVE \<Longrightarrow> x \<in> set (addOnPurchases db)"
    and "\<And>x. x \<in> waiting db3 \<Longrightarrow> \<not> abandoned (clock db3) db3 x"
    and "\<And>x. x \<in> waiting db3 \<Longrightarrow> invoice_status_of db3 x = Some I_PAID \<Longrightarrow> invoice_status_of db x = Some I_PAID"
    and "clock db3 = clock db" and "map i_amountPaidMinor (invoices db3) = map i_amountPaidMinor (invoices db)"
    and "{x \<in> set (invoices db). 0 < i_amountPaidMinor x \<or> i_status x \<notin> {I_PENDING, I_OVERDUE}} \<subseteq> set (invoices db3)"
proof -
  let ?out = "\<lambda>x. x\<lparr>ap_status := PURCHASE_CANCELLED\<rparr>" and ?void = "\<lambda>x. x\<lparr>i_status := I_CANCELLED\<rparr>"
  define stale where "stale = filter (abandoned (clock db) db) (addOnPurchases db)"
  have db3: "db3 = fold cancel_purchase stale db" using e by (simp add: cancelAbandonedAddOns_def Let_def stale_def)
  have rows: "addOnPurchases db3 = update_where (\<lambda>x. ap_id x \<in> ap_id ` set stale) ?out (addOnPurchases db)"
    and bills: "invoices db3 = update_where (\<lambda>x. Some (i_id x) \<in> ap_invoiceId ` set stale) ?void (invoices db)"
    and c: "clock db3 = clock db"
    using cancel_rows [of stale db] unfolding db3 by simp_all
  have hit: "ap_id x \<in> ap_id ` set stale \<longleftrightarrow> abandoned (clock db) db x" if "x \<in> set (addOnPurchases db)" for x
    using key_eq_rows [OF d] that by (auto simp: image_iff stale_def)
  have mem: "x \<in> set (addOnPurchases db3) \<longleftrightarrow> (\<exists>y \<in> set (addOnPurchases db). x = (if abandoned (clock db) db y then ?out y else y))" for x
    unfolding rows by (subst set_update_keys) (use hit in auto)
  have found: "find_invoice j db3 = (case find_invoice j db of None \<Rightarrow> None | Some x \<Rightarrow> if Some j \<in> ap_invoiceId ` set stale then Some (?void x) else Some x)" for j
  proof -
    have "List.find (\<lambda>r. i_id r = j) (update_where (\<lambda>x. Some (i_id x) \<in> A) ?void t) =
        (case List.find (\<lambda>r. i_id r = j) t of None \<Rightarrow> None | Some x \<Rightarrow> if Some j \<in> A then Some (?void x) else Some x)" for A t
      by (induction t) auto
    then show ?thesis by (simp only: find_invoice_def bills)
  qed
  have act: "\<not> abandoned (clock db) db x" if "ap_status x = PURCHASE_ACTIVE" for x using that by (simp add: abandoned_def)
  show w: "waiting db3 \<subseteq> waiting db" by (auto simp: waiting_def mem split: if_splits)
  show keep: "\<And>x. x \<in> set (addOnPurchases db) \<Longrightarrow> ap_status x = PURCHASE_ACTIVE \<or> \<not> abandoned (clock db) db x \<Longrightarrow> x \<in> set (addOnPurchases db3)"
    using act mem by auto
  show "\<And>x. x \<in> set (addOnPurchases db3) \<Longrightarrow> ap_status x = PURCHASE_ACTIVE \<Longrightarrow> x \<in> set (addOnPurchases db)"
    by (auto simp: mem split: if_splits)
  show "live db \<subseteq> live db3" using keep by (auto simp: live_def c)
  show "clock db3 = clock db" by (rule c)
  show "map i_amountPaidMinor (invoices db3) = map i_amountPaidMinor (invoices db)" unfolding bills by (rule map_update_where) simp
  have still: "\<not> abandoned (clock db) db x" if x: "x \<in> waiting db3" for x
  proof -
    obtain y where y: "x = (if abandoned (clock db) db y then ?out y else y)" using x by (auto simp: waiting_def mem)
    show ?thesis
    proof (cases "abandoned (clock db) db y")
      case True
      then have "ap_status x = PURCHASE_CANCELLED" using y by simp
      then show ?thesis using x by (simp add: waiting_def)
    qed (use y in simp)
  qed
  show "\<And>x. x \<in> waiting db3 \<Longrightarrow> \<not> abandoned (clock db3) db3 x"
  proof -
    fix x assume "x \<in> waiting db3"
    moreover have "abandoned (clock db3) db3 x \<Longrightarrow> abandoned (clock db) db x"
      unfolding c by (auto simp: abandoned_def invoice_of_def found split: option.splits if_splits)
    ultimately show "\<not> abandoned (clock db3) db3 x" using still by blast
  qed
  show "\<And>x. x \<in> waiting db3 \<Longrightarrow> invoice_status_of db3 x = Some I_PAID \<Longrightarrow> invoice_status_of db x = Some I_PAID"
    by (auto simp: invoice_status_of_def found split: option.splits if_splits)
  show "{x \<in> set (invoices db). 0 < i_amountPaidMinor x \<or> i_status x \<notin> {I_PENDING, I_OVERDUE}} \<subseteq> set (invoices db3)"
  proof
    fix x assume x: "x \<in> {x \<in> set (invoices db). 0 < i_amountPaidMinor x \<or> i_status x \<notin> {I_PENDING, I_OVERDUE}}"
    have "Some (i_id x) \<notin> ap_invoiceId ` set stale"
    proof
      assume "Some (i_id x) \<in> ap_invoiceId ` set stale"
      then obtain p where p: "p \<in> set stale" "ap_invoiceId p = Some (i_id x)" by auto
      have "find_invoice (i_id x) db = Some x" unfolding find_invoice_def by (rule find_key_unique [OF i]) (use x in simp)
      then show False using p x by (auto simp: stale_def abandoned_def invoice_of_def)
    qed
    then show "x \<in> set (invoices db3)" using x by (auto simp: bills set_update_where)
  qed
qed

text \<open>
  C8. One sweep settles the add-ons. Every purchase that waited with its invoice paid runs; none that has
  ended is still active; none waits with its invoice paid, and none that was abandoned waits; what
  still runs stays; and no invoice with money in it, or that is closed, is touched.
\<close>

theorem sweep_settles_add_ons:
  fixes db :: "'x provisioning_db_scheme"
  assumes d: "distinct (map ap_id (addOnPurchases db))" and i: "distinct (map i_id (invoices db))"
    and h: "list_all (\<lambda>p. 0 < ap_durationHours p) (addOnPurchases db)"
    and s: "sweepAddOns db = (counts, db')"
  shows "live db \<union> ap_id ` {p \<in> set (addOnPurchases db). ap_status p = AWAITING_PAYMENT \<and> invoice_status_of db p = Some I_PAID} \<subseteq> live db'
    \<and> {p \<in> set (addOnPurchases db'). ended_by (clock db') p} = {}
    \<and> {p \<in> set (addOnPurchases db'). ap_status p = AWAITING_PAYMENT \<and> (invoice_status_of db' p = Some I_PAID \<or> abandoned (clock db') db' p)} = {}
    \<and> {x \<in> set (invoices db). 0 < i_amountPaidMinor x \<or> i_status x \<notin> {I_PENDING, I_OVERDUE}} \<subseteq> set (invoices db')
    \<and> map i_amountPaidMinor (invoices db') = map i_amountPaidMinor (invoices db)"
proof -
  define ps where "ps = filter (\<lambda>p. ap_status p = AWAITING_PAYMENT \<and> invoice_status_of db p = Some I_PAID) (addOnPurchases db)"
  obtain started db1 where a: "activate_all ps db = (started, db1)" by fastforce
  obtain due db2 where e: "expireAddOns (clock db1) db1 = (due, db2)" by fastforce
  obtain n where c: "cancelAbandonedAddOns (clock db2) db2 = (n, db')"
    using s a e unfolding ps_def by (auto simp: sweepAddOns_def activatePaidAddOns_def split: prod.splits)
  have dp: "distinct (map ap_id ps)" using d unfolding ps_def by (rule distinct_map_filter)
  have hp: "\<forall>p \<in> set ps. 0 < ap_durationHours p" using h by (auto simp: ps_def list_all_iff)
  note one = activate_all_rows [OF d dp, unfolded a snd_conv]
  have d1: "distinct (map ap_id (addOnPurchases db1))" and i1: "invoices db1 = invoices db" using one d by simp_all
  note two = expire_step [OF d1 e]
  have d2: "distinct (map ap_id (addOnPurchases db2))" and i2: "distinct (map i_id (invoices db2))" using two(4,6) d1 i1 i by simp_all
  note three = cancel_step [OF d2 i2 c]
  have inv2: "invoices db2 = invoices db" using two(4) i1 by simp
  have w1: "waiting db1 = {x \<in> waiting db. ap_id x \<notin> ap_id ` set ps}" and l1: "live db \<subseteq> live db1" "ap_id ` (set ps \<inter> waiting db) \<subseteq> live db1"
    using one hp by blast+
  have psw: "set ps \<inter> waiting db = {p \<in> set (addOnPurchases db). ap_status p = AWAITING_PAYMENT \<and> invoice_status_of db p = Some I_PAID}"
    by (auto simp: ps_def waiting_def)
  have L: "live db \<union> ap_id ` {p \<in> set (addOnPurchases db). ap_status p = AWAITING_PAYMENT \<and> invoice_status_of db p = Some I_PAID} \<subseteq> live db'"
    using l1 two(2) three(2) unfolding psw by blast
  have E: "{p \<in> set (addOnPurchases db'). ended_by (clock db') p} = {}"
    using two(3) three(4) unfolding three(7) by (auto simp: ended_by_def)
  have nopaid: "invoice_status_of db' x \<noteq> Some I_PAID" if x: "x \<in> waiting db'" for x
  proof
    assume "invoice_status_of db' x = Some I_PAID"
    then have "invoice_status_of db2 x = Some I_PAID" using three(6) x by blast
    then have "invoice_status_of db x = Some I_PAID" by (auto simp: invoice_status_of_def find_invoice_def inv2 split: option.splits)
    moreover have "x \<in> waiting db1" using x three(1) two(1) by blast
    ultimately show False unfolding w1 by (auto simp: ps_def waiting_def)
  qed
  have W: "{p \<in> set (addOnPurchases db'). ap_status p = AWAITING_PAYMENT \<and> (invoice_status_of db' p = Some I_PAID \<or> abandoned (clock db') db' p)} = {}"
    using nopaid three(5) by (auto simp: waiting_def)
  show ?thesis using L E W three(8,9) unfolding inv2 by blast
qed

text \<open>A boost that ended, one paid for, and one nobody paid for in two hours.\<close>

definition unswept_db :: provisioning_db where
  "unswept_db = boosted_db\<lparr>clock := 8000000,
     invoices := [sample_invoice, sample_invoice\<lparr>i_id := 80, i_status := I_PAID, i_amountPaidMinor := 100\<rparr>],
     addOnPurchases := [sample_purchase\<lparr>ap_id := 70, ap_status := PURCHASE_ACTIVE, ap_endsAt := Some 5000\<rparr>,
       sample_purchase\<lparr>ap_invoiceId := Some 80\<rparr>, sample_purchase\<lparr>ap_id := 72, ap_invoiceId := Some 70\<rparr>]\<rparr>"

theorem sweep_settles_add_ons_witness:
  "71 \<in> live (snd (sweepAddOns unswept_db)) \<and> {p \<in> set (addOnPurchases (snd (sweepAddOns unswept_db))). ended_by (clock (snd (sweepAddOns unswept_db))) p} = {}
   \<and> sample_invoice\<lparr>i_id := 80, i_status := I_PAID, i_amountPaidMinor := 100\<rparr> \<in> set (invoices (snd (sweepAddOns unswept_db)))"
proof -
  obtain counts db' where s: "sweepAddOns unswept_db = (counts, db')" by fastforce
  have d: "distinct (map ap_id (addOnPurchases unswept_db))" "distinct (map i_id (invoices unswept_db))"
    "list_all (\<lambda>p. 0 < ap_durationHours p) (addOnPurchases unswept_db)"
    by (simp_all add: unswept_db_def sample_purchase_def sample_invoice_def)
  let ?p = "sample_purchase\<lparr>ap_invoiceId := Some 80\<rparr>" and ?i = "sample_invoice\<lparr>i_id := 80, i_status := I_PAID, i_amountPaidMinor := 100\<rparr>"
  have p: "?p \<in> {p \<in> set (addOnPurchases unswept_db). ap_status p = AWAITING_PAYMENT \<and> invoice_status_of unswept_db p = Some I_PAID}"
    by (simp add: unswept_db_def sample_purchase_def sample_invoice_def invoice_status_of_def find_invoice_def)
  have i: "?i \<in> {x \<in> set (invoices unswept_db). 0 < i_amountPaidMinor x \<or> i_status x \<notin> {I_PENDING, I_OVERDUE}}"
    by (simp add: unswept_db_def)
  note ok = sweep_settles_add_ons [OF d s]
  have "ap_id ?p \<in> live db'" by (rule subsetD [OF conjunct1 [OF ok]]) (use p in blast)
  then have "71 \<in> live db'" by (simp add: sample_purchase_def)
  moreover have "?i \<in> set (invoices db')" by (rule subsetD [OF _ i]) (use ok in blast)
  moreover have "{p \<in> set (addOnPurchases db'). ended_by (clock db') p} = {}" using ok by blast
  ultimately show ?thesis unfolding s snd_conv by blast
qed

end
