(* ===== verification/Spec2Isabelle.thy ===== *)
theory Spec2Isabelle
  imports Reversals GatewaySystem IpPools RadiusServer PaybillPayments CardPayments Agents TwoStep BillingRuns AddOns
begin

text \<open>
  A model of the core of MashupKGrid, a platform on which internet providers (tenants) sell
  connections, bill for them, collect the money and run the network. The TypeScript services
  under packages/ hold the logic; apps/api and apps/worker call them from HTTP routes and timed
  jobs; PostgreSQL (through Prisma), Redis, RADIUS, MikroTik routers and payment providers are
  the outside world. The development models the services whose mistakes cost money or access:
  billing, payments and the payment gateway, RADIUS and the hotspot, the provisioning of routers,
  and signing in.

  How the parts work together. A customer is sold a package (\<open>Subscriptions\<close>): one
  transaction makes the subscription, its first invoice (\<open>Invoices\<close>, numbered by
  \<open>Sequence\<close>) and its network account (\<open>RadiusUsers\<close>). The worker's sweeps
  (\<open>BillingCycle\<close>) renew, mark overdue, suspend and reactivate. Money comes in by hand, from
  the wallet (\<open>Wallet\<close>, \<open>Payments\<close>, \<open>Reversals\<close>), by M-Pesa push
  (\<open>MpesaCallbacks\<close>), by paybill (\<open>PaybillPayments\<close>), by card
  (\<open>CardPayments\<close>) or in cash through a field agent (\<open>Agents\<close>). What the platform
  collects for a tenant goes through the gateway's ledger (\<open>Ledger\<close>, \<open>Fees\<close>), can be
  refunded (\<open>GatewayRefunds\<close>) and is paid out (\<open>Destinations\<close>, \<open>Settlements\<close>).
  Network changes are queued as jobs and carried to a router (\<open>Provisioning\<close>, over the wire
  format of \<open>RouterOsProtocol\<close>), and an add-on bought for a plan (\<open>AddOns\<close>)
  changes its speed while it runs; routers ask the embedded RADIUS server
  (\<open>RadiusPackets\<close>, \<open>RadiusServer\<close>) who may come in: subscribers, vouchers
  (\<open>Vouchers\<close>) and returning phones (\<open>HotspotDevices\<close>). Staff and customers sign in
  through \<open>SignIn\<close>, \<open>Totp\<close> and \<open>TwoStep\<close>.
\<close>

section \<open>Conventions\<close>

text \<open>
  State. A table is a list of row records in insertion order, holding the columns the modelled
  operations use, under the schema's names with a prefix per table. \<open>billing_db\<close>
  (\<open>Billing\<close>) is extended by record extension: by the gateway's tables (\<open>Ledger\<close>), the
  hotspot's, the RADIUS server's and M-Pesa's, and by the provisioning tables; operations are
  polymorphic in the extension, so that a billing operation runs unchanged on any of them.
  \<open>auth_db\<close> (\<open>SignIn\<close>) is separate. Each state holds the clock that one operation reads
  (once) and the counter from which new identifiers come. Work handed to the router side without
  waiting is appended to \<open>outbox\<close>.

  Operations. An operation that is one database transaction is a function into
  \<open>(result * state) result\<close>: \<open>Inl\<close> is the error thrown, and rolls back. An operation that
  writes outside a transaction, or talks to a provider or a device between two transactions, is a
  function into \<open>result * state\<close>, since what it wrote before an error stays written. Errors
  are the constructors of \<open>app_error\<close> (packages/shared/src/errors.ts) and Prisma's. Row locks
  (\<open>FOR UPDATE\<close>) are implied by a transaction being one step; where the source
  relies on them between processes, the step relations interleave transactions.

  Values. Money is an \<open>int\<close> in minor units; the columns' overflow is not modelled. Times are
  milliseconds. Strings are lists of bytes, the UTF-8 form, with ASCII case mapping; RADIUS and
  RouterOS bytes are \<open>8 word\<close>; JavaScript's bit operators act on \<open>32 word\<close>. \<open>Math.round\<close> is
  \<open>round_div\<close>, written on integers.

  Parameters. Random draws, hash functions, ciphers, signatures, password hashing, provider and
  device calls, the delivery of messages and stored configuration that is decrypted elsewhere are
  arguments of the definitions; where a theorem needs a fact of one (a digest has
  sixteen bytes) it is a hypothesis, and the witness instantiates it. Foreign keys are not
  modelled: a reference to a missing row is the branch the code takes for a missing row.

  Bounds and termination. Loops over lists are structural recursions or folds. Retry loops carry the source's own limit
  (five attempts for a number or a voucher code, five for a provisioning job). The frame reader of a
  router's byte stream, the attribute parser and the block ciphers of RADIUS are \<open>function\<close>s
  with termination proofs on the bytes left. Nothing uses fuel that the source does not have,
  except the secret generator, whose list of random draws may run out (\<open>None\<close>).
\<close>

section \<open>Theories and sources\<close>

text \<open>
  \<^item> \<open>Prelude\<close>: errors, rounding, number texts, table operations (\<open>update_where\<close>,
    \<open>count_where\<close>, \<open>List.find\<close> with unique keys) and the collections \<open>table_simps\<close> and
    \<open>frame_simps\<close>.
  \<^item> \<open>Money\<close>: billing/src/money.ts; cycle lengths, pro rata, tax, net from gross.
  \<^item> \<open>Billing\<close>: the billing tables and access by identifier.
  \<^item> \<open>Sequence\<close>, \<open>Invoices\<close>, \<open>Wallet\<close>: sequence.ts, invoice.service.ts,
    wallet.service.ts. The locale \<open>numbered_rows\<close> (numbers without gaps or repeats) is interpreted for
    invoices, receipts and customers; \<open>protected_account\<close> (a balance that is never overdrawn) for wallets.
  \<^item> \<open>RadiusUsers\<close>: radius-user.service.ts, username.ts, pickEffectiveRate, generateAlnumSecret;
    \<open>radius_in_sync\<close> ties the accounts to radcheck.
  \<^item> \<open>BillingCycle\<close>: billing-cycle.service.ts; what each sweep changes, exactly.
  \<^item> \<open>Customers\<close>, \<open>Subscriptions\<close>, \<open>BillingRuns\<close>: customer.service.ts,
    package.service.ts, subscription.service.ts, pause.service.ts. \<open>access_ok\<close> (subscription and
    account agree) and \<open>rows_typed\<close> (tenants do not mix) are kept by each operation and so by every run
    \<open>run_ops\<close> of \<open>billing_op\<close>s.
  \<^item> \<open>Payments\<close>, \<open>Reversals\<close>: payment.service.ts; \<open>books_ok\<close> says that invoices, payments and
    receipts balance; a reversal undoes its payment, but for an overpayment credited to the wallet.
  \<^item> \<open>Fees\<close>, \<open>Ledger\<close>, \<open>GatewayInvariant\<close>, \<open>GatewayRefunds\<close>:
    payments/src/gateway/fees.ts, ledger.service.ts, common.ts, settings.service.ts,
    collection.service.ts, refund.service.ts. The locale \<open>append_only_journal\<close> is the ledger's contract.
  \<^item> \<open>Destinations\<close>, \<open>Settlements\<close>: destination.service.ts, providers.ts, settlement.service.ts;
    what a provider's answer, a lost answer and a late result do to a payout.
  \<^item> \<open>GatewaySystem\<close>: \<open>gw_step\<close>, one transaction of any gateway operation with everything else
    in between; reachable states keep \<open>gateway_ok\<close>, and each run refines the abstract account \<open>acct_step\<close>.
    Also the ledger checks of reconciliation.service.ts.
  \<^item> \<open>Phones\<close>, \<open>MpesaCallbacks\<close>, \<open>PaybillPayments\<close>: mpesa/phone.ts, sms/src/phone.ts,
    callback.service.ts, c2b.service.ts, payment-reference.service.ts; money that M-Pesa reports is
    recorded once, whatever is repeated or reordered.
  \<^item> \<open>CardPayments\<close>: payments/src/paystack and pesapal, transaction.service.ts and webhook.service.ts, with
    their public routes; over any run of starts, webhooks, notifications and queries the money recorded
    is that of the sales completed, each once.
  \<^item> \<open>Agents\<close>: billing/src/agent.service.ts; what an agent collects is on the books and owed by the
    agent, and the statements of consecutive months fit together.
  \<^item> \<open>AddOns\<close>: billing/src/addon.service.ts; hours bought are hours delivered, and one sweep starts
    what was paid for, ends what is over and cancels what was abandoned.
  \<^item> \<open>RouterOsProtocol\<close>: network/src/mikrotik/protocol.ts and routeros-client.ts; replies reach
    the command they answer however the stream is cut.
  \<^item> \<open>Provisioning\<close>: radius/src/provisioning.service.ts, rate.service.ts and
    worker/src/jobs/run-provisioning-jobs.ts; a router behind the record \<open>device_adapter\<close>.
  \<^item> \<open>IpPools\<close>: cidr.ts, ip-pool.service.ts; pools are exactly the host addresses; leasing refines a map.
  \<^item> \<open>RadiusPackets\<close>, \<open>RadiusServer\<close>: radius-server.ts; parsing, authenticators, answers, accounting.
  \<^item> \<open>Vouchers\<close>, \<open>HotspotDevices\<close>: hotspot-package.service.ts, voucher.service.ts,
    network/src/hotspot-device.service.ts.
  \<^item> \<open>SignIn\<close>: auth/src/session.ts, login.ts, registration.ts, rbac.ts, tokens.ts, shared/src/password.ts,
    the guards of api/src/plugins, and the worker's cleanup-expired-tokens.ts; \<open>auth_step\<close> is one call of any of them.
  \<^item> \<open>Totp\<close>, \<open>TwoStep\<close>: auth/src/totp.ts, api/src/services/mfa.service.ts and the login of
    auth.service.ts; Redis is maps with expiry.

  Each theory has, after its definitions, frame lemmas (what an operation leaves alone), the
  invariant it keeps, and the behaviour of its operations branch by branch. The properties are the
  theorems that a text with their number introduces; one with a hypothesis is followed by a
  witness that applies it to concrete rows.
\<close>

section \<open>Not modelled\<close>

text \<open>
  \<^item> apps/web, android, studio and infrastructure: user interfaces and deployment.
  \<^item> The routes of apps/api: checking of bodies, permissions and calls of the services modelled here; and its libraries
    for audit rows, queues, caches and webhooks, which wrap Redis and BullMQ.
  \<^item> The worker's e-mail, text message, report and router jobs: delivery to outside services.
  \<^item> HTTP clients (mpesa/daraja-client.ts, paystack, pesapal, sms, whatsapp, push, ai, google sign-in): parameters of
    what uses them. The hardware store and purchase attempts repeat the pattern of
    \<open>MpesaCallbacks\<close>.
  \<^item> The MikroTik adapter and setup scripts (mikrotik.adapter.ts, setup-script.ts, vlan-script.ts,
    router.service.ts): texts of RouterOS commands whose meaning is the router's; the engine
    that calls them is modelled against any adapter.
  \<^item> Reports, exports, analytics, invoices as PDF, campaigns, win-back, coverage and dunning: reads and
    messages over the tables whose invariants are proved here; referrals and upgrade suggestions. Of the agents, their
    invitation and the list with totals.
  \<^item> Row-level races inside one transaction under weaker isolation, foreign keys, and the overflow
    of integer columns.
\<close>

end
